(* ===== verification/Atlas_Prelude.thy ===== *)
theory Atlas_Prelude
  imports Main "HOL-Library.Word" "HOL-Library.Char_ord" "HOL-Library.List_Lexorder"
    "HOL-Library.Product_Lexorder" "HOL-Library.Sublist"
begin

text \<open>
  The vocabulary every component of the platform shares: identifiers, instants and
  durations, the errors a tenant transaction can raise, the transaction wrapper
  \<open>inTx\<close> that each \<open>Store\<close> of the Go code repeats, the handful of SQL shapes the
  generated queries use (select, guarded update, \<open>DISTINCT ON\<close>), and
  \<open>strings.TrimSpace\<close>. The generic facts about them are collected in
  \<open>sql_simps\<close> and \<open>tx_simps\<close>.

  Conventions. A Go \<open>string\<close> or \<open>[]byte\<close> is a list of 8-bit characters. A
  \<open>uuid.UUID\<close> is a 128-bit word and \<open>uuid.Nil\<close> is 0; a freshly drawn identifier is
  an argument. A \<open>time.Time\<close> is the number of nanoseconds since Go's zero time, so
  \<open>IsZero\<close> is comparison with 0, and a \<open>time.Duration\<close> is a number of nanoseconds.
  A Go map is a partial function or an association list. A table is the list of its
  rows. A wall clock or database clock reading is an argument.
\<close>

named_theorems sql_simps "the SQL shapes"
named_theorems tx_simps "the tenant transaction"

type_synonym bytes = string
type_synonym uuid = "128 word"
type_synonym gotime = int
type_synonym duration = int

definition hours :: "int \<Rightarrow> duration" where
  "hours n = n * 3600000000000"

definition days :: "int \<Rightarrow> duration" where
  "days n = hours (24 * n)"

lemma days_mono [simp]: "days m \<le> days n \<longleftrightarrow> m \<le> n"
  by (simp add: days_def hours_def)

lemma days_pos [simp]: "0 < days n \<longleftrightarrow> 0 < n"
  by (simp add: days_def hours_def zero_less_mult_iff)


text \<open>A timestamp column keeps microseconds.\<close>

definition pgTime :: "gotime \<Rightarrow> gotime" where
  "pgTime t = t div 1000 * 1000"

lemma pgTime_mono: "a \<le> b \<Longrightarrow> pgTime a \<le> pgTime b"
  by (simp add: pgTime_def zdiv_mono1)

lemma pgTime_add_days: "pgTime (a + days n) = pgTime a + days n"
proof -
  have d: "days n = n * 86400000000 * 1000" by (simp add: days_def hours_def)
  have "(a + n * 86400000000 * 1000) div 1000 = a div 1000 + n * 86400000000"
    by (rule div_mult_self1 [THEN trans]) simp_all
  then show ?thesis unfolding pgTime_def d by (simp only: distrib_right)
qed

lemma pgTime_days [simp]: "pgTime (days n) = days n"
  using pgTime_add_days [of 0 n] by (simp add: pgTime_def)


section \<open>Tenant transactions\<close>

text \<open>
  Every store method runs its body through \<open>inTx\<close>: the tenant is taken from the
  context and parsed, a transaction is opened, the tenant setting is applied, the body
  runs, and the transaction commits; on any error it rolls back. \<open>te_tenant\<close> is the
  value under the tenancy key, \<open>te_parse\<close> stands for \<open>uuid.Parse\<close> of the uuid
  package, and the three flags say whether the database accepted begin, set-config and
  commit.
\<close>

record txenv =
  te_tenant :: "string option"
  te_parse :: "string \<Rightarrow> uuid option"
  te_begin_ok :: bool
  te_apply_ok :: bool
  te_commit_ok :: bool

datatype tx_error = ErrNoTenant | ErrParseTenant | ErrBegin | ErrSetConfig | ErrCommit

datatype 'e err = Tx tx_error | Dom 'e

definition TenantFromContext :: "txenv \<Rightarrow> tx_error + string" where
  "TenantFromContext env =
     (case te_tenant env of None \<Rightarrow> Inl ErrNoTenant
      | Some v \<Rightarrow> if v = [] then Inl ErrNoTenant else Inr v)"

definition WithTenant :: "txenv \<Rightarrow> string \<Rightarrow> tx_error + txenv" where
  "WithTenant ctx tenantID =
     (if tenantID = [] then Inl ErrNoTenant else Inr (ctx\<lparr>te_tenant := Some tenantID\<rparr>))"

definition ApplyTenant :: "txenv \<Rightarrow> tx_error + string" where
  "ApplyTenant env =
     (case TenantFromContext env of Inl e \<Rightarrow> Inl e
      | Inr t \<Rightarrow> if te_apply_ok env then Inr t else Inl ErrSetConfig)"

definition inTx :: "txenv \<Rightarrow> (uuid \<Rightarrow> 's \<Rightarrow> 'e + 'a \<times> 's) \<Rightarrow> 's \<Rightarrow> ('e err + 'a) \<times> 's" where
  "inTx env fn s =
     (case TenantFromContext env of Inl e \<Rightarrow> (Inl (Tx e), s)
      | Inr tenantStr \<Rightarrow>
        (case te_parse env tenantStr of None \<Rightarrow> (Inl (Tx ErrParseTenant), s)
         | Some tenantID \<Rightarrow>
           if \<not> te_begin_ok env then (Inl (Tx ErrBegin), s)
           else
             (case ApplyTenant env of Inl e \<Rightarrow> (Inl (Tx e), s)
              | Inr _ \<Rightarrow>
                (case fn tenantID s of Inl e \<Rightarrow> (Inl (Dom e), s)
                 | Inr (a, s') \<Rightarrow>
                   if te_commit_ok env then (Inr a, s') else (Inl (Tx ErrCommit), s)))))"

definition tenant_of :: "txenv \<Rightarrow> uuid option" where
  "tenant_of env =
     (case TenantFromContext env of Inl _ \<Rightarrow> None | Inr t \<Rightarrow> te_parse env t)"

definition tx_ok :: "txenv \<Rightarrow> bool" where
  "tx_ok env \<longleftrightarrow> te_begin_ok env \<and> te_apply_ok env \<and> te_commit_ok env"

text \<open>A transaction that reports success committed exactly what its body produced.\<close>

lemma inTx_Inr_iff [tx_simps]:
  "inTx env fn s = (Inr a, s') \<longleftrightarrow>
     tx_ok env \<and> (\<exists>t. tenant_of env = Some t \<and> fn t s = Inr (a, s'))"
  by (auto simp: inTx_def tx_ok_def tenant_of_def ApplyTenant_def
      split: sum.splits option.splits prod.splits if_splits)

text \<open>A transaction that reports an error leaves the database as it was.\<close>

lemma inTx_rollback: "inTx env fn s = (Inl e, s') \<Longrightarrow> s' = s"
  by (auto simp: inTx_def split: sum.splits option.splits prod.splits if_splits)

lemma inTx_cases:
  assumes "inTx env fn s = (r, s')"
  obtains (fail) e where "r = Inl e" "s' = s"
  | (commit) t a where "r = Inr a" "tenant_of env = Some t" "tx_ok env" "fn t s = Inr (a, s')"
  using assms by (cases r) (auto simp: inTx_Inr_iff dest: inTx_rollback)

text \<open>A body that only reads leaves the database unchanged whatever the transaction does.\<close>

lemma inTx_read_only:
  assumes "\<And>t a s'. fn t s = Inr (a, s') \<Longrightarrow> s' = s"
  shows "snd (inTx env fn s) = s"
proof -
  obtain r s' where run: "inTx env fn s = (r, s')" by fastforce
  then show ?thesis by (cases rule: inTx_cases) (auto simp: run dest: assms)
qed

lemma inTx_run:
  "tx_ok env \<Longrightarrow> tenant_of env = Some t \<Longrightarrow>
     inTx env fn s =
       (case fn t s of Inl e \<Rightarrow> (Inl (Dom e), s) | Inr (a, s') \<Rightarrow> (Inr a, s'))"
  by (auto simp: inTx_def tx_ok_def tenant_of_def ApplyTenant_def
      split: sum.splits option.splits prod.splits if_splits)


text \<open>A context for tenant 1 over a database that accepts every statement, for closed examples.\<close>

definition demo_env :: txenv where
  "demo_env =
     \<lparr>te_tenant = Some ''tenant-1'', te_parse = (\<lambda>_. Some 1),
      te_begin_ok = True, te_apply_ok = True, te_commit_ok = True\<rparr>"

lemma demo_env_simps [simp]: "tenant_of demo_env = Some 1" "tx_ok demo_env"
  by (simp_all add: demo_env_def tenant_of_def tx_ok_def TenantFromContext_def)


section \<open>The SQL shapes of the generated queries\<close>

text \<open>
  \<open>sql_update P f t\<close> is \<open>UPDATE t SET f WHERE P\<close>; \<open>sql_update_one\<close> is the
  \<open>:one\<close> form with \<open>RETURNING *\<close>, whose \<open>None\<close> is \<open>pgx.ErrNoRows\<close>;
  \<open>sql_distinct_on k t\<close> is \<open>SELECT DISTINCT ON (k)\<close> over rows that already are in
  the query's order: the first row of every group survives. \<open>pg_error\<close> is what a
  statement can report beside a driver failure.
\<close>

datatype pg_error =
    NoRows | UniqueViolation | CheckViolation | ForeignKeyViolation | NotNullViolation | InvalidTextRepresentation

definition sql_update :: "('r \<Rightarrow> bool) \<Rightarrow> ('r \<Rightarrow> 'r) \<Rightarrow> 'r list \<Rightarrow> 'r list" where
  "sql_update P f t = map (\<lambda>r. if P r then f r else r) t"

definition sql_update_one ::
  "('r \<Rightarrow> bool) \<Rightarrow> ('r \<Rightarrow> 'r) \<Rightarrow> 'r list \<Rightarrow> ('r \<times> 'r list) option" where
  "sql_update_one P f t =
     (case List.find P t of None \<Rightarrow> None | Some r \<Rightarrow> Some (f r, sql_update P f t))"

fun sql_distinct_on :: "('r \<Rightarrow> 'k) \<Rightarrow> 'r list \<Rightarrow> 'r list" where
  "sql_distinct_on k [] = []"
| "sql_distinct_on k (r # rs) = r # sql_distinct_on k (filter (\<lambda>x. k x \<noteq> k r) rs)"

lemma sql_update_Nil [simp]: "sql_update P f [] = []"
  by (simp add: sql_update_def)

lemma sql_update_Cons [simp]:
  "sql_update P f (r # t) = (if P r then f r else r) # sql_update P f t"
  by (simp add: sql_update_def)

lemma length_sql_update [sql_simps]: "length (sql_update P f t) = length t"
  by (simp add: sql_update_def)

lemma set_sql_update [sql_simps]:
  "set (sql_update P f t) = (\<lambda>r. if P r then f r else r) ` set t"
  by (simp add: sql_update_def)

lemma in_sql_updateE:
  assumes "r \<in> set (sql_update P f t)"
  obtains (same) "r \<in> set t" "\<not> P r" | (changed) r0 where "r0 \<in> set t" "P r0" "r = f r0"
  using assms by (auto simp: sql_update_def split: if_splits)

text \<open>A column the update does not assign keeps its value in every row.\<close>

lemma map_sql_update_frame [sql_simps]:
  "(\<And>r. k (f r) = k r) \<Longrightarrow> map k (sql_update P f t) = map k t"
  by (simp add: sql_update_def)

lemma sql_update_none [sql_simps]: "(\<And>r. r \<in> set t \<Longrightarrow> \<not> P r) \<Longrightarrow> sql_update P f t = t"
  by (simp add: sql_update_def map_idI)

lemma find_SomeD: "List.find P t = Some r \<Longrightarrow> r \<in> set t \<and> P r"
  by (auto simp: find_Some_iff)

lemma sql_update_one_Some_iff [sql_simps]:
  "sql_update_one P f t = Some (r', t') \<longleftrightarrow>
     (\<exists>r. List.find P t = Some r \<and> r' = f r \<and> t' = sql_update P f t)"
  by (auto simp: sql_update_one_def split: option.splits)

lemma sql_update_one_None_iff [sql_simps]:
  "sql_update_one P f t = None \<longleftrightarrow> (\<forall>r \<in> set t. \<not> P r)"
  using find_None_iff [of P t] find_SomeD [of P t]
  by (cases "List.find P t") (auto simp: sql_update_one_def)

text \<open>With a unique key, the row a guarded lookup finds is the only row under that key.\<close>

lemma distinct_key_unique:
  "distinct (map k t) \<Longrightarrow> r \<in> set t \<Longrightarrow> r' \<in> set t \<Longrightarrow> k r = k r' \<Longrightarrow> r = r'"
  by (meson distinct_map inj_onD)

lemma find_eq_unique:
  assumes "distinct (map k t)" and "r \<in> set t" and "P r" and "\<And>x. P x \<Longrightarrow> k x = k r"
  shows "List.find P t = Some r"
proof -
  obtain x where x: "List.find P t = Some x"
    using assms(2,3) by (cases "List.find P t") (auto simp: find_None_iff)
  then have "x \<in> set t" "P x" by (auto dest: find_SomeD)
  then show ?thesis using distinct_key_unique [OF assms(1), of x r] assms(2,4) x by auto
qed

lemma subseq_set: "subseq xs ys \<Longrightarrow> set xs \<subseteq> set ys"
  by (induction rule: list_emb.induct) auto

lemma subseq_distinct: "subseq xs ys \<Longrightarrow> distinct ys \<Longrightarrow> distinct xs"
  by (induction rule: list_emb.induct) (auto dest: subseq_set)

lemma find_append [sql_simps]:
  "List.find P (xs @ ys) = (case List.find P xs of None \<Rightarrow> List.find P ys | Some x \<Rightarrow> Some x)"
  by (induction xs) auto

lemma find_map_key:
  "(\<And>r. P (f r) = P r) \<Longrightarrow> List.find P (map f t) = map_option f (List.find P t)"
  by (induction t) auto

lemma filter_key_unique:
  assumes "distinct (map k t)" and "\<And>x. Q x \<Longrightarrow> k x = c"
  shows "filter (\<lambda>x. Q x \<and> P x) t =
     (case List.find Q t of None \<Rightarrow> [] | Some r \<Rightarrow> if P r then [r] else [])"
  using assms(1)
proof (induction t)
  case (Cons a t)
  show ?case
  proof (cases "Q a")
    case True
    with Cons.prems assms(2) have "filter (\<lambda>x. Q x \<and> P x) t = []"
      by (force simp: filter_empty_conv image_iff)
    with True show ?thesis by simp
  qed (use Cons in simp)
qed simp

lemma set_sql_distinct_on: "set (sql_distinct_on k t) \<subseteq> set t"
proof (induction k t rule: sql_distinct_on.induct)
  case (2 k r rs)
  then show ?case by auto
qed simp

lemma distinct_sql_distinct_on [sql_simps]: "distinct (map k (sql_distinct_on k t))"
proof (induction k t rule: sql_distinct_on.induct)
  case (2 k r rs)
  have "k r \<notin> k ` set (sql_distinct_on k (filter (\<lambda>x. k x \<noteq> k r) rs))"
    using set_sql_distinct_on [of k "filter (\<lambda>x. k x \<noteq> k r) rs"] by auto
  with 2 show ?case by simp
qed simp

lemma keys_sql_distinct_on [sql_simps]: "k ` set (sql_distinct_on k t) = k ` set t"
proof (induction k t rule: sql_distinct_on.induct)
  case (2 k r rs)
  then show ?case by (auto simp: image_iff)
qed simp

lemma sql_distinct_on_append:
  "sql_distinct_on k (xs @ ys) =
     sql_distinct_on k xs @ sql_distinct_on k (filter (\<lambda>y. k y \<notin> k ` set xs) ys)"
proof (induction k xs arbitrary: ys rule: sql_distinct_on.induct)
  case (2 k r rs)
  have "filter (\<lambda>y. k y \<notin> k ` set (filter (\<lambda>x. k x \<noteq> k r) rs)) (filter (\<lambda>x. k x \<noteq> k r) ys)
      = filter (\<lambda>y. k y \<notin> k ` set (r # rs)) ys"
    by (auto simp: filter_filter intro!: filter_cong)
  with 2 show ?case by simp
qed (simp add: filter_id_conv)


text \<open>Over rows sorted by \<open>f\<close>, the row that survives is a least one of its group.\<close>

lemma sql_distinct_on_least:
  assumes "sorted (map f t)" and "r \<in> set (sql_distinct_on k t)" and "x \<in> set t" and "k x = k r"
  shows "f r \<le> f x"
  using assms
proof (induction k t rule: sql_distinct_on.induct)
  case (2 k a rs)
  show ?case
  proof (cases "r = a")
    case True
    with 2 show ?thesis by auto
  next
    case False
    with 2(3) have r: "r \<in> set (sql_distinct_on k (filter (\<lambda>x. k x \<noteq> k a) rs))" by simp
    then have "k r \<noteq> k a" using set_sql_distinct_on [of k "filter (\<lambda>x. k x \<noteq> k a) rs"] by auto
    with 2 r show ?thesis by (intro 2(1)) (auto simp: sorted_filter)
  qed
qed simp


lemma sorted_map_fst:
  fixes f :: "'r \<Rightarrow> 'a :: linorder" and g :: "'r \<Rightarrow> 'b :: linorder"
  shows "sorted (map f (sort_key (\<lambda>r. (f r, g r)) rows))"
proof -
  have "sorted (map (\<lambda>r. (f r, g r)) (sort_key (\<lambda>r. (f r, g r)) rows))" by (rule sorted_sort_key)
  then show ?thesis unfolding sorted_map by (rule sorted_wrt_mono_rel [rotated]) (auto simp: less_eq_prod_def)
qed


section \<open>Trimming white space\<close>

text \<open>
  \<open>strings.TrimSpace\<close> removes the code points \<open>unicode.IsSpace\<close> accepts from both
  ends. \<open>space_runes\<close> lists their UTF-8 encodings: the six ASCII ones, U+0085,
  U+00A0, U+1680, U+2000 to U+200A, U+2028, U+2029, U+202F, U+205F and U+3000.
\<close>

definition space_runes :: "bytes list" where
  "space_runes =
     [[CHR 0x09], [CHR 0x0A], [CHR 0x0B], [CHR 0x0C], [CHR 0x0D], [CHR 0x20],
      [CHR 0xC2, CHR 0x85], [CHR 0xC2, CHR 0xA0], [CHR 0xE1, CHR 0x9A, CHR 0x80],
      [CHR 0xE2, CHR 0x80, CHR 0x80], [CHR 0xE2, CHR 0x80, CHR 0x81],
      [CHR 0xE2, CHR 0x80, CHR 0x82], [CHR 0xE2, CHR 0x80, CHR 0x83],
      [CHR 0xE2, CHR 0x80, CHR 0x84], [CHR 0xE2, CHR 0x80, CHR 0x85],
      [CHR 0xE2, CHR 0x80, CHR 0x86], [CHR 0xE2, CHR 0x80, CHR 0x87],
      [CHR 0xE2, CHR 0x80, CHR 0x88], [CHR 0xE2, CHR 0x80, CHR 0x89],
      [CHR 0xE2, CHR 0x80, CHR 0x8A], [CHR 0xE2, CHR 0x80, CHR 0xA8],
      [CHR 0xE2, CHR 0x80, CHR 0xA9], [CHR 0xE2, CHR 0x80, CHR 0xAF],
      [CHR 0xE2, CHR 0x81, CHR 0x9F], [CHR 0xE3, CHR 0x80, CHR 0x80]]"

function trim_prefixes :: "bytes list \<Rightarrow> bytes \<Rightarrow> bytes" where
  "trim_prefixes ps s =
     (case List.find (\<lambda>p. p \<noteq> [] \<and> take (length p) s = p) ps of
        None \<Rightarrow> s
      | Some p \<Rightarrow> trim_prefixes ps (drop (length p) s))"
  by pat_completeness auto
termination
proof (relation "measure (\<lambda>(ps, s). length s)", goal_cases)
  case (2 ps s p)
  from find_SomeD [OF 2] have "p \<noteq> []" "take (length p) s = p" by auto
  then show ?case by (cases s) auto
qed auto

declare trim_prefixes.simps [simp del]

definition TrimSpace :: "bytes \<Rightarrow> bytes" where
  "TrimSpace s =
     rev (trim_prefixes (map rev space_runes) (rev (trim_prefixes space_runes s)))"

lemma trim_prefixes_id:
  "(\<And>p. p \<in> set ps \<Longrightarrow> p = [] \<or> take (length p) s \<noteq> p) \<Longrightarrow> trim_prefixes ps s = s"
  by (subst trim_prefixes.simps) (auto split: option.splits dest: find_SomeD)

end
