(* ===== verification/Json_Text.thy ===== *)
theory Json_Text
  imports Atlas_Prelude
begin

text \<open>
  The JSON string literal both canonical encoders write
  (\<open>writeJSONString\<close> of \<open>internal/scope/canonical.go\<close> and of
  \<open>internal/frameworkscope/canonical.go\<close>) and a reader for it. The reader is a proof
  device: it shows that the literal, followed by anything, determines the string, which
  is what makes the canonical encodings injective.
\<close>

named_theorems json_read "reading back what the canonical writers wrote"

abbreviation quote :: char where "quote \<equiv> CHR 0x22"
abbreviation backslash :: char where "backslash \<equiv> CHR 0x5C"

definition hex_digit :: "nat \<Rightarrow> char" where
  "hex_digit n = (if n < 10 then char_of (48 + n) else char_of (87 + n))"

definition json_escape :: "char \<Rightarrow> bytes" where
  "json_escape c =
     (if c = quote then [backslash, quote]
      else if c = backslash then [backslash, backslash]
      else if c = CHR 0x0A then [backslash, CHR ''n'']
      else if c = CHR 0x0D then [backslash, CHR ''r'']
      else if c = CHR 0x09 then [backslash, CHR ''t'']
      else if of_char c < (32 :: nat)
      then [backslash, CHR ''u'', CHR ''0'', CHR ''0'',
            hex_digit (of_char c div 16), hex_digit (of_char c mod 16)]
      else [c])"

definition writeJSONString :: "bytes \<Rightarrow> bytes" where
  "writeJSONString s = [quote] @ concat (map json_escape s) @ [quote]"


section \<open>Reading the literal back\<close>

definition hex_value :: "char \<Rightarrow> nat" where
  "hex_value c = (if of_char c < (58 :: nat) then of_char c - 48 else of_char c - 87)"

lemma hex_value_digit [simp]: "n < 16 \<Longrightarrow> hex_value (hex_digit n) = n"
  by (auto simp: hex_value_def hex_digit_def)

fun read_escape :: "bytes \<Rightarrow> (char \<times> bytes) option" where
  "read_escape (x # xs) =
     (if x \<noteq> backslash then Some (x, xs)
      else
        (case xs of
           y # ys \<Rightarrow>
             if y = CHR ''n'' then Some (CHR 0x0A, ys)
             else if y = CHR ''r'' then Some (CHR 0x0D, ys)
             else if y = CHR ''t'' then Some (CHR 0x09, ys)
             else if y = CHR ''u'' then
               (case ys of
                  _ # _ # h # l # zs \<Rightarrow> Some (char_of (16 * hex_value h + hex_value l), zs)
                | _ \<Rightarrow> None)
             else Some (y, ys)
         | [] \<Rightarrow> None))"
| "read_escape [] = None"

lemma read_escape_escape [json_read]: "read_escape (json_escape c @ r) = Some (c, r)"
proof (cases "of_char c < (32 :: nat)")
  case True
  then have div: "of_char c div (16 :: nat) < 16" by simp
  have "char_of (16 * (of_char c div 16) + of_char c mod (16 :: nat)) = c"
    by (simp add: mult_div_mod_eq)
  with True div show ?thesis by (simp add: json_escape_def)
next
  case False
  then show ?thesis by (simp add: json_escape_def)
qed

lemma json_escape_head: "hd (json_escape c) \<noteq> quote"
  by (simp add: json_escape_def)

lemma json_escape_ne [simp]: "json_escape c \<noteq> []"
  by (simp add: json_escape_def)

lemma json_escape_not_quote [simp]: "json_escape c @ x \<noteq> quote # r"
  using json_escape_head [of c] by (cases "json_escape c") auto

lemma escaped_unique:
  "concat (map json_escape s) @ quote # r = concat (map json_escape t) @ quote # u
   \<Longrightarrow> s = t \<and> r = u"
proof (induction s arbitrary: t)
  case Nil
  then show ?case by (cases t) (auto dest: sym)
next
  case (Cons c s)
  show ?case
  proof (cases t)
    case Nil
    with Cons.prems show ?thesis by simp
  next
    case (Cons d t')
    let ?l = "json_escape c @ concat (map json_escape s) @ quote # r"
    let ?r = "json_escape d @ concat (map json_escape t') @ quote # u"
    have "read_escape ?l = read_escape ?r" using Cons.prems Cons by simp
    then have "c = d" and
      "concat (map json_escape s) @ quote # r = concat (map json_escape t') @ quote # u"
      by (simp_all add: read_escape_escape)
    with Cons.IH [of t'] Cons show ?thesis by simp
  qed
qed

text \<open>The literal is a prefix code: what follows it cannot be mistaken for a part of it.\<close>

lemma writeJSONString_unique [json_read]:
  "writeJSONString s @ r = writeJSONString t @ u \<longleftrightarrow> s = t \<and> r = u"
  using escaped_unique [of s r t u] by (auto simp: writeJSONString_def)

lemma writeJSONString_head [simp]: "hd (writeJSONString s) = quote"
  by (simp add: writeJSONString_def)

lemma writeJSONString_ne [simp]: "writeJSONString s \<noteq> []"
  by (simp add: writeJSONString_def)


section \<open>Comma-separated members\<close>

fun join_comma :: "bytes list \<Rightarrow> bytes" where
  "join_comma [] = []"
| "join_comma [x] = x"
| "join_comma (x # y # zs) = x @ CHR '','' # join_comma (y # zs)"

lemma join_comma_Cons: "zs \<noteq> [] \<Longrightarrow> join_comma (x # zs) = x @ CHR '','' # join_comma zs"
  by (cases zs) auto

text \<open>
  A member encoding that is read back uniquely when a delimiter follows makes the
  comma-separated, bracketed list of members read back uniquely.
\<close>

lemma join_comma_unique:
  assumes unique: "\<And>x y d e r s. x \<in> set xs \<Longrightarrow> y \<in> set ys \<Longrightarrow>
        d \<in> {CHR '','', close} \<Longrightarrow> e \<in> {CHR '','', close} \<Longrightarrow>
        enc x @ d # r = enc y @ e # s \<Longrightarrow> x = y \<and> d = e \<and> r = s"
    and head: "\<And>x r s. x \<in> set xs \<union> set ys \<Longrightarrow> enc x @ r \<noteq> close # s"
    and close: "close \<noteq> CHR '',''"
  shows "join_comma (map enc xs) @ close # r = join_comma (map enc ys) @ close # s
         \<Longrightarrow> xs = ys \<and> r = s"
  using unique head
proof (induction xs arbitrary: ys)
  case Nil
  then show ?case
  proof (cases ys)
    case (Cons y ys')
    with Nil.prems(1) Nil.prems(3) [of y] show ?thesis
      by (cases ys') (auto dest: sym simp: join_comma_Cons)
  qed simp
next
  case (Cons x xs)
  show ?case
  proof (cases ys)
    case Nil
    with Cons.prems(1) Cons.prems(3) [of x] show ?thesis
      by (cases xs) (auto simp: join_comma_Cons)
  next
    case ys: (Cons y ys')
    define d r1 where "d = (if xs = [] then close else CHR '','')"
      and "r1 = (if xs = [] then r else join_comma (map enc xs) @ close # r)"
    define e s1 where "e = (if ys' = [] then close else CHR '','')"
      and "s1 = (if ys' = [] then s else join_comma (map enc ys') @ close # s)"
    have "join_comma (map enc (x # xs)) @ close # r = enc x @ d # r1"
      by (cases "xs = []") (auto simp: d_def r1_def join_comma_Cons)
    moreover have "join_comma (map enc ys) @ close # s = enc y @ e # s1"
      by (cases "ys' = []") (auto simp: e_def s1_def ys join_comma_Cons)
    ultimately have "enc x @ d # r1 = enc y @ e # s1" using Cons.prems(1) by simp
    then have *: "x = y \<and> d = e \<and> r1 = s1"
      using Cons.prems(2) [of x y d e r1 s1] by (auto simp: ys d_def e_def)
    then have emp: "xs = [] \<longleftrightarrow> ys' = []" using close by (auto simp: d_def e_def split: if_splits)
    show ?thesis
    proof (cases "xs = []")
      case True
      with * emp ys show ?thesis by (auto simp: r1_def s1_def)
    next
      case False
      with * emp have "join_comma (map enc xs) @ close # r = join_comma (map enc ys') @ close # s"
        by (auto simp: r1_def s1_def)
      then have "xs = ys' \<and> r = s"
        by (rule Cons.IH) (rule Cons.prems(2), auto simp: ys Cons.prems(3))
      with * ys show ?thesis by simp
    qed
  qed
qed

end
