(* ===== verification/Scope_Expr.thy ===== *)
theory Scope_Expr
  imports Json_Text "HOL-Library.Multiset"
begin

text \<open>
  \<open>internal/scope/expr.go\<close> and \<open>internal/scope/canonical.go\<close>: scope cells, the
  applicability-expression AST with its validator and matcher, the package entry point
  \<open>Evaluate\<close>, and the canonical encoding of a cell's dimensions. The locale
  \<open>cell_engine\<close> is the contract other packages rely on (the Go interface
  \<open>scope.Engine\<close>); \<open>Evaluate\<close> is its instance.

  \<open>json.Unmarshal\<close> into the \<open>node\<close> struct is the argument \<open>unmarshal\<close> and the
  hex form of \<open>sha256.Sum256\<close> is the argument \<open>sha256hex\<close>.
\<close>

named_theorems scope_simps "scope expressions"


section \<open>Cells and expressions\<close>

type_synonym dims = "(string \<times> string) list"

record cell =
  c_ID :: uuid
  c_TenantID :: uuid
  c_Label :: string
  c_Dimensions :: dims

datatype node =
  Node (Op: string) (Dim: string) (Value: "string option") (Values: "string list option")
    (Args: "node list") (Arg: "node option")

datatype scope_error =
    ParseExpression string
  | EqRequiresDim | EqRequiresValue
  | InRequiresDim | InRequiresValues
  | RequiresArgs string
  | NotRequiresArg
  | MissingOp | UnknownOp string
  | UnreachableOp string
  | NilDereference

fun validate :: "node \<Rightarrow> scope_error option" and validate_args :: "node list \<Rightarrow> scope_error option" where
  "validate (Node op dim val vals args arg) =
     (if op = ''true'' then None
      else if op = ''eq'' then
        (if dim = [] then Some EqRequiresDim
         else if val = None then Some EqRequiresValue else None)
      else if op = ''in'' then
        (if dim = [] then Some InRequiresDim
         else if vals = None then Some InRequiresValues else None)
      else if op = ''and'' \<or> op = ''or'' then
        (if args = [] then Some (RequiresArgs op) else validate_args args)
      else if op = ''not'' then
        (case arg of None \<Rightarrow> Some NotRequiresArg | Some a \<Rightarrow> validate a)
      else if op = [] then Some MissingOp
      else Some (UnknownOp op))"
| "validate_args [] = None"
| "validate_args (n # ns) = (case validate n of Some e \<Rightarrow> Some e | None \<Rightarrow> validate_args ns)"

text \<open>
  \<open>match\<close> is the Go function of that name. A nil \<open>Value\<close> or \<open>Arg\<close> would be
  dereferenced, which panics in Go; the model returns \<open>NilDereference\<close>.
\<close>

fun match_node :: "node \<Rightarrow> cell \<Rightarrow> scope_error + bool"
  and match_and :: "node list \<Rightarrow> cell \<Rightarrow> scope_error + bool"
  and match_or :: "node list \<Rightarrow> cell \<Rightarrow> scope_error + bool" where
  "match_node (Node op dim val vals args arg) c =
     (if op = ''true'' then Inr True
      else if op = ''eq'' then
        (case map_of (c_Dimensions c) dim of
           None \<Rightarrow> Inr False
         | Some v \<Rightarrow> (case val of None \<Rightarrow> Inl NilDereference | Some x \<Rightarrow> Inr (v = x)))
      else if op = ''in'' then
        (case map_of (c_Dimensions c) dim of
           None \<Rightarrow> Inr False
         | Some v \<Rightarrow> Inr (List.member (case vals of None \<Rightarrow> [] | Some vs \<Rightarrow> vs) v))
      else if op = ''and'' then match_and args c
      else if op = ''or'' then match_or args c
      else if op = ''not'' then
        (case arg of None \<Rightarrow> Inl NilDereference
         | Some a \<Rightarrow> (case match_node a c of Inl e \<Rightarrow> Inl e | Inr ok \<Rightarrow> Inr (\<not> ok)))
      else Inl (UnreachableOp op))"
| "match_and [] c = Inr True"
| "match_and (n # ns) c =
     (case match_node n c of Inl e \<Rightarrow> Inl e
      | Inr ok \<Rightarrow> if \<not> ok then Inr False else match_and ns c)"
| "match_or [] c = Inr False"
| "match_or (n # ns) c =
     (case match_node n c of Inl e \<Rightarrow> Inl e
      | Inr ok \<Rightarrow> if ok then Inr True else match_or ns c)"

definition isEmptyExpr :: "bytes \<Rightarrow> bool" where
  "isEmptyExpr b \<longleftrightarrow> b = [] \<or> (let s = TrimSpace b in s = ''null'' \<or> s = ''{}'')"

fun evaluate_loop :: "node \<Rightarrow> cell list \<Rightarrow> scope_error + cell list" where
  "evaluate_loop n [] = Inr []"
| "evaluate_loop n (c # cs) =
     (case match_node n c of Inl e \<Rightarrow> Inl e
      | Inr ok \<Rightarrow>
        (case evaluate_loop n cs of Inl e \<Rightarrow> Inl e
         | Inr matches \<Rightarrow> Inr (if ok then c # matches else matches)))"

definition Evaluate ::
  "(bytes \<Rightarrow> string + node) \<Rightarrow> bytes \<Rightarrow> cell list \<Rightarrow> scope_error + cell list" where
  "Evaluate unmarshal exprJSON universe =
     (if isEmptyExpr exprJSON then Inr universe
      else
        (case unmarshal exprJSON of Inl e \<Rightarrow> Inl (ParseExpression e)
         | Inr n \<Rightarrow>
           (case validate n of Some e \<Rightarrow> Inl e | None \<Rightarrow> evaluate_loop n universe)))"


section \<open>The meaning of an expression\<close>

text \<open>
  The specification: an expression denotes a set of dimension assignments. It has no
  error case and no evaluation order.
\<close>

function holds :: "node \<Rightarrow> (string \<rightharpoonup> string) \<Rightarrow> bool" where
  "holds (Node op dim val vals args arg) d =
     (if op = ''eq'' then d dim \<noteq> None \<and> d dim = val
      else if op = ''in'' then (\<exists>vs v. vals = Some vs \<and> d dim = Some v \<and> v \<in> set vs)
      else if op = ''and'' then (\<forall>a \<in> set args. holds a d)
      else if op = ''or'' then (\<exists>a \<in> set args. holds a d)
      else if op = ''not'' then (case arg of None \<Rightarrow> False | Some a \<Rightarrow> \<not> holds a d)
      else op = ''true'')"
  by pat_completeness auto
termination
  by (relation "measure (\<lambda>(n, d). size n)") (auto simp: less_Suc_eq_le size_list_estimation' trans_le_add1)

lemma validate_args_None_iff [scope_simps]:
  "validate_args ns = None \<longleftrightarrow> (\<forall>n \<in> set ns. validate n = None)"
  by (induction ns) (auto split: option.splits)

lemma match_and_Inr:
  "(\<And>n. n \<in> set ns \<Longrightarrow> match_node n c = Inr (P n)) \<Longrightarrow>
     match_and ns c = Inr (\<forall>n \<in> set ns. P n)"
  by (induction ns) auto

lemma match_or_Inr:
  "(\<And>n. n \<in> set ns \<Longrightarrow> match_node n c = Inr (P n)) \<Longrightarrow>
     match_or ns c = Inr (\<exists>n \<in> set ns. P n)"
  by (induction ns) auto

text \<open>A validated expression never errs or panics, and decides its denotation.\<close>

lemma match_node_holds:
  "validate n = None \<Longrightarrow> match_node n c = Inr (holds n (map_of (c_Dimensions c)))"
proof (induction n)
  case (Node op dim val vals args arg)
  have args: "match_node a c = Inr (holds a (map_of (c_Dimensions c)))"
    if "a \<in> set args" "validate_args args = None" for a
    using that Node.IH(1) by (auto simp: validate_args_None_iff)
  show ?case
  proof (cases "op = ''and'' \<or> op = ''or''")
    case True
    with Node.prems have "validate_args args = None" by (auto split: if_splits)
    with args True show ?thesis
      by (auto intro: match_and_Inr match_or_Inr)
  next
    case False
    with Node.prems Node.IH(2) show ?thesis
      by (auto split: if_splits option.splits)
  qed
qed

lemma evaluate_loop_filter:
  "validate n = None \<Longrightarrow>
     evaluate_loop n cs = Inr (filter (\<lambda>c. holds n (map_of (c_Dimensions c))) cs)"
  by (induction cs) (simp_all add: match_node_holds)


section \<open>The engine contract\<close>

text \<open>
  What callers of \<open>scope.Engine\<close> rely on: an expression either is rejected, for every
  universe alike, or selects the cells of any universe by one predicate.
\<close>

locale cell_engine =
  fixes applicability :: "'x \<Rightarrow> cell list \<Rightarrow> 'e + cell list"
  assumes uniform:
    "(\<exists>P. \<forall>u. applicability x u = Inr (filter P u)) \<or> (\<exists>e. \<forall>u. applicability x u = Inl e)"
begin

lemma selects:
  assumes "applicability x u = Inr r"
  obtains P where "\<And>v. applicability x v = Inr (filter P v)"
proof -
  from uniform [of x] assms have "\<exists>P. \<forall>v. applicability x v = Inr (filter P v)" by auto
  with that show ?thesis by blast
qed

lemma never_widens: "applicability x u = Inr r \<Longrightarrow> subseq r u"
  by (metis selects Inr_inject subseq_filter_left)

text \<open>Accepting an expression on the empty universe is accepting it on every universe.\<close>

lemma accepted_everywhere:
  "applicability x [] = Inr r \<Longrightarrow> \<exists>r'. applicability x u = Inr r'"
  by (metis selects)

lemma rejected_everywhere:
  "applicability x u = Inl e \<Longrightarrow> applicability x v = Inl e"
  using uniform [of x] by auto

lemma intersects:
  assumes "applicability x u = Inr a" and "applicability y a = Inr b"
  obtains c where "applicability y u = Inr c" and "set b = set a \<inter> set c"
proof -
  obtain P where P: "\<And>v. applicability x v = Inr (filter P v)" using assms(1) by (rule selects) blast
  obtain Q where Q: "\<And>v. applicability y v = Inr (filter Q v)" using assms(2) by (rule selects) blast
  have "a = filter P u" and "b = filter Q a" using assms P Q by auto
  then have "set b = set a \<inter> set (filter Q u)" by auto
  with Q that show ?thesis by blast
qed

lemma commutes:
  assumes "applicability x u = Inr a" and "applicability y a = Inr b"
  obtains c where "applicability y u = Inr c" and "applicability x c = Inr b"
proof -
  obtain P where P: "\<And>v. applicability x v = Inr (filter P v)" using assms(1) by (rule selects) blast
  obtain Q where Q: "\<And>v. applicability y v = Inr (filter Q v)" using assms(2) by (rule selects) blast
  have "b = filter P (filter Q u)" using assms P Q by (auto simp: conj_commute)
  with P Q that show ?thesis by metis
qed

lemma idempotent: "applicability x u = Inr a \<Longrightarrow> applicability x a = Inr a"
proof -
  assume a: "applicability x u = Inr a"
  then obtain P where P: "\<And>v. applicability x v = Inr (filter P v)" by (rule selects) blast
  with a have "a = filter P u" by simp
  with P show ?thesis by simp
qed

end

lemma Evaluate_filter:
  "\<not> isEmptyExpr e \<Longrightarrow> unmarshal e = Inr n \<Longrightarrow> validate n = None \<Longrightarrow>
     Evaluate unmarshal e u = Inr (filter (\<lambda>c. holds n (map_of (c_Dimensions c))) u)"
  by (simp add: Evaluate_def evaluate_loop_filter)

interpretation scope: cell_engine "Evaluate unmarshal" for unmarshal
proof
  fix e
  show "(\<exists>P. \<forall>u. Evaluate unmarshal e u = Inr (filter P u)) \<or> (\<exists>x. \<forall>u. Evaluate unmarshal e u = Inl x)"
  proof (cases "isEmptyExpr e")
    case True
    then have "\<forall>u. Evaluate unmarshal e u = Inr (filter (\<lambda>_. True) u)"
      by (simp add: Evaluate_def)
    then show ?thesis by blast
  next
    case False
    show ?thesis
    proof (cases "unmarshal e")
      case (Inl x)
      with False show ?thesis by (simp add: Evaluate_def)
    next
      case (Inr n)
      with False Evaluate_filter [of e unmarshal n] show ?thesis
        by (cases "validate n") (auto simp: Evaluate_def)
    qed
  qed
qed


section \<open>Canonical dimensions\<close>

datatype canonical_error = DimensionsEmpty | DimensionKeyEmpty

definition write_member :: "string \<times> string \<Rightarrow> bytes" where
  "write_member kv = writeJSONString (fst kv) @ CHR '':'' # writeJSONString (snd kv)"

definition sorted_members :: "dims \<Rightarrow> (string \<times> string) list" where
  "sorted_members dims =
     map (\<lambda>k. (k, case map_of dims k of None \<Rightarrow> [] | Some v \<Rightarrow> v)) (sort (map fst dims))"

definition canonical_bytes :: "dims \<Rightarrow> bytes" where
  "canonical_bytes dims =
     CHR ''{'' # join_comma (map write_member (sorted_members dims)) @ ''}''"

definition Canonicalize ::
  "(bytes \<Rightarrow> bytes) \<Rightarrow> dims \<Rightarrow> canonical_error + bytes \<times> bytes" where
  "Canonicalize sha256hex dims =
     (if dims = [] then Inl DimensionsEmpty
      else if \<exists>k \<in> set (map fst dims). k = [] then Inl DimensionKeyEmpty
      else let out = canonical_bytes dims in Inr (out, sha256hex out))"

text \<open>A Go map has at most one value per key.\<close>

definition wf_dims :: "dims \<Rightarrow> bool" where
  "wf_dims dims \<longleftrightarrow> distinct (map fst dims)"

lemma write_member_unique [json_read]:
  "write_member p @ r = write_member q @ s \<longleftrightarrow> p = q \<and> r = s"
  by (auto simp: write_member_def json_read prod_eq_iff)

lemma canonical_bytes_eq_iff:
  "canonical_bytes d = canonical_bytes d' \<longleftrightarrow> sorted_members d = sorted_members d'"
proof
  assume "canonical_bytes d = canonical_bytes d'"
  then have "join_comma (map write_member (sorted_members d)) @ CHR ''}'' # [] =
             join_comma (map write_member (sorted_members d')) @ CHR ''}'' # []"
    by (simp add: canonical_bytes_def)
  then have "sorted_members d = sorted_members d' \<and> ([] :: bytes) = []"
  proof (rule join_comma_unique [rotated -1])
    fix x :: "string \<times> string" and y d e r s
    assume "write_member x @ d # r = write_member y @ e # s"
    then show "x = y \<and> d = e \<and> r = s" by (simp add: json_read)
  qed (auto simp: write_member_def writeJSONString_def)
  then show "sorted_members d = sorted_members d'" by simp
qed (simp add: canonical_bytes_def)

lemma map_of_sorted_members: "map_of (sorted_members d) = map_of d"
proof
  fix k
  have "map_of (sorted_members d) k =
      (if k \<in> fst ` set d then Some (case map_of d k of None \<Rightarrow> [] | Some v \<Rightarrow> v) else None)"
    by (simp add: sorted_members_def map_of_map_restrict restrict_map_def)
  moreover have "k \<in> fst ` set d \<longleftrightarrow> map_of d k \<noteq> None"
    by (simp add: map_of_eq_None_iff)
  ultimately show "map_of (sorted_members d) k = map_of d k" by (cases "map_of d k") simp_all
qed

lemma sorted_members_cong:
  assumes "wf_dims d" "wf_dims d'" "map_of d = map_of d'"
  shows "sorted_members d = sorted_members d'"
proof -
  have "set (map fst d) = set (map fst d')"
    using assms(3) dom_map_of_conv_image_fst [of d] dom_map_of_conv_image_fst [of d'] by simp
  then have "mset (map fst d) = mset (map fst d')"
    using assms(1,2) by (metis wf_dims_def set_eq_iff_mset_eq_distinct)
  then have "sort (map fst d) = sort (map fst d')" by (metis properties_for_sort mset_sort sorted_sort)
  with assms(3) show ?thesis by (simp add: sorted_members_def)
qed


section \<open>Properties\<close>

text \<open>
  C1. \<open>Evaluate\<close> is total and exact: the empty forms select every cell, a document that
  does not decode or whose AST is malformed is rejected with its error, and any other
  expression selects exactly the cells whose dimensions satisfy its denotation, in
  universe order. In particular the matcher never errs or panics after validation.
\<close>

theorem Evaluate_exact:
  "Evaluate unmarshal e u =
     (if isEmptyExpr e then Inr u
      else case unmarshal e of Inl x \<Rightarrow> Inl (ParseExpression x)
        | Inr n \<Rightarrow>
          (case validate n of Some x \<Rightarrow> Inl x
           | None \<Rightarrow> Inr (filter (\<lambda>c. holds n (map_of (c_Dimensions c))) u)))"
  by (simp add: Evaluate_def evaluate_loop_filter split: sum.splits option.splits)

text \<open>
  \<open>Canonicalize\<close> encodes a dimension map independently of iteration order and
  injectively: two maps that are accepted get the same canonical bytes exactly when they
  are the same map. This is what the unique index on \<open>(tenant_id, dimensions_hash)\<close>
  relies on.
\<close>

theorem Canonicalize_faithful:
  assumes "wf_dims d" and "wf_dims d'"
    and "Canonicalize sha256hex d = Inr (b, h)" and "Canonicalize sha256hex d' = Inr (b', h')"
  shows "b = b' \<longleftrightarrow> map_of d = map_of d'"
proof -
  have "b = canonical_bytes d" "b' = canonical_bytes d'"
    using assms(3,4) by (auto simp: Canonicalize_def Let_def split: if_splits)
  then have "b = b' \<longleftrightarrow> sorted_members d = sorted_members d'"
    by (simp add: canonical_bytes_eq_iff)
  then show ?thesis
    using sorted_members_cong [OF assms(1,2)] by (metis map_of_sorted_members)
qed

theorem Canonicalize_faithful_witness:
  "canonical_bytes [(''env'', ''prod''), (''bu'', ''a'')] =
     canonical_bytes [(''bu'', ''a''), (''env'', ''prod'')]"
proof -
  let ?d = "[(''env'', ''prod''), (''bu'', ''a'')]" and ?d' = "[(''bu'', ''a''), (''env'', ''prod'')]"
  have c: "Canonicalize id d = Inr (canonical_bytes d, canonical_bytes d)"
    if "d \<in> {?d, ?d'}" for d
    using that by (auto simp: Canonicalize_def Let_def)
  have "canonical_bytes ?d = canonical_bytes ?d' \<longleftrightarrow> map_of ?d = map_of ?d'"
    by (rule Canonicalize_faithful [of ?d ?d' id]) (simp_all add: wf_dims_def c)
  then show ?thesis by (simp add: fun_upd_twist)
qed

end
