(* ===== verification/Scope_Store.thy ===== *)
theory Scope_Store
  imports Scope_Expr
begin

text \<open>
  \<open>internal/scope/store.go\<close> with the queries of \<open>internal/db/queries/scope.sql\<close>:
  seeding a tenant, creating and listing cells, validating dimensions, and resolving a
  control's applicability expression to cells. The tables it reads and writes are the
  record \<open>scope_db\<close>; later theories extend that record with their own tables.

  \<open>decode_dims\<close> and \<open>decode_strings\<close> stand for \<open>json.Unmarshal\<close> into
  \<open>map[string]string\<close> and \<open>[]string\<close>, \<open>marshal_strings\<close> for \<open>json.Marshal\<close>
  of a string slice.
\<close>

record dimension_row =
  dim_ID :: uuid
  dim_TenantID :: uuid
  dim_Name :: string
  dim_ValueType :: string
  dim_AllowedValues :: bytes
  dim_IsRequired :: bool
  dim_IsBuiltin :: bool

record cell_row =
  cr_ID :: uuid
  cr_TenantID :: uuid
  cr_Label :: string
  cr_Dimensions :: bytes
  cr_DimensionsHash :: bytes
  cr_CreatedAt :: gotime

record control_row =
  ctl_ID :: uuid
  ctl_TenantID :: uuid
  ctl_BundleID :: string
  ctl_ApplicabilityExpr :: string
  ctl_FreshnessClass :: "string option"
  ctl_ImplementationType :: string
  ctl_EvidenceQueries :: bytes
  ctl_SupersededBy :: "uuid option"

record scope_db =
  db_dimensions :: "dimension_row list"
  db_cells :: "cell_row list"
  db_controls :: "control_row list"

datatype scope_store_error =
    ErrCellExists
  | ErrInvalidDimension
  | CanonicalError canonical_error
  | ScopeControlNotFound uuid
  | ExpressionError scope_error
  | CreateDimension string
  | CreateDefaultCell

text \<open>The codecs of the standard library the store calls.\<close>

record scope_codec =
  sc_unmarshal :: "bytes \<Rightarrow> string + node"
  sc_decode_dims :: "bytes \<Rightarrow> dims option"
  sc_decode_strings :: "bytes \<Rightarrow> string list option"
  sc_marshal_strings :: "string list \<Rightarrow> bytes"
  sc_sha256hex :: "bytes \<Rightarrow> bytes"


section \<open>Queries\<close>

definition ListScopeDimensions :: "uuid \<Rightarrow> 'z scope_db_scheme \<Rightarrow> dimension_row list" where
  "ListScopeDimensions t db =
     sort_key (\<lambda>r. (\<not> dim_IsBuiltin r, dim_Name r))
       (filter (\<lambda>r. dim_TenantID r = t) (db_dimensions db))"

definition GetScopeDimensionByName :: "uuid \<Rightarrow> string \<Rightarrow> 'z scope_db_scheme \<Rightarrow> dimension_row option" where
  "GetScopeDimensionByName t nm db =
     List.find (\<lambda>r. dim_TenantID r = t \<and> dim_Name r = nm) (db_dimensions db)"

definition CreateScopeDimension ::
  "dimension_row \<Rightarrow> 'z scope_db_scheme \<Rightarrow> (dimension_row \<times> 'z scope_db_scheme) option" where
  "CreateScopeDimension row db =
     (if \<exists>r \<in> set (db_dimensions db).
           dim_ID r = dim_ID row \<or> (dim_TenantID r = dim_TenantID row \<and> dim_Name r = dim_Name row)
      then None
      else Some (row, db\<lparr>db_dimensions := db_dimensions db @ [row]\<rparr>))"

definition ListScopeCells :: "uuid \<Rightarrow> 'z scope_db_scheme \<Rightarrow> cell_row list" where
  "ListScopeCells t db =
     sort_key (\<lambda>r. (- cr_CreatedAt r, cr_ID r)) (filter (\<lambda>r. cr_TenantID r = t) (db_cells db))"

definition GetScopeCellByHash :: "uuid \<Rightarrow> bytes \<Rightarrow> 'z scope_db_scheme \<Rightarrow> cell_row option" where
  "GetScopeCellByHash t h db =
     List.find (\<lambda>r. cr_TenantID r = t \<and> cr_DimensionsHash r = h) (db_cells db)"

text \<open>
  \<open>CreateScopeCell\<close> violates a unique constraint when the id or the pair
  \<open>(tenant_id, dimensions_hash)\<close> is already taken.
\<close>

definition CreateScopeCell ::
  "cell_row \<Rightarrow> 'z scope_db_scheme \<Rightarrow> (cell_row \<times> 'z scope_db_scheme) option" where
  "CreateScopeCell row db =
     (if \<exists>r \<in> set (db_cells db).
           cr_ID r = cr_ID row
           \<or> (cr_TenantID r = cr_TenantID row \<and> cr_DimensionsHash r = cr_DimensionsHash row)
      then None
      else Some (row, db\<lparr>db_cells := db_cells db @ [row]\<rparr>))"

definition GetControlApplicabilityExpr :: "uuid \<Rightarrow> uuid \<Rightarrow> 'z scope_db_scheme \<Rightarrow> control_row option" where
  "GetControlApplicabilityExpr t cid db =
     List.find (\<lambda>r. ctl_TenantID r = t \<and> ctl_ID r = cid) (db_controls db)"


section \<open>Row conversion and dimension checks\<close>

definition rowToCell :: "scope_codec \<Rightarrow> cell_row \<Rightarrow> cell" where
  "rowToCell sc r =
     \<lparr>c_ID = cr_ID r, c_TenantID = cr_TenantID r, c_Label = cr_Label r,
      c_Dimensions = (case sc_decode_dims sc (cr_Dimensions r) of None \<Rightarrow> [] | Some d \<Rightarrow> d)\<rparr>"

definition marshalAllowedValues :: "scope_codec \<Rightarrow> string list option \<Rightarrow> bytes" where
  "marshalAllowedValues sc vs = (case vs of None \<Rightarrow> ''[]'' | Some l \<Rightarrow> sc_marshal_strings sc l)"

definition checkAllowedValue :: "scope_codec \<Rightarrow> dimension_row \<Rightarrow> string \<Rightarrow> scope_store_error option" where
  "checkAllowedValue sc dim val =
     (if dim_AllowedValues dim = [] \<or> dim_AllowedValues dim = ''[]'' \<or> dim_AllowedValues dim = ''null''
      then None
      else
        (case sc_decode_strings sc (dim_AllowedValues dim) of
           None \<Rightarrow> None
         | Some allowed \<Rightarrow> if val \<in> set allowed then None else Some ErrInvalidDimension))"

fun check_declared ::
  "scope_codec \<Rightarrow> (string \<rightharpoonup> dimension_row) \<Rightarrow> dims \<Rightarrow> scope_store_error option" where
  "check_declared sc declared [] = None"
| "check_declared sc declared ((name, val) # ds) =
     (case declared name of
        None \<Rightarrow> Some ErrInvalidDimension
      | Some dim \<Rightarrow>
        (case checkAllowedValue sc dim val of
           Some e \<Rightarrow> Some e
         | None \<Rightarrow> check_declared sc declared ds))"

fun check_required :: "dimension_row list \<Rightarrow> dims \<Rightarrow> scope_store_error option" where
  "check_required [] dims = None"
| "check_required (d # ds) dims =
     (if \<not> dim_IsRequired d then check_required ds dims
      else if map_of dims (dim_Name d) = None then Some ErrInvalidDimension
      else check_required ds dims)"

definition validateDimensions ::
  "scope_codec \<Rightarrow> uuid \<Rightarrow> dims \<Rightarrow> 'z scope_db_scheme \<Rightarrow> scope_store_error option" where
  "validateDimensions sc t dims db =
     (if dims = [] then Some ErrInvalidDimension
      else
        (let rows = ListScopeDimensions t db;
             declared = foldl (\<lambda>m r. m(dim_Name r \<mapsto> r)) Map.empty rows
         in (case check_declared sc declared dims of
               Some e \<Rightarrow> Some e
             | None \<Rightarrow> check_required rows dims)))"


section \<open>Store operations\<close>

definition BuiltinDimensions :: "(string \<times> string list option \<times> bool) list" where
  "BuiltinDimensions =
     [(''business_unit'', None, False),
      (''environment'', Some [''prod'', ''staging'', ''dev'', ''sandbox''], True),
      (''geography'', None, False),
      (''cloud_account'', None, False),
      (''data_classification'', Some [''restricted'', ''confidential'', ''internal'', ''public''], True),
      (''product_line'', None, False)]"

definition DefaultCellDimensions :: dims where
  "DefaultCellDimensions =
     [(''business_unit'', ''default''), (''environment'', ''prod''),
      (''data_classification'', ''internal'')]"

text \<open>The loop over the built-in dimensions; \<open>ids\<close> gives the identifier \<open>uuid.New\<close> draws for each.\<close>

fun seed_dimensions ::
  "scope_codec \<Rightarrow> uuid \<Rightarrow> (string \<times> string list option \<times> bool) list \<Rightarrow> (string \<Rightarrow> uuid) \<Rightarrow>
   'z scope_db_scheme \<Rightarrow> scope_store_error + 'z scope_db_scheme" where
  "seed_dimensions sc t [] ids db = Inr db"
| "seed_dimensions sc t ((nm, allowed, req) # ds) ids db =
     (case GetScopeDimensionByName t nm db of
        Some _ \<Rightarrow> seed_dimensions sc t ds ids db
      | None \<Rightarrow>
        (case CreateScopeDimension
                \<lparr>dim_ID = ids nm, dim_TenantID = t, dim_Name = nm, dim_ValueType = ''string'',
                 dim_AllowedValues = marshalAllowedValues sc allowed,
                 dim_IsRequired = req, dim_IsBuiltin = True\<rparr> db of
           None \<Rightarrow> Inl (CreateDimension nm)
         | Some (_, db') \<Rightarrow> seed_dimensions sc t ds ids db'))"

definition SeedTenant ::
  "scope_codec \<Rightarrow> txenv \<Rightarrow> (string \<Rightarrow> uuid) \<Rightarrow> uuid \<Rightarrow> gotime \<Rightarrow> 'z scope_db_scheme \<Rightarrow>
   (scope_store_error err + cell) \<times> 'z scope_db_scheme" where
  "SeedTenant sc env ids newID dbnow db =
     inTx env (\<lambda>t db0.
       (case seed_dimensions sc t BuiltinDimensions ids db0 of
          Inl e \<Rightarrow> Inl e
        | Inr db1 \<Rightarrow>
          (case Canonicalize (sc_sha256hex sc) DefaultCellDimensions of
             Inl e \<Rightarrow> Inl (CanonicalError e)
           | Inr (canon, hash) \<Rightarrow>
             (case GetScopeCellByHash t hash db1 of
                Some existing \<Rightarrow> Inr (rowToCell sc existing, db1)
              | None \<Rightarrow>
                (case CreateScopeCell
                        \<lparr>cr_ID = newID, cr_TenantID = t, cr_Label = ''default'',
                         cr_Dimensions = canon, cr_DimensionsHash = hash, cr_CreatedAt = dbnow\<rparr> db1 of
                   None \<Rightarrow> Inl CreateDefaultCell
                 | Some (row, db2) \<Rightarrow> Inr (rowToCell sc row, db2)))))) db"

definition CreateCell ::
  "scope_codec \<Rightarrow> txenv \<Rightarrow> uuid \<Rightarrow> gotime \<Rightarrow> string \<Rightarrow> dims \<Rightarrow> 'z scope_db_scheme \<Rightarrow>
   (scope_store_error err + cell) \<times> 'z scope_db_scheme" where
  "CreateCell sc env newID dbnow label dims db =
     inTx env (\<lambda>t db0.
       (case validateDimensions sc t dims db0 of
          Some e \<Rightarrow> Inl e
        | None \<Rightarrow>
          (case Canonicalize (sc_sha256hex sc) dims of
             Inl e \<Rightarrow> Inl (CanonicalError e)
           | Inr (canon, hash) \<Rightarrow>
             (case CreateScopeCell
                     \<lparr>cr_ID = newID, cr_TenantID = t, cr_Label = label,
                      cr_Dimensions = canon, cr_DimensionsHash = hash, cr_CreatedAt = dbnow\<rparr> db0 of
                None \<Rightarrow> Inl ErrCellExists
              | Some (row, db1) \<Rightarrow> Inr (rowToCell sc row, db1))))) db"

definition listCellsInTx :: "scope_codec \<Rightarrow> uuid \<Rightarrow> 'z scope_db_scheme \<Rightarrow> cell list" where
  "listCellsInTx sc t db = map (rowToCell sc) (ListScopeCells t db)"

definition ListCells ::
  "scope_codec \<Rightarrow> txenv \<Rightarrow> 'z scope_db_scheme \<Rightarrow>
   (scope_store_error err + cell list) \<times> 'z scope_db_scheme" where
  "ListCells sc env db = inTx env (\<lambda>t db0. Inr (listCellsInTx sc t db0, db0)) db"

definition ListDimensions ::
  "txenv \<Rightarrow> 'z scope_db_scheme \<Rightarrow>
   (scope_store_error err + dimension_row list) \<times> 'z scope_db_scheme" where
  "ListDimensions env db = inTx env (\<lambda>t db0. Inr (ListScopeDimensions t db0, db0)) db"

definition isLegacyTrueExpr :: "string \<Rightarrow> bool" where
  "isLegacyTrueExpr s \<longleftrightarrow> (let t = TrimSpace s in t = ''true'' \<or> t = [])"

definition ControlApplicability ::
  "scope_codec \<Rightarrow> txenv \<Rightarrow> uuid \<Rightarrow> 'z scope_db_scheme \<Rightarrow>
   (scope_store_error err + cell list) \<times> 'z scope_db_scheme" where
  "ControlApplicability sc env controlID db =
     inTx env (\<lambda>t db0.
       (case GetControlApplicabilityExpr t controlID db0 of
          None \<Rightarrow> Inl (ScopeControlNotFound controlID)
        | Some row \<Rightarrow>
          (let universe = listCellsInTx sc t db0 in
           if isLegacyTrueExpr (ctl_ApplicabilityExpr row) then Inr (universe, db0)
           else
             (case Evaluate (sc_unmarshal sc) (ctl_ApplicabilityExpr row) universe of
                Inl e \<Rightarrow> Inl (ExpressionError e)
              | Inr out \<Rightarrow> Inr (out, db0))))) db"


section \<open>Lemmas\<close>

lemmas scope_queries =
  ListScopeDimensions_def GetScopeDimensionByName_def CreateScopeDimension_def ListScopeCells_def
  GetScopeCellByHash_def CreateScopeCell_def GetControlApplicabilityExpr_def

text \<open>The table constraints of \<open>scope_cells\<close>.\<close>

definition cells_wf :: "'z scope_db_scheme \<Rightarrow> bool" where
  "cells_wf db \<longleftrightarrow>
     distinct (map cr_ID (db_cells db))
     \<and> distinct (map (\<lambda>r. (cr_TenantID r, cr_DimensionsHash r)) (db_cells db))"

lemma CreateScopeCell_SomeD:
  "CreateScopeCell row db = Some (r, db') \<Longrightarrow>
     r = row \<and> db' = db\<lparr>db_cells := db_cells db @ [row]\<rparr> \<and>
     (\<forall>x \<in> set (db_cells db). cr_ID x \<noteq> cr_ID row \<and>
        (cr_TenantID x = cr_TenantID row \<longrightarrow> cr_DimensionsHash x \<noteq> cr_DimensionsHash row))"
  by (auto simp: CreateScopeCell_def split: if_splits)

lemma CreateScopeCell_wf:
  "CreateScopeCell row db = Some (r, db') \<Longrightarrow> cells_wf db \<Longrightarrow> cells_wf db'"
  by (frule CreateScopeCell_SomeD) (fastforce simp: cells_wf_def)

lemma GetScopeCellByHash_created:
  assumes "GetScopeCellByHash t h db = None" and "cr_TenantID row = t" and "cr_DimensionsHash row = h"
  shows "GetScopeCellByHash t h (db\<lparr>db_cells := db_cells db @ [row]\<rparr>) = Some row"
  using assms by (simp add: GetScopeCellByHash_def find_append)

lemma seed_dimensions_frame:
  "seed_dimensions sc t ds ids db = Inr db' \<Longrightarrow>
     db_cells db' = db_cells db \<and> db_controls db' = db_controls db \<and>
     set (db_dimensions db) \<subseteq> set (db_dimensions db')"
proof (induction ds arbitrary: db)
  case (Cons d ds)
  obtain nm al rq where "d = (nm, al, rq)" by (cases d)
  with Cons show ?case
    by (fastforce simp: CreateScopeDimension_def split: option.splits if_splits prod.splits)
qed simp

lemma GetScopeDimensionByName_mono:
  "GetScopeDimensionByName t nm db \<noteq> None \<Longrightarrow> set (db_dimensions db) \<subseteq> set (db_dimensions db') \<Longrightarrow>
     GetScopeDimensionByName t nm db' \<noteq> None"
  by (auto simp: GetScopeDimensionByName_def find_None_iff)

lemma seed_dimensions_present:
  "seed_dimensions sc t ds ids db = Inr db' \<Longrightarrow> nm \<in> fst ` set ds \<Longrightarrow>
     GetScopeDimensionByName t nm db' \<noteq> None"
proof (induction ds arbitrary: db)
  case (Cons d ds)
  obtain n al rq where d: "d = (n, al, rq)" by (cases d)
  show ?case
  proof (cases "GetScopeDimensionByName t n db")
    case None
    with Cons.prems d obtain row db1 where row: "dim_TenantID row = t" "dim_Name row = n"
      and c: "CreateScopeDimension row db = Some (row, db1)"
      and rest: "seed_dimensions sc t ds ids db1 = Inr db'"
      by (fastforce simp: CreateScopeDimension_def split: option.splits if_splits prod.splits)
    have "GetScopeDimensionByName t n db1 \<noteq> None"
      using c row by (auto simp: CreateScopeDimension_def GetScopeDimensionByName_def find_None_iff
          split: if_splits)
    then have "GetScopeDimensionByName t n db' \<noteq> None"
      using GetScopeDimensionByName_mono seed_dimensions_frame [OF rest] by blast
    with Cons.IH [OF rest] Cons.prems(2) d show ?thesis by auto
  next
    case (Some x)
    with Cons.prems d have rest: "seed_dimensions sc t ds ids db = Inr db'" by simp
    then have "GetScopeDimensionByName t n db' \<noteq> None"
      using Some GetScopeDimensionByName_mono [of t n db db'] seed_dimensions_frame [OF rest] by auto
    with Cons.IH [OF rest] Cons.prems(2) d show ?thesis by auto
  qed
qed simp

lemma seed_dimensions_done:
  "(\<And>nm. nm \<in> fst ` set ds \<Longrightarrow> GetScopeDimensionByName t nm db \<noteq> None) \<Longrightarrow>
     seed_dimensions sc t ds ids db = Inr db"
proof (induction ds)
  case (Cons d ds)
  obtain nm al rq where "d = (nm, al, rq)" by (cases d)
  moreover with Cons.prems [of nm] obtain x where "GetScopeDimensionByName t nm db = Some x" by force
  ultimately show ?case using Cons by auto
qed simp

lemma check_declared_None_iff:
  "check_declared sc m ds = None \<longleftrightarrow>
     (\<forall>(nm, v) \<in> set ds. \<exists>dim. m nm = Some dim \<and> checkAllowedValue sc dim v = None)"
  by (induction sc m ds rule: check_declared.induct) (auto split: option.splits)

lemma check_required_None_iff:
  "check_required rows ds = None \<longleftrightarrow>
     (\<forall>r \<in> set rows. dim_IsRequired r \<longrightarrow> map_of ds (dim_Name r) \<noteq> None)"
  by (induction rows ds rule: check_required.induct) auto

lemma map_of_eq_set:
  "wf_dims d \<Longrightarrow> wf_dims d' \<Longrightarrow> map_of d = map_of d' \<Longrightarrow> set d = set d'"
  by (metis wf_dims_def map_of_eqI map_of_inject_set)

lemma validateDimensions_None_iff:
  "validateDimensions sc t ds db = None \<longleftrightarrow>
     ds \<noteq> [] \<and>
     check_declared sc (foldl (\<lambda>m r. m(dim_Name r \<mapsto> r)) Map.empty (ListScopeDimensions t db)) ds = None \<and>
     check_required (ListScopeDimensions t db) ds = None"
  by (auto simp: validateDimensions_def Let_def split: option.splits)

lemma validateDimensions_cong:
  assumes "wf_dims d" "wf_dims d'" "map_of d = map_of d'"
  shows "validateDimensions sc t d db = None \<longleftrightarrow> validateDimensions sc t d' db = None"
proof -
  have "set d = set d'" using assms by (rule map_of_eq_set)
  moreover then have "d = [] \<longleftrightarrow> d' = []" by (metis set_empty)
  ultimately show ?thesis
    using assms(3)
    by (simp add: validateDimensions_None_iff check_declared_None_iff check_required_None_iff)
qed

lemma CreateCell_SomeE:
  assumes "CreateCell sc env newID dbnow label dims db = (Inr c, db')"
  obtains t canon where "tenant_of env = Some t" "tx_ok env"
    "validateDimensions sc t dims db = None"
    "Canonicalize (sc_sha256hex sc) dims = Inr (canon, sc_sha256hex sc canon)"
    "CreateScopeCell \<lparr>cr_ID = newID, cr_TenantID = t, cr_Label = label, cr_Dimensions = canon,
        cr_DimensionsHash = sc_sha256hex sc canon, cr_CreatedAt = dbnow\<rparr> db =
      Some (\<lparr>cr_ID = newID, cr_TenantID = t, cr_Label = label, cr_Dimensions = canon,
        cr_DimensionsHash = sc_sha256hex sc canon, cr_CreatedAt = dbnow\<rparr>, db')"
    "c = rowToCell sc \<lparr>cr_ID = newID, cr_TenantID = t, cr_Label = label, cr_Dimensions = canon,
        cr_DimensionsHash = sc_sha256hex sc canon, cr_CreatedAt = dbnow\<rparr>"
  using assms
  by (auto simp: CreateCell_def tx_simps split: option.splits sum.splits prod.splits
      dest: CreateScopeCell_SomeD)
     (auto simp: Canonicalize_def Let_def split: if_splits dest: CreateScopeCell_SomeD)


text \<open>The outcome of a successful seed: the dimensions are there and so is the default cell.\<close>

lemma SeedTenant_SomeE:
  assumes "SeedTenant sc env ids newID dbnow db = (Inr c, db')"
  obtains t db1 canon row where "tenant_of env = Some t"
    "seed_dimensions sc t BuiltinDimensions ids db = Inr db1"
    "Canonicalize (sc_sha256hex sc) DefaultCellDimensions = Inr (canon, sc_sha256hex sc canon)"
    "GetScopeCellByHash t (sc_sha256hex sc canon) db' = Some row" "c = rowToCell sc row"
    "db_dimensions db' = db_dimensions db1" "cells_wf db \<longrightarrow> cells_wf db'"
proof -
  obtain t where t: "tenant_of env = Some t"
    using assms by (auto simp: SeedTenant_def tx_simps)
  obtain db1 where seed: "seed_dimensions sc t BuiltinDimensions ids db = Inr db1"
    using assms t by (cases "seed_dimensions sc t BuiltinDimensions ids db")
      (simp_all add: SeedTenant_def tx_simps)
  obtain canon where canon: "Canonicalize (sc_sha256hex sc) DefaultCellDimensions = Inr (canon, sc_sha256hex sc canon)"
    by (simp add: Canonicalize_def DefaultCellDimensions_def Let_def)
  let ?h = "sc_sha256hex sc canon"
  have frame: "cells_wf db1 \<longleftrightarrow> cells_wf db"
    using seed_dimensions_frame [OF seed] by (simp add: cells_wf_def)
  show ?thesis
  proof (cases "GetScopeCellByHash t ?h db1")
    case None
    define row where "row = \<lparr>cr_ID = newID, cr_TenantID = t, cr_Label = ''default'',
      cr_Dimensions = canon, cr_DimensionsHash = ?h, cr_CreatedAt = dbnow\<rparr>"
    with None assms t seed canon obtain r where "CreateScopeCell row db1 = Some (r, db')" "c = rowToCell sc r"
      by (auto simp: SeedTenant_def tx_simps split: option.splits)
    then have new: "CreateScopeCell row db1 = Some (row, db')" and c: "c = rowToCell sc row"
      by (auto dest: CreateScopeCell_SomeD)
    have row: "cr_TenantID row = t" "cr_DimensionsHash row = ?h" by (simp_all add: row_def)
    have "GetScopeCellByHash t ?h db' = Some row"
      using GetScopeCellByHash_created [OF None row] new by (auto dest: CreateScopeCell_SomeD)
    then show ?thesis
      using that t seed canon c new frame CreateScopeCell_wf [OF new] by (auto dest: CreateScopeCell_SomeD)
  next
    case (Some row)
    with assms t seed canon have "c = rowToCell sc row" "db' = db1"
      by (auto simp: SeedTenant_def tx_simps)
    with that t seed canon Some frame show ?thesis by auto
  qed
qed


section \<open>A closed example\<close>

definition demo_codec :: scope_codec where
  "demo_codec =
     \<lparr>sc_unmarshal = (\<lambda>_. Inr (Node ''true'' [] None None [] None)),
      sc_decode_dims = (\<lambda>_. Some []),
      sc_decode_strings = (\<lambda>_. Some [''prod'', ''internal'']),
      sc_marshal_strings = concat, sc_sha256hex = (\<lambda>b. b)\<rparr>"

definition demo_ids :: "string \<Rightarrow> uuid" where
  "demo_ids nm =
     (if nm = ''business_unit'' then 1 else if nm = ''environment'' then 2
      else if nm = ''geography'' then 3 else if nm = ''cloud_account'' then 4
      else if nm = ''data_classification'' then 5 else 6)"

definition demo_control :: control_row where
  "demo_control =
     \<lparr>ctl_ID = 7, ctl_TenantID = 1, ctl_BundleID = ''soc2'', ctl_ApplicabilityExpr = ''true'',
      ctl_FreshnessClass = Some ''daily'', ctl_ImplementationType = ''automated'',
      ctl_EvidenceQueries = [], ctl_SupersededBy = None\<rparr>"

definition demo_scope_db :: scope_db where
  "demo_scope_db =
     \<lparr>db_dimensions = [],
      db_cells =
        [\<lparr>cr_ID = 20, cr_TenantID = 1, cr_Label = ''a'', cr_Dimensions = [], cr_DimensionsHash = ''h1'',
          cr_CreatedAt = 0\<rparr>,
         \<lparr>cr_ID = 21, cr_TenantID = 2, cr_Label = ''b'', cr_Dimensions = [], cr_DimensionsHash = ''h2'',
          cr_CreatedAt = 0\<rparr>],
      db_controls = [demo_control]\<rparr>"

lemma demo_seed: "\<exists>c db'. SeedTenant demo_codec demo_env demo_ids 9 0 demo_scope_db = (Inr c, db')"
  by (simp add: SeedTenant_def inTx_run BuiltinDimensions_def scope_queries demo_ids_def
      demo_scope_db_def demo_codec_def marshalAllowedValues_def Canonicalize_def
      DefaultCellDimensions_def canonical_bytes_def Let_def)

lemma demo_create:
  "\<exists>c db'. CreateCell demo_codec demo_env 9 0 ''x'' [(''geography'', ''eu'')]
     (demo_scope_db\<lparr>db_dimensions := [\<lparr>dim_ID = 3, dim_TenantID = 1, dim_Name = ''geography'',
        dim_ValueType = ''string'', dim_AllowedValues = ''[]'', dim_IsRequired = False,
        dim_IsBuiltin = True\<rparr>]\<rparr>) = (Inr c, db')"
  by (simp add: CreateCell_def inTx_run scope_queries demo_scope_db_def validateDimensions_def
      checkAllowedValue_def Canonicalize_def canonical_bytes_def demo_codec_def Let_def)


section \<open>Properties\<close>

text \<open>
  Seeding a tenant is idempotent: once it has succeeded, seeding the same tenant again,
  with whatever fresh identifiers and clock, changes nothing and returns the same cell.
\<close>

theorem SeedTenant_idempotent:
  assumes "SeedTenant sc env ids newID dbnow db = (Inr c, db')"
    and "tenant_of env' = tenant_of env" and "tx_ok env'"
  shows "SeedTenant sc env' ids' newID' dbnow' db' = (Inr c, db')"
proof -
  obtain t db1 canon row where t: "tenant_of env = Some t"
    and seed: "seed_dimensions sc t BuiltinDimensions ids db = Inr db1"
    and canon: "Canonicalize (sc_sha256hex sc) DefaultCellDimensions = Inr (canon, sc_sha256hex sc canon)"
    and row: "GetScopeCellByHash t (sc_sha256hex sc canon) db' = Some row" "c = rowToCell sc row"
    and dims: "db_dimensions db' = db_dimensions db1"
    using assms(1) by (rule SeedTenant_SomeE)
  have "GetScopeDimensionByName t nm db' \<noteq> None" if "nm \<in> fst ` set BuiltinDimensions" for nm
    using seed_dimensions_present [OF seed that] dims by (simp add: GetScopeDimensionByName_def)
  then have "seed_dimensions sc t BuiltinDimensions ids' db' = Inr db'"
    by (rule seed_dimensions_done)
  with t canon row assms(2,3) show ?thesis
    by (simp add: SeedTenant_def inTx_run)
qed

theorem SeedTenant_idempotent_witness:
  "\<exists>c db'. SeedTenant demo_codec demo_env demo_ids 9 0 demo_scope_db = (Inr c, db') \<and>
     SeedTenant demo_codec demo_env demo_ids 10 5 db' = (Inr c, db')"
proof -
  obtain c db' where "SeedTenant demo_codec demo_env demo_ids 9 0 demo_scope_db = (Inr c, db')"
    using demo_seed by blast
  with SeedTenant_idempotent [OF this refl, of demo_ids 10 5] show ?thesis by auto
qed

text \<open>
  A tenant never gets two cells over the same dimensions: after a successful
  \<open>CreateCell\<close>, creating a cell over an equal dimension map (in any iteration order) in
  the same tenant is rejected with \<open>ErrCellExists\<close> and changes nothing.
\<close>

theorem CreateCell_no_duplicate:
  assumes first: "CreateCell sc env newID dbnow label dims db = (Inr c, db')"
    and wf: "wf_dims dims" "wf_dims dims'" and same: "map_of dims' = map_of dims"
    and env': "tenant_of env' = tenant_of env" "tx_ok env'"
  shows "CreateCell sc env' newID' dbnow' label' dims' db' = (Inl (Dom ErrCellExists), db')"
proof -
  obtain t canon where t: "tenant_of env = Some t"
    and valid: "validateDimensions sc t dims db = None"
    and canon: "Canonicalize (sc_sha256hex sc) dims = Inr (canon, sc_sha256hex sc canon)"
    and new: "CreateScopeCell \<lparr>cr_ID = newID, cr_TenantID = t, cr_Label = label, cr_Dimensions = canon,
        cr_DimensionsHash = sc_sha256hex sc canon, cr_CreatedAt = dbnow\<rparr> db =
      Some (\<lparr>cr_ID = newID, cr_TenantID = t, cr_Label = label, cr_Dimensions = canon,
        cr_DimensionsHash = sc_sha256hex sc canon, cr_CreatedAt = dbnow\<rparr>, db')"
    using first by (rule CreateCell_SomeE)
  from new have db': "db_dimensions db' = db_dimensions db"
    "\<exists>r \<in> set (db_cells db'). cr_TenantID r = t \<and> cr_DimensionsHash r = sc_sha256hex sc canon"
    by (auto dest!: CreateScopeCell_SomeD)
  have "validateDimensions sc t dims' db = None"
    using validateDimensions_cong [OF wf same [symmetric], of sc t db] valid by simp
  then have valid': "validateDimensions sc t dims' db' = None"
    by (simp add: validateDimensions_None_iff ListScopeDimensions_def db'(1))
  have "set dims' = set dims" using map_of_eq_set [OF wf(2,1) same] .
  then have canon': "Canonicalize (sc_sha256hex sc) dims' = Inr (canon, sc_sha256hex sc canon)"
    using canon sorted_members_cong [OF wf(2,1) same]
    by (auto simp: Canonicalize_def canonical_bytes_def Let_def split: if_splits)
  show ?thesis
    using t env' valid' canon' db'(2) by (auto simp: CreateCell_def inTx_run CreateScopeCell_def)
qed

theorem CreateCell_no_duplicate_witness:
  "\<exists>db' :: scope_db. CreateCell demo_codec demo_env 10 1 ''y'' [(''geography'', ''eu'')] db' =
     (Inl (Dom ErrCellExists), db')"
proof -
  obtain c and db db' :: scope_db where "CreateCell demo_codec demo_env 9 0 ''x'' [(''geography'', ''eu'')] db = (Inr c, db')"
    using demo_create by blast
  from CreateCell_no_duplicate [OF this, of "[(''geography'', ''eu'')]" demo_env 10 1 "''y''"]
  show ?thesis by (auto simp: wf_dims_def)
qed

text \<open>
  \<open>ControlApplicability\<close> never leaves the tenant and never widens: what it returns is
  a subsequence of the tenant's own cells, all of them when the expression is one of the
  true forms, and it writes nothing.
\<close>

theorem ControlApplicability_within_tenant:
  assumes "ControlApplicability sc env controlID db = (Inr out, db')" and "tenant_of env = Some t"
  shows "db' = db \<and> subseq out (listCellsInTx sc t db) \<and> (\<forall>c \<in> set out. c_TenantID c = t)"
proof -
  let ?u = "listCellsInTx sc t db"
  from assms have "db' = db" and "out = ?u \<or>
      (\<exists>e. Evaluate (sc_unmarshal sc) e ?u = Inr out)"
    by (auto simp: ControlApplicability_def tx_simps Let_def split: option.splits sum.splits if_splits)
  moreover have "\<forall>c \<in> set ?u. c_TenantID c = t"
    by (auto simp: listCellsInTx_def rowToCell_def ListScopeCells_def)
  moreover have "subseq out ?u" if "Evaluate (sc_unmarshal sc) e ?u = Inr out" for e
    using that by (rule scope.never_widens)
  ultimately have "db' = db" and sub: "subseq out ?u" and "\<forall>c \<in> set ?u. c_TenantID c = t"
    by auto
  with subseq_set [OF sub] show ?thesis by blast
qed


lemma demo_applicability:
  "ControlApplicability demo_codec demo_env 7 demo_scope_db =
     (Inr [\<lparr>c_ID = 20, c_TenantID = 1, c_Label = ''a'', c_Dimensions = []\<rparr>], demo_scope_db)"
proof -
  have "isLegacyTrueExpr ''true''" by code_simp
  then show ?thesis
    by (simp add: ControlApplicability_def inTx_run scope_queries demo_scope_db_def demo_control_def
        listCellsInTx_def rowToCell_def demo_codec_def)
qed

theorem ControlApplicability_within_tenant_witness:
  "subseq [\<lparr>c_ID = 20, c_TenantID = 1, c_Label = ''a'', c_Dimensions = []\<rparr>]
     (listCellsInTx demo_codec 1 demo_scope_db)"
  using ControlApplicability_within_tenant [OF demo_applicability, of 1] by simp

end
