(* ===== verification/Framework_Scope.thy ===== *)
theory Framework_Scope
  imports Scope_Store
begin

text \<open>
  The pure part of \<open>internal/frameworkscope\<close>: the canonical encoding of a predicate
  document (\<open>canonical.go\<close>), predicate validation and the effective-scope
  intersection (\<open>predicate.go\<close>).

  \<open>decode_any\<close> stands for one \<open>Decode\<close> of a \<open>json.Decoder\<close> with
  \<open>UseNumber\<close>, so a number is the text it was written as.
\<close>

section \<open>Canonical predicate documents\<close>

datatype json =
    JNull
  | JBool bool
  | JStr string
  | JNumber bytes
  | JFloat "bytes option"
  | JArr "json list"
  | JObj "(string \<times> json) list"
  | JOther

datatype fs_error =
    ErrPredicateMalformed
  | MarshalFailed
  | EvaluatePredicate scope_error
  | FsErrNotFound
  | FsErrWrongState
  | ErrAnotherActivated
  | FsDatabase pg_error

text \<open>The first failing writer decides the error; the outputs are concatenated otherwise.\<close>

fun seq_results :: "('e + 'a) list \<Rightarrow> 'e + 'a list" where
  "seq_results [] = Inr []"
| "seq_results (Inl e # rs) = Inl e"
| "seq_results (Inr x # rs) =
     (case seq_results rs of Inl e \<Rightarrow> Inl e | Inr xs \<Rightarrow> Inr (x # xs))"

definition write_key :: "string \<times> (fs_error + bytes) \<Rightarrow> fs_error + bytes" where
  "write_key kr =
     (case snd kr of Inl e \<Rightarrow> Inl e | Inr b \<Rightarrow> Inr (writeJSONString (fst kr) @ CHR '':'' # b))"

function writeCanonical :: "json \<Rightarrow> fs_error + bytes" where
  "writeCanonical JNull = Inr ''null''"
| "writeCanonical (JBool b) = Inr (if b then ''true'' else ''false'')"
| "writeCanonical (JStr s) = Inr (writeJSONString s)"
| "writeCanonical (JNumber n) = Inr n"
| "writeCanonical (JFloat f) = (case f of None \<Rightarrow> Inl MarshalFailed | Some raw \<Rightarrow> Inr raw)"
| "writeCanonical (JArr xs) =
     (case seq_results (map writeCanonical xs) of Inl e \<Rightarrow> Inl e
      | Inr bs \<Rightarrow> Inr (CHR ''['' # join_comma bs @ '']''))"
| "writeCanonical (JObj kvs) =
     (case seq_results (map write_key
             (sort_key fst (map (\<lambda>kv. (fst kv, writeCanonical (snd kv))) kvs))) of
        Inl e \<Rightarrow> Inl e
      | Inr bs \<Rightarrow> Inr (CHR ''{'' # join_comma bs @ ''}''))"
| "writeCanonical JOther = Inl ErrPredicateMalformed"
  by pat_completeness auto
termination
proof (relation "measure size", goal_cases)
  case (2 xs x)
  then show ?case by (induction xs) auto
next
  case (3 kvs kv)
  then show ?case by (induction kvs) (auto simp: size_prod_simp)
qed auto

definition canonicalEncode :: "json \<Rightarrow> fs_error + bytes" where
  "canonicalEncode v = writeCanonical v"

definition canonical_true :: bytes where
  "canonical_true = CHR ''{'' # writeJSONString ''op'' @ CHR '':'' # writeJSONString ''true'' @ ''}''"

definition fs_Canonicalize ::
  "(bytes \<Rightarrow> json option) \<Rightarrow> (bytes \<Rightarrow> bytes) \<Rightarrow> bytes \<Rightarrow> fs_error + bytes \<times> bytes" where
  "fs_Canonicalize decode_any sha256hex predicate =
     (let trimmed = TrimSpace predicate in
      if trimmed = [] \<or> trimmed = ''null'' \<or> trimmed = ''{}'' \<or> trimmed = ''true''
      then Inr (canonical_true, sha256hex canonical_true)
      else
        (case decode_any trimmed of
           None \<Rightarrow> Inl ErrPredicateMalformed
         | Some v \<Rightarrow>
           (case canonicalEncode v of
              Inl e \<Rightarrow> Inl e
            | Inr canon \<Rightarrow> Inr (canon, sha256hex canon))))"


section \<open>Predicates\<close>

definition fs_Validate :: "(bytes \<Rightarrow> string + node) \<Rightarrow> bytes \<Rightarrow> fs_error option" where
  "fs_Validate unmarshal canonicalPredicate =
     (case Evaluate unmarshal canonicalPredicate [] of
        Inl _ \<Rightarrow> Some ErrPredicateMalformed
      | Inr _ \<Rightarrow> None)"

definition EffectiveScope ::
  "(bytes \<Rightarrow> string + node) \<Rightarrow> cell list \<Rightarrow> bytes \<Rightarrow> fs_error + cell list" where
  "EffectiveScope unmarshal applicability frameworkPredicate =
     (case Evaluate unmarshal frameworkPredicate applicability of
        Inl e \<Rightarrow> Inl (EvaluatePredicate e)
      | Inr matches \<Rightarrow> Inr matches)"


section \<open>What the encoding determines\<close>

text \<open>
  \<open>decoded\<close> describes what the decoder can return with \<open>UseNumber\<close>: no
  \<open>float64\<close>, no foreign type, one member per key, and numbers spelled with the
  characters of the JSON number grammar. \<open>norm\<close> puts the members of every object in
  key order; two documents with the same \<open>norm\<close> are the same document.
\<close>

definition number_chars :: string where
  "number_chars = ''0123456789+-.eE''"

fun decoded :: "json \<Rightarrow> bool" where
  "decoded JNull = True"
| "decoded (JBool b) = True"
| "decoded (JStr s) = True"
| "decoded (JNumber n) = (n \<noteq> [] \<and> set n \<subseteq> set number_chars)"
| "decoded (JFloat f) = False"
| "decoded (JArr xs) = list_all decoded xs"
| "decoded (JObj kvs) = (distinct (map fst kvs) \<and> list_all (\<lambda>kv. decoded (snd kv)) kvs)"
| "decoded JOther = False"

fun norm_json :: "json \<Rightarrow> json" where
  "norm_json (JArr xs) = JArr (map norm_json xs)"
| "norm_json (JObj kvs) = JObj (sort_key fst (map (\<lambda>kv. (fst kv, norm_json (snd kv))) kvs))"
| "norm_json v = v"

text \<open>The encoding of a decoded document whose members already are in order.\<close>

fun enc :: "json \<Rightarrow> bytes" where
  "enc JNull = ''null''"
| "enc (JBool b) = (if b then ''true'' else ''false'')"
| "enc (JStr s) = writeJSONString s"
| "enc (JNumber n) = n"
| "enc (JFloat f) = []"
| "enc (JArr xs) = CHR ''['' # join_comma (map enc xs) @ '']''"
| "enc (JObj kvs) =
     CHR ''{'' # join_comma (map (\<lambda>kv. writeJSONString (fst kv) @ CHR '':'' # enc (snd kv)) kvs) @ ''}''"
| "enc JOther = []"

lemma insort_key_map_snd:
  "insort_key fst (fst x, f (snd x)) (map (\<lambda>kv. (fst kv, f (snd kv))) xs) =
     map (\<lambda>kv. (fst kv, f (snd kv))) (insort_key fst x xs)"
  by (induction xs) auto

lemma sort_key_map_snd:
  "sort_key fst (map (\<lambda>kv. (fst kv, f (snd kv))) xs) =
     map (\<lambda>kv. (fst kv, f (snd kv))) (sort_key fst xs)"
  by (induction xs) (auto simp: insort_key_map_snd)

lemma seq_results_Inr: "(\<And>x. x \<in> set xs \<Longrightarrow> f x = Inr (g x)) \<Longrightarrow> seq_results (map f xs) = Inr (map g xs)"
  by (induction xs) auto

lemma writeCanonical_enc: "decoded v \<Longrightarrow> writeCanonical v = Inr (enc (norm_json v))"
proof (induction v rule: writeCanonical.induct)
  case (6 xs)
  then have "seq_results (map writeCanonical xs) = Inr (map (\<lambda>x. enc (norm_json x)) xs)"
    by (intro seq_results_Inr) (auto simp: list_all_iff)
  then show ?case by (simp add: comp_def)
next
  case (7 kvs)
  then have "map write_key (sort_key fst (map (\<lambda>kv. (fst kv, writeCanonical (snd kv))) kvs)) =
      map (\<lambda>kv. Inr (writeJSONString (fst kv) @ CHR '':'' # enc (norm_json (snd kv)))) (sort_key fst kvs)"
    by (auto simp: sort_key_map_snd write_key_def list_all_iff)
  then have "seq_results (map write_key (sort_key fst (map (\<lambda>kv. (fst kv, writeCanonical (snd kv))) kvs))) =
      Inr (map (\<lambda>kv. writeJSONString (fst kv) @ CHR '':'' # enc (norm_json (snd kv))) (sort_key fst kvs))"
    by (simp add: seq_results_Inr)
  then show ?case by (simp add: sort_key_map_snd comp_def)
qed auto

lemma decoded_norm: "decoded v \<Longrightarrow> decoded (norm_json v)"
proof (induction v rule: norm_json.induct)
  case (2 kvs)
  have "mset (map fst (sort_key fst kvs)) = mset (map fst kvs)" by simp
  then have "distinct (map fst (sort_key fst kvs)) = distinct (map fst kvs)"
    by (metis mset_eq_imp_distinct_iff)
  with 2 show ?case by (auto simp: list_all_iff sort_key_map_snd comp_def)
qed (auto simp: list_all_iff)

text \<open>The first character of an encoding determines the constructor.\<close>

fun json_kind :: "json \<Rightarrow> nat" where
  "json_kind JNull = 0"
| "json_kind (JBool b) = (if b then 1 else 2)"
| "json_kind (JStr s) = 3"
| "json_kind (JNumber n) = 4"
| "json_kind (JArr xs) = 5"
| "json_kind (JObj kvs) = 6"
| "json_kind v = 7"

definition char_kind :: "char \<Rightarrow> nat" where
  "char_kind c =
     (if c = CHR ''n'' then 0 else if c = CHR ''t'' then 1 else if c = CHR ''f'' then 2
      else if c = quote then 3 else if c \<in> set number_chars then 4
      else if c = CHR ''['' then 5 else if c = CHR ''{'' then 6 else 7)"

lemma char_kind_number: "c \<in> set number_chars \<Longrightarrow> char_kind c = 4"
  by (auto simp: number_chars_def char_kind_def)

lemma enc_head:
  assumes "decoded v"
  obtains c cs where "enc v = c # cs" and "char_kind c = json_kind v"
proof -
  have "\<exists>c cs. enc v = c # cs \<and> char_kind c = json_kind v"
  proof (cases v)
    case (JNumber n)
    with assms show ?thesis by (cases n) (auto simp: char_kind_number)
  qed (use assms in \<open>simp_all add: char_kind_def number_chars_def writeJSONString_def\<close>)
  then show ?thesis using that by blast
qed

definition delims :: "char set" where
  "delims = {CHR '','', CHR '']'', CHR ''}''}"

lemma delims_kind: "d \<in> delims \<Longrightarrow> char_kind d = 7 \<and> d \<notin> set number_chars"
  unfolding delims_def
  by (elim insertE emptyE) (simp_all add: char_kind_def number_chars_def)

lemma json_kind_decoded: "decoded v \<Longrightarrow> json_kind v < 7"
  by (cases v) auto

lemma enc_kind:
  assumes "decoded v" "decoded w" "enc v @ r = enc w @ s"
  shows "json_kind v = json_kind w"
proof -
  obtain c cs where "enc v = c # cs" "char_kind c = json_kind v" using assms(1) by (rule enc_head)
  moreover obtain c' cs' where "enc w = c' # cs'" "char_kind c' = json_kind w" using assms(2) by (rule enc_head)
  ultimately show ?thesis using assms(3) by simp
qed

lemma enc_not_delim:
  assumes "decoded v" and "d \<in> delims"
  shows "enc v @ r \<noteq> d # s"
proof -
  obtain c cs where "enc v = c # cs" "char_kind c = json_kind v" using assms(1) by (rule enc_head)
  then show ?thesis using delims_kind [OF assms(2)] json_kind_decoded [OF assms(1)] by auto
qed

lemma number_unique:
  assumes "set n \<subseteq> set number_chars" and "set m \<subseteq> set number_chars"
    and "d \<in> delims" and "e \<in> delims" and "n @ d # r = m @ e # s"
  shows "n = m \<and> d = e \<and> r = s"
proof -
  have tw: "takeWhile (\<lambda>c. c \<in> set number_chars) (x @ y # z) = x"
    if "set x \<subseteq> set number_chars" "y \<in> delims" for x y z
    using that delims_kind [of y] by (subst takeWhile_append2) auto
  have "n = m" using tw [OF assms(1,3), of r] tw [OF assms(2,4), of s] assms(5) by simp
  with assms(5) show ?thesis by simp
qed

lemma enc_unique:
  assumes "decoded v" and "decoded w" and "d \<in> delims" and "e \<in> delims"
    and "enc v @ d # r = enc w @ e # s"
  shows "v = w \<and> d = e \<and> r = s"
  using assms
proof (induction v arbitrary: w d e r s rule: enc.induct)
  case 1
  have "json_kind w = json_kind JNull" using enc_kind [OF 1(1,2,5)] by simp
  then have "w = JNull" by (cases w) (simp_all split: if_splits)
  with 1 show ?case by simp
next
  case (2 b)
  have "json_kind w = json_kind (JBool b)" using enc_kind [OF 2(1,2,5)] by simp
  then have "w = JBool b" by (cases w) (simp_all split: if_splits)
  with 2 show ?case by simp
next
  case (3 t)
  have "json_kind w = json_kind (JStr t)" using enc_kind [OF 3(1,2,5)] by simp
  then obtain u where "w = JStr u" by (cases w) (simp_all split: if_splits)
  with 3 show ?case by (simp add: json_read)
next
  case (4 n)
  then obtain m where "w = JNumber m" using enc_kind [OF 4(1,2,5)] by (cases w) (simp_all split: if_splits)
  with 4 number_unique [of n m d e r s] show ?case by simp
next
  case (6 xs)
  then obtain ys where w: "w = JArr ys" using enc_kind [OF 6(2,3,6)] by (cases w) (auto split: if_splits)
  have "join_comma (map enc xs) @ CHR '']'' # d # r = join_comma (map enc ys) @ CHR '']'' # e # s"
    using 6(6) w by simp
  then have "xs = ys \<and> d # r = e # s"
  proof (rule join_comma_unique [rotated -1])
    fix x y a b t u
    assume "x \<in> set xs" "y \<in> set ys" "a \<in> {CHR '','', CHR '']''}" "b \<in> {CHR '','', CHR '']''}"
      "enc x @ a # t = enc y @ b # u"
    with 6(1) [of x y a b t u] 6(2,3) w show "x = y \<and> a = b \<and> t = u"
      by (auto simp: list_all_iff delims_def)
  qed (use 6(2,3) w enc_not_delim [of _ "CHR '']''"] in \<open>auto simp: list_all_iff delims_def\<close>)
  with w show ?case by simp
next
  case (7 kvs)
  then obtain lvs where w: "w = JObj lvs" using enc_kind [OF 7(2,3,6)] by (cases w) (auto split: if_splits)
  let ?m = "\<lambda>kv. writeJSONString (fst kv) @ CHR '':'' # enc (snd kv)"
  have "join_comma (map ?m kvs) @ CHR ''}'' # d # r = join_comma (map ?m lvs) @ CHR ''}'' # e # s"
    using 7(6) w by simp
  then have "kvs = lvs \<and> d # r = e # s"
  proof (rule join_comma_unique [rotated -1])
    fix x y :: "string \<times> json" and a b t u
    assume *: "x \<in> set kvs" "y \<in> set lvs" "a \<in> {CHR '','', CHR ''}''}" "b \<in> {CHR '','', CHR ''}''}"
      "?m x @ a # t = ?m y @ b # u"
    then have "fst x = fst y" "enc (snd x) @ a # t = enc (snd y) @ b # u" by (simp_all add: json_read)
    moreover have "decoded (snd x)" "decoded (snd y)" "a \<in> delims" "b \<in> delims"
      using * 7(2,3) w by (auto simp: list_all_iff delims_def)
    ultimately show "x = y \<and> a = b \<and> t = u" using 7(1) [OF *(1), of "snd y" a b t u]
      by (simp add: prod_eq_iff)
  qed (auto simp: writeJSONString_def)
  with w show ?case by simp
qed simp_all


section \<open>Properties\<close>

text \<open>
  Two predicate documents that decode and are not one of the literal true forms
  always canonicalize, and their canonical bytes agree exactly when the documents are the
  same up to the order of object members. The re-approval trigger compares the digest of
  these bytes, so reordering keys or white space never invalidates an approval and any
  other change of the document changes the bytes.
\<close>

theorem fs_Canonicalize_faithful:
  assumes "decode_any (TrimSpace p) = Some v" and "decode_any (TrimSpace q) = Some w"
    and "decoded v" and "decoded w"
    and "TrimSpace p \<notin> {[], ''null'', ''{}'', ''true''}"
    and "TrimSpace q \<notin> {[], ''null'', ''{}'', ''true''}"
  shows "\<exists>b c. fs_Canonicalize decode_any sha256hex p = Inr (b, sha256hex b)
             \<and> fs_Canonicalize decode_any sha256hex q = Inr (c, sha256hex c)
             \<and> (b = c \<longleftrightarrow> norm_json v = norm_json w)"
proof -
  have "enc (norm_json v) = enc (norm_json w) \<longleftrightarrow> norm_json v = norm_json w"
    using enc_unique [of "norm_json v" "norm_json w" "CHR '',''" "CHR '',''" "[]" "[]"]
      decoded_norm [OF assms(3)] decoded_norm [OF assms(4)]
    by (auto simp: delims_def)
  with assms show ?thesis
    by (simp add: fs_Canonicalize_def canonicalEncode_def writeCanonical_enc)
qed

theorem fs_Canonicalize_faithful_witness:
  "fs_Canonicalize (\<lambda>b. if b = ''a'' then Some (JObj [(''x'', JNull), (''y'', JNull)])
                        else Some (JObj [(''y'', JNull), (''x'', JNull)])) id ''a'' =
   fs_Canonicalize (\<lambda>b. if b = ''a'' then Some (JObj [(''x'', JNull), (''y'', JNull)])
                        else Some (JObj [(''y'', JNull), (''x'', JNull)])) id ''b''"
proof -
  let ?dec = "\<lambda>b. if b = ''a'' then Some (JObj [(''x'', JNull), (''y'', JNull)])
                   else Some (JObj [(''y'', JNull), (''x'', JNull)])"
  have trim: "TrimSpace ''a'' = ''a''" "TrimSpace ''b'' = ''b''"
    by code_simp+
  have "\<exists>b c. fs_Canonicalize ?dec id ''a'' = Inr (b, id b) \<and> fs_Canonicalize ?dec id ''b'' = Inr (c, id c)
      \<and> (b = c \<longleftrightarrow> norm_json (JObj [(''x'', JNull), (''y'', JNull)]) =
                     norm_json (JObj [(''y'', JNull), (''x'', JNull)]))"
    by (rule fs_Canonicalize_faithful) (simp_all add: trim)
  then show ?thesis by auto
qed

text \<open>
  C7. A predicate that passed \<open>Validate\<close> never fails at evaluation time, on any set of
  cells; and when the cells are a control's resolved applicability, the effective scope is
  the intersection of the applicability set with the cells the framework predicate selects
  from the whole universe: it never widens the control's own scope.
\<close>

theorem EffectiveScope_intersection:
  assumes "fs_Validate unmarshal predicate = None"
    and "Evaluate unmarshal applicability_expr universe = Inr applicability"
  shows "\<exists>cells selected.
           EffectiveScope unmarshal applicability predicate = Inr cells
           \<and> Evaluate unmarshal predicate universe = Inr selected
           \<and> set cells = set applicability \<inter> set selected"
proof -
  obtain r where "Evaluate unmarshal predicate [] = Inr r"
    using assms(1) by (auto simp: fs_Validate_def split: sum.splits)
  from scope.accepted_everywhere [OF this]
  obtain cells where c: "Evaluate unmarshal predicate applicability = Inr cells" by blast
  obtain selected where "Evaluate unmarshal predicate universe = Inr selected"
    "set cells = set applicability \<inter> set selected"
    using scope.intersects [OF assms(2) c] by blast
  with c show ?thesis by (simp add: EffectiveScope_def)
qed

definition demo_unmarshal :: "bytes \<Rightarrow> string + node" where
  "demo_unmarshal b =
     (if b = ''a'' then Inr (Node ''eq'' ''env'' (Some ''prod'') None [] None)
      else Inr (Node ''true'' [] None None [] None))"

definition demo_cell :: "uuid \<Rightarrow> string \<Rightarrow> cell" where
  "demo_cell i env = \<lparr>c_ID = i, c_TenantID = 1, c_Label = [], c_Dimensions = [(''env'', env)]\<rparr>"

theorem EffectiveScope_intersection_witness:
  "\<exists>cells. EffectiveScope demo_unmarshal [demo_cell 1 ''prod'', demo_cell 2 ''dev''] ''a'' = Inr cells
     \<and> set cells = {demo_cell 1 ''prod''}"
proof -
  let ?u = "[demo_cell 1 ''prod'', demo_cell 2 ''dev'']"
  have "fs_Validate demo_unmarshal ''a'' = None" by code_simp
  moreover have "Evaluate demo_unmarshal ''b'' ?u = Inr ?u" by code_simp
  ultimately obtain cells selected where
    "EffectiveScope demo_unmarshal ?u ''a'' = Inr cells"
    "Evaluate demo_unmarshal ''a'' ?u = Inr selected" "set cells = set ?u \<inter> set selected"
    using EffectiveScope_intersection by blast
  moreover have "Evaluate demo_unmarshal ''a'' ?u = Inr [demo_cell 1 ''prod'']" by code_simp
  ultimately have "EffectiveScope demo_unmarshal ?u ''a'' = Inr cells"
    "set cells = set ?u \<inter> set [demo_cell 1 ''prod'']" by simp_all
  then show ?thesis by (intro exI [of _ cells]) (simp add: Int_insert_right)
qed

end
