(* ===== verification/Framework_Scope_Store.thy ===== *)
theory Framework_Scope_Store
  imports Framework_Scope
begin

text \<open>
  \<open>internal/frameworkscope/store.go\<close>: the four-state approval workflow over the table
  \<open>framework_scopes\<close>, with the queries of \<open>internal/db/queries/framework_scopes.sql\<close>,
  the re-approval trigger and the one-activated-row index of the workflow migration.

  \<open>fc_jsonb\<close> stands for what PostgreSQL returns for a predicate written into the
  \<open>JSONB\<close> column; \<open>fc_parse_uuid\<close> for \<open>uuid.Parse\<close>. A row and the Go struct
  \<open>FrameworkScope\<close> have the same fields, so one record serves for both.
\<close>

datatype fs_state = StateDraft | StateReview | StateApproved | StateActivated | StateSuperseded

fun fs_state_text :: "fs_state \<Rightarrow> string" where
  "fs_state_text StateDraft = ''draft''"
| "fs_state_text StateReview = ''review''"
| "fs_state_text StateApproved = ''approved''"
| "fs_state_text StateActivated = ''activated''"
| "fs_state_text StateSuperseded = ''superseded''"

record FrameworkScope =
  fs_ID :: uuid
  fs_TenantID :: uuid
  fs_FrameworkVersionID :: uuid
  fs_Name :: string
  fs_State :: fs_state
  fs_Predicate :: bytes
  fs_PredicateHash :: string
  fs_ApproverUserID :: "uuid option"
  fs_ApprovedAt :: "gotime option"
  fs_PredicateHashAtApproval :: "string option"
  fs_ApprovalEvidenceFileURL :: "string option"
  fs_ApprovalEvidenceFileHash :: "string option"
  fs_EffectiveFrom :: "gotime option"
  fs_SupersededBy :: "uuid option"
  fs_SupersededAt :: "gotime option"
  fs_CreatedAt :: gotime
  fs_UpdatedAt :: gotime

record fs_db = scope_db +
  db_framework_versions :: "uuid list"
  db_fscopes :: "FrameworkScope list"

record fs_codec =
  fc_unmarshal :: "bytes \<Rightarrow> string + node"
  fc_decode_any :: "bytes \<Rightarrow> json option"
  fc_sha256hex :: "bytes \<Rightarrow> bytes"
  fc_jsonb :: "bytes \<Rightarrow> bytes"
  fc_parse_uuid :: "string \<Rightarrow> uuid option"


section \<open>Queries, the trigger and the index\<close>

text \<open>The \<open>BEFORE UPDATE\<close> trigger, as a function of the old and the new row.\<close>

definition bounce_on_predicate_change :: "FrameworkScope \<Rightarrow> FrameworkScope \<Rightarrow> FrameworkScope" where
  "bounce_on_predicate_change old new =
     (if fs_PredicateHash new \<noteq> fs_PredicateHash old \<and> fs_State old \<in> {StateReview, StateApproved}
      then new\<lparr>fs_State := StateDraft, fs_ApproverUserID := None, fs_ApprovedAt := None,
               fs_PredicateHashAtApproval := None, fs_ApprovalEvidenceFileURL := None,
               fs_ApprovalEvidenceFileHash := None\<rparr>
      else new)"

text \<open>The partial unique index: one activated row per tenant and framework version.\<close>

definition one_active :: "FrameworkScope list \<Rightarrow> bool" where
  "one_active t \<longleftrightarrow>
     distinct (map (\<lambda>r. (fs_TenantID r, fs_FrameworkVersionID r))
                (filter (\<lambda>r. fs_State r = StateActivated) t))"

text \<open>\<open>UPDATE ... WHERE P\<close> on the table, through the trigger and the index.\<close>

definition fs_update ::
  "(FrameworkScope \<Rightarrow> bool) \<Rightarrow> (FrameworkScope \<Rightarrow> FrameworkScope) \<Rightarrow> 'z fs_db_scheme \<Rightarrow>
   pg_error + 'z fs_db_scheme" where
  "fs_update P f db =
     (let t = sql_update P (\<lambda>r. bounce_on_predicate_change r (f r)) (db_fscopes db) in
      if one_active t then Inr (db\<lparr>db_fscopes := t\<rparr>) else Inl UniqueViolation)"

definition fs_update_one ::
  "(FrameworkScope \<Rightarrow> bool) \<Rightarrow> (FrameworkScope \<Rightarrow> FrameworkScope) \<Rightarrow> 'z fs_db_scheme \<Rightarrow>
   pg_error + FrameworkScope \<times> 'z fs_db_scheme" where
  "fs_update_one P f db =
     (case List.find P (db_fscopes db) of
        None \<Rightarrow> Inl NoRows
      | Some r \<Rightarrow>
        (case fs_update P f db of Inl e \<Rightarrow> Inl e
         | Inr db' \<Rightarrow> Inr (bounce_on_predicate_change r (f r), db')))"

definition CreateFrameworkScope ::
  "FrameworkScope \<Rightarrow> 'z fs_db_scheme \<Rightarrow> pg_error + FrameworkScope \<times> 'z fs_db_scheme" where
  "CreateFrameworkScope row db =
     (if fs_ID row \<in> fs_ID ` set (db_fscopes db) then Inl UniqueViolation
      else if fs_FrameworkVersionID row \<notin> set (db_framework_versions db) then Inl ForeignKeyViolation
      else Inr (row, db\<lparr>db_fscopes := db_fscopes db @ [row]\<rparr>))"

definition GetFrameworkScopeByID :: "uuid \<Rightarrow> uuid \<Rightarrow> 'z fs_db_scheme \<Rightarrow> FrameworkScope option" where
  "GetFrameworkScopeByID t i db =
     List.find (\<lambda>r. fs_TenantID r = t \<and> fs_ID r = i) (db_fscopes db)"

definition ListFrameworkScopes :: "uuid \<Rightarrow> 'z fs_db_scheme \<Rightarrow> FrameworkScope list" where
  "ListFrameworkScopes t db =
     sort_key (\<lambda>r. (- fs_CreatedAt r, fs_ID r)) (filter (\<lambda>r. fs_TenantID r = t) (db_fscopes db))"

definition ListFrameworkScopesByFrameworkVersion ::
  "uuid \<Rightarrow> uuid \<Rightarrow> 'z fs_db_scheme \<Rightarrow> FrameworkScope list" where
  "ListFrameworkScopesByFrameworkVersion t fv db =
     sort_key (\<lambda>r. (- fs_CreatedAt r, fs_ID r))
       (filter (\<lambda>r. fs_TenantID r = t \<and> fs_FrameworkVersionID r = fv) (db_fscopes db))"

definition GetActivatedFrameworkScope :: "uuid \<Rightarrow> uuid \<Rightarrow> 'z fs_db_scheme \<Rightarrow> FrameworkScope option" where
  "GetActivatedFrameworkScope t fv db =
     List.find (\<lambda>r. fs_TenantID r = t \<and> fs_FrameworkVersionID r = fv \<and> fs_State r = StateActivated)
       (db_fscopes db)"

definition active_at :: "gotime \<Rightarrow> FrameworkScope \<Rightarrow> bool" where
  "active_at at r \<longleftrightarrow>
     (case fs_EffectiveFrom r of None \<Rightarrow> False | Some f \<Rightarrow> f \<le> at)
     \<and> (case fs_SupersededAt r of None \<Rightarrow> True | Some u \<Rightarrow> at < u)"

definition GetFrameworkScopeAsOf :: "uuid \<Rightarrow> uuid \<Rightarrow> gotime \<Rightarrow> 'z fs_db_scheme \<Rightarrow> FrameworkScope option" where
  "GetFrameworkScopeAsOf t fv at db =
     (case sort_key (\<lambda>r. (- the (fs_EffectiveFrom r), fs_ID r))
             (filter (\<lambda>r. fs_TenantID r = t \<and> fs_FrameworkVersionID r = fv \<and> active_at at r)
               (db_fscopes db)) of
        [] \<Rightarrow> None | r # _ \<Rightarrow> Some r)"

definition UpdateFrameworkScopePredicate ::
  "fs_codec \<Rightarrow> gotime \<Rightarrow> uuid \<Rightarrow> uuid \<Rightarrow> bytes \<Rightarrow> string \<Rightarrow> 'z fs_db_scheme \<Rightarrow>
   pg_error + FrameworkScope \<times> 'z fs_db_scheme" where
  "UpdateFrameworkScopePredicate fc dbnow t i canon hash =
     fs_update_one (\<lambda>r. fs_TenantID r = t \<and> fs_ID r = i)
       (\<lambda>r. r\<lparr>fs_Predicate := fc_jsonb fc canon, fs_PredicateHash := hash, fs_UpdatedAt := dbnow\<rparr>)"

definition SubmitFrameworkScope ::
  "gotime \<Rightarrow> uuid \<Rightarrow> uuid \<Rightarrow> 'z fs_db_scheme \<Rightarrow> pg_error + FrameworkScope \<times> 'z fs_db_scheme" where
  "SubmitFrameworkScope dbnow t i =
     fs_update_one (\<lambda>r. fs_TenantID r = t \<and> fs_ID r = i \<and> fs_State r = StateDraft)
       (\<lambda>r. r\<lparr>fs_State := StateReview, fs_UpdatedAt := dbnow\<rparr>)"

definition ApproveFrameworkScope ::
  "gotime \<Rightarrow> uuid \<Rightarrow> uuid \<Rightarrow> uuid option \<Rightarrow> string option \<Rightarrow> string option \<Rightarrow> 'z fs_db_scheme \<Rightarrow>
   pg_error + FrameworkScope \<times> 'z fs_db_scheme" where
  "ApproveFrameworkScope dbnow t i approver url hash =
     fs_update_one (\<lambda>r. fs_TenantID r = t \<and> fs_ID r = i \<and> fs_State r = StateReview)
       (\<lambda>r. r\<lparr>fs_State := StateApproved, fs_ApproverUserID := approver, fs_ApprovedAt := Some dbnow,
              fs_PredicateHashAtApproval := Some (fs_PredicateHash r),
              fs_ApprovalEvidenceFileURL := url, fs_ApprovalEvidenceFileHash := hash,
              fs_UpdatedAt := dbnow\<rparr>)"

definition ActivateFrameworkScope ::
  "gotime \<Rightarrow> uuid \<Rightarrow> uuid \<Rightarrow> gotime \<Rightarrow> 'z fs_db_scheme \<Rightarrow> pg_error + FrameworkScope \<times> 'z fs_db_scheme" where
  "ActivateFrameworkScope dbnow t i effectiveFrom =
     fs_update_one (\<lambda>r. fs_TenantID r = t \<and> fs_ID r = i \<and> fs_State r = StateApproved)
       (\<lambda>r. r\<lparr>fs_State := StateActivated, fs_EffectiveFrom := Some (pgTime effectiveFrom), fs_UpdatedAt := dbnow\<rparr>)"

definition SupersedePreviousActivated ::
  "gotime \<Rightarrow> uuid \<Rightarrow> uuid \<Rightarrow> uuid \<Rightarrow> 'z fs_db_scheme \<Rightarrow> pg_error + 'z fs_db_scheme" where
  "SupersedePreviousActivated dbnow t fv newID =
     fs_update (\<lambda>r. fs_TenantID r = t \<and> fs_FrameworkVersionID r = fv \<and> fs_ID r \<noteq> newID
                    \<and> fs_State r = StateActivated)
       (\<lambda>r. r\<lparr>fs_State := StateSuperseded, fs_SupersededBy := Some newID,
              fs_SupersededAt := Some dbnow, fs_UpdatedAt := dbnow\<rparr>)"


section \<open>Store operations\<close>

text \<open>The row \<open>INSERT\<close> writes; the columns it does not name are NULL or the clock.\<close>

definition draft_row :: "fs_codec \<Rightarrow> uuid \<Rightarrow> uuid \<Rightarrow> gotime \<Rightarrow> uuid \<Rightarrow> string \<Rightarrow> bytes \<Rightarrow> string \<Rightarrow> FrameworkScope" where
  "draft_row fc t newID dbnow fv nm canon hash =
     \<lparr>fs_ID = newID, fs_TenantID = t, fs_FrameworkVersionID = fv,
      fs_Name = nm, fs_State = StateDraft, fs_Predicate = fc_jsonb fc canon,
      fs_PredicateHash = hash, fs_ApproverUserID = None, fs_ApprovedAt = None,
      fs_PredicateHashAtApproval = None, fs_ApprovalEvidenceFileURL = None,
      fs_ApprovalEvidenceFileHash = None, fs_EffectiveFrom = None,
      fs_SupersededBy = None, fs_SupersededAt = None,
      fs_CreatedAt = dbnow, fs_UpdatedAt = dbnow\<rparr>"

definition fs_Create ::
  "fs_codec \<Rightarrow> txenv \<Rightarrow> uuid \<Rightarrow> gotime \<Rightarrow> uuid \<Rightarrow> string \<Rightarrow> bytes \<Rightarrow> 'z fs_db_scheme \<Rightarrow>
   (fs_error err + FrameworkScope) \<times> 'z fs_db_scheme" where
  "fs_Create fc env newID dbnow frameworkVersionID name predicate db =
     (case fs_Canonicalize (fc_decode_any fc) (fc_sha256hex fc) predicate of
        Inl e \<Rightarrow> (Inl (Dom e), db)
      | Inr (canon, hash) \<Rightarrow>
        (case fs_Validate (fc_unmarshal fc) canon of
           Some e \<Rightarrow> (Inl (Dom e), db)
         | None \<Rightarrow>
           inTx env (\<lambda>t db0.
             (case CreateFrameworkScope (draft_row fc t newID dbnow frameworkVersionID name canon hash) db0 of
                Inl e \<Rightarrow> Inl (FsDatabase e)
              | Inr (row, db1) \<Rightarrow> Inr (row, db1))) db))"

definition fs_UpdatePredicate ::
  "fs_codec \<Rightarrow> txenv \<Rightarrow> gotime \<Rightarrow> uuid \<Rightarrow> bytes \<Rightarrow> 'z fs_db_scheme \<Rightarrow>
   (fs_error err + FrameworkScope \<times> bool) \<times> 'z fs_db_scheme" where
  "fs_UpdatePredicate fc env dbnow i predicate db =
     (case fs_Canonicalize (fc_decode_any fc) (fc_sha256hex fc) predicate of
        Inl e \<Rightarrow> (Inl (Dom e), db)
      | Inr (canon, hash) \<Rightarrow>
        (case fs_Validate (fc_unmarshal fc) canon of
           Some e \<Rightarrow> (Inl (Dom e), db)
         | None \<Rightarrow>
           inTx env (\<lambda>t db0.
             (case GetFrameworkScopeByID t i db0 of
                None \<Rightarrow> Inl FsErrNotFound
              | Some before \<Rightarrow>
                (case UpdateFrameworkScopePredicate fc dbnow t i canon hash db0 of
                   Inl e \<Rightarrow> Inl (FsDatabase e)
                 | Inr (row, db1) \<Rightarrow>
                   Inr ((row,
                         fs_PredicateHash before \<noteq> hash
                         \<and> (fs_State before = StateReview \<or> fs_State before = StateApproved)
                         \<and> fs_State row = StateDraft), db1)))) db))"

definition guardedTransition ::
  "txenv \<Rightarrow> uuid \<Rightarrow> (uuid \<Rightarrow> 'z fs_db_scheme \<Rightarrow> pg_error + FrameworkScope \<times> 'z fs_db_scheme) \<Rightarrow>
   'z fs_db_scheme \<Rightarrow> (fs_error err + FrameworkScope) \<times> 'z fs_db_scheme" where
  "guardedTransition env i op db =
     inTx env (\<lambda>t db0.
       (case op t db0 of
          Inl NoRows \<Rightarrow>
            (case GetFrameworkScopeByID t i db0 of
               None \<Rightarrow> Inl FsErrNotFound | Some _ \<Rightarrow> Inl FsErrWrongState)
        | Inl e \<Rightarrow> Inl (FsDatabase e)
        | Inr (row, db1) \<Rightarrow> Inr (row, db1))) db"

definition fs_Submit ::
  "txenv \<Rightarrow> gotime \<Rightarrow> uuid \<Rightarrow> 'z fs_db_scheme \<Rightarrow> (fs_error err + FrameworkScope) \<times> 'z fs_db_scheme" where
  "fs_Submit env dbnow i = guardedTransition env i (\<lambda>t. SubmitFrameworkScope dbnow t i)"

definition fs_Approve ::
  "fs_codec \<Rightarrow> txenv \<Rightarrow> gotime \<Rightarrow> uuid \<Rightarrow> string \<Rightarrow> string \<Rightarrow> string \<Rightarrow> 'z fs_db_scheme \<Rightarrow>
   (fs_error err + FrameworkScope) \<times> 'z fs_db_scheme" where
  "fs_Approve fc env dbnow i approverUserID evidenceFileURL evidenceFileHash =
     guardedTransition env i (\<lambda>t.
       ApproveFrameworkScope dbnow t i (fc_parse_uuid fc approverUserID)
         (if evidenceFileURL \<noteq> [] then Some evidenceFileURL else None)
         (if evidenceFileHash \<noteq> [] then Some evidenceFileHash else None))"

definition fs_Activate ::
  "txenv \<Rightarrow> gotime \<Rightarrow> uuid \<Rightarrow> gotime \<Rightarrow> 'z fs_db_scheme \<Rightarrow>
   (fs_error err + FrameworkScope) \<times> 'z fs_db_scheme" where
  "fs_Activate env dbnow i effectiveFrom db =
     inTx env (\<lambda>t db0.
       (case GetFrameworkScopeByID t i db0 of
          None \<Rightarrow> Inl FsErrNotFound
        | Some before \<Rightarrow>
          if fs_State before \<noteq> StateApproved then Inl FsErrWrongState
          else
            (case SupersedePreviousActivated dbnow t (fs_FrameworkVersionID before) i db0 of
               Inl e \<Rightarrow> Inl (FsDatabase e)
             | Inr db1 \<Rightarrow>
               (case ActivateFrameworkScope dbnow t i effectiveFrom db1 of
                  Inl UniqueViolation \<Rightarrow> Inl ErrAnotherActivated
                | Inl e \<Rightarrow> Inl (FsDatabase e)
                | Inr (row, db2) \<Rightarrow> Inr (row, db2))))) db"

definition fs_Get ::
  "txenv \<Rightarrow> uuid \<Rightarrow> 'z fs_db_scheme \<Rightarrow> (fs_error err + FrameworkScope) \<times> 'z fs_db_scheme" where
  "fs_Get env i db =
     inTx env (\<lambda>t db0.
       (case GetFrameworkScopeByID t i db0 of
          None \<Rightarrow> Inl FsErrNotFound | Some row \<Rightarrow> Inr (row, db0))) db"

text \<open>\<open>fv\<close> is the optional framework-version filter, the empty \<open>state\<close> means no state filter.\<close>

definition fs_List ::
  "txenv \<Rightarrow> uuid option \<Rightarrow> string \<Rightarrow> 'z fs_db_scheme \<Rightarrow>
   (fs_error err + FrameworkScope list) \<times> 'z fs_db_scheme" where
  "fs_List env fv state db =
     inTx env (\<lambda>t db0.
       (let rows = (case fv of
                      Some v \<Rightarrow> ListFrameworkScopesByFrameworkVersion t v db0
                    | None \<Rightarrow> ListFrameworkScopes t db0)
        in Inr (filter (\<lambda>r. \<not> (state \<noteq> [] \<and> fs_state_text (fs_State r) \<noteq> state)) rows, db0))) db"

definition fs_Activated ::
  "txenv \<Rightarrow> uuid \<Rightarrow> 'z fs_db_scheme \<Rightarrow> (fs_error err + FrameworkScope) \<times> 'z fs_db_scheme" where
  "fs_Activated env frameworkVersionID db =
     inTx env (\<lambda>t db0.
       (case GetActivatedFrameworkScope t frameworkVersionID db0 of
          None \<Rightarrow> Inl FsErrNotFound | Some row \<Rightarrow> Inr (row, db0))) db"

definition fs_AsOf ::
  "txenv \<Rightarrow> uuid \<Rightarrow> gotime \<Rightarrow> 'z fs_db_scheme \<Rightarrow> (fs_error err + FrameworkScope) \<times> 'z fs_db_scheme" where
  "fs_AsOf env frameworkVersionID at db =
     inTx env (\<lambda>t db0.
       (case GetFrameworkScopeAsOf t frameworkVersionID at db0 of
          None \<Rightarrow> Inl FsErrNotFound | Some row \<Rightarrow> Inr (row, db0))) db"


section \<open>The workflow as a step relation\<close>

inductive fs_step :: "fs_codec \<Rightarrow> txenv \<Rightarrow> 'z fs_db_scheme \<Rightarrow> 'z fs_db_scheme \<Rightarrow> bool" for fc env where
  create: "fs_Create fc env newID dbnow fv nm p db = (res, db') \<Longrightarrow> fs_step fc env db db'"
| update: "fs_UpdatePredicate fc env dbnow i p db = (res2, db') \<Longrightarrow> fs_step fc env db db'"
| submit: "fs_Submit env dbnow i db = (res, db') \<Longrightarrow> fs_step fc env db db'"
| approve: "fs_Approve fc env dbnow i usr url hash db = (res, db') \<Longrightarrow> fs_step fc env db db'"
| activate: "fs_Activate env dbnow i from db = (res, db') \<Longrightarrow> fs_step fc env db db'"

definition fs_run :: "fs_codec \<Rightarrow> 'z fs_db_scheme \<Rightarrow> 'z fs_db_scheme \<Rightarrow> bool" where
  "fs_run fc = (\<lambda>a b. \<exists>env. fs_step fc env a b)\<^sup>*\<^sup>*"

text \<open>What every row satisfies in every state of its life.\<close>

definition row_inv :: "fs_codec \<Rightarrow> FrameworkScope \<Rightarrow> bool" where
  "row_inv fc r \<longleftrightarrow>
     (\<exists>raw canon. fs_Canonicalize (fc_decode_any fc) (fc_sha256hex fc) raw = Inr (canon, fs_PredicateHash r)
        \<and> fs_Validate (fc_unmarshal fc) canon = None \<and> fs_Predicate r = fc_jsonb fc canon)
     \<and> (fs_State r \<in> {StateDraft, StateReview} \<longrightarrow>
          fs_PredicateHashAtApproval r = None \<and> fs_ApprovedAt r = None \<and> fs_ApproverUserID r = None)
     \<and> (fs_State r = StateApproved \<longrightarrow> fs_PredicateHashAtApproval r = Some (fs_PredicateHash r))
     \<and> (fs_State r \<in> {StateApproved, StateActivated, StateSuperseded} \<longrightarrow>
          fs_PredicateHashAtApproval r \<noteq> None \<and> fs_ApprovedAt r \<noteq> None)
     \<and> (fs_EffectiveFrom r \<noteq> None \<longleftrightarrow> fs_State r \<in> {StateActivated, StateSuperseded})
     \<and> (fs_SupersededAt r \<noteq> None \<longleftrightarrow> fs_State r = StateSuperseded)
     \<and> (fs_SupersededBy r \<noteq> None \<longleftrightarrow> fs_State r = StateSuperseded)"

definition fs_inv :: "fs_codec \<Rightarrow> 'z fs_db_scheme \<Rightarrow> bool" where
  "fs_inv fc db \<longleftrightarrow>
     distinct (map fs_ID (db_fscopes db)) \<and> one_active (db_fscopes db)
     \<and> (\<forall>r \<in> set (db_fscopes db). row_inv fc r)"

text \<open>The edges of the lifecycle diagram.\<close>

fun fs_edge :: "fs_state \<Rightarrow> fs_state \<Rightarrow> bool" where
  "fs_edge StateDraft StateReview = True"
| "fs_edge StateReview StateApproved = True"
| "fs_edge StateReview StateDraft = True"
| "fs_edge StateApproved StateActivated = True"
| "fs_edge StateApproved StateDraft = True"
| "fs_edge StateActivated StateSuperseded = True"
| "fs_edge _ _ = False"



section \<open>Lemmas\<close>

named_theorems fs_queries "the queries of the table"

lemmas fs_query_defs [fs_queries] =
  UpdateFrameworkScopePredicate_def SubmitFrameworkScope_def ApproveFrameworkScope_def
  ActivateFrameworkScope_def SupersedePreviousActivated_def GetFrameworkScopeByID_def
  GetActivatedFrameworkScope_def

lemma fs_update_InrD:
  "fs_update P f db = Inr db' \<Longrightarrow>
     db' = db\<lparr>db_fscopes := sql_update P (\<lambda>r. bounce_on_predicate_change r (f r)) (db_fscopes db)\<rparr>
     \<and> one_active (db_fscopes db')"
  by (auto simp: fs_update_def Let_def split: if_splits)

lemma fs_update_one_InrD:
  "fs_update_one P f db = Inr (r', db') \<Longrightarrow>
     \<exists>r. List.find P (db_fscopes db) = Some r \<and> r' = bounce_on_predicate_change r (f r)
       \<and> fs_update P f db = Inr db'"
  by (auto simp: fs_update_one_def split: option.splits sum.splits)

lemma bounce_same_hash [simp]:
  "fs_PredicateHash new = fs_PredicateHash old \<Longrightarrow> bounce_on_predicate_change old new = new"
  by (simp add: bounce_on_predicate_change_def)

lemma bounce_key [simp]:
  "fs_ID (bounce_on_predicate_change old new) = fs_ID new"
  "fs_TenantID (bounce_on_predicate_change old new) = fs_TenantID new"
  "fs_FrameworkVersionID (bounce_on_predicate_change old new) = fs_FrameworkVersionID new"
  by (simp_all add: bounce_on_predicate_change_def)

text \<open>An update whose assignment keeps each row's invariant keeps the table's invariant.\<close>

lemma fs_update_inv:
  assumes "fs_update P f db = Inr db'" and "fs_inv fc db" and "\<And>r. fs_ID (f r) = fs_ID r"
    and "\<And>r. P r \<Longrightarrow> row_inv fc r \<Longrightarrow> row_inv fc (bounce_on_predicate_change r (f r))"
  shows "fs_inv fc db'"
  using fs_update_InrD [OF assms(1)] assms(2-)
  by (auto simp: fs_inv_def map_sql_update_frame elim!: in_sql_updateE)

lemma fs_update_one_inv:
  assumes "fs_update_one P f db = Inr (row, db')" and "fs_inv fc db" and "\<And>r. fs_ID (f r) = fs_ID r"
    and "\<And>r. P r \<Longrightarrow> row_inv fc r \<Longrightarrow> row_inv fc (bounce_on_predicate_change r (f r))"
  shows "fs_inv fc db'"
  using fs_update_one_InrD [OF assms(1)] fs_update_inv [OF _ assms(2-)] by blast

lemma draft_row_simps [simp]:
  "fs_ID (draft_row fc t newID dbnow fv nm canon hash) = newID"
  "fs_TenantID (draft_row fc t newID dbnow fv nm canon hash) = t"
  "fs_State (draft_row fc t newID dbnow fv nm canon hash) = StateDraft"
  by (simp_all add: draft_row_def)

lemma CreateFrameworkScope_InrD:
  "CreateFrameworkScope row db = Inr (r, db') \<Longrightarrow>
     r = row \<and> fs_ID row \<notin> fs_ID ` set (db_fscopes db) \<and> db' = db\<lparr>db_fscopes := db_fscopes db @ [row]\<rparr>"
  by (auto simp: CreateFrameworkScope_def split: if_splits)

lemma fs_Create_cases:
  assumes "fs_Create fc env newID dbnow fv nm p db = (res, db')"
  obtains (fail) e where "res = Inl e" "db' = db"
  | (commit) t canon hash where "tenant_of env = Some t"
      "fs_Canonicalize (fc_decode_any fc) (fc_sha256hex fc) p = Inr (canon, hash)"
      "fs_Validate (fc_unmarshal fc) canon = None"
      "res = Inr (draft_row fc t newID dbnow fv nm canon hash)"
      "newID \<notin> fs_ID ` set (db_fscopes db)"
      "db' = db\<lparr>db_fscopes := db_fscopes db @ [draft_row fc t newID dbnow fv nm canon hash]\<rparr>"
proof (cases "fs_Canonicalize (fc_decode_any fc) (fc_sha256hex fc) p")
  case (Inl e)
  with assms fail [of "Dom e"] show ?thesis by (simp add: fs_Create_def)
next
  case (Inr ch)
  obtain canon hash where ch: "ch = (canon, hash)" by (cases ch)
  show ?thesis
  proof (cases "fs_Validate (fc_unmarshal fc) canon")
    case (Some e)
    with assms Inr ch fail [of "Dom e"] show ?thesis by (simp add: fs_Create_def)
  next
    case None
    with assms Inr ch have "inTx env (\<lambda>t db0.
        (case CreateFrameworkScope (draft_row fc t newID dbnow fv nm canon hash) db0 of
           Inl e \<Rightarrow> Inl (FsDatabase e) | Inr (row, db1) \<Rightarrow> Inr (row, db1))) db = (res, db')"
      by (simp add: fs_Create_def)
    then show ?thesis
    proof (cases rule: inTx_cases)
      case (commit t a)
      then have "CreateFrameworkScope (draft_row fc t newID dbnow fv nm canon hash) db = Inr (a, db')"
        by (simp split: sum.splits prod.splits)
      from CreateFrameworkScope_InrD [OF this] commit None Inr ch that(2) [of t canon hash] show ?thesis
        by simp
    qed (rule fail)
  qed
qed

lemma fs_Create_inv:
  assumes "fs_Create fc env newID dbnow fv nm p db = (res, db')" and "fs_inv fc db"
  shows "fs_inv fc db'"
  using assms(1)
proof (cases rule: fs_Create_cases)
  case (commit t canon hash)
  then have "row_inv fc (draft_row fc t newID dbnow fv nm canon hash)"
    by (auto simp: row_inv_def draft_row_def)
  with commit assms(2) show ?thesis
    by (simp add: fs_inv_def one_active_def)
qed (use assms(2) in simp)

lemma guardedTransition_cases:
  assumes "guardedTransition env i op db = (res, db')"
  obtains (fail) e where "res = Inl e" "db' = db"
  | (commit) t row where "res = Inr row" "tenant_of env = Some t" "op t db = Inr (row, db')"
  using assms unfolding guardedTransition_def
  by (auto elim!: inTx_cases split: sum.splits pg_error.splits option.splits prod.splits)

lemma fs_Submit_inv:
  assumes "fs_Submit env dbnow i db = (res, db')" and "fs_inv fc db"
  shows "fs_inv fc db'"
  using assms(1) unfolding fs_Submit_def
proof (cases rule: guardedTransition_cases)
  case (commit t row)
  from commit(3) [unfolded fs_queries] assms(2) show ?thesis
    by (rule fs_update_one_inv) (auto simp: row_inv_def)
qed (use assms(2) in simp)

lemma fs_Approve_inv:
  assumes "fs_Approve fc env dbnow i usr url hash db = (res, db')" and "fs_inv fc db"
  shows "fs_inv fc db'"
  using assms(1) unfolding fs_Approve_def
proof (cases rule: guardedTransition_cases)
  case (commit t row)
  from commit(3) [unfolded fs_queries] assms(2) show ?thesis
    by (rule fs_update_one_inv) (auto simp: row_inv_def)
qed (use assms(2) in simp)

lemma fs_UpdatePredicate_inv:
  assumes "fs_UpdatePredicate fc env dbnow i p db = (res, db')" and "fs_inv fc db"
  shows "fs_inv fc db'"
proof (cases "db' = db")
  case False
  then obtain canon hash t row where
    c: "fs_Canonicalize (fc_decode_any fc) (fc_sha256hex fc) p = Inr (canon, hash)"
       "fs_Validate (fc_unmarshal fc) canon = None"
    and u: "UpdateFrameworkScopePredicate fc dbnow t i canon hash db = Inr (row, db')"
    using assms(1) unfolding fs_UpdatePredicate_def
    by (auto elim!: inTx_cases split: sum.splits option.splits prod.splits)
  from u [unfolded fs_queries] assms(2) show ?thesis
    by (rule fs_update_one_inv) (use c in \<open>auto simp: row_inv_def bounce_on_predicate_change_def\<close>)
qed (use assms(2) in simp)

lemma fs_Activate_cases:
  assumes "fs_Activate env dbnow i from db = (res, db')"
  obtains (fail) e where "res = Inl e" "db' = db"
  | (commit) t before db1 row where "res = Inr row" "tenant_of env = Some t"
      "GetFrameworkScopeByID t i db = Some before" "fs_State before = StateApproved"
      "SupersedePreviousActivated dbnow t (fs_FrameworkVersionID before) i db = Inr db1"
      "ActivateFrameworkScope dbnow t i from db1 = Inr (row, db')"
  using assms unfolding fs_Activate_def
  by (auto elim!: inTx_cases split: sum.splits pg_error.splits option.splits prod.splits if_splits)

lemma fs_Activate_inv:
  assumes "fs_Activate env dbnow i from db = (res, db')" and "fs_inv fc db"
  shows "fs_inv fc db'"
  using assms(1)
proof (cases rule: fs_Activate_cases)
  case (commit t before db1 row)
  from commit(5) [unfolded fs_queries] assms(2) have "fs_inv fc db1"
    by (rule fs_update_inv) (auto simp: row_inv_def)
  with commit(6) [unfolded fs_queries] show ?thesis
    by (rule fs_update_one_inv) (auto simp: row_inv_def)
qed (use assms(2) in simp)

lemma fs_step_inv: "fs_step fc env db db' \<Longrightarrow> fs_inv fc db \<Longrightarrow> fs_inv fc db'"
  by (induction rule: fs_step.induct)
     (blast intro: fs_Create_inv fs_UpdatePredicate_inv fs_Submit_inv fs_Approve_inv fs_Activate_inv)+

lemma fs_run_refl: "fs_run fc db db"
  by (simp add: fs_run_def)

lemma fs_run_step: "fs_run fc a b \<Longrightarrow> fs_step fc env b c \<Longrightarrow> fs_run fc a c"
  unfolding fs_run_def by (rule rtranclp.rtrancl_into_rtrancl) auto

lemma fs_run_inv: "fs_run fc db db' \<Longrightarrow> fs_inv fc db \<Longrightarrow> fs_inv fc db'"
  unfolding fs_run_def
  by (induction rule: rtranclp_induct) (auto intro: fs_step_inv)


text \<open>What one operation in a tenant's context may do to a row.\<close>

definition fs_follows :: "uuid option \<Rightarrow> FrameworkScope \<Rightarrow> FrameworkScope \<Rightarrow> bool" where
  "fs_follows tenant r r' \<longleftrightarrow>
     r' = r
     \<or> (tenant = Some (fs_TenantID r) \<and> fs_ID r' = fs_ID r \<and> fs_TenantID r' = fs_TenantID r
        \<and> fs_FrameworkVersionID r' = fs_FrameworkVersionID r
        \<and> (fs_State r' = fs_State r \<or> fs_edge (fs_State r) (fs_State r')))"

definition fs_evolves :: "uuid option \<Rightarrow> 'z fs_db_scheme \<Rightarrow> 'z fs_db_scheme \<Rightarrow> bool" where
  "fs_evolves tenant db db' \<longleftrightarrow>
     (\<forall>r \<in> set (db_fscopes db). \<exists>r' \<in> set (db_fscopes db'). fs_follows tenant r r')"

lemma fs_evolves_refl: "fs_evolves tenant db db"
  by (auto simp: fs_evolves_def fs_follows_def)

lemma fs_evolves_map:
  "db_fscopes db' = map h (db_fscopes db) \<Longrightarrow> (\<And>r. fs_follows tenant r (h r)) \<Longrightarrow> fs_evolves tenant db db'"
  by (auto simp: fs_evolves_def)

lemma fs_update_evolves:
  assumes "fs_update P f db = Inr db'"
    and "\<And>r. P r \<Longrightarrow> fs_follows tenant r (bounce_on_predicate_change r (f r))"
  shows "fs_evolves tenant db db'"
proof (rule fs_evolves_map)
  show "db_fscopes db' = map (\<lambda>r. if P r then bounce_on_predicate_change r (f r) else r) (db_fscopes db)"
    using fs_update_InrD [OF assms(1)] by (simp add: sql_update_def)
qed (use assms(2) in \<open>simp add: fs_follows_def [of _ r r for r]\<close>)

lemma fs_update_one_evolves:
  assumes "fs_update_one P f db = Inr (row, db')"
    and "\<And>r. P r \<Longrightarrow> fs_follows tenant r (bounce_on_predicate_change r (f r))"
  shows "fs_evolves tenant db db'"
  using fs_update_one_InrD [OF assms(1)] fs_update_evolves [OF _ assms(2)] by blast

lemma fs_Activate_evolves:
  assumes "fs_Activate env dbnow i from db = (res, db')"
  shows "fs_evolves (tenant_of env) db db'"
  using assms
proof (cases rule: fs_Activate_cases)
  case (commit t before db1 row)
  let ?P = "\<lambda>r. fs_TenantID r = t \<and> fs_FrameworkVersionID r = fs_FrameworkVersionID before
                  \<and> fs_ID r \<noteq> i \<and> fs_State r = StateActivated"
  let ?Q = "\<lambda>r. fs_TenantID r = t \<and> fs_ID r = i \<and> fs_State r = StateApproved"
  let ?f = "\<lambda>r. r\<lparr>fs_State := StateSuperseded, fs_SupersededBy := Some i,
                  fs_SupersededAt := Some dbnow, fs_UpdatedAt := dbnow\<rparr>"
  let ?g = "\<lambda>r. r\<lparr>fs_State := StateActivated, fs_EffectiveFrom := Some (pgTime from), fs_UpdatedAt := dbnow\<rparr>"
  have "fs_update ?P ?f db = Inr db1" "fs_update ?Q ?g db1 = Inr db'"
    using commit(5,6) by (auto simp: fs_queries dest: fs_update_one_InrD)
  then have rows: "db_fscopes db' = sql_update ?Q ?g (sql_update ?P ?f (db_fscopes db))"
    by (auto dest!: fs_update_InrD)
  have "fs_follows (tenant_of env) r (if ?Q (if ?P r then ?f r else r) then ?g (if ?P r then ?f r else r)
          else (if ?P r then ?f r else r))" for r
    using commit(2) by (auto simp: fs_follows_def)
  then show ?thesis
    by (rule fs_evolves_map [rotated]) (simp add: rows sql_update_def)
qed (simp add: fs_evolves_refl)

lemma fs_UpdatePredicate_cases:
  assumes "fs_UpdatePredicate fc env dbnow i p db = (res, db')"
  obtains (fail) e where "res = Inl e" "db' = db"
  | (commit) t canon hash before row where "tenant_of env = Some t"
      "fs_Canonicalize (fc_decode_any fc) (fc_sha256hex fc) p = Inr (canon, hash)"
      "fs_Validate (fc_unmarshal fc) canon = None"
      "GetFrameworkScopeByID t i db = Some before"
      "UpdateFrameworkScopePredicate fc dbnow t i canon hash db = Inr (row, db')"
  using assms unfolding fs_UpdatePredicate_def
  by (auto elim!: inTx_cases split: sum.splits option.splits prod.splits)

lemma fs_edge_bounce: "s \<in> {StateReview, StateApproved} \<Longrightarrow> fs_edge s StateDraft"
  by auto

lemma fs_step_evolves: "fs_step fc env db db' \<Longrightarrow> fs_evolves (tenant_of env) db db'"
proof (induction rule: fs_step.induct)
  case (create newID dbnow fv nm p db res db')
  then show ?case
    by (cases rule: fs_Create_cases) (auto simp: fs_evolves_def fs_follows_def)
next
  case (update dbnow i p db res2 db')
  then show ?case
  proof (cases rule: fs_UpdatePredicate_cases)
    case (commit t canon hash before row)
    from commit(5) [unfolded fs_queries] show ?thesis
      by (rule fs_update_one_evolves)
         (auto simp: fs_follows_def bounce_on_predicate_change_def commit(1) fs_edge_bounce)
  qed (simp add: fs_evolves_refl)
next
  case (submit dbnow i db res db')
  then show ?case unfolding fs_Submit_def
  proof (cases rule: guardedTransition_cases)
    case (commit t row)
    from commit(3) [unfolded fs_queries] show ?thesis
      by (rule fs_update_one_evolves) (auto simp: fs_follows_def commit(2))
  qed (simp add: fs_evolves_refl)
next
  case (approve dbnow i usr url hash db res db')
  then show ?case unfolding fs_Approve_def
  proof (cases rule: guardedTransition_cases)
    case (commit t row)
    from commit(3) [unfolded fs_queries] show ?thesis
      by (rule fs_update_one_evolves) (auto simp: fs_follows_def commit(2))
  qed (simp add: fs_evolves_refl)
next
  case (activate dbnow i eff db res db')
  then show ?case by (rule fs_Activate_evolves)
qed


text \<open>The database accepts an update that activates nothing.\<close>

lemma one_active_update:
  assumes "one_active t" and "\<And>r. P r \<Longrightarrow> fs_State (f r) = StateActivated \<Longrightarrow> fs_State r = StateActivated"
    and "\<And>r. fs_TenantID (f r) = fs_TenantID r" and "\<And>r. fs_FrameworkVersionID (f r) = fs_FrameworkVersionID r"
  shows "one_active (sql_update P f t)"
proof -
  let ?k = "\<lambda>r. (fs_TenantID r, fs_FrameworkVersionID r)"
  have "subseq (map ?k (filter (\<lambda>r. fs_State r = StateActivated) (sql_update P f t)))
      (map ?k (filter (\<lambda>r. fs_State r = StateActivated) t))"
    using assms(2-) by (induction t) auto
  then show ?thesis using assms(1) unfolding one_active_def by (rule subseq_distinct)
qed

lemma GetFrameworkScopeByID_unique:
  assumes "fs_inv fc db" and "GetFrameworkScopeByID t i db = Some r" and "x \<in> set (db_fscopes db)"
    and "fs_ID x = i"
  shows "x = r"
proof -
  have "r \<in> set (db_fscopes db)" "fs_ID r = i"
    using assms(2) by (auto simp: GetFrameworkScopeByID_def dest: find_SomeD)
  then show ?thesis
    using assms distinct_key_unique [of fs_ID "db_fscopes db" x r] by (auto simp: fs_inv_def)
qed

lemma one_active_iff:
  assumes "distinct (map fs_ID t)"
  shows "one_active t \<longleftrightarrow>
    (\<forall>x \<in> set t. \<forall>y \<in> set t. fs_State x = StateActivated \<longrightarrow> fs_State y = StateActivated \<longrightarrow>
       fs_TenantID x = fs_TenantID y \<longrightarrow> fs_FrameworkVersionID x = fs_FrameworkVersionID y \<longrightarrow> x = y)"
  using assms by (auto simp: one_active_def distinct_map inj_on_def)

text \<open>Superseding the previous rows first leaves room in the index for the new one.\<close>

lemma one_active_insert:
  assumes dist: "distinct (map fs_ID t)" and act: "one_active t" and r: "r \<in> set t"
    and free: "\<And>x. x \<in> set t \<Longrightarrow> fs_State x = StateActivated \<Longrightarrow> fs_TenantID x = fs_TenantID r \<Longrightarrow>
           fs_FrameworkVersionID x \<noteq> fs_FrameworkVersionID r"
    and keep: "\<And>x. fs_ID (f x) = fs_ID x" "\<And>x. fs_TenantID (f x) = fs_TenantID x"
      "\<And>x. fs_FrameworkVersionID (f x) = fs_FrameworkVersionID x"
    and only: "\<And>x. P x \<Longrightarrow> fs_ID x = fs_ID r"
  shows "one_active (sql_update P f t)"
proof -
  have uniq: "x = r" if "x \<in> set t" "P x" for x
    using distinct_key_unique [OF dist that(1) r] only [OF that(2)] by simp
  have "distinct (map fs_ID (sql_update P f t))"
    using dist keep(1) by (simp add: map_sql_update_frame)
  moreover have "x = y"
    if "x \<in> set (sql_update P f t)" "y \<in> set (sql_update P f t)"
      "fs_State x = StateActivated" "fs_State y = StateActivated"
      "fs_TenantID x = fs_TenantID y" "fs_FrameworkVersionID x = fs_FrameworkVersionID y" for x y
    using that(1)
  proof (cases rule: in_sql_updateE)
    case x: same
    from that(2) show ?thesis
    proof (cases rule: in_sql_updateE)
      case same
      with x that act one_active_iff [OF dist] show ?thesis by blast
    next
      case (changed y0)
      with uniq [of y0] x that free [of x] keep show ?thesis by simp
    qed
  next
    case (changed x0)
    then have x: "x = f r" using uniq by simp
    from that(2) show ?thesis
    proof (cases rule: in_sql_updateE)
      case same
      with x that free [of y] keep show ?thesis by simp
    next
      case (changed y0)
      with uniq [of y0] x show ?thesis by simp
    qed
  qed
  ultimately show ?thesis using one_active_iff by blast
qed


lemma GetActivated_eq:
  assumes "fs_inv fc db" and "r \<in> set (db_fscopes db)" and "fs_State r = StateActivated"
  shows "GetActivatedFrameworkScope (fs_TenantID r) (fs_FrameworkVersionID r) db = Some r"
proof -
  let ?P = "\<lambda>x. fs_TenantID x = fs_TenantID r \<and> fs_FrameworkVersionID x = fs_FrameworkVersionID r
               \<and> fs_State x = StateActivated"
  obtain x where x: "List.find ?P (db_fscopes db) = Some x"
    using assms(2,3) by (cases "List.find ?P (db_fscopes db)") (auto simp: find_None_iff)
  from find_SomeD [OF x] have "x = r"
    using one_active_iff [of "db_fscopes db"] assms by (auto simp: fs_inv_def)
  with x show ?thesis by (simp add: GetActivatedFrameworkScope_def)
qed

lemma fs_update_Inr:
  "one_active (sql_update P (\<lambda>r. bounce_on_predicate_change r (f r)) (db_fscopes db)) \<Longrightarrow>
     fs_update P f db = Inr (db\<lparr>db_fscopes := sql_update P (\<lambda>r. bounce_on_predicate_change r (f r)) (db_fscopes db)\<rparr>)"
  by (simp add: fs_update_def Let_def)

definition superseded_row :: "gotime \<Rightarrow> uuid \<Rightarrow> FrameworkScope \<Rightarrow> FrameworkScope" where
  "superseded_row dbnow i =
     (\<lambda>r. r\<lparr>fs_State := StateSuperseded, fs_SupersededBy := Some i,
            fs_SupersededAt := Some dbnow, fs_UpdatedAt := dbnow\<rparr>)"

definition activated_row :: "gotime \<Rightarrow> gotime \<Rightarrow> FrameworkScope \<Rightarrow> FrameworkScope" where
  "activated_row dbnow eff =
     (\<lambda>r. r\<lparr>fs_State := StateActivated, fs_EffectiveFrom := Some (pgTime eff), fs_UpdatedAt := dbnow\<rparr>)"

lemmas lifecycle_rows = superseded_row_def activated_row_def

lemma fs_Activate_body:
  assumes inv: "fs_inv fc db" and get: "GetFrameworkScopeByID t i db = Some r"
    and app: "fs_State r = StateApproved"
  obtains db1 db2 where
    "SupersedePreviousActivated dbnow t (fs_FrameworkVersionID r) i db = Inr db1"
    "ActivateFrameworkScope dbnow t i eff db1 = Inr (activated_row dbnow eff r, db2)"
    "activated_row dbnow eff r \<in> set (db_fscopes db2)"
    "\<And>old. old \<in> set (db_fscopes db) \<Longrightarrow> fs_TenantID old = t \<Longrightarrow>
       fs_FrameworkVersionID old = fs_FrameworkVersionID r \<Longrightarrow> fs_State old = StateActivated \<Longrightarrow>
       superseded_row dbnow i old \<in> set (db_fscopes db2)"
proof -
  let ?P = "\<lambda>x. fs_TenantID x = t \<and> fs_FrameworkVersionID x = fs_FrameworkVersionID r
                  \<and> fs_ID x \<noteq> i \<and> fs_State x = StateActivated"
  let ?Q = "\<lambda>x. fs_TenantID x = t \<and> fs_ID x = i \<and> fs_State x = StateApproved"
  have r: "r \<in> set (db_fscopes db)" "fs_TenantID r = t" "fs_ID r = i"
    using get by (auto simp: GetFrameworkScopeByID_def dest: find_SomeD)
  define t1 where "t1 = sql_update ?P (superseded_row dbnow i) (db_fscopes db)"
  define t2 where "t2 = sql_update ?Q (activated_row dbnow eff) t1"
  have dist: "distinct (map fs_ID t1)"
    using inv by (simp add: t1_def map_sql_update_frame lifecycle_rows fs_inv_def)
  have act1: "one_active t1"
    using inv unfolding t1_def by (intro one_active_update) (auto simp: fs_inv_def lifecycle_rows)
  have r1: "r \<in> set t1" unfolding t1_def set_sql_update by (rule image_eqI [OF _ r(1)]) (simp add: r)
  have free: "fs_FrameworkVersionID x \<noteq> fs_FrameworkVersionID r"
    if "x \<in> set t1" "fs_State x = StateActivated" "fs_TenantID x = fs_TenantID r" for x
    using that(1) unfolding t1_def
  proof (cases rule: in_sql_updateE)
    case same
    with that app r GetFrameworkScopeByID_unique [OF inv get, of x] show ?thesis by (cases "fs_ID x = i") auto
  qed (use that in \<open>auto simp: lifecycle_rows\<close>)
  have act2: "one_active t2"
    unfolding t2_def by (rule one_active_insert [OF dist act1 r1 free]) (auto simp: lifecycle_rows r)
  have find: "List.find ?Q t1 = Some r"
    by (rule find_eq_unique [OF dist r1]) (use r app in auto)
  have sup: "SupersedePreviousActivated dbnow t (fs_FrameworkVersionID r) i db = Inr (db\<lparr>db_fscopes := t1\<rparr>)"
    using act1 by (simp add: fs_queries fs_update_def Let_def t1_def superseded_row_def)
  have acti: "ActivateFrameworkScope dbnow t i eff (db\<lparr>db_fscopes := t1\<rparr>) =
      Inr (activated_row dbnow eff r, db\<lparr>db_fscopes := t2\<rparr>)"
    using act2 find
    by (simp add: fs_queries fs_update_one_def fs_update_def Let_def t2_def activated_row_def)
  have new: "activated_row dbnow eff r \<in> set t2"
    unfolding t2_def set_sql_update by (rule image_eqI [OF _ r1]) (simp add: r app)
  have old: "superseded_row dbnow i x \<in> set t2"
    if "x \<in> set (db_fscopes db)" "fs_TenantID x = t" "fs_FrameworkVersionID x = fs_FrameworkVersionID r"
      "fs_State x = StateActivated" for x
  proof -
    have "fs_ID x \<noteq> i" using that app GetFrameworkScopeByID_unique [OF inv get, of x] by auto
    with that have "superseded_row dbnow i x \<in> set t1"
      unfolding t1_def set_sql_update by (intro image_eqI [of _ _ x]) auto
    then show ?thesis
      unfolding t2_def set_sql_update by (intro image_eqI) (auto simp: lifecycle_rows)
  qed
  show ?thesis by (rule that [OF sup acti]) (use new old in auto)
qed


lemma UpdateFrameworkScopePredicate_run:
  fixes canon hash dbnow
  assumes inv: "fs_inv fc db" and get: "GetFrameworkScopeByID t i db = Some r"
  defines "new \<equiv> r\<lparr>fs_Predicate := fc_jsonb fc canon, fs_PredicateHash := hash, fs_UpdatedAt := dbnow\<rparr>"
  shows "\<exists>db'. UpdateFrameworkScopePredicate fc dbnow t i canon hash db =
             Inr (bounce_on_predicate_change r new, db')
           \<and> GetFrameworkScopeByID t i db' = Some (bounce_on_predicate_change r new)"
proof -
  let ?P = "\<lambda>x. fs_TenantID x = t \<and> fs_ID x = i"
  let ?f = "\<lambda>x. bounce_on_predicate_change x
      (x\<lparr>fs_Predicate := fc_jsonb fc canon, fs_PredicateHash := hash, fs_UpdatedAt := dbnow\<rparr>)"
  have act: "one_active (sql_update ?P ?f (db_fscopes db))"
    using inv by (intro one_active_update) (auto simp: fs_inv_def bounce_on_predicate_change_def split: if_splits)
  have find: "List.find ?P (db_fscopes db) = Some r" using get by (simp add: GetFrameworkScopeByID_def)
  have "List.find ?P (map (\<lambda>x. if ?P x then ?f x else x) (db_fscopes db)) =
      map_option (\<lambda>x. if ?P x then ?f x else x) (List.find ?P (db_fscopes db))"
    by (rule find_map_key) simp
  then have "List.find ?P (sql_update ?P ?f (db_fscopes db)) = Some (?f r)"
    using find_SomeD [OF find] by (simp add: find sql_update_def)
  with act find show ?thesis
    by (simp add: fs_queries fs_update_one_def fs_update_def Let_def new_def)
qed


section \<open>Properties\<close>

text \<open>
  C8. Whatever sequence of \<open>Create\<close>, \<open>UpdatePredicate\<close>, \<open>Submit\<close>,
  \<open>Approve\<close> and \<open>Activate\<close> calls runs from an empty table, in any tenant and with
  any outcome: identifiers stay unique, at most one row per tenant and framework version is
  activated, every stored predicate is canonical and validated and its digest is the
  stored hash, an approved row's approval is for exactly the predicate it holds, draft and
  review rows carry no approval, and only superseded rows name a successor.
\<close>

theorem fs_run_invariant:
  assumes "db_fscopes db0 = []" and "fs_run fc db0 db"
  shows "fs_inv fc db"
  using fs_run_inv [OF assms(2)] assms(1) by (simp add: fs_inv_def one_active_def)

definition demo_fc :: fs_codec where
  "demo_fc =
     \<lparr>fc_unmarshal = demo_unmarshal, fc_decode_any = (\<lambda>b. Some (JStr b)), fc_sha256hex = id,
      fc_jsonb = id, fc_parse_uuid = (\<lambda>_. None)\<rparr>"

definition demo_fs_db :: fs_db where
  "demo_fs_db = \<lparr>db_dimensions = [], db_cells = [], db_controls = [],
                 db_framework_versions = [7], db_fscopes = []\<rparr>"

definition demo_created :: fs_db where
  "demo_created = snd (fs_Create demo_fc demo_env 10 100 7 ''soc2'' [] demo_fs_db)"

definition demo_reviewed :: fs_db where
  "demo_reviewed = snd (fs_Submit demo_env 200 10 demo_created)"

definition demo_approved :: fs_db where
  "demo_approved = snd (fs_Approve demo_fc demo_env 300 10 ''key'' [] [] demo_reviewed)"

definition demo_activated :: fs_db where
  "demo_activated = snd (fs_Activate demo_env 400 10 350 demo_approved)"

lemmas demo_fs_defs = demo_activated_def demo_approved_def demo_reviewed_def demo_created_def

definition demo_draft :: FrameworkScope where
  "demo_draft = draft_row demo_fc 1 10 100 7 ''soc2'' canonical_true canonical_true"

definition demo_approved_row :: FrameworkScope where
  "demo_approved_row =
     demo_draft\<lparr>fs_State := StateApproved, fs_ApprovedAt := Some 300,
       fs_PredicateHashAtApproval := Some canonical_true, fs_UpdatedAt := 300\<rparr>"

lemma demo_created_eq: "demo_created = demo_fs_db\<lparr>db_fscopes := [demo_draft]\<rparr>"
proof -
  have "fs_Canonicalize (fc_decode_any demo_fc) (fc_sha256hex demo_fc) [] = Inr (canonical_true, canonical_true)"
    "fs_Validate (fc_unmarshal demo_fc) canonical_true = None"
    by code_simp+
  then show ?thesis
    by (simp add: demo_created_def fs_Create_def inTx_run CreateFrameworkScope_def demo_draft_def demo_fs_db_def)
       (simp add: draft_row_def)
qed

lemmas fs_eval = guardedTransition_def inTx_run fs_queries fs_update_one_def fs_update_def Let_def
  one_active_def demo_fs_db_def draft_row_def demo_draft_def demo_approved_row_def

lemma demo_approved_eq: "demo_approved = demo_fs_db\<lparr>db_fscopes := [demo_approved_row]\<rparr>"
  by (simp add: demo_approved_def demo_reviewed_def demo_created_eq fs_Submit_def fs_Approve_def fs_eval)
     (simp add: demo_fc_def)

lemma demo_activated_eq:
  "demo_activated = demo_fs_db\<lparr>db_fscopes := [activated_row 400 350 demo_approved_row]\<rparr>"
  by (simp add: demo_activated_def demo_approved_eq fs_Activate_def fs_eval activated_row_def)

lemma demo_fs_run:
  "fs_run demo_fc demo_fs_db demo_approved" "fs_run demo_fc demo_fs_db demo_activated"
proof -
  have s: "fs_step demo_fc demo_env demo_fs_db demo_created"
    "fs_step demo_fc demo_env demo_created demo_reviewed"
    "fs_step demo_fc demo_env demo_reviewed demo_approved"
    "fs_step demo_fc demo_env demo_approved demo_activated"
    unfolding demo_fs_defs
    by (rule fs_step.create surjective_pairing fs_step.submit fs_step.approve fs_step.activate)+
  from fs_run_step [OF fs_run_step [OF fs_run_step [OF fs_run_refl s(1)] s(2)] s(3)]
  show "fs_run demo_fc demo_fs_db demo_approved" .
  from fs_run_step [OF this s(4)] show "fs_run demo_fc demo_fs_db demo_activated" .
qed

theorem fs_run_invariant_witness: "fs_inv demo_fc demo_activated"
  by (rule fs_run_invariant [OF _ demo_fs_run(2)]) (simp add: demo_fs_db_def)

text \<open>
  No operation deletes a framework scope or moves it to another tenant or framework
  version. An operation leaves the rows of every tenant but the caller's untouched, and
  moves the state of a row of the caller's tenant only along the lifecycle: draft to review
  to approved to activated to superseded, or back to draft from review or approved.
\<close>

theorem fs_step_lifecycle:
  assumes "fs_step fc env db db'" and "r \<in> set (db_fscopes db)"
  shows "\<exists>r' \<in> set (db_fscopes db').
     fs_ID r' = fs_ID r \<and> fs_TenantID r' = fs_TenantID r
     \<and> fs_FrameworkVersionID r' = fs_FrameworkVersionID r
     \<and> (tenant_of env = Some (fs_TenantID r) \<or> r' = r)
     \<and> (fs_State r' = fs_State r \<or> fs_edge (fs_State r) (fs_State r'))"
  using fs_step_evolves [OF assms(1)] assms(2)
  by (fastforce simp: fs_evolves_def fs_follows_def)

theorem fs_step_lifecycle_witness:
  "\<exists>r' \<in> set (db_fscopes demo_activated). fs_ID r' = fs_ID (hd (db_fscopes demo_approved))"
proof -
  have "fs_step demo_fc demo_env demo_approved demo_activated"
    unfolding demo_activated_def by (rule fs_step.activate surjective_pairing)+
  moreover have "hd (db_fscopes demo_approved) \<in> set (db_fscopes demo_approved)"
    by (simp add: demo_approved_eq)
  ultimately show ?thesis using fs_step_lifecycle by fastforce
qed

text \<open>
  Activating an approved row always succeeds on a consistent table: it never trips
  the one-activated index, because the previous activated row is superseded first, by this
  row and at the transaction's time, and afterwards \<open>Activated\<close> returns exactly the new
  row.
\<close>

theorem fs_Activate_succeeds:
  assumes "fs_inv fc db" and "tx_ok env" and "tenant_of env = Some t"
    and "GetFrameworkScopeByID t i db = Some r" and "fs_State r = StateApproved"
  shows "\<exists>db'. fs_Activate env dbnow i eff db = (Inr (activated_row dbnow eff r), db')
     \<and> fs_Activated env (fs_FrameworkVersionID r) db' = (Inr (activated_row dbnow eff r), db')
     \<and> (\<forall>old \<in> set (db_fscopes db).
          fs_TenantID old = t \<and> fs_FrameworkVersionID old = fs_FrameworkVersionID r
          \<and> fs_State old = StateActivated \<longrightarrow> superseded_row dbnow i old \<in> set (db_fscopes db'))"
proof -
  obtain db1 db2 where b:
    "SupersedePreviousActivated dbnow t (fs_FrameworkVersionID r) i db = Inr db1"
    "ActivateFrameworkScope dbnow t i eff db1 = Inr (activated_row dbnow eff r, db2)"
    "activated_row dbnow eff r \<in> set (db_fscopes db2)"
    "\<And>old. old \<in> set (db_fscopes db) \<Longrightarrow> fs_TenantID old = t \<Longrightarrow>
       fs_FrameworkVersionID old = fs_FrameworkVersionID r \<Longrightarrow> fs_State old = StateActivated \<Longrightarrow>
       superseded_row dbnow i old \<in> set (db_fscopes db2)"
    using fs_Activate_body [OF assms(1,4,5)] by blast
  have run: "fs_Activate env dbnow i eff db = (Inr (activated_row dbnow eff r), db2)"
    using assms(2-5) b(1,2) by (simp add: fs_Activate_def inTx_run)
  then have "fs_inv fc db2" using fs_Activate_inv assms(1) by blast
  moreover have "fs_TenantID r = t" using assms(4) by (auto simp: GetFrameworkScopeByID_def dest: find_SomeD)
  ultimately have "GetActivatedFrameworkScope t (fs_FrameworkVersionID r) db2 = Some (activated_row dbnow eff r)"
    using GetActivated_eq [of fc db2 "activated_row dbnow eff r"] b(3) by (simp add: activated_row_def)
  then have "fs_Activated env (fs_FrameworkVersionID r) db2 = (Inr (activated_row dbnow eff r), db2)"
    using assms(2,3) by (simp add: fs_Activated_def inTx_run)
  with run b(4) show ?thesis by blast
qed

theorem fs_Activate_succeeds_witness:
  "\<exists>r. fs_Activate demo_env 400 10 350 demo_approved = (Inr r, demo_activated)
     \<and> fs_Activated demo_env 7 demo_activated = (Inr r, demo_activated)"
proof -
  let ?r = "demo_approved_row"
  have inv: "fs_inv demo_fc demo_approved"
    using fs_run_inv [OF demo_fs_run(1)] by (simp add: fs_inv_def one_active_def demo_fs_db_def)
  have g: "GetFrameworkScopeByID 1 10 demo_approved = Some ?r" "fs_State ?r = StateApproved"
    "fs_FrameworkVersionID ?r = 7"
    by (simp_all add: demo_approved_eq fs_eval)
  show ?thesis
    using fs_Activate_succeeds [OF inv demo_env_simps(2,1) g(1,2), of 400 350] g(3)
    by (auto simp: demo_activated_def)
qed

text \<open>
  C11. Editing the predicate of a stored row. On a row in review or approved, a predicate
  with another digest puts the row back to draft and clears the whole approval, and the
  call reports the invalidation; with the same digest nothing but the update time moves.
  On every other row the call reports no invalidation and keeps the state and the approval
  columns: a draft stays a draft, and an activated or superseded row takes the new predicate
  in place, so its approved hash no longer is the hash of the predicate it holds.
\<close>

theorem fs_UpdatePredicate_effect:
  assumes "fs_inv fc db" and "tx_ok env" and "tenant_of env = Some t"
    and "fs_Canonicalize (fc_decode_any fc) (fc_sha256hex fc) p = Inr (canon, hash)"
    and "fs_Validate (fc_unmarshal fc) canon = None"
    and "GetFrameworkScopeByID t i db = Some r"
  shows "\<exists>r' invalidated db'.
     fs_UpdatePredicate fc env dbnow i p db = (Inr (r', invalidated), db')
     \<and> GetFrameworkScopeByID t i db' = Some r'
     \<and> fs_Predicate r' = fc_jsonb fc canon \<and> fs_PredicateHash r' = hash
     \<and> (invalidated \<longleftrightarrow> hash \<noteq> fs_PredicateHash r \<and> fs_State r \<in> {StateReview, StateApproved})
     \<and> (if invalidated
        then fs_State r' = StateDraft \<and> fs_ApproverUserID r' = None \<and> fs_ApprovedAt r' = None
             \<and> fs_PredicateHashAtApproval r' = None
        else fs_State r' = fs_State r \<and> fs_ApproverUserID r' = fs_ApproverUserID r
             \<and> fs_ApprovedAt r' = fs_ApprovedAt r
             \<and> fs_PredicateHashAtApproval r' = fs_PredicateHashAtApproval r)"
proof -
  let ?new = "r\<lparr>fs_Predicate := fc_jsonb fc canon, fs_PredicateHash := hash, fs_UpdatedAt := dbnow\<rparr>"
  let ?r' = "bounce_on_predicate_change r ?new"
  obtain db' where u: "UpdateFrameworkScopePredicate fc dbnow t i canon hash db = Inr (?r', db')"
    and g: "GetFrameworkScopeByID t i db' = Some ?r'"
    using UpdateFrameworkScopePredicate_run [OF assms(1,6)] by blast
  let ?inv = "hash \<noteq> fs_PredicateHash r \<and> fs_State r \<in> {StateReview, StateApproved}"
  have "fs_UpdatePredicate fc env dbnow i p db = (Inr (?r', ?inv), db')"
    using assms(2-6) u by (auto simp: fs_UpdatePredicate_def inTx_run bounce_on_predicate_change_def)
  with g show ?thesis
    by (intro exI [of _ ?r'] exI [of _ ?inv] exI [of _ db']) (auto simp: bounce_on_predicate_change_def)
qed


theorem fs_UpdatePredicate_effect_witness:
  "\<exists>r' db'. fs_UpdatePredicate demo_fc demo_env 500 10 ''a'' demo_activated = (Inr (r', False), db')
     \<and> fs_State r' = StateActivated \<and> fs_PredicateHashAtApproval r' \<noteq> Some (fs_PredicateHash r')"
proof -
  define r where "r = activated_row 400 350 demo_approved_row"
  have inv: "fs_inv demo_fc demo_activated"
    using fs_run_inv [OF demo_fs_run(2)] by (simp add: fs_inv_def one_active_def demo_fs_db_def)
  have c: "fs_Canonicalize (fc_decode_any demo_fc) (fc_sha256hex demo_fc) ''a'' =
      Inr (writeJSONString ''a'', writeJSONString ''a'')"
    "fs_Validate (fc_unmarshal demo_fc) (writeJSONString ''a'') = None"
    by code_simp+
  have g: "GetFrameworkScopeByID 1 10 demo_activated = Some r" "fs_State r = StateActivated"
    "fs_PredicateHashAtApproval r \<noteq> Some (writeJSONString ''a'')"
    unfolding r_def
    by (simp_all add: demo_activated_eq fs_eval activated_row_def canonical_true_def writeJSONString_def)
  obtain r' invalidated db' where
    "fs_UpdatePredicate demo_fc demo_env 500 10 ''a'' demo_activated = (Inr (r', invalidated), db')"
    "fs_PredicateHash r' = writeJSONString ''a''"
    "invalidated \<longleftrightarrow> writeJSONString ''a'' \<noteq> fs_PredicateHash r \<and> fs_State r \<in> {StateReview, StateApproved}"
    "if invalidated
        then fs_State r' = StateDraft \<and> fs_ApproverUserID r' = None \<and> fs_ApprovedAt r' = None
             \<and> fs_PredicateHashAtApproval r' = None
        else fs_State r' = fs_State r \<and> fs_ApproverUserID r' = fs_ApproverUserID r
             \<and> fs_ApprovedAt r' = fs_ApprovedAt r
             \<and> fs_PredicateHashAtApproval r' = fs_PredicateHashAtApproval r"
    using fs_UpdatePredicate_effect [OF inv demo_env_simps(2,1) c g(1)] by blast
  then show ?thesis using g(2,3) by auto
qed

text \<open>
  A stored predicate can always be evaluated. After any run from an empty table, for
  every row and every set of cells, \<open>EffectiveScope\<close> returns cells and never an error,
  provided the \<open>JSONB\<close> column gives back a document that decodes to the same expression
  as the text that was written.
\<close>

theorem stored_predicate_evaluates:
  assumes jsonb: "\<And>b. isEmptyExpr (fc_jsonb fc b) = isEmptyExpr b"
      "\<And>b. fc_unmarshal fc (fc_jsonb fc b) = fc_unmarshal fc b"
    and "db_fscopes db0 = []" and "fs_run fc db0 db" and "r \<in> set (db_fscopes db)"
  shows "\<exists>cells. EffectiveScope (fc_unmarshal fc) applicability (fs_Predicate r) = Inr cells
           \<and> set cells \<subseteq> set applicability"
proof -
  have "fs_inv fc db" using fs_run_inv [OF assms(4)] assms(3) by (simp add: fs_inv_def one_active_def)
  then obtain canon where v: "fs_Validate (fc_unmarshal fc) canon = None" "fs_Predicate r = fc_jsonb fc canon"
    using assms(5) unfolding fs_inv_def row_inv_def by blast
  have "Evaluate (fc_unmarshal fc) (fc_jsonb fc canon) u = Evaluate (fc_unmarshal fc) canon u" for u
    by (simp add: Evaluate_def jsonb)
  moreover obtain x where "Evaluate (fc_unmarshal fc) canon [] = Inr x"
    using v(1) by (auto simp: fs_Validate_def split: sum.splits)
  then obtain cells where "Evaluate (fc_unmarshal fc) canon applicability = Inr cells"
    using scope.accepted_everywhere by blast
  ultimately show ?thesis
    using v(2) scope.never_widens [of "fc_unmarshal fc" canon applicability cells]
    by (auto simp: EffectiveScope_def dest: subseq_set)
qed

theorem stored_predicate_evaluates_witness:
  "\<exists>cells. EffectiveScope (fc_unmarshal demo_fc) [demo_cell 1 ''prod'']
             (fs_Predicate (hd (db_fscopes demo_activated))) = Inr cells"
proof -
  have "hd (db_fscopes demo_activated) \<in> set (db_fscopes demo_activated)"
    by (simp add: demo_activated_eq)
  from stored_predicate_evaluates [OF _ _ _ demo_fs_run(2) this] show ?thesis
    by (auto simp: demo_fc_def demo_fs_db_def)
qed

end
