(* ===== verification/Eval_State.thy ===== *)
theory Eval_State
  imports Scope_Store
begin

text \<open>
  \<open>internal/eval/state.go\<close>: the pure evaluation logic. Results and freshness statuses
  are strings, as in the source; the lemmas \<open>eval_consts\<close> keep them apart. The clock
  enters only as the argument \<open>now\<close>.
\<close>

named_theorems eval_consts "the result and freshness vocabularies are distinct strings"

definition ResultPass :: string where [eval_consts]: "ResultPass = ''pass''"
definition ResultFail :: string where [eval_consts]: "ResultFail = ''fail''"
definition ResultNA :: string where [eval_consts]: "ResultNA = ''na''"
definition ResultInconclusive :: string where [eval_consts]: "ResultInconclusive = ''inconclusive''"

definition FreshnessFresh :: string where [eval_consts]: "FreshnessFresh = ''fresh''"
definition FreshnessStale :: string where [eval_consts]: "FreshnessStale = ''stale''"
definition FreshnessNoEvidence :: string where [eval_consts]: "FreshnessNoEvidence = ''no_evidence''"

definition result_values :: "string set" where
  "result_values = {ResultPass, ResultFail, ResultNA, ResultInconclusive}"

lemma result_distinct [simp]:
  "ResultPass \<noteq> ResultFail" "ResultFail \<noteq> ResultPass" "ResultPass \<noteq> ResultNA" "ResultNA \<noteq> ResultPass"
  "ResultPass \<noteq> ResultInconclusive" "ResultInconclusive \<noteq> ResultPass"
  "ResultFail \<noteq> ResultNA" "ResultNA \<noteq> ResultFail" "ResultFail \<noteq> ResultInconclusive"
  "ResultInconclusive \<noteq> ResultFail" "ResultNA \<noteq> ResultInconclusive" "ResultInconclusive \<noteq> ResultNA"
  by (simp_all add: eval_consts)

lemma freshness_distinct [simp]:
  "FreshnessFresh \<noteq> FreshnessStale" "FreshnessStale \<noteq> FreshnessFresh"
  "FreshnessFresh \<noteq> FreshnessNoEvidence" "FreshnessNoEvidence \<noteq> FreshnessFresh"
  "FreshnessStale \<noteq> FreshnessNoEvidence" "FreshnessNoEvidence \<noteq> FreshnessStale"
  by (simp_all add: eval_consts)


section \<open>Freshness classes\<close>

definition defaultFreshnessMaxAge :: duration where
  "defaultFreshnessMaxAge = days 90"

definition freshnessMaxAgeTable :: "(string \<times> duration) list" where
  "freshnessMaxAgeTable =
     [(''realtime'', hours 24), (''daily'', days 7), (''weekly'', days 30),
      (''monthly'', days 90), (''quarterly'', days 120), (''annual'', days 400)]"

definition freshnessMaxAge :: "string \<Rightarrow> duration \<times> bool" where
  "freshnessMaxAge cls =
     (case map_of freshnessMaxAgeTable cls of
        Some d \<Rightarrow> (d, True) | None \<Rightarrow> (defaultFreshnessMaxAge, True))"

definition FreshnessMaxAge :: "string \<Rightarrow> duration \<times> bool" where
  "FreshnessMaxAge cls =
     (let known = (map_of freshnessMaxAgeTable cls \<noteq> None) in (fst (freshnessMaxAge cls), known))"


section \<open>Ledger slices\<close>

record inWindowRecord =
  iw_result :: string
  iw_observedAt :: gotime
  iw_payload :: bytes

record allRecord =
  ar_observedAt :: gotime
  ar_result :: string
  ar_payload :: bytes

definition in_window :: "string \<Rightarrow> gotime \<Rightarrow> gotime \<Rightarrow> bool" where
  "in_window cls now observedAt \<longleftrightarrow> \<not> observedAt < now - fst (freshnessMaxAge cls)"

fun inWindowRecords :: "allRecord list \<Rightarrow> string \<Rightarrow> gotime \<Rightarrow> inWindowRecord list" where
  "inWindowRecords [] cls now = []"
| "inWindowRecords (r # rs) cls now =
     (if in_window cls now (ar_observedAt r)
      then \<lparr>iw_result = ar_result r, iw_observedAt = ar_observedAt r, iw_payload = ar_payload r\<rparr>
           # inWindowRecords rs cls now
      else inWindowRecords rs cls now)"

text \<open>The loop of \<open>computeResult\<close>: the three flags it sets.\<close>

fun saw :: "inWindowRecord list \<Rightarrow> bool \<times> bool \<times> bool \<Rightarrow> bool \<times> bool \<times> bool" where
  "saw [] flags = flags"
| "saw (r # rs) (sawFail, sawPass, sawInconclusive) =
     saw rs
       (if iw_result r = ResultFail then (True, sawPass, sawInconclusive)
        else if iw_result r = ResultPass then (sawFail, True, sawInconclusive)
        else if iw_result r = ResultInconclusive then (sawFail, sawPass, True)
        else (sawFail, sawPass, sawInconclusive))"

definition computeResult :: "inWindowRecord list \<Rightarrow> string" where
  "computeResult records =
     (if records = [] then ResultInconclusive
      else
        (case saw records (False, False, False) of
           (sawFail, sawPass, sawInconclusive) \<Rightarrow>
             if sawFail then ResultFail
             else if sawPass then ResultPass
             else if sawInconclusive then ResultInconclusive
             else ResultNA))"

text \<open>The loop both freshness functions share; it starts at Go's zero time.\<close>

fun latest_from :: "gotime \<Rightarrow> allRecord list \<Rightarrow> gotime" where
  "latest_from latest [] = latest"
| "latest_from latest (r # rs) =
     latest_from (if latest < ar_observedAt r then ar_observedAt r else latest) rs"

definition computeFreshness :: "allRecord list \<Rightarrow> string \<Rightarrow> gotime \<Rightarrow> string" where
  "computeFreshness all cls now =
     (if all = [] then FreshnessNoEvidence
      else
        (let cutoff = now - fst (freshnessMaxAge cls);
             freshest = latest_from 0 all
         in if freshest < cutoff then FreshnessStale else FreshnessFresh))"

definition latestObservedAt :: "allRecord list \<Rightarrow> gotime" where
  "latestObservedAt all = latest_from 0 all"


section \<open>Lemmas\<close>

lemma freshnessMaxAge_pos: "0 < fst (freshnessMaxAge cls)"
  by (simp add: freshnessMaxAge_def freshnessMaxAgeTable_def defaultFreshnessMaxAge_def
      days_def hours_def)

lemma freshnessMaxAge_bounds: "hours 24 \<le> fst (freshnessMaxAge cls)" "fst (freshnessMaxAge cls) \<le> days 400"
  by (simp_all add: freshnessMaxAge_def freshnessMaxAgeTable_def defaultFreshnessMaxAge_def
      days_def hours_def)

lemma inWindowRecords_filter:
  "inWindowRecords all cls now =
     map (\<lambda>r. \<lparr>iw_result = ar_result r, iw_observedAt = ar_observedAt r, iw_payload = ar_payload r\<rparr>)
       (filter (\<lambda>r. in_window cls now (ar_observedAt r)) all)"
  by (induction all) auto

lemma inWindowRecords_results: "iw_result ` set (inWindowRecords all cls now) \<subseteq> ar_result ` set all"
  by (auto simp: inWindowRecords_filter)

lemma length_inWindowRecords: "length (inWindowRecords all cls now) \<le> length all"
  by (simp add: inWindowRecords_filter)

lemma saw_flags:
  "saw rs (f, p, i) =
     (f \<or> ResultFail \<in> iw_result ` set rs, p \<or> ResultPass \<in> iw_result ` set rs,
      i \<or> ResultInconclusive \<in> iw_result ` set rs)"
  by (induction rs arbitrary: f p i) auto

text \<open>The specification of the roll-up, on the set of results seen.\<close>

definition precedence :: "string set \<Rightarrow> string" where
  "precedence seen =
     (if seen = {} then ResultInconclusive
      else if ResultFail \<in> seen then ResultFail
      else if ResultPass \<in> seen then ResultPass
      else if ResultInconclusive \<in> seen then ResultInconclusive
      else ResultNA)"

lemma computeResult_spec: "computeResult rs = precedence (iw_result ` set rs)"
  by (simp add: computeResult_def saw_flags precedence_def)

lemma computeResult_values: "computeResult rs \<in> result_values"
  by (simp add: computeResult_spec precedence_def result_values_def)

lemma latest_from_ge: "c \<le> latest_from m rs \<longleftrightarrow> c \<le> m \<or> (\<exists>r \<in> set rs. c \<le> ar_observedAt r)"
  by (induction m rs rule: latest_from.induct) auto

lemma computeFreshness_values: "computeFreshness all cls now \<in> {FreshnessFresh, FreshnessStale, FreshnessNoEvidence}"
  by (simp add: computeFreshness_def Let_def)

lemma computeFreshness_no_evidence: "computeFreshness all cls now = FreshnessNoEvidence \<longleftrightarrow> all = []"
  by (simp add: computeFreshness_def Let_def)


section \<open>Properties\<close>

text \<open>
  \<open>computeResult\<close> depends only on which results occur, never on order, count or
  clock, with the documented precedence: nothing is inconclusive, then any fail, any pass,
  any inconclusive, else not applicable.
\<close>

theorem computeResult_precedence:
  "computeResult rs = precedence (set (map iw_result rs))"
  by (simp add: computeResult_spec)

text \<open>
  The freshness status and the freshness window agree. At any instant later than the
  window is long after Go's zero time, a control is fresh exactly when some record lies in
  the window the result is computed over, has no evidence exactly when the ledger slice is
  empty, and is stale otherwise.
\<close>

theorem computeFreshness_window:
  assumes "fst (freshnessMaxAge cls) < now"
  shows "computeFreshness all cls now =
     (if all = [] then FreshnessNoEvidence
      else if inWindowRecords all cls now = [] then FreshnessStale
      else FreshnessFresh)"
proof -
  let ?cutoff = "now - fst (freshnessMaxAge cls)"
  have "(?cutoff \<le> latest_from 0 all) \<longleftrightarrow> inWindowRecords all cls now \<noteq> []"
    using assms by (auto simp: latest_from_ge inWindowRecords_filter in_window_def filter_empty_conv not_less)
  then show ?thesis by (auto simp: computeFreshness_def Let_def)
qed

theorem computeFreshness_window_witness:
  "computeFreshness [\<lparr>ar_observedAt = days 10, ar_result = ResultPass, ar_payload = []\<rparr>] ''daily'' (days 20)
     = FreshnessStale"
proof -
  have age: "fst (freshnessMaxAge ''daily'') = days 7"
    by (simp add: freshnessMaxAge_def freshnessMaxAgeTable_def)
  then have "fst (freshnessMaxAge ''daily'') < days 20" by (simp add: days_def hours_def)
  from computeFreshness_window [OF this, of "[\<lparr>ar_observedAt = days 10, ar_result = ResultPass, ar_payload = []\<rparr>]"]
  show ?thesis by (simp add: in_window_def age days_def hours_def)
qed

end
