(* ===== verification/Eval_Query.thy ===== *)
theory Eval_Query
  imports Eval_State
begin

text \<open>
  Evidence queries: \<open>rego.go\<close>, \<open>sql.go\<close>, \<open>jsonpath.go\<close>, the dispatch
  \<open>evalQueries\<close> of \<open>engine.go\<close> and the fixture runner \<open>fixture.go\<close> of
  \<open>internal/eval\<close>.

  The record \<open>eval_lib\<close> holds what these files call outside the repository and the
  standard library: the OPA evaluator behind the compile cache, one execution of a SQL text
  by PostgreSQL in the read-only sub-transaction, the JSON-path compiler, the JSON codecs
  and \<open>UUID.String\<close>; \<open>el_jsonpath_late n\<close> says whether the JSON-path deadline has
  passed when record \<open>n\<close> is reached. The static SQL guard reads its input as ASCII.
\<close>

datatype jvalue =
    VNil | VBool bool | VString string | VFloat (is_zero: bool) | VInt int
  | VArray "jvalue list" | VObject "(string \<times> jvalue) list" | VOther

datatype opa_outcome = OpaCompileError | OpaEvalError | OpaUndefined | OpaNotString | OpaString string

datatype sql_value = SqlBool bool | SqlText string | SqlNull | SqlOther

text \<open>\<open>SqlRows rows failed\<close>: the rows returned and whether the iteration ended in an error.\<close>

datatype sql_outcome = SqlFailed | SqlRows "sql_value list list" bool

record evidenceQuery =
  q_Language :: string
  q_Expression :: string

record eval_lib =
  el_opa :: "string \<Rightarrow> string list \<Rightarrow> opa_outcome"
  el_sql :: "string \<Rightarrow> bytes \<Rightarrow> sql_outcome"
  el_marshal_records :: "(string \<times> gotime \<times> bytes) list \<Rightarrow> bytes option"
  el_jsonpath :: "string \<Rightarrow> (jvalue \<Rightarrow> jvalue option) option"
  el_jsonpath_late :: "nat \<Rightarrow> bool"
  el_json :: "bytes \<Rightarrow> jvalue option"
  el_parse_queries :: "bytes \<Rightarrow> evidenceQuery list option"
  el_uuid_string :: "uuid \<Rightarrow> string"

datatype query_error =
    ErrRegoQuery | ErrSQLQuery | ErrJSONPathQuery
  | EmptyExpression string | UnsupportedLanguage string | QueryFailed string query_error
  | ErrFixtureSQLNeedsDB


section \<open>Rego\<close>

definition evalRegoQuery :: "eval_lib \<Rightarrow> string \<Rightarrow> inWindowRecord list \<Rightarrow> query_error + string" where
  "evalRegoQuery lib policy records =
     (if policy = [] then Inl ErrRegoQuery
      else
        (case el_opa lib policy (map iw_result records) of
           OpaString s \<Rightarrow>
             if s = ResultPass \<or> s = ResultFail \<or> s = ResultNA \<or> s = ResultInconclusive
             then Inr s else Inl ErrRegoQuery
         | _ \<Rightarrow> Inl ErrRegoQuery))"


section \<open>SQL\<close>

definition char_between :: "char \<Rightarrow> char \<Rightarrow> char \<Rightarrow> bool" where
  "char_between a b c \<longleftrightarrow> (of_char a :: int) \<le> of_char c \<and> (of_char c :: int) \<le> of_char b"

definition is_letter :: "char \<Rightarrow> bool" where
  "is_letter c \<longleftrightarrow> char_between (CHR ''a'') (CHR ''z'') c \<or> char_between (CHR ''A'') (CHR ''Z'') c"

definition is_word_char :: "char \<Rightarrow> bool" where
  "is_word_char c \<longleftrightarrow> is_letter c \<or> char_between (CHR ''0'') (CHR ''9'') c \<or> c = CHR ''_''"

definition lower_char :: "char \<Rightarrow> char" where
  "lower_char c = (if char_between (CHR ''A'') (CHR ''Z'') c then char_of (of_char c + 32 :: int) else c)"

definition ToLower :: "string \<Rightarrow> string" where
  "ToLower s = map lower_char s"

text \<open>The maximal runs of word characters, which is where both ends of a keyword match a boundary.\<close>

function word_runs :: "string \<Rightarrow> string list" where
  "word_runs [] = []"
| "word_runs (c # s) =
     (if is_word_char c
      then (c # takeWhile is_word_char s) # word_runs (dropWhile is_word_char s)
      else word_runs s)"
  by pat_completeness auto
termination
  by (relation "measure length") (auto simp: le_imp_less_Suc length_dropWhile_le)

definition forbiddenSQLKeyword :: "string list" where
  "forbiddenSQLKeyword =
     [''insert'', ''update'', ''delete'', ''drop'', ''alter'', ''create'', ''truncate'', ''grant'',
      ''revoke'', ''copy'', ''merge'', ''call'', ''do'', ''vacuum'', ''analyze'', ''reindex'',
      ''cluster'', ''comment'', ''lock'', ''set'', ''reset'', ''begin'', ''commit'', ''rollback'',
      ''savepoint'', ''prepare'', ''execute'', ''deallocate'', ''listen'', ''notify'', ''attach'',
      ''detach'', ''pg_sleep'', ''dblink'', ''pg_read_file'', ''lo_import'', ''lo_export'']"

definition follows_dot :: "string \<Rightarrow> bool" where
  "follows_dot rest =
     (case rest of
        d # e # _ \<Rightarrow> d = CHR ''.'' \<and> (is_letter e \<or> e = CHR ''_'' \<or> e = CHR 0x22 \<or> e = CHR ''*'')
      | _ \<Rightarrow> False)"

text \<open>
  The first group of each successive match of \<open>schemaQualifiedRef\<close>. A match ends with
  the character after the dot, so the word that starts there (\<open>skip\<close>) cannot begin
  another match.
\<close>

function schemaQualifiedRefs :: "bool \<Rightarrow> string \<Rightarrow> string list" where
  "schemaQualifiedRefs skip [] = []"
| "schemaQualifiedRefs skip (c # s) =
     (if is_word_char c
      then (let w = c # takeWhile is_word_char s; rest = dropWhile is_word_char s in
            if \<not> skip \<and> (is_letter c \<or> c = CHR ''_'') \<and> follows_dot rest
            then w # schemaQualifiedRefs (is_word_char (rest ! 1)) (tl rest)
            else schemaQualifiedRefs False rest)
      else schemaQualifiedRefs False s)"
  by pat_completeness auto
termination
  by (relation "measure (\<lambda>(_, s). length s)")
     (auto simp: le_imp_less_Suc length_dropWhile_le intro: le_less_trans [OF diff_le_self])

definition TrimRightSemicolons :: "string \<Rightarrow> string" where
  "TrimRightSemicolons s = rev (dropWhile (\<lambda>c. c = CHR '';'') (rev s))"

definition has_prefix :: "string \<Rightarrow> string \<Rightarrow> bool" where
  "has_prefix p s \<longleftrightarrow> take (length p) s = p"

definition validateSQLEvidenceQuery :: "string \<Rightarrow> query_error option" where
  "validateSQLEvidenceQuery expr =
     (let trimmed = TrimSpace expr in
      if trimmed = [] then Some ErrSQLQuery
      else
        (let noTrailing = TrimSpace (TrimRightSemicolons trimmed) in
         if CHR '';'' \<in> set noTrailing then Some ErrSQLQuery
         else
           (let lower = ToLower noTrailing in
            if \<not> has_prefix ''select'' lower \<and> \<not> has_prefix ''with'' lower then Some ErrSQLQuery
            else if list_ex (\<lambda>w. ToLower w \<in> set forbiddenSQLKeyword) (word_runs noTrailing)
            then Some ErrSQLQuery
            else if list_ex (\<lambda>m. ToLower m \<noteq> ''evidence'') (schemaQualifiedRefs False noTrailing)
            then Some ErrSQLQuery
            else None)))"

definition inWindowRecordsToJSON :: "eval_lib \<Rightarrow> inWindowRecord list \<Rightarrow> bytes option" where
  "inWindowRecordsToJSON lib records =
     el_marshal_records lib
       (map (\<lambda>r. (iw_result r, iw_observedAt r, if iw_payload r = [] then ''null'' else iw_payload r)) records)"

definition sqlEvidenceCTE :: string where
  "sqlEvidenceCTE =
     (let nl = [CHR 0x0A]; sq = [CHR 0x27] in
      ''WITH evidence AS ('' @ nl
      @ ''    SELECT (r->>'' @ sq @ ''result'' @ sq @ '')::text AS result,'' @ nl
      @ ''           (r->>'' @ sq @ ''observed_at'' @ sq @ '')::timestamptz AS observed_at,'' @ nl
      @ ''           (r->'' @ sq @ ''payload'' @ sq @ '') AS payload'' @ nl
      @ ''    FROM jsonb_array_elements($1::jsonb) AS r'' @ nl @ '')'')"

definition classifySQLValue :: "sql_value \<Rightarrow> query_error + string" where
  "classifySQLValue v =
     (case v of
        SqlBool b \<Rightarrow> Inr (if b then ResultPass else ResultFail)
      | SqlText t \<Rightarrow>
          if t = ResultPass \<or> t = ResultFail \<or> t = ResultNA \<or> t = ResultInconclusive
          then Inr t else Inl ErrSQLQuery
      | SqlNull \<Rightarrow> Inl ErrSQLQuery
      | SqlOther \<Rightarrow> Inl ErrSQLQuery)"

definition result_only :: "string \<Rightarrow> inWindowRecord" where
  "result_only res = \<lparr>iw_result = res, iw_observedAt = 0, iw_payload = []\<rparr>"

fun classify_rows :: "sql_value list list \<Rightarrow> query_error + inWindowRecord list" where
  "classify_rows [] = Inr []"
| "classify_rows (vals # rows) =
     (case vals of
        [v] \<Rightarrow>
          (case classifySQLValue v of Inl e \<Rightarrow> Inl e
           | Inr res \<Rightarrow>
             (case classify_rows rows of Inl e \<Rightarrow> Inl e | Inr rs \<Rightarrow> Inr (result_only res # rs)))
      | _ \<Rightarrow> Inl ErrSQLQuery)"

definition evalSQLQuery :: "eval_lib \<Rightarrow> string \<Rightarrow> inWindowRecord list \<Rightarrow> query_error + string" where
  "evalSQLQuery lib expr records =
     (case validateSQLEvidenceQuery expr of
        Some e \<Rightarrow> Inl e
      | None \<Rightarrow>
        (case inWindowRecordsToJSON lib records of
           None \<Rightarrow> Inl ErrSQLQuery
         | Some recordsJSON \<Rightarrow>
           (case el_sql lib (sqlEvidenceCTE @ CHR 0x0A # TrimRightSemicolons (TrimSpace expr)) recordsJSON of
              SqlFailed \<Rightarrow> Inl ErrSQLQuery
            | SqlRows rows failed \<Rightarrow>
              (case classify_rows rows of
                 Inl e \<Rightarrow> Inl e
               | Inr results \<Rightarrow>
                 if failed then Inl ErrSQLQuery
                 else if results = [] then Inr ResultFail
                 else Inr (computeResult results)))))"


section \<open>JSON path\<close>

fun jsonPathMatchIsTruthy :: "jvalue \<Rightarrow> bool" where
  "jsonPathMatchIsTruthy VNil = False"
| "jsonPathMatchIsTruthy (VBool b) = b"
| "jsonPathMatchIsTruthy (VString s) = (s \<noteq> [])"
| "jsonPathMatchIsTruthy (VFloat zero) = (\<not> zero)"
| "jsonPathMatchIsTruthy (VInt i) = (i \<noteq> 0)"
| "jsonPathMatchIsTruthy (VArray vs) = (length vs > 0)"
| "jsonPathMatchIsTruthy (VObject kvs) = (length kvs > 0)"
| "jsonPathMatchIsTruthy VOther = True"

definition jsonpath_record :: "eval_lib \<Rightarrow> (jvalue \<Rightarrow> jvalue option) \<Rightarrow> bytes \<Rightarrow> string" where
  "jsonpath_record lib eval payload =
     (if payload = [] then ResultFail
      else
        (case el_json lib payload of
           None \<Rightarrow> ResultFail
         | Some doc \<Rightarrow>
           (case eval doc of
              None \<Rightarrow> ResultFail
            | Some match \<Rightarrow> if jsonPathMatchIsTruthy match then ResultPass else ResultFail)))"

fun jsonpath_loop ::
  "eval_lib \<Rightarrow> (jvalue \<Rightarrow> jvalue option) \<Rightarrow> nat \<Rightarrow> inWindowRecord list \<Rightarrow> query_error + inWindowRecord list" where
  "jsonpath_loop lib eval n [] = Inr []"
| "jsonpath_loop lib eval n (r # rs) =
     (if el_jsonpath_late lib n then Inl ErrJSONPathQuery
      else
        (case jsonpath_loop lib eval (Suc n) rs of
           Inl e \<Rightarrow> Inl e
         | Inr perRecord \<Rightarrow> Inr (result_only (jsonpath_record lib eval (iw_payload r)) # perRecord)))"

definition evalJSONPathQuery :: "eval_lib \<Rightarrow> string \<Rightarrow> inWindowRecord list \<Rightarrow> query_error + string" where
  "evalJSONPathQuery lib expr records =
     (if expr = [] then Inl ErrJSONPathQuery
      else
        (case el_jsonpath lib expr of
           None \<Rightarrow> Inl ErrJSONPathQuery
         | Some eval \<Rightarrow>
           if records = [] then Inr ResultInconclusive
           else
             (case jsonpath_loop lib eval 0 records of
                Inl e \<Rightarrow> Inl e
              | Inr perRecord \<Rightarrow> Inr (computeResult perRecord))))"


section \<open>Dispatch\<close>

definition SupportedQueryLanguages :: "string set" where
  "SupportedQueryLanguages = {''rego'', ''sql'', ''jsonpath''}"

definition evalQuery :: "eval_lib \<Rightarrow> inWindowRecord list \<Rightarrow> evidenceQuery \<Rightarrow> query_error + string" where
  "evalQuery lib inWindow q =
     (if q_Expression q = [] then Inl (EmptyExpression (q_Language q))
      else if q_Language q \<notin> SupportedQueryLanguages then Inl (UnsupportedLanguage (q_Language q))
      else
        (let r = (if q_Language q = ''rego'' then evalRegoQuery lib (q_Expression q) inWindow
                  else if q_Language q = ''sql'' then evalSQLQuery lib (q_Expression q) inWindow
                  else evalJSONPathQuery lib (q_Expression q) inWindow)
         in (case r of Inl e \<Rightarrow> Inl (QueryFailed (q_Language q) e) | Inr res \<Rightarrow> Inr res)))"

fun query_loop :: "(evidenceQuery \<Rightarrow> query_error + string) \<Rightarrow> evidenceQuery list \<Rightarrow> query_error + inWindowRecord list" where
  "query_loop f [] = Inr []"
| "query_loop f (q # qs) =
     (case f q of Inl e \<Rightarrow> Inl e
      | Inr res \<Rightarrow>
        (case query_loop f qs of Inl e \<Rightarrow> Inl e | Inr perQuery \<Rightarrow> Inr (result_only res # perQuery)))"

definition evalQueries :: "eval_lib \<Rightarrow> evidenceQuery list \<Rightarrow> inWindowRecord list \<Rightarrow> query_error + string" where
  "evalQueries lib queries inWindow =
     (if queries = [] then Inr (computeResult inWindow)
      else
        (case query_loop (evalQuery lib inWindow) queries of
           Inl e \<Rightarrow> Inl e
         | Inr perQuery \<Rightarrow> Inr (computeResult perQuery)))"


section \<open>Fixtures\<close>

definition evalFixtureQuery ::
  "eval_lib \<Rightarrow> bool \<Rightarrow> inWindowRecord list \<Rightarrow> evidenceQuery \<Rightarrow> query_error + string" where
  "evalFixtureQuery lib has_tx inWindow q =
     (if q_Expression q = [] then Inl (EmptyExpression (q_Language q))
      else if q_Language q \<notin> SupportedQueryLanguages then Inl (UnsupportedLanguage (q_Language q))
      else if q_Language q = ''sql'' \<and> \<not> has_tx then Inl ErrFixtureSQLNeedsDB
      else
        (let r = (if q_Language q = ''rego'' then evalRegoQuery lib (q_Expression q) inWindow
                  else if q_Language q = ''sql'' then evalSQLQuery lib (q_Expression q) inWindow
                  else evalJSONPathQuery lib (q_Expression q) inWindow)
         in (case r of Inl e \<Rightarrow> Inl (QueryFailed (q_Language q) e) | Inr res \<Rightarrow> Inr res)))"

definition evalFixtureQueries ::
  "eval_lib \<Rightarrow> evidenceQuery list \<Rightarrow> inWindowRecord list \<Rightarrow> bool \<Rightarrow> query_error + string" where
  "evalFixtureQueries lib queries inWindow has_tx =
     (if queries = [] then Inr (computeResult inWindow)
      else
        (case query_loop (evalFixtureQuery lib has_tx inWindow) queries of
           Inl e \<Rightarrow> Inl e
         | Inr perQuery \<Rightarrow> Inr (computeResult perQuery)))"

record FixtureResult =
  fr_Result :: string
  fr_FreshnessStatus :: string
  fr_EvidenceCountInWindow :: nat

definition EvaluateFixture ::
  "eval_lib \<Rightarrow> string \<Rightarrow> evidenceQuery list \<Rightarrow> allRecord list \<Rightarrow> gotime \<Rightarrow> bool \<Rightarrow> query_error + FixtureResult" where
  "EvaluateFixture lib freshnessClass queries records now has_tx =
     (let inWindow = inWindowRecords records freshnessClass now;
          freshness = computeFreshness records freshnessClass now
      in (case evalFixtureQueries lib queries inWindow has_tx of
            Inl e \<Rightarrow> Inl e
          | Inr result \<Rightarrow>
              Inr \<lparr>fr_Result = (if freshness = FreshnessNoEvidence then ResultInconclusive else result),
                   fr_FreshnessStatus = freshness, fr_EvidenceCountInWindow = length inWindow\<rparr>))"


section \<open>Lemmas\<close>

lemma evalRegoQuery_values: "evalRegoQuery lib e w = Inr r \<Longrightarrow> r \<in> result_values"
  by (auto simp: evalRegoQuery_def result_values_def split: if_splits opa_outcome.splits)

lemma evalSQLQuery_values: "evalSQLQuery lib e w = Inr r \<Longrightarrow> r \<in> result_values"
  unfolding evalSQLQuery_def
  by (auto split: if_splits option.splits sql_outcome.splits sum.splits intro: computeResult_values)
     (simp add: result_values_def)

lemma evalJSONPathQuery_values: "evalJSONPathQuery lib e w = Inr r \<Longrightarrow> r \<in> result_values"
  unfolding evalJSONPathQuery_def
  by (auto split: if_splits option.splits sum.splits intro: computeResult_values)
     (simp add: result_values_def)

lemma evalQuery_values: "evalQuery lib w q = Inr r \<Longrightarrow> r \<in> result_values"
  by (auto simp: evalQuery_def Let_def split: if_splits sum.splits
      dest: evalRegoQuery_values evalSQLQuery_values evalJSONPathQuery_values)

lemma query_loop_Inr_iff:
  "query_loop f qs = Inr rs \<longleftrightarrow>
     (\<forall>q \<in> set qs. \<exists>res. f q = Inr res) \<and> rs = map (\<lambda>q. result_only (projr (f q))) qs"
proof (induction qs arbitrary: rs)
  case (Cons q qs)
  show ?case
    using Cons.IH [of "map (\<lambda>q. result_only (projr (f q))) qs"] Cons.IH
    by (cases "f q"; cases "query_loop f qs") auto
qed auto

lemma query_loop_ok:
  "(\<forall>q \<in> set qs. \<exists>res. f q = Inr res) \<Longrightarrow> query_loop f qs = Inr (map (\<lambda>q. result_only (projr (f q))) qs)"
  by (simp add: query_loop_Inr_iff)

lemma query_loop_cong: "(\<And>q. q \<in> set qs \<Longrightarrow> f q = g q) \<Longrightarrow> query_loop f qs = query_loop g qs"
  by (induction qs) (auto split: sum.splits)

lemma evalQueries_values: "evalQueries lib qs w = Inr r \<Longrightarrow> r \<in> result_values"
  by (auto simp: evalQueries_def computeResult_values split: if_splits sum.splits)

lemma iw_result_result_only [simp]: "iw_result (result_only r) = r"
  by (simp add: result_only_def)

text \<open>Without a SQL query, or with a transaction, the fixture dispatch is the engine's.\<close>

lemma evalFixtureQueries_eq:
  assumes "has_tx \<or> (\<forall>q \<in> set qs. q_Language q \<noteq> ''sql'')"
  shows "evalFixtureQueries lib qs w has_tx = evalQueries lib qs w"
proof -
  have "evalFixtureQuery lib has_tx w q = evalQuery lib w q" if "q \<in> set qs" for q
    using assms that by (simp add: evalFixtureQuery_def evalQuery_def) blast
  then have "query_loop (evalFixtureQuery lib has_tx w) qs = query_loop (evalQuery lib w) qs"
    by (rule query_loop_cong)
  then show ?thesis by (simp add: evalFixtureQueries_def evalQueries_def)
qed

text \<open>What trimming removes: characters of white-space code points, at both ends.\<close>

lemma trim_prefixes_split: "\<exists>pre. s = pre @ trim_prefixes ps s \<and> set pre \<subseteq> \<Union> (set ` set ps)"
proof (induction ps s rule: trim_prefixes.induct)
  case (1 ps s)
  show ?case
  proof (cases "List.find (\<lambda>p. p \<noteq> [] \<and> take (length p) s = p) ps")
    case None
    then have "trim_prefixes ps s = s" by (subst trim_prefixes.simps) simp
    then show ?thesis by simp
  next
    case (Some p)
    then have p: "p \<in> set ps" "take (length p) s = p" by (auto dest: find_SomeD)
    from 1 [OF Some] obtain pre where pre: "drop (length p) s = pre @ trim_prefixes ps (drop (length p) s)"
      "set pre \<subseteq> \<Union> (set ` set ps)" by blast
    have "s = p @ drop (length p) s" using p(2) by (metis append_take_drop_id)
    then have "s = (p @ pre) @ trim_prefixes ps (drop (length p) s)" using pre(1) by simp
    moreover have "trim_prefixes ps s = trim_prefixes ps (drop (length p) s)" using Some by (subst trim_prefixes.simps) simp
    ultimately show ?thesis using p(1) pre(2) by (intro exI [of _ "p @ pre"]) auto
  qed
qed

lemma trim_prefixes_done: "p \<in> set ps \<Longrightarrow> p \<noteq> [] \<Longrightarrow> take (length p) (trim_prefixes ps s) \<noteq> p"
proof (induction ps s rule: trim_prefixes.induct)
  case (1 ps s)
  show ?case
  proof (cases "List.find (\<lambda>p. p \<noteq> [] \<and> take (length p) s = p) ps")
    case None
    then have "trim_prefixes ps s = s" by (subst trim_prefixes.simps) simp
    with None 1(2,3) show ?thesis by (auto simp: find_None_iff)
  next
    case (Some q)
    then have "trim_prefixes ps s = trim_prefixes ps (drop (length q) s)" by (subst trim_prefixes.simps) simp
    with 1(1) [OF Some 1(2,3)] show ?thesis by simp
  qed
qed

lemma TrimSpace_split:
  obtains a b where "s = a @ TrimSpace s @ b" "set a \<union> set b \<subseteq> \<Union> (set ` set space_runes)"
proof -
  let ?l = "trim_prefixes space_runes s"
  obtain a where a: "s = a @ ?l" "set a \<subseteq> \<Union> (set ` set space_runes)" using trim_prefixes_split by blast
  obtain b where b: "rev ?l = b @ trim_prefixes (map rev space_runes) (rev ?l)" "set b \<subseteq> \<Union> (set ` set (map rev space_runes))"
    using trim_prefixes_split by blast
  from b(1) have "?l = TrimSpace s @ rev b" unfolding TrimSpace_def by (metis rev_append rev_rev_ident)
  with a b(2) show ?thesis by (intro that [of a "rev b"]) auto
qed

text \<open>Only trailing white space is left to trim in a prefix of a trimmed text.\<close>

lemma TrimSpace_prefix:
  assumes "TrimSpace s = q @ rest"
  obtains b where "q = TrimSpace q @ b"
proof -
  obtain pre where "trim_prefixes space_runes s = q @ pre"
  proof -
    obtain b where "rev (trim_prefixes space_runes s) = b @ trim_prefixes (map rev space_runes) (rev (trim_prefixes space_runes s))"
      using trim_prefixes_split by blast
    then have "trim_prefixes space_runes s = TrimSpace s @ rev b" unfolding TrimSpace_def by (metis rev_append rev_rev_ident)
    with assms show ?thesis by (intro that [of "rest @ rev b"]) simp
  qed
  then have "p = [] \<or> take (length p) q \<noteq> p" if "p \<in> set space_runes" for p
    using trim_prefixes_done [OF that, of s] by (cases "length p \<le> length q") (auto dest: arg_cong [where f = length])
  then have "trim_prefixes space_runes q = q" by (rule trim_prefixes_id)
  moreover obtain b where "rev q = b @ trim_prefixes (map rev space_runes) (rev q)" using trim_prefixes_split by blast
  ultimately have "q = TrimSpace q @ rev b" unfolding TrimSpace_def by (metis rev_append rev_rev_ident)
  then show ?thesis by (rule that)
qed

definition blank_char :: "char \<Rightarrow> bool" where
  "blank_char c \<longleftrightarrow> \<not> is_word_char c \<and> c \<noteq> CHR ''.'' \<and> c \<noteq> CHR 0x22 \<and> c \<noteq> CHR ''*'' \<and> c \<noteq> CHR '';''"

lemma space_blank: "c \<in> \<Union> (set ` set space_runes) \<Longrightarrow> blank_char c"
proof -
  have "list_all (list_all blank_char) space_runes" by code_simp
  then show "c \<in> \<Union> (set ` set space_runes) \<Longrightarrow> blank_char c" by (auto simp: list_all_iff)
qed

text \<open>Blank characters around a text change neither its words nor its schema-qualified names.\<close>

lemma blank_while:
  assumes "list_all blank_char b"
  shows "takeWhile is_word_char (s @ b) = takeWhile is_word_char s" "dropWhile is_word_char (s @ b) = dropWhile is_word_char s @ b"
proof -
  have "takeWhile is_word_char b = [] \<and> dropWhile is_word_char b = b" using assms by (cases b) (auto simp: blank_char_def)
  then show "takeWhile is_word_char (s @ b) = takeWhile is_word_char s" "dropWhile is_word_char (s @ b) = dropWhile is_word_char s @ b"
    by (induction s) auto
qed

lemma blank_follows_dot: "list_all blank_char b \<Longrightarrow> follows_dot (rest @ b) = follows_dot rest"
  by (cases rest; cases b; cases "tl rest"; cases "tl b") (auto simp: follows_dot_def blank_char_def is_word_char_def)

lemma word_runs_blank_after: "list_all blank_char b \<Longrightarrow> word_runs (s @ b) = word_runs s"
proof (induction s rule: word_runs.induct)
  case 1
  then show ?case by (induction b) (auto simp: blank_char_def)
qed (simp add: blank_while)

lemma word_runs_blank_before: "list_all blank_char a \<Longrightarrow> word_runs (a @ s) = word_runs s"
  by (induction a) (auto simp: blank_char_def)

lemma refs_blank_before: "list_all blank_char a \<Longrightarrow> schemaQualifiedRefs False (a @ s) = schemaQualifiedRefs False s"
  by (induction a) (auto simp: blank_char_def)

lemma refs_blank_after: "list_all blank_char b \<Longrightarrow> schemaQualifiedRefs skip (s @ b) = schemaQualifiedRefs skip s"
proof (induction skip s rule: schemaQualifiedRefs.induct)
  case (1 skip)
  then show ?case by (induction b arbitrary: skip) (auto simp: blank_char_def)
next
  case (2 skip c s)
  show ?case
  proof (cases "is_word_char c \<and> \<not> skip \<and> (is_letter c \<or> c = CHR ''_'') \<and> follows_dot (dropWhile is_word_char s)")
    case True
    then obtain d e t where rest: "dropWhile is_word_char s = d # e # t" by (auto simp: follows_dot_def split: list.splits)
    have dot: "follows_dot (d # e # t @ b)" using blank_follows_dot [OF 2(4), of "d # e # t"] True rest by simp
    have "schemaQualifiedRefs (is_word_char e) ((e # t) @ b) = schemaQualifiedRefs (is_word_char e) (e # t)"
      using 2(1) [OF _ refl refl] True rest 2(4) by simp
    with True rest dot show ?thesis
      by (simp add: blank_while [OF 2(4)] Let_def del: schemaQualifiedRefs.simps) (simp add: blank_while [OF 2(4)] Let_def rest dot)
  next
    case False
    with 2 show ?thesis by (auto simp: blank_while blank_follows_dot Let_def)
  qed
qed

text \<open>
  The texts that may reach the database: the fixed prelude and one query, without a semicolon, that
  starts with \<open>select\<close> or \<open>with\<close>, has none of the forbidden words, and qualifies names with nothing but
  \<open>evidence\<close>.
\<close>

definition single_select :: "string \<Rightarrow> bool" where
  "single_select text_sent \<longleftrightarrow> CHR '';'' \<notin> set text_sent
     \<and> (\<exists>q. text_sent = sqlEvidenceCTE @ CHR 0x0A # q
          \<and> (has_prefix ''select'' (ToLower q) \<or> has_prefix ''with'' (ToLower q))
          \<and> (\<forall>w \<in> set (word_runs q). ToLower w \<notin> set forbiddenSQLKeyword)
          \<and> (\<forall>m \<in> set (schemaQualifiedRefs False q). ToLower m = ''evidence''))"

lemma prelude_no_semicolon: "CHR '';'' \<notin> set sqlEvidenceCTE"
proof -
  have "list_all (\<lambda>c. c \<noteq> CHR '';'') sqlEvidenceCTE" by code_simp
  then show ?thesis by (auto simp: list_all_iff)
qed

lemma guard_single_select:
  assumes "validateSQLEvidenceQuery expr = None"
  shows "single_select (sqlEvidenceCTE @ CHR 0x0A # TrimRightSemicolons (TrimSpace expr))"
proof -
  define q where "q = TrimRightSemicolons (TrimSpace expr)"
  have guard: "CHR '';'' \<notin> set (TrimSpace q)" "has_prefix ''select'' (ToLower (TrimSpace q)) \<or> has_prefix ''with'' (ToLower (TrimSpace q))"
    "\<forall>w \<in> set (word_runs (TrimSpace q)). ToLower w \<notin> set forbiddenSQLKeyword"
    "\<forall>m \<in> set (schemaQualifiedRefs False (TrimSpace q)). ToLower m = ''evidence''"
    using assms by (auto simp: validateSQLEvidenceQuery_def Let_def q_def list_ex_iff split: if_splits)
  obtain a b where ab: "q = a @ TrimSpace q @ b" "list_all blank_char a" "list_all blank_char b"
    by (rule TrimSpace_split [of q]) (auto simp: list_all_iff dest!: space_blank)
  have same: "word_runs q = word_runs (TrimSpace q)" "schemaQualifiedRefs False q = schemaQualifiedRefs False (TrimSpace q)"
    using ab(2,3) by (subst (1) ab(1); simp add: word_runs_blank_before word_runs_blank_after refs_blank_before refs_blank_after)+
  have "CHR '';'' \<notin> set a \<union> set b" using ab(2,3) by (auto simp: list_all_iff blank_char_def)
  then have semi: "CHR '';'' \<notin> set q" using guard(1) by (subst ab(1)) simp
  have "TrimSpace expr = q @ rev (takeWhile (\<lambda>c. c = CHR '';'') (rev (TrimSpace expr)))"
    unfolding q_def TrimRightSemicolons_def by (metis rev_append rev_rev_ident takeWhile_dropWhile_id)
  then obtain b' where "q = TrimSpace q @ b'" by (rule TrimSpace_prefix)
  then have "ToLower q = ToLower (TrimSpace q) @ ToLower b'" unfolding ToLower_def by (metis map_append)
  then have "has_prefix p (ToLower (TrimSpace q)) \<Longrightarrow> has_prefix p (ToLower q)" for p
    unfolding has_prefix_def by (metis append_eq_conv_conj append_assoc append_take_drop_id)
  with guard(2-4) semi same prelude_no_semicolon show ?thesis unfolding q_def [symmetric] single_select_def by auto
qed

text \<open>A query depends on the database only through its answers to such texts.\<close>

lemma evalSQLQuery_confined:
  assumes "\<And>text_sent b. single_select text_sent \<Longrightarrow> f text_sent b = el_sql lib text_sent b"
  shows "evalSQLQuery (lib\<lparr>el_sql := f\<rparr>) expr w = evalSQLQuery lib expr w"
proof (cases "validateSQLEvidenceQuery expr")
  case None
  from assms [OF guard_single_select [OF None]] show ?thesis
    by (simp add: evalSQLQuery_def None inWindowRecordsToJSON_def split: option.split)
qed (simp add: evalSQLQuery_def)

lemma evalQuery_confined:
  assumes "\<And>text_sent b. single_select text_sent \<Longrightarrow> f text_sent b = el_sql lib text_sent b"
  shows "evalQuery (lib\<lparr>el_sql := f\<rparr>) w = evalQuery lib w" "evalFixtureQuery (lib\<lparr>el_sql := f\<rparr>) has_tx w = evalFixtureQuery lib has_tx w"
proof -
  have "jsonpath_record (lib\<lparr>el_sql := f\<rparr>) = jsonpath_record lib" by (simp add: fun_eq_iff jsonpath_record_def)
  then have loop: "jsonpath_loop (lib\<lparr>el_sql := f\<rparr>) e n rs = jsonpath_loop lib e n rs" for e n rs
    by (induction rs arbitrary: n) (simp_all split: sum.split)
  then have "evalJSONPathQuery (lib\<lparr>el_sql := f\<rparr>) = evalJSONPathQuery lib" "evalRegoQuery (lib\<lparr>el_sql := f\<rparr>) = evalRegoQuery lib"
    by (simp_all add: fun_eq_iff evalJSONPathQuery_def evalRegoQuery_def split: option.split)
  with evalSQLQuery_confined [OF assms] show "evalQuery (lib\<lparr>el_sql := f\<rparr>) w = evalQuery lib w"
    "evalFixtureQuery (lib\<lparr>el_sql := f\<rparr>) has_tx w = evalFixtureQuery lib has_tx w"
    by (simp_all add: fun_eq_iff evalQuery_def evalFixtureQuery_def)
qed


section \<open>Properties\<close>

text \<open>
  No declared query is ever skipped. \<open>evalQueries\<close> yields a result exactly when
  every declared query has a non-empty expression, a supported language and an evaluation
  that succeeds; the result is then the precedence roll-up of all the queries' results, and
  of the in-window records themselves when no query is declared.
\<close>

theorem evalQueries_no_skip:
  "evalQueries lib qs w = Inr r \<longleftrightarrow>
     (\<forall>q \<in> set qs. q_Expression q \<noteq> [] \<and> q_Language q \<in> SupportedQueryLanguages
        \<and> (\<exists>res \<in> result_values. evalQuery lib w q = Inr res))
     \<and> r = precedence (if qs = [] then iw_result ` set w else {res. \<exists>q \<in> set qs. evalQuery lib w q = Inr res})"
proof (cases "qs = []")
  case True
  then show ?thesis by (auto simp: evalQueries_def computeResult_spec)
next
  case False
  have guard: "q_Expression q \<noteq> [] \<and> q_Language q \<in> SupportedQueryLanguages \<and> res \<in> result_values"
    if "evalQuery lib w q = Inr res" for q res
    using that evalQuery_values [OF that] by (auto simp: evalQuery_def split: if_splits)
  let ?ok = "\<forall>q \<in> set qs. \<exists>res. evalQuery lib w q = Inr res"
  have "evalQueries lib qs w = Inr r \<longleftrightarrow>
      ?ok \<and> r = computeResult (map (\<lambda>q. result_only (projr (evalQuery lib w q))) qs)"
    using False query_loop_ok [of qs "evalQuery lib w"] query_loop_Inr_iff [of "evalQuery lib w" qs]
    by (cases ?ok; cases "query_loop (evalQuery lib w) qs") (auto simp: evalQueries_def)
  moreover have "iw_result ` set (map (\<lambda>q. result_only (projr (evalQuery lib w q))) qs) =
      {res. \<exists>q \<in> set qs. evalQuery lib w q = Inr res}" if ?ok
    using that by force
  moreover have "?ok \<longleftrightarrow> (\<forall>q \<in> set qs. q_Expression q \<noteq> [] \<and> q_Language q \<in> SupportedQueryLanguages
      \<and> (\<exists>res \<in> result_values. evalQuery lib w q = Inr res))"
    using guard by blast
  ultimately show ?thesis using False unfolding computeResult_spec by auto
qed

theorem evalQueries_no_skip_witness:
  "evalQueries \<lparr>el_opa = (\<lambda>_ _. OpaString ''pass''), el_sql = (\<lambda>_ _. SqlFailed),
      el_marshal_records = (\<lambda>_. None), el_jsonpath = (\<lambda>_. None), el_jsonpath_late = (\<lambda>_. False),
      el_json = (\<lambda>_. None), el_parse_queries = (\<lambda>_. None), el_uuid_string = (\<lambda>_. [])\<rparr>
     [\<lparr>q_Language = ''rego'', q_Expression = ''p''\<rparr>] [] = Inr ResultPass"
  unfolding evalQueries_no_skip
  by (simp add: evalQuery_def SupportedQueryLanguages_def evalRegoQuery_def result_values_def precedence_def eval_consts)


definition demo_query_lib :: eval_lib where
  "demo_query_lib = \<lparr>el_opa = (\<lambda>_ _. OpaUndefined), el_sql = (\<lambda>_ _. SqlRows [[SqlBool True]] False),
     el_marshal_records = (\<lambda>_. Some ''[]''), el_jsonpath = (\<lambda>_. None), el_jsonpath_late = (\<lambda>_. False),
     el_json = (\<lambda>_. None), el_parse_queries = (\<lambda>_. None), el_uuid_string = (\<lambda>_. [])\<rparr>"


text \<open>
  The static guard reports a schema-qualified name only when the schema is written
  unquoted and the dot follows it at once. A quoted schema name passes: the guard accepts a
  query that reads a base table of the \<open>public\<close> schema, which an empty
  \<open>search_path\<close> does not prevent, while it rejects the same query unquoted.
\<close>

theorem sql_guard_quoted_schema:
  "validateSQLEvidenceQuery
     (''select result from '' @ [CHR 0x22] @ ''public'' @ [CHR 0x22] @ ''.evidence_records'') = None
   \<and> validateSQLEvidenceQuery ''select result from public.evidence_records'' = Some ErrSQLQuery"
proof
  show "validateSQLEvidenceQuery
     (''select result from '' @ [CHR 0x22] @ ''public'' @ [CHR 0x22] @ ''.evidence_records'') = None"
    by code_simp
  show "validateSQLEvidenceQuery ''select result from public.evidence_records'' = Some ErrSQLQuery"
    by code_simp
qed

end
