(* ===== verification/Eval_Engine.thy ===== *)
theory Eval_Engine
  imports Complex_Main Eval_Query
begin

text \<open>
  The evaluation engine of \<open>internal/eval\<close>: its database surface (\<open>store.go\<close>), the
  orchestration (\<open>engine.go\<close>), the read side (\<open>query.go\<close>) and the effectiveness
  score (\<open>effectiveness.go\<close>), over the queries of
  \<open>internal/db/queries/control_evaluations.sql\<close> and the constraints of the
  \<open>control_evaluations\<close> table.

  The engine's scope-cell resolver is an argument, as it is an interface in the source; its
  contract is the locale \<open>cell_resolver\<close>, which the scope store satisfies. One call of
  \<open>EvaluateControl\<close> draws identifiers and reads two clocks; the record \<open>eval_draw\<close>
  holds them, with the contexts of its two transactions. PostgreSQL may return the
  rows of a tie in an \<open>ORDER BY\<close> in any order; the model keeps the table's order.
\<close>

record evidence_row =
  ev_ID :: uuid
  ev_TenantID :: uuid
  ev_ControlID :: "uuid option"
  ev_ControlRef :: string
  ev_ObservedAt :: gotime
  ev_Result :: string
  ev_Payload :: bytes
  ev_Hash :: string
  ev_ScopeID :: "uuid option"
  ev_IngestedAt :: gotime
  ev_Provenance :: bytes
  ev_PayloadUri :: "string option"
  ev_FreshnessClass :: string
  ev_ValidUntil :: "gotime option"
  ev_IdempotencyKey :: "string option"
  ev_EvidenceKind :: "string option"
  ev_SchemaVersion :: "string option"
  ev_CredentialID :: "string option"
  ev_IngestionPath :: string
  ev_SourceAttribution :: bytes
  ev_ScopeCanonical :: "bytes option"
  ev_ObservedAtNanos :: "64 word option"

record evaluation =
  ce_ID :: uuid
  ce_TenantID :: uuid
  ce_ControlID :: uuid
  ce_ScopeCellID :: "uuid option"
  ce_EvalRunID :: uuid
  ce_EvaluatedAt :: gotime
  ce_Result :: string
  ce_FreshnessStatus :: string
  ce_EvidenceCountInWindow :: int
  ce_LastObservedAt :: "gotime option"
  ce_FreshnessClass :: "string option"
  ce_Trigger :: string
  ce_CreatedAt :: gotime

record eval_db = scope_db +
  db_evidence :: "evidence_row list"
  db_evaluations :: "evaluation list"

record controlMeta =
  cm_id :: uuid
  cm_freshnessClass :: string
  cm_implementationType :: string
  cm_queries :: "evidenceQuery list"

record evaluationRow =
  er_controlID :: uuid
  er_scopeCellID :: "uuid option"
  er_evalRunID :: uuid
  er_result :: string
  er_freshnessStatus :: string
  er_evidenceCountInWindow :: nat
  er_lastObservedAt :: "gotime option"
  er_freshnessClass :: string
  er_trigger :: string

record eval_draw =
  dr_cells_env :: txenv
  dr_env :: txenv
  dr_run :: uuid
  dr_row :: "nat \<Rightarrow> uuid"
  dr_now :: gotime
  dr_dbnow :: gotime

datatype eval_error =
    ErrControlNotFound
  | ResolveCells "scope_store_error err"
  | ParseEvidenceQueries
  | QueryError query_error
  | AppendFailed pg_error
  | ErrBadScopePredicate scope_error

definition TriggerIngest :: string where "TriggerIngest = ''ingest''"
definition TriggerScheduled :: string where "TriggerScheduled = ''scheduled''"
definition TriggerManual :: string where "TriggerManual = ''manual''"
definition TriggerReplay :: string where "TriggerReplay = ''replay''"

definition trigger_values :: "string set" where
  "trigger_values = {TriggerIngest, TriggerScheduled, TriggerManual, TriggerReplay}"


section \<open>Queries\<close>

text \<open>\<open>pgTimestamptz\<close> turns the zero time into NULL, with which no row compares.\<close>

definition pgTimestamptz :: "gotime \<Rightarrow> gotime option" where
  "pgTimestamptz t = (if t = 0 then None else Some t)"

definition sql_le :: "gotime \<Rightarrow> gotime option \<Rightarrow> bool" where
  "sql_le a b = (case b of None \<Rightarrow> False | Some x \<Rightarrow> a \<le> x)"

definition sql_ge :: "gotime \<Rightarrow> gotime option \<Rightarrow> bool" where
  "sql_ge a b = (case b of None \<Rightarrow> False | Some x \<Rightarrow> x \<le> a)"

definition GetControlByID :: "uuid \<Rightarrow> uuid \<Rightarrow> 'z scope_db_scheme \<Rightarrow> control_row option" where
  "GetControlByID t cid db =
     List.find (\<lambda>r. ctl_TenantID r = t \<and> ctl_ID r = cid) (db_controls db)"

definition ListActiveControls :: "uuid \<Rightarrow> 'z scope_db_scheme \<Rightarrow> control_row list" where
  "ListActiveControls t db =
     sort_key ctl_BundleID
       (filter (\<lambda>r. ctl_TenantID r = t \<and> ctl_SupersededBy r = None) (db_controls db))"

definition ListTenantsWithActiveControls :: "'z scope_db_scheme \<Rightarrow> uuid list" where
  "ListTenantsWithActiveControls db =
     remdups (map ctl_TenantID (filter (\<lambda>r. ctl_SupersededBy r = None) (db_controls db)))"

definition ListEvidenceForControlAsOf ::
  "uuid \<Rightarrow> uuid \<Rightarrow> string \<Rightarrow> gotime option \<Rightarrow> 'z eval_db_scheme \<Rightarrow> evidence_row list" where
  "ListEvidenceForControlAsOf t cid ref asOf db =
     sort_key (\<lambda>r. - ev_ObservedAt r)
       (filter (\<lambda>r. ev_TenantID r = t \<and> (ev_ControlID r = Some cid \<or> ev_ControlRef r = ref)
                    \<and> sql_le (ev_ObservedAt r) asOf) (db_evidence db))"

text \<open>The constraints of the table that a row can violate.\<close>

definition evaluation_checks :: "evaluation \<Rightarrow> bool" where
  "evaluation_checks r \<longleftrightarrow>
     ce_FreshnessStatus r \<in> {FreshnessFresh, FreshnessStale, FreshnessNoEvidence}
     \<and> ce_Trigger r \<in> trigger_values
     \<and> 0 \<le> ce_EvidenceCountInWindow r
     \<and> (ce_FreshnessStatus r \<noteq> FreshnessNoEvidence
        \<or> (ce_EvidenceCountInWindow r = 0 \<and> ce_Result r = ResultInconclusive))"

definition evaluation_fks :: "evaluation \<Rightarrow> 'z scope_db_scheme \<Rightarrow> bool" where
  "evaluation_fks r db \<longleftrightarrow>
     (\<exists>c \<in> set (db_controls db). ctl_TenantID c = ce_TenantID r \<and> ctl_ID c = ce_ControlID r)
     \<and> (case ce_ScopeCellID r of None \<Rightarrow> True
        | Some cell \<Rightarrow> \<exists>c \<in> set (db_cells db). cr_TenantID c = ce_TenantID r \<and> cr_ID c = cell)"

definition InsertControlEvaluation ::
  "evaluation \<Rightarrow> gotime option \<Rightarrow> 'z eval_db_scheme \<Rightarrow> pg_error + 'z eval_db_scheme" where
  "InsertControlEvaluation row evaluatedAt db =
     (if ce_Result row \<notin> result_values then Inl InvalidTextRepresentation
      else if evaluatedAt = None then Inl NotNullViolation
      else if \<not> evaluation_checks row then Inl CheckViolation
      else if ce_ID row \<in> ce_ID ` set (db_evaluations db) then Inl UniqueViolation
      else if \<not> evaluation_fks row db then Inl ForeignKeyViolation
      else Inr (db\<lparr>db_evaluations := db_evaluations db @ [row]\<rparr>))"

text \<open>NULL cells sort last; within a cell the newest evaluation comes first.\<close>

definition evaluation_order :: "evaluation \<Rightarrow> (bool \<times> uuid) \<times> gotime \<times> gotime" where
  "evaluation_order r =
     ((ce_ScopeCellID r = None, case ce_ScopeCellID r of None \<Rightarrow> 0 | Some c \<Rightarrow> c),
      - ce_EvaluatedAt r, - ce_CreatedAt r)"

definition ListLatestControlEvaluations ::
  "uuid \<Rightarrow> uuid \<Rightarrow> gotime option \<Rightarrow> 'z eval_db_scheme \<Rightarrow> evaluation list" where
  "ListLatestControlEvaluations t cid asOf db =
     sql_distinct_on ce_ScopeCellID
       (sort_key evaluation_order
         (filter (\<lambda>r. ce_TenantID r = t \<and> ce_ControlID r = cid \<and> sql_le (ce_EvaluatedAt r) asOf)
           (db_evaluations db)))"

definition ListControlEvaluationsForEffectiveness ::
  "uuid \<Rightarrow> uuid \<Rightarrow> gotime option \<Rightarrow> gotime option \<Rightarrow> 'z eval_db_scheme \<Rightarrow> evaluation list" where
  "ListControlEvaluationsForEffectiveness t cid since until db =
     sort_key (\<lambda>r. - ce_EvaluatedAt r)
       (filter (\<lambda>r. ce_TenantID r = t \<and> ce_ControlID r = cid
                    \<and> sql_ge (ce_EvaluatedAt r) since \<and> sql_le (ce_EvaluatedAt r) until)
         (db_evaluations db))"


section \<open>The store\<close>

definition parseEvidenceQueries :: "eval_lib \<Rightarrow> bytes \<Rightarrow> evidenceQuery list option" where
  "parseEvidenceQueries lib b = (if b = [] then Some [] else el_parse_queries lib b)"

definition loadControl :: "eval_lib \<Rightarrow> uuid \<Rightarrow> uuid \<Rightarrow> 'z scope_db_scheme \<Rightarrow> eval_error + controlMeta" where
  "loadControl lib t cid db =
     (case GetControlByID t cid db of
        None \<Rightarrow> Inl ErrControlNotFound
      | Some row \<Rightarrow>
        (case parseEvidenceQueries lib (ctl_EvidenceQueries row) of
           None \<Rightarrow> Inl ParseEvidenceQueries
         | Some queries \<Rightarrow>
           Inr \<lparr>cm_id = cid,
                cm_freshnessClass = (case ctl_FreshnessClass row of None \<Rightarrow> [] | Some c \<Rightarrow> c),
                cm_implementationType = ctl_ImplementationType row,
                cm_queries = queries\<rparr>))"

definition loadEvidence ::
  "uuid \<Rightarrow> uuid \<Rightarrow> string \<Rightarrow> gotime \<Rightarrow> 'z eval_db_scheme \<Rightarrow> allRecord list" where
  "loadEvidence t cid controlRef asOf db =
     map (\<lambda>r. \<lparr>ar_observedAt = ev_ObservedAt r, ar_result = ev_Result r, ar_payload = ev_Payload r\<rparr>)
       (ListEvidenceForControlAsOf t cid controlRef (pgTimestamptz asOf) db)"

definition int32 :: "nat \<Rightarrow> int" where
  "int32 n = sint (word_of_nat n :: 32 word)"

definition evaluation_of ::
  "uuid \<Rightarrow> uuid \<Rightarrow> gotime \<Rightarrow> gotime \<Rightarrow> evaluationRow \<Rightarrow> evaluation" where
  "evaluation_of newID t evaluatedAt dbnow row =
     \<lparr>ce_ID = newID, ce_TenantID = t, ce_ControlID = er_controlID row,
      ce_ScopeCellID = er_scopeCellID row, ce_EvalRunID = er_evalRunID row,
      ce_EvaluatedAt = evaluatedAt, ce_Result = er_result row,
      ce_FreshnessStatus = er_freshnessStatus row,
      ce_EvidenceCountInWindow = int32 (er_evidenceCountInWindow row),
      ce_LastObservedAt = (case er_lastObservedAt row of None \<Rightarrow> None | Some l \<Rightarrow> pgTimestamptz l),
      ce_FreshnessClass = (if er_freshnessClass row = [] then None else Some (er_freshnessClass row)),
      ce_Trigger = er_trigger row, ce_CreatedAt = dbnow\<rparr>"

definition appendEvaluation ::
  "uuid \<Rightarrow> gotime \<Rightarrow> uuid \<Rightarrow> evaluationRow \<Rightarrow> gotime \<Rightarrow> 'z eval_db_scheme \<Rightarrow> eval_error + 'z eval_db_scheme" where
  "appendEvaluation newID dbnow t row evaluatedAt db =
     (case InsertControlEvaluation (evaluation_of newID t evaluatedAt dbnow row)
             (pgTimestamptz evaluatedAt) db of
        Inl e \<Rightarrow> Inl (AppendFailed e) | Inr db' \<Rightarrow> Inr db')"


section \<open>The engine\<close>

definition computeRow ::
  "eval_lib \<Rightarrow> controlMeta \<Rightarrow> allRecord list \<Rightarrow> uuid option \<Rightarrow> uuid \<Rightarrow> string \<Rightarrow> gotime \<Rightarrow>
   query_error + evaluationRow" where
  "computeRow lib meta records cellID evalRunID trigger now =
     (let inWindow = inWindowRecords records (cm_freshnessClass meta) now;
          freshness = computeFreshness records (cm_freshnessClass meta) now
      in (case evalQueries lib (cm_queries meta) inWindow of
            Inl e \<Rightarrow> Inl e
          | Inr res \<Rightarrow>
              (let result = (if freshness = FreshnessNoEvidence then ResultInconclusive else res);
                   latest = latestObservedAt records
               in Inr \<lparr>er_controlID = cm_id meta, er_scopeCellID = cellID, er_evalRunID = evalRunID,
                       er_result = result, er_freshnessStatus = freshness,
                       er_evidenceCountInWindow = length inWindow,
                       er_lastObservedAt = (if latest \<noteq> 0 then Some latest else None),
                       er_freshnessClass = cm_freshnessClass meta, er_trigger = trigger\<rparr>)))"

definition eval_targets :: "cell list \<Rightarrow> uuid option list" where
  "eval_targets cells = (if cells = [] then [None] else map (\<lambda>c. Some (c_ID c)) cells)"

fun append_rows ::
  "eval_lib \<Rightarrow> eval_draw \<Rightarrow> controlMeta \<Rightarrow> allRecord list \<Rightarrow> string \<Rightarrow> uuid \<Rightarrow> nat \<Rightarrow> uuid option list \<Rightarrow>
   'z eval_db_scheme \<Rightarrow> eval_error + nat \<times> 'z eval_db_scheme" where
  "append_rows lib dr meta records trigger t written [] db = Inr (written, db)"
| "append_rows lib dr meta records trigger t written (cellID # targets) db =
     (case computeRow lib meta records cellID (dr_run dr) trigger (dr_now dr) of
        Inl e \<Rightarrow> Inl (QueryError e)
      | Inr row \<Rightarrow>
        (case appendEvaluation (dr_row dr written) (dr_dbnow dr) t row (dr_now dr) db of
           Inl e \<Rightarrow> Inl e
         | Inr db' \<Rightarrow> append_rows lib dr meta records trigger t (Suc written) targets db'))"

type_synonym 'db resolver = "txenv \<Rightarrow> uuid \<Rightarrow> 'db \<Rightarrow> scope_store_error err + cell list"

definition EvaluateControl ::
  "eval_lib \<Rightarrow> 'z eval_db_scheme resolver \<Rightarrow> eval_draw \<Rightarrow> uuid \<Rightarrow> string \<Rightarrow> gotime \<Rightarrow> 'z eval_db_scheme \<Rightarrow>
   (eval_error err + nat) \<times> 'z eval_db_scheme" where
  "EvaluateControl lib resolve dr controlID trigger asOf db =
     (case resolve (dr_cells_env dr) controlID db of
        Inl e \<Rightarrow> (Inl (Dom (ResolveCells e)), db)
      | Inr cells \<Rightarrow>
        inTx (dr_env dr) (\<lambda>t db0.
          (case loadControl lib t controlID db0 of
             Inl e \<Rightarrow> Inl e
           | Inr meta \<Rightarrow>
             (let records = loadEvidence t controlID (el_uuid_string lib controlID) asOf db0
              in append_rows lib dr meta records trigger t 0 (eval_targets cells) db0))) db)"

fun evaluate_controls ::
  "eval_lib \<Rightarrow> 'z eval_db_scheme resolver \<Rightarrow> (uuid \<Rightarrow> eval_draw) \<Rightarrow> string \<Rightarrow> gotime \<Rightarrow> nat \<Rightarrow> uuid list \<Rightarrow>
   'z eval_db_scheme \<Rightarrow> (eval_error err + nat) \<times> 'z eval_db_scheme" where
  "evaluate_controls lib resolve draw trigger asOf sum_rows [] db = (Inr sum_rows, db)"
| "evaluate_controls lib resolve draw trigger asOf sum_rows (cid # ids) db =
     (case EvaluateControl lib resolve (draw cid) cid trigger asOf db of
        (Inl e, db') \<Rightarrow> (Inl e, db')
      | (Inr n, db') \<Rightarrow> evaluate_controls lib resolve draw trigger asOf (sum_rows + n) ids db')"

definition EvaluateAll ::
  "eval_lib \<Rightarrow> 'z eval_db_scheme resolver \<Rightarrow> txenv \<Rightarrow> (uuid \<Rightarrow> eval_draw) \<Rightarrow> string \<Rightarrow> gotime \<Rightarrow>
   'z eval_db_scheme \<Rightarrow> (eval_error err + nat) \<times> 'z eval_db_scheme" where
  "EvaluateAll lib resolve env draw trigger asOf db =
     (case inTx env (\<lambda>t db0. Inr (map ctl_ID (ListActiveControls t db0), db0)) db of
        (Inl e, db') \<Rightarrow> (Inl e, db')
      | (Inr controlIDs, db') \<Rightarrow> evaluate_controls lib resolve draw trigger asOf 0 controlIDs db')"

definition Replay ::
  "eval_lib \<Rightarrow> 'z eval_db_scheme resolver \<Rightarrow> txenv \<Rightarrow> (uuid \<Rightarrow> eval_draw) \<Rightarrow> gotime \<Rightarrow>
   'z eval_db_scheme \<Rightarrow> (eval_error err + nat) \<times> 'z eval_db_scheme" where
  "Replay lib resolve env draw asOf = EvaluateAll lib resolve env draw TriggerReplay asOf"


section \<open>The read side\<close>

record State =
  st_ControlID :: uuid
  st_ScopeCellID :: "uuid option"
  st_Result :: string
  st_FreshnessStatus :: string
  st_EvidenceCountInWindow :: int
  st_LastObservedAt :: "gotime option"
  st_EvaluatedAt :: gotime
  st_FreshnessClass :: string
  st_Trigger :: string

definition stateFromRow :: "evaluation \<Rightarrow> State" where
  "stateFromRow r =
     \<lparr>st_ControlID = ce_ControlID r, st_ScopeCellID = ce_ScopeCellID r, st_Result = ce_Result r,
      st_FreshnessStatus = ce_FreshnessStatus r,
      st_EvidenceCountInWindow = ce_EvidenceCountInWindow r,
      st_LastObservedAt = ce_LastObservedAt r, st_EvaluatedAt = ce_EvaluatedAt r,
      st_FreshnessClass = (case ce_FreshnessClass r of None \<Rightarrow> [] | Some c \<Rightarrow> c),
      st_Trigger = ce_Trigger r\<rparr>"

definition mustListCells :: "scope_store_error err + cell list \<Rightarrow> cell list" where
  "mustListCells listed = (case listed of Inr cells \<Rightarrow> cells | Inl _ \<Rightarrow> [])"

definition allowed_state :: "uuid set option \<Rightarrow> State \<Rightarrow> bool" where
  "allowed_state allow st =
     (case allow of None \<Rightarrow> True
      | Some ids \<Rightarrow> (case st_ScopeCellID st of None \<Rightarrow> True | Some c \<Rightarrow> c \<in> ids))"

definition read_states ::
  "eval_lib \<Rightarrow> txenv \<Rightarrow> uuid \<Rightarrow> uuid set option \<Rightarrow> gotime \<Rightarrow> 'z eval_db_scheme \<Rightarrow>
   (eval_error err + State list) \<times> 'z eval_db_scheme" where
  "read_states lib env controlID allow asOf db =
     inTx env (\<lambda>t db0.
       (case loadControl lib t controlID db0 of
          Inl e \<Rightarrow> Inl e
        | Inr _ \<Rightarrow>
          Inr (filter (allowed_state allow)
                 (map stateFromRow (ListLatestControlEvaluations t controlID (pgTimestamptz asOf) db0)),
               db0))) db"

text \<open>\<open>listed\<close> is what the resolver's \<open>ListCells\<close> returns.\<close>

definition ControlState ::
  "eval_lib \<Rightarrow> (bytes \<Rightarrow> string + node) \<Rightarrow> txenv \<Rightarrow> scope_store_error err + cell list \<Rightarrow> uuid \<Rightarrow> string \<Rightarrow> gotime \<Rightarrow>
   'z eval_db_scheme \<Rightarrow> (eval_error err + State list) \<times> 'z eval_db_scheme" where
  "ControlState lib unmarshal env listed controlID scopePredicate asOf db =
     (if scopePredicate = [] then read_states lib env controlID None asOf db
      else
        (case Evaluate unmarshal scopePredicate (mustListCells listed) of
           Inl e \<Rightarrow> (Inl (Dom (ErrBadScopePredicate e)), db)
         | Inr cells \<Rightarrow> read_states lib env controlID (Some (c_ID ` set cells)) asOf db))"

definition EffectivenessWindow :: duration where
  "EffectivenessWindow = days 30"

text \<open>\<open>eff_PassRate\<close> is the exact quotient of which the code returns the nearest \<open>float64\<close>.\<close>

record Effectiveness =
  eff_ControlID :: uuid
  eff_PassRate :: rat
  eff_PassCount :: nat
  eff_TotalCount :: nat
  eff_WindowStart :: gotime
  eff_WindowEnd :: gotime

definition Effectiveness_of ::
  "eval_lib \<Rightarrow> txenv \<Rightarrow> gotime \<Rightarrow> uuid \<Rightarrow> 'z eval_db_scheme \<Rightarrow> (eval_error err + Effectiveness) \<times> 'z eval_db_scheme" where
  "Effectiveness_of lib env now controlID db =
     (let windowEnd = now; windowStart = now - EffectivenessWindow in
      inTx env (\<lambda>t db0.
        (case loadControl lib t controlID db0 of
           Inl e \<Rightarrow> Inl e
         | Inr _ \<Rightarrow>
           (let rows = ListControlEvaluationsForEffectiveness t controlID
                         (pgTimestamptz windowStart) (pgTimestamptz windowEnd) db0;
                sum_rows = length rows;
                pass = length (filter (\<lambda>r. ce_Result r = ResultPass) rows)
            in Inr (\<lparr>eff_ControlID = controlID,
                     eff_PassRate = (if sum_rows > 0 then rat_of_nat pass / rat_of_nat sum_rows else 0),
                     eff_PassCount = pass, eff_TotalCount = sum_rows,
                     eff_WindowStart = windowStart, eff_WindowEnd = windowEnd\<rparr>, db0)))) db)"


section \<open>Lemmas on one row\<close>

lemma computeRow_Inr_iff:
  "computeRow lib meta records cellID run trigger now = Inr row \<longleftrightarrow>
     (\<exists>res. evalQueries lib (cm_queries meta) (inWindowRecords records (cm_freshnessClass meta) now) = Inr res
        \<and> row = \<lparr>er_controlID = cm_id meta, er_scopeCellID = cellID, er_evalRunID = run,
               er_result = (if records = [] then ResultInconclusive else res),
               er_freshnessStatus = computeFreshness records (cm_freshnessClass meta) now,
               er_evidenceCountInWindow = length (inWindowRecords records (cm_freshnessClass meta) now),
               er_lastObservedAt = (if latestObservedAt records \<noteq> 0 then Some (latestObservedAt records) else None),
               er_freshnessClass = cm_freshnessClass meta, er_trigger = trigger\<rparr>)"
  by (auto simp: computeRow_def Let_def computeFreshness_no_evidence split: sum.splits)

lemma computeRow_cell:
  "computeRow lib meta records c run trigger now = Inr row \<Longrightarrow>
     er_scopeCellID row = c \<and> er_controlID row = cm_id meta \<and> er_trigger row = trigger"
  by (auto simp: computeRow_Inr_iff)

lemma computeRow_succeeds:
  "evalQueries lib (cm_queries meta) (inWindowRecords records (cm_freshnessClass meta) now) = Inr res \<Longrightarrow>
     \<exists>row. computeRow lib meta records cellID run trigger now = Inr row"
  by (simp add: computeRow_Inr_iff)

lemma int32_small: "n < 2 ^ 31 \<Longrightarrow> int32 n = int n"
proof -
  assume "n < 2 ^ 31"
  then have "signed_take_bit 31 (int n) = int n" by (intro signed_take_bit_int_eq_self) auto
  moreover have "(word_of_nat n :: 32 word) = word_of_int (int n)" by simp
  then have "int32 n = signed_take_bit (LENGTH(32) - 1) (int n)"
    unfolding int32_def by (simp only: sint_sbintrunc')
  ultimately show ?thesis by simp
qed

text \<open>Every row the engine computes satisfies the table's constraints.\<close>

lemma computeRow_checks:
  assumes "computeRow lib meta records cellID run trigger now = Inr row"
    and "trigger \<in> trigger_values" and "length records < 2 ^ 31"
  shows "evaluation_checks (evaluation_of newID t evaluatedAt dbnow row) \<and> er_result row \<in> result_values"
proof -
  obtain res where res: "evalQueries lib (cm_queries meta) (inWindowRecords records (cm_freshnessClass meta) now) = Inr res"
    and row: "row = \<lparr>er_controlID = cm_id meta, er_scopeCellID = cellID, er_evalRunID = run,
               er_result = (if records = [] then ResultInconclusive else res),
               er_freshnessStatus = computeFreshness records (cm_freshnessClass meta) now,
               er_evidenceCountInWindow = length (inWindowRecords records (cm_freshnessClass meta) now),
               er_lastObservedAt = (if latestObservedAt records \<noteq> 0 then Some (latestObservedAt records) else None),
               er_freshnessClass = cm_freshnessClass meta, er_trigger = trigger\<rparr>"
    using assms(1) unfolding computeRow_Inr_iff by blast
  have "length (inWindowRecords records (cm_freshnessClass meta) now) < 2 ^ 31"
    using length_inWindowRecords [of records "cm_freshnessClass meta" now] assms(3) by linarith
  then have count: "int32 (length (inWindowRecords records (cm_freshnessClass meta) now)) =
      int (length (inWindowRecords records (cm_freshnessClass meta) now))"
    by (rule int32_small)
  have "res \<in> result_values" using evalQueries_values [OF res] .
  then show ?thesis
    using assms(2) computeFreshness_values [of records "cm_freshnessClass meta" now]
    by (simp add: row evaluation_checks_def evaluation_of_def count computeFreshness_no_evidence
        result_values_def)
qed

text \<open>The rows one run appends, as a function of the targets.\<close>

fun run_rows ::
  "(uuid option \<Rightarrow> evaluationRow) \<Rightarrow> eval_draw \<Rightarrow> uuid \<Rightarrow> nat \<Rightarrow> uuid option list \<Rightarrow> evaluation list" where
  "run_rows row dr t k [] = []"
| "run_rows row dr t k (c # cs) =
     evaluation_of (dr_row dr k) t (dr_now dr) (dr_dbnow dr) (row c) # run_rows row dr t (Suc k) cs"

lemma length_run_rows [simp]: "length (run_rows row dr t k cs) = length cs"
  by (induction cs arbitrary: k) auto

lemma set_run_rowsE:
  assumes "r \<in> set (run_rows row dr t k cs)"
  obtains j c where "k \<le> j" "j < k + length cs" "c \<in> set cs"
    "r = evaluation_of (dr_row dr j) t (dr_now dr) (dr_dbnow dr) (row c)"
proof -
  have "\<exists>j c. k \<le> j \<and> j < k + length cs \<and> c \<in> set cs \<and>
      r = evaluation_of (dr_row dr j) t (dr_now dr) (dr_dbnow dr) (row c)"
    using assms
  proof (induction cs arbitrary: k)
    case (Cons a cs)
    from Cons.prems consider (hd) "r = evaluation_of (dr_row dr k) t (dr_now dr) (dr_dbnow dr) (row a)"
      | (tl) "r \<in> set (run_rows row dr t (Suc k) cs)" by auto
    then show ?case
    proof cases
      case hd
      then show ?thesis by (intro exI [of _ k] exI [of _ a]) simp
    next
      case tl
      from Cons.IH [OF this] obtain j c where "Suc k \<le> j" "j < Suc k + length cs" "c \<in> set cs"
        "r = evaluation_of (dr_row dr j) t (dr_now dr) (dr_dbnow dr) (row c)" by blast
      then show ?thesis by (intro exI [of _ j] exI [of _ c]) simp
    qed
  qed simp
  then show thesis using that by blast
qed

lemma in_run_rows:
  "c \<in> set cs \<Longrightarrow> \<exists>j. evaluation_of (dr_row dr j) t (dr_now dr) (dr_dbnow dr) (row c) \<in> set (run_rows row dr t k cs)"
  by (induction cs arbitrary: k) auto

lemma InsertControlEvaluation_InrD:
  "InsertControlEvaluation row stamp db = Inr db' \<Longrightarrow>
     db' = db\<lparr>db_evaluations := db_evaluations db @ [row]\<rparr> \<and> stamp \<noteq> None
     \<and> evaluation_checks row \<and> evaluation_fks row db"
  by (auto simp: InsertControlEvaluation_def split: if_splits)

lemma evaluation_fks_frame [simp]: "evaluation_fks r (db\<lparr>db_evaluations := x\<rparr>) = evaluation_fks r db"
  by (simp add: evaluation_fks_def split: option.splits)

lemma append_rows_InrD:
  assumes "append_rows lib dr meta records trigger t k cs db = Inr (n, db')"
  shows "n = k + length cs
    \<and> (\<forall>c \<in> set cs. \<exists>row. computeRow lib meta records c (dr_run dr) trigger (dr_now dr) = Inr row)
    \<and> db' = db\<lparr>db_evaluations := db_evaluations db @
        run_rows (\<lambda>c. projr (computeRow lib meta records c (dr_run dr) trigger (dr_now dr))) dr t k cs\<rparr>"
  using assms
proof (induction cs arbitrary: k db)
  case (Cons c cs)
  then obtain row db1 where row: "computeRow lib meta records c (dr_run dr) trigger (dr_now dr) = Inr row"
    and ins: "appendEvaluation (dr_row dr k) (dr_dbnow dr) t row (dr_now dr) db = Inr db1"
    and rest: "append_rows lib dr meta records trigger t (Suc k) cs db1 = Inr (n, db')"
    by (auto split: sum.splits)
  have db1: "db1 = db\<lparr>db_evaluations := db_evaluations db
      @ [evaluation_of (dr_row dr k) t (dr_now dr) (dr_dbnow dr) row]\<rparr>"
    using ins by (auto simp: appendEvaluation_def split: sum.splits dest: InsertControlEvaluation_InrD)
  from Cons.IH [OF rest] row show ?case by (auto simp: db1)
qed auto


lemma disjoint_insert_shift:
  "A \<subseteq> B \<Longrightarrow> x \<notin> A \<Longrightarrow> C = insert x D \<Longrightarrow> B \<inter> D = {} \<Longrightarrow> A \<inter> C = {}"
  by blast

text \<open>Inserting the rows succeeds when the identifiers are fresh and the references resolve.\<close>

lemma append_rows_total:
  assumes "evalQueries lib (cm_queries meta) (inWindowRecords records (cm_freshnessClass meta) (dr_now dr)) = Inr res"
    and "trigger \<in> trigger_values" and "length records < 2 ^ 31" and "dr_now dr \<noteq> 0"
    and "inj_on (dr_row dr) {k..<k + length cs}"
    and "dr_row dr ` {k..<k + length cs} \<inter> ce_ID ` set (db_evaluations db) = {}"
    and "\<exists>c \<in> set (db_controls db). ctl_TenantID c = t \<and> ctl_ID c = cm_id meta"
    and "\<And>cell. Some cell \<in> set cs \<Longrightarrow> \<exists>c \<in> set (db_cells db). cr_TenantID c = t \<and> cr_ID c = cell"
  shows "\<exists>db'. append_rows lib dr meta records trigger t k cs db = Inr (k + length cs, db')"
  using assms(5-8)
proof (induction cs arbitrary: k db)
  case (Cons c cs)
  obtain row where row: "computeRow lib meta records c (dr_run dr) trigger (dr_now dr) = Inr row"
    using computeRow_succeeds [OF assms(1)] by blast
  let ?e = "evaluation_of (dr_row dr k) t (dr_now dr) (dr_dbnow dr) row"
  let ?db1 = "db\<lparr>db_evaluations := db_evaluations db @ [?e]\<rparr>"
  have k: "ce_ID ?e = dr_row dr k" "ce_Result ?e = er_result row" by (simp_all add: evaluation_of_def)
  from computeRow_cell [OF row] have "evaluation_fks ?e db"
    using Cons.prems(3,4) by (auto simp: evaluation_fks_def evaluation_of_def split: option.splits)
  moreover have "dr_row dr k \<in> dr_row dr ` {k..<k + length (c # cs)}" by simp
  then have "dr_row dr k \<notin> ce_ID ` set (db_evaluations db)" using Cons.prems(2) by blast
  ultimately have ins: "appendEvaluation (dr_row dr k) (dr_dbnow dr) t row (dr_now dr) db = Inr ?db1"
    using computeRow_checks [OF row assms(2,3)] assms(4) k
    by (simp add: appendEvaluation_def InsertControlEvaluation_def pgTimestamptz_def)
  have "\<exists>db'. append_rows lib dr meta records trigger t (Suc k) cs ?db1 = Inr (Suc k + length cs, db')"
  proof (rule Cons.IH)
    show "inj_on (dr_row dr) {Suc k..<Suc k + length cs}"
      using Cons.prems(1) by (rule inj_on_subset) auto
    have "dr_row dr ` {Suc k..<Suc k + length cs} \<subseteq> dr_row dr ` {k..<k + length (c # cs)}" by auto
    moreover have "dr_row dr k \<notin> dr_row dr ` {Suc k..<Suc k + length cs}"
    proof
      assume "dr_row dr k \<in> dr_row dr ` {Suc k..<Suc k + length cs}"
      then obtain j where "dr_row dr k = dr_row dr j" "Suc k \<le> j" "j < Suc k + length cs" by auto
      with inj_onD [OF Cons.prems(1), of k j] show False by simp
    qed
    moreover have "ce_ID ` set (db_evaluations ?db1) = insert (dr_row dr k) (ce_ID ` set (db_evaluations db))"
      using k(1) by simp
    ultimately show "dr_row dr ` {Suc k..<Suc k + length cs} \<inter> ce_ID ` set (db_evaluations ?db1) = {}"
      using Cons.prems(2) by (rule disjoint_insert_shift)
  qed (use Cons.prems(3,4) in auto)
  with row ins show ?case by simp
qed simp


section \<open>The resolver contract\<close>

text \<open>
  What the engine relies on when it asks for a control's cells: a resolver that answers
  knows the control in the caller's tenant and returns cells of that tenant. Then the
  foreign keys of the rows always hold, the second lookup of the control always succeeds,
  and a run stops only on a query error or an identifier collision.
\<close>

locale cell_resolver =
  fixes resolve :: "txenv \<Rightarrow> uuid \<Rightarrow> 'z scope_db_scheme \<Rightarrow> scope_store_error err + cell list"
  assumes known: "resolve env cid db = Inr cells \<Longrightarrow>
      \<exists>t. tenant_of env = Some t \<and> (\<exists>c \<in> set (db_controls db). ctl_TenantID c = t \<and> ctl_ID c = cid)"
    and within: "resolve env cid db = Inr cells \<Longrightarrow> tenant_of env = Some t \<Longrightarrow> c \<in> set cells \<Longrightarrow>
      \<exists>r \<in> set (db_cells db). cr_TenantID r = t \<and> cr_ID r = c_ID c"
begin

lemma targets_resolve:
  assumes "resolve env cid db = Inr cells" and "tenant_of env = Some t"
    and "Some cell \<in> set (eval_targets cells)"
  shows "\<exists>r \<in> set (db_cells db). cr_TenantID r = t \<and> cr_ID r = cell"
  using assms(3) within [OF assms(1,2)] by (auto simp: eval_targets_def split: if_splits)

lemma control_loads:
  assumes "resolve env cid db = Inr cells" and "tenant_of env = Some t"
  shows "loadControl lib t cid db \<noteq> Inl ErrControlNotFound"
proof -
  obtain c where "c \<in> set (db_controls db)" "ctl_TenantID c = t" "ctl_ID c = cid"
    using known [OF assms(1)] assms(2) by auto
  then have "GetControlByID t cid db \<noteq> None"
    unfolding GetControlByID_def find_None_iff by blast
  then show ?thesis by (auto simp: loadControl_def split: option.splits)
qed

end

lemma cell_ids_of_tenant:
  assumes "c \<in> set (listCellsInTx sc t db)"
  shows "\<exists>r \<in> set (db_cells db). cr_TenantID r = t \<and> cr_ID r = c_ID c"
  using assms by (auto simp: listCellsInTx_def ListScopeCells_def rowToCell_def)

lemma ControlApplicability_InrD:
  assumes "fst (ControlApplicability sc env cid db) = Inr cells"
  obtains t row where "tenant_of env = Some t" "GetControlApplicabilityExpr t cid db = Some row"
    "set cells \<subseteq> set (listCellsInTx sc t db)"
proof -
  obtain db' where run: "ControlApplicability sc env cid db = (Inr cells, db')"
    using assms by (cases "ControlApplicability sc env cid db") auto
  from run [unfolded ControlApplicability_def] obtain t where t: "tenant_of env = Some t"
    and body: "(case GetControlApplicabilityExpr t cid db of
          None \<Rightarrow> Inl (ScopeControlNotFound cid)
        | Some row \<Rightarrow>
          (let universe = listCellsInTx sc t db in
           if isLegacyTrueExpr (ctl_ApplicabilityExpr row) then Inr (universe, db)
           else
             (case Evaluate (sc_unmarshal sc) (ctl_ApplicabilityExpr row) universe of
                Inl e \<Rightarrow> Inl (ExpressionError e)
              | Inr out \<Rightarrow> Inr (out, db)))) = Inr (cells, db')"
    unfolding inTx_Inr_iff by blast
  from body obtain row where row: "GetControlApplicabilityExpr t cid db = Some row"
    by (cases "GetControlApplicabilityExpr t cid db") auto
  have "set cells \<subseteq> set (listCellsInTx sc t db)"
    using body row scope.never_widens [of "sc_unmarshal sc" "ctl_ApplicabilityExpr row" "listCellsInTx sc t db"]
    by (auto simp: Let_def split: if_splits sum.splits dest: subseq_set)
  with t row show thesis by (rule that)
qed

interpretation scope_resolver: cell_resolver "\<lambda>env cid db. fst (ControlApplicability sc env cid db)" for sc
proof
  fix env cid and db :: "'a scope_db_scheme" and cells
  assume "fst (ControlApplicability sc env cid db) = Inr cells"
  then obtain t row where "tenant_of env = Some t" "GetControlApplicabilityExpr t cid db = Some row"
    by (rule ControlApplicability_InrD)
  then show "\<exists>t. tenant_of env = Some t \<and> (\<exists>c \<in> set (db_controls db). ctl_TenantID c = t \<and> ctl_ID c = cid)"
    by (auto simp: GetControlApplicabilityExpr_def dest!: find_SomeD)
next
  fix env cid and db :: "'a scope_db_scheme" and cells t c
  assume "fst (ControlApplicability sc env cid db) = Inr cells" "tenant_of env = Some t" "c \<in> set cells"
  then show "\<exists>r \<in> set (db_cells db). cr_TenantID r = t \<and> cr_ID r = c_ID c"
    by (elim ControlApplicability_InrD) (auto intro: cell_ids_of_tenant)
qed


lemma EvaluateControl_cases:
  assumes "EvaluateControl lib resolve dr cid trigger asOf db = (r, db')"
  obtains (fail) e where "r = Inl e" "db' = db"
  | (commit) t cells meta where "tenant_of (dr_env dr) = Some t" "tx_ok (dr_env dr)"
      "resolve (dr_cells_env dr) cid db = Inr cells" "loadControl lib t cid db = Inr meta"
      "r = Inr (length (eval_targets cells))"
      "db' = db\<lparr>db_evaluations := db_evaluations db @
         run_rows (\<lambda>c. projr (computeRow lib meta
             (loadEvidence t cid (el_uuid_string lib cid) asOf db) c (dr_run dr) trigger (dr_now dr)))
           dr t 0 (eval_targets cells)\<rparr>"
      "\<And>c. c \<in> set (eval_targets cells) \<Longrightarrow> \<exists>row. computeRow lib meta
             (loadEvidence t cid (el_uuid_string lib cid) asOf db) c (dr_run dr) trigger (dr_now dr) = Inr row"
proof (cases "resolve (dr_cells_env dr) cid db")
  case (Inl e)
  with assms fail [of "Dom (ResolveCells e)"] show ?thesis by (simp add: EvaluateControl_def)
next
  case (Inr cells)
  with assms have "inTx (dr_env dr) (\<lambda>t db0.
      (case loadControl lib t cid db0 of Inl e \<Rightarrow> Inl e
       | Inr meta \<Rightarrow> (let records = loadEvidence t cid (el_uuid_string lib cid) asOf db0
          in append_rows lib dr meta records trigger t 0 (eval_targets cells) db0))) db = (r, db')"
    by (simp add: EvaluateControl_def)
  then show ?thesis
  proof (cases rule: inTx_cases)
    case (commit t n)
    then obtain meta where m: "loadControl lib t cid db = Inr meta"
      "append_rows lib dr meta (loadEvidence t cid (el_uuid_string lib cid) asOf db) trigger t 0
         (eval_targets cells) db = Inr (n, db')"
      by (auto simp: Let_def split: sum.splits)
    from append_rows_InrD [OF m(2)] show ?thesis
      by (intro that(2) [OF commit(2,3) Inr m(1)]) (auto simp: commit(1))
  qed (rule fail)
qed

text \<open>The columns the engine computes, as opposed to the identifiers and stamps it draws.\<close>

definition computed_columns ::
  "evaluation \<Rightarrow> uuid \<times> uuid option \<times> string \<times> string \<times> int \<times> gotime option \<times> string option" where
  "computed_columns r =
     (ce_ControlID r, ce_ScopeCellID r, ce_Result r, ce_FreshnessStatus r, ce_EvidenceCountInWindow r,
      ce_LastObservedAt r, ce_FreshnessClass r)"

text \<open>They depend on the run only through the clock.\<close>

lemma computed_run_rows:
  assumes "dr_now dr = dr_now dr'"
    and "\<And>c. c \<in> set cs \<Longrightarrow> \<exists>row. computeRow lib meta records c (dr_run dr) trigger (dr_now dr) = Inr row"
  shows "map computed_columns (run_rows (\<lambda>c. projr (computeRow lib meta records c (dr_run dr) trigger (dr_now dr))) dr t k cs) =
         map computed_columns (run_rows (\<lambda>c. projr (computeRow lib meta records c (dr_run dr') trigger' (dr_now dr'))) dr' t k cs)"
  using assms
proof (induction cs arbitrary: k)
  case (Cons c cs)
  obtain row where row: "computeRow lib meta records c (dr_run dr) trigger (dr_now dr) = Inr row"
    using Cons.prems(2) [of c] by auto
  then obtain res where res: "evalQueries lib (cm_queries meta) (inWindowRecords records (cm_freshnessClass meta) (dr_now dr)) = Inr res"
    unfolding computeRow_Inr_iff by blast
  obtain row' where row': "computeRow lib meta records c (dr_run dr') trigger' (dr_now dr') = Inr row'"
    using computeRow_succeeds [OF res] Cons.prems(1) by metis
  from row row' res Cons.prems(1) have "computed_columns (evaluation_of i t (dr_now dr) x row) =
      computed_columns (evaluation_of j t (dr_now dr') y row')" for i j x y
    by (auto simp: computeRow_Inr_iff computed_columns_def evaluation_of_def)
  with Cons row row' show ?case by simp
qed simp

lemma ControlApplicability_frame:
  "fst (ControlApplicability sc env cid (db\<lparr>db_evaluations := x\<rparr>)) = fst (ControlApplicability sc env cid db)"
  unfolding ControlApplicability_def inTx_def
  by (simp add: GetControlApplicabilityExpr_def listCellsInTx_def ListScopeCells_def Let_def
      split: sum.splits option.splits)

lemma load_frame [simp]:
  "loadControl lib t cid (db\<lparr>db_evaluations := x\<rparr>) = loadControl lib t cid db"
  "loadEvidence t cid ref asOf (db\<lparr>db_evaluations := x\<rparr>) = loadEvidence t cid ref asOf db"
  by (simp_all add: loadControl_def GetControlByID_def loadEvidence_def ListEvidenceForControlAsOf_def)


abbreviation scope_cells :: "scope_codec \<Rightarrow> 'z scope_db_scheme resolver" where
  "scope_cells sc \<equiv> (\<lambda>env cid db. fst (ControlApplicability sc env cid db))"

lemma run_row_cell:
  assumes "\<And>c. c \<in> set cs \<Longrightarrow> \<exists>row. computeRow lib meta records c run trigger now = Inr row"
    and "r \<in> set (run_rows (\<lambda>c. projr (computeRow lib meta records c run trigger now)) dr t k cs)"
  shows "ce_ScopeCellID r \<in> set cs \<and> ce_TenantID r = t \<and> ce_ControlID r = cm_id meta
    \<and> ce_EvaluatedAt r = dr_now dr
    \<and> (\<exists>row. computeRow lib meta records (ce_ScopeCellID r) run trigger now = Inr row
         \<and> ce_Result r = er_result row \<and> ce_FreshnessStatus r = er_freshnessStatus row
         \<and> ce_Trigger r = trigger)"
  using assms(2)
proof (rule set_run_rowsE)
  fix j c assume c: "c \<in> set cs"
    and r: "r = evaluation_of (dr_row dr j) t (dr_now dr) (dr_dbnow dr) (projr (computeRow lib meta records c run trigger now))"
  obtain row where row: "computeRow lib meta records c run trigger now = Inr row" using assms(1) [OF c] by blast
  from c row r computeRow_cell [OF row] show ?thesis by (simp add: evaluation_of_def)
qed

lemma states_distinct:
  "distinct (map st_ScopeCellID (map stateFromRow (ListLatestControlEvaluations t cid h db)))"
proof -
  have cells: "map st_ScopeCellID (map stateFromRow xs) = map ce_ScopeCellID xs" for xs
    by (simp add: stateFromRow_def)
  show ?thesis unfolding cells ListLatestControlEvaluations_def by (rule distinct_sql_distinct_on)
qed

text \<open>The newest rows of a control are what the read side lists.\<close>

lemma ListLatest_newest:
  assumes "c \<in> ce_ScopeCellID ` set new" and "now \<le> horizon"
    and "\<And>r. r \<in> set new \<Longrightarrow> ce_TenantID r = t \<and> ce_ControlID r = cid \<and> ce_EvaluatedAt r = now"
    and "\<And>r. r \<in> set (db_evaluations db) \<Longrightarrow> ce_TenantID r = t \<Longrightarrow> ce_ControlID r = cid \<Longrightarrow> ce_EvaluatedAt r < now"
  shows "\<exists>r \<in> set (ListLatestControlEvaluations t cid (Some horizon)
            (db\<lparr>db_evaluations := db_evaluations db @ new\<rparr>)). ce_ScopeCellID r = c \<and> r \<in> set new"
proof -
  let ?all = "filter (\<lambda>r. ce_TenantID r = t \<and> ce_ControlID r = cid \<and> sql_le (ce_EvaluatedAt r) (Some horizon))
      (db_evaluations db @ new)"
  let ?s = "sort_key evaluation_order ?all"
  obtain n where n: "n \<in> set new" "ce_ScopeCellID n = c" using assms(1) by auto
  have mem: "n \<in> set ?s" using n(1) assms(2,3) by (auto simp: sql_le_def)
  then have "c \<in> ce_ScopeCellID ` set (sql_distinct_on ce_ScopeCellID ?s)"
    unfolding keys_sql_distinct_on using n(2) by blast
  then obtain r where r: "r \<in> set (sql_distinct_on ce_ScopeCellID ?s)" "ce_ScopeCellID r = c" by blast
  have "evaluation_order r \<le> evaluation_order n"
    by (rule sql_distinct_on_least [OF _ r(1) mem]) (simp_all add: n r)
  then have "ce_EvaluatedAt n \<le> ce_EvaluatedAt r"
    using n(2) r(2) by (auto simp: evaluation_order_def)
  moreover have "r \<in> set ?all" using r(1) set_sql_distinct_on [of ce_ScopeCellID ?s] by auto
  ultimately have "r \<in> set new" using assms(3) [OF n(1)] assms(4) [of r] by auto
  with r show ?thesis by (auto simp: ListLatestControlEvaluations_def)
qed



section \<open>Properties\<close>

definition demo_lib :: eval_lib where
  "demo_lib =
     \<lparr>el_opa = (\<lambda>_ _. OpaUndefined), el_sql = (\<lambda>_ _. SqlRows [] False), el_marshal_records = (\<lambda>_. Some []),
      el_jsonpath = (\<lambda>_. None), el_jsonpath_late = (\<lambda>_. False), el_json = (\<lambda>_. None),
      el_parse_queries = (\<lambda>_. Some []), el_uuid_string = (\<lambda>_. ''u'')\<rparr>"

definition demo_evidence :: "uuid \<Rightarrow> gotime \<Rightarrow> string \<Rightarrow> evidence_row" where
  "demo_evidence i t r =
     \<lparr>ev_ID = i, ev_TenantID = 1, ev_ControlID = Some 7, ev_ControlRef = [], ev_ObservedAt = t,
      ev_Result = r, ev_Payload = [], ev_Hash = [], ev_ScopeID = None, ev_IngestedAt = t, ev_Provenance = [],
      ev_PayloadUri = None, ev_FreshnessClass = ''monthly'', ev_ValidUntil = None, ev_IdempotencyKey = None,
      ev_EvidenceKind = None, ev_SchemaVersion = None, ev_CredentialID = None, ev_IngestionPath = ''push'',
      ev_SourceAttribution = [], ev_ScopeCanonical = None, ev_ObservedAtNanos = None\<rparr>"

lemma demo_evidence_simps [simp]:
  "ev_ID (demo_evidence i t r) = i" "ev_TenantID (demo_evidence i t r) = 1"
  "ev_ControlID (demo_evidence i t r) = Some 7" "ev_ControlRef (demo_evidence i t r) = []"
  "ev_ObservedAt (demo_evidence i t r) = t" "ev_Result (demo_evidence i t r) = r"
  "ev_Payload (demo_evidence i t r) = []" "ev_Hash (demo_evidence i t r) = []"
  by (simp_all add: demo_evidence_def)

definition demo_eval_db :: eval_db where
  "demo_eval_db =
     \<lparr>db_dimensions = [], db_cells = db_cells demo_scope_db, db_controls = [demo_control],
      db_evidence = [demo_evidence 1 (days 10) ResultPass],
      db_evaluations = []\<rparr>"

definition demo_draw :: "uuid \<Rightarrow> gotime \<Rightarrow> eval_draw" where
  "demo_draw run now =
     \<lparr>dr_cells_env = demo_env, dr_env = demo_env, dr_run = run, dr_row = (\<lambda>n. run + word_of_nat n),
      dr_now = now, dr_dbnow = now\<rparr>"

definition demo_resolver :: "eval_db resolver" where
  "demo_resolver env cid db = Inr []"

lemma demo_meta: "loadControl demo_lib 1 7 (demo_eval_db\<lparr>db_evaluations := x\<rparr>) =
    Inr \<lparr>cm_id = 7, cm_freshnessClass = ''daily'', cm_implementationType = ''automated'', cm_queries = []\<rparr>"
  by (simp add: loadControl_def GetControlByID_def demo_eval_db_def demo_control_def parseEvidenceQueries_def)

lemma demo_evaluate:
  "\<exists>db'. EvaluateControl demo_lib demo_resolver (demo_draw 50 (days 11)) 7 TriggerManual (days 20)
     demo_eval_db = (Inr 1, db')"
proof -
  have "\<exists>db'. append_rows demo_lib (demo_draw 50 (days 11))
      \<lparr>cm_id = 7, cm_freshnessClass = ''daily'', cm_implementationType = ''automated'', cm_queries = []\<rparr>
      (loadEvidence 1 7 (el_uuid_string demo_lib 7) (days 20) demo_eval_db) TriggerManual 1 0 [None] demo_eval_db =
      Inr (0 + length [None :: uuid option], db')"
    by (rule append_rows_total)
       (auto simp: evalQueries_def trigger_values_def demo_draw_def demo_eval_db_def demo_control_def
         loadEvidence_def ListEvidenceForControlAsOf_def days_def hours_def)
  then show ?thesis using demo_meta [of "[]"]
    by (auto simp: EvaluateControl_def demo_resolver_def demo_draw_def inTx_run eval_targets_def demo_eval_db_def)
qed

text \<open>
  C18. \<open>EvaluateControl\<close> is append-only and all-or-nothing. When it reports an error
  the database is untouched. When it reports \<open>n\<close> rows it appended exactly \<open>n\<close>
  evaluations, one per applicable cell in order or a single whole-tenant row when no cell
  applies, each the computed row of its cell under this run's identifier and clock, and it
  changed nothing else: in particular it never writes the evidence ledger.
\<close>

theorem EvaluateControl_append_only:
  assumes "EvaluateControl lib resolve dr cid trigger asOf db = (r, db')"
  shows "case r of
      Inl e \<Rightarrow> db' = db
    | Inr n \<Rightarrow> \<exists>t cells meta rows.
        tenant_of (dr_env dr) = Some t \<and> resolve (dr_cells_env dr) cid db = Inr cells
        \<and> loadControl lib t cid db = Inr meta
        \<and> db' = db\<lparr>db_evaluations := db_evaluations db @ rows\<rparr> \<and> length rows = n
        \<and> map ce_ScopeCellID rows = (if cells = [] then [None] else map (\<lambda>c. Some (c_ID c)) cells)
        \<and> (\<forall>e \<in> set rows. ce_TenantID e = t \<and> ce_EvaluatedAt e = dr_now dr
             \<and> (\<exists>row. computeRow lib meta (loadEvidence t cid (el_uuid_string lib cid) asOf db)
                    (ce_ScopeCellID e) (dr_run dr) trigger (dr_now dr) = Inr row
                  \<and> ce_Result e = er_result row \<and> ce_FreshnessStatus e = er_freshnessStatus row))"
  using assms
proof (cases rule: EvaluateControl_cases)
  case (commit t cells meta)
  let ?rec = "loadEvidence t cid (el_uuid_string lib cid) asOf db"
  let ?f = "\<lambda>c. projr (computeRow lib meta ?rec c (dr_run dr) trigger (dr_now dr))"
  let ?rows = "run_rows ?f dr t 0 (eval_targets cells)"
  have cells: "map ce_ScopeCellID (run_rows ?f dr t k cs) = cs" if "set cs \<subseteq> set (eval_targets cells)" for k cs
    using that
  proof (induction cs arbitrary: k)
    case (Cons c cs)
    obtain row where "computeRow lib meta ?rec c (dr_run dr) trigger (dr_now dr) = Inr row"
      using commit(7) [of c] Cons.prems by auto
    with computeRow_cell [OF this] have "er_scopeCellID (?f c) = c" by simp
    with Cons show ?case by (simp add: evaluation_of_def)
  qed simp
  have rows: "\<forall>e \<in> set ?rows. ce_TenantID e = t \<and> ce_EvaluatedAt e = dr_now dr
      \<and> (\<exists>row. computeRow lib meta ?rec (ce_ScopeCellID e) (dr_run dr) trigger (dr_now dr) = Inr row
           \<and> ce_Result e = er_result row \<and> ce_FreshnessStatus e = er_freshnessStatus row)"
    using run_row_cell [OF commit(7)] by blast
  show ?thesis
    unfolding commit(5) sum.case
    by (rule exI [of _ t], rule exI [of _ cells], rule exI [of _ meta], rule exI [of _ ?rows])
       (use commit(1,3,4,6) rows cells [of "eval_targets cells" 0] in \<open>simp add: eval_targets_def\<close>)
qed simp

theorem EvaluateControl_append_only_witness:
  "\<exists>rows. EvaluateControl demo_lib demo_resolver (demo_draw 50 (days 11)) 7 TriggerManual (days 20) demo_eval_db
     = (Inr 1, demo_eval_db\<lparr>db_evaluations := rows\<rparr>) \<and> length rows = 1"
proof -
  obtain db' where run: "EvaluateControl demo_lib demo_resolver (demo_draw 50 (days 11)) 7 TriggerManual (days 20)
      demo_eval_db = (Inr 1, db')" using demo_evaluate by blast
  from EvaluateControl_append_only [OF run] obtain rows where
    "db' = demo_eval_db\<lparr>db_evaluations := db_evaluations demo_eval_db @ rows\<rparr>" "length rows = 1" by auto
  with run show ?thesis by (auto simp: demo_eval_db_def)
qed

text \<open>
  C19. Evaluation cannot get stuck. With the scope store as resolver and working
  transactions, a control that resolves, whose queries all evaluate and whose ledger slice
  has fewer than \<open>2\<^sup>3\<^sup>1\<close> records is always evaluated, given a legal trigger,
  a non-zero clock and fresh identifiers: every row satisfies the table's CHECK constraints
  (the coherence of no-evidence rows among them), the 32-bit count does not wrap, and both
  foreign keys resolve.
\<close>

theorem EvaluateControl_succeeds:
  assumes "fst (ControlApplicability sc (dr_cells_env dr) cid db) = Inr cells"
    and "tenant_of (dr_cells_env dr) = tenant_of (dr_env dr)" and "tx_ok (dr_env dr)"
    and "tenant_of (dr_env dr) = Some t" and "loadControl lib t cid db = Inr meta"
    and "evalQueries lib (cm_queries meta) (inWindowRecords (loadEvidence t cid (el_uuid_string lib cid) asOf db)
           (cm_freshnessClass meta) (dr_now dr)) = Inr res"
    and "length (loadEvidence t cid (el_uuid_string lib cid) asOf db) < 2 ^ 31"
    and "trigger \<in> trigger_values" and "dr_now dr \<noteq> 0"
    and "inj_on (dr_row dr) {0..<length (eval_targets cells)}"
    and "dr_row dr ` {0..<length (eval_targets cells)} \<inter> ce_ID ` set (db_evaluations db) = {}"
  shows "\<exists>db'. EvaluateControl lib (scope_cells sc) dr cid trigger asOf db = (Inr (length (eval_targets cells)), db')"
proof -
  have id: "cm_id meta = cid" using assms(5) by (auto simp: loadControl_def split: option.splits)
  have tc: "tenant_of (dr_cells_env dr) = Some t" using assms(2,4) by simp
  have "\<exists>c \<in> set (db_controls db). ctl_TenantID c = t \<and> ctl_ID c = cm_id meta"
    using scope_resolver.known [OF assms(1)] tc id by auto
  then have "\<exists>db'. append_rows lib dr meta (loadEvidence t cid (el_uuid_string lib cid) asOf db) trigger t 0
      (eval_targets cells) db = Inr (0 + length (eval_targets cells), db')"
    using assms(6-11) scope_resolver.targets_resolve [OF assms(1) tc]
    by (intro append_rows_total) simp_all
  with assms(1,3,4,5) show ?thesis by (auto simp: EvaluateControl_def inTx_run)
qed

lemma demo_eval_cells: "fst (ControlApplicability demo_codec demo_env 7 demo_eval_db) =
    Inr [\<lparr>c_ID = 20, c_TenantID = 1, c_Label = ''a'', c_Dimensions = []\<rparr>]"
proof -
  have "isLegacyTrueExpr ''true''" by code_simp
  then show ?thesis
    by (simp add: ControlApplicability_def inTx_run scope_queries demo_eval_db_def demo_scope_db_def
        demo_control_def listCellsInTx_def rowToCell_def demo_codec_def)
qed

theorem EvaluateControl_succeeds_witness:
  "\<exists>db'. EvaluateControl demo_lib (scope_cells demo_codec) (demo_draw 50 (days 11)) 7 TriggerManual (days 20)
     demo_eval_db = (Inr 1, db')"
proof -
  let ?c = "[\<lparr>c_ID = 20, c_TenantID = 1, c_Label = ''a'', c_Dimensions = []\<rparr>]"
  have "fst (ControlApplicability demo_codec (dr_cells_env (demo_draw 50 (days 11))) 7 demo_eval_db) = Inr ?c"
    using demo_eval_cells by (simp add: demo_draw_def)
  from EvaluateControl_succeeds [OF this, of 1 demo_lib _ "days 20" _ TriggerManual] show ?thesis
    using demo_meta [of "[]"]
    by (simp add: demo_draw_def evalQueries_def trigger_values_def eval_targets_def loadEvidence_def
        ListEvidenceForControlAsOf_def demo_eval_db_def days_def hours_def)
qed


text \<open>
  Replay. Whatever evaluations are stored, two runs over the same ledger, controls
  and cells at the same clock reading append rows with the same computed columns (control,
  cell, result, freshness, count, last observation, freshness class), in the same order:
  run and row identifiers, triggers and the database clock never leak into the state.
  Deleting every evaluation and re-running reproduces it.
\<close>

theorem EvaluateControl_replay:
  fixes dr dr' :: eval_draw and db :: "'z eval_db_scheme" and old old'
  assumes "EvaluateControl lib (scope_cells sc) dr cid trigger asOf (db\<lparr>db_evaluations := old\<rparr>) = (Inr n, db1)"
    and "EvaluateControl lib (scope_cells sc) dr' cid trigger' asOf (db\<lparr>db_evaluations := old'\<rparr>) = (Inr n', db2)"
    and "dr_now dr = dr_now dr'" and "dr_env dr = dr_env dr'" and "dr_cells_env dr = dr_cells_env dr'"
  shows "n = n' \<and> map computed_columns (drop (length old) (db_evaluations db1)) =
                   map computed_columns (drop (length old') (db_evaluations db2))"
  using assms(1)
proof (cases rule: EvaluateControl_cases)
  case 1: (commit t cells meta)
  from assms(2) show ?thesis
  proof (cases rule: EvaluateControl_cases)
    case 2: (commit t' cells' meta')
    have same: "t' = t" "cells' = cells" "meta' = meta"
      using 1(1,3,4) 2(1,3,4) assms(4,5) by (auto simp: ControlApplicability_frame)
    let ?rec = "loadEvidence t cid (el_uuid_string lib cid) asOf db"
    have new: "drop (length old) (db_evaluations db1) = run_rows (\<lambda>c. projr (computeRow lib meta ?rec c
        (dr_run dr) trigger (dr_now dr))) dr t 0 (eval_targets cells)"
      "drop (length old') (db_evaluations db2) = run_rows (\<lambda>c. projr (computeRow lib meta ?rec c
        (dr_run dr') trigger' (dr_now dr'))) dr' t 0 (eval_targets cells)"
      using 1(6) 2(6) same by simp_all
    have "map computed_columns (drop (length old) (db_evaluations db1)) =
        map computed_columns (drop (length old') (db_evaluations db2))"
      unfolding new by (rule computed_run_rows [OF assms(3)]) (use 1(7) in simp)
    with 1(5) 2(5) same show ?thesis by simp
  qed simp
qed simp

theorem EvaluateControl_replay_witness:
  "\<exists>db1 db2 n. EvaluateControl demo_lib (scope_cells demo_codec) (demo_draw 50 (days 11)) 7 TriggerManual (days 20)
      demo_eval_db = (Inr n, db1)
    \<and> EvaluateControl demo_lib (scope_cells demo_codec) (demo_draw 60 (days 11)) 7 TriggerReplay (days 20)
      demo_eval_db = (Inr n, db2)
    \<and> map computed_columns (db_evaluations db1) = map computed_columns (db_evaluations db2)"
proof -
  have run: "\<exists>db'. EvaluateControl demo_lib (scope_cells demo_codec) (demo_draw i (days 11)) 7 trg (days 20)
      demo_eval_db = (Inr 1, db')" if "trg \<in> trigger_values" for i trg
  proof -
    have "\<exists>db'. append_rows demo_lib (demo_draw i (days 11))
        \<lparr>cm_id = 7, cm_freshnessClass = ''daily'', cm_implementationType = ''automated'', cm_queries = []\<rparr>
        (loadEvidence 1 7 (el_uuid_string demo_lib 7) (days 20) demo_eval_db) trg 1 0 [Some 20] demo_eval_db =
        Inr (0 + length [Some (20 :: uuid)], db')"
      by (rule append_rows_total)
         (use that in \<open>auto simp: evalQueries_def demo_draw_def demo_eval_db_def demo_scope_db_def demo_control_def
           loadEvidence_def ListEvidenceForControlAsOf_def days_def hours_def\<close>)
    then show ?thesis using demo_meta [of "[]"] demo_eval_cells
      by (auto simp: EvaluateControl_def demo_draw_def inTx_run eval_targets_def demo_eval_db_def)
  qed
  have e: "demo_eval_db = demo_eval_db\<lparr>db_evaluations := []\<rparr>" by (simp add: demo_eval_db_def)
  obtain db1 db2 where
    r: "EvaluateControl demo_lib (scope_cells demo_codec) (demo_draw 50 (days 11)) 7 TriggerManual (days 20)
      demo_eval_db = (Inr 1, db1)"
    "EvaluateControl demo_lib (scope_cells demo_codec) (demo_draw 60 (days 11)) 7 TriggerReplay (days 20)
      demo_eval_db = (Inr 1, db2)"
    using run [of TriggerManual 50] run [of TriggerReplay 60] by (auto simp: trigger_values_def)
  then show ?thesis
    using EvaluateControl_replay [where lib = demo_lib and sc = demo_codec and dr = "demo_draw 50 (days 11)"
        and dr' = "demo_draw 60 (days 11)" and cid = 7 and trigger = TriggerManual and trigger' = TriggerReplay
        and asOf = "days 20" and db = demo_eval_db and old = "[]" and old' = "[]" and n = 1 and n' = 1]
    by (auto simp: demo_draw_def simp flip: e)
qed

text \<open>
  A replay measures the freshness window from the wall clock, not from the horizon
  \<open>asOf\<close>. Once the clock is more than the class's maximal age past the horizon, a control
  without queries replays as stale and inconclusive with no record in its window, whatever
  its state was at the horizon.
\<close>

theorem replay_window_from_clock:
  assumes "cm_queries meta = []"
    and "loadEvidence t cid ref asOf db \<noteq> []"
    and "asOf < now - fst (freshnessMaxAge (cm_freshnessClass meta))" and "0 < asOf"
  shows "\<exists>row. computeRow lib meta (loadEvidence t cid ref asOf db) cell run trigger now = Inr row
     \<and> er_result row = ResultInconclusive \<and> er_freshnessStatus row = FreshnessStale
     \<and> er_evidenceCountInWindow row = 0"
proof -
  let ?rec = "loadEvidence t cid ref asOf db"
  have old: "ar_observedAt r \<le> asOf" if "r \<in> set ?rec" for r
    using that assms(4) by (auto simp: loadEvidence_def ListEvidenceForControlAsOf_def pgTimestamptz_def sql_le_def)
  have "\<not> in_window (cm_freshnessClass meta) now (ar_observedAt r)" if "r \<in> set ?rec" for r
    using old [OF that] assms(3) by (simp add: in_window_def)
  then have none: "inWindowRecords ?rec (cm_freshnessClass meta) now = []"
    by (auto simp: inWindowRecords_filter filter_empty_conv)
  have "\<not> now - fst (freshnessMaxAge (cm_freshnessClass meta)) \<le> latest_from 0 ?rec"
    unfolding latest_from_ge using old assms(3,4) by fastforce
  then have "computeFreshness ?rec (cm_freshnessClass meta) now = FreshnessStale"
    using assms(2) by (simp add: computeFreshness_def)
  with assms(1,2) none show ?thesis
    by (simp add: computeRow_Inr_iff evalQueries_def computeResult_def)
qed

theorem replay_window_from_clock_witness:
  "\<exists>row. computeRow demo_lib
      \<lparr>cm_id = 7, cm_freshnessClass = ''daily'', cm_implementationType = ''automated'', cm_queries = []\<rparr>
      (loadEvidence 1 7 ''u'' (days 11) demo_eval_db) None 50 TriggerReplay (days 40) = Inr row
    \<and> er_result row = ResultInconclusive"
proof -
  have age: "fst (freshnessMaxAge ''daily'') = days 7"
    by (simp add: freshnessMaxAge_def freshnessMaxAgeTable_def)
  show ?thesis
    using replay_window_from_clock [of "\<lparr>cm_id = 7, cm_freshnessClass = ''daily'',
        cm_implementationType = ''automated'', cm_queries = []\<rparr>" 1 7 "''u''" "days 11" demo_eval_db "days 40"
        demo_lib None 50 TriggerReplay]
    by (auto simp: age loadEvidence_def ListEvidenceForControlAsOf_def demo_eval_db_def pgTimestamptz_def
        sql_le_def days_def hours_def)
qed


text \<open>
  A control whose only evidence is out of date is not treated as having no evidence. If
  it declares a SQL query whose selection over the empty window returns no row, its result
  is fail with zero records in the window: the roll-up reports a failure although no current
  evidence was examined.
\<close>

theorem stale_evidence_sql_fails:
  assumes "records \<noteq> []" and "inWindowRecords records (cm_freshnessClass meta) now = []"
    and "cm_queries meta = [\<lparr>q_Language = ''sql'', q_Expression = expr\<rparr>]"
    and "validateSQLEvidenceQuery expr = None" and "el_marshal_records lib [] = Some json"
    and "el_sql lib (sqlEvidenceCTE @ CHR 0x0A # TrimRightSemicolons (TrimSpace expr)) json = SqlRows [] False"
  shows "\<exists>row. computeRow lib meta records cell run trigger now = Inr row
     \<and> er_result row = ResultFail \<and> er_evidenceCountInWindow row = 0"
proof -
  have "expr \<noteq> []"
  proof
    assume "expr = []"
    moreover have "TrimSpace [] = []" by code_simp
    ultimately show False using assms(4) by (simp add: validateSQLEvidenceQuery_def)
  qed
  then have "evalQueries lib (cm_queries meta) [] = Inr ResultFail"
    using assms(3-6)
    by (simp add: evalQueries_def evalQuery_def SupportedQueryLanguages_def evalSQLQuery_def
        inWindowRecordsToJSON_def computeResult_spec precedence_def)
  with assms(1,2) show ?thesis by (simp add: computeRow_Inr_iff)
qed

theorem stale_evidence_sql_fails_witness:
  "\<exists>row. computeRow demo_lib
      \<lparr>cm_id = 7, cm_freshnessClass = ''daily'', cm_implementationType = ''automated'',
       cm_queries = [\<lparr>q_Language = ''sql'', q_Expression = ''select result from evidence''\<rparr>]\<rparr>
      [\<lparr>ar_observedAt = days 10, ar_result = ResultPass, ar_payload = []\<rparr>] None 50 TriggerManual (days 40) = Inr row
    \<and> er_result row = ResultFail \<and> er_evidenceCountInWindow row = 0"
proof (rule stale_evidence_sql_fails)
  show "validateSQLEvidenceQuery ''select result from evidence'' = None" by code_simp
qed (simp_all add: demo_lib_def in_window_def freshnessMaxAge_def freshnessMaxAgeTable_def days_def hours_def)

text \<open>
  The fixture runner predicts the engine: for the same class, queries, records and
  clock, \<open>EvaluateFixture\<close> fails exactly when \<open>computeRow\<close> fails and otherwise
  returns the result, freshness status and in-window count of the row the engine would
  append, provided a transaction is at hand or no query is SQL.
\<close>

theorem EvaluateFixture_agrees:
  assumes "has_tx \<or> (\<forall>q \<in> set (cm_queries meta). q_Language q \<noteq> ''sql'')"
  shows "EvaluateFixture lib (cm_freshnessClass meta) (cm_queries meta) records now has_tx =
     (case computeRow lib meta records cell run trigger now of
        Inl e \<Rightarrow> Inl e
      | Inr row \<Rightarrow> Inr \<lparr>fr_Result = er_result row, fr_FreshnessStatus = er_freshnessStatus row,
                       fr_EvidenceCountInWindow = er_evidenceCountInWindow row\<rparr>)"
  using evalFixtureQueries_eq [OF assms]
  by (simp add: EvaluateFixture_def computeRow_def Let_def split: sum.splits)

theorem EvaluateFixture_agrees_witness:
  "\<exists>row. computeRow demo_lib
      \<lparr>cm_id = 7, cm_freshnessClass = ''daily'', cm_implementationType = [], cm_queries = []\<rparr> [] None 50
      TriggerManual (days 40) = Inr row
    \<and> EvaluateFixture demo_lib ''daily'' [] [] (days 40) False =
      Inr \<lparr>fr_Result = er_result row, fr_FreshnessStatus = er_freshnessStatus row,
           fr_EvidenceCountInWindow = er_evidenceCountInWindow row\<rparr>"
  using EvaluateFixture_agrees [of False "\<lparr>cm_id = 7, cm_freshnessClass = ''daily'',
      cm_implementationType = [], cm_queries = []\<rparr>" demo_lib "[]" "days 40" None 50 TriggerManual]
  by (simp add: computeRow_def evalQueries_def Let_def)

text \<open>
  What was just evaluated is what is read. After a successful run at a clock later
  than the control's earlier evaluations, \<open>ControlState\<close> at any horizon from then on
  returns one state per cell, and for every cell of the run the state just computed.
\<close>

theorem ControlState_after_EvaluateControl:
  assumes "EvaluateControl lib resolve dr cid trigger asOf db = (Inr n, db')"
    and "resolve (dr_cells_env dr) cid db = Inr cells"
    and "tenant_of (dr_env dr) = Some t" and "tenant_of env = Some t" and "tx_ok env"
    and "\<forall>r \<in> set (db_evaluations db). ce_TenantID r = t \<and> ce_ControlID r = cid \<longrightarrow> ce_EvaluatedAt r < dr_now dr"
    and "dr_now dr \<le> horizon" and "horizon \<noteq> 0"
  shows "\<exists>states. ControlState lib unmarshal env listed cid [] horizon db' = (Inr states, db')
     \<and> distinct (map st_ScopeCellID states)
     \<and> (\<forall>c \<in> set (eval_targets cells). \<exists>st \<in> set states. \<exists>meta row.
          st_ScopeCellID st = c \<and> st_EvaluatedAt st = dr_now dr \<and> st_Trigger st = trigger
          \<and> loadControl lib t cid db = Inr meta
          \<and> computeRow lib meta (loadEvidence t cid (el_uuid_string lib cid) asOf db) c
              (dr_run dr) trigger (dr_now dr) = Inr row
          \<and> st_Result st = er_result row \<and> st_FreshnessStatus st = er_freshnessStatus row)"
  using assms(1)
proof (cases rule: EvaluateControl_cases)
  case (commit t' cells' meta)
  have same: "t' = t" "cells' = cells" using commit(1,3) assms(2,3) by simp_all
  let ?rec = "loadEvidence t cid (el_uuid_string lib cid) asOf db"
  let ?new = "run_rows (\<lambda>c. projr (computeRow lib meta ?rec c (dr_run dr) trigger (dr_now dr))) dr t 0 (eval_targets cells)"
  have db': "db' = db\<lparr>db_evaluations := db_evaluations db @ ?new\<rparr>" using commit(6) same by simp
  have id: "cm_id meta = cid" using commit(4) by (auto simp: loadControl_def split: option.splits)
  note new = run_row_cell [OF commit(7) [unfolded same]]
  let ?rows = "ListLatestControlEvaluations t cid (Some horizon) db'"
  have read: "ControlState lib unmarshal env listed cid [] horizon db' = (Inr (map stateFromRow ?rows), db')"
    using assms(4,5,8) commit(4) same
    by (simp add: ControlState_def read_states_def inTx_run db' pgTimestamptz_def allowed_state_def)
  have "\<exists>r \<in> set ?rows. ce_ScopeCellID r = c \<and> r \<in> set ?new" if c: "c \<in> set (eval_targets cells)" for c
    unfolding db'
  proof (rule ListLatest_newest [OF _ assms(7)])
    obtain row where row: "computeRow lib meta ?rec c (dr_run dr) trigger (dr_now dr) = Inr row"
      using commit(7) c same by blast
    obtain j where j: "evaluation_of (dr_row dr j) t (dr_now dr) (dr_dbnow dr) row \<in> set ?new"
      using in_run_rows [OF c, of dr t "\<lambda>c. projr (computeRow lib meta ?rec c (dr_run dr) trigger (dr_now dr))" 0]
        row by auto
    moreover have "ce_ScopeCellID (evaluation_of (dr_row dr j) t (dr_now dr) (dr_dbnow dr) row) = c"
      using computeRow_cell [OF row] by (simp add: evaluation_of_def)
    ultimately show "c \<in> ce_ScopeCellID ` set ?new" by force
  qed (use new id assms(6) in auto)
  then have "\<forall>c \<in> set (eval_targets cells). \<exists>st \<in> set (map stateFromRow ?rows). \<exists>meta row.
      st_ScopeCellID st = c \<and> st_EvaluatedAt st = dr_now dr \<and> st_Trigger st = trigger
      \<and> loadControl lib t cid db = Inr meta
      \<and> computeRow lib meta ?rec c (dr_run dr) trigger (dr_now dr) = Inr row
      \<and> st_Result st = er_result row \<and> st_FreshnessStatus st = er_freshnessStatus row"
    using new commit(4) same by (fastforce simp: stateFromRow_def)
  with read states_distinct [of t cid "Some horizon" db'] show ?thesis by blast
qed simp


theorem ControlState_after_EvaluateControl_witness:
  "\<exists>db' states st. EvaluateControl demo_lib demo_resolver (demo_draw 50 (days 11)) 7 TriggerManual (days 20)
       demo_eval_db = (Inr 1, db')
     \<and> ControlState demo_lib (\<lambda>_. Inl []) demo_env (Inr []) 7 [] (days 12) db' = (Inr states, db')
     \<and> st \<in> set states \<and> st_ScopeCellID st = None \<and> st_EvaluatedAt st = days 11"
proof -
  obtain db' where run: "EvaluateControl demo_lib demo_resolver (demo_draw 50 (days 11)) 7 TriggerManual (days 20)
      demo_eval_db = (Inr 1, db')" using demo_evaluate by blast
  have "\<exists>states. ControlState demo_lib (\<lambda>_. Inl []) demo_env (Inr []) 7 [] (days 12) db' = (Inr states, db')
     \<and> distinct (map st_ScopeCellID states)
     \<and> (\<forall>c \<in> set (eval_targets []). \<exists>st \<in> set states. \<exists>meta row.
          st_ScopeCellID st = c \<and> st_EvaluatedAt st = dr_now (demo_draw 50 (days 11)) \<and> st_Trigger st = TriggerManual
          \<and> loadControl demo_lib 1 7 demo_eval_db = Inr meta
          \<and> computeRow demo_lib meta (loadEvidence 1 7 (el_uuid_string demo_lib 7) (days 20) demo_eval_db) c
              (dr_run (demo_draw 50 (days 11))) TriggerManual (dr_now (demo_draw 50 (days 11))) = Inr row
          \<and> st_Result st = er_result row \<and> st_FreshnessStatus st = er_freshnessStatus row)"
    by (rule ControlState_after_EvaluateControl [OF run])
       (simp_all add: demo_resolver_def demo_draw_def demo_eval_db_def days_def hours_def)
  with run show ?thesis by (auto simp: eval_targets_def demo_draw_def)
qed

end
