(* ===== verification/Eval_Consumer.thy ===== *)
theory Eval_Consumer
  imports Eval_Engine
begin

text \<open>
  \<open>internal/eval/consumer.go\<close>: the scheduled sweep over every tenant and the handling
  of one ingested record. \<open>unmarshal\<close> stands for the protobuf decoder, of which the
  handler uses the control identifier, and \<open>parse_uuid\<close> for \<open>uuid.Parse\<close>. The
  message outcomes are the three acknowledgements of the stream client; a negative one is
  redelivered, and the consumer sets no delivery limit.
\<close>

definition FarFuture :: gotime where
  "FarFuture = days 3651694"


section \<open>The scheduler\<close>

fun sweep_tenants ::
  "eval_lib \<Rightarrow> 'z eval_db_scheme resolver \<Rightarrow> txenv \<Rightarrow> (uuid \<Rightarrow> uuid \<Rightarrow> eval_draw) \<Rightarrow> nat \<Rightarrow> uuid list \<Rightarrow>
   'z eval_db_scheme \<Rightarrow> nat \<times> 'z eval_db_scheme" where
  "sweep_tenants lib resolve ctx draw n [] db = (n, db)"
| "sweep_tenants lib resolve ctx draw n (t # ts) db =
     (case WithTenant ctx (el_uuid_string lib t) of
        Inl _ \<Rightarrow> sweep_tenants lib resolve ctx draw n ts db
      | Inr tctx \<Rightarrow>
        (case EvaluateAll lib resolve tctx (draw t) TriggerScheduled FarFuture db of
           (Inl _, db') \<Rightarrow> sweep_tenants lib resolve ctx draw n ts db'
         | (Inr k, db') \<Rightarrow> sweep_tenants lib resolve ctx draw (n + k) ts db'))"

definition Scheduler_SweepOnce ::
  "eval_lib \<Rightarrow> 'z eval_db_scheme resolver \<Rightarrow> txenv \<Rightarrow> (uuid \<Rightarrow> uuid \<Rightarrow> eval_draw) \<Rightarrow> 'z eval_db_scheme \<Rightarrow>
   nat \<times> 'z eval_db_scheme" where
  "Scheduler_SweepOnce lib resolve ctx draw db =
     sweep_tenants lib resolve ctx draw 0 (ListTenantsWithActiveControls db) db"


section \<open>The ingest subscriber\<close>

datatype msg_outcome = MsgTerm | MsgAck | MsgNak

record ingest_msg =
  msg_Data :: bytes
  msg_CredentialTenant :: string

definition IngestSubscriber_handle ::
  "eval_lib \<Rightarrow> 'z eval_db_scheme resolver \<Rightarrow> (bytes \<Rightarrow> string option) \<Rightarrow> (string \<Rightarrow> uuid option) \<Rightarrow>
   (txenv \<Rightarrow> eval_draw) \<Rightarrow> txenv \<Rightarrow> ingest_msg \<Rightarrow> 'z eval_db_scheme \<Rightarrow> msg_outcome \<times> 'z eval_db_scheme" where
  "IngestSubscriber_handle lib resolve unmarshal parse_uuid draw ctx msg db =
     (case unmarshal (msg_Data msg) of
        None \<Rightarrow> (MsgTerm, db)
      | Some recControlId \<Rightarrow>
        (case parse_uuid (msg_CredentialTenant msg) of
           None \<Rightarrow> (MsgTerm, db)
         | Some tenantID \<Rightarrow>
           (case parse_uuid recControlId of
              None \<Rightarrow> (MsgAck, db)
            | Some controlID \<Rightarrow>
              (case WithTenant ctx (el_uuid_string lib tenantID) of
                 Inl _ \<Rightarrow> (MsgTerm, db)
               | Inr tctx \<Rightarrow>
                 (case EvaluateControl lib resolve (draw tctx) controlID TriggerIngest FarFuture db of
                    (Inl e, db') \<Rightarrow> (if e = Dom ErrControlNotFound then (MsgAck, db') else (MsgNak, db'))
                  | (Inr _, db') \<Rightarrow> (MsgAck, db'))))))"


section \<open>Lemmas\<close>

text \<open>The database grew by evaluations only.\<close>

definition extends_evaluations :: "'z eval_db_scheme \<Rightarrow> 'z eval_db_scheme \<Rightarrow> bool" where
  "extends_evaluations db db' \<longleftrightarrow> (\<exists>rows. db' = db\<lparr>db_evaluations := db_evaluations db @ rows\<rparr>)"

lemma extends_refl [simp]: "extends_evaluations db db"
  unfolding extends_evaluations_def by (rule exI [of _ "[]"]) simp

lemma extends_trans [trans]:
  "extends_evaluations a b \<Longrightarrow> extends_evaluations b c \<Longrightarrow> extends_evaluations a c"
  by (auto simp: extends_evaluations_def)

lemma extends_keeps: "extends_evaluations db db' \<Longrightarrow> r \<in> set (db_evaluations db) \<Longrightarrow> r \<in> set (db_evaluations db')"
  by (auto simp: extends_evaluations_def)

lemma EvaluateControl_extends:
  "EvaluateControl lib resolve dr cid trigger asOf db = (r, db') \<Longrightarrow> extends_evaluations db db'"
  by (erule EvaluateControl_cases) (simp, fastforce simp: extends_evaluations_def)

lemma evaluate_controls_extends:
  "evaluate_controls lib resolve draw trigger asOf n ids db = (r, db') \<Longrightarrow> extends_evaluations db db'"
proof (induction ids arbitrary: n db)
  case (Cons cid ids)
  obtain r1 db1 where run: "EvaluateControl lib resolve (draw cid) cid trigger asOf db = (r1, db1)" by fastforce
  with Cons.prems have "db' = db1 \<or> extends_evaluations db1 db'"
    by (cases r1) (auto intro: Cons.IH)
  with EvaluateControl_extends [OF run] show ?case by (auto intro: extends_trans)
qed simp

lemma EvaluateAll_cases:
  assumes "EvaluateAll lib resolve env draw trigger asOf db = (r, db')"
  obtains (fail) e where "r = Inl e" "db' = db"
  | (run) t where "tenant_of env = Some t"
      "evaluate_controls lib resolve draw trigger asOf 0 (map ctl_ID (ListActiveControls t db)) db = (r, db')"
proof -
  obtain r1 :: "eval_error err + uuid list" and db1 where tx: "inTx env (\<lambda>t db0. Inr (map ctl_ID (ListActiveControls t db0), db0)) db = (r1, db1)"
    by fastforce
  then show ?thesis
  proof (cases rule: inTx_cases)
    case (fail e)
    with tx assms that(1) [of e] show ?thesis by (simp add: EvaluateAll_def)
  next
    case (commit t a)
    with tx assms that(2) [of t] show ?thesis by (auto simp: EvaluateAll_def)
  qed
qed

lemma EvaluateAll_extends:
  "EvaluateAll lib resolve env draw trigger asOf db = (r, db') \<Longrightarrow> extends_evaluations db db'"
  by (cases rule: EvaluateAll_cases) (auto dest: evaluate_controls_extends)

lemma sweep_tenants_extends:
  "sweep_tenants lib resolve ctx draw n ts db = (k, db') \<Longrightarrow> extends_evaluations db db'"
proof (induction ts arbitrary: n db)
  case (Cons t ts)
  show ?case
  proof (cases "WithTenant ctx (el_uuid_string lib t)")
    case (Inl e)
    with Cons show ?thesis by auto
  next
    case (Inr tctx)
    obtain r1 db1 where run: "EvaluateAll lib resolve tctx (draw t) TriggerScheduled FarFuture db = (r1, db1)"
      by fastforce
    with Cons.prems Inr have "extends_evaluations db1 db'" by (cases r1) (auto intro: Cons.IH)
    with EvaluateAll_extends [OF run] show ?thesis by (rule extends_trans)
  qed
qed simp

lemma evaluate_controls_covers:
  assumes "evaluate_controls lib resolve draw trigger asOf n ids db = (Inr m, db')" and "cid \<in> set ids"
  shows "\<exists>e \<in> set (db_evaluations db'). ce_ControlID e = cid \<and> ce_EvalRunID e = dr_run (draw cid)
           \<and> ce_EvaluatedAt e = dr_now (draw cid)"
  using assms
proof (induction ids arbitrary: n db)
  case (Cons a ids)
  obtain k db1 where run: "EvaluateControl lib resolve (draw a) a trigger asOf db = (Inr k, db1)"
    and rest: "evaluate_controls lib resolve draw trigger asOf (n + k) ids db1 = (Inr m, db')"
    using Cons.prems(1) by (auto split: prod.splits sum.splits)
  show ?case
  proof (cases "cid \<in> set ids")
    case True
    with Cons.IH [OF rest] show ?thesis by simp
  next
    case False
    with Cons.prems(2) have a: "cid = a" by simp
    from run show ?thesis
    proof (cases rule: EvaluateControl_cases)
      case (commit t cells meta)
      let ?rec = "loadEvidence t a (el_uuid_string lib a) asOf db"
      obtain c where c: "c \<in> set (eval_targets cells)" by (cases cells) (auto simp: eval_targets_def)
      obtain row where row: "computeRow lib meta ?rec c (dr_run (draw a)) trigger (dr_now (draw a)) = Inr row"
        using commit(7) [OF c] by blast
      obtain j where j: "evaluation_of (dr_row (draw a) j) t (dr_now (draw a)) (dr_dbnow (draw a)) row
          \<in> set (db_evaluations db1)"
        using in_run_rows [OF c, of "draw a" t "\<lambda>c. projr (computeRow lib meta ?rec c (dr_run (draw a)) trigger (dr_now (draw a)))" 0]
          row commit(6) by auto
      have "er_evalRunID row = dr_run (draw a)" "er_controlID row = a"
        using row commit(4) by (auto simp: computeRow_Inr_iff loadControl_def split: option.splits)
      then show ?thesis
        by (intro bexI [OF _ extends_keeps [OF evaluate_controls_extends [OF rest] j]])
           (simp add: evaluation_of_def a)
    qed simp
  qed
qed simp


section \<open>Properties\<close>

text \<open>
  One scheduled sweep, whatever fails in it, only adds evaluations: the evidence
  ledger, the controls and the cells are as before, and every earlier evaluation is still
  there.
\<close>

theorem SweepOnce_append_only:
  "\<exists>rows. snd (Scheduler_SweepOnce lib resolve ctx draw db) = db\<lparr>db_evaluations := db_evaluations db @ rows\<rparr>"
  using sweep_tenants_extends [of lib resolve ctx draw 0 "ListTenantsWithActiveControls db" db]
  by (cases "Scheduler_SweepOnce lib resolve ctx draw db")
     (auto simp: Scheduler_SweepOnce_def extends_evaluations_def)

text \<open>
  When \<open>EvaluateAll\<close> reports success, every active control of the tenant has an
  evaluation of this run: no control is left out.
\<close>

theorem EvaluateAll_covers_active_controls:
  assumes "EvaluateAll lib resolve env draw trigger asOf db = (Inr n, db')"
    and "tenant_of env = Some t" and "c \<in> set (db_controls db)"
    and "ctl_TenantID c = t" and "ctl_SupersededBy c = None"
  shows "\<exists>e \<in> set (db_evaluations db'). ce_ControlID e = ctl_ID c
     \<and> ce_EvalRunID e = dr_run (draw (ctl_ID c)) \<and> ce_EvaluatedAt e = dr_now (draw (ctl_ID c))"
  using assms(1)
proof (cases rule: EvaluateAll_cases)
  case (run t')
  have "ctl_ID c \<in> set (map ctl_ID (ListActiveControls t' db))"
    using assms(2-5) run(1) by (auto simp: ListActiveControls_def)
  from evaluate_controls_covers [OF run(2) this] show ?thesis .
qed simp

lemma demo_evaluate_all:
  "\<exists>db'. EvaluateAll demo_lib demo_resolver demo_env (\<lambda>_. demo_draw 50 (days 11)) TriggerManual (days 20)
     demo_eval_db = (Inr 1, db')"
proof -
  obtain db' where "EvaluateControl demo_lib demo_resolver (demo_draw 50 (days 11)) 7 TriggerManual (days 20)
      demo_eval_db = (Inr 1, db')" using demo_evaluate by blast
  moreover have "map ctl_ID (ListActiveControls 1 demo_eval_db) = [7]"
    by (simp add: ListActiveControls_def demo_eval_db_def demo_control_def)
  ultimately show ?thesis by (simp add: EvaluateAll_def inTx_run)
qed

theorem EvaluateAll_covers_active_controls_witness:
  "\<exists>db'. EvaluateAll demo_lib demo_resolver demo_env (\<lambda>_. demo_draw 50 (days 11)) TriggerManual (days 20)
     demo_eval_db = (Inr 1, db') \<and> (\<exists>e \<in> set (db_evaluations db'). ce_ControlID e = 7)"
proof -
  obtain db' where run: "EvaluateAll demo_lib demo_resolver demo_env (\<lambda>_. demo_draw 50 (days 11)) TriggerManual
      (days 20) demo_eval_db = (Inr 1, db')" using demo_evaluate_all by blast
  from EvaluateAll_covers_active_controls [OF run, of 1 demo_control] run show ?thesis
    by (auto simp: demo_eval_db_def demo_control_def)
qed

text \<open>
  With the scope store as resolver, a record that names a control the tenant does not
  have is never acknowledged: the resolver reports the missing control with its own error,
  so \<open>EvaluateControl\<close> never returns \<open>ErrControlNotFound\<close>, the handler's branch
  for it is dead, and the message is negatively acknowledged, to be redelivered without
  limit.
\<close>

theorem handle_missing_control_redelivers:
  assumes "unmarshal (msg_Data msg) = Some recControlId"
    and "parse_uuid (msg_CredentialTenant msg) = Some tenantID" and "parse_uuid recControlId = Some controlID"
    and "el_uuid_string lib tenantID \<noteq> []"
    and "\<And>tctx. tenant_of (dr_cells_env (draw tctx)) = Some tenantID"
    and "\<And>tctx. tx_ok (dr_cells_env (draw tctx))"
    and "\<forall>c \<in> set (db_controls db). ctl_TenantID c = tenantID \<longrightarrow> ctl_ID c \<noteq> controlID"
  shows "IngestSubscriber_handle lib (scope_cells sc) unmarshal parse_uuid draw ctx msg db = (MsgNak, db)"
proof -
  have "GetControlApplicabilityExpr tenantID controlID db = None"
    using assms(7) by (auto simp: GetControlApplicabilityExpr_def find_None_iff)
  then have "fst (ControlApplicability sc (dr_cells_env (draw tctx)) controlID db) =
      Inl (Dom (ScopeControlNotFound controlID))" for tctx
    using assms(5,6) by (simp add: ControlApplicability_def inTx_run)
  then show ?thesis
    using assms(1-4) by (simp add: IngestSubscriber_handle_def EvaluateControl_def WithTenant_def)
qed

theorem handle_missing_control_redelivers_witness:
  "IngestSubscriber_handle demo_lib (scope_cells demo_codec) Some (\<lambda>s. if s = ''t'' then Some 1 else Some 99)
     (\<lambda>_. demo_draw 50 (days 11)) demo_env \<lparr>msg_Data = ''c'', msg_CredentialTenant = ''t''\<rparr> demo_eval_db =
   (MsgNak, demo_eval_db)"
  by (rule handle_missing_control_redelivers [where tenantID = 1 and controlID = 99 and recControlId = "''c''"])
     (simp_all add: demo_lib_def demo_draw_def demo_eval_db_def demo_control_def)

end
