(* ===== verification/Read_Models.thy ===== *)
theory Read_Models
  imports Eval_Consumer "HOL-Library.Multiset"
begin

text \<open>
  The read models of the evidence pipeline: \<open>internal/freshness/freshness.go\<close>, the
  freshness of every active control, \<open>internal/drift/drift.go\<close>, the daily snapshot of the
  passing controls, and \<open>internal/freshnessdrift/worker.go\<close>, which refreshes both for a
  tenant, for every tenant once a day and for the tenant of an ingested record. The queries are
  those of \<open>internal/db/queries/evidence_freshness_drift.sql\<close>, the constraints those of their
  migration.

  \<open>uuid_string\<close> is the text form of an identifier, \<open>ids\<close> gives the identifier drawn for
  the n-th row written. Go iterates over a map in an unspecified order: \<open>iter\<close> is that
  order, a function from the entries to the entries as visited.
\<close>

section \<open>Tables\<close>

record freshness_row =
  fr_ID :: uuid
  fr_TenantID :: uuid
  fr_ControlID :: uuid
  fr_FreshnessClass :: "string option"
  fr_LatestObservedAt :: "gotime option"
  fr_ValidUntil :: "gotime option"
  fr_IsStale :: bool
  fr_EvidenceCount :: int
  fr_RefreshedAt :: gotime
  fr_CreatedAt :: gotime

record drift_row =
  dw_ID :: uuid
  dw_TenantID :: uuid
  dw_SnapshotDate :: gotime
  dw_ControlsPassing :: int
  dw_PassingControlIds :: "uuid list"
  dw_CapturedAt :: gotime
  dw_Trigger :: string
  dw_CreatedAt :: gotime

record readmodel_db = eval_db +
  db_freshness :: "freshness_row list"
  db_drift :: "drift_row list"

datatype readmodel_error =
    UpsertFreshnessFailed pg_error | InsertSnapshotFailed pg_error


section \<open>Evidence freshness\<close>

record latest_row =
  lr_ControlID :: uuid
  lr_FreshnessClass :: "string option"
  lr_LatestObservedAt :: "gotime option"
  lr_EvidenceCount :: nat

text \<open>The rows of one group of the join: the evidence of a control.\<close>

definition control_evidence ::
  "(uuid \<Rightarrow> string) \<Rightarrow> uuid \<Rightarrow> uuid \<Rightarrow> 'z eval_db_scheme \<Rightarrow> evidence_row list" where
  "control_evidence uuid_string t cid db =
     filter (\<lambda>e. ev_TenantID e = t \<and> (ev_ControlID e = Some cid \<or> ev_ControlRef e = uuid_string cid)) (db_evidence db)"

definition ListControlsWithLatestEvidence ::
  "(uuid \<Rightarrow> string) \<Rightarrow> uuid \<Rightarrow> 'z eval_db_scheme \<Rightarrow> latest_row list" where
  "ListControlsWithLatestEvidence uuid_string t db =
     map (\<lambda>c. let ev = control_evidence uuid_string t (ctl_ID c) db in
          \<lparr>lr_ControlID = ctl_ID c, lr_FreshnessClass = ctl_FreshnessClass c,
           lr_LatestObservedAt = (if ev = [] then None else Some (Max (ev_ObservedAt ` set ev))),
           lr_EvidenceCount = length ev\<rparr>)
       (filter (\<lambda>c. ctl_TenantID c = t \<and> ctl_SupersededBy c = None) (db_controls db))"

record ControlFreshness =
  cf_ControlID :: uuid
  cf_FreshnessClass :: string
  cf_LatestObservedAt :: "gotime option"
  cf_ValidUntil :: "gotime option"
  cf_IsStale :: bool
  cf_EvidenceCount :: int
  cf_RefreshedAt :: gotime

definition deriveFreshness :: "latest_row \<Rightarrow> gotime \<Rightarrow> ControlFreshness" where
  "deriveFreshness r now =
     (let cls = (case lr_FreshnessClass r of None \<Rightarrow> [] | Some c \<Rightarrow> c);
          cf = \<lparr>cf_ControlID = lr_ControlID r, cf_FreshnessClass = cls, cf_LatestObservedAt = None,
                cf_ValidUntil = None, cf_IsStale = True, cf_EvidenceCount = int (lr_EvidenceCount r),
                cf_RefreshedAt = now\<rparr>
      in (case lr_LatestObservedAt r of
            None \<Rightarrow> cf
          | Some observed \<Rightarrow>
            (let validUntil = observed + fst (FreshnessMaxAge cls)
             in cf\<lparr>cf_LatestObservedAt := Some observed, cf_ValidUntil := Some validUntil,
                   cf_IsStale := (validUntil < now)\<rparr>)))"

text \<open>The NOT NULL and CHECK constraints of the table; the refresh time may be NULL as a parameter.\<close>

definition freshness_check :: "freshness_row \<Rightarrow> bool" where
  "freshness_check r \<longleftrightarrow>
     0 \<le> fr_EvidenceCount r
     \<and> (fr_LatestObservedAt r \<noteq> None \<or> (fr_ValidUntil r = None \<and> fr_IsStale r \<and> fr_EvidenceCount r = 0))"

definition UpsertEvidenceFreshness ::
  "freshness_row \<Rightarrow> gotime option \<Rightarrow> 'z readmodel_db_scheme \<Rightarrow> pg_error + 'z readmodel_db_scheme" where
  "UpsertEvidenceFreshness row refreshedAt db =
     (if refreshedAt = None then Inl NotNullViolation
      else if \<not> freshness_check row then Inl CheckViolation
      else
        (let same = (\<lambda>r. fr_TenantID r = fr_TenantID row \<and> fr_ControlID r = fr_ControlID row) in
         if \<exists>r \<in> set (db_freshness db). same r
         then Inr (db\<lparr>db_freshness := sql_update same
                (\<lambda>r. r\<lparr>fr_FreshnessClass := fr_FreshnessClass row, fr_LatestObservedAt := fr_LatestObservedAt row,
                       fr_ValidUntil := fr_ValidUntil row, fr_IsStale := fr_IsStale row,
                       fr_EvidenceCount := fr_EvidenceCount row, fr_RefreshedAt := fr_RefreshedAt row\<rparr>)
                (db_freshness db)\<rparr>)
         else if fr_ID row \<in> fr_ID ` set (db_freshness db) then Inl UniqueViolation
         else if \<not> (\<exists>c \<in> set (db_controls db). ctl_TenantID c = fr_TenantID row \<and> ctl_ID c = fr_ControlID row)
         then Inl ForeignKeyViolation
         else Inr (db\<lparr>db_freshness := db_freshness db @ [row]\<rparr>)))"

definition pgTimestamptzPtr :: "gotime option \<Rightarrow> gotime option" where
  "pgTimestamptzPtr t = (case t of None \<Rightarrow> None | Some x \<Rightarrow> map_option pgTime (pgTimestamptz x))"

definition upsertFreshness ::
  "uuid \<Rightarrow> gotime \<Rightarrow> uuid \<Rightarrow> ControlFreshness \<Rightarrow> gotime \<Rightarrow> 'z readmodel_db_scheme \<Rightarrow>
   readmodel_error + 'z readmodel_db_scheme" where
  "upsertFreshness newID dbnow t cf refreshedAt db =
     (case UpsertEvidenceFreshness
             \<lparr>fr_ID = newID, fr_TenantID = t, fr_ControlID = cf_ControlID cf,
              fr_FreshnessClass = (if cf_FreshnessClass cf \<noteq> [] then Some (cf_FreshnessClass cf) else None),
              fr_LatestObservedAt = pgTimestamptzPtr (cf_LatestObservedAt cf),
              fr_ValidUntil = pgTimestamptzPtr (cf_ValidUntil cf), fr_IsStale = cf_IsStale cf,
              fr_EvidenceCount = int32 (nat (cf_EvidenceCount cf)), fr_RefreshedAt = pgTime refreshedAt,
              fr_CreatedAt = pgTime dbnow\<rparr> (pgTimestamptz refreshedAt) db of
        Inl e \<Rightarrow> Inl (UpsertFreshnessFailed e) | Inr db' \<Rightarrow> Inr db')"

fun refresh_rows ::
  "(nat \<Rightarrow> uuid) \<Rightarrow> gotime \<Rightarrow> gotime \<Rightarrow> uuid \<Rightarrow> nat \<Rightarrow> latest_row list \<Rightarrow> 'z readmodel_db_scheme \<Rightarrow>
   readmodel_error + nat \<times> 'z readmodel_db_scheme" where
  "refresh_rows ids now dbnow t written [] db = Inr (written, db)"
| "refresh_rows ids now dbnow t written (r # rs) db =
     (case upsertFreshness (ids written) dbnow t (deriveFreshness r now) now db of
        Inl e \<Rightarrow> Inl e
      | Inr db' \<Rightarrow> refresh_rows ids now dbnow t (Suc written) rs db')"

definition Refresh ::
  "(uuid \<Rightarrow> string) \<Rightarrow> txenv \<Rightarrow> (nat \<Rightarrow> uuid) \<Rightarrow> gotime \<Rightarrow> gotime \<Rightarrow> 'z readmodel_db_scheme \<Rightarrow>
   (readmodel_error err + nat) \<times> 'z readmodel_db_scheme" where
  "Refresh uuid_string env ids now dbnow db =
     inTx env (\<lambda>t db0. refresh_rows ids now dbnow t 0 (ListControlsWithLatestEvidence uuid_string t db0) db0) db"

definition ListEvidenceFreshness :: "uuid \<Rightarrow> 'z readmodel_db_scheme \<Rightarrow> freshness_row list" where
  "ListEvidenceFreshness t db =
     sort_key (\<lambda>r. ((fr_FreshnessClass r = None, case fr_FreshnessClass r of None \<Rightarrow> [] | Some c \<Rightarrow> c), fr_ControlID r))
       (filter (\<lambda>r. fr_TenantID r = t) (db_freshness db))"

definition controlFreshnessFromRow :: "freshness_row \<Rightarrow> ControlFreshness" where
  "controlFreshnessFromRow r =
     \<lparr>cf_ControlID = fr_ControlID r,
      cf_FreshnessClass = (case fr_FreshnessClass r of None \<Rightarrow> [] | Some c \<Rightarrow> c),
      cf_LatestObservedAt = fr_LatestObservedAt r, cf_ValidUntil = fr_ValidUntil r, cf_IsStale = fr_IsStale r,
      cf_EvidenceCount = fr_EvidenceCount r, cf_RefreshedAt = fr_RefreshedAt r\<rparr>"

definition freshness_List ::
  "txenv \<Rightarrow> 'z readmodel_db_scheme \<Rightarrow> (readmodel_error err + ControlFreshness list) \<times> 'z readmodel_db_scheme" where
  "freshness_List env db = inTx env (\<lambda>t db0. Inr (map controlFreshnessFromRow (ListEvidenceFreshness t db0), db0)) db"


section \<open>Control drift\<close>

text \<open>The latest evaluation of every control and cell at or before the instant.\<close>

definition latest_per_cell :: "uuid \<Rightarrow> gotime option \<Rightarrow> 'z eval_db_scheme \<Rightarrow> evaluation list" where
  "latest_per_cell t asOf db =
     sql_distinct_on (\<lambda>r. (ce_ControlID r, ce_ScopeCellID r))
       (sort_key (\<lambda>r. (ce_ControlID r, evaluation_order r))
         (filter (\<lambda>r. ce_TenantID r = t \<and> sql_le (ce_EvaluatedAt r) asOf) (db_evaluations db)))"

definition ListPassingControlsForDay :: "uuid \<Rightarrow> gotime option \<Rightarrow> 'z eval_db_scheme \<Rightarrow> uuid list" where
  "ListPassingControlsForDay t asOf db =
     (let latest = latest_per_cell t asOf db in
      filter (\<lambda>c. \<forall>r \<in> set latest. ce_ControlID r = c \<longrightarrow>
                    ce_Result r = ResultPass \<and> ce_FreshnessStatus r = FreshnessFresh)
        (remdups (map ce_ControlID latest)))"

definition drift_check :: "drift_row \<Rightarrow> bool" where
  "drift_check r \<longleftrightarrow>
     0 \<le> dw_ControlsPassing r \<and> dw_Trigger r \<in> {TriggerScheduled, TriggerIngest, TriggerManual}
     \<and> dw_ControlsPassing r = int (length (dw_PassingControlIds r))"

definition truncDate :: "gotime \<Rightarrow> gotime" where
  "truncDate t = t - t mod hours 24"

definition drift_pgDate :: "gotime \<Rightarrow> gotime option" where
  "drift_pgDate t = (if t = 0 then None else Some (truncDate t))"

definition InsertDriftSnapshot ::
  "uuid \<Rightarrow> uuid \<Rightarrow> gotime option \<Rightarrow> int \<Rightarrow> uuid list \<Rightarrow> string \<Rightarrow> gotime \<Rightarrow> 'z readmodel_db_scheme \<Rightarrow>
   pg_error + drift_row \<times> 'z readmodel_db_scheme" where
  "InsertDriftSnapshot i t snapshotDate passing passingIds trigger dbnow db =
     (case snapshotDate of
        None \<Rightarrow> Inl NotNullViolation
      | Some day \<Rightarrow>
        (let row = \<lparr>dw_ID = i, dw_TenantID = t, dw_SnapshotDate = day, dw_ControlsPassing = passing,
                    dw_PassingControlIds = passingIds, dw_CapturedAt = pgTime dbnow, dw_Trigger = trigger,
                    dw_CreatedAt = pgTime dbnow\<rparr>
         in if \<not> drift_check row then Inl CheckViolation
            else if i \<in> dw_ID ` set (db_drift db) then Inl UniqueViolation
            else Inr (row, db\<lparr>db_drift := db_drift db @ [row]\<rparr>)))"

record drift_Snapshot =
  sn_SnapshotDate :: gotime
  sn_ControlsPassing :: int
  sn_PassingControlIDs :: "uuid list"
  sn_CapturedAt :: gotime
  sn_Trigger :: string

definition snapshotFromRow :: "drift_row \<Rightarrow> drift_Snapshot" where
  "snapshotFromRow r =
     \<lparr>sn_SnapshotDate = dw_SnapshotDate r, sn_ControlsPassing = dw_ControlsPassing r,
      sn_PassingControlIDs = dw_PassingControlIds r, sn_CapturedAt = dw_CapturedAt r, sn_Trigger = dw_Trigger r\<rparr>"

definition CaptureSnapshot ::
  "txenv \<Rightarrow> uuid \<Rightarrow> gotime \<Rightarrow> gotime \<Rightarrow> string \<Rightarrow> 'z readmodel_db_scheme \<Rightarrow>
   (readmodel_error err + drift_Snapshot) \<times> 'z readmodel_db_scheme" where
  "CaptureSnapshot env newID now dbnow trigger db =
     inTx env (\<lambda>t db0.
       (let passing = ListPassingControlsForDay t (pgTimestamptz now) db0 in
        (case InsertDriftSnapshot newID t (drift_pgDate now) (int32 (length passing)) passing trigger dbnow db0 of
           Inl e \<Rightarrow> Inl (InsertSnapshotFailed e)
         | Inr (row, db1) \<Rightarrow> Inr (snapshotFromRow row, db1)))) db"

definition ListLatestDriftSnapshotsSince :: "uuid \<Rightarrow> gotime option \<Rightarrow> 'z readmodel_db_scheme \<Rightarrow> drift_row list" where
  "ListLatestDriftSnapshotsSince t since db =
     sql_distinct_on dw_SnapshotDate
       (sort_key (\<lambda>r. (- dw_SnapshotDate r, - dw_CapturedAt r))
         (filter (\<lambda>r. dw_TenantID r = t \<and> sql_ge (dw_SnapshotDate r) since) (db_drift db)))"

definition computeDelta :: "drift_Snapshot list \<Rightarrow> int" where
  "computeDelta snaps =
     (if snaps = [] then 0 else sn_ControlsPassing (last snaps) - sn_ControlsPassing (hd snaps))"

record DriftRow =
  df_ControlID :: uuid
  df_LastPassing :: gotime
  df_CurrentResult :: string

text \<open>The map of last passing days as an association list, and its update in the inner loop.\<close>

definition note_day :: "gotime \<Rightarrow> uuid \<Rightarrow> (uuid \<times> gotime) list \<Rightarrow> (uuid \<times> gotime) list" where
  "note_day day i m =
     (case map_of m i of
        None \<Rightarrow> (if 0 < day then m @ [(i, day)] else m)
      | Some d \<Rightarrow> (if d < day then map (\<lambda>(k, x). (k, if k = i then day else x)) m else m))"

fun note_snapshot :: "uuid set \<Rightarrow> gotime \<Rightarrow> uuid list \<Rightarrow> (uuid \<times> gotime) list \<Rightarrow> (uuid \<times> gotime) list" where
  "note_snapshot latest day [] m = m"
| "note_snapshot latest day (i # is) m =
     note_snapshot latest day is (if i \<notin> latest then note_day day i m else m)"

fun last_passing_days :: "uuid set \<Rightarrow> drift_Snapshot list \<Rightarrow> (uuid \<times> gotime) list \<Rightarrow> (uuid \<times> gotime) list" where
  "last_passing_days latest [] m = m"
| "last_passing_days latest (s # ss) m =
     last_passing_days latest ss (note_snapshot latest (sn_SnapshotDate s) (sn_PassingControlIDs s) m)"

definition computeFlips ::
  "((uuid \<times> gotime) list \<Rightarrow> (uuid \<times> gotime) list) \<Rightarrow> drift_Snapshot list \<Rightarrow> DriftRow list" where
  "computeFlips iter snaps =
     (if length snaps < 2 then []
      else map (\<lambda>(i, day). \<lparr>df_ControlID = i, df_LastPassing = day, df_CurrentResult = ''not_passing''\<rparr>)
             (iter (last_passing_days (set (sn_PassingControlIDs (last snaps))) snaps [])))"

record DriftReport =
  rp_SinceDate :: gotime
  rp_ThroughDate :: gotime
  rp_Delta :: int
  rp_FlippedToOut :: "DriftRow list"
  rp_Snapshots :: "drift_Snapshot list"

text \<open>
  \<open>int(since.Hours() / 24)\<close> truncates a floating-point quotient, which is exact for the whole
  hours the callers pass.
\<close>

definition drift_Report ::
  "((uuid \<times> gotime) list \<Rightarrow> (uuid \<times> gotime) list) \<Rightarrow> txenv \<Rightarrow> gotime \<Rightarrow> duration \<Rightarrow> 'z readmodel_db_scheme \<Rightarrow>
   (readmodel_error err + DriftReport) \<times> 'z readmodel_db_scheme" where
  "drift_Report iter env now since db =
     (let sinceDays = max 1 (if 0 \<le> since then since div hours 24 else - ((- since) div hours 24));
          sinceDate = now - sinceDays * hours 24
      in inTx env (\<lambda>t db0.
           (let snaps = map snapshotFromRow (rev (ListLatestDriftSnapshotsSince t (drift_pgDate sinceDate) db0))
            in Inr (\<lparr>rp_SinceDate = truncDate sinceDate, rp_ThroughDate = truncDate now,
                     rp_Delta = computeDelta snaps, rp_FlippedToOut = computeFlips iter snaps,
                     rp_Snapshots = snaps\<rparr>, db0))) db)"


section \<open>The worker\<close>

text \<open>What a refresh of one tenant draws: its identifiers and the clocks it reads.\<close>

record refresh_draw =
  rd_env_freshness :: txenv
  rd_env_drift :: txenv
  rd_ids :: "nat \<Rightarrow> uuid"
  rd_snapshot_id :: uuid
  rd_now :: gotime
  rd_now_drift :: gotime
  rd_dbnow :: gotime

definition RefreshTenant ::
  "(uuid \<Rightarrow> string) \<Rightarrow> refresh_draw \<Rightarrow> string \<Rightarrow> 'z readmodel_db_scheme \<Rightarrow>
   readmodel_error err option \<times> 'z readmodel_db_scheme" where
  "RefreshTenant uuid_string rd trigger db =
     (case Refresh uuid_string (rd_env_freshness rd) (rd_ids rd) (rd_now rd) (rd_dbnow rd) db of
        (Inl e, db') \<Rightarrow> (Some e, db')
      | (Inr _, db') \<Rightarrow>
        (case CaptureSnapshot (rd_env_drift rd) (rd_snapshot_id rd) (rd_now_drift rd) (rd_dbnow rd) trigger db' of
           (Inl e, db'') \<Rightarrow> (Some e, db'') | (Inr _, db'') \<Rightarrow> (None, db'')))"

fun refresh_tenants ::
  "(uuid \<Rightarrow> string) \<Rightarrow> txenv \<Rightarrow> (txenv \<Rightarrow> refresh_draw) \<Rightarrow> nat \<Rightarrow> uuid list \<Rightarrow> 'z readmodel_db_scheme \<Rightarrow>
   nat \<times> 'z readmodel_db_scheme" where
  "refresh_tenants uuid_string ctx draw swept [] db = (swept, db)"
| "refresh_tenants uuid_string ctx draw swept (t # ts) db =
     (case WithTenant ctx (uuid_string t) of
        Inl _ \<Rightarrow> refresh_tenants uuid_string ctx draw swept ts db
      | Inr tctx \<Rightarrow>
        (case RefreshTenant uuid_string (draw tctx) TriggerScheduled db of
           (Some _, db') \<Rightarrow> refresh_tenants uuid_string ctx draw swept ts db'
         | (None, db') \<Rightarrow> refresh_tenants uuid_string ctx draw (Suc swept) ts db'))"

definition readmodel_SweepOnce ::
  "(uuid \<Rightarrow> string) \<Rightarrow> txenv \<Rightarrow> (txenv \<Rightarrow> refresh_draw) \<Rightarrow> 'z readmodel_db_scheme \<Rightarrow> nat \<times> 'z readmodel_db_scheme" where
  "readmodel_SweepOnce uuid_string ctx draw db =
     refresh_tenants uuid_string ctx draw 0 (ListTenantsWithActiveControls db) db"

definition RefreshSubscriber_handle ::
  "(uuid \<Rightarrow> string) \<Rightarrow> (string \<Rightarrow> uuid option) \<Rightarrow> (txenv \<Rightarrow> refresh_draw) \<Rightarrow> txenv \<Rightarrow> ingest_msg \<Rightarrow>
   'z readmodel_db_scheme \<Rightarrow> msg_outcome \<times> 'z readmodel_db_scheme" where
  "RefreshSubscriber_handle uuid_string parse_uuid draw ctx msg db =
     (case parse_uuid (msg_CredentialTenant msg) of
        None \<Rightarrow> (MsgTerm, db)
      | Some tenantID \<Rightarrow>
        (case WithTenant ctx (uuid_string tenantID) of
           Inl _ \<Rightarrow> (MsgTerm, db)
         | Inr tctx \<Rightarrow>
           (case RefreshTenant uuid_string (draw tctx) TriggerIngest db of
              (Some _, db') \<Rightarrow> (MsgNak, db') | (None, db') \<Rightarrow> (MsgAck, db'))))"


section \<open>What a refresh writes\<close>

abbreviation fr_key :: "freshness_row \<Rightarrow> uuid \<times> uuid" where
  "fr_key r \<equiv> (fr_TenantID r, fr_ControlID r)"

text \<open>The derived columns of the row of a control.\<close>

definition fr_content :: "freshness_row \<Rightarrow> string option \<times> gotime option \<times> gotime option \<times> bool \<times> int \<times> gotime" where
  "fr_content r = (fr_FreshnessClass r, fr_LatestObservedAt r, fr_ValidUntil r, fr_IsStale r, fr_EvidenceCount r, fr_RefreshedAt r)"

definition freshness_of ::
  "'z readmodel_db_scheme \<Rightarrow> uuid \<times> uuid \<Rightarrow> (string option \<times> gotime option \<times> gotime option \<times> bool \<times> int \<times> gotime) option" where
  "freshness_of db k = map_option fr_content (List.find (\<lambda>r. fr_key r = k) (db_freshness db))"

lemma UpsertEvidenceFreshness_InrD:
  assumes "UpsertEvidenceFreshness row refreshedAt db = Inr db'" and "distinct (map fr_key (db_freshness db))"
  shows "db' = db\<lparr>db_freshness := db_freshness db'\<rparr>" (is ?frame)
    and "distinct (map fr_key (db_freshness db'))" (is ?keys)
    and "freshness_of db' k = (if k = fr_key row then Some (fr_content row) else freshness_of db k)" (is ?look)
proof -
  let ?same = "\<lambda>r. fr_TenantID r = fr_TenantID row \<and> fr_ControlID r = fr_ControlID row"
  let ?f = "\<lambda>r. r\<lparr>fr_FreshnessClass := fr_FreshnessClass row, fr_LatestObservedAt := fr_LatestObservedAt row,
       fr_ValidUntil := fr_ValidUntil row, fr_IsStale := fr_IsStale row,
       fr_EvidenceCount := fr_EvidenceCount row, fr_RefreshedAt := fr_RefreshedAt row\<rparr>"
  let ?g = "\<lambda>r. if ?same r then ?f r else r"
  have "?frame \<and> ?keys \<and> ?look"
  proof (cases "\<exists>r \<in> set (db_freshness db). ?same r")
    case True
    then have db': "db' = db\<lparr>db_freshness := map ?g (db_freshness db)\<rparr>"
      using assms(1) by (simp add: UpsertEvidenceFreshness_def sql_update_def split: if_splits)
    have upd: "freshness_of db' k = map_option (\<lambda>r. fr_content (?g r)) (List.find (\<lambda>r. fr_key r = k) (db_freshness db))"
      unfolding freshness_of_def db' by (simp add: find_map_key option.map_comp o_def)
    have ?look
    proof (cases "List.find (\<lambda>r. fr_key r = k) (db_freshness db)")
      case None
      with True have "k \<noteq> fr_key row" by (auto simp: find_None_iff)
      with None upd show ?thesis by (simp add: freshness_of_def)
    next
      case (Some r)
      from find_SomeD [OF Some] have "fr_key r = k" by simp
      then show ?thesis unfolding upd Some by (auto simp: freshness_of_def Some fr_content_def)
    qed
    have "map fr_key (map ?g (db_freshness db)) = map fr_key (db_freshness db)" by simp
    then have "distinct (map fr_key (map ?g (db_freshness db)))" using assms(2) by (simp only:)
    moreover have "db_freshness db' = map ?g (db_freshness db)" using db' by simp
    ultimately have ?keys by (simp only:)
    with \<open>?look\<close> show ?thesis using db' by simp
  next
    case False
    then have db': "db' = db\<lparr>db_freshness := db_freshness db @ [row]\<rparr>"
      using assms(1) by (auto simp: UpsertEvidenceFreshness_def Let_def split: if_splits)
    have none: "List.find (\<lambda>r. fr_key r = fr_key row) (db_freshness db) = None"
      using False by (auto simp: find_None_iff)
    have ?keys using False assms(2) db' by force
    moreover have ?look
      using none by (auto simp: freshness_of_def db' sql_simps split: option.splits)
    ultimately show ?thesis using db' by simp
  qed
  then show ?frame ?keys ?look by simp_all
qed

text \<open>The columns written for a control at the clock \<open>now\<close>.\<close>

definition derived :: "gotime \<Rightarrow> latest_row \<Rightarrow> string option \<times> gotime option \<times> gotime option \<times> bool \<times> int \<times> gotime" where
  "derived now r =
     (let cf = deriveFreshness r now in
      (if cf_FreshnessClass cf \<noteq> [] then Some (cf_FreshnessClass cf) else None,
       pgTimestamptzPtr (cf_LatestObservedAt cf), pgTimestamptzPtr (cf_ValidUntil cf), cf_IsStale cf,
       int32 (lr_EvidenceCount r), pgTime now))"

lemma derive_simps [simp]:
  "cf_ControlID (deriveFreshness r now) = lr_ControlID r"
  "cf_EvidenceCount (deriveFreshness r now) = int (lr_EvidenceCount r)"
  "cf_LatestObservedAt (deriveFreshness r now) = lr_LatestObservedAt r"
  by (simp_all add: deriveFreshness_def Let_def split: option.splits)

lemma derive_stale:
  "cf_IsStale (deriveFreshness r now) \<longleftrightarrow>
     (case lr_LatestObservedAt r of None \<Rightarrow> True
      | Some m \<Rightarrow> m + fst (FreshnessMaxAge (case lr_FreshnessClass r of None \<Rightarrow> [] | Some c \<Rightarrow> c)) < now)"
  by (simp add: deriveFreshness_def Let_def split: option.splits)

lemma upsertFreshness_InrD:
  assumes "upsertFreshness newID dbnow t (deriveFreshness r now) now db = Inr db'"
    and "distinct (map fr_key (db_freshness db))"
  shows "db' = db\<lparr>db_freshness := db_freshness db'\<rparr>"
    and "distinct (map fr_key (db_freshness db'))"
    and "freshness_of db' k = (if k = (t, lr_ControlID r) then Some (derived now r) else freshness_of db k)"
proof -
  obtain row where up: "UpsertEvidenceFreshness row (pgTimestamptz now) db = Inr db'"
    and row: "fr_key row = (t, lr_ControlID r)" "fr_content row = derived now r"
    using assms(1) by (auto simp: upsertFreshness_def fr_content_def derived_def Let_def split: sum.splits)
  from UpsertEvidenceFreshness_InrD [OF up assms(2)] row
  show "db' = db\<lparr>db_freshness := db_freshness db'\<rparr>" "distinct (map fr_key (db_freshness db'))"
    "freshness_of db' k = (if k = (t, lr_ControlID r) then Some (derived now r) else freshness_of db k)"
    by simp_all
qed

lemma refresh_rows_InrD:
  assumes "refresh_rows ids now dbnow t w rs db = Inr (n, db')"
    and "distinct (map fr_key (db_freshness db))" and "distinct (map lr_ControlID rs)"
  shows "db' = db\<lparr>db_freshness := db_freshness db'\<rparr> \<and> n = w + length rs \<and> distinct (map fr_key (db_freshness db'))
    \<and> (\<forall>r \<in> set rs. freshness_of db' (t, lr_ControlID r) = Some (derived now r))
    \<and> (\<forall>k. k \<notin> (\<lambda>r. (t, lr_ControlID r)) ` set rs \<longrightarrow> freshness_of db' k = freshness_of db k)"
  using assms
proof (induction rs arbitrary: w db)
  case (Cons r rs)
  obtain db1 where up: "upsertFreshness (ids w) dbnow t (deriveFreshness r now) now db = Inr db1"
    and rest: "refresh_rows ids now dbnow t (Suc w) rs db1 = Inr (n, db')"
    using Cons.prems(1) by (auto split: sum.splits)
  note u = upsertFreshness_InrD [OF up Cons.prems(2)]
  from Cons.IH [OF rest u(2)] Cons.prems(3) have ih: "db' = db1\<lparr>db_freshness := db_freshness db'\<rparr>" "n = Suc w + length rs"
    "distinct (map fr_key (db_freshness db'))"
    "\<forall>r \<in> set rs. freshness_of db' (t, lr_ControlID r) = Some (derived now r)"
    "\<forall>k. k \<notin> (\<lambda>r. (t, lr_ControlID r)) ` set rs \<longrightarrow> freshness_of db' k = freshness_of db1 k"
    by simp_all
  have "db' = db\<lparr>db_freshness := db_freshness db'\<rparr>" by (subst ih(1), subst u(1)) simp
  moreover have "freshness_of db' (t, lr_ControlID r) = Some (derived now r)"
  proof -
    have "(t, lr_ControlID r) \<notin> (\<lambda>r. (t, lr_ControlID r)) ` set rs" using Cons.prems(3) by auto
    with ih(5) u(3) show ?thesis by simp
  qed
  moreover have "freshness_of db' k = freshness_of db k" if "k \<notin> (\<lambda>r. (t, lr_ControlID r)) ` set (r # rs)" for k
  proof -
    from that have "k \<notin> (\<lambda>r. (t, lr_ControlID r)) ` set rs" "k \<noteq> (t, lr_ControlID r)" by auto
    with ih(5) u(3) [of k] show ?thesis by (simp del: split_paired_All)
  qed
  ultimately show ?case using ih(2-4) by (simp del: split_paired_All)
qed simp

text \<open>The evidence a refresh sees is the evidence the engine loads at the far horizon.\<close>

lemma latest_from_Max: "latest_from m rs = Max (insert m (ar_observedAt ` set rs))"
proof (induction rs arbitrary: m)
  case (Cons r rs)
  have "Max (insert m (insert (ar_observedAt r) (ar_observedAt ` set rs)))
      = Max (insert (max m (ar_observedAt r)) (ar_observedAt ` set rs))"
    by (cases "set rs = {}") (simp_all add: max.assoc max.left_commute)
  with Cons show ?case by (simp add: max_def)
qed simp

lemma loadEvidence_control_evidence:
  assumes "\<forall>e \<in> set (db_evidence db). ev_ObservedAt e \<le> FarFuture"
  shows "length (loadEvidence t cid (uuid_string cid) FarFuture db) = length (control_evidence uuid_string t cid db)"
    and "ar_observedAt ` set (loadEvidence t cid (uuid_string cid) FarFuture db) =
      ev_ObservedAt ` set (control_evidence uuid_string t cid db)"
proof -
  have far: "pgTimestamptz FarFuture = Some FarFuture"
    by (simp add: pgTimestamptz_def FarFuture_def days_def hours_def)
  have "filter (\<lambda>r. ev_TenantID r = t \<and> (ev_ControlID r = Some cid \<or> ev_ControlRef r = uuid_string cid)
          \<and> sql_le (ev_ObservedAt r) (Some FarFuture)) (db_evidence db) = control_evidence uuid_string t cid db"
    unfolding control_evidence_def using assms by (auto simp: sql_le_def intro!: filter_cong)
  then have load: "loadEvidence t cid (uuid_string cid) FarFuture db =
      map (\<lambda>r. \<lparr>ar_observedAt = ev_ObservedAt r, ar_result = ev_Result r, ar_payload = ev_Payload r\<rparr>)
        (sort_key (\<lambda>r. - ev_ObservedAt r) (control_evidence uuid_string t cid db))"
    by (simp add: loadEvidence_def ListEvidenceForControlAsOf_def far)
  show "length (loadEvidence t cid (uuid_string cid) FarFuture db) = length (control_evidence uuid_string t cid db)"
    and "ar_observedAt ` set (loadEvidence t cid (uuid_string cid) FarFuture db) =
      ev_ObservedAt ` set (control_evidence uuid_string t cid db)"
    by (simp_all add: load image_image)
qed

abbreviation class_of :: "control_row \<Rightarrow> string" where
  "class_of c \<equiv> (case ctl_FreshnessClass c of None \<Rightarrow> [] | Some s \<Rightarrow> s)"

definition latest_of :: "(uuid \<Rightarrow> string) \<Rightarrow> uuid \<Rightarrow> control_row \<Rightarrow> 'z eval_db_scheme \<Rightarrow> latest_row" where
  "latest_of uuid_string t c db =
     (let ev = control_evidence uuid_string t (ctl_ID c) db in
      \<lparr>lr_ControlID = ctl_ID c, lr_FreshnessClass = ctl_FreshnessClass c,
       lr_LatestObservedAt = (if ev = [] then None else Some (Max (ev_ObservedAt ` set ev))),
       lr_EvidenceCount = length ev\<rparr>)"

lemma latest_of_simps [simp]:
  "lr_ControlID (latest_of uuid_string t c db) = ctl_ID c"
  "lr_FreshnessClass (latest_of uuid_string t c db) = ctl_FreshnessClass c"
  "lr_EvidenceCount (latest_of uuid_string t c db) = length (control_evidence uuid_string t (ctl_ID c) db)"
  by (simp_all add: latest_of_def Let_def)

lemma latest_of_observed:
  "lr_LatestObservedAt (latest_of uuid_string t c db) =
     (let ev = control_evidence uuid_string t (ctl_ID c) db in
      if ev = [] then None else Some (Max (ev_ObservedAt ` set ev)))"
  by (simp add: latest_of_def Let_def)

lemma ListControls_latest_of:
  "ListControlsWithLatestEvidence uuid_string t db =
     map (\<lambda>c. latest_of uuid_string t c db)
       (filter (\<lambda>c. ctl_TenantID c = t \<and> ctl_SupersededBy c = None) (db_controls db))"
  by (simp add: ListControlsWithLatestEvidence_def latest_of_def)

lemma pgTimestamptzPtr_None_iff: "pgTimestamptzPtr x = None \<longleftrightarrow> x = None \<or> x = Some 0"
  by (auto simp: pgTimestamptzPtr_def pgTimestamptz_def split: option.splits)

lemma derived_agrees:
  fixes db :: "'z eval_db_scheme"
  assumes "\<forall>e \<in> set (db_evidence db). 0 < ev_ObservedAt e \<and> ev_ObservedAt e \<le> FarFuture"
  defines "all \<equiv> \<lambda>uuid_string t c. loadEvidence t (ctl_ID c) (uuid_string (ctl_ID c)) FarFuture db"
  assumes "derived now (latest_of uuid_string t c db) = (cls, latest, valid, stale, cnt, at')"
  shows "stale \<longleftrightarrow> computeFreshness (all uuid_string t c) (class_of c) now \<noteq> FreshnessFresh"
    and "latest = None \<longleftrightarrow> computeFreshness (all uuid_string t c) (class_of c) now = FreshnessNoEvidence"
    and "cnt = int32 (length (all uuid_string t c))" and "at' = pgTime now"
proof -
  let ?ev = "control_evidence uuid_string t (ctl_ID c) db"
  note load = loadEvidence_control_evidence [of db t "ctl_ID c" uuid_string]
  have len: "length (all uuid_string t c) = length ?ev" and obs: "ar_observedAt ` set (all uuid_string t c) = ev_ObservedAt ` set ?ev"
    unfolding all_def using assms(1) load by blast+
  have none: "all uuid_string t c = [] \<longleftrightarrow> ?ev = []" using len by (metis length_0_conv)
  have pos: "0 < Max (ev_ObservedAt ` set ?ev)" if "?ev \<noteq> []"
  proof -
    have "Max (ev_ObservedAt ` set ?ev) \<in> ev_ObservedAt ` set ?ev" using that by (intro Max_in) auto
    with assms(1) show ?thesis by (auto simp: control_evidence_def)
  qed
  define M where "M = Max (ev_ObservedAt ` set ?ev)"
  have "latest_from 0 (all uuid_string t c) = M" if "?ev \<noteq> []"
    using that pos [OF that] by (simp add: latest_from_Max obs M_def)
  then have fresh: "computeFreshness (all uuid_string t c) (class_of c) now =
      (if ?ev = [] then FreshnessNoEvidence
       else if M < now - fst (freshnessMaxAge (class_of c)) then FreshnessStale else FreshnessFresh)"
    using none by (simp add: computeFreshness_def Let_def)
  have obs1: "lr_LatestObservedAt (latest_of uuid_string t c db) = (if ?ev = [] then None else Some M)"
    by (simp add: latest_of_observed M_def)
  have "stale = cf_IsStale (deriveFreshness (latest_of uuid_string t c db) now)"
    and "latest = pgTimestamptzPtr (lr_LatestObservedAt (latest_of uuid_string t c db))"
    using assms(3) by (simp_all add: derived_def Let_def)
  then have out: "stale \<longleftrightarrow> ?ev = [] \<or> M + fst (freshnessMaxAge (class_of c)) < now"
    "latest = (if ?ev = [] then None else pgTimestamptzPtr (Some M))"
    unfolding derive_stale obs1 by (simp_all add: FreshnessMaxAge_def pgTimestamptzPtr_def)
  show "cnt = int32 (length (all uuid_string t c))" "at' = pgTime now"
    using assms(3) len by (simp_all add: derived_def Let_def)
  show "stale \<longleftrightarrow> computeFreshness (all uuid_string t c) (class_of c) now \<noteq> FreshnessFresh"
    unfolding out fresh by auto
  show "latest = None \<longleftrightarrow> computeFreshness (all uuid_string t c) (class_of c) now = FreshnessNoEvidence"
    unfolding out fresh using pos by (auto simp: pgTimestamptzPtr_None_iff M_def)
qed


section \<open>The passing set\<close>

text \<open>What a snapshot taken at \<open>now\<close> can see.\<close>

definition visible :: "uuid \<Rightarrow> gotime \<Rightarrow> 'z eval_db_scheme \<Rightarrow> evaluation set" where
  "visible t now db = {e \<in> set (db_evaluations db). ce_TenantID e = t \<and> ce_EvaluatedAt e \<le> now}"

abbreviation same_tuple :: "evaluation \<Rightarrow> evaluation \<Rightarrow> bool" where
  "same_tuple e e' \<equiv> ce_ControlID e' = ce_ControlID e \<and> ce_ScopeCellID e' = ce_ScopeCellID e"

definition newest :: "uuid \<Rightarrow> gotime \<Rightarrow> 'z eval_db_scheme \<Rightarrow> evaluation \<Rightarrow> bool" where
  "newest t now db e \<longleftrightarrow> e \<in> visible t now db
     \<and> (\<forall>e' \<in> visible t now db. same_tuple e e' \<longrightarrow> (ce_EvaluatedAt e', ce_CreatedAt e') \<le> (ce_EvaluatedAt e, ce_CreatedAt e))"

lemma evaluation_order_le:
  "ce_ScopeCellID e = ce_ScopeCellID e' \<Longrightarrow>
     evaluation_order e \<le> evaluation_order e' \<longleftrightarrow> (ce_EvaluatedAt e', ce_CreatedAt e') \<le> (ce_EvaluatedAt e, ce_CreatedAt e)"
  unfolding evaluation_order_def by (simp add: less_eq_prod_def less_prod_def)

lemma set_latest_per_cell:
  fixes db :: "'z eval_db_scheme"
  assumes "inj_on (\<lambda>e. (ce_ControlID e, ce_ScopeCellID e, ce_EvaluatedAt e, ce_CreatedAt e)) (visible t now db)"
  shows "set (latest_per_cell t (Some now) db) = {e. newest t now db e}"
proof -
  let ?key = "\<lambda>r. (ce_ControlID r, ce_ScopeCellID r)" and ?ord = "\<lambda>r. (ce_ControlID r, evaluation_order r)"
  let ?rows = "sort_key ?ord (filter (\<lambda>r. ce_TenantID r = t \<and> sql_le (ce_EvaluatedAt r) (Some now)) (db_evaluations db))"
  have rows: "set ?rows = visible t now db" by (auto simp: visible_def sql_le_def)
  have sub: "set (sql_distinct_on ?key ?rows) \<subseteq> visible t now db" using set_sql_distinct_on [of ?key ?rows] rows by simp
  have least: "newest t now db r" if "r \<in> set (sql_distinct_on ?key ?rows)" for r
    unfolding newest_def
  proof (intro conjI ballI impI)
    show "r \<in> visible t now db" using sub that by blast
    fix e assume e: "e \<in> visible t now db" "same_tuple r e"
    from e(1) rows have "e \<in> set ?rows" by blast
    from sql_distinct_on_least [OF sorted_sort_key that this] e(2) have "?ord r \<le> ?ord e" by simp
    with e(2) show "(ce_EvaluatedAt e, ce_CreatedAt e) \<le> (ce_EvaluatedAt r, ce_CreatedAt r)"
      using evaluation_order_le [of r e] by (simp add: less_eq_prod_def)
  qed
  moreover have "e \<in> set (sql_distinct_on ?key ?rows)" if e: "newest t now db e" for e
  proof -
    from e have vis: "e \<in> visible t now db" by (simp add: newest_def)
    then have "?key e \<in> ?key ` set (sql_distinct_on ?key ?rows)" using rows by (simp add: keys_sql_distinct_on)
    then obtain r where r: "r \<in> set (sql_distinct_on ?key ?rows)" "?key r = ?key e" by auto
    from least [OF r(1)] e r(2) have "(ce_EvaluatedAt r, ce_CreatedAt r) = (ce_EvaluatedAt e, ce_CreatedAt e)"
      by (intro order_antisym) (auto simp: newest_def)
    with assms vis r sub have "r = e" by (auto dest!: inj_onD)
    with r show ?thesis by simp
  qed
  ultimately show ?thesis unfolding latest_per_cell_def by blast
qed

lemma ListPassing_exact:
  fixes db :: "'z eval_db_scheme"
  assumes "inj_on (\<lambda>e. (ce_ControlID e, ce_ScopeCellID e, ce_EvaluatedAt e, ce_CreatedAt e)) (visible t now db)"
  shows "c \<in> set (ListPassingControlsForDay t (Some now) db) \<longleftrightarrow>
      (\<exists>e \<in> visible t now db. ce_ControlID e = c)
      \<and> (\<forall>e. newest t now db e \<and> ce_ControlID e = c \<longrightarrow> ce_Result e = ResultPass \<and> ce_FreshnessStatus e = FreshnessFresh)"
proof -
  have "ce_ControlID ` set (latest_per_cell t (Some now) db) = ce_ControlID ` visible t now db"
  proof -
    let ?key = "\<lambda>r. (ce_ControlID r, ce_ScopeCellID r)"
    let ?rows = "sort_key (\<lambda>r. (ce_ControlID r, evaluation_order r))
        (filter (\<lambda>r. ce_TenantID r = t \<and> sql_le (ce_EvaluatedAt r) (Some now)) (db_evaluations db))"
    have "fst ` ?key ` set (sql_distinct_on ?key ?rows) = fst ` ?key ` set ?rows" by (simp only: keys_sql_distinct_on)
    then show ?thesis by (simp add: latest_per_cell_def image_image visible_def sql_le_def)
  qed
  then have "(\<exists>e \<in> visible t now db. ce_ControlID e = c) \<longleftrightarrow> c \<in> ce_ControlID ` set (latest_per_cell t (Some now) db)"
    by auto
  with set_latest_per_cell [OF assms] show ?thesis
    by (auto simp: ListPassingControlsForDay_def Let_def)
qed


section \<open>The flips\<close>

lemma note_day_map:
  assumes "0 < day"
  shows "map_of (note_day day i m) = (map_of m)(i \<mapsto> (case map_of m i of None \<Rightarrow> day | Some d \<Rightarrow> max d day))"
proof -
  have upd: "map_of (map (\<lambda>(k, x). (k, if k = i then day else x)) m) = (map_of m)(i := map_option (\<lambda>_. day) (map_of m i))"
    by (induction m) auto
  show ?thesis
    using assms upd by (cases "map_of m i") (auto simp: note_day_def map_add_def fun_eq_iff split: option.splits)
qed

lemma note_day_distinct:
  assumes "distinct (map fst m)"
  shows "distinct (map fst (note_day day i m))"
proof -
  have "fst \<circ> (\<lambda>(k, x). (k, if k = i then day else x)) = fst" by (simp add: fun_eq_iff)
  moreover have "map_of m i = None \<Longrightarrow> i \<notin> fst ` set m" by (simp add: map_of_eq_None_iff)
  ultimately show ?thesis using assms by (cases "map_of m i") (simp_all add: note_day_def)
qed

text \<open>The days on which a control was passing, and the latest of them.\<close>

definition passing_days :: "drift_Snapshot list \<Rightarrow> uuid \<Rightarrow> gotime set" where
  "passing_days ss i = sn_SnapshotDate ` {s \<in> set ss. i \<in> set (sn_PassingControlIDs s)}"

definition latest_day :: "gotime set \<Rightarrow> gotime option" where
  "latest_day D = (if D = {} then None else Some (Max D))"

lemma note_snapshot_map:
  assumes "0 < day"
  shows "map_of (note_snapshot latest day is m) i =
     (if i \<in> set is \<and> i \<notin> latest then Some (case map_of m i of None \<Rightarrow> day | Some d \<Rightarrow> max d day) else map_of m i)"
  using assms
  by (induction latest day "is" m rule: note_snapshot.induct) (auto simp: note_day_map split: option.splits)

lemma note_snapshot_distinct: "distinct (map fst m) \<Longrightarrow> distinct (map fst (note_snapshot latest day is m))"
  by (induction latest day "is" m rule: note_snapshot.induct) (simp_all add: note_day_distinct)

lemma last_passing_distinct: "distinct (map fst m) \<Longrightarrow> distinct (map fst (last_passing_days latest ss m))"
  by (induction latest ss m rule: last_passing_days.induct) (simp_all add: note_snapshot_distinct)

lemma last_passing_map:
  assumes "\<forall>s \<in> set ss. 0 < sn_SnapshotDate s"
  shows "map_of (last_passing_days latest ss m) i =
     (if i \<in> latest then map_of m i else latest_day (set_option (map_of m i) \<union> passing_days ss i))"
  using assms
proof (induction latest ss m rule: last_passing_days.induct)
  case (1 latest m)
  then show ?case by (cases "map_of m i") (auto simp: latest_day_def passing_days_def)
next
  case (2 latest s ss m)
  let ?m = "note_snapshot latest (sn_SnapshotDate s) (sn_PassingControlIDs s) m"
  have split: "passing_days (s # ss) i =
      (if i \<in> set (sn_PassingControlIDs s) then insert (sn_SnapshotDate s) (passing_days ss i) else passing_days ss i)"
    by (auto simp: passing_days_def)
  have fin: "finite (passing_days ss i)" by (simp add: passing_days_def)
  have "latest_day (insert (max d x) D) = latest_day (insert d (insert x D))" if "finite D" for d x and D :: "gotime set"
    using that by (cases "D = {}") (simp_all add: latest_day_def max.assoc)
  with 2 fin split show ?case
    by (cases "map_of m i") (auto simp: note_snapshot_map)
qed

lemma latest_day_Some_iff:
  "finite D \<Longrightarrow> latest_day D = Some d \<longleftrightarrow> d \<in> D \<and> (\<forall>x \<in> D. x \<le> d)"
  by (auto simp: latest_day_def Max_eq_iff)

lemma computeFlips_exact:
  assumes "\<And>m. mset (iter m) = mset m" and "\<forall>s \<in> set snaps. 0 < sn_SnapshotDate s" and "2 \<le> length snaps"
  shows "distinct (map df_ControlID (computeFlips iter snaps))"
    and "\<lparr>df_ControlID = i, df_LastPassing = d, df_CurrentResult = ''not_passing''\<rparr> \<in> set (computeFlips iter snaps) \<longleftrightarrow>
      i \<notin> set (sn_PassingControlIDs (last snaps)) \<and> d \<in> passing_days snaps i \<and> (\<forall>x \<in> passing_days snaps i. x \<le> d)"
proof -
  let ?latest = "set (sn_PassingControlIDs (last snaps))"
  let ?m = "last_passing_days ?latest snaps []"
  have dist: "distinct (map fst ?m)" by (rule last_passing_distinct) simp
  have flips: "computeFlips iter snaps =
      map (\<lambda>(i, day). \<lparr>df_ControlID = i, df_LastPassing = day, df_CurrentResult = ''not_passing''\<rparr>) (iter ?m)"
    using assms(3) by (simp add: computeFlips_def)
  have "mset (map fst (iter ?m)) = mset (map fst ?m)" using assms(1) by simp
  with dist have "distinct (map fst (iter ?m))" by (metis mset_eq_imp_distinct_iff)
  then show "distinct (map df_ControlID (computeFlips iter snaps))"
    by (simp add: flips o_def case_prod_unfold)
  have "set (iter ?m) = set ?m" using assms(1) by (metis mset_eq_setD)
  then have "\<lparr>df_ControlID = i, df_LastPassing = d, df_CurrentResult = ''not_passing''\<rparr> \<in> set (computeFlips iter snaps) \<longleftrightarrow>
      (i, d) \<in> set ?m" by (force simp: flips)
  also have "\<dots> \<longleftrightarrow> map_of ?m i = Some d" using dist by simp
  also have "\<dots> \<longleftrightarrow> i \<notin> ?latest \<and> latest_day (passing_days snaps i) = Some d"
    by (auto simp: last_passing_map [OF assms(2)])
  finally show "\<lparr>df_ControlID = i, df_LastPassing = d, df_CurrentResult = ''not_passing''\<rparr> \<in> set (computeFlips iter snaps) \<longleftrightarrow>
      i \<notin> ?latest \<and> d \<in> passing_days snaps i \<and> (\<forall>x \<in> passing_days snaps i. x \<le> d)"
    by (simp add: latest_day_Some_iff passing_days_def)
qed


lemma flips_listed:
  assumes "\<And>m. mset (iter m) = mset m" and "\<forall>s \<in> set snaps. 0 < sn_SnapshotDate s" and "2 \<le> length snaps"
  shows "distinct (map df_ControlID (computeFlips iter snaps))
    \<and> (\<forall>i d. (\<exists>f \<in> set (computeFlips iter snaps). df_ControlID f = i \<and> df_LastPassing f = d) \<longleftrightarrow>
         i \<notin> set (sn_PassingControlIDs (last snaps)) \<and> d \<in> passing_days snaps i \<and> (\<forall>x \<in> passing_days snaps i. x \<le> d))"
proof -
  have "f = \<lparr>df_ControlID = df_ControlID f, df_LastPassing = df_LastPassing f, df_CurrentResult = ''not_passing''\<rparr>"
    if "f \<in> set (computeFlips iter snaps)" for f
    using that by (auto simp: computeFlips_def split: if_splits)
  then have "(\<exists>f \<in> set (computeFlips iter snaps). df_ControlID f = i \<and> df_LastPassing f = d) \<longleftrightarrow>
      \<lparr>df_ControlID = i, df_LastPassing = d, df_CurrentResult = ''not_passing''\<rparr> \<in> set (computeFlips iter snaps)" for i d
    by (metis DriftRow.select_convs(1,2))
  with computeFlips_exact [OF assms] show ?thesis by simp
qed

lemma report_flips:
  assumes "\<And>m. mset (iter m) = mset m" and "\<forall>s \<in> set (map snapshotFromRow rows). 0 < sn_SnapshotDate s"
  shows "distinct (map df_ControlID (computeFlips iter (map snapshotFromRow rows)))
    \<and> (\<forall>i d. (\<exists>f \<in> set (computeFlips iter (map snapshotFromRow rows)). df_ControlID f = i \<and> df_LastPassing f = d) \<longleftrightarrow>
         2 \<le> length rows \<and> i \<notin> set (dw_PassingControlIds (last rows))
         \<and> d \<in> passing_days (map snapshotFromRow rows) i \<and> (\<forall>x \<in> passing_days (map snapshotFromRow rows) i. x \<le> d))"
proof (cases "2 \<le> length rows")
  case True
  then have "sn_PassingControlIDs (last (map snapshotFromRow rows)) = dw_PassingControlIds (last rows)"
    by (subst last_map) (auto simp: snapshotFromRow_def)
  with flips_listed [OF assms] True show ?thesis by (simp only: length_map simp_thms)
qed (simp add: computeFlips_def)


section \<open>One snapshot a day\<close>

lemma subseq_sql_distinct_on: "subseq (sql_distinct_on k t) t"
proof (induction k t rule: sql_distinct_on.induct)
  case (2 k r rs)
  have "subseq (sql_distinct_on k (filter (\<lambda>x. k x \<noteq> k r) rs)) rs"
    using 2 subseq_filter_left [of "\<lambda>x. k x \<noteq> k r" rs] by (rule subseq_order.trans)
  then show ?case by simp
qed simp

lemma length_ListPassing: "length (ListPassingControlsForDay t asOf db) \<le> length (db_evaluations db)"
proof -
  let ?P = "\<lambda>r. ce_TenantID r = t \<and> sql_le (ce_EvaluatedAt r) asOf"
  have "length (latest_per_cell t asOf db) \<le> length (filter ?P (db_evaluations db))"
    unfolding latest_per_cell_def by (rule order_trans [OF list_emb_length [OF subseq_sql_distinct_on]]) simp
  also have "\<dots> \<le> length (db_evaluations db)" by (rule length_filter_le)
  finally have "length (remdups (map ce_ControlID (latest_per_cell t asOf db))) \<le> length (db_evaluations db)"
    using length_remdups_leq [of "map ce_ControlID (latest_per_cell t asOf db)"] by simp
  then show ?thesis
    unfolding ListPassingControlsForDay_def Let_def by (rule order_trans [OF length_filter_le])
qed

lemma sorted_wrt_subseq: "subseq ys xs \<Longrightarrow> sorted_wrt P xs \<Longrightarrow> sorted_wrt P ys"
  by (induction rule: list_emb.induct) (auto dest: subseq_set)

lemma drift_snapshots:
  fixes db :: "'z readmodel_db_scheme"
  defines "rows \<equiv> \<lambda>t since. {r \<in> set (db_drift db). dw_TenantID r = t \<and> sql_ge (dw_SnapshotDate r) since}"
  shows "sorted_wrt (<) (map dw_SnapshotDate (rev (ListLatestDriftSnapshotsSince t since db)))"
    and "dw_SnapshotDate ` set (ListLatestDriftSnapshotsSince t since db) = dw_SnapshotDate ` rows t since"
    and "r \<in> set (ListLatestDriftSnapshotsSince t since db) \<Longrightarrow>
      r \<in> rows t since \<and> (\<forall>r' \<in> rows t since. dw_SnapshotDate r' = dw_SnapshotDate r \<longrightarrow> dw_CapturedAt r' \<le> dw_CapturedAt r)"
proof -
  let ?ord = "\<lambda>r. (- dw_SnapshotDate r, - dw_CapturedAt r)"
  let ?rows = "sort_key ?ord (filter (\<lambda>r. dw_TenantID r = t \<and> sql_ge (dw_SnapshotDate r) since) (db_drift db))"
  have list: "ListLatestDriftSnapshotsSince t since db = sql_distinct_on dw_SnapshotDate ?rows"
    by (simp add: ListLatestDriftSnapshotsSince_def)
  have set: "set ?rows = rows t since" by (simp add: rows_def)
  have "sorted_wrt (\<lambda>x y. dw_SnapshotDate y \<le> dw_SnapshotDate x) ?rows"
    using sorted_map_fst [of "\<lambda>r. - dw_SnapshotDate r" "\<lambda>r. - dw_CapturedAt r"
        "filter (\<lambda>r. dw_TenantID r = t \<and> sql_ge (dw_SnapshotDate r) since) (db_drift db)"]
    by (simp add: sorted_map)
  then have "sorted_wrt (\<lambda>x y. dw_SnapshotDate y \<le> dw_SnapshotDate x) (ListLatestDriftSnapshotsSince t since db)"
    unfolding list by (rule sorted_wrt_subseq [OF subseq_sql_distinct_on])
  then have "sorted (map dw_SnapshotDate (rev (ListLatestDriftSnapshotsSince t since db)))"
    by (simp add: sorted_map sorted_wrt_rev)
  moreover have "distinct (map dw_SnapshotDate (rev (ListLatestDriftSnapshotsSince t since db)))"
    by (simp add: list distinct_sql_distinct_on flip: rev_map)
  ultimately show "sorted_wrt (<) (map dw_SnapshotDate (rev (ListLatestDriftSnapshotsSince t since db)))"
    by (simp only: strict_sorted_iff)
  show "dw_SnapshotDate ` set (ListLatestDriftSnapshotsSince t since db) = dw_SnapshotDate ` rows t since"
    unfolding list keys_sql_distinct_on set ..
  show "r \<in> rows t since \<and> (\<forall>r' \<in> rows t since. dw_SnapshotDate r' = dw_SnapshotDate r \<longrightarrow> dw_CapturedAt r' \<le> dw_CapturedAt r)"
    if r: "r \<in> set (ListLatestDriftSnapshotsSince t since db)"
  proof (intro conjI ballI impI)
    show "r \<in> rows t since" using r set_sql_distinct_on [of dw_SnapshotDate ?rows] unfolding list set by blast
    fix r' assume r': "r' \<in> rows t since" "dw_SnapshotDate r' = dw_SnapshotDate r"
    from r'(1) have "r' \<in> set ?rows" by (simp only: set)
    from sql_distinct_on_least [OF sorted_sort_key r [unfolded list] this r'(2)] r'(2)
    show "dw_CapturedAt r' \<le> dw_CapturedAt r" by (simp add: less_eq_prod_def)
  qed
qed


section \<open>The refresh only writes the read models\<close>

definition ledgers_kept :: "'z readmodel_db_scheme \<Rightarrow> 'z readmodel_db_scheme \<Rightarrow> bool" where
  "ledgers_kept db db' \<longleftrightarrow> db' = db\<lparr>db_freshness := db_freshness db', db_drift := db_drift db'\<rparr>"

lemma ledgers_kept_refl [simp]: "ledgers_kept db db"
  by (simp add: ledgers_kept_def)

lemma ledgers_kept_trans: "ledgers_kept a b \<Longrightarrow> ledgers_kept b c \<Longrightarrow> ledgers_kept a c"
  unfolding ledgers_kept_def by (erule ssubst, erule ssubst) simp

lemma UpsertEvidenceFreshness_kept: "UpsertEvidenceFreshness row ra db = Inr db' \<Longrightarrow> ledgers_kept db db'"
  by (auto simp: UpsertEvidenceFreshness_def ledgers_kept_def Let_def split: if_splits)

lemma refresh_rows_kept: "refresh_rows ids now dbnow t w rs db = Inr (n, db') \<Longrightarrow> ledgers_kept db db'"
proof (induction rs arbitrary: w db)
  case (Cons r rs)
  obtain db1 where up: "upsertFreshness (ids w) dbnow t (deriveFreshness r now) now db = Inr db1"
    and rest: "refresh_rows ids now dbnow t (Suc w) rs db1 = Inr (n, db')"
    using Cons.prems by (auto split: sum.splits)
  from up have "ledgers_kept db db1"
    by (auto simp: upsertFreshness_def dest: UpsertEvidenceFreshness_kept split: sum.splits)
  with Cons.IH [OF rest] show ?case by (rule ledgers_kept_trans [rotated])
qed simp

lemma Refresh_kept: "ledgers_kept db (snd (Refresh uuid_string env ids now dbnow db))"
proof -
  obtain res db' where run: "Refresh uuid_string env ids now dbnow db = (res, db')" by fastforce
  from run have "ledgers_kept db db'"
    unfolding Refresh_def by (cases rule: inTx_cases) (auto dest: refresh_rows_kept)
  with run show ?thesis by simp
qed

lemma InsertDriftSnapshot_InrD:
  "InsertDriftSnapshot i t day passing passingIds trigger dbnow db = Inr (row, db') \<Longrightarrow>
     drift_check row \<and> dw_TenantID row = t \<and> day = Some (dw_SnapshotDate row) \<and> dw_PassingControlIds row = passingIds
     \<and> dw_ControlsPassing row = passing \<and> dw_Trigger row = trigger \<and> db' = db\<lparr>db_drift := db_drift db @ [row]\<rparr>"
  by (auto simp: InsertDriftSnapshot_def Let_def split: option.splits if_splits)

lemma CaptureSnapshot_cases:
  assumes "CaptureSnapshot env newID now dbnow trigger db = (res, db')"
  obtains (fail) e where "res = Inl e" "db' = db"
  | (commit) t row where "tenant_of env = Some t" "res = Inr (snapshotFromRow row)" "drift_check row"
      "dw_TenantID row = t" "drift_pgDate now = Some (dw_SnapshotDate row)" "dw_Trigger row = trigger"
      "dw_PassingControlIds row = ListPassingControlsForDay t (pgTimestamptz now) db"
      "db' = db\<lparr>db_drift := db_drift db @ [row]\<rparr>"
  using assms unfolding CaptureSnapshot_def Let_def
proof (cases rule: inTx_cases)
  case (commit t a)
  obtain row where ins: "InsertDriftSnapshot newID t (drift_pgDate now)
      (int32 (length (ListPassingControlsForDay t (pgTimestamptz now) db)))
      (ListPassingControlsForDay t (pgTimestamptz now) db) trigger dbnow db = Inr (row, db')" "a = snapshotFromRow row"
    using commit(4) by (auto split: sum.splits)
  from InsertDriftSnapshot_InrD [OF ins(1)] ins(2) commit(1,2) that(2) [of t row] show ?thesis by simp
qed (rule that(1))

lemma CaptureSnapshot_kept: "ledgers_kept db (snd (CaptureSnapshot env newID now dbnow trigger db))"
proof -
  obtain res db' where run: "CaptureSnapshot env newID now dbnow trigger db = (res, db')" by fastforce
  from run have "ledgers_kept db db'" by (cases rule: CaptureSnapshot_cases) (simp_all add: ledgers_kept_def)
  with run show ?thesis by simp
qed

lemma RefreshTenant_kept: "ledgers_kept db (snd (RefreshTenant uuid_string rd trigger db))"
proof -
  obtain r1 db1 where a: "Refresh uuid_string (rd_env_freshness rd) (rd_ids rd) (rd_now rd) (rd_dbnow rd) db = (r1, db1)" by fastforce
  obtain r2 db2 where b: "CaptureSnapshot (rd_env_drift rd) (rd_snapshot_id rd) (rd_now_drift rd) (rd_dbnow rd) trigger db1 = (r2, db2)"
    by fastforce
  have "ledgers_kept db db1" "ledgers_kept db1 db2"
    using Refresh_kept [of db uuid_string "rd_env_freshness rd" "rd_ids rd" "rd_now rd" "rd_dbnow rd"] a
      CaptureSnapshot_kept [of db1 "rd_env_drift rd" "rd_snapshot_id rd" "rd_now_drift rd" "rd_dbnow rd" trigger] b
    by simp_all
  then show ?thesis
    by (cases r1; cases r2) (auto simp: RefreshTenant_def a b intro: ledgers_kept_trans)
qed

lemma refresh_tenants_kept: "ledgers_kept db (snd (refresh_tenants uuid_string ctx draw n ts db))"
proof (induction ts arbitrary: n db)
  case (Cons t ts)
  show ?case
  proof (cases "WithTenant ctx (uuid_string t)")
    case (Inr tctx)
    obtain r db1 where run: "RefreshTenant uuid_string (draw tctx) TriggerScheduled db = (r, db1)" by fastforce
    then have "ledgers_kept db db1" using RefreshTenant_kept [of db uuid_string "draw tctx" TriggerScheduled] by simp
    then show ?thesis by (cases r) (auto simp: Inr run intro: ledgers_kept_trans [OF _ Cons.IH])
  qed (simp add: Cons.IH)
qed simp


section \<open>Concrete values\<close>

definition demo_eval :: "uuid \<Rightarrow> uuid option \<Rightarrow> gotime \<Rightarrow> string \<Rightarrow> evaluation" where
  "demo_eval i cell when res =
     \<lparr>ce_ID = i, ce_TenantID = 1, ce_ControlID = 7, ce_ScopeCellID = cell, ce_EvalRunID = 1, ce_EvaluatedAt = when,
      ce_Result = res, ce_FreshnessStatus = FreshnessFresh, ce_EvidenceCountInWindow = 1, ce_LastObservedAt = None,
      ce_FreshnessClass = None, ce_Trigger = TriggerManual, ce_CreatedAt = when\<rparr>"

definition demo_readmodel_db :: readmodel_db where
  "demo_readmodel_db =
     \<lparr>db_dimensions = [], db_cells = [], db_controls = [demo_control], db_evidence = db_evidence demo_eval_db,
      db_evaluations = [demo_eval 1 (Some 5) (days 1) ResultFail, demo_eval 2 (Some 6) (days 9) ResultPass],
      db_freshness = [],
      db_drift =
        [\<lparr>dw_ID = 1, dw_TenantID = 1, dw_SnapshotDate = days 8, dw_ControlsPassing = 1, dw_PassingControlIds = [7],
          dw_CapturedAt = days 8, dw_Trigger = TriggerScheduled, dw_CreatedAt = days 8\<rparr>,
         \<lparr>dw_ID = 2, dw_TenantID = 1, dw_SnapshotDate = days 9, dw_ControlsPassing = 0, dw_PassingControlIds = [],
          dw_CapturedAt = days 9, dw_Trigger = TriggerScheduled, dw_CreatedAt = days 9\<rparr>]\<rparr>"

lemma demo_readmodel_evidence:
  "\<forall>e \<in> set (db_evidence demo_readmodel_db). 0 < ev_ObservedAt e \<and> ev_ObservedAt e \<le> FarFuture"
  by (simp add: demo_readmodel_db_def demo_eval_db_def FarFuture_def days_def hours_def)


lemma demo_refresh:
  "\<exists>n db'. Refresh (\<lambda>_. ''u'') demo_env (\<lambda>_. 3) (days 11) (days 11) demo_readmodel_db = (Inr n, db')"
  by (simp add: Refresh_def inTx_run ListControlsWithLatestEvidence_def demo_readmodel_db_def demo_control_def
      demo_eval_db_def upsertFreshness_def UpsertEvidenceFreshness_def deriveFreshness_def control_evidence_def
      freshness_check_def pgTimestamptz_def pgTimestamptzPtr_def int32_small Let_def days_def hours_def)


lemma demo_capture:
  "\<exists>snap db'. CaptureSnapshot demo_env 3 (days 10) (days 10) TriggerManual demo_readmodel_db = (Inr snap, db')"
proof -
  have "length (ListPassingControlsForDay 1 (Some (days 10)) demo_readmodel_db) \<le> length (db_evaluations demo_readmodel_db)"
    by (rule length_ListPassing)
  then have "length (ListPassingControlsForDay 1 (Some (days 10)) demo_readmodel_db) \<le> 2"
    by (simp add: demo_readmodel_db_def)
  then show ?thesis
    by (simp add: CaptureSnapshot_def inTx_run InsertDriftSnapshot_def drift_check_def drift_pgDate_def pgTimestamptz_def
        demo_readmodel_db_def int32_small Let_def days_def hours_def)
qed


section \<open>Properties\<close>

text \<open>
  C12. The freshness read model agrees with the evaluation engine. After a successful refresh every
  active control of the tenant has exactly one row; it is stale exactly when the engine, over the
  evidence it loads for the same control at the same clock, does not report fresh; it has no
  observation time exactly when the engine reports no evidence, and it counts the records the engine
  loads. The refresh writes this table only, and it leaves the row of every other key as it was: also
  the row of a control that has been superseded since, which is neither recomputed nor removed.
\<close>

theorem Refresh_agrees_with_engine:
  fixes db :: "'z readmodel_db_scheme"
  assumes "Refresh uuid_string env ids now dbnow db = (Inr n, db')" and "tenant_of env = Some t"
    and "distinct (map fr_key (db_freshness db))"
    and "distinct (map (\<lambda>c. (ctl_TenantID c, ctl_ID c)) (db_controls db))"
    and "\<forall>e \<in> set (db_evidence db). 0 < ev_ObservedAt e \<and> ev_ObservedAt e \<le> FarFuture"
  shows "db' = db\<lparr>db_freshness := db_freshness db'\<rparr> \<and> n = length (ListActiveControls t db)
    \<and> distinct (map fr_key (db_freshness db'))
    \<and> (\<forall>c \<in> set (ListActiveControls t db). \<exists>r \<in> set (db_freshness db'). fr_key r = (t, ctl_ID c)
         \<and> (let state = computeFreshness (loadEvidence t (ctl_ID c) (uuid_string (ctl_ID c)) FarFuture db) (class_of c) now
            in (fr_IsStale r \<longleftrightarrow> state \<noteq> FreshnessFresh) \<and> (fr_LatestObservedAt r = None \<longleftrightarrow> state = FreshnessNoEvidence))
         \<and> fr_EvidenceCount r = int32 (length (loadEvidence t (ctl_ID c) (uuid_string (ctl_ID c)) FarFuture db)))
    \<and> (\<forall>k. (\<forall>c \<in> set (ListActiveControls t db). k \<noteq> (t, ctl_ID c)) \<longrightarrow> freshness_of db' k = freshness_of db k)"
proof -
  let ?act = "filter (\<lambda>c. ctl_TenantID c = t \<and> ctl_SupersededBy c = None) (db_controls db)"
  have act: "set (ListActiveControls t db) = set ?act" "length (ListActiveControls t db) = length ?act"
    by (simp_all add: ListActiveControls_def)
  from assms(1,2) have run: "refresh_rows ids now dbnow t 0 (map (\<lambda>c. latest_of uuid_string t c db) ?act) db = Inr (n, db')"
    by (auto simp: Refresh_def inTx_Inr_iff ListControls_latest_of)
  have "distinct (map (\<lambda>c. (ctl_TenantID c, ctl_ID c)) ?act)" using assms(4) by (simp add: distinct_map_filter)
  then have "distinct (map lr_ControlID (map (\<lambda>c. latest_of uuid_string t c db) ?act))"
    by (auto simp: o_def distinct_map inj_on_def)
  note res = refresh_rows_InrD [OF run assms(3) this]
  have row: "\<exists>r \<in> set (db_freshness db'). fr_key r = (t, ctl_ID c)
         \<and> (let state = computeFreshness (loadEvidence t (ctl_ID c) (uuid_string (ctl_ID c)) FarFuture db) (class_of c) now
            in (fr_IsStale r \<longleftrightarrow> state \<noteq> FreshnessFresh) \<and> (fr_LatestObservedAt r = None \<longleftrightarrow> state = FreshnessNoEvidence))
         \<and> fr_EvidenceCount r = int32 (length (loadEvidence t (ctl_ID c) (uuid_string (ctl_ID c)) FarFuture db))"
    if c: "c \<in> set ?act" for c
  proof -
    from res c have "freshness_of db' (t, ctl_ID c) = Some (derived now (latest_of uuid_string t c db))" by simp
    then obtain r where r: "List.find (\<lambda>r. fr_key r = (t, ctl_ID c)) (db_freshness db') = Some r"
      "fr_content r = derived now (latest_of uuid_string t c db)"
      by (auto simp: freshness_of_def)
    note agree = derived_agrees [OF assms(5), of now uuid_string t c, OF r(2) [symmetric, unfolded fr_content_def]]
    from find_SomeD [OF r(1)] agree show ?thesis by (intro bexI [of _ r]) (simp_all add: Let_def)
  qed
  have rest: "freshness_of db' k = freshness_of db k" if "\<forall>c \<in> set ?act. k \<noteq> (t, ctl_ID c)" for k
  proof -
    from that have "k \<notin> (\<lambda>r. (t, lr_ControlID r)) ` set (map (\<lambda>c. latest_of uuid_string t c db) ?act)" by auto
    with res show ?thesis by blast
  qed
  show ?thesis unfolding act using res row rest by (simp only: length_map add_0) blast
qed

theorem Refresh_agrees_with_engine_witness:
  "\<exists>db' :: readmodel_db. \<exists>r \<in> set (db_freshness db'). fr_key r = (1, 7)
     \<and> (fr_IsStale r \<longleftrightarrow> computeFreshness (loadEvidence 1 7 ''u'' FarFuture demo_readmodel_db) (class_of demo_control) (days 11) \<noteq> FreshnessFresh)"
proof -
  obtain n db' where run: "Refresh (\<lambda>_. ''u'') demo_env (\<lambda>_. 3) (days 11) (days 11) demo_readmodel_db = (Inr n, db')"
    using demo_refresh by blast
  have "distinct (map fr_key (db_freshness demo_readmodel_db))"
    "distinct (map (\<lambda>c. (ctl_TenantID c, ctl_ID c)) (db_controls demo_readmodel_db))"
    by (simp_all add: demo_readmodel_db_def)
  from Refresh_agrees_with_engine [OF run demo_env_simps(1) this demo_readmodel_evidence]
  have "\<forall>c \<in> set (ListActiveControls 1 demo_readmodel_db). \<exists>r \<in> set (db_freshness db'). fr_key r = (1, ctl_ID c)
     \<and> (fr_IsStale r \<longleftrightarrow> computeFreshness (loadEvidence 1 (ctl_ID c) ''u'' FarFuture demo_readmodel_db) (class_of c) (days 11) \<noteq> FreshnessFresh)"
    by (auto simp: Let_def)
  moreover have "demo_control \<in> set (ListActiveControls 1 demo_readmodel_db)" "ctl_ID demo_control = 7"
    by (simp_all add: ListActiveControls_def demo_readmodel_db_def demo_control_def)
  ultimately show ?thesis by (intro exI [of _ db']) force
qed


text \<open>
  C20. A captured snapshot appends one row for the calendar day and nothing else, and its passing set is
  the worst-cell roll-up: a control is in it exactly when it has been evaluated by then and the newest
  evaluation of each of its cells is a fresh pass. The cells are those the control has ever been
  evaluated on, so a cell that no longer applies to the control still decides with its last result.
\<close>

theorem CaptureSnapshot_exact:
  fixes db :: "'z readmodel_db_scheme"
  assumes "CaptureSnapshot env newID now dbnow trigger db = (Inr snap, db')" and "tenant_of env = Some t"
    and "inj_on (\<lambda>e. (ce_ControlID e, ce_ScopeCellID e, ce_EvaluatedAt e, ce_CreatedAt e)) (visible t now db)"
  shows "\<exists>row. db' = db\<lparr>db_drift := db_drift db @ [row]\<rparr> \<and> snap = snapshotFromRow row
    \<and> dw_TenantID row = t \<and> dw_SnapshotDate row = truncDate now
    \<and> distinct (dw_PassingControlIds row) \<and> dw_ControlsPassing row = int (length (dw_PassingControlIds row))
    \<and> (\<forall>c. c \<in> set (dw_PassingControlIds row) \<longleftrightarrow>
          (\<exists>e \<in> visible t now db. ce_ControlID e = c)
          \<and> (\<forall>e. newest t now db e \<and> ce_ControlID e = c \<longrightarrow> ce_Result e = ResultPass \<and> ce_FreshnessStatus e = FreshnessFresh))"
  using assms(1)
proof (cases rule: CaptureSnapshot_cases)
  case (commit t' row)
  with assms(2) have t: "t' = t" by simp
  from commit(5) have now: "pgTimestamptz now = Some now" "dw_SnapshotDate row = truncDate now"
    by (auto simp: drift_pgDate_def pgTimestamptz_def split: if_splits)
  have ids: "dw_PassingControlIds row = ListPassingControlsForDay t (Some now) db" using commit(7) t now by simp
  have "distinct (dw_PassingControlIds row)" unfolding ids by (simp add: ListPassingControlsForDay_def Let_def)
  moreover have "dw_ControlsPassing row = int (length (dw_PassingControlIds row))" using commit(3) by (simp add: drift_check_def)
  ultimately show ?thesis
    using commit t now ListPassing_exact [OF assms(3)] by (intro exI [of _ row]) (simp add: ids)
qed simp

theorem CaptureSnapshot_exact_witness:
  "\<exists>row. fst (CaptureSnapshot demo_env 3 (days 10) (days 10) TriggerManual demo_readmodel_db) = Inr (snapshotFromRow row)
     \<and> 7 \<notin> set (dw_PassingControlIds row)"
proof -
  have "fst (CaptureSnapshot demo_env 3 (days 10) (days 10) TriggerManual demo_readmodel_db) \<noteq> Inl e" for e
    using demo_capture by auto
  then obtain snap db' where run: "CaptureSnapshot demo_env 3 (days 10) (days 10) TriggerManual demo_readmodel_db = (Inr snap, db')"
    by (cases "CaptureSnapshot demo_env 3 (days 10) (days 10) TriggerManual demo_readmodel_db") (metis sum.exhaust fst_conv)
  have vis: "visible 1 (days 10) demo_readmodel_db = {demo_eval 1 (Some 5) (days 1) ResultFail, demo_eval 2 (Some 6) (days 9) ResultPass}"
    by (auto simp: visible_def demo_readmodel_db_def demo_eval_def days_def hours_def)
  have inj: "inj_on (\<lambda>e. (ce_ControlID e, ce_ScopeCellID e, ce_EvaluatedAt e, ce_CreatedAt e)) (visible 1 (days 10) demo_readmodel_db)"
    unfolding vis by (auto simp: inj_on_def demo_eval_def)
  have "newest 1 (days 10) demo_readmodel_db (demo_eval 1 (Some 5) (days 1) ResultFail)"
    unfolding newest_def vis by (auto simp: demo_eval_def)
  then have bad: "\<not> (\<forall>e. newest 1 (days 10) demo_readmodel_db e \<and> ce_ControlID e = 7 \<longrightarrow> ce_Result e = ResultPass \<and> ce_FreshnessStatus e = FreshnessFresh)"
    by (auto simp: demo_eval_def intro!: exI [of _ "demo_eval 1 (Some 5) (days 1) ResultFail"])
  from CaptureSnapshot_exact [OF run demo_env_simps(1) inj] run bad show ?thesis by auto
qed

text \<open>
  A drift report covers the days of the window once each, in order, each with the newest snapshot of
  that day; the delta is the change from the first to the last of them; and the flipped controls are
  exactly those that pass on some day of the window but not on the last one, each listed once with the
  last day on which it passed, whatever the order in which the map of days is visited.
\<close>

theorem drift_Report_exact:
  fixes db :: "'z readmodel_db_scheme"
  assumes "tx_ok env" and "tenant_of env = Some t" and "\<And>m. mset (iter m) = mset m"
    and "\<forall>r \<in> set (db_drift db). 0 < dw_SnapshotDate r"
  shows "\<exists>rep since rows. drift_Report iter env now window db = (Inr rep, db)
    \<and> rp_Snapshots rep = map snapshotFromRow rows \<and> sorted_wrt (<) (map sn_SnapshotDate (rp_Snapshots rep))
    \<and> dw_SnapshotDate ` set rows = dw_SnapshotDate ` {r \<in> set (db_drift db). dw_TenantID r = t \<and> sql_ge (dw_SnapshotDate r) since}
    \<and> (\<forall>r \<in> set rows. r \<in> set (db_drift db) \<and> dw_TenantID r = t \<and>
         (\<forall>r' \<in> set (db_drift db). dw_TenantID r' = t \<and> dw_SnapshotDate r' = dw_SnapshotDate r \<longrightarrow> dw_CapturedAt r' \<le> dw_CapturedAt r))
    \<and> rp_Delta rep = (if rows = [] then 0 else dw_ControlsPassing (last rows) - dw_ControlsPassing (hd rows))
    \<and> distinct (map df_ControlID (rp_FlippedToOut rep))
    \<and> (\<forall>i d. (\<exists>f \<in> set (rp_FlippedToOut rep). df_ControlID f = i \<and> df_LastPassing f = d) \<longleftrightarrow>
         2 \<le> length rows \<and> i \<notin> set (dw_PassingControlIds (last rows))
         \<and> d \<in> passing_days (rp_Snapshots rep) i \<and> (\<forall>x \<in> passing_days (rp_Snapshots rep) i. x \<le> d))"
proof -
  define days_back where "days_back = max 1 (if 0 \<le> window then window div hours 24 else - ((- window) div hours 24))"
  define since where "since = drift_pgDate (now - days_back * hours 24)"
  define rows where "rows = rev (ListLatestDriftSnapshotsSince t since db)"
  define snaps where "snaps = map snapshotFromRow rows"
  define rep where "rep = \<lparr>rp_SinceDate = truncDate (now - days_back * hours 24), rp_ThroughDate = truncDate now,
      rp_Delta = computeDelta snaps, rp_FlippedToOut = computeFlips iter snaps, rp_Snapshots = snaps\<rparr>"
  have run: "drift_Report iter env now window db = (Inr rep, db)"
    by (simp add: drift_Report_def inTx_run assms(1,2) rep_def snaps_def rows_def since_def days_back_def Let_def rev_map)
  note list = drift_snapshots [where db = db and t = t and since = since]
  have dates: "map sn_SnapshotDate snaps = map dw_SnapshotDate rows"
    by (simp add: snaps_def snapshotFromRow_def)
  have rows_in: "r \<in> set (db_drift db) \<and> dw_TenantID r = t \<and>
      (\<forall>r' \<in> set (db_drift db). dw_TenantID r' = t \<and> dw_SnapshotDate r' = dw_SnapshotDate r \<longrightarrow> dw_CapturedAt r' \<le> dw_CapturedAt r)"
    if "r \<in> set rows" for r
    using list(3) [of r] that by (auto simp: rows_def)
  have pos: "\<forall>s \<in> set snaps. 0 < sn_SnapshotDate s"
    using rows_in assms(4) by (auto simp: snaps_def snapshotFromRow_def)
  have sel: "rp_Snapshots rep = snaps" "rp_Delta rep = computeDelta snaps" "rp_FlippedToOut rep = computeFlips iter snaps"
    by (simp_all add: rep_def)
  have "sorted_wrt (<) (map sn_SnapshotDate (rp_Snapshots rep))" using list(1) dates by (simp add: sel rows_def)
  moreover have "dw_SnapshotDate ` set rows =
      dw_SnapshotDate ` {r \<in> set (db_drift db). dw_TenantID r = t \<and> sql_ge (dw_SnapshotDate r) since}"
    using list(2) by (simp add: rows_def)
  moreover have "rp_Delta rep = (if rows = [] then 0 else dw_ControlsPassing (last rows) - dw_ControlsPassing (hd rows))"
    by (simp add: sel computeDelta_def snaps_def last_map hd_map snapshotFromRow_def)
  moreover note report_flips [OF assms(3) pos [unfolded snaps_def], folded snaps_def, folded sel]
  ultimately show ?thesis
    using run rows_in sel(1) snaps_def by (intro exI [of _ rep] exI [of _ since] exI [of _ rows] conjI) blast+
qed

lemma demo_report:
  "drift_Report (\<lambda>m. m) demo_env (days 10) (days 7) demo_readmodel_db = (Inr rep, db') \<Longrightarrow>
     rp_Snapshots rep = map snapshotFromRow (db_drift demo_readmodel_db)"
  by (auto simp: drift_Report_def inTx_run ListLatestDriftSnapshotsSince_def demo_readmodel_db_def drift_pgDate_def
      truncDate_def sql_ge_def days_def hours_def Let_def)

theorem drift_Report_exact_witness:
  "\<exists>rep. drift_Report (\<lambda>m. m) demo_env (days 10) (days 7) demo_readmodel_db = (Inr rep, demo_readmodel_db)
     \<and> (\<exists>f \<in> set (rp_FlippedToOut rep). df_ControlID f = 7 \<and> df_LastPassing f = days 8)"
proof -
  have "\<forall>r \<in> set (db_drift demo_readmodel_db). 0 < dw_SnapshotDate r"
    by (simp add: demo_readmodel_db_def days_def hours_def)
  from drift_Report_exact [OF demo_env_simps(2,1) refl this, of "days 10" "days 7"]
  obtain rep since rows where rep: "drift_Report (\<lambda>m. m) demo_env (days 10) (days 7) demo_readmodel_db = (Inr rep, demo_readmodel_db)"
    "rp_Snapshots rep = map snapshotFromRow rows"
    and flip: "\<forall>i d. (\<exists>f \<in> set (rp_FlippedToOut rep). df_ControlID f = i \<and> df_LastPassing f = d) \<longleftrightarrow>
         2 \<le> length rows \<and> i \<notin> set (dw_PassingControlIds (last rows))
         \<and> d \<in> passing_days (rp_Snapshots rep) i \<and> (\<forall>x \<in> passing_days (rp_Snapshots rep) i. x \<le> d)"
    by blast
  have snaps: "rp_Snapshots rep = map snapshotFromRow (db_drift demo_readmodel_db)" by (rule demo_report [OF rep(1)])
  have "map dw_PassingControlIds rows = map sn_PassingControlIDs (rp_Snapshots rep)"
    by (simp add: rep(2) snapshotFromRow_def)
  also have "\<dots> = [[7], []]" by (simp add: snaps demo_readmodel_db_def snapshotFromRow_def)
  finally obtain a b where "rows = [a, b]" "dw_PassingControlIds b = []" by (auto simp: map_eq_Cons_conv)
  moreover have "passing_days (rp_Snapshots rep) 7 = {days 8}"
  proof -
    have "{s \<in> set (rp_Snapshots rep). 7 \<in> set (sn_PassingControlIDs s)} =
        {snapshotFromRow (hd (db_drift demo_readmodel_db))}"
      unfolding snaps by (auto simp: demo_readmodel_db_def snapshotFromRow_def)
    then show ?thesis by (simp add: passing_days_def demo_readmodel_db_def snapshotFromRow_def)
  qed
  ultimately have "\<exists>f \<in> set (rp_FlippedToOut rep). df_ControlID f = 7 \<and> df_LastPassing f = days 8"
    using flip by simp
  with rep(1) show ?thesis by blast
qed

end
