(* ===== verification/Lifecycle.thy ===== *)
theory Lifecycle
  imports Atlas_Prelude
begin

text \<open>
  The contract that the workflow stores of the platform share. Each keeps a table whose
  rows carry a status, changes a status only along the edges of a documented diagram, and
  most of them write one row to an append-only audit table for every change.

  \<open>lifecycle\<close> is the contract on the status alone, \<open>audited_lifecycle\<close> adds the
  audit trail, \<open>ranked_lifecycle\<close> the fact that the diagram has no cycle. A store
  interprets them on its own step relation, so the consequences for whole runs are proved
  here once.
\<close>

text \<open>
  The abstract meaning of an audit trail: the trail of an entity that does not exist is
  empty; otherwise it begins with the start status, follows the edges of the diagram and
  ends with the current status.
\<close>

definition recorded :: "('s \<Rightarrow> 's \<Rightarrow> bool) \<Rightarrow> 's \<Rightarrow> 's option \<Rightarrow> 's list \<Rightarrow> bool" where
  "recorded edge start st tr \<longleftrightarrow>
     (case st of None \<Rightarrow> tr = []
      | Some s \<Rightarrow> tr \<noteq> [] \<and> hd tr = start \<and> successively edge tr \<and> last tr = s)"

lemma recorded_Some:
  "recorded edge start (Some s) tr \<Longrightarrow> edge s s' \<Longrightarrow> recorded edge start (Some s') (tr @ [s'])"
  by (auto simp: recorded_def successively_append_iff)

lemma recorded_None: "recorded edge start None tr \<Longrightarrow> recorded edge start (Some start) (tr @ [start])"
  by (simp add: recorded_def)


section \<open>Status changes\<close>

locale lifecycle =
  fixes step :: "'db \<Rightarrow> 'db \<Rightarrow> bool"
    and inv :: "'db \<Rightarrow> bool"
    and status_of :: "'db \<Rightarrow> 'i \<Rightarrow> 's option"
    and edge :: "'s \<Rightarrow> 's \<Rightarrow> bool"
    and start :: 's
  assumes step_inv: "step db db' \<Longrightarrow> inv db \<Longrightarrow> inv db'"
    and step_status: "step db db' \<Longrightarrow> inv db \<Longrightarrow> status_of db' i \<noteq> status_of db i \<Longrightarrow>
      \<exists>s'. status_of db' i = Some s' \<and>
           (case status_of db i of None \<Rightarrow> s' = start | Some s \<Rightarrow> edge s s')"
begin

lemma run_inv: "step\<^sup>*\<^sup>* db db' \<Longrightarrow> inv db \<Longrightarrow> inv db'"
  by (induction rule: rtranclp_induct) (auto intro: step_inv)

lemma run_status:
  "step\<^sup>*\<^sup>* db db' \<Longrightarrow> inv db \<Longrightarrow> status_of db i = Some s \<Longrightarrow>
     \<exists>s'. status_of db' i = Some s' \<and> edge\<^sup>*\<^sup>* s s'"
proof (induction rule: rtranclp_induct)
  case (step y z)
  then obtain s1 where s1: "status_of y i = Some s1" "edge\<^sup>*\<^sup>* s s1" by blast
  from step(1,4) have "inv y" by (rule run_inv)
  show ?case
  proof (cases "status_of z i = status_of y i")
    case False
    from step_status [OF step(2) \<open>inv y\<close> False] s1 show ?thesis
      by (auto intro: rtranclp.rtrancl_into_rtrancl)
  qed (use s1 in simp)
qed simp

lemma run_created:
  "step\<^sup>*\<^sup>* db db' \<Longrightarrow> inv db \<Longrightarrow> status_of db i = None \<Longrightarrow> status_of db' i = Some s \<Longrightarrow> edge\<^sup>*\<^sup>* start s"
proof (induction arbitrary: s rule: rtranclp_induct)
  case (step y z)
  from step(1,4) have inv: "inv y" by (rule run_inv)
  show ?case
  proof (cases "status_of z i = status_of y i")
    case True
    with step show ?thesis by simp
  next
    case False
    from step_status [OF step(2) inv False] step show ?thesis
      by (cases "status_of y i") (auto intro: rtranclp.rtrancl_into_rtrancl)
  qed
qed simp

text \<open>A status without an outgoing edge is final.\<close>

lemma run_terminal:
  assumes "step\<^sup>*\<^sup>* db db'" and "inv db" and "status_of db i = Some s" and "\<And>s'. \<not> edge s s'"
  shows "status_of db' i = Some s"
proof -
  obtain s' where "status_of db' i = Some s'" "edge\<^sup>*\<^sup>* s s'" using run_status [OF assms(1-3)] by blast
  with assms(4) show ?thesis by (metis converse_rtranclpE)
qed

end


section \<open>Status changes with an audit trail\<close>

locale audited_lifecycle = lifecycle step inv status_of edge start
  for step :: "'db \<Rightarrow> 'db \<Rightarrow> bool" and inv and status_of :: "'db \<Rightarrow> 'i \<Rightarrow> 's option" and edge and start +
  fixes trail_of :: "'db \<Rightarrow> 'i \<Rightarrow> 's list"
  assumes step_trail: "step db db' \<Longrightarrow> inv db \<Longrightarrow>
      trail_of db' i =
        trail_of db i @ (if status_of db' i = status_of db i then [] else [the (status_of db' i)])"
begin

lemma step_recorded:
  assumes "step db db'" and "inv db" and "recorded edge start (status_of db i) (trail_of db i)"
  shows "recorded edge start (status_of db' i) (trail_of db' i)"
proof (cases "status_of db' i = status_of db i")
  case True
  with step_trail [OF assms(1,2), of i] assms(3) show ?thesis by simp
next
  case False
  from step_status [OF assms(1,2) False] step_trail [OF assms(1,2), of i] False assms(3) show ?thesis
    by (cases "status_of db i") (auto intro: recorded_Some recorded_None)
qed

lemma run_recorded:
  "step\<^sup>*\<^sup>* db db' \<Longrightarrow> inv db \<Longrightarrow> recorded edge start (status_of db i) (trail_of db i) \<Longrightarrow>
     recorded edge start (status_of db' i) (trail_of db' i)"
  by (induction rule: rtranclp_induct) (auto intro: step_recorded run_inv)

lemma run_trail_grows: "step\<^sup>*\<^sup>* db db' \<Longrightarrow> inv db \<Longrightarrow> prefix (trail_of db i) (trail_of db' i)"
proof (induction rule: rtranclp_induct)
  case (step y z)
  from step(1,4) have "inv y" by (rule run_inv)
  with step step_trail [OF step(2) \<open>inv y\<close>, of i] show ?case by (metis prefix_prefix)
qed simp

end


section \<open>Diagrams without cycles\<close>

lemma ranked_walk_length:
  fixes rank :: "'s \<Rightarrow> nat"
  assumes "\<And>a b. edge a b \<Longrightarrow> rank a < rank b" and "successively edge tr" and "tr \<noteq> []"
  shows "length tr + rank (hd tr) \<le> Suc (rank (last tr))"
  using assms(2,3)
proof (induction tr rule: induct_list012)
  case (3 x y zs)
  then have "rank x < rank y" by (simp add: assms(1))
  with 3 show ?case by simp
qed simp_all

locale ranked_lifecycle = audited_lifecycle step inv status_of edge start trail_of
  for step :: "'db \<Rightarrow> 'db \<Rightarrow> bool" and inv and status_of :: "'db \<Rightarrow> 'i \<Rightarrow> 's option"
    and edge and start and trail_of +
  fixes rank :: "'s \<Rightarrow> nat"
  assumes edge_rank: "edge a b \<Longrightarrow> rank a < rank b"
begin

lemma trail_length:
  assumes "recorded edge start (status_of db i) (trail_of db i)" and "status_of db i = Some s"
  shows "length (trail_of db i) \<le> Suc (rank s)"
  using assms ranked_walk_length [of edge rank "trail_of db i"] edge_rank
  by (auto simp: recorded_def)

end

end
