(* ===== verification/Exception_Store.thy ===== *)
theory Exception_Store
  imports Scope_Store Lifecycle
begin

text \<open>
  \<open>internal/exception/store.go\<close> and \<open>internal/exception/expiry.go\<close>: the waiver
  workflow over the tables \<open>exceptions\<close> and \<open>exception_audit_log\<close>, with the queries
  of \<open>internal/db/queries/exceptions.sql\<close> and the constraints of the exceptions
  migration, and the auto-expiry sweep.

  A row and the Go struct \<open>Exception\<close> have the same fields, so one record serves for
  both. \<open>jsonb\<close> stands for what PostgreSQL returns for a text written into a
  \<open>JSONB\<close> column, \<open>None\<close> when it refuses the text. The fan-out of audit rows to an external sink
  never fails and never touches the database; it is not modelled.
\<close>

datatype ex_state = ExRequested | ExApproved | ExDenied | ExActive | ExExpired

fun ex_state_text :: "ex_state \<Rightarrow> string" where
  "ex_state_text ExRequested = ''requested''"
| "ex_state_text ExApproved = ''approved''"
| "ex_state_text ExDenied = ''denied''"
| "ex_state_text ExActive = ''active''"
| "ex_state_text ExExpired = ''expired''"

datatype ex_action = ActRequested | ActApproved | ActDenied | ActActivated | ActExpired

definition MaxLifetime :: duration where
  "MaxLifetime = hours (365 * 24)"

definition SystemActor :: string where
  "SystemActor = ''system:exception-expiry''"

datatype ex_error =
    ExErrNotFound | ExErrWrongState | ErrExpiresAtRequired | ErrExpiresAtExceedsCap
  | ErrExpiresAtInPast | ErrControlRequired | ErrJustificationRequired | ErrRequesterRequired
  | ErrSegregationOfDuties
  | ControlNotInTenant
  | WithinNotPositive
  | CreateExceptionFailed pg_error
  | TransitionFailed pg_error
  | WriteAuditFailed pg_error
  | ExpireActiveFailed pg_error

record Exception =
  ex_ID :: uuid
  ex_TenantID :: uuid
  ex_ControlID :: uuid
  ex_ScopeCellPredicate :: bytes
  ex_Justification :: string
  ex_CompensatingControls :: "string list"
  ex_RequestedBy :: string
  ex_RequestedAt :: gotime
  ex_ApprovedBy :: "string option"
  ex_ApprovedAt :: "gotime option"
  ex_DeniedBy :: "string option"
  ex_DeniedAt :: "gotime option"
  ex_ActivatedBy :: "string option"
  ex_ActivatedAt :: "gotime option"
  ex_EffectiveFrom :: "gotime option"
  ex_ExpiresAt :: gotime
  ex_ExpiredAt :: "gotime option"
  ex_Status :: ex_state
  ex_CreatedAt :: gotime
  ex_UpdatedAt :: gotime

record ex_AuditEntry =
  xa_ID :: uuid
  xa_TenantID :: uuid
  xa_ExceptionID :: uuid
  xa_Action :: ex_action
  xa_Actor :: string
  xa_FromState :: "ex_state option"
  xa_ToState :: ex_state
  xa_Reason :: string
  xa_OccurredAt :: gotime

record ex_db = scope_db +
  db_exceptions :: "Exception list"
  db_exception_audit :: "ex_AuditEntry list"

record ex_CreateInput =
  xi_ControlID :: uuid
  xi_ScopeCellPredicate :: bytes
  xi_Justification :: string
  xi_CompensatingControls :: "string list"
  xi_RequestedBy :: string
  xi_ExpiresAt :: gotime
  xi_Now :: gotime

definition stringPtr :: "string \<Rightarrow> string option" where
  "stringPtr s = (if s = [] then None else Some s)"


section \<open>Queries and constraints\<close>

text \<open>
  The \<open>CHECK\<close> constraints of the table, by name, in the order PostgreSQL tests them.
  The one on the status vocabulary is the type \<open>ex_state\<close>.
\<close>

definition exceptions_check :: "Exception \<Rightarrow> string option" where
  "exceptions_check r =
     (if ex_DeniedBy r = Some (ex_RequestedBy r) then Some ''exceptions_denied_by_sod''
      else if ex_Justification r = [] then Some ''exceptions_justification_nonempty''
      else if \<not> ex_ExpiresAt r \<le> ex_RequestedAt r + days 365 then Some ''exceptions_max_365d''
      else if ex_RequestedBy r = [] then Some ''exceptions_requested_by_nonempty''
      else if ex_ApprovedBy r = Some (ex_RequestedBy r) then Some ''exceptions_sod''
      else None)"

text \<open>An error of a statement: its class and, for a check violation, the constraint.\<close>

type_synonym ex_pg_error = "pg_error \<times> string"

definition ex_insert :: "Exception \<Rightarrow> 'z ex_db_scheme \<Rightarrow> ex_pg_error + Exception \<times> 'z ex_db_scheme" where
  "ex_insert row db =
     (case exceptions_check row of
        Some c \<Rightarrow> Inl (CheckViolation, c)
      | None \<Rightarrow>
        if ex_ID row \<in> ex_ID ` set (db_exceptions db) then Inl (UniqueViolation, [])
        else if \<not> (\<exists>c \<in> set (db_controls db). ctl_TenantID c = ex_TenantID row \<and> ctl_ID c = ex_ControlID row)
        then Inl (ForeignKeyViolation, [])
        else Inr (row, db\<lparr>db_exceptions := db_exceptions db @ [row]\<rparr>))"

definition CreateException ::
  "(bytes \<Rightarrow> bytes option) \<Rightarrow> gotime \<Rightarrow> uuid \<Rightarrow> uuid \<Rightarrow> uuid \<Rightarrow> bytes \<Rightarrow> string \<Rightarrow> string list \<Rightarrow> string \<Rightarrow>
   gotime \<Rightarrow> gotime \<Rightarrow> 'z ex_db_scheme \<Rightarrow> ex_pg_error + Exception \<times> 'z ex_db_scheme" where
  "CreateException jsonb dbnow i t controlID predicate justification compensating requestedBy requestedAt expiresAt db =
     (case jsonb predicate of
        None \<Rightarrow> Inl (InvalidTextRepresentation, [])
      | Some p \<Rightarrow>
        ex_insert
          \<lparr>ex_ID = i, ex_TenantID = t, ex_ControlID = controlID, ex_ScopeCellPredicate = p,
           ex_Justification = justification, ex_CompensatingControls = compensating,
           ex_RequestedBy = requestedBy, ex_RequestedAt = pgTime requestedAt,
           ex_ApprovedBy = None, ex_ApprovedAt = None, ex_DeniedBy = None, ex_DeniedAt = None,
           ex_ActivatedBy = None, ex_ActivatedAt = None, ex_EffectiveFrom = None,
           ex_ExpiresAt = pgTime expiresAt, ex_ExpiredAt = None, ex_Status = ExRequested,
           ex_CreatedAt = dbnow, ex_UpdatedAt = dbnow\<rparr> db)"

definition GetExceptionByID :: "uuid \<Rightarrow> uuid \<Rightarrow> 'z ex_db_scheme \<Rightarrow> Exception option" where
  "GetExceptionByID t i db =
     List.find (\<lambda>r. ex_TenantID r = t \<and> ex_ID r = i) (db_exceptions db)"

definition ListExceptions :: "uuid \<Rightarrow> 'z ex_db_scheme \<Rightarrow> Exception list" where
  "ListExceptions t db =
     sort_key (\<lambda>r. (- ex_CreatedAt r, ex_ID r)) (filter (\<lambda>r. ex_TenantID r = t) (db_exceptions db))"

definition ListExceptionsByControl :: "uuid \<Rightarrow> uuid \<Rightarrow> 'z ex_db_scheme \<Rightarrow> Exception list" where
  "ListExceptionsByControl t cid db =
     sort_key (\<lambda>r. (ex_ExpiresAt r, ex_ID r))
       (filter (\<lambda>r. ex_TenantID r = t \<and> ex_ControlID r = cid \<and> ex_Status r = ExActive) (db_exceptions db))"

definition ListExpiringExceptions :: "uuid \<Rightarrow> gotime \<Rightarrow> 'z ex_db_scheme \<Rightarrow> Exception list" where
  "ListExpiringExceptions t threshold db =
     sort_key (\<lambda>r. (ex_ExpiresAt r, ex_ID r))
       (filter (\<lambda>r. ex_TenantID r = t \<and> ex_Status r = ExActive \<and> ex_ExpiresAt r \<le> pgTime threshold)
         (db_exceptions db))"

text \<open>\<open>UPDATE exceptions SET f WHERE P RETURNING *\<close>; every new row is checked again.\<close>

definition ex_update ::
  "(Exception \<Rightarrow> bool) \<Rightarrow> (Exception \<Rightarrow> Exception) \<Rightarrow> 'z ex_db_scheme \<Rightarrow>
   ex_pg_error + Exception list \<times> 'z ex_db_scheme" where
  "ex_update P f db =
     (let rows = map f (filter P (db_exceptions db)) in
      (case List.find (\<lambda>r. exceptions_check r \<noteq> None) rows of
         Some r \<Rightarrow> Inl (CheckViolation, the (exceptions_check r))
       | None \<Rightarrow> Inr (rows, db\<lparr>db_exceptions := sql_update P f (db_exceptions db)\<rparr>)))"

definition ex_update_one ::
  "(Exception \<Rightarrow> bool) \<Rightarrow> (Exception \<Rightarrow> Exception) \<Rightarrow> 'z ex_db_scheme \<Rightarrow>
   ex_pg_error + Exception \<times> 'z ex_db_scheme" where
  "ex_update_one P f db =
     (case ex_update P f db of
        Inl e \<Rightarrow> Inl e
      | Inr ([], _) \<Rightarrow> Inl (NoRows, [])
      | Inr (r # _, db') \<Rightarrow> Inr (r, db'))"

definition ApproveException ::
  "gotime \<Rightarrow> uuid \<Rightarrow> uuid \<Rightarrow> string option \<Rightarrow> 'z ex_db_scheme \<Rightarrow> ex_pg_error + Exception \<times> 'z ex_db_scheme" where
  "ApproveException dbnow t i approvedBy =
     ex_update_one (\<lambda>r. ex_TenantID r = t \<and> ex_ID r = i \<and> ex_Status r = ExRequested)
       (\<lambda>r. r\<lparr>ex_Status := ExApproved, ex_ApprovedBy := approvedBy, ex_ApprovedAt := Some dbnow,
              ex_UpdatedAt := dbnow\<rparr>)"

definition DenyException ::
  "gotime \<Rightarrow> uuid \<Rightarrow> uuid \<Rightarrow> string option \<Rightarrow> 'z ex_db_scheme \<Rightarrow> ex_pg_error + Exception \<times> 'z ex_db_scheme" where
  "DenyException dbnow t i deniedBy =
     ex_update_one (\<lambda>r. ex_TenantID r = t \<and> ex_ID r = i \<and> ex_Status r = ExRequested)
       (\<lambda>r. r\<lparr>ex_Status := ExDenied, ex_DeniedBy := deniedBy, ex_DeniedAt := Some dbnow,
              ex_UpdatedAt := dbnow\<rparr>)"

definition ActivateException ::
  "gotime \<Rightarrow> uuid \<Rightarrow> uuid \<Rightarrow> string option \<Rightarrow> gotime \<Rightarrow> 'z ex_db_scheme \<Rightarrow>
   ex_pg_error + Exception \<times> 'z ex_db_scheme" where
  "ActivateException dbnow t i activatedBy effectiveFrom =
     ex_update_one (\<lambda>r. ex_TenantID r = t \<and> ex_ID r = i \<and> ex_Status r = ExApproved)
       (\<lambda>r. r\<lparr>ex_Status := ExActive, ex_ActivatedBy := activatedBy, ex_ActivatedAt := Some dbnow,
              ex_EffectiveFrom := Some (pgTime effectiveFrom), ex_UpdatedAt := dbnow\<rparr>)"

definition ExpireActiveExceptionsBefore ::
  "gotime \<Rightarrow> uuid \<Rightarrow> gotime \<Rightarrow> 'z ex_db_scheme \<Rightarrow> ex_pg_error + Exception list \<times> 'z ex_db_scheme" where
  "ExpireActiveExceptionsBefore dbnow t now =
     ex_update (\<lambda>r. ex_TenantID r = t \<and> ex_Status r = ExActive \<and> ex_ExpiresAt r < pgTime now)
       (\<lambda>r. r\<lparr>ex_Status := ExExpired, ex_ExpiredAt := Some dbnow, ex_UpdatedAt := dbnow\<rparr>)"

text \<open>\<open>SELECT DISTINCT\<close> promises no order; one is fixed here.\<close>

definition ListTenantsWithActiveExceptions :: "'z ex_db_scheme \<Rightarrow> uuid list" where
  "ListTenantsWithActiveExceptions db =
     remdups (map ex_TenantID (filter (\<lambda>r. ex_Status r = ExActive) (db_exceptions db)))"

definition WriteExceptionAuditLog ::
  "ex_AuditEntry \<Rightarrow> 'z ex_db_scheme \<Rightarrow> pg_error + 'z ex_db_scheme" where
  "WriteExceptionAuditLog row db =
     (if xa_Actor row = [] then Inl CheckViolation
      else if xa_ID row \<in> xa_ID ` set (db_exception_audit db) then Inl UniqueViolation
      else Inr (db\<lparr>db_exception_audit := db_exception_audit db @ [row]\<rparr>))"

definition ListExceptionAuditLog :: "uuid \<Rightarrow> uuid \<Rightarrow> 'z ex_db_scheme \<Rightarrow> ex_AuditEntry list" where
  "ListExceptionAuditLog t i db =
     sort_key (\<lambda>r. (xa_OccurredAt r, xa_ID r))
       (filter (\<lambda>r. xa_TenantID r = t \<and> xa_ExceptionID r = i) (db_exception_audit db))"


section \<open>Store operations\<close>

definition ex_mapCreateError :: "ex_pg_error \<Rightarrow> ex_error" where
  "ex_mapCreateError e =
     (case e of (code, constraint) \<Rightarrow>
        if code = ForeignKeyViolation then ControlNotInTenant
        else if code = CheckViolation \<and> constraint = ''exceptions_max_365d'' then ErrExpiresAtExceedsCap
        else if code = CheckViolation \<and>
                (constraint = ''exceptions_sod'' \<or> constraint = ''exceptions_denied_by_sod'')
        then ErrSegregationOfDuties
        else CreateExceptionFailed code)"

text \<open>
  \<open>wallnow\<close> is \<open>time.Now()\<close>, used when the input carries no clock; \<open>dbnow\<close> is
  the database's \<open>now()\<close>.
\<close>

definition ex_Create ::
  "(bytes \<Rightarrow> bytes option) \<Rightarrow> txenv \<Rightarrow> gotime \<Rightarrow> gotime \<Rightarrow> uuid \<Rightarrow> uuid \<Rightarrow> ex_CreateInput \<Rightarrow> 'z ex_db_scheme \<Rightarrow>
   (ex_error err + Exception) \<times> 'z ex_db_scheme" where
  "ex_Create jsonb env wallnow dbnow newID auditID inp db =
     (let now = (if xi_Now inp = 0 then wallnow else xi_Now inp) in
      if xi_ControlID inp = 0 then (Inl (Dom ErrControlRequired), db)
      else if xi_Justification inp = [] then (Inl (Dom ErrJustificationRequired), db)
      else if xi_RequestedBy inp = [] then (Inl (Dom ErrRequesterRequired), db)
      else if xi_ExpiresAt inp = 0 then (Inl (Dom ErrExpiresAtRequired), db)
      else if \<not> now < xi_ExpiresAt inp then (Inl (Dom ErrExpiresAtInPast), db)
      else if now + MaxLifetime < xi_ExpiresAt inp then (Inl (Dom ErrExpiresAtExceedsCap), db)
      else
        (let predicate = (if xi_ScopeCellPredicate inp = [] then ''{}'' else xi_ScopeCellPredicate inp) in
         inTx env (\<lambda>t db0.
           (case CreateException jsonb dbnow newID t (xi_ControlID inp) predicate (xi_Justification inp)
                   (xi_CompensatingControls inp) (xi_RequestedBy inp) now (xi_ExpiresAt inp) db0 of
              Inl e \<Rightarrow> Inl (ex_mapCreateError e)
            | Inr (row, db1) \<Rightarrow>
              (case WriteExceptionAuditLog
                      \<lparr>xa_ID = auditID, xa_TenantID = t, xa_ExceptionID = ex_ID row,
                       xa_Action = ActRequested, xa_Actor = xi_RequestedBy inp, xa_FromState = None,
                       xa_ToState = ExRequested, xa_Reason = [], xa_OccurredAt = dbnow\<rparr> db1 of
                 Inl e \<Rightarrow> Inl (WriteAuditFailed e)
               | Inr db2 \<Rightarrow> Inr (row, db2)))) db))"

text \<open>The parameters of a transition; \<open>tp_run\<close> is the guarded update it runs.\<close>

record 'd transitionParams =
  tp_expectedPrior :: ex_state
  tp_newState :: ex_state
  tp_actor :: string
  tp_action :: ex_action
  tp_reason :: string
  tp_run :: "uuid \<Rightarrow> 'd \<Rightarrow> ex_pg_error + Exception \<times> 'd"
  tp_requesterCheck :: string

definition sod_check ::
  "'z ex_db_scheme transitionParams \<Rightarrow> uuid \<Rightarrow> uuid \<Rightarrow> 'z ex_db_scheme \<Rightarrow> ex_error option" where
  "sod_check p t i db =
     (if tp_requesterCheck p = [] then None
      else (case GetExceptionByID t i db of
              None \<Rightarrow> Some ExErrNotFound
            | Some before \<Rightarrow>
                if ex_RequestedBy before = tp_requesterCheck p then Some ErrSegregationOfDuties else None))"

definition ex_transition ::
  "txenv \<Rightarrow> gotime \<Rightarrow> uuid \<Rightarrow> uuid \<Rightarrow> 'z ex_db_scheme transitionParams \<Rightarrow> 'z ex_db_scheme \<Rightarrow>
   (ex_error err + Exception) \<times> 'z ex_db_scheme" where
  "ex_transition env dbnow auditID i p db =
     inTx env (\<lambda>t db0.
       (case sod_check p t i db0 of
          Some e \<Rightarrow> Inl e
        | None \<Rightarrow>
          (case tp_run p t db0 of
             Inl (code, _) \<Rightarrow>
               (if code = NoRows then
                  (case GetExceptionByID t i db0 of None \<Rightarrow> Inl ExErrNotFound | Some _ \<Rightarrow> Inl ExErrWrongState)
                else if code = CheckViolation then Inl ErrSegregationOfDuties
                else Inl (TransitionFailed code))
           | Inr (row, db1) \<Rightarrow>
             (case WriteExceptionAuditLog
                     \<lparr>xa_ID = auditID, xa_TenantID = t, xa_ExceptionID = ex_ID row,
                      xa_Action = tp_action p, xa_Actor = tp_actor p, xa_FromState = Some (tp_expectedPrior p),
                      xa_ToState = tp_newState p, xa_Reason = tp_reason p, xa_OccurredAt = dbnow\<rparr> db1 of
                Inl e \<Rightarrow> Inl (WriteAuditFailed e)
              | Inr db2 \<Rightarrow> Inr (row, db2))))) db"

definition ex_Approve ::
  "txenv \<Rightarrow> gotime \<Rightarrow> uuid \<Rightarrow> uuid \<Rightarrow> string \<Rightarrow> 'z ex_db_scheme \<Rightarrow> (ex_error err + Exception) \<times> 'z ex_db_scheme" where
  "ex_Approve env dbnow auditID i approver db =
     (if approver = [] then (Inl (Dom ErrRequesterRequired), db)
      else ex_transition env dbnow auditID i
             \<lparr>tp_expectedPrior = ExRequested, tp_newState = ExApproved, tp_actor = approver,
              tp_action = ActApproved, tp_reason = [],
              tp_run = (\<lambda>t. ApproveException dbnow t i (stringPtr approver)),
              tp_requesterCheck = approver\<rparr> db)"

definition ex_Deny ::
  "txenv \<Rightarrow> gotime \<Rightarrow> uuid \<Rightarrow> uuid \<Rightarrow> string \<Rightarrow> string \<Rightarrow> 'z ex_db_scheme \<Rightarrow>
   (ex_error err + Exception) \<times> 'z ex_db_scheme" where
  "ex_Deny env dbnow auditID i denier reason db =
     (if denier = [] then (Inl (Dom ErrRequesterRequired), db)
      else ex_transition env dbnow auditID i
             \<lparr>tp_expectedPrior = ExRequested, tp_newState = ExDenied, tp_actor = denier,
              tp_action = ActDenied, tp_reason = reason,
              tp_run = (\<lambda>t. DenyException dbnow t i (stringPtr denier)),
              tp_requesterCheck = denier\<rparr> db)"

definition ex_Activate ::
  "txenv \<Rightarrow> gotime \<Rightarrow> gotime \<Rightarrow> uuid \<Rightarrow> uuid \<Rightarrow> string \<Rightarrow> gotime \<Rightarrow> 'z ex_db_scheme \<Rightarrow>
   (ex_error err + Exception) \<times> 'z ex_db_scheme" where
  "ex_Activate env wallnow dbnow auditID i activator effectiveFrom db =
     (if activator = [] then (Inl (Dom ErrRequesterRequired), db)
      else
        (let eff = (if effectiveFrom = 0 then wallnow else effectiveFrom) in
         ex_transition env dbnow auditID i
           \<lparr>tp_expectedPrior = ExApproved, tp_newState = ExActive, tp_actor = activator,
            tp_action = ActActivated, tp_reason = [],
            tp_run = (\<lambda>t. ActivateException dbnow t i (stringPtr activator) eff),
            tp_requesterCheck = []\<rparr> db))"

definition ex_Get ::
  "txenv \<Rightarrow> uuid \<Rightarrow> 'z ex_db_scheme \<Rightarrow> (ex_error err + Exception) \<times> 'z ex_db_scheme" where
  "ex_Get env i db =
     inTx env (\<lambda>t db0.
       (case GetExceptionByID t i db0 of None \<Rightarrow> Inl ExErrNotFound | Some row \<Rightarrow> Inr (row, db0))) db"

definition ex_List ::
  "txenv \<Rightarrow> string \<Rightarrow> 'z ex_db_scheme \<Rightarrow> (ex_error err + Exception list) \<times> 'z ex_db_scheme" where
  "ex_List env status db =
     inTx env (\<lambda>t db0.
       Inr (filter (\<lambda>r. \<not> (status \<noteq> [] \<and> ex_state_text (ex_Status r) \<noteq> status)) (ListExceptions t db0), db0)) db"

definition ex_Active ::
  "txenv \<Rightarrow> uuid \<Rightarrow> 'z ex_db_scheme \<Rightarrow> (ex_error err + Exception list) \<times> 'z ex_db_scheme" where
  "ex_Active env controlID db = inTx env (\<lambda>t db0. Inr (ListExceptionsByControl t controlID db0, db0)) db"

definition ex_Expiring ::
  "txenv \<Rightarrow> gotime \<Rightarrow> duration \<Rightarrow> 'z ex_db_scheme \<Rightarrow> (ex_error err + Exception list) \<times> 'z ex_db_scheme" where
  "ex_Expiring env start within db =
     (if within \<le> 0 then (Inl (Dom WithinNotPositive), db)
      else inTx env (\<lambda>t db0. Inr (ListExpiringExceptions t (start + within) db0, db0)) db)"

definition ex_ListAuditLog ::
  "txenv \<Rightarrow> uuid \<Rightarrow> 'z ex_db_scheme \<Rightarrow> (ex_error err + ex_AuditEntry list) \<times> 'z ex_db_scheme" where
  "ex_ListAuditLog env i db = inTx env (\<lambda>t db0. Inr (ListExceptionAuditLog t i db0, db0)) db"


section \<open>The auto-expiry sweep\<close>

text \<open>
  What a sweep takes from its surroundings: the context and database answers each
  tenant's transaction sees, the database clock and the audit identifiers drawn for it,
  whether the context was cancelled when a tenant's turn came, whether a connection was
  acquired, \<open>uuid.String\<close> and \<open>Time.Format(RFC3339)\<close>.
\<close>

record sweep_env =
  sw_env :: "uuid \<Rightarrow> txenv"
  sw_dbnow :: "uuid \<Rightarrow> gotime"
  sw_auditID :: "uuid \<Rightarrow> uuid"
  sw_done :: "uuid \<Rightarrow> bool"
  sw_acquire_ok :: bool
  sw_uuid_string :: "uuid \<Rightarrow> string"
  sw_rfc3339 :: "gotime \<Rightarrow> string"

datatype sweep_error = ListTenantsFailed | ContextCanceled

definition expired_entry :: "sweep_env \<Rightarrow> uuid \<Rightarrow> gotime \<Rightarrow> Exception \<Rightarrow> ex_AuditEntry" where
  "expired_entry sw t now row =
     \<lparr>xa_ID = sw_auditID sw (ex_ID row), xa_TenantID = t, xa_ExceptionID = ex_ID row,
      xa_Action = ActExpired, xa_Actor = SystemActor, xa_FromState = Some ExActive,
      xa_ToState = ExExpired,
      xa_Reason = ''expires_at='' @ sw_rfc3339 sw (ex_ExpiresAt row) @ '' < now='' @ sw_rfc3339 sw now,
      xa_OccurredAt = sw_dbnow sw t\<rparr>"

fun audit_expired ::
  "sweep_env \<Rightarrow> uuid \<Rightarrow> gotime \<Rightarrow> Exception list \<Rightarrow> 'z ex_db_scheme \<Rightarrow> ex_error + 'z ex_db_scheme" where
  "audit_expired sw t now [] db = Inr db"
| "audit_expired sw t now (row # rows) db =
     (case WriteExceptionAuditLog (expired_entry sw t now row) db of
        Inl e \<Rightarrow> Inl (WriteAuditFailed e)
      | Inr db' \<Rightarrow> audit_expired sw t now rows db')"

definition sweepTenant ::
  "sweep_env \<Rightarrow> uuid \<Rightarrow> gotime \<Rightarrow> 'z ex_db_scheme \<Rightarrow> (ex_error err + nat) \<times> 'z ex_db_scheme" where
  "sweepTenant sw tenantID now db =
     (case WithTenant (sw_env sw tenantID) (sw_uuid_string sw tenantID) of
        Inl e \<Rightarrow> (Inl (Tx e), db)
      | Inr tctx \<Rightarrow>
        if \<not> te_begin_ok tctx then (Inl (Tx ErrBegin), db)
        else
          (case ApplyTenant tctx of Inl e \<Rightarrow> (Inl (Tx e), db)
           | Inr _ \<Rightarrow>
             (case ExpireActiveExceptionsBefore (sw_dbnow sw tenantID) tenantID now db of
                Inl (e, _) \<Rightarrow> (Inl (Dom (ExpireActiveFailed e)), db)
              | Inr (expired, db1) \<Rightarrow>
                (case audit_expired sw tenantID now expired db1 of
                   Inl e \<Rightarrow> (Inl (Dom e), db)
                 | Inr db2 \<Rightarrow>
                   if te_commit_ok tctx then (Inr (length expired), db2)
                   else (Inl (Tx ErrCommit), db)))))"

fun sweep_exceptions ::
  "sweep_env \<Rightarrow> gotime \<Rightarrow> nat \<Rightarrow> uuid list \<Rightarrow> 'z ex_db_scheme \<Rightarrow> (nat \<times> sweep_error option) \<times> 'z ex_db_scheme" where
  "sweep_exceptions sw now n [] db = ((n, None), db)"
| "sweep_exceptions sw now n (t # ts) db =
     (if sw_done sw t then ((n, Some ContextCanceled), db)
      else (case sweepTenant sw t now db of
              (Inl _, db') \<Rightarrow> sweep_exceptions sw now n ts db'
            | (Inr k, db') \<Rightarrow> sweep_exceptions sw now (n + k) ts db'))"

definition listTenants :: "sweep_env \<Rightarrow> 'z ex_db_scheme \<Rightarrow> sweep_error + uuid list" where
  "listTenants sw db =
     (if sw_acquire_ok sw then Inr (ListTenantsWithActiveExceptions db) else Inl ListTenantsFailed)"

definition Expirer_SweepOnce ::
  "sweep_env \<Rightarrow> gotime \<Rightarrow> 'z ex_db_scheme \<Rightarrow> (nat \<times> sweep_error option) \<times> 'z ex_db_scheme" where
  "Expirer_SweepOnce sw now db =
     (case listTenants sw db of
        Inl e \<Rightarrow> ((0, Some e), db)
      | Inr ts \<Rightarrow> sweep_exceptions sw now 0 ts db)"


section \<open>The workflow as a step relation\<close>

inductive ex_step :: "(bytes \<Rightarrow> bytes option) \<Rightarrow> 'z ex_db_scheme \<Rightarrow> 'z ex_db_scheme \<Rightarrow> bool" for jsonb where
  create: "ex_Create jsonb env wallnow dbnow newID auditID inp db = (res, db') \<Longrightarrow> ex_step jsonb db db'"
| approve: "ex_Approve env dbnow auditID i approver db = (res, db') \<Longrightarrow> ex_step jsonb db db'"
| deny: "ex_Deny env dbnow auditID i denier reason db = (res, db') \<Longrightarrow> ex_step jsonb db db'"
| activate: "ex_Activate env wallnow dbnow auditID i activator eff db = (res, db') \<Longrightarrow> ex_step jsonb db db'"
| expire: "sweepTenant sw t now db = (res2, db') \<Longrightarrow> ex_step jsonb db db'"

text \<open>The edges of the lifecycle diagram, and the length of the longest way to a state.\<close>

fun ex_edge :: "ex_state \<Rightarrow> ex_state \<Rightarrow> bool" where
  "ex_edge ExRequested ExApproved = True"
| "ex_edge ExRequested ExDenied = True"
| "ex_edge ExApproved ExActive = True"
| "ex_edge ExActive ExExpired = True"
| "ex_edge _ _ = False"

fun ex_rank :: "ex_state \<Rightarrow> nat" where
  "ex_rank ExRequested = 0"
| "ex_rank ExApproved = 1"
| "ex_rank ExDenied = 1"
| "ex_rank ExActive = 2"
| "ex_rank ExExpired = 3"

definition ex_status_of :: "'z ex_db_scheme \<Rightarrow> uuid \<times> uuid \<Rightarrow> ex_state option" where
  "ex_status_of db k = map_option ex_Status (GetExceptionByID (fst k) (snd k) db)"

definition ex_trail_of :: "'z ex_db_scheme \<Rightarrow> uuid \<times> uuid \<Rightarrow> ex_state list" where
  "ex_trail_of db k =
     map xa_ToState (filter (\<lambda>a. xa_TenantID a = fst k \<and> xa_ExceptionID a = snd k) (db_exception_audit db))"

text \<open>What every row satisfies in every state of its life.\<close>

definition ex_row_inv :: "control_row list \<Rightarrow> Exception \<Rightarrow> bool" where
  "ex_row_inv controls r \<longleftrightarrow>
     exceptions_check r = None
     \<and> ex_RequestedAt r \<le> ex_ExpiresAt r
     \<and> (\<exists>c \<in> set controls. ctl_TenantID c = ex_TenantID r \<and> ctl_ID c = ex_ControlID r)
     \<and> (ex_ApprovedBy r \<noteq> None \<longleftrightarrow> ex_Status r \<in> {ExApproved, ExActive, ExExpired})
     \<and> (ex_DeniedBy r \<noteq> None \<longleftrightarrow> ex_Status r = ExDenied)
     \<and> (ex_ActivatedBy r \<noteq> None \<longleftrightarrow> ex_Status r \<in> {ExActive, ExExpired})
     \<and> (ex_EffectiveFrom r \<noteq> None \<longleftrightarrow> ex_Status r \<in> {ExActive, ExExpired})
     \<and> (ex_ExpiredAt r \<noteq> None \<longleftrightarrow> ex_Status r = ExExpired)"

definition ex_inv :: "'z ex_db_scheme \<Rightarrow> bool" where
  "ex_inv db \<longleftrightarrow>
     distinct (map ex_ID (db_exceptions db)) \<and> (\<forall>r \<in> set (db_exceptions db). ex_row_inv (db_controls db) r)"

text \<open>The terms of a waiver: the columns no transition may change.\<close>

definition ex_terms where
  "ex_terms r =
     (ex_ID r, ex_TenantID r, ex_ControlID r, ex_ScopeCellPredicate r, ex_Justification r,
      ex_CompensatingControls r, ex_RequestedBy r, ex_RequestedAt r, ex_ExpiresAt r)"


section \<open>Lemmas\<close>

lemma MaxLifetime_days: "MaxLifetime = days 365"
  by (simp add: MaxLifetime_def days_def)

lemma exceptions_check_None_iff:
  "exceptions_check r = None \<longleftrightarrow>
     ex_DeniedBy r \<noteq> Some (ex_RequestedBy r) \<and> ex_Justification r \<noteq> []
     \<and> ex_ExpiresAt r \<le> ex_RequestedAt r + days 365 \<and> ex_RequestedBy r \<noteq> []
     \<and> ex_ApprovedBy r \<noteq> Some (ex_RequestedBy r)"
  by (simp add: exceptions_check_def)

lemma ex_update_InrD:
  assumes "ex_update P f db = Inr (rows, db')"
  shows "rows = map f (filter P (db_exceptions db))"
    and "db' = db\<lparr>db_exceptions := sql_update P f (db_exceptions db)\<rparr>"
    and "r \<in> set (db_exceptions db) \<Longrightarrow> P r \<Longrightarrow> exceptions_check (f r) = None"
  using assms by (auto simp: ex_update_def Let_def find_None_iff split: option.splits)

lemma ex_update_one_InrE:
  assumes "ex_update_one P f db = Inr (row, db')"
  obtains r0 where "r0 \<in> set (db_exceptions db)" "P r0" "row = f r0" "exceptions_check (f r0) = None"
    "db' = db\<lparr>db_exceptions := sql_update P f (db_exceptions db)\<rparr>"
proof -
  obtain rows where up: "ex_update P f db = Inr (row # rows, db')"
    using assms by (auto simp: ex_update_one_def split: sum.splits prod.splits list.splits)
  from ex_update_InrD(1) [OF up] have "row \<in> f ` (set (filter P (db_exceptions db)))"
    by (metis list.set_intros(1) list.set_map)
  then obtain r0 where "r0 \<in> set (db_exceptions db)" "P r0" "row = f r0" by auto
  with ex_update_InrD(2,3) [OF up] show ?thesis using that by blast
qed

lemma WriteExceptionAuditLog_InrD:
  "WriteExceptionAuditLog row db = Inr db' \<Longrightarrow>
     db' = db\<lparr>db_exception_audit := db_exception_audit db @ [row]\<rparr>"
  by (auto simp: WriteExceptionAuditLog_def split: if_splits)

lemma audit_expired_InrD:
  "audit_expired sw t now rows db = Inr db' \<Longrightarrow>
     db' = db\<lparr>db_exception_audit := db_exception_audit db @ map (expired_entry sw t now) rows\<rparr>"
proof (induction rows arbitrary: db)
  case (Cons r rows)
  then obtain db1 where w: "WriteExceptionAuditLog (expired_entry sw t now r) db = Inr db1"
    and rest: "audit_expired sw t now rows db1 = Inr db'"
    by (auto split: sum.splits)
  from Cons.IH [OF rest] WriteExceptionAuditLog_InrD [OF w] show ?case by simp
qed simp


abbreviation expirable :: "uuid \<Rightarrow> gotime \<Rightarrow> Exception \<Rightarrow> bool" where
  "expirable t now r \<equiv> ex_TenantID r = t \<and> ex_Status r = ExActive \<and> ex_ExpiresAt r < pgTime now"

abbreviation mark_expired :: "gotime \<Rightarrow> Exception \<Rightarrow> Exception" where
  "mark_expired dbnow r \<equiv> r\<lparr>ex_Status := ExExpired, ex_ExpiredAt := Some dbnow, ex_UpdatedAt := dbnow\<rparr>"

abbreviation mark_approved :: "gotime \<Rightarrow> string option \<Rightarrow> Exception \<Rightarrow> Exception" where
  "mark_approved dbnow who r \<equiv>
     r\<lparr>ex_Status := ExApproved, ex_ApprovedBy := who, ex_ApprovedAt := Some dbnow, ex_UpdatedAt := dbnow\<rparr>"

abbreviation mark_denied :: "gotime \<Rightarrow> string option \<Rightarrow> Exception \<Rightarrow> Exception" where
  "mark_denied dbnow who r \<equiv>
     r\<lparr>ex_Status := ExDenied, ex_DeniedBy := who, ex_DeniedAt := Some dbnow, ex_UpdatedAt := dbnow\<rparr>"

abbreviation mark_active :: "gotime \<Rightarrow> string option \<Rightarrow> gotime \<Rightarrow> Exception \<Rightarrow> Exception" where
  "mark_active dbnow who eff r \<equiv>
     r\<lparr>ex_Status := ExActive, ex_ActivatedBy := who, ex_ActivatedAt := Some dbnow,
       ex_EffectiveFrom := Some (pgTime eff), ex_UpdatedAt := dbnow\<rparr>"

abbreviation in_state :: "uuid \<Rightarrow> uuid \<Rightarrow> ex_state \<Rightarrow> Exception \<Rightarrow> bool" where
  "in_state t i s r \<equiv> ex_TenantID r = t \<and> ex_ID r = i \<and> ex_Status r = s"

lemma sweepTenant_cases:
  assumes "sweepTenant sw t now db = (res, db')"
  obtains (fail) e where "res = Inl e" "db' = db"
  | (commit) "res = Inr (length (filter (expirable t now) (db_exceptions db)))"
      "db' = db\<lparr>db_exceptions := sql_update (expirable t now) (mark_expired (sw_dbnow sw t)) (db_exceptions db),
                db_exception_audit := db_exception_audit db @
                  map (\<lambda>r. expired_entry sw t now (mark_expired (sw_dbnow sw t) r))
                    (filter (expirable t now) (db_exceptions db))\<rparr>"
      "\<And>r. r \<in> set (db_exceptions db) \<Longrightarrow> expirable t now r \<Longrightarrow>
         exceptions_check (mark_expired (sw_dbnow sw t) r) = None"
proof (cases res)
  case (Inl e)
  with assms have "db' = db"
    by (auto simp: sweepTenant_def split: sum.splits prod.splits if_splits)
  with Inl fail show ?thesis by blast
next
  case (Inr n)
  with assms obtain rows db1
    where ex: "ExpireActiveExceptionsBefore (sw_dbnow sw t) t now db = Inr (rows, db1)"
      and au: "audit_expired sw t now rows db1 = Inr db'" and n: "n = length rows"
    by (auto simp: sweepTenant_def split: sum.splits prod.splits if_splits)
  note up = ex_update_InrD [OF ex [unfolded ExpireActiveExceptionsBefore_def]]
  show ?thesis
    using up(1,2) audit_expired_InrD [OF au] Inr n
    by (intro commit) (auto simp: up(3) comp_def)
qed

text \<open>A transition whose update is guarded by the tenant, the id and the prior state.\<close>

lemma ex_transition_cases:
  assumes "ex_transition env dbnow auditID i p db = (res, db')"
    and "\<And>t. tp_run p t = ex_update_one (in_state t i (tp_expectedPrior p)) f"
  obtains (fail) e where "res = Inl e" "db' = db"
  | (commit) t r0 where "tenant_of env = Some t" "r0 \<in> set (db_exceptions db)"
      "in_state t i (tp_expectedPrior p) r0" "exceptions_check (f r0) = None" "res = Inr (f r0)"
      "sod_check p t i db = None"
      "db' = db\<lparr>db_exceptions := sql_update (in_state t i (tp_expectedPrior p)) f (db_exceptions db),
                db_exception_audit := db_exception_audit db @
                  [\<lparr>xa_ID = auditID, xa_TenantID = t, xa_ExceptionID = ex_ID (f r0),
                    xa_Action = tp_action p, xa_Actor = tp_actor p, xa_FromState = Some (tp_expectedPrior p),
                    xa_ToState = tp_newState p, xa_Reason = tp_reason p, xa_OccurredAt = dbnow\<rparr>]\<rparr>"
  using assms(1) unfolding ex_transition_def
proof (cases rule: inTx_cases)
  case (fail e)
  with that(1) show ?thesis by blast
next
  case (commit t a)
  from commit(4) obtain row db1
    where sod: "sod_check p t i db = None" and run: "tp_run p t db = Inr (row, db1)"
      and au: "WriteExceptionAuditLog
                 \<lparr>xa_ID = auditID, xa_TenantID = t, xa_ExceptionID = ex_ID row,
                  xa_Action = tp_action p, xa_Actor = tp_actor p, xa_FromState = Some (tp_expectedPrior p),
                  xa_ToState = tp_newState p, xa_Reason = tp_reason p, xa_OccurredAt = dbnow\<rparr> db1 = Inr db'"
      and a: "a = row"
    by (auto split: option.splits sum.splits prod.splits if_splits)
  from run [unfolded assms(2)] obtain r0 where r0: "r0 \<in> set (db_exceptions db)"
      "in_state t i (tp_expectedPrior p) r0" "row = f r0" "exceptions_check (f r0) = None"
      "db1 = db\<lparr>db_exceptions := sql_update (in_state t i (tp_expectedPrior p)) f (db_exceptions db)\<rparr>"
    by (rule ex_update_one_InrE)
  show ?thesis
    by (rule that(2) [OF commit(2) r0(1,2,4) _ sod])
      (use commit(1) a r0 WriteExceptionAuditLog_InrD [OF au] in auto)
qed

lemma ex_Create_cases:
  assumes "ex_Create jsonb env wallnow dbnow newID auditID inp db = (res, db')"
  obtains (fail) e where "res = Inl e" "db' = db"
  | (commit) t row where "tenant_of env = Some t" "res = Inr row"
      "ex_ID row = newID" "ex_TenantID row = t" "ex_Status row = ExRequested"
      "newID \<notin> ex_ID ` set (db_exceptions db)" "ex_row_inv (db_controls db) row"
      "db' = db\<lparr>db_exceptions := db_exceptions db @ [row],
                db_exception_audit := db_exception_audit db @
                  [\<lparr>xa_ID = auditID, xa_TenantID = t, xa_ExceptionID = newID,
                    xa_Action = ActRequested, xa_Actor = xi_RequestedBy inp, xa_FromState = None,
                    xa_ToState = ExRequested, xa_Reason = [], xa_OccurredAt = dbnow\<rparr>]\<rparr>"
proof (cases res)
  case (Inl e)
  with assms have "db' = db"
    by (auto simp: ex_Create_def Let_def dest: inTx_rollback split: if_splits)
  with Inl fail show ?thesis by blast
next
  case (Inr row)
  define now where "now = (if xi_Now inp = 0 then wallnow else xi_Now inp)"
  have guard: "now < xi_ExpiresAt inp"
    using assms Inr by (auto simp: ex_Create_def Let_def now_def split: if_splits)
  define pr where "pr = (if xi_ScopeCellPredicate inp = [] then ''{}'' else xi_ScopeCellPredicate inp)"
  let ?create = "\<lambda>t. CreateException jsonb dbnow newID t (xi_ControlID inp) pr (xi_Justification inp)
               (xi_CompensatingControls inp) (xi_RequestedBy inp) now (xi_ExpiresAt inp) db"
  let ?entry = "\<lambda>t row. \<lparr>xa_ID = auditID, xa_TenantID = t, xa_ExceptionID = ex_ID row,
                xa_Action = ActRequested, xa_Actor = xi_RequestedBy inp, xa_FromState = None,
                xa_ToState = ExRequested, xa_Reason = [], xa_OccurredAt = dbnow\<rparr>"
  obtain t where t: "tenant_of env = Some t"
    and body: "(case ?create t of Inl e \<Rightarrow> Inl (ex_mapCreateError e)
                | Inr (row, db1) \<Rightarrow>
                  (case WriteExceptionAuditLog (?entry t row) db1 of
                     Inl e \<Rightarrow> Inl (WriteAuditFailed e) | Inr db2 \<Rightarrow> Inr (row, db2))) = Inr (row, db')"
    using assms unfolding Inr ex_Create_def Let_def now_def [symmetric] pr_def [symmetric]
    by (auto simp: inTx_Inr_iff split: if_splits)
  from body obtain db1 where cr: "?create t = Inr (row, db1)"
    and au: "WriteExceptionAuditLog (?entry t row) db1 = Inr db'"
    by (auto split: sum.splits prod.splits)
  have row: "ex_ID row = newID" "ex_TenantID row = t" "ex_Status row = ExRequested"
    "newID \<notin> ex_ID ` set (db_exceptions db)" "db1 = db\<lparr>db_exceptions := db_exceptions db @ [row]\<rparr>"
    using cr by (auto simp: CreateException_def ex_insert_def split: option.splits if_splits)
  have "ex_row_inv (db_controls db) row"
    using cr pgTime_mono [OF less_imp_le [OF guard]]
    by (auto simp: CreateException_def ex_insert_def ex_row_inv_def split: option.splits if_splits)
  with t Inr row WriteExceptionAuditLog_InrD [OF au] show ?thesis by (intro commit) auto
qed


section \<open>The effect of a step\<close>

text \<open>
  Every committed operation either appends a requested row with its audit entry, or moves
  the rows a guard selects along one edge and writes one entry for each. \<open>moved\<close> is
  the second shape.
\<close>

definition moved ::
  "(Exception \<Rightarrow> bool) \<Rightarrow> (Exception \<Rightarrow> Exception) \<Rightarrow> (Exception \<Rightarrow> ex_AuditEntry) \<Rightarrow> ex_state \<Rightarrow>
   'z ex_db_scheme \<Rightarrow> 'z ex_db_scheme \<Rightarrow> bool" where
  "moved P f en s' db db' \<longleftrightarrow>
     db' = db\<lparr>db_exceptions := sql_update P f (db_exceptions db),
              db_exception_audit := db_exception_audit db @ map en (filter P (db_exceptions db))\<rparr>
     \<and> (\<forall>r. ex_terms (f r) = ex_terms r \<and> ex_Status (f r) = s')
     \<and> (\<forall>r. P r \<longrightarrow> xa_TenantID (en r) = ex_TenantID r \<and> xa_ExceptionID (en r) = ex_ID r
            \<and> xa_ToState (en r) = s')
     \<and> (\<forall>r \<in> set (db_exceptions db). P r \<longrightarrow> ex_edge (ex_Status r) s'
            \<and> (ex_row_inv (db_controls db) r \<longrightarrow> ex_row_inv (db_controls db) (f r)))"

lemma ex_terms_key: "ex_terms r = ex_terms r' \<Longrightarrow> ex_ID r = ex_ID r' \<and> ex_TenantID r = ex_TenantID r'"
  by (simp add: ex_terms_def)

lemma moved_inv:
  assumes "moved P f en s' db db'" and "ex_inv db"
  shows "ex_inv db'"
proof -
  have "ex_ID (f r) = ex_ID r" for r using assms(1) ex_terms_key [of "f r" r] by (simp add: moved_def)
  moreover have "ex_row_inv (db_controls db) r" if "r \<in> set (sql_update P f (db_exceptions db))" for r
    using that assms by (cases rule: in_sql_updateE) (simp_all add: moved_def ex_inv_def)
  ultimately show ?thesis using assms by (simp add: moved_def ex_inv_def map_sql_update_frame)
qed

lemma moved_terms: "moved P f en s' db db' \<Longrightarrow> map ex_terms (db_exceptions db') = map ex_terms (db_exceptions db)"
  by (auto simp: moved_def map_sql_update_frame)

lemma moved_find:
  assumes "moved P f en s' db db'"
  shows "GetExceptionByID t i db' = map_option (\<lambda>r. if P r then f r else r) (GetExceptionByID t i db)"
proof -
  have "ex_TenantID (f r) = ex_TenantID r" "ex_ID (f r) = ex_ID r" for r
    using assms ex_terms_key [of "f r" r] by (auto simp: moved_def)
  then show ?thesis
    using assms by (auto simp: moved_def GetExceptionByID_def sql_update_def intro!: find_map_key)
qed

lemma moved_trail:
  assumes "moved P f en s' db db'" and "ex_inv db"
  shows "ex_trail_of db' (t, i) =
           ex_trail_of db (t, i) @
             (case GetExceptionByID t i db of None \<Rightarrow> [] | Some r \<Rightarrow> if P r then [s'] else [])"
proof -
  let ?key = "\<lambda>r. ex_TenantID r = t \<and> ex_ID r = i"
  have "filter (\<lambda>a. xa_TenantID a = t \<and> xa_ExceptionID a = i) (map en (filter P (db_exceptions db)))
      = map en (filter (\<lambda>r. ?key r \<and> P r) (db_exceptions db))"
    unfolding filter_map filter_filter comp_def
    by (rule arg_cong [of _ _ "map en"], rule filter_cong) (use assms(1) in \<open>auto simp: moved_def\<close>)
  also have "filter (\<lambda>r. ?key r \<and> P r) (db_exceptions db) =
      (case List.find ?key (db_exceptions db) of None \<Rightarrow> [] | Some r \<Rightarrow> if P r then [r] else [])"
    using assms(2) by (intro filter_key_unique [where k = ex_ID and c = i]) (auto simp: ex_inv_def)
  finally show ?thesis
    using assms(1) by (auto simp: moved_def ex_trail_of_def GetExceptionByID_def split: option.split dest: find_SomeD)
qed

lemma moved_law:
  assumes "moved P f en s' db db'" and "ex_inv db"
  shows "ex_trail_of db' k = ex_trail_of db k @
           (if ex_status_of db' k = ex_status_of db k then [] else [the (ex_status_of db' k)])"
    and "ex_status_of db' k \<noteq> ex_status_of db k \<Longrightarrow>
      \<exists>s s'. ex_status_of db k = Some s \<and> ex_status_of db' k = Some s' \<and> ex_edge s s'"
proof -
  obtain t i where k: "k = (t, i)" by (cases k)
  have edge: "ex_edge (ex_Status r) s' \<and> ex_Status (f r) = s'"
    if "GetExceptionByID t i db = Some r" "P r" for r
    using assms(1) that by (auto simp: moved_def GetExceptionByID_def dest!: find_SomeD)
  have irrefl: "\<not> ex_edge s s" for s by (cases s) auto
  show "ex_trail_of db' k = ex_trail_of db k @
           (if ex_status_of db' k = ex_status_of db k then [] else [the (ex_status_of db' k)])"
    using edge irrefl moved_trail [OF assms, of t i] moved_find [OF assms(1), of t i]
    by (cases "GetExceptionByID t i db") (auto simp: k ex_status_of_def)
  show "\<exists>s s'. ex_status_of db k = Some s \<and> ex_status_of db' k = Some s' \<and> ex_edge s s'"
    if "ex_status_of db' k \<noteq> ex_status_of db k"
    using that edge moved_find [OF assms(1), of t i]
    by (cases "GetExceptionByID t i db") (auto simp: k ex_status_of_def split: if_splits)
qed

lemma ex_transition_moved:
  assumes "ex_transition env dbnow auditID i p db = (res, db')" and "ex_inv db"
    and "\<And>t. tp_run p t = ex_update_one (in_state t i (tp_expectedPrior p)) f"
    and "\<And>r. ex_terms (f r) = ex_terms r" and "\<And>r. ex_Status (f r) = tp_newState p"
    and "ex_edge (tp_expectedPrior p) (tp_newState p)"
    and "\<And>r. ex_Status r = tp_expectedPrior p \<Longrightarrow> exceptions_check (f r) = None \<Longrightarrow>
            ex_row_inv (db_controls db) r \<Longrightarrow> ex_row_inv (db_controls db) (f r)"
  shows "db' = db \<or> (\<exists>P en. moved P f en (tp_newState p) db db')"
  using assms(1,3)
proof (cases rule: ex_transition_cases)
  case (commit t r0)
  let ?P = "in_state t i (tp_expectedPrior p)"
  have only: "filter ?P (db_exceptions db) = [r0]"
    using filter_key_unique [of ex_ID "db_exceptions db" ?P i "\<lambda>_. True"] assms(2) commit(2,3)
      find_eq_unique [of ex_ID "db_exceptions db" r0 ?P]
    by (auto simp: ex_inv_def)
  have "ex_ID (f r0) = i" using ex_terms_key [OF assms(4) [of r0]] commit(3) by simp
  moreover have uniq: "r = r0" if "r \<in> set (db_exceptions db)" "?P r" for r
  proof -
    have "r \<in> set (filter ?P (db_exceptions db))" using that by simp
    then show ?thesis unfolding only by simp
  qed
  ultimately have "moved ?P f
     (\<lambda>r. \<lparr>xa_ID = auditID, xa_TenantID = t, xa_ExceptionID = i,
           xa_Action = tp_action p, xa_Actor = tp_actor p, xa_FromState = Some (tp_expectedPrior p),
           xa_ToState = tp_newState p, xa_Reason = tp_reason p, xa_OccurredAt = dbnow\<rparr>)
     (tp_newState p) db db'"
    unfolding moved_def only commit(7)
    by (intro conjI allI impI ballI)
      (use assms(4-7) commit(3,4) in \<open>simp_all, (metis uniq)?\<close>)
  then show ?thesis by blast
qed simp

lemma sweepTenant_moved:
  assumes "sweepTenant sw t now db = (res, db')"
  shows "db' = db \<or> (\<exists>en. moved (expirable t now) (mark_expired (sw_dbnow sw t)) en ExExpired db db')"
  using assms
proof (cases rule: sweepTenant_cases)
  case commit
  have "moved (expirable t now) (mark_expired (sw_dbnow sw t))
     (\<lambda>r. expired_entry sw t now (mark_expired (sw_dbnow sw t) r)) ExExpired db db'"
    unfolding moved_def using commit(2,3)
    by (auto simp: ex_terms_def expired_entry_def ex_row_inv_def)
  then show ?thesis by blast
qed simp

abbreviation approve_params :: "gotime \<Rightarrow> uuid \<Rightarrow> string \<Rightarrow> 'z ex_db_scheme transitionParams" where
  "approve_params dbnow i approver \<equiv>
     \<lparr>tp_expectedPrior = ExRequested, tp_newState = ExApproved, tp_actor = approver,
      tp_action = ActApproved, tp_reason = [],
      tp_run = (\<lambda>t. ApproveException dbnow t i (stringPtr approver)), tp_requesterCheck = approver\<rparr>"

abbreviation deny_params :: "gotime \<Rightarrow> uuid \<Rightarrow> string \<Rightarrow> string \<Rightarrow> 'z ex_db_scheme transitionParams" where
  "deny_params dbnow i denier reason \<equiv>
     \<lparr>tp_expectedPrior = ExRequested, tp_newState = ExDenied, tp_actor = denier,
      tp_action = ActDenied, tp_reason = reason,
      tp_run = (\<lambda>t. DenyException dbnow t i (stringPtr denier)), tp_requesterCheck = denier\<rparr>"

abbreviation activate_params :: "gotime \<Rightarrow> uuid \<Rightarrow> string \<Rightarrow> gotime \<Rightarrow> 'z ex_db_scheme transitionParams" where
  "activate_params dbnow i activator eff \<equiv>
     \<lparr>tp_expectedPrior = ExApproved, tp_newState = ExActive, tp_actor = activator,
      tp_action = ActActivated, tp_reason = [],
      tp_run = (\<lambda>t. ActivateException dbnow t i (stringPtr activator) eff), tp_requesterCheck = []\<rparr>"

lemma ex_step_effect:
  fixes db :: "'a ex_db_scheme"
  assumes "ex_step jsonb db db'" and "ex_inv db"
  obtains (same) "db' = db"
  | (move) P f en s' where "moved P f en s' db db'"
  | (new) env wallnow dbnow newID auditID inp res
      where "ex_Create jsonb env wallnow dbnow newID auditID inp db = (res, db')"
  using assms(1)
proof cases
  case (create env wallnow dbnow newID auditID inp res)
  with new show ?thesis by blast
next
  case (approve env dbnow auditID i approver res)
  let ?p = "approve_params dbnow i approver :: 'a ex_db_scheme transitionParams"
  show ?thesis
  proof (cases "approver = []")
    case False
    with approve have tr: "ex_transition env dbnow auditID i ?p db = (res, db')"
      by (simp add: ex_Approve_def)
    have "db' = db \<or> (\<exists>P en. moved P (mark_approved dbnow (Some approver)) en (tp_newState ?p) db db')"
      by (rule ex_transition_moved [OF tr assms(2)])
        (simp_all add: ApproveException_def stringPtr_def ex_terms_def ex_row_inv_def False)
    with same move show ?thesis by blast
  qed (use approve same in \<open>simp add: ex_Approve_def\<close>)
next
  case (deny env dbnow auditID i denier reason res)
  let ?p = "deny_params dbnow i denier reason :: 'a ex_db_scheme transitionParams"
  show ?thesis
  proof (cases "denier = []")
    case False
    with deny have tr: "ex_transition env dbnow auditID i ?p db = (res, db')"
      by (simp add: ex_Deny_def)
    have "db' = db \<or> (\<exists>P en. moved P (mark_denied dbnow (Some denier)) en (tp_newState ?p) db db')"
      by (rule ex_transition_moved [OF tr assms(2)])
        (simp_all add: DenyException_def stringPtr_def ex_terms_def ex_row_inv_def False)
    with same move show ?thesis by blast
  qed (use deny same in \<open>simp add: ex_Deny_def\<close>)
next
  case (activate env wallnow dbnow auditID i activator eff res)
  let ?eff = "if eff = 0 then wallnow else eff"
  let ?p = "activate_params dbnow i activator ?eff :: 'a ex_db_scheme transitionParams"
  show ?thesis
  proof (cases "activator = []")
    case False
    with activate have tr: "ex_transition env dbnow auditID i ?p db = (res, db')"
      by (simp add: ex_Activate_def Let_def)
    have "db' = db \<or> (\<exists>P en. moved P (mark_active dbnow (Some activator) ?eff) en (tp_newState ?p) db db')"
      by (rule ex_transition_moved [OF tr assms(2)])
        (simp_all add: ActivateException_def stringPtr_def ex_terms_def ex_row_inv_def False)
    with same move show ?thesis by blast
  qed (use activate same in \<open>simp add: ex_Activate_def\<close>)
next
  case (expire sw t now res)
  from sweepTenant_moved [OF this] same move show ?thesis by blast
qed


lemma ex_Create_effect:
  assumes "ex_Create jsonb env wallnow dbnow newID auditID inp db = (res, db')" and "ex_inv db"
  shows "ex_inv db' \<and> prefix (map ex_terms (db_exceptions db)) (map ex_terms (db_exceptions db')) \<and>
    ex_trail_of db' k = ex_trail_of db k @
      (if ex_status_of db' k = ex_status_of db k then [] else [the (ex_status_of db' k)]) \<and>
    (ex_status_of db' k \<noteq> ex_status_of db k \<longrightarrow>
       ex_status_of db k = None \<and> ex_status_of db' k = Some ExRequested)"
  using assms(1)
proof (cases rule: ex_Create_cases)
  case (fail e)
  with assms(2) show ?thesis by simp
next
  case (commit t row)
  obtain t0 i0 where k: "k = (t0, i0)" by (cases k)
  have "List.find (\<lambda>r. ex_TenantID r = t \<and> ex_ID r = newID) (db_exceptions db) = None"
    using commit(6) by (auto simp: find_None_iff)
  then have st: "ex_status_of db' k = (if k = (t, newID) then Some ExRequested else ex_status_of db k)"
    "k = (t, newID) \<Longrightarrow> ex_status_of db k = None"
    using commit by (auto simp: k ex_status_of_def GetExceptionByID_def find_append split: option.splits)
  have "ex_inv db'" using assms(2) commit by (auto simp: ex_inv_def)
  moreover have "ex_trail_of db' k = ex_trail_of db k @ (if k = (t, newID) then [ExRequested] else [])"
    using commit by (auto simp: ex_trail_of_def k)
  ultimately show ?thesis using st commit(8) by auto
qed

lemmas ex_Create_law =
  ex_Create_effect [THEN conjunct1]
  ex_Create_effect [THEN conjunct2, THEN conjunct1]
  ex_Create_effect [THEN conjunct2, THEN conjunct2, THEN conjunct1]
  ex_Create_effect [THEN conjunct2, THEN conjunct2, THEN conjunct2, THEN mp]

lemma ex_step_inv: "ex_step jsonb db db' \<Longrightarrow> ex_inv db \<Longrightarrow> ex_inv db'"
  by (erule ex_step_effect) (auto intro: moved_inv dest: ex_Create_law(1))

lemma ex_step_terms:
  "ex_step jsonb db db' \<Longrightarrow> ex_inv db \<Longrightarrow>
     prefix (map ex_terms (db_exceptions db)) (map ex_terms (db_exceptions db'))"
  by (erule ex_step_effect) (auto dest: moved_terms ex_Create_law(2))

interpretation exc: ranked_lifecycle "ex_step jsonb" ex_inv ex_status_of ex_edge ExRequested ex_trail_of ex_rank
  for jsonb
proof
  fix db db' :: "'a ex_db_scheme" and k :: "uuid \<times> uuid"
  assume step: "ex_step jsonb db db'" and inv: "ex_inv db"
  from step inv show "ex_inv db'" by (rule ex_step_inv)
  from step inv show "ex_trail_of db' k = ex_trail_of db k @
      (if ex_status_of db' k = ex_status_of db k then [] else [the (ex_status_of db' k)])"
  proof (cases rule: ex_step_effect)
    case (move P f en s')
    from moved_law(1) [OF this inv] show ?thesis .
  next
    case (new env wallnow dbnow newID auditID inp res)
    from ex_Create_law(3) [OF this inv] show ?thesis .
  qed simp
  assume "ex_status_of db' k \<noteq> ex_status_of db k"
  with step inv show "\<exists>s'. ex_status_of db' k = Some s' \<and>
      (case ex_status_of db k of None \<Rightarrow> s' = ExRequested | Some s \<Rightarrow> ex_edge s s')"
    by (cases rule: ex_step_effect) (use inv in \<open>auto dest: moved_law(2) ex_Create_law(4)\<close>)
next
  fix a b assume "ex_edge a b"
  then show "ex_rank a < ex_rank b" by (cases a; cases b) simp_all
qed


section \<open>A sweep that the database lets through\<close>

definition sweep_ok :: "sweep_env \<Rightarrow> bool" where
  "sweep_ok sw \<longleftrightarrow>
     sw_acquire_ok sw \<and> (\<forall>t. \<not> sw_done sw t \<and> sw_uuid_string sw t \<noteq> [] \<and> tx_ok (sw_env sw t))"

definition due :: "gotime \<Rightarrow> Exception \<Rightarrow> bool" where
  "due now r \<longleftrightarrow> ex_Status r = ExActive \<and> ex_ExpiresAt r < pgTime now"

definition fresh_audit :: "sweep_env \<Rightarrow> Exception list \<Rightarrow> ex_AuditEntry list \<Rightarrow> bool" where
  "fresh_audit sw rows audit \<longleftrightarrow>
     distinct (map (\<lambda>r. sw_auditID sw (ex_ID r)) rows)
     \<and> (\<forall>r \<in> set rows. sw_auditID sw (ex_ID r) \<notin> xa_ID ` set audit)"

lemma fresh_audit_filter:
  assumes "fresh_audit sw (filter Q rows) audit" and "\<And>r. P r \<Longrightarrow> Q r"
  shows "fresh_audit sw (filter P rows) audit"
proof -
  have "filter P rows = filter P (filter Q rows)" using assms(2) by (auto simp: filter_filter intro!: filter_cong)
  then show ?thesis
    using assms(1) distinct_map_filter [of _ "filter Q rows" P] unfolding fresh_audit_def by (metis filter_is_subset subsetD)
qed

lemma audit_expired_ok:
  "fresh_audit sw rows (db_exception_audit db) \<Longrightarrow>
     audit_expired sw t now rows db =
       Inr (db\<lparr>db_exception_audit := db_exception_audit db @ map (expired_entry sw t now) rows\<rparr>)"
proof (induction rows arbitrary: db)
  case (Cons r rows)
  then have "WriteExceptionAuditLog (expired_entry sw t now r) db =
      Inr (db\<lparr>db_exception_audit := db_exception_audit db @ [expired_entry sw t now r]\<rparr>)"
    by (simp add: WriteExceptionAuditLog_def expired_entry_def SystemActor_def fresh_audit_def)
  moreover from Cons.prems
  have "fresh_audit sw rows (db_exception_audit (db\<lparr>db_exception_audit := db_exception_audit db @ [expired_entry sw t now r]\<rparr>))"
    by (auto simp: fresh_audit_def expired_entry_def) (metis (mono_tags, lifting) image_eqI)
  ultimately show ?case by (simp add: Cons.IH)
qed simp

definition swept :: "sweep_env \<Rightarrow> gotime \<Rightarrow> uuid \<Rightarrow> 'z ex_db_scheme \<Rightarrow> 'z ex_db_scheme" where
  "swept sw now t db =
     db\<lparr>db_exceptions := sql_update (expirable t now) (mark_expired (sw_dbnow sw t)) (db_exceptions db),
        db_exception_audit := db_exception_audit db @
          map (\<lambda>r. expired_entry sw t now (mark_expired (sw_dbnow sw t) r))
            (filter (expirable t now) (db_exceptions db))\<rparr>"

lemma sweepTenant_ok:
  assumes "sweep_ok sw" and "ex_inv db"
    and "fresh_audit sw (filter (expirable t now) (db_exceptions db)) (db_exception_audit db)"
  shows "sweepTenant sw t now db =
           (Inr (length (filter (expirable t now) (db_exceptions db))), swept sw now t db)"
proof -
  let ?rows = "map (mark_expired (sw_dbnow sw t)) (filter (expirable t now) (db_exceptions db))"
  let ?db1 = "db\<lparr>db_exceptions := sql_update (expirable t now) (mark_expired (sw_dbnow sw t)) (db_exceptions db)\<rparr>"
  have "exceptions_check (mark_expired (sw_dbnow sw t) r) = None" if "r \<in> set (db_exceptions db)" for r
    using assms(2) that by (simp add: ex_inv_def ex_row_inv_def exceptions_check_None_iff)
  then have "List.find (\<lambda>r. exceptions_check r \<noteq> None) ?rows = None" by (auto simp: find_None_iff)
  then have ex: "ExpireActiveExceptionsBefore (sw_dbnow sw t) t now db = Inr (?rows, ?db1)"
    by (simp add: ExpireActiveExceptionsBefore_def ex_update_def Let_def)
  have "fresh_audit sw ?rows (db_exception_audit ?db1)"
    using assms(3) by (simp add: fresh_audit_def comp_def)
  from audit_expired_ok [OF this] assms(1) ex show ?thesis
    by (simp add: sweepTenant_def sweep_ok_def tx_ok_def WithTenant_def ApplyTenant_def
        TenantFromContext_def swept_def comp_def)
qed

text \<open>The rows of one tenant are marked; the due rows of the others are untouched.\<close>

lemma filter_sql_update_disjoint:
  "(\<And>r. P r \<Longrightarrow> \<not> Q r \<and> \<not> Q (f r)) \<Longrightarrow> filter Q (sql_update P f rows) = filter Q rows"
  by (induction rows) auto

lemma length_filter_disjoint:
  "(\<And>r. P r \<Longrightarrow> \<not> Q r) \<Longrightarrow> length (filter (\<lambda>r. P r \<or> Q r) rows) = length (filter P rows) + length (filter Q rows)"
  by (induction rows) auto

lemma swept_rest:
  "t \<notin> set ts \<Longrightarrow>
     filter (\<lambda>r. due now r \<and> ex_TenantID r \<in> set ts) (db_exceptions (swept sw now t db)) =
     filter (\<lambda>r. due now r \<and> ex_TenantID r \<in> set ts) (db_exceptions db)"
  unfolding swept_def by (simp, intro filter_sql_update_disjoint) (auto simp: due_def)

lemma swept_fresh:
  assumes "fresh_audit sw (filter (\<lambda>r. due now r \<and> ex_TenantID r \<in> set (t # ts)) (db_exceptions db))
             (db_exception_audit db)" and "t \<notin> set ts"
  shows "fresh_audit sw (filter (\<lambda>r. due now r \<and> ex_TenantID r \<in> set ts) (db_exceptions db))
           (db_exception_audit (swept sw now t db))"
proof -
  let ?Q = "\<lambda>r. due now r \<and> ex_TenantID r \<in> set ts"
  let ?one = "filter (expirable t now) (db_exceptions db)"
  have "fresh_audit sw (filter ?Q (db_exceptions db)) (db_exception_audit db)"
    by (rule fresh_audit_filter [OF assms(1)]) simp
  moreover have "sw_auditID sw (ex_ID r) \<noteq> sw_auditID sw (ex_ID r')"
    if "r \<in> set (filter ?Q (db_exceptions db))" "r' \<in> set ?one" for r r'
    using assms that unfolding fresh_audit_def distinct_map inj_on_def by (auto simp: due_def)
  moreover have "xa_ID ` set (db_exception_audit (swept sw now t db)) =
      xa_ID ` set (db_exception_audit db) \<union> (\<lambda>r. sw_auditID sw (ex_ID r)) ` set ?one"
    by (simp add: swept_def expired_entry_def image_Un image_image)
  ultimately show ?thesis unfolding fresh_audit_def by blast
qed

text \<open>Marking one tenant's rows and then those of the remaining tenants marks all of them.\<close>

lemma swept_mark:
  assumes "t \<notin> set ts"
  shows "map (\<lambda>r. if due now r \<and> ex_TenantID r \<in> set ts then mark_expired (sw_dbnow sw (ex_TenantID r)) r else r)
           (db_exceptions (swept sw now t db)) =
         map (\<lambda>r. if due now r \<and> ex_TenantID r \<in> set (t # ts)
                  then mark_expired (sw_dbnow sw (ex_TenantID r)) r else r) (db_exceptions db)"
proof -
  have "(if due now r' \<and> ex_TenantID r' \<in> set ts then mark_expired (sw_dbnow sw (ex_TenantID r')) r' else r') =
      (if due now r \<and> ex_TenantID r \<in> set (t # ts)
       then mark_expired (sw_dbnow sw (ex_TenantID r)) r else r)"
    if "r' = (if expirable t now r then mark_expired (sw_dbnow sw t) r else r)" for r r'
  proof (cases "expirable t now r")
    case True
    with that assms show ?thesis by (simp add: due_def)
  next
    case False
    with that show ?thesis by (auto simp: due_def)
  qed
  then show ?thesis by (simp add: swept_def sql_update_def)
qed

lemma swept_count:
  assumes "t \<notin> set ts"
  shows "length (filter (\<lambda>r. due now r \<and> ex_TenantID r \<in> set (t # ts)) rows) =
      length (filter (expirable t now) rows) + length (filter (\<lambda>r. due now r \<and> ex_TenantID r \<in> set ts) rows)"
proof -
  have "(\<lambda>r. due now r \<and> ex_TenantID r \<in> set (t # ts)) =
      (\<lambda>r. expirable t now r \<or> (due now r \<and> ex_TenantID r \<in> set ts))"
    by (auto simp: due_def)
  with assms length_filter_disjoint [of "expirable t now" "\<lambda>r. due now r \<and> ex_TenantID r \<in> set ts" rows]
  show ?thesis by auto
qed

lemma sweep_exceptions_ok:
  assumes "sweep_ok sw" and "distinct ts" and "ex_inv db"
    and "fresh_audit sw (filter (\<lambda>r. due now r \<and> ex_TenantID r \<in> set ts) (db_exceptions db))
           (db_exception_audit db)"
  shows "\<exists>es. sweep_exceptions sw now n ts db =
           ((n + length (filter (\<lambda>r. due now r \<and> ex_TenantID r \<in> set ts) (db_exceptions db)), None),
            db\<lparr>db_exceptions := map (\<lambda>r. if due now r \<and> ex_TenantID r \<in> set ts
                                        then mark_expired (sw_dbnow sw (ex_TenantID r)) r else r)
                                 (db_exceptions db),
               db_exception_audit := db_exception_audit db @ es\<rparr>)
         \<and> length es = length (filter (\<lambda>r. due now r \<and> ex_TenantID r \<in> set ts) (db_exceptions db))
         \<and> set es = (\<lambda>r. expired_entry sw (ex_TenantID r) now (mark_expired (sw_dbnow sw (ex_TenantID r)) r)) `
                      set (filter (\<lambda>r. due now r \<and> ex_TenantID r \<in> set ts) (db_exceptions db))"
  using assms(2-)
proof (induction ts arbitrary: n db)
  case Nil
  then show ?case by (intro exI [of _ "[]"]) simp
next
  case (Cons t ts)
  let ?rows = "db_exceptions db"
  let ?one = "filter (expirable t now) ?rows"
  let ?db1 = "swept sw now t db"
  let ?Q = "\<lambda>r. due now r \<and> ex_TenantID r \<in> set ts"
  have t: "t \<notin> set ts" "distinct ts" using Cons.prems(1) by auto
  have fresh1: "fresh_audit sw ?one (db_exception_audit db)"
    by (rule fresh_audit_filter [OF Cons.prems(3)]) (simp add: due_def)
  have run: "sweepTenant sw t now db = (Inr (length ?one), ?db1)"
    by (rule sweepTenant_ok [OF assms(1) Cons.prems(2) fresh1])
  have inv1: "ex_inv ?db1" using ex_step_inv [OF ex_step.expire [OF run]] Cons.prems(2) by blast
  note rest = swept_rest [OF t(1), of now sw db] and split = swept_count [OF t(1), of now ?rows]
    and maps = swept_mark [OF t(1), of now sw db]
  have sets: "set (filter (\<lambda>r. due now r \<and> ex_TenantID r \<in> set (t # ts)) ?rows) = set ?one \<union> set (filter ?Q ?rows)"
    by (auto simp: due_def)
  have fresh2: "fresh_audit sw (filter ?Q (db_exceptions ?db1)) (db_exception_audit ?db1)"
    unfolding rest by (rule swept_fresh [OF Cons.prems(3) t(1)])
  from Cons.IH [OF t(2) inv1 fresh2, of "n + length ?one"] obtain es where es:
    "sweep_exceptions sw now (n + length ?one) ts ?db1 =
       ((n + length ?one + length (filter ?Q ?rows), None),
        ?db1\<lparr>db_exceptions := map (\<lambda>r. if ?Q r then mark_expired (sw_dbnow sw (ex_TenantID r)) r else r)
                (db_exceptions ?db1), db_exception_audit := db_exception_audit ?db1 @ es\<rparr>)"
    "length es = length (filter ?Q ?rows)"
    "set es = (\<lambda>r. expired_entry sw (ex_TenantID r) now (mark_expired (sw_dbnow sw (ex_TenantID r)) r)) ` set (filter ?Q ?rows)"
    unfolding rest by blast
  let ?new = "map (\<lambda>r. expired_entry sw t now (mark_expired (sw_dbnow sw t) r)) ?one"
  have "set ?new = (\<lambda>r. expired_entry sw (ex_TenantID r) now (mark_expired (sw_dbnow sw (ex_TenantID r)) r)) ` set ?one"
    by (simp add: image_def)
  moreover have "\<not> sw_done sw t" using assms(1) by (simp add: sweep_ok_def)
  ultimately show ?case
    using es run unfolding split sets maps [symmetric]
    by (intro exI [of _ "?new @ es"]) (simp add: swept_def image_Un)
qed


lemma SweepOnce_ok:
  assumes "sweep_ok sw" and "ex_inv db"
    and "fresh_audit sw (filter (due now) (db_exceptions db)) (db_exception_audit db)"
  shows "\<exists>es. Expirer_SweepOnce sw now db =
      ((length (filter (due now) (db_exceptions db)), None),
       db\<lparr>db_exceptions := map (\<lambda>r. if due now r then mark_expired (sw_dbnow sw (ex_TenantID r)) r else r)
                              (db_exceptions db), db_exception_audit := db_exception_audit db @ es\<rparr>)
    \<and> length es = length (filter (due now) (db_exceptions db))
    \<and> xa_ExceptionID ` set es = ex_ID ` {r \<in> set (db_exceptions db). due now r}"
proof -
  let ?ts = "ListTenantsWithActiveExceptions db"
  have all: "due now r \<and> ex_TenantID r \<in> set ?ts \<longleftrightarrow> due now r" if "r \<in> set (db_exceptions db)" for r
    using that by (auto simp: due_def ListTenantsWithActiveExceptions_def)
  have sel: "filter (\<lambda>r. due now r \<and> ex_TenantID r \<in> set ?ts) (db_exceptions db) = filter (due now) (db_exceptions db)"
    by (rule filter_cong) (simp_all only: all)
  have marks: "map (\<lambda>r. if due now r \<and> ex_TenantID r \<in> set ?ts then mark_expired (sw_dbnow sw (ex_TenantID r)) r else r)
      (db_exceptions db) = map (\<lambda>r. if due now r then mark_expired (sw_dbnow sw (ex_TenantID r)) r else r) (db_exceptions db)"
    by (rule map_cong) (simp_all only: all)
  have "distinct ?ts" by (simp add: ListTenantsWithActiveExceptions_def)
  from sweep_exceptions_ok [OF assms(1) this assms(2), of now 0, unfolded sel marks, OF assms(3)] obtain es where
    "sweep_exceptions sw now 0 ?ts db =
       ((0 + length (filter (due now) (db_exceptions db)), None),
        db\<lparr>db_exceptions := map (\<lambda>r. if due now r then mark_expired (sw_dbnow sw (ex_TenantID r)) r else r)
              (db_exceptions db), db_exception_audit := db_exception_audit db @ es\<rparr>)"
    "length es = length (filter (due now) (db_exceptions db))"
    "set es = (\<lambda>r. expired_entry sw (ex_TenantID r) now (mark_expired (sw_dbnow sw (ex_TenantID r)) r)) `
                set (filter (due now) (db_exceptions db))"
    by blast
  then show ?thesis
    using assms(1)
    by (intro exI [of _ es])
      (simp add: Expirer_SweepOnce_def listTenants_def sweep_ok_def image_image expired_entry_def)
qed

lemma sweep_exceptions_inv: "ex_inv db \<Longrightarrow> ex_inv (snd (sweep_exceptions sw now n ts db))"
proof (induction ts arbitrary: n db)
  case (Cons t ts)
  obtain r db1 where run: "sweepTenant sw t now db = (r, db1)" by fastforce
  from ex_step_inv [OF ex_step.expire [OF run] Cons.prems] have "ex_inv db1" .
  with Cons run show ?case by (auto split: sum.splits)
qed simp

lemma SweepOnce_inv: "ex_inv db \<Longrightarrow> ex_inv (snd (Expirer_SweepOnce sw now db))"
  by (auto simp: Expirer_SweepOnce_def intro: sweep_exceptions_inv split: sum.splits)


section \<open>The answer of a transition\<close>

lemma ex_transition_run:
  assumes "tx_ok env" and "tenant_of env = Some t" and "ex_inv db"
    and "auditID \<notin> xa_ID ` set (db_exception_audit db)" and "tp_actor p \<noteq> []"
    and "\<And>t. tp_run p t = ex_update_one (in_state t i (tp_expectedPrior p)) f"
    and "\<And>r. r \<in> set (db_exceptions db) \<Longrightarrow> in_state t i (tp_expectedPrior p) r \<Longrightarrow>
           tp_requesterCheck p = [] \<or> tp_requesterCheck p \<noteq> ex_RequestedBy r \<Longrightarrow> exceptions_check (f r) = None"
  shows "fst (ex_transition env dbnow auditID i p db) =
    (case GetExceptionByID t i db of
       None \<Rightarrow> Inl (Dom ExErrNotFound)
     | Some r \<Rightarrow>
         if tp_requesterCheck p \<noteq> [] \<and> ex_RequestedBy r = tp_requesterCheck p
         then Inl (Dom ErrSegregationOfDuties)
         else if ex_Status r \<noteq> tp_expectedPrior p then Inl (Dom ExErrWrongState)
         else Inr (f r))"
proof -
  let ?P = "in_state t i (tp_expectedPrior p)"
  have sel: "filter ?P (db_exceptions db) =
      (case GetExceptionByID t i db of None \<Rightarrow> [] | Some r \<Rightarrow> if ex_Status r = tp_expectedPrior p then [r] else [])"
    using filter_key_unique [of ex_ID "db_exceptions db" "\<lambda>r. ex_TenantID r = t \<and> ex_ID r = i" i
        "\<lambda>r. ex_Status r = tp_expectedPrior p"] assms(3)
    by (simp add: ex_inv_def GetExceptionByID_def)
  show ?thesis
  proof (cases "GetExceptionByID t i db")
    case None
    with sel show ?thesis
      by (simp add: ex_transition_def inTx_run assms(1,2,6) sod_check_def ex_update_one_def ex_update_def)
  next
    case (Some r)
    then have r: "r \<in> set (db_exceptions db)" "ex_TenantID r = t" "ex_ID r = i"
      by (auto simp: GetExceptionByID_def dest: find_SomeD)
    have "exceptions_check (f r) = None"
      if "ex_Status r = tp_expectedPrior p"
        "\<not> (tp_requesterCheck p \<noteq> [] \<and> ex_RequestedBy r = tp_requesterCheck p)"
      using assms(7) [of r] r that by auto
    with Some sel assms(4,5) show ?thesis
      by (auto simp: ex_transition_def inTx_run assms(1,2,6) sod_check_def ex_update_one_def ex_update_def
          WriteExceptionAuditLog_def)
  qed
qed


lemma row_check: "ex_inv db \<Longrightarrow> r \<in> set (db_exceptions db) \<Longrightarrow> exceptions_check r = None"
  by (simp add: ex_inv_def ex_row_inv_def)

lemma ex_Approve_answer:
  assumes "tx_ok env" and "tenant_of env = Some t" and "ex_inv db"
    and "auditID \<notin> xa_ID ` set (db_exception_audit db)" and "who \<noteq> []"
  shows "fst (ex_Approve env dbnow auditID i who db) =
      (case GetExceptionByID t i db of
         None \<Rightarrow> Inl (Dom ExErrNotFound)
       | Some r \<Rightarrow> if ex_RequestedBy r = who then Inl (Dom ErrSegregationOfDuties)
                   else if ex_Status r \<noteq> ExRequested then Inl (Dom ExErrWrongState)
                   else Inr (mark_approved dbnow (Some who) r))"
proof -
  have "exceptions_check (mark_approved dbnow (Some who) r) = None"
    if "r \<in> set (db_exceptions db)" "who \<noteq> ex_RequestedBy r" for r
    using row_check [OF assms(3) that(1)] that(2) by (simp add: exceptions_check_None_iff)
  then show ?thesis
    using assms(5)
      ex_transition_run [OF assms(1-4), of "approve_params dbnow i who" i "mark_approved dbnow (Some who)" dbnow]
    by (simp add: ex_Approve_def ApproveException_def stringPtr_def split: option.split)
qed

lemma ex_Deny_answer:
  assumes "tx_ok env" and "tenant_of env = Some t" and "ex_inv db"
    and "auditID \<notin> xa_ID ` set (db_exception_audit db)" and "who \<noteq> []"
  shows "fst (ex_Deny env dbnow auditID i who reason db) =
      (case GetExceptionByID t i db of
         None \<Rightarrow> Inl (Dom ExErrNotFound)
       | Some r \<Rightarrow> if ex_RequestedBy r = who then Inl (Dom ErrSegregationOfDuties)
                   else if ex_Status r \<noteq> ExRequested then Inl (Dom ExErrWrongState)
                   else Inr (mark_denied dbnow (Some who) r))"
proof -
  have "exceptions_check (mark_denied dbnow (Some who) r) = None"
    if "r \<in> set (db_exceptions db)" "who \<noteq> ex_RequestedBy r" for r
    using row_check [OF assms(3) that(1)] that(2) by (simp add: exceptions_check_None_iff)
  then show ?thesis
    using assms(5)
      ex_transition_run [OF assms(1-4), of "deny_params dbnow i who reason" i "mark_denied dbnow (Some who)" dbnow]
    by (simp add: ex_Deny_def DenyException_def stringPtr_def split: option.split)
qed

lemma ex_Activate_answer:
  assumes "tx_ok env" and "tenant_of env = Some t" and "ex_inv db"
    and "auditID \<notin> xa_ID ` set (db_exception_audit db)" and "who \<noteq> []"
  shows "fst (ex_Activate env wallnow dbnow auditID i who eff db) =
      (case GetExceptionByID t i db of
         None \<Rightarrow> Inl (Dom ExErrNotFound)
       | Some r \<Rightarrow> if ex_Status r \<noteq> ExApproved then Inl (Dom ExErrWrongState)
                   else Inr (mark_active dbnow (Some who) (if eff = 0 then wallnow else eff) r))"
proof -
  let ?eff = "if eff = 0 then wallnow else eff"
  have "exceptions_check (mark_active dbnow (Some who) ?eff r) = None" if "r \<in> set (db_exceptions db)" for r
    using row_check [OF assms(3) that(1)] by (simp add: exceptions_check_None_iff)
  then show ?thesis
    using assms(5)
      ex_transition_run [OF assms(1-4), of "activate_params dbnow i who ?eff" i "mark_active dbnow (Some who) ?eff" dbnow]
    by (simp add: ex_Activate_def ActivateException_def stringPtr_def split: option.split)
qed

lemma ex_run_terms:
  "(ex_step jsonb)\<^sup>*\<^sup>* db db' \<Longrightarrow> ex_inv db \<Longrightarrow>
     prefix (map ex_terms (db_exceptions db)) (map ex_terms (db_exceptions db'))"
proof (induction rule: rtranclp_induct)
  case (step y z)
  from step(1,4) have "ex_inv y" by (rule exc.run_inv)
  from prefix_order.trans [OF step(3) [OF step(4)] ex_step_terms [OF step(2) this]] show ?case .
qed simp

lemma ex_row_invD:
  assumes "ex_row_inv controls r"
  shows "ex_RequestedAt r \<le> ex_ExpiresAt r \<and> ex_ExpiresAt r \<le> ex_RequestedAt r + MaxLifetime
    \<and> ex_ApprovedBy r \<noteq> Some (ex_RequestedBy r) \<and> ex_DeniedBy r \<noteq> Some (ex_RequestedBy r)
    \<and> (ex_Status r \<in> {ExActive, ExExpired} \<longrightarrow> ex_ApprovedBy r \<noteq> None)"
proof -
  from assms have "exceptions_check r = None" "ex_RequestedAt r \<le> ex_ExpiresAt r"
    "ex_ApprovedBy r \<noteq> None \<longleftrightarrow> ex_Status r \<in> {ExApproved, ExActive, ExExpired}"
    unfolding ex_row_inv_def by blast+
  then show ?thesis by (simp add: exceptions_check_None_iff MaxLifetime_days)
qed


section \<open>Concrete values\<close>

definition demo_ex_empty :: ex_db where
  "demo_ex_empty =
     \<lparr>db_dimensions = [], db_cells = [], db_controls = [demo_control], db_exceptions = [],
      db_exception_audit = []\<rparr>"

definition demo_request :: ex_CreateInput where
  "demo_request =
     \<lparr>xi_ControlID = 7, xi_ScopeCellPredicate = [], xi_Justification = ''legacy host'',
      xi_CompensatingControls = [], xi_RequestedBy = ''alice'', xi_ExpiresAt = days 30, xi_Now = days 1\<rparr>"

definition demo_waiver :: Exception where
  "demo_waiver =
     \<lparr>ex_ID = 40, ex_TenantID = 1, ex_ControlID = 7, ex_ScopeCellPredicate = ''{}'',
      ex_Justification = ''legacy host'', ex_CompensatingControls = [], ex_RequestedBy = ''alice'',
      ex_RequestedAt = pgTime (days 1), ex_ApprovedBy = None, ex_ApprovedAt = None, ex_DeniedBy = None,
      ex_DeniedAt = None, ex_ActivatedBy = None, ex_ActivatedAt = None, ex_EffectiveFrom = None,
      ex_ExpiresAt = pgTime (days 30), ex_ExpiredAt = None, ex_Status = ExRequested,
      ex_CreatedAt = 5, ex_UpdatedAt = 5\<rparr>"

definition demo_ex_db :: "Exception \<Rightarrow> ex_db" where
  "demo_ex_db row = demo_ex_empty\<lparr>db_exceptions := [row]\<rparr>"

definition demo_live :: Exception where
  "demo_live = mark_active 7 (Some ''carol'') (days 2) (mark_approved 6 (Some ''bob'') demo_waiver)"

definition demo_sweep :: sweep_env where
  "demo_sweep =
     \<lparr>sw_env = (\<lambda>_. demo_env), sw_dbnow = (\<lambda>_. days 31), sw_auditID = (\<lambda>i. i), sw_done = (\<lambda>_. False),
      sw_acquire_ok = True, sw_uuid_string = (\<lambda>_. ''t''), sw_rfc3339 = (\<lambda>_. ''z'')\<rparr>"

lemma demo_ex_create:
  "ex_Create Some demo_env 0 5 40 90 demo_request demo_ex_empty =
     (Inr demo_waiver,
      (demo_ex_db demo_waiver)\<lparr>db_exception_audit :=
         [\<lparr>xa_ID = 90, xa_TenantID = 1, xa_ExceptionID = 40, xa_Action = ActRequested, xa_Actor = ''alice'',
           xa_FromState = None, xa_ToState = ExRequested, xa_Reason = [], xa_OccurredAt = 5\<rparr>]\<rparr>)"
  by (simp add: ex_Create_def demo_request_def inTx_run CreateException_def ex_insert_def exceptions_check_def
      demo_ex_empty_def demo_control_def WriteExceptionAuditLog_def demo_waiver_def demo_ex_db_def
      MaxLifetime_def days_def hours_def Let_def pgTime_def)

lemma demo_inv: "ex_inv demo_ex_empty" "ex_inv (demo_ex_db demo_waiver)" "ex_inv (demo_ex_db demo_live)"
  by (simp_all add: ex_inv_def ex_row_inv_def exceptions_check_def demo_ex_db_def demo_ex_empty_def
      demo_live_def demo_waiver_def demo_control_def days_def hours_def pgTime_def)

lemma demo_run:
  "(ex_step Some)\<^sup>*\<^sup>* demo_ex_empty
     ((demo_ex_db demo_waiver)\<lparr>db_exception_audit :=
         [\<lparr>xa_ID = 90, xa_TenantID = 1, xa_ExceptionID = 40, xa_Action = ActRequested, xa_Actor = ''alice'',
           xa_FromState = None, xa_ToState = ExRequested, xa_Reason = [], xa_OccurredAt = 5\<rparr>]\<rparr>)"
  by (rule r_into_rtranclp, rule ex_step.create, rule demo_ex_create)

lemma demo_sweep_ok: "sweep_ok demo_sweep"
  by (simp add: sweep_ok_def demo_sweep_def)


section \<open>Properties\<close>

text \<open>
  C28. Whatever sequence of requests, approvals, denials, activations and expiry sweeps runs, in
  any tenants and with any failures: every waiver in the table expires no earlier than it was
  requested and at most 365 days later, was never approved or denied by its requester, is in
  force only with an approval, and the terms it was filed with (control, scope, justification,
  requester, both dates) never change, so no waiver is ever renewed or dropped.
\<close>

theorem ex_run_invariant:
  assumes "(ex_step jsonb)\<^sup>*\<^sup>* db db'" and "ex_inv db"
  shows "ex_inv db'
    \<and> (\<forall>r \<in> set (db_exceptions db').
           ex_RequestedAt r \<le> ex_ExpiresAt r \<and> ex_ExpiresAt r \<le> ex_RequestedAt r + MaxLifetime
           \<and> ex_ApprovedBy r \<noteq> Some (ex_RequestedBy r) \<and> ex_DeniedBy r \<noteq> Some (ex_RequestedBy r)
           \<and> (ex_Status r \<in> {ExActive, ExExpired} \<longrightarrow> ex_ApprovedBy r \<noteq> None))
    \<and> prefix (map ex_terms (db_exceptions db)) (map ex_terms (db_exceptions db'))"
proof (intro conjI ballI)
  show inv': "ex_inv db'" using exc.run_inv [OF assms] .
  fix r assume "r \<in> set (db_exceptions db')"
  with inv' have "ex_row_inv (db_controls db') r" by (simp add: ex_inv_def)
  from ex_row_invD [OF this]
  show "ex_RequestedAt r \<le> ex_ExpiresAt r" "ex_ExpiresAt r \<le> ex_RequestedAt r + MaxLifetime"
    "ex_ApprovedBy r \<noteq> Some (ex_RequestedBy r)" "ex_DeniedBy r \<noteq> Some (ex_RequestedBy r)"
    "ex_Status r \<in> {ExActive, ExExpired} \<longrightarrow> ex_ApprovedBy r \<noteq> None"
    by blast+
next
  show "prefix (map ex_terms (db_exceptions db)) (map ex_terms (db_exceptions db'))"
    using assms by (rule ex_run_terms)
qed

theorem ex_run_invariant_witness:
  "ex_inv (snd (ex_Create Some demo_env 0 5 40 90 demo_request demo_ex_empty))"
  using ex_run_invariant [OF demo_run demo_inv(1)]
  by (simp only: demo_ex_create snd_conv)

text \<open>
  C29. The audit table is a faithful history: starting from empty tables, for every waiver the
  audit rows, in the order they were written, begin with the request, follow the documented
  diagram edge by edge and end with the current status; a waiver that does not exist has none.
  There are at most four, and no later operation removes or changes one.
\<close>

theorem ex_audit_refines_lifecycle:
  assumes "(ex_step jsonb)\<^sup>*\<^sup>* db db'" and "(ex_step jsonb)\<^sup>*\<^sup>* db' db''"
    and "db_exceptions db = []" and "db_exception_audit db = []"
  shows "recorded ex_edge ExRequested (ex_status_of db' k) (ex_trail_of db' k)
    \<and> length (ex_trail_of db' k) \<le> 4 \<and> prefix (ex_trail_of db' k) (ex_trail_of db'' k)"
proof -
  have inv: "ex_inv db" using assms(3) by (simp add: ex_inv_def)
  have "recorded ex_edge ExRequested (ex_status_of db k) (ex_trail_of db k)"
    using assms(3,4) by (simp add: recorded_def ex_status_of_def ex_trail_of_def GetExceptionByID_def)
  from exc.run_recorded [OF assms(1) inv this] have rec: "recorded ex_edge ExRequested (ex_status_of db' k) (ex_trail_of db' k)" .
  have "length (ex_trail_of db' k) \<le> 4"
  proof (cases "ex_status_of db' k")
    case None
    with rec show ?thesis by (simp add: recorded_def)
  next
    case (Some s)
    from exc.trail_length [OF rec Some] show ?thesis by (cases s) simp_all
  qed
  with rec exc.run_trail_grows [OF assms(2) exc.run_inv [OF assms(1) inv]] show ?thesis by blast
qed

theorem ex_audit_refines_lifecycle_witness:
  "recorded ex_edge ExRequested (Some ExRequested) [ExRequested]"
  using ex_audit_refines_lifecycle [OF demo_run rtranclp.rtrancl_refl, of "(1, 40)"]
  by (simp add: demo_ex_empty_def demo_ex_db_def ex_status_of_def ex_trail_of_def GetExceptionByID_def demo_waiver_def)


text \<open>
  C30. The daily sweep is complete, recorded and idempotent: when the database accepts it, the
  sweep expires exactly the active waivers of every tenant whose expiry lies before the sweep's
  clock, writes exactly one audit row for each, reports their number, leaves every other waiver
  alone, and sweeping again at the same clock changes nothing and reports zero.
\<close>

theorem SweepOnce_complete:
  assumes "sweep_ok sw" and "sweep_ok sw2" and "ex_inv db"
    and "fresh_audit sw (filter (due now) (db_exceptions db)) (db_exception_audit db)"
  shows "\<exists>es db'. Expirer_SweepOnce sw now db = ((length es, None), db')
    \<and> db' = db\<lparr>db_exceptions := map (\<lambda>r. if due now r
                                      then r\<lparr>ex_Status := ExExpired, ex_ExpiredAt := Some (sw_dbnow sw (ex_TenantID r)),
                                             ex_UpdatedAt := sw_dbnow sw (ex_TenantID r)\<rparr>
                                      else r) (db_exceptions db),
                db_exception_audit := db_exception_audit db @ es\<rparr>
    \<and> length es = length (filter (due now) (db_exceptions db))
    \<and> xa_ExceptionID ` set es = ex_ID ` {r \<in> set (db_exceptions db). due now r}
    \<and> Expirer_SweepOnce sw2 now db' = ((0, None), db')"
proof -
  let ?F = "\<lambda>r. if due now r then mark_expired (sw_dbnow sw (ex_TenantID r)) r else r"
  obtain es where run: "Expirer_SweepOnce sw now db =
      ((length (filter (due now) (db_exceptions db)), None),
       db\<lparr>db_exceptions := map ?F (db_exceptions db), db_exception_audit := db_exception_audit db @ es\<rparr>)"
    and es: "length es = length (filter (due now) (db_exceptions db))"
      "xa_ExceptionID ` set es = ex_ID ` {r \<in> set (db_exceptions db). due now r}"
    using SweepOnce_ok [OF assms(1,3,4)] by blast
  let ?db' = "db\<lparr>db_exceptions := map ?F (db_exceptions db), db_exception_audit := db_exception_audit db @ es\<rparr>"
  have inv': "ex_inv ?db'" using SweepOnce_inv [OF assms(3), of sw now] by (simp add: run)
  have none: "filter (due now) (db_exceptions ?db') = []"
    by (auto simp: filter_empty_conv due_def)
  then have "fresh_audit sw2 (filter (due now) (db_exceptions ?db')) (db_exception_audit ?db')"
    by (simp add: fresh_audit_def)
  from SweepOnce_ok [OF assms(2) inv' this, unfolded none] obtain es2 where
    again: "Expirer_SweepOnce sw2 now ?db' =
      ((0, None), ?db'\<lparr>db_exceptions := map (\<lambda>r. if due now r then mark_expired (sw_dbnow sw2 (ex_TenantID r)) r else r)
          (db_exceptions ?db'), db_exception_audit := db_exception_audit ?db' @ es2\<rparr>)"
    and "es2 = []" by auto
  moreover have "map (\<lambda>r. if due now r then mark_expired (sw_dbnow sw2 (ex_TenantID r)) r else r)
      (db_exceptions ?db') = db_exceptions ?db'"
    using none by (intro map_idI) (simp only: filter_empty_conv if_False)
  ultimately have "Expirer_SweepOnce sw2 now ?db' = ((0, None), ?db')" by simp
  with run es show ?thesis by (intro exI [of _ es] exI [of _ ?db']) simp
qed

theorem SweepOnce_complete_witness:
  "\<exists>(es :: ex_AuditEntry list) db'. Expirer_SweepOnce demo_sweep (days 31) (demo_ex_db demo_live) = ((length es, None), db')
    \<and> length es = 1 \<and> xa_ExceptionID ` set es = {40}"
proof -
  have due: "due (days 31) demo_live"
    by (simp add: due_def demo_live_def demo_waiver_def days_def hours_def pgTime_def)
  have "fresh_audit demo_sweep (filter (due (days 31)) (db_exceptions (demo_ex_db demo_live)))
      (db_exception_audit (demo_ex_db demo_live))"
    by (simp add: fresh_audit_def demo_ex_db_def demo_ex_empty_def)
  note run = SweepOnce_complete [OF demo_sweep_ok demo_sweep_ok demo_inv(3) this]
  have row: "db_exceptions (demo_ex_db demo_live) = [demo_live]" "ex_ID demo_live = 40"
    by (simp_all add: demo_ex_db_def demo_live_def demo_waiver_def)
  with due have ids: "ex_ID ` {r \<in> set (db_exceptions (demo_ex_db demo_live)). due (days 31) r} = {40}"
    "length (filter (due (days 31)) (db_exceptions (demo_ex_db demo_live))) = 1"
    by auto
  from run show ?thesis unfolding ids by (elim exE conjE) (intro exI conjI; assumption)
qed

text \<open>
  C31. What approving, denying or activating a waiver answers is decided by the stored row alone:
  a waiver the tenant does not have is not found, the requester may neither approve nor deny it
  (this is reported before a wrong state), a waiver in another state than the expected one is
  refused, and in every remaining case the transition succeeds.
\<close>

theorem ex_transitions_classified:
  assumes "tx_ok env" and "tenant_of env = Some t" and "ex_inv db"
    and "auditID \<notin> xa_ID ` set (db_exception_audit db)" and "who \<noteq> []"
  shows "fst (ex_Approve env dbnow auditID i who db) =
      (case GetExceptionByID t i db of
         None \<Rightarrow> Inl (Dom ExErrNotFound)
       | Some r \<Rightarrow> if ex_RequestedBy r = who then Inl (Dom ErrSegregationOfDuties)
                   else if ex_Status r \<noteq> ExRequested then Inl (Dom ExErrWrongState)
                   else Inr (r\<lparr>ex_Status := ExApproved, ex_ApprovedBy := Some who,
                              ex_ApprovedAt := Some dbnow, ex_UpdatedAt := dbnow\<rparr>))
    \<and> fst (ex_Deny env dbnow auditID i who reason db) =
      (case GetExceptionByID t i db of
         None \<Rightarrow> Inl (Dom ExErrNotFound)
       | Some r \<Rightarrow> if ex_RequestedBy r = who then Inl (Dom ErrSegregationOfDuties)
                   else if ex_Status r \<noteq> ExRequested then Inl (Dom ExErrWrongState)
                   else Inr (r\<lparr>ex_Status := ExDenied, ex_DeniedBy := Some who,
                              ex_DeniedAt := Some dbnow, ex_UpdatedAt := dbnow\<rparr>))
    \<and> fst (ex_Activate env wallnow dbnow auditID i who eff db) =
      (case GetExceptionByID t i db of
         None \<Rightarrow> Inl (Dom ExErrNotFound)
       | Some r \<Rightarrow> if ex_Status r \<noteq> ExApproved then Inl (Dom ExErrWrongState)
                   else Inr (r\<lparr>ex_Status := ExActive, ex_ActivatedBy := Some who, ex_ActivatedAt := Some dbnow,
                              ex_EffectiveFrom := Some (pgTime (if eff = 0 then wallnow else eff)),
                              ex_UpdatedAt := dbnow\<rparr>))"
  using ex_Approve_answer [OF assms] ex_Deny_answer [OF assms] ex_Activate_answer [OF assms] by simp

theorem ex_transitions_classified_witness:
  "fst (ex_Approve demo_env 6 91 40 ''alice'' (demo_ex_db demo_waiver)) = Inl (Dom ErrSegregationOfDuties)"
  using ex_transitions_classified [of demo_env 1 "demo_ex_db demo_waiver" 91 "''alice''" 6 40] demo_inv(2)
  by (simp add: demo_ex_db_def demo_ex_empty_def GetExceptionByID_def demo_waiver_def)

text \<open>
  What the two reads for the evaluation engine and the calendar return, soonest expiry first:
  \<open>Active\<close> every waiver of the control whose status is active, whatever its dates, so also one
  whose effective date is still to come or whose expiry has passed and which no sweep has reached
  yet; \<open>Expiring\<close> every active waiver that expires before the end of the window, also one that
  expired before the window begins.
\<close>

theorem ex_reads_exact:
  assumes "tx_ok env" and "tenant_of env = Some t" and "0 < within"
  shows "\<exists>act expiring. ex_Active env cid db = (Inr act, db) \<and> ex_Expiring env start within db = (Inr expiring, db)
    \<and> sorted (map ex_ExpiresAt act) \<and> sorted (map ex_ExpiresAt expiring)
    \<and> set act = {r \<in> set (db_exceptions db). ex_TenantID r = t \<and> ex_ControlID r = cid \<and> ex_Status r = ExActive}
    \<and> set expiring = {r \<in> set (db_exceptions db). ex_TenantID r = t \<and> ex_Status r = ExActive
                        \<and> ex_ExpiresAt r \<le> pgTime (start + within)}"
  using assms
  by (simp add: ex_Active_def ex_Expiring_def inTx_run ListExceptionsByControl_def ListExpiringExceptions_def
      sorted_map_fst)

theorem ex_reads_exact_witness:
  "\<exists>act. ex_Active demo_env 7 (demo_ex_db demo_live) = (Inr act, demo_ex_db demo_live)
    \<and> demo_live \<in> set act \<and> ex_ExpiresAt demo_live < days 31"
proof -
  have "demo_live \<in> {r \<in> set (db_exceptions (demo_ex_db demo_live)).
      ex_TenantID r = 1 \<and> ex_ControlID r = 7 \<and> ex_Status r = ExActive}" "ex_ExpiresAt demo_live < days 31"
    by (simp_all add: demo_ex_db_def demo_live_def demo_waiver_def days_def hours_def pgTime_def)
  with ex_reads_exact [of demo_env 1 1 7 "demo_ex_db demo_live" 0] show ?thesis by auto
qed

end
