(* ===== verification/Audit_Period.thy ===== *)
theory Audit_Period
  imports Eval_Engine Lifecycle Json_Text "HOL-Library.Multiset"
begin

text \<open>
  \<open>internal/audit/period/period.go\<close>: audit periods and their freezing, with the queries
  of \<open>internal/db/queries/audit_periods.sql\<close> and the constraints of the audit-period
  migration. A period is open until it is frozen; freezing pins the horizon up to which
  evidence is read and commits to the content with a hash.

  Parameters: \<open>uuid.String\<close>, the two \<open>Time.Format\<close> layouts the store uses and
  SHA-256. The wire struct that is hashed holds only UUIDs and dates, on which
  \<open>json.Marshal\<close> and \<open>writeJSONString\<close> agree. The rows of a population are those of
  \<open>Audit_Population\<close>. The fan-out of log rows to an external sink is not modelled.
\<close>

datatype pd_status = StatusOpen | StatusFrozen

record period_row =
  pd_ID :: uuid
  pd_TenantID :: uuid
  pd_Name :: string
  pd_FrameworkVersionID :: uuid
  pd_PeriodStart :: gotime
  pd_PeriodEnd :: gotime
  pd_Status :: pd_status
  pd_FrozenAt :: "gotime option"
  pd_FrozenHash :: "bytes option"
  pd_FrozenBy :: "string option"
  pd_CreatedBy :: string
  pd_CreatedAt :: gotime
  pd_UpdatedAt :: gotime

record Period =
  P_ID :: uuid
  P_TenantID :: uuid
  P_Name :: string
  P_FrameworkVersionID :: uuid
  P_PeriodStart :: gotime
  P_PeriodEnd :: gotime
  P_Status :: pd_status
  P_FrozenAt :: "gotime option"
  P_FrozenHash :: bytes
  P_FrozenBy :: string
  P_CreatedBy :: string
  P_CreatedAt :: gotime
  P_UpdatedAt :: gotime
  P_FrameworkLabel :: string

datatype pd_action = PeriodCreated | PeriodFrozen | FreezeRejected | PopulationAttached

datatype log_value = LogString string | LogInt nat

record period_log =
  pg_ID :: uuid
  pg_TenantID :: uuid
  pg_PeriodID :: uuid
  pg_Action :: pd_action
  pg_Actor :: string
  pg_Detail :: "(string \<times> log_value) list"
  pg_OccurredAt :: gotime

record population_row =
  pop_ID :: uuid
  pop_TenantID :: uuid
  pop_ControlID :: uuid
  pop_ScopePredicate :: bytes
  pop_TimeWindowStart :: gotime
  pop_TimeWindowEnd :: gotime
  pop_FrozenAt :: "gotime option"
  pop_RowCount :: int
  pop_CreatedBy :: string
  pop_CreatedAt :: gotime
  pop_AuditPeriodID :: "uuid option"

record fversion_row =
  fv_ID :: uuid
  fv_FrameworkID :: uuid
  fv_Version :: string

record period_db = eval_db +
  db_fversions :: "fversion_row list"
  db_frameworks :: "(uuid \<times> string) list"
  db_periods :: "period_row list"
  db_populations :: "population_row list"
  db_period_log :: "period_log list"

record period_lib =
  pl_uuid_string :: "uuid \<Rightarrow> string"
  pl_date :: "gotime \<Rightarrow> string"
  pl_rfc3339nano :: "gotime \<Rightarrow> string"
  pl_sha256 :: "bytes \<Rightarrow> bytes"

text \<open>
  \<open>RejectFrozen\<close> is \<open>ErrAlreadyFrozen\<close> on the path that has deferred a rejection
  entry; \<open>Freeze\<close> turns it into \<open>PdErrAlreadyFrozen\<close>.
\<close>

datatype period_error =
    PdErrNotFound | PdErrAlreadyFrozen | RejectFrozen uuid
  | NameEmpty | CreatedByEmpty | BoundsInverted | FrozenByEmpty | ActorEmpty
  | PdDatabase pg_error | PdWriteLog pg_error

record ControlStateObservation =
  ob_EvidenceRecordID :: uuid
  ob_ObservedAt :: gotime
  ob_Result :: string
  ob_Hash :: string


section \<open>Queries\<close>

definition date_of :: "gotime \<Rightarrow> gotime" where
  "date_of t = t div hours 24 * hours 24"

text \<open>\<open>pgDate\<close> turns the zero time into NULL; otherwise a date column keeps the day.\<close>

definition pgDate :: "gotime \<Rightarrow> gotime option" where
  "pgDate t = (if t = 0 then None else Some (date_of t))"

definition CreateAuditPeriod ::
  "gotime \<Rightarrow> uuid \<Rightarrow> uuid \<Rightarrow> string \<Rightarrow> uuid \<Rightarrow> gotime option \<Rightarrow> gotime option \<Rightarrow> string \<Rightarrow>
   'z period_db_scheme \<Rightarrow> pg_error + period_row \<times> 'z period_db_scheme" where
  "CreateAuditPeriod dbnow i t nm fv periodStart periodEnd createdBy db =
     (case (periodStart, periodEnd) of
        (Some s, Some e) \<Rightarrow>
          if nm = [] \<or> createdBy = [] \<or> \<not> s \<le> e then Inl CheckViolation
          else if i \<in> pd_ID ` set (db_periods db)
               \<or> (\<exists>r \<in> set (db_periods db). pd_TenantID r = t \<and> pd_Name r = nm) then Inl UniqueViolation
          else if fv \<notin> fv_ID ` set (db_fversions db) then Inl ForeignKeyViolation
          else
            (let row = \<lparr>pd_ID = i, pd_TenantID = t, pd_Name = nm, pd_FrameworkVersionID = fv,
                        pd_PeriodStart = s, pd_PeriodEnd = e, pd_Status = StatusOpen, pd_FrozenAt = None,
                        pd_FrozenHash = None, pd_FrozenBy = None, pd_CreatedBy = createdBy,
                        pd_CreatedAt = dbnow, pd_UpdatedAt = dbnow\<rparr>
             in Inr (row, db\<lparr>db_periods := db_periods db @ [row]\<rparr>))
      | _ \<Rightarrow> Inl NotNullViolation)"

definition GetAuditPeriodByID :: "uuid \<Rightarrow> uuid \<Rightarrow> 'z period_db_scheme \<Rightarrow> period_row option" where
  "GetAuditPeriodByID t i db =
     List.find (\<lambda>r. pd_TenantID r = t \<and> pd_ID r = i) (db_periods db)"

text \<open>The two left joins of the list query.\<close>

definition framework_columns :: "uuid \<Rightarrow> 'z period_db_scheme \<Rightarrow> string option \<times> string option" where
  "framework_columns fvid db =
     (case List.find (\<lambda>v. fv_ID v = fvid) (db_fversions db) of
        None \<Rightarrow> (None, None)
      | Some v \<Rightarrow> (map_of (db_frameworks db) (fv_FrameworkID v), Some (fv_Version v)))"

definition ListAuditPeriodsWithFrameworkByTenant ::
  "uuid \<Rightarrow> 'z period_db_scheme \<Rightarrow> (period_row \<times> string option \<times> string option) list" where
  "ListAuditPeriodsWithFrameworkByTenant t db =
     map (\<lambda>r. (r, framework_columns (pd_FrameworkVersionID r) db))
       (sort_key (\<lambda>r. (- pd_CreatedAt r, pd_ID r)) (filter (\<lambda>r. pd_TenantID r = t) (db_periods db)))"

definition FreezeAuditPeriod ::
  "gotime \<Rightarrow> uuid \<Rightarrow> uuid \<Rightarrow> gotime \<Rightarrow> bytes \<Rightarrow> string option \<Rightarrow> 'z period_db_scheme \<Rightarrow>
   pg_error + period_row \<times> 'z period_db_scheme" where
  "FreezeAuditPeriod dbnow t i frozenAt frozenHash frozenBy db =
     (case sql_update_one (\<lambda>r. pd_TenantID r = t \<and> pd_ID r = i \<and> pd_Status r = StatusOpen)
             (\<lambda>r. r\<lparr>pd_Status := StatusFrozen, pd_FrozenAt := Some (pgTime frozenAt),
                    pd_FrozenHash := Some frozenHash, pd_FrozenBy := frozenBy, pd_UpdatedAt := dbnow\<rparr>)
             (db_periods db) of
        None \<Rightarrow> Inl NoRows
      | Some (row, rows) \<Rightarrow>
          if pd_FrozenBy row = None \<or> pd_FrozenBy row = Some [] then Inl CheckViolation
          else Inr (row, db\<lparr>db_periods := rows\<rparr>))"

definition WriteAuditPeriodLog :: "period_log \<Rightarrow> 'z period_db_scheme \<Rightarrow> pg_error + 'z period_db_scheme" where
  "WriteAuditPeriodLog row db =
     (if pg_Actor row = [] then Inl CheckViolation
      else if pg_ID row \<in> pg_ID ` set (db_period_log db) then Inl UniqueViolation
      else Inr (db\<lparr>db_period_log := db_period_log db @ [row]\<rparr>))"

definition ListAuditPeriodLog :: "uuid \<Rightarrow> uuid \<Rightarrow> 'z period_db_scheme \<Rightarrow> period_log list" where
  "ListAuditPeriodLog t i db =
     sort_key (\<lambda>r. (- pg_OccurredAt r, pg_ID r))
       (filter (\<lambda>r. pg_TenantID r = t \<and> pg_PeriodID r = i) (db_period_log db))"

definition ListEvidenceIDsForPeriodHash :: "uuid \<Rightarrow> gotime \<Rightarrow> 'z eval_db_scheme \<Rightarrow> uuid list" where
  "ListEvidenceIDsForPeriodHash t instant db =
     sort (map ev_ID (filter (\<lambda>r. ev_TenantID r = t \<and> ev_ObservedAt r \<le> pgTime instant) (db_evidence db)))"

definition ListControlIDsForPeriodHash :: "uuid \<Rightarrow> 'z eval_db_scheme \<Rightarrow> uuid list" where
  "ListControlIDsForPeriodHash t db = sort (map ctl_ID (filter (\<lambda>r. ctl_TenantID r = t) (db_controls db)))"

text \<open>\<open>horizon = None\<close> is the NULL that \<open>COALESCE\<close> turns into infinity.\<close>

definition ListEvidenceForPeriodControl ::
  "uuid \<Rightarrow> uuid \<Rightarrow> gotime option \<Rightarrow> 'z eval_db_scheme \<Rightarrow> evidence_row list" where
  "ListEvidenceForPeriodControl t cid horizon db =
     sort_key (\<lambda>r. (- ev_ObservedAt r, ev_ID r))
       (filter (\<lambda>r. ev_TenantID r = t \<and> ev_ControlID r = Some cid
                    \<and> (case horizon of None \<Rightarrow> True | Some h \<Rightarrow> ev_ObservedAt r \<le> h)) (db_evidence db))"

text \<open>Both population updates are \<open>:exec\<close>: a zero row count is no error.\<close>

definition AttachPopulationToPeriod :: "uuid \<Rightarrow> uuid \<Rightarrow> uuid \<Rightarrow> 'z period_db_scheme \<Rightarrow> 'z period_db_scheme" where
  "AttachPopulationToPeriod t popID i db =
     db\<lparr>db_populations :=
        sql_update (\<lambda>r. pop_TenantID r = t \<and> pop_ID r = popID \<and> pop_AuditPeriodID r = None)
          (\<lambda>r. r\<lparr>pop_AuditPeriodID := Some i\<rparr>) (db_populations db)\<rparr>"

definition SetPopulationFrozenAt ::
  "uuid \<Rightarrow> uuid \<Rightarrow> gotime \<Rightarrow> 'z period_db_scheme \<Rightarrow> 'z period_db_scheme" where
  "SetPopulationFrozenAt t i instant db =
     db\<lparr>db_populations :=
        sql_update (\<lambda>r. pop_TenantID r = t \<and> pop_AuditPeriodID r = Some i \<and> pop_FrozenAt r = None)
          (\<lambda>r. r\<lparr>pop_FrozenAt := Some (pgTime instant)\<rparr>) (db_populations db)\<rparr>"


section \<open>The freeze hash\<close>

record freezeHashInputs =
  fi_AuditPeriodID :: uuid
  fi_PeriodStart :: gotime
  fi_PeriodEnd :: gotime
  fi_FrameworkVersionID :: uuid
  fi_EvidenceRecordIDs :: "uuid list"
  fi_ControlIDs :: "uuid list"

definition sortUUIDs :: "period_lib \<Rightarrow> uuid list \<Rightarrow> uuid list" where
  "sortUUIDs lib us = sort_key (pl_uuid_string lib) us"

definition json_strings :: "string list \<Rightarrow> bytes" where
  "json_strings ss = ''['' @ join_comma (map writeJSONString ss) @ '']''"

definition json_key :: "string \<Rightarrow> bytes" where
  "json_key k = writeJSONString k @ '':''"

definition freeze_wire :: "period_lib \<Rightarrow> freezeHashInputs \<Rightarrow> bytes" where
  "freeze_wire lib inp =
     ''{'' @ json_key ''audit_period_id'' @ writeJSONString (pl_uuid_string lib (fi_AuditPeriodID inp)) @ '','' @
     json_key ''period_start'' @ writeJSONString (pl_date lib (fi_PeriodStart inp)) @ '','' @
     json_key ''period_end'' @ writeJSONString (pl_date lib (fi_PeriodEnd inp)) @ '','' @
     json_key ''framework_version_id'' @ writeJSONString (pl_uuid_string lib (fi_FrameworkVersionID inp)) @ '','' @
     json_key ''evidence_record_ids'' @
       json_strings (map (pl_uuid_string lib) (sortUUIDs lib (fi_EvidenceRecordIDs inp))) @ '','' @
     json_key ''control_ids'' @
       json_strings (map (pl_uuid_string lib) (sortUUIDs lib (fi_ControlIDs inp))) @ ''}''"

definition computeFreezeHash :: "period_lib \<Rightarrow> freezeHashInputs \<Rightarrow> bytes" where
  "computeFreezeHash lib inp = pl_sha256 lib (freeze_wire lib inp)"

text \<open>\<open>fmt.Sprintf("%x", hash)\<close>.\<close>

definition hex_bytes :: "bytes \<Rightarrow> string" where
  "hex_bytes b = concat (map (\<lambda>c. [hex_digit (of_char c div 16), hex_digit (of_char c mod 16)]) b)"


section \<open>Store operations\<close>

definition periodFromRow :: "period_row \<Rightarrow> Period" where
  "periodFromRow r =
     \<lparr>P_ID = pd_ID r, P_TenantID = pd_TenantID r, P_Name = pd_Name r,
      P_FrameworkVersionID = pd_FrameworkVersionID r, P_PeriodStart = pd_PeriodStart r,
      P_PeriodEnd = pd_PeriodEnd r, P_Status = pd_Status r, P_FrozenAt = pd_FrozenAt r,
      P_FrozenHash = (case pd_FrozenHash r of None \<Rightarrow> [] | Some h \<Rightarrow> h),
      P_FrozenBy = (case pd_FrozenBy r of None \<Rightarrow> [] | Some b \<Rightarrow> b),
      P_CreatedBy = pd_CreatedBy r, P_CreatedAt = pd_CreatedAt r, P_UpdatedAt = pd_UpdatedAt r,
      P_FrameworkLabel = []\<rparr>"

definition frameworkLabel :: "string option \<Rightarrow> string option \<Rightarrow> string" where
  "frameworkLabel name version =
     (case (name, version) of
        (Some nm, Some ver) \<Rightarrow>
          (let n = TrimSpace nm; v = TrimSpace ver in if n = [] \<or> v = [] then [] else n @ '' '' @ v)
      | _ \<Rightarrow> [])"

definition periodFromListRow :: "period_row \<times> string option \<times> string option \<Rightarrow> Period" where
  "periodFromListRow x =
     (case x of (r, name, version) \<Rightarrow> (periodFromRow r)\<lparr>P_FrameworkLabel := frameworkLabel name version\<rparr>)"

definition writeLog ::
  "uuid \<Rightarrow> gotime \<Rightarrow> uuid \<Rightarrow> uuid \<Rightarrow> pd_action \<Rightarrow> string \<Rightarrow> (string \<times> log_value) list \<Rightarrow> 'z period_db_scheme \<Rightarrow>
   period_error + 'z period_db_scheme" where
  "writeLog auditID dbnow t i action actor detail db =
     (case WriteAuditPeriodLog
             \<lparr>pg_ID = auditID, pg_TenantID = t, pg_PeriodID = i, pg_Action = action, pg_Actor = actor,
              pg_Detail = detail, pg_OccurredAt = dbnow\<rparr> db of
        Inl e \<Rightarrow> Inl (PdWriteLog e) | Inr db' \<Rightarrow> Inr db')"

definition pd_Create ::
  "txenv \<Rightarrow> gotime \<Rightarrow> uuid \<Rightarrow> uuid \<Rightarrow> string \<Rightarrow> uuid \<Rightarrow> gotime \<Rightarrow> gotime \<Rightarrow> string \<Rightarrow> 'z period_db_scheme \<Rightarrow>
   (period_error err + Period) \<times> 'z period_db_scheme" where
  "pd_Create env dbnow newID auditID nm fv periodStart periodEnd createdBy db =
     (if nm = [] then (Inl (Dom NameEmpty), db)
      else if createdBy = [] then (Inl (Dom CreatedByEmpty), db)
      else if periodEnd < periodStart then (Inl (Dom BoundsInverted), db)
      else
        inTx env (\<lambda>t db0.
          (case CreateAuditPeriod dbnow newID t nm fv (pgDate periodStart) (pgDate periodEnd) createdBy db0 of
             Inl e \<Rightarrow> Inl (PdDatabase e)
           | Inr (row, db1) \<Rightarrow>
             (case writeLog auditID dbnow t (pd_ID row) PeriodCreated createdBy [] db1 of
                Inl e \<Rightarrow> Inl e | Inr db2 \<Rightarrow> Inr (periodFromRow row, db2)))) db)"

definition pd_Get ::
  "txenv \<Rightarrow> uuid \<Rightarrow> 'z period_db_scheme \<Rightarrow> (period_error err + Period) \<times> 'z period_db_scheme" where
  "pd_Get env i db =
     inTx env (\<lambda>t db0.
       (case GetAuditPeriodByID t i db0 of None \<Rightarrow> Inl PdErrNotFound | Some row \<Rightarrow> Inr (periodFromRow row, db0))) db"

definition pd_List ::
  "txenv \<Rightarrow> 'z period_db_scheme \<Rightarrow> (period_error err + Period list) \<times> 'z period_db_scheme" where
  "pd_List env db =
     inTx env (\<lambda>t db0. Inr (map periodFromListRow (ListAuditPeriodsWithFrameworkByTenant t db0), db0)) db"

text \<open>The body of \<open>Freeze\<close> inside its transaction.\<close>

definition freeze_body ::
  "period_lib \<Rightarrow> gotime \<Rightarrow> uuid \<Rightarrow> uuid \<Rightarrow> string \<Rightarrow> gotime \<Rightarrow> uuid \<Rightarrow> 'z period_db_scheme \<Rightarrow>
   period_error + Period \<times> 'z period_db_scheme" where
  "freeze_body lib dbnow auditID i frozenBy instant t db0 =
     (case GetAuditPeriodByID t i db0 of
        None \<Rightarrow> Inl PdErrNotFound
      | Some existing \<Rightarrow>
        if pd_Status existing = StatusFrozen then Inl (RejectFrozen t)
        else
          (let evIDs = ListEvidenceIDsForPeriodHash t instant db0;
               ctrlIDs = ListControlIDsForPeriodHash t db0;
               hash = computeFreezeHash lib
                        \<lparr>fi_AuditPeriodID = pd_ID existing, fi_PeriodStart = pd_PeriodStart existing,
                         fi_PeriodEnd = pd_PeriodEnd existing,
                         fi_FrameworkVersionID = pd_FrameworkVersionID existing,
                         fi_EvidenceRecordIDs = evIDs, fi_ControlIDs = ctrlIDs\<rparr>
           in (case FreezeAuditPeriod dbnow t i instant hash (if frozenBy = [] then None else Some frozenBy) db0 of
                 Inl NoRows \<Rightarrow> Inl PdErrAlreadyFrozen
               | Inl e \<Rightarrow> Inl (PdDatabase e)
               | Inr (row, db1) \<Rightarrow>
                 (case writeLog auditID dbnow t (pd_ID row) PeriodFrozen frozenBy
                         [(''frozen_at'', LogString (pl_rfc3339nano lib instant)),
                          (''frozen_hash'', LogString (hex_bytes hash)),
                          (''evidence_n'', LogInt (length evIDs)), (''controls_n'', LogInt (length ctrlIDs))]
                         (SetPopulationFrozenAt t i instant db1) of
                    Inl e \<Rightarrow> Inl e | Inr db2 \<Rightarrow> Inr (periodFromRow row, db2)))))"

definition writeRejectionLog ::
  "txenv \<Rightarrow> gotime \<Rightarrow> uuid \<Rightarrow> uuid \<Rightarrow> uuid \<Rightarrow> string \<Rightarrow> 'z period_db_scheme \<Rightarrow> 'z period_db_scheme" where
  "writeRejectionLog env dbnow auditID t i actor db =
     (if \<not> te_begin_ok env then db
      else (case ApplyTenant env of
              Inl _ \<Rightarrow> db
            | Inr _ \<Rightarrow>
              (case writeLog auditID dbnow t i FreezeRejected actor [(''reason'', LogString ''already_frozen'')] db of
                 Inl _ \<Rightarrow> db
               | Inr db1 \<Rightarrow> if te_commit_ok env then db1 else db)))"

text \<open>\<open>renv\<close> is the context of the sibling transaction of a rejection.\<close>

definition Freeze ::
  "period_lib \<Rightarrow> txenv \<Rightarrow> txenv \<Rightarrow> gotime \<Rightarrow> gotime \<Rightarrow> uuid \<Rightarrow> uuid \<Rightarrow> string \<Rightarrow> gotime \<Rightarrow> 'z period_db_scheme \<Rightarrow>
   (period_error err + Period) \<times> 'z period_db_scheme" where
  "Freeze lib env renv wallnow dbnow auditID i frozenBy instant db =
     (if frozenBy = [] then (Inl (Dom FrozenByEmpty), db)
      else
        (case inTx env (freeze_body lib dbnow auditID i frozenBy (if instant = 0 then wallnow else instant)) db of
           (Inl (Dom (RejectFrozen t)), db') \<Rightarrow>
             (Inl (Dom PdErrAlreadyFrozen), writeRejectionLog renv dbnow auditID t i frozenBy db')
         | res \<Rightarrow> res))"

definition period_ControlState ::
  "txenv \<Rightarrow> uuid \<Rightarrow> uuid \<Rightarrow> 'z period_db_scheme \<Rightarrow>
   (period_error err + ControlStateObservation list) \<times> 'z period_db_scheme" where
  "period_ControlState env periodID controlID db =
     inTx env (\<lambda>t db0.
       (case GetAuditPeriodByID t periodID db0 of
          None \<Rightarrow> Inl PdErrNotFound
        | Some p \<Rightarrow>
          Inr (map (\<lambda>r. \<lparr>ob_EvidenceRecordID = ev_ID r, ob_ObservedAt = ev_ObservedAt r,
                          ob_Result = ev_Result r, ob_Hash = ev_Hash r\<rparr>)
                 (ListEvidenceForPeriodControl t controlID (pd_FrozenAt p) db0), db0))) db"

definition AttachPopulation ::
  "period_lib \<Rightarrow> txenv \<Rightarrow> gotime \<Rightarrow> uuid \<Rightarrow> uuid \<Rightarrow> uuid \<Rightarrow> string \<Rightarrow> 'z period_db_scheme \<Rightarrow>
   (period_error err + unit) \<times> 'z period_db_scheme" where
  "AttachPopulation lib env dbnow auditID periodID populationID actor db =
     (if actor = [] then (Inl (Dom ActorEmpty), db)
      else
        inTx env (\<lambda>t db0.
          (case GetAuditPeriodByID t periodID db0 of
             None \<Rightarrow> Inl PdErrNotFound
           | Some p \<Rightarrow>
             (let db1 = AttachPopulationToPeriod t populationID periodID db0;
                  db2 = (case (pd_Status p, pd_FrozenAt p) of
                           (StatusFrozen, Some instant) \<Rightarrow> SetPopulationFrozenAt t periodID instant db1
                         | _ \<Rightarrow> db1)
              in (case writeLog auditID dbnow t (pd_ID p) PopulationAttached actor
                         [(''population_id'', LogString (pl_uuid_string lib populationID))] db2 of
                    Inl e \<Rightarrow> Inl e | Inr db3 \<Rightarrow> Inr ((), db3))))) db)"

definition ListLog ::
  "txenv \<Rightarrow> uuid \<Rightarrow> 'z period_db_scheme \<Rightarrow> (period_error err + period_log list) \<times> 'z period_db_scheme" where
  "ListLog env periodID db = inTx env (\<lambda>t db0. Inr (ListAuditPeriodLog t periodID db0, db0)) db"



section \<open>The store as a step relation\<close>

text \<open>
  \<open>ingest\<close> is the rest of the platform: the evidence ledger grows at its end and
  nothing else of it changes.
\<close>

inductive pd_step :: "period_lib \<Rightarrow> 'z period_db_scheme \<Rightarrow> 'z period_db_scheme \<Rightarrow> bool" for lib where
  create: "pd_Create env dbnow newID auditID nm fv s e createdBy db = (res, db') \<Longrightarrow> pd_step lib db db'"
| freeze: "Freeze lib env renv wallnow dbnow auditID i frozenBy instant db = (res, db') \<Longrightarrow> pd_step lib db db'"
| attach: "AttachPopulation lib env dbnow auditID i popID actor db = (res2, db') \<Longrightarrow> pd_step lib db db'"
| ingest: "db' = db\<lparr>db_evidence := db_evidence db @ rows\<rparr> \<Longrightarrow> pd_step lib db db'"

fun pd_edge :: "pd_status \<Rightarrow> pd_status \<Rightarrow> bool" where
  "pd_edge StatusOpen StatusFrozen = True"
| "pd_edge _ _ = False"

fun pd_rank :: "pd_status \<Rightarrow> nat" where
  "pd_rank StatusOpen = 0"
| "pd_rank StatusFrozen = 1"

definition pd_status_of :: "'z period_db_scheme \<Rightarrow> uuid \<times> uuid \<Rightarrow> pd_status option" where
  "pd_status_of db k = map_option pd_Status (GetAuditPeriodByID (fst k) (snd k) db)"

fun pd_entry_status :: "pd_action \<Rightarrow> pd_status option" where
  "pd_entry_status PeriodCreated = Some StatusOpen"
| "pd_entry_status PeriodFrozen = Some StatusFrozen"
| "pd_entry_status _ = None"

definition pd_trail_of :: "'z period_db_scheme \<Rightarrow> uuid \<times> uuid \<Rightarrow> pd_status list" where
  "pd_trail_of db k =
     List.map_filter (\<lambda>a. if pg_TenantID a = fst k \<and> pg_PeriodID a = snd k then pd_entry_status (pg_Action a) else None)
       (db_period_log db)"

definition pd_row_inv :: "period_row \<Rightarrow> bool" where
  "pd_row_inv r \<longleftrightarrow>
     (pd_FrozenAt r \<noteq> None \<longleftrightarrow> pd_Status r = StatusFrozen) \<and> (pd_FrozenHash r \<noteq> None \<longleftrightarrow> pd_Status r = StatusFrozen)
     \<and> pd_PeriodStart r \<le> pd_PeriodEnd r"

definition pd_inv :: "'z period_db_scheme \<Rightarrow> bool" where
  "pd_inv db \<longleftrightarrow> distinct (map pd_ID (db_periods db)) \<and> (\<forall>r \<in> set (db_periods db). pd_row_inv r)"


section \<open>Lemmas on the operations\<close>

lemma WriteAuditPeriodLog_InrD:
  "writeLog auditID dbnow t i action actor detail db = Inr db' \<Longrightarrow>
     db' = db\<lparr>db_period_log := db_period_log db @
        [\<lparr>pg_ID = auditID, pg_TenantID = t, pg_PeriodID = i, pg_Action = action, pg_Actor = actor,
          pg_Detail = detail, pg_OccurredAt = dbnow\<rparr>]\<rparr>"
  by (auto simp: writeLog_def WriteAuditPeriodLog_def split: sum.splits if_splits)

lemma pd_Create_cases:
  assumes "pd_Create env dbnow newID auditID nm fv s e createdBy db = (res, db')"
  obtains (fail) er where "res = Inl er" "db' = db"
  | (commit) t row en where "pd_ID row = newID" "pd_TenantID row = t" "pd_Status row = StatusOpen" "pd_row_inv row"
      "newID \<notin> pd_ID ` set (db_periods db)"
      "pg_TenantID en = t" "pg_PeriodID en = newID" "pg_Action en = PeriodCreated"
      "db' = db\<lparr>db_periods := db_periods db @ [row], db_period_log := db_period_log db @ [en]\<rparr>"
proof (cases res)
  case (Inl er)
  with assms have "db' = db"
    by (auto simp: pd_Create_def dest: inTx_rollback split: if_splits)
  with Inl fail show ?thesis by blast
next
  case (Inr p)
  let ?create = "\<lambda>t. CreateAuditPeriod dbnow newID t nm fv (pgDate s) (pgDate e) createdBy db"
  obtain t where body: "(case ?create t of Inl e \<Rightarrow> Inl (PdDatabase e)
       | Inr (row, db1) \<Rightarrow>
         (case writeLog auditID dbnow t (pd_ID row) PeriodCreated createdBy [] db1 of
            Inl e \<Rightarrow> Inl e | Inr db2 \<Rightarrow> Inr (periodFromRow row, db2))) = Inr (p, db')"
    using assms unfolding Inr pd_Create_def by (auto simp: inTx_Inr_iff split: if_splits)
  then obtain row db1 where cr: "?create t = Inr (row, db1)"
    and au: "writeLog auditID dbnow t (pd_ID row) PeriodCreated createdBy [] db1 = Inr db'"
    by (auto split: sum.splits prod.splits)
  from cr have row: "pd_ID row = newID" "pd_TenantID row = t" "pd_Status row = StatusOpen" "pd_row_inv row"
    "newID \<notin> pd_ID ` set (db_periods db)" "db1 = db\<lparr>db_periods := db_periods db @ [row]\<rparr>"
    by (auto simp: CreateAuditPeriod_def pd_row_inv_def Let_def split: option.splits if_splits)
  show ?thesis
    by (rule commit [OF row(1-5) _ _ _ WriteAuditPeriodLog_InrD [OF au, unfolded row(1,6), simplified]]) simp_all
qed

abbreviation open_row :: "uuid \<Rightarrow> uuid \<Rightarrow> period_row \<Rightarrow> bool" where
  "open_row t i r \<equiv> pd_TenantID r = t \<and> pd_ID r = i \<and> pd_Status r = StatusOpen"

abbreviation mark_frozen :: "gotime \<Rightarrow> gotime \<Rightarrow> bytes \<Rightarrow> string \<Rightarrow> period_row \<Rightarrow> period_row" where
  "mark_frozen dbnow instant hash who r \<equiv>
     r\<lparr>pd_Status := StatusFrozen, pd_FrozenAt := Some (pgTime instant), pd_FrozenHash := Some hash,
       pd_FrozenBy := Some who, pd_UpdatedAt := dbnow\<rparr>"

definition freeze_inputs :: "uuid \<Rightarrow> gotime \<Rightarrow> period_row \<Rightarrow> 'z eval_db_scheme \<Rightarrow> freezeHashInputs" where
  "freeze_inputs t instant r db =
     \<lparr>fi_AuditPeriodID = pd_ID r, fi_PeriodStart = pd_PeriodStart r, fi_PeriodEnd = pd_PeriodEnd r,
      fi_FrameworkVersionID = pd_FrameworkVersionID r,
      fi_EvidenceRecordIDs = ListEvidenceIDsForPeriodHash t instant db,
      fi_ControlIDs = ListControlIDsForPeriodHash t db\<rparr>"

definition content_hash :: "period_lib \<Rightarrow> uuid \<Rightarrow> gotime \<Rightarrow> period_row \<Rightarrow> 'z eval_db_scheme \<Rightarrow> bytes" where
  "content_hash lib t instant r db = computeFreezeHash lib (freeze_inputs t instant r db)"

lemma freeze_body_cases:
  assumes "freeze_body lib dbnow auditID i who instant t db = Inr (p, db')" and "who \<noteq> []" and "pd_inv db"
  obtains r0 en where "r0 \<in> set (db_periods db)" "open_row t i r0" "GetAuditPeriodByID t i db = Some r0"
    "p = periodFromRow (mark_frozen dbnow instant (content_hash lib t instant r0 db) who r0)"
    "pg_TenantID en = t" "pg_PeriodID en = i" "pg_Action en = PeriodFrozen"
    "db' = (SetPopulationFrozenAt t i instant db)\<lparr>db_periods :=
              sql_update (open_row t i) (mark_frozen dbnow instant (content_hash lib t instant r0 db) who) (db_periods db),
            db_period_log := db_period_log db @ [en]\<rparr>"
proof -
  obtain r0 where r0: "GetAuditPeriodByID t i db = Some r0" "pd_Status r0 = StatusOpen"
    using assms(1) by (cases "GetAuditPeriodByID t i db")
      (auto simp: freeze_body_def intro: pd_status.exhaust split: if_splits)
  then have mem: "r0 \<in> set (db_periods db)" "pd_TenantID r0 = t" "pd_ID r0 = i"
    by (auto simp: GetAuditPeriodByID_def dest: find_SomeD)
  let ?h = "content_hash lib t instant r0 db"
  have sel: "List.find (open_row t i) (db_periods db) = Some r0"
    using assms(3) mem r0(2) by (intro find_eq_unique [where k = pd_ID]) (auto simp: pd_inv_def)
  have fr: "FreezeAuditPeriod dbnow t i instant ?h (Some who) db =
      Inr (mark_frozen dbnow instant ?h who r0, db\<lparr>db_periods := sql_update (open_row t i) (mark_frozen dbnow instant ?h who) (db_periods db)\<rparr>)"
    using sel assms(2) by (simp add: FreezeAuditPeriod_def sql_update_one_def)
  let ?detail = "[(''frozen_at'', LogString (pl_rfc3339nano lib instant)), (''frozen_hash'', LogString (hex_bytes ?h)),
      (''evidence_n'', LogInt (length (ListEvidenceIDsForPeriodHash t instant db))),
      (''controls_n'', LogInt (length (ListControlIDsForPeriodHash t db)))]"
  have au: "writeLog auditID dbnow t i PeriodFrozen who ?detail (SetPopulationFrozenAt t i instant
      (db\<lparr>db_periods := sql_update (open_row t i) (mark_frozen dbnow instant ?h who) (db_periods db)\<rparr>)) = Inr db'"
    and p: "p = periodFromRow (mark_frozen dbnow instant ?h who r0)"
    using assms(1,2) r0 fr mem
    by (auto simp: freeze_body_def Let_def content_hash_def freeze_inputs_def split: sum.splits)
  let ?en = "\<lparr>pg_ID = auditID, pg_TenantID = t, pg_PeriodID = i, pg_Action = PeriodFrozen, pg_Actor = who,
      pg_Detail = ?detail, pg_OccurredAt = dbnow\<rparr>"
  have db': "db' = (SetPopulationFrozenAt t i instant db)\<lparr>db_periods :=
              sql_update (open_row t i) (mark_frozen dbnow instant ?h who) (db_periods db),
            db_period_log := db_period_log db @ [?en]\<rparr>"
    using WriteAuditPeriodLog_InrD [OF au] by (simp add: SetPopulationFrozenAt_def)
  show ?thesis by (rule that [OF mem(1) _ r0(1) p _ _ _ db']) (use mem r0 in simp_all)
qed

text \<open>A rejected freeze may add a rejection entry; nothing else of the database changes.\<close>

lemma writeRejectionLog_cases:
  obtains (same) "writeRejectionLog env dbnow auditID t i actor db = db"
  | (logged) en where "pg_Action en = FreezeRejected"
      "writeRejectionLog env dbnow auditID t i actor db = db\<lparr>db_period_log := db_period_log db @ [en]\<rparr>"
proof -
  let ?log = "writeLog auditID dbnow t i FreezeRejected actor [(''reason'', LogString ''already_frozen'')] db"
  show ?thesis
  proof (cases "writeRejectionLog env dbnow auditID t i actor db = db")
    case False
    then have "?log = Inr (writeRejectionLog env dbnow auditID t i actor db)"
      by (auto simp: writeRejectionLog_def split: if_splits sum.splits)
    from WriteAuditPeriodLog_InrD [OF this] show ?thesis by (intro logged) auto
  qed (rule same)
qed

lemma Freeze_cases:
  assumes "Freeze lib env renv wallnow dbnow auditID i who instant0 db = (res, db')" and "pd_inv db"
  obtains (fail) e where "res = Inl e" "db' = db"
  | (rejected) en where "res = Inl (Dom PdErrAlreadyFrozen)" "pg_Action en = FreezeRejected"
      "db' = db\<lparr>db_period_log := db_period_log db @ [en]\<rparr>"
  | (commit) t instant r0 en where "tenant_of env = Some t" "instant = (if instant0 = 0 then wallnow else instant0)"
      "r0 \<in> set (db_periods db)" "open_row t i r0" "GetAuditPeriodByID t i db = Some r0"
      "res = Inr (periodFromRow (mark_frozen dbnow instant (content_hash lib t instant r0 db) who r0))"
      "pg_TenantID en = t" "pg_PeriodID en = i" "pg_Action en = PeriodFrozen"
      "db' = (SetPopulationFrozenAt t i instant db)\<lparr>db_periods :=
                sql_update (open_row t i) (mark_frozen dbnow instant (content_hash lib t instant r0 db) who) (db_periods db),
              db_period_log := db_period_log db @ [en]\<rparr>"
proof (cases "who = []")
  case True
  with assms fail show ?thesis by (auto simp: Freeze_def)
next
  case False
  let ?at = "if instant0 = 0 then wallnow else instant0"
  obtain r1 :: "period_error err + Period" and db1 where tx: "inTx env (freeze_body lib dbnow auditID i who ?at) db = (r1, db1)" by fastforce
  then show ?thesis
  proof (cases rule: inTx_cases)
    case (fail e)
    show ?thesis
    proof (cases "\<exists>t. e = Dom (RejectFrozen t)")
      case True
      then obtain t where e: "e = Dom (RejectFrozen t)" by blast
      with assms(1) tx fail False have r: "res = Inl (Dom PdErrAlreadyFrozen)"
        "db' = writeRejectionLog renv dbnow auditID t i who db" by (auto simp: Freeze_def)
      show ?thesis
      proof (cases rule: writeRejectionLog_cases [of renv dbnow auditID t i who db])
        case same
        with r that(1) show ?thesis by simp
      next
        case (logged en)
        with r that(2) show ?thesis by simp
      qed
    next
      case no: False
      have "Freeze lib env renv wallnow dbnow auditID i who instant0 db = (r1, db1)"
        using tx no fail False by (auto simp: Freeze_def split: err.splits period_error.splits)
      with assms(1) fail that(1) show ?thesis by auto
    qed
  next
    case (commit t p)
    from commit(4) False assms(2) obtain r0 en where b:
      "r0 \<in> set (db_periods db)" "open_row t i r0" "GetAuditPeriodByID t i db = Some r0"
      "p = periodFromRow (mark_frozen dbnow ?at (content_hash lib t ?at r0 db) who r0)"
      "pg_TenantID en = t" "pg_PeriodID en = i" "pg_Action en = PeriodFrozen"
      "db1 = (SetPopulationFrozenAt t i ?at db)\<lparr>db_periods :=
                sql_update (open_row t i) (mark_frozen dbnow ?at (content_hash lib t ?at r0 db) who) (db_periods db),
              db_period_log := db_period_log db @ [en]\<rparr>"
      by (rule freeze_body_cases)
    have "res = Inr p" "db' = db1" using assms(1) tx commit(1) False by (auto simp: Freeze_def)
    with commit(2) b that(3) [of t ?at r0 en] show ?thesis by simp
  qed
qed

lemma AttachPopulation_frame:
  assumes "AttachPopulation lib env dbnow auditID i popID actor db = (res, db')"
  shows "db_periods db' = db_periods db \<and> db_evidence db' = db_evidence db
    \<and> (\<exists>es. db_period_log db' = db_period_log db @ es \<and> (\<forall>e \<in> set es. pg_Action e = PopulationAttached))"
proof (cases "actor = []")
  case True
  with assms show ?thesis by (auto simp: AttachPopulation_def)
next
  case False
  with assms show ?thesis
    unfolding AttachPopulation_def if_not_P [OF False]
  proof (cases rule: inTx_cases)
    case (commit t a)
    from commit(4) obtain p where p: "GetAuditPeriodByID t i db = Some p"
      by (auto split: option.splits)
    let ?db1 = "AttachPopulationToPeriod t popID i db"
    let ?db2 = "case (pd_Status p, pd_FrozenAt p) of (StatusFrozen, Some instant) \<Rightarrow> SetPopulationFrozenAt t i instant ?db1 | _ \<Rightarrow> ?db1"
    from commit(4) p have au: "writeLog auditID dbnow t (pd_ID p) PopulationAttached actor
        [(''population_id'', LogString (pl_uuid_string lib popID))] ?db2 = Inr db'"
      by (auto simp: Let_def split: sum.splits)
    have "db_periods ?db2 = db_periods db" "db_evidence ?db2 = db_evidence db" "db_period_log ?db2 = db_period_log db"
      by (simp_all add: AttachPopulationToPeriod_def SetPopulationFrozenAt_def split: pd_status.split option.split)
    with WriteAuditPeriodLog_InrD [OF au] show ?thesis by auto
  qed auto
qed



section \<open>The effect of a step\<close>

lemma pd_step_effect:
  assumes "pd_step lib db db'" and "pd_inv db"
  obtains (frame) es where "db_periods db' = db_periods db" "db_period_log db' = db_period_log db @ es"
      "\<forall>e \<in> set es. pd_entry_status (pg_Action e) = None"
  | (new) row en where "pd_Status row = StatusOpen" "pd_row_inv row" "pd_ID row \<notin> pd_ID ` set (db_periods db)"
      "pg_TenantID en = pd_TenantID row" "pg_PeriodID en = pd_ID row" "pg_Action en = PeriodCreated"
      "db_periods db' = db_periods db @ [row]" "db_period_log db' = db_period_log db @ [en]"
  | (frozen) t i r0 dbnow instant hash who en where "r0 \<in> set (db_periods db)" "open_row t i r0"
      "pg_TenantID en = t" "pg_PeriodID en = i" "pg_Action en = PeriodFrozen"
      "db_periods db' = sql_update (open_row t i) (mark_frozen dbnow instant hash who) (db_periods db)"
      "db_period_log db' = db_period_log db @ [en]"
  using assms(1)
proof cases
  case (create env dbnow newID auditID nm fv s e createdBy res)
  then show ?thesis
  proof (cases rule: pd_Create_cases)
    case (fail er)
    then show ?thesis by (intro frame [of "[]"]) simp_all
  next
    case (commit t row en)
    then show ?thesis by (intro new [of row en]) simp_all
  qed
next
  case (freeze env renv wallnow dbnow auditID i who instant0 res)
  from freeze assms(2) show ?thesis
  proof (cases rule: Freeze_cases)
    case (fail e)
    then show ?thesis by (intro frame [of "[]"]) simp_all
  next
    case (rejected en)
    then show ?thesis by (intro frame [of "[en]"]) simp_all
  next
    case (commit t instant r0 en)
    show ?thesis
      by (rule frozen [OF commit(3,4,7-9)]) (simp_all add: commit(10))
  qed
next
  case (attach env dbnow auditID i popID actor res)
  from AttachPopulation_frame [OF this] obtain es where
    "db_periods db' = db_periods db" "db_period_log db' = db_period_log db @ es"
    "\<forall>e \<in> set es. pg_Action e = PopulationAttached" by blast
  then show ?thesis by (intro frame [of es]) auto
next
  case (ingest rows)
  then show ?thesis by (intro frame [of "[]"]) simp_all
qed

lemma pd_step_evidence: "pd_step lib db db' \<Longrightarrow> pd_inv db \<Longrightarrow> \<exists>rows. db_evidence db' = db_evidence db @ rows"
proof (induction rule: pd_step.induct)
  case (create env dbnow newID auditID nm fv s e createdBy db res db')
  then show ?case by (cases rule: pd_Create_cases) auto
next
  case (freeze env renv wallnow dbnow auditID i who instant0 db res db')
  from freeze show ?case by (cases rule: Freeze_cases) (auto simp: SetPopulationFrozenAt_def)
next
  case (attach env dbnow auditID i popID actor db res db')
  from AttachPopulation_frame [OF attach(1)] show ?case by auto
qed auto

lemma pd_step_inv:
  assumes "pd_step lib db db'" and "pd_inv db"
  shows "pd_inv db'"
  using assms
proof (cases rule: pd_step_effect)
  case (frozen t i r0 dbnow instant hash who en)
  have "pd_row_inv r" if "r \<in> set (db_periods db')" for r
    using that [unfolded frozen(6)] assms(2)
    by (cases rule: in_sql_updateE) (auto simp: pd_inv_def pd_row_inv_def)
  with assms(2) frozen(6) show ?thesis by (simp add: pd_inv_def map_sql_update_frame)
qed (use assms(2) in \<open>auto simp: pd_inv_def\<close>)

text \<open>A frozen row is never written again.\<close>

lemma pd_step_frozen_row:
  assumes "pd_step lib db db'" and "pd_inv db" and "GetAuditPeriodByID t0 i0 db = Some p" and "pd_Status p = StatusFrozen"
  shows "GetAuditPeriodByID t0 i0 db' = Some p"
  using assms(1,2)
proof (cases rule: pd_step_effect)
  case frame
  with assms(3) show ?thesis by (simp add: GetAuditPeriodByID_def)
next
  case new
  with assms(3) show ?thesis by (simp add: GetAuditPeriodByID_def find_append)
next
  case (frozen t i r0 dbnow instant hash who en)
  have "GetAuditPeriodByID t0 i0 db' =
      map_option (\<lambda>r. if open_row t i r then mark_frozen dbnow instant hash who r else r) (GetAuditPeriodByID t0 i0 db)"
    unfolding GetAuditPeriodByID_def frozen(6) sql_update_def by (rule find_map_key) simp
  with assms(3,4) show ?thesis by simp
qed

lemma pd_step_law:
  assumes "pd_step lib db db'" and "pd_inv db"
  shows "pd_trail_of db' k = pd_trail_of db k @
           (if pd_status_of db' k = pd_status_of db k then [] else [the (pd_status_of db' k)])
    \<and> (pd_status_of db' k \<noteq> pd_status_of db k \<longrightarrow>
         (\<exists>s'. pd_status_of db' k = Some s' \<and>
            (case pd_status_of db k of None \<Rightarrow> s' = StatusOpen | Some s \<Rightarrow> pd_edge s s')))"
  using assms
proof (cases rule: pd_step_effect)
  case (frame es)
  have "List.map_filter (\<lambda>a. if pg_TenantID a = fst k \<and> pg_PeriodID a = snd k then pd_entry_status (pg_Action a) else None) es = []"
    using frame(3) by (auto simp: List.map_filter_def filter_empty_conv)
  with frame show ?thesis
    by (simp add: pd_trail_of_def pd_status_of_def GetAuditPeriodByID_def List.map_filter_def)
next
  case (new row en)
  have "List.find (\<lambda>r. pd_TenantID r = pd_TenantID row \<and> pd_ID r = pd_ID row) (db_periods db) = None"
    using new(3) by (force simp: find_None_iff image_iff)
  then have st: "pd_status_of db' k = (if k = (pd_TenantID row, pd_ID row) then Some StatusOpen else pd_status_of db k)"
    "k = (pd_TenantID row, pd_ID row) \<Longrightarrow> pd_status_of db k = None"
    using new by (cases k; auto simp: pd_status_of_def GetAuditPeriodByID_def find_append split: option.splits)+
  have "pd_trail_of db' k = pd_trail_of db k @ (if k = (pd_TenantID row, pd_ID row) then [StatusOpen] else [])"
    using new by (cases k) (auto simp: pd_trail_of_def List.map_filter_def)
  with st show ?thesis by auto
next
  case (frozen t i r0 dbnow instant hash who en)
  have get: "GetAuditPeriodByID (fst k) (snd k) db' =
      map_option (\<lambda>r. if open_row t i r then mark_frozen dbnow instant hash who r else r) (GetAuditPeriodByID (fst k) (snd k) db)"
    unfolding GetAuditPeriodByID_def frozen(6) sql_update_def by (rule find_map_key) simp
  have r0: "GetAuditPeriodByID t i db = Some r0"
    unfolding GetAuditPeriodByID_def using assms(2) frozen(1,2)
    by (intro find_eq_unique [where k = pd_ID]) (auto simp: pd_inv_def)
  have st: "pd_status_of db' k = (if k = (t, i) then Some StatusFrozen else pd_status_of db k)
      \<and> (k = (t, i) \<longrightarrow> pd_status_of db k = Some StatusOpen)"
  proof (cases "k = (t, i)")
    case True
    with get r0 frozen(2) show ?thesis by (simp add: pd_status_of_def)
  next
    case False
    have "\<not> open_row t i r" if "GetAuditPeriodByID (fst k) (snd k) db = Some r" for r
      using that False by (cases k) (auto simp: GetAuditPeriodByID_def dest!: find_SomeD)
    with get have "GetAuditPeriodByID (fst k) (snd k) db' = GetAuditPeriodByID (fst k) (snd k) db"
      by (cases "GetAuditPeriodByID (fst k) (snd k) db") simp_all
    with False show ?thesis by (simp add: pd_status_of_def)
  qed
  have "pd_trail_of db' k = pd_trail_of db k @ (if k = (t, i) then [StatusFrozen] else [])"
    using frozen by (cases k) (auto simp: pd_trail_of_def List.map_filter_def)
  with st show ?thesis by auto
qed

interpretation per: ranked_lifecycle "pd_step lib" pd_inv pd_status_of pd_edge StatusOpen pd_trail_of pd_rank
  for lib
proof
  fix a b assume "pd_edge a b"
  then show "pd_rank a < pd_rank b" by (cases a; cases b) simp_all
qed (use pd_step_inv pd_step_law in blast)+

lemma pd_run_frozen:
  assumes "(pd_step lib)\<^sup>*\<^sup>* db db'" and "pd_inv db" and "GetAuditPeriodByID t i db = Some p" and "pd_Status p = StatusFrozen"
  shows "GetAuditPeriodByID t i db' = Some p \<and> (\<exists>rows. db_evidence db' = db_evidence db @ rows)"
  using assms(1)
proof (induction rule: rtranclp_induct)
  case (step y z)
  from step(1) assms(2) have inv: "pd_inv y" by (rule per.run_inv)
  from step(3) obtain rows where "db_evidence y = db_evidence db @ rows" by blast
  moreover from pd_step_evidence [OF step(2) inv] obtain rows2 where "db_evidence z = db_evidence y @ rows2" by blast
  ultimately have "db_evidence z = db_evidence db @ (rows @ rows2)" by simp
  with pd_step_frozen_row [OF step(2) inv] step(3) assms(4) show ?case by blast
qed (use assms(3) in auto)



section \<open>What the freeze hash commits to\<close>

lemma json_strings_unique: "json_strings xs @ r = json_strings ys @ s \<longleftrightarrow> xs = ys \<and> r = s"
proof
  assume "json_strings xs @ r = json_strings ys @ s"
  then have "join_comma (map writeJSONString xs) @ CHR 0x5D # r = join_comma (map writeJSONString ys) @ CHR 0x5D # s"
    by (simp add: json_strings_def)
  then show "xs = ys \<and> r = s"
  proof (rule join_comma_unique [rotated 3])
    fix x y :: string and d e r s
    assume "writeJSONString x @ d # r = writeJSONString y @ e # s"
    then show "x = y \<and> d = e \<and> r = s" by (simp add: writeJSONString_unique)
  next
    fix x :: string and r s
    show "writeJSONString x @ r \<noteq> CHR 0x5D # s" by (simp add: writeJSONString_def)
  qed simp
qed simp

lemma freeze_wire_eq_iff:
  "freeze_wire lib a = freeze_wire lib b \<longleftrightarrow>
     pl_uuid_string lib (fi_AuditPeriodID a) = pl_uuid_string lib (fi_AuditPeriodID b)
     \<and> pl_date lib (fi_PeriodStart a) = pl_date lib (fi_PeriodStart b)
     \<and> pl_date lib (fi_PeriodEnd a) = pl_date lib (fi_PeriodEnd b)
     \<and> pl_uuid_string lib (fi_FrameworkVersionID a) = pl_uuid_string lib (fi_FrameworkVersionID b)
     \<and> map (pl_uuid_string lib) (sortUUIDs lib (fi_EvidenceRecordIDs a)) =
         map (pl_uuid_string lib) (sortUUIDs lib (fi_EvidenceRecordIDs b))
     \<and> map (pl_uuid_string lib) (sortUUIDs lib (fi_ControlIDs a)) =
         map (pl_uuid_string lib) (sortUUIDs lib (fi_ControlIDs b))"
  unfolding freeze_wire_def
  by (simp add: writeJSONString_unique json_strings_unique json_strings_unique [of _ "[]" _ "[]", simplified])

lemma map_sortUUIDs: "map (pl_uuid_string lib) (sortUUIDs lib us) = sort (map (pl_uuid_string lib) us)"
  unfolding sortUUIDs_def by (rule properties_for_sort [symmetric]) (simp_all add: mset_sort)

lemma sort_eq_iff_mset: "sort xs = sort (ys :: 'a :: linorder list) \<longleftrightarrow> mset xs = mset ys"
  by (metis mset_sort properties_for_sort sorted_sort)

lemma sortUUIDs_eq_iff:
  "inj (pl_uuid_string lib) \<Longrightarrow>
     map (pl_uuid_string lib) (sortUUIDs lib us) = map (pl_uuid_string lib) (sortUUIDs lib vs) \<longleftrightarrow> mset us = mset vs"
  by (simp add: map_sortUUIDs sort_eq_iff_mset inj_eq [OF multiset.inj_map])


lemma ListEvidenceIDs_pgTime [simp]:
  "ListEvidenceIDsForPeriodHash t (pgTime instant) db = ListEvidenceIDsForPeriodHash t instant db"
  by (simp add: ListEvidenceIDsForPeriodHash_def pgTime_def)

lemma sorted_hash_ids [simp]:
  "sorted (ListEvidenceIDsForPeriodHash t h db)" "sorted (ListControlIDsForPeriodHash t db)"
  by (simp_all add: ListEvidenceIDsForPeriodHash_def ListControlIDsForPeriodHash_def)

lemma sorted_mset_eq: "sorted xs \<Longrightarrow> sorted ys \<Longrightarrow> mset xs = mset (ys :: 'a :: linorder list) \<longleftrightarrow> xs = ys"
  by (metis properties_for_sort)

lemma freeze_wire_same_period:
  assumes "inj (pl_uuid_string lib)"
  shows "freeze_wire lib (freeze_inputs t h r db2) = freeze_wire lib (freeze_inputs t h r db) \<longleftrightarrow>
    ListEvidenceIDsForPeriodHash t h db2 = ListEvidenceIDsForPeriodHash t h db
    \<and> ListControlIDsForPeriodHash t db2 = ListControlIDsForPeriodHash t db"
  by (simp add: freeze_wire_eq_iff sortUUIDs_eq_iff [OF assms] freeze_inputs_def sorted_mset_eq)


section \<open>Concrete values\<close>

definition demo_period_lib :: period_lib where
  "demo_period_lib =
     \<lparr>pl_uuid_string = (\<lambda>u. replicate (unat u) CHR ''x''), pl_date = (\<lambda>_. ''d''),
      pl_rfc3339nano = (\<lambda>_. ''z''), pl_sha256 = (\<lambda>b. b)\<rparr>"

definition demo_period :: period_row where
  "demo_period =
     \<lparr>pd_ID = 60, pd_TenantID = 1, pd_Name = ''SOC 2'', pd_FrameworkVersionID = 3, pd_PeriodStart = days 1,
      pd_PeriodEnd = days 90, pd_Status = StatusOpen, pd_FrozenAt = None, pd_FrozenHash = None,
      pd_FrozenBy = None, pd_CreatedBy = ''alice'', pd_CreatedAt = 5, pd_UpdatedAt = 5\<rparr>"

definition demo_period_db :: "period_row \<Rightarrow> period_db" where
  "demo_period_db row =
     \<lparr>db_dimensions = [], db_cells = [], db_controls = [demo_control], db_evidence = db_evidence demo_eval_db,
      db_evaluations = [], db_fversions = [\<lparr>fv_ID = 3, fv_FrameworkID = 4, fv_Version = ''2025''\<rparr>],
      db_frameworks = [(4, ''SCF'')], db_periods = [row],
      db_populations = [\<lparr>pop_ID = 80, pop_TenantID = 1, pop_ControlID = 7, pop_ScopePredicate = [], pop_TimeWindowStart = days 1,
         pop_TimeWindowEnd = days 90, pop_FrozenAt = None, pop_RowCount = 0, pop_CreatedBy = ''alice'',
         pop_CreatedAt = 5, pop_AuditPeriodID = Some 61\<rparr>],
      db_period_log = []\<rparr>"

lemma demo_uuid_inj: "inj (pl_uuid_string demo_period_lib)"
proof (rule injI)
  fix u v assume "pl_uuid_string demo_period_lib u = pl_uuid_string demo_period_lib v"
  then have "length (replicate (unat u) CHR ''x'') = length (replicate (unat v) CHR ''x'')"
    by (simp only: demo_period_lib_def period_lib.simps)
  then show "u = v" by (simp add: word_unat_eq_iff)
qed

lemma demo_period_inv:
  "pd_inv (demo_period_db demo_period)" "pd_inv (demo_period_db (mark_frozen 6 (days 20) [] ''bob'' demo_period))"
  by (simp_all add: pd_inv_def pd_row_inv_def demo_period_db_def demo_period_def)

lemma demo_freeze:
  "\<exists>p db'. Freeze demo_period_lib demo_env demo_env 0 6 90 60 ''bob'' (days 20) (demo_period_db demo_period) = (Inr p, db')"
  by (simp add: Freeze_def inTx_run freeze_body_def GetAuditPeriodByID_def demo_period_db_def demo_period_def
      Let_def FreezeAuditPeriod_def sql_update_one_def writeLog_def WriteAuditPeriodLog_def SetPopulationFrozenAt_def)


section \<open>Properties\<close>

text \<open>
  C33. The hash stored by a freeze commits to the content and to nothing else: recomputing it at
  the stored horizon over any other state of the ledger and the control catalogue gives the
  stored hash exactly when the tenant has the same evidence records up to the horizon and the
  same controls, or else two different texts with the same SHA-256 digest have been found. The
  clock, the freezing actor and the order in which the queries return rows do not enter it.
\<close>

theorem freeze_hash_commits:
  assumes "Freeze lib env renv wallnow dbnow auditID i who instant db = (Inr p, db')"
    and "tenant_of env = Some t" and "pd_inv db" and "inj (pl_uuid_string lib)"
  shows "\<exists>h r. P_FrozenAt p = Some h \<and> GetAuditPeriodByID t i db = Some r \<and>
    (computeFreezeHash lib (freeze_inputs t h r db2) = P_FrozenHash p \<longleftrightarrow>
       (ListEvidenceIDsForPeriodHash t h db2 = ListEvidenceIDsForPeriodHash t h db
        \<and> ListControlIDsForPeriodHash t db2 = ListControlIDsForPeriodHash t db)
       \<or> (freeze_wire lib (freeze_inputs t h r db2) \<noteq> freeze_wire lib (freeze_inputs t h r db)
          \<and> pl_sha256 lib (freeze_wire lib (freeze_inputs t h r db2)) =
            pl_sha256 lib (freeze_wire lib (freeze_inputs t h r db))))"
  using assms(1,3)
proof (cases rule: Freeze_cases)
  case (commit t' at' r en)
  with assms(2) have t: "t' = t" by simp
  have "P_FrozenAt p = Some (pgTime at')" "P_FrozenHash p = computeFreezeHash lib (freeze_inputs t (pgTime at') r db)"
    using commit(6) t by (simp_all add: periodFromRow_def content_hash_def freeze_inputs_def)
  moreover have "computeFreezeHash lib (freeze_inputs t h r db2) = computeFreezeHash lib (freeze_inputs t h r db) \<longleftrightarrow>
       (ListEvidenceIDsForPeriodHash t h db2 = ListEvidenceIDsForPeriodHash t h db
        \<and> ListControlIDsForPeriodHash t db2 = ListControlIDsForPeriodHash t db)
       \<or> (freeze_wire lib (freeze_inputs t h r db2) \<noteq> freeze_wire lib (freeze_inputs t h r db)
          \<and> pl_sha256 lib (freeze_wire lib (freeze_inputs t h r db2)) =
            pl_sha256 lib (freeze_wire lib (freeze_inputs t h r db)))" for h
    unfolding computeFreezeHash_def using freeze_wire_same_period [OF assms(4), of t h r db2 db] by argo
  ultimately show ?thesis using commit(5) t by (intro exI [of _ "pgTime at'"] exI [of _ r]) (simp only: simp_thms)
qed simp_all

theorem freeze_hash_commits_witness:
  "\<exists>(p :: Period) h r. P_FrozenAt p = Some h \<and> GetAuditPeriodByID 1 60 (demo_period_db demo_period) = Some r
     \<and> computeFreezeHash demo_period_lib (freeze_inputs 1 h r (demo_period_db demo_period)) = P_FrozenHash p"
proof -
  obtain p db' where "Freeze demo_period_lib demo_env demo_env 0 6 90 60 ''bob'' (days 20) (demo_period_db demo_period) = (Inr p, db')"
    using demo_freeze by blast
  from freeze_hash_commits [OF this _ demo_period_inv(1) demo_uuid_inj, of 1 "demo_period_db demo_period"]
  show ?thesis by auto
qed

text \<open>
  C34. Once a period is frozen, nothing the store does ever changes its row again, and its control
  state is a function of the evidence up to the horizon: evidence observed after the horizon
  leaves it as it was. The horizon is on the observation time, not on the arrival time, so a
  record that arrives after the freeze but carries an earlier observation time does enter the
  frozen control state.
\<close>

theorem frozen_period_reads:
  assumes "(pd_step lib)\<^sup>*\<^sup>* db db'" and "pd_inv db" and "tx_ok env" and "tenant_of env = Some t"
    and "GetAuditPeriodByID t i db = Some p" and "pd_Status p = StatusFrozen"
  shows "GetAuditPeriodByID t i db' = Some p \<and>
    (\<exists>h new obs. pd_FrozenAt p = Some h \<and> db_evidence db' = db_evidence db @ new
       \<and> fst (period_ControlState env i cid db') = Inr obs
       \<and> ((\<forall>r \<in> set new. h < ev_ObservedAt r) \<longrightarrow> fst (period_ControlState env i cid db) = Inr obs)
       \<and> (\<forall>r \<in> set new. ev_TenantID r = t \<and> ev_ControlID r = Some cid \<longrightarrow>
            (ev_ObservedAt r \<le> h \<longrightarrow> \<lparr>ob_EvidenceRecordID = ev_ID r, ob_ObservedAt = ev_ObservedAt r,
                                      ob_Result = ev_Result r, ob_Hash = ev_Hash r\<rparr> \<in> set obs)))"
proof -
  obtain new where get: "GetAuditPeriodByID t i db' = Some p" and new: "db_evidence db' = db_evidence db @ new"
    using pd_run_frozen [OF assms(1,2,5,6)] by blast
  have "p \<in> set (db_periods db)" using assms(5) by (auto simp: GetAuditPeriodByID_def dest: find_SomeD)
  with assms(2,6) obtain h where h: "pd_FrozenAt p = Some h" by (auto simp: pd_inv_def pd_row_inv_def)
  let ?vis = "\<lambda>r. ev_TenantID r = t \<and> ev_ControlID r = Some cid \<and> ev_ObservedAt r \<le> h"
  let ?obs = "\<lambda>r. \<lparr>ob_EvidenceRecordID = ev_ID r, ob_ObservedAt = ev_ObservedAt r, ob_Result = ev_Result r, ob_Hash = ev_Hash r\<rparr>"
  have read: "fst (period_ControlState env i cid d) =
      Inr (map ?obs (sort_key (\<lambda>r. (- ev_ObservedAt r, ev_ID r)) (filter ?vis (db_evidence d))))"
    if "GetAuditPeriodByID t i d = Some p" for d :: "'a period_db_scheme"
    using that h by (simp add: period_ControlState_def inTx_run assms(3,4) ListEvidenceForPeriodControl_def)
  have stable: "filter ?vis new = []" if "\<forall>r \<in> set new. h < ev_ObservedAt r"
    using that by (auto simp: filter_empty_conv)
  show ?thesis
    using get h new read [OF get] read [OF assms(5)] stable
    by (intro conjI exI [of _ h] exI [of _ new] exI) auto
qed

theorem frozen_period_reads_witness:
  "\<exists>obs. fst (period_ControlState demo_env 60 7
       ((demo_period_db (mark_frozen 6 (days 20) [] ''bob'' demo_period))\<lparr>db_evidence :=
          db_evidence demo_eval_db @ [demo_evidence 2 (days 15) ''fail'']\<rparr>)) = Inr obs
     \<and> ''fail'' \<in> ob_Result ` set obs"
proof -
  let ?p = "mark_frozen 6 (days 20) [] ''bob'' demo_period"
  let ?db = "demo_period_db ?p"
  let ?late = "demo_evidence 2 (days 15) ''fail''"
  let ?db' = "?db\<lparr>db_evidence := db_evidence ?db @ [?late]\<rparr>"
  have run: "(pd_step demo_period_lib)\<^sup>*\<^sup>* ?db ?db'"
    by (rule r_into_rtranclp, rule pd_step.ingest [where rows = "[?late]"]) simp
  have get: "GetAuditPeriodByID 1 60 ?db = Some ?p"
    by (simp add: GetAuditPeriodByID_def demo_period_db_def demo_period_def)
  from frozen_period_reads [OF run demo_period_inv(2) demo_env_simps(2,1) get, of 7]
  obtain h new obs where o: "pd_FrozenAt ?p = Some h" "db_evidence ?db' = db_evidence ?db @ new"
    "fst (period_ControlState demo_env 60 7 ?db') = Inr obs"
    "\<forall>r \<in> set new. ev_TenantID r = 1 \<and> ev_ControlID r = Some 7 \<longrightarrow>
       (ev_ObservedAt r \<le> h \<longrightarrow> \<lparr>ob_EvidenceRecordID = ev_ID r, ob_ObservedAt = ev_ObservedAt r,
                                  ob_Result = ev_Result r, ob_Hash = ev_Hash r\<rparr> \<in> set obs)"
    by auto
  from o(1,2) have "h = days 20" "new = [?late]" by simp_all
  with o(4) have "\<lparr>ob_EvidenceRecordID = 2, ob_ObservedAt = days 15, ob_Result = ''fail'', ob_Hash = []\<rparr> \<in> set obs"
    by simp
  then have "''fail'' \<in> ob_Result ` set obs" by (rule image_eqI [rotated]) simp
  with o(3) show ?thesis by (auto simp: demo_period_db_def)
qed


text \<open>
  Attaching a population reports success and logs the attachment also when it attaches
  nothing: if the tenant has no such population, or has one that already belongs to a period, the
  call succeeds, the log of the period gains a population-attached entry, and, the period being
  open, no population changes.
\<close>

theorem AttachPopulation_silent:
  assumes "tx_ok env" and "tenant_of env = Some t" and "actor \<noteq> []"
    and "GetAuditPeriodByID t i db = Some p" and "pd_Status p = StatusOpen"
    and "auditID \<notin> pg_ID ` set (db_period_log db)"
    and "\<forall>r \<in> set (db_populations db). pop_TenantID r = t \<and> pop_ID r = popID \<longrightarrow> pop_AuditPeriodID r \<noteq> None"
  shows "\<exists>en. AttachPopulation lib env dbnow auditID i popID actor db =
      (Inr (), db\<lparr>db_period_log := db_period_log db @ [en]\<rparr>)
    \<and> pg_Action en = PopulationAttached \<and> pg_PeriodID en = i
    \<and> pg_Detail en = [(''population_id'', LogString (pl_uuid_string lib popID))]"
proof -
  have "pd_ID p = i" using assms(4) by (auto simp: GetAuditPeriodByID_def dest: find_SomeD)
  moreover have "AttachPopulationToPeriod t popID i db = db"
    using assms(7) by (simp add: AttachPopulationToPeriod_def sql_update_none)
  ultimately show ?thesis
    using assms(3-6)
    by (intro exI [of _ "\<lparr>pg_ID = auditID, pg_TenantID = t, pg_PeriodID = i, pg_Action = PopulationAttached,
          pg_Actor = actor, pg_Detail = [(''population_id'', LogString (pl_uuid_string lib popID))],
          pg_OccurredAt = dbnow\<rparr>"])
      (simp add: AttachPopulation_def inTx_run assms(1,2) writeLog_def WriteAuditPeriodLog_def)
qed

theorem AttachPopulation_silent_witness:
  "fst (AttachPopulation demo_period_lib demo_env 9 91 60 80 ''alice'' (demo_period_db demo_period)) = Inr ()"
proof -
  have "GetAuditPeriodByID 1 60 (demo_period_db demo_period) = Some demo_period"
    by (simp add: GetAuditPeriodByID_def demo_period_db_def demo_period_def)
  then have "\<exists>en. AttachPopulation demo_period_lib demo_env 9 91 60 80 ''alice'' (demo_period_db demo_period) =
      (Inr (), (demo_period_db demo_period)\<lparr>db_period_log := db_period_log (demo_period_db demo_period) @ [en]\<rparr>)
    \<and> pg_Action en = PopulationAttached \<and> pg_PeriodID en = 60
    \<and> pg_Detail en = [(''population_id'', LogString (pl_uuid_string demo_period_lib 80))]"
    by (rule AttachPopulation_silent [OF demo_env_simps(2,1), rotated]) (simp_all add: demo_period_def demo_period_db_def)
  then show ?thesis by auto
qed

end
