(* ===== verification/Action_Plan.thy ===== *)
theory Action_Plan
  imports Audit_Period
begin

text \<open>
  \<open>internal/actionplan\<close>: the lifecycle and the validators of \<open>statemachine.go\<close>, the
  store of \<open>store.go\<close> with the queries of \<open>internal/db/queries/action_plans.sql\<close> and the
  constraints and the transition trigger of the action-plan migration; and
  \<open>internal/audit/period/snapshot.go\<close>, the frozen view of a period, which reads the plans
  through the store's lister.

  A length in Go counts bytes; \<open>length\<close> of a text column counts characters, which is
  \<open>char_length\<close>. \<open>AddDate\<close> is the calendar arithmetic of Go's \<open>time\<close> package in UTC,
  over days counted from 0001-01-01. The JSON snapshots in the audit table are kept as
  association lists.
\<close>

section \<open>Calendar years\<close>

definition leap_year :: "int \<Rightarrow> bool" where
  "leap_year y \<longleftrightarrow> y mod 4 = 0 \<and> (y mod 100 \<noteq> 0 \<or> y mod 400 = 0)"

text \<open>The number of days before January 1 of year \<open>y\<close>.\<close>

definition year_start :: "int \<Rightarrow> int" where
  "year_start y = 365 * (y - 1) + (y - 1) div 4 - (y - 1) div 100 + (y - 1) div 400"

definition year_of_day :: "int \<Rightarrow> int" where
  "year_of_day n =
     (let n400 = n div 146097; d = n mod 146097;
          n100 = min 3 (d div 36524); d1 = d - 36524 * n100;
          n4 = d1 div 1461; d2 = d1 - 1461 * n4;
          n1 = min 3 (d2 div 365)
      in 400 * n400 + 100 * n100 + 4 * n4 + n1 + 1)"

text \<open>
  \<open>t.AddDate(k, 0, 0)\<close>: the same month, day and time of day \<open>k\<close> years later. A day on
  or after March 1 shifts by one when exactly one of the two years is a leap year, and
  February 29 becomes March 1 in a year that has none.
\<close>

definition AddDate_years :: "int \<Rightarrow> gotime \<Rightarrow> gotime" where
  "AddDate_years k t =
     (let n = t div hours 24; y = year_of_day n; yd = n - year_start y; z = y + k;
          yd' = (if leap_year y \<and> \<not> leap_year z \<and> 60 \<le> yd then yd - 1
                 else if \<not> leap_year y \<and> leap_year z \<and> 59 \<le> yd then yd + 1 else yd)
      in (year_start z + yd') * hours 24 + t mod hours 24)"


section \<open>The state machine and the validators\<close>

definition StatusDraft :: string where "StatusDraft = ''draft''"
definition StatusInProgress :: string where "StatusInProgress = ''in_progress''"
definition StatusBlocked :: string where "StatusBlocked = ''blocked''"
definition StatusCompleted :: string where "StatusCompleted = ''completed''"
definition StatusVerified :: string where "StatusVerified = ''verified''"

datatype ap_action =
    ActionCreated | ActionUpdated | ActionStatusChanged | ActionRiskLinked | ActionRiskUnlinked
  | ActionControlLinked | ActionControlUnlinked | ActionTombstoned

datatype ap_error =
    ApErrNotFound | ErrIllegalTransition | ErrTitleRequired | ErrTitleTooLong | ErrDescriptionTooLong
  | ErrTriggeringEventTooLong | ErrOwnerRequired | ErrOwnerNotInTenant | ErrDueDateTooFar
  | ErrInvalidStatus | ErrLinkTargetNotFound | ErrAlreadyLinked | ErrNotLinked | ErrLimitExceeded
  | ApDatabase pg_error

definition MaxTitleLen :: nat where "MaxTitleLen = 200"
definition MaxDescriptionLen :: nat where "MaxDescriptionLen = 4000"
definition MaxTriggeringEventLen :: nat where "MaxTriggeringEventLen = 500"
definition MaxDueDateYears :: int where "MaxDueDateYears = 5"
definition MaxLinkedRisks :: int where "MaxLinkedRisks = 50"
definition MaxLinkedControls :: int where "MaxLinkedControls = 50"
definition DefaultPageLimit :: int where "DefaultPageLimit = 25"
definition MaxPageLimit :: int where "MaxPageLimit = 100"

definition ValidStatus :: "string \<Rightarrow> bool" where
  "ValidStatus s \<longleftrightarrow> s \<in> {StatusDraft, StatusInProgress, StatusBlocked, StatusCompleted, StatusVerified}"

definition AllowedTransition :: "string \<Rightarrow> string \<Rightarrow> bool" where
  "AllowedTransition src dst =
     (if \<not> ValidStatus src \<or> \<not> ValidStatus dst then False
      else if src = dst then True
      else if src = StatusDraft then dst = StatusInProgress
      else if src = StatusInProgress then dst = StatusBlocked \<or> dst = StatusCompleted
      else if src = StatusBlocked then dst = StatusInProgress \<or> dst = StatusCompleted
      else if src = StatusCompleted then dst = StatusVerified \<or> dst = StatusInProgress
      else False)"

definition ValidateTitle :: "string \<Rightarrow> ap_error option" where
  "ValidateTitle title =
     (if title = [] then Some ErrTitleRequired
      else if length title > MaxTitleLen then Some ErrTitleTooLong else None)"

definition ValidateDescription :: "string \<Rightarrow> ap_error option" where
  "ValidateDescription desc = (if length desc > MaxDescriptionLen then Some ErrDescriptionTooLong else None)"

definition ValidateTriggeringEvent :: "string \<Rightarrow> ap_error option" where
  "ValidateTriggeringEvent ev =
     (if length ev > MaxTriggeringEventLen then Some ErrTriggeringEventTooLong else None)"

definition ValidateDueDate :: "gotime \<Rightarrow> gotime option \<Rightarrow> gotime \<Rightarrow> ap_error option" where
  "ValidateDueDate wallnow due now =
     (case due of
        None \<Rightarrow> None
      | Some d \<Rightarrow>
        (let horizon = AddDate_years MaxDueDateYears (if now = 0 then wallnow else now)
         in if horizon < d then Some ErrDueDateTooFar else None))"

definition ClampLimit :: "int \<Rightarrow> int" where
  "ClampLimit limit =
     (if limit \<le> 0 then DefaultPageLimit else if limit > MaxPageLimit then MaxPageLimit else limit)"


section \<open>Tables\<close>

record plan_row =
  pr_ID :: uuid
  pr_TenantID :: uuid
  pr_Title :: string
  pr_Description :: "string option"
  pr_TriggeringEvent :: "string option"
  pr_OwnerID :: uuid
  pr_DueDate :: "gotime option"
  pr_Status :: string
  pr_AuditPeriodID :: "uuid option"
  pr_TombstonedAt :: "gotime option"
  pr_CreatedAt :: gotime
  pr_UpdatedAt :: gotime

record ActionPlan =
  ap_ID :: uuid
  ap_TenantID :: uuid
  ap_Title :: string
  ap_Description :: string
  ap_TriggeringEvent :: string
  ap_OwnerID :: uuid
  ap_DueDate :: "gotime option"
  ap_Status :: string
  ap_AuditPeriodID :: "uuid option"
  ap_TombstonedAt :: "gotime option"
  ap_CreatedAt :: gotime
  ap_UpdatedAt :: gotime

record link_row =
  lk_PlanID :: uuid
  lk_TargetID :: uuid
  lk_TenantID :: uuid
  lk_LinkedAt :: gotime
  lk_LinkedBy :: uuid

type_synonym ap_snapshot = "(string \<times> string) list"

record ap_AuditEntry =
  aa_ID :: uuid
  aa_TenantID :: uuid
  aa_ActionPlanID :: uuid
  aa_ActorID :: uuid
  aa_ActionType :: ap_action
  aa_BeforeState :: "ap_snapshot option"
  aa_AfterState :: "ap_snapshot option"
  aa_CreatedAt :: gotime

text \<open>Of users and risks the store probes the tenant and the id.\<close>

record plan_db = period_db +
  db_users :: "(uuid \<times> uuid) list"
  db_risks :: "(uuid \<times> uuid) list"
  db_plans :: "plan_row list"
  db_plan_risks :: "link_row list"
  db_plan_controls :: "link_row list"
  db_plan_audit :: "ap_AuditEntry list"

record plan_lib =
  al_uuid_string :: "uuid \<Rightarrow> string"
  al_date :: "gotime \<Rightarrow> string"
  al_rfc3339 :: "gotime \<Rightarrow> string"

text \<open>\<open>length\<close> of a text column: the bytes of a UTF-8 text that are not continuation bytes.\<close>

definition char_length :: "string \<Rightarrow> nat" where
  "char_length s = length (filter (\<lambda>c. \<not> (128 \<le> (of_char c :: nat) \<and> of_char c < (192 :: nat))) s)"

definition action_plans_check :: "plan_row \<Rightarrow> bool" where
  "action_plans_check r \<longleftrightarrow>
     0 < char_length (pr_Title r) \<and> char_length (pr_Title r) \<le> 200
     \<and> (case pr_Description r of None \<Rightarrow> True | Some d \<Rightarrow> char_length d \<le> 4000)
     \<and> (case pr_TriggeringEvent r of None \<Rightarrow> True | Some e \<Rightarrow> char_length e \<le> 500)
     \<and> pr_Status r \<in> {''draft'', ''in_progress'', ''blocked'', ''completed'', ''verified''}"

text \<open>The foreign keys name the id alone, not the tenant.\<close>

definition action_plans_fks :: "plan_row \<Rightarrow> 'z plan_db_scheme \<Rightarrow> bool" where
  "action_plans_fks r db \<longleftrightarrow>
     pr_OwnerID r \<in> snd ` set (db_users db)
     \<and> (case pr_AuditPeriodID r of None \<Rightarrow> True | Some a \<Rightarrow> a \<in> pd_ID ` set (db_periods db))"

definition action_plans_status_transition_guard :: "plan_row \<Rightarrow> plan_row \<Rightarrow> bool" where
  "action_plans_status_transition_guard old new \<longleftrightarrow>
     pr_Status new = pr_Status old
     \<or> (pr_Status old = ''draft'' \<and> pr_Status new = ''in_progress'')
     \<or> (pr_Status old = ''in_progress'' \<and> pr_Status new \<in> {''blocked'', ''completed''})
     \<or> (pr_Status old = ''blocked'' \<and> pr_Status new \<in> {''in_progress'', ''completed''})
     \<or> (pr_Status old = ''completed'' \<and> pr_Status new \<in> {''verified'', ''in_progress''})"

definition CreateActionPlan :: "plan_row \<Rightarrow> 'z plan_db_scheme \<Rightarrow> pg_error + plan_row \<times> 'z plan_db_scheme" where
  "CreateActionPlan row db =
     (if \<not> action_plans_check row then Inl CheckViolation
      else if pr_ID row \<in> pr_ID ` set (db_plans db) then Inl UniqueViolation
      else if \<not> action_plans_fks row db then Inl ForeignKeyViolation
      else Inr (row, db\<lparr>db_plans := db_plans db @ [row]\<rparr>))"

definition live_plan :: "uuid \<Rightarrow> uuid \<Rightarrow> plan_row \<Rightarrow> bool" where
  "live_plan t i r \<longleftrightarrow> pr_TenantID r = t \<and> pr_ID r = i \<and> pr_TombstonedAt r = None"

definition GetActionPlanByID :: "uuid \<Rightarrow> uuid \<Rightarrow> 'z plan_db_scheme \<Rightarrow> plan_row option" where
  "GetActionPlanByID t i db = List.find (live_plan t i) (db_plans db)"

text \<open>
  \<open>(created_at, id) < (cursor_created_at, cursor_id)\<close> is SQL row comparison: with a NULL
  id it is true only when the timestamps already differ.
\<close>

definition before_cursor :: "gotime option \<Rightarrow> uuid option \<Rightarrow> plan_row \<Rightarrow> bool" where
  "before_cursor cat cid r =
     (case cat of
        None \<Rightarrow> True
      | Some c \<Rightarrow> pr_CreatedAt r < pgTime c
                 \<or> (pr_CreatedAt r = pgTime c \<and> (case cid of None \<Rightarrow> False | Some i \<Rightarrow> pr_ID r < i)))"

definition newest_first :: "plan_row list \<Rightarrow> plan_row list" where
  "newest_first rows = rev (sort_key (\<lambda>r. (pr_CreatedAt r, pr_ID r)) rows)"

definition ListActionPlans ::
  "uuid \<Rightarrow> string option \<Rightarrow> gotime option \<Rightarrow> uuid option \<Rightarrow> int \<Rightarrow> 'z plan_db_scheme \<Rightarrow> plan_row list" where
  "ListActionPlans t status cat cid rowLimit db =
     take (nat rowLimit)
       (newest_first
         (filter (\<lambda>r. pr_TenantID r = t \<and> pr_TombstonedAt r = None
                      \<and> (case status of None \<Rightarrow> True | Some s \<Rightarrow> pr_Status r = s)
                      \<and> before_cursor cat cid r) (db_plans db)))"

definition ListActionPlansSnapshot :: "uuid \<Rightarrow> gotime \<Rightarrow> 'z plan_db_scheme \<Rightarrow> plan_row list" where
  "ListActionPlansSnapshot t horizon db =
     newest_first (filter (\<lambda>r. pr_TenantID r = t \<and> pr_TombstonedAt r = None \<and> pr_CreatedAt r \<le> pgTime horizon)
       (db_plans db))"

definition UpdateActionPlan ::
  "gotime \<Rightarrow> uuid \<Rightarrow> uuid \<Rightarrow> string \<Rightarrow> string option \<Rightarrow> string option \<Rightarrow> uuid \<Rightarrow> gotime option \<Rightarrow> string \<Rightarrow>
   uuid option \<Rightarrow> 'z plan_db_scheme \<Rightarrow> pg_error + plan_row \<times> 'z plan_db_scheme" where
  "UpdateActionPlan dbnow t i title desc event owner due status period db =
     (let f = (\<lambda>r. r\<lparr>pr_Title := title, pr_Description := desc, pr_TriggeringEvent := event, pr_OwnerID := owner,
                     pr_DueDate := due, pr_Status := status, pr_AuditPeriodID := period, pr_UpdatedAt := pgTime dbnow\<rparr>)
      in (case List.find (live_plan t i) (db_plans db) of
            None \<Rightarrow> Inl NoRows
          | Some r \<Rightarrow>
              if \<not> action_plans_status_transition_guard r (f r) then Inl CheckViolation
              else if \<not> action_plans_check (f r) then Inl CheckViolation
              else if \<not> action_plans_fks (f r) db then Inl ForeignKeyViolation
              else Inr (f r, db\<lparr>db_plans := sql_update (live_plan t i) f (db_plans db)\<rparr>)))"

definition TombstoneActionPlan ::
  "gotime \<Rightarrow> uuid \<Rightarrow> uuid \<Rightarrow> 'z plan_db_scheme \<Rightarrow> pg_error + plan_row \<times> 'z plan_db_scheme" where
  "TombstoneActionPlan dbnow t i db =
     (case sql_update_one (live_plan t i)
             (\<lambda>r. r\<lparr>pr_TombstonedAt := Some (pgTime dbnow), pr_UpdatedAt := pgTime dbnow\<rparr>) (db_plans db) of
        None \<Rightarrow> Inl NoRows
      | Some (row, rows) \<Rightarrow> Inr (row, db\<lparr>db_plans := rows\<rparr>))"

text \<open>
  The two link tables have the same queries. A link is inserted under the primary key
  (plan, target) and the foreign keys (tenant, plan) and (tenant, target).
\<close>

definition plan_exists :: "uuid \<Rightarrow> uuid \<Rightarrow> 'z plan_db_scheme \<Rightarrow> bool" where
  "plan_exists t i db \<longleftrightarrow> (\<exists>r \<in> set (db_plans db). pr_TenantID r = t \<and> pr_ID r = i)"

definition link_insert ::
  "bool \<Rightarrow> bool \<Rightarrow> link_row \<Rightarrow> link_row list \<Rightarrow> pg_error + link_row list" where
  "link_insert planOK targetOK row links =
     (if (lk_PlanID row, lk_TargetID row) \<in> (\<lambda>l. (lk_PlanID l, lk_TargetID l)) ` set links then Inl UniqueViolation
      else if \<not> planOK \<or> \<not> targetOK then Inl ForeignKeyViolation
      else Inr (links @ [row]))"

definition in_plan :: "uuid \<Rightarrow> uuid \<Rightarrow> link_row \<Rightarrow> bool" where
  "in_plan t i l \<longleftrightarrow> lk_TenantID l = t \<and> lk_PlanID l = i"

definition ActionPlanRiskExistsInTenant :: "uuid \<Rightarrow> uuid \<Rightarrow> 'z plan_db_scheme \<Rightarrow> bool" where
  "ActionPlanRiskExistsInTenant t risk db \<longleftrightarrow> (t, risk) \<in> set (db_risks db)"

definition ActionPlanControlExistsInTenant :: "uuid \<Rightarrow> uuid \<Rightarrow> 'z plan_db_scheme \<Rightarrow> bool" where
  "ActionPlanControlExistsInTenant t control db \<longleftrightarrow>
     (\<exists>c \<in> set (db_controls db). ctl_TenantID c = t \<and> ctl_ID c = control)"

definition ActionPlanOwnerExistsInTenant :: "uuid \<Rightarrow> uuid \<Rightarrow> 'z plan_db_scheme \<Rightarrow> bool" where
  "ActionPlanOwnerExistsInTenant t owner db \<longleftrightarrow> (t, owner) \<in> set (db_users db)"

definition LinkActionPlanRisk :: "link_row \<Rightarrow> 'z plan_db_scheme \<Rightarrow> pg_error + 'z plan_db_scheme" where
  "LinkActionPlanRisk row db =
     (case link_insert (plan_exists (lk_TenantID row) (lk_PlanID row) db)
             (ActionPlanRiskExistsInTenant (lk_TenantID row) (lk_TargetID row) db) row (db_plan_risks db) of
        Inl e \<Rightarrow> Inl e | Inr links \<Rightarrow> Inr (db\<lparr>db_plan_risks := links\<rparr>))"

definition LinkActionPlanControl :: "link_row \<Rightarrow> 'z plan_db_scheme \<Rightarrow> pg_error + 'z plan_db_scheme" where
  "LinkActionPlanControl row db =
     (case link_insert (plan_exists (lk_TenantID row) (lk_PlanID row) db)
             (ActionPlanControlExistsInTenant (lk_TenantID row) (lk_TargetID row) db) row (db_plan_controls db) of
        Inl e \<Rightarrow> Inl e | Inr links \<Rightarrow> Inr (db\<lparr>db_plan_controls := links\<rparr>))"

definition unlink_rows :: "uuid \<Rightarrow> uuid \<Rightarrow> uuid \<Rightarrow> link_row list \<Rightarrow> nat \<times> link_row list" where
  "unlink_rows t i target links =
     (let hit = (\<lambda>l. in_plan t i l \<and> lk_TargetID l = target)
      in (length (filter hit links), filter (\<lambda>l. \<not> hit l) links))"

definition UnlinkActionPlanRisk :: "uuid \<Rightarrow> uuid \<Rightarrow> uuid \<Rightarrow> 'z plan_db_scheme \<Rightarrow> nat \<times> 'z plan_db_scheme" where
  "UnlinkActionPlanRisk t i risk db =
     (case unlink_rows t i risk (db_plan_risks db) of (n, links) \<Rightarrow> (n, db\<lparr>db_plan_risks := links\<rparr>))"

definition UnlinkActionPlanControl :: "uuid \<Rightarrow> uuid \<Rightarrow> uuid \<Rightarrow> 'z plan_db_scheme \<Rightarrow> nat \<times> 'z plan_db_scheme" where
  "UnlinkActionPlanControl t i control db =
     (case unlink_rows t i control (db_plan_controls db) of (n, links) \<Rightarrow> (n, db\<lparr>db_plan_controls := links\<rparr>))"

definition CountActionPlanRisks :: "uuid \<Rightarrow> uuid \<Rightarrow> 'z plan_db_scheme \<Rightarrow> int" where
  "CountActionPlanRisks t i db = int (length (filter (in_plan t i) (db_plan_risks db)))"

definition CountActionPlanControls :: "uuid \<Rightarrow> uuid \<Rightarrow> 'z plan_db_scheme \<Rightarrow> int" where
  "CountActionPlanControls t i db = int (length (filter (in_plan t i) (db_plan_controls db)))"

definition ActionPlanRiskExists :: "uuid \<Rightarrow> uuid \<Rightarrow> uuid \<Rightarrow> 'z plan_db_scheme \<Rightarrow> bool" where
  "ActionPlanRiskExists t i risk db \<longleftrightarrow> (\<exists>l \<in> set (db_plan_risks db). in_plan t i l \<and> lk_TargetID l = risk)"

definition ActionPlanControlExists :: "uuid \<Rightarrow> uuid \<Rightarrow> uuid \<Rightarrow> 'z plan_db_scheme \<Rightarrow> bool" where
  "ActionPlanControlExists t i control db \<longleftrightarrow>
     (\<exists>l \<in> set (db_plan_controls db). in_plan t i l \<and> lk_TargetID l = control)"

definition ListActionPlanRisks :: "uuid \<Rightarrow> uuid \<Rightarrow> 'z plan_db_scheme \<Rightarrow> link_row list" where
  "ListActionPlanRisks t i db = sort_key lk_LinkedAt (filter (in_plan t i) (db_plan_risks db))"

definition ListActionPlanControls :: "uuid \<Rightarrow> uuid \<Rightarrow> 'z plan_db_scheme \<Rightarrow> link_row list" where
  "ListActionPlanControls t i db = sort_key lk_LinkedAt (filter (in_plan t i) (db_plan_controls db))"

text \<open>The join of a link table with the live plans, newest plan first.\<close>

definition plans_of_links :: "uuid \<Rightarrow> uuid \<Rightarrow> link_row list \<Rightarrow> plan_row list \<Rightarrow> plan_row list" where
  "plans_of_links t target links plans =
     sort_key (\<lambda>r. - pr_CreatedAt r)
       (concat (map (\<lambda>l. filter (\<lambda>r. pr_ID r = lk_PlanID l \<and> pr_TenantID r = lk_TenantID l \<and> pr_TombstonedAt r = None) plans)
         (filter (\<lambda>l. lk_TenantID l = t \<and> lk_TargetID l = target) links)))"

definition ListActionPlanIDsForRisk :: "uuid \<Rightarrow> uuid \<Rightarrow> 'z plan_db_scheme \<Rightarrow> plan_row list" where
  "ListActionPlanIDsForRisk t risk db = plans_of_links t risk (db_plan_risks db) (db_plans db)"

definition ListActionPlanIDsForControl :: "uuid \<Rightarrow> uuid \<Rightarrow> 'z plan_db_scheme \<Rightarrow> plan_row list" where
  "ListActionPlanIDsForControl t control db = plans_of_links t control (db_plan_controls db) (db_plans db)"

definition WriteActionPlanAuditLog :: "ap_AuditEntry \<Rightarrow> 'z plan_db_scheme \<Rightarrow> pg_error + 'z plan_db_scheme" where
  "WriteActionPlanAuditLog row db =
     (if aa_ID row \<in> aa_ID ` set (db_plan_audit db) then Inl UniqueViolation
      else Inr (db\<lparr>db_plan_audit := db_plan_audit db @ [row]\<rparr>))"

definition ListActionPlanAuditLog :: "uuid \<Rightarrow> uuid \<Rightarrow> 'z plan_db_scheme \<Rightarrow> ap_AuditEntry list" where
  "ListActionPlanAuditLog t i db =
     sort_key (\<lambda>r. (aa_CreatedAt r, aa_ID r))
       (filter (\<lambda>r. aa_TenantID r = t \<and> aa_ActionPlanID r = i) (db_plan_audit db))"



section \<open>Store operations\<close>

definition strPtr :: "string \<Rightarrow> string option" where
  "strPtr s = (if s = [] then None else Some s)"

definition ap_pgDate :: "gotime option \<Rightarrow> gotime option" where
  "ap_pgDate due = map_option date_of due"

definition planFromRow :: "plan_row \<Rightarrow> ActionPlan" where
  "planFromRow r =
     \<lparr>ap_ID = pr_ID r, ap_TenantID = pr_TenantID r, ap_Title = pr_Title r,
      ap_Description = (case pr_Description r of None \<Rightarrow> [] | Some d \<Rightarrow> d),
      ap_TriggeringEvent = (case pr_TriggeringEvent r of None \<Rightarrow> [] | Some e \<Rightarrow> e),
      ap_OwnerID = pr_OwnerID r, ap_DueDate = pr_DueDate r, ap_Status = pr_Status r,
      ap_AuditPeriodID = pr_AuditPeriodID r, ap_TombstonedAt = pr_TombstonedAt r,
      ap_CreatedAt = pr_CreatedAt r, ap_UpdatedAt = pr_UpdatedAt r\<rparr>"

definition planSnapshot :: "plan_lib \<Rightarrow> ActionPlan \<Rightarrow> ap_snapshot" where
  "planSnapshot lib p =
     [(''title'', ap_Title p), (''description'', ap_Description p),
      (''triggering_event'', ap_TriggeringEvent p), (''owner_id'', al_uuid_string lib (ap_OwnerID p)),
      (''status'', ap_Status p)] @
     (case ap_DueDate p of None \<Rightarrow> [] | Some d \<Rightarrow> [(''due_date'', al_date lib d)]) @
     (case ap_TombstonedAt p of None \<Rightarrow> [] | Some d \<Rightarrow> [(''tombstoned_at'', al_rfc3339 lib d)])"

definition writeAudit ::
  "uuid \<Rightarrow> gotime \<Rightarrow> uuid \<Rightarrow> uuid \<Rightarrow> uuid \<Rightarrow> ap_action \<Rightarrow> ap_snapshot option \<Rightarrow> ap_snapshot option \<Rightarrow>
   'z plan_db_scheme \<Rightarrow> ap_error + 'z plan_db_scheme" where
  "writeAudit auditID dbnow t planID actor action before after db =
     (case WriteActionPlanAuditLog
             \<lparr>aa_ID = auditID, aa_TenantID = t, aa_ActionPlanID = planID, aa_ActorID = actor,
              aa_ActionType = action, aa_BeforeState = before, aa_AfterState = after,
              aa_CreatedAt = pgTime dbnow\<rparr> db of
        Inl e \<Rightarrow> Inl (ApDatabase e) | Inr db' \<Rightarrow> Inr db')"

record ap_CreateInput =
  ai_Title :: string
  ai_Description :: string
  ai_TriggeringEvent :: string
  ai_OwnerID :: uuid
  ai_DueDate :: "gotime option"
  ai_AuditPeriodID :: "uuid option"
  ai_Actor :: uuid
  ai_Now :: gotime

text \<open>The first validation error, in the order of the calls.\<close>

fun first_error :: "ap_error option list \<Rightarrow> ap_error option" where
  "first_error [] = None"
| "first_error (None # es) = first_error es"
| "first_error (Some e # es) = Some e"

definition plan_Create ::
  "plan_lib \<Rightarrow> txenv \<Rightarrow> gotime \<Rightarrow> gotime \<Rightarrow> uuid \<Rightarrow> uuid \<Rightarrow> ap_CreateInput \<Rightarrow> 'z plan_db_scheme \<Rightarrow>
   (ap_error err + ActionPlan) \<times> 'z plan_db_scheme" where
  "plan_Create lib env wallnow dbnow newID auditID inp db =
     (case first_error
             [ValidateTitle (ai_Title inp), ValidateDescription (ai_Description inp),
              ValidateTriggeringEvent (ai_TriggeringEvent inp),
              if ai_OwnerID inp = 0 then Some ErrOwnerRequired else None,
              ValidateDueDate wallnow (ai_DueDate inp) (if ai_Now inp = 0 then wallnow else ai_Now inp)] of
        Some e \<Rightarrow> (Inl (Dom e), db)
      | None \<Rightarrow>
        inTx env (\<lambda>t db0.
          if \<not> ActionPlanOwnerExistsInTenant t (ai_OwnerID inp) db0 then Inl ErrOwnerNotInTenant
          else
            (case CreateActionPlan
                    \<lparr>pr_ID = newID, pr_TenantID = t, pr_Title = ai_Title inp,
                     pr_Description = strPtr (ai_Description inp),
                     pr_TriggeringEvent = strPtr (ai_TriggeringEvent inp), pr_OwnerID = ai_OwnerID inp,
                     pr_DueDate = ap_pgDate (ai_DueDate inp), pr_Status = StatusDraft,
                     pr_AuditPeriodID = ai_AuditPeriodID inp, pr_TombstonedAt = None,
                     pr_CreatedAt = pgTime dbnow, pr_UpdatedAt = pgTime dbnow\<rparr> db0 of
               Inl e \<Rightarrow> Inl (ApDatabase e)
             | Inr (row, db1) \<Rightarrow>
               (case writeAudit auditID dbnow t newID (ai_Actor inp) ActionCreated None
                       (Some (planSnapshot lib (planFromRow row))) db1 of
                  Inl e \<Rightarrow> Inl e | Inr db2 \<Rightarrow> Inr (planFromRow row, db2)))) db)"

definition plan_Get ::
  "txenv \<Rightarrow> uuid \<Rightarrow> 'z plan_db_scheme \<Rightarrow> (ap_error err + ActionPlan) \<times> 'z plan_db_scheme" where
  "plan_Get env i db =
     inTx env (\<lambda>t db0.
       (case GetActionPlanByID t i db0 of None \<Rightarrow> Inl ApErrNotFound | Some row \<Rightarrow> Inr (planFromRow row, db0))) db"

text \<open>A \<open>Link\<close> is a link row without its keys; the model returns the row.\<close>

definition loadLinkage :: "uuid \<Rightarrow> uuid \<Rightarrow> 'z plan_db_scheme \<Rightarrow> link_row list \<times> link_row list" where
  "loadLinkage t i db = (ListActionPlanRisks t i db, ListActionPlanControls t i db)"

definition plan_GetWithLinkage ::
  "txenv \<Rightarrow> uuid \<Rightarrow> 'z plan_db_scheme \<Rightarrow>
   (ap_error err + ActionPlan \<times> link_row list \<times> link_row list) \<times> 'z plan_db_scheme" where
  "plan_GetWithLinkage env i db =
     inTx env (\<lambda>t db0.
       (case GetActionPlanByID t i db0 of
          None \<Rightarrow> Inl ApErrNotFound | Some row \<Rightarrow> Inr ((planFromRow row, loadLinkage t i db0), db0))) db"

record ap_ListFilter =
  lf_Status :: string
  lf_Limit :: int
  lf_CursorCreatedAt :: "gotime option"
  lf_CursorID :: "uuid option"

definition plan_List ::
  "txenv \<Rightarrow> ap_ListFilter \<Rightarrow> 'z plan_db_scheme \<Rightarrow> (ap_error err + ActionPlan list) \<times> 'z plan_db_scheme" where
  "plan_List env filt db =
     (let limit = ClampLimit (lf_Limit filt) in
      inTx env (\<lambda>t db0.
        Inr (map planFromRow
               (ListActionPlans t (strPtr (lf_Status filt)) (lf_CursorCreatedAt filt) (lf_CursorID filt) limit db0), db0)) db)"

definition ListSnapshot ::
  "txenv \<Rightarrow> gotime \<Rightarrow> 'z plan_db_scheme \<Rightarrow> (ap_error err + ActionPlan list) \<times> 'z plan_db_scheme" where
  "ListSnapshot env frozenAt db =
     inTx env (\<lambda>t db0. Inr (map planFromRow (ListActionPlansSnapshot t frozenAt db0), db0)) db"

record ActionPlanRef =
  rf_ID :: uuid
  rf_Title :: string
  rf_Status :: string
  rf_OwnerID :: uuid
  rf_DueDate :: "gotime option"
  rf_AuditPeriodID :: "uuid option"
  rf_CreatedAt :: gotime

definition PeriodSnapshotLister ::
  "txenv \<Rightarrow> gotime \<Rightarrow> 'z plan_db_scheme \<Rightarrow> (ap_error err + ActionPlanRef list) \<times> 'z plan_db_scheme" where
  "PeriodSnapshotLister env horizon db =
     (case ListSnapshot env horizon db of
        (Inl e, db') \<Rightarrow> (Inl e, db')
      | (Inr plans, db') \<Rightarrow>
          (Inr (map (\<lambda>p. \<lparr>rf_ID = ap_ID p, rf_Title = ap_Title p, rf_Status = ap_Status p,
                          rf_OwnerID = ap_OwnerID p, rf_DueDate = ap_DueDate p,
                          rf_AuditPeriodID = ap_AuditPeriodID p, rf_CreatedAt = ap_CreatedAt p\<rparr>) plans), db'))"

record FrozenView =
  vw_PeriodID :: uuid
  vw_Horizon :: gotime
  vw_Frozen :: bool
  vw_ActionPlans :: "ActionPlanRef list"

datatype snapshot_error = SnapshotPeriod period_error | SnapshotPlans "ap_error err"

text \<open>
  \<open>Snapshot\<close> of \<open>internal/audit/period\<close>: the horizon in one transaction, the plans
  through the lister, here the one of the action-plan store, in another.
\<close>

definition Snapshot ::
  "txenv \<Rightarrow> txenv \<Rightarrow> gotime \<Rightarrow> uuid \<Rightarrow> 'z plan_db_scheme \<Rightarrow>
   (snapshot_error err + FrozenView) \<times> 'z plan_db_scheme" where
  "Snapshot env lenv wallnow periodID db =
     (case inTx env (\<lambda>t db0.
             (case GetAuditPeriodByID t periodID db0 of
                None \<Rightarrow> Inl (SnapshotPeriod PdErrNotFound)
              | Some p \<Rightarrow>
                Inr (case (pd_Status p, pd_FrozenAt p) of
                       (StatusFrozen, Some f) \<Rightarrow> (f, True) | _ \<Rightarrow> (wallnow, False), db0))) db of
        (Inl e, db') \<Rightarrow> (Inl e, db')
      | (Inr (horizon, frozen), db') \<Rightarrow>
        (case PeriodSnapshotLister lenv horizon db' of
           (Inl e, db'') \<Rightarrow> (Inl (Dom (SnapshotPlans e)), db'')
         | (Inr refs, db'') \<Rightarrow>
             (Inr \<lparr>vw_PeriodID = periodID, vw_Horizon = horizon, vw_Frozen = frozen, vw_ActionPlans = refs\<rparr>, db'')))"

record ap_UpdateInput =
  ui_Title :: "string option"
  ui_Description :: "string option"
  ui_TriggeringEvent :: "string option"
  ui_OwnerID :: "uuid option"
  ui_DueDate :: "gotime option"
  ui_ClearDueDate :: bool
  ui_Status :: "string option"
  ui_Actor :: uuid
  ui_Now :: gotime

definition opt_check :: "('a \<Rightarrow> ap_error option) \<Rightarrow> 'a option \<Rightarrow> ap_error option" where
  "opt_check f x = (case x of None \<Rightarrow> None | Some a \<Rightarrow> f a)"

definition or_keep :: "'a option \<Rightarrow> 'a \<Rightarrow> 'a" where
  "or_keep x old = (case x of None \<Rightarrow> old | Some a \<Rightarrow> a)"

text \<open>
  The fields of the row that \<open>Update\<close> writes: the given ones over the current plan, after
  the owner, the due date and the transition have been checked in this order. The flag says
  whether the status changes.
\<close>

definition next_plan ::
  "gotime \<Rightarrow> uuid \<Rightarrow> ap_UpdateInput \<Rightarrow> ActionPlan \<Rightarrow> 'z plan_db_scheme \<Rightarrow> ap_error + ActionPlan \<times> bool" where
  "next_plan wallnow t inp cur db =
     (let next = cur\<lparr>ap_Title := or_keep (ui_Title inp) (ap_Title cur),
                     ap_Description := or_keep (ui_Description inp) (ap_Description cur),
                     ap_TriggeringEvent := or_keep (ui_TriggeringEvent inp) (ap_TriggeringEvent cur),
                     ap_OwnerID := or_keep (ui_OwnerID inp) (ap_OwnerID cur),
                     ap_DueDate := (if ui_ClearDueDate inp then None
                                    else case ui_DueDate inp of None \<Rightarrow> ap_DueDate cur | Some d \<Rightarrow> Some d)\<rparr>
      in (case first_error
                 [opt_check (\<lambda>w. if ActionPlanOwnerExistsInTenant t w db then None else Some ErrOwnerNotInTenant) (ui_OwnerID inp),
                  if ui_ClearDueDate inp then None
                  else ValidateDueDate wallnow (ui_DueDate inp) (if ui_Now inp = 0 then wallnow else ui_Now inp)] of
            Some e \<Rightarrow> Inl e
          | None \<Rightarrow>
            (case ui_Status inp of
               None \<Rightarrow> Inr (next, False)
             | Some st \<Rightarrow>
                 if st = ap_Status cur then Inr (next, False)
                 else if \<not> AllowedTransition (ap_Status cur) st then Inl ErrIllegalTransition
                 else Inr (next\<lparr>ap_Status := st\<rparr>, True))))"

definition plan_Update ::
  "plan_lib \<Rightarrow> txenv \<Rightarrow> gotime \<Rightarrow> gotime \<Rightarrow> uuid \<Rightarrow> uuid \<Rightarrow> ap_UpdateInput \<Rightarrow> 'z plan_db_scheme \<Rightarrow>
   (ap_error err + ActionPlan) \<times> 'z plan_db_scheme" where
  "plan_Update lib env wallnow dbnow auditID i inp db =
     (case first_error
             [opt_check ValidateTitle (ui_Title inp), opt_check ValidateDescription (ui_Description inp),
              opt_check ValidateTriggeringEvent (ui_TriggeringEvent inp),
              opt_check (\<lambda>s. if ValidStatus s then None else Some ErrInvalidStatus) (ui_Status inp)] of
        Some e \<Rightarrow> (Inl (Dom e), db)
      | None \<Rightarrow>
        inTx env (\<lambda>t db0.
          (case GetActionPlanByID t i db0 of
             None \<Rightarrow> Inl ApErrNotFound
           | Some before \<Rightarrow>
             (let cur = planFromRow before in
              (case next_plan wallnow t inp cur db0 of
                 Inl e \<Rightarrow> Inl e
               | Inr (next, statusChanged) \<Rightarrow>
                 (case UpdateActionPlan dbnow t i (ap_Title next) (strPtr (ap_Description next))
                         (strPtr (ap_TriggeringEvent next)) (ap_OwnerID next) (ap_pgDate (ap_DueDate next))
                         (ap_Status next) (ap_AuditPeriodID next) db0 of
                    Inl e \<Rightarrow>
                      (if e = NoRows then Inl ApErrNotFound
                       else if e = CheckViolation then Inl ErrIllegalTransition
                       else Inl (ApDatabase e))
                  | Inr (row, db1) \<Rightarrow>
                    (let out = planFromRow row in
                     (case writeAudit auditID dbnow t i (ui_Actor inp)
                             (if statusChanged then ActionStatusChanged else ActionUpdated)
                             (Some (planSnapshot lib cur)) (Some (planSnapshot lib out)) db1 of
                        Inl e \<Rightarrow> Inl e | Inr db2 \<Rightarrow> Inr (out, db2)))))))) db)"

definition plan_Tombstone ::
  "plan_lib \<Rightarrow> txenv \<Rightarrow> gotime \<Rightarrow> uuid \<Rightarrow> uuid \<Rightarrow> uuid \<Rightarrow> 'z plan_db_scheme \<Rightarrow>
   (ap_error err + unit) \<times> 'z plan_db_scheme" where
  "plan_Tombstone lib env dbnow auditID i actor db =
     inTx env (\<lambda>t db0.
       (case GetActionPlanByID t i db0 of
          None \<Rightarrow> Inl ApErrNotFound
        | Some before \<Rightarrow>
          (case TombstoneActionPlan dbnow t i db0 of
             Inl e \<Rightarrow> (if e = NoRows then Inl ApErrNotFound else Inl (ApDatabase e))
           | Inr (row, db1) \<Rightarrow>
             (case writeAudit auditID dbnow t i actor ActionTombstoned
                     (Some (planSnapshot lib (planFromRow before))) (Some (planSnapshot lib (planFromRow row))) db1 of
                Inl e \<Rightarrow> Inl e | Inr db2 \<Rightarrow> Inr ((), db2))))) db"


section \<open>Links\<close>

text \<open>What differs between risk and control links.\<close>

record 'd linkSpec =
  ls_action :: ap_action
  ls_maxCap :: int
  ls_targetExists :: "uuid \<Rightarrow> 'd \<Rightarrow> bool"
  ls_count :: "uuid \<Rightarrow> 'd \<Rightarrow> int"
  ls_linkExists :: "uuid \<Rightarrow> 'd \<Rightarrow> bool"
  ls_insert :: "uuid \<Rightarrow> 'd \<Rightarrow> pg_error + 'd"

text \<open>
  The four probes of \<open>link\<close> and then its two writes. They run in one transaction at the
  default isolation level, in which another transaction may commit between them; they are
  kept apart so that such interleavings can be stated.
\<close>

definition link_probe ::
  "'z plan_db_scheme linkSpec \<Rightarrow> uuid \<Rightarrow> uuid \<Rightarrow> 'z plan_db_scheme \<Rightarrow> ap_error option" where
  "link_probe spec t planID db =
     (if GetActionPlanByID t planID db = None then Some ApErrNotFound
      else if \<not> ls_targetExists spec t db then Some ErrLinkTargetNotFound
      else if ls_linkExists spec t db then Some ErrAlreadyLinked
      else if ls_count spec t db \<ge> ls_maxCap spec then Some ErrLimitExceeded
      else None)"

definition link_write ::
  "plan_lib \<Rightarrow> 'z plan_db_scheme linkSpec \<Rightarrow> gotime \<Rightarrow> uuid \<Rightarrow> uuid \<Rightarrow> uuid \<Rightarrow> uuid \<Rightarrow> uuid \<Rightarrow> 'z plan_db_scheme \<Rightarrow>
   ap_error + 'z plan_db_scheme" where
  "link_write lib spec dbnow auditID t planID targetID actor db =
     (case ls_insert spec t db of
        Inl e \<Rightarrow>
          (if e = UniqueViolation then Inl ErrAlreadyLinked
           else if e = ForeignKeyViolation then Inl ErrLinkTargetNotFound
           else Inl (ApDatabase e))
      | Inr db1 \<Rightarrow>
          writeAudit auditID dbnow t planID actor (ls_action spec) None
            (Some [(''target_id'', al_uuid_string lib targetID)]) db1)"

definition plan_link ::
  "plan_lib \<Rightarrow> txenv \<Rightarrow> 'z plan_db_scheme linkSpec \<Rightarrow> gotime \<Rightarrow> uuid \<Rightarrow> uuid \<Rightarrow> uuid \<Rightarrow> uuid \<Rightarrow> 'z plan_db_scheme \<Rightarrow>
   (ap_error err + unit) \<times> 'z plan_db_scheme" where
  "plan_link lib env spec dbnow auditID planID targetID actor db =
     inTx env (\<lambda>t db0.
       (case link_probe spec t planID db0 of
          Some e \<Rightarrow> Inl e
        | None \<Rightarrow>
          (case link_write lib spec dbnow auditID t planID targetID actor db0 of
             Inl e \<Rightarrow> Inl e | Inr db1 \<Rightarrow> Inr ((), db1)))) db"

definition plan_unlink ::
  "plan_lib \<Rightarrow> txenv \<Rightarrow> gotime \<Rightarrow> uuid \<Rightarrow> uuid \<Rightarrow> uuid \<Rightarrow> ap_action \<Rightarrow> uuid \<Rightarrow>
   (uuid \<Rightarrow> 'z plan_db_scheme \<Rightarrow> nat \<times> 'z plan_db_scheme) \<Rightarrow> 'z plan_db_scheme \<Rightarrow>
   (ap_error err + unit) \<times> 'z plan_db_scheme" where
  "plan_unlink lib env dbnow auditID planID actor action targetID del db =
     inTx env (\<lambda>t db0.
       (if GetActionPlanByID t planID db0 = None then Inl ApErrNotFound
        else
          (case del t db0 of (n, db1) \<Rightarrow>
             if n = 0 then Inl ErrNotLinked
             else (case writeAudit auditID dbnow t planID actor action
                          (Some [(''target_id'', al_uuid_string lib targetID)]) None db1 of
                     Inl e \<Rightarrow> Inl e | Inr db2 \<Rightarrow> Inr ((), db2))))) db"

definition risk_spec :: "gotime \<Rightarrow> uuid \<Rightarrow> uuid \<Rightarrow> uuid \<Rightarrow> 'z plan_db_scheme linkSpec" where
  "risk_spec dbnow planID riskID actor =
     \<lparr>ls_action = ActionRiskLinked, ls_maxCap = MaxLinkedRisks,
      ls_targetExists = (\<lambda>t. ActionPlanRiskExistsInTenant t riskID),
      ls_count = (\<lambda>t. CountActionPlanRisks t planID),
      ls_linkExists = (\<lambda>t. ActionPlanRiskExists t planID riskID),
      ls_insert = (\<lambda>t. LinkActionPlanRisk
        \<lparr>lk_PlanID = planID, lk_TargetID = riskID, lk_TenantID = t, lk_LinkedAt = pgTime dbnow, lk_LinkedBy = actor\<rparr>)\<rparr>"

definition control_spec :: "gotime \<Rightarrow> uuid \<Rightarrow> uuid \<Rightarrow> uuid \<Rightarrow> 'z plan_db_scheme linkSpec" where
  "control_spec dbnow planID controlID actor =
     \<lparr>ls_action = ActionControlLinked, ls_maxCap = MaxLinkedControls,
      ls_targetExists = (\<lambda>t. ActionPlanControlExistsInTenant t controlID),
      ls_count = (\<lambda>t. CountActionPlanControls t planID),
      ls_linkExists = (\<lambda>t. ActionPlanControlExists t planID controlID),
      ls_insert = (\<lambda>t. LinkActionPlanControl
        \<lparr>lk_PlanID = planID, lk_TargetID = controlID, lk_TenantID = t, lk_LinkedAt = pgTime dbnow, lk_LinkedBy = actor\<rparr>)\<rparr>"

definition LinkRisk ::
  "plan_lib \<Rightarrow> txenv \<Rightarrow> gotime \<Rightarrow> uuid \<Rightarrow> uuid \<Rightarrow> uuid \<Rightarrow> uuid \<Rightarrow> 'z plan_db_scheme \<Rightarrow>
   (ap_error err + unit) \<times> 'z plan_db_scheme" where
  "LinkRisk lib env dbnow auditID planID riskID actor =
     plan_link lib env (risk_spec dbnow planID riskID actor) dbnow auditID planID riskID actor"

definition LinkControl ::
  "plan_lib \<Rightarrow> txenv \<Rightarrow> gotime \<Rightarrow> uuid \<Rightarrow> uuid \<Rightarrow> uuid \<Rightarrow> uuid \<Rightarrow> 'z plan_db_scheme \<Rightarrow>
   (ap_error err + unit) \<times> 'z plan_db_scheme" where
  "LinkControl lib env dbnow auditID planID controlID actor =
     plan_link lib env (control_spec dbnow planID controlID actor) dbnow auditID planID controlID actor"

definition UnlinkRisk ::
  "plan_lib \<Rightarrow> txenv \<Rightarrow> gotime \<Rightarrow> uuid \<Rightarrow> uuid \<Rightarrow> uuid \<Rightarrow> uuid \<Rightarrow> 'z plan_db_scheme \<Rightarrow>
   (ap_error err + unit) \<times> 'z plan_db_scheme" where
  "UnlinkRisk lib env dbnow auditID planID riskID actor =
     plan_unlink lib env dbnow auditID planID actor ActionRiskUnlinked riskID
       (\<lambda>t. UnlinkActionPlanRisk t planID riskID)"

definition UnlinkControl ::
  "plan_lib \<Rightarrow> txenv \<Rightarrow> gotime \<Rightarrow> uuid \<Rightarrow> uuid \<Rightarrow> uuid \<Rightarrow> uuid \<Rightarrow> 'z plan_db_scheme \<Rightarrow>
   (ap_error err + unit) \<times> 'z plan_db_scheme" where
  "UnlinkControl lib env dbnow auditID planID controlID actor =
     plan_unlink lib env dbnow auditID planID actor ActionControlUnlinked controlID
       (\<lambda>t. UnlinkActionPlanControl t planID controlID)"

record PlanRef =
  pf_ID :: uuid
  pf_Title :: string
  pf_Status :: string
  pf_DueDate :: "gotime option"

definition planRef :: "plan_row \<Rightarrow> PlanRef" where
  "planRef r = \<lparr>pf_ID = pr_ID r, pf_Title = pr_Title r, pf_Status = pr_Status r, pf_DueDate = pr_DueDate r\<rparr>"

definition PlansForRisk ::
  "txenv \<Rightarrow> uuid \<Rightarrow> 'z plan_db_scheme \<Rightarrow> (ap_error err + PlanRef list) \<times> 'z plan_db_scheme" where
  "PlansForRisk env riskID db = inTx env (\<lambda>t db0. Inr (map planRef (ListActionPlanIDsForRisk t riskID db0), db0)) db"

definition PlansForControl ::
  "txenv \<Rightarrow> uuid \<Rightarrow> 'z plan_db_scheme \<Rightarrow> (ap_error err + PlanRef list) \<times> 'z plan_db_scheme" where
  "PlansForControl env controlID db =
     inTx env (\<lambda>t db0. Inr (map planRef (ListActionPlanIDsForControl t controlID db0), db0)) db"

definition plan_ListAuditLog ::
  "txenv \<Rightarrow> uuid \<Rightarrow> 'z plan_db_scheme \<Rightarrow> (ap_error err + ap_AuditEntry list) \<times> 'z plan_db_scheme" where
  "plan_ListAuditLog env i db = inTx env (\<lambda>t db0. Inr (ListActionPlanAuditLog t i db0, db0)) db"

end
