(* ===== verification/Action_Plan_Run.thy ===== *)
theory Action_Plan_Run
  imports Action_Plan
begin

text \<open>
  What holds of the action-plan store over whole runs: the well-formedness of its tables, the
  plan lifecycle with its audit trail (an interpretation of the shared lifecycle contract),
  keyset pagination, the frozen view of a period, and the interleaving of two link requests.
\<close>

inductive ap_step :: "plan_lib \<Rightarrow> 'z plan_db_scheme \<Rightarrow> 'z plan_db_scheme \<Rightarrow> bool" for lib where
  create: "plan_Create lib env wallnow dbnow newID auditID inp db = (res, db') \<Longrightarrow> ap_step lib db db'"
| update: "plan_Update lib env wallnow dbnow auditID i upd db = (res, db') \<Longrightarrow> ap_step lib db db'"
| tombstone: "plan_Tombstone lib env dbnow auditID i actor db = (res2, db') \<Longrightarrow> ap_step lib db db'"
| link_risk: "LinkRisk lib env dbnow auditID i target actor db = (res2, db') \<Longrightarrow> ap_step lib db db'"
| link_control: "LinkControl lib env dbnow auditID i target actor db = (res2, db') \<Longrightarrow> ap_step lib db db'"
| unlink_risk: "UnlinkRisk lib env dbnow auditID i target actor db = (res2, db') \<Longrightarrow> ap_step lib db db'"
| unlink_control: "UnlinkControl lib env dbnow auditID i target actor db = (res2, db') \<Longrightarrow> ap_step lib db db'"

definition plan_edge :: "string \<Rightarrow> string \<Rightarrow> bool" where
  "plan_edge a b \<longleftrightarrow> a \<noteq> b \<and> AllowedTransition a b"

definition plan_status_of :: "'z plan_db_scheme \<Rightarrow> uuid \<times> uuid \<Rightarrow> string option" where
  "plan_status_of db k =
     map_option pr_Status (List.find (\<lambda>r. pr_TenantID r = fst k \<and> pr_ID r = snd k) (db_plans db))"

definition entry_status :: "ap_AuditEntry \<Rightarrow> string option" where
  "entry_status a =
     (if aa_ActionType a = ActionCreated \<or> aa_ActionType a = ActionStatusChanged
      then (case aa_AfterState a of None \<Rightarrow> None | Some s \<Rightarrow> map_of s ''status'') else None)"

definition plan_trail_of :: "'z plan_db_scheme \<Rightarrow> uuid \<times> uuid \<Rightarrow> string list" where
  "plan_trail_of db k =
     List.map_filter (\<lambda>a. if aa_TenantID a = fst k \<and> aa_ActionPlanID a = snd k then entry_status a else None)
       (db_plan_audit db)"

definition links_ok :: "(uuid \<times> uuid) set \<Rightarrow> (uuid \<Rightarrow> uuid \<Rightarrow> bool) \<Rightarrow> int \<Rightarrow> link_row list \<Rightarrow> bool" where
  "links_ok plans target maxCap links \<longleftrightarrow>
     distinct (map (\<lambda>l. (lk_PlanID l, lk_TargetID l)) links)
     \<and> (\<forall>l \<in> set links. (lk_TenantID l, lk_PlanID l) \<in> plans \<and> target (lk_TenantID l) (lk_TargetID l))
     \<and> (\<forall>t i. int (length (filter (in_plan t i) links)) \<le> maxCap)"

definition ap_row_inv :: "(uuid \<times> uuid) list \<Rightarrow> plan_row \<Rightarrow> bool" where
  "ap_row_inv users r \<longleftrightarrow>
     action_plans_check r \<and> pgTime (pr_CreatedAt r) = pr_CreatedAt r \<and> (pr_TenantID r, pr_OwnerID r) \<in> set users"

definition plan_keys :: "'z plan_db_scheme \<Rightarrow> (uuid \<times> uuid) set" where
  "plan_keys db = (\<lambda>r. (pr_TenantID r, pr_ID r)) ` set (db_plans db)"

definition ap_inv :: "'z plan_db_scheme \<Rightarrow> bool" where
  "ap_inv db \<longleftrightarrow>
     distinct (map pr_ID (db_plans db)) \<and> (\<forall>r \<in> set (db_plans db). ap_row_inv (db_users db) r)
     \<and> links_ok (plan_keys db) (\<lambda>t x. ActionPlanRiskExistsInTenant t x db) MaxLinkedRisks (db_plan_risks db)
     \<and> links_ok (plan_keys db) (\<lambda>t x. ActionPlanControlExistsInTenant t x db) MaxLinkedControls (db_plan_controls db)"


section \<open>The state machine\<close>

lemma status_distinct [simp]:
  "StatusDraft \<noteq> StatusInProgress" "StatusDraft \<noteq> StatusBlocked" "StatusDraft \<noteq> StatusCompleted"
  "StatusDraft \<noteq> StatusVerified" "StatusInProgress \<noteq> StatusBlocked" "StatusInProgress \<noteq> StatusCompleted"
  "StatusInProgress \<noteq> StatusVerified" "StatusBlocked \<noteq> StatusCompleted" "StatusBlocked \<noteq> StatusVerified"
  "StatusCompleted \<noteq> StatusVerified"
  by (simp_all add: StatusDraft_def StatusInProgress_def StatusBlocked_def StatusCompleted_def StatusVerified_def)

lemmas status_distinct_sym [simp] = status_distinct [THEN not_sym]

lemma plan_edge_not_draft: "\<not> plan_edge s StatusDraft"
  by (auto simp: plan_edge_def AllowedTransition_def split: if_splits)

lemma plan_edge_verified: "\<not> plan_edge StatusVerified s"
  by (simp add: plan_edge_def AllowedTransition_def)

text \<open>The store's table of transitions is the one of the database trigger.\<close>

lemma transition_guard_iff:
  assumes "ValidStatus (pr_Status old)" and "ValidStatus (pr_Status new)"
  shows "action_plans_status_transition_guard old new \<longleftrightarrow> AllowedTransition (pr_Status old) (pr_Status new)"
  using assms unfolding action_plans_status_transition_guard_def AllowedTransition_def ValidStatus_def
    StatusDraft_def StatusInProgress_def StatusBlocked_def StatusCompleted_def StatusVerified_def
  by auto

lemma check_ValidStatus: "action_plans_check r \<Longrightarrow> ValidStatus (pr_Status r)"
  by (simp add: action_plans_check_def ValidStatus_def StatusDraft_def StatusInProgress_def StatusBlocked_def
      StatusCompleted_def StatusVerified_def)


section \<open>What the operations do\<close>

lemma writeAudit_InrD:
  "writeAudit auditID dbnow t i actor action before after db = Inr db' \<Longrightarrow>
     db' = db\<lparr>db_plan_audit := db_plan_audit db @
        [\<lparr>aa_ID = auditID, aa_TenantID = t, aa_ActionPlanID = i, aa_ActorID = actor, aa_ActionType = action,
          aa_BeforeState = before, aa_AfterState = after, aa_CreatedAt = pgTime dbnow\<rparr>]\<rparr>"
  by (auto simp: writeAudit_def WriteActionPlanAuditLog_def split: sum.splits if_splits)

lemma snapshot_status [simp]: "map_of (planSnapshot lib p) ''status'' = Some (ap_Status p)"
  by (simp add: planSnapshot_def)

lemma planFromRow_status [simp]: "ap_Status (planFromRow r) = pr_Status r"
  by (simp add: planFromRow_def)

lemma plan_Create_cases:
  assumes "plan_Create lib env wallnow dbnow newID auditID inp db = (res, db')"
  obtains (fail) e where "res = Inl e" "db' = db"
  | (commit) t row en where "tenant_of env = Some t" "res = Inr (planFromRow row)"
      "pr_ID row = newID" "pr_TenantID row = t" "pr_Status row = StatusDraft" "ap_row_inv (db_users db) row"
      "newID \<notin> pr_ID ` set (db_plans db)" "pr_AuditPeriodID row = ai_AuditPeriodID inp"
      "aa_TenantID en = t" "aa_ActionPlanID en = newID" "entry_status en = Some StatusDraft"
      "db' = db\<lparr>db_plans := db_plans db @ [row], db_plan_audit := db_plan_audit db @ [en]\<rparr>"
proof (cases res)
  case (Inl e)
  with assms have "db' = db"
    by (auto simp: plan_Create_def dest: inTx_rollback split: option.splits)
  with Inl fail show ?thesis by blast
next
  case (Inr p)
  let ?row = "\<lambda>t. \<lparr>pr_ID = newID, pr_TenantID = t, pr_Title = ai_Title inp,
                     pr_Description = strPtr (ai_Description inp),
                     pr_TriggeringEvent = strPtr (ai_TriggeringEvent inp), pr_OwnerID = ai_OwnerID inp,
                     pr_DueDate = ap_pgDate (ai_DueDate inp), pr_Status = StatusDraft,
                     pr_AuditPeriodID = ai_AuditPeriodID inp, pr_TombstonedAt = None,
                     pr_CreatedAt = pgTime dbnow, pr_UpdatedAt = pgTime dbnow\<rparr>"
  obtain t where t: "tenant_of env = Some t" and own: "ActionPlanOwnerExistsInTenant t (ai_OwnerID inp) db"
    and body: "(case CreateActionPlan (?row t) db of Inl e \<Rightarrow> Inl (ApDatabase e)
       | Inr (row, db1) \<Rightarrow>
         (case writeAudit auditID dbnow t newID (ai_Actor inp) ActionCreated None
                 (Some (planSnapshot lib (planFromRow row))) db1 of
            Inl e \<Rightarrow> Inl e | Inr db2 \<Rightarrow> Inr (planFromRow row, db2))) = Inr (p, db')"
    using assms unfolding Inr plan_Create_def by (auto simp: inTx_Inr_iff split: option.splits if_splits)
  then obtain row db1 where cr: "CreateActionPlan (?row t) db = Inr (row, db1)" and p: "p = planFromRow row"
    and au: "writeAudit auditID dbnow t newID (ai_Actor inp) ActionCreated None (Some (planSnapshot lib (planFromRow row))) db1 = Inr db'"
    by (auto split: sum.splits prod.splits)
  from cr have row: "row = ?row t" "action_plans_check row" "newID \<notin> pr_ID ` set (db_plans db)"
    "db1 = db\<lparr>db_plans := db_plans db @ [row]\<rparr>"
    by (auto simp: CreateActionPlan_def split: if_splits)
  have "ap_row_inv (db_users db) row"
    using row(2) own by (simp add: ap_row_inv_def ActionPlanOwnerExistsInTenant_def row(1) pgTime_def)
  with t p row WriteActionPlanAuditLog_def writeAudit_InrD [OF au] Inr show ?thesis
    by (intro commit) (auto simp: entry_status_def)
qed

text \<open>The assignment an update makes to the row it finds.\<close>

abbreviation set_plan :: "gotime \<Rightarrow> ActionPlan \<Rightarrow> plan_row \<Rightarrow> plan_row" where
  "set_plan dbnow nxt r \<equiv>
     r\<lparr>pr_Title := ap_Title nxt, pr_Description := strPtr (ap_Description nxt),
       pr_TriggeringEvent := strPtr (ap_TriggeringEvent nxt), pr_OwnerID := ap_OwnerID nxt,
       pr_DueDate := ap_pgDate (ap_DueDate nxt), pr_Status := ap_Status nxt,
       pr_AuditPeriodID := ap_AuditPeriodID nxt, pr_UpdatedAt := pgTime dbnow\<rparr>"

lemma first_error_None: "first_error es = None \<longleftrightarrow> (\<forall>e \<in> set es. e = None)"
  by (induction es rule: first_error.induct) auto

lemma next_plan_InrD:
  assumes "next_plan wallnow t inp cur db = Inr (nxt, changed)"
  shows "ap_AuditPeriodID nxt = ap_AuditPeriodID cur"
    and "ap_OwnerID nxt = ap_OwnerID cur \<or> ActionPlanOwnerExistsInTenant t (ap_OwnerID nxt) db"
    and "changed \<longleftrightarrow> ap_Status nxt \<noteq> ap_Status cur"
    and "changed \<Longrightarrow> plan_edge (ap_Status cur) (ap_Status nxt)"
proof -
  define n where "n = cur\<lparr>ap_Title := or_keep (ui_Title inp) (ap_Title cur),
      ap_Description := or_keep (ui_Description inp) (ap_Description cur),
      ap_TriggeringEvent := or_keep (ui_TriggeringEvent inp) (ap_TriggeringEvent cur),
      ap_OwnerID := or_keep (ui_OwnerID inp) (ap_OwnerID cur),
      ap_DueDate := (if ui_ClearDueDate inp then None
                     else case ui_DueDate inp of None \<Rightarrow> ap_DueDate cur | Some d \<Rightarrow> Some d)\<rparr>"
  let ?es = "[opt_check (\<lambda>w. if ActionPlanOwnerExistsInTenant t w db then None else Some ErrOwnerNotInTenant) (ui_OwnerID inp),
      if ui_ClearDueDate inp then None
      else ValidateDueDate wallnow (ui_DueDate inp) (if ui_Now inp = 0 then wallnow else ui_Now inp)]"
  have es: "first_error ?es = None"
    using assms by (cases "first_error ?es") (simp_all only: next_plan_def Let_def option.case sum.distinct simp_thms)
  then have own: "opt_check (\<lambda>w. if ActionPlanOwnerExistsInTenant t w db then None else Some ErrOwnerNotInTenant)
      (ui_OwnerID inp) = None"
    by (simp only: first_error_None list.set) blast
  from assms have "(case ui_Status inp of None \<Rightarrow> Inr (n, False)
       | Some st \<Rightarrow> if st = ap_Status cur then Inr (n, False)
           else if \<not> AllowedTransition (ap_Status cur) st then Inl ErrIllegalTransition
           else Inr (n\<lparr>ap_Status := st\<rparr>, True)) = Inr (nxt, changed)"
    by (simp only: next_plan_def Let_def es option.case n_def)
  then have nxt: "(nxt = n \<and> \<not> changed)
      \<or> (changed \<and> (\<exists>st. nxt = n\<lparr>ap_Status := st\<rparr> \<and> st \<noteq> ap_Status cur \<and> AllowedTransition (ap_Status cur) st))"
    by (cases "ui_Status inp") (auto split: if_splits)
  have n: "ap_Status n = ap_Status cur" "ap_AuditPeriodID n = ap_AuditPeriodID cur"
    "ap_OwnerID n = or_keep (ui_OwnerID inp) (ap_OwnerID cur)" by (simp_all add: n_def)
  have "or_keep (ui_OwnerID inp) (ap_OwnerID cur) = ap_OwnerID cur
      \<or> ActionPlanOwnerExistsInTenant t (or_keep (ui_OwnerID inp) (ap_OwnerID cur)) db"
    using own by (simp add: opt_check_def or_keep_def split: option.splits if_splits)
  with n nxt show "ap_OwnerID nxt = ap_OwnerID cur \<or> ActionPlanOwnerExistsInTenant t (ap_OwnerID nxt) db"
    by auto
  from n nxt show "ap_AuditPeriodID nxt = ap_AuditPeriodID cur" by auto
  from n nxt show "changed \<longleftrightarrow> ap_Status nxt \<noteq> ap_Status cur" by auto
  from n nxt show "changed \<Longrightarrow> plan_edge (ap_Status cur) (ap_Status nxt)" by (auto simp: plan_edge_def)
qed

lemma plan_Update_cases:
  assumes "plan_Update lib env wallnow dbnow auditID i inp db = (res, db')"
  obtains (fail) e where "res = Inl e" "db' = db"
  | (commit) t r nxt changed en where "tenant_of env = Some t" "GetActionPlanByID t i db = Some r"
      "next_plan wallnow t inp (planFromRow r) db = Inr (nxt, changed)" "res = Inr (planFromRow (set_plan dbnow nxt r))"
      "action_plans_check (set_plan dbnow nxt r)"
      "aa_TenantID en = t" "aa_ActionPlanID en = i"
      "entry_status en = (if changed then Some (ap_Status nxt) else None)"
      "db' = db\<lparr>db_plans := sql_update (live_plan t i) (set_plan dbnow nxt) (db_plans db),
                db_plan_audit := db_plan_audit db @ [en]\<rparr>"
proof (cases res)
  case (Inl e)
  with assms have "db' = db"
    by (auto simp: plan_Update_def dest: inTx_rollback split: option.splits)
  with Inl fail show ?thesis by blast
next
  case (Inr p)
  let ?up = "\<lambda>t nxt. UpdateActionPlan dbnow t i (ap_Title nxt) (strPtr (ap_Description nxt))
       (strPtr (ap_TriggeringEvent nxt)) (ap_OwnerID nxt) (ap_pgDate (ap_DueDate nxt))
       (ap_Status nxt) (ap_AuditPeriodID nxt) db"
  let ?au = "\<lambda>t r changed row db1. writeAudit auditID dbnow t i (ui_Actor inp)
       (if changed then ActionStatusChanged else ActionUpdated)
       (Some (planSnapshot lib (planFromRow r))) (Some (planSnapshot lib (planFromRow row))) db1"
  from assms obtain t where t: "tenant_of env = Some t"
    and body: "(case GetActionPlanByID t i db of None \<Rightarrow> Inl ApErrNotFound
      | Some r \<Rightarrow> (case next_plan wallnow t inp (planFromRow r) db of Inl e \<Rightarrow> Inl e
       | Inr (nxt, changed) \<Rightarrow>
         (case ?up t nxt of
            Inl e \<Rightarrow> (if e = NoRows then Inl ApErrNotFound else if e = CheckViolation then Inl ErrIllegalTransition
                      else Inl (ApDatabase e))
          | Inr (row, db1) \<Rightarrow>
            (case ?au t r changed row db1 of Inl e \<Rightarrow> Inl e | Inr db2 \<Rightarrow> Inr (planFromRow row, db2))))) = Inr (p, db')"
    unfolding Inr plan_Update_def Let_def by (cases "tenant_of env") (simp_all add: inTx_Inr_iff split: option.splits)
  then obtain r nxt changed row db1 where r: "GetActionPlanByID t i db = Some r"
    and nx: "next_plan wallnow t inp (planFromRow r) db = Inr (nxt, changed)"
    and up: "?up t nxt = Inr (row, db1)" and au: "?au t r changed row db1 = Inr db'" and p: "p = planFromRow row"
    by (auto split: option.splits sum.splits prod.splits if_splits)
  from up r have row: "row = set_plan dbnow nxt r" "action_plans_check row"
    "db1 = db\<lparr>db_plans := sql_update (live_plan t i) (set_plan dbnow nxt) (db_plans db)\<rparr>"
    by (auto simp: UpdateActionPlan_def GetActionPlanByID_def Let_def split: if_splits)
  let ?en = "\<lparr>aa_ID = auditID, aa_TenantID = t, aa_ActionPlanID = i, aa_ActorID = ui_Actor inp,
      aa_ActionType = (if changed then ActionStatusChanged else ActionUpdated),
      aa_BeforeState = Some (planSnapshot lib (planFromRow r)), aa_AfterState = Some (planSnapshot lib (planFromRow row)),
      aa_CreatedAt = pgTime dbnow\<rparr>"
  have en: "entry_status ?en = (if changed then Some (ap_Status nxt) else None)"
    by (simp add: entry_status_def row(1))
  show ?thesis
    by (rule commit [OF t r nx _ row(2) [unfolded row(1)] _ _ en])
      (use p Inr row writeAudit_InrD [OF au] in simp_all)
qed

lemma inTx_InrE:
  assumes "inTx env fn s = (Inr a, s')"
  obtains t where "tenant_of env = Some t" "fn t s = Inr (a, s')"
  using assms by (auto simp: inTx_Inr_iff)

lemma plan_Tombstone_cases:
  assumes "plan_Tombstone lib env dbnow auditID i actor db = (res, db')"
  obtains (fail) e where "res = Inl e" "db' = db"
  | (commit) t r en where "tenant_of env = Some t" "GetActionPlanByID t i db = Some r"
      "aa_TenantID en = t" "aa_ActionPlanID en = i" "entry_status en = None"
      "db' = db\<lparr>db_plans := sql_update (live_plan t i)
                   (\<lambda>r. r\<lparr>pr_TombstonedAt := Some (pgTime dbnow), pr_UpdatedAt := pgTime dbnow\<rparr>) (db_plans db),
                db_plan_audit := db_plan_audit db @ [en]\<rparr>"
proof (cases res)
  case (Inl e)
  with assms have "db' = db" by (auto simp: plan_Tombstone_def dest: inTx_rollback)
  with Inl fail show ?thesis by blast
next
  case (Inr u)
  from assms obtain t r row db1 where t: "tenant_of env = Some t" and r: "GetActionPlanByID t i db = Some r"
    and tomb: "TombstoneActionPlan dbnow t i db = Inr (row, db1)"
    and au: "writeAudit auditID dbnow t i actor ActionTombstoned
      (Some (planSnapshot lib (planFromRow r))) (Some (planSnapshot lib (planFromRow row))) db1 = Inr db'"
    unfolding Inr plan_Tombstone_def
    by (elim inTx_InrE) (auto split: option.split_asm sum.split_asm prod.split_asm if_split_asm)
  from tomb have "db1 = db\<lparr>db_plans := sql_update (live_plan t i)
       (\<lambda>r. r\<lparr>pr_TombstonedAt := Some (pgTime dbnow), pr_UpdatedAt := pgTime dbnow\<rparr>) (db_plans db)\<rparr>"
    by (auto simp: TombstoneActionPlan_def sql_simps split: option.splits)
  with writeAudit_InrD [OF au] show ?thesis
    by (intro commit [OF t r]) (auto simp: entry_status_def)
qed

lemma plan_link_cases:
  assumes "plan_link lib env spec dbnow auditID i target actor db = (res, db')"
    and "ls_action spec \<noteq> ActionCreated" and "ls_action spec \<noteq> ActionStatusChanged"
  obtains (fail) e where "res = Inl e" "db' = db"
  | (commit) t db1 en where "tenant_of env = Some t" "link_probe spec t i db = None" "ls_insert spec t db = Inr db1"
      "aa_TenantID en = t" "aa_ActionPlanID en = i" "entry_status en = None"
      "db' = db1\<lparr>db_plan_audit := db_plan_audit db1 @ [en]\<rparr>"
proof (cases res)
  case (Inl e)
  with assms have "db' = db" by (auto simp: plan_link_def dest: inTx_rollback)
  with Inl fail show ?thesis by blast
next
  case (Inr u)
  from assms obtain t db1 where t: "tenant_of env = Some t" and pr: "link_probe spec t i db = None"
    and ins: "ls_insert spec t db = Inr db1"
    and au: "writeAudit auditID dbnow t i actor (ls_action spec) None
      (Some [(''target_id'', al_uuid_string lib target)]) db1 = Inr db'"
    unfolding Inr plan_link_def link_write_def
    by (elim inTx_InrE) (auto split: option.split_asm sum.split_asm if_split_asm)
  from writeAudit_InrD [OF au] assms(2,3) show ?thesis
    by (intro commit [OF t pr ins]) (auto simp: entry_status_def)
qed

lemma plan_unlink_cases:
  assumes "plan_unlink lib env dbnow auditID i actor action target del db = (res, db')"
    and "action \<noteq> ActionCreated" and "action \<noteq> ActionStatusChanged"
  obtains (fail) e where "res = Inl e" "db' = db"
  | (commit) t n db1 en where "tenant_of env = Some t" "GetActionPlanByID t i db \<noteq> None" "del t db = (n, db1)" "n \<noteq> 0"
      "aa_TenantID en = t" "aa_ActionPlanID en = i" "entry_status en = None"
      "db' = db1\<lparr>db_plan_audit := db_plan_audit db1 @ [en]\<rparr>"
proof (cases res)
  case (Inl e)
  with assms have "db' = db" by (auto simp: plan_unlink_def dest: inTx_rollback)
  with Inl fail show ?thesis by blast
next
  case (Inr u)
  from assms obtain t n db1 where t: "tenant_of env = Some t" "GetActionPlanByID t i db \<noteq> None"
    and del: "del t db = (n, db1)" "n \<noteq> 0"
    and au: "writeAudit auditID dbnow t i actor action
      (Some [(''target_id'', al_uuid_string lib target)]) None db1 = Inr db'"
    unfolding Inr plan_unlink_def
    by (elim inTx_InrE) (auto split: sum.split_asm prod.split_asm if_split_asm)
  from writeAudit_InrD [OF au] assms(2,3) show ?thesis
    by (intro commit [OF t del]) (auto simp: entry_status_def)
qed

lemma links_ok_insert:
  assumes "links_ok plans target maxCap links" and "link_insert planOK targetOK row links = Inr links'"
    and "planOK \<Longrightarrow> (lk_TenantID row, lk_PlanID row) \<in> plans"
    and "targetOK \<Longrightarrow> target (lk_TenantID row) (lk_TargetID row)"
    and "int (length (filter (in_plan (lk_TenantID row) (lk_PlanID row)) links)) < maxCap"
  shows "links_ok plans target maxCap links'"
  using assms by (auto simp: links_ok_def link_insert_def in_plan_def split: if_splits)

lemma links_ok_filter:
  assumes "links_ok plans target maxCap links"
  shows "links_ok plans target maxCap (filter P links)"
proof -
  have "length (filter (in_plan t i) (filter P links)) \<le> length (filter (in_plan t i) links)" for t i
    by (induction links) auto
  then have "int (length (filter (in_plan t i) (filter P links))) \<le> maxCap" for t i
    using assms unfolding links_ok_def by (meson of_nat_mono order_trans)
  with assms show ?thesis by (auto simp: links_ok_def distinct_map_filter)
qed


section \<open>Every operation keeps the invariant\<close>

text \<open>
  A transaction of the store that changes anything inserts one plan, edits the one plan it
  names, or changes the links of one plan; each writes one audit row.
\<close>

lemma ap_step_effect:
  assumes "ap_step lib db db'" and "ap_inv db"
  obtains (none) "db' = db"
  | (created) row en where "pr_Status row = StatusDraft" "ap_row_inv (db_users db) row"
      "pr_ID row \<notin> pr_ID ` set (db_plans db)"
      "aa_TenantID en = pr_TenantID row" "aa_ActionPlanID en = pr_ID row" "entry_status en = Some StatusDraft"
      "db' = db\<lparr>db_plans := db_plans db @ [row], db_plan_audit := db_plan_audit db @ [en]\<rparr>"
  | (edited) t i f r en where "GetActionPlanByID t i db = Some r"
      "\<And>x. (pr_TenantID (f x), pr_ID (f x)) = (pr_TenantID x, pr_ID x)" "ap_row_inv (db_users db) (f r)"
      "pr_Status (f r) \<noteq> pr_Status r \<Longrightarrow> plan_edge (pr_Status r) (pr_Status (f r))"
      "aa_TenantID en = t" "aa_ActionPlanID en = i"
      "entry_status en = (if pr_Status (f r) = pr_Status r then None else Some (pr_Status (f r)))"
      "db' = db\<lparr>db_plans := sql_update (live_plan t i) f (db_plans db), db_plan_audit := db_plan_audit db @ [en]\<rparr>"
  | (linked) rs cs en where "entry_status en = None"
      "links_ok (plan_keys db) (\<lambda>t x. ActionPlanRiskExistsInTenant t x db) MaxLinkedRisks rs"
      "links_ok (plan_keys db) (\<lambda>t x. ActionPlanControlExistsInTenant t x db) MaxLinkedControls cs"
      "db' = db\<lparr>db_plan_risks := rs, db_plan_controls := cs, db_plan_audit := db_plan_audit db @ [en]\<rparr>"
proof -
  have row_inv: "r \<in> set (db_plans db) \<and> pr_TenantID r = t \<and> ap_row_inv (db_users db) r"
    if "GetActionPlanByID t i db = Some r" for t i r
    using that \<open>ap_inv db\<close> by (auto simp: GetActionPlanByID_def ap_inv_def live_plan_def dest!: find_SomeD)
  have ok: "links_ok (plan_keys db) (\<lambda>t x. ActionPlanRiskExistsInTenant t x db) MaxLinkedRisks (db_plan_risks db)"
    "links_ok (plan_keys db) (\<lambda>t x. ActionPlanControlExistsInTenant t x db) MaxLinkedControls (db_plan_controls db)"
    using \<open>ap_inv db\<close> by (simp_all add: ap_inv_def)
  have key: "plan_exists t i db \<Longrightarrow> (t, i) \<in> plan_keys db" for t i
    by (force simp: plan_exists_def plan_keys_def)
  from assms(1) show thesis
  proof cases
    case (create env wallnow dbnow newID auditID inp res)
    from create show thesis
    proof (cases rule: plan_Create_cases)
      case (commit t row en)
      then show thesis by (intro created [of row en]) simp_all
    qed (rule none)
  next
    case (update env wallnow dbnow auditID i upd res)
    from update show thesis
    proof (cases rule: plan_Update_cases)
      case (commit t r nxt changed en)
      note nx = next_plan_InrD [OF commit(3)]
      have "ap_row_inv (db_users db) (set_plan dbnow nxt r)"
        using row_inv [OF commit(2)] commit(5) nx(2)
        by (auto simp: ap_row_inv_def planFromRow_def ActionPlanOwnerExistsInTenant_def)
      with commit nx(3,4) show thesis
        by (intro edited [of t i r "set_plan dbnow nxt" en]) simp_all
    qed (rule none)
  next
    case (tombstone env dbnow auditID i actor res2)
    from tombstone show thesis
    proof (cases rule: plan_Tombstone_cases)
      case (commit t r en)
      have "ap_row_inv (db_users db) (r\<lparr>pr_TombstonedAt := Some (pgTime dbnow), pr_UpdatedAt := pgTime dbnow\<rparr>)"
        using row_inv [OF commit(2)] by (auto simp: ap_row_inv_def action_plans_check_def)
      with commit show thesis
        by (intro edited [of t i r "\<lambda>r. r\<lparr>pr_TombstonedAt := Some (pgTime dbnow), pr_UpdatedAt := pgTime dbnow\<rparr>" en]) simp_all
    qed (rule none)
  next
    case (link_risk env dbnow auditID i target actor res2)
    then have run: "plan_link lib env (risk_spec dbnow i target actor) dbnow auditID i target actor db = (res2, db')"
      by (simp add: LinkRisk_def)
    have "ls_action (risk_spec dbnow i target actor) \<noteq> ActionCreated"
      "ls_action (risk_spec dbnow i target actor) \<noteq> ActionStatusChanged" by (simp_all add: risk_spec_def)
    with run show thesis
    proof (cases rule: plan_link_cases)
      case (commit t db1 en)
      then obtain rs where rs: "db1 = db\<lparr>db_plan_risks := rs\<rparr>"
        "link_insert (plan_exists t i db) (ActionPlanRiskExistsInTenant t target db)
          \<lparr>lk_PlanID = i, lk_TargetID = target, lk_TenantID = t, lk_LinkedAt = pgTime dbnow, lk_LinkedBy = actor\<rparr>
          (db_plan_risks db) = Inr rs"
        by (auto simp: risk_spec_def LinkActionPlanRisk_def split: sum.splits)
      from commit(2) have "CountActionPlanRisks t i db < MaxLinkedRisks"
        by (auto simp: link_probe_def risk_spec_def split: if_splits)
      then have "links_ok (plan_keys db) (\<lambda>t x. ActionPlanRiskExistsInTenant t x db) MaxLinkedRisks rs"
        by (intro links_ok_insert [OF ok(1) rs(2)]) (simp_all add: key CountActionPlanRisks_def)
      with ok commit rs show thesis by (intro linked [of en rs "db_plan_controls db"]) simp_all
    qed (rule none)
  next
    case (link_control env dbnow auditID i target actor res2)
    then have run: "plan_link lib env (control_spec dbnow i target actor) dbnow auditID i target actor db = (res2, db')"
      by (simp add: LinkControl_def)
    have "ls_action (control_spec dbnow i target actor) \<noteq> ActionCreated"
      "ls_action (control_spec dbnow i target actor) \<noteq> ActionStatusChanged" by (simp_all add: control_spec_def)
    with run show thesis
    proof (cases rule: plan_link_cases)
      case (commit t db1 en)
      then obtain cs where cs: "db1 = db\<lparr>db_plan_controls := cs\<rparr>"
        "link_insert (plan_exists t i db) (ActionPlanControlExistsInTenant t target db)
          \<lparr>lk_PlanID = i, lk_TargetID = target, lk_TenantID = t, lk_LinkedAt = pgTime dbnow, lk_LinkedBy = actor\<rparr>
          (db_plan_controls db) = Inr cs"
        by (auto simp: control_spec_def LinkActionPlanControl_def split: sum.splits)
      from commit(2) have "CountActionPlanControls t i db < MaxLinkedControls"
        by (auto simp: link_probe_def control_spec_def split: if_splits)
      then have "links_ok (plan_keys db) (\<lambda>t x. ActionPlanControlExistsInTenant t x db) MaxLinkedControls cs"
        by (intro links_ok_insert [OF ok(2) cs(2)]) (simp_all add: key CountActionPlanControls_def)
      with ok commit cs show thesis by (intro linked [of en "db_plan_risks db" cs]) simp_all
    qed (rule none)
  next
    case (unlink_risk env dbnow auditID i target actor res2)
    then have "plan_unlink lib env dbnow auditID i actor ActionRiskUnlinked target
        (\<lambda>t. UnlinkActionPlanRisk t i target) db = (res2, db')"
      "ActionRiskUnlinked \<noteq> ActionCreated" "ActionRiskUnlinked \<noteq> ActionStatusChanged" by (simp_all add: UnlinkRisk_def)
    then show thesis
    proof (cases rule: plan_unlink_cases)
      case (commit t n db1 en)
      with ok show thesis
        by (intro linked [of en "snd (unlink_rows t i target (db_plan_risks db))" "db_plan_controls db"])
          (auto simp: UnlinkActionPlanRisk_def unlink_rows_def Let_def links_ok_filter)
    qed (rule none)
  next
    case (unlink_control env dbnow auditID i target actor res2)
    then have "plan_unlink lib env dbnow auditID i actor ActionControlUnlinked target
        (\<lambda>t. UnlinkActionPlanControl t i target) db = (res2, db')"
      "ActionControlUnlinked \<noteq> ActionCreated" "ActionControlUnlinked \<noteq> ActionStatusChanged" by (simp_all add: UnlinkControl_def)
    then show thesis
    proof (cases rule: plan_unlink_cases)
      case (commit t n db1 en)
      with ok show thesis
        by (intro linked [of en "db_plan_risks db" "snd (unlink_rows t i target (db_plan_controls db))"])
          (auto simp: UnlinkActionPlanControl_def unlink_rows_def Let_def links_ok_filter)
    qed (rule none)
  qed
qed


lemma ap_step_inv:
  assumes "ap_step lib db db'" and "ap_inv db"
  shows "ap_inv db'"
  using assms
proof (cases rule: ap_step_effect)
  case (created row en)
  have "links_ok (plan_keys db') P c links" if "links_ok (plan_keys db) P c links" for P c links
    using that created by (auto simp: links_ok_def plan_keys_def)
  with created \<open>ap_inv db\<close> show ?thesis
    by (auto simp: ap_inv_def ActionPlanRiskExistsInTenant_def ActionPlanControlExistsInTenant_def)
next
  case (edited t i f r en)
  have ids: "pr_ID (f x) = pr_ID x" "pr_TenantID (f x) = pr_TenantID x" for x
    using edited(2) [of x] by simp_all
  have rows: "ap_row_inv (db_users db) x" if "x \<in> set (db_plans db')" for x
    using that unfolding edited(8)
  proof (simp, elim in_sql_updateE)
    assume "x \<in> set (db_plans db)"
    with \<open>ap_inv db\<close> show ?thesis by (simp add: ap_inv_def)
  next
    fix r0 assume r0: "r0 \<in> set (db_plans db)" "live_plan t i r0" "x = f r0"
    from edited(1) have r: "r \<in> set (db_plans db)" "live_plan t i r"
      by (auto simp: GetActionPlanByID_def dest: find_SomeD)
    with r0 \<open>ap_inv db\<close> have "r0 = r"
      by (intro distinct_key_unique [of pr_ID "db_plans db"]) (auto simp: ap_inv_def live_plan_def)
    with edited(3) r0 show ?thesis by simp
  qed
  have "plan_keys db' = plan_keys db"
    by (simp add: edited(8) plan_keys_def ids flip: set_map) (simp add: map_sql_update_frame ids)
  with rows edited \<open>ap_inv db\<close> show ?thesis
    by (simp add: ap_inv_def ids map_sql_update_frame ActionPlanRiskExistsInTenant_def ActionPlanControlExistsInTenant_def)
next
  case (linked rs cs en)
  with \<open>ap_inv db\<close> show ?thesis
    by (simp add: ap_inv_def plan_keys_def ActionPlanRiskExistsInTenant_def ActionPlanControlExistsInTenant_def)
qed (use \<open>ap_inv db\<close> in simp)

lemma plan_trail_snoc:
  assumes "db_plan_audit db' = db_plan_audit db @ [en]"
  shows "plan_trail_of db' k = plan_trail_of db k @
     (case (if aa_TenantID en = fst k \<and> aa_ActionPlanID en = snd k then entry_status en else None) of
        None \<Rightarrow> [] | Some s \<Rightarrow> [s])"
  by (simp add: plan_trail_of_def assms List.map_filter_def split: option.splits)

lemma ap_step_law:
  assumes "ap_step lib db db'" and "ap_inv db"
  shows "(plan_status_of db' k = plan_status_of db k \<and> plan_trail_of db' k = plan_trail_of db k)
    \<or> (\<exists>s'. plan_status_of db' k = Some s' \<and> plan_status_of db' k \<noteq> plan_status_of db k
          \<and> (case plan_status_of db k of None \<Rightarrow> s' = StatusDraft | Some s \<Rightarrow> plan_edge s s')
          \<and> plan_trail_of db' k = plan_trail_of db k @ [s'])"
  using assms
proof (cases rule: ap_step_effect)
  case (created row en)
  have tr: "db_plan_audit db' = db_plan_audit db @ [en]" using created(7) by simp
  show ?thesis
  proof (cases "k = (pr_TenantID row, pr_ID row)")
    case True
    with created(3) have "List.find (\<lambda>r. pr_TenantID r = fst k \<and> pr_ID r = snd k) (db_plans db) = None"
      by (auto simp: find_None_iff intro: rev_image_eqI)
    with True created plan_trail_snoc [OF tr, of k] show ?thesis
      by (simp add: plan_status_of_def sql_simps)
  next
    case False
    with created plan_trail_snoc [OF tr, of k] show ?thesis
      by (cases k) (auto simp: plan_status_of_def sql_simps split: option.splits)
  qed
next
  case (edited t i f r en)
  let ?g = "\<lambda>r. if live_plan t i r then f r else r"
  let ?find = "List.find (\<lambda>r. pr_TenantID r = fst k \<and> pr_ID r = snd k) (db_plans db)"
  have tr: "db_plan_audit db' = db_plan_audit db @ [en]" using edited(8) by simp
  have "List.find (\<lambda>r. pr_TenantID r = fst k \<and> pr_ID r = snd k) (map ?g (db_plans db)) = map_option ?g ?find"
    using edited(2) by (intro find_map_key) auto
  then have st: "plan_status_of db' k = map_option (\<lambda>r. pr_Status (?g r)) ?find"
    by (simp add: plan_status_of_def edited(8) sql_update_def option.map_comp o_def)
  have r: "r \<in> set (db_plans db)" "live_plan t i r"
    using edited(1) by (auto simp: GetActionPlanByID_def dest: find_SomeD)
  show ?thesis
  proof (cases "k = (t, i)")
    case True
    have "?find = Some r"
      using r True \<open>ap_inv db\<close> by (intro find_eq_unique [of pr_ID]) (auto simp: ap_inv_def live_plan_def)
    then have "plan_status_of db' k = Some (pr_Status (f r))" "plan_status_of db k = Some (pr_Status r)"
      using st r by (simp_all add: plan_status_of_def)
    with True edited(4-7) plan_trail_snoc [OF tr, of k] show ?thesis by auto
  next
    case False
    then have "pr_Status (?g x) = pr_Status x" if "?find = Some x" for x
      using find_SomeD [OF that] by (auto simp: live_plan_def)
    then have "plan_status_of db' k = plan_status_of db k"
      using st by (cases ?find) (simp_all add: plan_status_of_def)
    with False edited(5,6) plan_trail_snoc [OF tr, of k] show ?thesis by (cases k) auto
  qed
next
  case (linked rs cs en)
  have tr: "db_plan_audit db' = db_plan_audit db @ [en]" using linked(4) by simp
  with linked plan_trail_snoc [OF tr, of k] show ?thesis by (simp add: plan_status_of_def)
qed simp

interpretation plan: audited_lifecycle "ap_step lib" ap_inv plan_status_of plan_edge StatusDraft plan_trail_of
  for lib :: plan_lib
proof (unfold_locales, goal_cases)
  case (1 db db')
  then show ?case by (rule ap_step_inv)
next
  case (2 db db' k)
  with ap_step_law [OF 2(1,2), of k] show ?case by auto
next
  case (3 db db' k)
  from ap_step_law [OF 3, of k] show ?case by auto
qed


text \<open>A tombstoned plan is never written again, no plan is deleted, and the audit table only grows.\<close>

lemma ap_step_frame:
  assumes "ap_step lib db db'" and "ap_inv db"
  shows "prefix (db_plan_audit db) (db_plan_audit db')"
    and "prefix (map pr_ID (db_plans db)) (map pr_ID (db_plans db'))"
    and "r \<in> set (db_plans db) \<Longrightarrow> pr_TombstonedAt r \<noteq> None \<Longrightarrow> r \<in> set (db_plans db')"
proof -
  from assms have "prefix (db_plan_audit db) (db_plan_audit db')
      \<and> prefix (map pr_ID (db_plans db)) (map pr_ID (db_plans db'))
      \<and> (r \<in> set (db_plans db) \<longrightarrow> pr_TombstonedAt r \<noteq> None \<longrightarrow> r \<in> set (db_plans db'))"
  proof (cases rule: ap_step_effect)
    case (edited t i f r' en)
    then have "map pr_ID (sql_update (live_plan t i) f (db_plans db)) = map pr_ID (db_plans db)"
      by (intro map_sql_update_frame) auto
    moreover have "r \<in> set (sql_update (live_plan t i) f (db_plans db))"
      if "r \<in> set (db_plans db)" "pr_TombstonedAt r \<noteq> None"
      using that by (force simp: set_sql_update live_plan_def)
    ultimately show ?thesis using edited(8) by simp
  qed simp_all
  then show "prefix (db_plan_audit db) (db_plan_audit db')"
    and "prefix (map pr_ID (db_plans db)) (map pr_ID (db_plans db'))"
    and "r \<in> set (db_plans db) \<Longrightarrow> pr_TombstonedAt r \<noteq> None \<Longrightarrow> r \<in> set (db_plans db')"
    by simp_all
qed

lemma ap_run_frame:
  assumes "(ap_step lib)\<^sup>*\<^sup>* db db'" and "ap_inv db"
  shows "ap_inv db' \<and> prefix (db_plan_audit db) (db_plan_audit db')
    \<and> prefix (map pr_ID (db_plans db)) (map pr_ID (db_plans db'))
    \<and> (\<forall>r \<in> set (db_plans db). pr_TombstonedAt r \<noteq> None \<longrightarrow> r \<in> set (db_plans db'))"
  using assms
proof (induction rule: rtranclp_induct)
  case (step y z)
  then have y: "ap_inv y" "prefix (db_plan_audit db) (db_plan_audit y)"
    "prefix (map pr_ID (db_plans db)) (map pr_ID (db_plans y))"
    "\<forall>r \<in> set (db_plans db). pr_TombstonedAt r \<noteq> None \<longrightarrow> r \<in> set (db_plans y)" by blast+
  note fr = ap_step_frame [OF step(2) y(1)]
  show ?case
    using ap_step_inv [OF step(2) y(1)] prefix_order.trans [OF y(2) fr(1)] prefix_order.trans [OF y(3) fr(2)] y(4) fr(3)
    by blast
qed simp


section \<open>Pages\<close>

lemma filter_below_nth:
  fixes k :: "'r \<Rightarrow> 'a :: linorder"
  assumes "sorted_wrt (\<lambda>x y. k y < k x) xs" and "j < length xs"
  shows "filter (\<lambda>x. k x < k (xs ! j)) xs = drop (Suc j) xs"
proof -
  have xs: "xs = take j xs @ xs ! j # drop (Suc j) xs" using assms(2) by (rule id_take_nth_drop)
  with assms(1) have srt: "sorted_wrt (\<lambda>x y. k y < k x) (take j xs @ xs ! j # drop (Suc j) xs)" by metis
  then have "filter (\<lambda>x. k x < k (xs ! j)) (take j xs) = []"
    and "filter (\<lambda>x. k x < k (xs ! j)) (drop (Suc j) xs) = drop (Suc j) xs"
    by (auto simp: sorted_wrt_append filter_empty_conv filter_id_conv)
  then show ?thesis by (subst xs) simp
qed

lemma newest_first_filter: "newest_first (filter P rows) = filter P (newest_first rows)"
  by (simp only: newest_first_def filter_sort flip: rev_filter)

lemma newest_first_strict:
  assumes "distinct (map pr_ID rows)"
  shows "sorted_wrt (\<lambda>x y. (pr_CreatedAt y, pr_ID y) < (pr_CreatedAt x, pr_ID x)) (newest_first rows)"
proof -
  let ?k = "\<lambda>r. (pr_CreatedAt r, pr_ID r)"
  have "distinct (map ?k rows)"
    using assms by (auto simp: distinct_map inj_on_def)
  then have "distinct (map ?k (sort_key ?k rows))"
    by (simp add: distinct_map)
  then have "sorted_wrt (<) (map ?k (sort_key ?k rows))"
    by (simp add: strict_sorted_iff)
  then show ?thesis by (simp add: newest_first_def sorted_wrt_rev sorted_wrt_map)
qed

lemma set_newest_first [simp]: "set (newest_first rows) = set rows"
  by (simp add: newest_first_def)

lemma ClampLimit_bounds: "1 \<le> ClampLimit l \<and> ClampLimit l \<le> MaxPageLimit"
  by (simp add: ClampLimit_def MaxPageLimit_def DefaultPageLimit_def)


text \<open>The listing that the pages are cut from.\<close>

definition plan_listing :: "uuid \<Rightarrow> string option \<Rightarrow> 'z plan_db_scheme \<Rightarrow> plan_row list" where
  "plan_listing t status db =
     newest_first (filter (\<lambda>r. pr_TenantID r = t \<and> pr_TombstonedAt r = None
                     \<and> (case status of None \<Rightarrow> True | Some s \<Rightarrow> pr_Status r = s)) (db_plans db))"

lemma ListActionPlans_page:
  assumes "ap_inv db"
  shows "ListActionPlans t status None cid n db = take (nat n) (plan_listing t status db)"
    and "j < length (plan_listing t status db) \<Longrightarrow>
      ListActionPlans t status (Some (pr_CreatedAt (plan_listing t status db ! j)))
          (Some (pr_ID (plan_listing t status db ! j))) n db
        = take (nat n) (drop (Suc j) (plan_listing t status db))"
proof -
  let ?full = "plan_listing t status db"
  let ?P = "\<lambda>r. pr_TenantID r = t \<and> pr_TombstonedAt r = None
                 \<and> (case status of None \<Rightarrow> True | Some s \<Rightarrow> pr_Status r = s)"
  have split: "newest_first (filter (\<lambda>r. pr_TenantID r = t \<and> pr_TombstonedAt r = None
        \<and> (case status of None \<Rightarrow> True | Some s \<Rightarrow> pr_Status r = s) \<and> before_cursor cat cid r) (db_plans db))
      = filter (before_cursor cat cid) ?full" for cat cid
    by (simp add: plan_listing_def newest_first_filter conj_ac)
  show "ListActionPlans t status None cid n db = take (nat n) ?full"
    by (simp add: ListActionPlans_def before_cursor_def plan_listing_def)
  assume j: "j < length ?full"
  have "distinct (map pr_ID (filter ?P (db_plans db)))"
    using assms(1) by (simp add: ap_inv_def distinct_map_filter)
  then have srt: "sorted_wrt (\<lambda>x y. (pr_CreatedAt y, pr_ID y) < (pr_CreatedAt x, pr_ID x)) ?full"
    unfolding plan_listing_def by (rule newest_first_strict)
  have "?full ! j \<in> set (db_plans db)" using j nth_mem [OF j] by (auto simp: plan_listing_def)
  then have "pgTime (pr_CreatedAt (?full ! j)) = pr_CreatedAt (?full ! j)"
    using assms(1) by (simp add: ap_inv_def ap_row_inv_def)
  then have cur: "before_cursor (Some (pr_CreatedAt (?full ! j))) (Some (pr_ID (?full ! j)))
      = (\<lambda>r. (pr_CreatedAt r, pr_ID r) < (pr_CreatedAt (?full ! j), pr_ID (?full ! j)))"
    by (simp add: before_cursor_def less_prod_def fun_eq_iff) auto
  show "ListActionPlans t status (Some (pr_CreatedAt (?full ! j))) (Some (pr_ID (?full ! j))) n db
      = take (nat n) (drop (Suc j) ?full)"
    unfolding ListActionPlans_def split unfolding cur by (simp only: filter_below_nth [OF srt j])
qed


section \<open>The frozen view\<close>

definition row_ref :: "plan_row \<Rightarrow> ActionPlanRef" where
  "row_ref r = \<lparr>rf_ID = pr_ID r, rf_Title = pr_Title r, rf_Status = pr_Status r, rf_OwnerID = pr_OwnerID r,
                rf_DueDate = pr_DueDate r, rf_AuditPeriodID = pr_AuditPeriodID r, rf_CreatedAt = pr_CreatedAt r\<rparr>"

lemma Snapshot_frozen:
  assumes "tx_ok env" "tenant_of env = Some t" "tx_ok lenv" "tenant_of lenv = Some t"
    and "GetAuditPeriodByID t pid db = Some p" "pd_Status p = StatusFrozen" "pd_FrozenAt p = Some h"
  shows "Snapshot env lenv wallnow pid db =
    (Inr \<lparr>vw_PeriodID = pid, vw_Horizon = h, vw_Frozen = True,
          vw_ActionPlans = map row_ref (ListActionPlansSnapshot t h db)\<rparr>, db)"
  using assms
  by (simp add: Snapshot_def PeriodSnapshotLister_def ListSnapshot_def inTx_run row_ref_def planFromRow_def)

lemma set_ListActionPlansSnapshot:
  "set (ListActionPlansSnapshot t h db) =
     {r \<in> set (db_plans db). pr_TenantID r = t \<and> pr_TombstonedAt r = None \<and> pr_CreatedAt r \<le> pgTime h}"
  by (auto simp: ListActionPlansSnapshot_def)


section \<open>Two link requests\<close>

lemma link_risk_write:
  assumes "plan_exists t i db" and "ActionPlanRiskExistsInTenant t risk db" and "auditID \<notin> aa_ID ` set (db_plan_audit db)"
    and "(i, risk) \<notin> (\<lambda>l. (lk_PlanID l, lk_TargetID l)) ` set (db_plan_risks db)"
  shows "\<exists>en. aa_ID en = auditID
    \<and> link_write lib (risk_spec dbnow i risk actor) dbnow auditID t i risk actor db =
      Inr (db\<lparr>db_plan_risks := db_plan_risks db @
                [\<lparr>lk_PlanID = i, lk_TargetID = risk, lk_TenantID = t, lk_LinkedAt = pgTime dbnow, lk_LinkedBy = actor\<rparr>],
              db_plan_audit := db_plan_audit db @ [en]\<rparr>)"
  using assms
  by (intro exI [of _ "\<lparr>aa_ID = auditID, aa_TenantID = t, aa_ActionPlanID = i, aa_ActorID = actor,
        aa_ActionType = ActionRiskLinked, aa_BeforeState = None,
        aa_AfterState = Some [(''target_id'', al_uuid_string lib risk)], aa_CreatedAt = pgTime dbnow\<rparr>"])
    (simp add: link_write_def risk_spec_def LinkActionPlanRisk_def link_insert_def writeAudit_def
      WriteActionPlanAuditLog_def)


section \<open>Concrete values\<close>

definition demo_plan_lib :: plan_lib where
  "demo_plan_lib = \<lparr>al_uuid_string = (\<lambda>_. ''u''), al_date = (\<lambda>_. ''d''), al_rfc3339 = (\<lambda>_. ''z'')\<rparr>"

definition demo_plan :: plan_row where
  "demo_plan =
     \<lparr>pr_ID = 30, pr_TenantID = 1, pr_Title = ''Fix'', pr_Description = None, pr_TriggeringEvent = None,
      pr_OwnerID = 8, pr_DueDate = None, pr_Status = ''draft'', pr_AuditPeriodID = None, pr_TombstonedAt = None,
      pr_CreatedAt = 5000, pr_UpdatedAt = 5000\<rparr>"

definition demo_frozen :: period_row where
  "demo_frozen = demo_period\<lparr>pd_Status := StatusFrozen, pd_FrozenAt := Some (days 20), pd_FrozenHash := Some [],
      pd_FrozenBy := Some ''bob''\<rparr>"

definition demo_plan_db :: "plan_row list \<Rightarrow> link_row list \<Rightarrow> plan_db" where
  "demo_plan_db rows links =
     \<lparr>db_dimensions = [], db_cells = [], db_controls = [], db_evidence = [], db_evaluations = [],
      db_fversions = [], db_frameworks = [], db_periods = [demo_frozen], db_populations = [], db_period_log = [],
      db_users = [(1, 8)], db_risks = map (\<lambda>k. (1, of_nat k)) [0..<60], db_plans = rows,
      db_plan_risks = links, db_plan_controls = [], db_plan_audit = []\<rparr>"

definition demo_links :: "link_row list" where
  "demo_links = map (\<lambda>k. \<lparr>lk_PlanID = 30, lk_TargetID = of_nat k, lk_TenantID = 1, lk_LinkedAt = 0, lk_LinkedBy = 8\<rparr>) [0..<49]"

lemma demo_risk_ids: "(1, 50) \<in> (\<lambda>k. (1 :: uuid, of_nat k :: uuid)) ` {0..<60}"
  "(1, 51) \<in> (\<lambda>k. (1 :: uuid, of_nat k :: uuid)) ` {0..<60}"
  by (rule image_eqI [of _ _ 50]; simp) (rule image_eqI [of _ _ 51]; simp)

lemma demo_link_ids: "k < 49 \<Longrightarrow> (of_nat k :: uuid) \<noteq> 50 \<and> (of_nat k :: uuid) \<noteq> 51"
proof -
  assume "k < 49"
  then have "unat (of_nat k :: uuid) = k" by (simp add: unat_of_nat)
  with \<open>k < 49\<close> have "unat (of_nat k :: uuid) < 49" by simp
  moreover have "unat (50 :: uuid) = 50" "unat (51 :: uuid) = 51" by simp_all
  ultimately show ?thesis by fastforce
qed

lemma demo_plan_inv: "ap_inv (demo_plan_db [demo_plan] [])" "ap_inv (demo_plan_db [] [])"
  by (simp_all add: ap_inv_def links_ok_def ap_row_inv_def demo_plan_db_def demo_plan_def action_plans_check_def
      char_length_def pgTime_def MaxLinkedRisks_def MaxLinkedControls_def)


definition demo_start :: ap_UpdateInput where
  "demo_start = \<lparr>ui_Title = Some ''Fix now'', ui_Description = None, ui_TriggeringEvent = None, ui_OwnerID = None,
      ui_DueDate = None, ui_ClearDueDate = False, ui_Status = Some ''in_progress'', ui_Actor = 8, ui_Now = 0\<rparr>"

lemma demo_plan_update:
  "\<exists>out db'. plan_Update demo_plan_lib demo_env 7000 8000 99 30 demo_start (demo_plan_db [demo_plan] []) = (Inr out, db')
     \<and> ap_Title out = ''Fix now'' \<and> ap_Status out = ''in_progress''
     \<and> plan_status_of db' (1, 30) = Some ''in_progress''"
  by (simp add: plan_Update_def demo_start_def opt_check_def ValidateTitle_def MaxTitleLen_def ValidStatus_def
      StatusDraft_def StatusInProgress_def StatusBlocked_def StatusCompleted_def StatusVerified_def
      inTx_run GetActionPlanByID_def demo_plan_db_def live_plan_def demo_plan_def next_plan_def planFromRow_def
      or_keep_def AllowedTransition_def UpdateActionPlan_def Let_def action_plans_status_transition_guard_def
      action_plans_check_def action_plans_fks_def char_length_def strPtr_def ap_pgDate_def writeAudit_def
      WriteActionPlanAuditLog_def plan_status_of_def ValidateDueDate_def)

lemma demo_plan_create:
  "\<exists>out db'. plan_Create demo_plan_lib demo_env 7000 8000 30 99
      \<lparr>ai_Title = ''Fix'', ai_Description = [], ai_TriggeringEvent = [], ai_OwnerID = 8, ai_DueDate = None,
       ai_AuditPeriodID = None, ai_Actor = 8, ai_Now = 0\<rparr> (demo_plan_db [] []) = (Inr out, db')
     \<and> plan_status_of db' (1, 30) = Some StatusDraft \<and> plan_trail_of db' (1, 30) = [StatusDraft]"
  by (simp add: plan_Create_def ValidateTitle_def MaxTitleLen_def ValidateDescription_def ValidateTriggeringEvent_def
      ValidateDueDate_def inTx_run ActionPlanOwnerExistsInTenant_def demo_plan_db_def CreateActionPlan_def
      action_plans_check_def action_plans_fks_def char_length_def strPtr_def StatusDraft_def
      writeAudit_def WriteActionPlanAuditLog_def plan_status_of_def plan_trail_of_def entry_status_def planFromRow_def
      List.map_filter_def)

text \<open>A plan may name an audit period that its own tenant cannot see.\<close>

lemma plan_Create_foreign_period:
  "\<exists>out db'. plan_Create demo_plan_lib demo_env 7000 8000 30 99
      \<lparr>ai_Title = ''Fix'', ai_Description = [], ai_TriggeringEvent = [], ai_OwnerID = 8, ai_DueDate = None,
       ai_AuditPeriodID = Some 60, ai_Actor = 8, ai_Now = 0\<rparr>
      ((demo_plan_db [] [])\<lparr>db_periods := [demo_frozen\<lparr>pd_TenantID := 2\<rparr>]\<rparr>) = (Inr out, db')
     \<and> ap_AuditPeriodID out = Some 60 \<and> GetAuditPeriodByID 1 60 db' = None"
  by (simp add: plan_Create_def ValidateTitle_def MaxTitleLen_def ValidateDescription_def ValidateTriggeringEvent_def
      ValidateDueDate_def inTx_run ActionPlanOwnerExistsInTenant_def demo_plan_db_def CreateActionPlan_def
      action_plans_check_def action_plans_fks_def char_length_def strPtr_def StatusDraft_def
      writeAudit_def WriteActionPlanAuditLog_def planFromRow_def GetAuditPeriodByID_def demo_frozen_def demo_period_def)

lemma demo_plan_update_run:
  "\<exists>db'. (ap_step demo_plan_lib)\<^sup>*\<^sup>* (demo_plan_db [demo_plan] []) db' \<and> plan_status_of db' (1, 30) = Some ''in_progress''"
proof -
  obtain out db' where u: "plan_Update demo_plan_lib demo_env 7000 8000 99 30 demo_start (demo_plan_db [demo_plan] []) = (Inr out, db')"
    "plan_status_of db' (1, 30) = Some ''in_progress''"
    using demo_plan_update by blast
  have "(ap_step demo_plan_lib)\<^sup>*\<^sup>* (demo_plan_db [demo_plan] []) db'"
    by (rule r_into_rtranclp, rule ap_step.update, rule u(1))
  with u(2) show ?thesis by blast
qed


section \<open>Properties\<close>

text \<open>
  C36. In every run of the store's transactions the tables stay well-formed: the rows satisfy the
  table's constraints, every plan's owner is a user of the plan's tenant, every link names a plan,
  a risk or a control of its own tenant and occurs once, and no plan has more than fifty risks
  or fifty controls. Audit rows are only appended, no plan row disappears, and a tombstoned plan
  never changes again.
\<close>

theorem ap_run_invariant:
  assumes "(ap_step lib)\<^sup>*\<^sup>* db db'" and "ap_inv db"
  shows "(\<forall>r \<in> set (db_plans db'). action_plans_check r \<and> (pr_TenantID r, pr_OwnerID r) \<in> set (db_users db'))
    \<and> (\<forall>l \<in> set (db_plan_risks db'). plan_exists (lk_TenantID l) (lk_PlanID l) db'
         \<and> ActionPlanRiskExistsInTenant (lk_TenantID l) (lk_TargetID l) db')
    \<and> (\<forall>l \<in> set (db_plan_controls db'). plan_exists (lk_TenantID l) (lk_PlanID l) db'
         \<and> ActionPlanControlExistsInTenant (lk_TenantID l) (lk_TargetID l) db')
    \<and> distinct (map (\<lambda>l. (lk_PlanID l, lk_TargetID l)) (db_plan_risks db'))
    \<and> distinct (map (\<lambda>l. (lk_PlanID l, lk_TargetID l)) (db_plan_controls db'))
    \<and> (\<forall>t i. CountActionPlanRisks t i db' \<le> 50 \<and> CountActionPlanControls t i db' \<le> 50)
    \<and> prefix (db_plan_audit db) (db_plan_audit db')
    \<and> prefix (map pr_ID (db_plans db)) (map pr_ID (db_plans db'))
    \<and> (\<forall>r \<in> set (db_plans db). pr_TombstonedAt r \<noteq> None \<longrightarrow> r \<in> set (db_plans db'))"
proof -
  have keys: "(t, i) \<in> plan_keys db' \<longleftrightarrow> plan_exists t i db'" for t i
    by (auto simp: plan_keys_def plan_exists_def)
  note fr = ap_run_frame [OF assms]
  then have inv: "ap_inv db'" by simp
  then have "\<forall>r \<in> set (db_plans db'). action_plans_check r \<and> (pr_TenantID r, pr_OwnerID r) \<in> set (db_users db')"
    by (simp add: ap_inv_def ap_row_inv_def)
  moreover have "(\<forall>l \<in> set (db_plan_risks db'). plan_exists (lk_TenantID l) (lk_PlanID l) db'
         \<and> ActionPlanRiskExistsInTenant (lk_TenantID l) (lk_TargetID l) db')
    \<and> (\<forall>l \<in> set (db_plan_controls db'). plan_exists (lk_TenantID l) (lk_PlanID l) db'
         \<and> ActionPlanControlExistsInTenant (lk_TenantID l) (lk_TargetID l) db')
    \<and> distinct (map (\<lambda>l. (lk_PlanID l, lk_TargetID l)) (db_plan_risks db'))
    \<and> distinct (map (\<lambda>l. (lk_PlanID l, lk_TargetID l)) (db_plan_controls db'))"
    using inv unfolding ap_inv_def links_ok_def keys by blast
  moreover have "CountActionPlanRisks t i db' \<le> 50 \<and> CountActionPlanControls t i db' \<le> 50" for t i
    using inv
    by (simp add: ap_inv_def links_ok_def CountActionPlanRisks_def CountActionPlanControls_def
        MaxLinkedRisks_def MaxLinkedControls_def)
  ultimately show ?thesis using fr by blast
qed

theorem ap_run_invariant_witness:
  "\<exists>db'. plan_status_of db' (1, 30) = Some ''in_progress''
     \<and> (\<forall>r \<in> set (db_plans db'). action_plans_check r \<and> (pr_TenantID r, pr_OwnerID r) \<in> set (db_users db'))
     \<and> prefix [30] (map pr_ID (db_plans (db' :: plan_db)))"
proof -
  obtain db' where run: "(ap_step demo_plan_lib)\<^sup>*\<^sup>* (demo_plan_db [demo_plan] []) db'"
    "plan_status_of db' (1, 30) = Some ''in_progress''"
    using demo_plan_update_run by blast
  have "map pr_ID (db_plans (demo_plan_db [demo_plan] [])) = [30]" by (simp add: demo_plan_db_def demo_plan_def)
  with ap_run_invariant [OF run(1) demo_plan_inv(1)] run(2) show ?thesis by (intro exI [of _ db']) simp
qed

text \<open>
  C37. The audit log is a faithful record of the plan lifecycle: over any run the statuses in the
  created and status-changed entries of a plan start at draft, follow only allowed transitions and
  end with the plan's current status. A verified plan stays verified, and a plan that has left
  draft never returns to it.
\<close>

theorem ap_audit_refines_lifecycle:
  assumes "(ap_step lib)\<^sup>*\<^sup>* db db'" and "ap_inv db"
    and "recorded plan_edge StatusDraft (plan_status_of db k) (plan_trail_of db k)"
  shows "recorded plan_edge StatusDraft (plan_status_of db' k) (plan_trail_of db' k)
    \<and> prefix (plan_trail_of db k) (plan_trail_of db' k)
    \<and> (plan_status_of db k = Some StatusVerified \<longrightarrow> plan_status_of db' k = Some StatusVerified)
    \<and> (\<forall>s. plan_status_of db k = Some s \<and> s \<noteq> StatusDraft \<longrightarrow> plan_status_of db' k \<noteq> Some StatusDraft)"
proof -
  have "plan_status_of db' k \<noteq> Some StatusDraft" if s: "plan_status_of db k = Some s" "s \<noteq> StatusDraft" for s
  proof -
    obtain s' where s': "plan_status_of db' k = Some s'" "plan_edge\<^sup>*\<^sup>* s s'"
      using plan.run_status [OF assms(1,2) s(1)] by blast
    from s'(2) s(2) have "s' \<noteq> StatusDraft" by cases (auto simp: plan_edge_not_draft)
    with s'(1) show ?thesis by simp
  qed
  then show ?thesis
    using plan.run_recorded [OF assms] plan.run_trail_grows [OF assms(1,2)]
      plan.run_terminal [OF assms(1,2) _ plan_edge_verified] by blast
qed

theorem ap_audit_refines_lifecycle_witness:
  "\<exists>db' :: plan_db. plan_status_of db' (1, 30) = Some StatusDraft \<and> plan_trail_of db' (1, 30) = [StatusDraft]
     \<and> recorded plan_edge StatusDraft (plan_status_of db' (1, 30)) (plan_trail_of db' (1, 30))"
proof -
  obtain out db' where c: "plan_Create demo_plan_lib demo_env 7000 8000 30 99
      \<lparr>ai_Title = ''Fix'', ai_Description = [], ai_TriggeringEvent = [], ai_OwnerID = 8, ai_DueDate = None,
       ai_AuditPeriodID = None, ai_Actor = 8, ai_Now = 0\<rparr> (demo_plan_db [] []) = (Inr out, db')"
    "plan_status_of db' (1, 30) = Some StatusDraft" "plan_trail_of db' (1, 30) = [StatusDraft]"
    using demo_plan_create by blast
  have run: "(ap_step demo_plan_lib)\<^sup>*\<^sup>* (demo_plan_db [] []) db'"
    by (rule r_into_rtranclp, rule ap_step.create, rule c(1))
  have "recorded plan_edge StatusDraft (plan_status_of (demo_plan_db [] []) (1, 30)) (plan_trail_of (demo_plan_db [] []) (1, 30))"
    by (simp add: recorded_def plan_status_of_def plan_trail_of_def demo_plan_db_def List.map_filter_def)
  from ap_audit_refines_lifecycle [OF run demo_plan_inv(2) this] c(2,3) show ?thesis by blast
qed

text \<open>
  Listing is bounded and its pages tile the listing: whatever limit is asked for, a page has
  at most a hundred plans, the first page is the beginning of the newest-first listing of the
  tenant's live plans with the asked status, and the page after the plan at position \<open>j\<close> continues
  right behind it, so that no plan is skipped or repeated while the table does not change.
\<close>

theorem plan_List_pages:
  assumes "tx_ok env" and "tenant_of env = Some t" and "ap_inv db"
  shows "1 \<le> ClampLimit l \<and> ClampLimit l \<le> 100
    \<and> plan_List env \<lparr>lf_Status = st, lf_Limit = l, lf_CursorCreatedAt = None, lf_CursorID = None\<rparr> db =
        (Inr (map planFromRow (take (nat (ClampLimit l)) (plan_listing t (strPtr st) db))), db)
    \<and> (\<forall>j < length (plan_listing t (strPtr st) db).
         plan_List env \<lparr>lf_Status = st, lf_Limit = l,
             lf_CursorCreatedAt = Some (pr_CreatedAt (plan_listing t (strPtr st) db ! j)),
             lf_CursorID = Some (pr_ID (plan_listing t (strPtr st) db ! j))\<rparr> db =
           (Inr (map planFromRow (take (nat (ClampLimit l)) (drop (Suc j) (plan_listing t (strPtr st) db)))), db))"
  using ClampLimit_bounds [of l]
  by (simp add: plan_List_def inTx_run assms(1,2) ListActionPlans_page [OF assms(3)] MaxPageLimit_def)

theorem plan_List_pages_witness:
  "plan_List demo_env \<lparr>lf_Status = [], lf_Limit = 0, lf_CursorCreatedAt = None, lf_CursorID = None\<rparr>
     (demo_plan_db [demo_plan] []) = (Inr [planFromRow demo_plan], demo_plan_db [demo_plan] [])"
proof -
  have "plan_listing 1 (strPtr []) (demo_plan_db [demo_plan] []) = [demo_plan]" "nat (ClampLimit 0) = 25"
    by (simp_all add: plan_listing_def newest_first_def demo_plan_db_def demo_plan_def strPtr_def ClampLimit_def
        DefaultPageLimit_def)
  with plan_List_pages [OF demo_env_simps(2,1) demo_plan_inv(1), of 0 "[]"] show ?thesis by simp
qed

text \<open>What an update and a tombstone do to the listing a frozen view shows.\<close>

lemma live_planD:
  assumes "GetActionPlanByID t i db = Some r"
  shows "r \<in> set (db_plans db)" "pr_TenantID r = t" "pr_ID r = i" "pr_TombstonedAt r = None"
  using assms by (auto simp: GetActionPlanByID_def live_plan_def dest: find_SomeD)

lemma update_enters_snapshot:
  assumes "plan_Update lib env wallnow dbnow auditID i upd db = (Inr out, db')" and "tenant_of env = Some t"
    and "GetActionPlanByID t i db = Some r" and "pr_CreatedAt r \<le> pgTime h"
  shows "GetAuditPeriodByID t pid db' = GetAuditPeriodByID t pid db"
    and "\<exists>f \<in> set (map row_ref (ListActionPlansSnapshot t h db')). rf_ID f = i \<and> rf_Title f = ap_Title out
           \<and> rf_Status f = ap_Status out \<and> rf_OwnerID f = ap_OwnerID out \<and> rf_DueDate f = ap_DueDate out"
proof -
  note r = live_planD [OF assms(3)]
  from assms(1) obtain nxt where nxt: "out = planFromRow (set_plan dbnow nxt r)"
    and eff: "db_plans db' = sql_update (live_plan t i) (set_plan dbnow nxt) (db_plans db)"
      "db_periods db' = db_periods db"
    by (cases rule: plan_Update_cases) (use assms(2,3) in auto)
  show "GetAuditPeriodByID t pid db' = GetAuditPeriodByID t pid db" using eff(2) by (simp add: GetAuditPeriodByID_def)
  have "set_plan dbnow nxt r \<in> set (db_plans db')"
    unfolding eff using r by (auto simp: set_sql_update live_plan_def intro!: image_eqI [of _ _ r])
  with r assms(4) have "row_ref (set_plan dbnow nxt r) \<in> set (map row_ref (ListActionPlansSnapshot t h db'))"
    by (simp add: set_ListActionPlansSnapshot)
  with r(3) nxt show "\<exists>f \<in> set (map row_ref (ListActionPlansSnapshot t h db')). rf_ID f = i \<and> rf_Title f = ap_Title out
           \<and> rf_Status f = ap_Status out \<and> rf_OwnerID f = ap_OwnerID out \<and> rf_DueDate f = ap_DueDate out"
    by (intro bexI [of _ "row_ref (set_plan dbnow nxt r)"]) (auto simp: row_ref_def planFromRow_def)
qed

lemma tombstone_leaves_snapshot:
  assumes "plan_Tombstone lib env dbnow auditID i actor db = (Inr (), db')" and "tenant_of env = Some t"
  shows "GetAuditPeriodByID t pid db' = GetAuditPeriodByID t pid db"
    and "i \<notin> rf_ID ` set (map row_ref (ListActionPlansSnapshot t h db'))"
proof -
  from assms(1) have eff: "db_periods db' = db_periods db"
    "db_plans db' = sql_update (live_plan t i)
       (\<lambda>r. r\<lparr>pr_TombstonedAt := Some (pgTime dbnow), pr_UpdatedAt := pgTime dbnow\<rparr>) (db_plans db)"
    by (cases rule: plan_Tombstone_cases, use assms(2) in auto)+
  show "GetAuditPeriodByID t pid db' = GetAuditPeriodByID t pid db" using eff(1) by (simp add: GetAuditPeriodByID_def)
  have "\<not> live_plan t i x" if "x \<in> set (db_plans db')" for x
    using that unfolding eff(2) by (cases rule: in_sql_updateE) (simp_all add: live_plan_def)
  then show "i \<notin> rf_ID ` set (map row_ref (ListActionPlansSnapshot t h db'))"
    by (fastforce simp: set_ListActionPlansSnapshot row_ref_def live_plan_def)
qed

text \<open>
  C39. The view of a frozen period is not fixed: it shows the current content of every live plan
  created up to the freeze. After a successful update the view of a period frozen since then
  carries the new title, status, owner and due date, and after a tombstone the plan is gone from it.
\<close>

theorem frozen_view_follows_edits:
  assumes "tx_ok env" and "tenant_of env = Some t"
    and "GetAuditPeriodByID t pid db = Some p" and "pd_Status p = StatusFrozen" and "pd_FrozenAt p = Some h"
    and "GetActionPlanByID t i db = Some r" and "pr_CreatedAt r \<le> pgTime h"
  shows "(\<forall>out db'. plan_Update lib env wallnow dbnow auditID i upd db = (Inr out, db') \<longrightarrow>
      (\<exists>view. Snapshot env env wallnow pid db' = (Inr view, db') \<and> vw_Frozen view \<and> vw_Horizon view = h
         \<and> (\<exists>f \<in> set (vw_ActionPlans view). rf_ID f = i \<and> rf_Title f = ap_Title out \<and> rf_Status f = ap_Status out
              \<and> rf_OwnerID f = ap_OwnerID out \<and> rf_DueDate f = ap_DueDate out)))
    \<and> (\<forall>db'. plan_Tombstone lib env dbnow auditID i actor db = (Inr (), db') \<longrightarrow>
      (\<exists>before after. Snapshot env env wallnow pid db = (Inr before, db) \<and> Snapshot env env wallnow pid db' = (Inr after, db')
         \<and> i \<in> rf_ID ` set (vw_ActionPlans before) \<and> i \<notin> rf_ID ` set (vw_ActionPlans after)))"
proof (intro conjI allI impI)
  note view = Snapshot_frozen [OF assms(1,2,1,2) _ assms(4,5)]
  {
    fix out db' assume "plan_Update lib env wallnow dbnow auditID i upd db = (Inr out, db')"
    note upd = update_enters_snapshot [OF this assms(2,6,7)]
    show "\<exists>view. Snapshot env env wallnow pid db' = (Inr view, db') \<and> vw_Frozen view \<and> vw_Horizon view = h
         \<and> (\<exists>f \<in> set (vw_ActionPlans view). rf_ID f = i \<and> rf_Title f = ap_Title out \<and> rf_Status f = ap_Status out
              \<and> rf_OwnerID f = ap_OwnerID out \<and> rf_DueDate f = ap_DueDate out)"
      using view [of pid db'] upd assms(3) by (intro exI conjI) auto
  }
  {
    fix db' assume "plan_Tombstone lib env dbnow auditID i actor db = (Inr (), db')"
    note tomb = tombstone_leaves_snapshot [OF this assms(2)]
    have "i \<in> rf_ID ` set (map row_ref (ListActionPlansSnapshot t h db))"
      using live_planD [OF assms(6)] assms(7)
      by (auto simp: set_ListActionPlansSnapshot row_ref_def image_iff intro!: bexI [of _ r])
    with tomb(2) [of h] show "\<exists>before after. Snapshot env env wallnow pid db = (Inr before, db) \<and> Snapshot env env wallnow pid db' = (Inr after, db')
         \<and> i \<in> rf_ID ` set (vw_ActionPlans before) \<and> i \<notin> rf_ID ` set (vw_ActionPlans after)"
      using view [of pid db'] view [OF assms(3)] tomb(1) assms(3) by (intro exI conjI) auto
  }
qed

theorem frozen_view_follows_edits_witness:
  "\<exists>view (db' :: plan_db). Snapshot demo_env demo_env 7000 60 db' = (Inr view, db') \<and> vw_Frozen view
     \<and> vw_Horizon view = days 20 \<and> (\<exists>f \<in> set (vw_ActionPlans view). rf_ID f = 30 \<and> rf_Title f = ''Fix now'')"
proof -
  let ?db = "demo_plan_db [demo_plan] []"
  obtain out db' where u: "plan_Update demo_plan_lib demo_env 7000 8000 99 30 demo_start ?db = (Inr out, db')"
    "ap_Title out = ''Fix now''"
    using demo_plan_update by blast
  have get: "GetAuditPeriodByID 1 60 ?db = Some demo_frozen" "pd_Status demo_frozen = StatusFrozen"
    "pd_FrozenAt demo_frozen = Some (days 20)" "GetActionPlanByID 1 30 ?db = Some demo_plan"
    "pr_CreatedAt demo_plan \<le> pgTime (days 20)"
    by (simp_all add: GetAuditPeriodByID_def demo_plan_db_def demo_frozen_def demo_period_def GetActionPlanByID_def
        live_plan_def demo_plan_def days_def hours_def pgTime_def)
  note th = frozen_view_follows_edits [OF demo_env_simps(2,1) get,
      of demo_plan_lib 7000 8000 99 demo_start 8]
  from th [THEN conjunct1, rule_format, OF u(1)] u(2) show ?thesis by auto
qed

text \<open>
  C40. The cap of fifty linked risks holds only when link requests do not overlap: two requests
  for different risks that both probe a plan with forty-nine links pass, and when both then write,
  both succeed and the plan has fifty-one.
\<close>

theorem link_cap_race:
  assumes "GetActionPlanByID t i db = Some p" and "CountActionPlanRisks t i db = MaxLinkedRisks - 1"
    and "risk1 \<noteq> risk2" and "ActionPlanRiskExistsInTenant t risk1 db" and "ActionPlanRiskExistsInTenant t risk2 db"
    and "\<forall>l \<in> set (db_plan_risks db). lk_PlanID l = i \<longrightarrow> lk_TargetID l \<noteq> risk1 \<and> lk_TargetID l \<noteq> risk2"
    and "{audit1, audit2} \<inter> aa_ID ` set (db_plan_audit db) = {}" and "audit1 \<noteq> audit2"
  shows "\<exists>db1 db2. link_probe (risk_spec now1 i risk1 actor1) t i db = None
    \<and> link_probe (risk_spec now2 i risk2 actor2) t i db = None
    \<and> link_write lib (risk_spec now1 i risk1 actor1) now1 audit1 t i risk1 actor1 db = Inr db1
    \<and> link_write lib (risk_spec now2 i risk2 actor2) now2 audit2 t i risk2 actor2 db1 = Inr db2
    \<and> CountActionPlanRisks t i db2 = MaxLinkedRisks + 1"
proof -
  have probe: "link_probe (risk_spec n i risk who) t i db = None" if "risk \<in> {risk1, risk2}" for n risk who
    using that assms(1,2,4-6) by (auto simp: link_probe_def risk_spec_def ActionPlanRiskExists_def in_plan_def)
  have ex: "plan_exists t i db"
    using assms(1) by (auto simp: GetActionPlanByID_def plan_exists_def live_plan_def dest!: find_SomeD)
  have "(i, risk1) \<notin> (\<lambda>l. (lk_PlanID l, lk_TargetID l)) ` set (db_plan_risks db)" using assms(6) by auto
  with link_risk_write [OF ex assms(4)] assms(7) obtain en1 where e1: "aa_ID en1 = audit1"
    and w1: "link_write lib (risk_spec now1 i risk1 actor1) now1 audit1 t i risk1 actor1 db =
      Inr (db\<lparr>db_plan_risks := db_plan_risks db @
                [\<lparr>lk_PlanID = i, lk_TargetID = risk1, lk_TenantID = t, lk_LinkedAt = pgTime now1, lk_LinkedBy = actor1\<rparr>],
              db_plan_audit := db_plan_audit db @ [en1]\<rparr>)" (is "_ = Inr ?db1")
    by blast
  have "plan_exists t i ?db1" "ActionPlanRiskExistsInTenant t risk2 ?db1" "audit2 \<notin> aa_ID ` set (db_plan_audit ?db1)"
    "(i, risk2) \<notin> (\<lambda>l. (lk_PlanID l, lk_TargetID l)) ` set (db_plan_risks ?db1)"
    using ex assms(3,5-8) e1 by (auto simp: plan_exists_def ActionPlanRiskExistsInTenant_def)
  from link_risk_write [OF this] obtain en2 where
    w2: "link_write lib (risk_spec now2 i risk2 actor2) now2 audit2 t i risk2 actor2 ?db1 =
      Inr (?db1\<lparr>db_plan_risks := db_plan_risks ?db1 @
                [\<lparr>lk_PlanID = i, lk_TargetID = risk2, lk_TenantID = t, lk_LinkedAt = pgTime now2, lk_LinkedBy = actor2\<rparr>],
              db_plan_audit := db_plan_audit ?db1 @ [en2]\<rparr>)" (is "_ = Inr ?db2")
    by blast
  have "CountActionPlanRisks t i ?db2 = MaxLinkedRisks + 1"
    using assms(2) by (simp add: CountActionPlanRisks_def in_plan_def)
  with probe w1 w2 show ?thesis by blast
qed

theorem link_cap_race_witness:
  "\<exists>db2 :: plan_db. CountActionPlanRisks 1 30 db2 = 51"
proof -
  let ?db = "demo_plan_db [demo_plan] demo_links"
  have db: "GetActionPlanByID 1 30 ?db = Some demo_plan" "ActionPlanRiskExistsInTenant 1 50 ?db"
    "ActionPlanRiskExistsInTenant 1 51 ?db" "{98, 99} \<inter> aa_ID ` set (db_plan_audit ?db) = {}"
    by (simp_all add: GetActionPlanByID_def demo_plan_db_def live_plan_def demo_plan_def
        ActionPlanRiskExistsInTenant_def demo_risk_ids)
  have "CountActionPlanRisks 1 30 ?db = MaxLinkedRisks - 1"
    by (simp add: CountActionPlanRisks_def demo_plan_db_def demo_links_def filter_map o_def in_plan_def MaxLinkedRisks_def)
  moreover have "\<forall>l \<in> set (db_plan_risks ?db). lk_PlanID l = 30 \<longrightarrow> lk_TargetID l \<noteq> 50 \<and> lk_TargetID l \<noteq> 51"
    by (auto simp: demo_plan_db_def demo_links_def demo_link_ids)
  ultimately show ?thesis
    using link_cap_race [OF db(1) _ _ db(2,3) _ db(4), of 0 8 0 8 demo_plan_lib] by (auto simp: MaxLinkedRisks_def)
qed

end
