(* ===== verification/Go_Strings.thy ===== *)
theory Go_Strings
  imports Atlas_Prelude
begin

text \<open>
  The functions of the Go package \<open>strings\<close> that the ingestion code uses, on byte strings and
  with the one-byte separators it passes: \<open>HasPrefix\<close>, \<open>HasSuffix\<close>, \<open>TrimSuffix\<close>,
  \<open>Split\<close>, \<open>SplitN\<close> with two parts, \<open>Join\<close>. What the components use of them: splitting
  undoes joining, and cutting a suffix makes a string shorter.
\<close>

definition HasPrefix :: "string \<Rightarrow> string \<Rightarrow> bool" where
  "HasPrefix s p \<longleftrightarrow> take (length p) s = p"

definition HasSuffix :: "string \<Rightarrow> string \<Rightarrow> bool" where
  "HasSuffix s p \<longleftrightarrow> length p \<le> length s \<and> drop (length s - length p) s = p"

definition TrimSuffix :: "string \<Rightarrow> string \<Rightarrow> string" where
  "TrimSuffix s p = (if HasSuffix s p then take (length s - length p) s else s)"

fun Split :: "string \<Rightarrow> char \<Rightarrow> string list" where
  "Split [] sep = [[]]"
| "Split (c # s) sep = (if c = sep then [] # Split s sep
     else (case Split s sep of [] \<Rightarrow> [[c]] | p # ps \<Rightarrow> (c # p) # ps))"

definition SplitN2 :: "string \<Rightarrow> char \<Rightarrow> string list" where
  "SplitN2 s sep =
     (if sep \<in> set s then [takeWhile (\<lambda>c. c \<noteq> sep) s, tl (dropWhile (\<lambda>c. c \<noteq> sep) s)] else [s])"

fun Join :: "string list \<Rightarrow> char \<Rightarrow> string" where
  "Join [] sep = []"
| "Join [p] sep = p"
| "Join (p # q # ps) sep = p @ sep # Join (q # ps) sep"

lemma HasSuffix_append [simp]: "HasSuffix (s @ p) p"
  by (simp add: HasSuffix_def)

lemma TrimSuffix_append [simp]: "TrimSuffix (s @ p) p = s"
  by (simp add: TrimSuffix_def)

lemma length_TrimSuffix: "HasSuffix s p \<Longrightarrow> p \<noteq> [] \<Longrightarrow> length (TrimSuffix s p) < length s"
  by (auto simp: TrimSuffix_def HasSuffix_def min_def)

lemma HasSuffixE:
  assumes "HasSuffix s p"
  obtains s' where "s = s' @ p" "TrimSuffix s p = s'"
  using assms by (metis HasSuffix_def TrimSuffix_def append_take_drop_id)

lemma Split_Nil_iff [simp]: "Split s sep \<noteq> []"
  by (cases "(s, sep)" rule: Split.cases) (auto split: list.splits)

lemma Split_plain: "sep \<notin> set s \<Longrightarrow> Split s sep = [s]"
  by (induction s) auto

lemma Split_append_sep: "sep \<notin> set p \<Longrightarrow> Split (p @ sep # s) sep = p # Split s sep"
  by (induction p) auto

lemma Split_Join:
  assumes "ps \<noteq> []" and "\<And>p. p \<in> set ps \<Longrightarrow> sep \<notin> set p"
  shows "Split (Join ps sep) sep = ps"
  using assms by (induction ps sep rule: Join.induct) (auto simp: Split_plain Split_append_sep)

lemma in_Split_sep: "p \<in> set (Split s sep) \<Longrightarrow> sep \<notin> set p"
proof (induction s arbitrary: p)
  case (Cons c s)
  show ?case
  proof (cases "Split s sep")
    case (Cons q qs)
    with Cons.IH Cons.prems show ?thesis by (auto split: if_splits)
  qed simp
qed simp

lemma Join_Split: "Join (Split s sep) sep = s"
proof (induction s)
  case (Cons c s)
  obtain p ps where sp: "Split s sep = p # ps" by (cases "Split s sep") auto
  with Cons show ?case by (cases ps) auto
qed simp

end
