(* ===== verification/Redact.thy ===== *)
theory Redact
  imports Go_Strings "HOL-Library.AList"
begin

text \<open>
  \<open>internal/evidence/redact/redact.go\<close>: the redaction rules that evidence payloads pass at
  ingestion. A payload is a \<open>structpb.Struct\<close>: \<open>pvalue\<close> has the kinds of
  \<open>structpb.Value\<close>, a number as the 64 bits of its double, the fields of a struct as an
  association list. The code changes a deep copy of the payload in place; the model returns the
  changed value. \<open>clone\<close> stands for \<open>structpb.NewStruct(s.AsMap())\<close> of the protobuf library,
  which fails on text that is not UTF-8.
\<close>

datatype pvalue =
    PNull
  | PNumber "64 word"
  | PString string
  | PBool bool
  | PStruct "(string \<times> pvalue) list"
  | PList "pvalue list"

record segment =
  seg_name :: string
  seg_wildcard :: bool

abbreviation name_seg :: "string \<Rightarrow> segment" where
  "name_seg n \<equiv> \<lparr>seg_name = n, seg_wildcard = False\<rparr>"

abbreviation wild_seg :: segment where
  "wild_seg \<equiv> \<lparr>seg_name = [], seg_wildcard = True\<rparr>"

datatype rule_problem = EmptyRule | NoDollarPrefix | NoPath | EmptySegment | OnlyStarSubscripts | NoSegments | RulesNotStrings

datatype redact_error = ErrMalformedRule rule_problem string | ClonePayload

definition Marker :: string where
  "Marker = ''<<REDACTED>>''"


section \<open>The rule grammar\<close>

text \<open>The inner loop of \<open>parseRule\<close>: the trailing \<open>[*]\<close> of a part are cut off and counted.\<close>

function strip_wildcards :: "string \<Rightarrow> nat \<Rightarrow> string \<times> nat" where
  "strip_wildcards name wildcards =
     (if HasSuffix name ''[*]'' then strip_wildcards (TrimSuffix name ''[*]'') (Suc wildcards)
      else (name, wildcards))"
  by pat_completeness auto
termination
  by (relation "measure (\<lambda>(name, _). length name)") (auto simp: length_TrimSuffix)

declare strip_wildcards.simps [simp del]

text \<open>One round of the loop over the parts, and the loop.\<close>

definition part_segments :: "string \<Rightarrow> string \<Rightarrow> redact_error + segment list" where
  "part_segments raw part =
     (if part = [] then Inl (ErrMalformedRule EmptySegment raw)
      else (case strip_wildcards part 0 of (name, wildcards) \<Rightarrow>
        if CHR ''['' \<in> set name \<or> CHR '']'' \<in> set name then Inl (ErrMalformedRule OnlyStarSubscripts raw)
        else if name = [] \<and> wildcards = 0 then Inl (ErrMalformedRule EmptySegment raw)
        else Inr ((if name \<noteq> [] then [name_seg name] else []) @ replicate wildcards wild_seg)))"

fun parse_parts :: "string \<Rightarrow> string list \<Rightarrow> segment list \<Rightarrow> redact_error + segment list" where
  "parse_parts raw [] segs = Inr segs"
| "parse_parts raw (part # parts) segs =
     (case part_segments raw part of Inl e \<Rightarrow> Inl e | Inr new \<Rightarrow> parse_parts raw parts (segs @ new))"

definition parseRule :: "string \<Rightarrow> redact_error + segment list" where
  "parseRule raw =
     (if raw = [] then Inl (ErrMalformedRule EmptyRule raw)
      else if \<not> HasPrefix raw ''$.'' then Inl (ErrMalformedRule NoDollarPrefix raw)
      else if drop 2 raw = [] then Inl (ErrMalformedRule NoPath raw)
      else (case parse_parts raw (Split (drop 2 raw) (CHR ''.'')) [] of
              Inl e \<Rightarrow> Inl e
            | Inr segs \<Rightarrow> if segs = [] then Inl (ErrMalformedRule NoSegments raw) else Inr segs))"


section \<open>Walking a payload\<close>

text \<open>
  \<open>walk\<close> with the leaf action of \<open>applyParsed\<close>: at the last segment the value is replaced,
  and a path that is not there changes nothing.
\<close>

fun walk :: "pvalue \<Rightarrow> segment list \<Rightarrow> pvalue" where
  "walk node [] = node"
| "walk node (seg # rest) =
     (if seg_wildcard seg then
        (case node of
           PList vs \<Rightarrow> PList (map (\<lambda>item. if rest = [] then PString Marker else walk item rest) vs)
         | _ \<Rightarrow> node)
      else
        (case node of
           PStruct fs \<Rightarrow>
             (case map_of fs (seg_name seg) of
                None \<Rightarrow> node
              | Some child \<Rightarrow>
                  PStruct (AList.update (seg_name seg) (if rest = [] then PString Marker else walk child rest) fs))
         | _ \<Rightarrow> node))"

definition applyParsed :: "(string \<times> pvalue) list \<Rightarrow> segment list \<Rightarrow> (string \<times> pvalue) list" where
  "applyParsed s segs = (case walk (PStruct s) segs of PStruct s' \<Rightarrow> s' | _ \<Rightarrow> s)"

fun apply_rules :: "(string \<times> pvalue) list \<Rightarrow> string list \<Rightarrow> redact_error + (string \<times> pvalue) list" where
  "apply_rules s [] = Inr s"
| "apply_rules s (raw # rules) =
     (case parseRule raw of Inl e \<Rightarrow> Inl e | Inr segs \<Rightarrow> apply_rules (applyParsed s segs) rules)"

definition Apply ::
  "((string \<times> pvalue) list \<Rightarrow> (string \<times> pvalue) list option) \<Rightarrow> (string \<times> pvalue) list option \<Rightarrow> string list \<Rightarrow>
   redact_error + (string \<times> pvalue) list option" where
  "Apply clone payload rules =
     (case payload of
        None \<Rightarrow> Inr None
      | Some p \<Rightarrow>
        if rules = [] then Inr (Some p)
        else (case clone p of None \<Rightarrow> Inl ClonePayload
              | Some c \<Rightarrow> (case apply_rules c rules of Inl e \<Rightarrow> Inl e | Inr p' \<Rightarrow> Inr (Some p'))))"

fun check_rules :: "string list \<Rightarrow> redact_error option" where
  "check_rules [] = None"
| "check_rules (r # rs) = (case parseRule r of Inl e \<Rightarrow> Some e | Inr _ \<Rightarrow> check_rules rs)"

definition ExtractRulesFromSchema ::
  "(bytes \<Rightarrow> (string \<rightharpoonup> bytes) option) \<Rightarrow> (bytes \<Rightarrow> string list option) \<Rightarrow> bytes \<Rightarrow> redact_error + string list" where
  "ExtractRulesFromSchema decode_object decode_strings schemaJSON =
     (if schemaJSON = [] then Inr []
      else (case decode_object schemaJSON of
              None \<Rightarrow> Inr []
            | Some doc \<Rightarrow>
              (case doc ''x-redaction-rules'' of
                 None \<Rightarrow> Inr []
               | Some raw \<Rightarrow>
                 (case decode_strings raw of
                    None \<Rightarrow> Inl (ErrMalformedRule RulesNotStrings raw)
                  | Some rules \<Rightarrow> (case check_rules rules of Some e \<Rightarrow> Inl e | None \<Rightarrow> Inr rules)))))"


section \<open>Locations of a payload\<close>

text \<open>
  A location is a path of field names and list positions. \<open>shallow\<close> is what is visible at a
  location itself: a scalar, the field names of a struct, the length of a list.
\<close>

datatype loc = Field string | Elem nat

fun value_at :: "pvalue \<Rightarrow> loc list \<Rightarrow> pvalue option" where
  "value_at v [] = Some v"
| "value_at (PStruct fs) (Field n # p) = (case map_of fs n of None \<Rightarrow> None | Some c \<Rightarrow> value_at c p)"
| "value_at (PList vs) (Elem i # p) = (if i < length vs then value_at (vs ! i) p else None)"
| "value_at v (l # p) = None"

fun matches :: "segment list \<Rightarrow> loc list \<Rightarrow> bool" where
  "matches [] [] = True"
| "matches (s # ss) (Field n # p) = (\<not> seg_wildcard s \<and> seg_name s = n \<and> matches ss p)"
| "matches (s # ss) (Elem i # p) = (seg_wildcard s \<and> matches ss p)"
| "matches ss p = False"

fun shallow :: "pvalue \<Rightarrow> pvalue" where
  "shallow (PStruct fs) = PStruct (map (\<lambda>k. (k, PNull)) (map fst fs))"
| "shallow (PList vs) = PList (replicate (length vs) PNull)"
| "shallow v = v"

abbreviation seen_at :: "pvalue \<Rightarrow> loc list \<Rightarrow> pvalue option" where
  "seen_at v p \<equiv> map_option shallow (value_at v p)"

abbreviation marked :: "pvalue option \<Rightarrow> pvalue option" where
  "marked d \<equiv> map_option (\<lambda>_. PString Marker) d"

text \<open>What one rule makes of what is seen at a location, and what a list of rules does.\<close>

definition mask_loc :: "segment list \<Rightarrow> loc list \<Rightarrow> pvalue option \<Rightarrow> pvalue option" where
  "mask_loc r p d =
     (if length r < length p \<and> matches r (take (length r) p) then None
      else if matches r p then marked d else d)"

definition masked_loc :: "segment list set \<Rightarrow> loc list \<Rightarrow> pvalue option \<Rightarrow> pvalue option" where
  "masked_loc R p d =
     (if \<exists>r \<in> R. length r < length p \<and> matches r (take (length r) p) then None
      else if \<exists>r \<in> R. matches r p then marked d else d)"

lemma matches_Nil [simp]: "matches [] p \<longleftrightarrow> p = []" "matches r [] \<longleftrightarrow> r = []"
  by (cases p; simp) (cases r; simp)

lemma value_at_scalar [simp]: "value_at (PString s) p = (if p = [] then Some (PString s) else None)"
  by (cases p) auto

lemma shallow_struct_eq:
  "map fst fs = map fst gs \<Longrightarrow> shallow (PStruct fs) = shallow (PStruct gs)"
  by (simp only: shallow.simps)

lemma keys_update_present: "map_of fs k = Some c \<Longrightarrow> map fst (AList.update k v fs) = map fst fs"
  by (simp add: update_keys) (metis image_eqI map_of_SomeD fst_conv)

lemma mask_loc_Cons [simp]:
  "mask_loc (s # r) [] d = d"
  "mask_loc (s # r) (l # p) d =
     (if (case l of Field n \<Rightarrow> \<not> seg_wildcard s \<and> seg_name s = n | Elem _ \<Rightarrow> seg_wildcard s)
      then mask_loc r p d else d)"
  by (cases l; simp add: mask_loc_def)+

lemma mask_loc_Nil: "mask_loc [] p d = (if p = [] then marked d else None)"
  by (simp add: mask_loc_def)

lemma mask_loc_None [simp]: "mask_loc r p None = None"
  by (simp add: mask_loc_def)

lemma seen_at_walk: "segs \<noteq> [] \<Longrightarrow> seen_at (walk v segs) p = mask_loc segs p (seen_at v p)"
proof (induction v segs arbitrary: p rule: walk.induct)
  case (2 node seg rest)
  let ?child = "\<lambda>c. if rest = [] then PString Marker else walk c rest"
  show ?case
  proof (cases p)
    case Nil
    then show ?thesis
      by (cases node) (auto split: option.splits simp del: shallow.simps(1) simp: keys_update_present intro!: shallow_struct_eq)
  next
    case (Cons l q)
    have child: "seen_at (?child c) q = mask_loc rest q (seen_at c q)"
      if "rest \<noteq> [] \<Longrightarrow> seen_at (walk c rest) q = mask_loc rest q (seen_at c q)" for c
      using that by (cases "rest = []") (auto simp: mask_loc_Nil)
    show ?thesis
    proof (cases "seg_wildcard seg")
      case True
      show ?thesis
      proof (cases node)
        case (PList vs)
        show ?thesis
        proof (cases l)
          case (Elem i)
          have "seen_at (?child (vs ! i)) q = mask_loc rest q (seen_at (vs ! i) q)" if "i < length vs"
            by (rule child) (use that True PList 2(1) in auto)
          then show ?thesis using True PList Cons Elem by simp
        qed (use True PList Cons in simp)
      qed (use True Cons in \<open>cases l; simp\<close>)+
    next
      case False
      show ?thesis
      proof (cases node)
        case (PStruct fs)
        show ?thesis
        proof (cases "map_of fs (seg_name seg)")
          case None
          then show ?thesis using False PStruct Cons by (cases l) auto
        next
          case (Some c)
          show ?thesis
          proof (cases l)
            case (Field n)
            have "seen_at (?child c) q = mask_loc rest q (seen_at c q)"
              by (rule child) (use False PStruct Some 2(2) in auto)
            then show ?thesis using False PStruct Some Cons Field by (cases "seg_name seg = n") (auto simp: update_conv')
          qed (use False PStruct Some Cons in simp)
        qed
      qed (use False Cons in \<open>cases l; simp\<close>)+
    qed
  qed
qed simp

lemma masked_loc_insert: "masked_loc (insert r R) p d = masked_loc R p (mask_loc r p d)"
  by (cases d) (auto simp: masked_loc_def mask_loc_def)

lemma masked_loc_empty [simp]: "masked_loc {} p d = d"
  by (simp add: masked_loc_def)

text \<open>A rule never turns the payload into something that is not a struct.\<close>

lemma PStruct_applyParsed: "PStruct (applyParsed s segs) = walk (PStruct s) segs"
  by (cases segs) (auto simp: applyParsed_def split: option.splits)

lemma parseRule_nonempty: "parseRule raw = Inr segs \<Longrightarrow> segs \<noteq> []"
  by (auto simp: parseRule_def split: if_splits sum.splits)

lemma Apply_keeps_payload: "Apply clone (Some p) rules = Inr q \<Longrightarrow> q \<noteq> None"
  by (auto simp: Apply_def split: if_splits option.splits sum.splits)

lemma apply_rules_exact:
  "apply_rules s rules = Inr s' \<Longrightarrow>
     seen_at (PStruct s') p = masked_loc {segs. \<exists>raw \<in> set rules. parseRule raw = Inr segs} p (seen_at (PStruct s) p)"
proof (induction s rules rule: apply_rules.induct)
  case (2 s raw rules)
  then obtain segs where segs: "parseRule raw = Inr segs" and run: "apply_rules (applyParsed s segs) rules = Inr s'"
    by (auto split: sum.splits)
  have "{x. \<exists>r \<in> set (raw # rules). parseRule r = Inr x} = insert segs {x. \<exists>r \<in> set rules. parseRule r = Inr x}"
    using segs by auto
  then show ?case
    using 2(1) [OF segs run] by (simp add: masked_loc_insert PStruct_applyParsed seen_at_walk parseRule_nonempty [OF segs])
qed simp

lemma apply_rules_Inl_iff:
  "(\<exists>e. apply_rules s rules = Inl e) \<longleftrightarrow> (\<exists>raw \<in> set rules. \<exists>e. parseRule raw = Inl e)"
  by (induction s rules rule: apply_rules.induct) (auto split: sum.splits)


section \<open>Writing a rule\<close>

text \<open>The text of a path: names joined by points, a subscript for every wildcard.\<close>

fun render_tail :: "segment list \<Rightarrow> string" where
  "render_tail [] = []"
| "render_tail (s # ss) = (if seg_wildcard s then ''[*]'' else CHR ''.'' # seg_name s) @ render_tail ss"

definition render_rule :: "segment list \<Rightarrow> string" where
  "render_rule segs =
     ''$.'' @ (case segs of [] \<Rightarrow> [] | s # ss \<Rightarrow> (if seg_wildcard s then ''[*]'' else seg_name s) @ render_tail ss)"

definition plain_name :: "string \<Rightarrow> bool" where
  "plain_name n \<longleftrightarrow> n \<noteq> [] \<and> set n \<inter> {CHR ''.'', CHR ''['', CHR '']''} = {}"

definition segment_ok :: "segment \<Rightarrow> bool" where
  "segment_ok s \<longleftrightarrow> (if seg_wildcard s then seg_name s = [] else plain_name (seg_name s))"

abbreviation subscripts :: "nat \<Rightarrow> string" where
  "subscripts k \<equiv> concat (replicate k ''[*]'')"

lemma subscripts_Suc: "subscripts (Suc k) = subscripts k @ ''[*]''"
  by (induction k) simp_all

lemma no_subscript: "CHR '']'' \<notin> set n \<Longrightarrow> \<not> HasSuffix n ''[*]''"
  by (auto elim: HasSuffixE)

lemma strip_step: "strip_wildcards (n @ ''[*]'') w = strip_wildcards n (Suc w)"
  by (subst strip_wildcards.simps) (simp only: HasSuffix_append TrimSuffix_append if_True)

lemma strip_subscripts:
  assumes "CHR '']'' \<notin> set n"
  shows "strip_wildcards (n @ subscripts k) w = (n, w + k)"
proof (induction k arbitrary: w)
  case 0
  show ?case using no_subscript [OF assms] by (subst strip_wildcards.simps) simp
next
  case (Suc k)
  have "strip_wildcards (n @ subscripts (Suc k)) w = strip_wildcards (n @ subscripts k) (Suc w)"
    unfolding subscripts_Suc append_assoc [symmetric] by (rule strip_step)
  with Suc.IH show ?case by simp
qed

lemma part_segments_render:
  assumes "plain_name n \<or> n = [] \<and> 0 < k"
  shows "part_segments raw (n @ subscripts k) = Inr ((if n \<noteq> [] then [name_seg n] else []) @ replicate k wild_seg)"
proof -
  have n: "CHR '']'' \<notin> set n" "CHR ''['' \<notin> set n" "n @ subscripts k \<noteq> []"
    using assms by (auto simp: plain_name_def neq0_conv [symmetric] simp del: neq0_conv)
  with assms strip_subscripts [OF n(1), of k 0] show ?thesis by (auto simp: part_segments_def)
qed

lemma no_point_in_subscripts: "CHR ''.'' \<notin> set (subscripts k)"
  by auto

lemma parse_parts_render:
  assumes "list_all segment_ok ss" and "plain_name n \<or> n = [] \<and> 0 < k"
  shows "parse_parts raw (Split (n @ subscripts k @ render_tail ss) (CHR ''.'')) acc =
    Inr (acc @ (if n \<noteq> [] then [name_seg n] else []) @ replicate k wild_seg @ ss)"
  using assms
proof (induction ss arbitrary: n k acc)
  case Nil
  then have "CHR ''.'' \<notin> set (n @ subscripts k)" by (auto simp: plain_name_def)
  with part_segments_render [OF Nil.prems(2), of raw] show ?case by (simp add: Split_plain del: append_assoc)
next
  case (Cons s ss)
  have nk: "CHR ''.'' \<notin> set (n @ subscripts k)" using Cons.prems(2) by (auto simp: plain_name_def)
  show ?case
  proof (cases "seg_wildcard s")
    case True
    with Cons.prems(1) have s: "s = wild_seg" by (simp add: segment_ok_def)
    have "parse_parts raw (Split (n @ subscripts (Suc k) @ render_tail ss) (CHR ''.'')) acc =
        Inr (acc @ (if n \<noteq> [] then [name_seg n] else []) @ replicate (Suc k) wild_seg @ ss)"
      by (rule Cons.IH) (use Cons.prems in auto)
    moreover have "subscripts k @ render_tail (s # ss) = subscripts (Suc k) @ render_tail ss"
      unfolding subscripts_Suc using True by simp
    moreover have "replicate k wild_seg @ s # ss = replicate (Suc k) wild_seg @ ss"
      unfolding s by (simp add: replicate_app_Cons_same)
    ultimately show ?thesis by (simp only:)
  next
    case False
    with Cons.prems(1) have s: "s = name_seg (seg_name s)" "plain_name (seg_name s)"
      by (simp_all add: segment_ok_def)
    have "Split (n @ subscripts k @ render_tail (s # ss)) (CHR ''.'') =
        (n @ subscripts k) # Split (seg_name s @ subscripts 0 @ render_tail ss) (CHR ''.'')"
      using Split_append_sep [OF nk, of "seg_name s @ render_tail ss"] False by simp
    moreover have "parse_parts raw (Split (seg_name s @ subscripts 0 @ render_tail ss) (CHR ''.'')) (acc @ xs) =
        Inr ((acc @ xs) @ (if seg_name s \<noteq> [] then [name_seg (seg_name s)] else []) @ replicate 0 wild_seg @ ss)" for xs
      by (rule Cons.IH) (use Cons.prems s in auto)
    ultimately show ?thesis
      using part_segments_render [OF Cons.prems(2), of raw] s by (simp add: plain_name_def)
  qed
qed


section \<open>Properties\<close>

text \<open>
  Reading and writing rules: the text of a path of plain names and wildcards is accepted by the
  parser and gives back the path.
\<close>

theorem parseRule_render_rule:
  assumes "segs \<noteq> []" and "list_all segment_ok segs"
  shows "parseRule (render_rule segs) = Inr segs"
proof -
  obtain s ss where segs: "segs = s # ss" using assms(1) by (cases segs) auto
  have "parse_parts raw (Split (drop 2 (render_rule segs)) (CHR ''.'')) [] = Inr segs" for raw
  proof (cases "seg_wildcard s")
    case True
    with assms(2) segs have "s = wild_seg" by (simp add: segment_ok_def)
    with parse_parts_render [of ss "[]" 1 raw "[]"] assms(2) segs show ?thesis by (simp add: render_rule_def)
  next
    case False
    with assms(2) segs have "s = name_seg (seg_name s)" "plain_name (seg_name s)" by (simp_all add: segment_ok_def)
    with parse_parts_render [of ss "seg_name s" 0 raw "[]"] assms(2) segs False show ?thesis
      by (simp add: render_rule_def plain_name_def)
  qed
  moreover have "drop 2 (render_rule segs) \<noteq> []"
    using assms(2) segs by (auto simp: render_rule_def segment_ok_def plain_name_def)
  moreover have "HasPrefix (render_rule segs) ''$.''" "render_rule segs \<noteq> []"
    by (simp_all add: render_rule_def HasPrefix_def)
  ultimately show ?thesis using assms(1) by (simp add: parseRule_def)
qed

text \<open>
  C4. Redaction masks exactly what its rules name. For a payload that the protobuf library copies
  faithfully it fails exactly when a rule is malformed, so that no payload is stored with a rule left
  out. Otherwise, at every location of the payload: nothing is left below a value that a rule names,
  the value itself has become the marker if it was there, and at every other location the scalar, the
  field names or the length of the list are what they were.
\<close>

theorem Apply_exact:
  assumes "clone p = Some p" and "rules \<noteq> []"
  shows "case Apply clone (Some p) rules of
      Inl e \<Rightarrow> \<exists>raw \<in> set rules. \<exists>e'. parseRule raw = Inl e'
    | Inr None \<Rightarrow> False
    | Inr (Some p') \<Rightarrow>
        (\<forall>raw \<in> set rules. \<exists>segs. parseRule raw = Inr segs \<and> segs \<noteq> [])
        \<and> (\<forall>l. let R = {segs. \<exists>raw \<in> set rules. parseRule raw = Inr segs} in
             seen_at (PStruct p') l =
               (if \<exists>r \<in> R. length r < length l \<and> matches r (take (length r) l) then None
                else if \<exists>r \<in> R. matches r l then map_option (\<lambda>_. PString Marker) (value_at (PStruct p) l)
                else seen_at (PStruct p) l))"
proof (cases "apply_rules p rules")
  case (Inl e)
  then have "\<exists>raw \<in> set rules. \<exists>e'. parseRule raw = Inl e'" using apply_rules_Inl_iff by blast
  with assms Inl show ?thesis by (simp add: Apply_def)
next
  case (Inr p')
  then have "\<nexists>raw. raw \<in> set rules \<and> (\<exists>e. parseRule raw = Inl e)" using apply_rules_Inl_iff [of p rules] by auto
  then have "\<exists>segs. parseRule raw = Inr segs \<and> segs \<noteq> []" if "raw \<in> set rules" for raw
    using that by (metis parseRule_nonempty sum.exhaust)
  moreover have "seen_at (PStruct p') l =
      (if \<exists>r \<in> {segs. \<exists>raw \<in> set rules. parseRule raw = Inr segs}. length r < length l \<and> matches r (take (length r) l) then None
       else if \<exists>r \<in> {segs. \<exists>raw \<in> set rules. parseRule raw = Inr segs}. matches r l then marked (value_at (PStruct p) l)
       else seen_at (PStruct p) l)" for l
  proof -
    have "marked (seen_at (PStruct p) l) = marked (value_at (PStruct p) l)" by (cases "value_at (PStruct p) l") simp_all
    then show ?thesis by (simp only: apply_rules_exact [OF Inr] masked_loc_def)
  qed
  moreover have "Apply clone (Some p) rules = Inr (Some p')" using assms Inr by (simp add: Apply_def)
  ultimately show ?thesis unfolding Let_def by simp
qed

definition demo_payload :: "(string \<times> pvalue) list" where
  "demo_payload =
     [(''repo'', PString ''atlas''),
      (''findings'', PList [PStruct [(''token'', PString ''s3cret''), (''line'', PNumber 7)]])]"

theorem Apply_exact_witness:
  "\<exists>p'. Apply Some (Some demo_payload) [''$.findings[*].token''] = Inr (Some p')
     \<and> value_at (PStruct p') [Field ''findings'', Elem 0, Field ''token''] = Some (PString Marker)
     \<and> value_at (PStruct p') [Field ''repo''] = Some (PString ''atlas'')"
proof -
  have r: "parseRule ''$.findings[*].token'' = Inr [name_seg ''findings'', wild_seg, name_seg ''token'']"
    using parseRule_render_rule [of "[name_seg ''findings'', wild_seg, name_seg ''token'']"]
    by (simp add: segment_ok_def plain_name_def render_rule_def)
  then have "{segs. \<exists>raw \<in> set [''$.findings[*].token'']. parseRule raw = Inr segs} =
      {[name_seg ''findings'', wild_seg, name_seg ''token'']}" by auto
  note th = Apply_exact [of Some demo_payload "[''$.findings[*].token'']", unfolded this Let_def]
  obtain p' where p': "Apply Some (Some demo_payload) [''$.findings[*].token''] = Inr (Some p')"
    by (simp add: Apply_def r)
  with th have eq: "seen_at (PStruct p') l =
      (if \<exists>r \<in> {[name_seg ''findings'', wild_seg, name_seg ''token'']}. length r < length l \<and> matches r (take (length r) l)
       then None
       else if \<exists>r \<in> {[name_seg ''findings'', wild_seg, name_seg ''token'']}. matches r l
       then marked (value_at (PStruct demo_payload) l) else seen_at (PStruct demo_payload) l)" for l
    by (simp only: refl sum.case option.case) blast
  have "seen_at (PStruct p') [Field ''findings'', Elem 0, Field ''token''] = Some (PString Marker)"
    "seen_at (PStruct p') [Field ''repo''] = Some (PString ''atlas'')"
    unfolding eq by (simp_all add: demo_payload_def)
  then have "value_at (PStruct p') [Field ''findings'', Elem 0, Field ''token''] = Some (PString Marker)"
    "value_at (PStruct p') [Field ''repo''] = Some (PString ''atlas'')"
    by (auto elim: shallow.elims)
  with p' show ?thesis by blast
qed

end
