(* ===== verification/Canon_Record.thy ===== *)
theory Canon_Record
  imports Redact "HOL-Library.Multiset"
begin

text \<open>
  \<open>internal/canonjson/canonjson.go\<close>: the content hash of an evidence record, which does not
  depend on the order in which a client lists scope dimensions and their values, and the text of
  the scope that the ledger keeps beside the hash. The records are the messages of
  \<open>proto/evidence/v1/evidence.proto\<close>; a message field that may be absent is an option.

  Parameters: the deterministic protobuf encoding, SHA-256 as a hexadecimal text, and the JSON
  encoder and decoder for a list of scope dimensions. \<open>sort.Slice\<close> leaves the order of
  dimensions with equal keys open; the model keeps their order, as the library does for up to
  twelve dimensions.
\<close>

record ScopeDimension =
  sd_Key :: string
  sd_Values :: "string list"

datatype Result =
    RESULT_UNSPECIFIED | RESULT_PASS | RESULT_FAIL | RESULT_NA | RESULT_INCONCLUSIVE | RESULT_UNRECOGNIZED int

record Timestamp =
  ts_Seconds :: int
  ts_Nanos :: int

record SourceAttribution =
  sa_ActorType :: string
  sa_ActorId :: string
  sa_SessionId :: string

record EvidenceRecord =
  rec_IdempotencyKey :: string
  rec_EvidenceKind :: string
  rec_SchemaVersion :: string
  rec_ControlId :: string
  rec_Scope :: "ScopeDimension list"
  rec_ObservedAt :: "Timestamp option"
  rec_Result :: Result
  rec_Payload :: "(string \<times> pvalue) list option"
  rec_SourceAttribution :: "SourceAttribution option"
  rec_PayloadUri :: "string option"

record canon_lib =
  cl_proto :: "EvidenceRecord \<Rightarrow> bytes option"
  cl_sha256hex :: "bytes \<Rightarrow> string"
  cl_scope_json :: "ScopeDimension list \<Rightarrow> bytes"
  cl_scope_parse :: "bytes \<Rightarrow> ScopeDimension list option"

definition sortedScope :: "ScopeDimension list \<Rightarrow> ScopeDimension list" where
  "sortedScope scope =
     (if scope = [] then scope
      else sort_key sd_Key (map (\<lambda>d. \<lparr>sd_Key = sd_Key d, sd_Values = sort (sd_Values d)\<rparr>) scope))"

definition HashRecord :: "canon_lib \<Rightarrow> EvidenceRecord \<Rightarrow> string option" where
  "HashRecord lib r =
     (case cl_proto lib (r\<lparr>rec_Scope := sortedScope (rec_Scope r)\<rparr>) of
        None \<Rightarrow> None
      | Some b \<Rightarrow> Some (cl_sha256hex lib b))"

definition MarshalCanonicalScope :: "canon_lib \<Rightarrow> ScopeDimension list \<Rightarrow> bytes" where
  "MarshalCanonicalScope lib scope =
     (if scope = [] then ''null'' else cl_scope_json lib (sortedScope scope))"

definition UnmarshalCanonicalScope :: "canon_lib \<Rightarrow> bytes \<Rightarrow> ScopeDimension list option" where
  "UnmarshalCanonicalScope lib raw =
     (if raw = [] \<or> raw = ''null'' then Some [] else cl_scope_parse lib raw)"


section \<open>The canonical scope\<close>

abbreviation sort_values :: "ScopeDimension \<Rightarrow> ScopeDimension" where
  "sort_values d \<equiv> \<lparr>sd_Key = sd_Key d, sd_Values = sort (sd_Values d)\<rparr>"

lemma sortedScope_alt: "sortedScope scope = sort_key sd_Key (map sort_values scope)"
  by (simp add: sortedScope_def)

lemma sortedScope_Nil_iff [simp]: "sortedScope scope = [] \<longleftrightarrow> scope = []"
proof -
  have "length (sortedScope scope) = length scope" by (simp add: sortedScope_alt)
  then show ?thesis by auto
qed

lemma sortedScope_idem [simp]: "sortedScope (sortedScope scope) = sortedScope scope"
proof -
  have "map sort_values (sort_key sd_Key (map sort_values scope)) = sort_key sd_Key (map sort_values scope)"
    by (rule map_idI) (auto simp: sorted_sort_id)
  then show ?thesis unfolding sortedScope_alt by (simp add: sort_key_id_if_sorted)
qed

text \<open>Two lists with the same dimensions, under distinct keys, have the same canonical form.\<close>

lemma sort_key_unique:
  assumes "mset xs = mset ys" and "distinct (map k xs)"
  shows "sort_key k xs = sort_key k ys"
proof -
  have inj: "inj_on k (set (sort_key k xs))" using assms(2) by (simp add: distinct_map)
  have srt: "map k (sort_key k zs) = sort (map k zs)" for zs
    by (rule properties_for_sort [symmetric]) simp_all
  have "mset (map k xs) = mset (map k ys)" using assms(1) by simp
  then have "sort (map k xs) = sort (map k ys)" by (intro properties_for_sort) simp_all
  then have "map k (sort_key k xs) = map k (sort_key k ys)" by (simp only: srt)
  moreover have "set (sort_key k ys) = set (sort_key k xs)" using mset_eq_setD [OF assms(1)] by simp
  ultimately show ?thesis using inj by (metis inj_on_map_eq_map Un_absorb)
qed

lemma sortedScope_order:
  assumes "mset (map sort_values xs) = mset (map sort_values ys)" and "distinct (map sd_Key xs)"
  shows "sortedScope xs = sortedScope ys"
  unfolding sortedScope_alt by (rule sort_key_unique [OF assms(1)]) (use assms(2) in \<open>simp add: comp_def\<close>)

lemma HashRecord_order:
  assumes "mset (map sort_values (rec_Scope r)) = mset (map sort_values scope)" and "distinct (map sd_Key (rec_Scope r))"
  shows "HashRecord lib (r\<lparr>rec_Scope := scope\<rparr>) = HashRecord lib r"
  using sortedScope_order [OF assms] by (simp add: HashRecord_def)

lemma HashRecord_canonical [simp]: "HashRecord lib (r\<lparr>rec_Scope := sortedScope (rec_Scope r)\<rparr>) = HashRecord lib r"
  by (simp add: HashRecord_def)

text \<open>What the ledger keeps of the scope gives back the canonical scope.\<close>

lemma scope_round_trip:
  assumes "scope \<noteq> []" and "cl_scope_parse lib (store (cl_scope_json lib (sortedScope scope))) = Some (sortedScope scope)"
    and "store (cl_scope_json lib (sortedScope scope)) \<notin> {[], ''null''}"
  shows "UnmarshalCanonicalScope lib (store (MarshalCanonicalScope lib scope)) = Some (sortedScope scope)"
  using assms by (simp add: UnmarshalCanonicalScope_def MarshalCanonicalScope_def)

end
