(* ===== verification/Append_Log.thy ===== *)
theory Append_Log
  imports Atlas_Prelude
begin

text \<open>
  The contract of an append-only table with a unique key: steps add rows at its end and keep an
  invariant under which no two rows have the same key. What its clients rely on is proved here once:
  over any run the rows that are there stay, and a lookup by key keeps finding the row it found.
  The evidence ledger provides it under its idempotency key, and the table of drawn samples under its
  identifier.
\<close>

lemma distinct_filter_eq: "distinct xs \<Longrightarrow> length (filter ((=) a) xs) \<le> 1"
  by (induction xs) (auto simp: filter_empty_conv)

locale append_log =
  fixes step :: "'s \<Rightarrow> 's \<Rightarrow> bool" and rows :: "'s \<Rightarrow> 'r list" and key :: "'r \<Rightarrow> 'k option" and inv :: "'s \<Rightarrow> bool"
  assumes step_inv: "step s s' \<Longrightarrow> inv s \<Longrightarrow> inv s'"
    and step_appends: "step s s' \<Longrightarrow> inv s \<Longrightarrow> \<exists>new. rows s' = rows s @ new"
    and key_distinct: "inv s \<Longrightarrow> distinct (map key (filter (\<lambda>r. key r \<noteq> None) (rows s)))"
begin

lemma run_appends: "step\<^sup>*\<^sup>* s s' \<Longrightarrow> inv s \<Longrightarrow> inv s' \<and> (\<exists>new. rows s' = rows s @ new)"
proof (induction rule: rtranclp_induct)
  case (step b c)
  then obtain new where "inv b" "rows b = rows s @ new" by blast
  with step_inv [OF step(2)] step_appends [OF step(2)] show ?case by force
qed simp

lemma run_member: "step\<^sup>*\<^sup>* s s' \<Longrightarrow> inv s \<Longrightarrow> r \<in> set (rows s) \<Longrightarrow> r \<in> set (rows s')"
  using run_appends by fastforce

text \<open>The rows under one key.\<close>

lemma rows_of_key:
  assumes "inv s" and "r \<in> set (rows s)" and "key r = Some k"
  shows "filter (\<lambda>x. key x = Some k) (rows s) = [r]"
proof -
  let ?keyed = "filter (\<lambda>x. key x \<noteq> None) (rows s)"
  have "filter (\<lambda>x. key x = Some k) ?keyed = filter (\<lambda>x. key x = Some k) (rows s)"
    unfolding filter_filter by (rule filter_cong) auto
  moreover have "length (filter (\<lambda>x. key x = Some k) ?keyed) \<le> 1"
  proof -
    have "length (filter (\<lambda>x. key x = Some k) ?keyed) = length (filter ((=) (Some k)) (map key ?keyed))"
      by (simp add: filter_map comp_def eq_commute)
    also have "\<dots> \<le> 1"
      by (rule distinct_filter_eq [OF key_distinct [OF assms(1)]])
    finally show ?thesis .
  qed
  moreover have "r \<in> set (filter (\<lambda>x. key x = Some k) (rows s))" using assms(2,3) by simp
  ultimately show ?thesis by (cases "filter (\<lambda>x. key x = Some k) (rows s)") auto
qed

lemma find_key:
  assumes "inv s" and "r \<in> set (rows s)" and "key r = Some k"
  shows "List.find (\<lambda>x. key x = Some k) (rows s) = Some r"
proof -
  obtain x where x: "List.find (\<lambda>x. key x = Some k) (rows s) = Some x"
    using assms(2,3) by (cases "List.find (\<lambda>x. key x = Some k) (rows s)") (auto simp: find_None_iff)
  from find_SomeD [OF x] have "x \<in> set (filter (\<lambda>x. key x = Some k) (rows s))" by simp
  then have "x = r" unfolding rows_of_key [OF assms] by simp
  with x show ?thesis by simp
qed

lemma run_rows_of_key:
  assumes "step\<^sup>*\<^sup>* s s'" and "inv s" and "r \<in> set (rows s)" and "key r = Some k"
  shows "filter (\<lambda>x. key x = Some k) (rows s') = [r]"
  using rows_of_key [OF _ run_member [OF assms(1-3)] assms(4)] run_appends [OF assms(1,2)] by blast

lemma run_find_key:
  assumes "step\<^sup>*\<^sup>* s s'" and "inv s" and "r \<in> set (rows s)" and "key r = Some k"
  shows "List.find (\<lambda>x. key x = Some k) (rows s') = Some r"
  using find_key [OF _ run_member [OF assms(1-3)] assms(4)] run_appends [OF assms(1,2)] by blast

end

end
