(* ===== verification/Evidence_Ingest.thy ===== *)
theory Evidence_Ingest
  imports Canon_Record Eval_Engine Append_Log
begin

text \<open>
  \<open>internal/evidence/ingest\<close>: the ingestion stage that turns a pushed record into a row of the
  append-only ledger (\<open>ingest.go\<close>), the receipt a pusher polls, and the verification that
  rebuilds a record from its row and compares hashes (\<open>verify.go\<close>), with the queries of
  \<open>internal/db/queries/evidence_ledger.sql\<close> and the constraints of the two tables.

  The ledger transaction and the best-effort audit transaction have contexts of their own. The
  schema registry is an interface in the source and an argument here, as are the protobuf JSON
  codec, the JSON texts of provenance and attribution, the texts of audit reasons, and
  \<open>il_jsonb\<close>, what a \<open>jsonb\<close> column gives back for a text it accepts.
\<close>

record Credential =
  cred_ID :: string
  cred_TenantID :: string
  cred_ScopePredicate :: string
  cred_Kinds :: "string list"

datatype Decision =
    DecisionUnknown | DecisionAccepted | DecisionDeduplicated | DecisionRejectedValidation
  | DecisionRejectedUnknownKind | DecisionRejectedIdempotencyMismatch | DecisionRejectedScopeViolation
  | DecisionRejectedObservedAtSkew | DecisionRejectedOversized | DecisionRejectedUnauthenticated
  | DecisionRejectedRateLimit | DecisionRejectedInternalError

fun Decision_String :: "Decision \<Rightarrow> string" where
  "Decision_String DecisionAccepted = ''accepted''"
| "Decision_String DecisionDeduplicated = ''deduplicated''"
| "Decision_String DecisionRejectedValidation = ''rejected_validation''"
| "Decision_String DecisionRejectedUnknownKind = ''rejected_unknown_kind''"
| "Decision_String DecisionRejectedIdempotencyMismatch = ''rejected_idempotency_mismatch''"
| "Decision_String DecisionRejectedScopeViolation = ''rejected_scope_violation''"
| "Decision_String DecisionRejectedObservedAtSkew = ''rejected_observed_at_skew''"
| "Decision_String DecisionRejectedOversized = ''rejected_oversized''"
| "Decision_String DecisionRejectedUnauthenticated = ''rejected_unauthenticated''"
| "Decision_String DecisionRejectedRateLimit = ''rejected_rate_limit''"
| "Decision_String _ = ''rejected_internal_error''"

datatype ingest_error =
    RecordIsNil | NoTenantInCredential
  | ErrMissingField string | ErrObservedAtSkew | ErrOversized | ErrUnknownKind
  | ErrValidation | RedactionLookupFailed | RedactionApplyFailed redact_error | RemarshalFailed
  | ErrScopeViolation | HashFailed | UnrecognizedResult
  | TenantContext tx_error | ApplyTenantFailed tx_error
  | ErrIdempotencyMismatch | InsertEvidence pg_error | LedgerTx tx_error

text \<open>The \<open>reason\<close> argument of \<open>writeAudit\<close>, before it is formatted as a text.\<close>

datatype ingest_reason =
    NilRecordReason | MissingFieldReason string | SkewReason duration | MarshalReason | OversizedReason nat
  | UnknownKindReason string string | ValidationReason string | RedactionLookupReason string
  | RedactionApplyReason redact_error | RemarshalReason | KindReason string string | PredicateReason string
  | HashReason | ResultReason | TenantReason tx_error | MismatchReason | TxReason ingest_error | NoReason

record ingest_lib = canon_lib +
  il_protojson :: "(string \<times> pvalue) list \<Rightarrow> bytes option"
  il_protojson_parse :: "bytes \<Rightarrow> (string \<times> pvalue) list option"
  il_clone :: "(string \<times> pvalue) list \<Rightarrow> (string \<times> pvalue) list option"
  il_attribution_json :: "SourceAttribution \<Rightarrow> bytes"
  il_attribution_parse :: "bytes \<Rightarrow> SourceAttribution option"
  il_provenance_json :: "string \<Rightarrow> string \<Rightarrow> gotime \<Rightarrow> string \<Rightarrow> bytes"
  il_jsonb :: "bytes \<Rightarrow> bytes option"
  il_parse_uuid :: "string \<Rightarrow> uuid option"
  il_uuid_string :: "uuid \<Rightarrow> string"
  il_reason :: "ingest_reason \<Rightarrow> string"
  il_registered :: "string \<Rightarrow> string \<Rightarrow> string \<Rightarrow> bool"
  il_validate :: "string \<Rightarrow> string \<Rightarrow> string \<Rightarrow> bytes \<Rightarrow> string option"
  il_rules :: "string \<Rightarrow> string \<Rightarrow> string \<Rightarrow> string + string list"

record evidence_audit =
  ea_ID :: uuid
  ea_TenantID :: uuid
  ea_CredentialID :: string
  ea_Decision :: string
  ea_ReasonCode :: string
  ea_IdempotencyKey :: "string option"
  ea_EvidenceKind :: "string option"
  ea_RecordID :: "uuid option"
  ea_ReceivedAt :: gotime

record ingest_db = eval_db +
  db_evidence_audit :: "evidence_audit list"

record Receipt =
  rc_RecordID :: string
  rc_Hash :: string
  rc_IngestedAt :: gotime
  rc_CredentialID :: string
  rc_Deduplicated :: bool

record ReceiptStatus =
  rst_RecordID :: string
  rst_CredentialID :: string
  rst_Decision :: string
  rst_ReasonCode :: string
  rst_IdempotencyKey :: "string option"
  rst_EvidenceKind :: "string option"
  rst_ReceivedAt :: gotime

text \<open>The clocks, identifiers and contexts one call of \<open>Process\<close> draws.\<close>

record ingest_draw =
  id_env :: txenv
  id_audit_env :: txenv
  id_new :: uuid
  id_audit :: uuid
  id_now :: gotime
  id_dbnow :: gotime
  id_audit_dbnow :: gotime

definition MaxObservedAtSkew :: duration where
  "MaxObservedAtSkew = hours 24"

definition MaxPayloadBytes :: nat where
  "MaxPayloadBytes = 1048576"


section \<open>Helpers\<close>

text \<open>\<open>timestamppb\<close> and \<open>time\<close>: instants count from year 1, Unix times from 1970.\<close>

definition unix_epoch :: gotime where
  "unix_epoch = 62135596800000000000"

definition AsTime :: "Timestamp \<Rightarrow> gotime" where
  "AsTime ts = unix_epoch + ts_Seconds ts * 1000000000 + ts_Nanos ts"

definition timestamp_New :: "gotime \<Rightarrow> Timestamp" where
  "timestamp_New t = \<lparr>ts_Seconds = (t - unix_epoch) div 1000000000, ts_Nanos = (t - unix_epoch) mod 1000000000\<rparr>"

definition UnixNano :: "gotime \<Rightarrow> 64 word" where
  "UnixNano t = word_of_int (t - unix_epoch)"

definition time_of_nanos :: "64 word \<Rightarrow> gotime" where
  "time_of_nanos n = unix_epoch + sint n"

definition ptrStr :: "string \<Rightarrow> string option" where
  "ptrStr s = (if s = [] then None else Some s)"

definition truncate_text :: "string \<Rightarrow> nat \<Rightarrow> string" where
  "truncate_text s n = (if length s > n then take n s else s)"

fun scope_missing :: "ScopeDimension list \<Rightarrow> string" where
  "scope_missing [] = []"
| "scope_missing (d # ds) =
     (if sd_Key d = [] then ''scope dimension key is required''
      else if sd_Values d = [] then ''scope dimension values is required''
      else scope_missing ds)"

definition missingField :: "EvidenceRecord \<Rightarrow> string" where
  "missingField r =
     (if rec_IdempotencyKey r = [] then ''idempotency_key is required''
      else if rec_EvidenceKind r = [] then ''evidence_kind is required''
      else if rec_SchemaVersion r = [] then ''schema_version is required''
      else if rec_ControlId r = [] then ''control_id is required''
      else if rec_Scope r = [] then ''scope is required (at least one dimension)''
      else if rec_ObservedAt r = None then ''observed_at is required''
      else if rec_Result r = RESULT_UNSPECIFIED then ''result is required''
      else if rec_Payload r = None then ''payload is required''
      else if rec_SourceAttribution r = None then ''source_attribution is required''
      else scope_missing (rec_Scope r))"

definition scope_have :: "ScopeDimension list \<Rightarrow> string \<rightharpoonup> string list" where
  "scope_have scope = foldl (\<lambda>have d. have(sd_Key d \<mapsto> sd_Values d)) Map.empty scope"

fun predicate_parts :: "(string \<rightharpoonup> string list) \<Rightarrow> string list \<Rightarrow> bool" where
  "predicate_parts have [] = True"
| "predicate_parts have (part # parts) =
     (let part = TrimSpace part in
      if part = [] then predicate_parts have parts
      else (case SplitN2 part (CHR ''='') of
              [k, v] \<Rightarrow>
                (case have (TrimSpace k) of
                   None \<Rightarrow> False
                 | Some vals \<Rightarrow> TrimSpace v \<in> set vals \<and> predicate_parts have parts)
            | _ \<Rightarrow> False))"

definition scopeSatisfiesPredicate :: "ScopeDimension list \<Rightarrow> string \<Rightarrow> bool" where
  "scopeSatisfiesPredicate scope predicate = predicate_parts (scope_have scope) (Split predicate (CHR '',''))"

fun protoResultToEnum :: "Result \<Rightarrow> string \<times> bool" where
  "protoResultToEnum RESULT_PASS = (''pass'', True)"
| "protoResultToEnum RESULT_FAIL = (''fail'', True)"
| "protoResultToEnum RESULT_NA = (''na'', True)"
| "protoResultToEnum RESULT_INCONCLUSIVE = (''inconclusive'', True)"
| "protoResultToEnum _ = (''inconclusive'', False)"

definition resultEnumToProto :: "string \<Rightarrow> Result" where
  "resultEnumToProto r =
     (if r = ''pass'' then RESULT_PASS else if r = ''fail'' then RESULT_FAIL
      else if r = ''na'' then RESULT_NA else if r = ''inconclusive'' then RESULT_INCONCLUSIVE
      else RESULT_UNSPECIFIED)"

text \<open>\<open>pgx.BeginTxFunc\<close>: begin, run the function, commit, or roll back on its error.\<close>

definition BeginTxFunc :: "txenv \<Rightarrow> ('s \<Rightarrow> 'e + 'a \<times> 's) \<Rightarrow> 's \<Rightarrow> ('e err + 'a) \<times> 's" where
  "BeginTxFunc env fn s =
     (if \<not> te_begin_ok env then (Inl (Tx ErrBegin), s)
      else (case fn s of
              Inl e \<Rightarrow> (Inl (Dom e), s)
            | Inr (a, s') \<Rightarrow> if te_commit_ok env then (Inr a, s') else (Inl (Tx ErrCommit), s)))"


section \<open>Queries\<close>

definition GetEvidenceRecordByIdempotency :: "uuid option \<Rightarrow> string \<Rightarrow> 'z eval_db_scheme \<Rightarrow> evidence_row option" where
  "GetEvidenceRecordByIdempotency t key db =
     List.find (\<lambda>r. Some (ev_TenantID r) = t \<and> ev_IdempotencyKey r = Some key) (db_evidence db)"

definition ingestion_paths :: "string set" where
  "ingestion_paths = {''push'', ''pull'', ''subscribe'', ''manual_upload'', ''webhook''}"

record InsertEvidenceRecordParams =
  ip_ID :: uuid
  ip_TenantID :: "uuid option"
  ip_ControlID :: "uuid option"
  ip_ControlRef :: string
  ip_ScopeID :: "uuid option"
  ip_ObservedAt :: gotime
  ip_Provenance :: bytes
  ip_Result :: string
  ip_Payload :: bytes
  ip_PayloadUri :: "string option"
  ip_Hash :: string
  ip_FreshnessClass :: string
  ip_ValidUntil :: "gotime option"
  ip_IdempotencyKey :: "string option"
  ip_EvidenceKind :: "string option"
  ip_SchemaVersion :: "string option"
  ip_CredentialID :: "string option"
  ip_IngestionPath :: string
  ip_SourceAttribution :: bytes
  ip_ScopeCanonical :: bytes
  ip_ObservedAtNanos :: "64 word"

definition ledger_row :: "uuid \<Rightarrow> bytes \<Rightarrow> bytes \<Rightarrow> bytes \<Rightarrow> bytes \<Rightarrow> gotime \<Rightarrow> InsertEvidenceRecordParams \<Rightarrow> evidence_row" where
  "ledger_row t prov pay attr scope dbnow p =
     \<lparr>ev_ID = ip_ID p, ev_TenantID = t, ev_ControlID = ip_ControlID p, ev_ControlRef = ip_ControlRef p,
      ev_ObservedAt = pgTime (ip_ObservedAt p), ev_Result = ip_Result p, ev_Payload = pay, ev_Hash = ip_Hash p,
      ev_ScopeID = ip_ScopeID p, ev_IngestedAt = pgTime dbnow, ev_Provenance = prov,
      ev_PayloadUri = ip_PayloadUri p, ev_FreshnessClass = ip_FreshnessClass p, ev_ValidUntil = ip_ValidUntil p,
      ev_IdempotencyKey = ip_IdempotencyKey p, ev_EvidenceKind = ip_EvidenceKind p,
      ev_SchemaVersion = ip_SchemaVersion p, ev_CredentialID = ip_CredentialID p,
      ev_IngestionPath = ip_IngestionPath p, ev_SourceAttribution = attr, ev_ScopeCanonical = Some scope,
      ev_ObservedAtNanos = Some (ip_ObservedAtNanos p)\<rparr>"

definition InsertEvidenceRecord ::
  "ingest_lib \<Rightarrow> gotime \<Rightarrow> InsertEvidenceRecordParams \<Rightarrow> 'z ingest_db_scheme \<Rightarrow> pg_error + evidence_row \<times> 'z ingest_db_scheme" where
  "InsertEvidenceRecord lib dbnow p db =
     (case (il_jsonb lib (ip_Provenance p), il_jsonb lib (ip_Payload p), il_jsonb lib (ip_SourceAttribution p),
            il_jsonb lib (ip_ScopeCanonical p)) of
        (Some prov, Some pay, Some attr, Some scope) \<Rightarrow>
          (case ip_TenantID p of
             None \<Rightarrow> Inl NotNullViolation
           | Some t \<Rightarrow>
             (let row = ledger_row t prov pay attr scope dbnow p in
              if ip_ControlRef p = [] \<or> ip_IngestionPath p \<notin> ingestion_paths then Inl CheckViolation
              else if ip_ID p \<in> ev_ID ` set (db_evidence db)
                  \<or> (\<exists>r \<in> set (db_evidence db). ev_TenantID r = t \<and> ev_IdempotencyKey r \<noteq> None
                        \<and> ev_IdempotencyKey r = ip_IdempotencyKey p) then Inl UniqueViolation
              else if (case ip_ControlID p of None \<Rightarrow> False
                       | Some c \<Rightarrow> \<forall>k \<in> set (db_controls db). \<not> (ctl_TenantID k = t \<and> ctl_ID k = c)) then Inl ForeignKeyViolation
              else Inr (row, db\<lparr>db_evidence := db_evidence db @ [row]\<rparr>)))
      | _ \<Rightarrow> Inl InvalidTextRepresentation)"

definition audit_decisions :: "string set" where
  "audit_decisions =
     {''accepted'', ''deduplicated'', ''rejected_validation'', ''rejected_unknown_kind'',
      ''rejected_idempotency_mismatch'', ''rejected_scope_violation'', ''rejected_observed_at_skew'',
      ''rejected_oversized'', ''rejected_rate_limit'', ''rejected_unauthenticated'', ''rejected_internal_error''}"

definition InsertEvidenceAuditEntry ::
  "uuid \<Rightarrow> uuid option \<Rightarrow> string \<Rightarrow> string \<Rightarrow> string \<Rightarrow> string option \<Rightarrow> string option \<Rightarrow> uuid option \<Rightarrow> gotime \<Rightarrow>
   'z ingest_db_scheme \<Rightarrow> pg_error + 'z ingest_db_scheme" where
  "InsertEvidenceAuditEntry i tenant cred decision reason idem kind recordID dbnow db =
     (case tenant of
        None \<Rightarrow> Inl NotNullViolation
      | Some t \<Rightarrow>
        if decision \<notin> audit_decisions then Inl CheckViolation
        else if i \<in> ea_ID ` set (db_evidence_audit db) then Inl UniqueViolation
        else Inr (db\<lparr>db_evidence_audit := db_evidence_audit db @
               [\<lparr>ea_ID = i, ea_TenantID = t, ea_CredentialID = cred, ea_Decision = decision, ea_ReasonCode = reason,
                 ea_IdempotencyKey = idem, ea_EvidenceKind = kind, ea_RecordID = recordID,
                 ea_ReceivedAt = pgTime dbnow\<rparr>]\<rparr>))"

definition GetEvidenceAuditEntryByReceipt ::
  "uuid option \<Rightarrow> string \<Rightarrow> uuid \<Rightarrow> 'z ingest_db_scheme \<Rightarrow> evidence_audit option" where
  "GetEvidenceAuditEntryByReceipt t cred recordID db =
     (case sort_key (\<lambda>e. - ea_ReceivedAt e)
             (filter (\<lambda>e. Some (ea_TenantID e) = t \<and> ea_CredentialID e = cred \<and> ea_RecordID e = Some recordID)
                (db_evidence_audit db)) of
        [] \<Rightarrow> None | e # _ \<Rightarrow> Some e)"


section \<open>Process\<close>

definition writeAudit ::
  "ingest_lib \<Rightarrow> ingest_draw \<Rightarrow> Credential \<Rightarrow> string \<Rightarrow> string \<Rightarrow> Decision \<Rightarrow> ingest_reason \<Rightarrow> uuid option \<Rightarrow>
   'z ingest_db_scheme \<Rightarrow> 'z ingest_db_scheme" where
  "writeAudit lib dr cred idem kind decision reason recordID db =
     (if cred_TenantID cred = [] then db
      else (case WithTenant (id_audit_env dr) (cred_TenantID cred) of
              Inl _ \<Rightarrow> db
            | Inr ctx \<Rightarrow>
              snd (BeginTxFunc ctx
                (\<lambda>db0. case ApplyTenant ctx of
                    Inl e \<Rightarrow> Inl (ApplyTenantFailed e)
                  | Inr _ \<Rightarrow>
                    (case InsertEvidenceAuditEntry (id_audit dr) (il_parse_uuid lib (cred_TenantID cred)) (cred_ID cred)
                            (Decision_String decision)
                            (truncate_text (if reason = NoReason then [] else il_reason lib reason) 1024)
                            (ptrStr idem) (ptrStr kind) recordID (id_audit_dbnow dr) db0 of
                       Inl _ \<Rightarrow> Inr ((), db0)
                     | Inr db1 \<Rightarrow> Inr ((), db1))) db)))"

text \<open>What a record has become when every check before the database has passed.\<close>

record admitted =
  ad_rec :: EvidenceRecord
  ad_observed :: gotime
  ad_payload :: bytes
  ad_hash :: string
  ad_scope :: bytes
  ad_controlID :: "uuid option"
  ad_result :: string

definition apply_redaction ::
  "ingest_lib \<Rightarrow> string \<Rightarrow> EvidenceRecord \<Rightarrow> bytes \<Rightarrow> (Decision \<times> ingest_reason \<times> ingest_error) + EvidenceRecord \<times> bytes" where
  "apply_redaction lib tenant r payloadJSON =
     (case il_rules lib tenant (rec_EvidenceKind r) (rec_SchemaVersion r) of
        Inl e \<Rightarrow> Inl (DecisionRejectedInternalError, RedactionLookupReason e, RedactionLookupFailed)
      | Inr rules \<Rightarrow>
        if rules = [] then Inr (r, payloadJSON)
        else (case Apply (il_clone lib) (rec_Payload r) rules of
                Inl e \<Rightarrow> Inl (DecisionRejectedInternalError, RedactionApplyReason e, RedactionApplyFailed e)
              | Inr redacted \<Rightarrow>
                (case il_protojson lib (case redacted of None \<Rightarrow> [] | Some p \<Rightarrow> p) of
                   None \<Rightarrow> Inl (DecisionRejectedInternalError, RemarshalReason, RemarshalFailed)
                 | Some b \<Rightarrow> Inr (r\<lparr>rec_Payload := redacted\<rparr>, b))))"

definition admit ::
  "ingest_lib \<Rightarrow> gotime \<Rightarrow> Credential \<Rightarrow> EvidenceRecord \<Rightarrow> (Decision \<times> ingest_reason \<times> ingest_error) + admitted" where
  "admit lib receivedAt cred r0 =
     (let tenant = cred_TenantID cred; kind = rec_EvidenceKind r0; version = rec_SchemaVersion r0;
          msg = missingField r0;
          observed = (case rec_ObservedAt r0 of None \<Rightarrow> unix_epoch | Some ts \<Rightarrow> AsTime ts);
          skew = observed - receivedAt
      in
      if msg \<noteq> [] then Inl (DecisionRejectedValidation, MissingFieldReason msg, ErrMissingField msg)
      else if skew < - MaxObservedAtSkew \<or> skew > MaxObservedAtSkew
      then Inl (DecisionRejectedObservedAtSkew, SkewReason skew, ErrObservedAtSkew)
      else (case il_protojson lib (case rec_Payload r0 of None \<Rightarrow> [] | Some p \<Rightarrow> p) of
        None \<Rightarrow> Inl (DecisionRejectedValidation, MarshalReason, ErrValidation)
      | Some payloadJSON \<Rightarrow>
        if length payloadJSON > MaxPayloadBytes \<and> rec_PayloadUri r0 = None
        then Inl (DecisionRejectedOversized, OversizedReason (length payloadJSON), ErrOversized)
        else if \<not> il_registered lib tenant kind version
        then Inl (DecisionRejectedUnknownKind, UnknownKindReason kind version, ErrUnknownKind)
        else (case il_validate lib tenant kind version payloadJSON of
          Some e \<Rightarrow> Inl (DecisionRejectedValidation, ValidationReason e, ErrValidation)
        | None \<Rightarrow>
          (case apply_redaction lib tenant r0 payloadJSON of
             Inl rejected \<Rightarrow> Inl rejected
           | Inr (r, payload) \<Rightarrow>
             if cred_Kinds cred \<noteq> [] \<and> kind \<notin> set (cred_Kinds cred)
             then Inl (DecisionRejectedScopeViolation, KindReason (cred_ID cred) kind, ErrScopeViolation)
             else if cred_ScopePredicate cred \<noteq> [] \<and> \<not> scopeSatisfiesPredicate (rec_Scope r) (cred_ScopePredicate cred)
             then Inl (DecisionRejectedScopeViolation, PredicateReason (cred_ScopePredicate cred), ErrScopeViolation)
             else (case HashRecord (canon_lib.truncate lib) r of
               None \<Rightarrow> Inl (DecisionRejectedInternalError, HashReason, HashFailed)
             | Some hash \<Rightarrow>
               (case protoResultToEnum (rec_Result r) of (resultEnum, ok) \<Rightarrow>
                  if \<not> ok then Inl (DecisionRejectedValidation, ResultReason, UnrecognizedResult)
                  else Inr \<lparr>ad_rec = r, ad_observed = observed, ad_payload = payload, ad_hash = hash,
                            ad_scope = MarshalCanonicalScope (canon_lib.truncate lib) (rec_Scope r),
                            ad_controlID = il_parse_uuid lib (rec_ControlId r), ad_result = resultEnum\<rparr>))))))"

definition insert_params :: "ingest_lib \<Rightarrow> string \<Rightarrow> ingest_draw \<Rightarrow> Credential \<Rightarrow> uuid option \<Rightarrow> admitted \<Rightarrow> InsertEvidenceRecordParams" where
  "insert_params lib path dr cred recordID a =
     \<lparr>ip_ID = (case recordID of Some i \<Rightarrow> i | None \<Rightarrow> id_new dr), ip_TenantID = il_parse_uuid lib (cred_TenantID cred),
      ip_ControlID = ad_controlID a, ip_ControlRef = rec_ControlId (ad_rec a), ip_ScopeID = None,
      ip_ObservedAt = ad_observed a,
      ip_Provenance = il_provenance_json lib path (cred_ID cred) (id_now dr) (rec_SchemaVersion (ad_rec a)),
      ip_Result = ad_result a, ip_Payload = ad_payload a, ip_PayloadUri = rec_PayloadUri (ad_rec a), ip_Hash = ad_hash a,
      ip_FreshnessClass = ''monthly'', ip_ValidUntil = None, ip_IdempotencyKey = Some (rec_IdempotencyKey (ad_rec a)),
      ip_EvidenceKind = ptrStr (rec_EvidenceKind (ad_rec a)), ip_SchemaVersion = ptrStr (rec_SchemaVersion (ad_rec a)),
      ip_CredentialID = ptrStr (cred_ID cred), ip_IngestionPath = path,
      ip_SourceAttribution = il_attribution_json lib
        (case rec_SourceAttribution (ad_rec a) of
           None \<Rightarrow> \<lparr>sa_ActorType = [], sa_ActorId = [], sa_SessionId = []\<rparr> | Some sa \<Rightarrow> sa),
      ip_ScopeCanonical = ad_scope a, ip_ObservedAtNanos = UnixNano (ad_observed a)\<rparr>"

text \<open>
  After a failed statement PostgreSQL refuses every further one of the transaction, so the second
  lookup of the race branch never finds a row.
\<close>

definition query_in_failed_tx :: "evidence_row option" where
  "query_in_failed_tx = None"

text \<open>
  The body of the ledger transaction. Each statement sees what was committed when it started:
  \<open>seen\<close> is the database at the lookup and \<open>db\<close> the one at the insert. A call that no other
  overlaps has the same for both.
\<close>

definition ledger_tx ::
  "ingest_lib \<Rightarrow> string \<Rightarrow> ingest_draw \<Rightarrow> txenv \<Rightarrow> Credential \<Rightarrow> uuid option \<Rightarrow> admitted \<Rightarrow> 'z ingest_db_scheme \<Rightarrow>
   'z ingest_db_scheme \<Rightarrow> ingest_error + (evidence_row \<times> bool) \<times> 'z ingest_db_scheme" where
  "ledger_tx lib path dr ctx cred recordID a seen db =
     (case ApplyTenant ctx of
        Inl e \<Rightarrow> Inl (ApplyTenantFailed e)
      | Inr _ \<Rightarrow>
        (case GetEvidenceRecordByIdempotency (il_parse_uuid lib (cred_TenantID cred)) (rec_IdempotencyKey (ad_rec a)) seen of
           Some existing \<Rightarrow>
             if ev_Hash existing \<noteq> ad_hash a then Inl ErrIdempotencyMismatch else Inr ((existing, True), db)
         | None \<Rightarrow>
           (case InsertEvidenceRecord lib (id_dbnow dr) (insert_params lib path dr cred recordID a) db of
              Inr (row, db') \<Rightarrow> Inr ((row, False), db')
            | Inl e \<Rightarrow>
              (case (if e = UniqueViolation then query_in_failed_tx else None) of
                 Some existing \<Rightarrow>
                   if ev_Hash existing \<noteq> ad_hash a then Inl ErrIdempotencyMismatch else Inr ((existing, True), db)
               | None \<Rightarrow> Inl (InsertEvidence e)))))"

text \<open>What follows the transaction: the decision, its audit row and the receipt.\<close>

definition conclude ::
  "ingest_lib \<Rightarrow> ingest_draw \<Rightarrow> EvidenceRecord \<Rightarrow> Credential \<Rightarrow> uuid option \<Rightarrow> 'z ingest_db_scheme \<Rightarrow>
   (ingest_error err + evidence_row \<times> bool) \<times> 'z ingest_db_scheme \<Rightarrow>
   ((ingest_error + Receipt) \<times> Decision) \<times> 'z ingest_db_scheme" where
  "conclude lib dr r cred recordID db outcome =
     (let audit = writeAudit lib dr cred (rec_IdempotencyKey r) (rec_EvidenceKind r) in
      (case outcome of
         (Inl (Tx e), _) \<Rightarrow>
           ((Inl (LedgerTx e), DecisionRejectedInternalError),
            audit DecisionRejectedInternalError (TxReason (LedgerTx e)) recordID db)
       | (Inl (Dom e), _) \<Rightarrow>
           if e = ErrIdempotencyMismatch
           then ((Inl ErrIdempotencyMismatch, DecisionRejectedIdempotencyMismatch),
                 audit DecisionRejectedIdempotencyMismatch MismatchReason recordID db)
           else ((Inl e, DecisionRejectedInternalError), audit DecisionRejectedInternalError (TxReason e) recordID db)
       | (Inr (row, deduped), db') \<Rightarrow>
           (let decision = (if deduped then DecisionDeduplicated else DecisionAccepted)
            in ((Inr \<lparr>rc_RecordID = il_uuid_string lib (ev_ID row), rc_Hash = ev_Hash row,
                      rc_IngestedAt = ev_IngestedAt row, rc_CredentialID = cred_ID cred, rc_Deduplicated = deduped\<rparr>,
                 decision),
                audit decision NoReason (Some (ev_ID row)) db'))))"

definition ProcessWithRecordID ::
  "ingest_lib \<Rightarrow> string \<Rightarrow> ingest_draw \<Rightarrow> EvidenceRecord option \<Rightarrow> Credential \<Rightarrow> uuid option \<Rightarrow> 'z ingest_db_scheme \<Rightarrow>
   ((ingest_error + Receipt) \<times> Decision) \<times> 'z ingest_db_scheme" where
  "ProcessWithRecordID lib path dr rec cred recordID db =
     (case rec of
        None \<Rightarrow>
          ((Inl RecordIsNil, DecisionRejectedValidation),
           writeAudit lib dr cred [] [] DecisionRejectedValidation NilRecordReason recordID db)
      | Some r \<Rightarrow>
        if cred_TenantID cred = [] then ((Inl NoTenantInCredential, DecisionRejectedUnauthenticated), db)
        else
          (let reject = (\<lambda>d reason e. ((Inl e, d),
                 writeAudit lib dr cred (rec_IdempotencyKey r) (rec_EvidenceKind r) d reason recordID db))
           in (case admit lib (id_now dr) cred r of
                 Inl (d, reason, e) \<Rightarrow> reject d reason e
               | Inr a \<Rightarrow>
                 (case WithTenant (id_env dr) (cred_TenantID cred) of
                    Inl e \<Rightarrow> reject DecisionRejectedInternalError (TenantReason e) (TenantContext e)
                  | Inr ctx \<Rightarrow>
                    conclude lib dr r cred recordID db
                      (BeginTxFunc ctx (\<lambda>db0. ledger_tx lib path dr ctx cred recordID a db0 db0) db)))))"

definition Process ::
  "ingest_lib \<Rightarrow> string \<Rightarrow> ingest_draw \<Rightarrow> EvidenceRecord option \<Rightarrow> Credential \<Rightarrow> 'z ingest_db_scheme \<Rightarrow>
   ((ingest_error + Receipt) \<times> Decision) \<times> 'z ingest_db_scheme" where
  "Process lib path dr rec cred db = ProcessWithRecordID lib path dr rec cred None db"

datatype receipt_error = ReceiptNoTenant | ReceiptTenantContext tx_error | ReceiptTx tx_error | ReceiptNoRows

definition LookupReceiptStatus ::
  "ingest_lib \<Rightarrow> txenv \<Rightarrow> Credential \<Rightarrow> uuid \<Rightarrow> 'z ingest_db_scheme \<Rightarrow> receipt_error + ReceiptStatus" where
  "LookupReceiptStatus lib env cred recordID db =
     (if cred_TenantID cred = [] then Inl ReceiptNoTenant
      else (case WithTenant env (cred_TenantID cred) of
              Inl e \<Rightarrow> Inl (ReceiptTenantContext e)
            | Inr ctx \<Rightarrow>
              if \<not> te_begin_ok ctx then Inl (ReceiptTx ErrBegin)
              else (case ApplyTenant ctx of
                      Inl e \<Rightarrow> Inl (ReceiptTx e)
                    | Inr _ \<Rightarrow>
                      (case GetEvidenceAuditEntryByReceipt (il_parse_uuid lib (cred_TenantID cred)) (cred_ID cred) recordID db of
                         None \<Rightarrow> Inl ReceiptNoRows
                       | Some e \<Rightarrow>
                         Inr \<lparr>rst_RecordID = il_uuid_string lib recordID, rst_CredentialID = ea_CredentialID e,
                              rst_Decision = ea_Decision e, rst_ReasonCode = ea_ReasonCode e,
                              rst_IdempotencyKey = ea_IdempotencyKey e, rst_EvidenceKind = ea_EvidenceKind e,
                              rst_ReceivedAt = ea_ReceivedAt e\<rparr>))))"


section \<open>Verification of the ledger\<close>

datatype verify_error = DecodeScope | DecodePayload | DecodeAttribution | VerifyHash

definition deref :: "string option \<Rightarrow> string" where
  "deref s = (case s of None \<Rightarrow> [] | Some x \<Rightarrow> x)"

definition RecordFromLedgerRow :: "ingest_lib \<Rightarrow> evidence_row \<Rightarrow> verify_error + EvidenceRecord" where
  "RecordFromLedgerRow lib row =
     (let ts = (case ev_ObservedAtNanos row of
                  Some n \<Rightarrow> Some (timestamp_New (time_of_nanos n))
                | None \<Rightarrow> Some (timestamp_New (ev_ObservedAt row)))
      in (case (case ev_ScopeCanonical row of
                  None \<Rightarrow> Some []
                | Some raw \<Rightarrow> if raw = [] then Some [] else UnmarshalCanonicalScope (canon_lib.truncate lib) raw) of
            None \<Rightarrow> Inl DecodeScope
          | Some scope \<Rightarrow>
            (case (if ev_Payload row = [] then Some None else map_option Some (il_protojson_parse lib (ev_Payload row))) of
               None \<Rightarrow> Inl DecodePayload
             | Some payload \<Rightarrow>
               (case (if ev_SourceAttribution row = [] then Some None
                      else map_option Some (il_attribution_parse lib (ev_SourceAttribution row))) of
                  None \<Rightarrow> Inl DecodeAttribution
                | Some attr \<Rightarrow>
                  Inr \<lparr>rec_IdempotencyKey = deref (ev_IdempotencyKey row), rec_EvidenceKind = deref (ev_EvidenceKind row),
                       rec_SchemaVersion = deref (ev_SchemaVersion row), rec_ControlId = ev_ControlRef row,
                       rec_Scope = scope, rec_ObservedAt = ts, rec_Result = resultEnumToProto (ev_Result row),
                       rec_Payload = payload, rec_SourceAttribution = attr, rec_PayloadUri = ev_PayloadUri row\<rparr>))))"

definition LedgerRowHash :: "ingest_lib \<Rightarrow> evidence_row \<Rightarrow> verify_error + string" where
  "LedgerRowHash lib row =
     (case RecordFromLedgerRow lib row of
        Inl e \<Rightarrow> Inl e
      | Inr r \<Rightarrow> (case HashRecord (canon_lib.truncate lib) r of None \<Rightarrow> Inl VerifyHash | Some h \<Rightarrow> Inr h))"

definition VerifyLedgerRow :: "ingest_lib \<Rightarrow> evidence_row \<Rightarrow> verify_error + bool \<times> string" where
  "VerifyLedgerRow lib row =
     (case LedgerRowHash lib row of Inl e \<Rightarrow> Inl e | Inr h \<Rightarrow> Inr (h = ev_Hash row, h))"


section \<open>The audit trail\<close>

lemma Decision_String_ok [simp]: "Decision_String d \<in> audit_decisions"
  by (cases d) (simp_all add: audit_decisions_def)

text \<open>The row one audit write adds, and when it is added.\<close>

definition audit_entry ::
  "ingest_lib \<Rightarrow> ingest_draw \<Rightarrow> Credential \<Rightarrow> string \<Rightarrow> string \<Rightarrow> Decision \<Rightarrow> ingest_reason \<Rightarrow> uuid option \<Rightarrow> uuid \<Rightarrow> evidence_audit" where
  "audit_entry lib dr cred idem kind d reason recordID t =
     \<lparr>ea_ID = id_audit dr, ea_TenantID = t, ea_CredentialID = cred_ID cred, ea_Decision = Decision_String d,
      ea_ReasonCode = truncate_text (if reason = NoReason then [] else il_reason lib reason) 1024,
      ea_IdempotencyKey = ptrStr idem, ea_EvidenceKind = ptrStr kind, ea_RecordID = recordID,
      ea_ReceivedAt = pgTime (id_audit_dbnow dr)\<rparr>"

definition audits :: "ingest_lib \<Rightarrow> ingest_draw \<Rightarrow> Credential \<Rightarrow> 'z ingest_db_scheme \<Rightarrow> uuid option" where
  "audits lib dr cred db =
     (if cred_TenantID cred \<noteq> [] \<and> tx_ok (id_audit_env dr) \<and> id_audit dr \<notin> ea_ID ` set (db_evidence_audit db)
      then il_parse_uuid lib (cred_TenantID cred) else None)"

lemma writeAudit_eq:
  "writeAudit lib dr cred idem kind d reason recordID db =
     (case audits lib dr cred db of
        None \<Rightarrow> db
      | Some t \<Rightarrow> db\<lparr>db_evidence_audit := db_evidence_audit db @ [audit_entry lib dr cred idem kind d reason recordID t]\<rparr>)"
proof (cases "cred_TenantID cred = [] \<or> \<not> tx_ok (id_audit_env dr)")
  case True
  then show ?thesis
    by (auto simp: writeAudit_def audits_def WithTenant_def BeginTxFunc_def ApplyTenant_def TenantFromContext_def tx_ok_def
        split: sum.splits)
next
  case False
  then show ?thesis
    by (cases "il_parse_uuid lib (cred_TenantID cred)")
      (auto simp: writeAudit_def audits_def audit_entry_def InsertEvidenceAuditEntry_def WithTenant_def BeginTxFunc_def
        ApplyTenant_def TenantFromContext_def tx_ok_def)
qed

lemma writeAudit_keeps [simp]:
  "db_evidence (writeAudit lib dr cred idem kind d reason recordID db) = db_evidence db"
  "db_controls (writeAudit lib dr cred idem kind d reason recordID db) = db_controls db"
  "db_cells (writeAudit lib dr cred idem kind d reason recordID db) = db_cells db"
  "db_evaluations (writeAudit lib dr cred idem kind d reason recordID db) = db_evaluations db"
  by (simp_all add: writeAudit_eq split: option.splits)

lemma audits_ledger [simp]: "audits lib dr cred (db\<lparr>db_evidence := e\<rparr>) = audits lib dr cred db"
  by (simp add: audits_def)


section \<open>The outcomes of a push\<close>

definition receipt_of :: "ingest_lib \<Rightarrow> Credential \<Rightarrow> bool \<Rightarrow> evidence_row \<Rightarrow> Receipt" where
  "receipt_of lib cred deduped row =
     \<lparr>rc_RecordID = il_uuid_string lib (ev_ID row), rc_Hash = ev_Hash row, rc_IngestedAt = ev_IngestedAt row,
      rc_CredentialID = cred_ID cred, rc_Deduplicated = deduped\<rparr>"

lemma admit_rejects: "admit lib now cred r = Inl (d, reason, e) \<Longrightarrow> 
    d \<notin> {DecisionAccepted, DecisionDeduplicated, DecisionRejectedUnauthenticated}"
  by (auto simp: admit_def apply_redaction_def Let_def split: if_splits option.splits sum.splits prod.splits)

lemma ledger_tx_InrD:
  assumes "ledger_tx lib path dr ctx cred recordID a seen db = Inr ((row, deduped), db')"
  shows "(if deduped
      then GetEvidenceRecordByIdempotency (il_parse_uuid lib (cred_TenantID cred)) (rec_IdempotencyKey (ad_rec a)) seen = Some row
        \<and> ev_Hash row = ad_hash a \<and> db' = db
      else GetEvidenceRecordByIdempotency (il_parse_uuid lib (cred_TenantID cred)) (rec_IdempotencyKey (ad_rec a)) seen = None
        \<and> InsertEvidenceRecord lib (id_dbnow dr) (insert_params lib path dr cred recordID a) db = Inr (row, db'))"
  using assms by (auto simp: ledger_tx_def query_in_failed_tx_def split: sum.splits option.splits if_splits)

lemma Process_cases:
  assumes "ProcessWithRecordID lib path dr rec cred recordID db = ((res, d), db')"
  obtains
    (anonymous) "res = Inl NoTenantInCredential" "d = DecisionRejectedUnauthenticated" "db' = db" "cred_TenantID cred = []"
  | (rejected) e reason idem kind where "res = Inl e" "d \<notin> {DecisionAccepted, DecisionDeduplicated, DecisionRejectedUnauthenticated}"
      "db' = writeAudit lib dr cred idem kind d reason recordID db"
  | (deduped) r a row where "rec = Some r" "cred_TenantID cred \<noteq> []" "admit lib (id_now dr) cred r = Inr a"
      "GetEvidenceRecordByIdempotency (il_parse_uuid lib (cred_TenantID cred)) (rec_IdempotencyKey (ad_rec a)) db = Some row"
      "ev_Hash row = ad_hash a" "res = Inr (receipt_of lib cred True row)" "d = DecisionDeduplicated"
      "db' = writeAudit lib dr cred (rec_IdempotencyKey r) (rec_EvidenceKind r) d NoReason (Some (ev_ID row)) db"
  | (accepted) r a row db1 where "rec = Some r" "cred_TenantID cred \<noteq> []" "admit lib (id_now dr) cred r = Inr a"
      "GetEvidenceRecordByIdempotency (il_parse_uuid lib (cred_TenantID cred)) (rec_IdempotencyKey (ad_rec a)) db = None"
      "InsertEvidenceRecord lib (id_dbnow dr) (insert_params lib path dr cred recordID a) db = Inr (row, db1)"
      "res = Inr (receipt_of lib cred False row)" "d = DecisionAccepted"
      "db' = writeAudit lib dr cred (rec_IdempotencyKey r) (rec_EvidenceKind r) d NoReason (Some (ev_ID row)) db1"
proof (cases rec)
  case None
  with assms show ?thesis by (intro rejected) (auto simp: ProcessWithRecordID_def)
next
  case (Some r)
  show ?thesis
  proof (cases "cred_TenantID cred = []")
    case True
    with assms Some show ?thesis by (intro anonymous) (auto simp: ProcessWithRecordID_def)
  next
    case tenant: False
    show ?thesis
    proof (cases "admit lib (id_now dr) cred r")
      case (Inl x)
      obtain d' reason e where x: "x = (d', reason, e)" by (cases x) auto
      with assms Some tenant Inl have out: "res = Inl e" "d = d'"
        "db' = writeAudit lib dr cred (rec_IdempotencyKey r) (rec_EvidenceKind r) d' reason recordID db"
        by (auto simp: ProcessWithRecordID_def)
      with admit_rejects Inl x show ?thesis by (intro rejected) auto
    next
      case (Inr a)
      define ctx where "ctx = (id_env dr)\<lparr>te_tenant := Some (cred_TenantID cred)\<rparr>"
      have ctx: "WithTenant (id_env dr) (cred_TenantID cred) = Inr ctx" using tenant by (simp add: WithTenant_def ctx_def)
      obtain out st where bt: "BeginTxFunc ctx (\<lambda>db0. ledger_tx lib path dr ctx cred recordID a db0 db0) db = (out, st)"
        by fastforce
      have run: "conclude lib dr r cred recordID db (out, st) = ((res, d), db')"
        using assms tenant by (simp add: ProcessWithRecordID_def Some Inr ctx bt)
      show ?thesis
      proof (cases out)
        case err: (Inl e)
        show ?thesis
        proof (cases e)
          case (Tx x)
          with run err show ?thesis by (intro rejected) (auto simp: conclude_def Let_def)
        next
          case (Dom x)
          with run err show ?thesis by (cases "x = ErrIdempotencyMismatch") (auto intro!: rejected simp: conclude_def Let_def)
        qed
      next
        case ok: (Inr y)
        obtain row deduped where y: "y = (row, deduped)" by (cases y) auto
        from bt ok y have tx: "ledger_tx lib path dr ctx cred recordID a db db = Inr ((row, deduped), st)"
          by (auto simp: BeginTxFunc_def split: if_splits sum.splits prod.splits)
        show ?thesis
        proof (cases deduped)
          case True
          with ledger_tx_InrD [OF tx] run ok y Some tenant Inr show ?thesis
            by (intro deduped [of r a row]) (auto simp: conclude_def Let_def receipt_of_def)
        next
          case False
          with ledger_tx_InrD [OF tx] run ok y Some tenant Inr show ?thesis
            by (intro accepted [of r a row st]) (auto simp: conclude_def Let_def receipt_of_def)
        qed
      qed
    qed
  qed
qed

text \<open>A push of an admitted record over a database that accepts every statement.\<close>

lemma Process_run:
  assumes "cred_TenantID cred \<noteq> []" and "tx_ok (id_env dr)" and "admit lib (id_now dr) cred r = Inr a"
  shows "ProcessWithRecordID lib path dr (Some r) cred recordID db =
    conclude lib dr r cred recordID db
      (case GetEvidenceRecordByIdempotency (il_parse_uuid lib (cred_TenantID cred)) (rec_IdempotencyKey (ad_rec a)) db of
         Some existing \<Rightarrow>
           if ev_Hash existing \<noteq> ad_hash a then (Inl (Dom ErrIdempotencyMismatch), db) else (Inr (existing, True), db)
       | None \<Rightarrow>
         (case InsertEvidenceRecord lib (id_dbnow dr) (insert_params lib path dr cred recordID a) db of
            Inr (row, db') \<Rightarrow> (Inr (row, False), db')
          | Inl e \<Rightarrow> (Inl (Dom (InsertEvidence e)), db)))"
  using assms
  by (simp add: ProcessWithRecordID_def WithTenant_def BeginTxFunc_def ledger_tx_def ApplyTenant_def TenantFromContext_def
      tx_ok_def query_in_failed_tx_def split: option.splits sum.splits prod.splits)


section \<open>What is admitted\<close>

lemma missingField_NilD:
  assumes "missingField r = []"
  shows "rec_IdempotencyKey r \<noteq> []" "rec_EvidenceKind r \<noteq> []" "rec_SchemaVersion r \<noteq> []" "rec_ControlId r \<noteq> []"
    "rec_Scope r \<noteq> []" "rec_ObservedAt r \<noteq> None" "rec_Payload r \<noteq> None" "rec_SourceAttribution r \<noteq> None"
  using assms by (auto simp: missingField_def split: if_splits)

text \<open>The redacted record and its payload text.\<close>

definition redaction_of :: "ingest_lib \<Rightarrow> string \<Rightarrow> EvidenceRecord \<Rightarrow> EvidenceRecord \<Rightarrow> bool" where
  "redaction_of lib tenant r r' \<longleftrightarrow>
     (\<exists>rules. il_rules lib tenant (rec_EvidenceKind r) (rec_SchemaVersion r) = Inr rules
        \<and> Apply (il_clone lib) (rec_Payload r) rules = Inr (rec_Payload r') \<and> r' = r\<lparr>rec_Payload := rec_Payload r'\<rparr>)"

lemma apply_redaction_InrD:
  assumes "apply_redaction lib tenant r b = Inr (r', b')" and "il_protojson lib (case rec_Payload r of None \<Rightarrow> [] | Some p \<Rightarrow> p) = Some b"
    and "rec_Payload r \<noteq> None"
  shows "redaction_of lib tenant r r'" "il_protojson lib (case rec_Payload r' of None \<Rightarrow> [] | Some p \<Rightarrow> p) = Some b'"
proof -
  obtain rules where rules: "il_rules lib tenant (rec_EvidenceKind r) (rec_SchemaVersion r) = Inr rules"
    using assms(1) by (auto simp: apply_redaction_def split: sum.splits)
  show "redaction_of lib tenant r r'"
    using assms rules by (auto simp: apply_redaction_def redaction_of_def Apply_def split: if_splits sum.splits option.splits)
  show "il_protojson lib (case rec_Payload r' of None \<Rightarrow> [] | Some p \<Rightarrow> p) = Some b'"
    using assms rules by (auto simp: apply_redaction_def split: if_splits sum.splits option.splits)
qed

lemma redaction_of_fields:
  assumes "redaction_of lib tenant r r'"
  shows "rec_IdempotencyKey r' = rec_IdempotencyKey r" "rec_EvidenceKind r' = rec_EvidenceKind r"
    "rec_SchemaVersion r' = rec_SchemaVersion r" "rec_ControlId r' = rec_ControlId r" "rec_Scope r' = rec_Scope r"
    "rec_ObservedAt r' = rec_ObservedAt r" "rec_Result r' = rec_Result r"
    "rec_SourceAttribution r' = rec_SourceAttribution r" "rec_PayloadUri r' = rec_PayloadUri r"
  using assms by (cases r; cases r'; auto simp: redaction_of_def)+

definition timestamp_of :: "EvidenceRecord \<Rightarrow> Timestamp" where
  "timestamp_of r = (case rec_ObservedAt r of None \<Rightarrow> \<lparr>ts_Seconds = 0, ts_Nanos = 0\<rparr> | Some ts \<Rightarrow> ts)"

lemma admit_InrE:
  assumes "admit lib now cred r = Inr a"
  obtains b where
    "missingField r = []"
    "rec_ObservedAt r = Some (timestamp_of r)" "ad_observed a = AsTime (timestamp_of r)"
    "\<bar>AsTime (timestamp_of r) - now\<bar> \<le> MaxObservedAtSkew"
    "redaction_of lib (cred_TenantID cred) r (ad_rec a)"
    "il_protojson lib (case rec_Payload (ad_rec a) of None \<Rightarrow> [] | Some p \<Rightarrow> p) = Some (ad_payload a)"
    "il_registered lib (cred_TenantID cred) (rec_EvidenceKind r) (rec_SchemaVersion r)"
    "il_validate lib (cred_TenantID cred) (rec_EvidenceKind r) (rec_SchemaVersion r) b = None"
    "il_protojson lib (case rec_Payload r of None \<Rightarrow> [] | Some p \<Rightarrow> p) = Some b"
    "cred_Kinds cred = [] \<or> rec_EvidenceKind r \<in> set (cred_Kinds cred)"
    "cred_ScopePredicate cred = [] \<or> scopeSatisfiesPredicate (rec_Scope r) (cred_ScopePredicate cred)"
    "HashRecord (canon_lib.truncate lib) (ad_rec a) = Some (ad_hash a)"
    "ad_scope a = MarshalCanonicalScope (canon_lib.truncate lib) (rec_Scope r)"
    "ad_controlID a = il_parse_uuid lib (rec_ControlId r)"
    "protoResultToEnum (rec_Result r) = (ad_result a, True)"
    "length b \<le> MaxPayloadBytes \<or> rec_PayloadUri r \<noteq> None"
proof -
  have m: "missingField r = []" using assms by (auto simp: admit_def Let_def split: if_splits)
  obtain ts where ts: "rec_ObservedAt r = Some ts" using missingField_NilD(6) [OF m] by auto
  have skew: "\<not> (AsTime ts - now < - MaxObservedAtSkew \<or> AsTime ts - now > MaxObservedAtSkew)"
    using assms m ts by (auto simp: admit_def Let_def split: if_splits)
  obtain b where b: "il_protojson lib (case rec_Payload r of None \<Rightarrow> [] | Some p \<Rightarrow> p) = Some b"
    using assms m ts skew by (auto simp: admit_def Let_def split: if_splits option.splits)
  obtain r' b' where red: "apply_redaction lib (cred_TenantID cred) r b = Inr (r', b')"
    and reg: "il_registered lib (cred_TenantID cred) (rec_EvidenceKind r) (rec_SchemaVersion r)"
      "il_validate lib (cred_TenantID cred) (rec_EvidenceKind r) (rec_SchemaVersion r) b = None"
      "length b \<le> MaxPayloadBytes \<or> rec_PayloadUri r \<noteq> None"
    using assms m ts skew b by (auto simp: admit_def Let_def split: if_splits option.splits sum.splits)
  note red_facts = apply_redaction_InrD [OF red b missingField_NilD(7) [OF m]]
  note same = redaction_of_fields [OF red_facts(1)]
  have rest: "ad_rec a = r'" "ad_observed a = AsTime ts" "ad_payload a = b'"
    "cred_Kinds cred = [] \<or> rec_EvidenceKind r \<in> set (cred_Kinds cred)"
    "cred_ScopePredicate cred = [] \<or> scopeSatisfiesPredicate (rec_Scope r) (cred_ScopePredicate cred)"
    "HashRecord (canon_lib.truncate lib) r' = Some (ad_hash a)"
    "ad_scope a = MarshalCanonicalScope (canon_lib.truncate lib) (rec_Scope r)"
    "ad_controlID a = il_parse_uuid lib (rec_ControlId r)" "protoResultToEnum (rec_Result r) = (ad_result a, True)"
    using assms m ts skew b red reg same
    by (auto simp: admit_def Let_def split: if_splits option.splits sum.splits prod.splits)
  show ?thesis
    by (rule that [of b]) (use m ts skew b reg red_facts rest in \<open>auto simp: timestamp_of_def\<close>)
qed


section \<open>Rows of the ledger\<close>

text \<open>One push: the entry point, what the call draws, the record, the credential and the receipt identifier.\<close>

record push =
  pu_path :: string
  pu_draw :: ingest_draw
  pu_rec :: "EvidenceRecord option"
  pu_cred :: Credential
  pu_recordID :: "uuid option"

definition process :: "ingest_lib \<Rightarrow> push \<Rightarrow> 'z ingest_db_scheme \<Rightarrow> ((ingest_error + Receipt) \<times> Decision) \<times> 'z ingest_db_scheme" where
  "process lib p db = ProcessWithRecordID lib (pu_path p) (pu_draw p) (pu_rec p) (pu_cred p) (pu_recordID p) db"

fun pushes :: "ingest_lib \<Rightarrow> push list \<Rightarrow> 'z ingest_db_scheme \<Rightarrow> ((ingest_error + Receipt) \<times> Decision) list \<times> 'z ingest_db_scheme" where
  "pushes lib [] db = ([], db)"
| "pushes lib (p # ps) db =
     (case process lib p db of (out, db1) \<Rightarrow> (case pushes lib ps db1 of (outs, db2) \<Rightarrow> (out # outs, db2)))"

definition accepted_pushes :: "push list \<Rightarrow> ((ingest_error + Receipt) \<times> Decision) list \<Rightarrow> push list" where
  "accepted_pushes ps outs = map fst (filter (\<lambda>(p, res, d). d = DecisionAccepted) (zip ps outs))"

text \<open>
  What the stage promises about a record before it is redacted and stored, for the credential that
  pushed it at the instant it arrived, in terms of the record and not of the stage's own helpers.
\<close>

definition complete_record :: "EvidenceRecord \<Rightarrow> bool" where
  "complete_record r \<longleftrightarrow>
     rec_IdempotencyKey r \<noteq> [] \<and> rec_EvidenceKind r \<noteq> [] \<and> rec_SchemaVersion r \<noteq> [] \<and> rec_ControlId r \<noteq> []
     \<and> rec_Scope r \<noteq> [] \<and> (\<forall>d \<in> set (rec_Scope r). sd_Key d \<noteq> [] \<and> sd_Values d \<noteq> [])
     \<and> rec_ObservedAt r \<noteq> None \<and> rec_Result r \<in> {RESULT_PASS, RESULT_FAIL, RESULT_NA, RESULT_INCONCLUSIVE}
     \<and> rec_Payload r \<noteq> None \<and> rec_SourceAttribution r \<noteq> None"

definition predicate_holds :: "ScopeDimension list \<Rightarrow> string \<Rightarrow> bool" where
  "predicate_holds scope predicate \<longleftrightarrow>
     (\<forall>part \<in> set (Split predicate (CHR '','')). TrimSpace part \<noteq> [] \<longrightarrow>
        (\<exists>k v vals. SplitN2 (TrimSpace part) (CHR ''='') = [k, v] \<and> scope_have scope (TrimSpace k) = Some vals \<and> TrimSpace v \<in> set vals))"

definition admissible :: "ingest_lib \<Rightarrow> gotime \<Rightarrow> Credential \<Rightarrow> EvidenceRecord \<Rightarrow> bool" where
  "admissible lib now cred r \<longleftrightarrow>
     cred_TenantID cred \<noteq> [] \<and> complete_record r
     \<and> \<bar>AsTime (timestamp_of r) - now\<bar> \<le> hours 24
     \<and> (\<exists>b. il_protojson lib (the (rec_Payload r)) = Some b \<and> (rec_PayloadUri r = None \<longrightarrow> length b \<le> 1048576)
          \<and> il_validate lib (cred_TenantID cred) (rec_EvidenceKind r) (rec_SchemaVersion r) b = None)
     \<and> il_registered lib (cred_TenantID cred) (rec_EvidenceKind r) (rec_SchemaVersion r)
     \<and> (cred_Kinds cred \<noteq> [] \<longrightarrow> rec_EvidenceKind r \<in> set (cred_Kinds cred))
     \<and> (cred_ScopePredicate cred \<noteq> [] \<longrightarrow> predicate_holds (rec_Scope r) (cred_ScopePredicate cred))"

text \<open>
  Which row a push leaves: one of a record that is admissible for the credential of that push when it
  arrived, redacted by the rules of its kind, with the hash of what is stored.
\<close>

definition stored_by :: "ingest_lib \<Rightarrow> control_row list \<Rightarrow> push \<Rightarrow> evidence_row \<Rightarrow> bool" where
  "stored_by lib controls p row \<longleftrightarrow>
     (\<exists>r r' payload. pu_rec p = Some r \<and> admissible lib (id_now (pu_draw p)) (pu_cred p) r
        \<and> redaction_of lib (cred_TenantID (pu_cred p)) r r'
        \<and> HashRecord (canon_lib.truncate lib) r' = Some (ev_Hash row)
        \<and> il_protojson lib (the (rec_Payload r')) = Some payload \<and> il_jsonb lib payload = Some (ev_Payload row)
        \<and> il_parse_uuid lib (cred_TenantID (pu_cred p)) = Some (ev_TenantID row)
        \<and> ev_CredentialID row = ptrStr (cred_ID (pu_cred p)) \<and> ev_IngestionPath row = pu_path p
        \<and> ev_ID row = (case pu_recordID p of Some i \<Rightarrow> i | None \<Rightarrow> id_new (pu_draw p))
        \<and> ev_IdempotencyKey row = Some (rec_IdempotencyKey r) \<and> ev_EvidenceKind row = Some (rec_EvidenceKind r)
        \<and> ev_SchemaVersion row = Some (rec_SchemaVersion r) \<and> ev_PayloadUri row = rec_PayloadUri r
        \<and> ev_ObservedAt row = pgTime (AsTime (timestamp_of r)) \<and> ev_IngestedAt row = pgTime (id_dbnow (pu_draw p))
        \<and> resultEnumToProto (ev_Result row) = rec_Result r \<and> ev_ScopeID row = None
        \<and> ev_ControlRef row = rec_ControlId r \<and> ev_ControlID row = il_parse_uuid lib (rec_ControlId r)
        \<and> (\<forall>c. ev_ControlID row = Some c \<longrightarrow> (ev_TenantID row, c) \<in> (\<lambda>k. (ctl_TenantID k, ctl_ID k)) ` set controls))"

text \<open>A row of the ledger that some push left.\<close>

definition ingested :: "ingest_lib \<Rightarrow> control_row list \<Rightarrow> evidence_row \<Rightarrow> bool" where
  "ingested lib controls row \<longleftrightarrow> (\<exists>p. stored_by lib controls p row)"

definition ledger_inv :: "'z eval_db_scheme \<Rightarrow> bool" where
  "ledger_inv db \<longleftrightarrow>
     distinct (map ev_ID (db_evidence db))
     \<and> distinct (map (\<lambda>r. (ev_TenantID r, ev_IdempotencyKey r)) (filter (\<lambda>r. ev_IdempotencyKey r \<noteq> None) (db_evidence db)))"

lemma Insert_InrE:
  assumes "InsertEvidenceRecord lib dbnow p db = Inr (row, db')"
  obtains t prov pay attr scope where
    "il_jsonb lib (ip_Provenance p) = Some prov" "il_jsonb lib (ip_Payload p) = Some pay"
    "il_jsonb lib (ip_SourceAttribution p) = Some attr" "il_jsonb lib (ip_ScopeCanonical p) = Some scope"
    "ip_TenantID p = Some t" "row = ledger_row t prov pay attr scope dbnow p"
    "db' = db\<lparr>db_evidence := db_evidence db @ [row]\<rparr>" "ip_ID p \<notin> ev_ID ` set (db_evidence db)"
    "\<forall>r \<in> set (db_evidence db). ev_TenantID r = t \<and> ev_IdempotencyKey r \<noteq> None \<longrightarrow> ev_IdempotencyKey r \<noteq> ip_IdempotencyKey p"
    "\<forall>c. ip_ControlID p = Some c \<longrightarrow> (t, c) \<in> (\<lambda>k. (ctl_TenantID k, ctl_ID k)) ` set (db_controls db)"
  using assms that
  by (auto simp: InsertEvidenceRecord_def Let_def image_iff split: option.splits if_splits) (force simp: image_iff)+

lemma protoResultToEnum_ok: "protoResultToEnum x = (y, True) \<Longrightarrow> y \<in> result_values \<and> resultEnumToProto y = x"
  by (cases x) (auto simp: result_values_def resultEnumToProto_def eval_consts)

lemma scope_missing_Nil_iff: "scope_missing ds = [] \<longleftrightarrow> (\<forall>d \<in> set ds. sd_Key d \<noteq> [] \<and> sd_Values d \<noteq> [])"
  by (induction ds) auto

lemma predicate_parts_iff:
  "predicate_parts have parts \<longleftrightarrow>
     (\<forall>part \<in> set parts. TrimSpace part \<noteq> [] \<longrightarrow>
        (\<exists>k v vals. SplitN2 (TrimSpace part) (CHR ''='') = [k, v] \<and> have (TrimSpace k) = Some vals \<and> TrimSpace v \<in> set vals))"
proof (induction parts)
  case (Cons part parts)
  then show ?case
    by (cases "SplitN2 (TrimSpace part) (CHR ''='')" rule: list.exhaust [case_product list.exhaust])
      (auto simp: Let_def split: list.splits option.splits)
qed simp

lemma predicate_holds_iff: "scopeSatisfiesPredicate scope predicate = predicate_holds scope predicate"
  by (simp add: scopeSatisfiesPredicate_def predicate_holds_def predicate_parts_iff)

lemma complete_record_iff:
  "complete_record r \<longleftrightarrow> missingField r = [] \<and> snd (protoResultToEnum (rec_Result r))"
  by (cases "rec_Result r") (auto simp: complete_record_def missingField_def scope_missing_Nil_iff)

lemma the_payload: "x \<noteq> None \<Longrightarrow> (case x of None \<Rightarrow> [] | Some p \<Rightarrow> p) = the x"
  by auto

lemma admitted_admissible:
  assumes "admit lib now cred r = Inr a" and "cred_TenantID cred \<noteq> []"
  shows "admissible lib now cred r"
  using assms(1)
proof (cases rule: admit_InrE)
  case (1 b)
  note present = missingField_NilD [OF 1(1)]
  show ?thesis unfolding admissible_def
    using assms(2) 1 present by (auto simp: complete_record_iff the_payload predicate_holds_iff MaxObservedAtSkew_def MaxPayloadBytes_def)
qed

lemma accepted_stored:
  assumes "admit lib (id_now (pu_draw p)) (pu_cred p) r = Inr a" and "pu_rec p = Some r" and "cred_TenantID (pu_cred p) \<noteq> []"
    and "InsertEvidenceRecord lib (id_dbnow (pu_draw p)) (insert_params lib (pu_path p) (pu_draw p) (pu_cred p) (pu_recordID p) a) db = Inr (row, db')"
  shows "stored_by lib (db_controls db) p row"
proof -
  from assms(4) obtain t prov pay attr scope where ins:
    "il_jsonb lib (ad_payload a) = Some pay" "il_parse_uuid lib (cred_TenantID (pu_cred p)) = Some t"
    "row = ledger_row t prov pay attr scope (id_dbnow (pu_draw p)) (insert_params lib (pu_path p) (pu_draw p) (pu_cred p) (pu_recordID p) a)"
    "\<forall>c. ad_controlID a = Some c \<longrightarrow> (t, c) \<in> (\<lambda>k. (ctl_TenantID k, ctl_ID k)) ` set (db_controls db)"
    by (elim Insert_InrE) (simp add: insert_params_def)
  from assms(1) show ?thesis
  proof (cases rule: admit_InrE)
    case (1 b)
    note same = redaction_of_fields [OF 1(5)]
    note present = missingField_NilD [OF 1(1)]
    have pay: "rec_Payload (ad_rec a) \<noteq> None"
      using present(7) 1(5) Apply_keeps_payload by (fastforce simp: redaction_of_def)
    show ?thesis unfolding stored_by_def
      by (rule exI [of _ r], rule exI [of _ "ad_rec a"], rule exI [of _ "ad_payload a"])
        (use 1 same ins present pay admitted_admissible [OF assms(1,3)] assms(2) protoResultToEnum_ok [OF 1(15)] in
          \<open>simp add: ledger_row_def insert_params_def the_payload ptrStr_def\<close>)
  qed
qed

lemma ledger_inv_append:
  assumes "ledger_inv db" and "InsertEvidenceRecord lib dbnow p db = Inr (row, db')"
  shows "ledger_inv db'"
  using assms(2)
proof (cases rule: Insert_InrE)
  case (1 t prov pay attr scope)
  then have row: "ev_ID row = ip_ID p" "ev_TenantID row = t" "ev_IdempotencyKey row = ip_IdempotencyKey p"
    by (simp_all add: ledger_row_def)
  have "(t, ip_IdempotencyKey p) \<notin> (\<lambda>r. (ev_TenantID r, ev_IdempotencyKey r)) ` set (filter (\<lambda>r. ev_IdempotencyKey r \<noteq> None) (db_evidence db))"
    if "ip_IdempotencyKey p \<noteq> None"
    using 1(9) that by auto
  with assms(1) 1(7,8) row show ?thesis by (auto simp: ledger_inv_def)
qed

inductive ingest_step :: "ingest_lib \<Rightarrow> 'z ingest_db_scheme \<Rightarrow> 'z ingest_db_scheme \<Rightarrow> bool" for lib where
  push: "ProcessWithRecordID lib path dr rec cred recordID db = (out, db') \<Longrightarrow> ingest_step lib db db'"

inductive_cases ingest_stepE: "ingest_step lib db db'"

lemma push_appends:
  assumes "process lib p db = ((res, d), db')"
  obtains new log where "db' = db\<lparr>db_evidence := db_evidence db @ new, db_evidence_audit := db_evidence_audit db @ log\<rparr>"
    "list_all2 (stored_by lib (db_controls db)) (if d = DecisionAccepted then [p] else []) new" "ledger_inv db \<Longrightarrow> ledger_inv db'"
    "\<not> isl res \<longrightarrow> (\<exists>r. pu_rec p = Some r \<and> admissible lib (id_now (pu_draw p)) (pu_cred p) r)"
proof -
  have audit: "\<exists>log. writeAudit lib dr cred idem kind x reason i db0 = db0\<lparr>db_evidence_audit := db_evidence_audit db0 @ log\<rparr>"
    for dr cred idem kind x reason i and db0 :: "'z ingest_db_scheme"
    by (cases "audits lib dr cred db0") (auto simp: writeAudit_eq intro: exI [of _ "[]"])
  from assms [unfolded process_def] show ?thesis
  proof (cases rule: Process_cases)
    case anonymous
    then show ?thesis by (intro that [where new = "[]" and log = "[]"]) auto
  next
    case (rejected e reason idem kind)
    with audit obtain log where "db' = db\<lparr>db_evidence_audit := db_evidence_audit db @ log\<rparr>" by metis
    with rejected show ?thesis by (intro that [where new = "[]" and log = log]) (auto simp: ledger_inv_def)
  next
    case (deduped r a row)
    with audit obtain log where "db' = db\<lparr>db_evidence_audit := db_evidence_audit db @ log\<rparr>" by metis
    with deduped admitted_admissible [OF deduped(3,2)] show ?thesis
      by (intro that [where new = "[]" and log = log]) (auto simp: ledger_inv_def)
  next
    case (accepted r a row db1)
    then have db1: "db1 = db\<lparr>db_evidence := db_evidence db @ [row]\<rparr>" by (elim Insert_InrE)
    from accepted audit obtain log where "db' = db1\<lparr>db_evidence_audit := db_evidence_audit db1 @ log\<rparr>" by metis
    moreover have "ledger_inv db \<Longrightarrow> ledger_inv db1" using ledger_inv_append accepted(5) by blast
    ultimately show ?thesis
      using accepted db1 accepted_stored [OF accepted(3,1,2,5)] admitted_admissible [OF accepted(3,2)]
      by (intro that [where new = "[row]" and log = log]) (auto simp: ledger_inv_def)
  qed
qed

lemma pushes_appends:
  assumes "pushes lib ps db = (outs, db')" and "ledger_inv db"
  shows "ledger_inv db' \<and> length outs = length ps
    \<and> (\<exists>new log. db' = db\<lparr>db_evidence := db_evidence db @ new, db_evidence_audit := db_evidence_audit db @ log\<rparr>
         \<and> list_all2 (stored_by lib (db_controls db)) (accepted_pushes ps outs) new)
    \<and> (\<forall>(p, res, d) \<in> set (zip ps outs). \<not> isl res \<longrightarrow> (\<exists>r. pu_rec p = Some r \<and> admissible lib (id_now (pu_draw p)) (pu_cred p) r))"
  using assms
proof (induction ps arbitrary: db outs)
  case Nil
  then show ?case by (auto simp: accepted_pushes_def intro: exI [of _ "[]"])
next
  case (Cons p ps)
  obtain res d db1 where p: "process lib p db = ((res, d), db1)" by (metis prod.exhaust)
  obtain outs' where ps: "pushes lib ps db1 = (outs', db')" "outs = (res, d) # outs'"
    using Cons.prems(1) p by (auto split: prod.splits)
  from p obtain new log where one: "db1 = db\<lparr>db_evidence := db_evidence db @ new, db_evidence_audit := db_evidence_audit db @ log\<rparr>"
    "list_all2 (stored_by lib (db_controls db)) (if d = DecisionAccepted then [p] else []) new" "ledger_inv db1"
    "\<not> isl res \<longrightarrow> (\<exists>r. pu_rec p = Some r \<and> admissible lib (id_now (pu_draw p)) (pu_cred p) r)"
    by (rule push_appends) (use Cons.prems(2) in blast)
  from Cons.IH [OF ps(1) one(3)] obtain new' log' where rest:
    "db' = db1\<lparr>db_evidence := db_evidence db1 @ new', db_evidence_audit := db_evidence_audit db1 @ log'\<rparr>"
    "list_all2 (stored_by lib (db_controls db)) (accepted_pushes ps outs') new'"
    by (auto simp: one(1))
  have "list_all2 (stored_by lib (db_controls db)) (accepted_pushes (p # ps) outs) (new @ new')"
    using list_all2_appendI [OF one(2) rest(2)] by (simp add: accepted_pushes_def ps(2) split: if_splits)
  moreover have "db' = db\<lparr>db_evidence := db_evidence db @ new @ new', db_evidence_audit := db_evidence_audit db @ log @ log'\<rparr>"
    using rest(1) one(1) by simp
  ultimately show ?case using Cons.IH [OF ps(1) one(3)] one(4) ps(2) by auto
qed

lemma Process_ledger_inv:
  assumes "ProcessWithRecordID lib path dr rec cred i db = (out, db')" and "ledger_inv db"
  shows "ledger_inv db'" "\<exists>new. db_evidence db' = db_evidence db @ new"
proof -
  obtain res d where "process lib \<lparr>pu_path = path, pu_draw = dr, pu_rec = rec, pu_cred = cred, pu_recordID = i\<rparr> db = ((res, d), db')"
    using assms(1) by (cases out) (auto simp: process_def)
  then show "ledger_inv db'" "\<exists>new. db_evidence db' = db_evidence db @ new" by (rule push_appends, use assms(2) in simp)+
qed

lemma ingest_run_appends:
  assumes "(ingest_step lib)\<^sup>*\<^sup>* db db'" and "ledger_inv db"
  shows "ledger_inv db' \<and> (\<exists>new. db_evidence db' = db_evidence db @ new)"
  using assms(1)
proof (induction rule: rtranclp_induct)
  case (step db1 db2)
  from step(2) show ?case by (rule ingest_stepE) (use step(3) Process_ledger_inv in fastforce)
qed (use assms(2) in simp)

text \<open>The ledger is an append-only table whose key is the idempotency key within a tenant.\<close>

definition ledger_key :: "evidence_row \<Rightarrow> (uuid \<times> string) option" where
  "ledger_key r = map_option (Pair (ev_TenantID r)) (ev_IdempotencyKey r)"

lemma ledger_key_Some [simp]:
  "ledger_key r = Some (t, k) \<longleftrightarrow> Some (ev_TenantID r) = Some t \<and> ev_IdempotencyKey r = Some k"
  by (auto simp: ledger_key_def)

lemma ingest_step_ledger:
  assumes "ingest_step lib db db'" and "ledger_inv db"
  shows "ledger_inv db'" and "\<exists>new. db_evidence db' = db_evidence db @ new"
  using ingest_run_appends [OF r_into_rtranclp [of "ingest_step lib", OF assms(1)] assms(2)] by auto

lemma ledger_key_distinct:
  assumes "distinct (map (\<lambda>r. (ev_TenantID r, ev_IdempotencyKey r)) (filter (\<lambda>r. ev_IdempotencyKey r \<noteq> None) rows))"
  shows "distinct (map ledger_key (filter (\<lambda>r. ledger_key r \<noteq> None) rows))"
proof -
  have "filter (\<lambda>r. ledger_key r \<noteq> None) rows = filter (\<lambda>r. ev_IdempotencyKey r \<noteq> None) rows"
    by (rule filter_cong) (auto simp: ledger_key_def)
  moreover have "inj_on ledger_key (set (filter (\<lambda>r. ev_IdempotencyKey r \<noteq> None) rows))"
    using assms unfolding distinct_map inj_on_def by (auto simp: ledger_key_def)
  moreover have "distinct (filter (\<lambda>r. ev_IdempotencyKey r \<noteq> None) rows)" using assms unfolding distinct_map by blast
  ultimately show ?thesis unfolding distinct_map by simp
qed

interpretation by_key: append_log "ingest_step lib" db_evidence ledger_key ledger_inv for lib
proof unfold_locales
  show "ledger_inv db \<Longrightarrow> distinct (map ledger_key (filter (\<lambda>r. ledger_key r \<noteq> None) (db_evidence db)))" for db
    by (rule ledger_key_distinct) (simp only: ledger_inv_def)
qed (fact ingest_step_ledger)+

lemma lookup_by_key:
  assumes "(ingest_step lib)\<^sup>*\<^sup>* db db'" and "ledger_inv db" and "row \<in> set (db_evidence db)" and "ev_IdempotencyKey row = Some key"
  shows "GetEvidenceRecordByIdempotency (Some (ev_TenantID row)) key db' = Some row"
  using by_key.run_find_key [OF assms(1-3), of "(ev_TenantID row, key)"] assms(4) by (simp add: GetEvidenceRecordByIdempotency_def)


section \<open>Receipts\<close>

lemma sort_key_append_least:
  "(\<And>x. x \<in> set xs \<Longrightarrow> f y < f x) \<Longrightarrow> sort_key f (xs @ [y]) = y # sort_key f xs"
proof (induction xs)
  case (Cons a xs)
  then have "\<not> f a \<le> f y" by (simp add: not_le)
  with Cons show ?case by simp
qed simp

lemma receipt_after_audit:
  assumes "audits lib dr cred db = Some t"
    and "\<forall>e \<in> set (db_evidence_audit db). ea_ReceivedAt e < pgTime (id_audit_dbnow dr)"
  shows "GetEvidenceAuditEntryByReceipt (il_parse_uuid lib (cred_TenantID cred)) (cred_ID cred) x
      (writeAudit lib dr cred idem kind d reason recordID db) =
    (if recordID = Some x then Some (audit_entry lib dr cred idem kind d reason recordID t)
     else GetEvidenceAuditEntryByReceipt (il_parse_uuid lib (cred_TenantID cred)) (cred_ID cred) x db)"
proof -
  have t: "il_parse_uuid lib (cred_TenantID cred) = Some t" using assms(1) by (auto simp: audits_def split: if_splits)
  let ?en = "audit_entry lib dr cred idem kind d reason recordID t"
  have en: "ea_TenantID ?en = t" "ea_CredentialID ?en = cred_ID cred" "ea_RecordID ?en = recordID"
    "ea_ReceivedAt ?en = pgTime (id_audit_dbnow dr)" by (simp_all add: audit_entry_def)
  show ?thesis
  proof (cases "recordID = Some x")
    case True
    have "sort_key (\<lambda>e. - ea_ReceivedAt e)
        (filter (\<lambda>e. Some (ea_TenantID e) = Some t \<and> ea_CredentialID e = cred_ID cred \<and> ea_RecordID e = Some x) (db_evidence_audit db) @ [?en]) =
      ?en # sort_key (\<lambda>e. - ea_ReceivedAt e)
        (filter (\<lambda>e. Some (ea_TenantID e) = Some t \<and> ea_CredentialID e = cred_ID cred \<and> ea_RecordID e = Some x) (db_evidence_audit db))"
      by (rule sort_key_append_least) (use assms(2) en in auto)
    with True en show ?thesis by (simp add: GetEvidenceAuditEntryByReceipt_def writeAudit_eq assms(1) t)
  next
    case False
    with en show ?thesis by (simp add: GetEvidenceAuditEntryByReceipt_def writeAudit_eq assms(1) t)
  qed
qed

definition status_of :: "ingest_lib \<Rightarrow> uuid \<Rightarrow> evidence_audit \<Rightarrow> ReceiptStatus" where
  "status_of lib x e =
     \<lparr>rst_RecordID = il_uuid_string lib x, rst_CredentialID = ea_CredentialID e, rst_Decision = ea_Decision e,
      rst_ReasonCode = ea_ReasonCode e, rst_IdempotencyKey = ea_IdempotencyKey e, rst_EvidenceKind = ea_EvidenceKind e,
      rst_ReceivedAt = ea_ReceivedAt e\<rparr>"

lemma LookupReceiptStatus_run:
  assumes "cred_TenantID cred \<noteq> []" and "tx_ok env"
  shows "LookupReceiptStatus lib env cred x db =
    (case GetEvidenceAuditEntryByReceipt (il_parse_uuid lib (cred_TenantID cred)) (cred_ID cred) x db of
       None \<Rightarrow> Inl ReceiptNoRows | Some e \<Rightarrow> Inr (status_of lib x e))"
  using assms by (simp add: LookupReceiptStatus_def WithTenant_def ApplyTenant_def TenantFromContext_def tx_ok_def status_of_def
      split: option.splits)


section \<open>Rebuilding a record\<close>

lemma timestamp_round_trip:
  assumes "0 \<le> ts_Nanos ts" and "ts_Nanos ts < 1000000000"
  shows "timestamp_New (AsTime ts) = ts"
proof -
  have "AsTime ts - unix_epoch = ts_Nanos ts + ts_Seconds ts * 1000000000" by (simp add: AsTime_def)
  then have "(AsTime ts - unix_epoch) div 1000000000 = ts_Seconds ts" "(AsTime ts - unix_epoch) mod 1000000000 = ts_Nanos ts"
    using assms by simp_all
  then show ?thesis by (simp add: timestamp_New_def)
qed

lemma timestamp_New_normal: "0 \<le> ts_Nanos (timestamp_New t)" "ts_Nanos (timestamp_New t) < 1000000000"
  by (simp_all add: timestamp_New_def)

lemma time_of_UnixNano:
  assumes "\<bar>t - unix_epoch\<bar> < 2 ^ 63"
  shows "time_of_nanos (UnixNano t) = t"
proof -
  have "sint (word_of_int d :: 64 word) = d" if "\<bar>d\<bar> < 2 ^ 63" for d
    using that by (simp add: sint_sbintrunc' signed_take_bit_int_eq_self)
  from this [OF assms] show ?thesis by (simp only: time_of_nanos_def UnixNano_def)
qed

text \<open>What the columns of a row give back.\<close>

definition codecs_ok :: "ingest_lib \<Rightarrow> EvidenceRecord \<Rightarrow> bool" where
  "codecs_ok lib r \<longleftrightarrow>
     (\<forall>p b b'. rec_Payload r = Some p \<and> il_protojson lib p = Some b \<and> il_jsonb lib b = Some b' \<longrightarrow>
        b' \<noteq> [] \<and> il_protojson_parse lib b' = Some p)
     \<and> (\<forall>sa b'. rec_SourceAttribution r = Some sa \<and> il_jsonb lib (il_attribution_json lib sa) = Some b' \<longrightarrow>
        b' \<noteq> [] \<and> il_attribution_parse lib b' = Some sa)
     \<and> (\<forall>b'. il_jsonb lib (cl_scope_json lib (sortedScope (rec_Scope r))) = Some b' \<longrightarrow>
        b' \<notin> {[], ''null''} \<and> cl_scope_parse lib b' = Some (sortedScope (rec_Scope r)))"

text \<open>
  When two records are the same message: the fields of a struct are a map, so their order does not count,
  and a result is its number. A protobuf encoding can be decoded, so two messages with the same encoding
  are the same message.
\<close>

fun struct_order :: "pvalue \<Rightarrow> pvalue" where
  "struct_order (PStruct fs) = PStruct (sort_key fst (map (\<lambda>(k, v). (k, struct_order v)) fs))"
| "struct_order (PList vs) = PList (map struct_order vs)"
| "struct_order v = v"

fun result_number :: "Result \<Rightarrow> int" where
  "result_number RESULT_UNSPECIFIED = 0"
| "result_number RESULT_PASS = 1"
| "result_number RESULT_FAIL = 2"
| "result_number RESULT_NA = 3"
| "result_number RESULT_INCONCLUSIVE = 4"
| "result_number (RESULT_UNRECOGNIZED n) = n"

definition same_message :: "EvidenceRecord \<Rightarrow> EvidenceRecord \<Rightarrow> bool" where
  "same_message x y \<longleftrightarrow>
     rec_IdempotencyKey x = rec_IdempotencyKey y \<and> rec_EvidenceKind x = rec_EvidenceKind y
     \<and> rec_SchemaVersion x = rec_SchemaVersion y \<and> rec_ControlId x = rec_ControlId y \<and> rec_Scope x = rec_Scope y
     \<and> rec_ObservedAt x = rec_ObservedAt y \<and> result_number (rec_Result x) = result_number (rec_Result y)
     \<and> map_option (struct_order \<circ> PStruct) (rec_Payload x) = map_option (struct_order \<circ> PStruct) (rec_Payload y)
     \<and> rec_SourceAttribution x = rec_SourceAttribution y \<and> rec_PayloadUri x = rec_PayloadUri y"

definition proto_decodable :: "ingest_lib \<Rightarrow> bool" where
  "proto_decodable lib \<longleftrightarrow> (\<forall>x y b. cl_proto lib x = Some b \<and> cl_proto lib y = Some b \<longrightarrow> same_message x y)"

abbreviation canonical :: "EvidenceRecord \<Rightarrow> EvidenceRecord" where
  "canonical r \<equiv> r\<lparr>rec_Scope := sortedScope (rec_Scope r)\<rparr>"

lemma canon_truncate [simp]:
  "cl_scope_json (canon_lib.truncate lib) = cl_scope_json lib" "cl_scope_parse (canon_lib.truncate lib) = cl_scope_parse lib"
  "cl_proto (canon_lib.truncate lib) = cl_proto lib" "cl_sha256hex (canon_lib.truncate lib) = cl_sha256hex lib"
  by (simp_all add: canon_lib.truncate_def)

lemma rebuild_ingested:
  assumes "admit lib (id_now dr) cred r = Inr a"
    and "InsertEvidenceRecord lib (id_dbnow dr) (insert_params lib path dr cred recordID a) db = Inr (row, db')"
    and "codecs_ok lib (ad_rec a)" and "\<bar>id_now dr - unix_epoch\<bar> < 2 ^ 62"
  shows "RecordFromLedgerRow lib row =
    Inr ((ad_rec a)\<lparr>rec_Scope := sortedScope (rec_Scope (ad_rec a)), rec_ObservedAt := Some (timestamp_New (AsTime (timestamp_of r)))\<rparr>)"
  using assms(1)
proof (cases rule: admit_InrE)
  case (1 b)
  note same = redaction_of_fields [OF 1(5)]
  note present = missingField_NilD [OF 1(1)]
  from present obtain sa where sa: "rec_SourceAttribution (ad_rec a) = Some sa" using same by auto
  have "rec_Payload (ad_rec a) \<noteq> None"
    using present(7) 1(5) Apply_keeps_payload by (fastforce simp: redaction_of_def)
  then obtain p where p: "rec_Payload (ad_rec a) = Some p" by auto
  from assms(2) obtain t prov pay attr scope where ins:
    "il_jsonb lib (ad_payload a) = Some pay" "il_jsonb lib (il_attribution_json lib sa) = Some attr"
    "il_jsonb lib (ad_scope a) = Some scope"
    "row = ledger_row t prov pay attr scope (id_dbnow dr) (insert_params lib path dr cred recordID a)"
    by (elim Insert_InrE) (simp add: insert_params_def sa)
  have pay: "pay \<noteq> []" "il_protojson_parse lib pay = Some p" and attr: "attr \<noteq> []" "il_attribution_parse lib attr = Some sa"
    using assms(3) p sa ins(1,2) 1(6) unfolding codecs_ok_def by auto
  have scope: "scope \<noteq> []" "UnmarshalCanonicalScope (canon_lib.truncate lib) scope = Some (sortedScope (rec_Scope (ad_rec a)))"
    using assms(3) ins(3) 1(13) present(5) same unfolding codecs_ok_def
    by (auto simp: MarshalCanonicalScope_def UnmarshalCanonicalScope_def)
  have "\<bar>AsTime (timestamp_of r) - unix_epoch\<bar> < 2 ^ 63"
    using 1(4) assms(4) by (simp add: MaxObservedAtSkew_def hours_def)
  then have time: "time_of_nanos (UnixNano (ad_observed a)) = AsTime (timestamp_of r)" using 1(3) by (simp add: time_of_UnixNano)
  have "resultEnumToProto (ad_result a) = rec_Result (ad_rec a)" using protoResultToEnum_ok [OF 1(15)] same by simp
  then show ?thesis
    using present same pay attr scope time sa p ins(4)
    by (cases "ad_rec a") (simp add: RecordFromLedgerRow_def ledger_row_def insert_params_def ptrStr_def deref_def)
qed


lemma RecordFromLedgerRow_columns:
  assumes "RecordFromLedgerRow lib row = Inr x"
  shows "rec_IdempotencyKey x = deref (ev_IdempotencyKey row)" "rec_EvidenceKind x = deref (ev_EvidenceKind row)"
    "rec_SchemaVersion x = deref (ev_SchemaVersion row)" "rec_ControlId x = ev_ControlRef row"
    "rec_Result x = resultEnumToProto (ev_Result row)" "rec_PayloadUri x = ev_PayloadUri row"
  using assms by (auto simp: RecordFromLedgerRow_def Let_def split: option.splits if_splits)

lemma resultEnumToProto_inj:
  "a \<in> result_values \<Longrightarrow> result_number (resultEnumToProto b) = result_number (resultEnumToProto a) \<Longrightarrow> b = a"
  by (auto simp: result_values_def resultEnumToProto_def eval_consts split: if_splits)

text \<open>The columns whose content the hash covers, apart from the three \<open>jsonb\<close> ones and the time.\<close>

definition hashed_columns :: "evidence_row \<Rightarrow> string \<times> string \<times> string \<times> string \<times> string \<times> string option" where
  "hashed_columns row = (deref (ev_IdempotencyKey row), deref (ev_EvidenceKind row), deref (ev_SchemaVersion row), ev_ControlRef row,
     ev_Result row, ev_PayloadUri row)"

lemma verifies_same_record:
  assumes "VerifyLedgerRow lib row' = Inr (True, h)" and "HashRecord (canon_lib.truncate lib) r = Some h"
    and "proto_decodable lib" and "RecordFromLedgerRow lib row = Inr y" and "rec_Result y = rec_Result r"
    and "rec_IdempotencyKey y = rec_IdempotencyKey r" "rec_EvidenceKind y = rec_EvidenceKind r" "rec_SchemaVersion y = rec_SchemaVersion r"
    and "rec_ControlId y = rec_ControlId r" "rec_PayloadUri y = rec_PayloadUri r" and "ev_Result row \<in> result_values"
  shows "\<exists>x b b'. RecordFromLedgerRow lib row' = Inr x \<and> cl_proto lib (canonical r) = Some b \<and> cl_proto lib (canonical x) = Some b'
    \<and> (same_message (canonical x) (canonical r) \<and> hashed_columns row' = hashed_columns row
        \<or> b \<noteq> b' \<and> cl_sha256hex lib b = cl_sha256hex lib b')"
proof -
  obtain b where b: "cl_proto lib (canonical r) = Some b" "cl_sha256hex lib b = h"
    using assms(2) by (auto simp: HashRecord_def split: option.splits)
  obtain x b' where x: "RecordFromLedgerRow lib row' = Inr x" "cl_proto lib (canonical x) = Some b'" "cl_sha256hex lib b' = h"
    using assms(1) by (auto simp: VerifyLedgerRow_def LedgerRowHash_def HashRecord_def split: sum.splits option.splits)
  have "same_message (canonical x) (canonical r) \<and> hashed_columns row' = hashed_columns row" if "b' = b"
  proof -
    have same: "same_message (canonical x) (canonical r)" using assms(3) b(1) x(2) that unfolding proto_decodable_def by blast
    note cols = RecordFromLedgerRow_columns [OF x(1)] RecordFromLedgerRow_columns [OF assms(4)]
    have "ev_Result row' = ev_Result row"
      by (rule resultEnumToProto_inj [OF assms(11)]) (use same cols(5,11) assms(5) in \<open>simp add: same_message_def\<close>)
    then show ?thesis using same cols assms(6-10) by (simp add: same_message_def hashed_columns_def)
  qed
  then show ?thesis using b x by (intro exI [of _ x] exI [of _ b] exI [of _ b']) auto
qed


section \<open>Properties\<close>

definition demo_record :: EvidenceRecord where
  "demo_record =
     \<lparr>rec_IdempotencyKey = ''k1'', rec_EvidenceKind = ''sast.v1'', rec_SchemaVersion = ''1.0.0'', rec_ControlId = ''scf:VPM-04'',
      rec_Scope = [\<lparr>sd_Key = ''env'', sd_Values = [''prod'']\<rparr>], rec_ObservedAt = Some \<lparr>ts_Seconds = 10, ts_Nanos = 5\<rparr>,
      rec_Result = RESULT_PASS, rec_Payload = Some [],
      rec_SourceAttribution = Some \<lparr>sa_ActorType = [], sa_ActorId = [], sa_SessionId = []\<rparr>, rec_PayloadUri = None\<rparr>"

definition demo_cred :: Credential where
  "demo_cred = \<lparr>cred_ID = ''key_1'', cred_TenantID = ''tenant-1'', cred_ScopePredicate = [], cred_Kinds = []\<rparr>"

definition demo_ingest_lib :: ingest_lib where
  "demo_ingest_lib =
     \<lparr>cl_proto = (\<lambda>r. Some (rec_IdempotencyKey r @ rec_ControlId r)), cl_sha256hex = (\<lambda>b. b), cl_scope_json = (\<lambda>_. ''[]''),
      cl_scope_parse = (\<lambda>_. Some [\<lparr>sd_Key = ''env'', sd_Values = [''prod'']\<rparr>]),
      il_protojson = (\<lambda>_. Some ''{}''), il_protojson_parse = (\<lambda>_. Some []), il_clone = Some,
      il_attribution_json = (\<lambda>_. ''{}''),
      il_attribution_parse = (\<lambda>_. Some \<lparr>sa_ActorType = [], sa_ActorId = [], sa_SessionId = []\<rparr>),
      il_provenance_json = (\<lambda>_ _ _ _. ''{}''), il_jsonb = Some, il_parse_uuid = (\<lambda>s. if s = ''tenant-1'' then Some 1 else if s = ''u'' then Some 77 else None),
      il_uuid_string = (\<lambda>_. ''u''), il_reason = (\<lambda>_. ''r''), il_registered = (\<lambda>_ _ _. True),
      il_validate = (\<lambda>_ _ _ _. None), il_rules = (\<lambda>_ _ _. Inr [])\<rparr>"

definition demo_push :: "gotime \<Rightarrow> ingest_draw" where
  "demo_push now =
     \<lparr>id_env = demo_env, id_audit_env = demo_env, id_new = 500, id_audit = 600, id_now = now, id_dbnow = now,
      id_audit_dbnow = now\<rparr>"

definition demo_push_of :: "Credential \<Rightarrow> push" where
  "demo_push_of cred =
     \<lparr>pu_path = ''push'', pu_draw = demo_push (unix_epoch + 10000000007), pu_rec = Some demo_record, pu_cred = cred,
      pu_recordID = Some 77\<rparr>"

lemma demo_push_simps:
  "cred_TenantID demo_cred \<noteq> []" "tx_ok (id_env (demo_push now))" "tx_ok (id_audit_env (demo_push now))"
  "id_now (demo_push now) = now" "il_parse_uuid demo_ingest_lib (cred_TenantID demo_cred) = Some 1"
  by (simp_all add: demo_cred_def demo_push_def demo_ingest_lib_def)

definition demo_ingest_db :: ingest_db where
  "demo_ingest_db =
     \<lparr>db_dimensions = [], db_cells = [], db_controls = [], db_evidence = [], db_evaluations = [], db_evidence_audit = []\<rparr>"

definition demo_admitted :: admitted where
  "demo_admitted =
     \<lparr>ad_rec = demo_record, ad_observed = unix_epoch + 10000000005, ad_payload = ''{}'', ad_hash = ''k1scf:VPM-04'',
      ad_scope = ''[]'', ad_controlID = None, ad_result = ''pass''\<rparr>"

lemma demo_admit: "\<bar>now - (unix_epoch + 10000000005)\<bar> \<le> hours 24 \<Longrightarrow>
    admit demo_ingest_lib now demo_cred demo_record = Inr demo_admitted"
  by (auto simp: admit_def Let_def missingField_def demo_record_def demo_cred_def demo_ingest_lib_def MaxObservedAtSkew_def
      MaxPayloadBytes_def apply_redaction_def HashRecord_def MarshalCanonicalScope_def AsTime_def demo_admitted_def
      canon_lib.truncate_def abs_le_iff)

lemma demo_accepted_by:
  assumes adm: "admit lib (unix_epoch + 10000000007) demo_cred demo_record = Inr demo_admitted"
    and lib: "il_jsonb lib = Some" "il_parse_uuid lib (cred_TenantID demo_cred) = Some 1"
  shows "\<exists>row db'. ProcessWithRecordID lib ''push'' (demo_push (unix_epoch + 10000000007)) (Some demo_record) demo_cred (Some 77)
      demo_ingest_db = ((Inr (receipt_of lib demo_cred False row), DecisionAccepted), db')
     \<and> db_evidence db' = [row] \<and> ev_ID row = 77 \<and> ev_TenantID row = 1 \<and> ev_IdempotencyKey row = Some ''k1''
     \<and> ev_Hash row = ''k1scf:VPM-04'' \<and> ev_Result row = ''pass''"
proof -
  let ?dr = "demo_push (unix_epoch + 10000000007)"
  have adm: "admit lib (id_now ?dr) demo_cred demo_record = Inr demo_admitted" using adm by (simp add: demo_push_def)
  obtain row where ins: "InsertEvidenceRecord lib (id_dbnow ?dr)
      (insert_params lib ''push'' ?dr demo_cred (Some 77) demo_admitted) demo_ingest_db =
      Inr (row, demo_ingest_db\<lparr>db_evidence := [row]\<rparr>)"
    and row: "ev_ID row = 77" "ev_TenantID row = 1" "ev_IdempotencyKey row = Some ''k1''" "ev_Hash row = ''k1scf:VPM-04''" "ev_Result row = ''pass''"
    using lib by (simp add: InsertEvidenceRecord_def insert_params_def demo_admitted_def demo_record_def
        demo_ingest_db_def ingestion_paths_def ledger_row_def Let_def)
  have look: "GetEvidenceRecordByIdempotency x y demo_ingest_db = None" for x y
    by (simp add: GetEvidenceRecordByIdempotency_def demo_ingest_db_def)
  have "ProcessWithRecordID lib ''push'' ?dr (Some demo_record) demo_cred (Some 77) demo_ingest_db =
      conclude lib ?dr demo_record demo_cred (Some 77) demo_ingest_db
        (Inr (row, False), demo_ingest_db\<lparr>db_evidence := [row]\<rparr>)"
    by (simp only: Process_run [OF demo_push_simps(1,2) adm] look ins option.case sum.case prod.case)
  with row show ?thesis by (auto simp: conclude_def Let_def receipt_of_def)
qed

lemma demo_accepted:
  "\<exists>row db'. ProcessWithRecordID demo_ingest_lib ''push'' (demo_push (unix_epoch + 10000000007)) (Some demo_record) demo_cred (Some 77)
      demo_ingest_db = ((Inr (receipt_of demo_ingest_lib demo_cred False row), DecisionAccepted), db')
     \<and> db_evidence db' = [row] \<and> ev_ID row = 77 \<and> ev_TenantID row = 1 \<and> ev_IdempotencyKey row = Some ''k1''
     \<and> ev_Hash row = ''k1scf:VPM-04''"
  using demo_accepted_by [of demo_ingest_lib] demo_admit [of "unix_epoch + 10000000007"] demo_push_simps(5)
  by (fastforce simp: hours_def demo_ingest_lib_def)

text \<open>
  C13. The ledger is append-only and holds exactly what was checked. Over any sequence of pushes, with
  whatever records, credentials, clocks and failures: rows and audit entries are only added and no other
  table changes; record identifiers stay unique, and so do idempotency keys within a tenant. The rows that
  are added are, in order, those of the pushes with the decision \<open>accepted\<close>, and no push gets a receipt
  unless its record was admissible for the credential that pushed it when it arrived: complete, observed
  within a day, no larger than a mebibyte unless it names an object, of a registered kind and valid for its
  schema, of a kind the credential may push, and in the scope of the credential. A row names the tenant and
  the credential of its push, holds the redacted payload and the hash of the redacted record, names a control
  of its tenant if it names one by identifier, and has no scope cell.
\<close>

theorem ingest_run_invariant:
  assumes "pushes lib ps db = (outs, db')" and "ledger_inv db"
  shows "ledger_inv db' \<and> length outs = length ps
    \<and> (\<exists>new log. db' = db\<lparr>db_evidence := db_evidence db @ new, db_evidence_audit := db_evidence_audit db @ log\<rparr>
         \<and> list_all2 (stored_by lib (db_controls db)) (accepted_pushes ps outs) new)
    \<and> (\<forall>(p, res, d) \<in> set (zip ps outs). \<not> isl res \<longrightarrow> (\<exists>r. pu_rec p = Some r \<and> admissible lib (id_now (pu_draw p)) (pu_cred p) r))"
  by (rule pushes_appends [OF assms])

theorem ingest_run_invariant_witness:
  "\<exists>outs db' row. pushes demo_ingest_lib [demo_push_of demo_cred, demo_push_of (demo_cred\<lparr>cred_Kinds := [''dast.v1'']\<rparr>)] demo_ingest_db = (outs, db')
     \<and> ledger_inv db' \<and> db_evidence db' = [row] \<and> stored_by demo_ingest_lib [] (demo_push_of demo_cred) row
     \<and> length outs = 2 \<and> \<not> isl (fst (outs ! 0)) \<and> isl (fst (outs ! 1))"
proof -
  let ?other = "demo_cred\<lparr>cred_Kinds := [''dast.v1'']\<rparr>"
  obtain row db1 where first: "process demo_ingest_lib (demo_push_of demo_cred) demo_ingest_db =
      ((Inr (receipt_of demo_ingest_lib demo_cred False row), DecisionAccepted), db1)"
    using demo_accepted by (auto simp: process_def demo_push_of_def)
  obtain res d db' where second: "process demo_ingest_lib (demo_push_of ?other) db1 = ((res, d), db')" by (metis prod.exhaust)
  let ?outs = "[(Inr (receipt_of demo_ingest_lib demo_cred False row), DecisionAccepted), (res, d)]"
  have run: "pushes demo_ingest_lib [demo_push_of demo_cred, demo_push_of ?other] demo_ingest_db = (?outs, db')"
    by (simp add: first second)
  have inv: "ledger_inv demo_ingest_db" by (simp add: ledger_inv_def demo_ingest_db_def)
  note th = ingest_run_invariant [OF run inv]
  have "\<not> admissible demo_ingest_lib now ?other demo_record" for now by (simp add: admissible_def demo_record_def)
  then have res: "isl res" using th by (auto simp: demo_push_of_def)
  then have "d \<noteq> DecisionAccepted" using second by (auto simp: process_def elim!: Process_cases)
  then have acc: "accepted_pushes [demo_push_of demo_cred, demo_push_of ?other] ?outs = [demo_push_of demo_cred]"
    by (simp add: accepted_pushes_def)
  from th obtain new log where "db' = demo_ingest_db\<lparr>db_evidence := db_evidence demo_ingest_db @ new,
      db_evidence_audit := db_evidence_audit demo_ingest_db @ log\<rparr>"
    "list_all2 (stored_by demo_ingest_lib (db_controls demo_ingest_db)) [demo_push_of demo_cred] new" unfolding acc by blast
  then obtain x where "db_evidence db' = [x]" "stored_by demo_ingest_lib [] (demo_push_of demo_cred) x"
    by (auto simp: demo_ingest_db_def list_all2_Cons1)
  with th run res show ?thesis by (intro exI [of _ ?outs] exI [of _ db'] exI [of _ x]) simp
qed

text \<open>
  C15. Pushing is idempotent. Once a tenant has a row under an idempotency key, then after any further
  pushes an admitted record of that tenant with that key never adds a row: it gets the receipt of the
  first row when its content hash agrees, and is refused as a mismatch when it does not. The hash does
  not depend on the order in which scope dimensions with distinct keys, or their values, are listed.
\<close>

theorem push_idempotent:
  assumes "(ingest_step lib)\<^sup>*\<^sup>* db0 db" and "ledger_inv db0"
    and "row \<in> set (db_evidence db0)" and "il_parse_uuid lib (cred_TenantID cred) = Some (ev_TenantID row)"
    and "ev_IdempotencyKey row = Some (rec_IdempotencyKey r)" and "cred_TenantID cred \<noteq> []"
    and "tx_ok (id_env dr)" and "admit lib (id_now dr) cred r = Inr a"
  shows "(let out = ProcessWithRecordID lib path dr (Some r) cred recordID db in
      fst out = (if ev_Hash row = ad_hash a
        then (Inr \<lparr>rc_RecordID = il_uuid_string lib (ev_ID row), rc_Hash = ev_Hash row, rc_IngestedAt = ev_IngestedAt row,
                    rc_CredentialID = cred_ID cred, rc_Deduplicated = True\<rparr>, DecisionDeduplicated)
        else (Inl ErrIdempotencyMismatch, DecisionRejectedIdempotencyMismatch))
      \<and> db_evidence (snd out) = db_evidence db)
    \<and> (distinct (map sd_Key (rec_Scope (ad_rec a))) \<and> mset (map sort_values (rec_Scope (ad_rec a))) = mset (map sort_values scope) \<longrightarrow>
        HashRecord (canon_lib.truncate lib) ((ad_rec a)\<lparr>rec_Scope := scope\<rparr>) = Some (ad_hash a))"
proof
  from assms(8) have key: "rec_IdempotencyKey (ad_rec a) = rec_IdempotencyKey r" and hash: "HashRecord (canon_lib.truncate lib) (ad_rec a) = Some (ad_hash a)"
    by (auto elim!: admit_InrE dest: redaction_of_fields)
  have "GetEvidenceRecordByIdempotency (Some (ev_TenantID row)) (rec_IdempotencyKey r) db = Some row"
    by (rule lookup_by_key [OF assms(1-3,5)])
  with assms(4) key show "let out = ProcessWithRecordID lib path dr (Some r) cred recordID db in
      fst out = (if ev_Hash row = ad_hash a
        then (Inr \<lparr>rc_RecordID = il_uuid_string lib (ev_ID row), rc_Hash = ev_Hash row, rc_IngestedAt = ev_IngestedAt row,
                    rc_CredentialID = cred_ID cred, rc_Deduplicated = True\<rparr>, DecisionDeduplicated)
        else (Inl ErrIdempotencyMismatch, DecisionRejectedIdempotencyMismatch))
      \<and> db_evidence (snd out) = db_evidence db"
    by (simp add: Process_run [OF assms(6-8)] conclude_def Let_def)
  show "distinct (map sd_Key (rec_Scope (ad_rec a))) \<and> mset (map sort_values (rec_Scope (ad_rec a))) = mset (map sort_values scope) \<longrightarrow>
        HashRecord (canon_lib.truncate lib) ((ad_rec a)\<lparr>rec_Scope := scope\<rparr>) = Some (ad_hash a)"
    using HashRecord_order [of "ad_rec a" scope] hash by simp
qed

theorem push_idempotent_witness:
  "\<exists>row (db :: ingest_db). db_evidence db = [row]
     \<and> fst (ProcessWithRecordID demo_ingest_lib ''push'' (demo_push (unix_epoch + 20000000000)) (Some demo_record) demo_cred (Some 78) db)
       = (Inr \<lparr>rc_RecordID = ''u'', rc_Hash = ev_Hash row, rc_IngestedAt = ev_IngestedAt row, rc_CredentialID = ''key_1'',
               rc_Deduplicated = True\<rparr>, DecisionDeduplicated)"
proof -
  obtain row db where p: "ProcessWithRecordID demo_ingest_lib ''push'' (demo_push (unix_epoch + 10000000007)) (Some demo_record)
      demo_cred (Some 77) demo_ingest_db = ((Inr (receipt_of demo_ingest_lib demo_cred False row), DecisionAccepted), db)"
    and row: "db_evidence db = [row]" "ev_TenantID row = 1" "ev_IdempotencyKey row = Some ''k1''" "ev_Hash row = ''k1scf:VPM-04''"
    using demo_accepted by blast
  have inv: "ledger_inv db" using row by (simp add: ledger_inv_def)
  have adm: "admit demo_ingest_lib (id_now (demo_push (unix_epoch + 20000000000))) demo_cred demo_record = Inr demo_admitted"
    using demo_admit [of "unix_epoch + 20000000000"] by (simp add: demo_push_def hours_def)
  have "il_parse_uuid demo_ingest_lib (cred_TenantID demo_cred) = Some (ev_TenantID row)"
    "ev_IdempotencyKey row = Some (rec_IdempotencyKey demo_record)" "row \<in> set (db_evidence db)"
    using row by (simp_all add: demo_push_simps demo_record_def)
  from push_idempotent [OF rtranclp.rtrancl_refl inv this(3,1,2) demo_push_simps(1,2) adm, of "''push''" "Some 78"] row
  show ?thesis
    by (intro exI [of _ row] exI [of _ db])
      (simp add: Let_def demo_admitted_def demo_ingest_lib_def demo_cred_def)
qed

text \<open>
  C17. An accepted row verifies, and keeps its content while it does. What the row gives back is the redacted
  record with its scope in canonical order and its observation time as a normal timestamp, so the recomputed
  hash is the stored one when the pushed timestamp was normal (nanoseconds from 0 up to a second). Whatever a
  row is changed to outside of ingestion, if it still verifies against the same hash, then it has the same
  identifiers, control, result and object, and gives back the same message as was stored, or the encodings of
  the record that was stored and of the one that is now given back are two different texts with the same
  SHA-256. The payload, the attribution and the scope must survive their \<open>jsonb\<close> columns, protobuf encodings
  must be decodable, and the clock must be within 146 years of 1970.
\<close>

theorem accepted_row_verifies:
  assumes "ProcessWithRecordID lib path dr (Some r) cred recordID db = ((res, DecisionAccepted), db')"
    and "\<forall>r'. redaction_of lib (cred_TenantID cred) r r' \<longrightarrow> codecs_ok lib r'"
    and "\<bar>id_now dr - unix_epoch\<bar> < 2 ^ 62" and "proto_decodable lib"
  shows "\<exists>row r'. db_evidence db' = db_evidence db @ [row] \<and> redaction_of lib (cred_TenantID cred) r r'
    \<and> HashRecord (canon_lib.truncate lib) r' = Some (ev_Hash row)
    \<and> RecordFromLedgerRow lib row = Inr ((canonical r')\<lparr>rec_ObservedAt := Some (timestamp_New (AsTime (timestamp_of r)))\<rparr>)
    \<and> (0 \<le> ts_Nanos (timestamp_of r) \<and> ts_Nanos (timestamp_of r) < 1000000000 \<longrightarrow> VerifyLedgerRow lib row = Inr (True, ev_Hash row))
    \<and> (\<forall>row'. VerifyLedgerRow lib row' = Inr (True, ev_Hash row) \<longrightarrow>
         (\<exists>x b b'. RecordFromLedgerRow lib row' = Inr x \<and> cl_proto lib (canonical r') = Some b \<and> cl_proto lib (canonical x) = Some b'
            \<and> (same_message (canonical x) (canonical r') \<and> hashed_columns row' = hashed_columns row
                \<or> b \<noteq> b' \<and> cl_sha256hex lib b = cl_sha256hex lib b')))"
  using assms(1)
proof (cases rule: Process_cases)
  case (accepted r0 a row db1)
  then have r0: "r0 = r" by simp
  note adm = accepted(3) [unfolded r0]
  from adm have red: "redaction_of lib (cred_TenantID cred) r (ad_rec a)" and ts: "rec_ObservedAt (ad_rec a) = Some (timestamp_of r)"
    and hash: "HashRecord (canon_lib.truncate lib) (ad_rec a) = Some (ad_hash a)"
    and enum: "protoResultToEnum (rec_Result r) = (ad_result a, True)"
    by (auto elim!: admit_InrE dest: redaction_of_fields)
  have row: "ev_Hash row = ad_hash a" "db_evidence db' = db_evidence db @ [row]" "ev_Result row = ad_result a"
    using accepted(5,8) by (auto elim!: Insert_InrE simp: ledger_row_def insert_params_def)
  have rebuilt: "RecordFromLedgerRow lib row = Inr ((canonical (ad_rec a))\<lparr>rec_ObservedAt := Some (timestamp_New (AsTime (timestamp_of r)))\<rparr>)"
    by (rule rebuild_ingested [OF adm accepted(5)]) (use assms(2,3) red in auto)
  have "VerifyLedgerRow lib row = Inr (True, ev_Hash row)"
    if "0 \<le> ts_Nanos (timestamp_of r)" "ts_Nanos (timestamp_of r) < 1000000000"
  proof -
    have "(canonical (ad_rec a))\<lparr>rec_ObservedAt := Some (timestamp_New (AsTime (timestamp_of r)))\<rparr> = canonical (ad_rec a)"
      using timestamp_round_trip [OF that] ts by (cases "ad_rec a") simp
    with rebuilt hash row show ?thesis by (simp add: VerifyLedgerRow_def LedgerRowHash_def)
  qed
  moreover have "\<exists>x b b'. RecordFromLedgerRow lib row' = Inr x \<and> cl_proto lib (canonical (ad_rec a)) = Some b \<and> cl_proto lib (canonical x) = Some b'
            \<and> (same_message (canonical x) (canonical (ad_rec a)) \<and> hashed_columns row' = hashed_columns row
                \<or> b \<noteq> b' \<and> cl_sha256hex lib b = cl_sha256hex lib b')"
    if "VerifyLedgerRow lib row' = Inr (True, ev_Hash row)" for row'
    by (rule verifies_same_record [OF that _ assms(4) rebuilt]) (use hash row protoResultToEnum_ok [OF enum] in simp_all)
  ultimately show ?thesis using row hash red rebuilt by (intro exI [of _ row] exI [of _ "ad_rec a"]) auto
qed (use assms(1) in auto)

text \<open>An encoder that knows two records, the pushed one and one with another result.\<close>

definition demo_proto :: "EvidenceRecord \<Rightarrow> bytes option" where
  "demo_proto r = (if r = demo_record then Some ''k1scf:VPM-04''
     else if r = demo_record\<lparr>rec_Result := RESULT_FAIL\<rparr> then Some ''k1scf:VPM-04-fail'' else None)"

abbreviation demo_verify_lib :: ingest_lib where
  "demo_verify_lib \<equiv> demo_ingest_lib\<lparr>cl_proto := demo_proto\<rparr>"

lemma demo_verify_admit:
  "admit demo_verify_lib (unix_epoch + 10000000007) demo_cred demo_record = Inr demo_admitted"
  "il_jsonb demo_verify_lib = Some" "il_parse_uuid demo_verify_lib (cred_TenantID demo_cred) = Some 1"
proof -
  have "canonical demo_record = demo_record" by (simp add: demo_record_def sortedScope_def)
  then have "HashRecord (canon_lib.truncate demo_verify_lib) demo_record = Some ''k1scf:VPM-04''"
    by (simp add: HashRecord_def demo_proto_def) (simp add: demo_ingest_lib_def)
  then show "admit demo_verify_lib (unix_epoch + 10000000007) demo_cred demo_record = Inr demo_admitted"
    by (auto simp: admit_def Let_def missingField_def demo_record_def demo_cred_def demo_ingest_lib_def MaxObservedAtSkew_def
        MaxPayloadBytes_def apply_redaction_def MarshalCanonicalScope_def AsTime_def demo_admitted_def abs_le_iff hours_def)
qed (simp_all add: demo_ingest_lib_def demo_cred_def)

theorem accepted_row_verifies_witness:
  "\<exists>row. VerifyLedgerRow demo_verify_lib row = Inr (True, ''k1scf:VPM-04'') \<and> ev_ID row = 77
     \<and> VerifyLedgerRow demo_verify_lib (row\<lparr>ev_Result := ''fail''\<rparr>) \<noteq> Inr (True, ''k1scf:VPM-04'')"
proof -
  obtain row db' where p: "ProcessWithRecordID demo_verify_lib ''push'' (demo_push (unix_epoch + 10000000007)) (Some demo_record)
      demo_cred (Some 77) demo_ingest_db = ((Inr (receipt_of demo_verify_lib demo_cred False row), DecisionAccepted), db')"
    and row: "db_evidence db' = [row]" "ev_ID row = 77" "ev_Hash row = ''k1scf:VPM-04''" "ev_Result row = ''pass''"
    using demo_accepted_by [of demo_verify_lib] demo_verify_admit by auto
  have codecs: "\<forall>r'. redaction_of demo_verify_lib (cred_TenantID demo_cred) demo_record r' \<longrightarrow> codecs_ok demo_verify_lib r'"
  proof (intro allI impI)
    fix r' assume "redaction_of demo_verify_lib (cred_TenantID demo_cred) demo_record r'"
    then have "rec_Payload r' = Some [] \<and> r' = demo_record\<lparr>rec_Payload := rec_Payload r'\<rparr>"
      by (simp add: redaction_of_def Apply_def demo_ingest_lib_def demo_record_def)
    then have "r' = demo_record\<lparr>rec_Payload := Some []\<rparr>" by metis
    then have "r' = demo_record" by (simp add: demo_record_def)
    then show "codecs_ok demo_verify_lib r'" by (simp add: codecs_ok_def demo_ingest_lib_def demo_record_def sortedScope_def)
  qed
  have clock: "\<bar>id_now (demo_push (unix_epoch + 10000000007)) - unix_epoch\<bar> < 2 ^ 62" by (simp add: demo_push_def)
  have dec: "proto_decodable demo_verify_lib" by (auto simp: proto_decodable_def demo_proto_def same_message_def split: if_splits)
  have "0 \<le> ts_Nanos (timestamp_of demo_record) \<and> ts_Nanos (timestamp_of demo_record) < 1000000000"
    by (simp add: timestamp_of_def demo_record_def)
  with accepted_row_verifies [OF p codecs clock dec] row have ok: "VerifyLedgerRow demo_verify_lib row = Inr (True, ev_Hash row)"
    and tamper: "VerifyLedgerRow demo_verify_lib row' = Inr (True, ev_Hash row) \<Longrightarrow>
      hashed_columns row' = hashed_columns row \<or> (\<exists>b b'. b \<noteq> b' \<and> cl_sha256hex demo_verify_lib b = cl_sha256hex demo_verify_lib b')" for row'
    by (auto simp: demo_ingest_db_def)
  have "hashed_columns (row\<lparr>ev_Result := ''fail''\<rparr>) \<noteq> hashed_columns row" by (simp add: hashed_columns_def row)
  moreover have "cl_sha256hex demo_verify_lib = (\<lambda>b. b)" by (simp add: demo_ingest_lib_def)
  ultimately have "VerifyLedgerRow demo_verify_lib (row\<lparr>ev_Result := ''fail''\<rparr>) \<noteq> Inr (True, ev_Hash row)" using tamper by auto
  with ok row show ?thesis by auto
qed

text \<open>
  C21. What a pusher can learn from a receipt. After a push with a receipt identifier whose audit row was
  written, at an instant later than the earlier audit rows, the status of that identifier is the decision,
  whatever it was, with one exception: a push that is deduplicated onto a row with another identifier is
  recorded under that row, and the status of the identifier the pusher holds stays what it was, so when
  nothing was recorded for it, it is never found.
\<close>

theorem receipt_status_after_push:
  assumes "ProcessWithRecordID lib path dr rec cred (Some x) db = ((res, d), db')" and "audits lib dr cred db \<noteq> None"
    and "\<forall>e \<in> set (db_evidence_audit db). ea_ReceivedAt e < pgTime (id_audit_dbnow dr)" and "tx_ok env"
  shows "(d \<noteq> DecisionDeduplicated \<longrightarrow>
        (\<exists>st. LookupReceiptStatus lib env cred x db' = Inr st \<and> rst_Decision st = Decision_String d))
    \<and> (d = DecisionDeduplicated \<longrightarrow>
        (\<exists>row \<in> set (db_evidence db).
           (\<exists>st. LookupReceiptStatus lib env cred (ev_ID row) db' = Inr st \<and> rst_Decision st = ''deduplicated'')
           \<and> (ev_ID row \<noteq> x \<longrightarrow> LookupReceiptStatus lib env cred x db' = LookupReceiptStatus lib env cred x db)))"
proof -
  obtain t where t: "audits lib dr cred db = Some t" using assms(2) by auto
  then have tenant: "cred_TenantID cred \<noteq> []" by (auto simp: audits_def split: if_splits)
  note look = LookupReceiptStatus_run [OF tenant assms(4)]
  note audited = receipt_after_audit [OF t assms(3)]
  from assms(1) show ?thesis
  proof (cases rule: Process_cases)
    case anonymous
    with tenant show ?thesis by simp
  next
    case (rejected e reason idem kind)
    then show ?thesis by (simp add: look audited status_of_def audit_entry_def)
  next
    case (deduped r a row)
    have "row \<in> set (db_evidence db)"
      using deduped(4) by (auto simp: GetEvidenceRecordByIdempotency_def dest: find_SomeD)
    moreover have "LookupReceiptStatus lib env cred (ev_ID row) db' =
        Inr (status_of lib (ev_ID row) (audit_entry lib dr cred (rec_IdempotencyKey r) (rec_EvidenceKind r) d NoReason (Some (ev_ID row)) t))"
      by (simp add: deduped(8) look audited)
    moreover have "LookupReceiptStatus lib env cred x db' = LookupReceiptStatus lib env cred x db" if "ev_ID row \<noteq> x"
      using that by (simp add: deduped(8) look audited)
    moreover have "rst_Decision (status_of lib (ev_ID row)
        (audit_entry lib dr cred (rec_IdempotencyKey r) (rec_EvidenceKind r) d NoReason (Some (ev_ID row)) t)) = ''deduplicated''"
      using deduped(7) by (simp add: status_of_def audit_entry_def)
    ultimately show ?thesis using deduped(7) by blast
  next
    case (accepted r a row db1)
    have db1: "db1 = db\<lparr>db_evidence := db_evidence db @ [row]\<rparr>" and x: "ev_ID row = x"
      using accepted(5) by (auto elim!: Insert_InrE simp: ledger_row_def insert_params_def)
    have "audits lib dr cred db1 = Some t" "\<forall>e \<in> set (db_evidence_audit db1). ea_ReceivedAt e < pgTime (id_audit_dbnow dr)"
      using t assms(3) by (simp_all add: db1)
    from receipt_after_audit [OF this] show ?thesis
      using accepted(7) x by (simp add: accepted(8) look status_of_def audit_entry_def)
  qed
qed

theorem receipt_status_after_push_witness:
  "\<exists>st (db' :: ingest_db). LookupReceiptStatus demo_ingest_lib demo_env demo_cred 77 db' = Inr st \<and> rst_Decision st = ''accepted''"
proof -
  obtain row db' where p: "ProcessWithRecordID demo_ingest_lib ''push'' (demo_push (unix_epoch + 10000000007)) (Some demo_record)
      demo_cred (Some 77) demo_ingest_db = ((Inr (receipt_of demo_ingest_lib demo_cred False row), DecisionAccepted), db')"
    using demo_accepted by blast
  have "audits demo_ingest_lib (demo_push (unix_epoch + 10000000007)) demo_cred demo_ingest_db \<noteq> None"
    by (simp add: audits_def demo_push_simps demo_ingest_db_def)
  moreover have "\<forall>e \<in> set (db_evidence_audit demo_ingest_db). ea_ReceivedAt e < pgTime (id_audit_dbnow (demo_push (unix_epoch + 10000000007)))"
    by (simp add: demo_ingest_db_def)
  ultimately show ?thesis using receipt_status_after_push [OF p _ _ demo_env_simps(2)] by auto
qed

end
