(* ===== verification/Stream_Buffer.thy ===== *)
theory Stream_Buffer
  imports Evidence_Ingest
begin

text \<open>
  \<open>internal/evidence/streambuf/streambuf.go\<close>: the buffer between the push API and the ingestion
  stage. A publisher turns a record and its credential into a message; the consumer rebuilds both and
  runs \<open>ProcessWithRecordID\<close>, then acknowledges, terminates or gives back the message.

  The broker is not part of the repository: whether it took a message is an argument of
  \<open>Publish\<close>, and what it delivers, in which order and how often, is the argument of the consumer's
  loop. The protobuf wire codec, the name-based identifier and the trace headers are arguments too.
  Header values are what the consumer reads back, and the trace headers come first, as in the source.
  The client library writes header values without outer blanks and line breaks; values that have none
  arrive as they were set, and only those are described.
\<close>

record stream_lib = ingest_lib +
  sl_marshal :: "EvidenceRecord \<Rightarrow> bytes option"
  sl_unmarshal :: "bytes \<Rightarrow> EvidenceRecord option"
  sl_NewSHA1 :: "uuid \<Rightarrow> bytes \<Rightarrow> uuid"

record stream_config =
  cfg_URL :: string
  cfg_StreamName :: string
  cfg_Subject :: string
  cfg_ConsumerName :: string
  cfg_MaxAge :: duration
  cfg_MaxBytes :: "64 word"
  cfg_PublishTimeout :: duration
  cfg_AckWait :: duration
  cfg_Logger :: bool

definition applyDefaults :: "stream_config \<Rightarrow> stream_config" where
  "applyDefaults c =
     c\<lparr>cfg_StreamName := (if cfg_StreamName c = [] then ''EVIDENCE_INGEST'' else cfg_StreamName c),
       cfg_Subject := (if cfg_Subject c = [] then ''evidence.ingest'' else cfg_Subject c),
       cfg_ConsumerName := (if cfg_ConsumerName c = [] then ''evidence_ingest_worker'' else cfg_ConsumerName c),
       cfg_MaxAge := (if cfg_MaxAge c = 0 then hours (7 * 24) else cfg_MaxAge c),
       cfg_PublishTimeout := (if cfg_PublishTimeout c = 0 then 5 * 1000000000 else cfg_PublishTimeout c),
       cfg_AckWait := (if cfg_AckWait c = 0 then 60 * 1000000000 else cfg_AckWait c)\<rparr>"

type_synonym nats_header = "string \<rightharpoonup> string"

record nats_msg =
  nm_Subject :: string
  nm_Data :: bytes
  nm_Header :: nats_header

definition hdr_Get :: "nats_header \<Rightarrow> string \<Rightarrow> string" where
  "hdr_Get h k = (case h k of None \<Rightarrow> [] | Some v \<Rightarrow> v)"

definition MsgIdHdr :: string where "MsgIdHdr = ''Nats-Msg-Id''"
definition HeaderCredentialID :: string where "HeaderCredentialID = ''X-Atlas-Credential-Id''"
definition HeaderCredentialTenant :: string where "HeaderCredentialTenant = ''X-Atlas-Credential-Tenant''"
definition HeaderCredentialKinds :: string where "HeaderCredentialKinds = ''X-Atlas-Credential-Kinds''"
definition HeaderCredentialScope :: string where "HeaderCredentialScope = ''X-Atlas-Credential-Scope''"
definition HeaderIdempotencyKey :: string where "HeaderIdempotencyKey = ''X-Atlas-Idempotency-Key''"
definition HeaderEvidenceKind :: string where "HeaderEvidenceKind = ''X-Atlas-Evidence-Kind''"
definition HeaderReceiptRecordID :: string where "HeaderReceiptRecordID = ''X-Atlas-Receipt-Record-Id''"

lemmas header_names =
  MsgIdHdr_def HeaderCredentialID_def HeaderCredentialTenant_def HeaderCredentialKinds_def HeaderCredentialScope_def
  HeaderIdempotencyKey_def HeaderEvidenceKind_def HeaderReceiptRecordID_def


section \<open>Publishing\<close>

datatype stream_error =
  NilRecord | CredentialHasNoTenant | MarshalRecord | HashRecordFailed | PublishFailed | Direct ingest_error

definition publish_namespace :: uuid where
  "publish_namespace = 0x15000"

definition publish_id :: "stream_lib \<Rightarrow> Credential \<Rightarrow> EvidenceRecord \<Rightarrow> string \<Rightarrow> uuid" where
  "publish_id lib cred r hash =
     sl_NewSHA1 lib publish_namespace (cred_TenantID cred @ ''|'' @ rec_IdempotencyKey r @ ''|'' @ hash)"

definition publish_headers :: "nats_header \<Rightarrow> Credential \<Rightarrow> EvidenceRecord \<Rightarrow> string \<Rightarrow> nats_header" where
  "publish_headers trace cred r recordID =
     (let h = trace(MsgIdHdr \<mapsto> cred_TenantID cred @ ''|'' @ rec_IdempotencyKey r,
                    HeaderCredentialID \<mapsto> cred_ID cred,
                    HeaderCredentialTenant \<mapsto> cred_TenantID cred,
                    HeaderIdempotencyKey \<mapsto> rec_IdempotencyKey r,
                    HeaderEvidenceKind \<mapsto> rec_EvidenceKind r,
                    HeaderReceiptRecordID \<mapsto> recordID);
          h = (if length (cred_Kinds cred) > 0 then h(HeaderCredentialKinds \<mapsto> Join (cred_Kinds cred) (CHR '','')) else h)
      in if cred_ScopePredicate cred \<noteq> [] then h(HeaderCredentialScope \<mapsto> cred_ScopePredicate cred) else h)"

text \<open>The answer to the caller, and the message handed to the broker if there is one.\<close>

definition JetStream_Publish ::
  "stream_lib \<Rightarrow> stream_config \<Rightarrow> nats_header \<Rightarrow> gotime \<Rightarrow> bool \<Rightarrow> EvidenceRecord option \<Rightarrow> Credential \<Rightarrow>
   ((stream_error + Receipt) \<times> Decision) \<times> nats_msg option" where
  "JetStream_Publish lib cfg trace now taken rec cred =
     (case rec of
        None \<Rightarrow> ((Inl NilRecord, DecisionRejectedValidation), None)
      | Some r \<Rightarrow>
        if cred_TenantID cred = [] then ((Inl CredentialHasNoTenant, DecisionRejectedUnauthenticated), None)
        else (case sl_marshal lib r of
          None \<Rightarrow> ((Inl MarshalRecord, DecisionRejectedValidation), None)
        | Some b \<Rightarrow>
          (case HashRecord (canon_lib.truncate lib) r of
             None \<Rightarrow> ((Inl HashRecordFailed, DecisionRejectedInternalError), None)
           | Some hash \<Rightarrow>
             (let recordID = il_uuid_string lib (publish_id lib cred r hash);
                  msg = \<lparr>nm_Subject = cfg_Subject cfg, nm_Data = b, nm_Header = publish_headers trace cred r recordID\<rparr>
              in if \<not> taken then ((Inl PublishFailed, DecisionRejectedInternalError), Some msg)
                 else ((Inr \<lparr>rc_RecordID = recordID, rc_Hash = hash, rc_IngestedAt = now, rc_CredentialID = cred_ID cred,
                             rc_Deduplicated = False\<rparr>, DecisionAccepted), Some msg)))))"

definition Direct_Publish ::
  "ingest_lib \<Rightarrow> string \<Rightarrow> ingest_draw \<Rightarrow> EvidenceRecord option \<Rightarrow> Credential \<Rightarrow> 'z ingest_db_scheme \<Rightarrow>
   ((stream_error + Receipt) \<times> Decision) \<times> 'z ingest_db_scheme" where
  "Direct_Publish lib path dr rec cred db =
     (case Process lib path dr rec cred db of
        ((Inl e, d), db') \<Rightarrow> ((Inl (Direct e), d), db')
      | ((Inr receipt, d), db') \<Rightarrow> ((Inr receipt, d), db'))"


section \<open>Consuming\<close>

record consumer =
  con_running :: bool
  con_processed :: "64 word"
  con_reprocessed :: "64 word"

datatype disposition = Ack | NakWithDelay duration | Term

fun isPoison :: "Decision \<Rightarrow> bool" where
  "isPoison DecisionRejectedValidation = True"
| "isPoison DecisionRejectedUnknownKind = True"
| "isPoison DecisionRejectedIdempotencyMismatch = True"
| "isPoison DecisionRejectedScopeViolation = True"
| "isPoison DecisionRejectedObservedAtSkew = True"
| "isPoison DecisionRejectedOversized = True"
| "isPoison DecisionRejectedUnauthenticated = True"
| "isPoison _ = False"

definition pgUUIDFromHeader :: "ingest_lib \<Rightarrow> string \<Rightarrow> uuid option" where
  "pgUUIDFromHeader lib s = il_parse_uuid lib s"

definition credential_of_headers :: "nats_header \<Rightarrow> Credential" where
  "credential_of_headers h =
     \<lparr>cred_ID = hdr_Get h HeaderCredentialID, cred_TenantID = hdr_Get h HeaderCredentialTenant,
      cred_ScopePredicate = hdr_Get h HeaderCredentialScope,
      cred_Kinds = (let k = hdr_Get h HeaderCredentialKinds in if k \<noteq> [] then Split k (CHR '','') else [])\<rparr>"

definition handle_msg ::
  "stream_lib \<Rightarrow> string \<Rightarrow> ingest_draw \<Rightarrow> nats_msg \<Rightarrow> consumer \<times> 'z ingest_db_scheme \<Rightarrow>
   disposition \<times> consumer \<times> 'z ingest_db_scheme" where
  "handle_msg lib path dr msg st =
     (case st of (c, db) \<Rightarrow>
        (case sl_unmarshal lib (nm_Data msg) of
           None \<Rightarrow> (Term, c, db)
         | Some r \<Rightarrow>
           (let lib' = ingest_lib.truncate lib;
                h = nm_Header msg
            in (case ProcessWithRecordID lib' path dr (Some r) (credential_of_headers h)
                       (pgUUIDFromHeader lib' (hdr_Get h HeaderReceiptRecordID)) db of
                  ((Inl e, decision), db') \<Rightarrow>
                    if isPoison decision then (Term, c, db') else (NakWithDelay (2 * 1000000000), c, db')
                | ((Inr receipt, decision), db') \<Rightarrow>
                    (let c = (if decision = DecisionDeduplicated then c\<lparr>con_reprocessed := con_reprocessed c + 1\<rparr> else c)
                     in (Ack, c\<lparr>con_processed := con_processed c + 1\<rparr>, db'))))))"

datatype pulled = Pulled nats_msg | IteratorClosed | PullError

text \<open>
  The loop of \<open>Start\<close> over what the iterator gave so far: whether it has returned, the
  dispositions in order, and the state.
\<close>

fun consume ::
  "stream_lib \<Rightarrow> string \<Rightarrow> (ingest_draw \<times> pulled) list \<Rightarrow> consumer \<times> 'z ingest_db_scheme \<Rightarrow>
   bool \<times> disposition list \<times> consumer \<times> 'z ingest_db_scheme" where
  "consume lib path [] st = (False, [], st)"
| "consume lib path ((dr, IteratorClosed) # evs) st = (True, [], st)"
| "consume lib path ((dr, PullError) # evs) st = consume lib path evs st"
| "consume lib path ((dr, Pulled msg) # evs) st =
     (case handle_msg lib path dr msg st of (act, st1) \<Rightarrow>
        (case consume lib path evs st1 of (ended, acts, st2) \<Rightarrow> (ended, act # acts, st2)))"

datatype start_error = ConsumerAlreadyRunning | ConsumerCreate | ConsumerMessages

definition Start ::
  "stream_lib \<Rightarrow> string \<Rightarrow> bool \<Rightarrow> bool \<Rightarrow> (ingest_draw \<times> pulled) list \<Rightarrow> consumer \<times> 'z ingest_db_scheme \<Rightarrow>
   (start_error + bool) \<times> disposition list \<times> consumer \<times> 'z ingest_db_scheme" where
  "Start lib path created iter evs st =
     (case st of (c, db) \<Rightarrow>
        if con_running c then (Inl ConsumerAlreadyRunning, [], c, db)
        else if \<not> created then (Inl ConsumerCreate, [], c\<lparr>con_running := False\<rparr>, db)
        else if \<not> iter then (Inl ConsumerMessages, [], c\<lparr>con_running := False\<rparr>, db)
        else (case consume lib path evs (c\<lparr>con_running := True\<rparr>, db) of
                (ended, acts, c', db') \<Rightarrow> (Inr ended, acts, c'\<lparr>con_running := \<not> ended\<rparr>, db')))"


section \<open>From a credential to a message and back\<close>

lemma Join_Nil_iff: "Join ps sep = [] \<longleftrightarrow> ps = [] \<or> ps = [[]]"
  by (cases "(ps, sep)" rule: Join.cases) auto

definition atlas_headers :: "string set" where
  "atlas_headers = {HeaderCredentialID, HeaderCredentialTenant, HeaderCredentialKinds, HeaderCredentialScope,
     HeaderIdempotencyKey, HeaderEvidenceKind, HeaderReceiptRecordID}"

text \<open>A credential survives the trip when no kind has a comma and the list is not one empty kind.\<close>

definition kinds_travel :: "Credential \<Rightarrow> bool" where
  "kinds_travel cred \<longleftrightarrow> (\<forall>k \<in> set (cred_Kinds cred). CHR '','' \<notin> set k) \<and> cred_Kinds cred \<noteq> [[]]"

lemma publish_headers_get:
  fixes cred :: Credential and r :: EvidenceRecord and recordID :: string
  assumes "dom trace \<inter> atlas_headers = {}"
  defines "h \<equiv> publish_headers trace cred r recordID"
  shows "hdr_Get h HeaderCredentialID = cred_ID cred" "hdr_Get h HeaderCredentialTenant = cred_TenantID cred"
    "hdr_Get h HeaderReceiptRecordID = recordID"
    "hdr_Get h HeaderCredentialScope = cred_ScopePredicate cred"
    "hdr_Get h HeaderCredentialKinds = Join (cred_Kinds cred) (CHR '','')"
proof -
  have "trace HeaderCredentialScope = None" "trace HeaderCredentialKinds = None"
    using assms(1) by (auto simp: atlas_headers_def dom_def)
  then show "hdr_Get h HeaderCredentialID = cred_ID cred" "hdr_Get h HeaderCredentialTenant = cred_TenantID cred"
    "hdr_Get h HeaderReceiptRecordID = recordID" "hdr_Get h HeaderCredentialScope = cred_ScopePredicate cred"
    "hdr_Get h HeaderCredentialKinds = Join (cred_Kinds cred) (CHR '','')"
    by (simp_all add: h_def publish_headers_def hdr_Get_def header_names Let_def)
qed

lemma credential_travels:
  assumes "dom trace \<inter> atlas_headers = {}" and "kinds_travel cred"
  shows "credential_of_headers (publish_headers trace cred r recordID) = cred"
  using assms(2) Split_Join [of "cred_Kinds cred" "CHR '',''"]
  by (cases cred) (auto simp: credential_of_headers_def publish_headers_get [OF assms(1)] kinds_travel_def Join_Nil_iff Let_def)

text \<open>The two lists that do not: one kind with a comma becomes two, and one empty kind becomes no restriction.\<close>

lemma kinds_widen:
  assumes "dom trace \<inter> atlas_headers = {}"
  shows "cred_Kinds cred = [''a,b''] \<Longrightarrow> cred_Kinds (credential_of_headers (publish_headers trace cred r i)) = [''a'', ''b'']"
    and "cred_Kinds cred = [[]] \<Longrightarrow> cred_Kinds (credential_of_headers (publish_headers trace cred r i)) = []"
  by (simp_all add: credential_of_headers_def publish_headers_get [OF assms] Let_def)

lemma Publish_message:
  assumes "JetStream_Publish lib cfg trace now taken rec cred = ((res, d), Some m)"
  obtains r b hash where "rec = Some r" "cred_TenantID cred \<noteq> []" "sl_marshal lib r = Some b" "nm_Data m = b"
    "HashRecord (canon_lib.truncate lib) r = Some hash"
    "nm_Header m = publish_headers trace cred r (il_uuid_string lib (publish_id lib cred r hash))"
    "\<And>rc. res = Inr rc \<Longrightarrow> rc_RecordID rc = il_uuid_string lib (publish_id lib cred r hash) \<and> rc_Hash rc = hash"
  using assms that by (auto simp: JetStream_Publish_def Let_def split: option.splits if_splits)

section \<open>The consumer\<close>

lemma ingest_truncate [simp]:
  "il_parse_uuid (ingest_lib.truncate lib) = il_parse_uuid lib" "il_uuid_string (ingest_lib.truncate lib) = il_uuid_string lib"
  "canon_lib.truncate (ingest_lib.truncate lib) = canon_lib.truncate lib"
  by (simp_all add: ingest_lib.truncate_def canon_lib.truncate_def)

lemma handle_msg_process:
  assumes "sl_unmarshal lib (nm_Data m) = Some r"
  obtains res d where
    "ProcessWithRecordID (ingest_lib.truncate lib) path dr (Some r) (credential_of_headers (nm_Header m))
       (pgUUIDFromHeader (ingest_lib.truncate lib) (hdr_Get (nm_Header m) HeaderReceiptRecordID)) db =
     ((res, d), snd (snd (handle_msg lib path dr m (c, db))))"
    "fst (handle_msg lib path dr m (c, db)) =
     (case res of Inr _ \<Rightarrow> Ack | Inl _ \<Rightarrow> if isPoison d then Term else NakWithDelay 2000000000)"
proof -
  obtain res d db' where p: "ProcessWithRecordID (ingest_lib.truncate lib) path dr (Some r) (credential_of_headers (nm_Header m))
       (pgUUIDFromHeader (ingest_lib.truncate lib) (hdr_Get (nm_Header m) HeaderReceiptRecordID)) db = ((res, d), db')"
    by (metis prod.collapse)
  show ?thesis
    by (rule that [of res d]) (use assms p in \<open>auto simp: handle_msg_def Let_def split: sum.splits\<close>)
qed

lemma handle_msg_steps: "(ingest_step (ingest_lib.truncate lib))\<^sup>*\<^sup>* db (snd (snd (handle_msg lib path dr m (c, db))))"
proof (cases "sl_unmarshal lib (nm_Data m)")
  case None
  then show ?thesis by (simp add: handle_msg_def)
next
  case (Some r)
  then show ?thesis by (rule handle_msg_process [of lib m r path dr db c]) (auto intro: ingest_step.push)
qed

lemma consume_steps:
  "consume lib path evs (c, db) = (ended, acts, c', db') \<Longrightarrow> (ingest_step (ingest_lib.truncate lib))\<^sup>*\<^sup>* db db'"
proof (induction lib path evs "(c, db)" arbitrary: c db ended acts rule: consume.induct)
  case (4 lib path dr msg evs)
  obtain act c1 db1 where h: "handle_msg lib path dr msg (c, db) = (act, c1, db1)" by (metis prod_cases3)
  with 4 have "(ingest_step (ingest_lib.truncate lib))\<^sup>*\<^sup>* db1 db'" by (auto split: prod.splits)
  with handle_msg_steps [of lib db path dr msg c] h show ?case by (auto intro: rtranclp_trans)
qed auto

text \<open>The messages that were handled, and where a disposition comes from.\<close>

fun handled :: "(ingest_draw \<times> pulled) list \<Rightarrow> (ingest_draw \<times> nats_msg) list" where
  "handled [] = []"
| "handled ((dr, IteratorClosed) # evs) = []"
| "handled ((dr, PullError) # evs) = handled evs"
| "handled ((dr, Pulled msg) # evs) = (dr, msg) # handled evs"

lemma consume_at:
  assumes "consume lib path evs (c, db) = (ended, acts, c', db')"
  shows "length acts = length (handled evs)
    \<and> (\<forall>i < length acts. \<exists>c1 db1. (ingest_step (ingest_lib.truncate lib))\<^sup>*\<^sup>* db db1
         \<and> acts ! i = fst (handle_msg lib path (fst (handled evs ! i)) (snd (handled evs ! i)) (c1, db1))
         \<and> (ingest_step (ingest_lib.truncate lib))\<^sup>*\<^sup>*
              (snd (snd (handle_msg lib path (fst (handled evs ! i)) (snd (handled evs ! i)) (c1, db1)))) db')"
  using assms
proof (induction lib path evs "(c, db)" arbitrary: c db ended acts rule: consume.induct)
  case (4 lib path dr msg evs)
  obtain act c1 db1 where h: "handle_msg lib path dr msg (c, db) = (act, c1, db1)" by (metis prod_cases3)
  obtain acts1 where rest: "consume lib path evs (c1, db1) = (ended, acts1, c', db')" and acts: "acts = act # acts1"
    using 4(2) h by (auto split: prod.splits)
  note ih = 4(1) [OF h [symmetric] rest]
  have first: "(ingest_step (ingest_lib.truncate lib))\<^sup>*\<^sup>* db db1" using handle_msg_steps [of lib db path dr msg c] h by simp
  show ?case
  proof (intro conjI allI impI)
    show "length acts = length (handled ((dr, Pulled msg) # evs))" using ih acts by simp
  next
    fix i assume i: "i < length acts"
    show "\<exists>c1 db1. (ingest_step (ingest_lib.truncate lib))\<^sup>*\<^sup>* db db1
         \<and> acts ! i = fst (handle_msg lib path (fst (handled ((dr, Pulled msg) # evs) ! i)) (snd (handled ((dr, Pulled msg) # evs) ! i)) (c1, db1))
         \<and> (ingest_step (ingest_lib.truncate lib))\<^sup>*\<^sup>*
              (snd (snd (handle_msg lib path (fst (handled ((dr, Pulled msg) # evs) ! i)) (snd (handled ((dr, Pulled msg) # evs) ! i)) (c1, db1)))) db'"
    proof (cases i)
      case 0
      with acts h consume_steps [OF rest] show ?thesis by (intro exI [of _ c] exI [of _ db]) simp
    next
      case (Suc j)
      with i acts ih obtain c2 db2 where "(ingest_step (ingest_lib.truncate lib))\<^sup>*\<^sup>* db1 db2"
        "acts1 ! j = fst (handle_msg lib path (fst (handled evs ! j)) (snd (handled evs ! j)) (c2, db2))"
        "(ingest_step (ingest_lib.truncate lib))\<^sup>*\<^sup>* (snd (snd (handle_msg lib path (fst (handled evs ! j)) (snd (handled evs ! j)) (c2, db2)))) db'"
        by auto
      with Suc acts first show ?thesis by (intro exI [of _ c2] exI [of _ db2]) (auto intro: rtranclp_trans)
    qed
  qed
qed auto



section \<open>Properties\<close>

lemma admit_redaction:
  assumes "admit lib now cred r = Inr a"
  shows "redaction_of lib (cred_TenantID cred) r (ad_rec a)" "HashRecord (canon_lib.truncate lib) (ad_rec a) = Some (ad_hash a)"
    "rec_IdempotencyKey (ad_rec a) = rec_IdempotencyKey r"
  using assms by (auto elim!: admit_InrE dest: redaction_of_fields)

text \<open>A push that returns a receipt leaves a row under its key, with the hash of its redacted record.\<close>

lemma processed_row:
  assumes "ProcessWithRecordID lib path dr (Some r) cred recordID db = ((Inr rc, d), db')"
  shows "\<exists>row \<in> set (db_evidence db'). \<exists>r'. Some (ev_TenantID row) = il_parse_uuid lib (cred_TenantID cred)
      \<and> ev_IdempotencyKey row = Some (rec_IdempotencyKey r)
      \<and> redaction_of lib (cred_TenantID cred) r r' \<and> HashRecord (canon_lib.truncate lib) r' = Some (ev_Hash row)"
  using assms
proof (cases rule: Process_cases)
  case (deduped r0 a row)
  then have row: "row \<in> set (db_evidence db')" "Some (ev_TenantID row) = il_parse_uuid lib (cred_TenantID cred)"
    "ev_IdempotencyKey row = Some (rec_IdempotencyKey (ad_rec a))"
    by (auto simp: GetEvidenceRecordByIdempotency_def dest: find_SomeD)
  then show ?thesis
    using admit_redaction [OF deduped(3)] deduped(1,5) by (intro bexI [of _ row] exI [of _ "ad_rec a"]) simp_all
next
  case (accepted r0 a row db1)
  then have row: "row \<in> set (db_evidence db')" "Some (ev_TenantID row) = il_parse_uuid lib (cred_TenantID cred)"
    "ev_IdempotencyKey row = Some (rec_IdempotencyKey (ad_rec a))" "ev_Hash row = ad_hash a"
    by (auto elim!: Insert_InrE simp: ledger_row_def insert_params_def)
  then show ?thesis
    using admit_redaction [OF accepted(3)] accepted(1) by (intro bexI [of _ row] exI [of _ "ad_rec a"]) simp_all
qed auto

text \<open>The skew check comes before the lookup, so it does not ask whether the record was stored before.\<close>

lemma late_message_rejected:
  assumes "cred_TenantID cred \<noteq> []" and "id_now dr > AsTime (timestamp_of r) + hours 24"
    and "ProcessWithRecordID lib path dr (Some r) cred recordID db = ((res, d), db')"
  shows "isPoison d \<and> (\<exists>e. res = Inl e)"
proof -
  have skew: "\<not> \<bar>AsTime (timestamp_of r) - id_now dr\<bar> \<le> MaxObservedAtSkew"
    using assms(2) by (simp add: MaxObservedAtSkew_def)
  have "\<exists>x y. admit lib (id_now dr) cred r = Inl (d', x, y) \<and> isPoison d'" 
    if "d' = (if missingField r \<noteq> [] then DecisionRejectedValidation else DecisionRejectedObservedAtSkew)" for d'
    using that skew missingField_NilD(6) [of r]
    by (auto simp: admit_def Let_def timestamp_of_def)
  with assms(1,3) show ?thesis by (auto simp: ProcessWithRecordID_def Let_def)
qed

text \<open>
  A record that names by identifier a control its tenant does not have violates the foreign key, which is
  an internal error and not a poison one: the message is given back each time it is handled.
\<close>

lemma unknown_control_redelivered:
  fixes m :: nats_msg
  defines "cred \<equiv> credential_of_headers (nm_Header m)"
  assumes "sl_unmarshal lib (nm_Data m) = Some r" and "cred_TenantID cred \<noteq> []" and "tx_ok (id_env dr)"
    and "admit (ingest_lib.truncate lib) (id_now dr) cred r = Inr a"
    and "GetEvidenceRecordByIdempotency (il_parse_uuid lib (cred_TenantID cred)) (rec_IdempotencyKey r) db = None"
    and "il_parse_uuid lib (rec_ControlId r) = Some k" and "\<forall>x \<in> set (db_controls db). ctl_ID x \<noteq> k"
  shows "fst (handle_msg lib path dr m (c, db)) = NakWithDelay 2000000000"
    and "db_evidence (snd (snd (handle_msg lib path dr m (c, db)))) = db_evidence db"
proof -
  let ?lib = "ingest_lib.truncate lib" and ?i = "pgUUIDFromHeader (ingest_lib.truncate lib) (hdr_Get (nm_Header m) HeaderReceiptRecordID)"
  have k: "ad_controlID a = Some k" using assms(5,7) by (auto elim!: admit_InrE)
  obtain e where "InsertEvidenceRecord ?lib (id_dbnow dr) (insert_params ?lib path dr cred ?i a) db = Inl e"
    using k assms(8)
    by (cases "InsertEvidenceRecord ?lib (id_dbnow dr) (insert_params ?lib path dr cred ?i a) db")
      (auto simp: insert_params_def elim!: Insert_InrE)
  then have p: "ProcessWithRecordID ?lib path dr (Some r) cred ?i db =
      ((Inl (InsertEvidence e), DecisionRejectedInternalError),
       writeAudit ?lib dr cred (rec_IdempotencyKey r) (rec_EvidenceKind r) DecisionRejectedInternalError (TxReason (InsertEvidence e)) ?i db)"
    using assms(6) admit_redaction(3) [OF assms(5)]
    by (simp add: Process_run [OF assms(3-5)] conclude_def Let_def)
  show "fst (handle_msg lib path dr m (c, db)) = NakWithDelay 2000000000"
    "db_evidence (snd (snd (handle_msg lib path dr m (c, db)))) = db_evidence db"
    using assms(2) p by (simp_all add: handle_msg_def cred_def Let_def)
qed

definition demo_stream_lib :: stream_lib where
  "demo_stream_lib =
     ingest_lib.extend demo_ingest_lib
       (stream_lib.fields (\<lambda>_. Some ''wire'') (\<lambda>_. Some demo_record) (\<lambda>_ _. 77))"

lemma demo_stream_truncate: "ingest_lib.truncate demo_stream_lib = demo_ingest_lib"
  "canon_lib.truncate demo_stream_lib = canon_lib.truncate demo_ingest_lib"
  "sl_marshal demo_stream_lib = (\<lambda>_. Some ''wire'')" "sl_unmarshal demo_stream_lib = (\<lambda>_. Some demo_record)"
  "il_uuid_string demo_stream_lib = (\<lambda>_. ''u'')" "il_parse_uuid demo_stream_lib = il_parse_uuid demo_ingest_lib"
  by (simp_all add: demo_stream_lib_def demo_ingest_lib_def ingest_lib.defs canon_lib.defs stream_lib.defs)

text \<open>
  C22. Buffered evidence reaches the ledger exactly once. Whatever the broker delivers, in whatever order
  and however often, and whatever the database does: the consumer rebuilds the credential and the receipt
  identifier that the publisher put in the headers, provided that no kind of the credential has a comma
  and its list of kinds is not one empty kind; when it acknowledges a published message, the ledger then
  and at the end holds exactly one row under the tenant and key of the record, with the hash of that record
  after redaction; and a message that is handled more than a day after its record was observed is
  terminated, whether or not its record is stored, although the stream keeps messages for seven days.
\<close>

theorem buffered_push_exactly_once:
  assumes "JetStream_Publish lib cfg trace now taken (Some r) cred = ((res, d), Some m)"
    and "\<forall>b. sl_marshal lib r = Some b \<longrightarrow> sl_unmarshal lib b = Some r"
    and "dom trace \<inter> atlas_headers = {}" and "kinds_travel cred"
    and "ledger_inv db" and "consume lib path evs (c, db) = (ended, acts, c', db')"
    and "i < length acts" and "handled evs ! i = (dr, m)"
  shows "credential_of_headers (nm_Header m) = cred
    \<and> (\<forall>rc. res = Inr rc \<longrightarrow> hdr_Get (nm_Header m) HeaderReceiptRecordID = rc_RecordID rc)
    \<and> (acts ! i = Ack \<longrightarrow>
         (\<exists>row r'. filter (\<lambda>x. Some (ev_TenantID x) = il_parse_uuid lib (cred_TenantID cred)
              \<and> ev_IdempotencyKey x = Some (rec_IdempotencyKey r)) (db_evidence db') = [row]
            \<and> redaction_of (ingest_lib.truncate lib) (cred_TenantID cred) r r'
            \<and> HashRecord (canon_lib.truncate lib) r' = Some (ev_Hash row)))
    \<and> (id_now dr > AsTime (timestamp_of r) + hours 24 \<longrightarrow> acts ! i = Term)"
proof -
  let ?lib = "ingest_lib.truncate lib"
  obtain b hash where pub: "cred_TenantID cred \<noteq> []" "sl_marshal lib r = Some b" "nm_Data m = b"
    "nm_Header m = publish_headers trace cred r (il_uuid_string lib (publish_id lib cred r hash))"
    "\<And>rc. res = Inr rc \<Longrightarrow> rc_RecordID rc = il_uuid_string lib (publish_id lib cred r hash)"
    using assms(1) by (elim Publish_message) auto
  have decoded: "sl_unmarshal lib (nm_Data m) = Some r" using pub assms(2) by simp
  have cred: "credential_of_headers (nm_Header m) = cred" using credential_travels [OF assms(3,4)] pub(4) by simp
  from consume_at [OF assms(6)] assms(7,8) obtain c1 db1 where
    before: "(ingest_step ?lib)\<^sup>*\<^sup>* db db1" and act: "acts ! i = fst (handle_msg lib path dr m (c1, db1))"
    and after: "(ingest_step ?lib)\<^sup>*\<^sup>* (snd (snd (handle_msg lib path dr m (c1, db1)))) db'" by fastforce
  obtain res' d' where p: "ProcessWithRecordID ?lib path dr (Some r) cred
       (pgUUIDFromHeader ?lib (hdr_Get (nm_Header m) HeaderReceiptRecordID)) db1 =
       ((res', d'), snd (snd (handle_msg lib path dr m (c1, db1))))"
    and disp: "acts ! i = (case res' of Inr _ \<Rightarrow> Ack | Inl _ \<Rightarrow> if isPoison d' then Term else NakWithDelay 2000000000)"
    using handle_msg_process [OF decoded, of path dr db1 c1] cred act by metis
  have inv1: "ledger_inv db1" using ingest_run_appends [OF before assms(5)] by blast
  then have inv2: "ledger_inv (snd (snd (handle_msg lib path dr m (c1, db1))))" using p Process_ledger_inv(1) by blast
  have "\<exists>row r'. filter (\<lambda>x. Some (ev_TenantID x) = il_parse_uuid lib (cred_TenantID cred)
              \<and> ev_IdempotencyKey x = Some (rec_IdempotencyKey r)) (db_evidence db') = [row]
            \<and> redaction_of ?lib (cred_TenantID cred) r r' \<and> HashRecord (canon_lib.truncate lib) r' = Some (ev_Hash row)"
    if ack: "acts ! i = Ack"
  proof -
    obtain rc where "res' = Inr rc" using disp ack by (cases res') (auto split: if_splits)
    from processed_row [OF p [unfolded this]] obtain row r' where row:
      "row \<in> set (db_evidence (snd (snd (handle_msg lib path dr m (c1, db1)))))"
      "Some (ev_TenantID row) = il_parse_uuid lib (cred_TenantID cred)" "ev_IdempotencyKey row = Some (rec_IdempotencyKey r)"
      and red: "redaction_of ?lib (cred_TenantID cred) r r'" "HashRecord (canon_lib.truncate lib) r' = Some (ev_Hash row)"
      by auto
    from by_key.run_rows_of_key [OF after inv2 row(1), of "(ev_TenantID row, rec_IdempotencyKey r)"] row(2,3) red
    show ?thesis by auto
  qed
  moreover have "acts ! i = Term" if "id_now dr > AsTime (timestamp_of r) + hours 24"
    using disp late_message_rejected [OF pub(1) that p] by (auto split: sum.splits)
  ultimately show ?thesis using cred publish_headers_get(3) [OF assms(3)] pub(4,5) by auto
qed


theorem buffered_push_exactly_once_witness:
  "\<exists>m (db' :: ingest_db) row c. consume demo_stream_lib ''push'' [(demo_push (unix_epoch + 10000000007), Pulled m)]
      (\<lparr>con_running = True, con_processed = 0, con_reprocessed = 0\<rparr>, demo_ingest_db) = (False, [Ack], c, db')
    \<and> filter (\<lambda>x. Some (ev_TenantID x) = Some 1 \<and> ev_IdempotencyKey x = Some ''k1'') (db_evidence db') = [row]"
proof -
  let ?cfg = "\<lparr>cfg_URL = [], cfg_StreamName = [], cfg_Subject = [], cfg_ConsumerName = [], cfg_MaxAge = 0, cfg_MaxBytes = 0,
    cfg_PublishTimeout = 0, cfg_AckWait = 0, cfg_Logger = True\<rparr>"
  let ?c = "\<lparr>con_running = True, con_processed = 0, con_reprocessed = 0\<rparr> :: consumer"
  let ?evs = "\<lambda>m. [(demo_push (unix_epoch + 10000000007), Pulled m)]"
  have hash: "HashRecord (canon_lib.truncate demo_ingest_lib) demo_record = Some ''k1scf:VPM-04''"
    by (simp add: HashRecord_def demo_ingest_lib_def demo_record_def)
  obtain rc m where pub: "JetStream_Publish demo_stream_lib ?cfg Map.empty 0 True (Some demo_record) demo_cred = ((Inr rc, DecisionAccepted), Some m)"
    by (simp add: JetStream_Publish_def demo_push_simps hash demo_stream_truncate Let_def)
  have travel: "kinds_travel demo_cred" by (simp add: kinds_travel_def demo_cred_def)
  from pub obtain h where m: "nm_Header m = publish_headers Map.empty demo_cred demo_record ''u''"
    by (elim Publish_message) (simp add: demo_stream_truncate)
  have cred: "credential_of_headers (nm_Header m) = demo_cred" "hdr_Get (nm_Header m) HeaderReceiptRecordID = ''u''"
    using credential_travels [of Map.empty, OF _ travel] publish_headers_get(3) [of Map.empty] m by simp_all
  obtain row db' where p: "ProcessWithRecordID demo_ingest_lib ''push'' (demo_push (unix_epoch + 10000000007)) (Some demo_record)
      demo_cred (Some 77) demo_ingest_db = ((Inr (receipt_of demo_ingest_lib demo_cred False row), DecisionAccepted), db')"
    using demo_accepted by blast
  have "pgUUIDFromHeader demo_ingest_lib ''u'' = Some 77" by (simp add: pgUUIDFromHeader_def demo_ingest_lib_def)
  with p have run: "consume demo_stream_lib ''push'' (?evs m) (?c, demo_ingest_db) = (False, [Ack], ?c\<lparr>con_processed := 1\<rparr>, db')"
    by (simp add: handle_msg_def demo_stream_truncate cred Let_def)
  have "ledger_inv demo_ingest_db" by (simp add: ledger_inv_def demo_ingest_db_def)
  from buffered_push_exactly_once [OF pub _ _ travel this run, of 0 "demo_push (unix_epoch + 10000000007)"]
  obtain row' where "filter (\<lambda>x. Some (ev_TenantID x) = il_parse_uuid demo_stream_lib (cred_TenantID demo_cred)
      \<and> ev_IdempotencyKey x = Some (rec_IdempotencyKey demo_record)) (db_evidence db') = [row']"
    by (auto simp: demo_stream_truncate)
  then show ?thesis using run demo_push_simps(5) by (auto simp: demo_stream_truncate demo_record_def)
qed

end
