(* ===== verification/Audit_Sample.thy ===== *)
theory Audit_Sample
  imports Atlas_Prelude "HOL-Library.Multiset"
begin

text \<open>
  \<open>internal/audit/sample/sampler.go\<close>: the replayable sample of a population. The generator
  is \<open>ChaCha8\<close> of \<open>math/rand/v2\<close>; \<open>chacha8 key k\<close> is the k-th word it returns for a
  key and \<open>sha256\<close> the digest that makes the key from the seed text. The modulus of the
  draw is taken on 64-bit words as in the code.
\<close>

datatype sample_error = ErrEmptyPopulation | ErrInvalidN | ErrEmptySeed

definition newRNG :: "(bytes \<Rightarrow> bytes) \<Rightarrow> (bytes \<Rightarrow> nat \<Rightarrow> 64 word) \<Rightarrow> string \<Rightarrow> nat \<Rightarrow> 64 word" where
  "newRNG sha256 chacha8 seed = chacha8 (sha256 seed)"

text \<open>The index drawn in round \<open>i\<close>, and the rounds \<open>i\<close> to \<open>i + k - 1\<close> of the loop.\<close>

definition draw_index :: "(nat \<Rightarrow> 64 word) \<Rightarrow> nat \<Rightarrow> nat \<Rightarrow> nat" where
  "draw_index rng i len = i + unat (rng i mod word_of_nat (len - i))"

fun shuffle_from :: "(nat \<Rightarrow> 64 word) \<Rightarrow> nat \<Rightarrow> nat \<Rightarrow> uuid list \<Rightarrow> uuid list" where
  "shuffle_from rng i 0 out = out"
| "shuffle_from rng i (Suc k) out =
     (let j = draw_index rng i (length out)
      in shuffle_from rng (Suc i) k (out[i := out ! j, j := out ! i]))"

definition Sample ::
  "(bytes \<Rightarrow> bytes) \<Rightarrow> (bytes \<Rightarrow> nat \<Rightarrow> 64 word) \<Rightarrow> uuid list \<Rightarrow> int \<Rightarrow> string \<Rightarrow> sample_error + uuid list" where
  "Sample sha256 chacha8 population n seed =
     (if population = [] then Inl ErrEmptyPopulation
      else if n \<le> 0 then Inl ErrInvalidN
      else if seed = [] then Inl ErrEmptySeed
      else
        (let m = (if n > int (length population) then length population else nat n)
         in Inr (take m (shuffle_from (newRNG sha256 chacha8 seed) 0 m population))))"


section \<open>The partial shuffle\<close>

lemma draw_index_range:
  assumes "i < len" and "len < 2 ^ 63"
  shows "i \<le> draw_index rng i len \<and> draw_index rng i len < len"
proof -
  have "unat (word_of_nat (len - i) :: 64 word) = len - i"
    using assms(2) by (simp add: unat_of_nat)
  then have "unat (rng i mod word_of_nat (len - i)) = unat (rng i) mod (len - i)"
    by (simp add: unat_mod)
  moreover have "unat (rng i) mod (len - i) < len - i" using assms(1) by simp
  ultimately have "unat (rng i mod word_of_nat (len - i)) < len - i" by (simp only:)
  then show ?thesis unfolding draw_index_def by linarith
qed

lemma length_shuffle [simp]: "length (shuffle_from rng i k out) = length out"
  by (induction rng i k out rule: shuffle_from.induct) (simp_all add: Let_def)

lemma mset_shuffle:
  "i + k \<le> length out \<Longrightarrow> length out < 2 ^ 63 \<Longrightarrow> mset (shuffle_from rng i k out) = mset out"
proof (induction rng i k out rule: shuffle_from.induct)
  case (2 rng i k out)
  have "draw_index rng i (length out) < length out" using 2 draw_index_range [of i "length out" rng] by simp
  with 2 mset_swap [of "draw_index rng i (length out)" out i] show ?case by (simp add: Let_def)
qed simp

text \<open>A round leaves the positions of the earlier rounds alone.\<close>

lemma take_shuffle:
  "m \<le> i \<Longrightarrow> take m (shuffle_from rng i k out) = take m out"
proof (induction rng i k out rule: shuffle_from.induct)
  case (2 rng i k out)
  have "i \<le> draw_index rng i (length out)" by (simp add: draw_index_def)
  with 2 show ?case by (simp add: Let_def)
qed simp

lemma take_shuffle_less:
  "k \<le> k' \<Longrightarrow> take (i + k) (shuffle_from rng i k' out) = take (i + k) (shuffle_from rng i k out)"
proof (induction k arbitrary: i k' out)
  case 0
  then show ?case by (simp add: take_shuffle)
next
  case (Suc k)
  then obtain l where l: "k' = Suc l" "k \<le> l" by (cases k') auto
  from Suc.IH [OF l(2), of "Suc i"] show ?case by (simp add: l(1) Let_def)
qed

lemma shuffle_cong:
  assumes "\<And>m. i \<le> m \<Longrightarrow> rng m = rng' m"
  shows "shuffle_from rng i k out = shuffle_from rng' i k out"
  using assms
proof (induction k arbitrary: i out)
  case (Suc k)
  have "draw_index rng i (length out) = draw_index rng' i (length out)"
    using Suc.prems [of i] by (simp add: draw_index_def)
  moreover have "shuffle_from rng (Suc i) k xs = shuffle_from rng' (Suc i) k xs" for xs
    by (rule Suc.IH) (use Suc.prems in simp)
  ultimately show ?case by (simp add: Let_def)
qed simp

text \<open>Every ordered selection without repetition is the outcome of some sequence of draws.\<close>

lemma shuffle_reaches:
  assumes "distinct out" and "distinct ts" and "set ts \<subseteq> set (drop i out)" and "i \<le> length out" and "length out < 2 ^ 63"
  shows "\<exists>rng. take (length ts) (drop i (shuffle_from rng i (length ts) out)) = ts"
  using assms
proof (induction ts arbitrary: i out)
  case (Cons x ts)
  then obtain p where p: "p < length out - i" "out ! (i + p) = x"
    by (auto simp: in_set_conv_nth)
  let ?out = "out[i := out ! (i + p), (i + p) := out ! i]"
  have len: "i < length out" "i + p < length out" using p by simp_all
  have ms: "mset ?out = mset out" using mset_swap [of "i + p" out i] len by simp
  then have dist: "distinct ?out" using Cons.prems(1) by (metis mset_eq_imp_distinct_iff)
  have tk: "take i ?out = take i out" by simp
  have "mset (take i ?out @ drop i ?out) = mset (take i out @ drop i out)"
    using ms by (simp only: append_take_drop_id)
  then have "mset (drop i ?out) = mset (drop i out)" unfolding tk by (simp only: mset_append add_left_cancel)
  then have "set (drop i ?out) = set (drop i out)" by (rule mset_eq_setD)
  moreover have dr: "drop i ?out = x # drop (Suc i) ?out"
    using p len by (cases "p = 0") (simp_all add: Cons_nth_drop_Suc [symmetric])
  ultimately have "set (drop i out) = insert x (set (drop (Suc i) ?out))" by (metis list.simps(15))
  with Cons.prems(2,3) have "set ts \<subseteq> set (drop (Suc i) ?out)" by auto
  then obtain rng where rng: "take (length ts) (drop (Suc i) (shuffle_from rng (Suc i) (length ts) ?out)) = ts"
    using Cons.IH [OF dist, of "Suc i"] Cons.prems(2,5) len by auto
  define rng' where "rng' = (\<lambda>m. if m = i then word_of_nat p else rng m)"
  have "unat (word_of_nat p mod word_of_nat (length out - i) :: 64 word) = p mod (length out - i)"
    using p Cons.prems(5) by (simp add: unat_mod unat_of_nat del: of_nat_diff)
  then have j: "draw_index rng' i (length out) = i + p" using p by (simp add: draw_index_def rng'_def)
  have step: "shuffle_from rng' i (length (x # ts)) out = shuffle_from rng (Suc i) (length ts) ?out"
  proof -
    have "shuffle_from rng' (Suc i) (length ts) ?out = shuffle_from rng (Suc i) (length ts) ?out"
      by (rule shuffle_cong) (simp add: rng'_def)
    then show ?thesis by (simp add: j Let_def)
  qed
  let ?res = "shuffle_from rng (Suc i) (length ts) ?out"
  have "take (Suc i) ?res = take (Suc i) ?out" by (rule take_shuffle) simp
  then have "?res ! i = x" using dr len by (metis Suc_n_not_le_n drop_eq_Nil hd_drop_conv_nth leI length_shuffle list.distinct(1) list.sel(1) nth_take lessI)
  then have "drop i ?res = x # drop (Suc i) ?res" using len by (metis Cons_nth_drop_Suc length_list_update length_shuffle)
  with rng step show ?case by (intro exI [of _ rng']) simp
qed simp


section \<open>Properties\<close>

text \<open>
  C5. Sampling is total and sound. It fails exactly for an empty population, a count that is not
  positive or an empty seed, in this order. Otherwise it returns as many members as asked for, capped
  by the population, none more often than it occurs there; no draw leaves the bounds of the slice; and
  a smaller sample with the same seed is a prefix of a larger one. Nothing is excluded: every ordered
  selection of distinct members is the sample for some output of the generator.
\<close>

theorem Sample_sound:
  assumes "length population < 2 ^ 63"
  shows "(case Sample digest cipher population n seed of
      Inl e \<Rightarrow> (population = [] \<and> e = ErrEmptyPopulation) \<or> (population \<noteq> [] \<and> n \<le> 0 \<and> e = ErrInvalidN)
               \<or> (population \<noteq> [] \<and> 0 < n \<and> seed = [] \<and> e = ErrEmptySeed)
    | Inr s \<Rightarrow> population \<noteq> [] \<and> 0 < n \<and> seed \<noteq> [] \<and> int (length s) = min n (int (length population))
               \<and> mset s \<subseteq># mset population
               \<and> (\<forall>i < length s. draw_index (newRNG digest cipher seed) i (length population) \<in> {i..<length population})
               \<and> (\<forall>m. 0 < m \<and> m \<le> n \<longrightarrow> Sample digest cipher population m seed = Inr (take (nat m) s)))
    \<and> (\<forall>target. distinct population \<and> distinct target \<and> set target \<subseteq> set population \<and> target \<noteq> [] \<and> seed \<noteq> [] \<longrightarrow>
         (\<exists>cipher. Sample digest cipher population (int (length target)) seed = Inr target))"
proof (intro conjI allI impI)
  let ?size = "\<lambda>n. if n > int (length population) then length population else nat n"
  let ?shuf = "\<lambda>k. shuffle_from (newRNG digest cipher seed) 0 k population"
  have ok: "Sample digest cipher population k seed = Inr (take (?size k) (?shuf (?size k)))"
    if "population \<noteq> []" "0 < k" "seed \<noteq> []" for k
    using that by (simp add: Sample_def Let_def)
  show "case Sample digest cipher population n seed of
      Inl e \<Rightarrow> (population = [] \<and> e = ErrEmptyPopulation) \<or> (population \<noteq> [] \<and> n \<le> 0 \<and> e = ErrInvalidN)
               \<or> (population \<noteq> [] \<and> 0 < n \<and> seed = [] \<and> e = ErrEmptySeed)
    | Inr s \<Rightarrow> population \<noteq> [] \<and> 0 < n \<and> seed \<noteq> [] \<and> int (length s) = min n (int (length population))
               \<and> mset s \<subseteq># mset population
               \<and> (\<forall>i < length s. draw_index (newRNG digest cipher seed) i (length population) \<in> {i..<length population})
               \<and> (\<forall>m. 0 < m \<and> m \<le> n \<longrightarrow> Sample digest cipher population m seed = Inr (take (nat m) s))"
  proof (cases "population \<noteq> [] \<and> 0 < n \<and> seed \<noteq> []")
    case True
    let ?s = "take (?size n) (?shuf (?size n))"
    have size: "?size n \<le> length population" by auto
    have sub: "mset ?s \<subseteq># mset population"
      using mset_shuffle [of 0 "?size n" population "newRNG digest cipher seed"] size assms
      by (metis add_0 append_take_drop_id mset_append mset_subset_eq_add_left)
    have len: "length ?s = ?size n" by simp
    have pre: "Sample digest cipher population m seed = Inr (take (nat m) ?s)" if "0 < m" "m \<le> n" for m
    proof -
      from that have le: "?size m \<le> ?size n" by auto
      have "take (?size m) (?shuf (?size m)) = take (?size m) (?shuf (?size n))"
        using take_shuffle_less [OF le, of 0 "newRNG digest cipher seed" population] by simp
      also have "\<dots> = take (nat m) ?s" using that by (auto simp: min_def)
      finally show ?thesis using ok [of m] True that by simp
    qed
    have "draw_index (newRNG digest cipher seed) i (length population) \<in> {i..<length population}" if "i < length ?s" for i
      using draw_index_range [of i "length population"] that size assms by simp
    with sub pre len ok [of n] True show ?thesis by auto
  qed (auto simp: Sample_def)
  fix target assume t: "distinct population \<and> distinct target \<and> set target \<subseteq> set population \<and> target \<noteq> [] \<and> seed \<noteq> []"
  then obtain rng where rng: "take (length target) (shuffle_from rng 0 (length target) population) = target"
    using shuffle_reaches [of population target 0] assms by auto
  have "length target \<le> length population" using t by (metis card_mono distinct_card finite_set)
  with rng t show "\<exists>cipher. Sample digest cipher population (int (length target)) seed = Inr target"
    by (intro exI [of _ "\<lambda>_. rng"]) (auto simp: Sample_def newRNG_def Let_def)
qed

theorem Sample_sound_witness:
  "\<exists>s cipher. Sample id (\<lambda>_ _. 1) [1, 2, 3] 2 ''q2'' = Inr s \<and> length s = 2
     \<and> Sample id cipher [1, 2, 3] 2 ''q2'' = Inr [3, 1]"
proof -
  have len: "length [1, 2, 3 :: uuid] < 2 ^ 63" by simp
  note th = Sample_sound [OF len, where digest = id and cipher = "\<lambda>_ _. 1" and n = 2 and seed = "''q2''"]
  obtain s where s: "Sample id (\<lambda>_ _. 1) [1, 2, 3] 2 ''q2'' = Inr s" by (simp add: Sample_def Let_def)
  with th have "length s = 2" by simp
  moreover have "\<exists>cipher. Sample id cipher [1, 2, 3] (int (length [3, 1 :: uuid])) ''q2'' = Inr [3, 1]"
    using th by (elim conjE allE [of _ "[3, 1]"]) simp
  ultimately show ?thesis using s by auto
qed

end
