(* ===== verification/Audit_Population.thy ===== *)
theory Audit_Population
  imports Audit_Period Audit_Sample Evidence_Ingest
begin

text \<open>
  \<open>internal/audit/audit.go\<close>: the populations an auditor defines over the evidence ledger, the
  samples drawn from them, the annotations of sampled records and the log of these actions, with the
  queries of \<open>internal/db/queries/audit_samples.sql\<close> and the constraints of
  \<open>20260511000010_audit_samples.sql\<close> and \<open>20260808000000_sample_evidence_tenant_fk.sql\<close>.

  Parameters: the JSON decoders of \<open>scope_codec\<close>, the \<open>op\<close> field that the tolerant probe of a
  predicate decodes, what a \<open>jsonb\<close> column gives back for a text, and the digest and generator
  of the sampler. The fan-out of log rows to an external sink is not modelled.
\<close>

record audit_lib = scope_codec +
  al_probe_op :: "bytes \<Rightarrow> string option"
  al_jsonb :: "bytes \<Rightarrow> bytes option"
  al_sha256 :: "bytes \<Rightarrow> bytes"
  al_chacha8 :: "bytes \<Rightarrow> nat \<Rightarrow> 64 word"

record sample_row =
  sm_ID :: uuid
  sm_TenantID :: uuid
  sm_PopulationID :: uuid
  sm_N :: int
  sm_Seed :: string
  sm_CreatedBy :: string
  sm_CreatedAt :: gotime

record sample_evidence_row =
  se_SampleID :: uuid
  se_TenantID :: uuid
  se_EvidenceRecordID :: uuid
  se_Ordinal :: int

record annotation_row =
  an_ID :: uuid
  an_TenantID :: uuid
  an_SampleID :: uuid
  an_EvidenceRecordID :: uuid
  an_Result :: string
  an_AnnotatedBy :: string
  an_AnnotatedAt :: gotime
  an_Notes :: string

record sample_log =
  sl_ID :: uuid
  sl_TenantID :: uuid
  sl_Action :: string
  sl_Actor :: string
  sl_PopulationID :: "uuid option"
  sl_SampleID :: "uuid option"
  sl_Seed :: "string option"
  sl_NRequested :: "int option"
  sl_NReturned :: "int option"
  sl_ReasonCode :: string
  sl_OccurredAt :: gotime

record sample_db = period_db +
  db_samples :: "sample_row list"
  db_sample_evidence :: "sample_evidence_row list"
  db_annotations :: "annotation_row list"
  db_sample_log :: "sample_log list"

text \<open>The shapes the store returns.\<close>

record Population =
  po_ID :: uuid
  po_TenantID :: uuid
  po_ControlID :: uuid
  po_ScopePredicate :: bytes
  po_TimeWindowStart :: gotime
  po_TimeWindowEnd :: gotime
  po_FrozenAt :: "gotime option"
  po_RowCount :: int
  po_CreatedBy :: string
  po_CreatedAt :: gotime

record Sample_out =
  so_ID :: uuid
  so_TenantID :: uuid
  so_PopulationID :: uuid
  so_N :: int
  so_Seed :: string
  so_CreatedBy :: string
  so_CreatedAt :: gotime
  so_EvidenceRecordIDs :: "uuid list"

record Annotation =
  ao_ID :: uuid
  ao_TenantID :: uuid
  ao_SampleID :: uuid
  ao_EvidenceRecordID :: uuid
  ao_Result :: string
  ao_AnnotatedBy :: string
  ao_AnnotatedAt :: gotime
  ao_Notes :: string

datatype audit_error =
    AuErrNotFound | AuErrEmptyPopulation | ErrInvalidAnnotation
  | CreatedByRequired | WindowInverted | NNotPositive | SeedRequired | AnnotatedByRequired
  | EvaluatePredicate scope_error | SamplerError sample_error
  | AuDatabase pg_error | AuWriteLog pg_error | ListLogFailed

text \<open>The conversion \<open>int32(v)\<close> of a Go \<open>int\<close>.\<close>

definition to_int32 :: "int \<Rightarrow> int" where
  "to_int32 v = sint (word_of_int v :: 32 word)"

definition ts_param :: "gotime \<Rightarrow> gotime option" where
  "ts_param t = map_option pgTime (pgTimestamptz t)"


section \<open>Queries\<close>

text \<open>A NULL bound makes the comparison unknown, so no row qualifies; a NULL horizon is infinity.\<close>

definition in_population ::
  "uuid \<Rightarrow> uuid \<Rightarrow> gotime option \<Rightarrow> gotime option \<Rightarrow> gotime option \<Rightarrow> evidence_row \<Rightarrow> bool" where
  "in_population t cid lo hi frozen r \<longleftrightarrow>
     ev_TenantID r = t \<and> ev_ControlID r = Some cid
     \<and> (case lo of None \<Rightarrow> False | Some x \<Rightarrow> x \<le> ev_ObservedAt r)
     \<and> (case hi of None \<Rightarrow> False | Some x \<Rightarrow> ev_ObservedAt r \<le> x)
     \<and> (case frozen of None \<Rightarrow> True | Some x \<Rightarrow> ev_ObservedAt r \<le> x)"

definition CountPopulationEvidence ::
  "uuid \<Rightarrow> uuid \<Rightarrow> gotime option \<Rightarrow> gotime option \<Rightarrow> gotime option \<Rightarrow> 'z eval_db_scheme \<Rightarrow> int" where
  "CountPopulationEvidence t cid lo hi frozen db = int (length (filter (in_population t cid lo hi frozen) (db_evidence db)))"

definition ListPopulationEvidenceIDs ::
  "uuid \<Rightarrow> uuid \<Rightarrow> gotime option \<Rightarrow> gotime option \<Rightarrow> gotime option \<Rightarrow> 'z eval_db_scheme \<Rightarrow> (uuid \<times> uuid option) list" where
  "ListPopulationEvidenceIDs t cid lo hi frozen db =
     map (\<lambda>r. (ev_ID r, ev_ScopeID r)) (sort_key ev_ID (filter (in_population t cid lo hi frozen) (db_evidence db)))"

definition CreatePopulation_q ::
  "audit_lib \<Rightarrow> gotime \<Rightarrow> uuid \<Rightarrow> uuid \<Rightarrow> uuid \<Rightarrow> bytes \<Rightarrow> gotime option \<Rightarrow> gotime option \<Rightarrow> int \<Rightarrow> string \<Rightarrow>
   'z period_db_scheme \<Rightarrow> pg_error + population_row \<times> 'z period_db_scheme" where
  "CreatePopulation_q lib dbnow i t cid predicate lo hi rowCount createdBy db =
     (case (al_jsonb lib predicate, lo, hi) of
        (None, _) \<Rightarrow> Inl InvalidTextRepresentation
      | (Some pred, Some s, Some e) \<Rightarrow>
          if \<not> s \<le> e \<or> createdBy = [] then Inl CheckViolation
          else if i \<in> pop_ID ` set (db_populations db) then Inl UniqueViolation
          else if \<forall>k \<in> set (db_controls db). \<not> (ctl_TenantID k = t \<and> ctl_ID k = cid) then Inl ForeignKeyViolation
          else
            (let row = \<lparr>pop_ID = i, pop_TenantID = t, pop_ControlID = cid, pop_ScopePredicate = pred,
                        pop_TimeWindowStart = s, pop_TimeWindowEnd = e, pop_FrozenAt = None, pop_RowCount = rowCount,
                        pop_CreatedBy = createdBy, pop_CreatedAt = pgTime dbnow, pop_AuditPeriodID = None\<rparr>
             in Inr (row, db\<lparr>db_populations := db_populations db @ [row]\<rparr>))
      | _ \<Rightarrow> Inl NotNullViolation)"

definition GetPopulationByID :: "uuid \<Rightarrow> uuid \<Rightarrow> 'z period_db_scheme \<Rightarrow> population_row option" where
  "GetPopulationByID t i db = List.find (\<lambda>r. pop_TenantID r = t \<and> pop_ID r = i) (db_populations db)"

definition ListPopulationsByTenant :: "uuid \<Rightarrow> 'z period_db_scheme \<Rightarrow> population_row list" where
  "ListPopulationsByTenant t db =
     sort_key (\<lambda>r. (- pop_CreatedAt r, pop_ID r)) (filter (\<lambda>r. pop_TenantID r = t) (db_populations db))"

definition CreateSample ::
  "gotime \<Rightarrow> uuid \<Rightarrow> uuid \<Rightarrow> uuid \<Rightarrow> int \<Rightarrow> string \<Rightarrow> string \<Rightarrow> 'z sample_db_scheme \<Rightarrow>
   pg_error + sample_row \<times> 'z sample_db_scheme" where
  "CreateSample dbnow i t popID n seed createdBy db =
     (if \<not> n > 0 \<or> seed = [] \<or> createdBy = [] then Inl CheckViolation
      else if i \<in> sm_ID ` set (db_samples db) then Inl UniqueViolation
      else if GetPopulationByID t popID db = None then Inl ForeignKeyViolation
      else
        (let row = \<lparr>sm_ID = i, sm_TenantID = t, sm_PopulationID = popID, sm_N = n, sm_Seed = seed,
                    sm_CreatedBy = createdBy, sm_CreatedAt = pgTime dbnow\<rparr>
         in Inr (row, db\<lparr>db_samples := db_samples db @ [row]\<rparr>)))"

definition GetSampleByID :: "uuid \<Rightarrow> uuid \<Rightarrow> 'z sample_db_scheme \<Rightarrow> sample_row option" where
  "GetSampleByID t i db = List.find (\<lambda>r. sm_TenantID r = t \<and> sm_ID r = i) (db_samples db)"

definition has_evidence :: "uuid \<Rightarrow> uuid \<Rightarrow> 'z eval_db_scheme \<Rightarrow> bool" where
  "has_evidence t i db \<longleftrightarrow> (\<exists>r \<in> set (db_evidence db). ev_TenantID r = t \<and> ev_ID r = i)"

definition InsertSampleEvidence ::
  "uuid \<Rightarrow> uuid \<Rightarrow> uuid \<Rightarrow> int \<Rightarrow> 'z sample_db_scheme \<Rightarrow> pg_error + 'z sample_db_scheme" where
  "InsertSampleEvidence sid t recID ordinal db =
     (if ordinal < 0 then Inl CheckViolation
      else if \<exists>r \<in> set (db_sample_evidence db). se_SampleID r = sid \<and> se_EvidenceRecordID r = recID then Inl UniqueViolation
      else if GetSampleByID t sid db = None \<or> \<not> has_evidence t recID db then Inl ForeignKeyViolation
      else Inr (db\<lparr>db_sample_evidence := db_sample_evidence db @
             [\<lparr>se_SampleID = sid, se_TenantID = t, se_EvidenceRecordID = recID, se_Ordinal = ordinal\<rparr>]\<rparr>))"

definition ListSampleEvidence :: "uuid \<Rightarrow> uuid \<Rightarrow> 'z sample_db_scheme \<Rightarrow> sample_evidence_row list" where
  "ListSampleEvidence t sid db =
     sort_key se_Ordinal (filter (\<lambda>r. se_TenantID r = t \<and> se_SampleID r = sid) (db_sample_evidence db))"

definition AnnotationResults :: "string set" where
  "AnnotationResults = {''passed'', ''failed'', ''not-applicable''}"

definition UpsertSampleAnnotation ::
  "gotime \<Rightarrow> uuid \<Rightarrow> uuid \<Rightarrow> uuid \<Rightarrow> uuid \<Rightarrow> string \<Rightarrow> string \<Rightarrow> string \<Rightarrow> 'z sample_db_scheme \<Rightarrow>
   pg_error + annotation_row \<times> 'z sample_db_scheme" where
  "UpsertSampleAnnotation dbnow i t sid recID result annotatedBy notes db =
     (if result \<notin> AnnotationResults \<or> annotatedBy = [] then Inl CheckViolation
      else (case sql_update_one (\<lambda>r. an_TenantID r = t \<and> an_SampleID r = sid \<and> an_EvidenceRecordID r = recID)
                   (\<lambda>r. r\<lparr>an_Result := result, an_AnnotatedBy := annotatedBy, an_AnnotatedAt := pgTime dbnow, an_Notes := notes\<rparr>)
                   (db_annotations db) of
              Some (row, rows) \<Rightarrow> Inr (row, db\<lparr>db_annotations := rows\<rparr>)
            | None \<Rightarrow>
              if i \<in> an_ID ` set (db_annotations db) then Inl UniqueViolation
              else if GetSampleByID t sid db = None \<or> \<not> has_evidence t recID db then Inl ForeignKeyViolation
              else
                (let row = \<lparr>an_ID = i, an_TenantID = t, an_SampleID = sid, an_EvidenceRecordID = recID, an_Result = result,
                            an_AnnotatedBy = annotatedBy, an_AnnotatedAt = pgTime dbnow, an_Notes = notes\<rparr>
                 in Inr (row, db\<lparr>db_annotations := db_annotations db @ [row]\<rparr>))))"

definition ListSampleAnnotations :: "uuid \<Rightarrow> uuid \<Rightarrow> 'z sample_db_scheme \<Rightarrow> annotation_row list" where
  "ListSampleAnnotations t sid db =
     sort_key (\<lambda>r. (- an_AnnotatedAt r, an_ID r))
       (filter (\<lambda>r. an_TenantID r = t \<and> an_SampleID r = sid) (db_annotations db))"

definition sample_actions :: "string set" where
  "sample_actions = {''population_created'', ''sample_drawn'', ''sample_annotated'', ''sample_rejected''}"

definition WriteSampleAuditLog :: "sample_log \<Rightarrow> 'z sample_db_scheme \<Rightarrow> pg_error + 'z sample_db_scheme" where
  "WriteSampleAuditLog row db =
     (if sl_Action row \<notin> sample_actions \<or> sl_Actor row = [] then Inl CheckViolation
      else if sl_ID row \<in> sl_ID ` set (db_sample_log db) then Inl UniqueViolation
      else Inr (db\<lparr>db_sample_log := db_sample_log db @ [row]\<rparr>))"

text \<open>A negative \<open>LIMIT\<close> is an error.\<close>

definition ListSampleAuditLog :: "uuid \<Rightarrow> int \<Rightarrow> 'z sample_db_scheme \<Rightarrow> sample_log list option" where
  "ListSampleAuditLog t limit db =
     (if limit < 0 then None
      else Some (take (nat limit)
             (sort_key (\<lambda>r. (- sl_OccurredAt r, sl_ID r)) (filter (\<lambda>r. sl_TenantID r = t) (db_sample_log db)))))"



section \<open>Resolving a population\<close>

definition isTrivialPredicate :: "audit_lib \<Rightarrow> bytes \<Rightarrow> bool" where
  "isTrivialPredicate lib b \<longleftrightarrow> b = [] \<or> b = ''null'' \<or> b = ''{}'' \<or> al_probe_op lib b = Some ''true''"

definition canonicalPredicate :: "bytes \<Rightarrow> bytes" where
  "canonicalPredicate b = (if b = [] then ''{\"op\":\"true\"}'' else b)"

definition universe_cell :: "audit_lib \<Rightarrow> cell_row \<Rightarrow> cell" where
  "universe_cell lib r =
     \<lparr>c_ID = cr_ID r, c_TenantID = cr_TenantID r, c_Label = cr_Label r,
      c_Dimensions = (case sc_decode_dims lib (cr_Dimensions r) of Some dims \<Rightarrow> dims | None \<Rightarrow> [])\<rparr>"

definition applyScopeFilter ::
  "audit_lib \<Rightarrow> uuid \<Rightarrow> bytes \<Rightarrow> (uuid \<times> uuid option) list \<Rightarrow> 'z scope_db_scheme \<Rightarrow> audit_error + uuid list" where
  "applyScopeFilter lib t predicate candidates db =
     (if isTrivialPredicate lib predicate then Inr (map fst candidates)
      else (case Evaluate (sc_unmarshal lib) predicate (map (universe_cell lib) (ListScopeCells t db)) of
              Inl e \<Rightarrow> Inl (EvaluatePredicate e)
            | Inr matching \<Rightarrow>
              (let allowed = c_ID ` set matching
               in Inr (map fst (filter (\<lambda>c. case snd c of None \<Rightarrow> False | Some sid \<Rightarrow> sid \<in> allowed) candidates)))))"

definition resolvePopulationEvidenceIDs ::
  "audit_lib \<Rightarrow> uuid \<Rightarrow> uuid \<Rightarrow> gotime \<Rightarrow> gotime \<Rightarrow> bytes \<Rightarrow> 'z eval_db_scheme \<Rightarrow> audit_error + uuid list" where
  "resolvePopulationEvidenceIDs lib t cid windowStart windowEnd predicate db =
     applyScopeFilter lib t predicate
       (ListPopulationEvidenceIDs t cid (ts_param windowStart) (ts_param windowEnd) None db) db"

definition resolvePopulationEvidenceIDsFromRow ::
  "audit_lib \<Rightarrow> uuid \<Rightarrow> population_row \<Rightarrow> 'z eval_db_scheme \<Rightarrow> audit_error + uuid list" where
  "resolvePopulationEvidenceIDsFromRow lib t pop db =
     applyScopeFilter lib t (pop_ScopePredicate pop)
       (ListPopulationEvidenceIDs (pop_TenantID pop) (pop_ControlID pop) (Some (pop_TimeWindowStart pop))
          (Some (pop_TimeWindowEnd pop)) (pop_FrozenAt pop) db) db"


section \<open>The store\<close>

record auditLogEntry =
  le_Action :: string
  le_Actor :: string
  le_PopulationID :: "uuid option"
  le_SampleID :: "uuid option"
  le_Seed :: "string option"
  le_NRequested :: "int option"
  le_NReturned :: "int option"
  le_ReasonCode :: string

definition writeAuditLog ::
  "uuid \<Rightarrow> gotime \<Rightarrow> uuid \<Rightarrow> auditLogEntry \<Rightarrow> 'z sample_db_scheme \<Rightarrow> audit_error + 'z sample_db_scheme" where
  "writeAuditLog auditID dbnow t e db =
     (case WriteSampleAuditLog
             \<lparr>sl_ID = auditID, sl_TenantID = t, sl_Action = le_Action e, sl_Actor = le_Actor e,
              sl_PopulationID = le_PopulationID e, sl_SampleID = le_SampleID e, sl_Seed = le_Seed e,
              sl_NRequested = le_NRequested e, sl_NReturned = le_NReturned e, sl_ReasonCode = le_ReasonCode e,
              sl_OccurredAt = pgTime dbnow\<rparr> db of
        Inl e \<Rightarrow> Inl (AuWriteLog e) | Inr db' \<Rightarrow> Inr db')"

definition populationFromRow :: "population_row \<Rightarrow> Population" where
  "populationFromRow r =
     \<lparr>po_ID = pop_ID r, po_TenantID = pop_TenantID r, po_ControlID = pop_ControlID r, po_ScopePredicate = pop_ScopePredicate r,
      po_TimeWindowStart = pop_TimeWindowStart r, po_TimeWindowEnd = pop_TimeWindowEnd r, po_FrozenAt = pop_FrozenAt r,
      po_RowCount = pop_RowCount r, po_CreatedBy = pop_CreatedBy r, po_CreatedAt = pop_CreatedAt r\<rparr>"

definition sampleFromRow :: "sample_row \<Rightarrow> Sample_out" where
  "sampleFromRow r =
     \<lparr>so_ID = sm_ID r, so_TenantID = sm_TenantID r, so_PopulationID = sm_PopulationID r, so_N = sm_N r, so_Seed = sm_Seed r,
      so_CreatedBy = sm_CreatedBy r, so_CreatedAt = sm_CreatedAt r, so_EvidenceRecordIDs = []\<rparr>"

definition annotationFromRow :: "annotation_row \<Rightarrow> Annotation" where
  "annotationFromRow r =
     \<lparr>ao_ID = an_ID r, ao_TenantID = an_TenantID r, ao_SampleID = an_SampleID r, ao_EvidenceRecordID = an_EvidenceRecordID r,
      ao_Result = an_Result r, ao_AnnotatedBy = an_AnnotatedBy r, ao_AnnotatedAt = an_AnnotatedAt r, ao_Notes = an_Notes r\<rparr>"

definition CreatePopulation ::
  "audit_lib \<Rightarrow> txenv \<Rightarrow> gotime \<Rightarrow> uuid \<Rightarrow> uuid \<Rightarrow> uuid \<Rightarrow> bytes \<Rightarrow> gotime \<Rightarrow> gotime \<Rightarrow> string \<Rightarrow> 'z sample_db_scheme \<Rightarrow>
   (audit_error err + Population) \<times> 'z sample_db_scheme" where
  "CreatePopulation lib env dbnow newID auditID cid scopePredicate windowStart windowEnd createdBy db =
     (if createdBy = [] then (Inl (Dom CreatedByRequired), db)
      else if windowStart > windowEnd then (Inl (Dom WindowInverted), db)
      else
        (let predicate = canonicalPredicate scopePredicate in
         inTx env (\<lambda>t db0.
           (case resolvePopulationEvidenceIDs lib t cid windowStart windowEnd predicate db0 of
              Inl e \<Rightarrow> Inl e
            | Inr ids \<Rightarrow>
              (case CreatePopulation_q lib dbnow newID t cid predicate (ts_param windowStart) (ts_param windowEnd)
                      (int (length ids)) createdBy db0 of
                 Inl e \<Rightarrow> Inl (AuDatabase e)
               | Inr (row, db1) \<Rightarrow>
                 (case writeAuditLog auditID dbnow t
                         \<lparr>le_Action = ''population_created'', le_Actor = createdBy, le_PopulationID = Some (pop_ID row),
                          le_SampleID = None, le_Seed = None, le_NRequested = Some (to_int32 (int (length ids))),
                          le_NReturned = Some (to_int32 (int (length ids))), le_ReasonCode = []\<rparr> db1 of
                    Inl e \<Rightarrow> Inl e
                  | Inr db2 \<Rightarrow> Inr (populationFromRow row, db2))))) db))"

definition GetPopulation ::
  "txenv \<Rightarrow> uuid \<Rightarrow> 'z sample_db_scheme \<Rightarrow> (audit_error err + Population) \<times> 'z sample_db_scheme" where
  "GetPopulation env i db =
     inTx env (\<lambda>t db0. case GetPopulationByID t i db0 of
                          None \<Rightarrow> Inl AuErrNotFound | Some row \<Rightarrow> Inr (populationFromRow row, db0)) db"

fun insert_drawn :: "uuid \<Rightarrow> uuid \<Rightarrow> nat \<Rightarrow> uuid list \<Rightarrow> 'z sample_db_scheme \<Rightarrow> audit_error + 'z sample_db_scheme" where
  "insert_drawn sid t i [] db = Inr db"
| "insert_drawn sid t i (recID # rest) db =
     (case InsertSampleEvidence sid t recID (to_int32 (int i)) db of
        Inl e \<Rightarrow> Inl (AuDatabase e)
      | Inr db' \<Rightarrow> insert_drawn sid t (Suc i) rest db')"

text \<open>
  The body of \<open>DrawSample\<close>. The rejection entry is written in the transaction that the error
  then rolls back.
\<close>

definition draw_body ::
  "audit_lib \<Rightarrow> gotime \<Rightarrow> uuid \<Rightarrow> uuid \<Rightarrow> uuid \<Rightarrow> int \<Rightarrow> string \<Rightarrow> string \<Rightarrow> uuid \<Rightarrow> 'z sample_db_scheme \<Rightarrow>
   audit_error + Sample_out \<times> 'z sample_db_scheme" where
  "draw_body lib dbnow sampleID auditID popID n seed createdBy t db0 =
     (case GetPopulationByID t popID db0 of
        None \<Rightarrow> Inl AuErrNotFound
      | Some pop \<Rightarrow>
        (case resolvePopulationEvidenceIDsFromRow lib t pop db0 of
           Inl e \<Rightarrow> Inl e
         | Inr ids \<Rightarrow>
           if ids = []
           then (case writeAuditLog auditID dbnow t
                        \<lparr>le_Action = ''sample_rejected'', le_Actor = createdBy, le_PopulationID = Some (pop_ID pop),
                         le_SampleID = None, le_Seed = Some seed, le_NRequested = Some (to_int32 n), le_NReturned = None,
                         le_ReasonCode = ''empty_population''\<rparr> db0 of
                   _ \<Rightarrow> Inl AuErrEmptyPopulation)
           else (case Sample (al_sha256 lib) (al_chacha8 lib) ids n seed of
              Inl e \<Rightarrow> Inl (SamplerError e)
            | Inr drawn \<Rightarrow>
              (case CreateSample dbnow sampleID t (pop_ID pop) (to_int32 (int (length drawn))) seed createdBy db0 of
                 Inl e \<Rightarrow> Inl (AuDatabase e)
               | Inr (row, db1) \<Rightarrow>
                 (case insert_drawn (sm_ID row) t 0 drawn db1 of
                    Inl e \<Rightarrow> Inl e
                  | Inr db2 \<Rightarrow>
                    (case writeAuditLog auditID dbnow t
                            \<lparr>le_Action = ''sample_drawn'', le_Actor = createdBy, le_PopulationID = Some (pop_ID pop),
                             le_SampleID = Some (sm_ID row), le_Seed = Some seed, le_NRequested = Some (to_int32 n),
                             le_NReturned = Some (to_int32 (int (length drawn))), le_ReasonCode = []\<rparr> db2 of
                       Inl e \<Rightarrow> Inl e
                     | Inr db3 \<Rightarrow> Inr ((sampleFromRow row)\<lparr>so_EvidenceRecordIDs := drawn\<rparr>, db3)))))))"

definition DrawSample ::
  "audit_lib \<Rightarrow> txenv \<Rightarrow> gotime \<Rightarrow> uuid \<Rightarrow> uuid \<Rightarrow> uuid \<Rightarrow> int \<Rightarrow> string \<Rightarrow> string \<Rightarrow> 'z sample_db_scheme \<Rightarrow>
   (audit_error err + Sample_out) \<times> 'z sample_db_scheme" where
  "DrawSample lib env dbnow sampleID auditID popID n seed createdBy db =
     (if n \<le> 0 then (Inl (Dom NNotPositive), db)
      else if seed = [] then (Inl (Dom SeedRequired), db)
      else if createdBy = [] then (Inl (Dom CreatedByRequired), db)
      else inTx env (draw_body lib dbnow sampleID auditID popID n seed createdBy) db)"

definition GetSample ::
  "txenv \<Rightarrow> uuid \<Rightarrow> 'z sample_db_scheme \<Rightarrow> (audit_error err + Sample_out) \<times> 'z sample_db_scheme" where
  "GetSample env i db =
     inTx env (\<lambda>t db0.
       (case GetSampleByID t i db0 of
          None \<Rightarrow> Inl AuErrNotFound
        | Some row \<Rightarrow>
          Inr ((sampleFromRow row)\<lparr>so_EvidenceRecordIDs := map se_EvidenceRecordID (ListSampleEvidence t (sm_ID row) db0)\<rparr>, db0))) db"

definition AnnotateSample ::
  "txenv \<Rightarrow> gotime \<Rightarrow> uuid \<Rightarrow> uuid \<Rightarrow> uuid \<Rightarrow> uuid \<Rightarrow> string \<Rightarrow> string \<Rightarrow> string \<Rightarrow> 'z sample_db_scheme \<Rightarrow>
   (audit_error err + Annotation) \<times> 'z sample_db_scheme" where
  "AnnotateSample env dbnow newID auditID sid recID result annotatedBy notes db =
     (if result \<notin> AnnotationResults then (Inl (Dom ErrInvalidAnnotation), db)
      else if annotatedBy = [] then (Inl (Dom AnnotatedByRequired), db)
      else
        inTx env (\<lambda>t db0.
          (case GetSampleByID t sid db0 of
             None \<Rightarrow> Inl AuErrNotFound
           | Some _ \<Rightarrow>
             (case UpsertSampleAnnotation dbnow newID t sid recID result annotatedBy notes db0 of
                Inl e \<Rightarrow> Inl (AuDatabase e)
              | Inr (row, db1) \<Rightarrow>
                (case writeAuditLog auditID dbnow t
                        \<lparr>le_Action = ''sample_annotated'', le_Actor = annotatedBy, le_PopulationID = None,
                         le_SampleID = Some (an_SampleID row), le_Seed = None, le_NRequested = None, le_NReturned = None,
                         le_ReasonCode = []\<rparr> db1 of
                   Inl e \<Rightarrow> Inl e
                 | Inr db2 \<Rightarrow> Inr (annotationFromRow row, db2))))) db)"

definition ListAnnotations ::
  "txenv \<Rightarrow> uuid \<Rightarrow> 'z sample_db_scheme \<Rightarrow> (audit_error err + Annotation list) \<times> 'z sample_db_scheme" where
  "ListAnnotations env sid db = inTx env (\<lambda>t db0. Inr (map annotationFromRow (ListSampleAnnotations t sid db0), db0)) db"

definition ListAuditLog ::
  "txenv \<Rightarrow> int \<Rightarrow> 'z sample_db_scheme \<Rightarrow> (audit_error err + sample_log list) \<times> 'z sample_db_scheme" where
  "ListAuditLog env limit db =
     (let limit = (if limit \<le> 0 then 100 else limit) in
      inTx env (\<lambda>t db0. case ListSampleAuditLog t (to_int32 limit) db0 of
                           None \<Rightarrow> Inl ListLogFailed | Some rows \<Rightarrow> Inr (rows, db0)) db)"



section \<open>Populations with a predicate\<close>

lemma count_is_length:
  "CountPopulationEvidence t cid lo hi frozen db = int (length (ListPopulationEvidenceIDs t cid lo hi frozen db))"
  by (simp add: CountPopulationEvidence_def ListPopulationEvidenceIDs_def)

lemma filter_unscoped:
  assumes "\<not> isTrivialPredicate lib predicate" and "\<forall>c \<in> set candidates. snd c = None"
    and "applyScopeFilter lib t predicate candidates db = Inr ids"
  shows "ids = []"
  using assms by (auto simp: applyScopeFilter_def Let_def filter_empty_conv split: sum.splits)

lemma unscoped_candidates:
  "\<forall>r \<in> set (db_evidence db). ev_TenantID r = t \<longrightarrow> ev_ScopeID r = None \<Longrightarrow>
     c \<in> set (ListPopulationEvidenceIDs t cid lo hi frozen db) \<Longrightarrow> snd c = None"
  by (auto simp: ListPopulationEvidenceIDs_def in_population_def)

lemma ingested_unscoped: "ingested lib controls r \<Longrightarrow> ev_ScopeID r = None"
  by (auto simp: ingested_def stored_by_def)

lemma GetPopulationByID_SomeD:
  "GetPopulationByID t i db = Some pop \<Longrightarrow> pop \<in> set (db_populations db) \<and> pop_TenantID pop = t \<and> pop_ID pop = i"
  by (auto simp: GetPopulationByID_def dest: find_SomeD)

lemma Sample_never_empty: "Sample digest cipher [] n seed = Inl ErrEmptyPopulation"
  by (simp add: Sample_def)


section \<open>Samples and populations over a run\<close>

text \<open>
  One call of a store over the shared database: the operations of this store, those of the audit
  periods, and the growth of the ledger, which is a step of the latter.
\<close>

inductive sample_step :: "audit_lib \<Rightarrow> period_lib \<Rightarrow> 'z sample_db_scheme \<Rightarrow> 'z sample_db_scheme \<Rightarrow> bool" for lib plib where
  create: "CreatePopulation lib env dbnow newID auditID cid predicate lo hi who db = (res, db') \<Longrightarrow> sample_step lib plib db db'"
| draw: "DrawSample lib env dbnow sampleID auditID popID n seed who db = (res2, db') \<Longrightarrow> sample_step lib plib db db'"
| annotate: "AnnotateSample env dbnow newID auditID sid recID result who notes db = (res3, db') \<Longrightarrow> sample_step lib plib db db'"
| period: "pd_step plib db db' \<Longrightarrow> sample_step lib plib db db'"

definition sample_inv :: "'z sample_db_scheme \<Rightarrow> bool" where
  "sample_inv db \<longleftrightarrow> pd_inv db \<and> distinct (map sm_ID (db_samples db)) \<and> se_SampleID ` set (db_sample_evidence db) \<subseteq> sm_ID ` set (db_samples db)"

text \<open>A population keeps its definition, and its horizon once it has one.\<close>

definition pop_kept :: "population_row \<Rightarrow> population_row \<Rightarrow> bool" where
  "pop_kept p p' \<longleftrightarrow>
     p' = p\<lparr>pop_AuditPeriodID := pop_AuditPeriodID p', pop_FrozenAt := pop_FrozenAt p'\<rparr>
     \<and> (pop_FrozenAt p \<noteq> None \<longrightarrow> pop_FrozenAt p' = pop_FrozenAt p)"

definition pops_kept :: "'z period_db_scheme \<Rightarrow> 'z period_db_scheme \<Rightarrow> bool" where
  "pops_kept db db' \<longleftrightarrow>
     (\<forall>t i p. GetPopulationByID t i db = Some p \<longrightarrow> (\<exists>p'. GetPopulationByID t i db' = Some p' \<and> pop_kept p p'))"

text \<open>What every step keeps: samples and their rows only grow, with fresh identifiers.\<close>

definition keeps :: "'z sample_db_scheme \<Rightarrow> 'z sample_db_scheme \<Rightarrow> bool" where
  "keeps db db' \<longleftrightarrow>
     (\<exists>s. db_samples db' = db_samples db @ s)
     \<and> (\<exists>e. db_sample_evidence db' = db_sample_evidence db @ e \<and> se_SampleID ` set e \<inter> sm_ID ` set (db_samples db) = {})
     \<and> (\<exists>rows. db_evidence db' = db_evidence db @ rows) \<and> pops_kept db db' \<and> sample_inv db'"

lemma pop_kept_refl [simp]: "pop_kept p p"
  by (simp add: pop_kept_def)

lemma pop_kept_trans: "pop_kept p q \<Longrightarrow> pop_kept q r \<Longrightarrow> pop_kept p r"
  by (cases p; cases q; cases r) (auto simp: pop_kept_def)

lemma pop_kept_key: "pop_kept p q \<Longrightarrow> pop_TenantID q = pop_TenantID p \<and> pop_ID q = pop_ID p"
  by (cases p; cases q) (auto simp: pop_kept_def)

lemma pops_kept_refl: "db_populations db' = db_populations db \<Longrightarrow> pops_kept db db'"
  by (simp add: pops_kept_def GetPopulationByID_def)

lemma pops_kept_trans: "pops_kept a b \<Longrightarrow> pops_kept b c \<Longrightarrow> pops_kept a c"
  unfolding pops_kept_def by (meson pop_kept_trans)

lemma pops_kept_update:
  assumes "db_populations db' = map f (db_populations db)" and "\<And>p. pop_kept p (f p)"
  shows "pops_kept db db'"
proof -
  have key: "pop_TenantID (f p) = pop_TenantID p \<and> pop_ID (f p) = pop_ID p" for p
    using assms(2) pop_kept_key by blast
  then show ?thesis using assms
    by (auto simp: pops_kept_def GetPopulationByID_def find_map_key)
qed

lemma pops_kept_append:
  "db_populations db' = db_populations db @ [row] \<Longrightarrow> pops_kept db db'"
  by (simp add: pops_kept_def GetPopulationByID_def find_append)


lemma keeps_frame:
  assumes "db_samples db' = db_samples db" and "db_sample_evidence db' = db_sample_evidence db"
    and "db_evidence db' = db_evidence db @ rows" and "pd_inv db'" and "pops_kept db db'" and "sample_inv db"
  shows "keeps db db'"
  using assms by (simp add: keeps_def sample_inv_def)

lemma inTx_state:
  assumes "inTx env fn db = (res, db')"
  obtains (same) "db' = db" | (ran) t a where "tenant_of env = Some t" "fn t db = Inr (a, db')" "res = Inr a"
  using assms by (cases rule: inTx_cases) auto

lemma WriteSampleAuditLog_InrD:
  "writeAuditLog auditID dbnow t e db = Inr db' \<Longrightarrow>
     \<exists>en. db' = db\<lparr>db_sample_log := db_sample_log db @ [en]\<rparr> \<and> sl_ID en = auditID"
  by (auto simp: writeAuditLog_def WriteSampleAuditLog_def split: sum.splits if_splits)

lemma CreatePopulation_keeps:
  assumes "CreatePopulation lib env dbnow newID auditID cid predicate lo hi who db = (res, db')" and "sample_inv db"
  shows "keeps db db'"
proof -
  have "db' = db \<or> (\<exists>row en. db' = db\<lparr>db_populations := db_populations db @ [row], db_sample_log := db_sample_log db @ [en]\<rparr>)"
    using assms(1)
    by (fastforce simp: CreatePopulation_def Let_def CreatePopulation_q_def split: if_splits sum.splits option.splits prod.splits
        elim!: inTx_state dest!: WriteSampleAuditLog_InrD)
  then show ?thesis using assms(2)
    by (intro keeps_frame [where rows = "[]"]) (auto simp: sample_inv_def pd_inv_def intro: pops_kept_refl pops_kept_append)
qed

lemma AnnotateSample_keeps:
  assumes "AnnotateSample env dbnow newID auditID sid recID result who notes db = (res, db')" and "sample_inv db"
  shows "keeps db db'"
proof -
  have "db' = db \<or> (\<exists>rows log. db' = db\<lparr>db_annotations := rows, db_sample_log := log\<rparr>)"
    using assms(1)
    by (fastforce simp: AnnotateSample_def Let_def UpsertSampleAnnotation_def split: if_splits sum.splits option.splits prod.splits
        elim!: inTx_state dest!: WriteSampleAuditLog_InrD)
  then show ?thesis using assms(2)
    by (intro keeps_frame [where rows = "[]"]) (auto simp: sample_inv_def pd_inv_def intro: pops_kept_refl)
qed

text \<open>The rows that one draw inserts.\<close>

definition drawn_rows :: "uuid \<Rightarrow> uuid \<Rightarrow> nat \<Rightarrow> uuid list \<Rightarrow> sample_evidence_row list" where
  "drawn_rows sid t i drawn =
     map (\<lambda>(k, r). \<lparr>se_SampleID = sid, se_TenantID = t, se_EvidenceRecordID = r, se_Ordinal = to_int32 (int k)\<rparr>) (enumerate i drawn)"

lemma drawn_rows_simps [simp]:
  "drawn_rows sid t i [] = []"
  "drawn_rows sid t i (r # rs) =
     \<lparr>se_SampleID = sid, se_TenantID = t, se_EvidenceRecordID = r, se_Ordinal = to_int32 (int i)\<rparr> # drawn_rows sid t (Suc i) rs"
  by (simp_all add: drawn_rows_def)

lemma drawn_rows_sample: "x \<in> set (drawn_rows sid t i drawn) \<Longrightarrow> se_SampleID x = sid \<and> se_TenantID x = t"
  by (auto simp: drawn_rows_def)

lemma insert_drawn_InrD:
  "insert_drawn sid t i drawn db = Inr db' \<Longrightarrow>
     db' = db\<lparr>db_sample_evidence := db_sample_evidence db @ drawn_rows sid t i drawn\<rparr>"
proof (induction sid t i drawn db rule: insert_drawn.induct)
  case (2 sid t i recID rest db)
  then show ?case by (auto simp: InsertSampleEvidence_def split: sum.splits if_splits)
qed simp

lemma insert_drawn_ok:
  assumes "GetSampleByID t sid db \<noteq> None" and "distinct drawn" and "\<forall>r \<in> set drawn. has_evidence t r db"
    and "\<forall>x \<in> set (db_sample_evidence db). se_SampleID x = sid \<longrightarrow> se_EvidenceRecordID x \<notin> set drawn"
    and "\<forall>k < i + length drawn. 0 \<le> to_int32 (int k)"
  shows "\<exists>db'. insert_drawn sid t i drawn db = Inr db'"
  using assms
proof (induction drawn arbitrary: i db)
  case (Cons r rest)
  let ?row = "\<lparr>se_SampleID = sid, se_TenantID = t, se_EvidenceRecordID = r, se_Ordinal = to_int32 (int i)\<rparr>"
  have ins: "InsertSampleEvidence sid t r (to_int32 (int i)) db = Inr (db\<lparr>db_sample_evidence := db_sample_evidence db @ [?row]\<rparr>)"
    using Cons.prems by (auto simp: InsertSampleEvidence_def not_less)
  have "\<exists>db'. insert_drawn sid t (Suc i) rest (db\<lparr>db_sample_evidence := db_sample_evidence db @ [?row]\<rparr>) = Inr db'"
    by (rule Cons.IH) (use Cons.prems in \<open>auto simp: GetSampleByID_def has_evidence_def\<close>)
  with ins show ?case by simp
qed simp

lemma to_int32_small: "n < 2 ^ 31 \<Longrightarrow> to_int32 (int n) = int n"
  using int32_small [of n] by (simp add: to_int32_def int32_def)


text \<open>A draw that succeeds, step by step.\<close>

lemma draw_body_InrE:
  assumes "draw_body lib dbnow sampleID auditID popID n seed who t db = Inr (s, db')"
  obtains pop ids drawn row en where "GetPopulationByID t popID db = Some pop"
    "resolvePopulationEvidenceIDsFromRow lib t pop db = Inr ids"
    "Sample (al_sha256 lib) (al_chacha8 lib) ids n seed = Inr drawn"
    "row = \<lparr>sm_ID = sampleID, sm_TenantID = t, sm_PopulationID = pop_ID pop, sm_N = to_int32 (int (length drawn)), sm_Seed = seed,
            sm_CreatedBy = who, sm_CreatedAt = pgTime dbnow\<rparr>"
    "sampleID \<notin> sm_ID ` set (db_samples db)" "s = (sampleFromRow row)\<lparr>so_EvidenceRecordIDs := drawn\<rparr>"
    "db' = db\<lparr>db_samples := db_samples db @ [row], db_sample_evidence := db_sample_evidence db @ drawn_rows sampleID t 0 drawn,
            db_sample_log := db_sample_log db @ [en]\<rparr>"
    "sl_ID en = auditID"
proof -
  obtain pop ids where pop: "GetPopulationByID t popID db = Some pop" "resolvePopulationEvidenceIDsFromRow lib t pop db = Inr ids" "ids \<noteq> []"
    using assms by (auto simp: draw_body_def split: option.splits sum.splits if_splits)
  obtain drawn where drawn: "Sample (al_sha256 lib) (al_chacha8 lib) ids n seed = Inr drawn"
    using assms pop by (auto simp: draw_body_def split: sum.splits)
  let ?row = "\<lparr>sm_ID = sampleID, sm_TenantID = t, sm_PopulationID = pop_ID pop, sm_N = to_int32 (int (length drawn)), sm_Seed = seed,
            sm_CreatedBy = who, sm_CreatedAt = pgTime dbnow\<rparr>"
  obtain db1 where cr: "CreateSample dbnow sampleID t (pop_ID pop) (to_int32 (int (length drawn))) seed who db = Inr (?row, db1)"
    using assms pop drawn by (auto simp: draw_body_def CreateSample_def Let_def split: sum.splits if_splits)
  obtain db2 where ins: "insert_drawn sampleID t 0 drawn db1 = Inr db2" and s: "s = (sampleFromRow ?row)\<lparr>so_EvidenceRecordIDs := drawn\<rparr>"
    and log: "\<exists>en. db' = db2\<lparr>db_sample_log := db_sample_log db2 @ [en]\<rparr> \<and> sl_ID en = auditID"
    using assms pop drawn cr by (auto simp: draw_body_def split: sum.splits dest!: WriteSampleAuditLog_InrD)
  have db1: "db1 = db\<lparr>db_samples := db_samples db @ [?row]\<rparr>" "sampleID \<notin> sm_ID ` set (db_samples db)"
    using cr by (auto simp: CreateSample_def Let_def split: if_splits)
  from log obtain en where "db' = db2\<lparr>db_sample_log := db_sample_log db2 @ [en]\<rparr>" "sl_ID en = auditID" by blast
  with db1 insert_drawn_InrD [OF ins] that [OF pop(1,2) drawn refl db1(2) s] show ?thesis by simp
qed

lemma DrawSample_keeps:
  assumes "DrawSample lib env dbnow sampleID auditID popID n seed who db = (res, db')" and "sample_inv db"
  shows "keeps db db'"
proof (cases "db' = db")
  case True
  then show ?thesis using keeps_frame [of db' db "[]"] assms(2) by (simp add: sample_inv_def pops_kept_refl)
next
  case False
  then obtain t s where "draw_body lib dbnow sampleID auditID popID n seed who t db = Inr (s, db')"
    using assms(1) by (auto simp: DrawSample_def split: if_splits elim!: inTx_state)
  then show ?thesis
    by (rule draw_body_InrE)
      (use assms(2) in \<open>auto simp: keeps_def sample_inv_def pd_inv_def image_subset_iff intro!: pops_kept_refl dest!: drawn_rows_sample\<close>)
qed

lemma SetPopulationFrozenAt_kept: "pops_kept db (SetPopulationFrozenAt t i instant db)"
  by (rule pops_kept_update [where f = "\<lambda>r. if pop_TenantID r = t \<and> pop_AuditPeriodID r = Some i \<and> pop_FrozenAt r = None
        then r\<lparr>pop_FrozenAt := Some (pgTime instant)\<rparr> else r"])
    (auto simp: SetPopulationFrozenAt_def sql_update_def pop_kept_def)

lemma AttachPopulationToPeriod_kept: "pops_kept db (AttachPopulationToPeriod t p i db)"
  by (rule pops_kept_update [where f = "\<lambda>r. if pop_TenantID r = t \<and> pop_ID r = p \<and> pop_AuditPeriodID r = None
        then r\<lparr>pop_AuditPeriodID := Some i\<rparr> else r"])
    (auto simp: AttachPopulationToPeriod_def sql_update_def pop_kept_def)

lemma AttachPopulation_effect:
  fixes db :: "'z sample_db_scheme"
  assumes "AttachPopulation lib env dbnow auditID i popID actor db = (res, db')"
  shows "db_samples db' = db_samples db \<and> db_sample_evidence db' = db_sample_evidence db \<and> pops_kept db db'"
proof (cases "db' = db")
  case True
  then show ?thesis by (simp add: pops_kept_refl)
next
  case False
  then obtain t a where body: "(\<lambda>t db0. (case GetAuditPeriodByID t i db0 of
             None \<Rightarrow> Inl PdErrNotFound
           | Some p \<Rightarrow>
             (let db1 = AttachPopulationToPeriod t popID i db0;
                  db2 = (case (pd_Status p, pd_FrozenAt p) of
                           (StatusFrozen, Some instant) \<Rightarrow> SetPopulationFrozenAt t i instant db1
                         | _ \<Rightarrow> db1)
              in (case writeLog auditID dbnow t (pd_ID p) PopulationAttached actor
                         [(''population_id'', LogString (pl_uuid_string lib popID))] db2 of
                    Inl e \<Rightarrow> Inl e | Inr db3 \<Rightarrow> Inr ((), db3))))) t db = Inr (a, db')"
    using assms unfolding AttachPopulation_def by (auto split: if_splits elim: inTx_state)
  then obtain p where p: "GetAuditPeriodByID t i db = Some p" by (auto split: option.splits)
  from body have au: "writeLog auditID dbnow t (pd_ID p) PopulationAttached actor
        [(''population_id'', LogString (pl_uuid_string lib popID))]
      (case (pd_Status p, pd_FrozenAt p) of
         (StatusFrozen, Some instant) \<Rightarrow> SetPopulationFrozenAt t i instant (AttachPopulationToPeriod t popID i db)
       | _ \<Rightarrow> AttachPopulationToPeriod t popID i db) = Inr db'"
    unfolding p by (auto simp: Let_def split: sum.splits)
  have pops: "pops_kept db (SetPopulationFrozenAt t i x (AttachPopulationToPeriod t popID i db))" for x
    by (rule pops_kept_trans [OF AttachPopulationToPeriod_kept SetPopulationFrozenAt_kept])
  have same: "pops_kept db db1 \<Longrightarrow> db_populations db2 = db_populations db1 \<Longrightarrow> pops_kept db db2" for db1 db2 :: "'z sample_db_scheme"
    by (simp add: pops_kept_def GetPopulationByID_def)
  show ?thesis
    using WriteAuditPeriodLog_InrD [OF au]
    by (auto simp: SetPopulationFrozenAt_def AttachPopulationToPeriod_def
        intro: same [OF pops] same [OF AttachPopulationToPeriod_kept] split: pd_status.splits option.splits)
qed


lemma sample_step_keeps:
  assumes "sample_step lib plib db db'" and "sample_inv db"
  shows "keeps db db'"
  using assms(1)
proof cases
  case (period)
  have inv: "pd_inv db" using assms(2) by (simp add: sample_inv_def)
  have "db_samples db' = db_samples db \<and> db_sample_evidence db' = db_sample_evidence db \<and> pops_kept db db'"
    using period
  proof cases
    case (create env dbnow newID auditID nm fv s e createdBy res)
    then show ?thesis by (cases rule: pd_Create_cases) (auto intro: pops_kept_refl)
  next
    case (freeze env renv wallnow dbnow auditID i who instant0 res)
    from freeze inv show ?thesis
    proof (cases rule: Freeze_cases)
      case (commit t instant r0 en)
      have "pops_kept db db'"
        using SetPopulationFrozenAt_kept [of db t i instant] by (simp add: commit(10) pops_kept_def GetPopulationByID_def)
      then show ?thesis by (simp add: commit(10) SetPopulationFrozenAt_def)
    qed (auto intro: pops_kept_refl)
  next
    case (attach env dbnow auditID i popID actor res)
    then show ?thesis by (rule AttachPopulation_effect)
  next
    case (ingest rows)
    then show ?thesis by (auto intro: pops_kept_refl)
  qed
  moreover obtain rows where "db_evidence db' = db_evidence db @ rows" using pd_step_evidence [OF period inv] by blast
  ultimately show ?thesis using pd_step_inv [OF period inv] assms(2) by (intro keeps_frame [where rows = rows]) auto
next
  case create
  then show ?thesis by (rule CreatePopulation_keeps [OF _ assms(2)])
next
  case draw
  then show ?thesis by (rule DrawSample_keeps [OF _ assms(2)])
next
  case annotate
  then show ?thesis by (rule AnnotateSample_keeps [OF _ assms(2)])
qed

lemma keeps_obtain:
  assumes "keeps db db'"
  obtains s e rows where "db_samples db' = db_samples db @ s" "db_sample_evidence db' = db_sample_evidence db @ e"
    "se_SampleID ` set e \<inter> sm_ID ` set (db_samples db) = {}" "db_evidence db' = db_evidence db @ rows"
    "pops_kept db db'" "sample_inv db'"
  using assms unfolding keeps_def by (elim conjE exE) (rule that)

lemma keeps_inv: "keeps db db' \<Longrightarrow> sample_inv db'"
  by (simp add: keeps_def)

lemma keeps_trans:
  assumes "keeps a b" and "keeps b c"
  shows "keeps a c"
proof -
  obtain s e r where 1: "db_samples b = db_samples a @ s" "db_sample_evidence b = db_sample_evidence a @ e"
    "se_SampleID ` set e \<inter> sm_ID ` set (db_samples a) = {}" "db_evidence b = db_evidence a @ r" "pops_kept a b"
    by (rule keeps_obtain [OF assms(1)])
  obtain s' e' r' where 2: "db_samples c = db_samples b @ s'" "db_sample_evidence c = db_sample_evidence b @ e'"
    "se_SampleID ` set e' \<inter> sm_ID ` set (db_samples b) = {}" "db_evidence c = db_evidence b @ r'" "pops_kept b c" "sample_inv c"
    by (rule keeps_obtain [OF assms(2)])
  have "se_SampleID ` set (e @ e') \<inter> sm_ID ` set (db_samples a) = {}" using 1(1,3) 2(3) by auto
  with 1 2 pops_kept_trans [OF 1(5) 2(5)] show ?thesis
    unfolding keeps_def by (intro conjI exI [of _ "s @ s'"] exI [of _ "e @ e'"] exI [of _ "r @ r'"]) simp_all
qed

lemma sample_run_keeps:
  assumes "(sample_step lib plib)\<^sup>*\<^sup>* db db'" and "sample_inv db"
  shows "keeps db db'"
  using assms(1)
proof (induction rule: rtranclp_induct)
  case base
  show ?case using assms(2) by (intro keeps_frame [where rows = "[]"]) (auto simp: sample_inv_def intro: pops_kept_refl)
next
  case (step b c)
  then have "sample_inv b" by (simp add: keeps_def)
  with step show ?case using sample_step_keeps keeps_trans by blast
qed

text \<open>Samples are an append-only table under their identifier.\<close>

interpretation by_sample: append_log "sample_step lib plib" db_samples "\<lambda>r. Some (sm_ID r)" sample_inv for lib plib
proof unfold_locales
  fix db db' :: "'z sample_db_scheme"
  show "sample_step lib plib db db' \<Longrightarrow> sample_inv db \<Longrightarrow> sample_inv db'" using sample_step_keeps keeps_inv by blast
  show "sample_step lib plib db db' \<Longrightarrow> sample_inv db \<Longrightarrow> \<exists>new. db_samples db' = db_samples db @ new"
    using sample_step_keeps unfolding keeps_def by blast
  show "sample_inv db \<Longrightarrow> distinct (map (\<lambda>r. Some (sm_ID r)) (filter (\<lambda>r. Some (sm_ID r) \<noteq> None) (db_samples db)))"
    by (simp add: sample_inv_def distinct_map inj_on_def)
qed

lemma GetSampleByID_run:
  assumes "(sample_step lib plib)\<^sup>*\<^sup>* db db'" and "sample_inv db" and "GetSampleByID t i db = Some row"
  shows "GetSampleByID t i db' = Some row"
proof -
  have row: "row \<in> set (db_samples db)" "sm_TenantID row = t" "sm_ID row = i"
    using assms(3) by (auto simp: GetSampleByID_def dest: find_SomeD)
  have "sample_inv db'" "row \<in> set (db_samples db')"
    using by_sample.run_appends [OF assms(1,2)] by_sample.run_member [OF assms(1,2) row(1)] by auto
  with row show ?thesis
    unfolding GetSampleByID_def by (intro find_eq_unique [where k = sm_ID]) (auto simp: sample_inv_def)
qed

text \<open>Reading a sample back: the ordinals are the positions of the draw.\<close>

lemma sorted_drawn_rows:
  assumes "i + length drawn \<le> 2 ^ 31"
  shows "sort_key se_Ordinal (drawn_rows sid t i drawn) = drawn_rows sid t i drawn"
proof (rule sort_key_id_if_sorted)
  have "map se_Ordinal (drawn_rows sid t i drawn) = map int [i..<i + length drawn]"
    using assms
  proof (induction drawn arbitrary: i)
    case (Cons r drawn)
    have "[i..<i + length (r # drawn)] = i # [Suc i..<Suc i + length drawn]" by (simp add: upt_rec)
    with Cons show ?case using to_int32_small [of i] by simp
  qed simp
  then show "sorted (map se_Ordinal (drawn_rows sid t i drawn))" by (simp add: sorted_map)
qed

lemma drawn_rows_ids [simp]: "map se_EvidenceRecordID (drawn_rows sid t i drawn) = drawn"
  by (induction drawn arbitrary: i) simp_all

lemma GetSample_kept:
  assumes "keeps db db'" and "GetSampleByID t i db = Some row" and "GetSampleByID t i db' = Some row"
    and "tx_ok env" and "tenant_of env = Some t"
  shows "GetSample env i db' = (fst (GetSample env i db), db')"
proof -
  obtain e where e: "db_sample_evidence db' = db_sample_evidence db @ e" "se_SampleID ` set e \<inter> sm_ID ` set (db_samples db) = {}"
    by (rule keeps_obtain [OF assms(1)])
  have row: "sm_ID row \<in> sm_ID ` set (db_samples db)" using assms(2) by (auto simp: GetSampleByID_def dest: find_SomeD)
  then have "filter (\<lambda>r. se_TenantID r = t \<and> se_SampleID r = sm_ID row) e = []" using e(2) by (auto simp: filter_empty_conv)
  then have "ListSampleEvidence t (sm_ID row) db' = ListSampleEvidence t (sm_ID row) db"
    by (simp add: ListSampleEvidence_def e(1))
  with assms(2-5) show ?thesis by (simp add: GetSample_def inTx_run)
qed



section \<open>Drawing again\<close>

lemma Sample_InrD:
  assumes "Sample digest cipher pop n seed = Inr s" and "length pop < 2 ^ 63"
  shows "mset s \<subseteq># mset pop" "s \<noteq> []" "length s \<le> length pop"
proof -
  let ?m = "if n > int (length pop) then length pop else nat n"
  let ?sh = "shuffle_from (newRNG digest cipher seed) 0 ?m pop"
  have s: "s = take ?m ?sh" "pop \<noteq> []" "0 < n" using assms(1) by (auto simp: Sample_def Let_def split: if_splits)
  have "0 < length s" "length s \<le> length pop" using s(2,3) unfolding s(1) by (auto simp: min_def)
  then show "s \<noteq> []" "length s \<le> length pop" by auto
  have "?m \<le> length pop" by auto
  then have "mset ?sh = mset pop" using mset_shuffle [of 0 ?m pop "newRNG digest cipher seed"] assms(2) by (simp only: add_0)
  then show "mset s \<subseteq># mset pop" unfolding s(1) by (metis append_take_drop_id mset_append mset_subset_eq_add_left)
qed

text \<open>The records a stored population stands for.\<close>

definition population_rows :: "population_row \<Rightarrow> 'z eval_db_scheme \<Rightarrow> evidence_row list" where
  "population_rows pop db =
     filter (in_population (pop_TenantID pop) (pop_ControlID pop) (Some (pop_TimeWindowStart pop)) (Some (pop_TimeWindowEnd pop))
       (pop_FrozenAt pop)) (db_evidence db)"

lemma resolve_population:
  assumes "resolvePopulationEvidenceIDsFromRow lib t pop db = Inr ids"
  shows "mset ids \<subseteq># mset (map ev_ID (population_rows pop db))" "isTrivialPredicate lib (pop_ScopePredicate pop) \<Longrightarrow>
    ids = map ev_ID (sort_key ev_ID (population_rows pop db))"
proof -
  let ?c = "map (\<lambda>r. (ev_ID r, ev_ScopeID r)) (sort_key ev_ID (population_rows pop db))"
  have c: "ListPopulationEvidenceIDs (pop_TenantID pop) (pop_ControlID pop) (Some (pop_TimeWindowStart pop))
      (Some (pop_TimeWindowEnd pop)) (pop_FrozenAt pop) db = ?c"
    by (simp add: ListPopulationEvidenceIDs_def population_rows_def)
  have fst: "map fst ?c = map ev_ID (sort_key ev_ID (population_rows pop db))" by (simp add: comp_def)
  have sub: "mset (map fst (filter P ?c)) \<subseteq># mset (map ev_ID (population_rows pop db))" for P
  proof -
    have "mset (filter P ?c) \<subseteq># mset ?c" by (simp only: mset_filter multiset_filter_subset)
    then have "mset (map fst (filter P ?c)) \<subseteq># mset (map fst ?c)" by (simp only: mset_map image_mset_subseteq_mono)
    then show ?thesis unfolding fst by simp
  qed
  from assms c show "mset ids \<subseteq># mset (map ev_ID (population_rows pop db))"
    using sub [of "\<lambda>_. True"] sub
    by (auto simp: resolvePopulationEvidenceIDsFromRow_def applyScopeFilter_def Let_def simp del: map_map filter_sort mset_map mset_filter
        split: if_splits sum.splits)
  show "ids = map ev_ID (sort_key ev_ID (population_rows pop db))" if "isTrivialPredicate lib (pop_ScopePredicate pop)"
    using assms that c fst by (simp add: resolvePopulationEvidenceIDsFromRow_def applyScopeFilter_def)
qed

lemma resolve_trivial:
  "isTrivialPredicate lib (pop_ScopePredicate pop) \<Longrightarrow>
     resolvePopulationEvidenceIDsFromRow lib t pop db = Inr (map ev_ID (sort_key ev_ID (population_rows pop db)))"
  using resolve_population(2) [of lib t pop db]
  by (cases "resolvePopulationEvidenceIDsFromRow lib t pop db") (auto simp: resolvePopulationEvidenceIDsFromRow_def applyScopeFilter_def)

lemma population_ids:
  assumes "mset drawn \<subseteq># mset (map ev_ID (population_rows pop db))" and "distinct (map ev_ID (db_evidence db))"
  shows "distinct drawn" "\<forall>i \<in> set drawn. has_evidence (pop_TenantID pop) i db"
proof -
  have "distinct (map ev_ID (population_rows pop db))" using assms(2) by (simp add: population_rows_def distinct_map_filter)
  then show "distinct drawn" using assms(1) 
    by (metis distinct_append ex_mset mset_append mset_eq_imp_distinct_iff subset_mset.le_iff_add)
  have "set drawn \<subseteq> set (map ev_ID (population_rows pop db))" using assms(1) set_mset_mono by fastforce
  then show "\<forall>i \<in> set drawn. has_evidence (pop_TenantID pop) i db"
    by (auto simp: has_evidence_def population_rows_def in_population_def)
qed

text \<open>A draw succeeds whenever its population is not empty and its identifiers are fresh.\<close>

lemma draw_body_ok:
  assumes "sample_inv db" and "GetPopulationByID t popID db = Some pop" and "resolvePopulationEvidenceIDsFromRow lib t pop db = Inr ids"
    and "Sample (al_sha256 lib) (al_chacha8 lib) ids n seed = Inr drawn" and "seed \<noteq> []" and "who \<noteq> []"
    and "sid \<notin> sm_ID ` set (db_samples db)" and "aid \<notin> sl_ID ` set (db_sample_log db)"
    and "length (db_evidence db) < 2 ^ 31" and "distinct (map ev_ID (db_evidence db))"
  shows "\<exists>s db'. draw_body lib dbnow sid aid popID n seed who t db = Inr (s, db') \<and> so_EvidenceRecordIDs s = drawn"
proof -
  have pop: "pop_TenantID pop = t" "pop_ID pop = popID" using GetPopulationByID_SomeD [OF assms(2)] by auto
  have ids: "mset ids \<subseteq># mset (map ev_ID (population_rows pop db))" using resolve_population(1) [OF assms(3)] .
  have len: "length ids \<le> length (db_evidence db)"
  proof -
    have "length ids \<le> length (population_rows pop db)" using size_mset_mono [OF ids] by simp
    also have "\<dots> \<le> length (db_evidence db)" by (simp only: population_rows_def length_filter_le)
    finally show ?thesis .
  qed
  then have "length ids < 2 ^ 63" using assms(9) by simp
  note drawn = Sample_InrD [OF assms(4) this]
  have ne: "ids \<noteq> []" using drawn(2,3) by auto
  note recs = population_ids [OF subset_mset.trans [OF drawn(1) ids] assms(10)]
  have small: "length drawn < 2 ^ 31" using drawn(3) len assms(9) by simp
  let ?row = "\<lparr>sm_ID = sid, sm_TenantID = t, sm_PopulationID = pop_ID pop, sm_N = to_int32 (int (length drawn)), sm_Seed = seed,
            sm_CreatedBy = who, sm_CreatedAt = pgTime dbnow\<rparr>"
  let ?db1 = "db\<lparr>db_samples := db_samples db @ [?row]\<rparr>"
  have cr: "CreateSample dbnow sid t (pop_ID pop) (to_int32 (int (length drawn))) seed who db = Inr (?row, ?db1)"
    using drawn(2) assms(2,5-7) pop to_int32_small [OF small] by (simp add: CreateSample_def Let_def)
  have "\<exists>db2. insert_drawn sid t 0 drawn ?db1 = Inr db2"
  proof (rule insert_drawn_ok)
    show "GetSampleByID t sid ?db1 \<noteq> None" by (simp add: GetSampleByID_def find_append split: option.splits)
    show "\<forall>x \<in> set (db_sample_evidence ?db1). se_SampleID x = sid \<longrightarrow> se_EvidenceRecordID x \<notin> set drawn"
      using assms(1,7) by (auto simp: sample_inv_def image_subset_iff)
    show "\<forall>k < 0 + length drawn. 0 \<le> to_int32 (int k)" using small to_int32_small by simp
  qed (use recs pop in \<open>simp_all add: has_evidence_def\<close>)
  then obtain db2 where ins: "insert_drawn sid t 0 drawn ?db1 = Inr db2" by blast
  have "db_sample_log db2 = db_sample_log db" using insert_drawn_InrD [OF ins] by simp
  then have "\<exists>db3. writeAuditLog aid dbnow t
      \<lparr>le_Action = ''sample_drawn'', le_Actor = who, le_PopulationID = Some (pop_ID pop), le_SampleID = Some sid, le_Seed = Some seed,
       le_NRequested = Some (to_int32 n), le_NReturned = Some (to_int32 (int (length drawn))), le_ReasonCode = []\<rparr> db2 = Inr db3"
    using assms(6,8) by (simp add: writeAuditLog_def WriteSampleAuditLog_def sample_actions_def)
  with assms(2-4) ne cr ins show ?thesis by (auto simp: draw_body_def)
qed


definition demo_audit_lib :: audit_lib where
  "demo_audit_lib =
     \<lparr>sc_unmarshal = (\<lambda>_. Inr (Node ''eq'' ''env'' (Some ''prod'') None [] None)), sc_decode_dims = (\<lambda>_. Some [(''env'', ''prod'')]),
      sc_decode_strings = (\<lambda>_. Some []), sc_marshal_strings = (\<lambda>_. ''[]''), sc_sha256hex = id,
      al_probe_op = (\<lambda>b. if b = ''all'' then Some ''true'' else Some ''eq''), al_jsonb = Some, al_sha256 = id, al_chacha8 = (\<lambda>_ _. 0)\<rparr>"

definition demo_sample_db :: "bytes \<Rightarrow> sample_db" where
  "demo_sample_db predicate =
     \<lparr>db_dimensions = [],
      db_cells = [\<lparr>cr_ID = 30, cr_TenantID = 1, cr_Label = ''prod'', cr_Dimensions = ''d'', cr_DimensionsHash = ''h'', cr_CreatedAt = 0\<rparr>],
      db_controls = [], db_evidence = [(demo_evidence 41 500000 ''pass'')\<lparr>ev_ControlID := Some 9\<rparr>, (demo_evidence 40 600000 ''fail'')\<lparr>ev_ControlID := Some 9\<rparr>],
      db_evaluations = [], db_fversions = [], db_frameworks = [], db_periods = [],
      db_populations = [\<lparr>pop_ID = 50, pop_TenantID = 1, pop_ControlID = 9, pop_ScopePredicate = predicate, pop_TimeWindowStart = 0,
        pop_TimeWindowEnd = 1000000, pop_FrozenAt = Some 700000, pop_RowCount = 2, pop_CreatedBy = ''ann'', pop_CreatedAt = 0,
        pop_AuditPeriodID = None\<rparr>],
      db_period_log = [], db_samples = [], db_sample_evidence = [], db_annotations = [], db_sample_log = []\<rparr>"

text \<open>
  C27. A population with a scope predicate is empty over evidence that was ingested. The ingestion stage
  writes no scope cell, so whatever the predicate says and whichever cells match it: creating such a
  population counts no row; drawing from one that is stored never returns a sample and changes nothing;
  and when the transaction runs and the predicate evaluates, the answer is the empty-population error,
  whose log entry is rolled back with it, so that no rejection is ever recorded.
\<close>

theorem predicate_population_empty:
  assumes "\<forall>r \<in> set (db_evidence db). ev_TenantID r = t \<longrightarrow> (\<exists>ilib controls. ingested ilib controls r)"
    and "tenant_of env = Some t" and "\<not> isTrivialPredicate lib predicate" and "predicate \<noteq> []"
  shows "(CreatePopulation lib env dbnow newID auditID cid predicate lo hi who db = (Inr p, db1) \<longrightarrow> po_RowCount p = 0)
    \<and> (GetPopulationByID t popID db = Some pop \<and> pop_ScopePredicate pop = predicate \<longrightarrow>
        (\<exists>e. DrawSample lib env dbnow sampleID auditID popID n seed who db = (Inl e, db)
           \<and> (tx_ok env \<and> 0 < n \<and> seed \<noteq> [] \<and> who \<noteq> []
              \<and> Evaluate (sc_unmarshal lib) predicate (map (universe_cell lib) (ListScopeCells t db)) = Inr cells \<longrightarrow>
              e = Dom AuErrEmptyPopulation)))"
proof (intro conjI impI)
  have unscoped: "\<forall>r \<in> set (db_evidence db). ev_TenantID r = t \<longrightarrow> ev_ScopeID r = None"
    using assms(1) ingested_unscoped by blast
  note none = filter_unscoped [OF assms(3)] unscoped_candidates [OF unscoped]
  assume "CreatePopulation lib env dbnow newID auditID cid predicate lo hi who db = (Inr p, db1)"
  then show "po_RowCount p = 0"
    using assms(2,4) none
    by (fastforce simp: CreatePopulation_def canonicalPredicate_def inTx_Inr_iff resolvePopulationEvidenceIDs_def CreatePopulation_q_def
        populationFromRow_def Let_def split: if_splits sum.splits option.splits prod.splits)
next
  have unscoped: "\<forall>r \<in> set (db_evidence db). ev_TenantID r = t \<longrightarrow> ev_ScopeID r = None"
    using assms(1) ingested_unscoped by blast
  assume pop: "GetPopulationByID t popID db = Some pop \<and> pop_ScopePredicate pop = predicate"
  then have owner: "pop_TenantID pop = t" by (auto dest: GetPopulationByID_SomeD)
  have empty: "resolvePopulationEvidenceIDsFromRow lib t pop db = Inr ids \<Longrightarrow> ids = []" for ids
    using pop owner filter_unscoped [OF assms(3)] unscoped_candidates [OF unscoped]
    unfolding resolvePopulationEvidenceIDsFromRow_def by blast
  have "\<exists>e. draw_body lib dbnow sampleID auditID popID n seed who t db = Inl e"
    using pop empty by (cases "resolvePopulationEvidenceIDsFromRow lib t pop db") (auto simp: draw_body_def split: sum.splits)
  then obtain e where body: "draw_body lib dbnow sampleID auditID popID n seed who t db = Inl e" by blast
  have dom: "e = AuErrEmptyPopulation"
    if "Evaluate (sc_unmarshal lib) predicate (map (universe_cell lib) (ListScopeCells t db)) = Inr cells"
  proof -
    have "resolvePopulationEvidenceIDsFromRow lib t pop db = Inr []"
      using that assms(3) pop empty by (simp add: resolvePopulationEvidenceIDsFromRow_def applyScopeFilter_def Let_def)
    with body pop show ?thesis by (simp add: draw_body_def split: sum.splits)
  qed
  have "inTx env (draw_body lib dbnow sampleID auditID popID n seed who) db = (Inl (Dom e), db)" if "tx_ok env"
    using that body assms(2) by (simp add: inTx_run)
  moreover have "\<exists>e. inTx env (draw_body lib dbnow sampleID auditID popID n seed who) db = (Inl e, db)"
  proof -
    obtain r db' where run: "inTx env (draw_body lib dbnow sampleID auditID popID n seed who) db = (r, db')" by fastforce
    then show ?thesis by (cases rule: inTx_cases) (use run body assms(2) in auto)
  qed
  ultimately show "\<exists>e. DrawSample lib env dbnow sampleID auditID popID n seed who db = (Inl e, db)
           \<and> (tx_ok env \<and> 0 < n \<and> seed \<noteq> [] \<and> who \<noteq> []
              \<and> Evaluate (sc_unmarshal lib) predicate (map (universe_cell lib) (ListScopeCells t db)) = Inr cells \<longrightarrow>
              e = Dom AuErrEmptyPopulation)"
    using dom by (auto simp: DrawSample_def)
qed


theorem predicate_population_empty_witness:
  "\<exists>row. ingested demo_ingest_lib [] row
     \<and> DrawSample demo_audit_lib demo_env 0 60 61 50 5 ''seed'' ''ann'' ((demo_sample_db ''pred'')\<lparr>db_evidence := [row]\<rparr>)
       = (Inl (Dom AuErrEmptyPopulation), (demo_sample_db ''pred'')\<lparr>db_evidence := [row]\<rparr>)"
proof -
  obtain row db' where p: "ProcessWithRecordID demo_ingest_lib ''push'' (demo_push (unix_epoch + 10000000007)) (Some demo_record)
      demo_cred (Some 77) demo_ingest_db = ((Inr (receipt_of demo_ingest_lib demo_cred False row), DecisionAccepted), db')"
    and row: "db_evidence db' = [row]" using demo_accepted by blast
  from p have "process demo_ingest_lib (demo_push_of demo_cred) demo_ingest_db =
      ((Inr (receipt_of demo_ingest_lib demo_cred False row), DecisionAccepted), db')" by (simp add: process_def demo_push_of_def)
  then have ing: "ingested demo_ingest_lib [] row"
    by (rule push_appends) (use row in \<open>auto simp: demo_ingest_db_def ingested_def list_all2_Cons1\<close>)
  let ?db = "(demo_sample_db ''pred'')\<lparr>db_evidence := [row]\<rparr>"
  obtain pop where pop: "GetPopulationByID 1 50 ?db = Some pop" "pop_ScopePredicate pop = ''pred''"
    by (simp add: GetPopulationByID_def demo_sample_db_def)
  have nontrivial: "\<not> isTrivialPredicate demo_audit_lib ''pred''" by (simp add: isTrivialPredicate_def demo_audit_lib_def)
  have "\<exists>cells. Evaluate (sc_unmarshal demo_audit_lib) ''pred'' (map (universe_cell demo_audit_lib) (ListScopeCells 1 ?db)) = Inr cells"
    by (simp add: Evaluate_def isEmptyExpr_def TrimSpace_def demo_audit_lib_def demo_sample_db_def ListScopeCells_def universe_cell_def Let_def)
  then obtain cells where "Evaluate (sc_unmarshal demo_audit_lib) ''pred'' (map (universe_cell demo_audit_lib) (ListScopeCells 1 ?db)) = Inr cells"
    by blast
  moreover have "\<forall>r \<in> set (db_evidence ?db). ev_TenantID r = 1 \<longrightarrow> (\<exists>ilib controls. ingested ilib controls r)"
    using ing by auto
  ultimately show ?thesis
    using predicate_population_empty [where db = ?db and t = 1 and env = demo_env and lib = demo_audit_lib and predicate = "''pred''"
      and popID = 50 and pop = pop and n = 5 and seed = "''seed''" and who = "''ann''" and cells = cells and dbnow = 0
      and sampleID = 60 and auditID = 61] pop nontrivial ing
    by auto
qed

text \<open>
  C32. A drawn sample is kept and can be drawn again. The records of a sample are distinct members of its
  population. After the draw, whatever calls of this store and of the audit periods follow and however
  the ledger grows, the sample reads back as it was returned, in the same order. And if the population
  had no predicate and was frozen, and none of the records that arrived since the draw falls into it, a
  second draw with the same seed and count succeeds and returns the same records in the same order.
\<close>

theorem drawn_sample_kept_and_replayed:
  assumes draw: "DrawSample lib env dbnow sid aid popID n seed who db = (Inr s, db1)"
    and inv: "sample_inv db" and run: "(sample_step lib plib)\<^sup>*\<^sup>* db1 db2"
    and size: "length (db_evidence db2) < 2 ^ 31" and ids: "distinct (map ev_ID (db_evidence db2))"
    and env2: "tx_ok env2" "tenant_of env2 = tenant_of env"
  shows "GetSample env2 sid db2 = (Inr s, db2)
    \<and> (\<exists>pop. GetPopulationByID (so_TenantID s) popID db = Some pop \<and> distinct (so_EvidenceRecordIDs s)
         \<and> set (so_EvidenceRecordIDs s) \<subseteq> ev_ID ` set (population_rows pop db)
         \<and> (isTrivialPredicate lib (pop_ScopePredicate pop) \<and> pop_FrozenAt pop \<noteq> None
            \<and> population_rows pop db2 = population_rows pop db
            \<and> sid2 \<notin> sm_ID ` set (db_samples db2) \<and> aid2 \<notin> sl_ID ` set (db_sample_log db2) \<and> who2 \<noteq> [] \<longrightarrow>
            (\<exists>s2 db3. DrawSample lib env2 dbnow2 sid2 aid2 popID n seed who2 db2 = (Inr s2, db3)
               \<and> so_EvidenceRecordIDs s2 = so_EvidenceRecordIDs s)))"
proof -
  obtain t where t: "tenant_of env = Some t" and body: "draw_body lib dbnow sid aid popID n seed who t db = Inr (s, db1)"
    and input: "0 < n" "seed \<noteq> []"
    using draw by (auto simp: DrawSample_def inTx_Inr_iff split: if_splits)
  have tx: "tx_ok env2" "tenant_of env2 = Some t" using env2 t by simp_all
  from body obtain pop recIDs drawn row en where pop: "GetPopulationByID t popID db = Some pop"
    and res: "resolvePopulationEvidenceIDsFromRow lib t pop db = Inr recIDs"
    and smp: "Sample (al_sha256 lib) (al_chacha8 lib) recIDs n seed = Inr drawn"
    and row: "row = \<lparr>sm_ID = sid, sm_TenantID = t, sm_PopulationID = pop_ID pop, sm_N = to_int32 (int (length drawn)), sm_Seed = seed,
            sm_CreatedBy = who, sm_CreatedAt = pgTime dbnow\<rparr>"
    and fresh: "sid \<notin> sm_ID ` set (db_samples db)" and s: "s = (sampleFromRow row)\<lparr>so_EvidenceRecordIDs := drawn\<rparr>"
    and db1: "db1 = db\<lparr>db_samples := db_samples db @ [row], db_sample_evidence := db_sample_evidence db @ drawn_rows sid t 0 drawn,
            db_sample_log := db_sample_log db @ [en]\<rparr>"
    by (rule draw_body_InrE)
  have kept1: "keeps db db1" by (rule DrawSample_keeps [OF draw inv])
  then have inv1: "sample_inv db1" by (rule keeps_obtain)
  have kept2: "keeps db1 db2" by (rule sample_run_keeps [OF run inv1])
  obtain r1 where ev1: "db_evidence db2 = db_evidence db1 @ r1" by (rule keeps_obtain [OF kept2])
  have sub: "mset recIDs \<subseteq># mset (map ev_ID (population_rows pop db))" using resolve_population(1) [OF res] .
  have ev: "db_evidence db1 = db_evidence db" using db1 by simp
  have len: "length recIDs \<le> length (db_evidence db2)"
    using size_mset_mono [OF sub] length_filter_le [of _ "db_evidence db"] ev ev1
    by (simp only: size_mset length_map population_rows_def length_append) (meson le_add1 le_trans)
  note drawn = Sample_InrD [OF smp order_le_less_trans [OF len order_less_trans [OF size]]]
  have in_pop: "mset drawn \<subseteq># mset (map ev_ID (population_rows pop db))" using subset_mset.trans [OF drawn(1) sub] by simp
  have "distinct (map ev_ID (db_evidence db))" using ids ev ev1 by simp
  note recs = population_ids [OF in_pop this]
  have none: "filter (\<lambda>r. se_TenantID r = t \<and> se_SampleID r = sid) (db_sample_evidence db) = []"
    using inv fresh by (auto simp: sample_inv_def filter_empty_conv image_subset_iff)
  have own: "filter (\<lambda>r. se_TenantID r = t \<and> se_SampleID r = sid) (drawn_rows sid t 0 drawn) = drawn_rows sid t 0 drawn"
    by (rule filter_True) (use drawn_rows_sample in blast)
  have list: "ListSampleEvidence t sid db1 = drawn_rows sid t 0 drawn"
    using sorted_drawn_rows [of 0 drawn sid t] drawn(3) len size
    by (simp add: ListSampleEvidence_def db1 none own)
  have found: "GetSampleByID t sid db1 = Some row"
  proof -
    have "List.find (\<lambda>r. sm_TenantID r = t \<and> sm_ID r = sid) (db_samples db) = None" using fresh by (auto simp: find_None_iff)
    then show ?thesis by (simp add: GetSampleByID_def db1 find_append row)
  qed
  have "GetSample env2 sid db1 = (Inr s, db1)"
    using tx found list by (simp add: GetSample_def inTx_run row s)
  with GetSample_kept [OF kept2 found GetSampleByID_run [OF run inv1 found] tx] have read: "GetSample env2 sid db2 = (Inr s, db2)" by simp
  have again: "\<exists>s2 db3. DrawSample lib env2 dbnow2 sid2 aid2 popID n seed who2 db2 = (Inr s2, db3)
      \<and> so_EvidenceRecordIDs s2 = so_EvidenceRecordIDs s"
    if triv: "isTrivialPredicate lib (pop_ScopePredicate pop)" "pop_FrozenAt pop \<noteq> None"
      "population_rows pop db2 = population_rows pop db" and
      new: "sid2 \<notin> sm_ID ` set (db_samples db2)" "aid2 \<notin> sl_ID ` set (db_sample_log db2)" "who2 \<noteq> []"
  proof -
    obtain pop' where pop': "GetPopulationByID t popID db2 = Some pop'" "pop_kept pop pop'"
      using keeps_trans [OF kept1 kept2] pop unfolding keeps_def pops_kept_def by blast
    then have same: "population_rows pop' db2 = population_rows pop db2" "pop_ScopePredicate pop' = pop_ScopePredicate pop"
      using triv(2) by (cases pop; cases pop'; auto simp: pop_kept_def population_rows_def)+
    have is2: "resolvePopulationEvidenceIDsFromRow lib t pop' db2 = Inr recIDs"
      using resolve_trivial [of lib pop' t db2] resolve_trivial [of lib pop t db] triv same res by simp
    obtain s2 db3 where "draw_body lib dbnow2 sid2 aid2 popID n seed who2 t db2 = Inr (s2, db3)" "so_EvidenceRecordIDs s2 = drawn"
      using draw_body_ok [OF keeps_inv [OF kept2] pop'(1) is2 smp input(2) new(3,1,2) size ids] by blast
    with tx input new s show ?thesis by (auto simp: DrawSample_def inTx_run)
  qed
  have "set drawn \<subseteq> ev_ID ` set (population_rows pop db)" using set_mset_mono [OF in_pop] by simp
  with read pop recs(1) again show ?thesis by (simp add: s row sampleFromRow_def)
qed

lemma demo_resolve:
  "GetPopulationByID 1 50 (demo_sample_db ''all'') \<noteq> None"
  "GetPopulationByID 1 50 (demo_sample_db ''all'') = Some pop \<Longrightarrow>
     resolvePopulationEvidenceIDsFromRow demo_audit_lib 1 pop (demo_sample_db ''all'') = Inr [40, 41]
     \<and> isTrivialPredicate demo_audit_lib (pop_ScopePredicate pop) \<and> pop_FrozenAt pop \<noteq> None"
  by (auto simp: GetPopulationByID_def demo_sample_db_def demo_audit_lib_def resolvePopulationEvidenceIDsFromRow_def applyScopeFilter_def
      isTrivialPredicate_def ListPopulationEvidenceIDs_def in_population_def)

lemma demo_draw:
  "\<exists>s db1. DrawSample demo_audit_lib demo_env 0 60 61 50 2 ''q'' ''ann'' (demo_sample_db ''all'') = (Inr s, db1)
     \<and> so_EvidenceRecordIDs s = [40, 41] \<and> so_TenantID s = 1 \<and> db_evidence db1 = db_evidence (demo_sample_db ''all'')
     \<and> map sm_ID (db_samples db1) = [60] \<and> map sl_ID (db_sample_log db1) = [61]"
proof -
  let ?db = "demo_sample_db ''all''"
  obtain pop where pop: "GetPopulationByID 1 50 ?db = Some pop" using demo_resolve(1) by auto
  have smp: "Sample (al_sha256 demo_audit_lib) (al_chacha8 demo_audit_lib) [40, 41] 2 ''q'' = Inr [40, 41]"
    by (simp add: Sample_def Let_def newRNG_def draw_index_def demo_audit_lib_def numeral_2_eq_2)
  have inv: "sample_inv ?db" by (simp add: sample_inv_def pd_inv_def demo_sample_db_def)
  obtain s db1 where body: "draw_body demo_audit_lib 0 60 61 50 2 ''q'' ''ann'' 1 ?db = Inr (s, db1)" "so_EvidenceRecordIDs s = [40, 41]"
    using draw_body_ok [OF inv pop conjunct1 [OF demo_resolve(2) [OF pop]] smp, of "''ann''" 60 61 0] by (auto simp: demo_sample_db_def)
  have "so_TenantID s = 1" "db_evidence db1 = db_evidence ?db" "map sm_ID (db_samples db1) = [60]"
    "map sl_ID (db_sample_log db1) = [61]"
    using body(1) by (auto elim!: draw_body_InrE simp: sampleFromRow_def demo_sample_db_def)
  then show ?thesis using body by (intro exI [of _ s] exI [of _ db1]) (simp add: DrawSample_def inTx_run)
qed

theorem drawn_sample_kept_and_replayed_witness:
  "\<exists>s db1. DrawSample demo_audit_lib demo_env 0 60 61 50 2 ''q'' ''ann'' (demo_sample_db ''all'') = (Inr s, db1)
     \<and> GetSample demo_env 60 db1 = (Inr s, db1) \<and> so_EvidenceRecordIDs s = [40, 41]
     \<and> (\<exists>s2 db3. DrawSample demo_audit_lib demo_env 5 62 63 50 2 ''q'' ''bob'' db1 = (Inr s2, db3) \<and> so_EvidenceRecordIDs s2 = [40, 41])"
proof -
  let ?db = "demo_sample_db ''all''"
  obtain s db1 where draw: "DrawSample demo_audit_lib demo_env 0 60 61 50 2 ''q'' ''ann'' ?db = (Inr s, db1)"
    and s: "so_EvidenceRecordIDs s = [40, 41]" "so_TenantID s = 1" and db1: "db_evidence db1 = db_evidence ?db"
    "map sm_ID (db_samples db1) = [60]" "map sl_ID (db_sample_log db1) = [61]"
    using demo_draw by (elim exE conjE) (rule that)
  have inv: "sample_inv ?db" by (simp add: sample_inv_def pd_inv_def demo_sample_db_def)
  have size: "length (db_evidence db1) < 2 ^ 31" "distinct (map ev_ID (db_evidence db1))" using db1(1) by (simp_all add: demo_sample_db_def)
  have "sm_ID ` set (db_samples db1) = {60}" "sl_ID ` set (db_sample_log db1) = {61}" 
    using db1(2,3) by (metis list.set_map list.simps(15) empty_set)+
  then have fresh: "62 \<notin> sm_ID ` set (db_samples db1)" "63 \<notin> sl_ID ` set (db_sample_log db1)" by simp_all
  have same: "population_rows pop db1 = population_rows pop ?db" for pop using db1(1) by (simp add: population_rows_def)
  from drawn_sample_kept_and_replayed [OF draw inv rtranclp.rtrancl_refl size demo_env_simps(2) refl, of 62 63 "''bob''" 5]
  show ?thesis using draw s fresh same demo_resolve(2) by auto
qed

end
