(* ===== verification/Go_Float.thy ===== *)
theory Go_Float
  imports Complex_Main
begin

text \<open>
  Go's \<open>float64\<close>: IEEE 754 binary64 with rounding to nearest, ties to even. A finite value is the
  rational number it stands for; the two zeros are one value, which only the printed form and a
  division by zero could tell apart, and the modelled code does neither. Every operation rounds the
  exact result, \<open>round64\<close>, which is monotone and leaves the numbers that it returns as they are;
  bounds on the code's arithmetic follow from these two facts.
\<close>

datatype float64 = NaN | Inf bool | Fin rat

definition half_even :: "rat \<Rightarrow> int" where
  "half_even x = (let f = \<lfloor>x\<rfloor>; d = x - of_int f in if d < 1/2 \<or> (d = 1/2 \<and> even f) then f else f + 1)"

fun bit_length :: "nat \<Rightarrow> nat" where
  "bit_length n = (if n = 0 then 0 else Suc (bit_length (n div 2)))"

declare bit_length.simps [simp del]

text \<open>The exponent \<open>e\<close> with \<open>2\<^sup>e \<le> \<bar>x\<bar> < 2\<^sup>e\<^sup>+\<^sup>1\<close>.\<close>

definition binade :: "rat \<Rightarrow> int" where
  "binade x =
     (case quotient_of \<bar>x\<bar> of (n, d) \<Rightarrow>
        let e = int (bit_length (nat n)) - int (bit_length (nat d)) in if 2 powi e \<le> \<bar>x\<bar> then e else e - 1)"

text \<open>The distance of neighbouring values: 53 significant bits, none below \<open>2\<^sup>-\<^sup>1\<^sup>0\<^sup>7\<^sup>4\<close>.\<close>

definition ulp_exp :: "rat \<Rightarrow> int" where
  "ulp_exp x = max (binade x - 52) (- 1074)"

definition overflow64 :: rat where
  "overflow64 = 2 ^ 1024"

definition round64 :: "rat \<Rightarrow> float64" where
  "round64 x =
     (if x = 0 then Fin 0
      else (let q = 2 powi ulp_exp x; v = of_int (half_even (x / q)) * q
            in if \<bar>v\<bar> \<ge> overflow64 then Inf (v > 0) else Fin v))"

fun f_less :: "float64 \<Rightarrow> float64 \<Rightarrow> bool" where
  "f_less (Fin x) (Fin y) = (x < y)"
| "f_less (Fin x) (Inf s) = s"
| "f_less (Inf s) (Fin y) = (\<not> s)"
| "f_less (Inf s) (Inf s') = (\<not> s \<and> s')"
| "f_less _ _ = False"

fun f_eq :: "float64 \<Rightarrow> float64 \<Rightarrow> bool" where
  "f_eq NaN _ = False"
| "f_eq x y = (x = y)"

definition f_le :: "float64 \<Rightarrow> float64 \<Rightarrow> bool" where
  "f_le x y \<longleftrightarrow> f_less x y \<or> f_eq x y"

fun f_add :: "float64 \<Rightarrow> float64 \<Rightarrow> float64" where
  "f_add (Fin x) (Fin y) = round64 (x + y)"
| "f_add (Inf s) (Inf s') = (if s = s' then Inf s else NaN)"
| "f_add (Inf s) (Fin _) = Inf s"
| "f_add (Fin _) (Inf s) = Inf s"
| "f_add _ _ = NaN"

fun f_neg :: "float64 \<Rightarrow> float64" where
  "f_neg (Fin x) = Fin (- x)"
| "f_neg (Inf s) = Inf (\<not> s)"
| "f_neg NaN = NaN"

definition f_sub :: "float64 \<Rightarrow> float64 \<Rightarrow> float64" where
  "f_sub x y = f_add x (f_neg y)"

fun f_mul :: "float64 \<Rightarrow> float64 \<Rightarrow> float64" where
  "f_mul (Fin x) (Fin y) = round64 (x * y)"
| "f_mul (Inf s) (Inf s') = Inf (s = s')"
| "f_mul (Inf s) (Fin y) = (if y = 0 then NaN else Inf (s = (y > 0)))"
| "f_mul (Fin x) (Inf s) = (if x = 0 then NaN else Inf (s = (x > 0)))"
| "f_mul _ _ = NaN"

text \<open>\<open>float64(n)\<close>, and a division by a positive count.\<close>

definition f_of_int :: "int \<Rightarrow> float64" where
  "f_of_int n = round64 (of_int n)"

fun f_div_count :: "float64 \<Rightarrow> nat \<Rightarrow> float64" where
  "f_div_count (Fin x) n = (case f_of_int (int n) of Fin y \<Rightarrow> round64 (x / y) | _ \<Rightarrow> Fin 0)"
| "f_div_count x n = x"

text \<open>The finite values of the type.\<close>

definition is_float64 :: "rat \<Rightarrow> bool" where
  "is_float64 x \<longleftrightarrow> round64 x = Fin x"


section \<open>Rounding\<close>

lemma bit_length_bounds: "0 < n \<Longrightarrow> 2 ^ (bit_length n - 1) \<le> n \<and> n < 2 ^ bit_length n \<and> 0 < bit_length n"
proof (induction n rule: bit_length.induct)
  case (1 n)
  show ?case
  proof (cases "n = 1")
    case True
    then show ?thesis by (simp add: bit_length.simps)
  next
    case False
    with 1 have IH: "2 ^ (bit_length (n div 2) - 1) \<le> n div 2" "n div 2 < 2 ^ bit_length (n div 2)" "0 < bit_length (n div 2)"
      by (simp_all add: div_greater_zero_iff)
    moreover have len: "bit_length n = Suc (bit_length (n div 2))" using 1 by (simp add: bit_length.simps [of n])
    moreover have "(2::nat) ^ bit_length (n div 2) = 2 * 2 ^ (bit_length (n div 2) - 1)"
      using IH(3) by (cases "bit_length (n div 2)") simp_all
    ultimately show ?thesis by simp linarith
  qed
qed

lemma half_even_bounds: "\<lfloor>x\<rfloor> \<le> half_even x" "half_even x \<le> \<lceil>x\<rceil>"
  by (auto simp: half_even_def Let_def) linarith+

lemma half_even_int [simp]: "half_even (of_int n) = n"
  by (simp add: half_even_def)

lemma half_even_mono: "x \<le> y \<Longrightarrow> half_even x \<le> half_even y"
proof (cases "\<lfloor>x\<rfloor> = \<lfloor>y\<rfloor>")
  case True
  assume "x \<le> y"
  with True show ?thesis by (auto simp: half_even_def Let_def)
next
  case False
  assume "x \<le> y"
  with False have "\<lfloor>x\<rfloor> + 1 \<le> \<lfloor>y\<rfloor>" using floor_mono [of x y] by linarith
  moreover have "half_even x \<le> \<lfloor>x\<rfloor> + 1" by (auto simp: half_even_def Let_def)
  ultimately show ?thesis using half_even_bounds(1) [of y] by linarith
qed

lemma half_even_minus: "half_even (- x) = - half_even x"
proof (cases "x = of_int \<lfloor>x\<rfloor>")
  case True
  then show ?thesis by (metis half_even_int of_int_minus)
next
  case False
  then have "\<lfloor>- x\<rfloor> = - \<lfloor>x\<rfloor> - 1" by linarith
  then show ?thesis using False by (auto simp: half_even_def Let_def)
qed

lemma powi_2_mono: "a \<le> b \<Longrightarrow> (2::rat) powi a \<le> 2 powi b"
  by (simp add: power_int_increasing)

lemma powi_2_pos [simp]: "(0::rat) < 2 powi a"
  by simp

lemma rat_bit_length:
  assumes "0 < n"
  shows "2 powi (int (bit_length (nat n)) - 1) \<le> (of_int n :: rat)" "(of_int n :: rat) < 2 powi int (bit_length (nat n))"
proof -
  have b: "2 ^ (bit_length (nat n) - 1) \<le> nat n" "nat n < 2 ^ bit_length (nat n)" "0 < bit_length (nat n)"
    using bit_length_bounds [of "nat n"] assms by auto
  have n: "(of_int n :: rat) = of_nat (nat n)" using assms by simp
  have "(of_nat (2 ^ (bit_length (nat n) - 1)) :: rat) \<le> of_nat (nat n)" using b(1) by (simp only: of_nat_le_iff)
  moreover have "int (bit_length (nat n)) - 1 = int (bit_length (nat n) - 1)" using b(3) by linarith
  ultimately show "2 powi (int (bit_length (nat n)) - 1) \<le> (of_int n :: rat)"
    by (simp only: n power_int_of_nat) simp
  have "(of_nat (nat n) :: rat) < of_nat (2 ^ bit_length (nat n))" using b(2) by (simp only: of_nat_less_iff)
  then show "(of_int n :: rat) < 2 powi int (bit_length (nat n))" by (simp only: n power_int_of_nat) simp
qed

lemma binade_bounds:
  assumes "x \<noteq> 0"
  shows "2 powi binade x \<le> \<bar>x\<bar>" "\<bar>x\<bar> < 2 powi (binade x + 1)"
proof -
  obtain n d where q: "quotient_of \<bar>x\<bar> = (n, d)" by (cases "quotient_of \<bar>x\<bar>")
  then have d: "0 < d" and x: "\<bar>x\<bar> = of_int n / of_int d"
    by (simp_all add: quotient_of_denom_pos quotient_of_div)
  have "(0::rat) < of_int n / of_int d" using assms x by (metis zero_less_abs_iff)
  with d have n: "0 < n" by (simp add: zero_less_divide_iff)
  define bn bd where "bn = int (bit_length (nat n))" and "bd = int (bit_length (nat d))"
  note bits = rat_bit_length [OF n, folded bn_def] rat_bit_length [OF d, folded bd_def]
  have e: "binade x = (if 2 powi (bn - bd) \<le> \<bar>x\<bar> then bn - bd else bn - bd - 1)"
    by (simp add: binade_def q Let_def bn_def bd_def)
  have "\<bar>x\<bar> < 2 powi bn / 2 powi (bd - 1)"
    unfolding x using bits by (intro frac_less) (use n d in auto)
  also have "\<dots> = 2 powi (bn - bd + 1)" by (simp add: algebra_simps flip: power_int_diff)
  finally have up: "\<bar>x\<bar> < 2 powi (bn - bd + 1)" .
  have "2 powi (bn - 1) / 2 powi bd \<le> \<bar>x\<bar>"
    unfolding x using bits by (intro frac_le) (use n d in auto)
  moreover have "(2::rat) powi (bn - 1) / 2 powi bd = 2 powi (bn - bd - 1)"
    by (simp add: algebra_simps flip: power_int_diff)
  ultimately have lo: "2 powi (bn - bd - 1) \<le> \<bar>x\<bar>" by simp
  show "2 powi binade x \<le> \<bar>x\<bar>" "\<bar>x\<bar> < 2 powi (binade x + 1)"
    using up lo by (auto simp: e not_le)
qed

definition rounded :: "rat \<Rightarrow> rat" where
  "rounded x = of_int (half_even (x / 2 powi ulp_exp x)) * 2 powi ulp_exp x"

lemma overflow64_pos [simp]: "0 < overflow64"
  unfolding overflow64_def by (rule zero_less_power) simp

lemma round64_rounded: "round64 x = (if \<bar>rounded x\<bar> \<ge> overflow64 then Inf (rounded x > 0) else Fin (rounded x))"
  using half_even_int [of 0] by (simp add: round64_def rounded_def Let_def not_le)

lemma rounded_le_grid: "x \<le> of_int k * 2 powi ulp_exp x \<Longrightarrow> rounded x \<le> of_int k * 2 powi ulp_exp x"
  using half_even_mono [of "x / 2 powi ulp_exp x" "of_int k"] by (simp add: rounded_def divide_le_eq)

lemma rounded_ge_grid: "of_int k * 2 powi ulp_exp x \<le> x \<Longrightarrow> of_int k * 2 powi ulp_exp x \<le> rounded x"
  using half_even_mono [of "of_int k" "x / 2 powi ulp_exp x"] by (simp add: rounded_def le_divide_eq)

lemma powi_on_grid: "b \<le> a \<Longrightarrow> (2::rat) powi a = of_int (2 ^ nat (a - b)) * 2 powi b"
proof -
  assume "b \<le> a"
  then have "(2::rat) powi a = 2 powi (int (nat (a - b)) + b)" by simp
  also have "\<dots> = 2 ^ nat (a - b) * 2 powi b"
    by (subst power_int_add) (simp_all only: power_int_of_nat zero_neq_numeral not_False_eq_True disj_not1 simp_thms, simp)
  finally show ?thesis by simp
qed

lemma ulp_exp_minus [simp]: "ulp_exp (- x) = ulp_exp x"
  by (simp add: ulp_exp_def binade_def)

lemma rounded_minus [simp]: "rounded (- x) = - rounded x"
  by (simp add: rounded_def half_even_minus flip: minus_divide_left)

lemma rounded_0 [simp]: "rounded 0 = 0"
  using half_even_int [of 0] by (simp add: rounded_def)

lemma rounded_nonneg: "0 \<le> x \<Longrightarrow> 0 \<le> rounded x"
  using rounded_ge_grid [of 0 x] by simp

lemma binade_mono: "0 < x \<Longrightarrow> x \<le> y \<Longrightarrow> binade x \<le> binade y"
proof (rule ccontr)
  assume xy: "0 < x" "x \<le> y" and "\<not> binade x \<le> binade y"
  then have "(2::rat) powi (binade y + 1) \<le> 2 powi binade x" by (intro powi_2_mono) simp
  with binade_bounds [of x] binade_bounds [of y] xy show False by simp
qed

lemma rounded_mono_pos:
  assumes "0 < x" "x \<le> y"
  shows "rounded x \<le> rounded y"
proof (cases "ulp_exp x = ulp_exp y")
  case True
  then show ?thesis using assms half_even_mono [of "x / 2 powi ulp_exp y" "y / 2 powi ulp_exp y"]
    by (simp add: rounded_def divide_right_mono)
next
  case False
  with binade_mono [OF assms] have y: "ulp_exp x < ulp_exp y" "ulp_exp y = binade y - 52" "binade x + 1 \<le> binade y"
    by (auto simp: ulp_exp_def split: if_splits)
  have "x < 2 powi (binade x + 1)" using binade_bounds(2) [of x] assms by simp
  also have "\<dots> \<le> 2 powi binade y" using y by (intro powi_2_mono)
  finally have "x \<le> 2 powi binade y" by simp
  then have "rounded x \<le> 2 powi binade y"
    using rounded_le_grid [of x "2 ^ nat (binade y - ulp_exp x)"] powi_on_grid [of "ulp_exp x" "binade y"] y by simp
  also have "2 powi binade y \<le> y" using binade_bounds(1) [of y] assms by simp
  then have "2 powi binade y \<le> rounded y"
    using rounded_ge_grid [of "2 ^ nat (binade y - ulp_exp y)" y] powi_on_grid [of "ulp_exp y" "binade y"] y by simp
  finally show ?thesis .
qed

lemma rounded_mono: "x \<le> y \<Longrightarrow> rounded x \<le> rounded y"
proof (cases "0 < x")
  case False
  assume "x \<le> y"
  show ?thesis
  proof (cases "0 \<le> y")
    case True
    then show ?thesis using False rounded_nonneg [of y] rounded_nonneg [of "- x"] by simp
  next
    case neg: False
    then show ?thesis using rounded_mono_pos [of "- y" "- x"] \<open>x \<le> y\<close> by simp
  qed
qed (rule rounded_mono_pos)

text \<open>A dyadic number with at most 53 significant bits is left alone.\<close>

lemma rounded_exact:
  assumes "x = of_int m * 2 powi e" "\<bar>m\<bar> \<le> 2 ^ 53" "- 1074 \<le> e"
  shows "rounded x = x"
proof (cases "x = 0")
  case False
  have "\<bar>x\<bar> = of_int \<bar>m\<bar> * 2 powi e" using assms(1) by (simp add: abs_mult)
  have "ulp_exp x \<le> e \<or> \<bar>m\<bar> = 2 ^ 53"
  proof (rule disjCI)
    assume "\<bar>m\<bar> \<noteq> 2 ^ 53"
    with assms(2) have "\<bar>m\<bar> < 2 ^ 53" by simp
    then have "(of_int \<bar>m\<bar> :: rat) < of_int (2 ^ 53)" by (simp only: of_int_less_iff)
    then have "\<bar>x\<bar> < 2 powi 53 * 2 powi e" using \<open>\<bar>x\<bar> = _\<close> by simp
    also have "\<dots> = 2 powi (53 + e)" by (simp add: power_int_add)
    finally have "2 powi binade x < (2::rat) powi (53 + e)" using binade_bounds(1) [OF False] by simp
    then have "binade x < 53 + e" using powi_2_mono [of "53 + e" "binade x"] by linarith
    then show "ulp_exp x \<le> e" using assms(3) by (simp add: ulp_exp_def)
  qed
  moreover have "ulp_exp x \<le> e + 1"
  proof -
    have "\<bar>x\<bar> \<le> 2 powi 53 * 2 powi e" using \<open>\<bar>x\<bar> = _\<close> assms(2) by (simp flip: of_int_abs)
    also have "\<dots> = 2 powi (53 + e)" by (simp add: power_int_add)
    finally have "2 powi binade x \<le> (2::rat) powi (53 + e)" using binade_bounds(1) [OF False] by simp
    then have "binade x \<le> 53 + e" using power_int_strict_increasing [of "53 + e" "binade x" "2::rat"] by linarith
    then show ?thesis using assms(3) by (simp add: ulp_exp_def)
  qed
  ultimately obtain k where k: "x = of_int k * 2 powi ulp_exp x"
  proof (elim disjE)
    assume "ulp_exp x \<le> e"
    then have "x = of_int (m * 2 ^ nat (e - ulp_exp x)) * 2 powi ulp_exp x"
      using assms(1) powi_on_grid [of "ulp_exp x" e] by simp
    then show ?thesis using that by blast
  next
    assume m: "\<bar>m\<bar> = 2 ^ 53" and u: "ulp_exp x \<le> e + 1"
    have "x = of_int (sgn m * 2 ^ 52) * 2 powi (e + 1)"
      using m by (cases "0 \<le> m") (simp_all add: assms(1) power_int_add sgn_if abs_if flip: of_int_minus)
    then have "x = of_int (sgn m * 2 ^ 52 * 2 ^ nat (e + 1 - ulp_exp x)) * 2 powi ulp_exp x"
      using powi_on_grid [OF u] by simp
    then show ?thesis using that by blast
  qed
  then show ?thesis using rounded_le_grid [of x k] rounded_ge_grid [of k x] by simp
qed simp

lemma rounded_idem [simp]: "rounded (rounded x) = rounded x"
proof (cases "x = 0")
  case False
  let ?k = "half_even (x / 2 powi ulp_exp x)"
  have "\<bar>x\<bar> < 2 powi (binade x + 1)" using binade_bounds(2) [OF False] .
  also have "\<dots> \<le> 2 powi (53 + ulp_exp x)" by (intro powi_2_mono) (simp add: ulp_exp_def)
  finally have "\<bar>x\<bar> / 2 powi ulp_exp x < 2 powi 53" by (simp add: power_int_add divide_less_eq)
  then have "\<bar>x / 2 powi ulp_exp x\<bar> < of_int (2 ^ 53)" by (simp add: abs_divide)
  then have "x / 2 powi ulp_exp x \<le> of_int (2 ^ 53)" "of_int (- (2 ^ 53)) \<le> x / 2 powi ulp_exp x" by linarith+
  from this [THEN half_even_mono] have "\<bar>?k\<bar> \<le> 2 ^ 53" by (simp only: half_even_int abs_le_iff) simp
  then show ?thesis by (intro rounded_exact [OF rounded_def]) (simp_all add: ulp_exp_def)
qed simp


section \<open>Values and bounds\<close>

lemma is_float64_iff: "is_float64 x \<longleftrightarrow> rounded x = x \<and> \<bar>x\<bar> < overflow64"
  by (auto simp: is_float64_def round64_rounded)

lemma is_float64_of_int: "\<bar>n\<bar> \<le> 2 ^ 53 \<Longrightarrow> is_float64 (of_int n)"
proof -
  assume n: "\<bar>n\<bar> \<le> 2 ^ 53"
  then have "(of_int \<bar>n\<bar> :: rat) \<le> of_int (2 ^ 53)" by (simp only: of_int_le_iff)
  also have "\<dots> < overflow64" unfolding overflow64_def of_int_power of_int_numeral by (rule power_strict_increasing) simp_all
  finally show ?thesis using rounded_exact [of "of_int n" n 0] n by (simp add: is_float64_iff)
qed

lemma is_float64_small [simp]: "is_float64 0" "is_float64 1" "is_float64 (of_nat n) \<longleftrightarrow> is_float64 (of_int (int n))"
  using is_float64_of_int [of 0] is_float64_of_int [of 1] by simp_all

lemma round64_between:
  assumes "is_float64 a" "is_float64 b" "a \<le> x" "x \<le> b"
  shows "round64 x = Fin (rounded x)" "a \<le> rounded x" "rounded x \<le> b" "is_float64 (rounded x)"
proof -
  show bounds: "a \<le> rounded x" "rounded x \<le> b"
    using rounded_mono [OF assms(3)] rounded_mono [OF assms(4)] assms(1,2) by (simp_all add: is_float64_iff)
  then have "\<bar>rounded x\<bar> < overflow64" using assms(1,2) by (auto simp: is_float64_iff)
  then show "round64 x = Fin (rounded x)" "is_float64 (rounded x)" by (simp_all add: round64_rounded is_float64_iff)
qed

text \<open>A value of the type that lies between two bounds.\<close>

definition in_range :: "rat \<Rightarrow> rat \<Rightarrow> float64 \<Rightarrow> bool" where
  "in_range a b f \<longleftrightarrow> (\<exists>v. f = Fin v \<and> is_float64 v \<and> a \<le> v \<and> v \<le> b)"

lemma in_rangeI: "is_float64 v \<Longrightarrow> a \<le> v \<Longrightarrow> v \<le> b \<Longrightarrow> in_range a b (Fin v)"
  by (simp add: in_range_def)

lemma in_rangeE:
  assumes "in_range a b f"
  obtains v where "f = Fin v" "is_float64 v" "a \<le> v" "v \<le> b"
  using assms by (auto simp: in_range_def)

lemma in_range_round: "is_float64 a \<Longrightarrow> is_float64 b \<Longrightarrow> a \<le> x \<Longrightarrow> x \<le> b \<Longrightarrow> in_range a b (round64 x)"
  by (auto simp: in_range_def round64_between)

lemma in_range_mul_unit: "in_range 0 a x \<Longrightarrow> in_range 0 1 y \<Longrightarrow> is_float64 a \<Longrightarrow> in_range 0 a (f_mul x y)"
proof (elim in_rangeE)
  fix v w assume "is_float64 a" "x = Fin v" "0 \<le> v" "v \<le> a" "y = Fin w" "0 \<le> w" "w \<le> 1"
  moreover from this have "v * w \<le> a * 1" by (intro mult_mono) simp_all
  ultimately show ?thesis by (simp add: in_range_round)
qed

lemma in_range_add:
  "in_range 0 a x \<Longrightarrow> in_range 0 b y \<Longrightarrow> is_float64 (a + b) \<Longrightarrow> in_range 0 (a + b) (f_add x y)"
  by (elim in_rangeE) (simp add: in_range_round)

lemma in_range_one_minus: "in_range 0 1 x \<Longrightarrow> in_range 0 1 (f_sub (Fin 1) x)"
  by (elim in_rangeE) (simp add: in_range_round f_sub_def)

lemma f_of_int_exact: "\<bar>n\<bar> \<le> 2 ^ 53 \<Longrightarrow> f_of_int n = Fin (of_int n)"
  using is_float64_of_int [of n] by (simp add: f_of_int_def is_float64_def)

lemma in_range_mean: "0 < n \<Longrightarrow> n \<le> 2 ^ 53 \<Longrightarrow> in_range 0 (of_nat n) x \<Longrightarrow> in_range 0 1 (f_div_count x n)"
  by (elim in_rangeE) (simp add: f_of_int_exact in_range_round divide_le_eq)

lemma f_le_Fin [simp]: "f_le (Fin x) (Fin y) \<longleftrightarrow> x \<le> y"
  by (auto simp: f_le_def)

text \<open>The operations are monotone where their results stay finite.\<close>

lemma round64_mono: "x \<le> y \<Longrightarrow> round64 x = Fin a \<Longrightarrow> round64 y = Fin b \<Longrightarrow> a \<le> b"
  by (auto simp: round64_rounded rounded_mono split: if_splits)

lemma f_mul_mono:
  "f_le x x' \<Longrightarrow> in_range 0 a x \<Longrightarrow> in_range 0 a x' \<Longrightarrow> in_range 0 1 y \<Longrightarrow> is_float64 a \<Longrightarrow> f_le (f_mul y x) (f_mul y x')"
proof (elim in_rangeE)
  fix v v' w assume h: "f_le x x'" "is_float64 a" "x = Fin v" "0 \<le> v" "v \<le> a" "x' = Fin v'" "0 \<le> v'" "v' \<le> a"
    "y = Fin w" "0 \<le> w" "w \<le> 1"
  have "w * v \<le> 1 * a" "w * v' \<le> 1 * a" by (rule mult_mono; use h in simp)+
  then have "round64 (w * v) = Fin (rounded (w * v))" "round64 (w * v') = Fin (rounded (w * v'))"
    using h round64_between(1) [of 0 a] by simp_all
  with h show ?thesis by (simp add: rounded_mono mult_left_mono)
qed

lemma f_add_mono:
  assumes "f_le x x'" "f_le y y'" "in_range 0 a x" "in_range 0 a x'" "in_range 0 b y" "in_range 0 b y'" "is_float64 (a + b)"
  shows "f_le (f_add x y) (f_add x' y')"
proof -
  obtain v v' w w' where h: "x = Fin v" "x' = Fin v'" "y = Fin w" "y' = Fin w'" using assms by (auto elim!: in_rangeE)
  have "in_range 0 (a + b) (f_add x y)" "in_range 0 (a + b) (f_add x' y')"
    using in_range_add [OF assms(3,5,7)] in_range_add [OF assms(4,6,7)] .
  then obtain r r' where r: "round64 (v + w) = Fin r" "round64 (v' + w') = Fin r'" unfolding h by (auto elim!: in_rangeE)
  have "v + w \<le> v' + w'" using assms(1,2) h by simp
  from round64_mono [OF this r] show ?thesis by (simp add: h r)
qed

end
