(* ===== verification/Risk_Score.thy ===== *)
theory Risk_Score
  imports Atlas_Prelude Go_Float
begin

text \<open>
  The pure part of \<open>internal/risk\<close>: the methodologies and the validation of a score
  (\<open>methodology.go\<close>), the rules of a treatment (\<open>treatment.go\<close>), aggregated severities
  (\<open>severity.go\<close>) and the residual formula (\<open>residual.go\<close> and the pure helpers of
  \<open>residual_store.go\<close> and \<open>aggregate.go\<close>), in the arithmetic of \<open>Go_Float\<close>.

  A JSON text is the tree it parses to, with the members of an object in their order and a number as
  its decimal digits and their scale, because Go rounds a number to \<open>float64\<close> while PostgreSQL keeps
  its digits. The five JSON schemas of the source are translated keyword by keyword. Parameters
  (\<open>score_lib\<close>): the JSON parser, the shortest decimal that prints a \<open>float64\<close>, SHA-256, the text of
  an identifier, \<open>math.Log10\<close> of a count, what a conversion of an out-of-range float to an integer
  gives, \<open>strings.ToLower\<close>, and which trees a \<open>jsonb\<close> column accepts.
\<close>

datatype rjson =
    RNull | RBool bool | RNum int nat | RStr string | RArr "rjson list" | RObj "(string \<times> rjson) list"

record score_lib =
  sl_parse :: "bytes \<Rightarrow> rjson option"
  sl_digits :: "rat \<Rightarrow> int \<times> nat"
  sl_sha256hex :: "bytes \<Rightarrow> string"
  sl_uuid_string :: "uuid \<Rightarrow> string"
  sl_log10 :: "nat \<Rightarrow> float64"
  sl_int_range :: "float64 \<Rightarrow> int"
  sl_lower :: "string \<Rightarrow> string"
  sl_jsonb_ok :: "rjson \<Rightarrow> bool"

definition num_value :: "int \<Rightarrow> nat \<Rightarrow> rat" where
  "num_value m s = of_int m / 10 ^ s"

text \<open>\<open>encoding/json\<close> refuses a number that is no finite \<open>float64\<close>.\<close>

definition go_number :: "int \<Rightarrow> nat \<Rightarrow> rat option" where
  "go_number m s = (case round64 (num_value m s) of Fin v \<Rightarrow> Some v | _ \<Rightarrow> None)"

fun go_numbers :: "rjson \<Rightarrow> bool" where
  "go_numbers (RNum m s) = (go_number m s \<noteq> None)"
| "go_numbers (RArr vs) = list_all go_numbers vs"
| "go_numbers (RObj ms) = list_all (\<lambda>(_, v). go_numbers v) ms"
| "go_numbers _ = True"

text \<open>\<open>json.Unmarshal\<close> into \<open>any\<close>, and into \<open>map[string]any\<close>: the last member of a name stays.\<close>

definition unmarshal_any :: "score_lib \<Rightarrow> bytes \<Rightarrow> rjson option" where
  "unmarshal_any lib b = (case sl_parse lib b of None \<Rightarrow> None | Some j \<Rightarrow> if go_numbers j then Some j else None)"

definition members :: "(string \<times> rjson) list \<Rightarrow> string \<rightharpoonup> rjson" where
  "members ms k = map_of (rev ms) k"

fun unmarshal_map :: "rjson \<Rightarrow> (string \<rightharpoonup> rjson) option" where
  "unmarshal_map RNull = Some Map.empty"
| "unmarshal_map (RObj ms) = (if go_numbers (RObj ms) then Some (members ms) else None)"
| "unmarshal_map _ = None"

definition numField :: "(string \<rightharpoonup> rjson) \<Rightarrow> string \<Rightarrow> rat option" where
  "numField m key = (case m key of Some (RNum d s) \<Rightarrow> go_number d s | _ \<Rightarrow> None)"

definition strField :: "(string \<rightharpoonup> rjson) \<Rightarrow> string \<Rightarrow> string option" where
  "strField m key = (case m key of Some (RStr s) \<Rightarrow> Some s | _ \<Rightarrow> None)"

text \<open>
  \<open>json.Unmarshal\<close> into a struct of \<open>*float64\<close> fields: a member goes to the field of exactly its
  name, or else of its name up to case, where the Kelvin sign and the long s fold to letters; a null
  empties the field, a number fills it and anything else is an error.
\<close>

fun fold_name :: "string \<Rightarrow> string" where
  "fold_name [] = []"
| "fold_name (a # b # c # s) =
     (if a = CHR 0xC5 \<and> b = CHR 0xBF then CHR ''S'' # fold_name (c # s)
      else if a = CHR 0xE2 \<and> b = CHR 0x84 \<and> c = CHR 0xAA then CHR ''K'' # fold_name s
      else (if CHR ''a'' \<le> a \<and> a \<le> CHR ''z'' then char_of (of_char a - 32 :: nat) else a) # fold_name (b # c # s))"
| "fold_name [a, b] =
     (if a = CHR 0xC5 \<and> b = CHR 0xBF then ''S''
      else (if CHR ''a'' \<le> a \<and> a \<le> CHR ''z'' then char_of (of_char a - 32 :: nat) else a) # fold_name [b])"
| "fold_name [a] = [if CHR ''a'' \<le> a \<and> a \<le> CHR ''z'' then char_of (of_char a - 32 :: nat) else a]"

definition struct_field :: "string list \<Rightarrow> string \<Rightarrow> string option" where
  "struct_field fnames key =
     (if key \<in> set fnames then Some key else List.find (\<lambda>f. fold_name f = fold_name key) fnames)"

fun decode_members ::
  "string list \<Rightarrow> (string \<times> rjson) list \<Rightarrow> (string \<rightharpoonup> rat) \<Rightarrow> (string \<rightharpoonup> rat) option" where
  "decode_members fnames [] acc = Some acc"
| "decode_members fnames ((key, v) # ms) acc =
     (case struct_field fnames key of
        None \<Rightarrow> decode_members fnames ms acc
      | Some f \<Rightarrow>
        (case v of
           RNull \<Rightarrow> decode_members fnames ms (acc(f := None))
         | RNum m s \<Rightarrow>
             (case go_number m s of None \<Rightarrow> None | Some x \<Rightarrow> decode_members fnames ms (acc(f \<mapsto> x)))
         | _ \<Rightarrow> None))"

fun decode_struct :: "string list \<Rightarrow> rjson \<Rightarrow> (string \<rightharpoonup> rat) option" where
  "decode_struct fnames RNull = Some Map.empty"
| "decode_struct fnames (RObj ms) = decode_members fnames ms Map.empty"
| "decode_struct fnames _ = None"


section \<open>Methodologies\<close>

definition RiskMethodologyNist80030 :: string where "RiskMethodologyNist80030 = ''nist_800_30''"
definition RiskMethodologyFair :: string where "RiskMethodologyFair = ''fair''"
definition RiskMethodologyCisRam :: string where "RiskMethodologyCisRam = ''cis_ram''"
definition RiskMethodologyIso27005 :: string where "RiskMethodologyIso27005 = ''iso_27005''"
definition RiskMethodologyQualitative5x5 :: string where "RiskMethodologyQualitative5x5 = ''qualitative_5x5''"

lemmas methodology_defs = RiskMethodologyNist80030_def RiskMethodologyFair_def RiskMethodologyCisRam_def RiskMethodologyIso27005_def
  RiskMethodologyQualitative5x5_def

lemma methodology_distinct [simp]:
  "RiskMethodologyNist80030 \<noteq> RiskMethodologyFair" "RiskMethodologyFair \<noteq> RiskMethodologyNist80030"
  "RiskMethodologyQualitative5x5 \<noteq> RiskMethodologyFair" "RiskMethodologyFair \<noteq> RiskMethodologyQualitative5x5"
  "RiskMethodologyCisRam \<noteq> RiskMethodologyFair" "RiskMethodologyIso27005 \<noteq> RiskMethodologyFair"
  by (simp_all add: methodology_defs)

definition AllowedMethodologies :: "string list" where
  "AllowedMethodologies = [RiskMethodologyNist80030, RiskMethodologyFair, RiskMethodologyCisRam, RiskMethodologyIso27005,
     RiskMethodologyQualitative5x5]"

definition DefaultMethodology :: string where
  "DefaultMethodology = RiskMethodologyNist80030"

datatype risk_error =
    RkErrNotFound | ErrControlNotFoundForLink | ErrLinkWeightOutOfRange | ErrInvalidMethodology
  | ErrInherentScoreInvalid | ErrTreatmentValidation string
  | ErrUnknownSeverityFunction string | ErrIncompatibleMethodology uuid string | ErrEmptyChildren
  | ErrChildrenNotFound | ErrUnknownTheme "string list" | ErrParentTitle | ErrAggregateLevel
  | ErrChildScore uuid | RkDatabase pg_error

text \<open>A property that the schema constrains, and absent or of the given shape.\<close>

definition opt_prop :: "(string \<rightharpoonup> rjson) \<Rightarrow> string \<Rightarrow> (rat \<Rightarrow> bool) \<Rightarrow> bool" where
  "opt_prop m key P \<longleftrightarrow>
     (case m key of None \<Rightarrow> True | Some (RNum d s) \<Rightarrow> (case go_number d s of Some x \<Rightarrow> P x | None \<Rightarrow> False) | Some _ \<Rightarrow> False)"

definition grid_number :: "rat \<Rightarrow> bool" where
  "grid_number x \<longleftrightarrow> x = of_int \<lfloor>x\<rfloor> \<and> 1 \<le> x \<and> x \<le> 5"

definition grid_schema :: "(string \<rightharpoonup> rjson) \<Rightarrow> bool" where
  "grid_schema m \<longleftrightarrow> m ''likelihood'' \<noteq> None \<and> m ''impact'' \<noteq> None
     \<and> opt_prop m ''likelihood'' grid_number \<and> opt_prop m ''impact'' grid_number"

definition nist80030Schema :: "(string \<rightharpoonup> rjson) \<Rightarrow> bool" where
  "nist80030Schema m \<longleftrightarrow> grid_schema m
     \<and> opt_prop m ''impact_dollars_low'' (\<lambda>x. 0 \<le> x) \<and> opt_prop m ''impact_dollars_high'' (\<lambda>x. 0 \<le> x)"

definition qualitative5x5Schema :: "(string \<rightharpoonup> rjson) \<Rightarrow> bool" where
  "qualitative5x5Schema m \<longleftrightarrow> grid_schema m"

definition fairSchema :: "(string \<rightharpoonup> rjson) \<Rightarrow> bool" where
  "fairSchema m \<longleftrightarrow>
     (m ''loss_event_frequency'' \<noteq> None \<and> m ''loss_magnitude'' \<noteq> None \<or> m ''lef'' \<noteq> None \<and> m ''lm'' \<noteq> None)
     \<and> (\<forall>k \<in> {''loss_event_frequency'', ''loss_magnitude'', ''annualized_loss_exposure'', ''lef'', ''lm''}.
          opt_prop m k (\<lambda>x. 0 \<le> x))"

definition methodologySchemas :: "string \<Rightarrow> (rjson \<Rightarrow> bool) option" where
  "methodologySchemas methodology =
     (let on_object = (\<lambda>P j. case j of RObj ms \<Rightarrow> P ms | _ \<Rightarrow> False) in
      if methodology = RiskMethodologyNist80030 then Some (on_object (\<lambda>ms. nist80030Schema (members ms)))
      else if methodology = RiskMethodologyQualitative5x5 then Some (on_object (\<lambda>ms. qualitative5x5Schema (members ms)))
      else if methodology = RiskMethodologyFair then Some (on_object (\<lambda>ms. fairSchema (members ms)))
      else if methodology = RiskMethodologyCisRam \<or> methodology = RiskMethodologyIso27005
      then Some (on_object (\<lambda>ms. ms \<noteq> []))
      else None)"

record FairScore =
  fair_LossEventFrequency :: rat
  fair_LossMagnitude :: rat
  fair_AnnualizedLossExposure :: rat

definition finiteNonNegative :: "float64 \<Rightarrow> bool" where
  "finiteNonNegative v \<longleftrightarrow> (case v of Fin x \<Rightarrow> 0 \<le> x | _ \<Rightarrow> False)"

definition fair_fields :: "string list" where
  "fair_fields = [''loss_event_frequency'', ''loss_magnitude'', ''annualized_loss_exposure'', ''lef'', ''lm'']"

definition or_else :: "'a option \<Rightarrow> 'a option \<Rightarrow> 'a option" where
  "or_else a b = (case a of Some x \<Rightarrow> Some x | None \<Rightarrow> b)"

definition FairScoreFromJSON :: "rjson \<Rightarrow> FairScore option" where
  "FairScoreFromJSON j =
     (case decode_struct fair_fields j of
        None \<Rightarrow> None
      | Some score \<Rightarrow>
        (case (or_else (score ''loss_event_frequency'') (score ''lef''), or_else (score ''loss_magnitude'') (score ''lm'')) of
           (Some lef, Some lm) \<Rightarrow>
             if \<not> finiteNonNegative (Fin lef) \<or> \<not> finiteNonNegative (Fin lm) then None
             else
               (case f_mul (Fin lef) (Fin lm) of
                  Fin ale \<Rightarrow>
                    if \<not> finiteNonNegative (Fin ale) then None
                    else
                      (case score ''annualized_loss_exposure'' of
                         Some given \<Rightarrow>
                           if f_less (round64 (1/100)) (case f_sub (Fin given) (Fin ale) of Fin d \<Rightarrow> Fin \<bar>d\<bar> | Inf _ \<Rightarrow> Inf True | NaN \<Rightarrow> NaN)
                           then None
                           else Some \<lparr>fair_LossEventFrequency = lef, fair_LossMagnitude = lm, fair_AnnualizedLossExposure = ale\<rparr>
                       | None \<Rightarrow> Some \<lparr>fair_LossEventFrequency = lef, fair_LossMagnitude = lm, fair_AnnualizedLossExposure = ale\<rparr>)
                | _ \<Rightarrow> None)
         | _ \<Rightarrow> None))"

definition json_float :: "score_lib \<Rightarrow> rat \<Rightarrow> rjson" where
  "json_float lib x = (case sl_digits lib x of (m, s) \<Rightarrow> RNum m s)"

definition NormalizeFairScoreJSON :: "score_lib \<Rightarrow> rjson \<Rightarrow> rjson option" where
  "NormalizeFairScoreJSON lib j =
     map_option (\<lambda>f. RObj [(''loss_event_frequency'', json_float lib (fair_LossEventFrequency f)),
                           (''loss_magnitude'', json_float lib (fair_LossMagnitude f)),
                           (''annualized_loss_exposure'', json_float lib (fair_AnnualizedLossExposure f))])
       (FairScoreFromJSON j)"

definition ValidateInherentScore :: "score_lib \<Rightarrow> string \<Rightarrow> bytes \<Rightarrow> risk_error option" where
  "ValidateInherentScore lib methodology inherentScore =
     (case methodologySchemas methodology of
        None \<Rightarrow> Some ErrInvalidMethodology
      | Some schema \<Rightarrow>
        if inherentScore = [] then Some ErrInherentScoreInvalid
        else
          (case unmarshal_any lib inherentScore of
             None \<Rightarrow> Some ErrInherentScoreInvalid
           | Some parsed \<Rightarrow>
             if \<not> schema parsed then Some ErrInherentScoreInvalid
             else if methodology = RiskMethodologyFair \<and> FairScoreFromJSON parsed = None then Some ErrInherentScoreInvalid
             else None))"


section \<open>Treatments\<close>

definition RiskTreatmentAccept :: string where "RiskTreatmentAccept = ''accept''"
definition RiskTreatmentMitigate :: string where "RiskTreatmentMitigate = ''mitigate''"
definition RiskTreatmentTransfer :: string where "RiskTreatmentTransfer = ''transfer''"
definition RiskTreatmentAvoid :: string where "RiskTreatmentAvoid = ''avoid''"

lemmas treatment_defs = RiskTreatmentAccept_def RiskTreatmentMitigate_def RiskTreatmentTransfer_def RiskTreatmentAvoid_def

lemma treatment_distinct [simp]:
  "RiskTreatmentAvoid \<noteq> RiskTreatmentAccept" "RiskTreatmentAvoid \<noteq> RiskTreatmentTransfer"
  "RiskTreatmentMitigate \<noteq> RiskTreatmentAccept" "RiskTreatmentMitigate \<noteq> RiskTreatmentTransfer"
  "RiskTreatmentAccept \<noteq> RiskTreatmentTransfer" "RiskTreatmentTransfer \<noteq> RiskTreatmentAccept"
  by (simp_all add: treatment_defs)

record TreatmentInput =
  ti_Treatment :: string
  ti_AcceptedUntilPresent :: bool
  ti_Accepter :: string
  ti_InstrumentReference :: string
  ti_LinkedControlCount :: nat

definition ValidateTreatment :: "TreatmentInput \<Rightarrow> risk_error option" where
  "ValidateTreatment inp =
     (if ti_Treatment inp = RiskTreatmentAccept then
        if \<not> ti_AcceptedUntilPresent inp then Some (ErrTreatmentValidation ''treatment=accept requires accepted_until'')
        else if ti_Accepter inp = [] then Some (ErrTreatmentValidation ''treatment=accept requires accepter'')
        else None
      else if ti_Treatment inp = RiskTreatmentMitigate then
        if ti_LinkedControlCount inp < 1
        then Some (ErrTreatmentValidation ''treatment=mitigate requires at least one linked_control_id'') else None
      else if ti_Treatment inp = RiskTreatmentTransfer then
        if ti_InstrumentReference inp = []
        then Some (ErrTreatmentValidation ''treatment=transfer requires instrument_reference'') else None
      else if ti_Treatment inp = RiskTreatmentAvoid then None
      else Some (ErrTreatmentValidation ''treatment is not a recognized value''))"


section \<open>Aggregated severities\<close>

definition SeverityFunctionMax :: string where "SeverityFunctionMax = ''max''"
definition SeverityFunctionWeightedMax :: string where "SeverityFunctionWeightedMax = ''weighted_max''"
definition SeverityFunctionSum :: string where "SeverityFunctionSum = ''sum''"

definition AllowedSeverityFunctions :: "string list" where
  "AllowedSeverityFunctions = [SeverityFunctionMax, SeverityFunctionWeightedMax, SeverityFunctionSum]"

definition SeverityScaleMax :: int where "SeverityScaleMax = 25"

text \<open>Go's \<open>int\<close> has 64 bits.\<close>

definition int64 :: "int \<Rightarrow> int" where
  "int64 n = signed_take_bit 63 n"

record ChildScore =
  cs_Likelihood :: int
  cs_Impact :: int

definition Severity :: "ChildScore \<Rightarrow> int" where
  "Severity c = int64 (cs_Likelihood c * cs_Impact c)"

definition capScale :: "int \<Rightarrow> int" where
  "capScale v = (if v > SeverityScaleMax then SeverityScaleMax else if v < 0 then 0 else v)"

definition max_severity :: "ChildScore list \<Rightarrow> int" where
  "max_severity scores = foldl (\<lambda>m c. if Severity c > m then Severity c else m) 0 scores"

text \<open>\<open>int(v)\<close> truncates a float that an \<open>int\<close> can hold.\<close>

fun int_of_float :: "score_lib \<Rightarrow> float64 \<Rightarrow> int" where
  "int_of_float lib (Fin x) =
     (let n = (if 0 \<le> x then \<lfloor>x\<rfloor> else \<lceil>x\<rceil>) in if - (2 ^ 63) \<le> n \<and> n < 2 ^ 63 then n else sl_int_range lib (Fin x))"
| "int_of_float lib x = sl_int_range lib x"

fun f_ceil :: "float64 \<Rightarrow> float64" where
  "f_ceil (Fin x) = Fin (of_int \<lceil>x\<rceil>)"
| "f_ceil x = x"

definition ComputeSeverity :: "score_lib \<Rightarrow> string \<Rightarrow> ChildScore list \<Rightarrow> risk_error + int" where
  "ComputeSeverity lib fn scores =
     (if scores = [] then Inl ErrEmptyChildren
      else if fn = SeverityFunctionMax then Inr (capScale (max_severity scores))
      else if fn = SeverityFunctionWeightedMax then
        (let raw = f_mul (f_of_int (max_severity scores)) (f_add (Fin 1) (sl_log10 lib (length scores)))
         in Inr (capScale (int_of_float lib (f_ceil raw))))
      else if fn = SeverityFunctionSum then Inr (capScale (foldl (\<lambda>s c. int64 (s + Severity c)) 0 scores))
      else Inl (ErrUnknownSeverityFunction fn))"

text \<open>
  The ceiling of \<open>math.Sqrt\<close> for an integer of at most 25: the root of a square is exact, and any other
  root lies strictly between two integers by more than the rounding error.
\<close>

definition ceil_sqrt :: "int \<Rightarrow> int" where
  "ceil_sqrt s = (if s \<le> 1 then 1 else if s \<le> 4 then 2 else if s \<le> 9 then 3 else if s \<le> 16 then 4 else 5)"

definition DeriveGridCell :: "score_lib \<Rightarrow> int \<Rightarrow> int \<times> int" where
  "DeriveGridCell lib severity =
     (if severity \<le> 0 then (1, 1)
      else
        (let sev = min severity SeverityScaleMax;
             l = ceil_sqrt sev;
             l = (if l < 1 then 1 else if l > 5 then 5 else l);
             i = int_of_float lib (f_ceil (f_div_count (f_of_int sev) (nat l)));
             i = (if i < 1 then 1 else if i > 5 then 5 else i)
         in (l, i)))"

fun join_bar :: "string list \<Rightarrow> string" where
  "join_bar [] = []"
| "join_bar [x] = x"
| "join_bar (x # y # xs) = x @ ''|'' @ join_bar (y # xs)"

definition AggregationKey :: "score_lib \<Rightarrow> string \<Rightarrow> uuid list \<Rightarrow> string" where
  "AggregationKey lib parentTitle children =
     sl_sha256hex lib (parentTitle @ ''|'' @ join_bar (sort (map (sl_uuid_string lib) children)))"

definition IsAggregableMethodology :: "string \<Rightarrow> bool" where
  "IsAggregableMethodology m \<longleftrightarrow> m = RiskMethodologyNist80030 \<or> m = RiskMethodologyQualitative5x5"

record aggregationMeta =
  am_Severity :: int
  am_Likelihood :: int
  am_Impact :: int
  am_SeverityFunction :: string
  am_AggregationKey :: string

definition extractAggregationMeta :: "score_lib \<Rightarrow> rjson \<Rightarrow> aggregationMeta" where
  "extractAggregationMeta lib j =
     (case unmarshal_map j of
        None \<Rightarrow> \<lparr>am_Severity = 0, am_Likelihood = 0, am_Impact = 0, am_SeverityFunction = [], am_AggregationKey = []\<rparr>
      | Some raw \<Rightarrow>
        (let num = (\<lambda>k. case numField raw k of None \<Rightarrow> 0 | Some x \<Rightarrow> int_of_float lib (Fin x));
             str = (\<lambda>k. case strField raw k of None \<Rightarrow> [] | Some x \<Rightarrow> x)
         in \<lparr>am_Severity = num ''severity'', am_Likelihood = num ''likelihood'', am_Impact = num ''impact'',
             am_SeverityFunction = str ''severity_function'', am_AggregationKey = str ''aggregation_key''\<rparr>))"

definition likelihoodImpactFromInherent :: "score_lib \<Rightarrow> rjson \<Rightarrow> (int \<times> int) option" where
  "likelihoodImpactFromInherent lib j =
     (case unmarshal_map j of
        None \<Rightarrow> None
      | Some raw \<Rightarrow>
        (case (numField raw ''likelihood'', numField raw ''impact'') of
           (Some lf, Some imp) \<Rightarrow> Some (int_of_float lib (Fin lf), int_of_float lib (Fin imp))
         | _ \<Rightarrow> None))"

fun uniqueUUIDs :: "uuid list \<Rightarrow> uuid list" where
  "uniqueUUIDs [] = []"
| "uniqueUUIDs (u # us) = u # uniqueUUIDs (filter (\<lambda>x. x \<noteq> u) us)"


section \<open>Residual risk\<close>

record EffectivenessComponents =
  ec_DesignScore :: float64
  ec_OperationalScore :: float64
  ec_CoverageScore :: float64
  ec_WeightDesign :: float64
  ec_WeightOperation :: float64
  ec_WeightCoverage :: float64

definition clamp01 :: "float64 \<Rightarrow> float64" where
  "clamp01 x = (if x = NaN \<or> f_less x (Fin 0) then Fin 0 else if f_less (Fin 1) x then Fin 1 else x)"

definition ControlEffectiveness :: "EffectivenessComponents \<Rightarrow> float64" where
  "ControlEffectiveness c =
     clamp01 (f_add (f_add (f_mul (ec_WeightDesign c) (ec_DesignScore c)) (f_mul (ec_WeightOperation c) (ec_OperationalScore c)))
                    (f_mul (ec_WeightCoverage c) (ec_CoverageScore c)))"

definition WeightedEffectiveness :: "float64 list \<Rightarrow> float64" where
  "WeightedEffectiveness perControl =
     (if perControl = [] then Fin 0 else clamp01 (f_div_count (foldl f_add (Fin 0) perControl) (length perControl)))"

definition ResidualScore :: "float64 \<Rightarrow> float64 \<Rightarrow> float64" where
  "ResidualScore inherent weightedEffectiveness =
     (let residual = f_mul inherent (f_sub (Fin 1) (clamp01 weightedEffectiveness))
      in if f_less residual (Fin 0) then Fin 0 else if f_less inherent residual then inherent else residual)"

definition inherentScalar :: "string \<Rightarrow> rjson \<Rightarrow> float64 option" where
  "inherentScalar methodology j =
     (case unmarshal_map j of
        None \<Rightarrow> None
      | Some raw \<Rightarrow>
        (case numField raw ''severity'' of
           Some sev \<Rightarrow> Some (Fin sev)
         | None \<Rightarrow>
           if methodology = RiskMethodologyNist80030 \<or> methodology = RiskMethodologyQualitative5x5 then
             (case (numField raw ''likelihood'', numField raw ''impact'') of
                (Some l, Some i) \<Rightarrow> Some (f_mul (Fin l) (Fin i)) | _ \<Rightarrow> None)
           else if methodology = RiskMethodologyFair then
             (case (or_else (numField raw ''loss_event_frequency'') (numField raw ''lef''),
                    or_else (numField raw ''loss_magnitude'') (numField raw ''lm'')) of
                (Some lef, Some lm) \<Rightarrow> Some (f_mul (Fin lef) (Fin lm)) | _ \<Rightarrow> None)
           else None))"

definition residualMagnitude :: "rjson \<Rightarrow> float64" where
  "residualMagnitude j =
     (case decode_struct [''likelihood'', ''impact''] j of
        None \<Rightarrow> Fin 0
      | Some score \<Rightarrow>
        (case (score ''likelihood'', score ''impact'') of (Some l, Some i) \<Rightarrow> f_mul (Fin l) (Fin i) | _ \<Rightarrow> Fin 0))"

text \<open>
  The weight columns are \<open>NUMERIC(4,3)\<close>: thousandths, or NaN. \<open>floatToNumeric\<close> prints three decimals
  of the exact value, ties to even.
\<close>

datatype pg_numeric = Thousandths int | NumNaN

fun numericToFloat :: "pg_numeric \<Rightarrow> float64" where
  "numericToFloat (Thousandths n) = round64 (of_int n / 1000)"
| "numericToFloat NumNaN = NaN"

fun floatToNumeric :: "float64 \<Rightarrow> pg_numeric option" where
  "floatToNumeric (Fin x) = Some (Thousandths (half_even (x * 1000)))"
| "floatToNumeric NaN = Some NumNaN"
| "floatToNumeric (Inf _) = None"


section \<open>The residual formula\<close>

abbreviation unit64 :: "float64 \<Rightarrow> bool" where
  "unit64 \<equiv> in_range 0 1"

definition components_ok :: "EffectivenessComponents \<Rightarrow> bool" where
  "components_ok c \<longleftrightarrow> unit64 (ec_DesignScore c) \<and> unit64 (ec_OperationalScore c) \<and> unit64 (ec_CoverageScore c)
     \<and> unit64 (ec_WeightDesign c) \<and> unit64 (ec_WeightOperation c) \<and> unit64 (ec_WeightCoverage c)"

text \<open>The same weights, and no score lower.\<close>

definition improved :: "EffectivenessComponents \<Rightarrow> EffectivenessComponents \<Rightarrow> bool" where
  "improved c d \<longleftrightarrow> f_le (ec_DesignScore c) (ec_DesignScore d) \<and> f_le (ec_OperationalScore c) (ec_OperationalScore d)
     \<and> f_le (ec_CoverageScore c) (ec_CoverageScore d) \<and> ec_WeightDesign d = ec_WeightDesign c
     \<and> ec_WeightOperation d = ec_WeightOperation c \<and> ec_WeightCoverage d = ec_WeightCoverage c"

lemma float64_2 [simp]: "is_float64 2" "is_float64 3"
  using is_float64_of_int [of 2] is_float64_of_int [of 3] by simp_all

lemma clamp01_unit: "in_range 0 b x \<Longrightarrow> unit64 (clamp01 x)"
  by (elim in_rangeE) (auto simp: clamp01_def in_range_def)

lemma clamp01_id [simp]: "unit64 x \<Longrightarrow> clamp01 x = x"
  by (elim in_rangeE) (auto simp: clamp01_def)

lemma clamp01_mono: "f_le x y \<Longrightarrow> in_range 0 a x \<Longrightarrow> in_range 0 a y \<Longrightarrow> f_le (clamp01 x) (clamp01 y)"
  by (elim in_rangeE) (auto simp: clamp01_def)

lemma raw_effectiveness:
  assumes "components_ok c"
  shows "in_range 0 2 (f_add (f_mul (ec_WeightDesign c) (ec_DesignScore c)) (f_mul (ec_WeightOperation c) (ec_OperationalScore c)))"
    and "unit64 (f_mul (ec_WeightCoverage c) (ec_CoverageScore c))" "unit64 (f_mul (ec_WeightDesign c) (ec_DesignScore c))"
    and "unit64 (f_mul (ec_WeightOperation c) (ec_OperationalScore c))"
proof -
  show p: "unit64 (f_mul (ec_WeightCoverage c) (ec_CoverageScore c))" "unit64 (f_mul (ec_WeightDesign c) (ec_DesignScore c))"
    "unit64 (f_mul (ec_WeightOperation c) (ec_OperationalScore c))"
    using assms by (simp_all add: components_ok_def in_range_mul_unit)
  show "in_range 0 2 (f_add (f_mul (ec_WeightDesign c) (ec_DesignScore c)) (f_mul (ec_WeightOperation c) (ec_OperationalScore c)))"
    using in_range_add [OF p(2,3)] by simp
qed

lemma ControlEffectiveness_unit: "components_ok c \<Longrightarrow> unit64 (ControlEffectiveness c)"
  using in_range_add [OF raw_effectiveness(1,2)] clamp01_unit [of 3] by (simp add: ControlEffectiveness_def)

lemma ControlEffectiveness_mono:
  assumes "improved c d" "components_ok c" "components_ok d"
  shows "f_le (ControlEffectiveness c) (ControlEffectiveness d)"
proof -
  note parts = raw_effectiveness [OF assms(2)] raw_effectiveness [OF assms(3)]
  have "f_le (f_mul (ec_WeightDesign c) (ec_DesignScore c)) (f_mul (ec_WeightDesign d) (ec_DesignScore d))"
    "f_le (f_mul (ec_WeightOperation c) (ec_OperationalScore c)) (f_mul (ec_WeightOperation d) (ec_OperationalScore d))"
    "f_le (f_mul (ec_WeightCoverage c) (ec_CoverageScore c)) (f_mul (ec_WeightCoverage d) (ec_CoverageScore d))"
    using assms by (auto simp: improved_def components_ok_def intro!: f_mul_mono [where a = 1])
  moreover from this(1,2) have "f_le (f_add (f_mul (ec_WeightDesign c) (ec_DesignScore c)) (f_mul (ec_WeightOperation c) (ec_OperationalScore c)))
      (f_add (f_mul (ec_WeightDesign d) (ec_DesignScore d)) (f_mul (ec_WeightOperation d) (ec_OperationalScore d)))"
    by (rule f_add_mono [where a = 1 and b = 1]) (simp_all add: parts)
  ultimately show ?thesis
    using in_range_add [OF parts(1,2)] in_range_add [OF parts(5,6)] f_add_mono [OF _ _ parts(1,5,2,6)]
    unfolding ControlEffectiveness_def by (intro clamp01_mono [where a = 3]) simp_all
qed

lemma sum_unit:
  assumes "list_all unit64 xs" "in_range 0 (of_nat k) acc" "k + length xs \<le> 2 ^ 53"
  shows "in_range 0 (of_nat (k + length xs)) (foldl f_add acc xs)"
  using assms
proof (induction xs arbitrary: acc k)
  case (Cons x xs)
  have "is_float64 (of_int (int (Suc k)))" using Cons.prems(3) by (intro is_float64_of_int) simp
  then have "in_range 0 (of_nat (Suc k)) (f_add acc x)"
    using in_range_add [of "of_nat k" acc 1 x] Cons.prems(1,2) by (simp add: add.commute)
  with Cons.prems Cons.IH [of "Suc k" "f_add acc x"] show ?case by simp
qed simp

lemma sum_mono:
  assumes "list_all2 f_le xs ys" "list_all unit64 xs" "list_all unit64 ys" "f_le acc acc'"
    "in_range 0 (of_nat k) acc" "in_range 0 (of_nat k) acc'" "k + length xs \<le> 2 ^ 53"
  shows "f_le (foldl f_add acc xs) (foldl f_add acc' ys)"
  using assms
proof (induction xs ys arbitrary: acc acc' k rule: list_all2_induct)
  case (Cons x xs y ys)
  have "is_float64 (of_int (int (Suc k)))" using Cons.prems by (intro is_float64_of_int) simp
  then have k: "is_float64 (of_nat k + 1)" by (simp add: add.commute)
  have "f_le (f_add acc x) (f_add acc' y)"
    using Cons.prems Cons.hyps k by (intro f_add_mono [where a = "of_nat k" and b = 1]) simp_all
  moreover have "in_range 0 (of_nat (Suc k)) (f_add acc x)" "in_range 0 (of_nat (Suc k)) (f_add acc' y)"
    using in_range_add [of "of_nat k" acc 1 x] in_range_add [of "of_nat k" acc' 1 y] Cons.prems k by (simp_all add: add.commute)
  ultimately show ?case using Cons.IH [of "f_add acc x" "f_add acc' y" "Suc k"] Cons.prems by simp
qed simp

lemma WeightedEffectiveness_unit:
  assumes "list_all unit64 xs" "length xs \<le> 2 ^ 53"
  shows "unit64 (WeightedEffectiveness xs)"
proof (cases "xs = []")
  case False
  have "in_range 0 (of_nat (length xs)) (foldl f_add (Fin 0) xs)"
    using sum_unit [of xs 0 "Fin 0"] assms by (simp add: in_range_def)
  then have "unit64 (f_div_count (foldl f_add (Fin 0) xs) (length xs))" using False assms by (intro in_range_mean) simp_all
  then show ?thesis using False by (simp add: WeightedEffectiveness_def)
qed (simp add: WeightedEffectiveness_def in_range_def)

lemma WeightedEffectiveness_mono:
  assumes "list_all2 f_le xs ys" "list_all unit64 xs" "list_all unit64 ys" "length xs \<le> 2 ^ 53"
  shows "f_le (WeightedEffectiveness xs) (WeightedEffectiveness ys)"
proof (cases "xs = []")
  case True
  then show ?thesis using assms(1) by (simp add: WeightedEffectiveness_def)
next
  case False
  have len: "length ys = length xs" using assms(1) by (simp add: list_all2_lengthD)
  then have ne: "ys \<noteq> []" using False by auto
  have s: "in_range 0 (of_nat (length xs)) (foldl f_add (Fin 0) xs)" "in_range 0 (of_nat (length xs)) (foldl f_add (Fin 0) ys)"
    using sum_unit [of xs 0 "Fin 0"] sum_unit [of ys 0 "Fin 0"] assms len by (simp_all add: in_range_def)
  have le: "f_le (foldl f_add (Fin 0) xs) (foldl f_add (Fin 0) ys)"
    by (rule sum_mono [where k = 0]) (use assms in \<open>simp_all add: in_range_def\<close>)
  have u: "unit64 (f_div_count (foldl f_add (Fin 0) xs) (length xs))" "unit64 (f_div_count (foldl f_add (Fin 0) ys) (length xs))"
    using s False assms(4) by (simp_all add: in_range_mean)
  obtain a b where ab: "foldl f_add (Fin 0) xs = Fin a" "foldl f_add (Fin 0) ys = Fin b" "a \<le> b"
    using s le by (auto elim!: in_rangeE)
  have n: "f_of_int (int (length xs)) = Fin (of_nat (length xs))" using assms(4) by (simp add: f_of_int_exact)
  obtain p q where pq: "round64 (a / of_nat (length xs)) = Fin p" "round64 (b / of_nat (length xs)) = Fin q"
    using u ab n by (auto elim!: in_rangeE)
  have "a / of_nat (length xs) \<le> b / of_nat (length xs)" using ab(3) by (simp add: divide_right_mono)
  from round64_mono [OF this pq] have "f_le (f_div_count (Fin a) (length xs)) (f_div_count (Fin b) (length xs))"
    by (simp add: n pq)
  then show ?thesis using u ab len False ne by (simp add: WeightedEffectiveness_def)
qed

text \<open>What the formula promises for a score that is not negative.\<close>

lemma ResidualScore_bounds:
  assumes "is_float64 a" "0 \<le> a" "unit64 w"
  shows "in_range 0 a (ResidualScore (Fin a) w)" "ResidualScore (Fin a) w = f_mul (Fin a) (f_sub (Fin 1) w)"
proof -
  have "in_range 0 a (f_mul (Fin a) (f_sub (Fin 1) w))"
    using assms by (intro in_range_mul_unit in_range_one_minus) (simp_all add: in_range_def)
  then show "in_range 0 a (ResidualScore (Fin a) w)" "ResidualScore (Fin a) w = f_mul (Fin a) (f_sub (Fin 1) w)"
    using assms(3) by (auto simp: ResidualScore_def Let_def elim!: in_rangeE)
qed

lemma ResidualScore_none: "is_float64 a \<Longrightarrow> 0 \<le> a \<Longrightarrow> ResidualScore (Fin a) (Fin 0) = Fin a"
  using ResidualScore_bounds(2) [of a "Fin 0"] is_float64_small(1,2)
  by (simp add: in_range_def f_sub_def is_float64_def del: is_float64_small)

lemma ResidualScore_antimono:
  assumes "is_float64 a" "0 \<le> a" "unit64 v" "unit64 w" "f_le v w"
  shows "f_le (ResidualScore (Fin a) w) (ResidualScore (Fin a) v)"
proof -
  obtain x y where xy: "v = Fin x" "w = Fin y" "x \<le> y" using assms by (auto elim!: in_rangeE)
  have u: "unit64 (f_sub (Fin 1) v)" "unit64 (f_sub (Fin 1) w)" using assms by (simp_all add: in_range_one_minus)
  then obtain p q where pq: "f_sub (Fin 1) v = Fin p" "f_sub (Fin 1) w = Fin q" "0 \<le> q" by (auto elim!: in_rangeE)
  then have "q \<le> p" using round64_mono [of "1 - y" "1 - x" q p] xy by (simp add: f_sub_def)
  then have "a * q \<le> a * p" using assms(2) by (simp add: mult_left_mono)
  have a: "in_range 0 a (Fin a)" using assms(1,2) by (simp add: in_range_def)
  have "in_range 0 a (f_mul (Fin a) (Fin p))" "in_range 0 a (f_mul (Fin a) (Fin q))"
    using in_range_mul_unit [OF a u(1) assms(1)] in_range_mul_unit [OF a u(2) assms(1)] unfolding pq .
  then obtain r s where rs: "round64 (a * p) = Fin r" "round64 (a * q) = Fin s" by (auto elim!: in_rangeE)
  from round64_mono [OF \<open>a * q \<le> a * p\<close> rs(2,1)] show ?thesis
    using ResidualScore_bounds(2) [OF assms(1,2,3)] ResidualScore_bounds(2) [OF assms(1,2,4)] by (simp add: pq rs)
qed


section \<open>Severities\<close>

lemma capScale_bounds [simp]: "0 \<le> capScale v" "capScale v \<le> SeverityScaleMax"
  by (simp_all add: capScale_def SeverityScaleMax_def)

lemma ComputeSeverity_bounds: "ComputeSeverity lib fn scores = Inr s \<Longrightarrow> 0 \<le> s \<and> s \<le> SeverityScaleMax"
  by (auto simp: ComputeSeverity_def Let_def split: if_splits)

text \<open>Scores on the grid, for which the 64-bit arithmetic is exact.\<close>

definition on_grid :: "ChildScore \<Rightarrow> bool" where
  "on_grid c \<longleftrightarrow> 1 \<le> cs_Likelihood c \<and> cs_Likelihood c \<le> 5 \<and> 1 \<le> cs_Impact c \<and> cs_Impact c \<le> 5"

lemma int64_id: "- (2 ^ 63) \<le> n \<Longrightarrow> n < 2 ^ 63 \<Longrightarrow> int64 n = n"
  unfolding int64_def by (rule signed_take_bit_int_eq_self) simp_all

lemma Severity_on_grid:
  assumes "on_grid c"
  shows "Severity c = cs_Likelihood c * cs_Impact c" "1 \<le> Severity c" "Severity c \<le> 25"
proof -
  have "cs_Likelihood c * cs_Impact c \<le> 5 * 5" "1 * 1 \<le> cs_Likelihood c * cs_Impact c"
    by (rule mult_mono; use assms in \<open>simp add: on_grid_def\<close>)+
  then show "Severity c = cs_Likelihood c * cs_Impact c" "1 \<le> Severity c" "Severity c \<le> 25"
    by (simp_all add: Severity_def int64_id)
qed

lemma max_severity_fold:
  "foldl (\<lambda>m c. if Severity c > m then Severity c else m) m0 cs = Max (insert m0 (Severity ` set cs))"
proof (induction cs arbitrary: m0)
  case (Cons c cs)
  have m: "(if Severity c > m0 then Severity c else m0) = max m0 (Severity c)" by simp
  have "Max (insert (max m0 (Severity c)) (Severity ` set cs)) = Max (insert m0 (Severity ` set (c # cs)))"
    by (cases "cs = []") (simp_all add: max.assoc)
  with Cons show ?case by (simp only: foldl_Cons m)
qed simp

lemma max_severity_eq:
  assumes "list_all on_grid cs" "cs \<noteq> []"
  shows "max_severity cs = Max (Severity ` set cs)" "1 \<le> max_severity cs" "max_severity cs \<le> 25"
proof -
  let ?M = "Max (Severity ` set cs)"
  have "?M \<in> Severity ` set cs" using assms(2) by (intro Max_in) simp_all
  then have M: "1 \<le> ?M" "?M \<le> 25" using assms(1) Severity_on_grid(2,3) by (auto simp: list_all_iff)
  have "max_severity cs = max 0 ?M" using assms(2) by (simp add: max_severity_def max_severity_fold)
  with M show "max_severity cs = ?M" "1 \<le> max_severity cs" "max_severity cs \<le> 25" by simp_all
qed

text \<open>The derived cell covers the severity, and with one impact less it would not.\<close>

lemma ceil_quotient:
  assumes "1 \<le> l" "l \<le> 5" "1 \<le> s" "s \<le> 25"
  shows "int_of_float lib (f_ceil (f_div_count (f_of_int s) (nat l))) = \<lceil>of_int s / (of_int l :: rat)\<rceil>"
proof -
  define k where "k = \<lceil>of_int s / (of_int l :: rat)\<rceil>"
  have q: "of_int s / (of_int l :: rat) \<le> of_int k" "of_int k - 1 < of_int s / (of_int l :: rat)"
    unfolding k_def by linarith+
  have "of_int s / (of_int l :: rat) \<le> of_int 25" using assms by (simp add: divide_le_eq)
  then have k25: "k \<le> 25" unfolding k_def by (simp add: ceiling_le_iff)
  have "(0::rat) < of_int s / of_int l" using assms by simp
  then have k1: "1 \<le> k" using q(1) by linarith
  have "of_int (k * l) - of_int l < (of_int s :: rat)" using q(2) assms(1) by (simp add: less_divide_eq algebra_simps)
  then have "k * l - l + 1 \<le> s" by linarith
  then have "of_int (k * l - l + 1) \<le> (of_int s :: rat)" by (simp only: of_int_le_iff)
  moreover have "(of_int l :: rat) \<le> 5" using assms(2) by simp
  ultimately have "(of_int k - 1 + 1 / 8) * of_int l \<le> (of_int s :: rat)" by (simp add: algebra_simps)
  then have low: "of_int k - 1 + 1 / 8 \<le> of_int s / (of_int l :: rat)" using assms(1) by (simp add: le_divide_eq)
  have g: "is_float64 (of_int k)" using k1 k25 by (intro is_float64_of_int) simp
  have eighths: "of_int k - 1 + 1 / 8 = (of_int (8 * k - 7) :: rat) * 2 powi (- 3)"
    by (simp add: power_int_def power3_eq_cube field_simps)
  have "rounded (of_int k - 1 + 1 / 8) = of_int k - 1 + 1 / 8"
    by (rule rounded_exact [OF eighths]) (use k1 k25 in simp_all)
  moreover have "\<bar>of_int k - 1 + 1 / 8\<bar> \<le> \<bar>of_int k :: rat\<bar>" using k1 by simp
  ultimately have g': "is_float64 (of_int k - 1 + 1 / 8)" using g unfolding is_float64_iff by linarith
  note r = round64_between [OF g' g low q(1)]
  have "\<lceil>rounded (of_int s / of_int l)\<rceil> = k" using r(2,3) by (simp add: ceiling_eq_iff)
  moreover have "f_of_int s = Fin (of_int s)" "f_of_int (int (nat l)) = Fin (of_int l)"
    using assms by (simp_all add: f_of_int_exact)
  ultimately show ?thesis using r(1) k1 k25 by (simp add: k_def Let_def)
qed

lemma DeriveGridCell_tight:
  assumes "1 \<le> s" "s \<le> 25"
  shows "case DeriveGridCell lib s of (l, i) \<Rightarrow> l \<in> {1..5} \<and> i \<in> {1..5} \<and> s \<le> l * i \<and> l * (i - 1) < s \<and> (l - 1) * (l - 1) < s"
proof -
  define l where "l = ceil_sqrt s"
  have l: "1 \<le> l" "l \<le> 5" "s \<le> l * l" "(l - 1) * (l - 1) < s" using assms by (auto simp: l_def ceil_sqrt_def)
  define i where "i = \<lceil>of_int s / (of_int l :: rat)\<rceil>"
  have i: "of_int s / (of_int l :: rat) \<le> of_int i" "of_int i - 1 < of_int s / (of_int l :: rat)"
    unfolding i_def by linarith+
  have "of_int s \<le> of_int i * (of_int l :: rat)" "(of_int i - 1) * of_int l < (of_int s :: rat)"
    using i l(1) by (simp_all add: divide_le_eq less_divide_eq)
  then have "(of_int s :: rat) \<le> of_int (i * l)" "of_int ((i - 1) * l) < (of_int s :: rat)" by simp_all
  then have il: "s \<le> i * l" "(i - 1) * l < s" by (simp_all only: of_int_le_iff of_int_less_iff)
  have "1 \<le> i" using il(1) l(1) assms(1) mult_nonpos_nonneg [of i l] by linarith
  have "(i - 1) * l < l * l" using il(2) l(3) by linarith
  then have "i \<le> l" using l(1) by (simp add: mult_less_cancel_right)
  have "DeriveGridCell lib s = (l, i)"
    using assms l(1,2) \<open>1 \<le> i\<close> \<open>i \<le> l\<close> ceil_quotient [OF l(1,2) assms, of lib]
    by (simp add: DeriveGridCell_def Let_def SeverityScaleMax_def flip: l_def i_def)
  with l il \<open>1 \<le> i\<close> \<open>i \<le> l\<close> show ?thesis by (simp add: mult.commute)
qed


section \<open>Aggregation keys\<close>

lemma set_uniqueUUIDs [simp]: "set (uniqueUUIDs us) = set us"
  by (induction us rule: uniqueUUIDs.induct) auto

lemma distinct_uniqueUUIDs [simp]: "distinct (uniqueUUIDs us)"
  by (induction us rule: uniqueUUIDs.induct) auto

lemma length_uniqueUUIDs: "length (uniqueUUIDs us) = card (set us)"
  by (metis distinct_card distinct_uniqueUUIDs set_uniqueUUIDs)

lemma sort_distinct_set: "distinct xs \<Longrightarrow> distinct ys \<Longrightarrow> set xs = set ys \<Longrightarrow> sort xs = (sort ys :: 'a::linorder list)"
  by (rule sorted_distinct_set_unique) simp_all

lemma AggregationKey_set:
  assumes "inj (sl_uuid_string lib)" "distinct xs" "distinct ys" "set xs = set ys"
  shows "AggregationKey lib title xs = AggregationKey lib title ys"
proof -
  have "sort (map (sl_uuid_string lib) xs) = sort (map (sl_uuid_string lib) ys)"
    using assms by (intro sort_distinct_set) (auto simp: distinct_map intro: inj_on_subset)
  then show ?thesis by (simp add: AggregationKey_def)
qed

end
