(* ===== verification/Org_Unit.thy ===== *)
theory Org_Unit
  imports Eval_Engine Risk_Score
begin

text \<open>
  \<open>internal/risk/orgunit.go\<close>: the tree of organisational units that risks are bound to, with the
  queries of \<open>internal/db/queries/org_units.sql\<close> and the table of
  \<open>20260511000014_risk_hierarchy_decisions.sql\<close>. Parents are checked for cycles by a recursive
  query that follows parent links without a bound: \<open>ParentChainIDs\<close> is None when it never ends,
  and an operation that waits for it then never returns, which is None again.

  Both foreign keys onto a unit are composite, \<open>(tenant_id, parent_id)\<close> and
  \<open>(tenant_id, org_unit_id)\<close>, with \<open>ON DELETE SET NULL\<close> and no column list. PostgreSQL then
  sets every referencing column to NULL, and \<open>tenant_id\<close> is NOT NULL in both tables.

  Parameters: what a \<open>jsonb\<close> column gives back for a text, and whether it is an array.
\<close>

record org_lib =
  ol_jsonb :: "bytes \<Rightarrow> bytes option"
  ol_is_array :: "bytes \<Rightarrow> bool"

record org_unit_row =
  ou_ID :: uuid
  ou_TenantID :: uuid
  ou_Name :: string
  ou_ParentID :: "uuid option"
  ou_Level :: string
  ou_AcceptanceAuthorities :: bytes
  ou_CreatedAt :: gotime
  ou_UpdatedAt :: gotime

text \<open>The risks, which refer to a unit. Their \<open>jsonb\<close> columns are the trees they hold.\<close>

record risk_row =
  rk_ID :: uuid
  rk_TenantID :: uuid
  rk_Title :: string
  rk_Description :: string
  rk_Category :: string
  rk_Methodology :: string
  rk_InherentScore :: rjson
  rk_Treatment :: string
  rk_TreatmentOwner :: string
  rk_ResidualScore :: rjson
  rk_ReviewDueAt :: "gotime option"
  rk_CreatedAt :: gotime
  rk_UpdatedAt :: gotime
  rk_AcceptedUntil :: "gotime option"
  rk_Accepter :: string
  rk_InstrumentReference :: string
  rk_Level :: string
  rk_OrgUnitID :: "uuid option"
  rk_Themes :: "string list"

record org_db = eval_db +
  db_org_units :: "org_unit_row list"
  db_risk_rows :: "risk_row list"

record OrgUnit =
  OU_ID :: uuid
  OU_TenantID :: uuid
  OU_Name :: string
  OU_ParentID :: "uuid option"
  OU_Level :: string
  OU_AcceptanceAuthorities :: bytes

record OrgUnitInput =
  oi_Name :: string
  oi_ParentID :: "uuid option"
  oi_Level :: string
  oi_AcceptanceAuthorities :: bytes

datatype org_error = OuErrNotFound | ParentNotFound uuid | ErrCycleDetected | ErrInvalidLevel | OuDatabase pg_error


section \<open>Queries\<close>

fun level_rank :: "string \<Rightarrow> nat" where
  "level_rank l = (if l = ''team'' then 0 else if l = ''org'' then 1 else 2)"

definition GetOrgUnitByID :: "uuid \<Rightarrow> uuid \<Rightarrow> 'z org_db_scheme \<Rightarrow> org_unit_row option" where
  "GetOrgUnitByID t i db = List.find (\<lambda>u. ou_TenantID u = t \<and> ou_ID u = i) (db_org_units db)"

definition ListOrgUnits_q :: "uuid \<Rightarrow> 'z org_db_scheme \<Rightarrow> org_unit_row list" where
  "ListOrgUnits_q t db =
     sort_key (\<lambda>u. (level_rank (ou_Level u), ou_Name u, ou_ID u)) (filter (\<lambda>u. ou_TenantID u = t) (db_org_units db))"

definition ListOrgUnitChildren :: "uuid \<Rightarrow> uuid \<Rightarrow> 'z org_db_scheme \<Rightarrow> org_unit_row list" where
  "ListOrgUnitChildren t p db =
     sort_key (\<lambda>u. (ou_Name u, ou_ID u)) (filter (\<lambda>u. ou_TenantID u = t \<and> ou_ParentID u = Some p) (db_org_units db))"

text \<open>The recursive term of the query joins at most one row, since identifiers are unique.\<close>

partial_function (option) chain_from :: "uuid \<Rightarrow> uuid option \<Rightarrow> 'z org_db_scheme \<Rightarrow> uuid list option" where
  "chain_from t up db =
     (case up of
        None \<Rightarrow> Some []
      | Some i \<Rightarrow>
        (case GetOrgUnitByID t i db of
           None \<Rightarrow> Some []
         | Some u \<Rightarrow> Option.bind (chain_from t (ou_ParentID u) db) (\<lambda>ids. Some (ou_ID u # ids))))"

definition ParentChainIDs :: "uuid \<Rightarrow> uuid \<Rightarrow> 'z org_db_scheme \<Rightarrow> uuid list option" where
  "ParentChainIDs t i db = chain_from t (Some i) db"

definition parent_fk :: "uuid \<Rightarrow> uuid option \<Rightarrow> 'z org_db_scheme \<Rightarrow> bool" where
  "parent_fk t p db \<longleftrightarrow> (case p of None \<Rightarrow> True | Some x \<Rightarrow> GetOrgUnitByID t x db \<noteq> None)"

definition risk_levels :: "string set" where
  "risk_levels = {''team'', ''org'', ''company''}"

text \<open>A row may name itself as parent: the foreign key is checked after the row is written.\<close>

definition CreateOrgUnit_q ::
  "org_lib \<Rightarrow> gotime \<Rightarrow> uuid \<Rightarrow> uuid \<Rightarrow> string \<Rightarrow> uuid option \<Rightarrow> string \<Rightarrow> bytes \<Rightarrow> 'z org_db_scheme \<Rightarrow>
   pg_error + org_unit_row \<times> 'z org_db_scheme" where
  "CreateOrgUnit_q lib dbnow i t nm parent level auth db =
     (case ol_jsonb lib auth of
        None \<Rightarrow> Inl InvalidTextRepresentation
      | Some a \<Rightarrow>
        if level \<notin> risk_levels then Inl InvalidTextRepresentation
        else if \<not> ol_is_array lib a then Inl CheckViolation
        else if i \<in> ou_ID ` set (db_org_units db) then Inl UniqueViolation
        else
          (let row = \<lparr>ou_ID = i, ou_TenantID = t, ou_Name = nm, ou_ParentID = parent, ou_Level = level,
                      ou_AcceptanceAuthorities = a, ou_CreatedAt = pgTime dbnow, ou_UpdatedAt = pgTime dbnow\<rparr>;
               db' = db\<lparr>db_org_units := db_org_units db @ [row]\<rparr>
           in if \<not> parent_fk t parent db' then Inl ForeignKeyViolation else Inr (row, db')))"

definition UpdateOrgUnit_q ::
  "org_lib \<Rightarrow> gotime \<Rightarrow> uuid \<Rightarrow> uuid \<Rightarrow> string \<Rightarrow> uuid option \<Rightarrow> string \<Rightarrow> bytes \<Rightarrow> 'z org_db_scheme \<Rightarrow>
   pg_error + org_unit_row \<times> 'z org_db_scheme" where
  "UpdateOrgUnit_q lib dbnow t i nm parent level auth db =
     (case ol_jsonb lib auth of
        None \<Rightarrow> Inl InvalidTextRepresentation
      | Some a \<Rightarrow>
        if level \<notin> risk_levels then Inl InvalidTextRepresentation
        else
          (case sql_update_one (\<lambda>u. ou_TenantID u = t \<and> ou_ID u = i)
                  (\<lambda>u. u\<lparr>ou_Name := nm, ou_ParentID := parent, ou_Level := level, ou_AcceptanceAuthorities := a,
                         ou_UpdatedAt := pgTime dbnow\<rparr>) (db_org_units db) of
             None \<Rightarrow> Inl NoRows
           | Some (row, rows) \<Rightarrow>
             if \<not> ol_is_array lib a then Inl CheckViolation
             else if \<not> parent_fk t parent db then Inl ForeignKeyViolation
             else Inr (row, db\<lparr>db_org_units := rows\<rparr>)))"

text \<open>
  The foreign keys of children and of bound risks answer a delete by setting all their columns to
  NULL, the tenant included.
\<close>

definition DeleteOrgUnit_q :: "uuid \<Rightarrow> uuid \<Rightarrow> 'z org_db_scheme \<Rightarrow> pg_error + 'z org_db_scheme" where
  "DeleteOrgUnit_q t i db =
     (if GetOrgUnitByID t i db \<noteq> None
         \<and> ((\<exists>u \<in> set (db_org_units db). ou_TenantID u = t \<and> ou_ParentID u = Some i \<and> ou_ID u \<noteq> i)
            \<or> (\<exists>r \<in> set (db_risk_rows db). rk_TenantID r = t \<and> rk_OrgUnitID r = Some i))
      then Inl NotNullViolation
      else Inr (db\<lparr>db_org_units := filter (\<lambda>u. \<not> (ou_TenantID u = t \<and> ou_ID u = i)) (db_org_units db)\<rparr>))"


section \<open>The store\<close>

definition isValidLevel :: "string \<Rightarrow> bool" where
  "isValidLevel l \<longleftrightarrow> l = ''team'' \<or> l = ''org'' \<or> l = ''company''"

definition orgUnitFromRow :: "org_unit_row \<Rightarrow> OrgUnit" where
  "orgUnitFromRow u =
     \<lparr>OU_ID = ou_ID u, OU_TenantID = ou_TenantID u, OU_Name = ou_Name u, OU_ParentID = ou_ParentID u, OU_Level = ou_Level u,
      OU_AcceptanceAuthorities = (if ou_AcceptanceAuthorities u = [] then ''{}'' else ou_AcceptanceAuthorities u)\<rparr>"

definition defaultAuthoritiesJSON :: "bytes \<Rightarrow> bytes" where
  "defaultAuthoritiesJSON b = (if b = [] then ''[]'' else b)"

text \<open>\<open>Store.inTx\<close> around a body that may not return.\<close>

definition inTx_opt ::
  "txenv \<Rightarrow> (uuid \<Rightarrow> 's \<Rightarrow> ('e + 'a \<times> 's) option) \<Rightarrow> 's \<Rightarrow> (('e err + 'a) \<times> 's) option" where
  "inTx_opt env fn s =
     (case TenantFromContext env of Inl e \<Rightarrow> Some (Inl (Tx e), s)
      | Inr tenantStr \<Rightarrow>
        (case te_parse env tenantStr of None \<Rightarrow> Some (Inl (Tx ErrParseTenant), s)
         | Some tenantID \<Rightarrow>
           if \<not> te_begin_ok env then Some (Inl (Tx ErrBegin), s)
           else
             (case ApplyTenant env of Inl e \<Rightarrow> Some (Inl (Tx e), s)
              | Inr _ \<Rightarrow>
                (case fn tenantID s of
                   None \<Rightarrow> None
                 | Some (Inl e) \<Rightarrow> Some (Inl (Dom e), s)
                 | Some (Inr (a, s')) \<Rightarrow>
                   Some (if te_commit_ok env then (Inr a, s') else (Inl (Tx ErrCommit), s))))))"

text \<open>
  The two statements of a transaction see what was committed when each started: \<open>seen\<close> at the
  chain query and \<open>db\<close> at the write. They are the same when no other call overlaps.
\<close>

definition create_body ::
  "org_lib \<Rightarrow> gotime \<Rightarrow> uuid \<Rightarrow> OrgUnitInput \<Rightarrow> 'z org_db_scheme \<Rightarrow> uuid \<Rightarrow> 'z org_db_scheme \<Rightarrow>
   (org_error + OrgUnit \<times> 'z org_db_scheme) option" where
  "create_body lib dbnow i inp seen t db =
     Option.bind
       (case oi_ParentID inp of
          None \<Rightarrow> Some None
        | Some p \<Rightarrow>
          map_option (\<lambda>chain. if chain = [] then Some (ParentNotFound p) else None) (ParentChainIDs t p seen))
       (\<lambda>refused.
          Some (case refused of
                  Some e \<Rightarrow> Inl e
                | None \<Rightarrow>
                  (case CreateOrgUnit_q lib dbnow i t (oi_Name inp) (oi_ParentID inp) (oi_Level inp)
                          (defaultAuthoritiesJSON (oi_AcceptanceAuthorities inp)) db of
                     Inl e \<Rightarrow> Inl (OuDatabase e)
                   | Inr (row, db') \<Rightarrow> Inr (orgUnitFromRow row, db'))))"

definition CreateOrgUnit ::
  "org_lib \<Rightarrow> txenv \<Rightarrow> gotime \<Rightarrow> uuid \<Rightarrow> OrgUnitInput \<Rightarrow> 'z org_db_scheme \<Rightarrow>
   ((org_error err + OrgUnit) \<times> 'z org_db_scheme) option" where
  "CreateOrgUnit lib env dbnow i inp db =
     (if \<not> isValidLevel (oi_Level inp) then Some (Inl (Dom ErrInvalidLevel), db)
      else inTx_opt env (create_body lib dbnow i inp db) db)"

definition GetOrgUnit ::
  "txenv \<Rightarrow> uuid \<Rightarrow> 'z org_db_scheme \<Rightarrow> (org_error err + OrgUnit) \<times> 'z org_db_scheme" where
  "GetOrgUnit env i db =
     inTx env (\<lambda>t db0. case GetOrgUnitByID t i db0 of None \<Rightarrow> Inl OuErrNotFound | Some u \<Rightarrow> Inr (orgUnitFromRow u, db0)) db"

definition ListOrgUnits ::
  "txenv \<Rightarrow> 'z org_db_scheme \<Rightarrow> (org_error err + OrgUnit list) \<times> 'z org_db_scheme" where
  "ListOrgUnits env db = inTx env (\<lambda>t db0. Inr (map orgUnitFromRow (ListOrgUnits_q t db0), db0)) db"

definition update_body ::
  "org_lib \<Rightarrow> gotime \<Rightarrow> uuid \<Rightarrow> OrgUnitInput \<Rightarrow> 'z org_db_scheme \<Rightarrow> uuid \<Rightarrow> 'z org_db_scheme \<Rightarrow>
   (org_error + OrgUnit \<times> 'z org_db_scheme) option" where
  "update_body lib dbnow i inp seen t db =
     Option.bind
       (case oi_ParentID inp of
          None \<Rightarrow> Some None
        | Some p \<Rightarrow>
          if p = i then Some (Some ErrCycleDetected)
          else map_option (\<lambda>chain. if chain = [] then Some (ParentNotFound p)
                                    else if i \<in> set chain then Some ErrCycleDetected else None)
                 (ParentChainIDs t p seen))
       (\<lambda>refused.
          Some (case refused of
                  Some e \<Rightarrow> Inl e
                | None \<Rightarrow>
                  (case UpdateOrgUnit_q lib dbnow t i (oi_Name inp) (oi_ParentID inp) (oi_Level inp)
                          (defaultAuthoritiesJSON (oi_AcceptanceAuthorities inp)) db of
                     Inl NoRows \<Rightarrow> Inl OuErrNotFound
                   | Inl e \<Rightarrow> Inl (OuDatabase e)
                   | Inr (row, db') \<Rightarrow> Inr (orgUnitFromRow row, db'))))"

definition UpdateOrgUnit ::
  "org_lib \<Rightarrow> txenv \<Rightarrow> gotime \<Rightarrow> uuid \<Rightarrow> OrgUnitInput \<Rightarrow> 'z org_db_scheme \<Rightarrow>
   ((org_error err + OrgUnit) \<times> 'z org_db_scheme) option" where
  "UpdateOrgUnit lib env dbnow i inp db =
     (if \<not> isValidLevel (oi_Level inp) then Some (Inl (Dom ErrInvalidLevel), db)
      else inTx_opt env (update_body lib dbnow i inp db) db)"

definition DeleteOrgUnit ::
  "txenv \<Rightarrow> uuid \<Rightarrow> 'z org_db_scheme \<Rightarrow> (org_error err + unit) \<times> 'z org_db_scheme" where
  "DeleteOrgUnit env i db =
     inTx env (\<lambda>t db0.
       (case GetOrgUnitByID t i db0 of
          None \<Rightarrow> Inl OuErrNotFound
        | Some _ \<Rightarrow>
          (case DeleteOrgUnit_q t i db0 of Inl e \<Rightarrow> Inl (OuDatabase e) | Inr db1 \<Rightarrow> Inr ((), db1)))) db"



section \<open>The parents of a unit\<close>

definition parent_rel :: "'z org_db_scheme \<Rightarrow> (uuid \<times> uuid) set" where
  "parent_rel db = {(ou_ID u, p) | u p. u \<in> set (db_org_units db) \<and> ou_ParentID u = Some p}"

definition org_inv :: "'z org_db_scheme \<Rightarrow> bool" where
  "org_inv db \<longleftrightarrow>
     distinct (map ou_ID (db_org_units db))
     \<and> (\<forall>u \<in> set (db_org_units db). parent_fk (ou_TenantID u) (ou_ParentID u) db)
     \<and> acyclic (parent_rel db)"

lemma finite_parent_rel: "finite (parent_rel db)"
proof -
  have "parent_rel db \<subseteq> (\<lambda>u. (ou_ID u, the (ou_ParentID u))) ` set (db_org_units db)"
    by (force simp: parent_rel_def)
  then show ?thesis by (rule finite_subset) simp
qed

lemma GetOrgUnitByID_SomeD:
  "GetOrgUnitByID t i db = Some u \<Longrightarrow> u \<in> set (db_org_units db) \<and> ou_TenantID u = t \<and> ou_ID u = i"
  by (auto simp: GetOrgUnitByID_def dest: find_SomeD)

lemma GetOrgUnitByID_iff:
  "GetOrgUnitByID t i db \<noteq> None \<longleftrightarrow> (\<exists>u \<in> set (db_org_units db). ou_TenantID u = t \<and> ou_ID u = i)"
  by (auto simp: GetOrgUnitByID_def find_None_iff)

lemma parent_rel_unique:
  assumes "distinct (map ou_ID (db_org_units db))" and "u \<in> set (db_org_units db)"
  shows "(ou_ID u, p) \<in> parent_rel db \<longleftrightarrow> ou_ParentID u = Some p"
  using assms(2) distinct_key_unique [OF assms(1) assms(2)] by (auto simp: parent_rel_def)

text \<open>Over a forest the recursive query ends with the ancestors of the unit, each once.\<close>

lemma chain_ends:
  assumes "org_inv db"
  shows "\<exists>ids. chain_from t (Some i) db = Some ids
    \<and> (if GetOrgUnitByID t i db = None then ids = [] else set ids = (parent_rel db)\<^sup>* `` {i} \<and> distinct ids)"
proof -
  have "wf ((parent_rel db)\<inverse>)"
    using assms finite_parent_rel by (simp add: org_inv_def finite_acyclic_wf_converse)
  then show ?thesis
  proof (induction i)
    case (less i)
    show ?case
    proof (cases "GetOrgUnitByID t i db")
      case None
      then show ?thesis by (simp add: chain_from.simps [of t "Some i"])
    next
      case (Some u)
      note u = GetOrgUnitByID_SomeD [OF Some]
      have dist: "distinct (map ou_ID (db_org_units db))" using assms by (simp add: org_inv_def)
      have links: "(i, x) \<in> parent_rel db \<longleftrightarrow> ou_ParentID u = Some x" for x
        using parent_rel_unique [OF dist] u by blast
      show ?thesis
      proof (cases "ou_ParentID u")
        case None
        then have "(parent_rel db)\<^sup>* `` {i} = {i}" using links by (auto elim: converse_rtranclE)
        with None Some u show ?thesis
          by (simp add: chain_from.simps [of t "Some i"] chain_from.simps [of t None])
      next
        case parent: (Some p)
        then have ip: "(i, p) \<in> parent_rel db" using links by simp
        have "GetOrgUnitByID t p db \<noteq> None" using assms u parent by (auto simp: org_inv_def parent_fk_def)
        with less.IH [of p] ip obtain ids where ids: "chain_from t (Some p) db = Some ids"
          "set ids = (parent_rel db)\<^sup>* `` {p}" "distinct ids" by auto
        have "(parent_rel db)\<^sup>* `` {i} = insert i ((parent_rel db)\<^sup>* `` {p})"
          using ip links parent by (auto elim: converse_rtranclE intro: converse_rtrancl_into_rtrancl)
        moreover have "i \<notin> set ids"
        proof
          assume "i \<in> set ids"
          then have "(i, i) \<in> (parent_rel db)\<^sup>+" using ids(2) ip by (auto intro: rtrancl_into_trancl2)
          with assms show False by (auto simp: org_inv_def acyclic_def)
        qed
        ultimately show ?thesis using ids u Some parent by (simp add: chain_from.simps [of t "Some i"])
      qed
    qed
  qed
qed

text \<open>On a cycle it never ends.\<close>

definition cyclic_units :: "uuid \<Rightarrow> 'z org_db_scheme \<Rightarrow> uuid set \<Rightarrow> bool" where
  "cyclic_units t db c \<longleftrightarrow> (\<forall>i \<in> c. \<exists>u p. GetOrgUnitByID t i db = Some u \<and> ou_ParentID u = Some p \<and> p \<in> c)"

lemma chain_diverges_aux:
  assumes "chain_from t up db = Some ids"
  shows "cyclic_units t db c \<longrightarrow> up \<notin> Some ` c"
proof (rule chain_from.raw_induct [OF _ assms, where P = "\<lambda>t up db ids. cyclic_units t db c \<longrightarrow> up \<notin> Some ` c"])
  fix chain and t :: uuid and up ids and db :: "'z org_db_scheme"
  assume IH: "\<And>t up (db :: 'z org_db_scheme) ids. chain t up db = Some ids \<Longrightarrow> cyclic_units t db c \<longrightarrow> up \<notin> Some ` c"
    and run: "(case up of None \<Rightarrow> Some []
      | Some i \<Rightarrow> (case GetOrgUnitByID t i db of None \<Rightarrow> Some []
          | Some u \<Rightarrow> Option.bind (chain t (ou_ParentID u) db) (\<lambda>ids. Some (ou_ID u # ids)))) = Some ids"
  show "cyclic_units t db c \<longrightarrow> up \<notin> Some ` c"
  proof (intro impI notI)
    assume c: "cyclic_units t db c" and "up \<in> Some ` c"
    then obtain i u p where i: "up = Some i" "GetOrgUnitByID t i db = Some u" "ou_ParentID u = Some p" "p \<in> c"
      by (auto simp: cyclic_units_def)
    with run obtain ids' where "chain t (Some p) db = Some ids'" by (auto simp: bind_eq_Some_conv)
    from IH [OF this] c i(4) show False by blast
  qed
qed

lemma chain_diverges: "cyclic_units t db c \<Longrightarrow> i \<in> c \<Longrightarrow> ParentChainIDs t i db = None"
  using chain_diverges_aux [of t "Some i" db _ c] by (cases "ParentChainIDs t i db") (auto simp: ParentChainIDs_def)



section \<open>The store as a step relation\<close>

inductive org_step :: "org_lib \<Rightarrow> 'z org_db_scheme \<Rightarrow> 'z org_db_scheme \<Rightarrow> bool" for lib where
  create: "CreateOrgUnit lib env dbnow i inp db = Some (res, db') \<Longrightarrow> org_step lib db db'"
| update: "UpdateOrgUnit lib env dbnow i inp db = Some (res, db') \<Longrightarrow> org_step lib db db'"
| delete: "DeleteOrgUnit env i db = (res2, db') \<Longrightarrow> org_step lib db db'"
| bind_risks: "db' = db\<lparr>db_risk_rows := rows\<rparr> \<Longrightarrow> org_step lib db db'"

lemma inTx_opt_cases:
  assumes "inTx_opt env fn s = Some (r, s')"
  obtains (fail) e where "r = Inl e" "s' = s"
  | (commit) t a where "r = Inr a" "tenant_of env = Some t" "tx_ok env" "fn t s = Some (Inr (a, s'))"
  using assms
  by (auto simp: inTx_opt_def tx_ok_def tenant_of_def ApplyTenant_def split: sum.splits option.splits prod.splits if_splits)

lemma inTx_opt_returns: "(\<And>t. fn t s \<noteq> None) \<Longrightarrow> inTx_opt env fn s \<noteq> None"
  unfolding inTx_opt_def by (simp split: sum.split option.split prod.split) (metis option.distinct(1))

lemma inTx_opt_run:
  "tx_ok env \<Longrightarrow> tenant_of env = Some t \<Longrightarrow>
     inTx_opt env fn s =
       (case fn t s of None \<Rightarrow> None | Some (Inl e) \<Rightarrow> Some (Inl (Dom e), s) | Some (Inr (a, s')) \<Rightarrow> Some (Inr a, s'))"
  by (auto simp: inTx_opt_def tx_ok_def tenant_of_def ApplyTenant_def split: sum.splits option.splits prod.splits if_splits)

lemma parent_fk_simps [simp]:
  "parent_fk t None db"
  "parent_fk t (Some x) db \<longleftrightarrow> (\<exists>u \<in> set (db_org_units db). ou_TenantID u = t \<and> ou_ID u = x)"
  by (simp_all only: parent_fk_def option.case GetOrgUnitByID_iff)

lemma parent_fk_mono:
  assumes "parent_fk t p db" and "\<And>u. u \<in> set (db_org_units db) \<Longrightarrow>
      \<exists>v \<in> set (db_org_units db'). ou_TenantID v = ou_TenantID u \<and> ou_ID v = ou_ID u"
  shows "parent_fk t p db'"
proof (cases p)
  case (Some x)
  with assms(1) obtain u where "u \<in> set (db_org_units db)" "ou_TenantID u = t" "ou_ID u = x"
    by auto
  with assms(2) [of u] Some show ?thesis by auto
qed simp

text \<open>A new unit is a leaf, whatever its parent.\<close>

lemma org_inv_create:
  assumes "org_inv db" and "i \<notin> ou_ID ` set (db_org_units db)" and "ou_ID row = i"
    and "parent_fk (ou_TenantID row) (ou_ParentID row) db"
  shows "org_inv (db\<lparr>db_org_units := db_org_units db @ [row]\<rparr>)" (is "org_inv ?db")
proof -
  have fk: "parent_fk t p db \<Longrightarrow> parent_fk t p ?db" for t p by (erule parent_fk_mono) auto
  have target: "x \<in> ou_ID ` set (db_org_units db)" if "(y, x) \<in> parent_rel db" for x y
    using that assms(1) by (force simp: parent_rel_def org_inv_def)
  have new: "parent_rel ?db = parent_rel db \<union> (case ou_ParentID row of None \<Rightarrow> {} | Some p \<Rightarrow> {(i, p)})"
    using assms(3) by (auto simp: parent_rel_def split: option.splits)
  have "acyclic (parent_rel ?db)"
  proof (cases "ou_ParentID row")
    case (Some p)
    have "p \<noteq> i" using assms(2,4) Some by auto
    moreover have "(p, i) \<notin> (parent_rel db)\<^sup>*"
    proof
      assume "(p, i) \<in> (parent_rel db)\<^sup>*"
      with \<open>p \<noteq> i\<close> obtain y where "(y, i) \<in> parent_rel db" by (auto elim: rtranclE)
      with target assms(2) show False by blast
    qed
    ultimately show ?thesis using assms(1) Some by (simp add: new org_inv_def acyclic_insert)
  qed (use assms(1) new in \<open>simp add: org_inv_def\<close>)
  with assms fk show ?thesis by (auto simp: org_inv_def)
qed

text \<open>Moving a unit keeps the forest when it is no ancestor of its new parent.\<close>

definition set_parent :: "uuid \<Rightarrow> uuid \<Rightarrow> uuid option \<Rightarrow> (org_unit_row \<Rightarrow> org_unit_row) \<Rightarrow> bool" where
  "set_parent t i p f \<longleftrightarrow> (\<forall>u. ou_ID (f u) = ou_ID u \<and> ou_TenantID (f u) = ou_TenantID u \<and> ou_ParentID (f u) = p)"

lemma org_inv_update:
  assumes "org_inv db" and "set_parent t i parent f" and "parent_fk t parent db" and "GetOrgUnitByID t i db \<noteq> None"
    and "\<And>p. parent = Some p \<Longrightarrow> (p, i) \<notin> (parent_rel db)\<^sup>*"
  shows "org_inv (db\<lparr>db_org_units := sql_update (\<lambda>u. ou_TenantID u = t \<and> ou_ID u = i) f (db_org_units db)\<rparr>)" (is "org_inv ?db")
proof -
  have dist: "distinct (map ou_ID (db_org_units db))" using assms(1) by (simp add: org_inv_def)
  have key: "ou_ID (f u) = ou_ID u" "ou_TenantID (f u) = ou_TenantID u" "ou_ParentID (f u) = parent" for u
    using assms(2) by (simp_all add: set_parent_def)
  have fk: "parent_fk t' p db \<Longrightarrow> parent_fk t' p ?db" for t' p
  proof (erule parent_fk_mono)
    fix u assume "u \<in> set (db_org_units db)"
    then show "\<exists>v \<in> set (db_org_units ?db). ou_TenantID v = ou_TenantID u \<and> ou_ID v = ou_ID u"
      by (intro bexI [of _ "if ou_TenantID u = t \<and> ou_ID u = i then f u else u"]) (auto simp: set_sql_update key)
  qed
  have "parent_rel ?db \<subseteq> parent_rel db \<union> (case parent of None \<Rightarrow> {} | Some p \<Rightarrow> {(i, p)})"
    by (auto simp: parent_rel_def set_sql_update key split: if_splits)
  moreover have "acyclic (parent_rel db \<union> (case parent of None \<Rightarrow> {} | Some p \<Rightarrow> {(i, p)}))"
    using assms(1,5) by (cases parent) (simp_all add: org_inv_def acyclic_insert)
  ultimately have "acyclic (parent_rel ?db)" by (rule acyclic_subset [rotated])
  moreover have "map ou_ID (db_org_units ?db) = map ou_ID (db_org_units db)" by (simp add: map_sql_update_frame key)
  moreover have "parent_fk (ou_TenantID u) (ou_ParentID u) ?db" if "u \<in> set (db_org_units ?db)" for u
    using that assms(1,3) fk by (auto simp: set_sql_update key org_inv_def split: if_splits)
  ultimately show ?thesis using dist by (simp add: org_inv_def)
qed

lemma org_inv_delete:
  assumes "org_inv db" and "\<forall>u \<in> set (db_org_units db). \<not> (ou_TenantID u = t \<and> ou_ParentID u = Some i \<and> ou_ID u \<noteq> i)"
  shows "org_inv (db\<lparr>db_org_units := filter (\<lambda>u. \<not> (ou_TenantID u = t \<and> ou_ID u = i)) (db_org_units db)\<rparr>)" (is "org_inv ?db")
proof -
  have "parent_rel ?db \<subseteq> parent_rel db" by (auto simp: parent_rel_def)
  then have "acyclic (parent_rel ?db)" using assms(1) acyclic_subset unfolding org_inv_def by blast
  moreover have "parent_fk (ou_TenantID u) (ou_ParentID u) ?db" if "u \<in> set (db_org_units ?db)" for u
  proof (cases "ou_ParentID u")
    case (Some p)
    with that assms obtain v where "v \<in> set (db_org_units db)" "ou_TenantID v = ou_TenantID u" "ou_ID v = p"
      by (force simp: org_inv_def)
    moreover have "\<not> (ou_TenantID u = t \<and> p = i)" using that assms(2) Some by auto
    ultimately show ?thesis using Some by auto
  qed simp
  ultimately show ?thesis using assms(1) by (auto simp: org_inv_def distinct_map_filter)
qed


lemma org_step_inv:
  assumes "org_step lib db db'" and "org_inv db"
  shows "org_inv db'"
  using assms(1)
proof cases
  case (create env dbnow i inp res)
  show ?thesis
  proof (cases "db' = db")
    case False
    then obtain t a where "create_body lib dbnow i inp db t db = Some (Inr (a, db'))"
      using create by (auto simp: CreateOrgUnit_def split: if_splits elim!: inTx_opt_cases)
    then obtain row where q: "CreateOrgUnit_q lib dbnow i t (oi_Name inp) (oi_ParentID inp) (oi_Level inp)
        (defaultAuthoritiesJSON (oi_AcceptanceAuthorities inp)) db = Inr (row, db')"
      and chain: "\<And>p. oi_ParentID inp = Some p \<Longrightarrow> \<exists>ids. ParentChainIDs t p db = Some ids \<and> ids \<noteq> []"
      by (auto simp: create_body_def bind_eq_Some_conv split: option.splits sum.splits if_splits)
    have fk: "parent_fk t (oi_ParentID inp) db"
    proof (cases "oi_ParentID inp")
      case (Some p)
      with chain have "GetOrgUnitByID t p db \<noteq> None" by (auto simp: ParentChainIDs_def chain_from.simps [of t "Some p"] split: option.splits)
      with Some show ?thesis by (simp add: parent_fk_def del: parent_fk_simps)
    qed simp
    with q assms(2) show ?thesis
      by (auto simp: CreateOrgUnit_q_def Let_def intro!: org_inv_create split: option.splits if_splits)
  qed (use assms(2) in simp)
next
  case (update env dbnow i inp res)
  show ?thesis
  proof (cases "db' = db")
    case False
    then obtain t a where "update_body lib dbnow i inp db t db = Some (Inr (a, db'))"
      using update by (auto simp: UpdateOrgUnit_def split: if_splits elim!: inTx_opt_cases)
    then obtain row where q: "UpdateOrgUnit_q lib dbnow t i (oi_Name inp) (oi_ParentID inp) (oi_Level inp)
        (defaultAuthoritiesJSON (oi_AcceptanceAuthorities inp)) db = Inr (row, db')"
      and chain: "\<And>p. oi_ParentID inp = Some p \<Longrightarrow> \<exists>ids. ParentChainIDs t p db = Some ids \<and> ids \<noteq> [] \<and> i \<notin> set ids"
      by (auto simp: update_body_def bind_eq_Some_conv split: option.splits sum.splits pg_error.splits if_splits)
    have up: "(p, i) \<notin> (parent_rel db)\<^sup>*" if par: "oi_ParentID inp = Some p" for p
    proof -
      obtain ids where "ParentChainIDs t p db = Some ids" "ids \<noteq> []" "i \<notin> set ids" using chain [OF par] by blast
      with chain_ends [OF assms(2), of t p] show ?thesis by (auto simp: ParentChainIDs_def split: if_splits)
    qed
    from q up assms(2) show ?thesis
      by (auto simp: UpdateOrgUnit_q_def sql_update_one_Some_iff GetOrgUnitByID_def [symmetric] set_parent_def
          simp del: parent_fk_simps intro!: org_inv_update split: option.splits if_splits)
  qed (use assms(2) in simp)
next
  case (delete env i res)
  show ?thesis
  proof (cases "db' = db")
    case False
    then obtain t where "DeleteOrgUnit_q t i db = Inr db'" "GetOrgUnitByID t i db \<noteq> None"
      using delete by (auto simp: DeleteOrgUnit_def split: option.splits sum.splits elim!: inTx_cases)
    then show ?thesis
      using org_inv_delete [OF assms(2), of t i] by (auto simp: DeleteOrgUnit_q_def split: if_splits)
  qed (use assms(2) in simp)
next
  case (bind_risks refs)
  have "parent_rel db' = parent_rel db" "parent_fk t p db' = parent_fk t p db" for t p
    by (simp_all add: bind_risks parent_rel_def parent_fk_def GetOrgUnitByID_def cong: option.case_cong del: parent_fk_simps)
  with assms(2) show ?thesis by (simp add: org_inv_def bind_risks)
qed

lemma org_run_inv: "(org_step lib)\<^sup>*\<^sup>* db db' \<Longrightarrow> org_inv db \<Longrightarrow> org_inv db'"
  by (induction rule: rtranclp_induct) (blast intro: org_step_inv)+

lemma chain_returns: "org_inv db \<Longrightarrow> \<exists>ids. ParentChainIDs t i db = Some ids"
  using chain_ends [of db t i] unfolding ParentChainIDs_def by blast

lemma bodies_return:
  assumes "org_inv db"
  shows "create_body lib dbnow i inp db t db \<noteq> None" and "update_body lib dbnow i inp db t db \<noteq> None"
  using chain_returns [OF assms, of t "the (oi_ParentID inp)"]
  by (auto simp: create_body_def update_body_def split: option.splits)


section \<open>Properties\<close>

text \<open>
  C35. Units form a forest and its queries end. Over any sequence of calls that do not overlap, with
  whatever contexts and inputs, identifiers stay unique, every parent is a unit of the same tenant and
  no unit is its own ancestor; so the unbounded recursive query always ends, with each ancestor of the
  unit exactly once, and every create and every update returns.
\<close>

theorem org_units_forest:
  assumes "(org_step lib)\<^sup>*\<^sup>* db db'" and "org_inv db"
  shows "org_inv db'
    \<and> (\<exists>ids. ParentChainIDs t i db' = Some ids \<and> distinct ids \<and> length ids \<le> length (db_org_units db')
         \<and> set ids = (if GetOrgUnitByID t i db' = None then {} else (parent_rel db')\<^sup>* `` {i}))
    \<and> CreateOrgUnit lib env dbnow j inp db' \<noteq> None \<and> UpdateOrgUnit lib env dbnow j inp db' \<noteq> None"
proof -
  have inv: "org_inv db'" by (rule org_run_inv [OF assms])
  obtain ids where ids: "ParentChainIDs t i db' = Some ids"
    "if GetOrgUnitByID t i db' = None then ids = [] else set ids = (parent_rel db')\<^sup>* `` {i} \<and> distinct ids"
    using chain_ends [OF inv, of t i] by (auto simp: ParentChainIDs_def)
  have "x \<in> ou_ID ` set (db_org_units db')" if "(i, x) \<in> (parent_rel db')\<^sup>*" "GetOrgUnitByID t i db' \<noteq> None" for x
    using that(1)
  proof (cases rule: rtranclE)
    case base
    then show ?thesis using that(2) by (auto simp: GetOrgUnitByID_def dest: find_SomeD)
  next
    case (step y)
    then show ?thesis using inv by (force simp: parent_rel_def org_inv_def)
  qed
  then have "set ids \<subseteq> set (map ou_ID (db_org_units db'))" using ids(2) by (auto split: if_splits)
  moreover have "distinct ids" using ids(2) by (auto split: if_splits)
  ultimately have "length ids \<le> length (db_org_units db')"
    by (metis card_mono distinct_card card_length finite_set length_map le_trans)
  moreover have "CreateOrgUnit lib env dbnow j inp db' \<noteq> None" "UpdateOrgUnit lib env dbnow j inp db' \<noteq> None"
    using inTx_opt_returns [where fn = "create_body lib dbnow j inp db'" and s = db' and env = env]
      inTx_opt_returns [where fn = "update_body lib dbnow j inp db'" and s = db' and env = env] bodies_return [OF inv]
    by (auto simp: CreateOrgUnit_def UpdateOrgUnit_def)
  ultimately show ?thesis using inv ids \<open>distinct ids\<close> by (auto split: if_splits)
qed


definition demo_org_lib :: org_lib where
  "demo_org_lib = \<lparr>ol_jsonb = Some, ol_is_array = (\<lambda>b. b \<noteq> ''{}'')\<rparr>"

definition demo_unit :: "uuid \<Rightarrow> uuid option \<Rightarrow> org_unit_row" where
  "demo_unit i parent =
     \<lparr>ou_ID = i, ou_TenantID = 1, ou_Name = ''u'', ou_ParentID = parent, ou_Level = ''team'', ou_AcceptanceAuthorities = ''[]'',
      ou_CreatedAt = 0, ou_UpdatedAt = 0\<rparr>"

lemma demo_unit_simps [simp]:
  "ou_ID (demo_unit i parent) = i" "ou_TenantID (demo_unit i parent) = 1" "ou_ParentID (demo_unit i parent) = parent"
  by (simp_all add: demo_unit_def)

definition demo_org_db :: org_db where
  "demo_org_db = \<lparr>db_dimensions = [], db_cells = [], db_controls = [], db_evidence = [], db_evaluations = [],
      db_org_units = [demo_unit 10 None, demo_unit 11 None, demo_unit 12 (Some 11)], db_risk_rows = []\<rparr>"

definition demo_input :: "uuid \<Rightarrow> OrgUnitInput" where
  "demo_input parent = \<lparr>oi_Name = ''u'', oi_ParentID = Some parent, oi_Level = ''org'', oi_AcceptanceAuthorities = []\<rparr>"

lemma demo_org_inv: "org_inv demo_org_db" "parent_rel demo_org_db = {(12, 11)}"
proof -
  show rel: "parent_rel demo_org_db = {(12, 11)}" by (force simp: parent_rel_def demo_org_db_def)
  show "org_inv demo_org_db"
    by (simp add: org_inv_def rel acyclic_insert) (simp add: demo_org_db_def acyclic_def)
qed

theorem org_units_forest_witness:
  "\<exists>ids. ParentChainIDs 1 12 demo_org_db = Some ids \<and> {12, 11} \<subseteq> set ids \<and> distinct ids"
proof -
  have "GetOrgUnitByID 1 12 demo_org_db \<noteq> None" by (simp add: GetOrgUnitByID_def demo_org_db_def)
  with org_units_forest [OF rtranclp.rtrancl_refl demo_org_inv(1), where t = 1 and i = 12 and lib = demo_org_lib and env = demo_env
      and dbnow = 0 and j = 0 and inp = "demo_input 11"] demo_org_inv(2)
  show ?thesis by auto
qed

lemma Get_after_update:
  assumes "\<And>u. ou_ID (f u) = ou_ID u" and "\<And>u. ou_TenantID (f u) = ou_TenantID u"
  shows "GetOrgUnitByID t i (db\<lparr>db_org_units := sql_update (\<lambda>u. ou_TenantID u = t \<and> ou_ID u = a) f (db_org_units db)\<rparr>) =
    map_option (\<lambda>u. if i = a then f u else u) (GetOrgUnitByID t i db)"
proof -
  have "GetOrgUnitByID t i (db\<lparr>db_org_units := sql_update (\<lambda>u. ou_TenantID u = t \<and> ou_ID u = a) f (db_org_units db)\<rparr>) =
      map_option (\<lambda>u. if ou_TenantID u = t \<and> ou_ID u = a then f u else u) (GetOrgUnitByID t i db)"
    by (simp add: GetOrgUnitByID_def sql_update_def find_map_key assms)
  also have "\<dots> = map_option (\<lambda>u. if i = a then f u else u) (GetOrgUnitByID t i db)"
    by (cases "GetOrgUnitByID t i db") (auto dest: GetOrgUnitByID_SomeD)
  finally show ?thesis .
qed

text \<open>One move, with the chain query and the write on databases of their own.\<close>

lemma move_unit:
  assumes "org_inv seen" and "oi_ParentID inp = Some p" and "p \<noteq> i" and "GetOrgUnitByID t p seen \<noteq> None"
    and "oi_Level inp \<in> risk_levels" and "ol_jsonb lib (defaultAuthoritiesJSON (oi_AcceptanceAuthorities inp)) = Some x" "ol_is_array lib x"
    and "GetOrgUnitByID t i db \<noteq> None" and "GetOrgUnitByID t p db \<noteq> None"
  shows "(p, i) \<in> (parent_rel seen)\<^sup>* \<Longrightarrow> update_body lib now i inp seen t db = Some (Inl ErrCycleDetected)"
    and "(p, i) \<notin> (parent_rel seen)\<^sup>* \<Longrightarrow> \<exists>u. update_body lib now i inp seen t db =
      Some (Inr (u, db\<lparr>db_org_units := sql_update (\<lambda>u. ou_TenantID u = t \<and> ou_ID u = i)
        (\<lambda>u. u\<lparr>ou_Name := oi_Name inp, ou_ParentID := Some p, ou_Level := oi_Level inp, ou_AcceptanceAuthorities := x,
               ou_UpdatedAt := pgTime now\<rparr>) (db_org_units db)\<rparr>))"
proof -
  obtain ids where ids: "ParentChainIDs t p seen = Some ids" "set ids = (parent_rel seen)\<^sup>* `` {p}"
    using chain_ends [OF assms(1), of t p] assms(4) by (auto simp: ParentChainIDs_def)
  then have ne: "ids \<noteq> []" by (metis Image_singleton_iff empty_iff empty_set rtrancl.rtrancl_refl)
  obtain u where u: "List.find (\<lambda>u. ou_TenantID u = t \<and> ou_ID u = i) (db_org_units db) = Some u"
    using assms(8) by (auto simp: GetOrgUnitByID_def)
  have fk: "parent_fk t (Some p) db" using assms(9) by (simp add: parent_fk_def del: parent_fk_simps)
  show "(p, i) \<in> (parent_rel seen)\<^sup>* \<Longrightarrow> update_body lib now i inp seen t db = Some (Inl ErrCycleDetected)"
    using ids ne assms(2,3) by (simp add: update_body_def)
  show "(p, i) \<notin> (parent_rel seen)\<^sup>* \<Longrightarrow> \<exists>u. update_body lib now i inp seen t db =
      Some (Inr (u, db\<lparr>db_org_units := sql_update (\<lambda>u. ou_TenantID u = t \<and> ou_ID u = i)
        (\<lambda>u. u\<lparr>ou_Name := oi_Name inp, ou_ParentID := Some p, ou_Level := oi_Level inp, ou_AcceptanceAuthorities := x,
               ou_UpdatedAt := pgTime now\<rparr>) (db_org_units db)\<rparr>))"
    using ids ne assms(2,3,5-7) u fk by (simp add: update_body_def UpdateOrgUnit_q_def sql_update_one_def del: parent_fk_simps)
qed

text \<open>
  C3. Overlapping moves break the tree. Take two units of a tenant, neither an ancestor of the other, and
  two updates that put each under the other. One after the other, the second is refused as a cycle. When
  both run their chain query before either has committed, both succeed: each unit is then the parent of
  the other, the chain query of either never ends, and from then on every create and every update that
  names one of them as parent never returns.
\<close>

theorem overlapping_moves_cycle:
  assumes "org_inv db" and "GetOrgUnitByID t a db \<noteq> None" and "GetOrgUnitByID t b db \<noteq> None" and "a \<noteq> b"
    and "(a, b) \<notin> (parent_rel db)\<^sup>+" and "(b, a) \<notin> (parent_rel db)\<^sup>+"
    and "oi_ParentID inp1 = Some b" and "oi_ParentID inp2 = Some a"
    and "\<forall>inp \<in> {inp1, inp2}. isValidLevel (oi_Level inp)
          \<and> (\<exists>x. ol_jsonb lib (defaultAuthoritiesJSON (oi_AcceptanceAuthorities inp)) = Some x \<and> ol_is_array lib x)"
  shows "\<exists>u1 db1 u2 db2. update_body lib now1 a inp1 db t db = Some (Inr (u1, db1))
    \<and> update_body lib now2 b inp2 db1 t db1 = Some (Inl ErrCycleDetected)
    \<and> update_body lib now2 b inp2 db t db1 = Some (Inr (u2, db2))
    \<and> ParentChainIDs t a db2 = None \<and> ParentChainIDs t b db2 = None
    \<and> (\<forall>env inp i p now. tx_ok env \<and> tenant_of env = Some t \<and> isValidLevel (oi_Level inp) \<and> oi_ParentID inp = Some p
         \<and> p \<in> {a, b} \<and> i \<noteq> p \<longrightarrow>
         CreateOrgUnit lib env now i inp db2 = None \<and> UpdateOrgUnit lib env now i inp db2 = None)"
proof -
  have level: "oi_Level inp1 \<in> risk_levels" "oi_Level inp2 \<in> risk_levels"
    using assms(9) by (auto simp: isValidLevel_def risk_levels_def)
  obtain x1 x2 where auth: "ol_jsonb lib (defaultAuthoritiesJSON (oi_AcceptanceAuthorities inp1)) = Some x1" "ol_is_array lib x1"
    "ol_jsonb lib (defaultAuthoritiesJSON (oi_AcceptanceAuthorities inp2)) = Some x2" "ol_is_array lib x2"
    using assms(9) by blast
  let ?f1 = "\<lambda>u. u\<lparr>ou_Name := oi_Name inp1, ou_ParentID := Some b, ou_Level := oi_Level inp1, ou_AcceptanceAuthorities := x1,
     ou_UpdatedAt := pgTime now1\<rparr>"
  let ?f2 = "\<lambda>u. u\<lparr>ou_Name := oi_Name inp2, ou_ParentID := Some a, ou_Level := oi_Level inp2, ou_AcceptanceAuthorities := x2,
     ou_UpdatedAt := pgTime now2\<rparr>"
  let ?db1 = "db\<lparr>db_org_units := sql_update (\<lambda>u. ou_TenantID u = t \<and> ou_ID u = a) ?f1 (db_org_units db)\<rparr>"
  let ?db2 = "?db1\<lparr>db_org_units := sql_update (\<lambda>u. ou_TenantID u = t \<and> ou_ID u = b) ?f2 (db_org_units ?db1)\<rparr>"
  have ab: "(a, b) \<notin> (parent_rel db)\<^sup>*" "(b, a) \<notin> (parent_rel db)\<^sup>*"
    using assms(4-6) by (auto simp: rtrancl_eq_or_trancl)
  have get1: "GetOrgUnitByID t i ?db1 = map_option (\<lambda>u. if i = a then ?f1 u else u) (GetOrgUnitByID t i db)" for i
    by (rule Get_after_update) simp_all
  have get2: "GetOrgUnitByID t i ?db2 = map_option (\<lambda>u. if i = b then ?f2 u else u) (GetOrgUnitByID t i ?db1)" for i
    by (rule Get_after_update) simp_all
  obtain u1 where m1: "update_body lib now1 a inp1 db t db = Some (Inr (u1, ?db1))"
    using move_unit(2) [OF assms(1,7) assms(4) [symmetric] assms(3) level(1) auth(1,2) assms(2,3) ab(2)] by blast
  have in1: "GetOrgUnitByID t b ?db1 \<noteq> None" "GetOrgUnitByID t a ?db1 \<noteq> None" using assms(2,3) get1 by auto
  obtain u2 where m2: "update_body lib now2 b inp2 db t ?db1 = Some (Inr (u2, ?db2))"
    using move_unit(2) [OF assms(1,8) assms(4) assms(2) level(2) auth(3,4) in1 ab(1)] by blast
  have inv1: "org_inv ?db1"
    by (rule org_inv_update [OF assms(1), where parent = "Some b"])
      (use assms(2,3) ab(2) in \<open>simp_all add: set_parent_def parent_fk_def del: parent_fk_simps\<close>)
  obtain ua where ua: "ua \<in> set (db_org_units db)" "ou_TenantID ua = t" "ou_ID ua = a"
    using assms(2) by (auto dest: GetOrgUnitByID_SomeD)
  then have "(a, b) \<in> parent_rel ?db1"
    unfolding parent_rel_def by (intro CollectI exI [of _ "?f1 ua"] exI [of _ b]) (auto simp: set_sql_update)
  then have serial: "update_body lib now2 b inp2 ?db1 t ?db1 = Some (Inl ErrCycleDetected)"
    using move_unit(1) [OF inv1 assms(8,4) in1(2) level(2) auth(3,4) in1] by blast
  obtain ya yb where y: "GetOrgUnitByID t a db = Some ya" "GetOrgUnitByID t b db = Some yb" using assms(2,3) by auto
  have "GetOrgUnitByID t a ?db2 = Some (?f1 ya)" "GetOrgUnitByID t b ?db2 = Some (?f2 yb)"
    unfolding get2 get1 using y assms(4) by simp_all
  then have "cyclic_units t ?db2 {a, b}" by (simp add: cyclic_units_def)
  then have none: "ParentChainIDs t p ?db2 = None" if "p \<in> {a, b}" for p using that by (rule chain_diverges)
  have "CreateOrgUnit lib env now i inp ?db2 = None \<and> UpdateOrgUnit lib env now i inp ?db2 = None"
    if "tx_ok env" "tenant_of env = Some t" "isValidLevel (oi_Level inp)" "oi_ParentID inp = Some p" "p \<in> {a, b}" "i \<noteq> p"
    for env inp i p now
    using that none [OF that(5)]
    by (simp add: CreateOrgUnit_def UpdateOrgUnit_def inTx_opt_run create_body_def update_body_def)
  then have stuck: "\<forall>env inp i p now. tx_ok env \<and> tenant_of env = Some t \<and> isValidLevel (oi_Level inp) \<and> oi_ParentID inp = Some p
         \<and> p \<in> {a, b} \<and> i \<noteq> p \<longrightarrow>
         CreateOrgUnit lib env now i inp ?db2 = None \<and> UpdateOrgUnit lib env now i inp ?db2 = None"
    by blast
  show ?thesis
    by (rule exI [of _ u1], rule exI [of _ ?db1], rule exI [of _ u2], rule exI [of _ ?db2],
        rule conjI [OF m1 conjI [OF serial conjI [OF m2 conjI [OF none conjI [OF none stuck]]]]]) simp_all
qed


theorem overlapping_moves_cycle_witness:
  "\<exists>u1 db1 u2 db2. update_body demo_org_lib 5 10 (demo_input 11) demo_org_db 1 demo_org_db = Some (Inr (u1, db1))
     \<and> update_body demo_org_lib 6 11 (demo_input 10) demo_org_db 1 db1 = Some (Inr (u2, db2))
     \<and> ParentChainIDs 1 10 db2 = None \<and> UpdateOrgUnit demo_org_lib demo_env 7 12 (demo_input 10) db2 = None"
proof -
  have units: "GetOrgUnitByID 1 10 demo_org_db \<noteq> None" "GetOrgUnitByID 1 11 demo_org_db \<noteq> None"
    by (simp_all add: GetOrgUnitByID_def demo_org_db_def)
  have from12: "x = 12" if "(x, y) \<in> {(12, 11 :: uuid)}\<^sup>+" for x y :: uuid using that by (induction rule: trancl_induct) auto
  then have apart: "(10, 11) \<notin> (parent_rel demo_org_db)\<^sup>+" "(11, 10) \<notin> (parent_rel demo_org_db)\<^sup>+"
    by (auto simp: demo_org_inv(2) dest!: from12)
  have inputs: "\<forall>inp \<in> {demo_input 11, demo_input 10}. isValidLevel (oi_Level inp)
      \<and> (\<exists>x. ol_jsonb demo_org_lib (defaultAuthoritiesJSON (oi_AcceptanceAuthorities inp)) = Some x \<and> ol_is_array demo_org_lib x)"
    by (simp add: demo_input_def isValidLevel_def demo_org_lib_def defaultAuthoritiesJSON_def)
  have par: "oi_ParentID (demo_input p) = Some p" "isValidLevel (oi_Level (demo_input p))" for p
    by (simp_all add: demo_input_def isValidLevel_def)
  from overlapping_moves_cycle [OF demo_org_inv(1) units _ apart par(1) par(1) inputs, of 5 6] obtain u1 db1 u2 db2 where
    out: "update_body demo_org_lib 5 10 (demo_input 11) demo_org_db 1 demo_org_db = Some (Inr (u1, db1))"
    "update_body demo_org_lib 6 11 (demo_input 10) demo_org_db 1 db1 = Some (Inr (u2, db2))" "ParentChainIDs 1 10 db2 = None"
    and stuck: "\<And>env inp i p now. tx_ok env \<and> tenant_of env = Some 1 \<and> isValidLevel (oi_Level inp) \<and> oi_ParentID inp = Some p
         \<and> p \<in> {10, 11} \<and> i \<noteq> p \<Longrightarrow> UpdateOrgUnit demo_org_lib env now i inp db2 = None"
    by auto
  from stuck [of demo_env "demo_input 10" 10 12] have "UpdateOrgUnit demo_org_lib demo_env 7 12 (demo_input 10) db2 = None"
    using par by simp
  with out show ?thesis by blast
qed

text \<open>
  Deleting a unit. The comment of \<open>DeleteOrgUnit\<close> says that bound risks survive with their
  reference cleared; a unit that is the parent of another or that a risk is bound to cannot be deleted
  at all, because clearing the reference would clear the tenant too.
\<close>

theorem DeleteOrgUnit_exact:
  assumes "tx_ok env" and "tenant_of env = Some t"
  shows "DeleteOrgUnit env i db =
    (if GetOrgUnitByID t i db = None then (Inl (Dom OuErrNotFound), db)
     else if (\<exists>u \<in> set (db_org_units db). ou_TenantID u = t \<and> ou_ParentID u = Some i \<and> ou_ID u \<noteq> i)
             \<or> (\<exists>r \<in> set (db_risk_rows db). rk_TenantID r = t \<and> rk_OrgUnitID r = Some i)
     then (Inl (Dom (OuDatabase NotNullViolation)), db)
     else (Inr (), db\<lparr>db_org_units := filter (\<lambda>u. \<not> (ou_TenantID u = t \<and> ou_ID u = i)) (db_org_units db)\<rparr>))"
  using assms by (auto simp: DeleteOrgUnit_def DeleteOrgUnit_q_def inTx_run split: option.splits)

theorem DeleteOrgUnit_exact_witness:
  "DeleteOrgUnit demo_env 11 demo_org_db = (Inl (Dom (OuDatabase NotNullViolation)), demo_org_db)"
proof -
  have "GetOrgUnitByID 1 11 demo_org_db \<noteq> None" "12 \<in> ou_ID ` set (db_org_units demo_org_db)"
    by (simp_all add: GetOrgUnitByID_def demo_org_db_def)
  with DeleteOrgUnit_exact [OF demo_env_simps(2,1), of 11 demo_org_db] show ?thesis by (simp add: demo_org_db_def)
qed

end
