(* ===== verification/Risk_Register.thy ===== *)
theory Risk_Register
  imports Org_Unit
begin

text \<open>
  \<open>internal/risk/store.go\<close>, \<open>theme.go\<close>, \<open>hierarchy.go\<close> and \<open>aggregate.go\<close>: the risk register with
  its control links, themes, heat maps and manual aggregations, over the queries of
  \<open>internal/db/dbx/risks.sql.go\<close>, \<open>risk_aggregations.sql.go\<close>, \<open>risk_hierarchy.sql.go\<close> and
  \<open>org_themes.sql.go\<close> and the constraints of the migrations \<open>20260511000005\<close>,
  \<open>20260511000014\<close> and \<open>20260511000029\<close>. The last section has the two appliers of
  \<open>internal/mcp/writeproposals/appliers.go\<close> that write risks when a proposal is confirmed.

  A \<open>jsonb\<close> column keeps the last member of each name, ordered by the length of the name and then
  its bytes, and every number with the digits it was written with. A cast of a number to \<open>int\<close> goes
  through its text: it fails for a number that was written with decimals, and with it the query.
\<close>

record risk_link =
  rlk_RiskID :: uuid
  rlk_ControlID :: uuid
  rlk_TenantID :: uuid
  rlk_CreatedAt :: gotime
  rlk_DesignScore :: pg_numeric
  rlk_WeightDesign :: pg_numeric
  rlk_WeightOperation :: pg_numeric
  rlk_WeightCoverage :: pg_numeric

record risk_aggregation =
  ra_ParentRiskID :: uuid
  ra_ChildRiskID :: uuid
  ra_RuleID :: "uuid option"
  ra_TenantID :: uuid
  ra_CreatedAt :: gotime

record org_theme =
  ot_ID :: uuid
  ot_TenantID :: "uuid option"
  ot_ThemeName :: string
  ot_Description :: string

record risk_db = org_db +
  db_risk_links :: "risk_link list"
  db_risk_aggregations :: "risk_aggregation list"
  db_org_themes :: "org_theme list"

fun jsonb :: "rjson \<Rightarrow> rjson" where
  "jsonb (RArr vs) = RArr (map jsonb vs)"
| "jsonb (RObj ms) =
     RObj (sort_key (\<lambda>m. (length (fst m), fst m)) (rev (sql_distinct_on fst (rev (map (\<lambda>(k, v). (k, jsonb v)) ms)))))"
| "jsonb j = j"

definition jsonb_in :: "score_lib \<Rightarrow> rjson option \<Rightarrow> rjson option" where
  "jsonb_in lib j = (case j of None \<Rightarrow> None | Some x \<Rightarrow> if sl_jsonb_ok lib x then Some (jsonb x) else None)"


section \<open>Queries\<close>

definition risk_categories :: "string set" where
  "risk_categories = {''confidentiality'', ''integrity'', ''availability'', ''privacy'', ''regulatory'', ''operational'', ''financial''}"

definition risk_methodologies :: "string set" where
  "risk_methodologies = {RiskMethodologyNist80030, RiskMethodologyFair, RiskMethodologyCisRam, RiskMethodologyIso27005,
     RiskMethodologyQualitative5x5}"

definition risk_treatments :: "string set" where
  "risk_treatments = {RiskTreatmentAccept, RiskTreatmentMitigate, RiskTreatmentTransfer, RiskTreatmentAvoid}"

definition risks_check :: "risk_row \<Rightarrow> bool" where
  "risks_check r \<longleftrightarrow>
     (rk_Treatment r \<noteq> RiskTreatmentAccept \<or> rk_AcceptedUntil r \<noteq> None \<and> rk_Accepter r \<noteq> [])
     \<and> (rk_Treatment r \<noteq> RiskTreatmentTransfer \<or> rk_InstrumentReference r \<noteq> [])"

definition insert_risk :: "risk_row \<Rightarrow> 'z org_db_scheme \<Rightarrow> pg_error + risk_row \<times> 'z org_db_scheme" where
  "insert_risk row db =
     (if rk_Category row \<notin> risk_categories \<or> rk_Methodology row \<notin> risk_methodologies \<or> rk_Treatment row \<notin> risk_treatments
         \<or> rk_Level row \<notin> risk_levels
      then Inl InvalidTextRepresentation
      else if \<not> risks_check row then Inl CheckViolation
      else if rk_ID row \<in> rk_ID ` set (db_risk_rows db) then Inl UniqueViolation
      else if \<not> parent_fk (rk_TenantID row) (rk_OrgUnitID row) db then Inl ForeignKeyViolation
      else Inr (row, db\<lparr>db_risk_rows := db_risk_rows db @ [row]\<rparr>))"

text \<open>The column \<open>accepted_until\<close> is a date: it keeps the day of the instant, as its midnight.\<close>

definition pgDatePtr :: "gotime option \<Rightarrow> gotime option" where
  "pgDatePtr t = map_option (\<lambda>x. x - x mod hours 24) t"

definition CreateRisk ::
  "score_lib \<Rightarrow> gotime \<Rightarrow> uuid \<Rightarrow> uuid \<Rightarrow> string \<Rightarrow> string \<Rightarrow> string \<Rightarrow> string \<Rightarrow> rjson option \<Rightarrow> string \<Rightarrow> string \<Rightarrow> rjson option \<Rightarrow>
   gotime option \<Rightarrow> gotime option \<Rightarrow> string \<Rightarrow> string \<Rightarrow> 'z org_db_scheme \<Rightarrow> pg_error + risk_row \<times> 'z org_db_scheme" where
  "CreateRisk lib dbnow i t title description category methodology inherent treatment treatmentOwner residual reviewDueAt
      acceptedUntil accepter instrument db =
     (case (jsonb_in lib inherent, jsonb_in lib residual) of
        (Some inh, Some res) \<Rightarrow>
          insert_risk \<lparr>rk_ID = i, rk_TenantID = t, rk_Title = title, rk_Description = description, rk_Category = category,
            rk_Methodology = methodology, rk_InherentScore = inh, rk_Treatment = treatment, rk_TreatmentOwner = treatmentOwner,
            rk_ResidualScore = res, rk_ReviewDueAt = map_option pgTime reviewDueAt, rk_CreatedAt = pgTime dbnow,
            rk_UpdatedAt = pgTime dbnow, rk_AcceptedUntil = pgDatePtr acceptedUntil, rk_Accepter = accepter,
            rk_InstrumentReference = instrument, rk_Level = ''team'', rk_OrgUnitID = None, rk_Themes = []\<rparr> db
      | _ \<Rightarrow> Inl InvalidTextRepresentation)"

definition CreateAggregateRisk ::
  "score_lib \<Rightarrow> gotime \<Rightarrow> uuid \<Rightarrow> uuid \<Rightarrow> string \<Rightarrow> string \<Rightarrow> string \<Rightarrow> string \<Rightarrow> rjson option \<Rightarrow> string \<Rightarrow> string \<Rightarrow> rjson option \<Rightarrow>
   string \<Rightarrow> string \<Rightarrow> string \<Rightarrow> uuid option \<Rightarrow> string list \<Rightarrow> 'z org_db_scheme \<Rightarrow> pg_error + risk_row \<times> 'z org_db_scheme" where
  "CreateAggregateRisk lib dbnow i t title description category methodology inherent treatment treatmentOwner residual
      accepter instrument level orgUnit themes db =
     (case (jsonb_in lib inherent, jsonb_in lib residual) of
        (Some inh, Some res) \<Rightarrow>
          insert_risk \<lparr>rk_ID = i, rk_TenantID = t, rk_Title = title, rk_Description = description, rk_Category = category,
            rk_Methodology = methodology, rk_InherentScore = inh, rk_Treatment = treatment, rk_TreatmentOwner = treatmentOwner,
            rk_ResidualScore = res, rk_ReviewDueAt = None, rk_CreatedAt = pgTime dbnow,
            rk_UpdatedAt = pgTime dbnow, rk_AcceptedUntil = None, rk_Accepter = accepter,
            rk_InstrumentReference = instrument, rk_Level = level, rk_OrgUnitID = orgUnit, rk_Themes = themes\<rparr> db
      | _ \<Rightarrow> Inl InvalidTextRepresentation)"

definition GetRiskByID :: "uuid \<Rightarrow> uuid \<Rightarrow> 'z org_db_scheme \<Rightarrow> risk_row option" where
  "GetRiskByID t i db = List.find (\<lambda>r. rk_TenantID r = t \<and> rk_ID r = i) (db_risk_rows db)"

text \<open>\<open>j->>'key'\<close> of a tree, for the texts that the queries compare.\<close>

definition json_text :: "rjson \<Rightarrow> string \<Rightarrow> string option" where
  "json_text j key = (case j of RObj ms \<Rightarrow> strField (members ms) key | _ \<Rightarrow> None)"

definition GetRiskByAggregationKey :: "uuid \<Rightarrow> string \<Rightarrow> 'z org_db_scheme \<Rightarrow> risk_row option" where
  "GetRiskByAggregationKey t key db =
     List.find (\<lambda>r. rk_TenantID r = t \<and> json_text (rk_InherentScore r) ''aggregation_key'' = Some key) (db_risk_rows db)"

text \<open>\<open>ORDER BY created_at DESC, id ASC\<close>.\<close>

definition ListRisks :: "uuid \<Rightarrow> 'z org_db_scheme \<Rightarrow> risk_row list" where
  "ListRisks t db = sort_key (\<lambda>r. (- rk_CreatedAt r, rk_ID r)) (filter (\<lambda>r. rk_TenantID r = t) (db_risk_rows db))"

definition ListRisksByIDs :: "uuid \<Rightarrow> uuid list \<Rightarrow> 'z org_db_scheme \<Rightarrow> risk_row list" where
  "ListRisksByIDs t ids db = sort_key rk_ID (filter (\<lambda>r. rk_TenantID r = t \<and> rk_ID r \<in> set ids) (db_risk_rows db))"

definition UpdateRiskThemes ::
  "gotime \<Rightarrow> uuid \<Rightarrow> uuid \<Rightarrow> string list \<Rightarrow> 'z org_db_scheme \<Rightarrow> pg_error + risk_row \<times> 'z org_db_scheme" where
  "UpdateRiskThemes dbnow t i themes db =
     (case sql_update_one (\<lambda>r. rk_TenantID r = t \<and> rk_ID r = i) (\<lambda>r. r\<lparr>rk_Themes := themes, rk_UpdatedAt := pgTime dbnow\<rparr>)
             (db_risk_rows db) of
        None \<Rightarrow> Inl NoRows
      | Some (row, rows) \<Rightarrow> Inr (row, db\<lparr>db_risk_rows := rows\<rparr>))"

definition UpdateRiskResidual ::
  "score_lib \<Rightarrow> gotime \<Rightarrow> uuid \<Rightarrow> uuid \<Rightarrow> rjson \<Rightarrow> 'z org_db_scheme \<Rightarrow> pg_error + risk_row \<times> 'z org_db_scheme" where
  "UpdateRiskResidual lib dbnow t i residual db =
     (case jsonb_in lib (Some residual) of
        None \<Rightarrow> Inl InvalidTextRepresentation
      | Some res \<Rightarrow>
        (case sql_update_one (\<lambda>r. rk_TenantID r = t \<and> rk_ID r = i) (\<lambda>r. r\<lparr>rk_ResidualScore := res, rk_UpdatedAt := pgTime dbnow\<rparr>)
                (db_risk_rows db) of
           None \<Rightarrow> Inl NoRows
         | Some (row, rows) \<Rightarrow> Inr (row, db\<lparr>db_risk_rows := rows\<rparr>)))"

text \<open>Deleting a risk deletes its control links and its aggregations on both sides.\<close>

definition DeleteRisk :: "uuid \<Rightarrow> uuid \<Rightarrow> 'z risk_db_scheme \<Rightarrow> 'z risk_db_scheme" where
  "DeleteRisk t i db =
     db\<lparr>db_risk_rows := filter (\<lambda>r. \<not> (rk_TenantID r = t \<and> rk_ID r = i)) (db_risk_rows db),
        db_risk_links := filter (\<lambda>l. \<not> (rlk_TenantID l = t \<and> rlk_RiskID l = i)) (db_risk_links db),
        db_risk_aggregations :=
          filter (\<lambda>a. \<not> (ra_TenantID a = t \<and> (ra_ParentRiskID a = i \<or> ra_ChildRiskID a = i))) (db_risk_aggregations db)\<rparr>"

definition link_exists :: "uuid \<Rightarrow> uuid \<Rightarrow> uuid \<Rightarrow> 'z risk_db_scheme \<Rightarrow> bool" where
  "link_exists t risk control db \<longleftrightarrow>
     (\<exists>l \<in> set (db_risk_links db). rlk_TenantID l = t \<and> rlk_RiskID l = risk \<and> rlk_ControlID l = control)"

definition link_fks :: "uuid \<Rightarrow> uuid \<Rightarrow> uuid \<Rightarrow> 'z risk_db_scheme \<Rightarrow> bool" where
  "link_fks t risk control db \<longleftrightarrow> GetRiskByID t risk db \<noteq> None \<and> GetControlByID t control db \<noteq> None"

definition LinkRiskControl :: "gotime \<Rightarrow> uuid \<Rightarrow> uuid \<Rightarrow> uuid \<Rightarrow> 'z risk_db_scheme \<Rightarrow> pg_error + 'z risk_db_scheme" where
  "LinkRiskControl dbnow risk control t db =
     (if link_exists t risk control db then Inr db
      else if \<not> link_fks t risk control db then Inl ForeignKeyViolation
      else Inr (db\<lparr>db_risk_links := db_risk_links db @
                 [\<lparr>rlk_RiskID = risk, rlk_ControlID = control, rlk_TenantID = t, rlk_CreatedAt = pgTime dbnow,
                   rlk_DesignScore = Thousandths 500, rlk_WeightDesign = Thousandths 300,
                   rlk_WeightOperation = Thousandths 500, rlk_WeightCoverage = Thousandths 200\<rparr>]\<rparr>))"

definition weight_check :: "pg_numeric \<Rightarrow> bool" where
  "weight_check n \<longleftrightarrow> (case n of Thousandths k \<Rightarrow> 0 \<le> k \<and> k \<le> 1000 | NumNaN \<Rightarrow> False)"

definition LinkRiskControlWithWeights ::
  "gotime \<Rightarrow> uuid \<Rightarrow> uuid \<Rightarrow> uuid \<Rightarrow> pg_numeric \<Rightarrow> pg_numeric \<Rightarrow> pg_numeric \<Rightarrow> pg_numeric \<Rightarrow> 'z risk_db_scheme \<Rightarrow>
   pg_error + 'z risk_db_scheme" where
  "LinkRiskControlWithWeights dbnow risk control t design wDesign wOper wCover db =
     (if \<not> list_all weight_check [design, wDesign, wOper, wCover] then Inl CheckViolation
      else if link_exists t risk control db then
        Inr (db\<lparr>db_risk_links := sql_update (\<lambda>l. rlk_TenantID l = t \<and> rlk_RiskID l = risk \<and> rlk_ControlID l = control)
               (\<lambda>l. l\<lparr>rlk_DesignScore := design, rlk_WeightDesign := wDesign, rlk_WeightOperation := wOper,
                      rlk_WeightCoverage := wCover\<rparr>) (db_risk_links db)\<rparr>)
      else if \<not> link_fks t risk control db then Inl ForeignKeyViolation
      else Inr (db\<lparr>db_risk_links := db_risk_links db @
                 [\<lparr>rlk_RiskID = risk, rlk_ControlID = control, rlk_TenantID = t, rlk_CreatedAt = pgTime dbnow,
                   rlk_DesignScore = design, rlk_WeightDesign = wDesign, rlk_WeightOperation = wOper, rlk_WeightCoverage = wCover\<rparr>]\<rparr>))"

definition ListRiskControlLinkWeights :: "uuid \<Rightarrow> uuid \<Rightarrow> 'z risk_db_scheme \<Rightarrow> risk_link list" where
  "ListRiskControlLinkWeights t risk db =
     sort_key (\<lambda>l. (rlk_CreatedAt l, rlk_ControlID l)) (filter (\<lambda>l. rlk_TenantID l = t \<and> rlk_RiskID l = risk) (db_risk_links db))"

definition ListRiskControlLinks :: "uuid \<Rightarrow> uuid \<Rightarrow> 'z risk_db_scheme \<Rightarrow> uuid list" where
  "ListRiskControlLinks t risk db =
     map rlk_ControlID (sort_key (\<lambda>l. (rlk_CreatedAt l, rlk_ControlID l))
       (filter (\<lambda>l. rlk_TenantID l = t \<and> rlk_RiskID l = risk) (db_risk_links db)))"

definition ListRiskIDsLinkedToControl :: "uuid \<Rightarrow> uuid \<Rightarrow> 'z risk_db_scheme \<Rightarrow> uuid list" where
  "ListRiskIDsLinkedToControl t control db =
     sort (map rlk_RiskID (filter (\<lambda>l. rlk_TenantID l = t \<and> rlk_ControlID l = control) (db_risk_links db)))"

definition LinkRiskAggregation ::
  "gotime \<Rightarrow> uuid \<Rightarrow> uuid \<Rightarrow> uuid option \<Rightarrow> uuid \<Rightarrow> 'z risk_db_scheme \<Rightarrow> pg_error + 'z risk_db_scheme" where
  "LinkRiskAggregation dbnow parent child rule t db =
     (if parent = child then Inl CheckViolation
      else if \<exists>a \<in> set (db_risk_aggregations db). ra_ParentRiskID a = parent \<and> ra_ChildRiskID a = child then Inr db
      else if GetRiskByID t parent db = None \<or> GetRiskByID t child db = None then Inl ForeignKeyViolation
      else Inr (db\<lparr>db_risk_aggregations := db_risk_aggregations db @
                 [\<lparr>ra_ParentRiskID = parent, ra_ChildRiskID = child, ra_RuleID = rule, ra_TenantID = t,
                   ra_CreatedAt = pgTime dbnow\<rparr>]\<rparr>))"

definition ListRiskAggregationChildren :: "uuid \<Rightarrow> uuid \<Rightarrow> 'z risk_db_scheme \<Rightarrow> risk_aggregation list" where
  "ListRiskAggregationChildren t parent db =
     sort_key (\<lambda>a. (ra_CreatedAt a, ra_ChildRiskID a))
       (filter (\<lambda>a. ra_TenantID a = t \<and> ra_ParentRiskID a = parent) (db_risk_aggregations db))"

definition ListAllVisibleThemes :: "uuid \<Rightarrow> 'z risk_db_scheme \<Rightarrow> org_theme list" where
  "ListAllVisibleThemes t db =
     sort_key (\<lambda>x. (ot_TenantID x \<noteq> None, ot_ThemeName x))
       (filter (\<lambda>x. ot_TenantID x = None \<or> ot_TenantID x = Some t) (db_org_themes db))"

text \<open>\<open>jsonb_typeof(j->'key') = 'number'\<close>, and \<open>(j->>'key')::int\<close>, which is None when the cast fails.\<close>

definition json_number :: "rjson \<Rightarrow> string \<Rightarrow> (int \<times> nat) option" where
  "json_number j key =
     (case j of RObj ms \<Rightarrow> (case members ms key of Some (RNum m s) \<Rightarrow> Some (m, s) | _ \<Rightarrow> None) | _ \<Rightarrow> None)"

fun int_cast :: "int \<times> nat \<Rightarrow> int option" where
  "int_cast (m, s) = (if s = 0 \<and> - (2 ^ 31) \<le> m \<and> m < 2 ^ 31 then Some m else None)"

definition grid_risks :: "uuid \<Rightarrow> 'z org_db_scheme \<Rightarrow> risk_row list" where
  "grid_risks t db =
     filter (\<lambda>r. rk_TenantID r = t \<and> rk_Methodology r \<in> {RiskMethodologyNist80030, RiskMethodologyQualitative5x5}) (db_risk_rows db)"

definition cell_of :: "risk_row \<Rightarrow> (int \<times> int) option option" where
  "cell_of r =
     (case (json_number (rk_InherentScore r) ''likelihood'', json_number (rk_InherentScore r) ''impact'') of
        (Some l, Some i) \<Rightarrow>
          (case (int_cast l, int_cast i) of
             (Some x, Some y) \<Rightarrow> Some (if 1 \<le> x \<and> x \<le> 5 \<and> 1 \<le> y \<and> y \<le> 5 then Some (x, y) else None)
           | _ \<Rightarrow> None)
      | _ \<Rightarrow> Some None)"

definition HeatmapBuckets :: "uuid \<Rightarrow> 'z org_db_scheme \<Rightarrow> pg_error + (int \<times> int \<times> nat) list" where
  "HeatmapBuckets t db =
     (let rows = grid_risks t db in
      if \<exists>r \<in> set rows. cell_of r = None then Inl InvalidTextRepresentation
      else
        (let cells = List.map_filter (\<lambda>r. Option.bind (cell_of r) id) rows
         in Inr (map (\<lambda>(l, i). (l, i, length (filter (\<lambda>c. c = (l, i)) cells))) (sort (remdups cells)))))"

text \<open>The severity that the hierarchy queries count a risk with; None is a failing cast.\<close>

definition sql_severity :: "rjson \<Rightarrow> int option" where
  "sql_severity j =
     (case json_number j ''severity'' of
        Some n \<Rightarrow> int_cast n
      | None \<Rightarrow>
        (case (json_number j ''likelihood'', json_number j ''impact'') of
           (Some l, Some i) \<Rightarrow>
             (case (int_cast l, int_cast i) of
                (Some x, Some y) \<Rightarrow> if - (2 ^ 31) \<le> x * y \<and> x * y < 2 ^ 31 then Some (x * y) else None
              | _ \<Rightarrow> None)
         | _ \<Rightarrow> Some 0))"

definition RiskCountsByOrgUnit_q :: "uuid \<Rightarrow> 'z org_db_scheme \<Rightarrow> pg_error + (uuid \<times> int \<times> nat) list" where
  "RiskCountsByOrgUnit_q t db =
     (let rows = filter (\<lambda>r. rk_OrgUnitID r \<noteq> None) (grid_risks t db) in
      if \<exists>r \<in> set rows. sql_severity (rk_InherentScore r) = None then Inl InvalidTextRepresentation
      else
        (let keys = map (\<lambda>r. (the (rk_OrgUnitID r), the (sql_severity (rk_InherentScore r)))) rows
         in Inr (map (\<lambda>(u, s). (u, s, length (filter (\<lambda>k. k = (u, s)) keys))) (sort (remdups keys)))))"

definition fair_exposure :: "rjson \<Rightarrow> rat" where
  "fair_exposure j =
     (let num = (\<lambda>k. map_option (\<lambda>(m, s). num_value m s) (json_number j k)) in
      case num ''annualized_loss_exposure'' of
        Some a \<Rightarrow> a
      | None \<Rightarrow>
        (case (num ''loss_event_frequency'', num ''loss_magnitude'') of
           (Some f, Some m) \<Rightarrow> f * m
         | _ \<Rightarrow> (case (num ''lef'', num ''lm'') of (Some f, Some m) \<Rightarrow> f * m | _ \<Rightarrow> 0)))"

definition FairExposureByOrgUnit_q :: "uuid \<Rightarrow> 'z org_db_scheme \<Rightarrow> (uuid \<times> nat \<times> rat) list" where
  "FairExposureByOrgUnit_q t db =
     (let rows = filter (\<lambda>r. rk_TenantID r = t \<and> rk_OrgUnitID r \<noteq> None \<and> rk_Methodology r = RiskMethodologyFair) (db_risk_rows db);
          of_unit = (\<lambda>u. filter (\<lambda>r. rk_OrgUnitID r = Some u) rows)
      in map (\<lambda>u. (u, length (of_unit u), sum_list (map (\<lambda>r. fair_exposure (rk_InherentScore r)) (of_unit u))))
           (sort (remdups (map (\<lambda>r. the (rk_OrgUnitID r)) rows))))"

definition RiskThemeOrgUnitGrid ::
  "uuid \<Rightarrow> 'z risk_db_scheme \<Rightarrow> pg_error + (string \<times> bool \<times> uuid \<times> nat \<times> int) list" where
  "RiskThemeOrgUnitGrid t db =
     (let rows = filter (\<lambda>r. rk_OrgUnitID r \<noteq> None) (grid_risks t db);
          joined = concat (map (\<lambda>r. concat (map (\<lambda>slug.
             map (\<lambda>th. ((ot_TenantID th \<noteq> None, ot_ThemeName th, the (rk_OrgUnitID r)), sql_severity (rk_InherentScore r)))
               (filter (\<lambda>th. ot_ThemeName th = slug \<and> (ot_TenantID th = None \<or> ot_TenantID th = Some t)) (db_org_themes db)))
             (rk_Themes r))) rows)
      in if \<exists>x \<in> set joined. snd x = None then Inl InvalidTextRepresentation
         else Inr (map (\<lambda>(private, nm, u).
                let sevs = map (\<lambda>x. the (snd x)) (filter (\<lambda>x. fst x = (private, nm, u)) joined)
                in (nm, \<not> private, u, length sevs, Max (set sevs)))
              (sort (remdups (map fst joined)))))"


section \<open>The store\<close>

record Risk =
  Rk_ID :: uuid
  Rk_TenantID :: uuid
  Rk_Title :: string
  Rk_Description :: string
  Rk_Category :: string
  Rk_Methodology :: string
  Rk_InherentScore :: rjson
  Rk_Treatment :: string
  Rk_TreatmentOwner :: string
  Rk_ResidualScore :: rjson
  Rk_ReviewDueAt :: "gotime option"
  Rk_CreatedAt :: gotime
  Rk_UpdatedAt :: gotime
  Rk_AcceptedUntil :: "gotime option"
  Rk_Accepter :: string
  Rk_InstrumentReference :: string
  Rk_LinkedControlIDs :: "uuid list"
  Rk_Level :: string
  Rk_OrgUnitID :: "uuid option"
  Rk_Themes :: "string list"

definition riskFromRow :: "risk_row \<Rightarrow> Risk" where
  "riskFromRow r =
     \<lparr>Rk_ID = rk_ID r, Rk_TenantID = rk_TenantID r, Rk_Title = rk_Title r, Rk_Description = rk_Description r,
      Rk_Category = rk_Category r, Rk_Methodology = rk_Methodology r, Rk_InherentScore = rk_InherentScore r,
      Rk_Treatment = rk_Treatment r, Rk_TreatmentOwner = rk_TreatmentOwner r, Rk_ResidualScore = rk_ResidualScore r,
      Rk_ReviewDueAt = rk_ReviewDueAt r, Rk_CreatedAt = rk_CreatedAt r, Rk_UpdatedAt = rk_UpdatedAt r,
      Rk_AcceptedUntil = rk_AcceptedUntil r, Rk_Accepter = rk_Accepter r, Rk_InstrumentReference = rk_InstrumentReference r,
      Rk_LinkedControlIDs = [], Rk_Level = rk_Level r, Rk_OrgUnitID = rk_OrgUnitID r, Rk_Themes = rk_Themes r\<rparr>"

record risk_CreateInput =
  ci_Title :: string
  ci_Description :: string
  ci_Category :: string
  ci_Methodology :: string
  ci_InherentScore :: bytes
  ci_Treatment :: string
  ci_TreatmentOwner :: string
  ci_ResidualScore :: bytes
  ci_ReviewDueAt :: "gotime option"
  ci_AcceptedUntil :: "gotime option"
  ci_Accepter :: string
  ci_InstrumentReference :: string
  ci_LinkedControlIDs :: "uuid list"

text \<open>A text, or the empty object when it is empty.\<close>

definition defaultResidual :: "score_lib \<Rightarrow> bytes \<Rightarrow> rjson option" where
  "defaultResidual lib b = (if b \<noteq> [] then sl_parse lib b else Some (RObj []))"

definition fair_of_bytes :: "score_lib \<Rightarrow> bytes \<Rightarrow> rjson option" where
  "fair_of_bytes lib b =
     (if b = [] then None else (case sl_parse lib b of None \<Rightarrow> None | Some j \<Rightarrow> NormalizeFairScoreJSON lib j))"

text \<open>The scores that \<open>Create\<close> writes: those of the request, or the canonical FAIR scores.\<close>

definition create_scores ::
  "score_lib \<Rightarrow> string \<Rightarrow> bytes \<Rightarrow> bytes \<Rightarrow> risk_error + rjson option \<times> rjson option" where
  "create_scores lib methodology inherent residual =
     (if methodology = RiskMethodologyFair then
        (case fair_of_bytes lib inherent of
           None \<Rightarrow> Inl ErrInherentScoreInvalid
         | Some normalized \<Rightarrow>
           if residual = [] then Inr (Some normalized, Some normalized)
           else (case fair_of_bytes lib residual of
                   None \<Rightarrow> Inl ErrInherentScoreInvalid | Some res \<Rightarrow> Inr (Some normalized, Some res)))
      else Inr (sl_parse lib inherent, defaultResidual lib residual))"

fun link_controls :: "gotime \<Rightarrow> uuid \<Rightarrow> uuid \<Rightarrow> uuid list \<Rightarrow> 'z risk_db_scheme \<Rightarrow> pg_error + 'z risk_db_scheme" where
  "link_controls dbnow risk t [] db = Inr db"
| "link_controls dbnow risk t (c # cs) db =
     (case LinkRiskControl dbnow risk c t db of Inl e \<Rightarrow> Inl e | Inr db' \<Rightarrow> link_controls dbnow risk t cs db')"

definition risk_Create ::
  "score_lib \<Rightarrow> txenv \<Rightarrow> gotime \<Rightarrow> uuid \<Rightarrow> risk_CreateInput \<Rightarrow> 'z risk_db_scheme \<Rightarrow> (risk_error err + Risk) \<times> 'z risk_db_scheme" where
  "risk_Create lib env dbnow newID inp db =
     (let methodology = (if ci_Methodology inp = [] then DefaultMethodology else ci_Methodology inp) in
      case ValidateInherentScore lib methodology (ci_InherentScore inp) of
        Some e \<Rightarrow> (Inl (Dom e), db)
      | None \<Rightarrow>
        (case create_scores lib methodology (ci_InherentScore inp) (ci_ResidualScore inp) of
           Inl e \<Rightarrow> (Inl (Dom e), db)
         | Inr (inherent, residual) \<Rightarrow>
           (case ValidateTreatment \<lparr>ti_Treatment = ci_Treatment inp, ti_AcceptedUntilPresent = (ci_AcceptedUntil inp \<noteq> None),
                    ti_Accepter = ci_Accepter inp, ti_InstrumentReference = ci_InstrumentReference inp,
                    ti_LinkedControlCount = length (ci_LinkedControlIDs inp)\<rparr> of
              Some e \<Rightarrow> (Inl (Dom e), db)
            | None \<Rightarrow>
              inTx env (\<lambda>t db0.
                (case CreateRisk lib dbnow newID t (ci_Title inp) (ci_Description inp) (ci_Category inp) methodology inherent
                        (ci_Treatment inp) (ci_TreatmentOwner inp) residual (ci_ReviewDueAt inp) (ci_AcceptedUntil inp)
                        (ci_Accepter inp) (ci_InstrumentReference inp) db0 of
                   Inl e \<Rightarrow> Inl (RkDatabase e)
                 | Inr (row, db1) \<Rightarrow>
                   (case link_controls dbnow (rk_ID row) t (ci_LinkedControlIDs inp) db1 of
                      Inl e \<Rightarrow> Inl (RkDatabase e)
                    | Inr db2 \<Rightarrow> Inr ((riskFromRow row)\<lparr>Rk_LinkedControlIDs := ci_LinkedControlIDs inp\<rparr>, db2)))) db)))"

definition risk_Get :: "txenv \<Rightarrow> uuid \<Rightarrow> 'z risk_db_scheme \<Rightarrow> (risk_error err + Risk) \<times> 'z risk_db_scheme" where
  "risk_Get env i db =
     inTx env (\<lambda>t db0.
       (case GetRiskByID t i db0 of
          None \<Rightarrow> Inl RkErrNotFound
        | Some row \<Rightarrow> Inr ((riskFromRow row)\<lparr>Rk_LinkedControlIDs := ListRiskControlLinks t i db0\<rparr>, db0))) db"

definition SortDefault :: string where "SortDefault = []"
definition SortResidualAge :: string where "SortResidualAge = ''residual,age''"

definition ParseListSort :: "string \<Rightarrow> string option" where
  "ParseListSort raw = (if raw = SortDefault \<or> raw = SortResidualAge then Some raw else None)"

record risk_ListFilter =
  lf_Treatment :: string
  lf_Category :: string
  lf_Methodology :: string
  lf_Sort :: string
  lf_Theme :: string
  lf_OrgUnitID :: "uuid option"

definition list_matches :: "risk_ListFilter \<Rightarrow> risk_row \<Rightarrow> bool" where
  "list_matches f r \<longleftrightarrow>
     (lf_Treatment f = [] \<or> rk_Treatment r = lf_Treatment f) \<and> (lf_Category f = [] \<or> rk_Category r = lf_Category f)
     \<and> (lf_Methodology f = [] \<or> rk_Methodology r = lf_Methodology f) \<and> (lf_Theme f = [] \<or> lf_Theme f \<in> set (rk_Themes r))
     \<and> (case lf_OrgUnitID f of None \<Rightarrow> True | Some u \<Rightarrow> rk_OrgUnitID r = Some u)"

text \<open>The order of \<open>sort.SliceStable\<close>, as an insertion after every element that is not larger.\<close>

definition ranks_before :: "float64 \<times> Risk \<Rightarrow> float64 \<times> Risk \<Rightarrow> bool" where
  "ranks_before a b \<longleftrightarrow>
     (if fst a \<noteq> fst b then f_less (fst b) (fst a) else Rk_CreatedAt (snd a) < Rk_CreatedAt (snd b))"

fun stable_insert :: "('a \<Rightarrow> 'a \<Rightarrow> bool) \<Rightarrow> 'a \<Rightarrow> 'a list \<Rightarrow> 'a list" where
  "stable_insert lt x [] = [x]"
| "stable_insert lt x (y # ys) = (if lt y x then y # stable_insert lt x ys else x # y # ys)"

definition SliceStable :: "('a \<Rightarrow> 'a \<Rightarrow> bool) \<Rightarrow> 'a list \<Rightarrow> 'a list" where
  "SliceStable lt xs = foldr (stable_insert lt) xs []"

definition sortByResidualThenAge :: "Risk list \<Rightarrow> Risk list" where
  "sortByResidualThenAge risks = map snd (SliceStable ranks_before (map (\<lambda>r. (residualMagnitude (Rk_ResidualScore r), r)) risks))"

definition risk_List ::
  "txenv \<Rightarrow> risk_ListFilter \<Rightarrow> 'z risk_db_scheme \<Rightarrow> (risk_error err + Risk list) \<times> 'z risk_db_scheme" where
  "risk_List env f db =
     inTx env (\<lambda>t db0.
       (let out = map riskFromRow (filter (list_matches f) (ListRisks t db0))
        in Inr (if lf_Sort f = SortResidualAge then sortByResidualThenAge out else out, db0))) db"

definition Heatmap :: "txenv \<Rightarrow> 'z risk_db_scheme \<Rightarrow> (risk_error err + (int \<times> int \<times> nat) list) \<times> 'z risk_db_scheme" where
  "Heatmap env db =
     inTx env (\<lambda>t db0. case HeatmapBuckets t db0 of Inl e \<Rightarrow> Inl (RkDatabase e) | Inr cells \<Rightarrow> Inr (cells, db0)) db"

definition risk_Delete :: "txenv \<Rightarrow> uuid \<Rightarrow> 'z risk_db_scheme \<Rightarrow> (risk_error err + unit) \<times> 'z risk_db_scheme" where
  "risk_Delete env i db =
     inTx env (\<lambda>t db0. case GetRiskByID t i db0 of None \<Rightarrow> Inl RkErrNotFound | Some _ \<Rightarrow> Inr ((), DeleteRisk t i db0)) db"

record LinkControlInput =
  lc_RiskID :: uuid
  lc_ControlID :: uuid
  lc_DesignScore :: "float64 option"
  lc_Weights :: "(float64 \<times> float64 \<times> float64) option"

definition out_of_unit :: "float64 \<Rightarrow> bool" where
  "out_of_unit v \<longleftrightarrow> f_less v (Fin 0) \<or> f_less (Fin 1) v"

definition defaultIfUnset :: "float64 option \<Rightarrow> rat \<Rightarrow> float64" where
  "defaultIfUnset v d = (case v of Some x \<Rightarrow> x | None \<Rightarrow> round64 d)"

text \<open>The flags \<open>DesignScoreSet\<close> and \<open>WeightsSet\<close> are the presence of the values.\<close>

definition risk_LinkControl ::
  "txenv \<Rightarrow> gotime \<Rightarrow> LinkControlInput \<Rightarrow> 'z risk_db_scheme \<Rightarrow> (risk_error err + unit) \<times> 'z risk_db_scheme" where
  "risk_LinkControl env dbnow inp db =
     (let given = (case lc_DesignScore inp of None \<Rightarrow> [] | Some d \<Rightarrow> [d])
            @ (case lc_Weights inp of None \<Rightarrow> [] | Some (d, o', c) \<Rightarrow> [d, o', c])
      in if list_ex out_of_unit given then (Inl (Dom ErrLinkWeightOutOfRange), db)
         else
           inTx env (\<lambda>t db0.
             if GetRiskByID t (lc_RiskID inp) db0 = None then Inl RkErrNotFound
             else if GetControlByID t (lc_ControlID inp) db0 = None then Inl ErrControlNotFoundForLink
             else if lc_DesignScore inp = None \<and> lc_Weights inp = None then
               (case LinkRiskControl dbnow (lc_RiskID inp) (lc_ControlID inp) t db0 of
                  Inl e \<Rightarrow> Inl (RkDatabase e) | Inr db1 \<Rightarrow> Inr ((), db1))
             else
               (case (floatToNumeric (defaultIfUnset (lc_DesignScore inp) (1/2)),
                      floatToNumeric (defaultIfUnset (map_option fst (lc_Weights inp)) (3/10)),
                      floatToNumeric (defaultIfUnset (map_option (fst \<circ> snd) (lc_Weights inp)) (1/2)),
                      floatToNumeric (defaultIfUnset (map_option (snd \<circ> snd) (lc_Weights inp)) (1/5))) of
                  (Some d, Some wd, Some wo, Some wc) \<Rightarrow>
                    (case LinkRiskControlWithWeights dbnow (lc_RiskID inp) (lc_ControlID inp) t d wd wo wc db0 of
                       Inl e \<Rightarrow> Inl (RkDatabase e) | Inr db1 \<Rightarrow> Inr ((), db1))
                | _ \<Rightarrow> Inl ErrLinkWeightOutOfRange)) db)"


section \<open>Themes\<close>

datatype ThemeSource = ThemeSourceDefault | ThemeSourceTenant

record Theme =
  th_Name :: string
  th_Description :: string
  th_Source :: ThemeSource

definition ListVisibleThemes :: "txenv \<Rightarrow> 'z risk_db_scheme \<Rightarrow> (risk_error err + Theme list) \<times> 'z risk_db_scheme" where
  "ListVisibleThemes env db =
     inTx env (\<lambda>t db0.
       Inr (sort_key th_Name (map (\<lambda>r. \<lparr>th_Name = ot_ThemeName r, th_Description = ot_Description r,
              th_Source = (if ot_TenantID r = None then ThemeSourceDefault else ThemeSourceTenant)\<rparr>) (ListAllVisibleThemes t db0)),
            db0)) db"

definition normaliseThemes :: "score_lib \<Rightarrow> string list \<Rightarrow> string list" where
  "normaliseThemes lib themes =
     sort (remdups (map (sl_lower lib) (filter (\<lambda>x. x \<noteq> []) (map TrimSpace themes))))"

definition validateThemesAgainstVocab :: "uuid \<Rightarrow> string list \<Rightarrow> 'z risk_db_scheme \<Rightarrow> risk_error option" where
  "validateThemesAgainstVocab t themes db =
     (let bad = filter (\<lambda>x. x \<notin> ot_ThemeName ` set (ListAllVisibleThemes t db)) themes
      in if themes = [] \<or> bad = [] then None else Some (ErrUnknownTheme bad))"

definition AssignThemes ::
  "score_lib \<Rightarrow> txenv \<Rightarrow> gotime \<Rightarrow> uuid \<Rightarrow> string list \<Rightarrow> 'z risk_db_scheme \<Rightarrow> (risk_error err + Risk) \<times> 'z risk_db_scheme" where
  "AssignThemes lib env dbnow riskID themes db =
     (let normalised = normaliseThemes lib themes in
      inTx env (\<lambda>t db0.
        (case validateThemesAgainstVocab t normalised db0 of
           Some e \<Rightarrow> Inl e
         | None \<Rightarrow>
           (case UpdateRiskThemes dbnow t riskID normalised db0 of
              Inl NoRows \<Rightarrow> Inl RkErrNotFound
            | Inl e \<Rightarrow> Inl (RkDatabase e)
            | Inr (row, db1) \<Rightarrow> Inr ((riskFromRow row)\<lparr>Rk_LinkedControlIDs := ListRiskControlLinks t riskID db1\<rparr>, db1)))) db)"

definition GetRiskThemes :: "txenv \<Rightarrow> uuid \<Rightarrow> 'z risk_db_scheme \<Rightarrow> (risk_error err + string list) \<times> 'z risk_db_scheme" where
  "GetRiskThemes env riskID db =
     inTx env (\<lambda>t db0. case GetRiskByID t riskID db0 of None \<Rightarrow> Inl RkErrNotFound | Some r \<Rightarrow> Inr (rk_Themes r, db0)) db"


section \<open>Hierarchy reads\<close>

text \<open>Consecutive rows of one unit become one entry; a map of counts is the list of its pairs.\<close>

fun fold_counts :: "(uuid \<times> int \<times> nat) list \<Rightarrow> (uuid \<times> (int \<times> nat) list) list" where
  "fold_counts [] = []"
| "fold_counts ((u, s, n) # rows) =
     (case fold_counts rows of
        (u', counts) # rest \<Rightarrow> if u' = u then (u, (s, n) # counts) # rest else (u, [(s, n)]) # (u', counts) # rest
      | [] \<Rightarrow> [(u, [(s, n)])])"

definition RiskCountsByOrgUnit ::
  "txenv \<Rightarrow> 'z risk_db_scheme \<Rightarrow> (risk_error err + (uuid \<times> (int \<times> nat) list) list) \<times> 'z risk_db_scheme" where
  "RiskCountsByOrgUnit env db =
     inTx env (\<lambda>t db0. case RiskCountsByOrgUnit_q t db0 of Inl e \<Rightarrow> Inl (RkDatabase e) | Inr rows \<Rightarrow> Inr (fold_counts rows, db0)) db"

definition FairExposureByOrgUnit ::
  "txenv \<Rightarrow> 'z risk_db_scheme \<Rightarrow> (risk_error err + (uuid \<times> nat \<times> float64) list) \<times> 'z risk_db_scheme" where
  "FairExposureByOrgUnit env db =
     inTx env (\<lambda>t db0. Inr (map (\<lambda>(u, n, x). (u, n, round64 x)) (FairExposureByOrgUnit_q t db0), db0)) db"

definition ThemeOrgUnitHeatmap ::
  "txenv \<Rightarrow> 'z risk_db_scheme \<Rightarrow> (risk_error err + (string \<times> bool \<times> uuid \<times> nat \<times> int) list) \<times> 'z risk_db_scheme" where
  "ThemeOrgUnitHeatmap env db =
     inTx env (\<lambda>t db0. case RiskThemeOrgUnitGrid t db0 of Inl e \<Rightarrow> Inl (RkDatabase e) | Inr cells \<Rightarrow> Inr (cells, db0)) db"


section \<open>Aggregation\<close>

record AggregateInput =
  ai_ParentTitle :: string
  ai_ParentLevel :: string
  ai_ParentOrgUnitID :: "uuid option"
  ai_SeverityFunction :: string
  ai_ChildRiskIDs :: "uuid list"

record AggregateResult =
  ar_Parent :: Risk
  ar_LinkedChildren :: "uuid list"
  ar_Severity :: int
  ar_Likelihood :: int
  ar_Impact :: int
  ar_ChildCount :: nat
  ar_SeverityFunction :: string
  ar_AggregationKey :: string

text \<open>The loop over the children: their scores, and an error for the first that has none.\<close>

fun child_scores :: "score_lib \<Rightarrow> risk_row list \<Rightarrow> risk_error + ChildScore list" where
  "child_scores lib [] = Inr []"
| "child_scores lib (r # rs) =
     (if \<not> IsAggregableMethodology (rk_Methodology r) then Inl (ErrIncompatibleMethodology (rk_ID r) (rk_Methodology r))
      else
        (case likelihoodImpactFromInherent lib (rk_InherentScore r) of
           None \<Rightarrow> Inl (ErrChildScore (rk_ID r))
         | Some (l, i) \<Rightarrow>
           (case child_scores lib rs of Inl e \<Rightarrow> Inl e | Inr cs \<Rightarrow> Inr (\<lparr>cs_Likelihood = l, cs_Impact = i\<rparr> # cs))))"

definition json_int :: "int \<Rightarrow> rjson" where
  "json_int n = RNum n 0"

definition aggregate_inherent :: "int \<Rightarrow> int \<Rightarrow> int \<Rightarrow> string \<Rightarrow> nat \<Rightarrow> string \<Rightarrow> rjson" where
  "aggregate_inherent likelihood impact severity fn childCount key =
     RObj [(''aggregation_key'', RStr key), (''child_count'', json_int (int childCount)), (''impact'', json_int impact),
           (''likelihood'', json_int likelihood), (''severity'', json_int severity), (''severity_function'', RStr fn)]"

fun link_children :: "gotime \<Rightarrow> uuid \<Rightarrow> uuid \<Rightarrow> uuid list \<Rightarrow> 'z risk_db_scheme \<Rightarrow> pg_error + 'z risk_db_scheme" where
  "link_children dbnow parent t [] db = Inr db"
| "link_children dbnow parent t (c # cs) db =
     (case LinkRiskAggregation dbnow parent c None t db of Inl e \<Rightarrow> Inl e | Inr db' \<Rightarrow> link_children dbnow parent t cs db')"

text \<open>\<open>describe\<close> is the formatted description of the parent.\<close>

definition aggregate_new ::
  "score_lib \<Rightarrow> (nat \<Rightarrow> string \<Rightarrow> string) \<Rightarrow> gotime \<Rightarrow> uuid \<Rightarrow> AggregateInput \<Rightarrow> uuid list \<Rightarrow> string \<Rightarrow> uuid \<Rightarrow> 'z risk_db_scheme \<Rightarrow>
   risk_error + AggregateResult \<times> 'z risk_db_scheme" where
  "aggregate_new lib describe dbnow parentID inp children key t db =
     (let childRows = ListRisksByIDs t children db in
      if length childRows \<noteq> length children then Inl ErrChildrenNotFound
      else
        (case child_scores lib childRows of
           Inl e \<Rightarrow> Inl e
         | Inr scores \<Rightarrow>
           (case ComputeSeverity lib (ai_SeverityFunction inp) scores of
              Inl e \<Rightarrow> Inl e
            | Inr severity \<Rightarrow>
              (case DeriveGridCell lib severity of (likelihood, impact) \<Rightarrow>
                 (let themes = normaliseThemes lib (concat (map rk_Themes childRows));
                      inherent = aggregate_inherent likelihood impact severity (ai_SeverityFunction inp) (length children) key
                  in case CreateAggregateRisk lib dbnow parentID t (ai_ParentTitle inp)
                            (describe (length children) (ai_SeverityFunction inp)) (rk_Category (hd childRows))
                            RiskMethodologyQualitative5x5 (Some inherent) RiskTreatmentAvoid [] (Some (RObj [])) [] []
                            (ai_ParentLevel inp) (ai_ParentOrgUnitID inp) themes db of
                       Inl e \<Rightarrow> Inl (RkDatabase e)
                     | Inr (row, db1) \<Rightarrow>
                       (case link_children dbnow parentID t children db1 of
                          Inl e \<Rightarrow> Inl (RkDatabase e)
                        | Inr db2 \<Rightarrow>
                          Inr (\<lparr>ar_Parent = riskFromRow row, ar_LinkedChildren = children, ar_Severity = severity,
                                ar_Likelihood = likelihood, ar_Impact = impact, ar_ChildCount = length children,
                                ar_SeverityFunction = ai_SeverityFunction inp, ar_AggregationKey = key\<rparr>, db2)))))))"

definition aggregate_existing ::
  "score_lib \<Rightarrow> uuid \<Rightarrow> risk_row \<Rightarrow> string \<Rightarrow> 'z risk_db_scheme \<Rightarrow> AggregateResult" where
  "aggregate_existing lib t existing key db =
     (let linked = map ra_ChildRiskID (ListRiskAggregationChildren t (rk_ID existing) db);
          meta = extractAggregationMeta lib (rk_InherentScore existing)
      in \<lparr>ar_Parent = riskFromRow existing, ar_LinkedChildren = linked, ar_Severity = am_Severity meta,
          ar_Likelihood = am_Likelihood meta, ar_Impact = am_Impact meta, ar_ChildCount = length linked,
          ar_SeverityFunction = am_SeverityFunction meta, ar_AggregationKey = key\<rparr>)"

definition Aggregate ::
  "score_lib \<Rightarrow> (nat \<Rightarrow> string \<Rightarrow> string) \<Rightarrow> txenv \<Rightarrow> gotime \<Rightarrow> uuid \<Rightarrow> AggregateInput \<Rightarrow> 'z risk_db_scheme \<Rightarrow>
   (risk_error err + AggregateResult) \<times> 'z risk_db_scheme" where
  "Aggregate lib describe env dbnow parentID inp db =
     (if ai_ParentTitle inp = [] then (Inl (Dom ErrParentTitle), db)
      else if ai_ChildRiskIDs inp = [] then (Inl (Dom ErrEmptyChildren), db)
      else if \<not> isValidLevel (ai_ParentLevel inp) then (Inl (Dom ErrAggregateLevel), db)
      else if ai_SeverityFunction inp \<notin> set AllowedSeverityFunctions
      then (Inl (Dom (ErrUnknownSeverityFunction (ai_SeverityFunction inp))), db)
      else
        (let children = uniqueUUIDs (ai_ChildRiskIDs inp); key = AggregationKey lib (ai_ParentTitle inp) children in
         inTx env (\<lambda>t db0.
           (case GetRiskByAggregationKey t key db0 of
              Some existing \<Rightarrow> Inr (aggregate_existing lib t existing key db0, db0)
            | None \<Rightarrow> aggregate_new lib describe dbnow parentID inp children key t db0)) db))"

definition live_result :: "risk_row \<Rightarrow> uuid list \<Rightarrow> aggregationMeta \<Rightarrow> int \<Rightarrow> int \<times> int \<Rightarrow> nat \<Rightarrow> AggregateResult" where
  "live_result parent linked meta severity cell count_of =
     \<lparr>ar_Parent = riskFromRow parent, ar_LinkedChildren = linked, ar_Severity = severity, ar_Likelihood = fst cell,
      ar_Impact = snd cell, ar_ChildCount = count_of, ar_SeverityFunction = am_SeverityFunction meta,
      ar_AggregationKey = am_AggregationKey meta\<rparr>"

definition live_scores :: "score_lib \<Rightarrow> risk_row list \<Rightarrow> ChildScore list" where
  "live_scores lib rows =
     List.map_filter (\<lambda>r. if IsAggregableMethodology (rk_Methodology r)
       then map_option (\<lambda>(l, i). \<lparr>cs_Likelihood = l, cs_Impact = i\<rparr>) (likelihoodImpactFromInherent lib (rk_InherentScore r))
       else None) rows"

definition LiveAggregation ::
  "score_lib \<Rightarrow> txenv \<Rightarrow> uuid \<Rightarrow> 'z risk_db_scheme \<Rightarrow> (risk_error err + AggregateResult) \<times> 'z risk_db_scheme" where
  "LiveAggregation lib env parentID db =
     inTx env (\<lambda>t db0.
       (case GetRiskByID t parentID db0 of
          None \<Rightarrow> Inl RkErrNotFound
        | Some parent \<Rightarrow>
          (let meta = extractAggregationMeta lib (rk_InherentScore parent);
               linked = map ra_ChildRiskID (ListRiskAggregationChildren t parentID db0);
               scores = live_scores lib (ListRisksByIDs t linked db0)
           in if am_SeverityFunction meta = [] then Inl RkErrNotFound
              else if linked = [] \<or> scores = [] then Inr (live_result parent linked meta 0 (1, 1) 0, db0)
              else
                (case ComputeSeverity lib (am_SeverityFunction meta) scores of
                   Inl e \<Rightarrow> Inl e
                 | Inr severity \<Rightarrow>
                   Inr (live_result parent linked meta severity (DeriveGridCell lib severity) (length scores), db0))))) db"


section \<open>Confirmed proposals of the MCP tools\<close>

text \<open>
  \<open>internal/mcp/writeproposals/appliers.go\<close>: what the confirmation of a proposal of the tools
  \<open>create_risk\<close> and \<open>update_risk_treatment\<close> writes, inside the transaction of the confirmation and
  with its tenant. The decoded tool input is an argument, absent when it is not JSON of that shape; a
  score in it is absent or any JSON value.
\<close>

datatype apply_error = ApplyParse | ApplyRequired string | ApplyNotUUID | ApplyDatabase pg_error | ApplyNotFound

record CreateRiskInput =
  cri_Title :: string
  cri_Description :: string
  cri_Category :: string
  cri_Methodology :: string
  cri_InherentScore :: "rjson option"
  cri_Treatment :: string
  cri_TreatmentOwner :: string

definition ApplyCreateRisk ::
  "score_lib \<Rightarrow> gotime \<Rightarrow> uuid \<Rightarrow> uuid \<Rightarrow> CreateRiskInput option \<Rightarrow> 'z org_db_scheme \<Rightarrow> apply_error + uuid \<times> 'z org_db_scheme" where
  "ApplyCreateRisk lib dbnow i tenant input db =
     (case input of
        None \<Rightarrow> Inl ApplyParse
      | Some inp \<Rightarrow>
        if cri_Title inp = [] then Inl (ApplyRequired ''title'')
        else if cri_Category inp = [] then Inl (ApplyRequired ''category'')
        else
          (let methodology = (if cri_Methodology inp = [] then RiskMethodologyNist80030 else cri_Methodology inp);
               treatment = (if cri_Treatment inp = [] then RiskTreatmentAvoid else cri_Treatment inp);
               inherent = (case cri_InherentScore inp of None \<Rightarrow> RObj [] | Some j \<Rightarrow> j)
           in (case CreateRisk lib dbnow i tenant (cri_Title inp) (cri_Description inp) (cri_Category inp) methodology (Some inherent)
                      treatment (cri_TreatmentOwner inp) (Some (RObj [])) None None [] [] db of
                 Inl e \<Rightarrow> Inl (ApplyDatabase e)
               | Inr (_, db') \<Rightarrow> Inr (i, db'))))"

record UpdateRiskTreatmentInput =
  uti_RiskID :: string
  uti_Treatment :: string
  uti_TreatmentOwner :: string

definition ApplyUpdateRiskTreatment ::
  "(string \<Rightarrow> uuid option) \<Rightarrow> gotime \<Rightarrow> uuid \<Rightarrow> UpdateRiskTreatmentInput option \<Rightarrow> 'z org_db_scheme \<Rightarrow>
   apply_error + uuid \<times> 'z org_db_scheme" where
  "ApplyUpdateRiskTreatment parse_uuid dbnow tenant input db =
     (case input of
        None \<Rightarrow> Inl ApplyParse
      | Some inp \<Rightarrow>
        if uti_RiskID inp = [] \<or> uti_Treatment inp = [] then Inl (ApplyRequired ''risk_id and treatment'')
        else
          (case parse_uuid (uti_RiskID inp) of
             None \<Rightarrow> Inl ApplyNotUUID
           | Some riskID \<Rightarrow>
             if uti_Treatment inp \<notin> risk_treatments then Inl (ApplyDatabase InvalidTextRepresentation)
             else
               (case sql_update_one (\<lambda>r. rk_TenantID r = tenant \<and> rk_ID r = riskID)
                       (\<lambda>r. r\<lparr>rk_Treatment := uti_Treatment inp, rk_TreatmentOwner := uti_TreatmentOwner inp, rk_UpdatedAt := pgTime dbnow\<rparr>)
                       (db_risk_rows db) of
                  None \<Rightarrow> Inl ApplyNotFound
                | Some (row, rows) \<Rightarrow>
                  if \<not> risks_check row then Inl (ApplyDatabase CheckViolation) else Inr (riskID, db\<lparr>db_risk_rows := rows\<rparr>))))"

end
