(* ===== verification/Risk_Register_Run.thy ===== *)
theory Risk_Register_Run
  imports Risk_Register
begin

text \<open>
  Properties of the risk register: the typing of stored scores and the shape of links and
  aggregations over the writes of the store, the heat map, and the identity of aggregations.
\<close>

section \<open>What a column keeps\<close>

lemma map_of_sort_key:
  assumes "distinct (map fst ms)"
  shows "map_of (sort_key f ms) = map_of ms"
  using assms by (subst map_of_inject_set) (simp_all add: distinct_map)

lemma map_of_sql_distinct_on [simp]: "map_of (sql_distinct_on fst ms) = map_of ms"
proof (induction "fst :: 'a \<times> 'b \<Rightarrow> 'a" ms rule: sql_distinct_on.induct)
  case (2 m ms)
  have "map_of (filter (\<lambda>x. fst x \<noteq> fst m) ms) k = map_of ms k" if "k \<noteq> fst m" for k
    using that by (induction ms) auto
  with 2 show ?case by (cases m) (auto simp: fun_eq_iff)
qed simp

lemma map_of_rev_distinct: "distinct (map fst ms) \<Longrightarrow> map_of (rev ms) = map_of ms"
  by (subst map_of_inject_set) (simp_all add: rev_map [symmetric])

lemma map_of_map_snd: "map_of (map (\<lambda>(k, v). (k, f v)) ms) = map_option f \<circ> map_of ms"
  by (induction ms) (auto simp: fun_eq_iff)

lemma jsonb_ObjE:
  obtains ms' where "jsonb (RObj ms) = RObj ms'" "members ms' = map_option jsonb \<circ> members ms"
    "set ms' \<subseteq> (\<lambda>(k, v). (k, jsonb v)) ` set ms" "ms' = [] \<longleftrightarrow> ms = []"
proof -
  let ?j = "map (\<lambda>(k, v). (k, jsonb v)) ms"
  let ?d = "sql_distinct_on fst (rev ?j)"
  let ?ms = "sort_key (\<lambda>m. (length (fst m), fst m)) (rev ?d)"
  have d: "distinct (map fst ?d)" by (simp add: sql_simps)
  then have "distinct (map fst (rev ?d))" "distinct (map fst ?ms)" by (simp_all add: distinct_map)
  then have "map_of (rev ?ms) = map_of ?d"
    by (simp add: map_of_rev_distinct map_of_sort_key d)
  then have m: "members ?ms = map_option jsonb \<circ> members ms"
    by (simp add: members_def fun_eq_iff map_of_map_snd rev_map)
  have sub: "set ?ms \<subseteq> (\<lambda>(k, v). (k, jsonb v)) ` set ms" using set_sql_distinct_on [of fst "rev ?j"] by simp
  have "sql_distinct_on fst xs = [] \<longleftrightarrow> xs = []" for xs :: "(string \<times> rjson) list" by (cases xs) auto
  then have "set ?ms = {} \<longleftrightarrow> ms = []" by simp
  then have "?ms = [] \<longleftrightarrow> ms = []" by (simp only: set_empty)
  with m sub show ?thesis by (intro that [of ?ms]) simp_all
qed

lemma go_numbers_jsonb: "go_numbers j \<Longrightarrow> go_numbers (jsonb j)"
proof (induction j rule: jsonb.induct)
  case (2 ms)
  obtain ms' where ms': "jsonb (RObj ms) = RObj ms'" "set ms' \<subseteq> (\<lambda>(k, v). (k, jsonb v)) ` set ms" by (rule jsonb_ObjE)
  have "go_numbers v" if "(k, v) \<in> set ms'" for k v
  proof -
    from that ms'(2) obtain u where "(k, u) \<in> set ms" "v = jsonb u" by auto
    with 2 show ?thesis by (auto simp: list_all_iff)
  qed
  then show ?case by (auto simp: ms'(1) list_all_iff simp del: jsonb.simps)
qed (auto simp: list_all_iff)


section \<open>The invariant\<close>

definition score_ok :: "string \<Rightarrow> rjson \<Rightarrow> bool" where
  "score_ok methodology j \<longleftrightarrow>
     (\<exists>ms. j = RObj ms \<and> ms \<noteq> [] \<and> go_numbers j
        \<and> (IsAggregableMethodology methodology \<longrightarrow> grid_schema (members ms))
        \<and> (methodology = RiskMethodologyFair \<longrightarrow>
             (\<exists>f m. numField (members ms) ''loss_event_frequency'' = Some f \<and> numField (members ms) ''loss_magnitude'' = Some m
                \<and> 0 \<le> f \<and> 0 \<le> m \<and> (\<exists>a. f_mul (Fin f) (Fin m) = Fin a))))"

definition risk_row_ok :: "risk_row \<Rightarrow> bool" where
  "risk_row_ok r \<longleftrightarrow> rk_Category r \<in> risk_categories \<and> rk_Methodology r \<in> risk_methodologies \<and> rk_Treatment r \<in> risk_treatments
     \<and> rk_Level r \<in> risk_levels \<and> risks_check r \<and> score_ok (rk_Methodology r) (rk_InherentScore r)"

definition link_key :: "risk_link \<Rightarrow> uuid \<times> uuid \<times> uuid" where
  "link_key l = (rlk_TenantID l, rlk_RiskID l, rlk_ControlID l)"

definition has_risk :: "uuid \<Rightarrow> uuid \<Rightarrow> 'z risk_db_scheme \<Rightarrow> bool" where
  "has_risk t i db \<longleftrightarrow> (\<exists>r \<in> set (db_risk_rows db). rk_TenantID r = t \<and> rk_ID r = i)"

definition risk_link_ok :: "'z risk_db_scheme \<Rightarrow> risk_link \<Rightarrow> bool" where
  "risk_link_ok db l \<longleftrightarrow> has_risk (rlk_TenantID l) (rlk_RiskID l) db
     \<and> GetControlByID (rlk_TenantID l) (rlk_ControlID l) db \<noteq> None
     \<and> list_all weight_check [rlk_DesignScore l, rlk_WeightDesign l, rlk_WeightOperation l, rlk_WeightCoverage l]"

definition rolls_up :: "'z risk_db_scheme \<Rightarrow> (uuid \<times> uuid) set" where
  "rolls_up db = (\<lambda>a. (ra_ParentRiskID a, ra_ChildRiskID a)) ` set (db_risk_aggregations db)"

definition agg_ok :: "'z risk_db_scheme \<Rightarrow> risk_aggregation \<Rightarrow> bool" where
  "agg_ok db a \<longleftrightarrow> has_risk (ra_TenantID a) (ra_ParentRiskID a) db
     \<and> has_risk (ra_TenantID a) (ra_ChildRiskID a) db"

text \<open>
  The shape of the tables, and on request that no risk is rolled up into itself. The rule engine keeps
  the first and not always the second.
\<close>

definition risk_shape :: "bool \<Rightarrow> 'z risk_db_scheme \<Rightarrow> bool" where
  "risk_shape forest db \<longleftrightarrow> distinct (map rk_ID (db_risk_rows db)) \<and> (\<forall>r \<in> set (db_risk_rows db). risk_row_ok r)
     \<and> distinct (map link_key (db_risk_links db)) \<and> (\<forall>l \<in> set (db_risk_links db). risk_link_ok db l)
     \<and> (\<forall>a \<in> set (db_risk_aggregations db). agg_ok db a) \<and> (forest \<longrightarrow> acyclic (rolls_up db))"

abbreviation risk_typed :: "'z risk_db_scheme \<Rightarrow> bool" where
  "risk_typed \<equiv> risk_shape False"

abbreviation risk_inv :: "'z risk_db_scheme \<Rightarrow> bool" where
  "risk_inv \<equiv> risk_shape True"

lemma risk_inv_iff: "risk_inv db \<longleftrightarrow> risk_typed db \<and> acyclic (rolls_up db)"
  by (auto simp: risk_shape_def)

text \<open>
  The writes of the risk store, of the residual derivation and of a confirmed change of treatment, and
  those of the rest of the program, which may also change the controls: a deleted control takes its
  links with it.
\<close>

inductive risk_step :: "score_lib \<Rightarrow> 'z risk_db_scheme \<Rightarrow> 'z risk_db_scheme \<Rightarrow> bool" for lib where
  create: "risk_Create lib env dbnow i inp db = (res, db') \<Longrightarrow> risk_step lib db db'"
| delete: "risk_Delete env i db = (res, db') \<Longrightarrow> risk_step lib db db'"
| link: "risk_LinkControl env dbnow lin db = (res, db') \<Longrightarrow> risk_step lib db db'"
| themes: "AssignThemes lib env dbnow i themes db = (res, db') \<Longrightarrow> risk_step lib db db'"
| aggregate: "Aggregate lib describe env dbnow i agg db = (res, db') \<Longrightarrow> length (ai_ChildRiskIDs agg) \<le> 2 ^ 53 \<Longrightarrow> risk_step lib db db'"
| residual: "UpdateRiskResidual lib dbnow t i j db = Inr (row, db') \<Longrightarrow> risk_step lib db db'"
| treatment: "ApplyUpdateRiskTreatment parse_uuid dbnow t ti db = Inr (i, db') \<Longrightarrow> risk_step lib db db'"
| elsewhere: "db_risk_rows db' = db_risk_rows db \<Longrightarrow>
     db_risk_links db' = filter (\<lambda>l. GetControlByID (rlk_TenantID l) (rlk_ControlID l) db' \<noteq> None) (db_risk_links db) \<Longrightarrow>
     db_risk_aggregations db' = db_risk_aggregations db \<Longrightarrow> risk_step lib db db'"


subsection \<open>Scores\<close>

lemma opt_prop_jsonb [simp]: "opt_prop (map_option jsonb \<circ> m) key P = opt_prop m key P"
proof (cases "m key")
  case (Some v)
  then show ?thesis by (cases v) (simp_all add: opt_prop_def)
qed (simp add: opt_prop_def)

lemma grid_schema_jsonb [simp]: "grid_schema (map_option jsonb \<circ> m) = grid_schema m"
  by (simp add: grid_schema_def)

lemma numField_jsonb [simp]: "numField (map_option jsonb \<circ> m) key = numField m key"
proof (cases "m key")
  case (Some v)
  then show ?thesis by (cases v) (simp_all add: numField_def)
qed (simp add: numField_def)

lemma score_ok_jsonb: "score_ok methodology j \<Longrightarrow> score_ok methodology (jsonb j)"
proof -
  assume ok: "score_ok methodology j"
  then obtain ms where j: "j = RObj ms" by (auto simp: score_ok_def)
  obtain ms' where ms': "jsonb (RObj ms) = RObj ms'" "members ms' = map_option jsonb \<circ> members ms" "ms' = [] \<longleftrightarrow> ms = []"
    by (rule jsonb_ObjE)
  have "go_numbers (RObj ms')" using ok j go_numbers_jsonb [of "RObj ms"] ms'(1) by (simp add: score_ok_def)
  with ok show ?thesis unfolding j ms'(1) by (simp add: score_ok_def ms'(2,3))
qed

definition digits_ok :: "score_lib \<Rightarrow> bool" where
  "digits_ok lib \<longleftrightarrow> (\<forall>x. is_float64 x \<longrightarrow> (case sl_digits lib x of (m, s) \<Rightarrow> go_number m s = Some x))"

lemma go_number_float: "go_number m s = Some x \<Longrightarrow> is_float64 x"
  by (auto simp: go_number_def is_float64_iff round64_rounded split: float64.splits if_splits)

lemma decode_members_float:
  "decode_members fs ms acc = Some m \<Longrightarrow> \<forall>x \<in> ran acc. is_float64 x \<Longrightarrow> \<forall>x \<in> ran m. is_float64 x"
proof (induction ms arbitrary: acc)
  case (Cons kv ms)
  obtain key v where kv: "kv = (key, v)" by (cases kv)
  have upd: "\<forall>x \<in> ran (acc(f := None)). is_float64 x" "is_float64 y \<Longrightarrow> \<forall>x \<in> ran (acc(f \<mapsto> y)). is_float64 x" for f y
    using Cons.prems(2) by (auto simp: ran_def)
  from Cons.prems(1) show ?case
  proof (cases "struct_field fs key")
    case None
    with Cons kv show ?thesis by simp
  next
    case (Some f)
    with Cons.prems(1) kv Cons.IH [OF _ upd(1)] Cons.IH [OF _ upd(2)] show ?thesis
      by (cases v) (auto split: option.splits dest: go_number_float simp del: fun_upd_apply)
  qed
qed simp

lemma f_mul_float: "f_mul (Fin x) (Fin y) = Fin z \<Longrightarrow> is_float64 z"
  by (auto simp: round64_rounded is_float64_iff split: if_splits)

lemma FairScoreFromJSON_float:
  assumes "FairScoreFromJSON j = Some f"
  shows "is_float64 (fair_LossEventFrequency f)" "is_float64 (fair_LossMagnitude f)" "is_float64 (fair_AnnualizedLossExposure f)"
    "0 \<le> fair_LossEventFrequency f" "0 \<le> fair_LossMagnitude f"
    "f_mul (Fin (fair_LossEventFrequency f)) (Fin (fair_LossMagnitude f)) = Fin (fair_AnnualizedLossExposure f)"
proof -
  from assms obtain score lef lm ale where d: "decode_struct fair_fields j = Some score"
    and lef: "or_else (score ''loss_event_frequency'') (score ''lef'') = Some lef"
    and lm: "or_else (score ''loss_magnitude'') (score ''lm'') = Some lm"
    and nn: "0 \<le> lef" "0 \<le> lm" and ale: "f_mul (Fin lef) (Fin lm) = Fin ale"
    and f: "f = \<lparr>fair_LossEventFrequency = lef, fair_LossMagnitude = lm, fair_AnnualizedLossExposure = ale\<rparr>"
    by (auto simp: FairScoreFromJSON_def finiteNonNegative_def split: option.splits if_splits float64.splits simp del: f_mul.simps)
  have fl: "is_float64 x" if "score k = Some x" for k x
  proof (cases j)
    case (RObj ms)
    then show ?thesis using d that decode_members_float [of fair_fields ms Map.empty score] by (auto simp: ran_def)
  qed (use d that in auto)
  have "is_float64 lef" "is_float64 lm" using lef lm fl by (auto simp: or_else_def split: option.splits)
  then show "is_float64 (fair_LossEventFrequency f)" "is_float64 (fair_LossMagnitude f)" "is_float64 (fair_AnnualizedLossExposure f)"
    "0 \<le> fair_LossEventFrequency f" "0 \<le> fair_LossMagnitude f"
    "f_mul (Fin (fair_LossEventFrequency f)) (Fin (fair_LossMagnitude f)) = Fin (fair_AnnualizedLossExposure f)"
    using nn ale f_mul_float [OF ale] by (simp_all add: f)
qed

lemma fair_score_ok:
  assumes "digits_ok lib" "NormalizeFairScoreJSON lib j = Some n"
  shows "score_ok RiskMethodologyFair n"
proof -
  obtain f where f: "FairScoreFromJSON j = Some f" "n = RObj [(''loss_event_frequency'', json_float lib (fair_LossEventFrequency f)),
      (''loss_magnitude'', json_float lib (fair_LossMagnitude f)),
      (''annualized_loss_exposure'', json_float lib (fair_AnnualizedLossExposure f))]"
    using assms(2) by (auto simp: NormalizeFairScoreJSON_def)
  note fl = FairScoreFromJSON_float [OF f(1)]
  have num: "\<exists>m s. json_float lib x = RNum m s \<and> go_number m s = Some x" if "is_float64 x" for x
    using assms(1) that by (cases "sl_digits lib x") (auto simp: digits_ok_def json_float_def)
  from num [OF fl(1)] num [OF fl(2)] num [OF fl(3)] fl(4-6) show ?thesis
    by (auto simp: score_ok_def f(2) members_def numField_def IsAggregableMethodology_def simp del: f_mul.simps)
qed

lemma grid_schema_nonempty: "grid_schema (members ms) \<Longrightarrow> ms \<noteq> []"
  by (auto simp: grid_schema_def members_def)

lemma create_scores_ok:
  assumes "digits_ok lib" "ValidateInherentScore lib methodology inherent = None"
    "create_scores lib methodology inherent residual = Inr (i, r)"
  shows "\<exists>j. i = Some j \<and> score_ok methodology j"
proof (cases "methodology = RiskMethodologyFair")
  case True
  with assms(3) obtain n where "fair_of_bytes lib inherent = Some n" "i = Some n"
    by (auto simp: create_scores_def split: option.splits if_splits)
  then show ?thesis using fair_score_ok [OF assms(1)] True by (auto simp: fair_of_bytes_def split: if_splits option.splits)
next
  case False
  with assms(3) have i: "i = sl_parse lib inherent" by (simp add: create_scores_def)
  from assms(2) obtain schema j where schema: "methodologySchemas methodology = Some schema" "schema j"
    and j: "sl_parse lib inherent = Some j" "go_numbers j"
    by (auto simp: ValidateInherentScore_def unmarshal_any_def split: option.splits if_splits)
  then have "case j of RObj ms \<Rightarrow> ms \<noteq> [] \<and> (IsAggregableMethodology methodology \<longrightarrow> grid_schema (members ms)) | _ \<Rightarrow> False"
    using False by (cases j) (auto simp: methodologySchemas_def Let_def nist80030Schema_def qualitative5x5Schema_def
        IsAggregableMethodology_def dest: grid_schema_nonempty split: if_splits)
  then obtain ms where ms: "j = RObj ms" "ms \<noteq> []" "IsAggregableMethodology methodology \<longrightarrow> grid_schema (members ms)"
    by (cases j) auto
  with j False i show ?thesis by (auto simp: score_ok_def)
qed



subsection \<open>Steps\<close>

lemma GetControlByID_frame [simp]:
  "GetControlByID t c (db\<lparr>db_risk_links := ls\<rparr>) = GetControlByID t c db" "GetControlByID t c (db\<lparr>db_risk_rows := rs\<rparr>) = GetControlByID t c db"
  "GetControlByID t c (db\<lparr>db_risk_aggregations := as\<rparr>) = GetControlByID t c db" "GetControlByID t c (DeleteRisk t' i db) = GetControlByID t c db"
  by (simp_all add: GetControlByID_def DeleteRisk_def)

lemma insert_risk_InrE:
  assumes "insert_risk row db = Inr (row', db')"
  obtains "row' = row" "db' = db\<lparr>db_risk_rows := db_risk_rows db @ [row]\<rparr>" "rk_ID row \<notin> rk_ID ` set (db_risk_rows db)"
    "risks_check row" "rk_Category row \<in> risk_categories" "rk_Methodology row \<in> risk_methodologies"
    "rk_Treatment row \<in> risk_treatments" "rk_Level row \<in> risk_levels"
  using assms by (auto simp: insert_risk_def split: if_splits)

lemma risk_inv_insert:
  assumes "risk_shape forest db" "insert_risk row db = Inr (row', db')" "score_ok (rk_Methodology row) (rk_InherentScore row)"
  shows "risk_shape forest db'" "db_risk_links db' = db_risk_links db" "db_risk_aggregations db' = db_risk_aggregations db"
    "rk_ID row \<notin> rk_ID ` set (db_risk_rows db)" "set (db_risk_rows db') = insert row (set (db_risk_rows db))" "db_controls db' = db_controls db"
  using assms
  by (auto elim!: insert_risk_InrE simp: risk_shape_def risk_row_ok_def risk_link_ok_def agg_ok_def rolls_up_def has_risk_def)

lemma GetRiskByID_iff: "GetRiskByID t i db = None \<longleftrightarrow> \<not> has_risk t i db"
  by (auto simp: GetRiskByID_def find_None_iff has_risk_def)

lemma has_risk_frame [simp]:
  "has_risk t i (db\<lparr>db_risk_links := ls\<rparr>) = has_risk t i db" "has_risk t i (db\<lparr>db_risk_aggregations := as\<rparr>) = has_risk t i db"
  by (simp_all add: has_risk_def)

lemma has_risk_delete [simp]: "has_risk t' i' (DeleteRisk t i db) \<longleftrightarrow> has_risk t' i' db \<and> \<not> (t' = t \<and> i' = i)"
  by (auto simp: has_risk_def DeleteRisk_def)

lemma GetRiskByID_SomeD: "GetRiskByID t i db = Some r \<Longrightarrow> r \<in> set (db_risk_rows db) \<and> rk_TenantID r = t \<and> rk_ID r = i"
  by (auto simp: GetRiskByID_def dest: find_SomeD)

lemma risk_inv_LinkRiskControl:
  assumes "risk_shape forest db" "LinkRiskControl dbnow risk c t db = Inr db'"
  shows "risk_shape forest db' \<and> db_risk_rows db' = db_risk_rows db \<and> db_risk_aggregations db' = db_risk_aggregations db"
proof (cases "link_exists t risk c db")
  case True
  with assms show ?thesis by (simp add: LinkRiskControl_def)
next
  case False
  with assms(2) obtain l where l: "db' = db\<lparr>db_risk_links := db_risk_links db @ [l]\<rparr>" "link_key l = (t, risk, c)"
    "list_all weight_check [rlk_DesignScore l, rlk_WeightDesign l, rlk_WeightOperation l, rlk_WeightCoverage l]" "link_fks t risk c db"
    by (auto simp: LinkRiskControl_def link_key_def weight_check_def split: if_splits)
  have new: "(t, risk, c) \<notin> link_key ` set (db_risk_links db)" using False by (auto simp: link_exists_def link_key_def)
  have "risk_link_ok db l" using l(2-4) by (auto simp: risk_link_ok_def link_fks_def link_key_def GetRiskByID_iff)
  with assms(1) new l(1,2) show ?thesis
    by (auto simp: risk_shape_def risk_link_ok_def agg_ok_def rolls_up_def)
qed

lemma risk_inv_link_controls:
  "risk_shape forest db \<Longrightarrow> link_controls dbnow risk t cs db = Inr db' \<Longrightarrow> risk_shape forest db'"
proof (induction cs arbitrary: db)
  case (Cons c cs)
  then show ?case using risk_inv_LinkRiskControl [of forest db dbnow risk c t] by (auto split: sum.splits)
qed simp

lemma CreateRisk_InrE:
  assumes "CreateRisk lib dbnow i t title description category m inh tr owner rsd due until accepter instr db = Inr (row, db1)"
  obtains j where "jsonb_in lib inh = Some j" "rk_Methodology row = m" "rk_InherentScore row = j" "rk_TenantID row = t" "rk_ID row = i"
    "insert_risk row db = Inr (row, db1)"
proof -
  from assms obtain j k where j: "jsonb_in lib inh = Some j" "jsonb_in lib rsd = Some k" by (auto simp: CreateRisk_def split: option.splits)
  define row0 where "row0 = \<lparr>rk_ID = i, rk_TenantID = t, rk_Title = title, rk_Description = description, rk_Category = category,
            rk_Methodology = m, rk_InherentScore = j, rk_Treatment = tr, rk_TreatmentOwner = owner,
            rk_ResidualScore = k, rk_ReviewDueAt = map_option pgTime due, rk_CreatedAt = pgTime dbnow,
            rk_UpdatedAt = pgTime dbnow, rk_AcceptedUntil = pgDatePtr until, rk_Accepter = accepter,
            rk_InstrumentReference = instr, rk_Level = ''team'', rk_OrgUnitID = None, rk_Themes = []\<rparr>"
  have ins: "insert_risk row0 db = Inr (row, db1)" using assms j by (simp add: CreateRisk_def row0_def)
  then have "row = row0" by (rule insert_risk_InrE)
  with ins j that show ?thesis by (simp add: row0_def)
qed

lemma risk_Create_cases:
  assumes "risk_Create lib env dbnow i inp db = (res, db')"
  obtains (refused) "db' = db"
  | (created) m t row inh rsd j db1 where "m = (if ci_Methodology inp = [] then DefaultMethodology else ci_Methodology inp)"
    "ValidateInherentScore lib m (ci_InherentScore inp) = None"
    "create_scores lib m (ci_InherentScore inp) (ci_ResidualScore inp) = Inr (inh, rsd)"
    "jsonb_in lib inh = Some j" "rk_Methodology row = m" "rk_InherentScore row = j" "rk_TenantID row = t" "rk_ID row = i"
    "tenant_of env = Some t" "insert_risk row db = Inr (row, db1)"
    "link_controls dbnow i t (ci_LinkedControlIDs inp) db1 = Inr db'"
proof -
  define m where "m = (if ci_Methodology inp = [] then DefaultMethodology else ci_Methodology inp)"
  note run = assms [unfolded risk_Create_def Let_def, folded m_def]
  show ?thesis
  proof (cases "ValidateInherentScore lib m (ci_InherentScore inp)")
    case v: None
    show ?thesis
    proof (cases "create_scores lib m (ci_InherentScore inp) (ci_ResidualScore inp)")
      case c: (Inr p)
      obtain inh rsd where p: "p = (inh, rsd)" by (cases p)
      show ?thesis
      proof (cases "ValidateTreatment \<lparr>ti_Treatment = ci_Treatment inp, ti_AcceptedUntilPresent = (ci_AcceptedUntil inp \<noteq> None),
                    ti_Accepter = ci_Accepter inp, ti_InstrumentReference = ci_InstrumentReference inp,
                    ti_LinkedControlCount = length (ci_LinkedControlIDs inp)\<rparr>")
        case None
        from run [unfolded v c p sum.case option.case prod.case None] show ?thesis
        proof (cases rule: inTx_cases)
          case (commit t a)
          then obtain row db1 where cr: "CreateRisk lib dbnow i t (ci_Title inp) (ci_Description inp) (ci_Category inp) m inh
              (ci_Treatment inp) (ci_TreatmentOwner inp) rsd (ci_ReviewDueAt inp) (ci_AcceptedUntil inp) (ci_Accepter inp)
              (ci_InstrumentReference inp) db = Inr (row, db1)"
            and links: "link_controls dbnow (rk_ID row) t (ci_LinkedControlIDs inp) db1 = Inr db'"
            by (auto split: sum.splits)
          from cr show ?thesis
            by (rule CreateRisk_InrE) (use m_def v c p commit(2) links in \<open>auto intro: created\<close>)
        qed (rule refused)
      qed (use run v c p refused in simp)
    qed (use run v refused in simp)
  qed (use run refused in simp)
qed

lemma risk_inv_Create:
  assumes "risk_shape forest db" "digits_ok lib" "risk_Create lib env dbnow i inp db = (res, db')"
  shows "risk_shape forest db'"
  using assms(3)
proof (cases rule: risk_Create_cases)
  case (created m t row inh rsd j db1)
  obtain j0 where "inh = Some j0" "score_ok m j0" using create_scores_ok [OF assms(2) created(2,3)] by blast
  then have "score_ok m j" using created(4) by (auto simp: jsonb_in_def score_ok_jsonb split: if_splits)
  then have "risk_shape forest db1" using risk_inv_insert(1) [OF assms(1) created(10)] created by simp
  then show ?thesis using created(11) by (rule risk_inv_link_controls)
qed (use assms in simp)

lemma risk_inv_Delete:
  assumes "risk_shape forest db" "risk_Delete env i db = (res, db')"
  shows "risk_shape forest db'"
  using assms(2) unfolding risk_Delete_def
proof (cases rule: inTx_cases)
  case (commit t a)
  then have db': "db' = DeleteRisk t i db" by (auto split: option.splits)
  have "rolls_up db' \<subseteq> rolls_up db" by (auto simp: db' rolls_up_def DeleteRisk_def)
  then have "forest \<longrightarrow> acyclic (rolls_up db')" using assms(1) acyclic_subset by (auto simp: risk_shape_def)
  moreover have "set (db_risk_rows db') \<subseteq> set (db_risk_rows db)" "distinct (map rk_ID (db_risk_rows db'))"
    "distinct (map link_key (db_risk_links db'))"
    using assms(1) by (auto simp: db' DeleteRisk_def risk_shape_def distinct_map_filter)
  moreover have "risk_link_ok db' l" if "l \<in> set (db_risk_links db')" for l
    using that assms(1) by (auto simp: db' risk_shape_def risk_link_ok_def) (auto simp: DeleteRisk_def)
  moreover have "agg_ok db' a" if "a \<in> set (db_risk_aggregations db')" for a
    using that assms(1) by (auto simp: db' risk_shape_def agg_ok_def) (auto simp: DeleteRisk_def)
  ultimately show ?thesis using assms(1) by (auto simp: risk_shape_def)
qed (use assms in simp)

lemma risk_inv_link_change:
  assumes "risk_shape forest db" "distinct (map link_key ls)"
    "\<And>l. l \<in> set ls \<Longrightarrow> l \<in> set (db_risk_links db) \<or> risk_link_ok db l"
  shows "risk_shape forest (db\<lparr>db_risk_links := ls\<rparr>)"
  using assms by (auto simp: risk_shape_def risk_link_ok_def agg_ok_def rolls_up_def)

lemma risk_inv_LinkRiskControlWithWeights:
  assumes "risk_shape forest db" "LinkRiskControlWithWeights dbnow risk c t d wd wo wc db = Inr db'"
  shows "risk_shape forest db'"
proof (cases "link_exists t risk c db")
  case True
  define f where "f = (\<lambda>l :: risk_link. l\<lparr>rlk_DesignScore := d, rlk_WeightDesign := wd, rlk_WeightOperation := wo, rlk_WeightCoverage := wc\<rparr>)"
  let ?ls = "sql_update (\<lambda>l. rlk_TenantID l = t \<and> rlk_RiskID l = risk \<and> rlk_ControlID l = c) f (db_risk_links db)"
  from True assms(2) have db': "db' = db\<lparr>db_risk_links := ?ls\<rparr>" "list_all weight_check [d, wd, wo, wc]"
    by (auto simp: LinkRiskControlWithWeights_def f_def split: if_splits)
  have "map link_key ?ls = map link_key (db_risk_links db)" by (rule map_sql_update_frame) (simp add: link_key_def f_def)
  then show ?thesis unfolding db'(1) using assms(1) db'(2)
    by (intro risk_inv_link_change) (auto simp: risk_shape_def sql_simps risk_link_ok_def f_def)
next
  case False
  with assms(2) obtain l where l: "db' = db\<lparr>db_risk_links := db_risk_links db @ [l]\<rparr>" "link_key l = (t, risk, c)" "risk_link_ok db l"
    by (auto simp: LinkRiskControlWithWeights_def link_key_def risk_link_ok_def link_fks_def GetRiskByID_iff split: if_splits)
  have "(t, risk, c) \<notin> link_key ` set (db_risk_links db)" using False by (auto simp: link_exists_def link_key_def)
  then show ?thesis unfolding l(1) using assms(1) l(2,3) by (intro risk_inv_link_change) (auto simp: risk_shape_def)
qed

lemma risk_inv_LinkControl:
  assumes "risk_shape forest db" "risk_LinkControl env dbnow inp db = (res, db')"
  shows "risk_shape forest db'"
proof -
  have body: "risk_shape forest db1" if "(case x of (Some d, Some wd, Some wo, Some wc) \<Rightarrow>
                    (case LinkRiskControlWithWeights dbnow risk c t d wd wo wc db of
                       Inl e \<Rightarrow> Inl (RkDatabase e) | Inr db1 \<Rightarrow> Inr ((), db1))
                | _ \<Rightarrow> Inl ErrLinkWeightOutOfRange) = Inr (u, db1)" for x risk c t u db1
    using that risk_inv_LinkRiskControlWithWeights [OF assms(1)] by (auto split: prod.splits option.splits sum.splits)
  define bad where "bad = list_ex out_of_unit ((case lc_DesignScore inp of None \<Rightarrow> [] | Some d \<Rightarrow> [d])
            @ (case lc_Weights inp of None \<Rightarrow> [] | Some (d, o', c) \<Rightarrow> [d, o', c]))"
  note run = assms(2) [unfolded risk_LinkControl_def Let_def, folded bad_def]
  show ?thesis
  proof (cases bad)
    case False
    from run [unfolded if_not_P [OF False]] show ?thesis
    proof (cases rule: inTx_cases)
      case (commit t a)
      then show ?thesis using risk_inv_LinkRiskControl [OF assms(1)] body by (auto split: if_splits sum.splits)
    qed (use assms in simp)
  qed (use run assms in simp)
qed

lemma has_risk_id: "has_risk t i db \<Longrightarrow> i \<in> rk_ID ` set (db_risk_rows db)"
  by (auto simp: has_risk_def intro: rev_image_eqI)

lemma has_risk_keys: "has_risk t i db \<longleftrightarrow> (t, i) \<in> set (map (\<lambda>r. (rk_TenantID r, rk_ID r)) (db_risk_rows db))"
  by (auto simp: has_risk_def)

lemma risk_inv_update:
  assumes "risk_shape forest db" "rows = sql_update P f (db_risk_rows db)"
    and keep: "\<And>r. rk_ID (f r) = rk_ID r \<and> rk_TenantID (f r) = rk_TenantID r \<and> risk_row_ok (f r) = risk_row_ok r"
  shows "risk_shape forest (db\<lparr>db_risk_rows := rows\<rparr>)"
proof -
  have ids: "map rk_ID rows = map rk_ID (db_risk_rows db)" unfolding assms(2) by (rule map_sql_update_frame) (simp add: keep)
  have "map (\<lambda>r. (rk_TenantID r, rk_ID r)) rows = map (\<lambda>r. (rk_TenantID r, rk_ID r)) (db_risk_rows db)"
    unfolding assms(2) by (rule map_sql_update_frame) (simp add: keep)
  then have has: "has_risk t i (db\<lparr>db_risk_rows := rows\<rparr>) = has_risk t i db" for t i
    by (simp only: has_risk_keys) simp
  have "\<forall>r \<in> set rows. risk_row_ok r" using assms(1) by (auto simp: assms(2) sql_simps keep risk_shape_def)
  then show ?thesis using assms(1) by (auto simp: risk_shape_def ids risk_link_ok_def agg_ok_def rolls_up_def has)
qed

lemma risk_inv_UpdateRiskResidual:
  assumes "risk_shape forest db" "UpdateRiskResidual lib dbnow t i j db = Inr (row, db')"
  shows "risk_shape forest db'"
proof -
  obtain res rows where "rows = sql_update (\<lambda>r. rk_TenantID r = t \<and> rk_ID r = i)
      (\<lambda>r. r\<lparr>rk_ResidualScore := res, rk_UpdatedAt := pgTime dbnow\<rparr>) (db_risk_rows db)" "db' = db\<lparr>db_risk_rows := rows\<rparr>"
    using assms(2) by (auto simp: UpdateRiskResidual_def sql_simps split: option.splits)
  with assms(1) show ?thesis by (auto intro!: risk_inv_update simp: risk_row_ok_def risks_check_def)
qed

lemma risk_inv_AssignThemes:
  assumes "risk_shape forest db" "AssignThemes lib env dbnow i themes db = (res, db')"
  shows "risk_shape forest db'"
  using assms(2) unfolding AssignThemes_def Let_def
proof (cases rule: inTx_cases)
  case (commit t a)
  then obtain row where "UpdateRiskThemes dbnow t i (normaliseThemes lib themes) db = Inr (row, db')"
    by (auto split: option.splits sum.splits pg_error.splits)
  then have "db' = db\<lparr>db_risk_rows := sql_update (\<lambda>r. rk_TenantID r = t \<and> rk_ID r = i)
      (\<lambda>r. r\<lparr>rk_Themes := normaliseThemes lib themes, rk_UpdatedAt := pgTime dbnow\<rparr>) (db_risk_rows db)\<rparr>"
    by (auto simp: UpdateRiskThemes_def sql_simps split: option.splits)
  with assms(1) show ?thesis by (auto intro!: risk_inv_update simp: risk_row_ok_def risks_check_def)
qed (use assms in simp)

lemma go_number_int: "\<bar>n\<bar> \<le> 2 ^ 53 \<Longrightarrow> go_number n 0 = Some (of_int n)"
  using is_float64_of_int [of n] by (simp add: go_number_def num_value_def is_float64_def)

lemma aggregate_score_ok:
  assumes "l \<in> {1..5}" "i \<in> {1..5}" "0 \<le> s" "s \<le> 25" "n \<le> 2 ^ 53"
  shows "score_ok RiskMethodologyQualitative5x5 (aggregate_inherent l i s fn n key)"
proof -
  have "grid_number (of_int x)" if "x \<in> {1..5}" for x :: int
    using that by (simp add: grid_number_def)
  moreover have "go_number l 0 = Some (of_int l)" "go_number i 0 = Some (of_int i)" "go_number s 0 = Some (of_int s)"
    "go_number (int n) 0 = Some (of_int (int n))"
    using assms by (auto intro!: go_number_int simp del: of_int_of_nat_eq)
  ultimately show ?thesis using assms(1,2)
    by (simp add: score_ok_def aggregate_inherent_def json_int_def members_def grid_schema_def opt_prop_def)
qed

lemma DeriveGridCell_range:
  assumes "0 \<le> s" "s \<le> SeverityScaleMax"
  shows "fst (DeriveGridCell lib s) \<in> {1..5}" "snd (DeriveGridCell lib s) \<in> {1..5}"
proof -
  have "s = 0 \<or> 1 \<le> s \<and> s \<le> 25" using assms by (auto simp: SeverityScaleMax_def)
  then have "case DeriveGridCell lib s of (l, i) \<Rightarrow> l \<in> {1..5} \<and> i \<in> {1..5}"
    using DeriveGridCell_tight [of s lib] by (auto simp: DeriveGridCell_def)
  then show "fst (DeriveGridCell lib s) \<in> {1..5}" "snd (DeriveGridCell lib s) \<in> {1..5}" by auto
qed

lemma LinkRiskAggregation_cases:
  assumes "LinkRiskAggregation dbnow parent child rule t db = Inr db'"
  obtains (same) "db' = db"
  | (new) a where "db' = db\<lparr>db_risk_aggregations := db_risk_aggregations db @ [a]\<rparr>" "agg_ok db a"
      "ra_ParentRiskID a = parent" "ra_ChildRiskID a = child" "parent \<noteq> child"
proof (cases "db' = db")
  case False
  with assms have "\<exists>a. db' = db\<lparr>db_risk_aggregations := db_risk_aggregations db @ [a]\<rparr> \<and> agg_ok db a
      \<and> ra_ParentRiskID a = parent \<and> ra_ChildRiskID a = child \<and> parent \<noteq> child"
    by (auto simp: LinkRiskAggregation_def agg_ok_def GetRiskByID_iff split: if_splits)
  then show ?thesis using new by blast
qed (rule same)

text \<open>
  A parent that was just inserted is nobody's child, so whatever it rolls up, nothing rolls up it and
  no cycle can close.
\<close>

definition childless_parent :: "uuid \<Rightarrow> 'z risk_db_scheme \<Rightarrow> bool" where
  "childless_parent p db \<longleftrightarrow> p \<notin> Range (rolls_up db)"

lemma acyclic_new_root: "acyclic r \<Longrightarrow> p \<notin> Range r \<Longrightarrow> p \<noteq> c \<Longrightarrow> acyclic (insert (p, c) r)"
  by (auto simp: acyclic_insert elim: rtranclE)

lemma risk_inv_LinkRiskAggregation:
  assumes "risk_shape forest db" "forest \<longrightarrow> childless_parent p db" "LinkRiskAggregation dbnow p c rule t db = Inr db'"
  shows "risk_shape forest db' \<and> (forest \<longrightarrow> childless_parent p db') \<and> db_risk_rows db' = db_risk_rows db"
  using assms(3)
proof (cases rule: LinkRiskAggregation_cases)
  case (new a)
  have up: "rolls_up db' = insert (p, c) (rolls_up db)" using new by (auto simp: rolls_up_def)
  then have "forest \<longrightarrow> acyclic (rolls_up db') \<and> childless_parent p db'"
    using assms(1,2) acyclic_new_root [of "rolls_up db" p c] new(5) by (auto simp: risk_shape_def childless_parent_def)
  then show ?thesis using assms(1) new by (auto simp: risk_shape_def risk_link_ok_def agg_ok_def)
qed (use assms in simp)

lemma risk_inv_link_children:
  "risk_shape forest db \<Longrightarrow> forest \<longrightarrow> childless_parent p db \<Longrightarrow> link_children dbnow p t cs db = Inr db' \<Longrightarrow> risk_shape forest db'"
proof (induction cs arbitrary: db)
  case (Cons c cs)
  then show ?case using risk_inv_LinkRiskAggregation [of forest db p dbnow c None t] by (auto split: sum.splits)
qed simp

lemma CreateAggregateRisk_InrE:
  assumes "CreateAggregateRisk lib dbnow i t title description category m inh tr owner rsd accepter instr lvl unt themes db = Inr (row, db1)"
  obtains j where "jsonb_in lib inh = Some j" "rk_Methodology row = m" "rk_InherentScore row = j" "rk_TenantID row = t" "rk_ID row = i"
    "insert_risk row db = Inr (row, db1)"
proof -
  from assms obtain j k where j: "jsonb_in lib inh = Some j" "jsonb_in lib rsd = Some k" by (auto simp: CreateAggregateRisk_def split: option.splits)
  define row0 where "row0 = \<lparr>rk_ID = i, rk_TenantID = t, rk_Title = title, rk_Description = description, rk_Category = category,
            rk_Methodology = m, rk_InherentScore = j, rk_Treatment = tr, rk_TreatmentOwner = owner,
            rk_ResidualScore = k, rk_ReviewDueAt = None, rk_CreatedAt = pgTime dbnow,
            rk_UpdatedAt = pgTime dbnow, rk_AcceptedUntil = None, rk_Accepter = accepter,
            rk_InstrumentReference = instr, rk_Level = lvl, rk_OrgUnitID = unt, rk_Themes = themes\<rparr>"
  have ins: "insert_risk row0 db = Inr (row, db1)" using assms j by (simp add: CreateAggregateRisk_def row0_def)
  then have "row = row0" by (rule insert_risk_InrE)
  with ins j that show ?thesis by (simp add: row0_def)
qed

lemma aggregate_new_cases:
  assumes "aggregate_new lib describe dbnow p inp children key t db = Inr (res, db')"
  obtains scores severity j row db1 where
    "length (ListRisksByIDs t children db) = length children"
    "child_scores lib (ListRisksByIDs t children db) = Inr scores" "ComputeSeverity lib (ai_SeverityFunction inp) scores = Inr severity"
    "jsonb_in lib (Some (aggregate_inherent (fst (DeriveGridCell lib severity)) (snd (DeriveGridCell lib severity)) severity
       (ai_SeverityFunction inp) (length children) key)) = Some j"
    "rk_Methodology row = RiskMethodologyQualitative5x5" "rk_InherentScore row = j" "rk_TenantID row = t" "rk_ID row = p"
    "insert_risk row db = Inr (row, db1)" "link_children dbnow p t children db1 = Inr db'"
    "res = \<lparr>ar_Parent = riskFromRow row, ar_LinkedChildren = children, ar_Severity = severity,
            ar_Likelihood = fst (DeriveGridCell lib severity), ar_Impact = snd (DeriveGridCell lib severity), ar_ChildCount = length children,
            ar_SeverityFunction = ai_SeverityFunction inp, ar_AggregationKey = key\<rparr>"
proof -
  from assms obtain scores severity row db1 where
    *: "length (ListRisksByIDs t children db) = length children"
    "child_scores lib (ListRisksByIDs t children db) = Inr scores" "ComputeSeverity lib (ai_SeverityFunction inp) scores = Inr severity"
    and c: "CreateAggregateRisk lib dbnow p t (ai_ParentTitle inp) (describe (length children) (ai_SeverityFunction inp))
        (rk_Category (hd (ListRisksByIDs t children db))) RiskMethodologyQualitative5x5
        (Some (aggregate_inherent (fst (DeriveGridCell lib severity)) (snd (DeriveGridCell lib severity)) severity
          (ai_SeverityFunction inp) (length children) key)) RiskTreatmentAvoid [] (Some (RObj [])) [] []
        (ai_ParentLevel inp) (ai_ParentOrgUnitID inp)
        (normaliseThemes lib (concat (map rk_Themes (ListRisksByIDs t children db)))) db = Inr (row, db1)"
    and l: "link_children dbnow p t children db1 = Inr db'"
    and r: "res = \<lparr>ar_Parent = riskFromRow row, ar_LinkedChildren = children, ar_Severity = severity,
            ar_Likelihood = fst (DeriveGridCell lib severity), ar_Impact = snd (DeriveGridCell lib severity), ar_ChildCount = length children,
            ar_SeverityFunction = ai_SeverityFunction inp, ar_AggregationKey = key\<rparr>"
    by (auto simp: aggregate_new_def Let_def split: if_splits sum.splits prod.splits)
  from c show ?thesis by (rule CreateAggregateRisk_InrE) (use * l r in \<open>auto intro!: that\<close>)
qed

lemma risk_inv_aggregate_new:
  assumes "risk_shape forest db" "aggregate_new lib describe dbnow p inp children key t db = Inr (res, db')" "length children \<le> 2 ^ 53"
  shows "risk_shape forest db'"
  using assms(2)
proof (cases rule: aggregate_new_cases)
  case (1 scores severity j row db1)
  have sev: "0 \<le> severity" "severity \<le> SeverityScaleMax" using ComputeSeverity_bounds [OF 1(3)] by simp_all
  note cell = DeriveGridCell_range [OF sev, of lib]
  have "score_ok RiskMethodologyQualitative5x5 (aggregate_inherent (fst (DeriveGridCell lib severity)) (snd (DeriveGridCell lib severity)) severity
       (ai_SeverityFunction inp) (length children) key)"
    using cell sev assms(3) by (intro aggregate_score_ok) (simp_all add: SeverityScaleMax_def)
  then have "score_ok RiskMethodologyQualitative5x5 j" using 1(4) by (auto simp: jsonb_in_def score_ok_jsonb split: if_splits)
  then have ins: "risk_shape forest db1" "db_risk_aggregations db1 = db_risk_aggregations db" "p \<notin> rk_ID ` set (db_risk_rows db)"
    using risk_inv_insert [OF assms(1) 1(9)] 1(5,6,8) by simp_all
  have "ra_ChildRiskID a \<in> rk_ID ` set (db_risk_rows db)" if "a \<in> set (db_risk_aggregations db)" for a
  proof -
    have "has_risk (ra_TenantID a) (ra_ChildRiskID a) db" using assms(1) that by (simp add: risk_shape_def agg_ok_def)
    then show ?thesis by (rule has_risk_id)
  qed
  then have "childless_parent p db1" using ins(2,3) by (auto simp: childless_parent_def rolls_up_def)
  then show ?thesis by (intro risk_inv_link_children [OF ins(1) _ 1(10)]) simp
qed

lemma Aggregate_cases:
  assumes "Aggregate lib describe env dbnow p inp db = (res, db')"
  obtains (same) "db' = db"
  | (new) t r where "tenant_of env = Some t" "GetRiskByAggregationKey t (AggregationKey lib (ai_ParentTitle inp) (uniqueUUIDs (ai_ChildRiskIDs inp))) db = None"
     "aggregate_new lib describe dbnow p inp (uniqueUUIDs (ai_ChildRiskIDs inp))
        (AggregationKey lib (ai_ParentTitle inp) (uniqueUUIDs (ai_ChildRiskIDs inp))) t db = Inr (r, db')" "res = Inr r"
proof (cases "db' = db")
  case False
  with assms have "inTx env (\<lambda>t db0.
           (case GetRiskByAggregationKey t (AggregationKey lib (ai_ParentTitle inp) (uniqueUUIDs (ai_ChildRiskIDs inp))) db0 of
              Some existing \<Rightarrow> Inr (aggregate_existing lib t existing (AggregationKey lib (ai_ParentTitle inp) (uniqueUUIDs (ai_ChildRiskIDs inp))) db0, db0)
            | None \<Rightarrow> aggregate_new lib describe dbnow p inp (uniqueUUIDs (ai_ChildRiskIDs inp))
                 (AggregationKey lib (ai_ParentTitle inp) (uniqueUUIDs (ai_ChildRiskIDs inp))) t db0)) db = (res, db')"
    by (auto simp: Aggregate_def Let_def split: if_splits)
  then show ?thesis using False new by (cases rule: inTx_cases) (auto split: option.splits)
qed (rule same)

lemma length_uniqueUUIDs_le: "length (uniqueUUIDs us) \<le> length us"
  by (simp add: length_uniqueUUIDs card_length)

lemma risk_inv_Aggregate:
  assumes "risk_shape forest db" "Aggregate lib describe env dbnow p inp db = (res, db')" "length (ai_ChildRiskIDs inp) \<le> 2 ^ 53"
  shows "risk_shape forest db'"
  using assms(2)
proof (cases rule: Aggregate_cases)
  case (new t r)
  show ?thesis by (rule risk_inv_aggregate_new [OF assms(1) new(3)]) (use length_uniqueUUIDs_le [of "ai_ChildRiskIDs inp"] assms(3) in linarith)
qed (use assms in simp)

lemma risk_inv_elsewhere:
  assumes "risk_shape forest db" "db_risk_rows db' = db_risk_rows db" "db_risk_links db' = db_risk_links db"
    "db_risk_aggregations db' = db_risk_aggregations db" "db_controls db' = db_controls db"
  shows "risk_shape forest db'"
  using assms by (simp add: risk_shape_def risk_link_ok_def agg_ok_def rolls_up_def has_risk_def GetControlByID_def)

lemma risk_inv_controls:
  assumes "risk_shape forest db" "db_risk_rows db' = db_risk_rows db" "db_risk_aggregations db' = db_risk_aggregations db"
    "db_risk_links db' = filter (\<lambda>l. GetControlByID (rlk_TenantID l) (rlk_ControlID l) db' \<noteq> None) (db_risk_links db)"
  shows "risk_shape forest db'"
  using assms by (auto simp: risk_shape_def risk_link_ok_def agg_ok_def rolls_up_def has_risk_def distinct_map_filter)

lemma risk_inv_treatment:
  assumes "risk_shape forest db" "ApplyUpdateRiskTreatment parse_uuid dbnow t ti db = Inr (i, db')"
  shows "risk_shape forest db'"
proof -
  obtain x y row rows where tr: "x \<in> risk_treatments" and up: "sql_update_one (\<lambda>r. rk_TenantID r = t \<and> rk_ID r = i)
      (\<lambda>r. r\<lparr>rk_Treatment := x, rk_TreatmentOwner := y, rk_UpdatedAt := pgTime dbnow\<rparr>) (db_risk_rows db) = Some (row, rows)"
      (is "sql_update_one ?P ?f _ = _") and ok: "risks_check row" and db': "db' = db\<lparr>db_risk_rows := rows\<rparr>"
    using assms(2) by (auto simp: ApplyUpdateRiskTreatment_def split: option.splits if_splits)
  have rows: "rows = sql_update ?P ?f (db_risk_rows db)" using up by (auto simp: sql_simps)
  have "risk_row_ok (?f r)" if "r \<in> set (db_risk_rows db)" "?P r" for r
  proof -
    obtain r0 where "r0 \<in> set (db_risk_rows db)" "?P r0" "row = ?f r0" using up by (auto simp: sql_simps dest: find_SomeD)
    moreover from this that have "r0 = r" using assms(1) distinct_key_unique [of rk_ID "db_risk_rows db" r0 r] by (auto simp: risk_shape_def)
    ultimately show ?thesis using ok tr that assms(1) by (auto simp: risk_row_ok_def risk_shape_def)
  qed
  then have "\<forall>r \<in> set rows. risk_row_ok r" using assms(1) by (auto simp: rows sql_simps risk_shape_def)
  moreover have "map (\<lambda>r. (rk_TenantID r, rk_ID r)) rows = map (\<lambda>r. (rk_TenantID r, rk_ID r)) (db_risk_rows db)"
    unfolding rows by (rule map_sql_update_frame) simp
  then have "has_risk u j db' = has_risk u j db" for u j by (simp only: has_risk_keys db') simp
  moreover have "map rk_ID rows = map rk_ID (db_risk_rows db)" unfolding rows by (rule map_sql_update_frame) simp
  ultimately show ?thesis using assms(1) by (auto simp: risk_shape_def risk_link_ok_def agg_ok_def rolls_up_def db')
qed

lemma risk_inv_step: "risk_step lib db db' \<Longrightarrow> digits_ok lib \<Longrightarrow> risk_shape forest db \<Longrightarrow> risk_shape forest db'"
  by (induction rule: risk_step.induct)
    (blast intro: risk_inv_Create risk_inv_Delete risk_inv_LinkControl risk_inv_AssignThemes risk_inv_Aggregate
      risk_inv_UpdateRiskResidual risk_inv_treatment risk_inv_controls)+

lemma risk_inv_run: "(risk_step lib)\<^sup>*\<^sup>* db db' \<Longrightarrow> digits_ok lib \<Longrightarrow> risk_shape forest db \<Longrightarrow> risk_shape forest db'"
  by (induction rule: rtranclp_induct) (auto intro: risk_inv_step)


subsection \<open>What a typed score is good for\<close>

lemma grid_numberE:
  assumes "grid_number x"
  obtains k where "x = of_int k" "1 \<le> k" "k \<le> 5"
proof -
  have "x = of_int \<lfloor>x\<rfloor>" "1 \<le> x" "x \<le> 5" using assms by (simp_all add: grid_number_def)
  moreover from this have "1 \<le> \<lfloor>x\<rfloor>" "\<lfloor>x\<rfloor> \<le> 5" by linarith+
  ultimately show ?thesis using that by blast
qed

lemma opt_propE:
  assumes "opt_prop m key P" "m key \<noteq> None"
  obtains d s x where "m key = Some (RNum d s)" "go_number d s = Some x" "P x"
proof (cases "m key")
  case (Some v)
  with assms that show ?thesis by (cases v) (auto simp: opt_prop_def split: option.splits)
qed (use assms in simp)

lemma score_ok_grid:
  assumes "score_ok methodology j" "IsAggregableMethodology methodology"
  obtains ms l ls i t x y where "j = RObj ms" "members ms ''likelihood'' = Some (RNum l ls)" "members ms ''impact'' = Some (RNum i t)"
    "go_number l ls = Some (of_int x)" "go_number i t = Some (of_int y)" "1 \<le> x" "x \<le> 5" "1 \<le> y" "y \<le> 5" "go_numbers j"
proof -
  from assms obtain ms where ms: "j = RObj ms" "go_numbers j" "grid_schema (members ms)" by (auto simp: score_ok_def)
  have li: "opt_prop (members ms) ''likelihood'' grid_number" "members ms ''likelihood'' \<noteq> None"
    "opt_prop (members ms) ''impact'' grid_number" "members ms ''impact'' \<noteq> None"
    using ms(3) by (simp_all add: grid_schema_def)
  obtain l ls x where l: "members ms ''likelihood'' = Some (RNum l ls)" "go_number l ls = Some x" "grid_number x"
    using li(1,2) by (rule opt_propE)
  obtain i t y where i: "members ms ''impact'' = Some (RNum i t)" "go_number i t = Some y" "grid_number y"
    using li(3,4) by (rule opt_propE)
  from l(3) i(3) show ?thesis by (elim grid_numberE) (use that ms l i in auto)
qed

lemma int_of_float_small: "- (2 ^ 63) \<le> k \<Longrightarrow> k < 2 ^ 63 \<Longrightarrow> int_of_float lib (Fin (of_int k)) = k"
  by (simp add: Let_def)

lemma score_ok_likelihoodImpact:
  assumes "score_ok methodology j" "IsAggregableMethodology methodology"
  shows "\<exists>l i. likelihoodImpactFromInherent lib j = Some (l, i) \<and> on_grid \<lparr>cs_Likelihood = l, cs_Impact = i\<rparr>"
  using assms
proof (rule score_ok_grid)
  fix ms l ls i t x y
  assume "j = RObj ms" "members ms ''likelihood'' = Some (RNum l ls)" "members ms ''impact'' = Some (RNum i t)"
    "go_number l ls = Some (of_int x)" "go_number i t = Some (of_int y)" "1 \<le> x" "x \<le> 5" "1 \<le> y" "y \<le> 5" "go_numbers j"
  then show ?thesis
    by (simp add: likelihoodImpactFromInherent_def numField_def int_of_float_small on_grid_def del: int_of_float.simps go_numbers.simps)
qed

lemma child_scores_grid:
  assumes "\<forall>r \<in> set rows. risk_row_ok r \<and> IsAggregableMethodology (rk_Methodology r)"
  shows "\<exists>cs. child_scores lib rows = Inr cs \<and> length cs = length rows \<and> list_all on_grid cs"
  using assms
proof (induction rows)
  case (Cons r rows)
  then obtain cs where cs: "child_scores lib rows = Inr cs" "length cs = length rows" "list_all on_grid cs" by auto
  obtain l i where li: "likelihoodImpactFromInherent lib (rk_InherentScore r) = Some (l, i)" "on_grid \<lparr>cs_Likelihood = l, cs_Impact = i\<rparr>"
    using Cons.prems score_ok_likelihoodImpact [of "rk_Methodology r" "rk_InherentScore r" lib] by (auto simp: risk_row_ok_def)
  with cs Cons.prems show ?case by simp
qed simp

lemma score_ok_inherentScalar:
  assumes "score_ok methodology j" "IsAggregableMethodology methodology \<or> methodology = RiskMethodologyFair"
  shows "\<exists>x. inherentScalar methodology j = Some (Fin x) \<and> is_float64 x"
proof -
  from assms(1) obtain ms where ms: "j = RObj ms" "go_numbers j" by (auto simp: score_ok_def)
  then have u: "unmarshal_map j = Some (members ms)" by simp
  show ?thesis
  proof (cases "numField (members ms) ''severity''")
    case (Some sev)
    then show ?thesis using u by (auto simp: inherentScalar_def numField_def split: option.splits rjson.splits dest: go_number_float)
  next
    case sev: None
    show ?thesis
    proof (cases "IsAggregableMethodology methodology")
      case True
      from assms(1) True obtain x y :: int where xy: "numField (members ms) ''likelihood'' = Some (of_int x)"
          "numField (members ms) ''impact'' = Some (of_int y)" "1 \<le> x" "x \<le> 5" "1 \<le> y" "y \<le> 5"
        by (rule score_ok_grid) (use ms in \<open>auto simp: numField_def\<close>)
      have "x * y \<le> 5 * 5" using xy by (intro mult_mono) simp_all
      moreover have "0 \<le> x * y" using xy by simp
      ultimately have "is_float64 (of_int (x * y))" by (intro is_float64_of_int) simp
      then have "f_mul (Fin (of_int x)) (Fin (of_int y)) = Fin (of_int (x * y))" by (simp add: is_float64_def)
      with \<open>is_float64 (of_int (x * y))\<close> show ?thesis
        using True xy(1,2) sev u by (auto simp: inherentScalar_def IsAggregableMethodology_def)
    next
      case False
      with assms obtain f m a where "numField (members ms) ''loss_event_frequency'' = Some f" "numField (members ms) ''loss_magnitude'' = Some m"
        "f_mul (Fin f) (Fin m) = Fin a" "methodology = RiskMethodologyFair"
        using ms by (auto simp: score_ok_def simp del: f_mul.simps)
      with sev u f_mul_float [of f m a] show ?thesis by (auto simp: inherentScalar_def or_else_def simp del: f_mul.simps)
    qed
  qed
qed

text \<open>
  In a typed register the children of an aggregation over grid methodologies all have a cell, and the
  scalar that a derivation starts from exists for every risk of a grid methodology or FAIR, and for the
  two permissive methodologies exactly when the score has a numeric severity.
\<close>

lemma typed_children:
  assumes "risk_shape forest db" "\<forall>r \<in> set (ListRisksByIDs t ids db). IsAggregableMethodology (rk_Methodology r)"
  shows "\<exists>cs. child_scores lib (ListRisksByIDs t ids db) = Inr cs \<and> length cs = length (ListRisksByIDs t ids db) \<and> list_all on_grid cs"
  using assms by (intro child_scores_grid) (auto simp: risk_shape_def ListRisksByIDs_def)

definition has_scalar :: "risk_row \<Rightarrow> bool" where
  "has_scalar r \<longleftrightarrow> IsAggregableMethodology (rk_Methodology r) \<or> rk_Methodology r = RiskMethodologyFair
     \<or> (\<exists>ms. rk_InherentScore r = RObj ms \<and> numField (members ms) ''severity'' \<noteq> None)"

lemma typed_scalar:
  assumes "risk_shape forest db" "r \<in> set (db_risk_rows db)"
  shows "if has_scalar r then \<exists>x. inherentScalar (rk_Methodology r) (rk_InherentScore r) = Some (Fin x) \<and> is_float64 x
    else inherentScalar (rk_Methodology r) (rk_InherentScore r) = None"
proof -
  have ok: "score_ok (rk_Methodology r) (rk_InherentScore r)" using assms by (simp add: risk_shape_def risk_row_ok_def)
  show ?thesis
  proof (cases "IsAggregableMethodology (rk_Methodology r) \<or> rk_Methodology r = RiskMethodologyFair")
    case True
    then show ?thesis using score_ok_inherentScalar [OF ok] by (auto simp: has_scalar_def)
  next
    case False
    obtain ms where ms: "rk_InherentScore r = RObj ms" "unmarshal_map (rk_InherentScore r) = Some (members ms)"
      using ok by (auto simp: score_ok_def)
    show ?thesis
    proof (cases "numField (members ms) ''severity''")
      case None
      with False ms show ?thesis by (simp add: has_scalar_def inherentScalar_def IsAggregableMethodology_def)
    next
      case (Some x)
      then have "is_float64 x" by (auto simp: numField_def split: option.splits rjson.splits dest: go_number_float)
      with Some ms show ?thesis by (simp add: has_scalar_def inherentScalar_def)
    qed
  qed
qed

text \<open>
  The confirmed proposal of a risk is the one writer that validates no score: without one it stores an
  empty object under NIST 800-30, which neither aggregation nor derivation can read.
\<close>

theorem proposed_risk_untyped:
  assumes "ApplyCreateRisk lib dbnow i t (Some inp) db = Inr (i, db')" "cri_Methodology inp = []" "cri_InherentScore inp = None"
  shows "\<exists>r \<in> set (db_risk_rows db'). rk_ID r = i \<and> rk_Methodology r = RiskMethodologyNist80030 \<and> \<not> risk_row_ok r
    \<and> inherentScalar (rk_Methodology r) (rk_InherentScore r) = None \<and> likelihoodImpactFromInherent lib (rk_InherentScore r) = None"
proof -
  obtain row where c: "CreateRisk lib dbnow i t (cri_Title inp) (cri_Description inp) (cri_Category inp) RiskMethodologyNist80030 (Some (RObj []))
      (if cri_Treatment inp = [] then RiskTreatmentAvoid else cri_Treatment inp) (cri_TreatmentOwner inp) (Some (RObj [])) None None [] [] db = Inr (row, db')"
    using assms by (auto simp: ApplyCreateRisk_def Let_def split: if_splits sum.splits)
  have row: "rk_ID row = i" "rk_Methodology row = RiskMethodologyNist80030" "rk_InherentScore row = RObj []" "row \<in> set (db_risk_rows db')"
    using c by (auto simp: CreateRisk_def jsonb_in_def split: if_splits option.splits elim!: insert_risk_InrE)
  then show ?thesis
    by (intro bexI [of _ row]) (simp_all add: risk_row_ok_def score_ok_def inherentScalar_def likelihoodImpactFromInherent_def
        numField_def members_def)
qed


subsection \<open>A register to evaluate\<close>

text \<open>Every \<open>float64\<close> is a multiple of the smallest one, so that many decimals print it exactly.\<close>

definition max_decimals :: nat where
  "max_decimals = 1074"

definition exact_digits :: "rat \<Rightarrow> int \<times> nat" where
  "exact_digits x = (\<lfloor>x * 10 ^ max_decimals\<rfloor>, max_decimals)"

lemma exact_digits_float:
  assumes "is_float64 x"
  shows "go_number (fst (exact_digits x)) (snd (exact_digits x)) = Some x"
proof -
  define e where "e = nat (ulp_exp x + int max_decimals)"
  have "- int max_decimals \<le> ulp_exp x" by (simp add: max_decimals_def ulp_exp_def)
  then have "ulp_exp x = int e - int max_decimals" by (simp add: e_def)
  then have q: "(2::rat) powi ulp_exp x * 2 ^ max_decimals = 2 ^ e"
    by (simp add: power_int_diff flip: power_int_of_nat)
  define k where "k = half_even (x / 2 powi ulp_exp x)"
  have x: "x = of_int k * 2 powi ulp_exp x" using assms by (simp add: is_float64_iff rounded_def k_def)
  have "x * 2 ^ max_decimals = of_int k * 2 ^ e"
    by (subst x) (simp only: mult.assoc q)
  moreover have "(10::rat) ^ max_decimals = 2 ^ max_decimals * 5 ^ max_decimals" by (simp flip: power_mult_distrib)
  ultimately have "x * 10 ^ max_decimals = of_int (k * 2 ^ e * 5 ^ max_decimals)" by (simp add: mult.assoc)
  then have "(of_int \<lfloor>x * 10 ^ max_decimals\<rfloor> :: rat) = x * 10 ^ max_decimals" by (metis floor_of_int)
  then have "num_value (fst (exact_digits x)) (snd (exact_digits x)) = x * 10 ^ max_decimals / 10 ^ max_decimals"
    unfolding exact_digits_def num_value_def fst_conv snd_conv by (rule arg_cong)
  also have "\<dots> = x" by simp
  finally have "num_value (fst (exact_digits x)) (snd (exact_digits x)) = x" .
  then show ?thesis using assms by (simp add: go_number_def is_float64_def)
qed

definition demo_score :: "int \<Rightarrow> nat \<Rightarrow> rjson" where
  "demo_score l s = RObj [(''likelihood'', RNum l s), (''impact'', RNum 4 0)]"

definition demo_score_lib :: score_lib where
  "demo_score_lib = \<lparr>sl_parse = (\<lambda>b. if b = ''plain'' then Some (demo_score 3 0) else if b = ''decimal'' then Some (demo_score 30 1) else None),
     sl_digits = exact_digits, sl_sha256hex = id, sl_uuid_string = (\<lambda>u. replicate (unat u) CHR ''u''), sl_log10 = (\<lambda>_. Fin 0),
     sl_int_range = (\<lambda>_. 0), sl_lower = id, sl_jsonb_ok = (\<lambda>_. True)\<rparr>"

lemma demo_digits_ok: "digits_ok demo_score_lib"
  using exact_digits_float by (auto simp: digits_ok_def demo_score_lib_def split: prod.splits) (metis fst_conv snd_conv)

definition demo_risk_input :: "bytes \<Rightarrow> risk_CreateInput" where
  "demo_risk_input score = \<lparr>ci_Title = ''outage'', ci_Description = [], ci_Category = ''availability'', ci_Methodology = RiskMethodologyQualitative5x5,
     ci_InherentScore = score, ci_Treatment = RiskTreatmentAvoid, ci_TreatmentOwner = [], ci_ResidualScore = [], ci_ReviewDueAt = None,
     ci_AcceptedUntil = None, ci_Accepter = [], ci_InstrumentReference = [], ci_LinkedControlIDs = []\<rparr>"

definition demo_risk_db :: risk_db where
  "demo_risk_db = \<lparr>db_dimensions = [], db_cells = [], db_controls = [], db_evidence = [], db_evaluations = [], db_org_units = [],
     db_risk_rows = [], db_risk_links = [], db_risk_aggregations = [], db_org_themes = []\<rparr>"

definition demo_risk_row :: "uuid \<Rightarrow> int \<Rightarrow> nat \<Rightarrow> risk_row" where
  "demo_risk_row i l s = \<lparr>rk_ID = i, rk_TenantID = 1, rk_Title = ''outage'', rk_Description = [], rk_Category = ''availability'',
     rk_Methodology = RiskMethodologyQualitative5x5, rk_InherentScore = jsonb (demo_score l s), rk_Treatment = RiskTreatmentAvoid,
     rk_TreatmentOwner = [], rk_ResidualScore = RObj [], rk_ReviewDueAt = None, rk_CreatedAt = 0, rk_UpdatedAt = 0, rk_AcceptedUntil = None,
     rk_Accepter = [], rk_InstrumentReference = [], rk_Level = ''team'', rk_OrgUnitID = None, rk_Themes = []\<rparr>"

lemma demo_risk_inv: "risk_inv demo_risk_db"
  by (simp add: risk_shape_def demo_risk_db_def rolls_up_def acyclic_def)

lemma demo_go_number [simp]: "go_number 3 0 = Some 3" "go_number 4 0 = Some 4" "go_number 30 (Suc 0) = Some 3"
  using go_number_int [of 3] go_number_int [of 4] by (simp_all add: go_number_def num_value_def)

lemma demo_grid_number [simp]: "grid_number 3" "grid_number 4"
  by (simp_all add: grid_number_def)

lemma demo_risk_create:
  assumes "i \<notin> rk_ID ` set rows" "(b, l, s) \<in> {(''plain'', 3, 0), (''decimal'', 30, 1)}"
  shows "\<exists>r. risk_Create demo_score_lib demo_env 0 i (demo_risk_input b) (demo_risk_db\<lparr>db_risk_rows := rows\<rparr>) =
    (Inr r, demo_risk_db\<lparr>db_risk_rows := rows @ [demo_risk_row i l s]\<rparr>)"
proof -
  have m: "RiskMethodologyQualitative5x5 \<noteq> RiskMethodologyNist80030" "RiskMethodologyQualitative5x5 \<noteq> []"
      "RiskTreatmentAvoid \<noteq> RiskTreatmentMitigate"
    by (simp_all add: methodology_defs treatment_defs)
  have "ValidateInherentScore demo_score_lib RiskMethodologyQualitative5x5 b = None" "b \<noteq> []" "sl_parse demo_score_lib b = Some (demo_score l s)"
    using assms(2) m(1) by (auto simp: ValidateInherentScore_def methodologySchemas_def Let_def unmarshal_any_def demo_score_lib_def demo_score_def
        qualitative5x5Schema_def grid_schema_def members_def opt_prop_def)
  moreover have "sl_jsonb_ok demo_score_lib = (\<lambda>_. True)" by (simp add: demo_score_lib_def)
  ultimately show ?thesis using assms(1) m(2,3)
    by (simp add: risk_Create_def demo_risk_input_def create_scores_def ValidateTreatment_def inTx_run CreateRisk_def insert_risk_def
        jsonb_in_def defaultResidual_def demo_risk_row_def risk_categories_def risk_methodologies_def risk_treatments_def risk_levels_def
        risks_check_def parent_fk_def pgTime_def pgDatePtr_def)
qed

section \<open>The heat map\<close>

text \<open>A score whose likelihood and impact were written without decimals.\<close>

definition plain_score :: "rjson \<Rightarrow> bool" where
  "plain_score j \<longleftrightarrow> (\<exists>ms l i. j = RObj ms \<and> members ms ''likelihood'' = Some (RNum l 0) \<and> members ms ''impact'' = Some (RNum i 0))"

lemma go_number_grid:
  assumes "go_number m 0 = Some (of_int k)" "1 \<le> k" "k \<le> 5"
  shows "m = k"
proof (cases "\<bar>m\<bar> \<le> 2 ^ 53")
  case True
  then show ?thesis using assms(1) by (simp add: go_number_int)
next
  case False
  have r: "rounded (of_int m) = of_int k"
    using assms(1) by (auto simp: go_number_def num_value_def round64_rounded split: float64.splits if_splits)
  have b: "rounded (of_int (2 ^ 53)) = of_int (2 ^ 53)" "rounded (of_int (- (2 ^ 53))) = of_int (- (2 ^ 53))"
    using is_float64_of_int [of "2 ^ 53"] is_float64_of_int [of "- (2 ^ 53)"] by (simp_all add: is_float64_iff del: of_int_power of_int_minus)
  from False consider "2 ^ 53 \<le> m" | "m \<le> - (2 ^ 53)" by linarith
  then show ?thesis
  proof cases
    case 1
    then have "(of_int (2 ^ 53) :: rat) \<le> of_int m" by (simp only: of_int_le_iff)
    from rounded_mono [OF this] have "(2 ^ 53 :: int) \<le> k" unfolding b r of_int_le_iff .
    then show ?thesis using assms(3) by simp
  next
    case 2
    then have "(of_int m :: rat) \<le> of_int (- (2 ^ 53))" by (simp only: of_int_le_iff)
    from rounded_mono [OF this] have "k \<le> (- (2 ^ 53) :: int)" unfolding b r of_int_le_iff .
    then show ?thesis using assms(2) by simp
  qed
qed

text \<open>The cell of a typed score, and that a score with decimals has none.\<close>

lemma cell_of_typed:
  assumes "score_ok (rk_Methodology r) (rk_InherentScore r)" "IsAggregableMethodology (rk_Methodology r)"
  shows "cell_of r = (if plain_score (rk_InherentScore r)
     then Some (likelihoodImpactFromInherent lib (rk_InherentScore r)) else None)"
  using assms
proof (rule score_ok_grid)
  fix ms l s i t x y
  assume j: "rk_InherentScore r = RObj ms" "members ms ''likelihood'' = Some (RNum l s)" "members ms ''impact'' = Some (RNum i t)"
    and n: "go_number l s = Some (of_int x)" "go_number i t = Some (of_int y)" "1 \<le> x" "x \<le> 5" "1 \<le> y" "y \<le> 5"
    and g: "go_numbers (rk_InherentScore r)"
  show ?thesis
  proof (cases "s = 0 \<and> t = 0")
    case True
    then have "l = x" "i = y" using go_number_grid n by auto
    then show ?thesis using True j n g
      by (simp add: cell_of_def json_number_def plain_score_def likelihoodImpactFromInherent_def numField_def int_of_float_small
          del: int_of_float.simps go_numbers.simps)
  next
    case False
    then show ?thesis using j by (auto simp: cell_of_def json_number_def plain_score_def)
  qed
qed

lemma map_filter_bind_Some:
  "(\<And>r. r \<in> set rows \<Longrightarrow> \<exists>x. f r = Some x) \<Longrightarrow> List.map_filter f rows = map (\<lambda>r. the (f r)) rows"
proof (induction rows)
  case (Cons a rows)
  obtain x where "f a = Some x" using Cons.prems [of a] by auto
  with Cons show ?case by (simp add: List.map_filter_simps)
qed (simp add: List.map_filter_simps)

lemma sum_count_remdups: "(\<Sum>x\<leftarrow>remdups xs. length (filter (\<lambda>y. y = x) xs)) = length xs"
proof -
  have "(\<Sum>x\<leftarrow>remdups xs. length (filter (\<lambda>y. y = x) xs)) = (\<Sum>x \<in> set xs. length (filter (\<lambda>y. y = x) xs))"
    by (subst sum_list_distinct_conv_sum_set) simp_all
  also have "\<dots> = (\<Sum>x \<in> set xs. count_list xs x)" by (simp add: count_list_eq_length_filter eq_commute)
  finally show ?thesis by (simp add: sum_count_set)
qed

text \<open>
  C10. The heat map counts every grid risk of the tenant exactly once, or fails for all of them. When
  the likelihood and impact of every NIST 800-30 and 5x5 risk were written without decimals, the map
  has each cell once, with the number of risks of that likelihood and impact, and the counts add up
  to the number of such risks. A single score written with decimals, which the validation accepts
  when its value is whole (3.0), makes the cast of the query fail and the request with it.
\<close>

theorem heatmap_all_or_nothing:
  assumes "tx_ok env" "tenant_of env = Some t" "risk_inv db"
  shows "if \<forall>r \<in> set (grid_risks t db). plain_score (rk_InherentScore r)
    then \<exists>cells. Heatmap env db = (Inr cells, db) \<and> distinct (map (\<lambda>(l, i, n). (l, i)) cells)
      \<and> (\<forall>(l, i, n) \<in> set cells. l \<in> {1..5} \<and> i \<in> {1..5}
           \<and> n = length (filter (\<lambda>r. likelihoodImpactFromInherent lib (rk_InherentScore r) = Some (l, i)) (grid_risks t db)))
      \<and> (\<Sum>(l, i, n)\<leftarrow>cells. n) = length (grid_risks t db)
    else Heatmap env db = (Inl (Dom (RkDatabase InvalidTextRepresentation)), db)"
proof -
  define rows where "rows = grid_risks t db"
  let ?li = "\<lambda>r. likelihoodImpactFromInherent lib (rk_InherentScore r)"
  have ok: "score_ok (rk_Methodology r) (rk_InherentScore r)" "IsAggregableMethodology (rk_Methodology r)" if "r \<in> set rows" for r
    using that assms(3) by (auto simp: rows_def grid_risks_def IsAggregableMethodology_def risk_shape_def risk_row_ok_def)
  have cell: "cell_of r = (if plain_score (rk_InherentScore r) then Some (?li r) else None)" if "r \<in> set rows" for r
    using cell_of_typed [OF ok [OF that]] .
  have run: "Heatmap env db = (case HeatmapBuckets t db of Inl e \<Rightarrow> (Inl (Dom (RkDatabase e)), db) | Inr cells \<Rightarrow> (Inr cells, db))"
    using assms by (simp add: Heatmap_def inTx_run split: sum.splits)
  show ?thesis
  proof (cases "\<forall>r \<in> set rows. plain_score (rk_InherentScore r)")
    case False
    then have "HeatmapBuckets t db = Inl InvalidTextRepresentation" using cell by (auto simp: HeatmapBuckets_def rows_def)
    with False run show ?thesis by (simp add: rows_def)
  next
    case True
    have some: "\<exists>l i. ?li r = Some (l, i) \<and> l \<in> {1..5} \<and> i \<in> {1..5}" if "r \<in> set rows" for r
      using score_ok_likelihoodImpact [OF ok [OF that], of lib] by (auto simp: on_grid_def)
    define cells where "cells = map (\<lambda>r. the (?li r)) rows"
    have "List.map_filter (\<lambda>r. Option.bind (cell_of r) id) rows = map (\<lambda>r. the (Option.bind (cell_of r) id)) rows"
      by (rule map_filter_bind_Some) (use True cell some in fastforce)
    also have "\<dots> = cells" unfolding cells_def by (rule map_cong) (use True cell in auto)
    finally have "HeatmapBuckets t db = Inr (map (\<lambda>(l, i). (l, i, length (filter (\<lambda>c. c = (l, i)) cells))) (sort (remdups cells)))"
      using True cell by (auto simp: HeatmapBuckets_def Let_def simp flip: rows_def)
    moreover have "length (filter (\<lambda>c. c = p) cells) = length (filter (\<lambda>r. ?li r = Some p) rows)" for p
      unfolding cells_def filter_map length_map comp_def
      by (rule arg_cong [where f = length], rule filter_cong) (use some in fastforce)+
    moreover have "(\<Sum>p\<leftarrow>sort (remdups cells). length (filter (\<lambda>c. c = p) cells)) = length rows"
      using sum_count_remdups [of cells] by (simp add: cells_def sum_list_distinct_conv_sum_set)
    moreover have "fst p \<in> {1..5} \<and> snd p \<in> {1..5}" if "p \<in> set cells" for p
      using that some by (fastforce simp: cells_def)
    ultimately show ?thesis using True run
      by (auto simp: comp_def case_prod_unfold simp flip: rows_def)
  qed
qed


lemma demo_grid_risks [simp]: "grid_risks 1 (demo_risk_db\<lparr>db_risk_rows := map (\<lambda>(i, l, s). demo_risk_row i l s) rs\<rparr>) = map (\<lambda>(i, l, s). demo_risk_row i l s) rs"
  by (auto simp: grid_risks_def demo_risk_row_def intro!: filter_True)

lemma demo_plain [simp]: "plain_score (rk_InherentScore (demo_risk_row i l s)) \<longleftrightarrow> s = 0"
proof -
  obtain ms where ms: "jsonb (demo_score l s) = RObj ms"
    "members ms = map_option jsonb \<circ> members [(''likelihood'', RNum l s), (''impact'', RNum 4 0)]"
    unfolding demo_score_def by (rule jsonb_ObjE)
  then have "plain_score (jsonb (demo_score l s)) \<longleftrightarrow> (\<exists>k i. map_option jsonb (members [(''likelihood'', RNum l s), (''impact'', RNum 4 0)] ''likelihood'') = Some (RNum k 0)
      \<and> map_option jsonb (members [(''likelihood'', RNum l s), (''impact'', RNum 4 0)] ''impact'') = Some (RNum i 0))"
    by (simp add: plain_score_def)
  then show ?thesis by (simp add: demo_risk_row_def members_def)
qed

lemma demo_two_inv: "risk_inv (demo_risk_db\<lparr>db_risk_rows := [demo_risk_row 7 3 0]\<rparr>)"
  "risk_inv (demo_risk_db\<lparr>db_risk_rows := [demo_risk_row 7 3 0, demo_risk_row 8 30 1]\<rparr>)"
proof -
  obtain r where r: "risk_Create demo_score_lib demo_env 0 7 (demo_risk_input ''plain'') demo_risk_db =
      (Inr r, demo_risk_db\<lparr>db_risk_rows := [demo_risk_row 7 3 0]\<rparr>)"
    using demo_risk_create [of 7 "[]" "''plain''" 3 0] by (auto simp: demo_risk_db_def)
  show one: "risk_inv (demo_risk_db\<lparr>db_risk_rows := [demo_risk_row 7 3 0]\<rparr>)"
    by (rule risk_inv_Create [OF demo_risk_inv demo_digits_ok r])
  obtain r' where r': "risk_Create demo_score_lib demo_env 0 8 (demo_risk_input ''decimal'') (demo_risk_db\<lparr>db_risk_rows := [demo_risk_row 7 3 0]\<rparr>) =
      (Inr r', demo_risk_db\<lparr>db_risk_rows := [demo_risk_row 7 3 0, demo_risk_row 8 30 1]\<rparr>)"
    using demo_risk_create [of 8 "[demo_risk_row 7 3 0]" "''decimal''" 30 1] by (auto simp: demo_risk_row_def)
  show "risk_inv (demo_risk_db\<lparr>db_risk_rows := [demo_risk_row 7 3 0, demo_risk_row 8 30 1]\<rparr>)"
    by (rule risk_inv_Create [OF one demo_digits_ok r'])
qed

theorem heatmap_all_or_nothing_witness:
  "(\<exists>cells. Heatmap demo_env (demo_risk_db\<lparr>db_risk_rows := [demo_risk_row 7 3 0]\<rparr>) =
      (Inr cells, demo_risk_db\<lparr>db_risk_rows := [demo_risk_row 7 3 0]\<rparr>) \<and> (\<Sum>(l, i, n)\<leftarrow>cells. n) = 1)
   \<and> fst (Heatmap demo_env (demo_risk_db\<lparr>db_risk_rows := [demo_risk_row 7 3 0, demo_risk_row 8 30 1]\<rparr>)) =
      Inl (Dom (RkDatabase InvalidTextRepresentation))"
proof -
  note rows = demo_grid_risks [of "[(7, 3, 0)]"] demo_grid_risks [of "[(7, 3, 0), (8, 30, 1)]"]
  show ?thesis
    using heatmap_all_or_nothing [OF demo_env_simps(2,1) demo_two_inv(1), of demo_score_lib]
      heatmap_all_or_nothing [OF demo_env_simps(2,1) demo_two_inv(2), of demo_score_lib] rows
    by auto
qed


section \<open>The identity of an aggregation\<close>

lemma strField_jsonb [simp]: "strField (map_option jsonb \<circ> m) key = strField m key"
proof (cases "m key")
  case (Some v)
  then show ?thesis by (cases v) (simp_all add: strField_def)
qed (simp add: strField_def)

lemma stored_aggregate:
  assumes "jsonb_in lib (Some (aggregate_inherent l i s fn n key)) = Some j" "n \<le> 2 ^ 53" "l \<in> {1..5}" "i \<in> {1..5}" "0 \<le> s" "s \<le> 25"
  shows "json_text j ''aggregation_key'' = Some key"
    "extractAggregationMeta lib j = \<lparr>am_Severity = s, am_Likelihood = l, am_Impact = i, am_SeverityFunction = fn, am_AggregationKey = key\<rparr>"
proof -
  let ?ms = "[(''aggregation_key'', RStr key), (''child_count'', json_int (int n)), (''impact'', json_int i),
           (''likelihood'', json_int l), (''severity'', json_int s), (''severity_function'', RStr fn)]"
  obtain ms where ms: "j = RObj ms" "members ms = map_option jsonb \<circ> members ?ms"
    using jsonb_ObjE [of ?ms] assms(1) by (auto simp: jsonb_in_def aggregate_inherent_def split: if_splits)
  have "score_ok RiskMethodologyQualitative5x5 j"
    using score_ok_jsonb [OF aggregate_score_ok [OF assms(3-6,2)]] assms(1) by (auto simp: jsonb_in_def split: if_splits)
  then have "go_numbers j" by (auto simp: score_ok_def)
  then have u: "unmarshal_map j = Some (map_option jsonb \<circ> members ?ms)" using ms by simp
  show "json_text j ''aggregation_key'' = Some key" by (simp add: json_text_def ms) (simp add: strField_def members_def)
  have n: "go_number s 0 = Some (of_int s)" "go_number l 0 = Some (of_int l)" "go_number i 0 = Some (of_int i)"
    using assms(3-6) by (auto intro!: go_number_int)
  have f: "int_of_float lib (Fin (of_int s)) = s" "int_of_float lib (Fin (of_int l)) = l" "int_of_float lib (Fin (of_int i)) = i"
    using assms(3-6) by (auto intro!: int_of_float_small simp del: int_of_float.simps)
  show "extractAggregationMeta lib j = \<lparr>am_Severity = s, am_Likelihood = l, am_Impact = i, am_SeverityFunction = fn, am_AggregationKey = key\<rparr>"
    by (simp add: extractAggregationMeta_def u Let_def del: int_of_float.simps)
      (simp add: numField_def strField_def members_def json_int_def n f del: int_of_float.simps)
qed

lemma link_children_exact:
  assumes "link_children dbnow p t cs db = Inr db'" "distinct cs"
    "\<forall>a \<in> set (db_risk_aggregations db). ra_ParentRiskID a = p \<longrightarrow> ra_ChildRiskID a \<notin> set cs"
  shows "db_risk_rows db' = db_risk_rows db"
    and "map ra_ChildRiskID (filter (\<lambda>a. ra_TenantID a = t \<and> ra_ParentRiskID a = p) (db_risk_aggregations db')) =
      map ra_ChildRiskID (filter (\<lambda>a. ra_TenantID a = t \<and> ra_ParentRiskID a = p) (db_risk_aggregations db)) @ cs"
  using assms
proof (induction cs arbitrary: db)
  case (Cons c cs)
  {
    case 1
    then show ?case using Cons.IH(1) by (auto simp: LinkRiskAggregation_def split: sum.splits if_splits)
  next
    case 2
    then show ?case using Cons.IH(2) by (auto simp: LinkRiskAggregation_def split: sum.splits if_splits)
  }
qed simp_all

lemma find_append_new: "List.find P xs = None \<Longrightarrow> P y \<Longrightarrow> List.find P (xs @ [y]) = Some y"
  by (induction xs) (auto split: if_splits)

text \<open>The aggregation that a later call with the same key finds.\<close>

definition same_aggregation :: "AggregateResult \<Rightarrow> AggregateResult \<Rightarrow> bool" where
  "same_aggregation a b \<longleftrightarrow> ar_Parent a = ar_Parent b \<and> set (ar_LinkedChildren a) = set (ar_LinkedChildren b)
     \<and> length (ar_LinkedChildren a) = length (ar_LinkedChildren b)
     \<and> ar_Severity a = ar_Severity b \<and> ar_Likelihood a = ar_Likelihood b \<and> ar_Impact a = ar_Impact b
     \<and> ar_ChildCount a = ar_ChildCount b \<and> ar_SeverityFunction a = ar_SeverityFunction b \<and> ar_AggregationKey a = ar_AggregationKey b"

definition aggregate_valid :: "AggregateInput \<Rightarrow> bool" where
  "aggregate_valid inp \<longleftrightarrow> ai_ParentTitle inp \<noteq> [] \<and> ai_ChildRiskIDs inp \<noteq> [] \<and> isValidLevel (ai_ParentLevel inp)
     \<and> ai_SeverityFunction inp \<in> set AllowedSeverityFunctions"

definition key_of :: "score_lib \<Rightarrow> AggregateInput \<Rightarrow> string" where
  "key_of lib inp = AggregationKey lib (ai_ParentTitle inp) (uniqueUUIDs (ai_ChildRiskIDs inp))"

lemma Aggregate_run:
  assumes "aggregate_valid inp" "tx_ok env" "tenant_of env = Some t"
  shows "Aggregate lib describe env dbnow p inp db =
    (case GetRiskByAggregationKey t (key_of lib inp) db of
       Some existing \<Rightarrow> (Inr (aggregate_existing lib t existing (key_of lib inp) db), db)
     | None \<Rightarrow> (case aggregate_new lib describe dbnow p inp (uniqueUUIDs (ai_ChildRiskIDs inp)) (key_of lib inp) t db of
         Inl e \<Rightarrow> (Inl (Dom e), db) | Inr (r, db') \<Rightarrow> (Inr r, db')))"
  using assms by (simp add: Aggregate_def aggregate_valid_def Let_def inTx_run key_of_def split: option.splits sum.splits prod.splits)

lemma Aggregate_InrD:
  assumes "Aggregate lib describe env dbnow p inp db = (Inr r, db')"
  shows "aggregate_valid inp" "tx_ok env" "\<exists>t. tenant_of env = Some t"
  using assms by (auto simp: Aggregate_def aggregate_valid_def Let_def inTx_Inr_iff split: if_splits)

lemma aggregate_new_found:
  assumes "risk_inv db" "length children \<le> 2 ^ 53" "distinct children" "GetRiskByAggregationKey t key db = None"
    "aggregate_new lib describe dbnow p inp children key t db = Inr (r, db')"
  shows "\<exists>row. GetRiskByAggregationKey t key db' = Some row \<and> same_aggregation (aggregate_existing lib t row key db') r"
  using assms(5)
proof (cases rule: aggregate_new_cases)
  case (1 scores severity j row db1)
  have sev: "0 \<le> severity" "severity \<le> SeverityScaleMax" using ComputeSeverity_bounds [OF 1(3)] by simp_all
  note st = stored_aggregate [OF 1(4) assms(2) DeriveGridCell_range [OF sev]]
  have stored: "json_text j ''aggregation_key'' = Some key" "extractAggregationMeta lib j = \<lparr>am_Severity = severity,
      am_Likelihood = fst (DeriveGridCell lib severity), am_Impact = snd (DeriveGridCell lib severity),
      am_SeverityFunction = ai_SeverityFunction inp, am_AggregationKey = key\<rparr>"
    using sev by (auto intro!: st simp: SeverityScaleMax_def)
  from 1(9) have db1: "db1 = db\<lparr>db_risk_rows := db_risk_rows db @ [row]\<rparr>" "rk_ID row \<notin> rk_ID ` set (db_risk_rows db)"
    by (auto elim: insert_risk_InrE)
  have parents: "ra_ParentRiskID a \<noteq> p" if "a \<in> set (db_risk_aggregations db)" for a
  proof -
    have "has_risk (ra_TenantID a) (ra_ParentRiskID a) db" using assms(1) that by (simp add: risk_shape_def agg_ok_def)
    then have "ra_ParentRiskID a \<in> rk_ID ` set (db_risk_rows db)" by (rule has_risk_id)
    then show ?thesis using db1(2) 1(8) by metis
  qed
  then have none: "filter (\<lambda>a. ra_TenantID a = t \<and> ra_ParentRiskID a = p) (db_risk_aggregations db) = []" by (auto simp: filter_empty_conv)
  have kids: "db_risk_rows db' = db_risk_rows db @ [row]"
    "map ra_ChildRiskID (filter (\<lambda>a. ra_TenantID a = t \<and> ra_ParentRiskID a = p) (db_risk_aggregations db')) = children"
    using link_children_exact [OF 1(10) assms(3)] parents none by (auto simp: db1(1))
  have "GetRiskByAggregationKey t key db' = Some row"
    using assms(4) stored(1) 1(6,7) by (auto simp: GetRiskByAggregationKey_def kids(1) intro!: find_append_new)
  moreover have "set (map ra_ChildRiskID (ListRiskAggregationChildren t p db')) = set children"
    "length (map ra_ChildRiskID (ListRiskAggregationChildren t p db')) = length children"
    using arg_cong [OF kids(2), of set] arg_cong [OF kids(2), of length] by (simp_all add: ListRiskAggregationChildren_def)
  ultimately show ?thesis using 1(6,8,11) stored(2) by (simp add: same_aggregation_def aggregate_existing_def Let_def)
qed

lemma Aggregate_again:
  assumes "Aggregate lib describe env dbnow p inp db = (Inr r, db')" "risk_inv db" "length (ai_ChildRiskIDs inp) \<le> 2 ^ 53"
    "aggregate_valid inp'" "tx_ok env'" "tenant_of env' = tenant_of env" "key_of lib inp' = key_of lib inp"
  shows "\<exists>r'. Aggregate lib describe' env' dbnow' p' inp' db' = (Inr r', db') \<and> same_aggregation r' r"
proof -
  obtain t where t: "tenant_of env = Some t" using Aggregate_InrD [OF assms(1)] by blast
  note run = assms(1) [unfolded Aggregate_run [OF Aggregate_InrD(1,2) [OF assms(1)] t]]
  have "\<exists>row. GetRiskByAggregationKey t (key_of lib inp) db' = Some row
      \<and> same_aggregation (aggregate_existing lib t row (key_of lib inp) db') r"
  proof (cases "GetRiskByAggregationKey t (key_of lib inp) db")
    case None
    then have "aggregate_new lib describe dbnow p inp (uniqueUUIDs (ai_ChildRiskIDs inp)) (key_of lib inp) t db = Inr (r, db')"
      using run by (auto split: sum.splits)
    then show ?thesis
      using aggregate_new_found [OF assms(2) _ distinct_uniqueUUIDs None] length_uniqueUUIDs_le [of "ai_ChildRiskIDs inp"] assms(3) le_trans by blast
  next
    case (Some row)
    then show ?thesis using run by (auto simp: same_aggregation_def)
  qed
  then show ?thesis using Aggregate_run [OF assms(4,5), of t lib describe' dbnow' p' db'] assms(6,7) t by auto
qed

text \<open>
  C14. Aggregating again gives the aggregation that is there. After a successful \<open>Aggregate\<close>, a call
  with the same title and the same set of children, in any order and with any repetitions, by the same
  tenant at any later time, inserts and links nothing and returns the same parent with the same
  children, severity, cell and severity function, which \<open>jsonb\<close> has kept; the level, the unit and the
  severity function of the later call are ignored.
\<close>

theorem aggregate_idempotent:
  assumes "Aggregate lib describe env dbnow p inp db = (Inr r, db')" "risk_inv db" "length (ai_ChildRiskIDs inp) \<le> 2 ^ 53"
    "inj (sl_uuid_string lib)" "aggregate_valid inp'" "tx_ok env'" "tenant_of env' = tenant_of env"
    "ai_ParentTitle inp' = ai_ParentTitle inp" "set (ai_ChildRiskIDs inp') = set (ai_ChildRiskIDs inp)"
  shows "\<exists>r'. Aggregate lib describe' env' dbnow' p' inp' db' = (Inr r', db') \<and> same_aggregation r' r"
proof (rule Aggregate_again [OF assms(1-3,5-7)])
  show "key_of lib inp' = key_of lib inp"
    unfolding key_of_def assms(8) by (rule AggregationKey_set [OF assms(4)]) (simp_all add: assms(9))
qed

text \<open>
  The key joins the title and the children with a bar, so a title that ends in a bar and an identifier
  has the key of the shorter title with one child more: the later of the two is not created.
\<close>

lemma aggregation_key_collision:
  assumes "sl_uuid_string lib u \<le> sl_uuid_string lib v"
  shows "AggregationKey lib (title @ ''|'' @ sl_uuid_string lib u) [v] = AggregationKey lib title [u, v]"
  using assms by (simp add: AggregationKey_def)

definition demo_aggregation :: "string \<Rightarrow> uuid list \<Rightarrow> AggregateInput" where
  "demo_aggregation fn children = \<lparr>ai_ParentTitle = ''all'', ai_ParentLevel = ''org'', ai_ParentOrgUnitID = None,
     ai_SeverityFunction = fn, ai_ChildRiskIDs = children\<rparr>"

lemma demo_child_scores:
  "\<exists>cs. child_scores demo_score_lib [demo_risk_row 7 3 0, demo_risk_row 8 30 1] = Inr cs \<and> length cs = 2 \<and> list_all on_grid cs"
  using child_scores_grid [of "[demo_risk_row 7 3 0, demo_risk_row 8 30 1]" demo_score_lib] demo_two_inv(2)
  by (auto simp: risk_shape_def demo_risk_row_def IsAggregableMethodology_def)

lemma demo_uuid_string: "inj (sl_uuid_string demo_score_lib)"
proof (rule injI)
  fix u v :: uuid
  assume "sl_uuid_string demo_score_lib u = sl_uuid_string demo_score_lib v"
  then have "length (replicate (unat u) CHR ''u'') = length (replicate (unat v) CHR ''u'')" by (simp add: demo_score_lib_def)
  then show "u = v" by (simp add: word_unat_eq_iff)
qed

lemma demo_aggregate:
  "\<exists>r db'. Aggregate demo_score_lib (\<lambda>_ _. []) demo_env 0 9 (demo_aggregation SeverityFunctionMax [8, 7])
      (demo_risk_db\<lparr>db_risk_rows := [demo_risk_row 7 3 0, demo_risk_row 8 30 1]\<rparr>) = (Inr r, db')"
proof -
  let ?db = "demo_risk_db\<lparr>db_risk_rows := [demo_risk_row 7 3 0, demo_risk_row 8 30 1]\<rparr>"
  let ?inp = "demo_aggregation SeverityFunctionMax [8, 7]"
  have valid: "aggregate_valid ?inp"
    by (simp add: aggregate_valid_def demo_aggregation_def isValidLevel_def AllowedSeverityFunctions_def)
  have key: "json_text (rk_InherentScore (demo_risk_row i l s)) ''aggregation_key'' = None" for i l s
  proof -
    obtain ms where ms: "jsonb (demo_score l s) = RObj ms"
      "members ms = map_option jsonb \<circ> members [(''likelihood'', RNum l s), (''impact'', RNum 4 0)]"
      unfolding demo_score_def by (rule jsonb_ObjE)
    then show ?thesis by (simp add: json_text_def demo_risk_row_def) (simp add: strField_def members_def)
  qed
  have rows: "ListRisksByIDs 1 [8, 7] ?db = [demo_risk_row 7 3 0, demo_risk_row 8 30 1]"
    by (simp add: ListRisksByIDs_def demo_risk_row_def)
  obtain cs where cs: "child_scores demo_score_lib [demo_risk_row 7 3 0, demo_risk_row 8 30 1] = Inr cs" "length cs = 2"
    using demo_child_scores by blast
  then have sev: "ComputeSeverity demo_score_lib SeverityFunctionMax cs = Inr (capScale (max_severity cs))"
    by (auto simp: ComputeSeverity_def)
  have row: "rk_ID (demo_risk_row i l s) = i" "rk_TenantID (demo_risk_row i l s) = 1" "rk_Category (demo_risk_row i l s) = ''availability''" for i l s
    by (simp_all add: demo_risk_row_def)
  have db: "db_risk_aggregations ?db = []" "sl_jsonb_ok demo_score_lib = (\<lambda>_. True)" "ai_ParentOrgUnitID ?inp = None"
    "ai_ParentLevel ?inp = ''org''" "ai_SeverityFunction ?inp = SeverityFunctionMax"
    by (simp_all add: demo_risk_db_def demo_score_lib_def demo_aggregation_def)
  have "\<exists>x. aggregate_new demo_score_lib (\<lambda>_ _. []) 0 9 ?inp [8, 7] k 1 ?db = Inr x" for k
    by (cases "DeriveGridCell demo_score_lib (capScale (max_severity cs))")
      (simp add: aggregate_new_def Let_def rows cs sev row db CreateAggregateRisk_def jsonb_in_def insert_risk_def
        risk_categories_def risk_methodologies_def risk_treatments_def risk_levels_def risks_check_def parent_fk_def
        LinkRiskAggregation_def GetRiskByID_def del: One_nat_def child_scores.simps)
  moreover have "uniqueUUIDs (ai_ChildRiskIDs ?inp) = [8, 7]" by (simp add: demo_aggregation_def)
  moreover have "GetRiskByAggregationKey 1 k ?db = None" for k by (simp add: GetRiskByAggregationKey_def key)
  ultimately show ?thesis using Aggregate_run [OF valid demo_env_simps(2,1), of demo_score_lib "\<lambda>_ _. []" 0 9 ?db]
    by (metis (no_types, lifting) old.sum.simps(6) option.simps(4) old.prod.case surj_pair)
qed

theorem aggregate_idempotent_witness:
  "\<exists>r db' r'. Aggregate demo_score_lib (\<lambda>_ _. []) demo_env 0 9 (demo_aggregation SeverityFunctionMax [8, 7])
      (demo_risk_db\<lparr>db_risk_rows := [demo_risk_row 7 3 0, demo_risk_row 8 30 1]\<rparr>) = (Inr r, db')
    \<and> Aggregate demo_score_lib (\<lambda>_ _. []) demo_env 5000 10 (demo_aggregation SeverityFunctionSum [7, 8, 7]) db' = (Inr r', db')
    \<and> same_aggregation r' r"
proof -
  obtain r db' where r: "Aggregate demo_score_lib (\<lambda>_ _. []) demo_env 0 9 (demo_aggregation SeverityFunctionMax [8, 7])
      (demo_risk_db\<lparr>db_risk_rows := [demo_risk_row 7 3 0, demo_risk_row 8 30 1]\<rparr>) = (Inr r, db')"
    using demo_aggregate by blast
  have "aggregate_valid (demo_aggregation SeverityFunctionSum [7, 8, 7])"
    by (simp add: aggregate_valid_def demo_aggregation_def isValidLevel_def AllowedSeverityFunctions_def)
  with aggregate_idempotent [OF r demo_two_inv(2) _ demo_uuid_string _ demo_env_simps(2) refl, of "demo_aggregation SeverityFunctionSum [7, 8, 7]"
      "\<lambda>_ _. []" 5000 10] r
  show ?thesis by (auto simp: demo_aggregation_def insert_commute)
qed

end
