(* ===== verification/Risk_Residual.thy ===== *)
theory Risk_Residual
  imports Risk_Register_Run Eval_Consumer
begin

text \<open>
  \<open>internal/risk/residual_store.go\<close> and \<open>residual_sub.go\<close>: the derivation of a residual score from the
  linked controls, its storage, and the subscriber that derives again for every ingested record, over
  the evaluation engine of \<open>Eval_Engine\<close> and the formula of \<open>Risk_Score\<close>.

  Every call of the engine or the store runs in a transaction of its own; a \<open>residual_draw\<close> has what
  the calls for one control draw (the transactions, the clock of the effectiveness window and what
  the evaluation draws), a \<open>risk_draw\<close> what the derivation for one risk draws. As in \<open>Eval_Consumer\<close>,
  the protobuf decoder and \<open>uuid.Parse\<close> are parameters of the handler.
\<close>

record residual_draw =
  rd_eval :: eval_draw
  rd_eff_env :: txenv
  rd_now :: gotime
  rd_state_env :: txenv

record risk_draw =
  rx_read_env :: txenv
  rx_write_env :: txenv
  rx_dbnow :: gotime
  rx_control :: "uuid \<Rightarrow> residual_draw"

datatype residual_error =
    RsRisk "risk_error err" | RsInherent uuid | RsEngine uuid "eval_error err" | RsMarshal

record ControlBreakdown =
  cb_ControlID :: uuid
  cb_DesignScore :: float64
  cb_OperationalScore :: float64
  cb_CoverageScore :: float64
  cb_WeightDesign :: float64
  cb_WeightOperation :: float64
  cb_WeightCoverage :: float64
  cb_ControlEffectiveness :: float64
  cb_OperationalNoData :: bool

record ResidualResult =
  rs_RiskID :: uuid
  rs_InherentScore :: float64
  rs_ResidualScore :: float64
  rs_WeightedControlEffectiveness :: float64
  rs_Breakdown :: "ControlBreakdown list"
  rs_Warning :: string

definition WarningNoControlsLinked :: string where
  "WarningNoControlsLinked = ''no_controls_linked''"


section \<open>The derivation\<close>

definition operationalScore ::
  "eval_lib \<Rightarrow> residual_draw \<Rightarrow> uuid \<Rightarrow> 'z eval_db_scheme \<Rightarrow> residual_error + float64 \<times> bool" where
  "operationalScore elib d controlID db =
     (case fst (Effectiveness_of elib (rd_eff_env d) (rd_now d) controlID db) of
        Inl e \<Rightarrow> if e = Dom ErrControlNotFound then Inr (Fin 0, True) else Inl (RsEngine controlID e)
      | Inr eff \<Rightarrow> Inr (round64 (eff_PassRate eff), eff_TotalCount eff = 0))"

text \<open>With an empty predicate, \<open>ControlState\<close> uses neither the scope grammar nor the cells.\<close>

definition coverageScore ::
  "eval_lib \<Rightarrow> residual_draw \<Rightarrow> uuid \<Rightarrow> 'z eval_db_scheme \<Rightarrow> residual_error + float64" where
  "coverageScore elib d controlID db =
     (case fst (ControlState elib (\<lambda>_. Inl []) (rd_state_env d) (Inr []) controlID [] FarFuture db) of
        Inl e \<Rightarrow> if e = Dom ErrControlNotFound then Inr (Fin 0) else Inl (RsEngine controlID e)
      | Inr states \<Rightarrow>
        if states = [] then Inr (Fin 0)
        else Inr (f_div_count (f_of_int (int (length (filter (\<lambda>s. st_Result s = ResultPass) states)))) (length states)))"

definition link_components :: "risk_link \<Rightarrow> float64 \<Rightarrow> float64 \<Rightarrow> EffectivenessComponents" where
  "link_components l operational coverage =
     \<lparr>ec_DesignScore = numericToFloat (rlk_DesignScore l), ec_OperationalScore = operational, ec_CoverageScore = coverage,
      ec_WeightDesign = numericToFloat (rlk_WeightDesign l), ec_WeightOperation = numericToFloat (rlk_WeightOperation l),
      ec_WeightCoverage = numericToFloat (rlk_WeightCoverage l)\<rparr>"

definition breakdown_of :: "risk_link \<Rightarrow> float64 \<Rightarrow> bool \<Rightarrow> float64 \<Rightarrow> ControlBreakdown" where
  "breakdown_of l operational noData coverage =
     \<lparr>cb_ControlID = rlk_ControlID l, cb_DesignScore = numericToFloat (rlk_DesignScore l), cb_OperationalScore = operational,
      cb_CoverageScore = coverage, cb_WeightDesign = numericToFloat (rlk_WeightDesign l),
      cb_WeightOperation = numericToFloat (rlk_WeightOperation l), cb_WeightCoverage = numericToFloat (rlk_WeightCoverage l),
      cb_ControlEffectiveness = ControlEffectiveness (link_components l operational coverage), cb_OperationalNoData = noData\<rparr>"

definition controlBreakdown ::
  "eval_lib \<Rightarrow> 'z eval_db_scheme resolver \<Rightarrow> residual_draw \<Rightarrow> risk_link \<Rightarrow> bool \<Rightarrow> 'z eval_db_scheme \<Rightarrow>
   (residual_error + ControlBreakdown) \<times> 'z eval_db_scheme" where
  "controlBreakdown elib resolve d l recompute db =
     (let controlID = rlk_ControlID l;
          run = (if recompute then EvaluateControl elib resolve (rd_eval d) controlID TriggerIngest FarFuture db else (Inr 0, db));
          failed = (case fst run of Inl e \<Rightarrow> if e = Dom ErrControlNotFound then None else Some e | Inr _ \<Rightarrow> None);
          db1 = snd run
      in case failed of
           Some e \<Rightarrow> (Inl (RsEngine controlID e), db1)
         | None \<Rightarrow>
           (case operationalScore elib d controlID db1 of
              Inl e \<Rightarrow> (Inl e, db1)
            | Inr (operational, noData) \<Rightarrow>
              (case coverageScore elib d controlID db1 of
                 Inl e \<Rightarrow> (Inl e, db1) | Inr coverage \<Rightarrow> (Inr (breakdown_of l operational noData coverage), db1))))"

fun derive_links ::
  "eval_lib \<Rightarrow> 'z eval_db_scheme resolver \<Rightarrow> (uuid \<Rightarrow> residual_draw) \<Rightarrow> bool \<Rightarrow> risk_link list \<Rightarrow> 'z eval_db_scheme \<Rightarrow>
   (residual_error + ControlBreakdown list) \<times> 'z eval_db_scheme" where
  "derive_links elib resolve draw recompute [] db = (Inr [], db)"
| "derive_links elib resolve draw recompute (l # ls) db =
     (case controlBreakdown elib resolve (draw (rlk_ControlID l)) l recompute db of
        (Inl e, db1) \<Rightarrow> (Inl e, db1)
      | (Inr b, db1) \<Rightarrow>
        (case derive_links elib resolve draw recompute ls db1 of
           (Inl e, db2) \<Rightarrow> (Inl e, db2) | (Inr bs, db2) \<Rightarrow> (Inr (b # bs), db2)))"

definition Derive ::
  "eval_lib \<Rightarrow> 'z risk_db_scheme resolver \<Rightarrow> risk_draw \<Rightarrow> uuid \<Rightarrow> bool \<Rightarrow> 'z risk_db_scheme \<Rightarrow>
   (residual_error + ResidualResult) \<times> 'z risk_db_scheme" where
  "Derive elib resolve d riskID recompute db =
     (case fst (inTx (rx_read_env d) (\<lambda>t db0.
             (case GetRiskByID t riskID db0 of
                None \<Rightarrow> Inl RkErrNotFound
              | Some row \<Rightarrow> Inr ((row, ListRiskControlLinkWeights t riskID db0), db0))) db) of
        Inl e \<Rightarrow> (Inl (RsRisk e), db)
      | Inr (row, links) \<Rightarrow>
        (case inherentScalar (rk_Methodology row) (rk_InherentScore row) of
           None \<Rightarrow> (Inl (RsInherent riskID), db)
         | Some inherent \<Rightarrow>
           if links = [] then
             (Inr \<lparr>rs_RiskID = riskID, rs_InherentScore = inherent, rs_ResidualScore = inherent,
                   rs_WeightedControlEffectiveness = Fin 0, rs_Breakdown = [], rs_Warning = WarningNoControlsLinked\<rparr>, db)
           else
             (case derive_links elib resolve (rx_control d) recompute links db of
                (Inl e, db1) \<Rightarrow> (Inl e, db1)
              | (Inr bs, db1) \<Rightarrow>
                (let w = WeightedEffectiveness (map cb_ControlEffectiveness bs)
                 in (Inr \<lparr>rs_RiskID = riskID, rs_InherentScore = inherent, rs_ResidualScore = ResidualScore inherent w,
                          rs_WeightedControlEffectiveness = w, rs_Breakdown = bs, rs_Warning = []\<rparr>, db1)))))"


section \<open>Storage\<close>

text \<open>\<open>json.Marshal\<close> refuses the floats that are not finite, and writes a nil slice as null.\<close>

fun marshal_float :: "score_lib \<Rightarrow> float64 \<Rightarrow> rjson option" where
  "marshal_float lib (Fin x) = Some (json_float lib x)"
| "marshal_float lib _ = None"

definition marshal_members :: "(string \<times> rjson option) list \<Rightarrow> rjson option" where
  "marshal_members ms = map_option RObj (those (map (\<lambda>(k, v). map_option (Pair k) v) ms))"

definition breakdown_json :: "score_lib \<Rightarrow> ControlBreakdown \<Rightarrow> rjson option" where
  "breakdown_json lib b =
     marshal_members
       [(''control_id'', Some (RStr (sl_uuid_string lib (cb_ControlID b)))), (''design_score'', marshal_float lib (cb_DesignScore b)),
        (''operational_score'', marshal_float lib (cb_OperationalScore b)), (''coverage_score'', marshal_float lib (cb_CoverageScore b)),
        (''weight_design'', marshal_float lib (cb_WeightDesign b)), (''weight_operation'', marshal_float lib (cb_WeightOperation b)),
        (''weight_coverage'', marshal_float lib (cb_WeightCoverage b)),
        (''control_effectiveness'', marshal_float lib (cb_ControlEffectiveness b)),
        (''operational_no_data'', Some (RBool (cb_OperationalNoData b)))]"

definition residualBlob :: "score_lib \<Rightarrow> ResidualResult \<Rightarrow> rjson option" where
  "residualBlob lib r =
     marshal_members
       ([(''score'', marshal_float lib (rs_ResidualScore r)), (''inherent_score'', marshal_float lib (rs_InherentScore r)),
         (''weighted_control_effectiveness'', marshal_float lib (rs_WeightedControlEffectiveness r)),
         (''breakdown'', if rs_Breakdown r = [] then Some RNull else map_option RArr (those (map (breakdown_json lib) (rs_Breakdown r))))]
        @ (if rs_Warning r = [] then [] else [(''warning'', Some (RStr (rs_Warning r)))]))"

definition persist_residual ::
  "score_lib \<Rightarrow> txenv \<Rightarrow> gotime \<Rightarrow> uuid \<Rightarrow> rjson \<Rightarrow> 'z risk_db_scheme \<Rightarrow> (risk_error err + unit) \<times> 'z risk_db_scheme" where
  "persist_residual lib env dbnow riskID blob db =
     inTx env (\<lambda>t db0.
       (case UpdateRiskResidual lib dbnow t riskID blob db0 of
          Inl NoRows \<Rightarrow> Inl RkErrNotFound
        | Inl e \<Rightarrow> Inl (RkDatabase e)
        | Inr (_, db1) \<Rightarrow> Inr ((), db1))) db"

definition DeriveAndPersist ::
  "score_lib \<Rightarrow> eval_lib \<Rightarrow> 'z risk_db_scheme resolver \<Rightarrow> risk_draw \<Rightarrow> uuid \<Rightarrow> bool \<Rightarrow> 'z risk_db_scheme \<Rightarrow>
   (residual_error + ResidualResult) \<times> 'z risk_db_scheme" where
  "DeriveAndPersist lib elib resolve d riskID recompute db =
     (case Derive elib resolve d riskID recompute db of
        (Inl e, db1) \<Rightarrow> (Inl e, db1)
      | (Inr result, db1) \<Rightarrow>
        (case residualBlob lib result of
           None \<Rightarrow> (Inl RsMarshal, db1)
         | Some blob \<Rightarrow>
           (case persist_residual lib (rx_write_env d) (rx_dbnow d) riskID blob db1 of
              (Inl e, db2) \<Rightarrow> (Inl (RsRisk e), db2)
            | (Inr _, db2) \<Rightarrow> (Inr result, db2))))"


section \<open>The subscriber\<close>

definition linkedRisks ::
  "txenv \<Rightarrow> uuid \<Rightarrow> uuid \<Rightarrow> 'z risk_db_scheme \<Rightarrow> (risk_error err + uuid list) \<times> 'z risk_db_scheme" where
  "linkedRisks env tenantID controlID db =
     inTx env (\<lambda>t db0. Inr (if t = tenantID then ListRiskIDsLinkedToControl t controlID db0 else [], db0)) db"

fun derive_each ::
  "score_lib \<Rightarrow> eval_lib \<Rightarrow> 'z risk_db_scheme resolver \<Rightarrow> (uuid \<Rightarrow> risk_draw) \<Rightarrow> uuid list \<Rightarrow> 'z risk_db_scheme \<Rightarrow>
   msg_outcome \<times> 'z risk_db_scheme" where
  "derive_each lib elib resolve draw [] db = (MsgAck, db)"
| "derive_each lib elib resolve draw (i # is') db =
     (case DeriveAndPersist lib elib resolve (draw i) i True db of
        (Inl e, db1) \<Rightarrow>
          if e = RsRisk (Dom RkErrNotFound) then derive_each lib elib resolve draw is' db1 else (MsgNak, db1)
      | (Inr _, db1) \<Rightarrow> derive_each lib elib resolve draw is' db1)"

definition ResidualSubscriber_handle ::
  "score_lib \<Rightarrow> eval_lib \<Rightarrow> 'z risk_db_scheme resolver \<Rightarrow> (bytes \<Rightarrow> string option) \<Rightarrow> (string \<Rightarrow> uuid option) \<Rightarrow>
   (txenv \<Rightarrow> txenv) \<Rightarrow> (txenv \<Rightarrow> uuid \<Rightarrow> risk_draw) \<Rightarrow> txenv \<Rightarrow> ingest_msg \<Rightarrow> 'z risk_db_scheme \<Rightarrow> msg_outcome \<times> 'z risk_db_scheme" where
  "ResidualSubscriber_handle lib elib resolve unmarshal parse_uuid list_env draw ctx msg db =
     (case unmarshal (msg_Data msg) of
        None \<Rightarrow> (MsgTerm, db)
      | Some recControlId \<Rightarrow>
        (case parse_uuid (msg_CredentialTenant msg) of
           None \<Rightarrow> (MsgTerm, db)
         | Some tenantID \<Rightarrow>
           (case parse_uuid recControlId of
              None \<Rightarrow> (MsgAck, db)
            | Some controlID \<Rightarrow>
              (case WithTenant ctx (el_uuid_string elib tenantID) of
                 Inl _ \<Rightarrow> (MsgTerm, db)
               | Inr tctx \<Rightarrow>
                 (case linkedRisks (list_env tctx) tenantID controlID db of
                    (Inl _, db1) \<Rightarrow> (MsgNak, db1)
                  | (Inr riskIDs, db1) \<Rightarrow>
                    if riskIDs = [] then (MsgAck, db1) else derive_each lib elib resolve (draw tctx) riskIDs db1)))))"


section \<open>Bounds\<close>

lemma fst_inTx_Inr: "fst (inTx env fn s) = Inr a \<longleftrightarrow> tx_ok env \<and> (\<exists>t s'. tenant_of env = Some t \<and> fn t s = Inr (a, s'))"
  using inTx_Inr_iff [of env fn s a "snd (inTx env fn s)"] by (auto simp: prod_eq_iff inTx_Inr_iff) (metis fst_conv inTx_Inr_iff)

lemma case_sum_Inr_iff: "(case x of Inl e \<Rightarrow> Inl e | Inr m \<Rightarrow> f m) = Inr z \<longleftrightarrow> (\<exists>m. x = Inr m \<and> f m = Inr z)"
  by (cases x) auto

lemma Effectiveness_of_rate:
  assumes "fst (Effectiveness_of elib env now cid db) = Inr eff"
  shows "0 \<le> eff_PassRate eff" "eff_PassRate eff \<le> 1"
proof -
  have "0 \<le> eff_PassRate eff \<and> eff_PassRate eff \<le> 1"
    using assms by (auto simp: Effectiveness_of_def Let_def fst_inTx_Inr divide_le_eq case_sum_Inr_iff)
  then show "0 \<le> eff_PassRate eff" "eff_PassRate eff \<le> 1" by simp_all
qed

lemma operationalScore_unit:
  assumes "operationalScore elib d cid db = Inr (x, nd)"
  shows "unit64 x"
proof (cases "fst (Effectiveness_of elib (rd_eff_env d) (rd_now d) cid db)")
  case (Inr eff)
  then show ?thesis using assms Effectiveness_of_rate [OF Inr] by (auto simp: operationalScore_def in_range_round)
qed (use assms in \<open>auto simp: operationalScore_def in_range_def split: if_splits\<close>)

lemma ControlState_length:
  assumes "fst (ControlState elib unmarshal env listed cid [] asOf db) = Inr states"
  shows "length states \<le> length (db_evaluations db)"
proof -
  have d: "length (sql_distinct_on k xs) \<le> length xs" for k :: "evaluation \<Rightarrow> uuid option" and xs
    by (induction k xs rule: sql_distinct_on.induct) (auto intro: le_trans [OF _ length_filter_le])
  obtain t where "states = map stateFromRow (ListLatestControlEvaluations t cid (pgTimestamptz asOf) db)"
    using assms by (auto simp: ControlState_def read_states_def fst_inTx_Inr allowed_state_def case_sum_Inr_iff)
  then show ?thesis using le_trans [OF d length_filter_le] by (auto simp: ListLatestControlEvaluations_def intro: le_trans [OF d] length_filter_le)
qed

lemma coverageScore_unit:
  assumes "coverageScore elib d cid db = Inr x" "length (db_evaluations db) \<le> 2 ^ 53"
  shows "unit64 x"
proof (cases "fst (ControlState elib (\<lambda>_. Inl []) (rd_state_env d) (Inr []) cid [] FarFuture db)")
  case (Inr states)
  have n: "length states \<le> 2 ^ 53" using ControlState_length [OF Inr] assms(2) by simp
  let ?p = "length (filter (\<lambda>s. st_Result s = ResultPass) states)"
  have p: "?p \<le> length states" by (rule length_filter_le)
  have "is_float64 (of_int (int ?p))" using le_trans [OF p n] by (intro is_float64_of_int) simp
  then have "in_range 0 (of_nat (length states)) (f_of_int (int ?p))"
    using p by (simp add: f_of_int_def is_float64_def in_range_def)
  then show ?thesis using assms(1) Inr n by (auto simp: coverageScore_def in_range_def [of 0 1 "Fin 0"] intro!: in_range_mean split: if_splits)
qed (use assms in \<open>auto simp: coverageScore_def in_range_def split: if_splits\<close>)

lemma numericToFloat_unit: "weight_check n \<Longrightarrow> unit64 (numericToFloat n)"
  by (cases n) (auto simp: weight_check_def intro!: in_range_round)

lemma controlBreakdown_InrE:
  assumes "controlBreakdown elib resolve d l recompute db = (Inr b, db')"
  obtains op nd cov where "b = breakdown_of l op nd cov" "operationalScore elib d (rlk_ControlID l) db' = Inr (op, nd)"
    "coverageScore elib d (rlk_ControlID l) db' = Inr cov"
  using assms by (auto simp: controlBreakdown_def Let_def split: option.splits sum.splits if_splits)

lemma controlBreakdown_extends:
  "controlBreakdown elib resolve d l recompute db = (r, db') \<Longrightarrow> extends_evaluations db db'"
  using EvaluateControl_extends [of elib resolve "rd_eval d" "rlk_ControlID l" TriggerIngest FarFuture db]
  by (auto simp: controlBreakdown_def Let_def prod_eq_iff split: option.splits sum.splits if_splits)

lemma derive_links_extends:
  "derive_links elib resolve draw recompute ls db = (r, db') \<Longrightarrow> extends_evaluations db db'"
proof (induction ls arbitrary: db r)
  case (Cons l ls)
  obtain r1 db1 where run: "controlBreakdown elib resolve (draw (rlk_ControlID l)) l recompute db = (r1, db1)" by fastforce
  with Cons.prems have "db' = db1 \<or> (\<exists>r2. derive_links elib resolve draw recompute ls db1 = (r2, db'))"
    by (auto split: sum.splits prod.splits)
  with Cons.IH controlBreakdown_extends [OF run] show ?case by (auto intro: extends_trans)
qed simp

text \<open>An entry of the breakdown whose scores are in range.\<close>

definition entry_of :: "risk_link \<Rightarrow> ControlBreakdown \<Rightarrow> bool" where
  "entry_of l b \<longleftrightarrow> (\<exists>op nd cov. b = breakdown_of l op nd cov \<and> unit64 op \<and> unit64 cov)"

lemma derive_links_entries:
  "derive_links elib resolve draw recompute ls db = (Inr bs, db') \<Longrightarrow> length (db_evaluations db') \<le> 2 ^ 53 \<Longrightarrow> list_all2 entry_of ls bs"
proof (induction ls arbitrary: db bs)
  case (Cons l ls)
  obtain b bs' db1 where run: "controlBreakdown elib resolve (draw (rlk_ControlID l)) l recompute db = (Inr b, db1)"
    and rest: "derive_links elib resolve draw recompute ls db1 = (Inr bs', db')" and bs: "bs = b # bs'"
    using Cons.prems(1) by (auto split: sum.splits prod.splits)
  have len: "length (db_evaluations db1) \<le> 2 ^ 53"
    using derive_links_extends [OF rest] Cons.prems(2) by (auto simp: extends_evaluations_def)
  have "entry_of l b" using run
    by (rule controlBreakdown_InrE) (auto simp: entry_of_def dest: operationalScore_unit coverageScore_unit [OF _ len])
  with Cons.IH [OF rest Cons.prems(2)] show ?case by (simp add: bs)
qed simp

lemma inherentScalar_float:
  assumes "inherentScalar m j = Some (Fin x)"
  shows "is_float64 x"
proof -
  have num: "numField ms k = Some y \<Longrightarrow> is_float64 y" for ms k y
    by (auto simp: numField_def split: option.splits rjson.splits dest: go_number_float)
  show ?thesis using assms num f_mul_float
    by (auto simp: inherentScalar_def split: option.splits if_splits simp del: f_mul.simps)
qed

definition components :: "ControlBreakdown \<Rightarrow> EffectivenessComponents" where
  "components b = \<lparr>ec_DesignScore = cb_DesignScore b, ec_OperationalScore = cb_OperationalScore b, ec_CoverageScore = cb_CoverageScore b,
     ec_WeightDesign = cb_WeightDesign b, ec_WeightOperation = cb_WeightOperation b, ec_WeightCoverage = cb_WeightCoverage b\<rparr>"

lemma entry_of_components:
  assumes "entry_of l b" "list_all weight_check [rlk_DesignScore l, rlk_WeightDesign l, rlk_WeightOperation l, rlk_WeightCoverage l]"
  shows "components_ok (components b)" "cb_ControlEffectiveness b = ControlEffectiveness (components b)" "cb_ControlID b = rlk_ControlID l"
  using assms by (auto simp: entry_of_def components_def components_ok_def breakdown_of_def link_components_def numericToFloat_unit)

lemma Derive_cases:
  assumes "Derive elib resolve d riskID recompute db = (Inr r, db')"
  obtains t row where "tenant_of (rx_read_env d) = Some t" "GetRiskByID t riskID db = Some row"
    "inherentScalar (rk_Methodology row) (rk_InherentScore row) = Some (rs_InherentScore r)"
    "derive_links elib resolve (rx_control d) recompute (ListRiskControlLinkWeights t riskID db) db = (Inr (rs_Breakdown r), db')"
    "rs_WeightedControlEffectiveness r = WeightedEffectiveness (map cb_ControlEffectiveness (rs_Breakdown r))"
    "rs_ResidualScore r = (if rs_Breakdown r = [] then rs_InherentScore r else ResidualScore (rs_InherentScore r) (rs_WeightedControlEffectiveness r))"
    "rs_Warning r = (if rs_Breakdown r = [] then WarningNoControlsLinked else [])"
proof -
  let ?read = "inTx (rx_read_env d) (\<lambda>t db0.
             (case GetRiskByID t riskID db0 of
                None \<Rightarrow> Inl RkErrNotFound
              | Some row \<Rightarrow> Inr ((row, ListRiskControlLinkWeights t riskID db0), db0))) db"
  obtain row links where read: "fst ?read = Inr (row, links)"
    using assms by (cases "fst ?read") (auto simp: Derive_def)
  then obtain t where t: "tenant_of (rx_read_env d) = Some t" "GetRiskByID t riskID db = Some row" "links = ListRiskControlLinkWeights t riskID db"
    by (auto simp: fst_inTx_Inr split: option.splits)
  from assms read obtain inherent where i: "inherentScalar (rk_Methodology row) (rk_InherentScore row) = Some inherent"
    by (auto simp: Derive_def split: option.splits)
  show ?thesis
  proof (cases "links = []")
    case True
    then show ?thesis using assms read i t that [OF t(1,2)] by (auto simp: Derive_def WeightedEffectiveness_def)
  next
    case False
    with assms read i obtain bs where bs: "derive_links elib resolve (rx_control d) recompute links db = (Inr bs, db')"
      "r = (let w = WeightedEffectiveness (map cb_ControlEffectiveness bs)
                 in \<lparr>rs_RiskID = riskID, rs_InherentScore = inherent, rs_ResidualScore = ResidualScore inherent w,
                          rs_WeightedControlEffectiveness = w, rs_Breakdown = bs, rs_Warning = []\<rparr>)"
      by (auto simp: Derive_def Let_def split: sum.splits prod.splits)
    obtain l ls where "links = l # ls" using False by (cases links) auto
    then have "bs \<noteq> []" using bs(1) by (auto split: sum.splits prod.splits)
    then show ?thesis using bs i t that [OF t(1,2)] by (simp add: Let_def)
  qed
qed

lemma list_all2_ex: "list_all2 P xs ys \<Longrightarrow> y \<in> set ys \<Longrightarrow> \<exists>x \<in> set xs. P x y"
  by (induction rule: list_all2_induct) auto

lemma list_all2_map_le:
  assumes "list_all2 improved cs ds" "list_all components_ok cs" "list_all components_ok ds"
  shows "list_all2 f_le (map ControlEffectiveness cs) (map ControlEffectiveness ds)"
  using assms by (induction rule: list_all2_induct) (auto intro: ControlEffectiveness_mono)

lemma Derive_range:
  assumes "Derive elib resolve d riskID recompute db = (Inr r, db')" "risk_inv db" "rs_InherentScore r = Fin a" "0 \<le> a"
    "length (db_evaluations db') \<le> 2 ^ 53" "length (db_risk_links db) \<le> 2 ^ 53"
  shows "\<forall>b \<in> set (rs_Breakdown r). components_ok (components b) \<and> cb_ControlEffectiveness b = ControlEffectiveness (components b)"
    and "unit64 (rs_WeightedControlEffectiveness r)" "length (rs_Breakdown r) \<le> 2 ^ 53" "is_float64 a"
    and "rs_WeightedControlEffectiveness r = WeightedEffectiveness (map cb_ControlEffectiveness (rs_Breakdown r))"
    and "rs_ResidualScore r = ResidualScore (Fin a) (rs_WeightedControlEffectiveness r)"
    and "rs_Breakdown r = [] \<longrightarrow> rs_ResidualScore r = Fin a \<and> rs_Warning r = WarningNoControlsLinked"
proof -
  obtain t and row :: risk_row where dr: "inherentScalar (rk_Methodology row) (rk_InherentScore row) = Some (rs_InherentScore r)"
    and links: "derive_links elib resolve (rx_control d) recompute (ListRiskControlLinkWeights t riskID db) db = (Inr (rs_Breakdown r), db')"
    and w: "rs_WeightedControlEffectiveness r = WeightedEffectiveness (map cb_ControlEffectiveness (rs_Breakdown r))"
    and res: "rs_ResidualScore r = (if rs_Breakdown r = [] then rs_InherentScore r else ResidualScore (rs_InherentScore r) (rs_WeightedControlEffectiveness r))"
    and warn: "rs_Warning r = (if rs_Breakdown r = [] then WarningNoControlsLinked else [])"
    using assms(1) by (rule Derive_cases) (rule that, assumption+)
  let ?ls = "ListRiskControlLinkWeights t riskID db" and ?bs = "rs_Breakdown r"
  show a: "is_float64 a" using dr assms(3) inherentScalar_float by simp
  have entries: "list_all2 entry_of ?ls ?bs" using derive_links_entries [OF links assms(5)] .
  have "length ?ls \<le> length (db_risk_links db)" by (simp add: ListRiskControlLinkWeights_def)
  then show len: "length ?bs \<le> 2 ^ 53" using list_all2_lengthD [OF entries] assms(6) by simp
  have ok: "components_ok (components b) \<and> cb_ControlEffectiveness b = ControlEffectiveness (components b)" if b: "b \<in> set ?bs" for b
  proof -
    obtain l where "l \<in> set ?ls" "entry_of l b" using list_all2_ex [OF entries b] by blast
    moreover from this have "risk_link_ok db l" using assms(2) by (simp add: ListRiskControlLinkWeights_def risk_shape_def)
    ultimately show ?thesis using entry_of_components [of l b] by (simp add: risk_link_ok_def)
  qed
  then show "\<forall>b \<in> set ?bs. components_ok (components b) \<and> cb_ControlEffectiveness b = ControlEffectiveness (components b)" by blast
  have "list_all unit64 (map cb_ControlEffectiveness ?bs)" using ok ControlEffectiveness_unit by (simp add: list_all_iff)
  then show "unit64 (rs_WeightedControlEffectiveness r)" unfolding w using len by (intro WeightedEffectiveness_unit) simp_all
  show "rs_WeightedControlEffectiveness r = WeightedEffectiveness (map cb_ControlEffectiveness ?bs)" by (rule w)
  show "rs_ResidualScore r = ResidualScore (Fin a) (rs_WeightedControlEffectiveness r)"
    using res assms(3,4) a by (auto simp: w WeightedEffectiveness_def ResidualScore_none)
  show "?bs = [] \<longrightarrow> rs_ResidualScore r = Fin a \<and> rs_Warning r = WarningNoControlsLinked" using res warn assms(3) by simp
qed

text \<open>
  C23. A derived residual is the inherent score reduced by its controls, in \<open>float64\<close> arithmetic. For a
  risk whose inherent score is not negative: every component of the breakdown, every control's
  effectiveness and their mean lie in [0, 1], rounding included; the residual lies between 0 and the
  inherent score; without linked controls it is the inherent score and the warning says so; and had
  the linked controls scored better anywhere and worse nowhere, it would not be higher.
\<close>

theorem residual_bounds:
  assumes "Derive elib resolve d riskID recompute db = (Inr r, db')" "risk_inv db" "rs_InherentScore r = Fin a" "0 \<le> a"
    "length (db_evaluations db') \<le> 2 ^ 53" "length (db_risk_links db) \<le> 2 ^ 53"
  shows "list_all (\<lambda>b. components_ok (components b) \<and> cb_ControlEffectiveness b = ControlEffectiveness (components b)
      \<and> unit64 (cb_ControlEffectiveness b)) (rs_Breakdown r)
    \<and> unit64 (rs_WeightedControlEffectiveness r)
    \<and> in_range 0 a (rs_ResidualScore r)
    \<and> (rs_Breakdown r = [] \<longrightarrow> rs_ResidualScore r = Fin a \<and> rs_Warning r = WarningNoControlsLinked)
    \<and> (\<forall>cs. list_all2 improved (map components (rs_Breakdown r)) cs \<and> list_all components_ok cs \<longrightarrow>
      f_le (ResidualScore (Fin a) (WeightedEffectiveness (map ControlEffectiveness cs))) (rs_ResidualScore r))"
proof (intro conjI)
  note range = Derive_range [OF assms]
  let ?bs = "rs_Breakdown r"
  show "list_all (\<lambda>b. components_ok (components b) \<and> cb_ControlEffectiveness b = ControlEffectiveness (components b)
      \<and> unit64 (cb_ControlEffectiveness b)) ?bs"
    using range(1) by (simp add: list_all_iff ControlEffectiveness_unit)
  show unit: "unit64 (rs_WeightedControlEffectiveness r)" by (rule range(2))
  show "in_range 0 a (rs_ResidualScore r)" unfolding range(6) by (rule ResidualScore_bounds [OF range(4) assms(4) unit])
  show "?bs = [] \<longrightarrow> rs_ResidualScore r = Fin a \<and> rs_Warning r = WarningNoControlsLinked" by (rule range(7))
  have eff: "map cb_ControlEffectiveness ?bs = map ControlEffectiveness (map components ?bs)" using range(1) by simp
  have comps: "list_all components_ok (map components ?bs)" using range(1) by (simp add: list_all_iff)
  have units: "list_all unit64 (map ControlEffectiveness cs)" if "list_all components_ok cs" for cs
    using that ControlEffectiveness_unit by (simp add: list_all_iff)
  show "\<forall>cs. list_all2 improved (map components ?bs) cs \<and> list_all components_ok cs \<longrightarrow>
      f_le (ResidualScore (Fin a) (WeightedEffectiveness (map ControlEffectiveness cs))) (rs_ResidualScore r)"
  proof (intro allI impI, elim conjE)
    fix cs
    assume cs: "list_all2 improved (map components ?bs) cs" "list_all components_ok cs"
    have n: "length cs \<le> 2 ^ 53" using list_all2_lengthD [OF cs(1)] range(3) by simp
    have "f_le (rs_WeightedControlEffectiveness r) (WeightedEffectiveness (map ControlEffectiveness cs))"
      unfolding range(5) eff using list_all2_map_le [OF cs(1) comps cs(2)] units [OF comps] units [OF cs(2)] range(3)
      by (intro WeightedEffectiveness_mono) simp_all
    then show "f_le (ResidualScore (Fin a) (WeightedEffectiveness (map ControlEffectiveness cs))) (rs_ResidualScore r)"
      unfolding range(6) using units [OF cs(2)] n unit
      by (intro ResidualScore_antimono [OF range(4) assms(4)] WeightedEffectiveness_unit) simp_all
  qed
qed


section \<open>What is stored, and how it is sorted\<close>

definition is_residual :: "score_lib \<Rightarrow> rjson \<Rightarrow> bool" where
  "is_residual lib j \<longleftrightarrow> (\<exists>r b. residualBlob lib r = Some b \<and> j = jsonb b)"

lemma marshal_members_Some:
  "marshal_members ms = Some j \<longleftrightarrow> (\<exists>vs. j = RObj (zip (map fst ms) vs) \<and> map snd ms = map Some vs)"
proof (induction ms arbitrary: j)
  case (Cons m ms)
  obtain k v where m: "m = (k, v)" by (cases m)
  have split: "marshal_members (m # ms) = Some j \<longleftrightarrow> (\<exists>x js. v = Some x \<and> marshal_members ms = Some (RObj js) \<and> j = RObj ((k, x) # js))"
    by (auto simp: marshal_members_def m split: option.splits)
  show ?case unfolding split Cons.IH by (auto simp: m map_eq_Cons_conv) (metis list.simps(9) zip_Cons_Cons)
qed (auto simp: marshal_members_def)

lemma residualBlobE:
  assumes "residualBlob lib r = Some b"
  obtains x a w bs where "rs_ResidualScore r = Fin x" "rs_InherentScore r = Fin a" "rs_WeightedControlEffectiveness r = Fin w"
    "b = RObj ([(''score'', json_float lib x), (''inherent_score'', json_float lib a),
       (''weighted_control_effectiveness'', json_float lib w), (''breakdown'', bs)]
       @ (if rs_Warning r = [] then [] else [(''warning'', RStr (rs_Warning r))]))"
proof -
  have fin: "marshal_float lib f = Some y \<longleftrightarrow> (\<exists>v. f = Fin v \<and> y = json_float lib v)" for f y by (cases f) auto
  show ?thesis using assms
    by (cases "rs_Warning r = []")
      (auto simp: residualBlob_def marshal_members_Some map_eq_Cons_conv Cons_eq_map_conv fin intro!: that)
qed

lemma decode_members_none:
  "\<forall>(k, v) \<in> set ms. struct_field fs k = None \<Longrightarrow> decode_members fs ms acc = Some acc"
  by (induction ms) auto

definition residual_keys :: "string list" where
  "residual_keys = [''score'', ''inherent_score'', ''weighted_control_effectiveness'', ''breakdown'', ''warning'']"

lemma residual_names: "list_all (\<lambda>k. struct_field [''likelihood'', ''impact''] k = None) residual_keys"
  by code_simp

lemma residualMagnitude_derived:
  assumes "is_residual lib j"
  shows "residualMagnitude j = Fin 0"
proof -
  obtain r b where rb: "residualBlob lib r = Some b" "j = jsonb b" using assms by (auto simp: is_residual_def)
  obtain ms where ms: "b = RObj ms" "set (map fst ms) \<subseteq> set residual_keys"
    using rb(1) by (rule residualBlobE) (auto simp: residual_keys_def split: if_splits)
  obtain ms' where ms': "j = RObj ms'" "set ms' \<subseteq> (\<lambda>(k, v). (k, jsonb v)) ` set ms" using rb(2) ms(1) jsonb_ObjE [of ms] by metis
  have "\<forall>(k, v) \<in> set ms'. struct_field [''likelihood'', ''impact''] k = None"
  proof safe
    fix k v assume "(k, v) \<in> set ms'"
    then have "k \<in> set (map fst ms)" using ms'(2) by force
    then show "struct_field [''likelihood'', ''impact''] k = None" using ms(2) residual_names by (auto simp only: list_all_iff)
  qed
  then show ?thesis by (simp add: residualMagnitude_def ms'(1) decode_members_none)
qed

lemma stable_insert_insort:
  fixes f :: "'a \<Rightarrow> 'b :: linorder"
  assumes "\<forall>y \<in> set ys. lt y x \<longleftrightarrow> f y < f x"
  shows "stable_insert lt x ys = insort_key f x ys"
  using assms by (induction ys) auto

lemma SliceStable_sort:
  fixes f :: "'a \<Rightarrow> 'b :: linorder"
  assumes "\<forall>x \<in> set xs. \<forall>y \<in> set xs. lt y x \<longleftrightarrow> f y < f x"
  shows "SliceStable lt xs = sort_key f xs"
  using assms
proof (induction xs)
  case (Cons x xs)
  then have "SliceStable lt (x # xs) = stable_insert lt x (sort_key f xs)" by (simp add: SliceStable_def)
  also have "\<dots> = insort_key f x (sort_key f xs)" using Cons.prems by (intro stable_insert_insort) simp
  finally show ?case by simp
qed (simp add: SliceStable_def)

lemma map_snd_sort_key: "map snd (sort_key (\<lambda>p. f (snd p)) ps) = sort_key f (map snd ps)"
proof (induction ps)
  case (Cons p ps)
  have "map snd (insort_key (\<lambda>p. f (snd p)) p qs) = insort_key f (snd p) (map snd qs)" for qs by (induction qs) auto
  with Cons show ?case by simp
qed simp

lemma persist_residual_InrE:
  assumes "persist_residual lib env dbnow i blob db = (Inr u, db')"
  obtains t where "tenant_of env = Some t" "sl_jsonb_ok lib blob" "GetRiskByID t i db \<noteq> None"
    "db' = db\<lparr>db_risk_rows := sql_update (\<lambda>r. rk_TenantID r = t \<and> rk_ID r = i)
       (\<lambda>r. r\<lparr>rk_ResidualScore := jsonb blob, rk_UpdatedAt := pgTime dbnow\<rparr>) (db_risk_rows db)\<rparr>"
  using assms unfolding persist_residual_def
proof (cases rule: inTx_cases)
  case (commit t a)
  then show ?thesis using that [OF commit(2)]
    by (auto simp: UpdateRiskResidual_def jsonb_in_def sql_simps GetRiskByID_def split: option.splits sum.splits pg_error.splits if_splits)
qed simp

lemma GetRiskByID_update:
  assumes "\<And>r. rk_ID (f r) = rk_ID r \<and> rk_TenantID (f r) = rk_TenantID r"
  shows "GetRiskByID t j (db\<lparr>db_risk_rows := sql_update (\<lambda>r. rk_TenantID r = t' \<and> rk_ID r = i) f (db_risk_rows db)\<rparr>) =
    map_option (\<lambda>r. if t = t' \<and> j = i then f r else r) (GetRiskByID t j db)"
proof -
  have "List.find (\<lambda>r. rk_TenantID r = t \<and> rk_ID r = j) (sql_update (\<lambda>r. rk_TenantID r = t' \<and> rk_ID r = i) f rs) =
    map_option (\<lambda>r. if t = t' \<and> j = i then f r else r) (List.find (\<lambda>r. rk_TenantID r = t \<and> rk_ID r = j) rs)" for rs
    using assms by (induction rs) auto
  then show ?thesis by (simp add: GetRiskByID_def)
qed

text \<open>The row without the two columns that a derivation writes.\<close>

definition other_columns :: "risk_row \<Rightarrow> risk_row" where
  "other_columns r = r\<lparr>rk_ResidualScore := RNull, rk_UpdatedAt := 0\<rparr>"

lemma Derive_extends: "Derive elib resolve d i recompute db = (r, db') \<Longrightarrow> extends_evaluations db db'"
  by (auto simp: Derive_def Let_def split: sum.splits option.splits prod.splits if_splits dest: derive_links_extends)

lemma DeriveAndPersist_InrE:
  assumes "DeriveAndPersist lib elib resolve d i recompute db = (Inr r, db')"
  obtains t db1 blob where "tenant_of (rx_write_env d) = Some t" "Derive elib resolve d i recompute db = (Inr r, db1)"
    "residualBlob lib r = Some blob" "sl_jsonb_ok lib blob" "GetRiskByID t i db1 \<noteq> None"
    "db' = db1\<lparr>db_risk_rows := sql_update (\<lambda>r. rk_TenantID r = t \<and> rk_ID r = i)
       (\<lambda>r. r\<lparr>rk_ResidualScore := jsonb blob, rk_UpdatedAt := pgTime (rx_dbnow d)\<rparr>) (db_risk_rows db1)\<rparr>"
proof -
  obtain r0 db1 where run: "Derive elib resolve d i recompute db = (r0, db1)" by fastforce
  with assms obtain blob where blob: "r0 = Inr r" "residualBlob lib r = Some blob"
    and p: "persist_residual lib (rx_write_env d) (rx_dbnow d) i blob db1 = (Inr (), db')"
    by (auto simp: DeriveAndPersist_def split: sum.splits option.splits prod.splits)
  from p show ?thesis by (rule persist_residual_InrE) (use run blob in \<open>auto intro: that\<close>)
qed

text \<open>Nothing but residual scores, their stamps and new evaluations is written.\<close>

definition residual_frame :: "'z risk_db_scheme \<Rightarrow> 'z risk_db_scheme \<Rightarrow> bool" where
  "residual_frame db db' \<longleftrightarrow> (\<exists>rows evs. db' = db\<lparr>db_risk_rows := rows, db_evaluations := db_evaluations db @ evs\<rparr>
     \<and> map other_columns rows = map other_columns (db_risk_rows db))"

lemma residual_frame_refl [simp]: "residual_frame db db"
  unfolding residual_frame_def by (intro exI [of _ "db_risk_rows db"] exI [of _ "[]"]) simp

lemma residual_frame_trans [trans]: "residual_frame a b \<Longrightarrow> residual_frame b c \<Longrightarrow> residual_frame a c"
proof -
  assume "residual_frame a b" "residual_frame b c"
  then obtain rows evs rows' evs' where
    "b = a\<lparr>db_risk_rows := rows, db_evaluations := db_evaluations a @ evs\<rparr>" "map other_columns rows = map other_columns (db_risk_rows a)"
    "c = b\<lparr>db_risk_rows := rows', db_evaluations := db_evaluations b @ evs'\<rparr>" "map other_columns rows' = map other_columns (db_risk_rows b)"
    by (auto simp: residual_frame_def)
  then show ?thesis unfolding residual_frame_def by (intro exI [of _ rows'] exI [of _ "evs @ evs'"]) simp
qed

lemma extends_residual_frame: "extends_evaluations db db' \<Longrightarrow> residual_frame db db'"
proof -
  assume "extends_evaluations db db'"
  then obtain evs where "db' = db\<lparr>db_evaluations := db_evaluations db @ evs\<rparr>" by (auto simp: extends_evaluations_def)
  then show ?thesis unfolding residual_frame_def by (intro exI [of _ "db_risk_rows db"] exI [of _ evs]) simp
qed

lemma residual_update_frame:
  "residual_frame db (db\<lparr>db_risk_rows := sql_update P (\<lambda>r. r\<lparr>rk_ResidualScore := j, rk_UpdatedAt := u\<rparr>) (db_risk_rows db)\<rparr>)"
  unfolding residual_frame_def
  by (intro exI [of _ "sql_update P (\<lambda>r. r\<lparr>rk_ResidualScore := j, rk_UpdatedAt := u\<rparr>) (db_risk_rows db)"] exI [of _ "[]"])
    (simp add: map_sql_update_frame other_columns_def)

lemma persist_residual_cases:
  assumes "persist_residual lib env dbnow i blob db = (res, db')"
  obtains (same) e where "res = Inl e" "db' = db"
  | (written) t where "res = Inr ()" "tenant_of env = Some t" "GetRiskByID t i db \<noteq> None"
    "db' = db\<lparr>db_risk_rows := sql_update (\<lambda>r. rk_TenantID r = t \<and> rk_ID r = i)
       (\<lambda>r. r\<lparr>rk_ResidualScore := jsonb blob, rk_UpdatedAt := pgTime dbnow\<rparr>) (db_risk_rows db)\<rparr>"
proof (cases res)
  case (Inl e)
  with assms have "db' = db" unfolding persist_residual_def by (elim inTx_cases) auto
  then show ?thesis using Inl same by blast
next
  case (Inr u)
  with assms have "persist_residual lib env dbnow i blob db = (Inr u, db')" by simp
  then show ?thesis by (rule persist_residual_InrE) (use Inr written in auto)
qed

lemma DeriveAndPersist_cases:
  assumes "DeriveAndPersist lib elib resolve d i recompute db = (res, db')"
  obtains (failed) e where "res = Inl e" "extends_evaluations db db'"
  | (stored) t r db1 blob where "res = Inr r" "tenant_of (rx_write_env d) = Some t" "extends_evaluations db db1"
    "residualBlob lib r = Some blob" "GetRiskByID t i db1 \<noteq> None"
    "db' = db1\<lparr>db_risk_rows := sql_update (\<lambda>r. rk_TenantID r = t \<and> rk_ID r = i)
       (\<lambda>r. r\<lparr>rk_ResidualScore := jsonb blob, rk_UpdatedAt := pgTime (rx_dbnow d)\<rparr>) (db_risk_rows db1)\<rparr>"
proof (cases res)
  case (Inl e)
  obtain r0 db1 where run: "Derive elib resolve d i recompute db = (r0, db1)" by fastforce
  have "db' = db1"
  proof (cases r0)
    case (Inr r)
    with assms run Inl have "residualBlob lib r = None \<and> db' = db1
      \<or> (\<exists>blob e'. persist_residual lib (rx_write_env d) (rx_dbnow d) i blob db1 = (Inl e', db'))"
      by (auto simp: DeriveAndPersist_def split: option.splits sum.splits prod.splits)
    then show ?thesis by (auto elim: persist_residual_cases)
  qed (use assms run in \<open>simp add: DeriveAndPersist_def\<close>)
  then show ?thesis using failed [OF Inl] Derive_extends [OF run] by simp
next
  case (Inr r)
  with assms have "DeriveAndPersist lib elib resolve d i recompute db = (Inr r, db')" by simp
  then show ?thesis by (rule DeriveAndPersist_InrE) (use Inr stored Derive_extends in blast)
qed

lemma DeriveAndPersist_frame: "DeriveAndPersist lib elib resolve d i recompute db = (res, db') \<Longrightarrow> residual_frame db db'"
  by (erule DeriveAndPersist_cases) (auto intro: extends_residual_frame residual_frame_trans residual_update_frame)

lemma derive_each_frame: "derive_each lib elib resolve draw ids db = (oc, db') \<Longrightarrow> residual_frame db db'"
proof (induction ids arbitrary: db)
  case (Cons i ids)
  obtain res db1 where run: "DeriveAndPersist lib elib resolve (draw i) i True db = (res, db1)" by fastforce
  with Cons.prems have "db' = db1 \<or> derive_each lib elib resolve draw ids db1 = (oc, db')"
    by (auto split: sum.splits if_splits)
  with Cons.IH DeriveAndPersist_frame [OF run] show ?case by (auto intro: residual_frame_trans)
qed simp

definition has_residual :: "score_lib \<Rightarrow> uuid \<Rightarrow> uuid \<Rightarrow> 'z risk_db_scheme \<Rightarrow> bool" where
  "has_residual lib t i db \<longleftrightarrow> (\<exists>row. GetRiskByID t i db = Some row \<and> is_residual lib (rk_ResidualScore row))"

lemma GetRiskByID_extends: "extends_evaluations db db' \<Longrightarrow> GetRiskByID t i db' = GetRiskByID t i db"
  by (auto simp: extends_evaluations_def GetRiskByID_def)

lemma DeriveAndPersist_effect:
  assumes "DeriveAndPersist lib elib resolve d i recompute db = (res, db')"
  shows "GetRiskByID t j db' = None \<longleftrightarrow> GetRiskByID t j db = None"
    and "has_residual lib t j db \<Longrightarrow> has_residual lib t j db'"
    and "res = Inr r \<Longrightarrow> tenant_of (rx_write_env d) = Some t \<Longrightarrow> has_residual lib t i db'"
proof -
  have "(GetRiskByID t j db' = None \<longleftrightarrow> GetRiskByID t j db = None)
    \<and> (has_residual lib t j db \<longrightarrow> has_residual lib t j db')
    \<and> (res = Inr r \<longrightarrow> tenant_of (rx_write_env d) = Some t \<longrightarrow> has_residual lib t i db')" for t j r
    using assms
  proof (cases rule: DeriveAndPersist_cases)
    case (failed e)
    then show ?thesis by (simp add: GetRiskByID_extends has_residual_def)
  next
    case (stored t' r' db1 blob)
    have "is_residual lib (jsonb blob)" using stored(4) by (auto simp: is_residual_def)
    then show ?thesis using stored
      by (cases "t = t' \<and> j = i") (auto simp: has_residual_def GetRiskByID_update GetRiskByID_extends [OF stored(3)])
  qed
  then show "GetRiskByID t j db' = None \<longleftrightarrow> GetRiskByID t j db = None" "has_residual lib t j db \<Longrightarrow> has_residual lib t j db'"
    "res = Inr r \<Longrightarrow> tenant_of (rx_write_env d) = Some t \<Longrightarrow> has_residual lib t i db'"
    by blast+
qed

lemma inTx_DomD: "inTx env fn s = (Inl (Dom e), s') \<Longrightarrow> \<exists>t. tenant_of env = Some t \<and> fn t s = Inl e"
  by (auto simp: inTx_def ApplyTenant_def tenant_of_def split: sum.splits option.splits prod.splits if_splits)

lemma controlBreakdown_error:
  "controlBreakdown elib resolve d l recompute db = (Inl e, db') \<Longrightarrow> \<exists>c x. e = RsEngine c x"
  by (auto simp: controlBreakdown_def operationalScore_def coverageScore_def Let_def split: option.splits sum.splits if_splits)

lemma derive_links_error:
  "derive_links elib resolve draw recompute ls db = (Inl e, db') \<Longrightarrow> \<exists>c x. e = RsEngine c x"
proof (induction ls arbitrary: db)
  case (Cons l ls)
  then show ?case by (auto split: sum.splits prod.splits dest: controlBreakdown_error)
qed simp

lemma Derive_not_found:
  assumes "Derive elib resolve d i recompute db = (Inl (RsRisk (Dom RkErrNotFound)), db')" "tenant_of (rx_read_env d) = Some t"
  shows "GetRiskByID t i db = None"
proof -
  let ?read = "inTx (rx_read_env d) (\<lambda>t db0.
             (case GetRiskByID t i db0 of
                None \<Rightarrow> Inl RkErrNotFound
              | Some row \<Rightarrow> Inr ((row, ListRiskControlLinkWeights t i db0), db0))) db"
  have "fst ?read = Inl (Dom RkErrNotFound)"
  proof (cases "fst ?read")
    case (Inr p)
    with assms(1) show ?thesis
      by (cases p) (auto simp: Derive_def Let_def split: option.splits sum.splits prod.splits if_splits dest: derive_links_error)
  qed (use assms(1) in \<open>auto simp: Derive_def\<close>)
  then have "?read = (Inl (Dom RkErrNotFound), snd ?read)" by (simp add: prod_eq_iff)
  from inTx_DomD [OF this] show ?thesis using assms(2) by (auto split: option.splits)
qed

lemma persist_not_found:
  assumes "persist_residual lib env dbnow i blob db = (Inl (Dom RkErrNotFound), db')" "tenant_of env = Some t"
  shows "GetRiskByID t i db = None"
  using inTx_DomD [OF assms(1) [unfolded persist_residual_def]] assms(2)
  by (auto simp: UpdateRiskResidual_def sql_simps GetRiskByID_def find_None_iff split: option.splits sum.splits pg_error.splits prod.splits)

lemma DeriveAndPersist_found:
  assumes "DeriveAndPersist lib elib resolve d i recompute db = (Inl (RsRisk (Dom RkErrNotFound)), db')"
    "tenant_of (rx_read_env d) = Some t" "tenant_of (rx_write_env d) = Some t"
  shows "GetRiskByID t i db = None"
proof -
  obtain r0 db1 where run: "Derive elib resolve d i recompute db = (r0, db1)" by fastforce
  show ?thesis
  proof (cases r0)
    case (Inl e)
    then show ?thesis using assms run Derive_not_found by (auto simp: DeriveAndPersist_def)
  next
    case (Inr r)
    with assms(1) run obtain blob db2 where "persist_residual lib (rx_write_env d) (rx_dbnow d) i blob db1 = (Inl (Dom RkErrNotFound), db2)"
      by (auto simp: DeriveAndPersist_def split: option.splits sum.splits prod.splits)
    from persist_not_found [OF this assms(3)] show ?thesis using Derive_extends [OF run] by (simp add: GetRiskByID_extends)
  qed
qed

lemma derive_each_keeps:
  "derive_each lib elib resolve draw ids db = (oc, db') \<Longrightarrow> has_residual lib t j db \<Longrightarrow> has_residual lib t j db'"
proof (induction ids arbitrary: db)
  case (Cons i ids)
  obtain res db1 where run: "DeriveAndPersist lib elib resolve (draw i) i True db = (res, db1)" by fastforce
  with Cons.prems have "db' = db1 \<or> derive_each lib elib resolve draw ids db1 = (oc, db')"
    by (auto split: sum.splits if_splits)
  with Cons.IH DeriveAndPersist_effect(2) [OF run Cons.prems(2)] show ?case by auto
qed simp

lemma derive_each_ack:
  assumes "derive_each lib elib resolve draw ids db = (MsgAck, db')" "\<forall>i \<in> set ids. GetRiskByID t i db \<noteq> None"
    "\<And>i. tenant_of (rx_read_env (draw i)) = Some t \<and> tenant_of (rx_write_env (draw i)) = Some t"
  shows "\<forall>i \<in> set ids. has_residual lib t i db'"
  using assms(1,2)
proof (induction ids arbitrary: db)
  case (Cons i ids)
  obtain res db1 where run: "DeriveAndPersist lib elib resolve (draw i) i True db = (res, db1)" by fastforce
  have nf: "res \<noteq> Inl (RsRisk (Dom RkErrNotFound))"
    using DeriveAndPersist_found [of lib elib resolve "draw i" i True db db1 t] run assms(3) Cons.prems(2) by auto
  with Cons.prems(1) run obtain r where r: "res = Inr r" "derive_each lib elib resolve draw ids db1 = (MsgAck, db')"
    by (auto split: sum.splits if_splits)
  have "has_residual lib t i db'"
    using derive_each_keeps [OF r(2)] DeriveAndPersist_effect(3) [OF run r(1)] assms(3) by blast
  moreover have "\<forall>j \<in> set ids. GetRiskByID t j db1 \<noteq> None"
    using Cons.prems(2) DeriveAndPersist_effect(1) [OF run] by auto
  ultimately show ?case using Cons.IH [OF r(2)] by simp
qed simp

text \<open>
  C9. A recomputation message that is acknowledged has been carried out. Whatever the outcome, the
  residual subscriber changes nothing but residual scores, their stamps and added evaluations: no
  evidence, link, control or other column of a risk. When it acknowledges a record of a control, every
  risk of the tenant that links the control has a derived residual; every failure on the way is a
  negative acknowledgement, and the message comes again.
\<close>

theorem residual_subscriber_acks:
  assumes "ResidualSubscriber_handle lib elib resolve unmarshal parse_uuid list_env draw ctx msg db = (oc, db')" "risk_inv db"
    "unmarshal (msg_Data msg) = Some ref" "parse_uuid (msg_CredentialTenant msg) = Some t" "parse_uuid ref = Some c"
    "\<And>tctx. WithTenant ctx (el_uuid_string elib t) = Inr tctx \<Longrightarrow> tenant_of (list_env tctx) = Some t
       \<and> (\<forall>i. tenant_of (rx_read_env (draw tctx i)) = Some t \<and> tenant_of (rx_write_env (draw tctx i)) = Some t)"
  shows "residual_frame db db' \<and> (oc = MsgAck \<longrightarrow> (\<forall>i \<in> set (ListRiskIDsLinkedToControl t c db). has_residual lib t i db'))"
proof (cases "WithTenant ctx (el_uuid_string elib t)")
  case (Inl e)
  then show ?thesis using assms(1,3-5) by (simp add: ResidualSubscriber_handle_def)
next
  case (Inr tctx)
  note env = assms(6) [OF Inr]
  obtain ids db1 where run: "linkedRisks (list_env tctx) t c db = (ids, db1)" by fastforce
  have db1: "db1 = db" using run unfolding linkedRisks_def by (auto elim!: inTx_cases)
  show ?thesis
  proof (cases ids)
    case (Inl e)
    then show ?thesis using assms(1,3-5) Inr run db1 by (simp add: ResidualSubscriber_handle_def)
  next
    case ids: (Inr is')
    then have is': "is' = ListRiskIDsLinkedToControl t c db"
      using run env unfolding linkedRisks_def by (auto simp: inTx_Inr_iff)
    have linked: "\<forall>i \<in> set is'. GetRiskByID t i db \<noteq> None"
      using assms(2) by (auto simp: is' ListRiskIDsLinkedToControl_def risk_shape_def risk_link_ok_def GetRiskByID_iff)
    have each: "derive_each lib elib resolve (draw tctx) is' db = (oc, db')"
      using assms(1,3-5) Inr run ids db1 by (auto simp: ResidualSubscriber_handle_def split: if_splits)
    show ?thesis using derive_each_frame [OF each] derive_each_ack [OF _ linked, of lib elib resolve "draw tctx" db'] each env
      by (auto simp: is')
  qed
qed


subsection \<open>The order by residual\<close>

lemma ResidualScore_float: "ResidualScore (Fin a) w = Fin x \<Longrightarrow> is_float64 a \<Longrightarrow> is_float64 x"
  by (cases "f_sub (Fin 1) (clamp01 w)") (auto simp: ResidualScore_def Let_def f_mul_float split: if_splits simp del: f_mul.simps(1))

lemma Derive_score_float:
  assumes "Derive elib resolve d i recompute db = (Inr r, db')" "rs_ResidualScore r = Fin x" "rs_InherentScore r = Fin a"
  shows "is_float64 x"
  using assms(1)
proof (rule Derive_cases)
  fix t and row :: risk_row
  assume "inherentScalar (rk_Methodology row) (rk_InherentScore row) = Some (rs_InherentScore r)"
    and res: "rs_ResidualScore r = (if rs_Breakdown r = [] then rs_InherentScore r
       else ResidualScore (rs_InherentScore r) (rs_WeightedControlEffectiveness r))"
  then have "is_float64 a" using assms(3) inherentScalar_float by simp
  then show ?thesis using res assms(2,3) ResidualScore_float by (auto split: if_splits)
qed

lemma stored_score:
  assumes "digits_ok lib" "residualBlob lib r = Some b" "rs_ResidualScore r = Fin x" "is_float64 x"
  shows "\<exists>ms. jsonb b = RObj ms \<and> numField (members ms) ''score'' = Some x"
proof -
  obtain m s where ms: "sl_digits lib x = (m, s)" by fastforce
  then have num: "go_number m s = Some x" using assms(1,4) by (auto simp: digits_ok_def)
  obtain kvs where b: "b = RObj kvs" "members kvs ''score'' = Some (RNum m s)"
    using assms(2)
  proof (rule residualBlobE)
    fix y a w bs
    assume "rs_ResidualScore r = Fin y" "b = RObj ([(''score'', json_float lib y), (''inherent_score'', json_float lib a),
       (''weighted_control_effectiveness'', json_float lib w), (''breakdown'', bs)]
       @ (if rs_Warning r = [] then [] else [(''warning'', RStr (rs_Warning r))]))"
    then show thesis using assms(3) ms by (cases "rs_Warning r = []") (auto intro!: that simp: members_def json_float_def)
  qed
  obtain kvs' where kvs': "jsonb b = RObj kvs'" "members kvs' = map_option jsonb \<circ> members kvs" using b(1) jsonb_ObjE [of kvs] by metis
  then have "numField (members kvs') ''score'' = Some x" using b(2) num by (simp add: numField_def)
  then show ?thesis using kvs'(1) by blast
qed

lemma sort_by_age:
  assumes "\<forall>k \<in> set risks. residualMagnitude (Rk_ResidualScore k) = m" "m = Fin 0"
  shows "sortByResidualThenAge risks = sort_key Rk_CreatedAt risks"
proof -
  let ?ps = "map (\<lambda>r. (residualMagnitude (Rk_ResidualScore r), r)) risks"
  have "SliceStable ranks_before ?ps = sort_key (\<lambda>p. Rk_CreatedAt (snd p)) ?ps"
    by (rule SliceStable_sort) (use assms in \<open>auto simp: ranks_before_def\<close>)
  then show ?thesis by (simp add: sortByResidualThenAge_def map_snd_sort_key comp_def)
qed

text \<open>
  C25. A derived residual is stored exactly and sorted as if it were zero. After \<open>DeriveAndPersist\<close> the
  row of the risk has the residual, which reads back as the same \<open>float64\<close> from the member \<open>score\<close>.
  But the order \<open>residual,age\<close> of the risk list reads the members \<open>likelihood\<close> and \<open>impact\<close>, which a
  derived residual does not have: all derived residuals rank as 0, and a list of them is ordered by
  age alone.
\<close>

theorem derived_residual_sorts_as_zero:
  assumes "DeriveAndPersist lib elib resolve d i recompute db = (Inr r, db')" "digits_ok lib"
  shows "(\<exists>t row x ms. tenant_of (rx_write_env d) = Some t \<and> GetRiskByID t i db' = Some row \<and> rs_ResidualScore r = Fin x
      \<and> rk_ResidualScore row = RObj ms \<and> numField (members ms) ''score'' = Some x \<and> is_residual lib (rk_ResidualScore row))
    \<and> (\<forall>risks. (\<forall>k \<in> set risks. is_residual lib (Rk_ResidualScore k)) \<longrightarrow>
      (\<forall>k \<in> set risks. residualMagnitude (Rk_ResidualScore k) = Fin 0) \<and> sortByResidualThenAge risks = sort_key Rk_CreatedAt risks)"
proof (intro conjI)
  from assms(1) show "\<exists>t row x ms. tenant_of (rx_write_env d) = Some t \<and> GetRiskByID t i db' = Some row \<and> rs_ResidualScore r = Fin x
      \<and> rk_ResidualScore row = RObj ms \<and> numField (members ms) ''score'' = Some x \<and> is_residual lib (rk_ResidualScore row)"
  proof (rule DeriveAndPersist_InrE)
    fix t db1 blob
    assume t: "tenant_of (rx_write_env d) = Some t" and run: "Derive elib resolve d i recompute db = (Inr r, db1)"
      and blob: "residualBlob lib r = Some blob" and some: "GetRiskByID t i db1 \<noteq> None"
      and db': "db' = db1\<lparr>db_risk_rows := sql_update (\<lambda>r. rk_TenantID r = t \<and> rk_ID r = i)
         (\<lambda>r. r\<lparr>rk_ResidualScore := jsonb blob, rk_UpdatedAt := pgTime (rx_dbnow d)\<rparr>) (db_risk_rows db1)\<rparr>"
    obtain x a where x: "rs_ResidualScore r = Fin x" "rs_InherentScore r = Fin a" using blob by (rule residualBlobE)
    obtain ms where "jsonb blob = RObj ms" "numField (members ms) ''score'' = Some x"
      using stored_score [OF assms(2) blob x(1) Derive_score_float [OF run x]] by blast
    moreover obtain row where "GetRiskByID t i db' = Some row" "rk_ResidualScore row = jsonb blob"
      using some by (auto simp: db' GetRiskByID_update)
    moreover have "is_residual lib (jsonb blob)" using blob by (auto simp: is_residual_def)
    ultimately show ?thesis using t x(1) by auto
  qed
  show "\<forall>risks. (\<forall>k \<in> set risks. is_residual lib (Rk_ResidualScore k)) \<longrightarrow>
      (\<forall>k \<in> set risks. residualMagnitude (Rk_ResidualScore k) = Fin 0) \<and> sortByResidualThenAge risks = sort_key Rk_CreatedAt risks"
    using residualMagnitude_derived sort_by_age [OF _ refl] by blast
qed


section \<open>Deriving again\<close>

lemma Effectiveness_of_InrD:
  assumes "fst (Effectiveness_of elib env now cid db) = Inr eff"
  obtains t where "tx_ok env" "tenant_of env = Some t" "\<exists>meta. loadControl elib t cid db = Inr meta"
    "eff_TotalCount eff = length (filter (\<lambda>r. ce_TenantID r = t \<and> ce_ControlID r = cid
       \<and> sql_ge (ce_EvaluatedAt r) (pgTimestamptz (now - EffectivenessWindow)) \<and> sql_le (ce_EvaluatedAt r) (pgTimestamptz now)) (db_evaluations db))"
    "eff_PassCount eff = length (filter (\<lambda>r. ce_Result r = ResultPass \<and> ce_TenantID r = t \<and> ce_ControlID r = cid
       \<and> sql_ge (ce_EvaluatedAt r) (pgTimestamptz (now - EffectivenessWindow)) \<and> sql_le (ce_EvaluatedAt r) (pgTimestamptz now)) (db_evaluations db))"
proof -
  have len: "length (filter P (sort_key k (filter Q xs))) = length (filter (\<lambda>x. P x \<and> Q x) xs)" for P Q and k :: "evaluation \<Rightarrow> int" and xs
    using filter_sort [of P k "filter Q xs"] by (simp add: conj_commute)
  show ?thesis using assms
    by (auto simp: Effectiveness_of_def Let_def fst_inTx_Inr case_sum_Inr_iff ListControlEvaluationsForEffectiveness_def len intro!: that)
qed

text \<open>
  C26. Deriving again is not idempotent: every recomputation enters the operational score. The pass rate
  counts the evaluations of the last thirty days, and \<open>EvaluateControl\<close>, which the subscriber calls
  before each derivation, adds one per cell. An evaluation of \<open>n\<close> cells, \<open>k\<close> of them passing, at a time
  inside the window turns \<open>p\<close> passes of \<open>q\<close> into \<open>p + k\<close> of \<open>q + n\<close>, with no change of the evidence: with
  each redelivery of a message the rate moves towards the current result.
\<close>

theorem recompute_moves_pass_rate:
  assumes "EvaluateControl elib resolve dr cid trigger asOf db = (Inr n, db')"
    "fst (Effectiveness_of elib env now cid db) = Inr eff" "tenant_of (dr_env dr) = tenant_of env"
    "now - EffectivenessWindow \<le> dr_now dr" "dr_now dr \<le> now" "now \<noteq> 0" "now \<noteq> EffectivenessWindow"
  shows "\<exists>eff' rows. db' = db\<lparr>db_evaluations := db_evaluations db @ rows\<rparr> \<and> length rows = n \<and> 0 < n
    \<and> fst (Effectiveness_of elib env now cid db') = Inr eff' \<and> eff_TotalCount eff' = eff_TotalCount eff + n
    \<and> eff_PassCount eff' = eff_PassCount eff + length (filter (\<lambda>r. ce_Result r = ResultPass) rows)"
  using assms(1)
proof (cases rule: EvaluateControl_cases)
  case (commit t cells meta)
  define rows where "rows = run_rows (\<lambda>c. projr (computeRow elib meta (loadEvidence t cid (el_uuid_string elib cid) asOf db) c (dr_run dr) trigger (dr_now dr)))
    dr t 0 (eval_targets cells)"
  have db': "db' = db\<lparr>db_evaluations := db_evaluations db @ rows\<rparr>" using commit(6) by (simp add: rows_def)
  have n: "length rows = n" "0 < n" using commit(5) by (auto simp: rows_def eval_targets_def split: if_splits)
  have id: "cm_id meta = cid" using commit(4) by (auto simp: loadControl_def split: option.splits)
  have new: "ce_TenantID r = t \<and> ce_ControlID r = cid \<and> ce_EvaluatedAt r = dr_now dr" if "r \<in> set rows" for r
  proof -
    obtain j c where c: "c \<in> set (eval_targets cells)" "r = evaluation_of (dr_row dr j) t (dr_now dr) (dr_dbnow dr)
        (projr (computeRow elib meta (loadEvidence t cid (el_uuid_string elib cid) asOf db) c (dr_run dr) trigger (dr_now dr)))"
      using \<open>r \<in> set rows\<close> unfolding rows_def by (rule set_run_rowsE)
    from commit(7) [OF c(1)] obtain row where row: "computeRow elib meta (loadEvidence t cid (el_uuid_string elib cid) asOf db) c (dr_run dr) trigger (dr_now dr) = Inr row"
      by blast
    then have "er_controlID row = cid" by (auto simp: computeRow_Inr_iff id)
    then show ?thesis by (simp add: c(2) row evaluation_of_def)
  qed
  let ?in = "\<lambda>r. sql_ge (ce_EvaluatedAt r) (pgTimestamptz (now - EffectivenessWindow)) \<and> sql_le (ce_EvaluatedAt r) (pgTimestamptz now)"
  have window: "ce_TenantID r = t \<and> ce_ControlID r = cid \<and> ?in r" if "r \<in> set rows" for r
    using new [OF that] assms(4-7) by (auto simp: sql_ge_def sql_le_def pgTimestamptz_def)
  obtain eff' where eff': "fst (Effectiveness_of elib env now cid db') = Inr eff'"
    using assms(2,3) commit(1,4)
    by (auto simp: Effectiveness_of_def Let_def fst_inTx_Inr case_sum_Inr_iff db' loadControl_def GetControlByID_def)
  have t: "tenant_of env = Some t" using assms(3) commit(1) by simp
  have count: "length (filter P (db_evaluations db')) = length (filter P (db_evaluations db)) + length (filter P rows)" for P
    by (simp add: db')
  have all: "length (filter (\<lambda>r. ce_TenantID r = t \<and> ce_ControlID r = cid \<and> ?in r) rows) = n" using window n(1) by (simp add: filter_True)
  have pass: "filter (\<lambda>r. ce_Result r = ResultPass \<and> ce_TenantID r = t \<and> ce_ControlID r = cid \<and> ?in r) rows = filter (\<lambda>r. ce_Result r = ResultPass) rows"
    by (rule filter_cong) (use window in auto)
  have "eff_TotalCount eff' = eff_TotalCount eff + n
      \<and> eff_PassCount eff' = eff_PassCount eff + length (filter (\<lambda>r. ce_Result r = ResultPass) rows)"
    by (rule Effectiveness_of_InrD [OF assms(2)], rule Effectiveness_of_InrD [OF eff']) (simp add: t count all pass)
  then show ?thesis using db' n eff' by blast
qed simp



section \<open>A derivation in range is stored\<close>

lemma breakdown_json_total:
  "components_ok (components b) \<Longrightarrow> unit64 (cb_ControlEffectiveness b) \<Longrightarrow> \<exists>j. breakdown_json lib b = Some j"
  by (auto simp: components_ok_def components_def breakdown_json_def marshal_members_def elim!: in_rangeE)

lemma those_total: "\<forall>x \<in> set xs. \<exists>y. f x = Some y \<Longrightarrow> \<exists>ys. those (map f xs) = Some ys"
  by (induction xs) auto

lemma residualBlob_total:
  assumes "in_range 0 b (rs_ResidualScore r)" "rs_InherentScore r = Fin a" "unit64 (rs_WeightedControlEffectiveness r)"
    "\<forall>x \<in> set (rs_Breakdown r). components_ok (components x) \<and> unit64 (cb_ControlEffectiveness x)"
  shows "\<exists>j. residualBlob lib r = Some j"
proof -
  obtain x w where xw: "rs_ResidualScore r = Fin x" "rs_WeightedControlEffectiveness r = Fin w" using assms(1,3) by (auto simp: in_range_def)
  obtain ys where "those (map (breakdown_json lib) (rs_Breakdown r)) = Some ys"
    using those_total [of "rs_Breakdown r" "breakdown_json lib"] assms(4) breakdown_json_total by blast
  then show ?thesis using xw assms(2) by (simp add: residualBlob_def marshal_members_def)
qed

text \<open>So \<open>DeriveAndPersist\<close> fails only where \<open>Derive\<close> or the transaction fails.\<close>

lemma DeriveAndPersist_total:
  assumes "Derive elib resolve d i recompute db = (Inr r, db1)" "risk_inv db" "rs_InherentScore r = Fin a" "0 \<le> a"
    "length (db_evaluations db1) \<le> 2 ^ 53" "length (db_risk_links db) \<le> 2 ^ 53"
    "tx_ok (rx_write_env d)" "tenant_of (rx_write_env d) = Some t" "GetRiskByID t i db \<noteq> None" "\<And>j. sl_jsonb_ok lib j"
  shows "\<exists>db'. DeriveAndPersist lib elib resolve d i recompute db = (Inr r, db')"
proof -
  note range = Derive_range [OF assms(1-6)]
  have "in_range 0 a (rs_ResidualScore r)" unfolding range(6) by (rule ResidualScore_bounds [OF range(4) assms(4) range(2)])
  then obtain blob where blob: "residualBlob lib r = Some blob"
    using residualBlob_total [OF _ assms(3) range(2)] range(1) ControlEffectiveness_unit by metis
  obtain row where "GetRiskByID t i db1 = Some row" using assms(9) GetRiskByID_extends [OF Derive_extends [OF assms(1)]] by auto
  then have "\<exists>db'. persist_residual lib (rx_write_env d) (rx_dbnow d) i blob db1 = (Inr (), db')"
    using assms(7,8,10)
    by (simp add: persist_residual_def inTx_run UpdateRiskResidual_def jsonb_in_def GetRiskByID_def sql_update_one_def)
  then show ?thesis using assms(1) blob by (auto simp: DeriveAndPersist_def)
qed

lemma scores_total:
  assumes "loadControl elib t cid db = Inr meta" "tx_ok (rd_eff_env d)" "tenant_of (rd_eff_env d) = Some t"
    "tx_ok (rd_state_env d)" "tenant_of (rd_state_env d) = Some t"
  shows "\<exists>x nd. operationalScore elib d cid db = Inr (x, nd)" "\<exists>x. coverageScore elib d cid db = Inr x"
  using assms by (simp_all add: operationalScore_def coverageScore_def Effectiveness_of_def ControlState_def read_states_def inTx_run Let_def)


section \<open>A derivation to evaluate\<close>

definition demo_residual_draw :: residual_draw where
  "demo_residual_draw = \<lparr>rd_eval = demo_draw 50 (days 11), rd_eff_env = demo_env, rd_now = days 11, rd_state_env = demo_env\<rparr>"

definition demo_risk_draw :: risk_draw where
  "demo_risk_draw = \<lparr>rx_read_env = demo_env, rx_write_env = demo_env, rx_dbnow = 0, rx_control = (\<lambda>_. demo_residual_draw)\<rparr>"

definition demo_cells :: "risk_db resolver" where
  "demo_cells env cid db = Inr []"

definition demo_link :: risk_link where
  "demo_link = \<lparr>rlk_RiskID = 7, rlk_ControlID = 7, rlk_TenantID = 1, rlk_CreatedAt = 0, rlk_DesignScore = Thousandths 500,
     rlk_WeightDesign = Thousandths 300, rlk_WeightOperation = Thousandths 500, rlk_WeightCoverage = Thousandths 200\<rparr>"

definition demo_linked_db :: risk_db where
  "demo_linked_db = demo_risk_db\<lparr>db_risk_rows := [demo_risk_row 7 3 0], db_controls := [demo_control], db_risk_links := [demo_link]\<rparr>"

lemma demo_linked_inv: "risk_inv demo_linked_db"
  using demo_two_inv(1)
  by (simp add: risk_shape_def demo_linked_db_def demo_risk_db_def risk_link_ok_def has_risk_def rolls_up_def GetControlByID_def demo_link_def
      demo_control_def weight_check_def link_key_def demo_risk_row_def)

lemma demo_load: "\<exists>meta. loadControl demo_lib 1 7 demo_linked_db = Inr meta"
  by (simp add: loadControl_def GetControlByID_def demo_linked_db_def demo_control_def parseEvidenceQueries_def demo_lib_def)

lemma demo_members:
  obtains ms where "rk_InherentScore (demo_risk_row i l s) = RObj ms"
    "members ms = map_option jsonb \<circ> members [(''likelihood'', RNum l s), (''impact'', RNum 4 0)]"
  using jsonb_ObjE [of "[(''likelihood'', RNum l s), (''impact'', RNum 4 0)]"] by (auto simp: demo_risk_row_def demo_score_def)

lemma demo_scalar: "inherentScalar (rk_Methodology (demo_risk_row 7 3 0)) (rk_InherentScore (demo_risk_row 7 3 0)) = Some (Fin 12)"
proof -
  obtain ms where ms: "rk_InherentScore (demo_risk_row 7 3 0) = RObj ms"
    "members ms = map_option jsonb \<circ> members [(''likelihood'', RNum 3 0), (''impact'', RNum 4 0)]" by (rule demo_members)
  have "go_numbers (RObj ms)" using demo_two_inv(1) ms(1) by (auto simp: risk_shape_def risk_row_ok_def score_ok_def)
  then have u: "unmarshal_map (RObj ms) = Some (map_option jsonb \<circ> members [(''likelihood'', RNum 3 0), (''impact'', RNum 4 0)])"
    by (simp add: ms(2))
  have "f_mul (Fin 3) (Fin 4) = Fin 12" using is_float64_of_int [of 12] by (simp add: is_float64_def)
  then show ?thesis unfolding ms(1) inherentScalar_def u
    by (simp del: f_mul.simps) (simp add: numField_def members_def demo_risk_row_def del: f_mul.simps)
qed

lemma demo_links: "ListRiskControlLinkWeights 1 7 demo_linked_db = [demo_link]" "ListRiskIDsLinkedToControl 1 7 demo_linked_db = [7]"
  by (simp_all add: ListRiskControlLinkWeights_def ListRiskIDsLinkedToControl_def demo_linked_db_def demo_link_def)

lemma demo_recompute:
  "\<exists>db'. EvaluateControl demo_lib demo_cells (demo_draw 50 (days 11)) 7 TriggerIngest FarFuture demo_linked_db = (Inr 1, db')"
proof -
  obtain meta where meta: "loadControl demo_lib 1 7 demo_linked_db = Inr meta" "cm_queries meta = []" "cm_id meta = 7"
    by (simp add: loadControl_def GetControlByID_def demo_linked_db_def demo_control_def parseEvidenceQueries_def demo_lib_def)
  have "\<exists>db'. append_rows demo_lib (demo_draw 50 (days 11)) meta
      (loadEvidence 1 7 (el_uuid_string demo_lib 7) FarFuture demo_linked_db) TriggerIngest 1 0 [None] demo_linked_db =
      Inr (0 + length [None :: uuid option], db')"
    by (rule append_rows_total)
       (auto simp: evalQueries_def trigger_values_def demo_draw_def demo_linked_db_def demo_risk_db_def demo_control_def meta
         loadEvidence_def ListEvidenceForControlAsOf_def days_def hours_def)
  then show ?thesis using meta(1)
    by (auto simp: EvaluateControl_def demo_cells_def demo_draw_def inTx_run eval_targets_def)
qed

lemma demo_breakdown:
  "\<exists>b db'. controlBreakdown demo_lib demo_cells demo_residual_draw demo_link recompute demo_linked_db = (Inr b, db')
     \<and> length (db_evaluations db') \<le> 1"
proof -
  obtain n db' where run: "(if recompute then EvaluateControl demo_lib demo_cells (rd_eval demo_residual_draw) 7 TriggerIngest FarFuture demo_linked_db
      else (Inr 0, demo_linked_db)) = (Inr n, db')" "n \<le> 1"
    using demo_recompute by (cases recompute) (auto simp: demo_residual_draw_def)
  have db': "\<exists>evs. db' = demo_linked_db\<lparr>db_evaluations := evs\<rparr> \<and> length evs \<le> 1"
    using run by (cases recompute) (auto elim!: EvaluateControl_cases simp: demo_linked_db_def demo_risk_db_def)
  then have "loadControl demo_lib 1 7 db' = loadControl demo_lib 1 7 demo_linked_db" by (auto simp: loadControl_def GetControlByID_def)
  then obtain meta where "loadControl demo_lib 1 7 db' = Inr meta" using demo_load by auto
  from scores_total [OF this, of demo_residual_draw] obtain x nd y where
    "operationalScore demo_lib demo_residual_draw 7 db' = Inr (x, nd)" "coverageScore demo_lib demo_residual_draw 7 db' = Inr y"
    by (auto simp: demo_residual_draw_def)
  moreover have "rlk_ControlID demo_link = 7" by (simp add: demo_link_def)
  ultimately show ?thesis using run(1) db' by (auto simp: controlBreakdown_def Let_def)
qed

lemma demo_row: "GetRiskByID 1 7 demo_linked_db = Some (demo_risk_row 7 3 0)"
  by (simp add: GetRiskByID_def demo_linked_db_def demo_risk_row_def)

lemma demo_derive:
  "\<exists>r db'. Derive demo_lib demo_cells demo_risk_draw 7 recompute demo_linked_db = (Inr r, db') \<and> rs_InherentScore r = Fin 12
     \<and> rs_Breakdown r \<noteq> [] \<and> length (db_evaluations db') \<le> 2 ^ 53"
proof -
  obtain b db' where b: "controlBreakdown demo_lib demo_cells demo_residual_draw demo_link recompute demo_linked_db = (Inr b, db')"
    "length (db_evaluations db') \<le> 1" using demo_breakdown by blast
  then show ?thesis by (simp add: Derive_def demo_risk_draw_def inTx_run demo_row demo_links(1) demo_scalar Let_def)
qed

theorem residual_bounds_witness:
  "\<exists>r db'. Derive demo_lib demo_cells demo_risk_draw 7 True demo_linked_db = (Inr r, db') \<and> rs_Breakdown r \<noteq> []
     \<and> in_range 0 12 (rs_ResidualScore r) \<and> unit64 (rs_WeightedControlEffectiveness r)"
proof -
  obtain r db' where r: "Derive demo_lib demo_cells demo_risk_draw 7 True demo_linked_db = (Inr r, db')"
    "rs_InherentScore r = Fin 12" "rs_Breakdown r \<noteq> []" "length (db_evaluations db') \<le> 2 ^ 53" using demo_derive by blast
  have n: "length (db_risk_links demo_linked_db) \<le> 2 ^ 53" "0 \<le> (12 :: rat)" by (simp_all add: demo_linked_db_def)
  show ?thesis using r residual_bounds [OF r(1) demo_linked_inv r(2) n(2) r(4) n(1)] by blast
qed

lemma demo_persist:
  "\<exists>r db'. DeriveAndPersist demo_score_lib demo_lib demo_cells demo_risk_draw 7 recompute demo_linked_db = (Inr r, db')"
proof -
  obtain r db' where r: "Derive demo_lib demo_cells demo_risk_draw 7 recompute demo_linked_db = (Inr r, db')"
    "rs_InherentScore r = Fin 12" "length (db_evaluations db') \<le> 2 ^ 53" using demo_derive by blast
  have n: "length (db_risk_links demo_linked_db) \<le> 2 ^ 53" "0 \<le> (12 :: rat)" by (simp_all add: demo_linked_db_def)
  show ?thesis
    using DeriveAndPersist_total [OF r(1) demo_linked_inv r(2) n(2) r(3) n(1), of 1 demo_score_lib] demo_row
    by (auto simp: demo_risk_draw_def demo_score_lib_def)
qed

theorem derived_residual_sorts_as_zero_witness:
  "\<exists>r db' row x ms. DeriveAndPersist demo_score_lib demo_lib demo_cells demo_risk_draw 7 True demo_linked_db = (Inr r, db')
     \<and> GetRiskByID 1 7 db' = Some row \<and> rs_ResidualScore r = Fin x \<and> rk_ResidualScore row = RObj ms
     \<and> numField (members ms) ''score'' = Some x \<and> residualMagnitude (rk_ResidualScore row) = Fin 0"
proof -
  obtain r db' where r: "DeriveAndPersist demo_score_lib demo_lib demo_cells demo_risk_draw 7 True demo_linked_db = (Inr r, db')"
    using demo_persist by blast
  have t: "tenant_of (rx_write_env demo_risk_draw) = Some 1" by (simp add: demo_risk_draw_def)
  note stored = derived_residual_sorts_as_zero [OF r demo_digits_ok]
  from stored [THEN conjunct1] obtain row x ms where row: "GetRiskByID 1 7 db' = Some row" "rs_ResidualScore r = Fin x" "rk_ResidualScore row = RObj ms"
    "numField (members ms) ''score'' = Some x" "is_residual demo_score_lib (rk_ResidualScore row)" using t by auto
  have "residualMagnitude (Rk_ResidualScore (riskFromRow row)) = Fin 0"
    using stored [THEN conjunct2, rule_format, of "[riskFromRow row]"] row(5) by (simp add: riskFromRow_def)
  then show ?thesis using r row by (auto simp: riskFromRow_def)
qed

theorem recompute_moves_pass_rate_witness:
  "\<exists>db' eff eff'. EvaluateControl demo_lib demo_cells (demo_draw 50 (days 11)) 7 TriggerIngest FarFuture demo_linked_db = (Inr 1, db')
     \<and> fst (Effectiveness_of demo_lib demo_env (days 11) 7 demo_linked_db) = Inr eff
     \<and> fst (Effectiveness_of demo_lib demo_env (days 11) 7 db') = Inr eff' \<and> eff_TotalCount eff' = eff_TotalCount eff + 1"
proof -
  obtain db' where run: "EvaluateControl demo_lib demo_cells (demo_draw 50 (days 11)) 7 TriggerIngest FarFuture demo_linked_db = (Inr 1, db')"
    using demo_recompute by blast
  obtain eff where eff: "fst (Effectiveness_of demo_lib demo_env (days 11) 7 demo_linked_db) = Inr eff"
    using demo_load by (auto simp: Effectiveness_of_def inTx_run Let_def)
  have "days 11 - EffectivenessWindow \<le> dr_now (demo_draw 50 (days 11))" "dr_now (demo_draw 50 (days 11)) \<le> days 11"
    "days 11 \<noteq> 0" "days 11 \<noteq> EffectivenessWindow" "tenant_of (dr_env (demo_draw 50 (days 11))) = tenant_of demo_env"
    by (simp_all add: demo_draw_def EffectivenessWindow_def days_def hours_def)
  then show ?thesis using recompute_moves_pass_rate [OF run eff] run eff by blast
qed

theorem residual_subscriber_acks_witness:
  "\<exists>db'. ResidualSubscriber_handle demo_score_lib demo_lib demo_cells Some (\<lambda>s. Some (if s = ''c'' then 7 else 1)) (\<lambda>_. demo_env)
      (\<lambda>_ _. demo_risk_draw) demo_env \<lparr>msg_Data = ''c'', msg_CredentialTenant = ''t''\<rparr> demo_linked_db = (MsgAck, db')
    \<and> has_residual demo_score_lib 1 7 db' \<and> residual_frame demo_linked_db db'"
proof -
  let ?parse = "\<lambda>s. Some (if s = ''c'' then 7 else 1 :: uuid)"
  let ?msg = "\<lparr>msg_Data = ''c'', msg_CredentialTenant = ''t''\<rparr>"
  obtain r db' where r: "DeriveAndPersist demo_score_lib demo_lib demo_cells demo_risk_draw 7 True demo_linked_db = (Inr r, db')"
    using demo_persist by blast
  have run: "ResidualSubscriber_handle demo_score_lib demo_lib demo_cells Some ?parse (\<lambda>_. demo_env) (\<lambda>_ _. demo_risk_draw) demo_env ?msg demo_linked_db =
      (MsgAck, db')"
    by (simp add: ResidualSubscriber_handle_def WithTenant_def demo_lib_def linkedRisks_def inTx_run demo_links(2) r [unfolded demo_lib_def])
  have "tenant_of (rx_read_env demo_risk_draw) = Some 1 \<and> tenant_of (rx_write_env demo_risk_draw) = Some 1" by (simp add: demo_risk_draw_def)
  with residual_subscriber_acks [OF run demo_linked_inv, where ref = "''c''" and t = 1 and c = 7] run show ?thesis
    by (simp add: demo_links(2))
qed

end
