(* ===== verification/Go_Time.thy ===== *)
theory Go_Time
  imports Atlas_Prelude
begin

text \<open>
  The text of an instant in UTC as \<open>time.RFC3339\<close> prints it: the Gregorian date, the time of day to
  the second, and \<open>Z\<close>. Instants count nanoseconds from the start of year 1. The year is computed
  from its cycles of 400, 100, 4 and 1 years, as the library does.
\<close>

section \<open>Numbers\<close>

function itoa :: "nat \<Rightarrow> string" where
  "itoa n = (if n < 10 then [char_of (48 + n)] else itoa (n div 10) @ [char_of (48 + n mod 10)])"
  by pat_completeness auto
termination
  by (relation "measure id") auto

declare itoa.simps [simp del]

text \<open>\<open>appendInt\<close> of the package \<open>time\<close>: at least \<open>width\<close> digits.\<close>

definition appendInt :: "int \<Rightarrow> nat \<Rightarrow> string" where
  "appendInt x width =
     (let ds = itoa (nat \<bar>x\<bar>) in (if x < 0 then ''-'' else []) @ replicate (width - length ds) (CHR ''0'') @ ds)"

definition digits_value :: "string \<Rightarrow> nat" where
  "digits_value ds = foldl (\<lambda>v c. 10 * v + (of_char c - 48)) 0 ds"

definition is_digit :: "char \<Rightarrow> bool" where
  "is_digit c \<longleftrightarrow> (48::nat) \<le> of_char c \<and> (of_char c :: nat) \<le> 57"

lemma itoa_digits: "list_all is_digit (itoa n) \<and> digits_value (itoa n) = n"
proof (induction n rule: itoa.induct)
  case (1 n)
  have d: "is_digit (char_of (48 + k))" "of_char (char_of (48 + k) :: char) - 48 = k" if "k < 10" for k :: nat
    using that by (simp_all add: is_digit_def of_char_of take_bit_eq_mod)
  show ?case
  proof (cases "n < 10")
    case True
    then show ?thesis using d [of n] by (subst (1 2) itoa.simps) (simp add: digits_value_def)
  next
    case False
    then show ?thesis using 1 d [of "n mod 10"]
      by (subst (1 2) itoa.simps) (simp add: digits_value_def)
  qed
qed

lemma appendInt_digits:
  assumes "0 \<le> x"
  shows "list_all is_digit (appendInt x w)" "digits_value (appendInt x w) = nat x"
proof -
  have "list_all is_digit (replicate k (CHR ''0''))" "foldl (\<lambda>v c. 10 * v + (of_char c - 48)) 0 (replicate k (CHR ''0'')) = (0 :: nat)" for k
    by (induction k) (simp_all add: is_digit_def)
  then show "list_all is_digit (appendInt x w)" "digits_value (appendInt x w) = nat x"
    using assms itoa_digits [of "nat x"] by (simp_all add: appendInt_def Let_def digits_value_def)
qed

text \<open>A number that is followed by another character can be read back.\<close>

lemma appendInt_cancel:
  assumes "appendInt x w @ c # rest = appendInt y w @ c # rest'" "0 \<le> x" "0 \<le> y" "\<not> is_digit c"
  shows "x = y" "rest = rest'"
proof -
  have take: "takeWhile is_digit (ds @ c # r) = ds" "dropWhile is_digit (ds @ c # r) = c # r" if "list_all is_digit ds" for ds r
    using that assms(4) by (induction ds) auto
  have "appendInt x w = appendInt y w \<and> rest = rest'"
    using take [OF appendInt_digits(1) [OF assms(2), of w], of rest] take [OF appendInt_digits(1) [OF assms(3), of w], of rest'] assms(1) by simp
  then show "x = y" "rest = rest'" using appendInt_digits(2) [OF assms(2), of w] appendInt_digits(2) [OF assms(3), of w] assms(2,3) by auto
qed


section \<open>Dates\<close>

definition gregorian_leap :: "int \<Rightarrow> bool" where
  "gregorian_leap y \<longleftrightarrow> 4 dvd y \<and> (\<not> 100 dvd y \<or> 400 dvd y)"

definition month_lengths :: "bool \<Rightarrow> int list" where
  "month_lengths leap = [31, if leap then 29 else 28, 31, 30, 31, 30, 31, 31, 30, 31, 30, 31]"

fun month_day :: "int list \<Rightarrow> int \<Rightarrow> int \<Rightarrow> int \<times> int" where
  "month_day [] m d = (m, d + 1)"
| "month_day (l # ls) m d = (if d < l then (m, d + 1) else month_day ls (m + 1) (d - l))"

text \<open>The year and the day in it of a day that is counted from the start of year 1.\<close>

definition year_yday :: "int \<Rightarrow> int \<times> int" where
  "year_yday d =
     (let n400 = d div 146097; d1 = d mod 146097;
          n100 = min 3 (d1 div 36524); d2 = d1 - 36524 * n100;
          n4 = d2 div 1461; d3 = d2 mod 1461;
          n1 = min 3 (d3 div 365)
      in (400 * n400 + 100 * n100 + 4 * n4 + n1 + 1, d3 - 365 * n1))"

definition gregorian_date :: "int \<Rightarrow> int \<times> int \<times> int" where
  "gregorian_date d = (case year_yday d of (y, yday) \<Rightarrow> (y, month_day (month_lengths (gregorian_leap y)) 1 yday))"

definition RFC3339 :: "gotime \<Rightarrow> string" where
  "RFC3339 t =
     (let s = t mod hours 24 div 1000000000 in
      case gregorian_date (t div hours 24) of (y, m, d) \<Rightarrow>
        appendInt y 4 @ ''-'' @ appendInt m 2 @ ''-'' @ appendInt d 2 @ ''T''
        @ appendInt (s div 3600) 2 @ '':'' @ appendInt (s div 60 mod 60) 2 @ '':'' @ appendInt (s mod 60) 2 @ ''Z'')"

lemma RFC3339_examples:
  "RFC3339 0 = ''0001-01-01T00:00:00Z''" "RFC3339 62135596800000000000 = ''1970-01-01T00:00:00Z''"
  "RFC3339 63844847999000000000 = ''2024-02-29T23:59:59Z''"
  by code_simp+

lemma month_day_inverse:
  "month_day ls m d = (m', x) \<Longrightarrow> m \<le> m' \<and> d = sum_list (take (nat (m' - m)) ls) + x - 1"
proof (induction ls m d rule: month_day.induct)
  case (2 l ls m d)
  show ?case
  proof (cases "d < l")
    case False
    with 2 have ih: "m + 1 \<le> m'" "d - l = sum_list (take (nat (m' - (m + 1))) ls) + x - 1" by auto
    then have "nat (m' - m) = Suc (nat (m' - (m + 1)))" by linarith
    with ih show ?thesis by simp
  qed (use 2 in auto)
qed auto

lemma year_yday_decomposed:
  obtains a b c e where "year_yday d = (400 * a + 100 * b + 4 * c + e + 1, d - 146097 * a - 36524 * b - 1461 * c - 365 * e)"
    "0 \<le> b" "b \<le> 3" "0 \<le> c" "c \<le> 24" "0 \<le> e" "e \<le> 3" "146097 * a + 36524 * b + 1461 * c + 365 * e \<le> d" "a = d div 146097"
proof -
  define d1 where "d1 = d mod 146097"
  define b where "b = min 3 (d1 div 36524)"
  define d2 where "d2 = d1 - 36524 * b"
  define e where "e = min 3 (d2 mod 1461 div 365)"
  have d1: "0 \<le> d1" "d1 < 146097" "d = 146097 * (d div 146097) + d1" by (simp_all add: d1_def)
  have b: "0 \<le> b" "b \<le> 3" "0 \<le> d2" "d2 \<le> 36524" using d1 by (auto simp: b_def d2_def min_def)
  have c: "0 \<le> d2 div 1461" "d2 div 1461 \<le> 24" "d2 = 1461 * (d2 div 1461) + d2 mod 1461" using b by auto
  have e: "0 \<le> e" "e \<le> 3" "365 * e \<le> d2 mod 1461" by (auto simp: e_def min_def)
  have "year_yday d = (400 * (d div 146097) + 100 * b + 4 * (d2 div 1461) + e + 1, d2 mod 1461 - 365 * e)"
    by (simp add: year_yday_def Let_def e_def d2_def b_def d1_def)
  moreover have "d2 mod 1461 - 365 * e = d - 146097 * (d div 146097) - 36524 * b - 1461 * (d2 div 1461) - 365 * e"
    using d1(3) c(3) d2_def by linarith
  ultimately show ?thesis using b c e d1(3) by (intro that [of "d div 146097" b "d2 div 1461" e]) (simp_all add: d2_def)
qed

lemma year_yday_inj:
  assumes "year_yday d = year_yday d'"
  shows "d = d'"
proof -
  obtain a b c e where 1: "year_yday d = (400 * a + 100 * b + 4 * c + e + 1, d - 146097 * a - 36524 * b - 1461 * c - 365 * e)"
    "0 \<le> b" "b \<le> 3" "0 \<le> c" "c \<le> 24" "0 \<le> e" "e \<le> 3" by (rule year_yday_decomposed)
  obtain a' b' c' e' where 2: "year_yday d' = (400 * a' + 100 * b' + 4 * c' + e' + 1, d' - 146097 * a' - 36524 * b' - 1461 * c' - 365 * e')"
    "0 \<le> b'" "b' \<le> 3" "0 \<le> c'" "c' \<le> 24" "0 \<le> e'" "e' \<le> 3" by (rule year_yday_decomposed)
  have y: "400 * a + (100 * b + (4 * c + e)) = 400 * a' + (100 * b' + (4 * c' + e'))" using assms 1(1) 2(1) by simp
  have split: "q = q' \<and> r = r'" if "k * q + r = k * q' + r'" "0 \<le> r" "r < k" "0 \<le> r'" "r' < k" for k q r q' r' :: int
  proof -
    have "(k * q + r) div k = q" using that(2,3) by simp
    moreover have "(k * q' + r') div k = q'" using that(4,5) by simp
    ultimately have "q = q'" using that(1) by metis
    with that(1) show ?thesis by simp
  qed
  have a: "a = a' \<and> 100 * b + (4 * c + e) = 100 * b' + (4 * c' + e')" by (rule split [OF y]) (use 1 2 in auto)
  then have b: "b = b' \<and> 4 * c + e = 4 * c' + e'" by (intro split) (use 1 2 in auto)
  then have "c = c' \<and> e = e'" by (intro split) (use 1 2 in auto)
  with a b show ?thesis using assms 1(1) 2(1) by simp
qed

lemma gregorian_date_inj: "gregorian_date d = gregorian_date d' \<Longrightarrow> d = d'"
proof -
  assume eq: "gregorian_date d = gregorian_date d'"
  obtain y yd where y: "year_yday d = (y, yd)" by fastforce
  obtain y' yd' where y': "year_yday d' = (y', yd')" by fastforce
  obtain m x where md: "month_day (month_lengths (gregorian_leap y)) 1 yd = (m, x)" by fastforce
  with eq y y' have "y' = y" "month_day (month_lengths (gregorian_leap y)) 1 yd' = (m, x)" by (auto simp: gregorian_date_def)
  with month_day_inverse [OF md] month_day_inverse [of "month_lengths (gregorian_leap y)" 1 yd' m x] have "yd = yd'" by simp
  with y y' \<open>y' = y\<close> show ?thesis by (simp add: year_yday_inj)
qed

lemma gregorian_date_bounds:
  assumes "0 \<le> d" "gregorian_date d = (y, m, x)"
  shows "1 \<le> y" "1 \<le> m" "1 \<le> x"
proof -
  obtain a b c e where 1: "year_yday d = (400 * a + 100 * b + 4 * c + e + 1, d - 146097 * a - 36524 * b - 1461 * c - 365 * e)"
    "0 \<le> b" "0 \<le> c" "0 \<le> e" "146097 * a + 36524 * b + 1461 * c + 365 * e \<le> d" "a = d div 146097" by (rule year_yday_decomposed)
  have "0 \<le> a" using assms(1) 1(6) by (simp add: pos_imp_zdiv_nonneg_iff)
  then show "1 \<le> y" using assms(2) 1 by (auto simp: gregorian_date_def split: prod.splits)
  have pos: "0 \<le> v \<Longrightarrow> 1 \<le> k \<Longrightarrow> 1 \<le> fst (month_day ls k v) \<and> 1 \<le> snd (month_day ls k v)" for ls k v
    by (induction ls k v rule: month_day.induct) auto
  obtain yd where "year_yday d = (y, yd)" "0 \<le> yd" "month_day (month_lengths (gregorian_leap y)) 1 yd = (m, x)"
    using assms(2) 1 by (auto simp: gregorian_date_def split: prod.splits)
  with pos [of yd 1 "month_lengths (gregorian_leap y)"] show "1 \<le> m" "1 \<le> x" by simp_all
qed

text \<open>Two midnights with the same text are the same.\<close>

lemma RFC3339_midnight_inj:
  assumes "RFC3339 t = RFC3339 t'" "0 \<le> t" "0 \<le> t'" "t mod hours 24 = 0" "t' mod hours 24 = 0"
  shows "t = t'"
proof -
  obtain y m d where d: "gregorian_date (t div hours 24) = (y, m, d)" by (metis prod.exhaust)
  obtain y' m' d' where d': "gregorian_date (t' div hours 24) = (y', m', d')" by (metis prod.exhaust)
  have h: "(0::int) < hours 24" by (simp add: hours_def)
  have b: "1 \<le> y" "1 \<le> m" "1 \<le> d" by (rule gregorian_date_bounds [OF _ d]; use assms(2) h in \<open>simp add: pos_imp_zdiv_nonneg_iff\<close>)+
  have b': "1 \<le> y'" "1 \<le> m'" "1 \<le> d'" by (rule gregorian_date_bounds [OF _ d']; use assms(3) h in \<open>simp add: pos_imp_zdiv_nonneg_iff\<close>)+
  have nd: "\<not> is_digit (CHR ''-'')" "\<not> is_digit (CHR ''T'')" by (simp_all add: is_digit_def)
  obtain rest rest' where printed: "RFC3339 t = appendInt y 4 @ CHR ''-'' # appendInt m 2 @ CHR ''-'' # appendInt d 2 @ CHR ''T'' # rest"
    "RFC3339 t' = appendInt y' 4 @ CHR ''-'' # appendInt m' 2 @ CHR ''-'' # appendInt d' 2 @ CHR ''T'' # rest'"
    by (simp add: RFC3339_def d d' Let_def)
  note eq = assms(1) [unfolded printed]
  have y: "y = y'" "appendInt m 2 @ CHR ''-'' # appendInt d 2 @ CHR ''T'' # rest = appendInt m' 2 @ CHR ''-'' # appendInt d' 2 @ CHR ''T'' # rest'"
    by (rule appendInt_cancel [OF eq _ _ nd(1)]; use b b' in simp)+
  have m: "m = m'" "appendInt d 2 @ CHR ''T'' # rest = appendInt d' 2 @ CHR ''T'' # rest'"
    by (rule appendInt_cancel [OF y(2) _ _ nd(1)]; use b b' in simp)+
  have "d = d'" by (rule appendInt_cancel [OF m(2) _ _ nd(2)]) (use b b' in simp_all)
  with y m d d' have "t div hours 24 = t' div hours 24" by (intro gregorian_date_inj) simp
  moreover have "t = hours 24 * (t div hours 24)" "t' = hours 24 * (t' div hours 24)" using assms(4,5) by (simp_all add: minus_mod_eq_mult_div [symmetric])
  ultimately show ?thesis by metis
qed

end
