(* ===== verification/Agg_Rule.thy ===== *)
theory Agg_Rule
  imports Go_Time Risk_Register
begin

text \<open>
  \<open>internal/risk/aggrule\<close>: the declarative aggregation rules. \<open>dsl.go\<close> is the rule with its
  validation, \<open>severity.go\<close> the severity of a fired rule, \<open>store.go\<close> the lifecycle of a rule with its
  audit log, and \<open>engine.go\<close> the engine that turns the risks of a theme into a meta-risk, over the
  queries of \<open>internal/db/dbx/aggregation_rules.sql.go\<close> and the constraints of the migration
  \<open>20260511000026\<close>.

  A rule is kept as the \<open>jsonb\<close> tree of its canonical JSON next to the columns taken from it; its
  texts are the UTF-8 texts that both decoders give. Parameters (\<open>agg_lib\<close>): those of \<open>score_lib\<close>, the
  formatted description of a meta-risk, and what OPA answers for a
  policy and its input. \<open>rule_env\<close> holds what one evaluation draws from outside: the clock, two fresh
  identifiers, and the order in which Go walks the map of themes.
\<close>

datatype rego_value = RegoInt int | RegoFloat float64 | RegoNumber "int option" | RegoOther

text \<open>A policy fails to compile or to evaluate, gives no expression, or gives a value.\<close>

datatype rego_answer = RegoFails | RegoUndefined | RegoValue rego_value

record agg_lib =
  gl_score :: score_lib
  gl_describe :: "string \<Rightarrow> nat \<Rightarrow> string \<Rightarrow> string"
  gl_rego :: "string \<Rightarrow> int list \<Rightarrow> nat \<Rightarrow> rego_answer"

record rule_env =
  re_now :: gotime
  re_metaID :: uuid
  re_evalID :: uuid
  re_order :: "string list \<Rightarrow> string list"


section \<open>Rules\<close>

record Rule =
  ru_RuleID :: string
  ru_TargetTheme :: string
  ru_MinRisks :: int
  ru_MinTeams :: int
  ru_WindowDays :: int
  ru_ParentLevel :: string
  ru_SeverityFunction :: string
  ru_TitleTemplate :: string
  ru_CustomRego :: string

definition zero_Rule :: Rule where
  "zero_Rule = \<lparr>ru_RuleID = [], ru_TargetTheme = [], ru_MinRisks = 0, ru_MinTeams = 0, ru_WindowDays = 0, ru_ParentLevel = [],
     ru_SeverityFunction = [], ru_TitleTemplate = [], ru_CustomRego = []\<rparr>"

definition SeverityFunctionCustomRego :: string where
  "SeverityFunctionCustomRego = ''custom_rego''"

definition validSeverityFunctions :: "string set" where
  "validSeverityFunctions = {SeverityFunctionMax, SeverityFunctionWeightedMax, SeverityFunctionSum, SeverityFunctionCustomRego}"

definition validParentLevels :: "string set" where
  "validParentLevels = {''team'', ''org'', ''company''}"

record FieldError =
  fe_Field :: string
  fe_Message :: string

definition field_error :: "bool \<Rightarrow> string \<Rightarrow> string \<Rightarrow> FieldError list" where
  "field_error bad field msg = (if bad then [\<lparr>fe_Field = field, fe_Message = msg\<rparr>] else [])"

text \<open>The list of all problems; the rule is well-formed when it is empty.\<close>

definition Validate :: "Rule \<Rightarrow> FieldError list" where
  "Validate r =
     field_error (TrimSpace (ru_RuleID r) = []) ''rule_id'' ''must not be empty''
   @ field_error (TrimSpace (ru_TargetTheme r) = []) ''target_theme'' ''must not be empty''
   @ field_error (ru_MinRisks r \<le> 0) ''min_risks'' ''must be a positive integer''
   @ field_error (ru_MinTeams r \<le> 0) ''min_teams'' ''must be a positive integer''
   @ field_error (ru_WindowDays r \<le> 0) ''window_days'' ''must be a positive integer''
   @ field_error (ru_ParentLevel r \<notin> validParentLevels) ''parent_level'' ''must be one of team, org, company''
   @ field_error (ru_SeverityFunction r \<notin> validSeverityFunctions) ''severity_function''
       ''must be one of max, weighted_max, sum, custom_rego''
   @ (if ru_SeverityFunction r = SeverityFunctionCustomRego
      then field_error (TrimSpace (ru_CustomRego r) = []) ''custom_rego''
             ''must be a non-empty Rego policy when severity_function is custom_rego''
      else field_error (TrimSpace (ru_CustomRego r) \<noteq> []) ''custom_rego''
             ''must be empty unless severity_function is custom_rego'')
   @ field_error
       (ru_RuleID r \<noteq> [] \<and> (sublist (ru_RuleID r) (ru_TargetTheme r) \<or> sublist (ru_RuleID r) (ru_TitleTemplate r)
          \<or> sublist (ru_RuleID r) (ru_CustomRego r)))
       ''rule_id''
       ''rule is self-referential: rule_id must not appear in target_theme, title_template, or custom_rego''"

definition CanonicalJSON :: "Rule \<Rightarrow> rjson" where
  "CanonicalJSON r =
     RObj [(''rule_id'', RStr (ru_RuleID r)), (''target_theme'', RStr (ru_TargetTheme r)), (''min_risks'', json_int (ru_MinRisks r)),
           (''min_teams'', json_int (ru_MinTeams r)), (''window_days'', json_int (ru_WindowDays r)),
           (''parent_level'', RStr (ru_ParentLevel r)), (''severity_function'', RStr (ru_SeverityFunction r)),
           (''title_template'', RStr (ru_TitleTemplate r)), (''custom_rego'', RStr (ru_CustomRego r))]"

text \<open>
  \<open>json.Unmarshal\<close> of a stored body: a member goes to the field of its name, or of its name up to
  case; a null leaves the field, and a value of another type, or a number that is no 64-bit integer,
  is an error.
\<close>

definition set_text :: "(string \<Rightarrow> Rule \<Rightarrow> Rule) \<Rightarrow> rjson \<Rightarrow> Rule \<Rightarrow> Rule option" where
  "set_text upd v r = (case v of RNull \<Rightarrow> Some r | RStr s \<Rightarrow> Some (upd s r) | _ \<Rightarrow> None)"

definition set_int :: "(int \<Rightarrow> Rule \<Rightarrow> Rule) \<Rightarrow> rjson \<Rightarrow> Rule \<Rightarrow> Rule option" where
  "set_int upd v r =
     (case v of
        RNull \<Rightarrow> Some r
      | RNum m s \<Rightarrow> if s = 0 \<and> - (2 ^ 63) \<le> m \<and> m < 2 ^ 63 then Some (upd m r) else None
      | _ \<Rightarrow> None)"

definition rule_fields :: "(string \<times> (rjson \<Rightarrow> Rule \<Rightarrow> Rule option)) list" where
  "rule_fields =
     [(''rule_id'', set_text (\<lambda>s r. r\<lparr>ru_RuleID := s\<rparr>)), (''target_theme'', set_text (\<lambda>s r. r\<lparr>ru_TargetTheme := s\<rparr>)),
      (''min_risks'', set_int (\<lambda>n r. r\<lparr>ru_MinRisks := n\<rparr>)), (''min_teams'', set_int (\<lambda>n r. r\<lparr>ru_MinTeams := n\<rparr>)),
      (''window_days'', set_int (\<lambda>n r. r\<lparr>ru_WindowDays := n\<rparr>)), (''parent_level'', set_text (\<lambda>s r. r\<lparr>ru_ParentLevel := s\<rparr>)),
      (''severity_function'', set_text (\<lambda>s r. r\<lparr>ru_SeverityFunction := s\<rparr>)),
      (''title_template'', set_text (\<lambda>s r. r\<lparr>ru_TitleTemplate := s\<rparr>)),
      (''custom_rego'', set_text (\<lambda>s r. r\<lparr>ru_CustomRego := s\<rparr>))]"

fun rule_members :: "(string \<times> rjson) list \<Rightarrow> Rule \<Rightarrow> Rule option" where
  "rule_members [] r = Some r"
| "rule_members ((key, v) # ms) r =
     (case struct_field (map fst rule_fields) key of
        None \<Rightarrow> rule_members ms r
      | Some f \<Rightarrow>
        (case the (map_of rule_fields f) v r of None \<Rightarrow> None | Some r' \<Rightarrow> rule_members ms r'))"

fun unmarshal_rule :: "rjson \<Rightarrow> Rule option" where
  "unmarshal_rule RNull = Some zero_Rule"
| "unmarshal_rule (RObj ms) = rule_members ms zero_Rule"
| "unmarshal_rule _ = None"

definition theme_mark :: string where
  "theme_mark = ''{theme}''"

fun replace_theme :: "string \<Rightarrow> string \<Rightarrow> string" where
  "replace_theme theme [] = []"
| "replace_theme theme (c # s) =
     (if prefix theme_mark (c # s) then theme @ replace_theme theme (drop (length theme_mark - 1) s)
      else c # replace_theme theme s)"

definition Title :: "Rule \<Rightarrow> string" where
  "Title r =
     replace_theme (ru_TargetTheme r)
       (if TrimSpace (ru_TitleTemplate r) = [] then ''Aggregated '' @ ru_TargetTheme r @ '' pattern'' else ru_TitleTemplate r)"


section \<open>Severity of a fired rule\<close>

datatype agg_error =
    AgErrNotFound | ErrWrongState | ErrDuplicateRuleID | ValidationError "FieldError list" | ErrRuleBody uuid
  | ErrCustomRego | AgSeverity risk_error | AgDatabase pg_error

definition clampSeverity :: "int \<Rightarrow> int" where
  "clampSeverity v = (if v < 0 then 0 else if v > SeverityScaleMax then SeverityScaleMax else v)"

fun coerceSeverity :: "score_lib \<Rightarrow> rego_value \<Rightarrow> int option" where
  "coerceSeverity lib (RegoInt n) = Some n"
| "coerceSeverity lib (RegoFloat x) = Some (int_of_float lib x)"
| "coerceSeverity lib (RegoNumber n) = n"
| "coerceSeverity lib RegoOther = None"

definition evalCustomRego :: "agg_lib \<Rightarrow> string \<Rightarrow> int list \<Rightarrow> agg_error + int" where
  "evalCustomRego lib policy scores =
     (if policy = [] then Inl ErrCustomRego
      else
        (case gl_rego lib policy scores (length scores) of
           RegoValue v \<Rightarrow>
             (case coerceSeverity (gl_score lib) v of None \<Rightarrow> Inl ErrCustomRego | Some sev \<Rightarrow> Inr (clampSeverity sev))
         | _ \<Rightarrow> Inl ErrCustomRego))"

definition ComputeRuleSeverity :: "agg_lib \<Rightarrow> string \<Rightarrow> int list \<Rightarrow> string \<Rightarrow> agg_error + int" where
  "ComputeRuleSeverity lib fn scores regoPolicy =
     (if scores = [] then Inl (AgSeverity ErrEmptyChildren)
      else if fn = SeverityFunctionMax \<or> fn = SeverityFunctionWeightedMax \<or> fn = SeverityFunctionSum then
        (case ComputeSeverity (gl_score lib) fn (map (\<lambda>s. \<lparr>cs_Likelihood = 1, cs_Impact = s\<rparr>) scores) of
           Inl e \<Rightarrow> Inl (AgSeverity e) | Inr s \<Rightarrow> Inr s)
      else if fn = SeverityFunctionCustomRego then evalCustomRego lib regoPolicy scores
      else Inl (AgSeverity (ErrUnknownSeverityFunction fn)))"


section \<open>Queries\<close>

record agg_rule_row =
  ag_ID :: uuid
  ag_TenantID :: uuid
  ag_RuleID :: string
  ag_TargetTheme :: string
  ag_MinRisks :: int
  ag_MinTeams :: int
  ag_WindowDays :: int
  ag_ParentLevel :: string
  ag_SeverityFunction :: string
  ag_RuleBody :: rjson
  ag_Status :: string
  ag_ActivatedBy :: "string option"
  ag_ActivatedAt :: "gotime option"
  ag_CreatedAt :: gotime
  ag_UpdatedAt :: gotime

record agg_audit_row =
  aal_ID :: uuid
  aal_TenantID :: uuid
  aal_RuleID :: uuid
  aal_Event :: string
  aal_Actor :: string
  aal_FromStatus :: "string option"
  aal_ToStatus :: "string option"
  aal_Detail :: rjson
  aal_CreatedAt :: gotime

record agg_eval_row =
  ae_ID :: uuid
  ae_TenantID :: uuid
  ae_RuleID :: uuid
  ae_EvaluatedAt :: gotime
  ae_Outcome :: string
  ae_RiskCount :: int
  ae_TeamCount :: int
  ae_WindowStart :: "gotime option"
  ae_MetaRiskID :: "uuid option"
  ae_CreatedAt :: gotime

record agg_db = risk_db +
  db_agg_rules :: "agg_rule_row list"
  db_agg_evaluations :: "agg_eval_row list"
  db_agg_audit :: "agg_audit_row list"

definition AgStaged :: string where "AgStaged = ''staged''"
definition AgActive :: string where "AgActive = ''active''"
definition AgInactive :: string where "AgInactive = ''inactive''"

lemmas ag_status_defs = AgStaged_def AgActive_def AgInactive_def

definition aggregation_rules_check :: "agg_rule_row \<Rightarrow> bool" where
  "aggregation_rules_check r \<longleftrightarrow>
     ag_RuleID r \<noteq> [] \<and> ag_TargetTheme r \<noteq> [] \<and> 0 < ag_MinRisks r \<and> 0 < ag_MinTeams r \<and> 0 < ag_WindowDays r
     \<and> ag_SeverityFunction r \<in> validSeverityFunctions \<and> ag_Status r \<in> {AgStaged, AgActive, AgInactive}
     \<and> (ag_SeverityFunction r = SeverityFunctionCustomRego \<longrightarrow>
          (case json_text (ag_RuleBody r) ''custom_rego'' of Some s \<Rightarrow> s \<noteq> [] | None \<Rightarrow> False))
     \<and> (if ag_Status r = AgStaged then ag_ActivatedBy r = None \<and> ag_ActivatedAt r = None
        else ag_ActivatedBy r \<noteq> None \<and> ag_ActivatedAt r \<noteq> None)"

definition CreateAggregationRule ::
  "score_lib \<Rightarrow> gotime \<Rightarrow> uuid \<Rightarrow> uuid \<Rightarrow> string \<Rightarrow> string \<Rightarrow> int \<Rightarrow> int \<Rightarrow> int \<Rightarrow> string \<Rightarrow> string \<Rightarrow> rjson \<Rightarrow> 'z agg_db_scheme \<Rightarrow>
   pg_error + agg_rule_row \<times> 'z agg_db_scheme" where
  "CreateAggregationRule lib dbnow i t ruleID theme minRisks minTeams windowDays level fn body db =
     (case jsonb_in lib (Some body) of
        None \<Rightarrow> Inl InvalidTextRepresentation
      | Some b \<Rightarrow>
        (let row = \<lparr>ag_ID = i, ag_TenantID = t, ag_RuleID = ruleID, ag_TargetTheme = theme, ag_MinRisks = minRisks,
               ag_MinTeams = minTeams, ag_WindowDays = windowDays, ag_ParentLevel = level, ag_SeverityFunction = fn,
               ag_RuleBody = b, ag_Status = AgStaged, ag_ActivatedBy = None, ag_ActivatedAt = None,
               ag_CreatedAt = pgTime dbnow, ag_UpdatedAt = pgTime dbnow\<rparr>
         in if level \<notin> risk_levels then Inl InvalidTextRepresentation
            else if \<not> aggregation_rules_check row then Inl CheckViolation
            else if i \<in> ag_ID ` set (db_agg_rules db)
              \<or> (t, ruleID) \<in> (\<lambda>r. (ag_TenantID r, ag_RuleID r)) ` set (db_agg_rules db) then Inl UniqueViolation
            else Inr (row, db\<lparr>db_agg_rules := db_agg_rules db @ [row]\<rparr>)))"

definition the_rule :: "uuid \<Rightarrow> uuid \<Rightarrow> agg_rule_row \<Rightarrow> bool" where
  "the_rule t i r \<longleftrightarrow> ag_TenantID r = t \<and> ag_ID r = i"

definition GetAggregationRuleByID :: "uuid \<Rightarrow> uuid \<Rightarrow> 'z agg_db_scheme \<Rightarrow> agg_rule_row option" where
  "GetAggregationRuleByID t i db = List.find (the_rule t i) (db_agg_rules db)"

definition ListAggregationRules :: "uuid \<Rightarrow> 'z agg_db_scheme \<Rightarrow> agg_rule_row list" where
  "ListAggregationRules t db =
     sort_key (\<lambda>r. (- ag_CreatedAt r, ag_ID r)) (filter (\<lambda>r. ag_TenantID r = t) (db_agg_rules db))"

definition ListActiveAggregationRules :: "uuid \<Rightarrow> 'z agg_db_scheme \<Rightarrow> agg_rule_row list" where
  "ListActiveAggregationRules t db =
     sort_key (\<lambda>r. (ag_CreatedAt r, ag_ID r)) (filter (\<lambda>r. ag_TenantID r = t \<and> ag_Status r = AgActive) (db_agg_rules db))"

definition ActivateAggregationRule ::
  "gotime \<Rightarrow> uuid \<Rightarrow> uuid \<Rightarrow> string option \<Rightarrow> 'z agg_db_scheme \<Rightarrow> pg_error + agg_rule_row \<times> 'z agg_db_scheme" where
  "ActivateAggregationRule dbnow t i actor db =
     (case sql_update_one (\<lambda>r. the_rule t i r \<and> ag_Status r \<in> {AgStaged, AgInactive})
             (\<lambda>r. r\<lparr>ag_Status := AgActive, ag_ActivatedBy := actor, ag_ActivatedAt := Some (pgTime dbnow), ag_UpdatedAt := pgTime dbnow\<rparr>)
             (db_agg_rules db) of
        None \<Rightarrow> Inl NoRows
      | Some (row, rows) \<Rightarrow>
          if \<not> aggregation_rules_check row then Inl CheckViolation else Inr (row, db\<lparr>db_agg_rules := rows\<rparr>))"

definition DeactivateAggregationRule ::
  "gotime \<Rightarrow> uuid \<Rightarrow> uuid \<Rightarrow> 'z agg_db_scheme \<Rightarrow> pg_error + agg_rule_row \<times> 'z agg_db_scheme" where
  "DeactivateAggregationRule dbnow t i db =
     (case sql_update_one (\<lambda>r. the_rule t i r \<and> ag_Status r = AgActive)
             (\<lambda>r. r\<lparr>ag_Status := AgInactive, ag_UpdatedAt := pgTime dbnow\<rparr>) (db_agg_rules db) of
        None \<Rightarrow> Inl NoRows
      | Some (row, rows) \<Rightarrow>
          if \<not> aggregation_rules_check row then Inl CheckViolation else Inr (row, db\<lparr>db_agg_rules := rows\<rparr>))"

definition rule_fk :: "uuid \<Rightarrow> uuid \<Rightarrow> 'z agg_db_scheme \<Rightarrow> bool" where
  "rule_fk t i db \<longleftrightarrow> GetAggregationRuleByID t i db \<noteq> None"

definition status_or_null :: "string option \<Rightarrow> bool" where
  "status_or_null s \<longleftrightarrow> (case s of None \<Rightarrow> True | Some x \<Rightarrow> x \<in> {AgStaged, AgActive, AgInactive})"

definition audit_events :: "string set" where
  "audit_events = {''created'', ''activated'', ''deactivated'', ''reactivated'', ''threshold_changed''}"

definition WriteAggregationRuleAuditLog ::
  "gotime \<Rightarrow> uuid \<Rightarrow> uuid \<Rightarrow> uuid \<Rightarrow> string \<Rightarrow> string \<Rightarrow> string option \<Rightarrow> string option \<Rightarrow> rjson \<Rightarrow> 'z agg_db_scheme \<Rightarrow>
   pg_error + agg_audit_row \<times> 'z agg_db_scheme" where
  "WriteAggregationRuleAuditLog dbnow i t rule event actor frm to detail db =
     (let row = \<lparr>aal_ID = i, aal_TenantID = t, aal_RuleID = rule, aal_Event = event, aal_Actor = actor, aal_FromStatus = frm,
            aal_ToStatus = to, aal_Detail = detail, aal_CreatedAt = pgTime dbnow\<rparr>
      in if event \<notin> audit_events \<or> actor = [] \<or> \<not> status_or_null frm \<or> \<not> status_or_null to then Inl CheckViolation
         else if i \<in> aal_ID ` set (db_agg_audit db) then Inl UniqueViolation
         else if \<not> rule_fk t rule db then Inl ForeignKeyViolation
         else Inr (row, db\<lparr>db_agg_audit := db_agg_audit db @ [row]\<rparr>))"

definition ListAggregationRuleAuditLog :: "uuid \<Rightarrow> uuid \<Rightarrow> 'z agg_db_scheme \<Rightarrow> agg_audit_row list" where
  "ListAggregationRuleAuditLog t rule db =
     sort_key (\<lambda>a. (- aal_CreatedAt a, aal_ID a)) (filter (\<lambda>a. aal_TenantID a = t \<and> aal_RuleID a = rule) (db_agg_audit db))"

definition WriteAggregationRuleEvaluation ::
  "gotime \<Rightarrow> uuid \<Rightarrow> uuid \<Rightarrow> uuid \<Rightarrow> string \<Rightarrow> int \<Rightarrow> int \<Rightarrow> gotime option \<Rightarrow> uuid option \<Rightarrow> 'z agg_db_scheme \<Rightarrow>
   pg_error + agg_eval_row \<times> 'z agg_db_scheme" where
  "WriteAggregationRuleEvaluation dbnow i t rule outcome riskCount teamCount window metaRisk db =
     (let row = \<lparr>ae_ID = i, ae_TenantID = t, ae_RuleID = rule, ae_EvaluatedAt = pgTime dbnow, ae_Outcome = outcome,
            ae_RiskCount = riskCount, ae_TeamCount = teamCount, ae_WindowStart = map_option pgTime window,
            ae_MetaRiskID = metaRisk, ae_CreatedAt = pgTime dbnow\<rparr>
      in if outcome \<notin> {''fired'', ''near_miss'', ''no_match''} \<or> riskCount < 0 \<or> teamCount < 0
           \<or> \<not> (if outcome = ''fired'' then window \<noteq> None \<and> metaRisk \<noteq> None else window = None \<and> metaRisk = None)
         then Inl CheckViolation
         else if i \<in> ae_ID ` set (db_agg_evaluations db) then Inl UniqueViolation
         else if \<not> rule_fk t rule db then Inl ForeignKeyViolation
         else Inr (row, db\<lparr>db_agg_evaluations := db_agg_evaluations db @ [row]\<rparr>))"

definition ListAggregationRuleEvaluations :: "uuid \<Rightarrow> uuid \<Rightarrow> 'z agg_db_scheme \<Rightarrow> agg_eval_row list" where
  "ListAggregationRuleEvaluations t rule db =
     sort_key (\<lambda>e. (- ae_EvaluatedAt e, ae_ID e)) (filter (\<lambda>e. ae_TenantID e = t \<and> ae_RuleID e = rule) (db_agg_evaluations db))"

definition ListCandidateRisksForRule :: "uuid \<Rightarrow> string \<Rightarrow> gotime \<Rightarrow> 'z org_db_scheme \<Rightarrow> risk_row list" where
  "ListCandidateRisksForRule t theme windowStart db =
     sort_key (\<lambda>r. (rk_CreatedAt r, rk_ID r))
       (filter (\<lambda>r. rk_TenantID r = t \<and> theme \<in> set (rk_Themes r) \<and> pgTime windowStart \<le> rk_CreatedAt r
                    \<and> rk_Methodology r \<in> {RiskMethodologyNist80030, RiskMethodologyQualitative5x5}) (db_risk_rows db))"

definition GetRuleMetaRiskByKey :: "uuid \<Rightarrow> string \<Rightarrow> 'z org_db_scheme \<Rightarrow> risk_row option" where
  "GetRuleMetaRiskByKey t key db =
     List.find (\<lambda>r. rk_TenantID r = t \<and> json_text (rk_InherentScore r) ''aggregation_key'' = Some key) (db_risk_rows db)"

definition UpdateMetaRiskInherentScore ::
  "score_lib \<Rightarrow> gotime \<Rightarrow> uuid \<Rightarrow> uuid \<Rightarrow> rjson \<Rightarrow> 'z org_db_scheme \<Rightarrow> pg_error + risk_row \<times> 'z org_db_scheme" where
  "UpdateMetaRiskInherentScore lib dbnow t i inherent db =
     (case jsonb_in lib (Some inherent) of
        None \<Rightarrow> Inl InvalidTextRepresentation
      | Some inh \<Rightarrow>
        (case sql_update_one (\<lambda>r. rk_TenantID r = t \<and> rk_ID r = i) (\<lambda>r. r\<lparr>rk_InherentScore := inh, rk_UpdatedAt := pgTime dbnow\<rparr>)
                (db_risk_rows db) of
           None \<Rightarrow> Inl NoRows
         | Some (row, rows) \<Rightarrow> Inr (row, db\<lparr>db_risk_rows := rows\<rparr>)))"


section \<open>The store\<close>

record StoredRule =
  SR_ID :: uuid
  SR_TenantID :: uuid
  SR_Rule :: Rule
  SR_Status :: string
  SR_ActivatedBy :: "string option"
  SR_ActivatedAt :: "gotime option"
  SR_CreatedAt :: gotime
  SR_UpdatedAt :: gotime

definition storedRuleFromRow :: "agg_rule_row \<Rightarrow> agg_error + StoredRule" where
  "storedRuleFromRow row =
     (case unmarshal_rule (ag_RuleBody row) of
        None \<Rightarrow> Inl (ErrRuleBody (ag_ID row))
      | Some rule \<Rightarrow>
        Inr \<lparr>SR_ID = ag_ID row, SR_TenantID = ag_TenantID row, SR_Rule = rule, SR_Status = ag_Status row,
             SR_ActivatedBy = ag_ActivatedBy row, SR_ActivatedAt = ag_ActivatedAt row, SR_CreatedAt = ag_CreatedAt row,
             SR_UpdatedAt = ag_UpdatedAt row\<rparr>)"

definition MaxInt32 :: int where "MaxInt32 = 2147483647"

definition toInt32 :: "int \<Rightarrow> int" where
  "toInt32 v = (if v < 0 then 0 else if v > MaxInt32 then MaxInt32 else v)"

text \<open>The end of every write: one row of the audit log, and the rule that was stored.\<close>

definition audited ::
  "gotime \<Rightarrow> uuid \<Rightarrow> uuid \<Rightarrow> string \<Rightarrow> string \<Rightarrow> string option \<Rightarrow> string \<Rightarrow> agg_rule_row \<Rightarrow> 'z agg_db_scheme \<Rightarrow>
   agg_error + StoredRule \<times> 'z agg_db_scheme" where
  "audited dbnow auditID t event actor frm to row db =
     (case WriteAggregationRuleAuditLog dbnow auditID t (ag_ID row) event actor frm (Some to) (RObj []) db of
        Inl e \<Rightarrow> Inl (AgDatabase e)
      | Inr (_, db2) \<Rightarrow> (case storedRuleFromRow row of Inl e \<Rightarrow> Inl e | Inr sr \<Rightarrow> Inr (sr, db2)))"

definition ag_Create ::
  "agg_lib \<Rightarrow> txenv \<Rightarrow> gotime \<Rightarrow> uuid \<Rightarrow> uuid \<Rightarrow> Rule \<Rightarrow> string \<Rightarrow> 'z agg_db_scheme \<Rightarrow>
   (agg_error err + StoredRule) \<times> 'z agg_db_scheme" where
  "ag_Create lib env dbnow i auditID r actor db =
     (if Validate r \<noteq> [] then (Inl (Dom (ValidationError (Validate r))), db)
      else
        inTx env (\<lambda>t db0.
          (case CreateAggregationRule (gl_score lib) dbnow i t (ru_RuleID r) (ru_TargetTheme r) (toInt32 (ru_MinRisks r))
                  (toInt32 (ru_MinTeams r)) (toInt32 (ru_WindowDays r)) (ru_ParentLevel r) (ru_SeverityFunction r)
                  (CanonicalJSON r) db0 of
             Inl UniqueViolation \<Rightarrow> Inl ErrDuplicateRuleID
           | Inl e \<Rightarrow> Inl (AgDatabase e)
           | Inr (row, db1) \<Rightarrow> audited dbnow auditID t ''created'' actor None AgStaged row db1)) db)"

definition ag_Get :: "txenv \<Rightarrow> uuid \<Rightarrow> 'z agg_db_scheme \<Rightarrow> (agg_error err + StoredRule) \<times> 'z agg_db_scheme" where
  "ag_Get env i db =
     inTx env (\<lambda>t db0.
       (case GetAggregationRuleByID t i db0 of
          None \<Rightarrow> Inl AgErrNotFound
        | Some row \<Rightarrow> (case storedRuleFromRow row of Inl e \<Rightarrow> Inl e | Inr sr \<Rightarrow> Inr (sr, db0)))) db"

fun stored_rules :: "agg_rule_row list \<Rightarrow> agg_error + StoredRule list" where
  "stored_rules [] = Inr []"
| "stored_rules (r # rs) =
     (case storedRuleFromRow r of
        Inl e \<Rightarrow> Inl e
      | Inr sr \<Rightarrow> (case stored_rules rs of Inl e \<Rightarrow> Inl e | Inr srs \<Rightarrow> Inr (sr # srs)))"

definition ag_List :: "txenv \<Rightarrow> string \<Rightarrow> 'z agg_db_scheme \<Rightarrow> (agg_error err + StoredRule list) \<times> 'z agg_db_scheme" where
  "ag_List env statusFilter db =
     inTx env (\<lambda>t db0.
       (case stored_rules (filter (\<lambda>r. statusFilter = [] \<or> ag_Status r = statusFilter) (ListAggregationRules t db0)) of
          Inl e \<Rightarrow> Inl e | Inr srs \<Rightarrow> Inr (srs, db0))) db"

definition ag_Activate ::
  "txenv \<Rightarrow> gotime \<Rightarrow> uuid \<Rightarrow> uuid \<Rightarrow> string \<Rightarrow> 'z agg_db_scheme \<Rightarrow> (agg_error err + StoredRule) \<times> 'z agg_db_scheme" where
  "ag_Activate env dbnow auditID i actor db =
     inTx env (\<lambda>t db0.
       (case GetAggregationRuleByID t i db0 of
          None \<Rightarrow> Inl AgErrNotFound
        | Some current \<Rightarrow>
          if ag_Status current = AgActive then Inl ErrWrongState
          else
            (case ActivateAggregationRule dbnow t i (Some actor) db0 of
               Inl NoRows \<Rightarrow> Inl ErrWrongState
             | Inl e \<Rightarrow> Inl (AgDatabase e)
             | Inr (row, db1) \<Rightarrow>
                 audited dbnow auditID t (if ag_Status current = AgInactive then ''reactivated'' else ''activated'') actor
                   (Some (ag_Status current)) AgActive row db1))) db"

definition ag_Deactivate ::
  "txenv \<Rightarrow> gotime \<Rightarrow> uuid \<Rightarrow> uuid \<Rightarrow> string \<Rightarrow> 'z agg_db_scheme \<Rightarrow> (agg_error err + StoredRule) \<times> 'z agg_db_scheme" where
  "ag_Deactivate env dbnow auditID i actor db =
     inTx env (\<lambda>t db0.
       (case GetAggregationRuleByID t i db0 of
          None \<Rightarrow> Inl AgErrNotFound
        | Some current \<Rightarrow>
          if ag_Status current \<noteq> AgActive then Inl ErrWrongState
          else
            (case DeactivateAggregationRule dbnow t i db0 of
               Inl NoRows \<Rightarrow> Inl ErrWrongState
             | Inl e \<Rightarrow> Inl (AgDatabase e)
             | Inr (row, db1) \<Rightarrow> audited dbnow auditID t ''deactivated'' actor (Some AgActive) AgInactive row db1))) db"

definition ag_AuditLog :: "txenv \<Rightarrow> uuid \<Rightarrow> 'z agg_db_scheme \<Rightarrow> (agg_error err + agg_audit_row list) \<times> 'z agg_db_scheme" where
  "ag_AuditLog env rule db = inTx env (\<lambda>t db0. Inr (ListAggregationRuleAuditLog t rule db0, db0)) db"

record Evaluation =
  evl_ID :: uuid
  evl_RuleID :: uuid
  evl_Outcome :: string
  evl_RiskCount :: int
  evl_TeamCount :: int
  evl_WindowStart :: "gotime option"
  evl_MetaRiskID :: "uuid option"
  evl_EvaluatedAt :: gotime

definition evaluationFromRow :: "agg_eval_row \<Rightarrow> Evaluation" where
  "evaluationFromRow row =
     \<lparr>evl_ID = ae_ID row, evl_RuleID = ae_RuleID row, evl_Outcome = ae_Outcome row, evl_RiskCount = ae_RiskCount row,
      evl_TeamCount = ae_TeamCount row, evl_WindowStart = ae_WindowStart row, evl_MetaRiskID = ae_MetaRiskID row,
      evl_EvaluatedAt = ae_EvaluatedAt row\<rparr>"

definition ag_Evaluations :: "txenv \<Rightarrow> uuid \<Rightarrow> 'z agg_db_scheme \<Rightarrow> (agg_error err + Evaluation list) \<times> 'z agg_db_scheme" where
  "ag_Evaluations env rule db = inTx env (\<lambda>t db0. Inr (map evaluationFromRow (ListAggregationRuleEvaluations t rule db0), db0)) db"


section \<open>The engine\<close>

definition dayFloorUTC :: "gotime \<Rightarrow> gotime" where
  "dayFloorUTC t = t - t mod hours 24"

definition window_start :: "agg_rule_row \<Rightarrow> gotime \<Rightarrow> gotime" where
  "window_start row now =
     (let ws = dayFloorUTC (now - days (ag_WindowDays row))
      in case ag_ActivatedAt row of None \<Rightarrow> ws | Some a \<Rightarrow> if ws < a then a else ws)"

definition windowKey :: "agg_lib \<Rightarrow> uuid \<Rightarrow> gotime \<Rightarrow> string" where
  "windowKey lib ruleID ws =
     sl_sha256hex (gl_score lib) (sl_uuid_string (gl_score lib) ruleID @ ''|'' @ RFC3339 ws)"

definition isRuleGenerated :: "rjson \<Rightarrow> bool" where
  "isRuleGenerated j = (case unmarshal_map j of None \<Rightarrow> False | Some raw \<Rightarrow> raw ''rule_generated'' = Some (RBool True))"

definition severityFromInherent :: "score_lib \<Rightarrow> rjson \<Rightarrow> int option" where
  "severityFromInherent lib j =
     (case unmarshal_map j of
        None \<Rightarrow> None
      | Some raw \<Rightarrow>
        (case numField raw ''severity'' of
           Some s \<Rightarrow> Some (int_of_float lib (Fin s))
         | None \<Rightarrow>
           (case (numField raw ''likelihood'', numField raw ''impact'') of
              (Some l, Some i) \<Rightarrow> Some (int64 (int_of_float lib (Fin l) * int_of_float lib (Fin i)))
            | _ \<Rightarrow> None)))"

definition scored_children :: "score_lib \<Rightarrow> risk_row list \<Rightarrow> (int \<times> risk_row) list" where
  "scored_children lib candidates =
     List.map_filter (\<lambda>c. map_option (\<lambda>s. (s, c)) (severityFromInherent lib (rk_InherentScore c)))
       (filter (\<lambda>c. \<not> isRuleGenerated (rk_InherentScore c)) candidates)"

definition teamKey :: "score_lib \<Rightarrow> risk_row \<Rightarrow> string" where
  "teamKey lib c = (case rk_OrgUnitID c of None \<Rightarrow> ''unassigned'' | Some u \<Rightarrow> sl_uuid_string lib u)"

definition meta_category :: "risk_row list \<Rightarrow> string" where
  "meta_category cs = (case filter (\<lambda>x. x \<noteq> []) (map rk_Category cs) of [] \<Rightarrow> ''operational'' | x # _ \<Rightarrow> x)"

definition meta_inherent :: "agg_lib \<Rightarrow> Rule \<Rightarrow> string \<Rightarrow> gotime \<Rightarrow> int \<Rightarrow> int \<Rightarrow> int \<Rightarrow> nat \<Rightarrow> rjson" where
  "meta_inherent lib rule key ws severity likelihood impact childCount =
     RObj [(''aggregation_key'', RStr key), (''child_count'', json_int (int childCount)), (''impact'', json_int impact),
           (''likelihood'', json_int likelihood), (''rule_generated'', RBool True), (''rule_id'', RStr (ru_RuleID rule)),
           (''severity'', json_int severity), (''severity_function'', RStr (ru_SeverityFunction rule)),
           (''window_start'', RStr (RFC3339 ws))]"

fun linkChildren :: "gotime \<Rightarrow> uuid \<Rightarrow> uuid \<Rightarrow> uuid \<Rightarrow> uuid list \<Rightarrow> 'z agg_db_scheme \<Rightarrow> pg_error + 'z agg_db_scheme" where
  "linkChildren dbnow t meta ruleID [] db = Inr db"
| "linkChildren dbnow t meta ruleID (c # cs) db =
     (case LinkRiskAggregation dbnow meta c (Some ruleID) t db of
        Inl e \<Rightarrow> Inl e | Inr db' \<Rightarrow> linkChildren dbnow t meta ruleID cs db')"

definition upsertMetaRisk ::
  "agg_lib \<Rightarrow> rule_env \<Rightarrow> gotime \<Rightarrow> uuid \<Rightarrow> Rule \<Rightarrow> uuid \<Rightarrow> string \<Rightarrow> gotime \<Rightarrow> int \<Rightarrow> int \<Rightarrow> int \<Rightarrow> nat \<Rightarrow> string \<Rightarrow> string list \<Rightarrow>
   uuid list \<Rightarrow> 'z agg_db_scheme \<Rightarrow> agg_error + uuid \<times> 'z agg_db_scheme" where
  "upsertMetaRisk lib re dbnow t rule ruleID key ws severity likelihood impact childCount category themes childIDs db =
     (let inherent = meta_inherent lib rule key ws severity likelihood impact childCount in
      case GetRuleMetaRiskByKey t key db of
        Some existing \<Rightarrow>
          (case UpdateMetaRiskInherentScore (gl_score lib) dbnow t (rk_ID existing) inherent db of
             Inl e \<Rightarrow> Inl (AgDatabase e)
           | Inr (_, db1) \<Rightarrow>
             (case linkChildren dbnow t (rk_ID existing) ruleID childIDs db1 of
                Inl e \<Rightarrow> Inl (AgDatabase e) | Inr db2 \<Rightarrow> Inr (rk_ID existing, db2)))
      | None \<Rightarrow>
          (case CreateAggregateRisk (gl_score lib) dbnow (re_metaID re) t (Title rule)
                  (gl_describe lib (ru_RuleID rule) childCount (ru_SeverityFunction rule)) category
                  RiskMethodologyQualitative5x5 (Some inherent) RiskTreatmentAvoid [] (Some (RObj [])) [] []
                  (ru_ParentLevel rule) None themes db of
             Inl e \<Rightarrow> Inl (AgDatabase e)
           | Inr (_, db1) \<Rightarrow>
             (case linkChildren dbnow t (re_metaID re) ruleID childIDs db1 of
                Inl e \<Rightarrow> Inl (AgDatabase e) | Inr db2 \<Rightarrow> Inr (re_metaID re, db2))))"

definition writeEvaluation ::
  "rule_env \<Rightarrow> gotime \<Rightarrow> uuid \<Rightarrow> uuid \<Rightarrow> string \<Rightarrow> int \<Rightarrow> int \<Rightarrow> gotime option \<Rightarrow> uuid option \<Rightarrow> 'z agg_db_scheme \<Rightarrow>
   agg_error + Evaluation \<times> 'z agg_db_scheme" where
  "writeEvaluation re dbnow t ruleID outcome riskCount teamCount window metaRiskID db =
     (case WriteAggregationRuleEvaluation dbnow (re_evalID re) t ruleID outcome (toInt32 riskCount) (toInt32 teamCount) window
             metaRiskID db of
        Inl e \<Rightarrow> Inl (AgDatabase e)
      | Inr (row, db1) \<Rightarrow>
        Inr (\<lparr>evl_ID = ae_ID row, evl_RuleID = ruleID, evl_Outcome = outcome, evl_RiskCount = riskCount, evl_TeamCount = teamCount,
              evl_WindowStart = window, evl_MetaRiskID = metaRiskID, evl_EvaluatedAt = ae_EvaluatedAt row\<rparr>, db1))"

definition evaluateRule ::
  "agg_lib \<Rightarrow> rule_env \<Rightarrow> gotime \<Rightarrow> uuid \<Rightarrow> agg_rule_row \<Rightarrow> 'z agg_db_scheme \<Rightarrow> agg_error + Evaluation \<times> 'z agg_db_scheme" where
  "evaluateRule lib re dbnow t ruleRow db =
     (case unmarshal_rule (ag_RuleBody ruleRow) of
        None \<Rightarrow> Inl (ErrRuleBody (ag_ID ruleRow))
      | Some rule \<Rightarrow>
        (let ruleID = ag_ID ruleRow;
             ws = window_start ruleRow (re_now re);
             kids = scored_children (gl_score lib) (ListCandidateRisksForRule t (ru_TargetTheme rule) ws db);
             rows = map snd kids;
             riskCount = length kids;
             teamCount = length (remdups (map (teamKey (gl_score lib)) rows));
             enoughRisks = (ag_MinRisks ruleRow \<le> int riskCount);
             enoughTeams = (ag_MinTeams ruleRow \<le> int teamCount)
         in if \<not> (enoughRisks \<and> enoughTeams) then
              writeEvaluation re dbnow t ruleID (if enoughRisks \<noteq> enoughTeams then ''near_miss'' else ''no_match'')
                (int riskCount) (int teamCount) None None db
            else
              (case ComputeRuleSeverity lib (ru_SeverityFunction rule) (map fst kids) (ru_CustomRego rule) of
                 Inl e \<Rightarrow> Inl e
               | Inr severity \<Rightarrow>
                 (case DeriveGridCell (gl_score lib) severity of (likelihood, impact) \<Rightarrow>
                   (case upsertMetaRisk lib re dbnow t rule ruleID (windowKey lib ruleID ws) ws severity likelihood impact riskCount
                           (meta_category rows) (re_order re (remdups (concat (map rk_Themes rows)))) (map rk_ID rows) db of
                      Inl e \<Rightarrow> Inl e
                    | Inr (metaRiskID, db1) \<Rightarrow>
                      writeEvaluation re dbnow t ruleID ''fired'' (int riskCount) (int teamCount) (Some ws) (Some metaRiskID) db1)))))"

text \<open>An empty list of themes evaluates every rule.\<close>

definition triggered :: "string list \<Rightarrow> agg_rule_row \<Rightarrow> bool" where
  "triggered triggerThemes r \<longleftrightarrow> triggerThemes = [] \<or> ag_TargetTheme r \<in> set triggerThemes"

fun evaluate_rules ::
  "agg_lib \<Rightarrow> (uuid \<Rightarrow> rule_env) \<Rightarrow> gotime \<Rightarrow> uuid \<Rightarrow> agg_rule_row list \<Rightarrow> 'z agg_db_scheme \<Rightarrow>
   agg_error + Evaluation list \<times> 'z agg_db_scheme" where
  "evaluate_rules lib res dbnow t [] db = Inr ([], db)"
| "evaluate_rules lib res dbnow t (r # rs) db =
     (case evaluateRule lib (res (ag_ID r)) dbnow t r db of
        Inl e \<Rightarrow> Inl e
      | Inr (ev, db1) \<Rightarrow>
        (case evaluate_rules lib res dbnow t rs db1 of Inl e \<Rightarrow> Inl e | Inr (evs, db2) \<Rightarrow> Inr (ev # evs, db2)))"

definition Engine_Evaluate ::
  "agg_lib \<Rightarrow> (uuid \<Rightarrow> rule_env) \<Rightarrow> gotime \<Rightarrow> uuid \<Rightarrow> string list \<Rightarrow> 'z agg_db_scheme \<Rightarrow>
   agg_error + Evaluation list \<times> 'z agg_db_scheme" where
  "Engine_Evaluate lib res dbnow t triggerThemes db =
     evaluate_rules lib res dbnow t (filter (triggered triggerThemes) (ListActiveAggregationRules t db)) db"

definition ag_Evaluate ::
  "agg_lib \<Rightarrow> (uuid \<Rightarrow> rule_env) \<Rightarrow> txenv \<Rightarrow> gotime \<Rightarrow> string list \<Rightarrow> 'z agg_db_scheme \<Rightarrow>
   (agg_error err + Evaluation list) \<times> 'z agg_db_scheme" where
  "ag_Evaluate lib res env dbnow triggerThemes db = inTx env (\<lambda>t db0. Engine_Evaluate lib res dbnow t triggerThemes db0) db"

end
