(* ===== verification/Agg_Rule_Run.thy ===== *)
theory Agg_Rule_Run
  imports Agg_Rule Risk_Register_Run Lifecycle
begin

text \<open>
  Properties of the aggregation rules: what one run of the engine writes, in how many meta-risks the
  firings of a rule end, when the aggregation graph stays free of cycles, and the audited lifecycle of
  a rule.
\<close>

section \<open>What the engine counts\<close>

definition generated :: "risk_row \<Rightarrow> bool" where
  "generated r \<longleftrightarrow> isRuleGenerated (rk_InherentScore r)"

definition own_risks :: "'z org_db_scheme \<Rightarrow> risk_row list" where
  "own_risks db = filter (\<lambda>r. \<not> generated r) (db_risk_rows db)"

text \<open>The children of a rule at a time, and the outcome that the thresholds give.\<close>

definition rule_children :: "agg_lib \<Rightarrow> uuid \<Rightarrow> agg_rule_row \<Rightarrow> gotime \<Rightarrow> 'z org_db_scheme \<Rightarrow> (int \<times> risk_row) list" where
  "rule_children lib t row now db =
     (case unmarshal_rule (ag_RuleBody row) of
        None \<Rightarrow> []
      | Some rule \<Rightarrow>
          scored_children (gl_score lib) (ListCandidateRisksForRule t (ru_TargetTheme rule) (window_start row now) db))"

definition team_count :: "agg_lib \<Rightarrow> (int \<times> risk_row) list \<Rightarrow> nat" where
  "team_count lib kids = card (teamKey (gl_score lib) ` snd ` set kids)"

definition rule_outcome :: "agg_lib \<Rightarrow> agg_rule_row \<Rightarrow> (int \<times> risk_row) list \<Rightarrow> string" where
  "rule_outcome lib row kids =
     (let risks = ag_MinRisks row \<le> int (length kids); teams = ag_MinTeams row \<le> int (team_count lib kids)
      in if risks \<and> teams then ''fired'' else if risks \<or> teams then ''near_miss'' else ''no_match'')"

lemma team_count_eq: "length (remdups (map (teamKey lib) (map snd kids))) = card (teamKey lib ` snd ` set kids)"
  by (simp add: length_remdups_card_conv image_image)

lemma scored_candidates:
  "scored_children lib (ListCandidateRisksForRule t theme ws db) =
     List.map_filter (\<lambda>c. map_option (\<lambda>s. (s, c)) (severityFromInherent lib (rk_InherentScore c)))
       (sort_key (\<lambda>r. (rk_CreatedAt r, rk_ID r))
         (filter (\<lambda>r. rk_TenantID r = t \<and> theme \<in> set (rk_Themes r) \<and> pgTime ws \<le> rk_CreatedAt r
                    \<and> rk_Methodology r \<in> {RiskMethodologyNist80030, RiskMethodologyQualitative5x5}) (own_risks db)))"
  by (simp add: scored_children_def ListCandidateRisksForRule_def own_risks_def filter_sort generated_def conj_ac)

text \<open>The children are risks that no rule made, so that what the engine writes never changes them.\<close>

lemma rule_children_own:
  "own_risks db' = own_risks db \<Longrightarrow> rule_children lib t row now db' = rule_children lib t row now db"
  by (simp add: rule_children_def scored_candidates split: option.splits)

lemma map_filter_pair: "set (List.map_filter (\<lambda>c. map_option (\<lambda>s. (s, c)) (f c)) xs) = {(s, c). c \<in> set xs \<and> f c = Some s}"
  by (auto simp: List.map_filter_def split: option.splits) (auto intro!: rev_image_eqI)

lemma rule_children_mem:
  assumes "(s, c) \<in> set (rule_children lib t row now db)"
  shows "c \<in> set (own_risks db)" "rk_TenantID c = t" "pgTime (window_start row now) \<le> rk_CreatedAt c"
    "severityFromInherent (gl_score lib) (rk_InherentScore c) = Some s"
  using assms
  by (auto simp: rule_children_def ListCandidateRisksForRule_def scored_children_def map_filter_pair own_risks_def generated_def
      split: option.splits)

lemma length_map_filter_le: "length (List.map_filter f xs) \<le> length xs"
  by (simp add: List.map_filter_def)

lemma rule_children_length: "length (rule_children lib t row now db) \<le> length (own_risks db)"
proof -
  have "length (scored_children l (ListCandidateRisksForRule t th ws db)) \<le> length (own_risks db)" for l th ws
    unfolding scored_candidates by (rule order_trans [OF length_map_filter_le]) simp
  then show ?thesis by (simp add: rule_children_def split: option.splits)
qed


section \<open>What a firing writes\<close>

lemma stored_meta:
  assumes "jsonb_in slib (Some (meta_inherent lib rule key ws severity l i n)) = Some j"
    "l \<in> {1..5}" "i \<in> {1..5}" "0 \<le> severity" "severity \<le> 25" "n \<le> 2 ^ 53"
  shows "json_text j ''aggregation_key'' = Some key" "isRuleGenerated j" "score_ok RiskMethodologyQualitative5x5 j"
    "severityFromInherent slib j = Some severity"
proof -
  let ?ms = "[(''aggregation_key'', RStr key), (''child_count'', json_int (int n)), (''impact'', json_int i),
           (''likelihood'', json_int l), (''rule_generated'', RBool True), (''rule_id'', RStr (ru_RuleID rule)),
           (''severity'', json_int severity), (''severity_function'', RStr (ru_SeverityFunction rule)),
           (''window_start'', RStr (RFC3339 ws))]"
  have g: "go_number l 0 = Some (of_int l)" "go_number i 0 = Some (of_int i)" "go_number severity 0 = Some (of_int severity)"
    "go_number (int n) 0 = Some (of_int (int n))"
    using assms by (auto intro!: go_number_int simp del: of_int_of_nat_eq)
  have "grid_number (of_int x)" if "x \<in> {1..5}" for x :: int
    using that by (simp add: grid_number_def)
  then have ok: "score_ok RiskMethodologyQualitative5x5 (RObj ?ms)" using assms(2,3)
    by (simp add: score_ok_def json_int_def members_def grid_schema_def opt_prop_def g)
  obtain ms where ms: "j = RObj ms" "members ms = map_option jsonb \<circ> members ?ms"
    using jsonb_ObjE [of ?ms] assms(1) by (auto simp: jsonb_in_def meta_inherent_def split: if_splits)
  show ok': "score_ok RiskMethodologyQualitative5x5 j"
    using score_ok_jsonb [OF ok] assms(1) by (auto simp: jsonb_in_def meta_inherent_def simp del: jsonb.simps split: if_splits)
  then have u: "unmarshal_map j = Some (map_option jsonb \<circ> members ?ms)" using ms by (auto simp: score_ok_def)
  show "json_text j ''aggregation_key'' = Some key" by (simp add: json_text_def ms) (simp add: strField_def members_def)
  show "isRuleGenerated j" by (simp add: isRuleGenerated_def u) (simp add: members_def)
  have "int_of_float slib (Fin (of_int severity)) = severity" using assms(4,5) by (intro int_of_float_small) simp_all
  then show "severityFromInherent slib j = Some severity"
    by (simp add: severityFromInherent_def u del: int_of_float.simps) (simp add: numField_def members_def json_int_def g)
qed

lemma link_step:
  assumes "LinkRiskAggregation dbnow m c rule t db = Inr db'"
  shows "\<exists>new. db' = db\<lparr>db_risk_aggregations := db_risk_aggregations db @ new\<rparr> \<and> rolls_up db' = insert (m, c) (rolls_up db) \<and> m \<noteq> c
    \<and> (\<forall>a \<in> set new. ra_ParentRiskID a = m \<and> ra_ChildRiskID a = c \<and> ra_RuleID a = rule \<and> ra_TenantID a = t)"
proof (cases "\<exists>a \<in> set (db_risk_aggregations db). ra_ParentRiskID a = m \<and> ra_ChildRiskID a = c")
  case True
  then have "db' = db" "m \<noteq> c" using assms by (auto simp: LinkRiskAggregation_def split: if_splits)
  moreover have "(m, c) \<in> rolls_up db" using True by (force simp: rolls_up_def)
  ultimately show ?thesis by (intro exI [of _ "[]"]) auto
next
  case False
  with assms show ?thesis
    by (intro exI [of _ "[\<lparr>ra_ParentRiskID = m, ra_ChildRiskID = c, ra_RuleID = rule, ra_TenantID = t, ra_CreatedAt = pgTime dbnow\<rparr>]"])
      (auto simp: LinkRiskAggregation_def rolls_up_def split: if_splits)
qed

lemma linkChildren_effect:
  assumes "linkChildren dbnow t m rid cs db = Inr db'"
  obtains new where "db' = db\<lparr>db_risk_aggregations := db_risk_aggregations db @ new\<rparr>"
    "rolls_up db' = rolls_up db \<union> {m} \<times> set cs" "m \<notin> set cs"
    "\<forall>a \<in> set new. ra_ParentRiskID a = m \<and> ra_ChildRiskID a \<in> set cs \<and> ra_RuleID a = Some rid \<and> ra_TenantID a = t"
proof -
  have "\<exists>new. db' = db\<lparr>db_risk_aggregations := db_risk_aggregations db @ new\<rparr> \<and> rolls_up db' = rolls_up db \<union> {m} \<times> set cs \<and> m \<notin> set cs
    \<and> (\<forall>a \<in> set new. ra_ParentRiskID a = m \<and> ra_ChildRiskID a \<in> set cs \<and> ra_RuleID a = Some rid \<and> ra_TenantID a = t)"
    using assms
  proof (induction cs arbitrary: db)
    case (Cons c cs)
    then obtain db1 where l: "LinkRiskAggregation dbnow m c (Some rid) t db = Inr db1" "linkChildren dbnow t m rid cs db1 = Inr db'"
      by (auto split: sum.splits)
    from link_step [OF l(1)] obtain n1 where 1: "db1 = db\<lparr>db_risk_aggregations := db_risk_aggregations db @ n1\<rparr>"
      "rolls_up db1 = insert (m, c) (rolls_up db)" "m \<noteq> c"
      "\<forall>a \<in> set n1. ra_ParentRiskID a = m \<and> ra_ChildRiskID a = c \<and> ra_RuleID a = Some rid \<and> ra_TenantID a = t" by blast
    from Cons.IH [OF l(2)] obtain n2 where "db' = db1\<lparr>db_risk_aggregations := db_risk_aggregations db1 @ n2\<rparr>"
      "rolls_up db' = rolls_up db1 \<union> {m} \<times> set cs" "m \<notin> set cs"
      "\<forall>a \<in> set n2. ra_ParentRiskID a = m \<and> ra_ChildRiskID a \<in> set cs \<and> ra_RuleID a = Some rid \<and> ra_TenantID a = t" by blast
    with 1 show ?case by (intro exI [of _ "n1 @ n2"]) auto
  qed (auto intro: exI [of _ "[]"])
  then show ?thesis using that by blast
qed

lemma link_children_effect:
  "link_children dbnow p t cs db = Inr db' \<Longrightarrow>
     \<exists>new. db' = db\<lparr>db_risk_aggregations := db_risk_aggregations db @ new\<rparr> \<and> rolls_up db' = rolls_up db \<union> {p} \<times> set cs"
proof (induction cs arbitrary: db)
  case (Cons c cs)
  then obtain db1 where l: "LinkRiskAggregation dbnow p c None t db = Inr db1" "link_children dbnow p t cs db1 = Inr db'"
    by (auto split: sum.splits)
  from link_step [OF l(1)] obtain n1 where "db1 = db\<lparr>db_risk_aggregations := db_risk_aggregations db @ n1\<rparr>"
    "rolls_up db1 = insert (p, c) (rolls_up db)" by blast
  moreover from Cons.IH [OF l(2)] obtain n2 where "db' = db1\<lparr>db_risk_aggregations := db_risk_aggregations db1 @ n2\<rparr>"
    "rolls_up db' = rolls_up db1 \<union> {p} \<times> set cs" by blast
  ultimately show ?case by (intro exI [of _ "n1 @ n2"]) auto
qed (auto intro: exI [of _ "[]"])

text \<open>A second time every link is there already.\<close>

lemma linkChildren_again:
  "{m} \<times> set cs \<subseteq> rolls_up db \<Longrightarrow> m \<notin> set cs \<Longrightarrow> linkChildren dbnow t m rid cs db = Inr db"
proof (induction cs)
  case (Cons c cs)
  then have "\<exists>a \<in> set (db_risk_aggregations db). ra_ParentRiskID a = m \<and> ra_ChildRiskID a = c" by (auto simp: rolls_up_def)
  with Cons show ?case by (auto simp: LinkRiskAggregation_def)
qed simp

definition set_meta :: "gotime \<Rightarrow> uuid \<Rightarrow> uuid \<Rightarrow> rjson \<Rightarrow> risk_row list \<Rightarrow> risk_row list" where
  "set_meta dbnow t m j rows =
     sql_update (\<lambda>r. rk_TenantID r = t \<and> rk_ID r = m) (\<lambda>r. r\<lparr>rk_InherentScore := j, rk_UpdatedAt := pgTime dbnow\<rparr>) rows"

lemma rolls_up_rows [simp]: "rolls_up (db\<lparr>db_risk_rows := rs\<rparr>) = rolls_up db"
  by (simp add: rolls_up_def)

lemma CreateAggregateRisk_row:
  assumes "CreateAggregateRisk lib dbnow i t title description category m inh tr owner rsd accepter instr lvl unt themes db = Inr (row, db1)"
  shows "rk_Themes row = themes \<and> rk_CreatedAt row = pgTime dbnow \<and> rk_Category row = category \<and> rk_Level row = lvl \<and> rk_Title row = title"
  using assms by (auto simp: CreateAggregateRisk_def elim!: insert_risk_InrE split: option.splits)

text \<open>A new meta-risk has the themes of its children and none of their units.\<close>

definition fresh_meta :: "gotime \<Rightarrow> uuid \<Rightarrow> Rule \<Rightarrow> string list \<Rightarrow> uuid \<Rightarrow> risk_row \<Rightarrow> bool" where
  "fresh_meta dbnow t rule themes m r \<longleftrightarrow> rk_ID r = m \<and> rk_TenantID r = t \<and> rk_Methodology r = RiskMethodologyQualitative5x5
     \<and> rk_Themes r = themes \<and> rk_CreatedAt r = pgTime dbnow \<and> rk_Level r = ru_ParentLevel rule \<and> rk_Title r = Title rule"

lemma upsertMetaRisk_cases:
  assumes "upsertMetaRisk lib re dbnow t rule rid key ws sev l i n category themes cs db = Inr (m, db')"
  obtains j rows new where "jsonb_in (gl_score lib) (Some (meta_inherent lib rule key ws sev l i n)) = Some j"
    "db' = db\<lparr>db_risk_rows := rows, db_risk_aggregations := db_risk_aggregations db @ new\<rparr>"
    "rolls_up db' = rolls_up db \<union> {m} \<times> set cs" "m \<notin> set cs"
    "\<forall>a \<in> set new. ra_ParentRiskID a = m \<and> ra_ChildRiskID a \<in> set cs \<and> ra_RuleID a = Some rid \<and> ra_TenantID a = t"
    "(\<exists>existing. GetRuleMetaRiskByKey t key db = Some existing \<and> m = rk_ID existing \<and> rows = set_meta dbnow t m j (db_risk_rows db))
     \<or> GetRuleMetaRiskByKey t key db = None \<and> m = re_metaID re
       \<and> (\<exists>row. insert_risk row db = Inr (row, db\<lparr>db_risk_rows := rows\<rparr>) \<and> rows = db_risk_rows db @ [row]
            \<and> rk_InherentScore row = j \<and> fresh_meta dbnow t rule themes m row)"
proof (cases "GetRuleMetaRiskByKey t key db")
  case None
  with assms obtain row db1 where c: "CreateAggregateRisk (gl_score lib) dbnow (re_metaID re) t (Title rule)
                  (gl_describe lib (ru_RuleID rule) n (ru_SeverityFunction rule)) category
                  RiskMethodologyQualitative5x5 (Some (meta_inherent lib rule key ws sev l i n)) RiskTreatmentAvoid [] (Some (RObj [])) [] []
                  (ru_ParentLevel rule) None themes db = Inr (row, db1)"
    and l: "linkChildren dbnow t (re_metaID re) rid cs db1 = Inr db'" and m: "m = re_metaID re"
    by (auto simp: upsertMetaRisk_def Let_def split: sum.splits)
  from c obtain j where j: "jsonb_in (gl_score lib) (Some (meta_inherent lib rule key ws sev l i n)) = Some j"
    "rk_Methodology row = RiskMethodologyQualitative5x5" "rk_InherentScore row = j" "rk_TenantID row = t" "rk_ID row = re_metaID re"
    "insert_risk row db = Inr (row, db1)" by (rule CreateAggregateRisk_InrE)
  then have db1: "db1 = db\<lparr>db_risk_rows := db_risk_rows db @ [row]\<rparr>" by (blast elim: insert_risk_InrE)
  from l show ?thesis
    by (rule linkChildren_effect) (rule that [OF j(1), where rows = "db_risk_rows db @ [row]"], use None j m db1 CreateAggregateRisk_row [OF c] in \<open>auto simp: fresh_meta_def\<close>)
next
  case (Some existing)
  with assms obtain row db1 where u: "UpdateMetaRiskInherentScore (gl_score lib) dbnow t (rk_ID existing)
        (meta_inherent lib rule key ws sev l i n) db = Inr (row, db1)"
    and l: "linkChildren dbnow t (rk_ID existing) rid cs db1 = Inr db'" and m: "m = rk_ID existing"
    by (auto simp: upsertMetaRisk_def Let_def split: sum.splits)
  from u obtain j where j: "jsonb_in (gl_score lib) (Some (meta_inherent lib rule key ws sev l i n)) = Some j"
    "db1 = db\<lparr>db_risk_rows := set_meta dbnow t m j (db_risk_rows db)\<rparr>"
    by (auto simp: UpdateMetaRiskInherentScore_def set_meta_def sql_simps m split: option.splits)
  from l show ?thesis
    by (rule linkChildren_effect) (rule that [OF j(1), where rows = "set_meta dbnow t m j (db_risk_rows db)"], use Some j m in \<open>auto\<close>)
qed

lemma writeEvaluation_InrE:
  assumes "writeEvaluation re dbnow t rid outcome n k window meta db = Inr (ev, db')"
  obtains row where "db' = db\<lparr>db_agg_evaluations := db_agg_evaluations db @ [row]\<rparr>"
    "ev = \<lparr>evl_ID = re_evalID re, evl_RuleID = rid, evl_Outcome = outcome, evl_RiskCount = n, evl_TeamCount = k, evl_WindowStart = window,
       evl_MetaRiskID = meta, evl_EvaluatedAt = pgTime dbnow\<rparr>"
    "row = \<lparr>ae_ID = re_evalID re, ae_TenantID = t, ae_RuleID = rid, ae_EvaluatedAt = pgTime dbnow, ae_Outcome = outcome,
       ae_RiskCount = toInt32 n, ae_TeamCount = toInt32 k, ae_WindowStart = map_option pgTime window, ae_MetaRiskID = meta,
       ae_CreatedAt = pgTime dbnow\<rparr>"
    "re_evalID re \<notin> ae_ID ` set (db_agg_evaluations db)" "rule_fk t rid db"
  using assms
  by (auto simp: writeEvaluation_def WriteAggregationRuleEvaluation_def Let_def split: sum.splits if_splits)

lemma toInt32_nonneg: "0 \<le> toInt32 v"
  by (simp add: toInt32_def MaxInt32_def)

text \<open>The row of the ledger that an evaluation stands for.\<close>

definition evaluation_row :: "gotime \<Rightarrow> uuid \<Rightarrow> Evaluation \<Rightarrow> agg_eval_row" where
  "evaluation_row dbnow t ev =
     \<lparr>ae_ID = evl_ID ev, ae_TenantID = t, ae_RuleID = evl_RuleID ev, ae_EvaluatedAt = pgTime dbnow, ae_Outcome = evl_Outcome ev,
      ae_RiskCount = toInt32 (evl_RiskCount ev), ae_TeamCount = toInt32 (evl_TeamCount ev),
      ae_WindowStart = map_option pgTime (evl_WindowStart ev), ae_MetaRiskID = evl_MetaRiskID ev, ae_CreatedAt = pgTime dbnow\<rparr>"

definition outcome_of :: "agg_lib \<Rightarrow> rule_env \<Rightarrow> gotime \<Rightarrow> agg_rule_row \<Rightarrow> (int \<times> risk_row) list \<Rightarrow> uuid option \<Rightarrow> Evaluation" where
  "outcome_of lib re dbnow row kids meta =
     \<lparr>evl_ID = re_evalID re, evl_RuleID = ag_ID row, evl_Outcome = rule_outcome lib row kids, evl_RiskCount = int (length kids),
      evl_TeamCount = int (team_count lib kids),
      evl_WindowStart = (if rule_outcome lib row kids = ''fired'' then Some (window_start row (re_now re)) else None),
      evl_MetaRiskID = meta, evl_EvaluatedAt = pgTime dbnow\<rparr>"

text \<open>One evaluation, by its outcome.\<close>

lemma evaluateRule_cases:
  assumes "evaluateRule lib re dbnow t row db = Inr (ev, db')"
  obtains rule kids where "unmarshal_rule (ag_RuleBody row) = Some rule" "kids = rule_children lib t row (re_now re) db"
    "re_evalID re \<notin> ae_ID ` set (db_agg_evaluations db)" "rule_fk t (ag_ID row) db"
    "(rule_outcome lib row kids \<noteq> ''fired'' \<and> ev = outcome_of lib re dbnow row kids None
       \<and> db' = db\<lparr>db_agg_evaluations := db_agg_evaluations db @ [evaluation_row dbnow t ev]\<rparr>)
     \<or> (\<exists>sev m db1. rule_outcome lib row kids = ''fired''
       \<and> ComputeRuleSeverity lib (ru_SeverityFunction rule) (map fst kids) (ru_CustomRego rule) = Inr sev
       \<and> upsertMetaRisk lib re dbnow t rule (ag_ID row) (windowKey lib (ag_ID row) (window_start row (re_now re)))
           (window_start row (re_now re)) sev (fst (DeriveGridCell (gl_score lib) sev)) (snd (DeriveGridCell (gl_score lib) sev))
           (length kids) (meta_category (map snd kids)) (re_order re (remdups (concat (map rk_Themes (map snd kids)))))
           (map rk_ID (map snd kids)) db = Inr (m, db1)
       \<and> ev = outcome_of lib re dbnow row kids (Some m)
       \<and> db' = db1\<lparr>db_agg_evaluations := db_agg_evaluations db @ [evaluation_row dbnow t ev]\<rparr>)"
proof -
  from assms obtain rule where rule: "unmarshal_rule (ag_RuleBody row) = Some rule"
    by (auto simp: evaluateRule_def split: option.splits)
  define kids where "kids = rule_children lib t row (re_now re) db"
  have kids: "scored_children (gl_score lib) (ListCandidateRisksForRule t (ru_TargetTheme rule) (window_start row (re_now re)) db) = kids"
    by (simp add: kids_def rule_children_def rule)
  note ev = assms [unfolded evaluateRule_def rule option.case Let_def kids team_count_eq, folded team_count_def]
  note that = that [OF rule kids_def]
  show ?thesis
  proof (cases "rule_outcome lib row kids = ''fired''")
    case False
    then have nf: "\<not> (ag_MinRisks row \<le> int (length kids) \<and> ag_MinTeams row \<le> int (team_count lib kids))"
      by (auto simp: rule_outcome_def Let_def)
    then have out: "rule_outcome lib row kids = (if (ag_MinRisks row \<le> int (length kids)) \<noteq> (ag_MinTeams row \<le> int (team_count lib kids))
        then ''near_miss'' else ''no_match'')" by (auto simp: rule_outcome_def Let_def)
    have "writeEvaluation re dbnow t (ag_ID row) (rule_outcome lib row kids) (int (length kids)) (int (team_count lib kids)) None None db
        = Inr (ev, db')"
      using ev nf unfolding out by (simp only: if_True not_False_eq_True simp_thms split: if_split_asm)
    then show ?thesis
      by (rule writeEvaluation_InrE) (use False in \<open>auto simp: outcome_of_def evaluation_row_def intro!: that\<close>)
  next
    case True
    then have f: "ag_MinRisks row \<le> int (length kids)" "ag_MinTeams row \<le> int (team_count lib kids)"
      by (auto simp: rule_outcome_def Let_def split: if_splits)
    then obtain sev m db1 where *: "ComputeRuleSeverity lib (ru_SeverityFunction rule) (map fst kids) (ru_CustomRego rule) = Inr sev"
       "upsertMetaRisk lib re dbnow t rule (ag_ID row) (windowKey lib (ag_ID row) (window_start row (re_now re)))
           (window_start row (re_now re)) sev (fst (DeriveGridCell (gl_score lib) sev)) (snd (DeriveGridCell (gl_score lib) sev))
           (length kids) (meta_category (map snd kids)) (re_order re (remdups (concat (map rk_Themes (map snd kids)))))
           (map rk_ID (map snd kids)) db = Inr (m, db1)"
      and w: "writeEvaluation re dbnow t (ag_ID row) ''fired'' (int (length kids)) (int (team_count lib kids))
        (Some (window_start row (re_now re))) (Some m) db1 = Inr (ev, db')"
      using ev by (auto split: sum.splits prod.splits)
    from *(2) obtain rows new where db1: "db1 = db\<lparr>db_risk_rows := rows, db_risk_aggregations := db_risk_aggregations db @ new\<rparr>"
      by (rule upsertMetaRisk_cases)
    then have fr: "db_agg_evaluations db1 = db_agg_evaluations db" "rule_fk t (ag_ID row) db1 = rule_fk t (ag_ID row) db"
      by (simp_all add: rule_fk_def GetAggregationRuleByID_def)
    from w show ?thesis
      by (rule writeEvaluation_InrE) (use True * fr in \<open>auto simp: outcome_of_def evaluation_row_def intro!: that\<close>)
  qed
qed

lemma ComputeRuleSeverity_bounds: "ComputeRuleSeverity lib fn scores policy = Inr s \<Longrightarrow> 0 \<le> s \<and> s \<le> SeverityScaleMax"
  by (auto simp: ComputeRuleSeverity_def evalCustomRego_def clampSeverity_def SeverityScaleMax_def
      dest: ComputeSeverity_bounds [unfolded SeverityScaleMax_def] split: if_splits sum.splits rego_answer.splits option.splits)


section \<open>A run of the engine\<close>

text \<open>
  Identifiers are unique, no risk of a user carries the key of a window, and counts are exact in a
  \<open>float64\<close>.
\<close>

definition engine_ready :: "agg_lib \<Rightarrow> uuid \<Rightarrow> 'z org_db_scheme \<Rightarrow> bool" where
  "engine_ready lib t db \<longleftrightarrow> distinct (map rk_ID (db_risk_rows db)) \<and> length (own_risks db) \<le> 2 ^ 53
     \<and> (\<forall>r \<in> set (own_risks db). rk_TenantID r = t \<longrightarrow>
          (\<forall>rid ws. json_text (rk_InherentScore r) ''aggregation_key'' \<noteq> Some (windowKey lib rid ws)))"

text \<open>All columns of a risk but the two that the engine may assign.\<close>

definition frozen :: "risk_row \<Rightarrow> risk_row" where
  "frozen r = r\<lparr>rk_InherentScore := RNull, rk_UpdatedAt := 0\<rparr>"

definition engine_frame :: "uuid \<Rightarrow> 'z agg_db_scheme \<Rightarrow> 'z agg_db_scheme \<Rightarrow> bool" where
  "engine_frame t db db' \<longleftrightarrow>
     own_risks db' = own_risks db
     \<and> prefix (map frozen (db_risk_rows db)) (map frozen (db_risk_rows db'))
     \<and> (\<exists>new. db' = db\<lparr>db_risk_rows := db_risk_rows db', db_risk_aggregations := db_risk_aggregations db @ new,
              db_agg_evaluations := db_agg_evaluations db'\<rparr>
          \<and> (\<forall>a \<in> set new. ra_TenantID a = t \<and> ra_RuleID a \<noteq> None \<and> ra_ChildRiskID a \<in> rk_ID ` set (own_risks db)))"

definition meta_for :: "uuid \<Rightarrow> (int \<times> risk_row) list \<Rightarrow> uuid \<Rightarrow> 'z risk_db_scheme \<Rightarrow> bool" where
  "meta_for t kids m db \<longleftrightarrow> (\<exists>r \<in> set (db_risk_rows db). rk_ID r = m \<and> rk_TenantID r = t \<and> generated r)
     \<and> {m} \<times> rk_ID ` snd ` set kids \<subseteq> rolls_up db"

lemma frozen_columns: "frozen r = frozen r' \<Longrightarrow> rk_ID r = rk_ID r' \<and> rk_TenantID r = rk_TenantID r'"
  by (cases r, cases r') (simp add: frozen_def)

lemma engine_frame_refl: "engine_frame t db db"
  by (auto simp: engine_frame_def intro: exI [of _ "[]"])

lemma engine_frame_trans:
  assumes "engine_frame t db db1" "engine_frame t db1 db2"
  shows "engine_frame t db db2"
proof -
  from assms(1) obtain n1 where 1: "db1 = db\<lparr>db_risk_rows := db_risk_rows db1, db_risk_aggregations := db_risk_aggregations db @ n1,
              db_agg_evaluations := db_agg_evaluations db1\<rparr>"
    "\<forall>a \<in> set n1. ra_TenantID a = t \<and> ra_RuleID a \<noteq> None \<and> ra_ChildRiskID a \<in> rk_ID ` set (own_risks db)"
    by (auto simp: engine_frame_def)
  from assms(2) obtain n2 where 2: "db2 = db1\<lparr>db_risk_rows := db_risk_rows db2, db_risk_aggregations := db_risk_aggregations db1 @ n2,
              db_agg_evaluations := db_agg_evaluations db2\<rparr>"
    "\<forall>a \<in> set n2. ra_TenantID a = t \<and> ra_RuleID a \<noteq> None \<and> ra_ChildRiskID a \<in> rk_ID ` set (own_risks db1)"
    by (auto simp: engine_frame_def)
  have own: "own_risks db1 = own_risks db" "own_risks db2 = own_risks db1" using assms by (simp_all add: engine_frame_def)
  have "db_risk_aggregations db1 = db_risk_aggregations db @ n1" by (subst 1(1)) simp
  then have "db2 = db\<lparr>db_risk_rows := db_risk_rows db2, db_risk_aggregations := db_risk_aggregations db @ n1 @ n2,
              db_agg_evaluations := db_agg_evaluations db2\<rparr>"
    by (subst 2(1), subst 1(1)) simp
  then show ?thesis using assms 1(2) 2(2) own
    unfolding engine_frame_def by (intro conjI exI [of _ "n1 @ n2"]) (auto intro: prefix_order.trans)
qed

lemma filter_sql_update:
  "(\<And>x. x \<in> set xs \<Longrightarrow> P x \<Longrightarrow> \<not> Q x \<and> \<not> Q (f x)) \<Longrightarrow> filter Q (sql_update P f xs) = filter Q xs"
  by (induction xs) auto

lemma set_meta_own:
  assumes "distinct (map rk_ID rows)" "existing \<in> set rows" "generated existing" "isRuleGenerated j" "m = rk_ID existing"
  shows "filter (\<lambda>r. \<not> generated r) (set_meta dbnow t m j rows) = filter (\<lambda>r. \<not> generated r) rows"
    "map frozen (set_meta dbnow t m j rows) = map frozen rows" "map rk_ID (set_meta dbnow t m j rows) = map rk_ID rows"
proof -
  have "r = existing" if "r \<in> set rows" "rk_ID r = m" for r
    using that assms by (metis distinct_key_unique)
  then show "filter (\<lambda>r. \<not> generated r) (set_meta dbnow t m j rows) = filter (\<lambda>r. \<not> generated r) rows"
    unfolding set_meta_def using assms(3,4) by (intro filter_sql_update) (auto simp: generated_def)
  show "map frozen (set_meta dbnow t m j rows) = map frozen rows" "map rk_ID (set_meta dbnow t m j rows) = map rk_ID rows"
    unfolding set_meta_def by (rule map_sql_update_frame; simp add: frozen_def)+
qed

lemma find_meta:
  assumes "GetRuleMetaRiskByKey t (windowKey lib rid ws) db = Some existing" "engine_ready lib t db"
  shows "existing \<in> set (db_risk_rows db)" "generated existing" "rk_TenantID existing = t"
  using assms by (auto simp: GetRuleMetaRiskByKey_def engine_ready_def own_risks_def dest!: find_SomeD)

text \<open>What one evaluation does to a database that is ready.\<close>

lemma evaluateRule_fired:
  assumes ready: "engine_ready lib t db" and kids: "kids = rule_children lib t row (re_now re) db"
    and sev: "ComputeRuleSeverity lib (ru_SeverityFunction rule) (map fst kids) (ru_CustomRego rule) = Inr sev"
    and up: "upsertMetaRisk lib re dbnow t rule rid (windowKey lib rid ws) ws sev (fst (DeriveGridCell (gl_score lib) sev))
      (snd (DeriveGridCell (gl_score lib) sev)) (length kids) category themes (map rk_ID (map snd kids)) db = Inr (m, db')"
  shows "engine_frame t db db'" "engine_ready lib t db'" "meta_for t kids m db'"
    "rolls_up db' = rolls_up db \<union> {m} \<times> rk_ID ` snd ` set kids" "m \<notin> rk_ID ` snd ` set kids"
proof -
  have s: "0 \<le> sev" "sev \<le> SeverityScaleMax" using ComputeRuleSeverity_bounds [OF sev] by simp_all
  have n: "length kids \<le> 2 ^ 53" using ready rule_children_length [of lib t row "re_now re" db] by (simp add: kids engine_ready_def)
  from up obtain j rows new where j: "jsonb_in (gl_score lib) (Some (meta_inherent lib rule (windowKey lib rid ws) ws sev
      (fst (DeriveGridCell (gl_score lib) sev)) (snd (DeriveGridCell (gl_score lib) sev)) (length kids))) = Some j"
    and db': "db' = db\<lparr>db_risk_rows := rows, db_risk_aggregations := db_risk_aggregations db @ new\<rparr>"
    and up: "rolls_up db' = rolls_up db \<union> {m} \<times> set (map rk_ID (map snd kids))" "m \<notin> set (map rk_ID (map snd kids))"
    and new: "\<forall>a \<in> set new. ra_ParentRiskID a = m \<and> ra_ChildRiskID a \<in> set (map rk_ID (map snd kids)) \<and> ra_RuleID a = Some rid \<and> ra_TenantID a = t"
    and cases: "(\<exists>existing. GetRuleMetaRiskByKey t (windowKey lib rid ws) db = Some existing \<and> m = rk_ID existing \<and> rows = set_meta dbnow t m j (db_risk_rows db))
     \<or> GetRuleMetaRiskByKey t (windowKey lib rid ws) db = None \<and> m = re_metaID re
       \<and> (\<exists>row. insert_risk row db = Inr (row, db\<lparr>db_risk_rows := rows\<rparr>) \<and> rows = db_risk_rows db @ [row]
            \<and> rk_InherentScore row = j \<and> fresh_meta dbnow t rule themes m row)"
    by (rule upsertMetaRisk_cases)
  note cell = DeriveGridCell_range [OF s, of "gl_score lib"]
  have gen: "isRuleGenerated j" by (rule stored_meta(2) [OF j cell]) (use s n in \<open>simp_all add: SeverityScaleMax_def\<close>)
  have "own_risks db' = own_risks db \<and> prefix (map frozen (db_risk_rows db)) (map frozen rows) \<and> distinct (map rk_ID rows)
    \<and> (\<exists>r \<in> set rows. rk_ID r = m \<and> rk_TenantID r = t \<and> generated r)"
    using cases
  proof (elim disjE exE conjE, goal_cases)
    case (1 existing)
    note ex = find_meta [OF 1(1) ready]
    note own = set_meta_own [OF _ ex(1,2) gen 1(2), of dbnow t]
    have "\<exists>r \<in> set rows. rk_ID r = m \<and> rk_TenantID r = t \<and> generated r"
      using ex 1(2,3) gen by (auto simp: set_meta_def sql_simps generated_def
          intro!: bexI [of _ "existing\<lparr>rk_InherentScore := j, rk_UpdatedAt := pgTime dbnow\<rparr>"])
    then show ?case using own ready by (simp add: own_risks_def db' engine_ready_def 1(3))
  next
    case (2 row)
    then have "rk_ID row \<notin> rk_ID ` set (db_risk_rows db)" by (auto elim: insert_risk_InrE)
    with 2 gen ready show ?case by (auto simp: own_risks_def db' engine_ready_def generated_def fresh_meta_def)
  qed
  then have rows: "own_risks db' = own_risks db" "prefix (map frozen (db_risk_rows db)) (map frozen rows)" "distinct (map rk_ID rows)"
    "\<exists>r \<in> set rows. rk_ID r = m \<and> rk_TenantID r = t \<and> generated r" by blast+
  have own: "rk_ID ` snd ` set kids \<subseteq> rk_ID ` set (own_risks db)" using rule_children_mem(1) by (fastforce simp: kids)
  show "engine_frame t db db'" using rows(1,2) new own by (auto simp: engine_frame_def db' image_image intro!: exI [of _ new])
  show "engine_ready lib t db'" using ready rows(1,3) by (simp add: engine_ready_def db')
  show "rolls_up db' = rolls_up db \<union> {m} \<times> rk_ID ` snd ` set kids" "m \<notin> rk_ID ` snd ` set kids"
    using up by (auto simp: image_image)
  then show "meta_for t kids m db'" using rows(4) by (auto simp: meta_for_def db')
qed

lemma evaluateRule_frame:
  assumes "evaluateRule lib re dbnow t row db = Inr (ev, db')" "engine_ready lib t db"
  obtains kids meta where "kids = rule_children lib t row (re_now re) db" "ev = outcome_of lib re dbnow row kids meta"
    "meta = None \<longleftrightarrow> rule_outcome lib row kids \<noteq> ''fired''" "\<And>m. meta = Some m \<Longrightarrow> meta_for t kids m db'"
    "db_agg_evaluations db' = db_agg_evaluations db @ [evaluation_row dbnow t ev]" "engine_frame t db db'" "engine_ready lib t db'"
  using assms(1)
proof (cases rule: evaluateRule_cases)
  case (1 rule kids)
  show ?thesis
    using 1(5)
  proof (elim disjE exE conjE, goal_cases)
    case 1
    then have "engine_frame t db db'" "engine_ready lib t db'"
      using assms(2) by (auto simp: engine_frame_def engine_ready_def own_risks_def intro: exI [of _ "[]"])
    then show ?case using 1 \<open>kids = _\<close> by (intro that) auto
  next
    case (2 sev m db1)
    note fired = evaluateRule_fired [OF assms(2) \<open>kids = _\<close> 2(2,3)]
    have "engine_frame t db1 db'" "engine_ready lib t db'" "meta_for t kids m db'"
      using fired(2,3) unfolding 2(5)
      by (auto simp: engine_frame_def engine_ready_def own_risks_def meta_for_def rolls_up_def intro: exI [of _ "[]"])
    then show ?case using 2 \<open>kids = _\<close> engine_frame_trans [OF fired(1)] by (intro that [of kids "Some m"]) auto
  qed
qed

lemma rolls_up_frame: "engine_frame t db db' \<Longrightarrow> rolls_up db \<subseteq> rolls_up db'"
  unfolding engine_frame_def by (elim conjE exE, erule ssubst) (auto simp: rolls_up_def)

lemma engine_frame_rules: "engine_frame t db db' \<Longrightarrow> db_agg_rules db' = db_agg_rules db"
  unfolding engine_frame_def by (elim conjE exE, erule ssubst) simp

text \<open>A meta-risk stays one, whatever the later rules write.\<close>

lemma meta_for_frame:
  assumes "meta_for t kids m db" "engine_frame t db db'" "distinct (map rk_ID (db_risk_rows db))"
  shows "meta_for t kids m db'"
proof -
  from assms(1) obtain r where r: "r \<in> set (db_risk_rows db)" "rk_ID r = m" "rk_TenantID r = t" "generated r"
    by (auto simp: meta_for_def)
  have "set (map frozen (db_risk_rows db)) \<subseteq> set (map frozen (db_risk_rows db'))"
    using assms(2) by (intro set_mono_prefix) (simp add: engine_frame_def)
  then have "frozen r \<in> frozen ` set (db_risk_rows db')" using r(1) by auto
  then obtain r' where r': "r' \<in> set (db_risk_rows db')" "frozen r' = frozen r" by (auto simp: eq_commute)
  then have k: "rk_ID r' = m" "rk_TenantID r' = t" using r frozen_columns [of r' r] by simp_all
  have "generated r'"
  proof (rule ccontr)
    assume "\<not> generated r'"
    then have "r' \<in> set (own_risks db')" using r'(1) by (simp add: own_risks_def)
    then have "r' \<in> set (own_risks db)" using assms(2) by (simp add: engine_frame_def)
    then have "r' \<in> set (db_risk_rows db)" "\<not> generated r'" by (auto simp: own_risks_def)
    moreover from this r k assms(3) have "r' = r" by (metis distinct_key_unique)
    ultimately show False using r(4) by simp
  qed
  moreover have "{m} \<times> rk_ID ` snd ` set kids \<subseteq> rolls_up db'"
    using assms(1) by (intro order_trans [OF _ rolls_up_frame [OF assms(2)]]) (simp add: meta_for_def)
  ultimately show ?thesis using r' k by (auto simp: meta_for_def)
qed

text \<open>What the evaluation of a rule reports, with the counts of the given database.\<close>

definition reported :: "agg_lib \<Rightarrow> rule_env \<Rightarrow> gotime \<Rightarrow> uuid \<Rightarrow> 'z agg_db_scheme \<Rightarrow> 'z agg_db_scheme \<Rightarrow> agg_rule_row \<Rightarrow> Evaluation \<Rightarrow> bool" where
  "reported lib re dbnow t db db' row ev \<longleftrightarrow>
     (let kids = rule_children lib t row (re_now re) db in
      (\<exists>meta. ev = outcome_of lib re dbnow row kids meta \<and> (meta = None \<longleftrightarrow> rule_outcome lib row kids \<noteq> ''fired'')
         \<and> (\<forall>m. meta = Some m \<longrightarrow> meta_for t kids m db')))"

lemma reported_frame:
  assumes "reported lib re dbnow t db db1 row ev" "engine_frame t db1 db2" "engine_ready lib t db1" "own_risks db0 = own_risks db"
  shows "reported lib re dbnow t db0 db2 row ev"
  using assms meta_for_frame [OF _ assms(2)] rule_children_own [OF assms(4)]
  by (auto simp: reported_def Let_def engine_ready_def)

lemma evaluate_rules_frame:
  assumes "evaluate_rules lib res dbnow t rules db = Inr (evs, db')" "engine_ready lib t db"
  shows "list_all2 (\<lambda>r. reported lib (res (ag_ID r)) dbnow t db db' r) rules evs
    \<and> db_agg_evaluations db' = db_agg_evaluations db @ map (evaluation_row dbnow t) evs
    \<and> engine_frame t db db' \<and> engine_ready lib t db'"
  using assms
proof (induction rules arbitrary: db evs)
  case (Cons r rs)
  then obtain ev db1 evs' where run: "evaluateRule lib (res (ag_ID r)) dbnow t r db = Inr (ev, db1)"
    "evaluate_rules lib res dbnow t rs db1 = Inr (evs', db')" "evs = ev # evs'" by (auto split: sum.splits)
  have 1: "reported lib (res (ag_ID r)) dbnow t db db1 r ev"
    "db_agg_evaluations db1 = db_agg_evaluations db @ [evaluation_row dbnow t ev]" "engine_frame t db db1" "engine_ready lib t db1"
    by (rule evaluateRule_frame [OF run(1) Cons.prems(2)]; auto simp: reported_def Let_def)+
  note IH = Cons.IH [OF run(2) 1(4)]
  have own: "own_risks db = own_risks db1" using 1(3) by (simp add: engine_frame_def)
  have "list_all2 (\<lambda>r. reported lib (res (ag_ID r)) dbnow t db db' r) rs evs'"
    using IH own engine_frame_refl IH
    by (auto elim!: list_all2_mono intro: reported_frame [OF _ engine_frame_refl])
  moreover have "reported lib (res (ag_ID r)) dbnow t db db' r ev" using reported_frame [OF 1(1) _ 1(4) refl] IH by blast
  ultimately show ?case using IH 1(2,3) run(3) engine_frame_trans by auto
qed (auto simp: engine_frame_refl)

text \<open>
  C2. What one run of the engine does. It evaluates exactly the active rules of the tenant whose theme
  was triggered, all of them when no theme is given, and reports and appends to the ledger exactly one
  evaluation for each, in the order of the rules. The counts and the outcome of every rule are those of
  the risks that were there before the run: a rule never counts what a rule made, so the order of the
  rules does not matter to them. A fired rule names a meta-risk of the tenant that rolls up all
  counted risks, and no other outcome names one. The run writes nothing else: rules, audit log, controls,
  control links and the risks that no rule made stay as they are, of a generated risk only the score and
  the time of update change, and every new link goes to a risk that no rule made and carries its rule.
\<close>

theorem engine_run_exact:
  assumes "ag_Evaluate lib res env dbnow themes db = (Inr evs, db')" "tenant_of env = Some t" "engine_ready lib t db"
  shows "let rules = filter (triggered themes) (ListActiveAggregationRules t db) in
      set rules = {r \<in> set (db_agg_rules db). ag_TenantID r = t \<and> ag_Status r = AgActive \<and> triggered themes r}
    \<and> list_all2 (\<lambda>r. reported lib (res (ag_ID r)) dbnow t db db' r) rules evs
    \<and> db_agg_evaluations db' = db_agg_evaluations db @ map (evaluation_row dbnow t) evs
    \<and> engine_frame t db db'"
proof -
  from assms(1,2) have "evaluate_rules lib res dbnow t (filter (triggered themes) (ListActiveAggregationRules t db)) db = Inr (evs, db')"
    by (auto simp: ag_Evaluate_def Engine_Evaluate_def inTx_Inr_iff)
  from evaluate_rules_frame [OF this assms(3)] show ?thesis by (auto simp: Let_def ListActiveAggregationRules_def)
qed


section \<open>Cycles\<close>

lemma reaches_star: "(x, m) \<in> (r \<union> {m} \<times> K)\<^sup>* \<longleftrightarrow> (x, m) \<in> r\<^sup>*"
proof
  assume "(x, m) \<in> (r \<union> {m} \<times> K)\<^sup>*"
  then show "(x, m) \<in> r\<^sup>*" by (induction rule: converse_rtrancl_induct) (auto intro: converse_rtrancl_into_rtrancl)
qed (use rtrancl_mono [of r "r \<union> {m} \<times> K"] in auto)

lemma acyclic_star: "finite K \<Longrightarrow> acyclic (r \<union> {m} \<times> K) \<longleftrightarrow> acyclic r \<and> (\<forall>c \<in> K. (c, m) \<notin> r\<^sup>*)"
proof (induction rule: finite_induct)
  case (insert c K)
  have "r \<union> {m} \<times> insert c K = insert (m, c) (r \<union> {m} \<times> K)" by auto
  with insert.IH show ?case by (simp only: acyclic_insert reaches_star) auto
qed simp

text \<open>The links of one firing, and the meta-risk they hang from.\<close>

lemma fired_links:
  assumes "evaluateRule lib re dbnow t row db = Inr (ev, db')" "engine_ready lib t db" "evl_MetaRiskID ev = Some m"
  shows "rolls_up db' = rolls_up db \<union> {m} \<times> rk_ID ` snd ` set (rule_children lib t row (re_now re) db)"
    "m \<notin> rk_ID ` snd ` set (rule_children lib t row (re_now re) db)"
  using assms(1)
proof (atomize (full), cases rule: evaluateRule_cases)
  case (1 rule kids)
  from 1(5) show "rolls_up db' = rolls_up db \<union> {m} \<times> rk_ID ` snd ` set (rule_children lib t row (re_now re) db)
    \<and> m \<notin> rk_ID ` snd ` set (rule_children lib t row (re_now re) db)"
  proof (elim disjE exE conjE, goal_cases)
    case 1
    then show ?case using assms(3) by (simp add: outcome_of_def)
  next
    case (2 sev m' db1)
    then have "m' = m" using assms(3) by (simp add: outcome_of_def)
    then show ?case using evaluateRule_fired(4,5) [OF assms(2) \<open>kids = _\<close> 2(2,3)] 2(5) \<open>kids = _\<close> by (simp add: rolls_up_def)
  qed
qed

text \<open>
  C24. When the exclusion of generated risks prevents cycles, and when it does not. Over a register that is
  free of cycles a firing leaves it so exactly when no counted risk rolls up, over any number of steps, the
  meta-risk that the rule fires into. A new meta-risk is always safe. One that exists is not: a user may
  aggregate it under a parent made by hand, which carries the theme and no mark of a rule, and the next
  firing in the window links that parent under the meta-risk.
\<close>

theorem firing_acyclic_iff:
  assumes "evaluateRule lib re dbnow t row db = Inr (ev, db')" "engine_ready lib t db" "risk_inv db" "evl_MetaRiskID ev = Some m"
  shows "(acyclic (rolls_up db') \<longleftrightarrow> (\<forall>(s, c) \<in> set (rule_children lib t row (re_now re) db). (rk_ID c, m) \<notin> (rolls_up db)\<^sup>*))
    \<and> (m \<notin> rk_ID ` set (db_risk_rows db) \<longrightarrow> acyclic (rolls_up db'))"
proof -
  let ?kids = "rule_children lib t row (re_now re) db"
  note links = fired_links [OF assms(1,2,4)]
  have "acyclic (rolls_up db)" using assms(3) by (simp add: risk_shape_def)
  then have iff: "acyclic (rolls_up db') \<longleftrightarrow> (\<forall>c \<in> rk_ID ` snd ` set ?kids. (c, m) \<notin> (rolls_up db)\<^sup>*)"
    unfolding links(1) by (subst acyclic_star) simp_all
  have "(c, m) \<notin> (rolls_up db)\<^sup>*" if "m \<notin> rk_ID ` set (db_risk_rows db)" "c \<in> rk_ID ` snd ` set ?kids" for c
  proof
    assume "(c, m) \<in> (rolls_up db)\<^sup>*"
    moreover have "c \<noteq> m" using that(2) links(2) by auto
    ultimately obtain x where "(x, m) \<in> rolls_up db" by (auto elim: rtranclE)
    then obtain a where "a \<in> set (db_risk_aggregations db)" "ra_ChildRiskID a = m" by (auto simp: rolls_up_def)
    then have "has_risk (ra_TenantID a) m db" using assms(3) by (auto simp: risk_shape_def agg_ok_def)
    then show False using that(1) has_risk_id by blast
  qed
  with iff show ?thesis by (auto simp: image_image)
qed


text \<open>A firing into a new meta-risk keeps the whole invariant of the register.\<close>

lemma risk_inv_linkChildren:
  "risk_shape forest db \<Longrightarrow> forest \<longrightarrow> childless_parent p db \<Longrightarrow> linkChildren dbnow t p rid cs db = Inr db' \<Longrightarrow> risk_shape forest db'"
proof (induction cs arbitrary: db)
  case (Cons c cs)
  then show ?case using risk_inv_LinkRiskAggregation [of forest db p dbnow c "Some rid" t] by (auto split: sum.splits)
qed simp

lemma childless_new:
  assumes "risk_inv db" "p \<notin> rk_ID ` set (db_risk_rows db)" "rolls_up db' = rolls_up db"
  shows "childless_parent p db'"
proof -
  have "ra_ChildRiskID a \<noteq> p" if "a \<in> set (db_risk_aggregations db)" for a
    using that assms(1,2) has_risk_id [of "ra_TenantID a" p db] by (auto simp: risk_shape_def agg_ok_def)
  then show ?thesis unfolding childless_parent_def assms(3) by (auto simp: rolls_up_def)
qed

lemma risk_inv_fired_new:
  assumes ev: "evaluateRule lib re dbnow t row db = Inr (ev, db')" and "engine_ready lib t db" "risk_inv db" "evl_MetaRiskID ev = Some m"
    and none: "GetRuleMetaRiskByKey t (windowKey lib (ag_ID row) (window_start row (re_now re))) db = None"
  shows "risk_inv db'"
  using ev
proof (cases rule: evaluateRule_cases)
  case (1 rule kids)
  let ?key = "windowKey lib (ag_ID row) (window_start row (re_now re))" and ?ws = "window_start row (re_now re)"
  from 1(5) assms(4) obtain sev db1 where
    s: "ComputeRuleSeverity lib (ru_SeverityFunction rule) (map fst kids) (ru_CustomRego rule) = Inr sev"
    and up: "upsertMetaRisk lib re dbnow t rule (ag_ID row) ?key ?ws sev (fst (DeriveGridCell (gl_score lib) sev))
           (snd (DeriveGridCell (gl_score lib) sev)) (length kids) (meta_category (map snd kids))
           (re_order re (remdups (concat (map rk_Themes (map snd kids))))) (map rk_ID (map snd kids)) db = Inr (m, db1)"
    and db': "db' = db1\<lparr>db_agg_evaluations := db_agg_evaluations db @ [evaluation_row dbnow t ev]\<rparr>"
    by (auto simp: outcome_of_def)
  from up none obtain r db2 where c: "CreateAggregateRisk (gl_score lib) dbnow (re_metaID re) t (Title rule)
                  (gl_describe lib (ru_RuleID rule) (length kids) (ru_SeverityFunction rule)) (meta_category (map snd kids))
                  RiskMethodologyQualitative5x5 (Some (meta_inherent lib rule ?key ?ws sev (fst (DeriveGridCell (gl_score lib) sev))
                    (snd (DeriveGridCell (gl_score lib) sev)) (length kids))) RiskTreatmentAvoid [] (Some (RObj [])) [] []
                  (ru_ParentLevel rule) None (re_order re (remdups (concat (map rk_Themes (map snd kids))))) db = Inr (r, db2)"
    and l: "linkChildren dbnow t (re_metaID re) (ag_ID row) (map rk_ID (map snd kids)) db2 = Inr db1"
    by (auto simp: upsertMetaRisk_def Let_def split: sum.splits)
  have b: "0 \<le> sev" "sev \<le> SeverityScaleMax" using ComputeRuleSeverity_bounds [OF s] by simp_all
  have n: "length kids \<le> 2 ^ 53" using assms(2) rule_children_length [of lib t row "re_now re" db] by (simp add: 1(2) engine_ready_def)
  from c obtain j where j: "jsonb_in (gl_score lib) (Some (meta_inherent lib rule ?key ?ws sev (fst (DeriveGridCell (gl_score lib) sev))
                    (snd (DeriveGridCell (gl_score lib) sev)) (length kids))) = Some j" "rk_Methodology r = RiskMethodologyQualitative5x5"
    "rk_InherentScore r = j" "rk_ID r = re_metaID re" and ins: "insert_risk r db = Inr (r, db2)" by (rule CreateAggregateRisk_InrE)
  have "score_ok (rk_Methodology r) (rk_InherentScore r)" unfolding j(2,3)
    by (rule stored_meta(3) [OF j(1) DeriveGridCell_range [OF b]]) (use b n in \<open>simp_all add: SeverityScaleMax_def\<close>)
  note inv = risk_inv_insert [OF assms(3) ins this]
  have "childless_parent (re_metaID re) db2" by (rule childless_new [OF assms(3)]) (use inv j(4) in \<open>simp_all add: rolls_up_def\<close>)
  with risk_inv_linkChildren [OF inv(1) _ l] have "risk_inv db1" by simp
  then show ?thesis by (rule risk_inv_elsewhere) (simp_all add: db')
qed


section \<open>One meta-risk for a window\<close>

lemma find_updated:
  assumes "List.find P xs = Some x" "distinct (map k xs)" "\<And>y. Q y \<longleftrightarrow> R y \<and> k y = k x" "R x" "P (f x)"
  shows "List.find P (sql_update Q f xs) = Some (f x)"
  using assms
proof (induction xs)
  case (Cons y ys)
  show ?case
  proof (cases "P y")
    case False
    then have "List.find P ys = Some x" using Cons.prems(1) by simp
    then have "x \<in> set ys" by (auto dest: find_SomeD)
    then have "k y \<noteq> k x" using Cons.prems(2) by auto
    with False Cons show ?thesis by simp
  qed (use Cons in auto)
qed simp

text \<open>The state after a firing: the row under the key holds the stored score.\<close>

lemma fired_meta:
  assumes "evaluateRule lib re dbnow t row db = Inr (ev, db1)" "engine_ready lib t db" "evl_MetaRiskID ev = Some m"
  obtains rule sev j existing where "unmarshal_rule (ag_RuleBody row) = Some rule"
    "rule_outcome lib row (rule_children lib t row (re_now re) db) = ''fired''"
    "ComputeRuleSeverity lib (ru_SeverityFunction rule) (map fst (rule_children lib t row (re_now re) db)) (ru_CustomRego rule) = Inr sev"
    "jsonb_in (gl_score lib) (Some (meta_inherent lib rule (windowKey lib (ag_ID row) (window_start row (re_now re)))
       (window_start row (re_now re)) sev (fst (DeriveGridCell (gl_score lib) sev)) (snd (DeriveGridCell (gl_score lib) sev))
       (length (rule_children lib t row (re_now re) db)))) = Some j"
    "GetRuleMetaRiskByKey t (windowKey lib (ag_ID row) (window_start row (re_now re))) db1 = Some existing"
    "rk_ID existing = m" "rk_InherentScore existing = j" "json_text j ''aggregation_key'' = Some (windowKey lib (ag_ID row) (window_start row (re_now re)))"
    "db_risk_rows db1 = set_meta dbnow t m j (db_risk_rows db) \<or> (\<exists>r. db_risk_rows db1 = db_risk_rows db @ [r] \<and> rk_InherentScore r = j)"
  using assms(1)
proof (cases rule: evaluateRule_cases)
  case (1 rule kids)
  let ?key = "windowKey lib (ag_ID row) (window_start row (re_now re))"
  have kids: "kids = rule_children lib t row (re_now re) db" by fact
  from 1(5) assms(3) obtain sev db2 where f: "rule_outcome lib row kids = ''fired''"
      "ComputeRuleSeverity lib (ru_SeverityFunction rule) (map fst kids) (ru_CustomRego rule) = Inr sev"
      "upsertMetaRisk lib re dbnow t rule (ag_ID row) ?key
           (window_start row (re_now re)) sev (fst (DeriveGridCell (gl_score lib) sev)) (snd (DeriveGridCell (gl_score lib) sev))
           (length kids) (meta_category (map snd kids)) (re_order re (remdups (concat (map rk_Themes (map snd kids)))))
           (map rk_ID (map snd kids)) db = Inr (m, db2)" and db1: "db_risk_rows db1 = db_risk_rows db2"
    by (auto simp: outcome_of_def)
  have s: "0 \<le> sev" "sev \<le> SeverityScaleMax" using ComputeRuleSeverity_bounds [OF f(2)] by simp_all
  have n: "length kids \<le> 2 ^ 53" using assms(2) rule_children_length [of lib t row "re_now re" db] by (simp add: kids engine_ready_def)
  from f(3) obtain j rows where j: "jsonb_in (gl_score lib) (Some (meta_inherent lib rule ?key (window_start row (re_now re)) sev
      (fst (DeriveGridCell (gl_score lib) sev)) (snd (DeriveGridCell (gl_score lib) sev)) (length kids))) = Some j"
    and rows: "db_risk_rows db2 = rows"
    and cases: "(\<exists>existing. GetRuleMetaRiskByKey t ?key db = Some existing \<and> m = rk_ID existing \<and> rows = set_meta dbnow t m j (db_risk_rows db))
     \<or> GetRuleMetaRiskByKey t ?key db = None
       \<and> (\<exists>r. rows = db_risk_rows db @ [r] \<and> rk_ID r = m \<and> rk_TenantID r = t \<and> rk_InherentScore r = j)"
    by (rule upsertMetaRisk_cases) (auto simp: fresh_meta_def)
  have keyed: "json_text j ''aggregation_key'' = Some ?key"
    by (rule stored_meta(1) [OF j DeriveGridCell_range [OF s]]) (use s n in \<open>simp_all add: SeverityScaleMax_def\<close>)
  have "\<exists>existing. GetRuleMetaRiskByKey t ?key db1 = Some existing \<and> rk_ID existing = m \<and> rk_InherentScore existing = j"
    using cases
  proof (elim disjE exE conjE, goal_cases)
    case (1 existing)
    let ?f = "\<lambda>r. r\<lparr>rk_InherentScore := j, rk_UpdatedAt := pgTime dbnow\<rparr>"
    have "rk_TenantID existing = t" using find_meta(3) [OF 1(1) assms(2)] .
    then have "GetRuleMetaRiskByKey t ?key db1 = Some (?f existing)"
      unfolding GetRuleMetaRiskByKey_def db1 rows 1(3) set_meta_def
      using 1(1,2) assms(2) keyed
      by (intro find_updated [where k = rk_ID and R = "\<lambda>r. rk_TenantID r = t"]) (simp_all add: GetRuleMetaRiskByKey_def engine_ready_def)
    with 1(2) show ?case by simp
  next
    case (2 r)
    then show ?case using find_append_new [of _ "db_risk_rows db" r] keyed
      by (simp add: GetRuleMetaRiskByKey_def db1 rows)
  qed
  then obtain existing where ex: "GetRuleMetaRiskByKey t ?key db1 = Some existing" "rk_ID existing = m" "rk_InherentScore existing = j"
    by blast
  show ?thesis
    by (rule that [OF 1(1) f(1) [unfolded kids] f(2) [unfolded kids] j [unfolded kids] ex keyed]) (use cases db1 rows in auto)
qed

lemma set_meta_same:
  assumes "distinct (map rk_ID rows)" "existing \<in> set rows" "rk_ID existing = m" "rk_InherentScore existing = j"
  shows "map rk_InherentScore (set_meta dbnow t m j rows) = map rk_InherentScore rows" "map frozen (set_meta dbnow t m j rows) = map frozen rows"
proof -
  have "rk_InherentScore r = j" if "r \<in> set rows" "rk_ID r = m" for r
    using that assms by (metis distinct_key_unique)
  then show "map rk_InherentScore (set_meta dbnow t m j rows) = map rk_InherentScore rows" by (simp add: set_meta_def sql_update_def)
  show "map frozen (set_meta dbnow t m j rows) = map frozen rows"
    unfolding set_meta_def by (rule map_sql_update_frame) (simp add: frozen_def)
qed

lemma evaluate_again:
  assumes ev: "evaluateRule lib re dbnow t row db = Inr (ev, db1)" and ready: "engine_ready lib t db" and m: "evl_MetaRiskID ev = Some m"
    and ws: "window_start row (re_now re') = window_start row (re_now re)" and fresh: "re_evalID re' \<notin> ae_ID ` set (db_agg_evaluations db1)"
  shows "\<exists>ev' db2. evaluateRule lib re' dbnow' t row db1 = Inr (ev', db2) \<and> evl_MetaRiskID ev' = Some m
    \<and> map rk_InherentScore (db_risk_rows db2) = map rk_InherentScore (db_risk_rows db1)
    \<and> map frozen (db_risk_rows db2) = map frozen (db_risk_rows db1) \<and> db_risk_aggregations db2 = db_risk_aggregations db1"
proof -
  let ?kids = "rule_children lib t row (re_now re) db"
  from ev ready have fr: "engine_frame t db db1" "engine_ready lib t db1" by (rule evaluateRule_frame; blast)+
  note links = fired_links [OF ev ready m]
  from ev ready m obtain rule sev j existing where
    rule: "unmarshal_rule (ag_RuleBody row) = Some rule" and out: "rule_outcome lib row ?kids = ''fired''"
    and sev: "ComputeRuleSeverity lib (ru_SeverityFunction rule) (map fst ?kids) (ru_CustomRego rule) = Inr sev"
    and j: "jsonb_in (gl_score lib) (Some (meta_inherent lib rule (windowKey lib (ag_ID row) (window_start row (re_now re)))
       (window_start row (re_now re)) sev (fst (DeriveGridCell (gl_score lib) sev)) (snd (DeriveGridCell (gl_score lib) sev))
       (length ?kids))) = Some j"
    and ex: "GetRuleMetaRiskByKey t (windowKey lib (ag_ID row) (window_start row (re_now re))) db1 = Some existing"
      "rk_ID existing = m" "rk_InherentScore existing = j"
    by (rule fired_meta)
  have kids: "scored_children (gl_score lib) (ListCandidateRisksForRule t (ru_TargetTheme rule) (window_start row (re_now re)) db1) = ?kids"
    using rule_children_own [of db1 db lib t row "re_now re"] fr(1) by (simp add: rule_children_def rule engine_frame_def)
  have thr: "ag_MinRisks row \<le> int (length ?kids)" "ag_MinTeams row \<le> int (team_count lib ?kids)"
    using out by (auto simp: rule_outcome_def Let_def split: if_splits)
  have mem: "existing \<in> set (db_risk_rows db1)" "rk_TenantID existing = t" using find_meta [OF ex(1) fr(2)] by simp_all
  define db2 where "db2 = db1\<lparr>db_risk_rows := set_meta dbnow' t m j (db_risk_rows db1)\<rparr>"
  have "\<exists>r. List.find (\<lambda>r. rk_TenantID r = t \<and> rk_ID r = m) (db_risk_rows db1) = Some r"
    using mem ex(2) find_None_iff [of "\<lambda>r. rk_TenantID r = t \<and> rk_ID r = m" "db_risk_rows db1"] by fastforce
  then have upd: "\<exists>r. UpdateMetaRiskInherentScore (gl_score lib) dbnow' t m (meta_inherent lib rule
       (windowKey lib (ag_ID row) (window_start row (re_now re))) (window_start row (re_now re)) sev
       (fst (DeriveGridCell (gl_score lib) sev)) (snd (DeriveGridCell (gl_score lib) sev)) (length ?kids)) db1 = Inr (r, db2)"
    by (auto simp: UpdateMetaRiskInherentScore_def j sql_update_one_def db2_def set_meta_def)
  have "linkChildren dbnow' t m (ag_ID row) (map rk_ID (map snd ?kids)) db2 = Inr db2"
    using links by (intro linkChildren_again) (auto simp: db2_def image_image)
  with upd have up: "upsertMetaRisk lib re' dbnow' t rule (ag_ID row) (windowKey lib (ag_ID row) (window_start row (re_now re)))
     (window_start row (re_now re)) sev (fst (DeriveGridCell (gl_score lib) sev)) (snd (DeriveGridCell (gl_score lib) sev)) (length ?kids)
     category themes (map rk_ID (map snd ?kids)) db1 = Inr (m, db2)" for category themes
    by (auto simp: upsertMetaRisk_def Let_def ex(1,2))
  have "rule_fk t (ag_ID row) db" using ev by (rule evaluateRule_cases)
  then have "rule_fk t (ag_ID row) db2"
    using engine_frame_rules [OF fr(1)] by (simp add: db2_def rule_fk_def GetAggregationRuleByID_def)
  then have w: "writeEvaluation re' dbnow' t (ag_ID row) ''fired'' (int (length ?kids)) (int (team_count lib ?kids))
      (Some (window_start row (re_now re))) (Some m) db2 =
     Inr (outcome_of lib re' dbnow' row ?kids (Some m),
       db2\<lparr>db_agg_evaluations := db_agg_evaluations db1 @ [evaluation_row dbnow' t (outcome_of lib re' dbnow' row ?kids (Some m))]\<rparr>)"
    using fresh out ws toInt32_nonneg [of "int (length ?kids)"] toInt32_nonneg [of "int (team_count lib ?kids)"]
    by (simp add: writeEvaluation_def WriteAggregationRuleEvaluation_def Let_def outcome_of_def evaluation_row_def) (simp add: db2_def)
  have "evaluateRule lib re' dbnow' t row db1 =
     Inr (outcome_of lib re' dbnow' row ?kids (Some m),
       db2\<lparr>db_agg_evaluations := db_agg_evaluations db1 @ [evaluation_row dbnow' t (outcome_of lib re' dbnow' row ?kids (Some m))]\<rparr>)"
    using thr by (simp only: evaluateRule_def rule option.case Let_def ws kids team_count_eq flip: team_count_def)
      (simp only: sev sum.case case_prod_beta up fst_conv snd_conv w simp_thms if_False)
  then show ?thesis using set_meta_same [OF _ mem(1) ex(2,3), of dbnow' t] fr(2)
    by (simp add: outcome_of_def db2_def engine_ready_def)
qed

lemma dayFloorUTC_shift: "dayFloorUTC (t - days n) = dayFloorUTC t - days n"
  using mod_mult_self2 [of t "hours 24" "- n"] by (simp add: dayFloorUTC_def days_def hours_def algebra_simps)

text \<open>Once the window has outrun the activation it moves with every day.\<close>

lemma window_slides:
  assumes "ag_ActivatedAt row = Some a" "a \<le> dayFloorUTC (now - days (ag_WindowDays row))" "dayFloorUTC now \<le> dayFloorUTC now'"
  shows "window_start row now' = window_start row now + (dayFloorUTC now' - dayFloorUTC now)"
  using assms by (simp add: window_start_def Let_def dayFloorUTC_shift)

lemma find_other_key:
  assumes "db_risk_rows db1 = set_meta dbnow t m j (db_risk_rows db) \<or> (\<exists>r. db_risk_rows db1 = db_risk_rows db @ [r] \<and> rk_InherentScore r = j)"
    "json_text j ''aggregation_key'' \<noteq> Some key" "GetRuleMetaRiskByKey t key db = None"
  shows "GetRuleMetaRiskByKey t key db1 = None"
proof -
  have none: "\<not> (rk_TenantID r = t \<and> json_text (rk_InherentScore r) ''aggregation_key'' = Some key)" if "r \<in> set (db_risk_rows db)" for r
    using that assms(3) by (simp add: GetRuleMetaRiskByKey_def find_None_iff)
  have "\<not> (rk_TenantID r = t \<and> json_text (rk_InherentScore r) ''aggregation_key'' = Some key)" if "r \<in> set (db_risk_rows db1)" for r
    using assms(1)
  proof (elim disjE exE conjE)
    assume "db_risk_rows db1 = set_meta dbnow t m j (db_risk_rows db)"
    with that have "r \<in> set (set_meta dbnow t m j (db_risk_rows db))" by simp
    then show ?thesis unfolding set_meta_def by (rule in_sql_updateE) (use none assms(2) in auto)
  next
    fix r' assume "db_risk_rows db1 = db_risk_rows db @ [r']" "rk_InherentScore r' = j"
    with that none assms(2) show ?thesis by (cases "r = r'") auto
  qed
  then show ?thesis by (simp add: GetRuleMetaRiskByKey_def find_None_iff)
qed

lemma fired_new:
  assumes "evaluateRule lib re dbnow t row db = Inr (ev, db')" "engine_ready lib t db" "evl_MetaRiskID ev = Some m"
    "GetRuleMetaRiskByKey t (windowKey lib (ag_ID row) (window_start row (re_now re))) db = None"
  shows "m \<notin> rk_ID ` set (db_risk_rows db) \<and> (\<exists>r rule. db_risk_rows db' = db_risk_rows db @ [r] \<and> generated r
      \<and> unmarshal_rule (ag_RuleBody row) = Some rule
      \<and> fresh_meta dbnow t rule (re_order re (remdups (concat (map (rk_Themes \<circ> snd) (rule_children lib t row (re_now re) db))))) m r)"
  using assms(1)
proof (cases rule: evaluateRule_cases)
  case (1 rule kids)
  with assms(3) obtain sev db1 where
    s: "ComputeRuleSeverity lib (ru_SeverityFunction rule) (map fst kids) (ru_CustomRego rule) = Inr sev"
    and up: "upsertMetaRisk lib re dbnow t rule (ag_ID row) (windowKey lib (ag_ID row) (window_start row (re_now re)))
           (window_start row (re_now re)) sev (fst (DeriveGridCell (gl_score lib) sev)) (snd (DeriveGridCell (gl_score lib) sev))
           (length kids) (meta_category (map snd kids)) (re_order re (remdups (concat (map rk_Themes (map snd kids)))))
           (map rk_ID (map snd kids)) db = Inr (m, db1)" and db': "db_risk_rows db' = db_risk_rows db1"
    by (auto simp: outcome_of_def)
  have "meta_for t kids m db1" by (rule evaluateRule_fired(3) [OF assms(2) _ s up]) fact
  then obtain g where g: "g \<in> set (db_risk_rows db1)" "rk_ID g = m" "generated g" by (auto simp: meta_for_def)
  from up assms(4) have "\<exists>r. insert_risk r db = Inr (r, db\<lparr>db_risk_rows := db_risk_rows db @ [r]\<rparr>) \<and> db_risk_rows db1 = db_risk_rows db @ [r]
      \<and> fresh_meta dbnow t rule (re_order re (remdups (concat (map rk_Themes (map snd kids))))) m r"
    by (elim upsertMetaRisk_cases) auto
  then obtain r where r: "db_risk_rows db1 = db_risk_rows db @ [r]"
      "fresh_meta dbnow t rule (re_order re (remdups (concat (map rk_Themes (map snd kids))))) m r" "m \<notin> rk_ID ` set (db_risk_rows db)"
    by (auto elim: insert_risk_InrE simp: fresh_meta_def)
  then have "g \<notin> set (db_risk_rows db)" using g(2) r(3) by (metis imageI)
  then have "g = r" using g(1) r(1) by simp
  with r g db' 1(1,2) show ?thesis by auto
qed

text \<open>Windows that start on different days have different keys, unless SHA-256 collides on the texts of the two.\<close>

definition window_text :: "agg_lib \<Rightarrow> uuid \<Rightarrow> gotime \<Rightarrow> string" where
  "window_text lib ruleID day = sl_uuid_string (gl_score lib) ruleID @ ''|'' @ RFC3339 day"

lemma dayFloorUTC_midnight: "dayFloorUTC t mod hours 24 = 0"
  unfolding dayFloorUTC_def minus_mod_eq_mult_div by simp

lemma window_keys_differ:
  assumes "0 \<le> d" "0 \<le> d'" "d mod hours 24 = 0" "d' mod hours 24 = 0" "d \<noteq> d'"
  shows "windowKey lib rid d' \<noteq> windowKey lib rid d
    \<or> window_text lib rid d' \<noteq> window_text lib rid d
      \<and> sl_sha256hex (gl_score lib) (window_text lib rid d') = sl_sha256hex (gl_score lib) (window_text lib rid d)"
  using RFC3339_midnight_inj [OF _ assms(1-4)] assms(5) by (auto simp: windowKey_def window_text_def)

text \<open>
  C38. In how many meta-risks the firings of a rule end. A rule that has fired and is evaluated again with the
  same start of its window always fires into the same meta-risk, with the same score, no new link and no
  new risk. But the start of the window moves with every day once the activation is older than the window:
  then a firing on a later day, for which no meta-risk was there before, makes another meta-risk, over the
  same children, unless SHA-256 gives the same digest for the two different texts of the rule and the two days.
\<close>

theorem meta_risk_per_window:
  assumes "evaluateRule lib re dbnow t row db = Inr (ev, db1)" "engine_ready lib t db" "evl_MetaRiskID ev = Some m"
  shows "(window_start row (re_now re') = window_start row (re_now re) \<and> re_evalID re' \<notin> ae_ID ` set (db_agg_evaluations db1) \<longrightarrow>
      (\<exists>ev' db2. evaluateRule lib re' dbnow' t row db1 = Inr (ev', db2) \<and> evl_MetaRiskID ev' = Some m
        \<and> map rk_InherentScore (db_risk_rows db2) = map rk_InherentScore (db_risk_rows db1)
        \<and> map frozen (db_risk_rows db2) = map frozen (db_risk_rows db1) \<and> db_risk_aggregations db2 = db_risk_aggregations db1))
    \<and> (\<forall>a day day' ev' db2 m'. ag_ActivatedAt row = Some a \<and> 0 \<le> a \<and> day = dayFloorUTC (re_now re) - days (ag_WindowDays row)
        \<and> day' = dayFloorUTC (re_now re') - days (ag_WindowDays row) \<and> a \<le> day \<and> day < day'
        \<and> GetRuleMetaRiskByKey t (windowKey lib (ag_ID row) day') db = None
        \<and> evaluateRule lib re' dbnow' t row db1 = Inr (ev', db2) \<and> evl_MetaRiskID ev' = Some m' \<longrightarrow>
        window_start row (re_now re) = day \<and> window_start row (re_now re') = day'
        \<and> (m' \<noteq> m \<and> (\<exists>r. db_risk_rows db2 = db_risk_rows db1 @ [r] \<and> rk_ID r = m' \<and> generated r)
           \<or> window_text lib (ag_ID row) day' \<noteq> window_text lib (ag_ID row) day
             \<and> sl_sha256hex (gl_score lib) (window_text lib (ag_ID row) day') = sl_sha256hex (gl_score lib) (window_text lib (ag_ID row) day)))"
proof (intro conjI impI allI; elim conjE)
  assume "window_start row (re_now re') = window_start row (re_now re)" "re_evalID re' \<notin> ae_ID ` set (db_agg_evaluations db1)"
  then show "\<exists>ev' db2. evaluateRule lib re' dbnow' t row db1 = Inr (ev', db2) \<and> evl_MetaRiskID ev' = Some m
        \<and> map rk_InherentScore (db_risk_rows db2) = map rk_InherentScore (db_risk_rows db1)
        \<and> map frozen (db_risk_rows db2) = map frozen (db_risk_rows db1) \<and> db_risk_aggregations db2 = db_risk_aggregations db1"
    by (rule evaluate_again [OF assms])
next
  fix a day day' ev' db2 m'
  assume a: "ag_ActivatedAt row = Some a" "0 \<le> a" "day = dayFloorUTC (re_now re) - days (ag_WindowDays row)"
      "day' = dayFloorUTC (re_now re') - days (ag_WindowDays row)" "a \<le> day" "day < day'"
    and none: "GetRuleMetaRiskByKey t (windowKey lib (ag_ID row) day') db = None"
    and ev': "evaluateRule lib re' dbnow' t row db1 = Inr (ev', db2)" "evl_MetaRiskID ev' = Some m'"
  show ws: "window_start row (re_now re) = day" "window_start row (re_now re') = day'"
    using a by (simp_all add: window_start_def Let_def dayFloorUTC_shift)
  have mid: "day mod hours 24 = 0" "day' mod hours 24 = 0"
    unfolding a(3,4) dayFloorUTC_shift [symmetric] by (rule dayFloorUTC_midnight)+
  show "m' \<noteq> m \<and> (\<exists>r. db_risk_rows db2 = db_risk_rows db1 @ [r] \<and> rk_ID r = m' \<and> generated r)
      \<or> window_text lib (ag_ID row) day' \<noteq> window_text lib (ag_ID row) day
        \<and> sl_sha256hex (gl_score lib) (window_text lib (ag_ID row) day') = sl_sha256hex (gl_score lib) (window_text lib (ag_ID row) day)"
  proof (rule disjE [OF window_keys_differ [of day day' lib "ag_ID row"]])
    assume key: "windowKey lib (ag_ID row) day' \<noteq> windowKey lib (ag_ID row) day"
    from assms(1,2) have ready: "engine_ready lib t db1" by (rule evaluateRule_frame)
    obtain j existing where j: "json_text j ''aggregation_key'' = Some (windowKey lib (ag_ID row) day)"
      "db_risk_rows db1 = set_meta dbnow t m j (db_risk_rows db) \<or> (\<exists>r. db_risk_rows db1 = db_risk_rows db @ [r] \<and> rk_InherentScore r = j)"
      "GetRuleMetaRiskByKey t (windowKey lib (ag_ID row) day) db1 = Some existing" "rk_ID existing = m"
      by (rule fired_meta [OF assms, unfolded ws]) (rule that; assumption)
    have "GetRuleMetaRiskByKey t (windowKey lib (ag_ID row) (window_start row (re_now re'))) db1 = None"
      unfolding ws by (rule find_other_key [OF j(2) _ none]) (use j(1) key in simp)
    note new = fired_new [OF ev'(1) ready ev'(2) this]
    have "m \<in> rk_ID ` set (db_risk_rows db1)" using j(3,4) by (auto simp: GetRuleMetaRiskByKey_def dest: find_SomeD)
    then have "m' \<noteq> m" using new by auto
    then show ?thesis using new by (auto simp: fresh_meta_def)
  qed (use a mid in auto)
qed


section \<open>The lifecycle of a rule\<close>

definition rule_int64 :: "Rule \<Rightarrow> bool" where
  "rule_int64 r \<longleftrightarrow> (\<forall>n \<in> {ru_MinRisks r, ru_MinTeams r, ru_WindowDays r}. - (2 ^ 63) \<le> n \<and> n < 2 ^ 63)"

text \<open>The stored body reads back as the rule that was given.\<close>

lemma jsonb_rule:
  "jsonb (CanonicalJSON r) =
     RObj [(''rule_id'', RStr (ru_RuleID r)), (''min_risks'', json_int (ru_MinRisks r)), (''min_teams'', json_int (ru_MinTeams r)),
           (''custom_rego'', RStr (ru_CustomRego r)), (''window_days'', json_int (ru_WindowDays r)),
           (''parent_level'', RStr (ru_ParentLevel r)), (''target_theme'', RStr (ru_TargetTheme r)),
           (''title_template'', RStr (ru_TitleTemplate r)), (''severity_function'', RStr (ru_SeverityFunction r))]"
  by (simp add: CanonicalJSON_def json_int_def)

lemma unmarshal_stored_rule: "rule_int64 r \<Longrightarrow> unmarshal_rule (jsonb (CanonicalJSON r)) = Some r"
  unfolding jsonb_rule
  by (simp add: struct_field_def rule_fields_def rule_int64_def set_text_def set_int_def json_int_def zero_Rule_def)

definition rule_status_of :: "'z agg_db_scheme \<Rightarrow> uuid \<times> uuid \<Rightarrow> string option" where
  "rule_status_of db k = map_option ag_Status (GetAggregationRuleByID (fst k) (snd k) db)"

definition rule_trail_of :: "'z agg_db_scheme \<Rightarrow> uuid \<times> uuid \<Rightarrow> string list" where
  "rule_trail_of db k = map (the \<circ> aal_ToStatus) (filter (\<lambda>a. aal_TenantID a = fst k \<and> aal_RuleID a = snd k) (db_agg_audit db))"

inductive rule_edge :: "string \<Rightarrow> string \<Rightarrow> bool" where
  "rule_edge AgStaged AgActive" | "rule_edge AgActive AgInactive" | "rule_edge AgInactive AgActive"

inductive_simps rule_edge_iff: "rule_edge a b"

text \<open>A stored rule is valid, its columns are its body, and it has an activation unless it is staged.\<close>

definition rule_row_ok :: "agg_rule_row \<Rightarrow> bool" where
  "rule_row_ok row \<longleftrightarrow> aggregation_rules_check row \<and> ag_ParentLevel row \<in> risk_levels
     \<and> (\<exists>r. unmarshal_rule (ag_RuleBody row) = Some r \<and> Validate r = [] \<and> ag_RuleID row = ru_RuleID r \<and> ag_TargetTheme row = ru_TargetTheme r
          \<and> ag_MinRisks row = toInt32 (ru_MinRisks r) \<and> ag_MinTeams row = toInt32 (ru_MinTeams r)
          \<and> ag_WindowDays row = toInt32 (ru_WindowDays r) \<and> ag_ParentLevel row = ru_ParentLevel r
          \<and> ag_SeverityFunction row = ru_SeverityFunction r)"

definition rule_inv :: "'z agg_db_scheme \<Rightarrow> bool" where
  "rule_inv db \<longleftrightarrow> distinct (map ag_ID (db_agg_rules db)) \<and> (\<forall>row \<in> set (db_agg_rules db). rule_row_ok row)
     \<and> (\<forall>a \<in> set (db_agg_audit db). aal_Actor a \<noteq> [] \<and> aal_ToStatus a \<noteq> None)"

inductive ag_step :: "agg_lib \<Rightarrow> 'z agg_db_scheme \<Rightarrow> 'z agg_db_scheme \<Rightarrow> bool" for lib where
  create: "ag_Create lib env dbnow i auditID r actor db = (res, db') \<Longrightarrow> rule_int64 r \<Longrightarrow> ag_step lib db db'"
| activate: "ag_Activate env dbnow auditID i actor db = (res, db') \<Longrightarrow> ag_step lib db db'"
| deactivate: "ag_Deactivate env dbnow auditID i actor db = (res, db') \<Longrightarrow> ag_step lib db db'"
| evaluate: "ag_Evaluate lib res env dbnow themes db = (r, db') \<Longrightarrow> ag_step lib db db'"
| elsewhere: "db_agg_rules db' = db_agg_rules db \<Longrightarrow> db_agg_audit db' = db_agg_audit db \<Longrightarrow> ag_step lib db db'"

lemma evaluate_rules_keeps:
  "evaluate_rules lib res dbnow t rules db = Inr (evs, db') \<Longrightarrow> db_agg_rules db' = db_agg_rules db \<and> db_agg_audit db' = db_agg_audit db"
proof (induction rules arbitrary: db evs)
  case (Cons r rs)
  then obtain ev db1 evs' where run: "evaluateRule lib (res (ag_ID r)) dbnow t r db = Inr (ev, db1)"
    "evaluate_rules lib res dbnow t rs db1 = Inr (evs', db')" by (auto split: sum.splits)
  from run(1) have "db_agg_rules db1 = db_agg_rules db \<and> db_agg_audit db1 = db_agg_audit db"
    by (cases rule: evaluateRule_cases) (auto elim!: upsertMetaRisk_cases)
  with Cons.IH [OF run(2)] show ?case by simp
qed simp

lemma audited_InrE:
  assumes "audited dbnow auditID t event actor frm to row db = Inr (sr, db')"
  obtains en where "db' = db\<lparr>db_agg_audit := db_agg_audit db @ [en]\<rparr>" "aal_TenantID en = t" "aal_RuleID en = ag_ID row"
    "aal_ToStatus en = Some to" "aal_Actor en \<noteq> []"
  using assms by (auto simp: audited_def WriteAggregationRuleAuditLog_def Let_def split: sum.splits if_splits)

lemma toInt32_pos: "0 < v \<Longrightarrow> 0 < toInt32 v"
  by (simp add: toInt32_def MaxInt32_def)

text \<open>The three ways in which a call changes the rules.\<close>

lemma sql_update_cong: "(\<And>x. x \<in> set xs \<Longrightarrow> P x = Q x) \<Longrightarrow> sql_update P f xs = sql_update Q f xs"
  by (simp add: sql_update_def)

lemma rule_unique:
  assumes "rule_inv db" "GetAggregationRuleByID t i db = Some r" "x \<in> set (db_agg_rules db)" "the_rule t i x"
  shows "x = r"
proof -
  have "r \<in> set (db_agg_rules db)" "the_rule t i r" using assms(2) by (auto simp: GetAggregationRuleByID_def dest: find_SomeD)
  with assms show ?thesis by (intro distinct_key_unique [of ag_ID "db_agg_rules db"]) (auto simp: rule_inv_def the_rule_def)
qed

lemma ag_step_cases:
  assumes "ag_step lib db db'" "rule_inv db"
  obtains (none) "db_agg_rules db' = db_agg_rules db" "db_agg_audit db' = db_agg_audit db"
  | (created) row en where "db_agg_rules db' = db_agg_rules db @ [row]" "db_agg_audit db' = db_agg_audit db @ [en]" "rule_row_ok row"
      "ag_Status row = AgStaged" "ag_ID row \<notin> ag_ID ` set (db_agg_rules db)" "aal_TenantID en = ag_TenantID row" "aal_RuleID en = ag_ID row"
      "aal_ToStatus en = Some AgStaged" "aal_Actor en \<noteq> []"
  | (moved) t i f r en where "GetAggregationRuleByID t i db = Some r" "db_agg_rules db' = sql_update (the_rule t i) f (db_agg_rules db)"
      "db_agg_audit db' = db_agg_audit db @ [en]" "rule_edge (ag_Status r) (ag_Status (f r))" "rule_row_ok (f r)"
      "\<And>x. ag_ID (f x) = ag_ID x \<and> ag_TenantID (f x) = ag_TenantID x"
      "aal_TenantID en = t" "aal_RuleID en = i" "aal_ToStatus en = Some (ag_Status (f r))" "aal_Actor en \<noteq> []"
  using assms(1)
proof (cases rule: ag_step.cases)
  case (create env dbnow i auditID r actor res)
  show ?thesis
  proof (cases "Validate r = []")
    case True
    with create(1) have tx: "inTx env (\<lambda>t db0.
          (case CreateAggregationRule (gl_score lib) dbnow i t (ru_RuleID r) (ru_TargetTheme r) (toInt32 (ru_MinRisks r))
                  (toInt32 (ru_MinTeams r)) (toInt32 (ru_WindowDays r)) (ru_ParentLevel r) (ru_SeverityFunction r)
                  (CanonicalJSON r) db0 of
             Inl UniqueViolation \<Rightarrow> Inl ErrDuplicateRuleID
           | Inl e \<Rightarrow> Inl (AgDatabase e)
           | Inr (row, db1) \<Rightarrow> audited dbnow auditID t ''created'' actor None AgStaged row db1)) db = (res, db')"
      by (simp add: ag_Create_def)
    then show ?thesis
    proof (cases rule: inTx_cases)
      case (commit t a)
      then obtain row db1 where c: "CreateAggregationRule (gl_score lib) dbnow i t (ru_RuleID r) (ru_TargetTheme r) (toInt32 (ru_MinRisks r))
                  (toInt32 (ru_MinTeams r)) (toInt32 (ru_WindowDays r)) (ru_ParentLevel r) (ru_SeverityFunction r)
                  (CanonicalJSON r) db = Inr (row, db1)" and au: "audited dbnow auditID t ''created'' actor None AgStaged row db1 = Inr (a, db')"
        by (auto split: sum.splits pg_error.splits)
      from c have row: "db1 = db\<lparr>db_agg_rules := db_agg_rules db @ [row]\<rparr>" "aggregation_rules_check row" "ag_ParentLevel row \<in> risk_levels"
          "ag_RuleBody row = jsonb (CanonicalJSON r)" "ag_ID row \<notin> ag_ID ` set (db_agg_rules db)" "ag_Status row = AgStaged" "ag_TenantID row = t"
        and cols: "ag_RuleID row = ru_RuleID r" "ag_TargetTheme row = ru_TargetTheme r"
          "ag_MinRisks row = toInt32 (ru_MinRisks r)" "ag_MinTeams row = toInt32 (ru_MinTeams r)"
          "ag_WindowDays row = toInt32 (ru_WindowDays r)" "ag_ParentLevel row = ru_ParentLevel r"
          "ag_SeverityFunction row = ru_SeverityFunction r"
        by (auto simp: CreateAggregationRule_def jsonb_in_def Let_def simp del: jsonb.simps split: if_splits)
      have "rule_row_ok row" unfolding rule_row_ok_def
        using row True cols unmarshal_stored_rule [OF create(2)] by auto
      with au row show ?thesis by (elim audited_InrE) (auto intro!: created)
    qed (simp add: none)
  qed (use create none in \<open>simp add: ag_Create_def\<close>)
next
  case (activate env dbnow auditID i actor res)
  from activate [unfolded ag_Activate_def] show ?thesis
  proof (cases rule: inTx_cases)
    case (commit t a)
    then obtain r row db1 ev frm where r: "GetAggregationRuleByID t i db = Some r" "ag_Status r \<noteq> AgActive"
      and u: "ActivateAggregationRule dbnow t i (Some actor) db = Inr (row, db1)"
      and au: "audited dbnow auditID t ev actor frm AgActive row db1 = Inr (a, db')"
      by (auto split: option.splits if_splits sum.splits pg_error.splits)
    let ?f = "\<lambda>r. r\<lparr>ag_Status := AgActive, ag_ActivatedBy := Some actor, ag_ActivatedAt := Some (pgTime dbnow), ag_UpdatedAt := pgTime dbnow\<rparr>"
    have mem: "r \<in> set (db_agg_rules db)" "the_rule t i r" using r(1) by (auto simp: GetAggregationRuleByID_def dest: find_SomeD)
    then have ok: "rule_row_ok r" using assms(2) by (simp add: rule_inv_def)
    then have st: "ag_Status r \<in> {AgStaged, AgInactive}" using r(2) by (auto simp: rule_row_ok_def aggregation_rules_check_def)
    from u obtain r0 where u': "List.find (\<lambda>r. the_rule t i r \<and> ag_Status r \<in> {AgStaged, AgInactive}) (db_agg_rules db) = Some r0"
      "row = ?f r0" "aggregation_rules_check row"
      "db1 = db\<lparr>db_agg_rules := sql_update (\<lambda>r. the_rule t i r \<and> ag_Status r \<in> {AgStaged, AgInactive}) ?f (db_agg_rules db)\<rparr>"
      by (auto simp: ActivateAggregationRule_def sql_simps split: option.splits if_splits)
    have "r0 = r" using rule_unique [OF assms(2) r(1)] find_SomeD [OF u'(1)] by auto
    moreover have "sql_update (\<lambda>r. the_rule t i r \<and> ag_Status r \<in> {AgStaged, AgInactive}) ?f (db_agg_rules db) = sql_update (the_rule t i) ?f (db_agg_rules db)"
      using rule_unique [OF assms(2) r(1)] st by (intro sql_update_cong) auto
    moreover have "rule_edge (ag_Status r) AgActive" using st by (auto simp: rule_edge.simps)
    moreover have "rule_row_ok (?f r)" using ok u'(3) \<open>r0 = r\<close> u'(2) by (simp add: rule_row_ok_def)
    ultimately show ?thesis using r(1) u' au mem(2) by (elim audited_InrE) (rule moved [of t i r ?f], auto simp: the_rule_def)
  qed (simp add: none)
next
  case (deactivate env dbnow auditID i actor res)
  from deactivate [unfolded ag_Deactivate_def] show ?thesis
  proof (cases rule: inTx_cases)
    case (commit t a)
    then obtain r row db1 where r: "GetAggregationRuleByID t i db = Some r" "ag_Status r = AgActive"
      and u: "DeactivateAggregationRule dbnow t i db = Inr (row, db1)"
      and au: "audited dbnow auditID t ''deactivated'' actor (Some AgActive) AgInactive row db1 = Inr (a, db')"
      by (auto split: option.splits if_splits sum.splits pg_error.splits)
    let ?f = "\<lambda>r. r\<lparr>ag_Status := AgInactive, ag_UpdatedAt := pgTime dbnow\<rparr>"
    have mem: "r \<in> set (db_agg_rules db)" "the_rule t i r" using r(1) by (auto simp: GetAggregationRuleByID_def dest: find_SomeD)
    then have ok: "rule_row_ok r" using assms(2) by (simp add: rule_inv_def)
    from u obtain r0 where u': "List.find (\<lambda>r. the_rule t i r \<and> ag_Status r = AgActive) (db_agg_rules db) = Some r0"
      "row = ?f r0" "aggregation_rules_check row"
      "db1 = db\<lparr>db_agg_rules := sql_update (\<lambda>r. the_rule t i r \<and> ag_Status r = AgActive) ?f (db_agg_rules db)\<rparr>"
      by (auto simp: DeactivateAggregationRule_def sql_simps split: option.splits if_splits)
    have "r0 = r" using rule_unique [OF assms(2) r(1)] find_SomeD [OF u'(1)] by auto
    moreover have "sql_update (\<lambda>r. the_rule t i r \<and> ag_Status r = AgActive) ?f (db_agg_rules db) = sql_update (the_rule t i) ?f (db_agg_rules db)"
      using rule_unique [OF assms(2) r(1)] r(2) by (intro sql_update_cong) auto
    moreover have "rule_edge (ag_Status r) AgInactive" using r(2) by (auto simp: rule_edge.simps)
    moreover have "rule_row_ok (?f r)" using ok u'(3) \<open>r0 = r\<close> u'(2) by (simp add: rule_row_ok_def)
    ultimately show ?thesis using r(1) u' au mem(2) by (elim audited_InrE) (rule moved [of t i r ?f], auto simp: the_rule_def)
  qed (simp add: none)
next
  case (evaluate res env dbnow themes r)
  from evaluate [unfolded ag_Evaluate_def Engine_Evaluate_def] show ?thesis
    by (cases rule: inTx_cases) (auto intro!: none dest: evaluate_rules_keeps)
qed (rule none)

lemma ag_step_inv: "ag_step lib db db' \<Longrightarrow> rule_inv db \<Longrightarrow> rule_inv db'"
proof (erule (1) ag_step_cases, goal_cases)
  case (3 t i f r en)
  have "rule_row_ok x" if "x \<in> set (db_agg_rules db')" for x
    using that unfolding 3(3)
    by (rule in_sql_updateE) (use 3 rule_unique [OF 3(1,2)] in \<open>auto simp: rule_inv_def\<close>)
  moreover have "map ag_ID (db_agg_rules db') = map ag_ID (db_agg_rules db)"
    unfolding 3(3) by (rule map_sql_update_frame) (simp add: 3(7))
  ultimately show ?case using 3 by (auto simp: rule_inv_def)
qed (auto simp: rule_inv_def)

lemma rule_trail_snoc:
  "db_agg_audit db' = db_agg_audit db @ [en] \<Longrightarrow>
     rule_trail_of db' k = rule_trail_of db k @ (if aal_TenantID en = fst k \<and> aal_RuleID en = snd k then [the (aal_ToStatus en)] else [])"
  by (simp add: rule_trail_of_def)

lemma rule_edge_irrefl: "rule_edge a b \<Longrightarrow> a \<noteq> b"
  by (auto simp: rule_edge.simps ag_status_defs)

lemma ag_step_law:
  assumes "ag_step lib db db'" "rule_inv db"
  shows "(rule_status_of db' k = rule_status_of db k \<and> rule_trail_of db' k = rule_trail_of db k)
    \<or> (\<exists>s'. rule_status_of db' k = Some s' \<and> rule_status_of db' k \<noteq> rule_status_of db k
          \<and> (case rule_status_of db k of None \<Rightarrow> s' = AgStaged | Some s \<Rightarrow> rule_edge s s')
          \<and> rule_trail_of db' k = rule_trail_of db k @ [s'])"
  using assms
proof (cases rule: ag_step_cases)
  case none
  then show ?thesis by (simp add: rule_status_of_def rule_trail_of_def GetAggregationRuleByID_def)
next
  case (created row en)
  note tr = rule_trail_snoc [OF created(2), of k]
  show ?thesis
  proof (cases "k = (ag_TenantID row, ag_ID row)")
    case True
    then have "GetAggregationRuleByID (fst k) (snd k) db = None"
      using created(5) by (auto simp: GetAggregationRuleByID_def find_None_iff the_rule_def intro: rev_image_eqI)
    with True created tr show ?thesis
      by (simp add: rule_status_of_def GetAggregationRuleByID_def find_append_new the_rule_def)
  next
    case False
    then have "GetAggregationRuleByID (fst k) (snd k) db' = GetAggregationRuleByID (fst k) (snd k) db"
      by (cases k) (auto simp: GetAggregationRuleByID_def created(1) sql_simps the_rule_def split: option.splits)
    with False created tr show ?thesis by (cases k) (auto simp: rule_status_of_def)
  qed
next
  case (moved t i f r en)
  let ?g = "\<lambda>x. if the_rule t i x then f x else x"
  let ?find = "GetAggregationRuleByID (fst k) (snd k) db"
  note tr = rule_trail_snoc [OF moved(3), of k]
  have "List.find (the_rule (fst k) (snd k)) (map ?g (db_agg_rules db)) = map_option ?g ?find"
    unfolding GetAggregationRuleByID_def using moved(6) by (intro find_map_key) (auto simp: the_rule_def)
  then have st: "rule_status_of db' k = map_option (\<lambda>x. ag_Status (?g x)) ?find"
    by (simp add: rule_status_of_def GetAggregationRuleByID_def moved(2) sql_update_def option.map_comp o_def)
  have "the_rule t i r" using moved(1) by (auto simp: GetAggregationRuleByID_def dest: find_SomeD)
  show ?thesis
  proof (cases "k = (t, i)")
    case True
    then have "rule_status_of db' k = Some (ag_Status (f r))" "rule_status_of db k = Some (ag_Status r)"
      using st moved(1) \<open>the_rule t i r\<close> by (simp_all add: rule_status_of_def)
    with True moved(4,7-9) tr rule_edge_irrefl [OF moved(4)] show ?thesis by auto
  next
    case False
    then have "ag_Status (?g x) = ag_Status x" if "?find = Some x" for x
      using that find_SomeD [of "the_rule (fst k) (snd k)" "db_agg_rules db" x] by (cases k) (auto simp: GetAggregationRuleByID_def the_rule_def)
    then have "rule_status_of db' k = rule_status_of db k" using st by (cases ?find) (simp_all add: rule_status_of_def)
    with False moved(7,8) tr show ?thesis by (cases k) auto
  qed
qed

interpretation agg_rule: audited_lifecycle "ag_step lib" rule_inv rule_status_of rule_edge AgStaged rule_trail_of
  for lib :: agg_lib
proof (unfold_locales, goal_cases)
  case (1 db db')
  then show ?case by (rule ag_step_inv)
next
  case (2 db db' k)
  with ag_step_law [OF 2(1,2), of k] show ?case by auto
next
  case (3 db db' k)
  from ag_step_law [OF 3, of k] show ?case by auto
qed

text \<open>
  A rule runs only after a named actor has activated it: an active rule has an activation in the audit
  log, and over any run the log of a rule is a walk from staged to its status that only grows.
\<close>

theorem rule_activation_gate:
  assumes "(ag_step lib)\<^sup>*\<^sup>* db db'" "rule_inv db" "\<And>k. recorded rule_edge AgStaged (rule_status_of db k) (rule_trail_of db k)"
  shows "rule_inv db' \<and> prefix (rule_trail_of db k) (rule_trail_of db' k)
    \<and> recorded rule_edge AgStaged (rule_status_of db' k) (rule_trail_of db' k)
    \<and> (\<forall>t r. r \<in> set (ListActiveAggregationRules t db') \<longrightarrow> ag_ActivatedAt r \<noteq> None
         \<and> (\<exists>a \<in> set (db_agg_audit db'). aal_TenantID a = t \<and> aal_RuleID a = ag_ID r \<and> aal_ToStatus a = Some AgActive \<and> aal_Actor a \<noteq> []))"
proof (intro conjI allI impI)
  show inv: "rule_inv db'" using agg_rule.run_inv [OF assms(1,2)] .
  show "prefix (rule_trail_of db k) (rule_trail_of db' k)" using agg_rule.run_trail_grows [OF assms(1,2)] .
  have rec: "recorded rule_edge AgStaged (rule_status_of db' k) (rule_trail_of db' k)" for k
    using agg_rule.run_recorded [OF assms(1,2,3)] .
  then show "recorded rule_edge AgStaged (rule_status_of db' k) (rule_trail_of db' k)" .
  fix t r assume "r \<in> set (ListActiveAggregationRules t db')"
  then have r: "r \<in> set (db_agg_rules db')" "ag_TenantID r = t" "ag_Status r = AgActive" by (auto simp: ListActiveAggregationRules_def)
  then have "rule_row_ok r" using inv by (simp add: rule_inv_def)
  then show "ag_ActivatedAt r \<noteq> None" using r(3) by (simp add: rule_row_ok_def aggregation_rules_check_def ag_status_defs)
  have "GetAggregationRuleByID t (ag_ID r) db' = Some r"
    unfolding GetAggregationRuleByID_def using r inv by (intro find_eq_unique [of ag_ID]) (auto simp: rule_inv_def the_rule_def)
  then have "rule_status_of db' (t, ag_ID r) = Some AgActive" using r(3) by (simp add: rule_status_of_def)
  then have "AgActive \<in> set (rule_trail_of db' (t, ag_ID r))" using rec [of "(t, ag_ID r)"] last_in_set by (fastforce simp: recorded_def)
  then obtain a where "a \<in> set (db_agg_audit db')" "aal_TenantID a = t" "aal_RuleID a = ag_ID r" "AgActive = the (aal_ToStatus a)"
    by (auto simp: rule_trail_of_def)
  then show "\<exists>a \<in> set (db_agg_audit db'). aal_TenantID a = t \<and> aal_RuleID a = ag_ID r \<and> aal_ToStatus a = Some AgActive \<and> aal_Actor a \<noteq> []"
    using inv by (intro bexI [of _ a]) (auto simp: rule_inv_def)
qed


section \<open>A rule that fires\<close>

lemma linkChildren_ok:
  "m \<notin> set cs \<Longrightarrow> has_risk t m db \<Longrightarrow> \<forall>c \<in> set cs. has_risk t c db \<Longrightarrow> \<exists>db'. linkChildren dbnow t m rid cs db = Inr db'"
proof (induction cs arbitrary: db)
  case (Cons c cs)
  then have "\<exists>db1. LinkRiskAggregation dbnow m c (Some rid) t db = Inr db1" by (simp add: LinkRiskAggregation_def GetRiskByID_iff)
  then obtain db1 where l: "LinkRiskAggregation dbnow m c (Some rid) t db = Inr db1" by blast
  then have "has_risk t' i db1 = has_risk t' i db" for t' i by (cases rule: LinkRiskAggregation_cases) simp_all
  with Cons l show ?case by simp
qed simp

lemma upsert_ok:
  assumes j: "jsonb_in (gl_score lib) (Some (meta_inherent lib rule key ws sev l i n)) = Some j"
    and new: "GetRuleMetaRiskByKey t key db = None \<Longrightarrow> re_metaID re \<notin> rk_ID ` set (db_risk_rows db) \<and> category \<in> risk_categories
      \<and> ru_ParentLevel rule \<in> risk_levels \<and> jsonb_in (gl_score lib) (Some (RObj [])) \<noteq> None"
    and old: "\<And>e. GetRuleMetaRiskByKey t key db = Some e \<Longrightarrow> rk_ID e \<notin> set cs"
    and cs: "\<forall>c \<in> set cs. has_risk t c db"
  shows "\<exists>m db'. upsertMetaRisk lib re dbnow t rule rid key ws sev l i n category themes cs db = Inr (m, db')"
proof (cases "GetRuleMetaRiskByKey t key db")
  case None
  note new = new [OF None]
  obtain k where k: "jsonb_in (gl_score lib) (Some (RObj [])) = Some k" using new by blast
  have "RiskMethodologyQualitative5x5 \<in> risk_methodologies" "RiskTreatmentAvoid \<in> risk_treatments"
    by (simp_all add: risk_methodologies_def risk_treatments_def)
  then obtain row where row: "CreateAggregateRisk (gl_score lib) dbnow (re_metaID re) t (Title rule)
                  (gl_describe lib (ru_RuleID rule) n (ru_SeverityFunction rule)) category
                  RiskMethodologyQualitative5x5 (Some (meta_inherent lib rule key ws sev l i n)) RiskTreatmentAvoid [] (Some (RObj [])) [] []
                  (ru_ParentLevel rule) None themes db = Inr (row, db\<lparr>db_risk_rows := db_risk_rows db @ [row]\<rparr>)" "rk_ID row = re_metaID re" "rk_TenantID row = t"
    using new by (simp add: CreateAggregateRisk_def j k insert_risk_def risks_check_def)
  have "\<exists>db'. linkChildren dbnow t (re_metaID re) rid cs (db\<lparr>db_risk_rows := db_risk_rows db @ [row]\<rparr>) = Inr db'"
    using new cs row(2,3) has_risk_id by (intro linkChildren_ok) (fastforce simp: has_risk_def)+
  with row show ?thesis by (auto simp: upsertMetaRisk_def Let_def None)
next
  case (Some e)
  have e: "e \<in> set (db_risk_rows db)" "rk_TenantID e = t" using Some by (auto simp: GetRuleMetaRiskByKey_def dest: find_SomeD)
  let ?rows = "set_meta dbnow t (rk_ID e) j (db_risk_rows db)"
  have "List.find (\<lambda>r. rk_TenantID r = t \<and> rk_ID r = rk_ID e) (db_risk_rows db) \<noteq> None" using e by (auto simp: find_None_iff)
  then have u: "\<exists>r. UpdateMetaRiskInherentScore (gl_score lib) dbnow t (rk_ID e) (meta_inherent lib rule key ws sev l i n) db
      = Inr (r, db\<lparr>db_risk_rows := ?rows\<rparr>)"
    by (auto simp: UpdateMetaRiskInherentScore_def j sql_update_one_def set_meta_def)
  have "map (\<lambda>r. (rk_TenantID r, rk_ID r)) ?rows = map (\<lambda>r. (rk_TenantID r, rk_ID r)) (db_risk_rows db)"
    unfolding set_meta_def by (rule map_sql_update_frame) simp
  then have has: "has_risk t' i' (db\<lparr>db_risk_rows := ?rows\<rparr>) = has_risk t' i' db" for t' i'
    by (simp only: has_risk_keys) simp
  have "has_risk t (rk_ID e) db" using e by (auto simp: has_risk_def)
  then have "\<exists>db'. linkChildren dbnow t (rk_ID e) rid cs (db\<lparr>db_risk_rows := ?rows\<rparr>) = Inr db'"
    using old [OF Some] cs by (intro linkChildren_ok) (simp_all add: has)
  with u show ?thesis by (auto simp: upsertMetaRisk_def Let_def Some)
qed

lemma meta_category_cases: "meta_category cs = ''operational'' \<or> meta_category cs \<in> rk_Category ` set cs"
proof (cases "filter (\<lambda>x. x \<noteq> []) (map rk_Category cs)")
  case (Cons x xs)
  then have "x \<in> set (filter (\<lambda>x. x \<noteq> []) (map rk_Category cs))" by (simp del: set_filter)
  then have "x \<in> rk_Category ` set cs" by simp
  with Cons show ?thesis by (simp add: meta_category_def)
qed (simp add: meta_category_def)

text \<open>A rule with a built-in severity function fires whenever its thresholds are met.\<close>

lemma evaluateRule_fires:
  assumes "engine_ready lib t db" "unmarshal_rule (ag_RuleBody row) = Some rule" "kids = rule_children lib t row (re_now re) db"
    and fires: "rule_outcome lib row kids = ''fired''" "kids \<noteq> []"
    and fn: "ru_SeverityFunction rule \<in> {SeverityFunctionMax, SeverityFunctionWeightedMax, SeverityFunctionSum}"
    and lib: "\<And>x. sl_jsonb_ok (gl_score lib) x" and level: "ru_ParentLevel rule \<in> risk_levels"
    and cat: "\<And>r. r \<in> set (db_risk_rows db) \<Longrightarrow> rk_Category r \<in> risk_categories"
    and fresh: "re_metaID re \<notin> rk_ID ` set (db_risk_rows db)" "re_evalID re \<notin> ae_ID ` set (db_agg_evaluations db)"
    and fk: "rule_fk t (ag_ID row) db"
  shows "\<exists>ev m db'. evaluateRule lib re dbnow t row db = Inr (ev, db') \<and> evl_MetaRiskID ev = Some m
    \<and> m = (case GetRuleMetaRiskByKey t (windowKey lib (ag_ID row) (window_start row (re_now re))) db of None \<Rightarrow> re_metaID re | Some e \<Rightarrow> rk_ID e)"
proof -
  let ?ws = "window_start row (re_now re)" and ?rows = "map snd kids"
  let ?key = "windowKey lib (ag_ID row) ?ws"
  have kids: "scored_children (gl_score lib) (ListCandidateRisksForRule t (ru_TargetTheme rule) ?ws db) = kids"
    using assms(2,3) by (simp add: rule_children_def)
  have own: "c \<in> set (own_risks db) \<and> rk_TenantID c = t" if "c \<in> set ?rows" for c
    using that rule_children_mem(1,2) [of _ c lib t row "re_now re" db] by (auto simp: assms(3))
  obtain sev where sev: "ComputeRuleSeverity lib (ru_SeverityFunction rule) (map fst kids) (ru_CustomRego rule) = Inr sev"
    using fn fires(2) by (auto simp: ComputeRuleSeverity_def ComputeSeverity_def Let_def SeverityFunctionMax_def
        SeverityFunctionWeightedMax_def SeverityFunctionSum_def)
  have cat': "meta_category ?rows \<in> risk_categories"
    using meta_category_cases [of ?rows]
  proof
    assume "meta_category ?rows \<in> rk_Category ` set ?rows"
    then obtain c where "c \<in> set ?rows" "meta_category ?rows = rk_Category c" by (rule imageE)
    with own [of c] cat [of c] show ?thesis by (simp add: own_risks_def)
  qed (simp add: risk_categories_def)
  have has: "\<forall>c \<in> set (map rk_ID ?rows). has_risk t c db" using own by (force simp: has_risk_def own_risks_def)
  have old: "rk_ID e \<notin> set (map rk_ID ?rows)" if "GetRuleMetaRiskByKey t ?key db = Some e" for e
  proof
    assume "rk_ID e \<in> set (map rk_ID ?rows)"
    then obtain c where c: "c \<in> set ?rows" "rk_ID c = rk_ID e" by force
    have "c = e"
      by (rule distinct_key_unique [of rk_ID "db_risk_rows db"])
        (use assms(1) own [OF c(1)] c(2) find_meta(1) [OF that assms(1)] in \<open>simp_all add: engine_ready_def own_risks_def\<close>)
    with own [OF c(1)] find_meta(2) [OF that assms(1)] show False by (simp add: own_risks_def)
  qed
  have j: "jsonb_in (gl_score lib) (Some x) = Some (jsonb x)" for x by (simp add: jsonb_in_def lib del: jsonb.simps)
  have "\<exists>m db1. upsertMetaRisk lib re dbnow t rule (ag_ID row) ?key ?ws sev (fst (DeriveGridCell (gl_score lib) sev))
      (snd (DeriveGridCell (gl_score lib) sev)) (length kids) (meta_category ?rows) (re_order re (remdups (concat (map rk_Themes ?rows))))
      (map rk_ID ?rows) db = Inr (m, db1)"
    by (rule upsert_ok [OF j _ old has]) (simp_all add: j cat' fresh(1) level del: jsonb.simps)
  then obtain m db1 where up: "upsertMetaRisk lib re dbnow t rule (ag_ID row) ?key ?ws sev (fst (DeriveGridCell (gl_score lib) sev))
      (snd (DeriveGridCell (gl_score lib) sev)) (length kids) (meta_category ?rows) (re_order re (remdups (concat (map rk_Themes ?rows))))
      (map rk_ID ?rows) db = Inr (m, db1)" by blast
  then have m: "m = (case GetRuleMetaRiskByKey t ?key db of None \<Rightarrow> re_metaID re | Some e \<Rightarrow> rk_ID e)"
    by (elim upsertMetaRisk_cases) auto
  from up obtain rows aggs where db1: "db1 = db\<lparr>db_risk_rows := rows, db_risk_aggregations := aggs\<rparr>" by (rule upsertMetaRisk_cases)
  have thr: "ag_MinRisks row \<le> int (length kids)" "ag_MinTeams row \<le> int (team_count lib kids)"
    using fires(1) by (auto simp: rule_outcome_def Let_def split: if_splits)
  have "\<exists>ev db'. writeEvaluation re dbnow t (ag_ID row) ''fired'' (int (length kids)) (int (team_count lib kids)) (Some ?ws) (Some m) db1
      = Inr (ev, db') \<and> evl_MetaRiskID ev = Some m"
    using fresh(2) fk toInt32_nonneg [of "int (length kids)"] toInt32_nonneg [of "int (team_count lib kids)"]
    by (simp add: writeEvaluation_def WriteAggregationRuleEvaluation_def Let_def db1 rule_fk_def GetAggregationRuleByID_def)
  moreover have "evaluateRule lib re dbnow t row db =
      writeEvaluation re dbnow t (ag_ID row) ''fired'' (int (length kids)) (int (team_count lib kids)) (Some ?ws) (Some m) db1"
    using thr by (simp only: evaluateRule_def assms(2) option.case Let_def kids team_count_eq flip: team_count_def)
      (simp only: sev sum.case case_prod_beta up fst_conv snd_conv simp_thms if_False)
  ultimately show ?thesis using m by auto
qed


section \<open>An example\<close>

definition demo_rule :: Rule where
  "demo_rule = \<lparr>ru_RuleID = ''r'', ru_TargetTheme = ''own'', ru_MinRisks = 1, ru_MinTeams = 1, ru_WindowDays = 1, ru_ParentLevel = ''org'',
     ru_SeverityFunction = SeverityFunctionMax, ru_TitleTemplate = [], ru_CustomRego = []\<rparr>"

definition demo_rule_row :: agg_rule_row where
  "demo_rule_row = \<lparr>ag_ID = 50, ag_TenantID = 1, ag_RuleID = ''r'', ag_TargetTheme = ''own'', ag_MinRisks = 1, ag_MinTeams = 1,
     ag_WindowDays = 1, ag_ParentLevel = ''org'', ag_SeverityFunction = SeverityFunctionMax, ag_RuleBody = jsonb (CanonicalJSON demo_rule),
     ag_Status = AgActive, ag_ActivatedBy = Some ''ann'', ag_ActivatedAt = Some 0, ag_CreatedAt = 0, ag_UpdatedAt = 0\<rparr>"

definition demo_agg_lib :: agg_lib where
  "demo_agg_lib = \<lparr>gl_score = demo_score_lib, gl_describe = (\<lambda>_ _ _. []),
     gl_rego = (\<lambda>_ _ _. RegoFails)\<rparr>"

definition demo_env_at :: "gotime \<Rightarrow> uuid \<Rightarrow> uuid \<Rightarrow> rule_env" where
  "demo_env_at now m e = \<lparr>re_now = now, re_metaID = m, re_evalID = e, re_order = id\<rparr>"

definition demo_own :: "uuid \<Rightarrow> risk_row" where
  "demo_own i = (demo_risk_row i 3 0)\<lparr>rk_Themes := [''own''], rk_CreatedAt := days 1\<rparr>"

definition demo_agg_db :: "agg_db" where
  "demo_agg_db = \<lparr>db_dimensions = [], db_cells = [], db_controls = [], db_evidence = [], db_evaluations = [], db_org_units = [],
     db_risk_rows = [demo_own 7], db_risk_links = [], db_risk_aggregations = [], db_org_themes = [], db_agg_rules = [demo_rule_row],
     db_agg_evaluations = [], db_agg_audit = []\<rparr>"

lemma demo_rule_stored: "unmarshal_rule (ag_RuleBody demo_rule_row) = Some demo_rule"
  by (simp add: demo_rule_row_def unmarshal_stored_rule rule_int64_def demo_rule_def del: jsonb.simps)

lemma demo_window: "window_start demo_rule_row (days 1) = 0" "window_start demo_rule_row (days 2) = days 1"
  by (simp_all add: window_start_def demo_rule_row_def dayFloorUTC_def days_def hours_def)

lemma demo_score_members:
  obtains ms where "jsonb (demo_score l s) = RObj ms" "members ms = map_option jsonb \<circ> members [(''likelihood'', RNum l s), (''impact'', RNum 4 0)]"
  unfolding demo_score_def by (rule jsonb_ObjE)

lemma demo_own_score:
  "json_text (rk_InherentScore (demo_own i)) ''aggregation_key'' = None" "\<not> generated (demo_own i)"
  "severityFromInherent demo_score_lib (rk_InherentScore (demo_own i)) = Some 12"
proof -
  obtain ms where ms: "jsonb (demo_score 3 0) = RObj ms" "members ms = map_option jsonb \<circ> members [(''likelihood'', RNum 3 0), (''impact'', RNum 4 0)]"
    by (rule demo_score_members)
  have inh: "rk_InherentScore (demo_own i) = RObj ms" by (simp add: demo_own_def demo_risk_row_def ms(1))
  have "go_numbers (jsonb (demo_score 3 0))" by (rule go_numbers_jsonb) (simp add: demo_score_def)
  then have u: "unmarshal_map (RObj ms) = Some (map_option jsonb \<circ> members [(''likelihood'', RNum 3 0), (''impact'', RNum 4 0)])"
    by (simp add: ms)
  show "json_text (rk_InherentScore (demo_own i)) ''aggregation_key'' = None"
    by (simp add: json_text_def inh ms(2)) (simp add: strField_def members_def)
  show "\<not> generated (demo_own i)" unfolding generated_def isRuleGenerated_def inh u by (simp add: members_def)
  show "severityFromInherent demo_score_lib (rk_InherentScore (demo_own i)) = Some 12"
    unfolding severityFromInherent_def inh u by (simp add: numField_def members_def int64_id)
qed

lemma demo_own_columns [simp]:
  "rk_ID (demo_own i) = i" "rk_TenantID (demo_own i) = 1" "rk_Themes (demo_own i) = [''own'']" "rk_CreatedAt (demo_own i) = days 1"
  "rk_Methodology (demo_own i) = RiskMethodologyQualitative5x5" "rk_Category (demo_own i) = ''availability''"
  by (simp_all add: demo_own_def demo_risk_row_def)

lemma demo_own_ok: "risk_row_ok (demo_own i)"
  using demo_two_inv(1) by (simp add: risk_shape_def risk_row_ok_def risks_check_def demo_own_def demo_risk_row_def del: jsonb.simps)

lemma demo_ready: "engine_ready demo_agg_lib 1 demo_agg_db" "risk_inv demo_agg_db" "rule_fk 1 50 demo_agg_db"
  by (simp_all add: engine_ready_def own_risks_def demo_agg_db_def demo_own_score risk_shape_def demo_own_ok rolls_up_def acyclic_def
      rule_fk_def GetAggregationRuleByID_def the_rule_def demo_rule_row_def del: jsonb.simps)

text \<open>The children of the rule, in a database where the listed risks are the ones that no rule made.\<close>

lemma demo_children:
  assumes "own_risks db = map demo_own is" "sorted is" "now \<in> {days 1, days 2}"
  shows "rule_children demo_agg_lib 1 demo_rule_row now db = map (\<lambda>i. (12, demo_own i)) is"
proof -
  have ws: "pgTime (window_start demo_rule_row now) \<le> days 1" using assms(3) demo_window by (auto simp: pgTime_def days_def hours_def)
  have "sort_key (\<lambda>r. (rk_CreatedAt r, rk_ID r)) (map demo_own is) = map demo_own is"
    using assms(2) by (intro sort_key_id_if_sorted) (simp add: sorted_map sorted_wrt_map)
  then show ?thesis using ws
    by (simp add: rule_children_def demo_rule_stored scored_candidates assms(1) demo_agg_lib_def demo_own_score List.map_filter_def
        demo_rule_def comp_def)
qed


subsection \<open>A parent that is aggregated by hand\<close>

lemma stored_aggregate_own:
  assumes "jsonb_in lib (Some (aggregate_inherent l i s fn n key)) = Some j" "n \<le> 2 ^ 53" "l \<in> {1..5}" "i \<in> {1..5}" "0 \<le> s" "s \<le> 25"
  shows "\<not> isRuleGenerated j" "severityFromInherent lib j \<noteq> None"
proof -
  let ?ms = "[(''aggregation_key'', RStr key), (''child_count'', json_int (int n)), (''impact'', json_int i),
           (''likelihood'', json_int l), (''severity'', json_int s), (''severity_function'', RStr fn)]"
  obtain ms where ms: "j = RObj ms" "members ms = map_option jsonb \<circ> members ?ms"
    using jsonb_ObjE [of ?ms] assms(1) by (auto simp: jsonb_in_def aggregate_inherent_def split: if_splits)
  have "score_ok RiskMethodologyQualitative5x5 j"
    using score_ok_jsonb [OF aggregate_score_ok [OF assms(3-6,2)]] assms(1) by (auto simp: jsonb_in_def split: if_splits)
  then have "go_numbers j" by (auto simp: score_ok_def)
  then have u: "unmarshal_map j = Some (map_option jsonb \<circ> members ?ms)" using ms by simp
  have n: "go_number s 0 = Some (of_int s)" using assms(5,6) by (auto intro!: go_number_int)
  show "\<not> isRuleGenerated j" unfolding isRuleGenerated_def u by (simp add: members_def json_int_def)
  show "severityFromInherent lib j \<noteq> None" unfolding severityFromInherent_def u
    by (simp add: numField_def members_def json_int_def n)
qed

lemma aggregate_new_parent:
  assumes "aggregate_new lib describe dbnow p inp children key t db = Inr (res, db')" "length children \<le> 2 ^ 53"
  obtains row new where "db' = db\<lparr>db_risk_rows := db_risk_rows db @ [row], db_risk_aggregations := db_risk_aggregations db @ new\<rparr>"
    "rk_ID row = p" "p \<notin> rk_ID ` set (db_risk_rows db)" "rk_TenantID row = t" "rk_Methodology row = RiskMethodologyQualitative5x5"
    "rk_Themes row = normaliseThemes lib (concat (map rk_Themes (ListRisksByIDs t children db)))" "rk_CreatedAt row = pgTime dbnow"
    "json_text (rk_InherentScore row) ''aggregation_key'' = Some key" "\<not> generated row"
    "severityFromInherent lib (rk_InherentScore row) \<noteq> None" "rolls_up db' = rolls_up db \<union> {p} \<times> set children" "rk_Category row \<in> risk_categories"
proof -
  from assms(1) obtain scores severity row db1 where
    sev: "ComputeSeverity lib (ai_SeverityFunction inp) scores = Inr severity"
    and c: "CreateAggregateRisk lib dbnow p t (ai_ParentTitle inp) (describe (length children) (ai_SeverityFunction inp))
        (rk_Category (hd (ListRisksByIDs t children db))) RiskMethodologyQualitative5x5
        (Some (aggregate_inherent (fst (DeriveGridCell lib severity)) (snd (DeriveGridCell lib severity)) severity
          (ai_SeverityFunction inp) (length children) key)) RiskTreatmentAvoid [] (Some (RObj [])) [] []
        (ai_ParentLevel inp) (ai_ParentOrgUnitID inp)
        (normaliseThemes lib (concat (map rk_Themes (ListRisksByIDs t children db)))) db = Inr (row, db1)"
    and l: "link_children dbnow p t children db1 = Inr db'"
    by (auto simp: aggregate_new_def Let_def split: if_splits sum.splits prod.splits)
  have s: "0 \<le> severity" "severity \<le> SeverityScaleMax" using ComputeSeverity_bounds [OF sev] by simp_all
  from c obtain j where j: "jsonb_in lib (Some (aggregate_inherent (fst (DeriveGridCell lib severity)) (snd (DeriveGridCell lib severity)) severity
          (ai_SeverityFunction inp) (length children) key)) = Some j" "rk_Methodology row = RiskMethodologyQualitative5x5"
    "rk_InherentScore row = j" "rk_TenantID row = t" "rk_ID row = p" and ins: "insert_risk row db = Inr (row, db1)"
    by (rule CreateAggregateRisk_InrE)
  note cell = DeriveGridCell_range [OF s, of lib]
  have s25: "severity \<le> 25" using s by (simp add: SeverityScaleMax_def)
  note st = stored_aggregate(1) [OF j(1) assms(2) cell s(1) s25] stored_aggregate_own [OF j(1) assms(2) cell s(1) s25]
  from ins have db1: "db1 = db\<lparr>db_risk_rows := db_risk_rows db @ [row]\<rparr>" "rk_ID row \<notin> rk_ID ` set (db_risk_rows db)" "rk_Category row \<in> risk_categories"
    by (auto elim: insert_risk_InrE)
  from link_children_effect [OF l] obtain new where "db' = db1\<lparr>db_risk_aggregations := db_risk_aggregations db1 @ new\<rparr>"
    "rolls_up db' = rolls_up db1 \<union> {p} \<times> set children" by blast
  with db1 j st CreateAggregateRisk_row [OF c] show ?thesis
    by (intro that [where row = row and new = new]) (simp_all add: generated_def)
qed


subsection \<open>The example runs\<close>

lemma demo_fires:
  assumes "engine_ready demo_agg_lib 1 db" "risk_inv db" "rule_children demo_agg_lib 1 demo_rule_row (re_now re) db \<noteq> []"
    "db_agg_rules db = [demo_rule_row]" "re_metaID re \<notin> rk_ID ` set (db_risk_rows db)" "re_evalID re \<notin> ae_ID ` set (db_agg_evaluations db)"
  shows "\<exists>ev db'. evaluateRule demo_agg_lib re dbnow 1 demo_rule_row db = Inr (ev, db') \<and> evl_MetaRiskID ev =
    Some (case GetRuleMetaRiskByKey 1 (windowKey demo_agg_lib 50 (window_start demo_rule_row (re_now re))) db of None \<Rightarrow> re_metaID re | Some e \<Rightarrow> rk_ID e)"
proof -
  let ?kids = "rule_children demo_agg_lib 1 demo_rule_row (re_now re) db"
  have cols: "ag_ID demo_rule_row = 50" "ag_MinRisks demo_rule_row = 1" "ag_MinTeams demo_rule_row = 1" "ag_TenantID demo_rule_row = 1"
    by (simp_all add: demo_rule_row_def)
  have "1 \<le> length ?kids" "1 \<le> team_count demo_agg_lib ?kids"
    using assms(3) by (simp_all add: team_count_def Suc_le_eq card_gt_0_iff)
  then have "rule_outcome demo_agg_lib demo_rule_row ?kids = ''fired''" by (simp add: rule_outcome_def Let_def cols)
  moreover have "rk_Category r \<in> risk_categories" if "r \<in> set (db_risk_rows db)" for r
    using that assms(2) by (simp add: risk_shape_def risk_row_ok_def)
  moreover have "rule_fk 1 50 db" using assms(4) cols by (simp add: rule_fk_def GetAggregationRuleByID_def the_rule_def)
  moreover have "sl_jsonb_ok (gl_score demo_agg_lib) x" for x by (simp add: demo_agg_lib_def demo_score_lib_def)
  ultimately show ?thesis
    using evaluateRule_fires [OF assms(1) demo_rule_stored refl _ assms(3) _ _ _ _ assms(5,6), of dbnow] cols(1)
    by (simp add: demo_rule_def risk_levels_def)
qed

definition demo_res :: "uuid \<Rightarrow> rule_env" where
  "demo_res _ = demo_env_at (days 1) 9 60"

lemma demo_db_columns [simp]:
  "own_risks demo_agg_db = [demo_own 7]" "db_risk_rows demo_agg_db = [demo_own 7]" "db_agg_rules demo_agg_db = [demo_rule_row]"
  "db_agg_evaluations demo_agg_db = []" "GetRuleMetaRiskByKey t key demo_agg_db = None" "rolls_up demo_agg_db = {}"
  by (simp_all add: own_risks_def demo_agg_db_def demo_own_score GetRuleMetaRiskByKey_def rolls_up_def del: jsonb.simps)

lemma demo_env_at_simps [simp]:
  "re_now (demo_env_at n m e) = n" "re_metaID (demo_env_at n m e) = m" "re_evalID (demo_env_at n m e) = e" "re_order (demo_env_at n m e) xs = xs"
  by (simp_all add: demo_env_at_def)

lemma demo_first:
  obtains ev db1 where "evaluateRule demo_agg_lib (demo_env_at (days 1) 9 60) (days 1) 1 demo_rule_row demo_agg_db = Inr (ev, db1)"
    "evl_MetaRiskID ev = Some 9"
  using demo_fires [OF demo_ready(1,2), of "demo_env_at (days 1) 9 60" "days 1"] demo_children [of demo_agg_db "[7]" "days 1"] by auto

theorem engine_run_exact_witness:
  "\<exists>ev db'. ag_Evaluate demo_agg_lib demo_res demo_env (days 1) [] demo_agg_db = (Inr [ev], db') \<and> evl_Outcome ev = ''fired''
     \<and> evl_RiskCount ev = 1 \<and> db_agg_evaluations db' = [evaluation_row (days 1) 1 ev] \<and> own_risks db' = [demo_own 7] \<and> db_agg_rules db' = [demo_rule_row]"
proof -
  obtain ev db' where ev: "evaluateRule demo_agg_lib (demo_env_at (days 1) 9 60) (days 1) 1 demo_rule_row demo_agg_db = Inr (ev, db')"
    "evl_MetaRiskID ev = Some 9" by (rule demo_first)
  have l: "ListActiveAggregationRules 1 demo_agg_db = [demo_rule_row]"
    by (simp add: ListActiveAggregationRules_def) (simp add: demo_rule_row_def)
  then have run: "ag_Evaluate demo_agg_lib demo_res demo_env (days 1) [] demo_agg_db = (Inr [ev], db')"
    using ev by (simp add: ag_Evaluate_def Engine_Evaluate_def inTx_run triggered_def demo_res_def)
  note ex = engine_run_exact [OF run demo_env_simps(1) demo_ready(1)]
  then have fr: "engine_frame 1 demo_agg_db db'" by (simp add: Let_def)
  have "reported demo_agg_lib (demo_env_at (days 1) 9 60) (days 1) 1 demo_agg_db db' demo_rule_row ev"
    using ex by (simp add: Let_def l triggered_def demo_res_def)
  then have "evl_Outcome ev = ''fired''" "evl_RiskCount ev = 1"
    using ev(2) demo_children [of demo_agg_db "[7]" "days 1"] by (auto simp: reported_def Let_def outcome_of_def)
  with run ex fr engine_frame_rules [OF fr] show ?thesis by (auto simp: Let_def engine_frame_def)
qed

theorem meta_risk_per_window_witness:
  "\<exists>ev db1 ev' db2 ev'' db3. evaluateRule demo_agg_lib (demo_env_at (days 1) 9 60) (days 1) 1 demo_rule_row demo_agg_db = Inr (ev, db1)
     \<and> evaluateRule demo_agg_lib (demo_env_at (days 1) 11 61) (days 1) 1 demo_rule_row db1 = Inr (ev', db2) \<and> evl_MetaRiskID ev' = evl_MetaRiskID ev
     \<and> length (db_risk_rows db2) = length (db_risk_rows db1)
     \<and> evaluateRule demo_agg_lib (demo_env_at (days 2) 10 62) (days 2) 1 demo_rule_row db1 = Inr (ev'', db3) \<and> evl_MetaRiskID ev'' \<noteq> evl_MetaRiskID ev
     \<and> length (db_risk_rows db3) = Suc (length (db_risk_rows db1))"
proof -
  obtain ev db1 where ev: "evaluateRule demo_agg_lib (demo_env_at (days 1) 9 60) (days 1) 1 demo_rule_row demo_agg_db = Inr (ev, db1)"
    "evl_MetaRiskID ev = Some 9" by (rule demo_first)
  from ev(1) demo_ready(1) have db1: "engine_ready demo_agg_lib 1 db1" "engine_frame 1 demo_agg_db db1"
    "db_agg_evaluations db1 = [evaluation_row (days 1) 1 ev]" by (rule evaluateRule_frame; simp)+
  have id: "evl_ID ev = 60" using ev(1) by (rule evaluateRule_cases) (auto simp: outcome_of_def)
  have inv: "risk_inv db1" by (rule risk_inv_fired_new [OF ev(1) demo_ready(1,2) ev(2)]) simp
  have rows: "rk_ID ` set (db_risk_rows db1) = {7, 9}" using fired_new [OF ev(1) demo_ready(1) ev(2)] by (auto simp: fresh_meta_def)
  have own: "own_risks db1 = [demo_own 7]" using db1(2) by (simp add: engine_frame_def)
  have fresh: "60 \<noteq> e \<Longrightarrow> e \<notin> ae_ID ` set (db_agg_evaluations db1)" for e by (simp add: db1(3) evaluation_row_def id)
  have cols: "ag_ID demo_rule_row = 50" "ag_ActivatedAt demo_rule_row = Some 0" "ag_WindowDays demo_rule_row = 1"
    by (simp_all add: demo_rule_row_def)
  from demo_fires [OF db1(1) inv, of "demo_env_at (days 2) 10 62" "days 2"]
  obtain ev'' db3 m' where next_day: "evaluateRule demo_agg_lib (demo_env_at (days 2) 10 62) (days 2) 1 demo_rule_row db1 = Inr (ev'', db3)"
    "evl_MetaRiskID ev'' = Some m'"
    using demo_children [of db1 "[7]" "days 2"] own rows fresh [of 62] engine_frame_rules [OF db1(2)] by auto
  have fl: "dayFloorUTC (days 1) = days 1" "dayFloorUTC (days 2) = days 2" "days 1 < days 2" "dayFloorUTC 0 = 0"
    by (simp_all add: dayFloorUTC_def days_def hours_def)
  note th = meta_risk_per_window [OF ev(1) demo_ready(1) ev(2)]
  from th [of "demo_env_at (days 1) 11 61" "days 1", THEN conjunct1] fresh [of 61]
  obtain ev' db2 where same: "evaluateRule demo_agg_lib (demo_env_at (days 1) 11 61) (days 1) 1 demo_rule_row db1 = Inr (ev', db2)"
    "evl_MetaRiskID ev' = Some 9" "map frozen (db_risk_rows db2) = map frozen (db_risk_rows db1)" by auto
  have "sl_sha256hex (gl_score demo_agg_lib) = id" by (simp add: demo_agg_lib_def demo_score_lib_def)
  then have "m' \<noteq> 9 \<and> (\<exists>r. db_risk_rows db3 = db_risk_rows db1 @ [r])"
    using th [of "demo_env_at (days 2) 10 62" "days 2", THEN conjunct2, rule_format, of 0 0 "days 2 - days 1" ev'' db3 m'] next_day
    by (auto simp: cols fl)
  with ev same next_day show ?thesis by (auto dest!: map_eq_imp_length_eq)
qed

lemma rule_children_intro:
  assumes "unmarshal_rule (ag_RuleBody row) = Some rule" "c \<in> set (own_risks db)" "rk_TenantID c = t" "ru_TargetTheme rule \<in> set (rk_Themes c)"
    "pgTime (window_start row now) \<le> rk_CreatedAt c" "rk_Methodology c = RiskMethodologyQualitative5x5"
    "severityFromInherent (gl_score lib) (rk_InherentScore c) = Some s"
  shows "(s, c) \<in> set (rule_children lib t row now db)"
  using assms by (simp add: rule_children_def scored_candidates map_filter_pair)

lemma demo_trim: "TrimSpace ''own'' = ''own''"
proof -
  have "trim_prefixes space_runes ''own'' = ''own''" by (rule trim_prefixes_id) (auto simp: space_runes_def)
  moreover have "trim_prefixes (map rev space_runes) ''nwo'' = ''nwo''" by (rule trim_prefixes_id) (auto simp: space_runes_def)
  ultimately show ?thesis by (simp add: TrimSpace_def)
qed

lemma ready_append:
  assumes "engine_ready lib t db" "db_risk_rows db' = db_risk_rows db @ [r]" "rk_ID r \<notin> rk_ID ` set (db_risk_rows db)"
    "length (own_risks db) < 2 ^ 53" "\<And>rid ws. json_text (rk_InherentScore r) ''aggregation_key'' \<noteq> Some (windowKey lib rid ws)"
  shows "engine_ready lib t db'"
  using assms by (auto simp: engine_ready_def own_risks_def)

text \<open>
  The user aggregates the meta-risk of the first firing under a parent; the second firing links that
  parent under the meta-risk.
\<close>

theorem firing_acyclic_iff_witness:
  "\<exists>ev db1 r db2 ev' db3. evaluateRule demo_agg_lib (demo_env_at (days 1) 9 60) (days 1) 1 demo_rule_row demo_agg_db = Inr (ev, db1)
     \<and> acyclic (rolls_up db1)
     \<and> Aggregate demo_score_lib (\<lambda>_ _. []) demo_env (days 1) 10 (demo_aggregation SeverityFunctionMax [9]) db1 = (Inr r, db2) \<and> acyclic (rolls_up db2)
     \<and> evaluateRule demo_agg_lib (demo_env_at (days 1) 11 61) (days 1) 1 demo_rule_row db2 = Inr (ev', db3) \<and> \<not> acyclic (rolls_up db3)"
proof -
  obtain ev db1 where ev: "evaluateRule demo_agg_lib (demo_env_at (days 1) 9 60) (days 1) 1 demo_rule_row demo_agg_db = Inr (ev, db1)"
    "evl_MetaRiskID ev = Some 9" by (rule demo_first)
  from ev(1) demo_ready(1) have db1: "engine_ready demo_agg_lib 1 db1" "engine_frame 1 demo_agg_db db1"
    "db_agg_evaluations db1 = [evaluation_row (days 1) 1 ev]" by (rule evaluateRule_frame; simp)+
  have id: "evl_ID ev = 60" using ev(1) by (rule evaluateRule_cases) (auto simp: outcome_of_def)
  have inv: "risk_inv db1" by (rule risk_inv_fired_new [OF ev(1) demo_ready(1,2) ev(2)]) simp
  have own: "own_risks db1 = [demo_own 7]" using db1(2) by (simp add: engine_frame_def)
  obtain M where M: "db_risk_rows db1 = [demo_own 7, M]" "generated M" "rk_ID M = 9" "rk_TenantID M = 1" "rk_Themes M = [''own'']"
      "rk_Methodology M = RiskMethodologyQualitative5x5"
    using fired_new [OF ev(1) demo_ready(1) ev(2)] demo_children [of demo_agg_db "[7]" "days 1"] by (auto simp: fresh_meta_def)
  let ?inp = "demo_aggregation SeverityFunctionMax [9]"
  have valid: "aggregate_valid ?inp"
    by (simp add: aggregate_valid_def demo_aggregation_def isValidLevel_def AllowedSeverityFunctions_def)
  define key where "key = key_of demo_score_lib ?inp"
  have hd_key: "hd key = CHR ''a''" "key \<noteq> []"
    by (simp_all add: key_def key_of_def demo_aggregation_def AggregationKey_def demo_score_lib_def)
  have wk: "hd (windowKey demo_agg_lib rid ws) \<noteq> CHR ''a''" for rid ws
    by (cases "unat rid") (simp_all add: windowKey_def demo_agg_lib_def demo_score_lib_def)
  have key_other: "Some key \<noteq> Some (windowKey demo_agg_lib rid ws)" for rid ws using hd_key wk [of rid ws] by auto
  obtain existing where "GetRuleMetaRiskByKey 1 (windowKey demo_agg_lib 50 0) db1 = Some existing" "rk_ID existing = 9"
    by (rule fired_meta [OF ev(1) demo_ready(1) ev(2)]) (simp add: demo_window, simp add: demo_rule_row_def)
  then have stored: "json_text (rk_InherentScore M) ''aggregation_key'' = Some (windowKey demo_agg_lib 50 0)"
    using M(3) by (auto simp: GetRuleMetaRiskByKey_def M(1) demo_own_score split: if_splits)
  have none: "GetRiskByAggregationKey 1 key db1 = None"
    using key_other by (auto simp: GetRiskByAggregationKey_def M(1) demo_own_score stored)
  have Mok: "risk_row_ok M" using inv by (simp add: risk_shape_def M(1))
  have found: "ListRisksByIDs 1 [9] db1 = [M]" by (simp add: ListRisksByIDs_def M)
  obtain cs where cs: "child_scores demo_score_lib [M] = Inr cs" "length cs = 1"
    using child_scores_grid [of "[M]" demo_score_lib] Mok M(6) by (auto simp: IsAggregableMethodology_def)
  then have sev: "ComputeSeverity demo_score_lib SeverityFunctionMax cs = Inr (capScale (max_severity cs))" by (auto simp: ComputeSeverity_def)
  have lib: "sl_jsonb_ok demo_score_lib = (\<lambda>_. True)" "ai_ParentOrgUnitID ?inp = None" "ai_ParentLevel ?inp = ''org''"
      "ai_SeverityFunction ?inp = SeverityFunctionMax" "uniqueUUIDs (ai_ChildRiskIDs ?inp) = [9]" "rk_Category M \<in> risk_categories"
    using Mok by (simp_all add: demo_score_lib_def demo_aggregation_def risk_row_ok_def)
  have "\<exists>x. aggregate_new demo_score_lib (\<lambda>_ _. []) (days 1) 10 ?inp [9] key 1 db1 = Inr x"
    by (cases "DeriveGridCell demo_score_lib (capScale (max_severity cs))")
      (simp add: aggregate_new_def Let_def found cs sev lib M CreateAggregateRisk_def jsonb_in_def insert_risk_def
        risk_methodologies_def risk_treatments_def risk_levels_def risks_check_def parent_fk_def
        LinkRiskAggregation_def GetRiskByID_def del: One_nat_def child_scores.simps jsonb.simps)
  then obtain r db2 where new: "aggregate_new demo_score_lib (\<lambda>_ _. []) (days 1) 10 ?inp [9] key 1 db1 = Inr (r, db2)" by auto
  then have agg: "Aggregate demo_score_lib (\<lambda>_ _. []) demo_env (days 1) 10 ?inp db1 = (Inr r, db2)"
    using Aggregate_run [OF valid demo_env_simps(2,1), of demo_score_lib "\<lambda>_ _. []" "days 1" 10 db1] none lib(5) by (simp add: key_def)
  obtain P links where P: "db2 = db1\<lparr>db_risk_rows := db_risk_rows db1 @ [P], db_risk_aggregations := db_risk_aggregations db1 @ links\<rparr>"
    "rk_ID P = 10" "10 \<notin> rk_ID ` set (db_risk_rows db1)" "rk_TenantID P = 1" "rk_Methodology P = RiskMethodologyQualitative5x5"
    "rk_Themes P = normaliseThemes demo_score_lib (concat (map rk_Themes (ListRisksByIDs 1 [9] db1)))" "rk_CreatedAt P = pgTime (days 1)"
    "json_text (rk_InherentScore P) ''aggregation_key'' = Some key" "\<not> generated P"
    "severityFromInherent demo_score_lib (rk_InherentScore P) \<noteq> None" "rolls_up db2 = rolls_up db1 \<union> {10} \<times> set [9]"
    by (rule aggregate_new_parent [OF new]) simp_all
  have themes: "rk_Themes P = [''own'']" by (simp add: P(6) found M(5) normaliseThemes_def demo_trim) (simp add: demo_score_lib_def)
  have ready2: "engine_ready demo_agg_lib 1 db2"
    by (rule ready_append [OF db1(1), of db2 P]) (use P own key_other in simp_all)
  have inv2: "risk_inv db2" by (rule risk_inv_Aggregate [OF inv agg]) (simp add: demo_aggregation_def)
  obtain s' where s': "severityFromInherent demo_score_lib (rk_InherentScore P) = Some s'" using P(10) by blast
  have "P \<in> set (own_risks db2)" using P(1,9) by (simp add: own_risks_def)
  moreover have "pgTime (window_start demo_rule_row (days 1)) \<le> rk_CreatedAt P"
    unfolding demo_window P(7) by (rule pgTime_mono) (simp add: days_def hours_def)
  moreover have "ru_TargetTheme demo_rule \<in> set (rk_Themes P)" "severityFromInherent (gl_score demo_agg_lib) (rk_InherentScore P) = Some s'"
    using themes s' by (simp_all add: demo_rule_def demo_agg_lib_def)
  ultimately have kid: "(s', P) \<in> set (rule_children demo_agg_lib 1 demo_rule_row (days 1) db2)"
    using rule_children_intro [OF demo_rule_stored, of P db2 1 "days 1" demo_agg_lib s'] P(4,5) by simp
  then have some_kid: "rule_children demo_agg_lib 1 demo_rule_row (days 1) db2 \<noteq> []" by auto
  have meta2: "GetRuleMetaRiskByKey 1 (windowKey demo_agg_lib 50 0) db2 = Some M"
    by (simp add: GetRuleMetaRiskByKey_def P(1) M demo_own_score stored)
  obtain ev' db3 where ev': "evaluateRule demo_agg_lib (demo_env_at (days 1) 11 61) (days 1) 1 demo_rule_row db2 = Inr (ev', db3)"
    "evl_MetaRiskID ev' = Some 9"
    using demo_fires [OF ready2 inv2, of "demo_env_at (days 1) 11 61" "days 1"] some_kid meta2 M P(1,2) engine_frame_rules [OF db1(2)] db1(3) id
    by (auto simp: demo_window evaluation_row_def)
  have "(10, 9) \<in> (rolls_up db2)\<^sup>*" by (simp add: P(11) r_into_rtrancl)
  then have "\<not> acyclic (rolls_up db3)"
    using firing_acyclic_iff [OF ev'(1) ready2 inv2 ev'(2)] kid P(2) by fastforce
  with ev(1) agg ev'(1) inv inv2 show ?thesis by (auto simp: risk_shape_def)
qed

end
