(* ===== verification/Risk_Typing.thy ===== *)
theory Risk_Typing
  imports Agg_Rule_Run
begin

text \<open>
  The typing of the risk register over the writes of the risk store, of confirmed changes of treatment,
  of the residual derivation and of the rule engine together: the engine writes meta-risks and their
  links into the tables of the register.
\<close>

section \<open>The engine keeps the register typed\<close>

text \<open>
  The engine overwrites the score of whatever risk carries the key of the window, with a score of a
  grid methodology. A user who plants such a key in a FAIR score would have it overwritten.
\<close>

definition grid_window_keys :: "agg_lib \<Rightarrow> 'z org_db_scheme \<Rightarrow> bool" where
  "grid_window_keys lib db \<longleftrightarrow>
     (\<forall>r \<in> set (db_risk_rows db). \<forall>rid ws. json_text (rk_InherentScore r) ''aggregation_key'' = Some (windowKey lib rid ws) \<longrightarrow>
        IsAggregableMethodology (rk_Methodology r))"

definition engine_safe :: "agg_lib \<Rightarrow> 'z org_db_scheme \<Rightarrow> bool" where
  "engine_safe lib db \<longleftrightarrow> grid_window_keys lib db \<and> length (own_risks db) \<le> 2 ^ 53"

lemma score_ok_grid_change:
  "score_ok RiskMethodologyQualitative5x5 j \<Longrightarrow> IsAggregableMethodology m \<Longrightarrow> score_ok m j"
  by (auto simp: score_ok_def IsAggregableMethodology_def methodology_defs)

lemma typed_rows_change:
  assumes "risk_typed db" "distinct (map rk_ID rows)" "\<forall>r \<in> set rows. risk_row_ok r"
    and "\<And>u i. has_risk u i db \<Longrightarrow> has_risk u i (db\<lparr>db_risk_rows := rows\<rparr>)"
    and "\<forall>a \<in> set new. agg_ok (db\<lparr>db_risk_rows := rows\<rparr>) a"
  shows "risk_typed (db\<lparr>db_risk_rows := rows, db_risk_aggregations := db_risk_aggregations db @ new\<rparr>)"
  using assms by (auto simp: risk_shape_def risk_link_ok_def agg_ok_def)

lemma set_meta_typed:
  assumes "risk_typed db" "existing \<in> set (db_risk_rows db)" "rk_TenantID existing = t" "IsAggregableMethodology (rk_Methodology existing)"
    and "score_ok RiskMethodologyQualitative5x5 j" "isRuleGenerated j" and rows: "rows = set_meta dbnow t (rk_ID existing) j (db_risk_rows db)"
  shows "distinct (map rk_ID rows)" "\<forall>r \<in> set rows. risk_row_ok r" "has_risk u i (db\<lparr>db_risk_rows := rows\<rparr>) = has_risk u i db"
    "length (filter (\<lambda>r. \<not> generated r) rows) \<le> length (filter (\<lambda>r. \<not> generated r) (db_risk_rows db))"
    "grid_window_keys lib db \<Longrightarrow> grid_window_keys lib (db\<lparr>db_risk_rows := rows\<rparr>)"
proof -
  let ?f = "\<lambda>r. r\<lparr>rk_InherentScore := j, rk_UpdatedAt := pgTime dbnow\<rparr>"
  have upd: "rows = sql_update (\<lambda>r. rk_TenantID r = t \<and> rk_ID r = rk_ID existing) ?f (db_risk_rows db)" by (simp add: rows set_meta_def)
  have d: "distinct (map rk_ID (db_risk_rows db))" and ok: "\<forall>r \<in> set (db_risk_rows db). risk_row_ok r"
    using assms(1) by (auto simp: risk_shape_def)
  have only: "r = existing" if "r \<in> set (db_risk_rows db)" "rk_ID r = rk_ID existing" for r
    using that assms(2) distinct_key_unique [OF d] by blast
  have mem: "r \<in> set (db_risk_rows db) \<or> r = ?f existing" if "r \<in> set rows" for r
    using that only by (auto simp: upd sql_simps)
  have "risk_row_ok (?f existing)"
    using ok assms(2) score_ok_grid_change [OF assms(5,4)] by (auto simp: risk_row_ok_def risks_check_def)
  then show "\<forall>r \<in> set rows. risk_row_ok r" using mem ok by blast
  have "map rk_ID rows = map rk_ID (db_risk_rows db)" unfolding upd by (rule map_sql_update_frame) simp
  then show "distinct (map rk_ID rows)" using d by simp
  have "map (\<lambda>r. (rk_TenantID r, rk_ID r)) rows = map (\<lambda>r. (rk_TenantID r, rk_ID r)) (db_risk_rows db)"
    unfolding upd by (rule map_sql_update_frame) simp
  then show "has_risk u i (db\<lparr>db_risk_rows := rows\<rparr>) = has_risk u i db" by (simp only: has_risk_keys) simp
  have "length (filter (\<lambda>r. \<not> generated r) (sql_update P ?f xs)) \<le> length (filter (\<lambda>r. \<not> generated r) xs)" for P xs
    using assms(6) by (induction xs) (auto simp: sql_update_def generated_def)
  then show "length (filter (\<lambda>r. \<not> generated r) rows) \<le> length (filter (\<lambda>r. \<not> generated r) (db_risk_rows db))" by (simp add: upd)
  show "grid_window_keys lib (db\<lparr>db_risk_rows := rows\<rparr>)" if "grid_window_keys lib db"
    using that mem assms(4) by (fastforce simp: grid_window_keys_def)
qed

lemma upsertMetaRisk_typed:
  assumes up: "upsertMetaRisk lib re dbnow t rule rid (windowKey lib rid ws) ws sev (fst (DeriveGridCell (gl_score lib) sev))
      (snd (DeriveGridCell (gl_score lib) sev)) n category themes (map rk_ID (map snd kids)) db = Inr (m, db')"
    and sev: "ComputeRuleSeverity lib fn scores policy = Inr sev" and n: "n \<le> 2 ^ 53"
    and kids: "\<forall>(s, c) \<in> set kids. c \<in> set (db_risk_rows db) \<and> rk_TenantID c = t" and db: "risk_typed db" "engine_safe lib db"
  shows "risk_typed db' \<and> engine_safe lib db'"
proof -
  from up obtain j rows new where j: "jsonb_in (gl_score lib) (Some (meta_inherent lib rule (windowKey lib rid ws) ws sev
      (fst (DeriveGridCell (gl_score lib) sev)) (snd (DeriveGridCell (gl_score lib) sev)) n)) = Some j"
    and db': "db' = db\<lparr>db_risk_rows := rows, db_risk_aggregations := db_risk_aggregations db @ new\<rparr>"
    and new: "\<forall>a \<in> set new. ra_ParentRiskID a = m \<and> ra_ChildRiskID a \<in> set (map rk_ID (map snd kids)) \<and> ra_RuleID a = Some rid \<and> ra_TenantID a = t"
    and cases: "(\<exists>existing. GetRuleMetaRiskByKey t (windowKey lib rid ws) db = Some existing \<and> m = rk_ID existing \<and> rows = set_meta dbnow t m j (db_risk_rows db))
     \<or> GetRuleMetaRiskByKey t (windowKey lib rid ws) db = None \<and> m = re_metaID re
       \<and> (\<exists>row. insert_risk row db = Inr (row, db\<lparr>db_risk_rows := rows\<rparr>) \<and> rows = db_risk_rows db @ [row]
            \<and> rk_InherentScore row = j \<and> fresh_meta dbnow t rule themes m row)"
    by (rule upsertMetaRisk_cases)
  have s: "0 \<le> sev" "sev \<le> SeverityScaleMax" using ComputeRuleSeverity_bounds [OF sev] by simp_all
  note meta = stored_meta [OF j DeriveGridCell_range [OF s] s(1) s(2) [unfolded SeverityScaleMax_def] n]
  have rows: "distinct (map rk_ID rows) \<and> (\<forall>r \<in> set rows. risk_row_ok r) \<and> (\<forall>u i. has_risk u i db \<longrightarrow> has_risk u i (db\<lparr>db_risk_rows := rows\<rparr>))
    \<and> has_risk t m (db\<lparr>db_risk_rows := rows\<rparr>) \<and> engine_safe lib (db\<lparr>db_risk_rows := rows\<rparr>)"
    using cases
  proof (elim disjE exE conjE, goal_cases)
    case (1 existing)
    then have ex: "existing \<in> set (db_risk_rows db)" "rk_TenantID existing = t" "json_text (rk_InherentScore existing) ''aggregation_key'' = Some (windowKey lib rid ws)"
      by (auto simp: GetRuleMetaRiskByKey_def dest: find_SomeD)
    then have "IsAggregableMethodology (rk_Methodology existing)" using db(2) by (auto simp: engine_safe_def grid_window_keys_def)
    from set_meta_typed [OF db(1) ex(1,2) this meta(3,2) 1(3) [unfolded 1(2)]] ex(1,2) 1(2) db(2) show ?case
      by (auto simp: engine_safe_def own_risks_def has_risk_def intro: order_trans)
  next
    case (2 row)
    from 2(3) have ins: "rk_ID row \<notin> rk_ID ` set (db_risk_rows db)" "risk_row_ok row"
      using meta(3) 2(5,6) by (auto elim!: insert_risk_InrE simp: risk_row_ok_def fresh_meta_def)
    with 2(4-6) db meta(2) show ?case
      by (auto simp: risk_shape_def has_risk_def fresh_meta_def engine_safe_def grid_window_keys_def own_risks_def generated_def
          IsAggregableMethodology_def)
  qed
  have "has_risk t c db" if "c \<in> set (map rk_ID (map snd kids))" for c using that kids by (force simp: has_risk_def)
  then have "\<forall>a \<in> set new. agg_ok (db\<lparr>db_risk_rows := rows\<rparr>) a" using new rows by (auto simp: agg_ok_def)
  then have "risk_typed db'" unfolding db' by (intro typed_rows_change [OF db(1)]) (use rows in auto)
  moreover have "engine_safe lib db'" using rows by (simp add: db' engine_safe_def grid_window_keys_def own_risks_def)
  ultimately show ?thesis ..
qed

lemma typed_evaluations [simp]:
  "risk_typed (db\<lparr>db_agg_evaluations := x\<rparr>) = risk_typed db" "engine_safe lib (db\<lparr>db_agg_evaluations := x\<rparr>) = engine_safe lib db"
  by (simp_all add: risk_shape_def risk_link_ok_def agg_ok_def has_risk_def GetControlByID_def engine_safe_def grid_window_keys_def own_risks_def)

lemma evaluateRule_typed:
  assumes "evaluateRule lib re dbnow t row db = Inr (ev, db')" "risk_typed db" "engine_safe lib db"
  shows "risk_typed db' \<and> engine_safe lib db'"
  using assms(1)
proof (cases rule: evaluateRule_cases)
  case (1 rule kids)
  have n: "length kids \<le> 2 ^ 53" using assms(3) rule_children_length [of lib t row "re_now re" db] by (simp add: 1(2) engine_safe_def)
  have kids: "\<forall>(s, c) \<in> set kids. c \<in> set (db_risk_rows db) \<and> rk_TenantID c = t"
    using rule_children_mem(1,2) [of _ _ lib t row "re_now re" db] by (fastforce simp: 1(2) own_risks_def)
  from 1(5) show ?thesis
  proof (elim disjE exE conjE, goal_cases)
    case 1
    with assms(2,3) show ?case by simp
  next
    case (2 sev m db1)
    from upsertMetaRisk_typed [OF 2(3,2) n kids assms(2,3)] 2(5) show ?case by simp
  qed
qed

lemma evaluate_rules_typed:
  "evaluate_rules lib res dbnow t rules db = Inr (evs, db') \<Longrightarrow> risk_typed db \<Longrightarrow> engine_safe lib db \<Longrightarrow> risk_typed db'"
proof (induction rules arbitrary: db evs)
  case (Cons rule rules)
  then show ?case using evaluateRule_typed by (fastforce split: sum.splits prod.splits)
qed simp

lemma ag_Evaluate_typed:
  assumes "ag_Evaluate lib res env dbnow themes db = (r, db')" "risk_typed db" "engine_safe lib db"
  shows "risk_typed db'"
  using assms(1) unfolding ag_Evaluate_def Engine_Evaluate_def
  by (cases rule: inTx_cases) (use evaluate_rules_typed assms(2,3) in auto)


section \<open>Properties\<close>

inductive register_step :: "agg_lib \<Rightarrow> 'z agg_db_scheme \<Rightarrow> 'z agg_db_scheme \<Rightarrow> bool" for lib where
  register: "risk_step (gl_score lib) db db' \<Longrightarrow> register_step lib db db'"
| engine: "ag_Evaluate lib res env dbnow themes db = (r, db') \<Longrightarrow> engine_safe lib db \<Longrightarrow> register_step lib db db'"

lemma register_run_typed:
  "(register_step lib)\<^sup>*\<^sup>* db db' \<Longrightarrow> digits_ok (gl_score lib) \<Longrightarrow> risk_typed db \<Longrightarrow> risk_typed db'"
  by (induction rule: rtranclp_induct) (auto elim!: register_step.cases intro: risk_inv_step ag_Evaluate_typed)

text \<open>
  C6. Every risk that the store or the rule engine writes stays well typed. Whatever sequence of creations,
  deletions, control links, theme assignments, aggregations, residual updates, confirmed changes of treatment,
  changes to controls and runs of the rule engine there is, every row has a category, methodology, treatment and
  level of their enumerations, an \<open>accept\<close> keeps its accepter and expiry and a \<open>transfer\<close> its instrument, and
  its score has the shape of its methodology, also after \<open>jsonb\<close> has stored it; links and aggregations point at
  rows of their own tenant, and links have weights in [0, 1]. So aggregating risks of grid methodologies never
  fails on a stored score: each has a likelihood and an impact in 1 to 5. The scalar that a derivation starts from
  is a finite number for every risk of a grid methodology or FAIR, and for the two permissive methodologies exactly
  when the score has a numeric severity. Without a run of the rule engine a hierarchy without cycles stays so.
  When the engine runs, only risks of grid methodologies may carry the key of a window. The confirmed proposal of a
  new risk is not among the writers: it validates no score.
\<close>

theorem risk_register_typed:
  assumes "(register_step lib)\<^sup>*\<^sup>* db db'" "risk_typed db" "digits_ok (gl_score lib)"
  shows "risk_typed db'
    \<and> (\<forall>t ids. (\<forall>r \<in> set (ListRisksByIDs t ids db'). IsAggregableMethodology (rk_Methodology r)) \<longrightarrow>
           (\<exists>cs. child_scores (gl_score lib) (ListRisksByIDs t ids db') = Inr cs \<and> length cs = length (ListRisksByIDs t ids db')
              \<and> list_all on_grid cs))
    \<and> (\<forall>r \<in> set (db_risk_rows db'). if has_scalar r
           then \<exists>x. inherentScalar (rk_Methodology r) (rk_InherentScore r) = Some (Fin x) \<and> is_float64 x
           else inherentScalar (rk_Methodology r) (rk_InherentScore r) = None)
    \<and> (\<forall>db''. (risk_step (gl_score lib))\<^sup>*\<^sup>* db' db'' \<and> acyclic (rolls_up db') \<longrightarrow> acyclic (rolls_up db''))"
proof -
  have typed: "risk_typed db'" by (rule register_run_typed [OF assms(1,3,2)])
  moreover have "acyclic (rolls_up db'')" if "(risk_step (gl_score lib))\<^sup>*\<^sup>* db' db''" "acyclic (rolls_up db')" for db''
    using risk_inv_run [OF that(1) assms(3), of True] typed that(2) by (simp add: risk_inv_iff)
  ultimately show ?thesis using typed_children [OF typed] typed_scalar [OF typed] by blast
qed

theorem risk_register_typed_witness:
  "\<exists>ev db'. ag_Evaluate demo_agg_lib demo_res demo_env (days 1) [] demo_agg_db = (Inr [ev], db') \<and> evl_MetaRiskID ev = Some 9
     \<and> risk_typed db' \<and> demo_own 7 \<in> set (db_risk_rows db')
     \<and> (\<exists>x. inherentScalar RiskMethodologyQualitative5x5 (rk_InherentScore (demo_own 7)) = Some (Fin x))"
proof -
  obtain ev db' where ev: "evaluateRule demo_agg_lib (demo_env_at (days 1) 9 60) (days 1) 1 demo_rule_row demo_agg_db = Inr (ev, db')"
    "evl_MetaRiskID ev = Some 9" by (rule demo_first)
  have "ListActiveAggregationRules 1 demo_agg_db = [demo_rule_row]"
    by (simp add: ListActiveAggregationRules_def) (simp add: demo_rule_row_def)
  then have run: "ag_Evaluate demo_agg_lib demo_res demo_env (days 1) [] demo_agg_db = (Inr [ev], db')"
    using ev by (simp add: ag_Evaluate_def Engine_Evaluate_def inTx_run triggered_def demo_res_def)
  have "engine_safe demo_agg_lib demo_agg_db" by (simp add: engine_safe_def grid_window_keys_def demo_own_score)
  then have "(register_step demo_agg_lib)\<^sup>*\<^sup>* demo_agg_db db'" using register_step.engine [OF run] by blast
  moreover have "risk_typed demo_agg_db" "digits_ok (gl_score demo_agg_lib)"
    using demo_ready(2) demo_digits_ok by (simp_all add: risk_inv_iff demo_agg_lib_def)
  ultimately have typed: "risk_typed db' \<and> (\<forall>r \<in> set (db_risk_rows db'). if has_scalar r
           then \<exists>x. inherentScalar (rk_Methodology r) (rk_InherentScore r) = Some (Fin x) \<and> is_float64 x
           else inherentScalar (rk_Methodology r) (rk_InherentScore r) = None)"
    using risk_register_typed [of demo_agg_lib demo_agg_db db'] by blast
  have "engine_frame 1 demo_agg_db db'" using ev(1) demo_ready(1) by (rule evaluateRule_frame)
  then have "own_risks db' = [demo_own 7]" by (simp add: engine_frame_def)
  then have own: "demo_own 7 \<in> set (db_risk_rows db')" unfolding own_risks_def by (metis filter_is_subset list.set_intros(1) subsetD)
  have "has_scalar (demo_own 7)" by (simp add: has_scalar_def IsAggregableMethodology_def)
  with typed own run ev(2) show ?thesis by fastforce
qed

end
