(* ===== verification/Spec2Isabelle.thy ===== *)
theory Spec2Isabelle
  imports Framework_Scope_Store Read_Models Exception_Store Action_Plan_Run Stream_Buffer Audit_Population Risk_Residual Risk_Typing
begin

text \<open>
  A verification library for the compliance platform security-atlas: the Go packages under
  \<open>src/internal\<close> that take evidence in, decide what a control applies to, whether it holds, who may
  except it, what an audit sees, how remediation is tracked and how risks are scored.

  \<^bold>\<open>The program.\<close> The platform is a set of stores over one PostgreSQL database, shared by
  tenants. Every method of a store runs its body in one transaction: the tenant is taken from
  the request context (\<open>internal/tenancy\<close>), set in the transaction for row-level security,
  and the body reads and writes through the generated query methods of \<open>internal/db/dbx\<close>.
  Scopes say which cells of an organisation exist and which a control covers; framework scopes
  narrow them for one framework after an approval workflow. Evidence arrives as protobuf records,
  through a message stream or directly: it is checked against its credential and its schema,
  redacted, hashed and appended to a ledger whose rows can be verified later. The evaluation engine resolves a
  control to cells, reads the ledger, runs the control's queries and
  appends an evaluation row per cell; a sweep and a message consumer drive it, and
  the freshness and drift read models summarise its rows. Exceptions waive
  a control for a while. Audit periods freeze a horizon over the ledger with a content hash, and
  auditors draw replayable samples from populations of evidence.
  Action plans track remediation, and the frozen view of a period lists them. Risks hang on a tree of organisational units; they are scored by a methodology,
  linked to controls, rolled up into parents, and have a residual that is derived from the
  evaluations of their controls whenever evidence arrives.

  \<^bold>\<open>How it is modelled.\<close> The database is a record of tables, each a list of row records;
  a component extends the record of the component below it, so every definition is
  polymorphic in the tables it does not know. A query is a function on the record, with the
  constraints of its table that it can violate as values of \<open>pg_error\<close>. \<open>inTx\<close> is the
  transaction wrapper: on an error the database is the one before. A store method is one
  definition with its Go name, prefixed where two packages share it (\<open>fs_\<close>, \<open>ex_\<close>,
  \<open>pd_\<close>, \<open>plan_\<close>); its errors are values of a datatype. Times are integers of
  nanoseconds since year 1, \<open>pgTime\<close> is the microsecond precision of a timestamp column,
  identifiers are 128-bit words, texts are byte strings. What Go draws at run time, the clock
  and fresh identifiers, are arguments.

  \<^bold>\<open>The theories.\<close>
  \<^item> \<open>Atlas_Prelude\<close>: types, tenancy (\<open>internal/tenancy\<close>), \<open>inTx\<close>, the SQL shapes
    and their lemmas, white-space trimming.
  \<^item> \<open>Json_Text\<close>: how \<open>encoding/json\<close> writes a string, and that this is injective
    and can be read back from a longer text.
  \<^item> \<open>Lifecycle\<close>: the contract of the workflow stores as the locales \<open>lifecycle\<close>,
    \<open>audited_lifecycle\<close> and \<open>ranked_lifecycle\<close>: a step relation, an invariant, the status
    of an entity, the edges of a diagram and the trail of statuses in an audit table. Over whole
    runs the trail is a walk of the diagram that ends in the current status, and a status with
    no edge out of it is final. \<open>Exception_Store\<close>, \<open>Audit_Period\<close>,
    \<open>Action_Plan_Run\<close> and \<open>Agg_Rule_Run\<close> interpret it on their own step relations.
  \<^item> \<open>Append_Log\<close>: the contract of the append-only tables as the locale \<open>append_log\<close>: every
    step appends rows and the key of a row stays unique; so over whole runs a row that was once
    written is found again under its key, alone. \<open>Evidence_Ingest\<close> interprets it on the ledger and
    \<open>Audit_Population\<close> on the stored samples.
  \<^item> \<open>Go_Strings\<close>: the functions of package \<open>strings\<close> that the ingestion code uses, with their
    laws.
  \<^item> \<open>Go_Time\<close>: the RFC 3339 text of an instant, from the Gregorian calendar, and that the texts of two
    midnights differ.
  \<^item> \<open>Scope_Expr\<close> (\<open>scope/expr.go\<close>, \<open>scope/canonical.go\<close>): expressions over cells,
    their validator and matcher against a denotation, canonical dimension maps; the locale
    \<open>cell_engine\<close> states what the rest relies on; that the canonical bytes are faithful. C1.
  \<^item> \<open>Scope_Store\<close> (\<open>scope/store.go\<close>): seeding, cells, applicability; that seeding twice is
    seeding once and that cells are unique.
  \<^item> \<open>Framework_Scope\<close> (\<open>frameworkscope/canonical.go\<close>, \<open>predicate.go\<close>): canonical
    JSON, predicate validation, effective scope. C7.
  \<^item> \<open>Framework_Scope_Store\<close> (\<open>frameworkscope/store.go\<close>): the approval workflow with the
    trigger and the index of its migration: its invariant, its lifecycle, activation and editing. C8, C11.
  \<^item> \<open>Eval_State\<close> (\<open>eval/state.go\<close>): roll-up, with its precedence, and that freshness and the freshness
    window agree.
  \<^item> \<open>Eval_Query\<close> (\<open>eval/rego.go\<close>, \<open>sql.go\<close>, \<open>jsonpath.go\<close>): query dispatch,
    the static SQL guard and the texts that reach the database, classification of results. C16.
  \<^item> \<open>Eval_Engine\<close> (\<open>eval/store.go\<close>, \<open>engine.go\<close>, \<open>query.go\<close>,
    \<open>effectiveness.go\<close>, \<open>fixture.go\<close>): evaluation and its reads; the locale
    \<open>cell_resolver\<close> is the interface to the scope store; that the fixture runner agrees
    with the engine and that a state is read as it was evaluated. C18, C19.
  \<^item> \<open>Eval_Consumer\<close> (\<open>eval/consumer.go\<close>): sweep and message handling; that a
    sweep covers every active control.
  \<^item> \<open>Read_Models\<close> (\<open>freshness/freshness.go\<close>, \<open>drift/drift.go\<close>,
    \<open>freshnessdrift/worker.go\<close>): the freshness table against the engine, drift snapshots and
    reports, the worker that refreshes both and never writes the ledgers. C12, C20.
  \<^item> \<open>Exception_Store\<close> (\<open>exception/store.go\<close>, \<open>expiry.go\<close>): waivers with segregation
    of duties, the 365-day cap, their audit table and the expiry sweep. C28 to C31.
  \<^item> \<open>Audit_Period\<close> (\<open>audit/period/period.go\<close>): periods, freezing and its content hash,
    the frozen control state, attaching populations. C33, C34.
  \<^item> \<open>Audit_Sample\<close> (\<open>audit/sample/sampler.go\<close>): the seeded partial shuffle on 64-bit
    words. C5.
  \<^item> \<open>Action_Plan\<close> (\<open>actionplan/statemachine.go\<close>, \<open>store.go\<close>,
    \<open>audit/period/snapshot.go\<close>): the definitions; \<open>Action_Plan_Run\<close>: their properties.
    C36, C37, C39, C40.
  \<^item> \<open>Redact\<close> (\<open>evidence/redact/redact.go\<close>): the rules that mask fields of a payload, against
    a reading of the payload by locations. C4.
  \<^item> \<open>Canon_Record\<close> (\<open>canonjson/canonjson.go\<close> and the messages of
    \<open>gen/proto/evidence/v1\<close>): the content hash and the canonical scope.
  \<^item> \<open>Evidence_Ingest\<close> (\<open>evidence/ingest/ingest.go\<close>, \<open>verify.go\<close>): the checks, the ledger
    and audit transactions, the status of a receipt, and the verification of a stored row. C13,
    C15, C17, C21.
  \<^item> \<open>Stream_Buffer\<close> (\<open>evidence/streambuf/streambuf.go\<close>): the publishers and the consumer that
    hands messages to ingestion. C22.
  \<^item> \<open>Audit_Population\<close> (\<open>audit/audit.go\<close>): populations, samples, annotations and their log
    over the ledger, the scope cells and the sampler. C27, C32.
  \<^item> \<open>Org_Unit\<close> (\<open>risk/orgunit.go\<close>): the tree of organisational units and its cycle check. C3,
    C35.
  \<^item> \<open>Go_Float\<close>: \<open>float64\<close> as NaN, infinities and rationals, with the rounding of IEEE 754 to
    the nearest value and ties to even, its monotonicity and the ranges that the operations keep.
  \<^item> \<open>Risk_Score\<close> (\<open>risk/methodology.go\<close>, \<open>treatment.go\<close>, \<open>severity.go\<close>, \<open>residual.go\<close>): the
    schemas of the scores, treatments, aggregated severities and the residual formula, with its
    bounds and its monotonicity.
  \<^item> \<open>Risk_Register\<close> (\<open>risk/store.go\<close>, \<open>theme.go\<close>, \<open>hierarchy.go\<close>, \<open>aggregate.go\<close>, and what
    \<open>mcp/writeproposals/appliers.go\<close> writes into the register): the
    definitions of the register; \<open>Risk_Register_Run\<close>: the shape of the tables over the writes of the store,
    the heat map, the identity of aggregations, and that a confirmed proposal of a risk stores what no
    validation has seen. C10, C14.
  \<^item> \<open>Risk_Residual\<close> (\<open>risk/residual_store.go\<close>, \<open>residual_sub.go\<close>): the derivation over the
    evaluation engine, what it stores, and the subscriber. C9, C23, C25, C26.
  \<^item> \<open>Agg_Rule\<close> (\<open>risk/aggrule/dsl.go\<close>, \<open>severity.go\<close>, \<open>store.go\<close>, \<open>engine.go\<close>): the rules that
    aggregate risks automatically; \<open>Agg_Rule_Run\<close>: a run of the engine, cycles and windows, and the
    lifecycle of a rule as an interpretation of \<open>audited_lifecycle\<close>, by which a rule runs only after
    somebody named in the audit log has activated it. C2, C24, C38.
  \<^item> \<open>Risk_Typing\<close>: the typing of the register over the writes of its store and of the rule engine
    together. C6.

  \<^bold>\<open>What the lemmas show.\<close> For each pure routine, that it computes its specification (C1,
  C4, C5, C7, C16). For each store, that every run keeps an invariant of its tables (C6, C8,
  C13, C18, C28, C35, C36) and where one breaks it (C24), what each operation does on each branch (C2, C10, C11, C14, C20, C21,
  C31, C38), that the operations which should succeed or return do (C19, C30, C35), that what
  is written is read back (C14, C17, C25, C32), that floating-point results stay in their
  range (C23), and that audit tables record the lifecycle (C29, C37).
  Across components: ingestion over redaction and the record hash (C13, C15, C17), the stream over
  ingestion (C22), populations over ingestion, scopes, sampler and periods (C27, C32), the
  evaluation engine over the scope store (C18, C19), the read models over the engine
  (C12, C20), the freeze hash over ledger and catalogue (C33, C34), the frozen view over the action
  plans (C39), the residual over the risk register and the engine (C9, C23, C25, C26), the aggregation
  rules over the register and the aggregations made by hand (C2, C24, C38). Some properties state
  behaviour that the comments or documents do not promise: C3, C10, C11, C12, C20, C21, C22, C24, C25,
  C26, C27, C34, C38, C39, C40.

  \<^bold>\<open>Bounds and termination.\<close> There is no fuel. Every loop of the modelled code but one runs
  over a finite list and is structural recursion, or has a measure (\<open>TrimSpace\<close>, the canonical JSON
  writer, the scanners of the SQL guard, the wildcard suffixes of a redaction rule). The exception
  is the recursive query for the ancestors of a unit, which has no bound in SQL: it is a
  \<open>partial_function\<close> into \<open>option\<close>, C35 proves that it ends on every reachable table and C3 that
  it does not after two overlapping moves. The consumer loop runs over the events of a finite run.
  Page limits, link caps, the skew window and the payload limit are the constants of the code.
  Lengths in Go count bytes and in SQL characters, and the model keeps the difference; times and
  32-bit counts are converted with the wrap-around of the source. The sums of the residual formula
  are exact in their counts up to 2^53 links and evaluations, which is the bound that C2, C6, C14, C23
  and C24 state; no table or request of the program comes near it.

  \<^bold>\<open>Parameters.\<close> SHA-256, ChaCha8, the JSON decoders, OPA, the SQL executor and the JSON-path
  library of the evidence queries, and the text forms of identifiers and times are arguments
  collected in records (\<open>scope_codec\<close>, \<open>eval_lib\<close>, \<open>period_lib\<close>, \<open>plan_lib\<close>,
  \<open>canon_lib\<close>, \<open>ingest_lib\<close>, \<open>stream_lib\<close>, \<open>audit_lib\<close>, \<open>org_lib\<close>, \<open>score_lib\<close>, \<open>agg_lib\<close>), and so are the
  protobuf encoding, the schema registry and what the broker takes and delivers,
  with what is used of them as hypotheses of the properties, which the witnesses discharge for a
  concrete instance.

  \<^bold>\<open>Approximations.\<close> The evaluations table keeps and compares instants with the precision of the clock,
  where PostgreSQL keeps microseconds; the other tables truncate. An interval of days is that many times 24
  hours, as it is in a session that runs in UTC. The header values of a stream message arrive as they were
  sent, while the client library trims white space around them and replaces line breaks. The residual
  formula rounds after every operation; a target on which the compiler fuses a product into a sum rounds
  less often, within the same bounds.

  \<^bold>\<open>Not modelled.\<close> Transactions are serial except where an interleaving is stated (C3, C40).
  Tickers, the set-up of the message stream, the fan-out of audit rows to external sinks, encoding errors of
  text columns and connection failures in the middle of a transaction other than at begin,
  tenant setting and commit are left out. Of the remaining packages the HTTP layer, connectors,
  export, rendering and notification are I/O; authentication and authorization rest on external
  libraries and on policies that are not Go; the language-model features depend on an external
  model; policies, vendors, decisions, incidents, changes and access reviews are
  stores of the same kind as those here and have not been reached yet. Of the aggregation rules the
  decoding of a rule from JSON or YAML and the compilation of a policy are left out.
\<close>

end
